(* ===== verification/Prelude.thy ===== *)
theory Prelude
  imports Complex_Main "HOL-Library.AList" "HOL-Library.List_Lexorder"
    "HOL-Library.Char_ord" "HOL-Library.Product_Lexorder"
begin

text \<open>
  What the components share: results with errors as values, JavaScript values and objects,
  tables of rows with the few SQL statements the stores use, and the lemmas about them.

  Numbers of the source are JavaScript numbers. They are modelled as exact rationals
  (\<open>num\<close>); rounding of IEEE doubles is not modelled. Times written by
  \<open>new Date().toISOString()\<close> are modelled as the number of milliseconds they denote
  (\<open>timestamp\<close>): for the years 0 to 9999 the ISO texts compare as their times do.
\<close>

type_synonym num = rat
type_synonym timestamp = int

named_theorems result_simps \<open>inversion of results: when is a computation \<open>Inr\<close> or \<open>Inl\<close>\<close>
named_theorems table_simps \<open>tables of rows: insertion, update, deletion, lookup\<close>

section \<open>Results\<close>

text \<open>A thrown error is \<open>Inl\<close>, a returned value \<open>Inr\<close>; \<open>bind_result\<close> is sequencing.\<close>

fun bind_result :: "'e + 'a \<Rightarrow> ('a \<Rightarrow> 'e + 'b) \<Rightarrow> 'e + 'b" where
  "bind_result (Inl e) f = Inl e"
| "bind_result (Inr a) f = f a"

definition throw_if :: "bool \<Rightarrow> 'e \<Rightarrow> 'e + unit" where
  "throw_if b e = (if b then Inl e else Inr ())"

definition from_option :: "'e \<Rightarrow> 'a option \<Rightarrow> 'e + 'a" where
  "from_option e x = (case x of None \<Rightarrow> Inl e | Some a \<Rightarrow> Inr a)"

fun is_ok :: "'e + 'a \<Rightarrow> bool" where
  "is_ok (Inl e) = False"
| "is_ok (Inr a) = True"

lemma bind_result_Inr [result_simps]:
  "bind_result m f = Inr b \<longleftrightarrow> (\<exists>a. m = Inr a \<and> f a = Inr b)"
  by (cases m) auto

lemma bind_result_Inl [result_simps]:
  "bind_result m f = Inl e \<longleftrightarrow> m = Inl e \<or> (\<exists>a. m = Inr a \<and> f a = Inl e)"
  by (cases m) auto

lemma throw_if_Inr [result_simps, simp]: "throw_if b e = Inr u \<longleftrightarrow> \<not> b"
  by (simp add: throw_if_def)

lemma throw_if_Inl [result_simps, simp]: "throw_if b e = Inl e' \<longleftrightarrow> b \<and> e' = e"
  by (auto simp: throw_if_def)

lemma from_option_Inr [result_simps, simp]: "from_option e x = Inr a \<longleftrightarrow> x = Some a"
  by (auto simp: from_option_def split: option.splits)

lemma from_option_Inl [result_simps, simp]: "from_option e x = Inl e' \<longleftrightarrow> x = None \<and> e' = e"
  by (auto simp: from_option_def split: option.splits)

lemma throw_if_simps [simp]:
  "throw_if True e = Inl e" "throw_if False e = Inr ()"
  by (simp_all add: throw_if_def)

lemma from_option_simps [simp]:
  "from_option e (Some a) = Inr a" "from_option e None = Inl e"
  by (simp_all add: from_option_def)

text \<open>\<open>x ?? d\<close>: the value when there is one, otherwise the default.\<close>

definition nullish :: "'a option \<Rightarrow> 'a \<Rightarrow> 'a" where
  "nullish x d = (case x of None \<Rightarrow> d | Some a \<Rightarrow> a)"

lemma nullish_simps [simp]: "nullish None d = d" "nullish (Some a) d = a"
  by (simp_all add: nullish_def)

section \<open>JavaScript values\<close>

text \<open>
  Values that cross the components untyped (event payloads, tool arguments, message
  metadata). \<open>JNonFinite\<close> stands for NaN and the infinities. An object is the list of its
  own properties in insertion order.
\<close>

datatype jsval =
    JUndef
  | JNull
  | JBool bool
  | JNum num
  | JNonFinite
  | JStr string
  | JArr "jsval list"
  | JObj "(string \<times> jsval) list"

type_synonym jsobject = "(string \<times> jsval) list"

definition obj_get :: "jsobject \<Rightarrow> string \<Rightarrow> jsval" where
  "obj_get ob k = (case map_of ob k of None \<Rightarrow> JUndef | Some v \<Rightarrow> v)"

text \<open>\<open>{ ...base, ...extra }\<close>: later properties overwrite earlier ones in place.\<close>

definition obj_spread :: "jsobject \<Rightarrow> jsobject \<Rightarrow> jsobject" where
  "obj_spread base extra = fold (\<lambda>(k, v). AList.update k v) extra base"

fun as_string :: "jsval \<Rightarrow> string option" where
  "as_string (JStr s) = Some s"
| "as_string _ = None"

lemma as_string_Some [simp]: "as_string v = Some s \<longleftrightarrow> v = JStr s"
  by (cases v) auto

lemma obj_get_simps [simp]:
  "obj_get [] k = JUndef"
  "obj_get ((k', v) # ob) k = (if k = k' then v else obj_get ob k)"
  by (simp_all add: obj_get_def)

lemma map_of_obj_spread: "map_of (obj_spread base extra) = map_of base ++ map_of (rev extra)"
proof (induction extra arbitrary: base)
  case Nil
  then show ?case by (simp add: obj_spread_def)
next
  case (Cons p extra)
  obtain k v where p: "p = (k, v)" by (cases p)
  have "map_of (obj_spread base (p # extra)) = map_of (AList.update k v base) ++ map_of (rev extra)"
    using Cons.IH by (simp add: obj_spread_def p)
  then show ?case
    by (auto simp: p update_conv' fun_eq_iff map_add_def split: option.splits)
qed

lemma obj_get_spread_other:
  "k \<notin> fst ` set extra \<Longrightarrow> obj_get (obj_spread base extra) k = obj_get base k"
proof -
  assume "k \<notin> fst ` set extra"
  then have "map_of (rev extra) k = None" by (simp add: map_of_eq_None_iff)
  then show ?thesis by (simp add: obj_get_def map_of_obj_spread map_add_def)
qed

section \<open>Tables\<close>

text \<open>
  A table is the list of its rows in the order of their insertion. \<open>insert_row\<close> is an
  \<open>INSERT\<close> under the uniqueness constraints of the table (\<open>clash\<close> of a stored row with the
  new one), which fails with the constraint error \<open>e\<close> and leaves the table as it was.
\<close>

definition insert_row :: "'e \<Rightarrow> ('r \<Rightarrow> bool) \<Rightarrow> 'r \<Rightarrow> 'r list \<Rightarrow> 'e + 'r list" where
  "insert_row e clash r t = (if list_ex clash t then Inl e else Inr (t @ [r]))"

definition update_rows :: "('r \<Rightarrow> bool) \<Rightarrow> ('r \<Rightarrow> 'r) \<Rightarrow> 'r list \<Rightarrow> 'r list" where
  "update_rows p f t = map (\<lambda>r. if p r then f r else r) t"

definition delete_rows :: "('r \<Rightarrow> bool) \<Rightarrow> 'r list \<Rightarrow> 'r list" where
  "delete_rows p t = filter (\<lambda>r. \<not> p r) t"

definition count_rows :: "('r \<Rightarrow> bool) \<Rightarrow> 'r list \<Rightarrow> nat" where
  "count_rows p t = length (filter p t)"

text \<open>\<open>LIMIT n\<close>: a negative limit is no limit.\<close>

definition sql_limit :: "int \<Rightarrow> 'r list \<Rightarrow> 'r list" where
  "sql_limit n t = (if n < 0 then t else take (nat n) t)"

lemma insert_row_Inr [result_simps, table_simps]:
  "insert_row e clash r t = Inr t' \<longleftrightarrow> (\<forall>x\<in>set t. \<not> clash x) \<and> t' = t @ [r]"
  by (auto simp: insert_row_def list_ex_iff)

lemma insert_row_Inl [result_simps, table_simps]:
  "insert_row e clash r t = Inl e' \<longleftrightarrow> (\<exists>x\<in>set t. clash x) \<and> e' = e"
  by (auto simp: insert_row_def list_ex_iff)

lemma update_rows_simps [simp]:
  "update_rows p f [] = []"
  "update_rows p f (r # t) = (if p r then f r else r) # update_rows p f t"
  "update_rows p f (t @ u) = update_rows p f t @ update_rows p f u"
  by (simp_all add: update_rows_def)

lemma length_update_rows [simp]: "length (update_rows p f t) = length t"
  by (simp add: update_rows_def)

lemma set_update_rows [table_simps]:
  "set (update_rows p f t) = {r \<in> set t. \<not> p r} \<union> f ` {r \<in> set t. p r}"
  by (induction t) (auto simp: update_rows_def)

lemma map_update_rows_frame [table_simps]:
  "(\<And>r. p r \<Longrightarrow> g (f r) = g r) \<Longrightarrow> map g (update_rows p f t) = map g t"
  by (induction t) auto

lemma update_rows_none [table_simps]: "\<forall>r\<in>set t. \<not> p r \<Longrightarrow> update_rows p f t = t"
  by (induction t) auto

lemma set_delete_rows [table_simps, simp]: "set (delete_rows p t) = {r \<in> set t. \<not> p r}"
  by (auto simp: delete_rows_def)

lemma set_sql_limit: "set (sql_limit n t) \<subseteq> set t"
  by (auto simp: sql_limit_def dest: in_set_takeD)

lemma find_SomeD: "List.find p t = Some r \<Longrightarrow> p r \<and> r \<in> set t"
  by (auto simp: find_Some_iff)

lemma find_NoneD: "List.find p t = None \<Longrightarrow> r \<in> set t \<Longrightarrow> \<not> p r"
  by (auto simp: find_None_iff)

text \<open>A lookup by a key that no two rows share finds exactly the row that has it.\<close>

lemma find_unique_key:
  "distinct (map k t) \<Longrightarrow> List.find (\<lambda>r. k r = x) t = Some r \<longleftrightarrow> r \<in> set t \<and> k r = x"
proof (induction t)
  case Nil
  then show ?case by simp
next
  case (Cons a t)
  then show ?case by (auto dest: rev_image_eqI)
qed

lemma find_append:
  "List.find p (t @ u) = (case List.find p t of None \<Rightarrow> List.find p u | Some r \<Rightarrow> Some r)"
  by (induction t) auto

text \<open>An update that keeps the key moves the lookup along.\<close>

lemma find_update_rows:
  "(\<And>r. p r \<Longrightarrow> q (f r) = q r) \<Longrightarrow>
   List.find q (update_rows p f t) =
     map_option (\<lambda>r. if p r then f r else r) (List.find q t)"
  by (induction t) auto

lemma find_cong_set: "(\<And>r. r \<in> set t \<Longrightarrow> p r = q r) \<Longrightarrow> List.find p t = List.find q t"
  by (induction t) auto

lemma unique_key_eq:
  "distinct (map k t) \<Longrightarrow> r \<in> set t \<Longrightarrow> s \<in> set t \<Longrightarrow> k r = k s \<Longrightarrow> r = s"
  by (simp add: distinct_map inj_on_def)

section \<open>Maximum of a column\<close>

text \<open>\<open>COALESCE(MAX(f), 0)\<close>\<close>

definition max_column :: "('r \<Rightarrow> int) \<Rightarrow> 'r list \<Rightarrow> int" where
  "max_column f t = (case t of [] \<Rightarrow> 0 | r # u \<Rightarrow> fold (\<lambda>x m. max (f x) m) u (f r))"

lemma fold_max_ge:
  "m \<le> fold (\<lambda>x m. max (f x) m) u (m :: int)
   \<and> (\<forall>x\<in>set u. f x \<le> fold (\<lambda>x m. max (f x) m) u m)"
proof (induction u arbitrary: m)
  case Nil
  then show ?case by simp
next
  case (Cons a u)
  have "max (f a) m \<le> fold (\<lambda>x m. max (f x) m) u (max (f a) m)"
    and "\<forall>x\<in>set u. f x \<le> fold (\<lambda>x m. max (f x) m) u (max (f a) m)"
    using Cons.IH [of "max (f a) m"] by auto
  then show ?case by auto
qed

lemma max_column_ge: "r \<in> set t \<Longrightarrow> f r \<le> max_column f t"
  using fold_max_ge [of _ f] by (cases t) (auto simp: max_column_def)

end
