(* ===== verification/Contracts.thy ===== *)
theory Contracts
  imports Prelude
begin

text \<open>
  The shared data types of \<open>packages/contracts/src/index.ts\<close>: run statuses and event types,
  budgets and usage, the public records of runs, attempts, sessions, workspaces, approvals,
  agent profiles, provider connections, route plans, snapshots and leases, and the requests
  that create runs. The fields \<open>appId\<close>, \<open>tenantId\<close>, \<open>userId\<close> that every owned record of the
  source carries side by side are grouped in one \<open>resource_owner\<close>. An optional property is an
  \<open>option\<close>.
\<close>

section \<open>Enumerations\<close>

datatype run_status =
    ACCEPTED | QUEUED | PREPARING | RUNNING | CHECKPOINTING
  | SUCCEEDED | FAILED | CANCELLED | TIMED_OUT | ORPHANED

fun status_name :: "run_status \<Rightarrow> string" where
  "status_name ACCEPTED = ''ACCEPTED''"
| "status_name QUEUED = ''QUEUED''"
| "status_name PREPARING = ''PREPARING''"
| "status_name RUNNING = ''RUNNING''"
| "status_name CHECKPOINTING = ''CHECKPOINTING''"
| "status_name SUCCEEDED = ''SUCCEEDED''"
| "status_name FAILED = ''FAILED''"
| "status_name CANCELLED = ''CANCELLED''"
| "status_name TIMED_OUT = ''TIMED_OUT''"
| "status_name ORPHANED = ''ORPHANED''"

lemma status_name_inj: "status_name a = status_name b \<longleftrightarrow> a = b"
  by (cases a; cases b) auto

definition terminalStatuses :: "run_status list" where
  "terminalStatuses = [SUCCEEDED, FAILED, CANCELLED, TIMED_OUT, ORPHANED]"

definition isTerminalRunStatus :: "run_status \<Rightarrow> bool" where
  "isTerminalRunStatus s \<longleftrightarrow> s \<in> set terminalStatuses"

lemma isTerminalRunStatus_simps [simp]:
  "isTerminalRunStatus SUCCEEDED" "isTerminalRunStatus FAILED" "isTerminalRunStatus CANCELLED"
  "isTerminalRunStatus TIMED_OUT" "isTerminalRunStatus ORPHANED"
  "\<not> isTerminalRunStatus ACCEPTED" "\<not> isTerminalRunStatus QUEUED"
  "\<not> isTerminalRunStatus PREPARING" "\<not> isTerminalRunStatus RUNNING"
  "\<not> isTerminalRunStatus CHECKPOINTING"
  by (simp_all add: isTerminalRunStatus_def terminalStatuses_def)

datatype run_event_type =
    RunAccepted | RunQueued | RunPreparing | RunStarted | RunSnapshotFrozen | RunCheckpointing
  | RunTimedOut | RunSteered | AgentMessageDelta | AgentMessageCompleted | ToolCallRequested
  | ToolCallCompleted | UsageUpdated | WorkspaceLeaseAcquired | WorkspaceLeaseReleased
  | WorkspaceRestoreStarted | WorkspaceRestoreCompleted | WorkspaceCheckpointCompleted
  | WorkspaceCheckpointFailed | ApprovalRequested | ApprovalResolved | ArtifactCreated
  | SubagentStarted | SubagentCompleted | RunSucceeded | RunFailed | RunCancelled | RunOrphaned

datatype approval_status = PENDING | APPROVED | DENIED | EXPIRED

fun approval_status_name :: "approval_status \<Rightarrow> string" where
  "approval_status_name PENDING = ''PENDING''"
| "approval_status_name APPROVED = ''APPROVED''"
| "approval_status_name DENIED = ''DENIED''"
| "approval_status_name EXPIRED = ''EXPIRED''"

datatype message_role = SystemRole | UserRole | AssistantRole | ToolRole

datatype workspace_mode = Managed | RegisteredBind

datatype workspace_state = WARM | COLD | RESTORING | IN_USE | SNAPSHOTTING | CORRUPT | ERROR

datatype runtime_container_state = ContainerCreated | ContainerRunning | ContainerStopping

datatype provider_connection_status = NeedsLogin | Ready | ConnectionError | Revoked

datatype auth_kind = ApiKey | OAuth | DelegatedCli | LocalEndpoint

datatype model_capability = Text | Tools | Vision | JsonMode | Reasoning | DelegatedAgent

section \<open>Owners, principals, budgets, usage\<close>

record resource_owner =
  appId :: string
  tenantId :: string
  userId :: string

record run_budget =
  maxTurns :: num
  maxToolCalls :: num
  maxInputTokens :: num
  maxOutputTokens :: num
  maxCostUsd :: num
  totalTimeoutMs :: num
  modelIdleTimeoutMs :: num
  commandTimeoutMs :: num

text \<open>\<open>Partial<RunBudget>\<close>: every limit optional.\<close>

record partial_budget =
  pb_maxTurns :: "num option"
  pb_maxToolCalls :: "num option"
  pb_maxInputTokens :: "num option"
  pb_maxOutputTokens :: "num option"
  pb_maxCostUsd :: "num option"
  pb_totalTimeoutMs :: "num option"
  pb_modelIdleTimeoutMs :: "num option"
  pb_commandTimeoutMs :: "num option"

definition empty_budget :: partial_budget where
  "empty_budget = \<lparr>pb_maxTurns = None, pb_maxToolCalls = None, pb_maxInputTokens = None,
     pb_maxOutputTokens = None, pb_maxCostUsd = None, pb_totalTimeoutMs = None,
     pb_modelIdleTimeoutMs = None, pb_commandTimeoutMs = None\<rparr>"

definition full_budget :: "run_budget \<Rightarrow> partial_budget" where
  "full_budget b = \<lparr>pb_maxTurns = Some (maxTurns b), pb_maxToolCalls = Some (maxToolCalls b),
     pb_maxInputTokens = Some (maxInputTokens b), pb_maxOutputTokens = Some (maxOutputTokens b),
     pb_maxCostUsd = Some (maxCostUsd b), pb_totalTimeoutMs = Some (totalTimeoutMs b),
     pb_modelIdleTimeoutMs = Some (modelIdleTimeoutMs b),
     pb_commandTimeoutMs = Some (commandTimeoutMs b)\<rparr>"

text \<open>The properties of a partial budget that are present, as \<open>Object.entries\<close> lists them.\<close>

definition budget_entries :: "partial_budget \<Rightarrow> (string \<times> num) list" where
  "budget_entries b = List.map_filter (\<lambda>(k, v). map_option (Pair k) v)
     [(''maxTurns'', pb_maxTurns b), (''maxToolCalls'', pb_maxToolCalls b),
      (''maxInputTokens'', pb_maxInputTokens b), (''maxOutputTokens'', pb_maxOutputTokens b),
      (''maxCostUsd'', pb_maxCostUsd b), (''totalTimeoutMs'', pb_totalTimeoutMs b),
      (''modelIdleTimeoutMs'', pb_modelIdleTimeoutMs b),
      (''commandTimeoutMs'', pb_commandTimeoutMs b)]"

text \<open>\<open>{ ...a, ...b }\<close> on budgets\<close>

definition override :: "'a option \<Rightarrow> 'a option \<Rightarrow> 'a option" where
  "override a b = (case b of None \<Rightarrow> a | Some v \<Rightarrow> Some v)"

lemma override_simps [simp]: "override a None = a" "override a (Some v) = Some v"
  by (simp_all add: override_def)

definition spread_budget :: "partial_budget \<Rightarrow> partial_budget \<Rightarrow> partial_budget" where
  "spread_budget a b = \<lparr>pb_maxTurns = override (pb_maxTurns a) (pb_maxTurns b),
     pb_maxToolCalls = override (pb_maxToolCalls a) (pb_maxToolCalls b),
     pb_maxInputTokens = override (pb_maxInputTokens a) (pb_maxInputTokens b),
     pb_maxOutputTokens = override (pb_maxOutputTokens a) (pb_maxOutputTokens b),
     pb_maxCostUsd = override (pb_maxCostUsd a) (pb_maxCostUsd b),
     pb_totalTimeoutMs = override (pb_totalTimeoutMs a) (pb_totalTimeoutMs b),
     pb_modelIdleTimeoutMs = override (pb_modelIdleTimeoutMs a) (pb_modelIdleTimeoutMs b),
     pb_commandTimeoutMs = override (pb_commandTimeoutMs a) (pb_commandTimeoutMs b)\<rparr>"

lemma map_of_present:
  assumes "distinct (map fst xs)"
  shows "map_of (List.map_filter (\<lambda>(k, v). map_option (Pair k) v) xs) k = Option.bind (map_of xs k) id"
    and "distinct (map fst (List.map_filter (\<lambda>(k, v). map_option (Pair k) v) xs))"
proof -
  have sub: "fst ` set (List.map_filter (\<lambda>(k, v). map_option (Pair k) v) xs) \<subseteq> fst ` set xs" for xs :: "('a \<times> 'b option) list"
    by (force simp: List.map_filter_def)
  have "map_of (List.map_filter (\<lambda>(k, v). map_option (Pair k) v) xs) k = Option.bind (map_of xs k) id
    \<and> distinct (map fst (List.map_filter (\<lambda>(k, v). map_option (Pair k) v) xs))"
    using assms
  proof (induction xs)
    case Nil
    then show ?case by (simp add: List.map_filter_def)
  next
    case (Cons p xs)
    obtain x v where p: "p = (x, v)" by (cases p)
    with Cons.prems have fresh: "x \<notin> fst ` set xs" by simp
    then have "map_of xs x = None" by (simp add: map_of_eq_None_iff)
    with Cons p fresh sub [of xs] show ?case
      by (cases v) (auto simp: List.map_filter_def dest!: subsetD)
  qed
  then show "map_of (List.map_filter (\<lambda>(k, v). map_option (Pair k) v) xs) k = Option.bind (map_of xs k) id"
    and "distinct (map fst (List.map_filter (\<lambda>(k, v). map_option (Pair k) v) xs))" by simp_all
qed

lemma budget_entry:
  "map_of (budget_entries b) ''maxTurns'' = pb_maxTurns b"
  "map_of (budget_entries b) ''maxToolCalls'' = pb_maxToolCalls b"
  "map_of (budget_entries b) ''maxInputTokens'' = pb_maxInputTokens b"
  "map_of (budget_entries b) ''maxOutputTokens'' = pb_maxOutputTokens b"
  "map_of (budget_entries b) ''maxCostUsd'' = pb_maxCostUsd b"
  "map_of (budget_entries b) ''totalTimeoutMs'' = pb_totalTimeoutMs b"
  "map_of (budget_entries b) ''modelIdleTimeoutMs'' = pb_modelIdleTimeoutMs b"
  "map_of (budget_entries b) ''commandTimeoutMs'' = pb_commandTimeoutMs b"
  unfolding budget_entries_def by (subst map_of_present(1), simp, simp)+

lemma budget_entries_distinct: "distinct (map fst (budget_entries b))"
  unfolding budget_entries_def by (rule map_of_present(2)) simp

lemma budget_entry_spread:
  "map_of (budget_entries (spread_budget a b)) k
   = override (map_of (budget_entries a) k) (map_of (budget_entries b) k)"
  unfolding budget_entries_def
  by (subst map_of_present(1), simp, subst map_of_present(1), simp, subst map_of_present(1), simp)
     (simp add: spread_budget_def)

definition DEFAULT_RUN_BUDGET :: run_budget where
  "DEFAULT_RUN_BUDGET = \<lparr>maxTurns = 8, maxToolCalls = 32, maxInputTokens = 250000,
     maxOutputTokens = 64000, maxCostUsd = 25, totalTimeoutMs = 15 * 60000,
     modelIdleTimeoutMs = 2 * 60000, commandTimeoutMs = 5 * 60000\<rparr>"

text \<open>\<open>null\<close> usage: the provider has not reported any.\<close>

record run_usage =
  u_inputTokens :: "num option"
  u_outputTokens :: "num option"
  u_costUsd :: "num option"
  u_toolCalls :: num

text \<open>\<open>Partial<RunUsage>\<close>: the increments an event carries.\<close>

record usage_delta =
  d_inputTokens :: "num option"
  d_outputTokens :: "num option"
  d_costUsd :: "num option"
  d_toolCalls :: "num option"

definition no_usage :: usage_delta where
  "no_usage = \<lparr>d_inputTokens = None, d_outputTokens = None, d_costUsd = None, d_toolCalls = None\<rparr>"

datatype token_type = AppToken | RunToken

datatype replay_policy = MultiUse | ResourceBoundMultiUse

record internal_principal =
  p_owner :: resource_owner
  p_scopes :: "string list"
  p_tokenId :: "string option"
  p_tokenType :: "token_type option"
  p_replayPolicy :: "replay_policy option"
  p_agentId :: "string option"
  p_workspaceId :: "string option"
  p_budgetCeiling :: "partial_budget option"

section \<open>Requests\<close>

record start_run_request =
  rq_agent :: string
  rq_workspace :: string
  rq_session :: "string option"
  rq_providerConnectionId :: "string option"
  rq_input :: string
  rq_budget :: "partial_budget option"
  rq_idempotencyKey :: string
  rq_principal :: internal_principal
  rq_parentRunId :: "string option"
  rq_depth :: "int option"
  rq_deliveryAllowed :: "bool option"
  rq_createIfMissing :: "bool option"

record create_run_response =
  rs_runId :: string
  rs_status :: run_status
  rs_eventCursor :: int
  rs_idempotentReplay :: bool

section \<open>Records\<close>

record run_record =
  run_id :: string
  run_idempotencyKey :: string
  run_owner :: resource_owner
  run_agentId :: string
  run_workspaceId :: string
  run_sessionId :: "string option"
  run_providerConnectionId :: "string option"
  run_parentRunId :: "string option"
  run_depth :: int
  run_deliveryAllowed :: bool
  run_input :: string
  run_budget :: run_budget
  run_usage :: run_usage
  run_status :: run_status
  run_lastSequence :: int
  run_errorCode :: "string option"
  run_errorMessage :: "string option"
  run_createdAt :: timestamp
  run_updatedAt :: timestamp

record run_event =
  ev_runId :: string
  ev_sequence :: int
  ev_type :: run_event_type
  ev_payload :: jsobject
  ev_createdAt :: timestamp

record agent_profile =
  ap_id :: string
  ap_version :: int
  ap_owner :: resource_owner
  ap_name :: string
  ap_instructions :: string
  ap_modelCapabilities :: "model_capability list"
  ap_allowedTools :: "string list"
  ap_defaultBudget :: run_budget
  ap_createdAt :: timestamp

record workspace_record =
  ws_id :: string
  ws_owner :: resource_owner
  ws_mode :: workspace_mode
  ws_state :: workspace_state
  ws_registeredPath :: "string option"
  ws_createdAt :: timestamp
  ws_updatedAt :: timestamp

record run_attempt =
  att_id :: string
  att_runId :: string
  att_attempt :: int
  att_status :: run_status
  att_startedAt :: timestamp
  att_endedAt :: "timestamp option"

record session_record =
  ses_id :: string
  ses_owner :: resource_owner
  ses_agentId :: string
  ses_createdAt :: timestamp
  ses_updatedAt :: timestamp

record session_message =
  msg_id :: string
  msg_sessionId :: string
  msg_runId :: "string option"
  msg_role :: message_role
  msg_content :: string
  msg_metadata :: jsobject
  msg_createdAt :: timestamp

record workspace_lease =
  ls_workspaceId :: string
  ls_ownerRunId :: string
  ls_fencingToken :: int
  ls_expiresAt :: timestamp

record approval_record =
  apr_id :: string
  apr_runId :: string
  apr_toolCallId :: string
  apr_toolName :: string
  apr_toolArgumentsDigest :: string
  apr_executionDigest :: string
  apr_owner :: resource_owner
  apr_workspaceId :: string
  apr_policyGeneration :: int
  apr_routeGeneration :: string
  apr_status :: approval_status
  apr_expiresAt :: timestamp
  apr_createdAt :: timestamp
  apr_resolvedAt :: "timestamp option"

record provider_connection =
  pc_id :: string
  pc_owner :: resource_owner
  pc_providerId :: string
  pc_displayName :: string
  pc_authKind :: auth_kind
  pc_credentialProfileId :: string
  pc_baseUrl :: "string option"
  pc_modelIds :: "string list"
  pc_status :: provider_connection_status
  pc_lastErrorCode :: "string option"
  pc_createdAt :: timestamp
  pc_updatedAt :: timestamp

record run_route_plan =
  rp_runId :: string
  rp_attemptId :: string
  rp_routePlanId :: string
  rp_registryGeneration :: int
  rp_requiredCapabilities :: "model_capability list"
  rp_selectedModelId :: string
  rp_selectedProviderId :: string
  rp_selectedCredentialProfileId :: string
  rp_fallbackModelIds :: "string list"
  rp_createdAt :: timestamp

record runtime_container =
  rc_runtimeContainerId :: string
  rc_containerName :: string
  rc_runId :: string
  rc_attemptId :: string
  rc_workspaceIdentity :: string
  rc_toolCallId :: string
  rc_state :: runtime_container_state
  rc_createdAt :: timestamp
  rc_updatedAt :: timestamp

record tool_call =
  tc_id :: string
  tc_name :: string
  tc_arguments :: jsobject

record tool_definition =
  td_name :: string
  td_description :: string
  td_inputSchema :: jsobject

record tool_result =
  tr_callId :: string
  tr_ok :: bool
  tr_content :: string
  tr_metadata :: "jsobject option"

end
