(* ===== verification/Domain.thy ===== *)
theory Domain
  imports Contracts
begin

text \<open>
  The run state machine of \<open>packages/domain/src/index.ts\<close>: the table of allowed
  transitions and its guard, and what the table implies (terminal states are final, every
  path makes progress along a fixed order of phases).
\<close>

fun allowedTransitions :: "run_status \<Rightarrow> run_status list" where
  "allowedTransitions ACCEPTED = [QUEUED, CANCELLED, FAILED]"
| "allowedTransitions QUEUED = [PREPARING, CANCELLED, FAILED, TIMED_OUT]"
| "allowedTransitions PREPARING = [RUNNING, CANCELLED, FAILED, TIMED_OUT]"
| "allowedTransitions RUNNING =
     [CHECKPOINTING, SUCCEEDED, CANCELLED, FAILED, TIMED_OUT, ORPHANED]"
| "allowedTransitions CHECKPOINTING = [SUCCEEDED, FAILED, ORPHANED]"
| "allowedTransitions SUCCEEDED = []"
| "allowedTransitions FAILED = []"
| "allowedTransitions CANCELLED = []"
| "allowedTransitions TIMED_OUT = []"
| "allowedTransitions ORPHANED = []"

datatype transition_error = InvalidRunTransition run_status run_status

definition assertRunTransition :: "run_status \<Rightarrow> run_status \<Rightarrow> transition_error + unit" where
  "assertRunTransition source target =
     throw_if (target \<notin> set (allowedTransitions source)) (InvalidRunTransition source target)"

text \<open>The guarded transitions as a step relation, and the runs of it.\<close>

inductive run_step :: "run_status \<Rightarrow> run_status \<Rightarrow> bool" where
  run_stepI: "assertRunTransition s t = Inr () \<Longrightarrow> run_step s t"

inductive_simps run_step_iff: "run_step s t"

text \<open>The phase of a status; every allowed transition moves to a later phase.\<close>

fun phase :: "run_status \<Rightarrow> nat" where
  "phase ACCEPTED = 0"
| "phase QUEUED = 1"
| "phase PREPARING = 2"
| "phase RUNNING = 3"
| "phase CHECKPOINTING = 4"
| "phase _ = 5"

lemma run_step_allowed: "run_step s t \<longleftrightarrow> t \<in> set (allowedTransitions s)"
  by (simp add: run_step_iff assertRunTransition_def)

lemma run_step_phase: "run_step s t \<Longrightarrow> phase s < phase t"
  by (cases s) (auto simp: run_step_allowed)

lemma terminal_no_transition: "isTerminalRunStatus s \<longleftrightarrow> allowedTransitions s = []"
  by (cases s) auto

lemma run_steps_phase: "run_step\<^sup>*\<^sup>* s t \<Longrightarrow> phase s \<le> phase t"
  by (induction rule: rtranclp_induct) (auto dest: run_step_phase)

fun run_path :: "run_status \<Rightarrow> run_status list \<Rightarrow> bool" where
  "run_path s [] = True"
| "run_path s (t # ts) = (run_step s t \<and> run_path t ts)"

lemma run_path_length: "run_path s ts \<Longrightarrow> length ts + phase s \<le> 5"
proof (induction ts arbitrary: s)
  case Nil
  show ?case by (cases s) auto
next
  case (Cons t ts)
  then have "phase s < phase t" and "length ts + phase t \<le> 5"
    by (auto dest: run_step_phase)
  then show ?case by simp
qed

text \<open>From every non-terminal status the machine can still reach FAILED.\<close>

lemma nonterminal_can_fail: "\<not> isTerminalRunStatus s \<Longrightarrow> run_step s FAILED"
  by (cases s) (auto simp: run_step_allowed)

text \<open>Success is reached only through RUNNING.\<close>

lemma step_to_succeeded: "run_step s SUCCEEDED \<Longrightarrow> s = RUNNING \<or> s = CHECKPOINTING"
  by (cases s) (auto simp: run_step_allowed)

lemma step_to_checkpointing: "run_step s CHECKPOINTING \<Longrightarrow> s = RUNNING"
  by (cases s) (auto simp: run_step_allowed)

lemma step_to_orphaned: "run_step s ORPHANED \<Longrightarrow> s = RUNNING \<or> s = CHECKPOINTING"
  by (cases s) (auto simp: run_step_allowed)

lemma path_to_succeeded_runs:
  "run_path s ts \<Longrightarrow> SUCCEEDED \<in> set ts \<Longrightarrow> s \<noteq> RUNNING \<Longrightarrow> s \<noteq> CHECKPOINTING \<Longrightarrow> RUNNING \<in> set ts"
proof (induction ts arbitrary: s)
  case Nil
  then show ?case by simp
next
  case (Cons t ts)
  then have st: "run_step s t" and path: "run_path t ts" by auto
  show ?case
  proof (cases "t = RUNNING")
    case True
    then show ?thesis by simp
  next
    case False
    have "t \<noteq> SUCCEEDED" and "t \<noteq> CHECKPOINTING"
      using st Cons.prems(3,4) by (auto dest: step_to_succeeded step_to_checkpointing)
    then have "RUNNING \<in> set ts"
      using Cons.IH [OF path] Cons.prems(2) False by auto
    then show ?thesis by simp
  qed
qed

end
