(* ===== verification/StoreTables.thy ===== *)
theory StoreTables
  imports Domain
begin

text \<open>
  The database of \<open>SqliteRunStore\<close> (\<open>packages/storage-sqlite/src/index.ts\<close>): one table per
  SQL table at schema version 16, the rows with their own columns, the conversions from
  rows to public records, the scoped idempotency key, the request fingerprint and the
  normalisation of budgets. A column that holds JSON text is modelled as the value it encodes.
  Tables whose rows have exactly the columns of the public record (events, attempts,
  approvals, route plans, runtime containers) are tables of those records.
\<close>

section \<open>Rows\<close>

record run_row =
  rr_id :: string
  rr_idempotency_key :: string
  rr_request_fingerprint :: string
  rr_owner :: resource_owner
  rr_agent_id :: string
  rr_workspace_id :: string
  rr_session_id :: "string option"
  rr_provider_connection_id :: "string option"
  rr_agent_internal_id :: "string option"
  rr_workspace_internal_id :: "string option"
  rr_session_internal_id :: "string option"
  rr_parent_run_id :: "string option"
  rr_depth :: int
  rr_delivery_allowed :: int
  rr_input :: string
  rr_budget :: partial_budget
  rr_usage_input_tokens :: num
  rr_usage_output_tokens :: num
  rr_usage_cost_usd :: num
  rr_usage_tool_calls :: num
  rr_usage_input_tokens_reported :: int
  rr_usage_output_tokens_reported :: int
  rr_usage_cost_reported :: int
  rr_status :: run_status
  rr_last_sequence :: int
  rr_error_code :: "string option"
  rr_error_message :: "string option"
  rr_created_at :: timestamp
  rr_updated_at :: timestamp

record agent_row =
  ar_internal_id :: string
  ar_id :: string
  ar_version :: int
  ar_owner :: resource_owner
  ar_name :: string
  ar_instructions :: string
  ar_model_capabilities :: "model_capability list"
  ar_allowed_tools :: "string list"
  ar_default_budget :: partial_budget
  ar_created_at :: timestamp

record workspace_row =
  wr_internal_id :: string
  wr_id :: string
  wr_owner :: resource_owner
  wr_mode :: workspace_mode
  wr_state :: workspace_state
  wr_registered_path :: "string option"
  wr_created_at :: timestamp
  wr_updated_at :: timestamp

record session_row =
  sr_internal_id :: string
  sr_id :: string
  sr_owner :: resource_owner
  sr_agent_id :: string
  sr_agent_internal_id :: string
  sr_created_at :: timestamp
  sr_updated_at :: timestamp

record message_row =
  mr_id :: string
  mr_session_internal_id :: string
  mr_run_id :: "string option"
  mr_role :: message_role
  mr_content :: string
  mr_metadata :: jsobject
  mr_created_at :: timestamp
  mr_sequence :: int

record lease_row =
  lr_workspace_internal_id :: string
  lr_owner_run_id :: "string option"
  lr_fencing_token :: int
  lr_expires_at :: "timestamp option"
  lr_updated_at :: timestamp

record connection_row =
  cr_internal_id :: string
  cr_id :: string
  cr_owner :: resource_owner
  cr_provider_id :: string
  cr_display_name :: string
  cr_auth_kind :: auth_kind
  cr_credential_profile_id :: string
  cr_base_url :: "string option"
  cr_model_ids :: "string list"
  cr_status :: provider_connection_status
  cr_last_error_code :: "string option"
  cr_created_at :: timestamp
  cr_updated_at :: timestamp

record price_snapshot =
  ps_source :: string
  ps_inputUsdPerMillion :: num
  ps_outputUsdPerMillion :: num
  ps_cachedInputUsdPerMillion :: "num option"
  ps_cacheWriteInputUsdPerMillion :: "num option"
  ps_imageInputUsdPerMillion :: "num option"
  ps_longContextThresholdTokens :: "num option"
  ps_longContextInputMultiplier :: "num option"
  ps_longContextOutputMultiplier :: "num option"

record model_usage_row =
  mu_id :: int
  mu_run_id :: string
  mu_attempt_id :: string
  mu_route_plan_id :: string
  mu_model_id :: string
  mu_provider_id :: string
  mu_input_tokens :: num
  mu_output_tokens :: num
  mu_cached_input_tokens :: num
  mu_cache_write_input_tokens :: num
  mu_image_input_tokens :: num
  mu_cost_usd :: "num option"
  mu_price_snapshot :: "price_snapshot option"
  mu_recorded_at :: timestamp

text \<open>A snapshot row holds the frozen snapshot as its JSON value beside its key and digest.\<close>

record snapshot_row =
  sn_runId :: string
  sn_attemptId :: string
  sn_digest :: string
  sn_snapshot :: jsval
  sn_createdAt :: timestamp

record db =
  runs :: "run_row list"
  run_events :: "run_event list"
  sessions :: "session_row list"
  session_messages :: "message_row list"
  workspace_leases :: "lease_row list"
  approvals :: "approval_record list"
  agent_profiles :: "agent_row list"
  workspaces :: "workspace_row list"
  run_attempts :: "run_attempt list"
  run_route_plans :: "run_route_plan list"
  run_model_usage :: "model_usage_row list"
  run_snapshots :: "snapshot_row list"
  provider_connections :: "connection_row list"
  runtime_containers :: "runtime_container list"

definition empty_db :: db where
  "empty_db = \<lparr>runs = [], run_events = [], sessions = [], session_messages = [],
     workspace_leases = [], approvals = [], agent_profiles = [], workspaces = [],
     run_attempts = [], run_route_plans = [], run_model_usage = [], run_snapshots = [],
     provider_connections = [], runtime_containers = []\<rparr>"

datatype store_error =
    IdempotencyKeyReused
  | ConnectionNotOwned
  | ConnectionNotReady provider_connection_status
  | ParentRunNotOwned
  | ChildDepthInvalid
  | RootDepthNotZero
  | AgentProfileUnavailable string
  | WorkspaceUnavailable string
  | SessionAgentMismatch
  | SessionBoundToOtherWorkspace
  | RunNotFound string
  | InvalidSubagentSummary string
  | RunIsTerminal string
  | SessionMessageNotOwned
  | LeaseNotOwned
  | AttemptNotFound string
  | RoutePlanFrozen
  | SnapshotFrozen
  | ContainerNotRecorded string
  | ConstraintViolation string

section \<open>Scoped idempotency keys\<close>

text \<open>Decimal numerals as \<open>String(n)\<close> prints them and \<open>Number.parseInt(s, 10)\<close> reads them.\<close>

fun nat_digits :: "nat \<Rightarrow> string" where
  "nat_digits n =
     (if n < 10 then [char_of (48 + n)] else nat_digits (n div 10) @ [char_of (48 + n mod 10)])"

declare nat_digits.simps [simp del]

definition is_digit :: "char \<Rightarrow> bool" where
  "is_digit c \<longleftrightarrow> (48::nat) \<le> of_char c \<and> of_char c \<le> (57::nat)"

definition digits_value :: "string \<Rightarrow> nat" where
  "digits_value ds = fold (\<lambda>c n. 10 * n + (of_char c - 48)) ds 0"

text \<open>\<open>Number.parseInt(s, 10)\<close>: blanks and a sign, then the value of the leading digits; \<open>None\<close>
  (NaN) when there is no digit.\<close>

definition is_blank :: "char \<Rightarrow> bool" where
  "is_blank c \<longleftrightarrow> (of_char c :: nat) \<in> set [9, 10, 11, 12, 13, 32, 160]"

definition trim :: "string \<Rightarrow> string" where
  "trim s = rev (dropWhile is_blank (rev (dropWhile is_blank s)))"

definition parse_digits :: "string \<Rightarrow> nat option" where
  "parse_digits s =
     (let ds = takeWhile is_digit s in if ds = [] then None else Some (digits_value ds))"

definition parse_int :: "string \<Rightarrow> int option" where
  "parse_int s = (case dropWhile is_blank s of
     [] \<Rightarrow> None
   | c # rest \<Rightarrow>
       if c = CHR ''-'' then map_option (\<lambda>n. - int n) (parse_digits rest)
       else if c = CHR ''+'' then map_option int (parse_digits rest)
       else map_option int (parse_digits (c # rest)))"

definition MAX_SAFE_INTEGER :: int where
  "MAX_SAFE_INTEGER = 2 ^ 53 - 1"

definition scopedIdempotencyKey :: "string \<Rightarrow> string \<Rightarrow> string" where
  "scopedIdempotencyKey user key =
     nat_digits (length user) @ CHR '':'' # user @ CHR '':'' # key"

definition publicIdempotencyKey :: "string \<Rightarrow> string" where
  "publicIdempotencyKey value =
     (let delimiter = length (takeWhile (\<lambda>c. c \<noteq> CHR '':'') value) in
      if delimiter = length value \<or> delimiter < 1 then value
      else case parse_int (take delimiter value) of
        None \<Rightarrow> value
      | Some userLength \<Rightarrow>
          if \<bar>userLength\<bar> > MAX_SAFE_INTEGER \<or> userLength < 0 then value
          else
            let keyDelimiter = delimiter + 1 + nat userLength in
            if keyDelimiter < length value \<and> value ! keyDelimiter = CHR '':''
            then drop (keyDelimiter + 1) value else value)"

text \<open>Printing a length and reading it back.\<close>

lemma is_digit_char_of: "k < 10 \<Longrightarrow> is_digit (char_of (48 + k :: nat))"
  by (simp add: is_digit_def of_char_of)

lemma nat_digits_digits: "c \<in> set (nat_digits n) \<Longrightarrow> is_digit c"
proof (induction n rule: nat_digits.induct)
  case (1 n)
  then show ?case
    by (subst (asm) nat_digits.simps) (auto simp: is_digit_char_of split: if_splits)
qed

lemma nat_digits_nonempty: "nat_digits n \<noteq> []"
  by (subst nat_digits.simps) simp

lemma digits_value_snoc: "digits_value (ds @ [c]) = 10 * digits_value ds + (of_char c - 48)"
  by (simp add: digits_value_def)

lemma digits_value_nat_digits: "digits_value (nat_digits n) = n"
proof (induction n rule: nat_digits.induct)
  case (1 n)
  show ?case
  proof (cases "n < 10")
    case True
    then show ?thesis
      by (subst nat_digits.simps) (simp add: digits_value_def of_char_of)
  next
    case False
    with "1.IH" have "digits_value (nat_digits (n div 10)) = n div 10" by simp
    with False show ?thesis
      by (subst nat_digits.simps) (simp add: digits_value_snoc of_char_of)
  qed
qed

lemma digit_not_blank: "is_digit c \<Longrightarrow> \<not> is_blank c"
  by (auto simp: is_digit_def is_blank_def)

lemma digit_not_sign: "is_digit c \<Longrightarrow> c \<noteq> CHR ''-'' \<and> c \<noteq> CHR ''+'' \<and> c \<noteq> CHR '':''"
  by (auto simp: is_digit_def)

lemma parse_int_nat_digits: "parse_int (nat_digits n) = Some (int n)"
proof -
  obtain c ds where eq: "nat_digits n = c # ds" using nat_digits_nonempty [of n] by (cases "nat_digits n") auto
  then have c: "is_digit c" using nat_digits_digits [of c n] by simp
  have "takeWhile is_digit (nat_digits n) = nat_digits n"
    by (simp add: takeWhile_eq_all_conv nat_digits_digits)
  then have "parse_digits (nat_digits n) = Some n"
    by (simp only: parse_digits_def Let_def nat_digits_nonempty digits_value_nat_digits if_False)
  with eq c show ?thesis
    using digit_not_blank [OF c] digit_not_sign [OF c] by (simp add: parse_int_def)
qed

lemma takeWhile_nat_digits:
  "takeWhile (\<lambda>c. c \<noteq> CHR '':'') (nat_digits n @ CHR '':'' # rest) = nat_digits n"
  using nat_digits_digits digit_not_sign by (simp add: takeWhile_append)

lemma publicIdempotencyKey_scoped:
  assumes "int (length user) \<le> MAX_SAFE_INTEGER"
  shows "publicIdempotencyKey (scopedIdempotencyKey user key) = key"
proof -
  let ?stored = "scopedIdempotencyKey user key"
  let ?d = "length (nat_digits (length user))"
  have "0 < ?d" using nat_digits_nonempty by simp
  moreover have "?d < length ?stored" by (simp add: scopedIdempotencyKey_def)
  moreover have "take ?d ?stored = nat_digits (length user)" by (simp add: scopedIdempotencyKey_def)
  moreover have "drop (?d + 1) ?stored = user @ CHR '':'' # key" by (simp add: scopedIdempotencyKey_def)
  moreover have "?stored ! (?d + 1 + length user) = CHR '':''"
    by (simp add: scopedIdempotencyKey_def nth_append)
  moreover have "?d + 1 + length user < length ?stored" by (simp add: scopedIdempotencyKey_def)
  moreover have "drop (?d + 1 + length user + 1) ?stored = key" by (simp add: scopedIdempotencyKey_def)
  moreover have "takeWhile (\<lambda>c. c \<noteq> CHR '':'') ?stored = nat_digits (length user)"
    by (simp add: scopedIdempotencyKey_def takeWhile_nat_digits)
  ultimately show ?thesis
    using assms by (simp add: publicIdempotencyKey_def Let_def parse_int_nat_digits)
qed

text \<open>Two users never share a stored key: the length in front makes the encoding injective.\<close>

lemma scopedIdempotencyKey_inj:
  "scopedIdempotencyKey u k = scopedIdempotencyKey u' k' \<longleftrightarrow> u = u' \<and> k = k'"
proof
  assume eq: "scopedIdempotencyKey u k = scopedIdempotencyKey u' k'"
  then have "takeWhile (\<lambda>c. c \<noteq> CHR '':'') (scopedIdempotencyKey u k)
    = takeWhile (\<lambda>c. c \<noteq> CHR '':'') (scopedIdempotencyKey u' k')" by simp
  then have digits: "nat_digits (length u) = nat_digits (length u')"
    by (simp add: scopedIdempotencyKey_def takeWhile_nat_digits)
  then have "length u = length u'"
    by (metis digits_value_nat_digits)
  moreover have "u @ CHR '':'' # k = u' @ CHR '':'' # k'"
    using eq unfolding scopedIdempotencyKey_def digits by (simp only: same_append_eq list.inject)
  ultimately show "u = u' \<and> k = k'" by (simp only: append_eq_append_conv list.inject simp_thms)
qed (simp only:)

section \<open>Budgets\<close>

definition normalizeBudget :: "partial_budget \<Rightarrow> run_budget" where
  "normalizeBudget v = \<lparr>
     maxTurns = nullish (pb_maxTurns v) (maxTurns DEFAULT_RUN_BUDGET),
     maxToolCalls = nullish (pb_maxToolCalls v) (maxToolCalls DEFAULT_RUN_BUDGET),
     maxInputTokens = nullish (pb_maxInputTokens v) (maxInputTokens DEFAULT_RUN_BUDGET),
     maxOutputTokens = nullish (pb_maxOutputTokens v) (maxOutputTokens DEFAULT_RUN_BUDGET),
     maxCostUsd = nullish (pb_maxCostUsd v) (maxCostUsd DEFAULT_RUN_BUDGET),
     totalTimeoutMs = nullish (pb_totalTimeoutMs v) (totalTimeoutMs DEFAULT_RUN_BUDGET),
     modelIdleTimeoutMs = nullish (pb_modelIdleTimeoutMs v) (modelIdleTimeoutMs DEFAULT_RUN_BUDGET),
     commandTimeoutMs = nullish (pb_commandTimeoutMs v) (commandTimeoutMs DEFAULT_RUN_BUDGET)\<rparr>"

lemma normalizeBudget_full [simp]: "normalizeBudget (full_budget b) = b"
  by (simp add: normalizeBudget_def full_budget_def)

section \<open>From rows to records\<close>

text \<open>\<open>...(x ? { f: x } : {})\<close>: an absent or empty text leaves the property out.\<close>

definition truthy :: "string option \<Rightarrow> string option" where
  "truthy x = (case x of None \<Rightarrow> None | Some s \<Rightarrow> if s = [] then None else Some s)"

lemma truthy_simps [simp]:
  "truthy None = None" "truthy (Some (c # s)) = Some (c # s)" "truthy (Some []) = None"
  by (simp_all add: truthy_def)

definition toRunRecord :: "run_row \<Rightarrow> run_record" where
  "toRunRecord row = \<lparr>
     run_id = rr_id row,
     run_idempotencyKey = publicIdempotencyKey (rr_idempotency_key row),
     run_owner = rr_owner row,
     run_agentId = rr_agent_id row,
     run_workspaceId = rr_workspace_id row,
     run_sessionId = truthy (rr_session_id row),
     run_providerConnectionId = truthy (rr_provider_connection_id row),
     run_parentRunId = truthy (rr_parent_run_id row),
     run_depth = rr_depth row,
     run_deliveryAllowed = (rr_delivery_allowed row = 1),
     run_input = rr_input row,
     run_budget = normalizeBudget (rr_budget row),
     run_usage = \<lparr>
       u_inputTokens = (if rr_usage_input_tokens_reported row = 1
                        then Some (rr_usage_input_tokens row) else None),
       u_outputTokens = (if rr_usage_output_tokens_reported row = 1
                         then Some (rr_usage_output_tokens row) else None),
       u_costUsd = (if rr_usage_cost_reported row = 1 then Some (rr_usage_cost_usd row) else None),
       u_toolCalls = rr_usage_tool_calls row\<rparr>,
     run_status = rr_status row,
     run_lastSequence = rr_last_sequence row,
     run_errorCode = truthy (rr_error_code row),
     run_errorMessage = truthy (rr_error_message row),
     run_createdAt = rr_created_at row,
     run_updatedAt = rr_updated_at row\<rparr>"

definition toAgentProfile :: "agent_row \<Rightarrow> agent_profile" where
  "toAgentProfile row = \<lparr>ap_id = ar_id row, ap_version = ar_version row, ap_owner = ar_owner row,
     ap_name = ar_name row, ap_instructions = ar_instructions row,
     ap_modelCapabilities = ar_model_capabilities row, ap_allowedTools = ar_allowed_tools row,
     ap_defaultBudget = normalizeBudget (ar_default_budget row), ap_createdAt = ar_created_at row\<rparr>"

definition toWorkspace :: "workspace_row \<Rightarrow> workspace_record" where
  "toWorkspace row = \<lparr>ws_id = wr_id row, ws_owner = wr_owner row, ws_mode = wr_mode row,
     ws_state = wr_state row, ws_registeredPath = truthy (wr_registered_path row),
     ws_createdAt = wr_created_at row, ws_updatedAt = wr_updated_at row\<rparr>"

definition toSession :: "session_row \<Rightarrow> session_record" where
  "toSession row = \<lparr>ses_id = sr_id row, ses_owner = sr_owner row, ses_agentId = sr_agent_id row,
     ses_createdAt = sr_created_at row, ses_updatedAt = sr_updated_at row\<rparr>"

text \<open>The message queries join the session; \<open>sid\<close> is its public id.\<close>

definition toMessage :: "string \<Rightarrow> message_row \<Rightarrow> session_message" where
  "toMessage sid row = \<lparr>msg_id = mr_id row, msg_sessionId = sid, msg_runId = truthy (mr_run_id row),
     msg_role = mr_role row, msg_content = mr_content row, msg_metadata = mr_metadata row,
     msg_createdAt = mr_created_at row\<rparr>"

definition toProviderConnection :: "connection_row \<Rightarrow> provider_connection" where
  "toProviderConnection row = \<lparr>pc_id = cr_id row, pc_owner = cr_owner row,
     pc_providerId = cr_provider_id row, pc_displayName = cr_display_name row,
     pc_authKind = cr_auth_kind row, pc_credentialProfileId = cr_credential_profile_id row,
     pc_baseUrl = truthy (cr_base_url row), pc_modelIds = cr_model_ids row,
     pc_status = cr_status row, pc_lastErrorCode = truthy (cr_last_error_code row),
     pc_createdAt = cr_created_at row, pc_updatedAt = cr_updated_at row\<rparr>"

text \<open>\<open>...(n ? { f: n } : {})\<close> on a number: zero leaves the property out.\<close>

definition nonzero :: "num \<Rightarrow> num option" where
  "nonzero n = (if n = 0 then None else Some n)"

record model_usage_record =
  mur_id :: int
  mur_runId :: string
  mur_attemptId :: string
  mur_routePlanId :: string
  mur_modelId :: string
  mur_providerId :: string
  mur_inputTokens :: num
  mur_outputTokens :: num
  mur_cachedInputTokens :: "num option"
  mur_cacheWriteInputTokens :: "num option"
  mur_imageInputTokens :: "num option"
  mur_costUsd :: "num option"
  mur_priceSnapshot :: "price_snapshot option"
  mur_recordedAt :: timestamp

definition toModelUsage :: "model_usage_row \<Rightarrow> model_usage_record" where
  "toModelUsage row = \<lparr>mur_id = mu_id row, mur_runId = mu_run_id row,
     mur_attemptId = mu_attempt_id row, mur_routePlanId = mu_route_plan_id row,
     mur_modelId = mu_model_id row, mur_providerId = mu_provider_id row,
     mur_inputTokens = mu_input_tokens row, mur_outputTokens = mu_output_tokens row,
     mur_cachedInputTokens = nonzero (mu_cached_input_tokens row),
     mur_cacheWriteInputTokens = nonzero (mu_cache_write_input_tokens row),
     mur_imageInputTokens = nonzero (mu_image_input_tokens row),
     mur_costUsd = mu_cost_usd row, mur_priceSnapshot = mu_price_snapshot row,
     mur_recordedAt = mu_recorded_at row\<rparr>"

definition sameOwner :: "resource_owner \<Rightarrow> resource_owner \<Rightarrow> bool" where
  "sameOwner row owner \<longleftrightarrow> appId row = appId owner \<and> tenantId row = tenantId owner
     \<and> userId row = userId owner"

lemma sameOwner_eq [simp]: "sameOwner a b \<longleftrightarrow> a = b"
  by (auto simp: sameOwner_def)

section \<open>Request fingerprints\<close>

text \<open>
  \<open>canonicalize\<close> sorts the properties of every object with \<open>localeCompare\<close>. The collation is
  a property of the host's ICU data: \<open>collate\<close> gives the collation key of a text. The digest
  (SHA-256 of the JSON text) is a parameter too.
\<close>

fun canonicalize :: "(string \<Rightarrow> 'k :: linorder) \<Rightarrow> jsval \<Rightarrow> jsval" where
  "canonicalize collate (JArr vs) = JArr (map (canonicalize collate) vs)"
| "canonicalize collate (JObj ob) =
     JObj (map (\<lambda>(k, v). (k, canonicalize collate v)) (sort_key (\<lambda>(k, v). collate k) ob))"
| "canonicalize collate v = v"

definition budget_object :: "partial_budget \<Rightarrow> jsval" where
  "budget_object b = JObj (map (\<lambda>(k, n). (k, JNum n)) (budget_entries b))"

definition opt_str :: "string option \<Rightarrow> jsval" where
  "opt_str x = (case x of None \<Rightarrow> JNull | Some s \<Rightarrow> JStr s)"

definition fingerprint_content :: "start_run_request \<Rightarrow> jsval" where
  "fingerprint_content rq = (let ow = p_owner (rq_principal rq) in JObj (
     [(''appId'', JStr (appId ow)), (''tenantId'', JStr (tenantId ow)),
      (''userId'', JStr (userId ow)), (''agent'', JStr (rq_agent rq)),
      (''workspace'', JStr (rq_workspace rq)), (''session'', opt_str (rq_session rq))]
     @ (case truthy (rq_providerConnectionId rq) of None \<Rightarrow> []
        | Some c \<Rightarrow> [(''providerConnectionId'', JStr c)])
     @ [(''input'', JStr (rq_input rq)),
        (''budget'', case rq_budget rq of None \<Rightarrow> JNull | Some b \<Rightarrow> budget_object b),
        (''parentRunId'', opt_str (rq_parentRunId rq)),
        (''depth'', JNum (of_int (nullish (rq_depth rq) 0))),
        (''deliveryAllowed'', JBool (nullish (rq_deliveryAllowed rq) True))]))"

definition requestFingerprint ::
  "(jsval \<Rightarrow> string) \<Rightarrow> (string \<Rightarrow> 'k :: linorder) \<Rightarrow> start_run_request \<Rightarrow> string" where
  "requestFingerprint sha256Json collate rq =
     sha256Json (canonicalize collate (fingerprint_content rq))"

end
