(* ===== verification/StoreRuns.thy ===== *)
theory StoreRuns
  imports StoreTables
begin

text \<open>
  The run, event, session and usage operations of \<open>SqliteRunStore\<close>
  (\<open>packages/storage-sqlite/src/index.ts\<close>). An operation is a function from the database to
  an error or a result with the new database: every operation here is one transaction that is
  rolled back when it throws, or one statement, so an error leaves the database as it was.
  The clock and the fresh internal identifiers are arguments.
\<close>

type_synonym 'a store_op = "db \<Rightarrow> store_error + ('a \<times> db)"

section \<open>Creating a run\<close>

record fresh_ids =
  fresh_agent :: string
  fresh_workspace :: string
  fresh_session :: string

definition rq_owner :: "start_run_request \<Rightarrow> resource_owner" where
  "rq_owner rq = p_owner (rq_principal rq)"

definition stored_key :: "start_run_request \<Rightarrow> string" where
  "stored_key rq = scopedIdempotencyKey (userId (rq_owner rq)) (rq_idempotencyKey rq)"

definition find_existing_run :: "start_run_request \<Rightarrow> db \<Rightarrow> run_row option" where
  "find_existing_run rq d = List.find (\<lambda>r. appId (rr_owner r) = appId (rq_owner rq)
     \<and> tenantId (rr_owner r) = tenantId (rq_owner rq)
     \<and> rr_idempotency_key r = stored_key rq) (runs d)"

definition check_connection :: "start_run_request \<Rightarrow> db \<Rightarrow> store_error + unit" where
  "check_connection rq d = (case truthy (rq_providerConnectionId rq) of
     None \<Rightarrow> Inr ()
   | Some c \<Rightarrow>
       (case List.find (\<lambda>r. cr_owner r = rq_owner rq \<and> cr_id r = c) (provider_connections d) of
          None \<Rightarrow> Inl ConnectionNotOwned
        | Some r \<Rightarrow> throw_if (cr_status r \<noteq> Ready) (ConnectionNotReady (cr_status r))))"

definition find_run :: "string \<Rightarrow> db \<Rightarrow> run_row option" where
  "find_run i d = List.find (\<lambda>r. rr_id r = i) (runs d)"

definition check_parent :: "start_run_request \<Rightarrow> db \<Rightarrow> store_error + unit" where
  "check_parent rq d = (case truthy (rq_parentRunId rq) of
     None \<Rightarrow> throw_if (nullish (rq_depth rq) 0 \<noteq> 0) RootDepthNotZero
   | Some p \<Rightarrow>
       (case find_run p d of
          None \<Rightarrow> Inl ParentRunNotOwned
        | Some parent \<Rightarrow>
            if \<not> sameOwner (rr_owner parent) (rq_owner rq) then Inl ParentRunNotOwned
            else throw_if (rq_depth rq \<noteq> Some (rr_depth parent + 1)) ChildDepthInvalid))"

definition find_agent :: "resource_owner \<Rightarrow> string \<Rightarrow> db \<Rightarrow> agent_row option" where
  "find_agent ow i d = List.find (\<lambda>r. ar_owner r = ow \<and> ar_id r = i) (agent_profiles d)"

definition insert_agent :: "agent_row \<Rightarrow> db \<Rightarrow> store_error + db" where
  "insert_agent r d = bind_result
     (insert_row (ConstraintViolation ''agent_profiles'')
        (\<lambda>x. ar_internal_id x = ar_internal_id r \<or> ar_owner x = ar_owner r \<and> ar_id x = ar_id r)
        r (agent_profiles d))
     (\<lambda>t. Inr (d\<lparr>agent_profiles := t\<rparr>))"

definition default_agent_row :: "timestamp \<Rightarrow> fresh_ids \<Rightarrow> start_run_request \<Rightarrow> agent_row" where
  "default_agent_row now ids rq = \<lparr>ar_internal_id = fresh_agent ids, ar_id = rq_agent rq,
     ar_version = 1, ar_owner = rq_owner rq, ar_name = rq_agent rq, ar_instructions = [],
     ar_model_capabilities = [Text, Tools], ar_allowed_tools = [''read_file'', ''write_file''],
     ar_default_budget = full_budget DEFAULT_RUN_BUDGET, ar_created_at = now\<rparr>"

definition ensure_agent ::
  "timestamp \<Rightarrow> fresh_ids \<Rightarrow> start_run_request \<Rightarrow> agent_row store_op" where
  "ensure_agent now ids rq d = (case find_agent (rq_owner rq) (rq_agent rq) d of
     Some a \<Rightarrow> Inr (a, d)
   | None \<Rightarrow>
       if rq_createIfMissing rq = Some False then Inl (AgentProfileUnavailable (rq_agent rq))
       else bind_result (insert_agent (default_agent_row now ids rq) d)
              (\<lambda>d'. Inr (default_agent_row now ids rq, d')))"

definition find_workspace :: "resource_owner \<Rightarrow> string \<Rightarrow> db \<Rightarrow> workspace_row option" where
  "find_workspace ow i d = List.find (\<lambda>r. wr_owner r = ow \<and> wr_id r = i) (workspaces d)"

definition insert_workspace :: "workspace_row \<Rightarrow> db \<Rightarrow> store_error + db" where
  "insert_workspace r d = bind_result
     (insert_row (ConstraintViolation ''workspaces'')
        (\<lambda>x. wr_internal_id x = wr_internal_id r \<or> wr_owner x = wr_owner r \<and> wr_id x = wr_id r)
        r (workspaces d))
     (\<lambda>t. Inr (d\<lparr>workspaces := t\<rparr>))"

definition default_workspace_row :: "timestamp \<Rightarrow> fresh_ids \<Rightarrow> start_run_request \<Rightarrow> workspace_row" where
  "default_workspace_row now ids rq = \<lparr>wr_internal_id = fresh_workspace ids,
     wr_id = rq_workspace rq, wr_owner = rq_owner rq, wr_mode = Managed, wr_state = WARM,
     wr_registered_path = None, wr_created_at = now, wr_updated_at = now\<rparr>"

definition ensure_workspace ::
  "timestamp \<Rightarrow> fresh_ids \<Rightarrow> start_run_request \<Rightarrow> workspace_row store_op" where
  "ensure_workspace now ids rq d = (case find_workspace (rq_owner rq) (rq_workspace rq) d of
     Some w \<Rightarrow> Inr (w, d)
   | None \<Rightarrow>
       if rq_createIfMissing rq = Some False then Inl (WorkspaceUnavailable (rq_workspace rq))
       else bind_result (insert_workspace (default_workspace_row now ids rq) d)
              (\<lambda>d'. Inr (default_workspace_row now ids rq, d')))"

definition run_session_id :: "string \<Rightarrow> start_run_request \<Rightarrow> string" where
  "run_session_id i rq = nullish (rq_session rq) (''ses_'' @ drop 4 i)"

definition find_session :: "resource_owner \<Rightarrow> string \<Rightarrow> db \<Rightarrow> session_row option" where
  "find_session ow i d = List.find (\<lambda>r. sr_owner r = ow \<and> sr_id r = i) (sessions d)"

definition ensure_session ::
  "timestamp \<Rightarrow> fresh_ids \<Rightarrow> string \<Rightarrow> start_run_request \<Rightarrow> agent_row \<Rightarrow> session_row store_op" where
  "ensure_session now ids i rq agent d =
     (let sid = run_session_id i rq in
      case find_session (rq_owner rq) sid d of
        Some s \<Rightarrow>
          if sr_agent_internal_id s \<noteq> ar_internal_id agent then Inl SessionAgentMismatch
          else Inr (s, d)
      | None \<Rightarrow>
          let s = \<lparr>sr_internal_id = fresh_session ids, sr_id = sid, sr_owner = rq_owner rq,
                   sr_agent_id = rq_agent rq, sr_agent_internal_id = ar_internal_id agent,
                   sr_created_at = now, sr_updated_at = now\<rparr>
          in bind_result
               (insert_row (ConstraintViolation ''sessions'')
                  (\<lambda>x. sr_internal_id x = sr_internal_id s
                     \<or> sr_owner x = sr_owner s \<and> sr_id x = sr_id s) s (sessions d))
               (\<lambda>t. Inr (s, d\<lparr>sessions := t\<rparr>)))"

text \<open>\<open>SELECT DISTINCT workspace_internal_id FROM runs WHERE session_internal_id = ?\<close>\<close>

definition bound_workspaces :: "string \<Rightarrow> db \<Rightarrow> string list" where
  "bound_workspaces sid d = remdups (List.map_filter rr_workspace_internal_id
     (filter (\<lambda>r. rr_session_internal_id r = Some sid) (runs d)))"

definition check_session_workspace ::
  "session_row \<Rightarrow> workspace_row \<Rightarrow> db \<Rightarrow> store_error + unit" where
  "check_session_workspace s w d =
     (let bound = bound_workspaces (sr_internal_id s) d in
      throw_if (1 < length bound \<or> length bound = 1 \<and> wr_internal_id w \<notin> set bound)
        SessionBoundToOtherWorkspace)"

definition new_run_row ::
  "timestamp \<Rightarrow> string \<Rightarrow> string \<Rightarrow> start_run_request \<Rightarrow> agent_row \<Rightarrow> workspace_row \<Rightarrow> session_row \<Rightarrow> run_row" where
  "new_run_row now fp i rq agent w s = \<lparr>
     rr_id = i, rr_idempotency_key = stored_key rq, rr_request_fingerprint = fp,
     rr_owner = rq_owner rq, rr_agent_id = rq_agent rq, rr_workspace_id = rq_workspace rq,
     rr_session_id = Some (run_session_id i rq),
     rr_provider_connection_id = rq_providerConnectionId rq,
     rr_agent_internal_id = Some (ar_internal_id agent),
     rr_workspace_internal_id = Some (wr_internal_id w),
     rr_session_internal_id = Some (sr_internal_id s),
     rr_parent_run_id = rq_parentRunId rq, rr_depth = nullish (rq_depth rq) 0,
     rr_delivery_allowed = (if rq_deliveryAllowed rq = Some False then 0 else 1),
     rr_input = rq_input rq,
     rr_budget = full_budget (normalizeBudget
       (spread_budget (ar_default_budget agent) (nullish (rq_budget rq) empty_budget))),
     rr_usage_input_tokens = 0, rr_usage_output_tokens = 0, rr_usage_cost_usd = 0,
     rr_usage_tool_calls = 0, rr_usage_input_tokens_reported = 0,
     rr_usage_output_tokens_reported = 0, rr_usage_cost_reported = 0,
     rr_status = ACCEPTED, rr_last_sequence = 1, rr_error_code = None, rr_error_message = None,
     rr_created_at = now, rr_updated_at = now\<rparr>"

definition run_exists :: "string \<Rightarrow> db \<Rightarrow> bool" where
  "run_exists i d \<longleftrightarrow> list_ex (\<lambda>r. rr_id r = i) (runs d)"

text \<open>\<open>parent_run_id\<close> is a foreign key; the other references were read or inserted just before.\<close>

definition insert_run :: "run_row \<Rightarrow> db \<Rightarrow> store_error + db" where
  "insert_run r d =
     bind_result (throw_if (case rr_parent_run_id r of None \<Rightarrow> False | Some p \<Rightarrow> \<not> run_exists p d)
       (ConstraintViolation ''runs'')) (\<lambda>_. bind_result
     (insert_row (ConstraintViolation ''runs'')
        (\<lambda>x. rr_id x = rr_id r \<or> appId (rr_owner x) = appId (rr_owner r)
           \<and> tenantId (rr_owner x) = tenantId (rr_owner r)
           \<and> rr_idempotency_key x = rr_idempotency_key r) r (runs d))
     (\<lambda>t. Inr (d\<lparr>runs := t\<rparr>)))"

definition insert_event :: "run_event \<Rightarrow> db \<Rightarrow> store_error + db" where
  "insert_event e d = bind_result
     (insert_row (ConstraintViolation ''run_events'')
        (\<lambda>x. ev_runId x = ev_runId e \<and> ev_sequence x = ev_sequence e) e (run_events d))
     (\<lambda>t. Inr (d\<lparr>run_events := t\<rparr>))"

definition next_message_sequence :: "string \<Rightarrow> db \<Rightarrow> int" where
  "next_message_sequence sid d =
     max_column mr_sequence (filter (\<lambda>m. mr_session_internal_id m = sid) (session_messages d)) + 1"

definition insert_message :: "message_row \<Rightarrow> db \<Rightarrow> store_error + db" where
  "insert_message m d = bind_result
     (insert_row (ConstraintViolation ''session_messages'')
        (\<lambda>x. mr_id x = mr_id m \<or> mr_session_internal_id x = mr_session_internal_id m
           \<and> mr_sequence x = mr_sequence m) m (session_messages d))
     (\<lambda>t. Inr (d\<lparr>session_messages := t\<rparr>))"

definition insert_accepted_run ::
  "timestamp \<Rightarrow> run_row \<Rightarrow> session_row \<Rightarrow> db \<Rightarrow> store_error + db" where
  "insert_accepted_run now row s d =
     bind_result (insert_run row d) (\<lambda>d1.
     bind_result (insert_event \<lparr>ev_runId = rr_id row, ev_sequence = 1, ev_type = RunAccepted,
         ev_payload = [(''status'', JStr ''ACCEPTED'')], ev_createdAt = now\<rparr> d1) (\<lambda>d2.
       insert_message \<lparr>mr_id = ''msg_'' @ drop 4 (rr_id row) @ ''_user'',
         mr_session_internal_id = sr_internal_id s, mr_run_id = Some (rr_id row),
         mr_role = UserRole, mr_content = rr_input row, mr_metadata = [], mr_created_at = now,
         mr_sequence = next_message_sequence (sr_internal_id s) d2\<rparr> d2))"

definition create_run ::
  "timestamp \<Rightarrow> fresh_ids \<Rightarrow> string \<Rightarrow> string \<Rightarrow> start_run_request \<Rightarrow> run_row store_op" where
  "create_run now ids fp i rq d =
     bind_result (check_connection rq d) (\<lambda>_.
     bind_result (check_parent rq d) (\<lambda>_.
     bind_result (ensure_agent now ids rq d) (\<lambda>(agent, d1).
     bind_result (ensure_workspace now ids rq d1) (\<lambda>(w, d2).
     bind_result (ensure_session now ids i rq agent d2) (\<lambda>(s, d3).
     bind_result (check_session_workspace s w d3) (\<lambda>_.
     let row = new_run_row now fp i rq agent w s in
     bind_result (insert_accepted_run now row s d3) (\<lambda>d4. Inr (row, d4))))))))"

definition createOrGetRun ::
  "(start_run_request \<Rightarrow> string) \<Rightarrow> timestamp \<Rightarrow> fresh_ids \<Rightarrow> string \<Rightarrow> start_run_request
    \<Rightarrow> (run_record \<times> bool) store_op" where
  "createOrGetRun fingerprint now ids i rq d =
     (case find_existing_run rq d of
        Some existing \<Rightarrow>
          if rr_request_fingerprint existing \<noteq> fingerprint rq then Inl IdempotencyKeyReused
          else Inr ((toRunRecord existing, False), d)
      | None \<Rightarrow>
          bind_result (create_run now ids (fingerprint rq) i rq d)
            (\<lambda>(row, d'). Inr ((toRunRecord row, True), d')))"

section \<open>Reading runs\<close>

definition getRun :: "string \<Rightarrow> db \<Rightarrow> run_record option" where
  "getRun i d = map_option toRunRecord (find_run i d)"

definition is_safe_integer :: "num \<Rightarrow> bool" where
  "is_safe_integer n \<longleftrightarrow> of_int \<lfloor>n\<rfloor> = n \<and> \<bar>n\<bar> \<le> of_int MAX_SAFE_INTEGER"

definition bounded_limit :: "num \<Rightarrow> int" where
  "bounded_limit limit =
     (if is_safe_integer limit then min (max \<lfloor>limit\<rfloor> 1) 1000 else 100)"

definition listRuns :: "resource_owner \<Rightarrow> num \<Rightarrow> db \<Rightarrow> run_record list" where
  "listRuns ow limit d = map toRunRecord (sql_limit (bounded_limit limit)
     (rev (sort_key (\<lambda>r. (rr_created_at r, rr_id r)) (filter (\<lambda>r. rr_owner r = ow) (runs d)))))"

definition listChildRuns :: "string \<Rightarrow> db \<Rightarrow> run_record list" where
  "listChildRuns parent d = map toRunRecord
     (sort_key (\<lambda>r. (rr_created_at r, rr_id r))
        (filter (\<lambda>r. rr_parent_run_id r = Some parent) (runs d)))"

definition listNonTerminalRuns :: "db \<Rightarrow> run_record list" where
  "listNonTerminalRuns d = map toRunRecord
     (sort_key rr_created_at (filter (\<lambda>r. \<not> isTerminalRunStatus (rr_status r)) (runs d)))"

section \<open>Appending an event\<close>

record append_event =
  ae_runId :: string
  ae_type :: run_event_type
  ae_payload :: "jsobject option"
  ae_status :: "run_status option"
  ae_errorCode :: "string option"
  ae_errorMessage :: "string option"
  ae_usage :: "usage_delta option"

definition plain_event :: "string \<Rightarrow> run_event_type \<Rightarrow> jsobject \<Rightarrow> append_event" where
  "plain_event i ty payload = \<lparr>ae_runId = i, ae_type = ty, ae_payload = Some payload,
     ae_status = None, ae_errorCode = None, ae_errorMessage = None, ae_usage = None\<rparr>"

text \<open>The child run the payload names, and whether the event is a summary of that child.\<close>

definition event_child :: "append_event \<Rightarrow> db \<Rightarrow> run_row option" where
  "event_child ae d =
     (case truthy (as_string (obj_get (nullish (ae_payload ae) []) ''childRunId'')) of
        None \<Rightarrow> None
      | Some c \<Rightarrow> find_run c d)"

definition detached_summary :: "append_event \<Rightarrow> db \<Rightarrow> bool" where
  "detached_summary ae d \<longleftrightarrow>
     ae_type ae = SubagentCompleted \<and> ae_status ae = None \<and> ae_errorCode ae = None
     \<and> ae_errorMessage ae = None \<and> ae_usage ae = None
     \<and> (case event_child ae d of
          None \<Rightarrow> False
        | Some child \<Rightarrow> rr_parent_run_id child = Some (ae_runId ae)
            \<and> isTerminalRunStatus (rr_status child)
            \<and> obj_get (nullish (ae_payload ae) []) ''status'' = JStr (status_name (rr_status child)))"

text \<open>\<open>CASE WHEN ? IS NULL THEN c ELSE c + ?\<close> and its \<open>_reported\<close> flag.\<close>

definition add_usage :: "num option \<Rightarrow> num \<Rightarrow> num" where
  "add_usage x c = (case x of None \<Rightarrow> c | Some v \<Rightarrow> c + v)"

definition mark_reported :: "num option \<Rightarrow> int \<Rightarrow> int" where
  "mark_reported x c = (case x of None \<Rightarrow> c | Some v \<Rightarrow> 1)"

lemma usage_column_simps [simp]:
  "add_usage None c = c" "add_usage (Some v) c = c + v"
  "mark_reported None f = f" "mark_reported (Some v) f = 1"
  by (simp_all add: add_usage_def mark_reported_def)

definition apply_usage :: "usage_delta \<Rightarrow> run_row \<Rightarrow> run_row" where
  "apply_usage u r = r\<lparr>
     rr_usage_input_tokens := add_usage (d_inputTokens u) (rr_usage_input_tokens r),
     rr_usage_input_tokens_reported :=
       mark_reported (d_inputTokens u) (rr_usage_input_tokens_reported r),
     rr_usage_output_tokens := add_usage (d_outputTokens u) (rr_usage_output_tokens r),
     rr_usage_output_tokens_reported :=
       mark_reported (d_outputTokens u) (rr_usage_output_tokens_reported r),
     rr_usage_cost_usd := add_usage (d_costUsd u) (rr_usage_cost_usd r),
     rr_usage_cost_reported := mark_reported (d_costUsd u) (rr_usage_cost_reported r),
     rr_usage_tool_calls := rr_usage_tool_calls r + nullish (d_toolCalls u) 0\<rparr>"

definition update_run_for_event :: "timestamp \<Rightarrow> append_event \<Rightarrow> int \<Rightarrow> run_row \<Rightarrow> run_row" where
  "update_run_for_event now ae seq r =
     (apply_usage (nullish (ae_usage ae) no_usage) r)\<lparr>
       rr_status := nullish (ae_status ae) (rr_status r),
       rr_last_sequence := seq,
       rr_error_code := override (rr_error_code r) (ae_errorCode ae),
       rr_error_message := override (rr_error_message r) (ae_errorMessage ae),
       rr_updated_at := now\<rparr>"

definition complete_attempts :: "timestamp \<Rightarrow> string \<Rightarrow> run_status \<Rightarrow> db \<Rightarrow> db" where
  "complete_attempts now i st d = d\<lparr>run_attempts :=
     update_rows (\<lambda>a. att_runId a = i \<and> att_status a = RUNNING)
       (\<lambda>a. a\<lparr>att_status := st, att_endedAt := Some now\<rparr>) (run_attempts d)\<rparr>"

definition new_event :: "timestamp \<Rightarrow> append_event \<Rightarrow> run_row \<Rightarrow> run_event" where
  "new_event now ae row = \<lparr>ev_runId = ae_runId ae, ev_sequence = rr_last_sequence row + 1,
     ev_type = ae_type ae, ev_payload = nullish (ae_payload ae) [], ev_createdAt = now\<rparr>"

definition appendEvent :: "timestamp \<Rightarrow> append_event \<Rightarrow> run_event store_op" where
  "appendEvent now ae d =
     (case find_run (ae_runId ae) d of
        None \<Rightarrow> Inl (RunNotFound (ae_runId ae))
      | Some row \<Rightarrow>
          if ae_type ae = SubagentCompleted \<and> \<not> detached_summary ae d
          then Inl (InvalidSubagentSummary (ae_runId ae))
          else if isTerminalRunStatus (rr_status row) \<and> \<not> detached_summary ae d
          then Inl (RunIsTerminal (ae_runId ae))
          else
            bind_result (insert_event (new_event now ae row) d) (\<lambda>d1.
            let d2 = d1\<lparr>runs := update_rows (\<lambda>r. rr_id r = ae_runId ae)
                        (update_run_for_event now ae (rr_last_sequence row + 1)) (runs d1)\<rparr>;
                d3 = (case ae_status ae of
                        None \<Rightarrow> d2
                      | Some st \<Rightarrow> if isTerminalRunStatus st
                                   then complete_attempts now (ae_runId ae) st d2 else d2)
            in Inr (new_event now ae row, d3)))"

section \<open>Reading events\<close>

definition run_log :: "string \<Rightarrow> db \<Rightarrow> run_event list" where
  "run_log i d = filter (\<lambda>e. ev_runId e = i) (run_events d)"

definition listEvents :: "string \<Rightarrow> int \<Rightarrow> int \<Rightarrow> db \<Rightarrow> run_event list" where
  "listEvents i after limit d = sql_limit limit
     (sort_key ev_sequence (filter (\<lambda>e. ev_runId e = i \<and> after < ev_sequence e) (run_events d)))"

definition getLastEvent :: "string \<Rightarrow> run_event_type option \<Rightarrow> db \<Rightarrow> run_event option" where
  "getLastEvent i ty d =
     (case rev (sort_key ev_sequence
        (filter (\<lambda>e. ev_runId e = i \<and> (case ty of None \<Rightarrow> True | Some t \<Rightarrow> ev_type e = t))
          (run_events d))) of
        [] \<Rightarrow> None
      | e # _ \<Rightarrow> Some e)"

section \<open>Sessions and messages\<close>

text \<open>A message whose session row does not exist violates the foreign key.\<close>

definition getSession :: "string \<Rightarrow> resource_owner \<Rightarrow> db \<Rightarrow> session_record option" where
  "getSession i ow d = map_option toSession (find_session ow i d)"

record append_message =
  am_id :: string
  am_sessionId :: string
  am_runId :: string
  am_role :: message_role
  am_content :: string
  am_metadata :: "jsobject option"

definition appendSessionMessage :: "timestamp \<Rightarrow> append_message \<Rightarrow> session_message store_op" where
  "appendSessionMessage now am d =
     (case find_run (am_runId am) d of
        None \<Rightarrow> Inl SessionMessageNotOwned
      | Some row \<Rightarrow>
          (case truthy (rr_session_internal_id row) of
             None \<Rightarrow> Inl SessionMessageNotOwned
           | Some sid \<Rightarrow>
               if rr_session_id row \<noteq> Some (am_sessionId am) then Inl SessionMessageNotOwned
               else if isTerminalRunStatus (rr_status row) then Inl (RunIsTerminal (am_runId am))
               else
                 let m = \<lparr>mr_id = am_id am, mr_session_internal_id = sid,
                          mr_run_id = Some (am_runId am), mr_role = am_role am,
                          mr_content = am_content am, mr_metadata = nullish (am_metadata am) [],
                          mr_created_at = now, mr_sequence = next_message_sequence sid d\<rparr>
                 in bind_result (insert_message m d) (\<lambda>d'.
                    bind_result (from_option (ConstraintViolation ''session_messages'')
                      (List.find (\<lambda>s. sr_internal_id s = sid) (sessions d'))) (\<lambda>s.
                      Inr (toMessage (sr_id s) m, d')))))"

definition listSessionMessages ::
  "string \<Rightarrow> resource_owner \<Rightarrow> int \<Rightarrow> db \<Rightarrow> session_message list" where
  "listSessionMessages i ow limit d =
     (let owned = filter (\<lambda>m. list_ex (\<lambda>s. sr_internal_id s = mr_session_internal_id m
                     \<and> sr_owner s = ow \<and> sr_id s = i) (sessions d)) (session_messages d)
      in map (toMessage i)
           (sort_key mr_sequence (sql_limit limit (rev (sort_key mr_sequence owned)))))"

section \<open>Usage\<close>

definition recordUsage :: "timestamp \<Rightarrow> string \<Rightarrow> usage_delta \<Rightarrow> run_record store_op" where
  "recordUsage now i u d =
     (case find_run i d of
        None \<Rightarrow> Inl (RunNotFound i)
      | Some current \<Rightarrow>
          if isTerminalRunStatus (rr_status current) then Inl (RunIsTerminal i)
          else
            let d' = d\<lparr>runs := update_rows (\<lambda>r. rr_id r = i)
                       (\<lambda>r. (apply_usage u r)\<lparr>rr_updated_at := now\<rparr>) (runs d)\<rparr>
            in bind_result (from_option (RunNotFound i) (find_run i d'))
                 (\<lambda>row. Inr (toRunRecord row, d')))"

section \<open>What the operations do\<close>

text \<open>The tables an event changes, when it is accepted.\<close>

lemma appendEvent_cases:
  assumes "appendEvent now ae d = Inr (e, d')"
  obtains row where "find_run (ae_runId ae) d = Some row"
    and "e = new_event now ae row"
    and "ae_type ae = SubagentCompleted \<Longrightarrow> detached_summary ae d"
    and "isTerminalRunStatus (rr_status row) \<Longrightarrow> detached_summary ae d"
    and "run_events d' = run_events d @ [e]"
    and "runs d' = update_rows (\<lambda>r. rr_id r = ae_runId ae)
           (update_run_for_event now ae (rr_last_sequence row + 1)) (runs d)"
    and "run_attempts d' = (case ae_status ae of
           Some st \<Rightarrow> if isTerminalRunStatus st
             then run_attempts (complete_attempts now (ae_runId ae) st d) else run_attempts d
         | None \<Rightarrow> run_attempts d)"
    and "d' = d\<lparr>runs := runs d', run_events := run_events d', run_attempts := run_attempts d'\<rparr>"
proof -
  from assms obtain row where row: "find_run (ae_runId ae) d = Some row"
    by (auto simp: appendEvent_def split: option.splits)
  have t1: "ae_type ae = SubagentCompleted \<Longrightarrow> detached_summary ae d"
    and t2: "isTerminalRunStatus (rr_status row) \<Longrightarrow> detached_summary ae d"
    using assms row by (auto simp: appendEvent_def split: if_splits)
  obtain d1 where d1: "insert_event (new_event now ae row) d = Inr d1"
    using assms row t1 t2 by (auto simp: appendEvent_def result_simps split: if_splits)
  then have d1': "d1 = d\<lparr>run_events := run_events d @ [new_event now ae row]\<rparr>"
    by (auto simp: insert_event_def result_simps)
  show thesis
    using assms row t1 t2 d1 d1'
    by (intro that [of row])
       (auto simp: appendEvent_def Let_def complete_attempts_def split: option.splits if_splits)
qed

text \<open>The guard of a terminal run: only the detached summary of one of its children passes.\<close>

lemma detached_summary_frame:
  "detached_summary ae d \<Longrightarrow> ae_status ae = None \<and> ae_errorCode ae = None
     \<and> ae_errorMessage ae = None \<and> ae_usage ae = None"
  by (simp add: detached_summary_def)

lemma apply_usage_none [simp]: "apply_usage no_usage r = r"
  by (simp add: apply_usage_def no_usage_def)

lemma update_run_for_event_id [simp]: "rr_id (update_run_for_event now ae n r) = rr_id r"
  by (simp add: update_run_for_event_def apply_usage_def)

lemma update_run_for_event_key [simp]:
  "rr_owner (update_run_for_event now ae n r) = rr_owner r"
  "rr_idempotency_key (update_run_for_event now ae n r) = rr_idempotency_key r"
  "rr_request_fingerprint (update_run_for_event now ae n r) = rr_request_fingerprint r"
  "rr_session_internal_id (update_run_for_event now ae n r) = rr_session_internal_id r"
  "rr_workspace_internal_id (update_run_for_event now ae n r) = rr_workspace_internal_id r"
  "rr_last_sequence (update_run_for_event now ae n r) = n"
  "rr_status (update_run_for_event now ae n r) = nullish (ae_status ae) (rr_status r)"
  by (simp_all add: update_run_for_event_def apply_usage_def)

lemma apply_usage_frame [simp]:
  "rr_id (apply_usage u r) = rr_id r" "rr_owner (apply_usage u r) = rr_owner r"
  "rr_idempotency_key (apply_usage u r) = rr_idempotency_key r"
  "rr_last_sequence (apply_usage u r) = rr_last_sequence r"
  "rr_status (apply_usage u r) = rr_status r"
  "rr_session_internal_id (apply_usage u r) = rr_session_internal_id r"
  "rr_workspace_internal_id (apply_usage u r) = rr_workspace_internal_id r"
  by (simp_all add: apply_usage_def)

lemma find_run_SomeD: "find_run i d = Some r \<Longrightarrow> rr_id r = i \<and> r \<in> set (runs d)"
  unfolding find_run_def by (drule find_SomeD) simp

lemma find_run_cong: "runs d' = runs d \<Longrightarrow> find_run i d' = find_run i d"
  by (simp add: find_run_def)

section \<open>The invariant of runs and their event logs\<close>

definition run_key :: "run_row \<Rightarrow> string \<times> string \<times> string" where
  "run_key r = (appId (rr_owner r), tenantId (rr_owner r), rr_idempotency_key r)"

text \<open>The log of a run is numbered 1, 2, ... up to the run's last sequence, without gaps.\<close>

definition log_numbered :: "db \<Rightarrow> run_row \<Rightarrow> bool" where
  "log_numbered d r \<longleftrightarrow> 1 \<le> rr_last_sequence r
     \<and> map ev_sequence (run_log (rr_id r) d) = [1..rr_last_sequence r]"

definition runs_inv :: "db \<Rightarrow> bool" where
  "runs_inv d \<longleftrightarrow> distinct (map rr_id (runs d)) \<and> distinct (map run_key (runs d))
     \<and> (\<forall>r\<in>set (runs d). log_numbered d r)
     \<and> ev_runId ` set (run_events d) \<subseteq> rr_id ` set (runs d)"

lemma runs_inv_empty: "runs_inv empty_db"
  by (simp add: runs_inv_def empty_db_def)

lemma runs_inv_cong:
  "runs_inv d \<Longrightarrow> runs d' = runs d \<Longrightarrow> run_events d' = run_events d \<Longrightarrow> runs_inv d'"
  by (simp add: runs_inv_def log_numbered_def run_log_def)

lemma find_run_unique:
  "runs_inv d \<Longrightarrow> find_run i d = Some r \<longleftrightarrow> r \<in> set (runs d) \<and> rr_id r = i"
  by (simp add: runs_inv_def find_run_def find_unique_key)

lemma upto_snoc: "(0::int) \<le> n \<Longrightarrow> [1..n + 1] = [1..n] @ [n + 1]"
  using upto_rec2 [of 1 "n + 1"] by simp

lemma appendEvent_runs_inv:
  assumes inv: "runs_inv d" and step: "appendEvent now ae d = Inr (e, d')"
  shows "runs_inv d'"
proof -
  from step obtain row where row: "find_run (ae_runId ae) d = Some row"
    and e: "e = new_event now ae row" and events: "run_events d' = run_events d @ [e]"
    and runs: "runs d' = update_rows (\<lambda>r. rr_id r = ae_runId ae)
           (update_run_for_event now ae (rr_last_sequence row + 1)) (runs d)"
    by (rule appendEvent_cases)
  have ids: "map rr_id (runs d') = map rr_id (runs d)"
    unfolding runs by (simp add: map_update_rows_frame)
  have keys: "map run_key (runs d') = map run_key (runs d)"
    unfolding runs by (simp add: map_update_rows_frame run_key_def)
  have "log_numbered d' r'" if r': "r' \<in> set (runs d')" for r'
  proof (cases "rr_id r' = ae_runId ae")
    case True
    then obtain r where "r \<in> set (runs d)" "rr_id r = ae_runId ae"
      and r'_def: "r' = update_run_for_event now ae (rr_last_sequence row + 1) r"
      using r' by (auto simp: runs set_update_rows)
    then have "find_run (ae_runId ae) d = Some r" using inv by (simp add: find_run_unique)
    with row have "r = row" by simp
    then have old: "log_numbered d row" using inv \<open>r \<in> set (runs d)\<close> by (simp add: runs_inv_def)
    have "rr_id row = ae_runId ae" using row by (auto dest: find_run_SomeD)
    with old True show ?thesis
      by (simp add: log_numbered_def run_log_def events e new_event_def r'_def upto_snoc)
  next
    case False
    then have "r' \<in> set (runs d)" using r' by (auto simp: runs set_update_rows)
    with inv have "log_numbered d r'" by (simp add: runs_inv_def)
    with False show ?thesis by (simp add: log_numbered_def run_log_def events e new_event_def)
  qed
  moreover have "ev_runId ` set (run_events d') \<subseteq> rr_id ` set (runs d')"
  proof -
    have "rr_id ` set (runs d') = rr_id ` set (runs d)"
      using ids by (metis set_map)
    moreover have "ev_runId e \<in> rr_id ` set (runs d)"
      using row by (force dest!: find_run_SomeD simp: e new_event_def)
    ultimately show ?thesis using inv by (auto simp: runs_inv_def events)
  qed
  ultimately show ?thesis using inv by (simp add: runs_inv_def ids keys)
qed

section \<open>Terminal runs are final\<close>

text \<open>Everything of a run but the number of its last event and the time of its last change.\<close>

definition settled :: "run_row \<Rightarrow> run_row" where
  "settled r = r\<lparr>rr_last_sequence := 0, rr_updated_at := 0\<rparr>"

text \<open>Whatever \<open>d'\<close> does to a terminal run of \<open>d\<close>, it keeps its settled part.\<close>

definition keeps_terminal :: "db \<Rightarrow> db \<Rightarrow> bool" where
  "keeps_terminal d d' \<longleftrightarrow> (\<forall>r\<in>set (runs d). isTerminalRunStatus (rr_status r) \<longrightarrow>
     (\<exists>r'\<in>set (runs d'). settled r' = settled r))"

lemma keeps_terminal_refl: "runs d' = runs d \<Longrightarrow> keeps_terminal d d'"
  by (auto simp: keeps_terminal_def)

lemma settled_status: "settled r' = settled r \<Longrightarrow> rr_status r' = rr_status r \<and> rr_id r' = rr_id r"
  unfolding settled_def by (metis run_row.select_convs run_row.update_convs run_row.surjective)

lemma keeps_terminal_trans:
  "keeps_terminal d d' \<Longrightarrow> keeps_terminal d' d'' \<Longrightarrow> keeps_terminal d d''"
  unfolding keeps_terminal_def by (metis settled_status)

text \<open>An update of one run by a function that keeps settled what is terminal.\<close>

lemma keeps_terminal_update:
  assumes "runs d' = update_rows p f (runs d)"
    and "\<And>r. r \<in> set (runs d) \<Longrightarrow> p r \<Longrightarrow> isTerminalRunStatus (rr_status r) \<Longrightarrow> settled (f r) = settled r"
  shows "keeps_terminal d d'"
  unfolding keeps_terminal_def assms(1) set_update_rows using assms(2) by blast

lemma appendEvent_keeps_terminal:
  assumes inv: "runs_inv d" and step: "appendEvent now ae d = Inr (e, d')"
  shows "keeps_terminal d d'"
proof -
  from step obtain row where row: "find_run (ae_runId ae) d = Some row"
    and guard: "isTerminalRunStatus (rr_status row) \<Longrightarrow> detached_summary ae d"
    and runs: "runs d' = update_rows (\<lambda>r. rr_id r = ae_runId ae)
           (update_run_for_event now ae (rr_last_sequence row + 1)) (runs d)"
    by (rule appendEvent_cases) blast
  show ?thesis
  proof (rule keeps_terminal_update [OF runs])
    fix r assume r: "r \<in> set (runs d)" "rr_id r = ae_runId ae" "isTerminalRunStatus (rr_status r)"
    with inv row have "r = row" by (metis find_run_unique option.inject)
    with r guard have "detached_summary ae d" by simp
    from detached_summary_frame [OF this]
    show "settled (update_run_for_event now ae (rr_last_sequence row + 1) r) = settled r"
      by (simp add: update_run_for_event_def settled_def)
  qed
qed

text \<open>Session messages and usage never touch a terminal run.\<close>

lemma appendSessionMessage_frame:
  assumes "appendSessionMessage now am d = Inr (m, d')"
  shows "d' = d\<lparr>session_messages := session_messages d'\<rparr>"
  using assms
  by (auto simp: appendSessionMessage_def insert_message_def result_simps Let_def
      split: option.splits if_splits)

lemma recordUsage_cases:
  assumes "recordUsage now i u d = Inr (rec, d')"
  obtains row where "find_run i d = Some row" and "\<not> isTerminalRunStatus (rr_status row)"
    and "d' = d\<lparr>runs := update_rows (\<lambda>r. rr_id r = i)
           (\<lambda>r. (apply_usage u r)\<lparr>rr_updated_at := now\<rparr>) (runs d)\<rparr>"
    and "rec = toRunRecord ((apply_usage u row)\<lparr>rr_updated_at := now\<rparr>)"
proof -
  from assms obtain row where row: "find_run i d = Some row" "\<not> isTerminalRunStatus (rr_status row)"
    by (auto simp: recordUsage_def split: option.splits if_splits)
  let ?d = "d\<lparr>runs := update_rows (\<lambda>r. rr_id r = i)
           (\<lambda>r. (apply_usage u r)\<lparr>rr_updated_at := now\<rparr>) (runs d)\<rparr>"
  have "find_run i ?d = Some ((apply_usage u row)\<lparr>rr_updated_at := now\<rparr>)"
    using row by (auto simp: find_run_def find_update_rows dest!: find_SomeD)
  with assms row show thesis
    by (intro that [of row]) (auto simp: recordUsage_def Let_def)
qed

lemma recordUsage_keeps_terminal:
  assumes inv: "runs_inv d" and step: "recordUsage now i u d = Inr (rec, d')"
  shows "keeps_terminal d d'"
proof -
  from step obtain row where row: "find_run i d = Some row" "\<not> isTerminalRunStatus (rr_status row)"
    and d': "d' = d\<lparr>runs := update_rows (\<lambda>r. rr_id r = i)
           (\<lambda>r. (apply_usage u r)\<lparr>rr_updated_at := now\<rparr>) (runs d)\<rparr>"
    by (rule recordUsage_cases)
  show ?thesis
  proof (rule keeps_terminal_update)
    show "runs d' = update_rows (\<lambda>r. rr_id r = i)
           (\<lambda>r. (apply_usage u r)\<lparr>rr_updated_at := now\<rparr>) (runs d)" by (simp add: d')
  next
    fix r assume "r \<in> set (runs d)" "rr_id r = i" "isTerminalRunStatus (rr_status r)"
    with inv row show "settled ((apply_usage u r)\<lparr>rr_updated_at := now\<rparr>) = settled r"
      by (metis find_run_unique option.inject)
  qed
qed

lemma recordUsage_runs_inv:
  assumes inv: "runs_inv d" and step: "recordUsage now i u d = Inr (rec, d')"
  shows "runs_inv d'"
proof -
  from step have d': "d' = d\<lparr>runs := update_rows (\<lambda>r. rr_id r = i)
           (\<lambda>r. (apply_usage u r)\<lparr>rr_updated_at := now\<rparr>) (runs d)\<rparr>"
    by (rule recordUsage_cases)
  have ids: "map rr_id (runs d') = map rr_id (runs d)" and keys: "map run_key (runs d') = map run_key (runs d)"
    by (simp_all add: d' map_update_rows_frame run_key_def)
  moreover have "\<forall>r\<in>set (runs d'). log_numbered d' r"
    using inv by (auto simp: runs_inv_def d' set_update_rows log_numbered_def run_log_def)
  moreover have "rr_id ` set (runs d') = rr_id ` set (runs d)"
    using ids by (metis set_map)
  moreover have "run_events d' = run_events d" by (simp add: d')
  ultimately show ?thesis using inv by (simp add: runs_inv_def)
qed

section \<open>Creating and replaying runs\<close>

lemma ensure_agent_frame:
  assumes "ensure_agent now ids rq d = Inr (a, d')"
  obtains t where "d' = d\<lparr>agent_profiles := t\<rparr>"
proof -
  from assms have "\<exists>t. d' = d\<lparr>agent_profiles := t\<rparr>"
    by (auto simp: ensure_agent_def insert_agent_def result_simps split: option.splits if_splits
        intro: exI [of _ "agent_profiles d"])
  then show thesis using that by blast
qed

lemma ensure_workspace_frame:
  assumes "ensure_workspace now ids rq d = Inr (w, d')"
  obtains t where "d' = d\<lparr>workspaces := t\<rparr>"
proof -
  from assms have "\<exists>t. d' = d\<lparr>workspaces := t\<rparr>"
    by (auto simp: ensure_workspace_def insert_workspace_def result_simps
        split: option.splits if_splits intro: exI [of _ "workspaces d"])
  then show thesis using that by blast
qed

lemma ensure_session_frame:
  assumes "ensure_session now ids i rq a d = Inr (s, d')"
  obtains t where "d' = d\<lparr>sessions := t\<rparr>"
proof -
  from assms have "\<exists>t. d' = d\<lparr>sessions := t\<rparr>"
    by (auto simp: ensure_session_def result_simps Let_def split: option.splits if_splits
        intro: exI [of _ "sessions d"])
  then show thesis using that by blast
qed

lemma new_run_row_simps [simp]:
  "rr_id (new_run_row now fp i rq a w s) = i"
  "rr_idempotency_key (new_run_row now fp i rq a w s) = stored_key rq"
  "rr_request_fingerprint (new_run_row now fp i rq a w s) = fp"
  "rr_owner (new_run_row now fp i rq a w s) = rq_owner rq"
  "rr_status (new_run_row now fp i rq a w s) = ACCEPTED"
  "rr_last_sequence (new_run_row now fp i rq a w s) = 1"
  "rr_workspace_internal_id (new_run_row now fp i rq a w s) = Some (wr_internal_id w)"
  "rr_session_internal_id (new_run_row now fp i rq a w s) = Some (sr_internal_id s)"
  by (simp_all add: new_run_row_def)

text \<open>What an accepted run adds: its row, its first event, and rows it had to provision.\<close>

lemma create_run_cases:
  assumes "create_run now ids fp i rq d = Inr (row, d')"
  obtains a w s m where "row = new_run_row now fp i rq a w s"
    and "runs d' = runs d @ [row]"
    and "run_events d' = run_events d @ [\<lparr>ev_runId = i, ev_sequence = 1, ev_type = RunAccepted,
         ev_payload = [(''status'', JStr ''ACCEPTED'')], ev_createdAt = now\<rparr>]"
    and "\<forall>r\<in>set (runs d). rr_id r \<noteq> i \<and> run_key r \<noteq> run_key row"
    and "\<not> (1 < length (bound_workspaces (sr_internal_id s) d)
           \<or> length (bound_workspaces (sr_internal_id s) d) = 1
             \<and> wr_internal_id w \<notin> set (bound_workspaces (sr_internal_id s) d))"
    and "session_messages d' = session_messages d @ [m]"
    and "workspace_leases d' = workspace_leases d \<and> approvals d' = approvals d
         \<and> run_attempts d' = run_attempts d \<and> run_route_plans d' = run_route_plans d
         \<and> run_snapshots d' = run_snapshots d \<and> provider_connections d' = provider_connections d
         \<and> run_model_usage d' = run_model_usage d \<and> runtime_containers d' = runtime_containers d"
proof -
  from assms obtain a d1 w d2 s d3 where
    a: "ensure_agent now ids rq d = Inr (a, d1)" and
    w: "ensure_workspace now ids rq d1 = Inr (w, d2)" and
    s: "ensure_session now ids i rq a d2 = Inr (s, d3)" and
    c: "check_session_workspace s w d3 = Inr ()" and
    row: "row = new_run_row now fp i rq a w s" and
    ins: "insert_accepted_run now row s d3 = Inr d'"
    by (auto simp: create_run_def result_simps Let_def)
  obtain t1 where d1: "d1 = d\<lparr>agent_profiles := t1\<rparr>" using a by (rule ensure_agent_frame)
  obtain t2 where d2: "d2 = d1\<lparr>workspaces := t2\<rparr>" using w by (rule ensure_workspace_frame)
  obtain t3 where d3: "d3 = d2\<lparr>sessions := t3\<rparr>" using s by (rule ensure_session_frame)
  note frames = d3 d2 d1
  from ins obtain m where
    "d' = d3\<lparr>runs := runs d3 @ [row], run_events := run_events d3 @ [\<lparr>ev_runId = i, ev_sequence = 1,
       ev_type = RunAccepted, ev_payload = [(''status'', JStr ''ACCEPTED'')], ev_createdAt = now\<rparr>],
       session_messages := session_messages d3 @ [m]\<rparr>"
    and "\<forall>r\<in>set (runs d3). rr_id r \<noteq> i \<and> run_key r \<noteq> run_key row"
    by (auto simp: insert_accepted_run_def insert_run_def insert_event_def insert_message_def
        result_simps row run_key_def)
  then show thesis
    using c by (intro that [of a w s m])
      (auto simp: frames row check_session_workspace_def Let_def bound_workspaces_def)
qed

lemma createOrGetRun_cases:
  assumes "createOrGetRun fp now ids i rq d = Inr ((rec, created), d')"
  obtains (replay) row where "find_existing_run rq d = Some row"
      "rr_request_fingerprint row = fp rq" "rec = toRunRecord row" "\<not> created" "d' = d"
  | (create) row where "find_existing_run rq d = None"
      "create_run now ids (fp rq) i rq d = Inr (row, d')" "rec = toRunRecord row" "created"
  using assms by (auto simp: createOrGetRun_def result_simps split: option.splits if_splits)

lemma create_run_runs_inv:
  assumes inv: "runs_inv d" and step: "create_run now ids fp i rq d = Inr (row, d')"
  shows "runs_inv d'"
proof -
  from step obtain a w s where row: "row = new_run_row now fp i rq a w s"
    and runs: "runs d' = runs d @ [row]"
    and events: "run_events d' = run_events d @ [\<lparr>ev_runId = i, ev_sequence = 1,
       ev_type = RunAccepted, ev_payload = [(''status'', JStr ''ACCEPTED'')], ev_createdAt = now\<rparr>]"
    and fresh: "\<forall>r\<in>set (runs d). rr_id r \<noteq> i \<and> run_key r \<noteq> run_key row"
    by (rule create_run_cases)
  have none: "run_log i d = []"
  proof -
    have "ev_runId e \<noteq> i" if "e \<in> set (run_events d)" for e
    proof -
      have "ev_runId e \<in> rr_id ` set (runs d)" using inv that by (auto simp: runs_inv_def)
      with fresh show ?thesis by auto
    qed
    then show ?thesis by (simp add: run_log_def filter_empty_conv)
  qed
  have "log_numbered d' row"
    using none by (simp add: log_numbered_def run_log_def events row)
  moreover have "log_numbered d' r" if "r \<in> set (runs d)" for r
    using inv that fresh by (auto simp: runs_inv_def log_numbered_def run_log_def events)
  ultimately show ?thesis
    using inv fresh by (auto simp: runs_inv_def runs events row)
qed

lemma createOrGetRun_runs_inv:
  "runs_inv d \<Longrightarrow> createOrGetRun fp now ids i rq d = Inr ((rec, created), d') \<Longrightarrow> runs_inv d'"
  by (erule createOrGetRun_cases) (auto intro: create_run_runs_inv)

lemma createOrGetRun_keeps_terminal:
  "createOrGetRun fp now ids i rq d = Inr ((rec, created), d') \<Longrightarrow> keeps_terminal d d'"
  by (erule createOrGetRun_cases)
     (auto simp: keeps_terminal_def elim!: create_run_cases)

lemma find_existing_run_key:
  "find_existing_run rq d =
     List.find (\<lambda>r. run_key r = (appId (rq_owner rq), tenantId (rq_owner rq), stored_key rq)) (runs d)"
  by (simp add: find_existing_run_def run_key_def)

lemma find_existing_run_unique:
  "runs_inv d \<Longrightarrow> find_existing_run rq d = Some r \<longleftrightarrow> r \<in> set (runs d)
     \<and> run_key r = (appId (rq_owner rq), tenantId (rq_owner rq), stored_key rq)"
  by (simp add: find_existing_run_key runs_inv_def find_unique_key)

section \<open>A session stays with one workspace\<close>

definition session_binding :: "run_row \<Rightarrow> string option \<times> string option" where
  "session_binding r = (rr_session_internal_id r, rr_workspace_internal_id r)"

definition session_bindings :: "db \<Rightarrow> (string option \<times> string option) set" where
  "session_bindings d = set (map session_binding (runs d))"

definition session_workspace_inv :: "db \<Rightarrow> bool" where
  "session_workspace_inv d \<longleftrightarrow>
     single_valued (session_bindings d) \<and> None \<notin> snd ` session_bindings d"

lemma in_bound_workspaces:
  "w \<in> set (bound_workspaces sid d) \<longleftrightarrow> (Some sid, Some w) \<in> session_bindings d"
proof
  assume "w \<in> set (bound_workspaces sid d)"
  then obtain r where "r \<in> set (runs d)" "rr_session_internal_id r = Some sid"
    "rr_workspace_internal_id r = Some w"
    by (auto simp: bound_workspaces_def List.map_filter_def)
  then show "(Some sid, Some w) \<in> session_bindings d"
    by (auto simp: session_bindings_def session_binding_def intro: rev_image_eqI)
next
  assume "(Some sid, Some w) \<in> session_bindings d"
  then obtain r where "(Some sid, Some w) = session_binding r" and mem: "r \<in> set (runs d)"
    unfolding session_bindings_def set_map by (rule imageE)
  then have r: "rr_session_internal_id r = Some sid" "rr_workspace_internal_id r = Some w"
    by (simp_all add: session_binding_def)
  with mem have "w \<in> (the \<circ> rr_workspace_internal_id) ` {r \<in> set (runs d).
      rr_session_internal_id r = Some sid \<and> rr_workspace_internal_id r \<noteq> None}"
    by (intro rev_image_eqI [of r]) simp_all
  then show "w \<in> set (bound_workspaces sid d)"
    by (auto simp: bound_workspaces_def List.map_filter_def)
qed

lemma bound_workspace_unique:
  assumes "\<not> (1 < length (bound_workspaces sid d)
           \<or> length (bound_workspaces sid d) = 1 \<and> w \<notin> set (bound_workspaces sid d))"
    and "w' \<in> set (bound_workspaces sid d)"
  shows "w' = w"
proof -
  have "length (bound_workspaces sid d) = 1" using assms by (cases "bound_workspaces sid d") auto
  then obtain v where "bound_workspaces sid d = [v]" by (auto simp: length_Suc_conv)
  with assms show ?thesis by auto
qed

lemma create_run_session_workspace:
  assumes inv: "session_workspace_inv d" and step: "create_run now ids fp i rq d = Inr (row, d')"
  shows "session_workspace_inv d'"
proof -
  from step obtain a w s where row: "row = new_run_row now fp i rq a w s"
    and runs: "runs d' = runs d @ [row]"
    and bound: "\<not> (1 < length (bound_workspaces (sr_internal_id s) d)
           \<or> length (bound_workspaces (sr_internal_id s) d) = 1
             \<and> wr_internal_id w \<notin> set (bound_workspaces (sr_internal_id s) d))"
    by (rule create_run_cases)
  let ?new = "(Some (sr_internal_id s), Some (wr_internal_id w))"
  have bindings: "session_bindings d' = insert ?new (session_bindings d)"
    by (simp add: session_bindings_def session_binding_def runs row)
  have "v = Some (wr_internal_id w)" if v: "(Some (sr_internal_id s), v) \<in> session_bindings d" for v
  proof -
    have "v \<noteq> None" using inv v by (force simp: session_workspace_inv_def)
    then obtain w' where "v = Some w'" by blast
    with v have "w' \<in> set (bound_workspaces (sr_internal_id s) d)" by (simp add: in_bound_workspaces)
    with bound \<open>v = Some w'\<close> show ?thesis by (simp add: bound_workspace_unique)
  qed
  then have "single_valued (insert ?new (session_bindings d))"
    using inv unfolding session_workspace_inv_def single_valued_def by blast
  moreover have "None \<notin> snd ` insert ?new (session_bindings d)"
    using inv by (simp add: session_workspace_inv_def)
  ultimately show ?thesis by (simp add: session_workspace_inv_def bindings)
qed

lemma session_workspace_inv_cong:
  "map session_binding (runs d') = map session_binding (runs d) \<Longrightarrow>
   session_workspace_inv d' \<longleftrightarrow> session_workspace_inv d"
  by (simp add: session_workspace_inv_def session_bindings_def)

lemma update_run_bindings [simp]:
  "session_binding (update_run_for_event now ae n r) = session_binding r"
  "session_binding (apply_usage u r) = session_binding r"
  by (simp_all add: session_binding_def)

end
