(* ===== verification/Fencing.thy ===== *)
theory Fencing
  imports Prelude
begin

text \<open>
  The interface of a fenced lease on one resource, as the callers of the lease operations rely
  on it: the token of the resource never decreases, it grows whenever the ownership passes to
  somebody who did not hold it, and a lease is valid only for the present owner with the
  present token. From these laws alone: at most one lease is valid at a time, and a lease that
  was taken over or given up never becomes valid again.
\<close>

locale fenced_lease =
  fixes step :: "'s \<Rightarrow> 's \<Rightarrow> bool"
    and token :: "'s \<Rightarrow> int"
    and owner :: "'s \<Rightarrow> 'o option"
    and valid :: "timestamp \<Rightarrow> 'o \<Rightarrow> int \<Rightarrow> 's \<Rightarrow> bool"
  assumes token_mono: "step s s' \<Longrightarrow> token s \<le> token s'"
    and owner_same_token: "step s s' \<Longrightarrow> token s' = token s \<Longrightarrow> owner s' = owner s \<or> owner s' = None"
    and valid_owner: "valid now own t s \<Longrightarrow> owner s = Some own \<and> token s = t"
begin

lemma exclusive:
  "valid now own t s \<Longrightarrow> valid now' own' t' s \<Longrightarrow> own' = own \<and> t' = t"
  using valid_owner [of now own t s] valid_owner [of now' own' t' s] by auto

lemma token_mono_steps: "step\<^sup>*\<^sup>* s s' \<Longrightarrow> token s \<le> token s'"
  by (induction rule: rtranclp_induct) (auto dest: token_mono)

lemma fenced_out:
  assumes "t < token s" and "step\<^sup>*\<^sup>* s s'"
  shows "\<not> valid now own t s'"
  using token_mono_steps [OF assms(2)] assms(1) by (auto dest: valid_owner)

lemma owner_steps:
  "step\<^sup>*\<^sup>* s s' \<Longrightarrow> token s' = token s \<Longrightarrow> owner s' = owner s \<or> owner s' = None"
proof (induction rule: rtranclp_induct)
  case base
  then show ?case by simp
next
  case (step y z)
  have "token s \<le> token y" and "token y \<le> token z"
    using step.hyps by (auto dest: token_mono token_mono_steps)
  with step.prems have "token y = token s" and "token z = token y" by auto
  then show ?case using step.IH owner_same_token [OF step.hyps(2)] by auto
qed

lemma no_comeback:
  assumes "owner s \<noteq> Some own" and "t \<le> token s" and "step\<^sup>*\<^sup>* s s'"
  shows "\<not> valid now own t s'"
proof
  assume "valid now own t s'"
  then have own: "owner s' = Some own" "token s' = t" by (auto dest: valid_owner)
  with token_mono_steps [OF assms(3)] assms(2) have "token s' = token s" by simp
  from owner_steps [OF assms(3) this] own assms(1) show False by auto
qed

text \<open>A lease valid before and after was held all the time between.\<close>

lemma uninterrupted:
  assumes "valid now own t s" and "step\<^sup>*\<^sup>* s u" and "step\<^sup>*\<^sup>* u s'" and "valid now' own t s'"
  shows "owner u = Some own \<and> token u = t"
proof
  have "token s = t" "token s' = t" using assms(1,4) by (auto dest: valid_owner)
  with token_mono_steps [OF assms(2)] token_mono_steps [OF assms(3)] show token: "token u = t" by simp
  show "owner u = Some own" using no_comeback [OF _ _ assms(3), of own t] token assms(4) by auto
qed

end

end
