(* ===== verification/StoreLeases.thy ===== *)
theory StoreLeases
  imports StoreRuns Fencing
begin

text \<open>
  Workspace leases of \<open>SqliteRunStore\<close>: acquiring, reading, validating, renewing and releasing
  the lease of a run's workspace. A lease row survives its release, so that the fencing token
  of a workspace only grows. The laws of \<open>fenced_lease\<close> are proved for these operations.
\<close>

definition find_lease :: "string \<Rightarrow> db \<Rightarrow> lease_row option" where
  "find_lease w d = List.find (\<lambda>l. lr_workspace_internal_id l = w) (workspace_leases d)"

definition live_until :: "timestamp \<Rightarrow> lease_row \<Rightarrow> bool" where
  "live_until now l \<longleftrightarrow> (case lr_expires_at l of None \<Rightarrow> False | Some e \<Rightarrow> now < e)"

definition held_by_other :: "timestamp \<Rightarrow> string \<Rightarrow> lease_row \<Rightarrow> bool" where
  "held_by_other now i l \<longleftrightarrow> (case truthy (lr_owner_run_id l) of
     None \<Rightarrow> False | Some own \<Rightarrow> own \<noteq> i \<and> live_until now l)"

definition held_by_self :: "timestamp \<Rightarrow> string \<Rightarrow> lease_row \<Rightarrow> bool" where
  "held_by_self now i l \<longleftrightarrow> lr_owner_run_id l = Some i \<and> live_until now l"

text \<open>\<open>INSERT ... ON CONFLICT(workspace_internal_id) DO UPDATE\<close>\<close>

definition upsert_lease :: "lease_row \<Rightarrow> db \<Rightarrow> db" where
  "upsert_lease l d = d\<lparr>workspace_leases :=
     (if list_ex (\<lambda>x. lr_workspace_internal_id x = lr_workspace_internal_id l) (workspace_leases d)
      then update_rows (\<lambda>x. lr_workspace_internal_id x = lr_workspace_internal_id l) (\<lambda>_. l)
             (workspace_leases d)
      else workspace_leases d @ [l])\<rparr>"

definition acquireWorkspaceLease ::
  "timestamp \<Rightarrow> string \<Rightarrow> string \<Rightarrow> int \<Rightarrow> workspace_lease option store_op" where
  "acquireWorkspaceLease now ws i ttlMs d =
     (case find_run i d of
        None \<Rightarrow> Inl LeaseNotOwned
      | Some run \<Rightarrow>
          (case truthy (rr_workspace_internal_id run) of
             None \<Rightarrow> Inl LeaseNotOwned
           | Some w \<Rightarrow>
               if rr_workspace_id run \<noteq> ws then Inl LeaseNotOwned
               else
                 let row = find_lease w d in
                 if (case row of None \<Rightarrow> False | Some l \<Rightarrow> held_by_other now i l)
                 then Inr (None, d)
                 else
                   let sameLiveOwner = (case row of None \<Rightarrow> False | Some l \<Rightarrow> held_by_self now i l);
                       held = (case row of None \<Rightarrow> 0 | Some l \<Rightarrow> lr_fencing_token l);
                       tok = (if sameLiveOwner then held else held + 1)
                   in Inr (Some \<lparr>ls_workspaceId = ws, ls_ownerRunId = i, ls_fencingToken = tok,
                                 ls_expiresAt = now + ttlMs\<rparr>,
                           upsert_lease \<lparr>lr_workspace_internal_id = w, lr_owner_run_id = Some i,
                             lr_fencing_token = tok, lr_expires_at = Some (now + ttlMs),
                             lr_updated_at = now\<rparr> d)))"

text \<open>\<open>SELECT workspace_internal_id FROM runs WHERE id = ? AND workspace_id = ?\<close>\<close>

definition run_workspace :: "string \<Rightarrow> string \<Rightarrow> db \<Rightarrow> string option" where
  "run_workspace i ws d =
     (case List.find (\<lambda>r. rr_id r = i \<and> rr_workspace_id r = ws) (runs d) of
        None \<Rightarrow> None | Some r \<Rightarrow> rr_workspace_internal_id r)"

definition run_lease :: "string \<Rightarrow> string \<Rightarrow> db \<Rightarrow> lease_row option" where
  "run_lease i ws d = (case run_workspace i ws d of None \<Rightarrow> None | Some w \<Rightarrow> find_lease w d)"

definition getWorkspaceLease :: "string \<Rightarrow> string \<Rightarrow> db \<Rightarrow> workspace_lease option" where
  "getWorkspaceLease ws i d =
     (case run_lease i ws d of
        None \<Rightarrow> None
      | Some l \<Rightarrow>
          if lr_owner_run_id l = Some i
          then Some \<lparr>ls_workspaceId = ws, ls_ownerRunId = i, ls_fencingToken = lr_fencing_token l,
                     ls_expiresAt = nullish (lr_expires_at l) 0\<rparr>
          else None)"

definition validateWorkspaceLease :: "timestamp \<Rightarrow> workspace_lease \<Rightarrow> db \<Rightarrow> bool" where
  "validateWorkspaceLease now lease d \<longleftrightarrow>
     (case run_lease (ls_ownerRunId lease) (ls_workspaceId lease) d of
        None \<Rightarrow> False
      | Some l \<Rightarrow> lr_owner_run_id l = Some (ls_ownerRunId lease)
          \<and> lr_fencing_token l = ls_fencingToken lease \<and> live_until now l)"

text \<open>The rows an \<open>UPDATE workspace_leases\<close> of a lease touches.\<close>

definition lease_row_of :: "workspace_lease \<Rightarrow> db \<Rightarrow> lease_row \<Rightarrow> bool" where
  "lease_row_of lease d l \<longleftrightarrow>
     Some (lr_workspace_internal_id l) = run_workspace (ls_ownerRunId lease) (ls_workspaceId lease) d
     \<and> lr_owner_run_id l = Some (ls_ownerRunId lease)
     \<and> lr_fencing_token l = ls_fencingToken lease"

definition renewWorkspaceLease ::
  "timestamp \<Rightarrow> workspace_lease \<Rightarrow> int \<Rightarrow> workspace_lease option store_op" where
  "renewWorkspaceLease now lease ttlMs d =
     (let hit = (\<lambda>l. lease_row_of lease d l \<and> live_until now l);
          d' = d\<lparr>workspace_leases := update_rows hit
                 (\<lambda>l. l\<lparr>lr_expires_at := Some (now + ttlMs), lr_updated_at := now\<rparr>)
                 (workspace_leases d)\<rparr>
      in Inr (if count_rows hit (workspace_leases d) = 1
              then Some (lease\<lparr>ls_expiresAt := now + ttlMs\<rparr>) else None, d'))"

definition releaseWorkspaceLease :: "timestamp \<Rightarrow> workspace_lease \<Rightarrow> bool store_op" where
  "releaseWorkspaceLease now lease d =
     (let hit = lease_row_of lease d;
          d' = d\<lparr>workspace_leases := update_rows hit
                 (\<lambda>l. l\<lparr>lr_owner_run_id := None, lr_expires_at := None, lr_updated_at := now\<rparr>)
                 (workspace_leases d)\<rparr>
      in Inr (count_rows hit (workspace_leases d) = 1, d'))"

section \<open>The lease state of one workspace\<close>

definition lease_token :: "string \<Rightarrow> db \<Rightarrow> int" where
  "lease_token w d = (case find_lease w d of None \<Rightarrow> 0 | Some l \<Rightarrow> lr_fencing_token l)"

definition lease_owner :: "string \<Rightarrow> db \<Rightarrow> string option" where
  "lease_owner w d = (case find_lease w d of None \<Rightarrow> None | Some l \<Rightarrow> lr_owner_run_id l)"

definition lease_valid :: "string \<Rightarrow> timestamp \<Rightarrow> string \<Rightarrow> int \<Rightarrow> db \<Rightarrow> bool" where
  "lease_valid w now i t d \<longleftrightarrow> (\<exists>lease. ls_ownerRunId lease = i \<and> ls_fencingToken lease = t
     \<and> run_workspace i (ls_workspaceId lease) d = Some w \<and> validateWorkspaceLease now lease d)"

text \<open>A lease operation, or an operation that leaves the lease table alone.\<close>

inductive lease_step :: "db \<Rightarrow> db \<Rightarrow> bool" where
  acquire: "acquireWorkspaceLease now ws i ttl d = Inr (res, d') \<Longrightarrow> lease_step d d'"
| renew: "renewWorkspaceLease now lease ttl d = Inr (res, d') \<Longrightarrow> lease_step d d'"
| release: "releaseWorkspaceLease now lease d = Inr (ok, d') \<Longrightarrow> lease_step d d'"
| other: "workspace_leases d' = workspace_leases d \<Longrightarrow> lease_step d d'"

lemma find_lease_upsert:
  "find_lease w (upsert_lease l d) =
     (if w = lr_workspace_internal_id l then Some l else find_lease w d)"
proof -
  let ?p = "\<lambda>x. lr_workspace_internal_id x = lr_workspace_internal_id l"
  have self: "List.find ?p (update_rows ?p (\<lambda>_. l) t) = (if list_ex ?p t then Some l else None)" for t
    by (induction t) auto
  have other: "List.find (\<lambda>x. lr_workspace_internal_id x = w) (update_rows ?p (\<lambda>_. l) t)
      = List.find (\<lambda>x. lr_workspace_internal_id x = w) t" if "w \<noteq> lr_workspace_internal_id l" for t
    using that by (induction t) auto
  have none: "\<not> list_ex ?p t \<Longrightarrow> List.find ?p t = None" for t
    by (induction t) auto
  show ?thesis
  proof (cases "w = lr_workspace_internal_id l")
    case True
    show ?thesis
      unfolding True by (simp add: find_lease_def upsert_lease_def self find_append none)
  next
    case False
    then show ?thesis
      by (auto simp: find_lease_def upsert_lease_def other find_append split: option.splits)
  qed
qed

lemma acquire_cases:
  assumes "acquireWorkspaceLease now ws i ttl d = Inr (res, d')"
  obtains (busy) w l where "find_lease w d = Some l" "held_by_other now i l" "res = None" "d' = d"
  | (granted) w lease row where "res = Some lease" "d' = upsert_lease row d"
      "find_run i d \<noteq> None" "map_option rr_workspace_id (find_run i d) = Some ws"
      "map_option rr_workspace_internal_id (find_run i d) = Some (Some w)"
      "lr_workspace_internal_id row = w" "lr_owner_run_id row = Some i"
      "lr_expires_at row = Some (now + ttl)"
      "lr_fencing_token row = ls_fencingToken lease"
      "\<not> (case find_lease w d of None \<Rightarrow> False | Some l \<Rightarrow> held_by_other now i l)"
      "ls_fencingToken lease = (if \<exists>l. find_lease w d = Some l \<and> held_by_self now i l
         then lease_token w d else lease_token w d + 1)"
      "ls_ownerRunId lease = i" "ls_workspaceId lease = ws" "ls_expiresAt lease = now + ttl"
proof -
  from assms obtain run w where run: "find_run i d = Some run"
    and w: "truthy (rr_workspace_internal_id run) = Some w" and ws: "rr_workspace_id run = ws"
    by (auto simp: acquireWorkspaceLease_def split: option.splits if_splits)
  then have w': "rr_workspace_internal_id run = Some w"
    by (auto simp: truthy_def split: option.splits if_splits)
  show thesis
  proof (cases "case find_lease w d of None \<Rightarrow> False | Some l \<Rightarrow> held_by_other now i l")
    case True
    then obtain l where "find_lease w d = Some l" "held_by_other now i l"
      by (auto split: option.splits)
    with assms run w ws True show thesis
      by (intro busy [of w l]) (auto simp: acquireWorkspaceLease_def Let_def)
  next
    case False
    define tok where "tok = (if \<exists>l. find_lease w d = Some l \<and> held_by_self now i l
      then lease_token w d else lease_token w d + 1)"
    have held: "tok = (if case find_lease w d of None \<Rightarrow> False | Some l \<Rightarrow> held_by_self now i l
        then case find_lease w d of None \<Rightarrow> 0 | Some l \<Rightarrow> lr_fencing_token l
        else (case find_lease w d of None \<Rightarrow> 0 | Some l \<Rightarrow> lr_fencing_token l) + 1)"
      by (auto simp: tok_def lease_token_def split: option.splits)
    show thesis
    proof (rule granted [of "\<lparr>ls_workspaceId = ws, ls_ownerRunId = i, ls_fencingToken = tok,
          ls_expiresAt = now + ttl\<rparr>" "\<lparr>lr_workspace_internal_id = w, lr_owner_run_id = Some i,
          lr_fencing_token = tok, lr_expires_at = Some (now + ttl), lr_updated_at = now\<rparr>" w])
      show "res = Some \<lparr>ls_workspaceId = ws, ls_ownerRunId = i, ls_fencingToken = tok,
          ls_expiresAt = now + ttl\<rparr>"
        and "d' = upsert_lease \<lparr>lr_workspace_internal_id = w, lr_owner_run_id = Some i,
          lr_fencing_token = tok, lr_expires_at = Some (now + ttl), lr_updated_at = now\<rparr> d"
        using assms run w ws False by (simp_all add: acquireWorkspaceLease_def Let_def held)
    qed (use run w' ws False in \<open>simp_all add: tok_def\<close>)
  qed
qed


lemma lease_upsert_state:
  "lease_token w (upsert_lease l d) =
     (if w = lr_workspace_internal_id l then lr_fencing_token l else lease_token w d)"
  "lease_owner w (upsert_lease l d) =
     (if w = lr_workspace_internal_id l then lr_owner_run_id l else lease_owner w d)"
  by (simp_all add: lease_token_def lease_owner_def find_lease_upsert)

lemma acquire_token:
  assumes "acquireWorkspaceLease now ws i ttl d = Inr (res, d')"
  shows "lease_token w d \<le> lease_token w d'
    \<and> (lease_token w d' = lease_token w d \<longrightarrow> lease_owner w d' = lease_owner w d)"
  using assms
proof (cases rule: acquire_cases)
  case busy
  then show ?thesis by simp
next
  case (granted w' lease row)
  show ?thesis
  proof (cases "\<exists>l. find_lease w' d = Some l \<and> held_by_self now i l")
    case True
    then have "lease_owner w' d = Some i" by (auto simp: lease_owner_def held_by_self_def)
    with True granted show ?thesis by (auto simp: lease_upsert_state)
  next
    case False
    with granted have "ls_fencingToken lease = lease_token w' d + 1" by meson
    with granted show ?thesis by (simp add: lease_upsert_state)
  qed
qed

text \<open>Renewing and releasing rewrite the rows of one lease in place and keep its token.\<close>

lemma find_lease_update:
  assumes "\<And>l. lr_workspace_internal_id (f l) = lr_workspace_internal_id l"
  shows "find_lease w (d\<lparr>workspace_leases := update_rows p f (workspace_leases d)\<rparr>) =
    map_option (\<lambda>l. if p l then f l else l) (find_lease w d)"
  by (simp add: find_lease_def find_update_rows assms)

lemma renew_lease:
  assumes "renewWorkspaceLease now lease ttl d = Inr (res, d')"
  shows "lease_token w d' = lease_token w d" and "lease_owner w d' = lease_owner w d"
  using assms
  by (auto simp: renewWorkspaceLease_def Let_def lease_token_def lease_owner_def
      find_lease_update split: option.splits)

lemma release_lease:
  assumes "releaseWorkspaceLease now lease d = Inr (ok, d')"
  shows "lease_token w d' = lease_token w d"
    and "lease_owner w d' = lease_owner w d \<or> lease_owner w d' = None"
  using assms
  by (auto simp: releaseWorkspaceLease_def Let_def lease_token_def lease_owner_def
      find_lease_update split: option.splits if_splits)

lemma validate_cases:
  "validateWorkspaceLease now lease d \<longleftrightarrow> (\<exists>w l.
     run_workspace (ls_ownerRunId lease) (ls_workspaceId lease) d = Some w
     \<and> find_lease w d = Some l \<and> lr_owner_run_id l = Some (ls_ownerRunId lease)
     \<and> lr_fencing_token l = ls_fencingToken lease \<and> live_until now l)"
  by (auto simp: validateWorkspaceLease_def run_lease_def split: option.splits)

interpretation store_lease: fenced_lease lease_step "lease_token w" "lease_owner w" "lease_valid w" for w
proof unfold_locales
  fix d d' assume "lease_step d d'"
  then show "lease_token w d \<le> lease_token w d'"
    by cases (simp_all add: acquire_token renew_lease release_lease,
        simp add: lease_token_def find_lease_def)
next
  fix d d' assume "lease_step d d'" and same: "lease_token w d' = lease_token w d"
  then show "lease_owner w d' = lease_owner w d \<or> lease_owner w d' = None"
    using same by cases (auto simp: acquire_token renew_lease dest: release_lease(2),
        simp add: lease_owner_def find_lease_def)
next
  fix now i t d assume "lease_valid w now i t d"
  then show "lease_owner w d = Some i \<and> lease_token w d = t"
    by (auto simp: lease_valid_def validate_cases lease_owner_def lease_token_def)
qed

end
