(* ===== verification/StoreRecords.thy ===== *)
theory StoreRecords
  imports StoreRuns
begin

text \<open>
  The remaining operations of \<open>SqliteRunStore\<close>: approvals, agent profiles, workspaces, run
  attempts, route plans, run snapshots, provider connections, model usage and runtime
  containers. Reads that no caller can see fail are plain functions of the database.
\<close>

section \<open>Approvals\<close>

definition find_approval :: "string \<Rightarrow> db \<Rightarrow> approval_record option" where
  "find_approval i d = List.find (\<lambda>a. apr_id a = i) (approvals d)"

definition createApproval :: "approval_record \<Rightarrow> approval_record store_op" where
  "createApproval r d =
     bind_result (throw_if (\<not> run_exists (apr_runId r) d) (ConstraintViolation ''approvals'')) (\<lambda>_.
     bind_result (insert_row (ConstraintViolation ''approvals'') (\<lambda>x. apr_id x = apr_id r) r
       (approvals d)) (\<lambda>t. Inr (r, d\<lparr>approvals := t\<rparr>)))"

definition getApproval :: "string \<Rightarrow> db \<Rightarrow> approval_record option" where
  "getApproval i d = find_approval i d"

text \<open>The \<open>WHERE\<close> clause of the resolving update.\<close>

definition resolvable ::
  "timestamp \<Rightarrow> string \<Rightarrow> approval_status \<Rightarrow> string \<Rightarrow> db \<Rightarrow> approval_record \<Rightarrow> bool" where
  "resolvable now i st digest d a \<longleftrightarrow> apr_id a = i \<and> apr_status a = PENDING
     \<and> apr_executionDigest a = digest
     \<and> (st \<noteq> APPROVED \<or> now < apr_expiresAt a)
     \<and> list_ex (\<lambda>r. rr_id r = apr_runId a \<and> \<not> isTerminalRunStatus (rr_status r)) (runs d)"

definition resolve_within :: "timestamp \<Rightarrow> string \<Rightarrow> approval_status \<Rightarrow> string \<Rightarrow> db \<Rightarrow> bool \<times> db" where
  "resolve_within now i st digest d =
     (count_rows (resolvable now i st digest d) (approvals d) = 1,
      d\<lparr>approvals := update_rows (resolvable now i st digest d)
          (\<lambda>a. a\<lparr>apr_status := st, apr_resolvedAt := Some now\<rparr>) (approvals d)\<rparr>)"

definition resolveApproval ::
  "timestamp \<Rightarrow> string \<Rightarrow> approval_status \<Rightarrow> string \<Rightarrow> approval_record option store_op" where
  "resolveApproval now i st digest d =
     (let (changed, d') = resolve_within now i st digest d in Inr (getApproval i d', d'))"

definition resolveApprovalAndAppendEvent ::
  "timestamp \<Rightarrow> string \<Rightarrow> approval_status \<Rightarrow> string \<Rightarrow> jsobject \<Rightarrow> approval_record option store_op" where
  "resolveApprovalAndAppendEvent now i st digest payload d =
     (let (changed, d') = resolve_within now i st digest d in
      case getApproval i d' of
        None \<Rightarrow> Inr (None, d')
      | Some r \<Rightarrow>
          if changed then
            bind_result (appendEvent now (plain_event (apr_runId r) ApprovalResolved payload) d')
              (\<lambda>(e, d''). Inr (Some r, d''))
          else Inr (Some r, d'))"

section \<open>Agent profiles\<close>

definition getAgentProfile :: "string \<Rightarrow> resource_owner \<Rightarrow> db \<Rightarrow> agent_profile option" where
  "getAgentProfile i ow d = map_option toAgentProfile (find_agent ow i d)"

definition createAgentProfile :: "string \<Rightarrow> agent_profile \<Rightarrow> agent_profile option store_op" where
  "createAgentProfile internal r d =
     bind_result (insert_agent \<lparr>ar_internal_id = internal, ar_id = ap_id r,
        ar_version = ap_version r, ar_owner = ap_owner r, ar_name = ap_name r,
        ar_instructions = ap_instructions r, ar_model_capabilities = ap_modelCapabilities r,
        ar_allowed_tools = ap_allowedTools r,
        ar_default_budget = full_budget (normalizeBudget (full_budget (ap_defaultBudget r))),
        ar_created_at = ap_createdAt r\<rparr> d)
       (\<lambda>d'. Inr (getAgentProfile (ap_id r) (ap_owner r) d', d'))"

definition listAgentProfiles :: "resource_owner \<Rightarrow> db \<Rightarrow> agent_profile list" where
  "listAgentProfiles ow d = map toAgentProfile
     (sort_key ar_created_at (filter (\<lambda>r. ar_owner r = ow) (agent_profiles d)))"

definition agent_in_use :: "db \<Rightarrow> agent_row \<Rightarrow> bool" where
  "agent_in_use d a \<longleftrightarrow> list_ex (\<lambda>r. rr_agent_internal_id r = Some (ar_internal_id a)) (runs d)
     \<or> list_ex (\<lambda>s. sr_agent_internal_id s = ar_internal_id a) (sessions d)"

definition deleteAgentProfile :: "string \<Rightarrow> resource_owner \<Rightarrow> bool store_op" where
  "deleteAgentProfile i ow d =
     (let hit = (\<lambda>a. ar_owner a = ow \<and> ar_id a = i \<and> \<not> agent_in_use d a) in
      Inr (count_rows hit (agent_profiles d) = 1,
           d\<lparr>agent_profiles := delete_rows hit (agent_profiles d)\<rparr>))"

section \<open>Workspaces\<close>

definition getWorkspace :: "string \<Rightarrow> resource_owner \<Rightarrow> db \<Rightarrow> workspace_record option" where
  "getWorkspace i ow d = map_option toWorkspace (find_workspace ow i d)"

definition createWorkspace :: "string \<Rightarrow> workspace_record \<Rightarrow> workspace_record option store_op" where
  "createWorkspace internal r d =
     bind_result (insert_workspace \<lparr>wr_internal_id = internal, wr_id = ws_id r,
        wr_owner = ws_owner r, wr_mode = ws_mode r, wr_state = ws_state r,
        wr_registered_path = ws_registeredPath r, wr_created_at = ws_createdAt r,
        wr_updated_at = ws_updatedAt r\<rparr> d)
       (\<lambda>d'. Inr (getWorkspace (ws_id r) (ws_owner r) d', d'))"

definition listWorkspaces :: "resource_owner \<Rightarrow> db \<Rightarrow> workspace_record list" where
  "listWorkspaces ow d = map toWorkspace
     (sort_key wr_created_at (filter (\<lambda>r. wr_owner r = ow) (workspaces d)))"

definition updateWorkspaceState ::
  "timestamp \<Rightarrow> string \<Rightarrow> resource_owner \<Rightarrow> workspace_state \<Rightarrow> workspace_state
    \<Rightarrow> workspace_record option store_op" where
  "updateWorkspaceState now i ow expected state d =
     (let hit = (\<lambda>w. wr_owner w = ow \<and> wr_id w = i \<and> wr_state w = expected);
          d' = d\<lparr>workspaces := update_rows hit
                 (\<lambda>w. w\<lparr>wr_state := state, wr_updated_at := now\<rparr>) (workspaces d)\<rparr>
      in Inr (if count_rows hit (workspaces d) = 1 then getWorkspace i ow d' else None, d'))"

section \<open>Run attempts\<close>

definition createRunAttempt :: "timestamp \<Rightarrow> string \<Rightarrow> string \<Rightarrow> run_attempt store_op" where
  "createRunAttempt now i attempt d =
     (let a = \<lparr>att_id = attempt, att_runId = i,
               att_attempt = int (count_rows (\<lambda>x. att_runId x = i) (run_attempts d)) + 1,
               att_status = RUNNING, att_startedAt = now, att_endedAt = None\<rparr> in
      bind_result (throw_if (\<not> run_exists i d) (ConstraintViolation ''run_attempts'')) (\<lambda>_.
      bind_result (insert_row (ConstraintViolation ''run_attempts'')
          (\<lambda>x. att_id x = attempt \<or> att_runId x = i \<and> att_attempt x = att_attempt a)
          a (run_attempts d)) (\<lambda>t. Inr (a, d\<lparr>run_attempts := t\<rparr>))))"

definition completeRunAttempt :: "timestamp \<Rightarrow> string \<Rightarrow> run_status \<Rightarrow> run_attempt store_op" where
  "completeRunAttempt now attempt st d =
     (let d' = d\<lparr>run_attempts :=
          update_rows (\<lambda>a. att_id a = attempt \<and> att_status a = RUNNING)
            (\<lambda>a. a\<lparr>att_status := st, att_endedAt := Some now\<rparr>) (run_attempts d)\<rparr> in
      bind_result (from_option (AttemptNotFound attempt)
          (List.find (\<lambda>a. att_id a = attempt) (run_attempts d'))) (\<lambda>a. Inr (a, d')))"

definition completeRunningAttempts :: "timestamp \<Rightarrow> string \<Rightarrow> run_status \<Rightarrow> nat store_op" where
  "completeRunningAttempts now i st d =
     Inr (count_rows (\<lambda>a. att_runId a = i \<and> att_status a = RUNNING) (run_attempts d),
          complete_attempts now i st d)"

definition listRunAttempts :: "string \<Rightarrow> db \<Rightarrow> run_attempt list" where
  "listRunAttempts i d = sort_key att_attempt (filter (\<lambda>a. att_runId a = i) (run_attempts d))"

section \<open>Frozen route plans and snapshots\<close>

definition attempt_exists :: "string \<Rightarrow> db \<Rightarrow> bool" where
  "attempt_exists i d \<longleftrightarrow> list_ex (\<lambda>a. att_id a = i) (run_attempts d)"

definition getRunRoutePlan :: "string \<Rightarrow> string \<Rightarrow> db \<Rightarrow> run_route_plan option" where
  "getRunRoutePlan i attempt d =
     List.find (\<lambda>p. rp_runId p = i \<and> rp_attemptId p = attempt) (run_route_plans d)"

definition persistRunRoutePlan :: "run_route_plan \<Rightarrow> run_route_plan option store_op" where
  "persistRunRoutePlan r d =
     (case getRunRoutePlan (rp_runId r) (rp_attemptId r) d of
        Some existing \<Rightarrow> if existing \<noteq> r then Inl RoutePlanFrozen else Inr (Some existing, d)
      | None \<Rightarrow>
          bind_result (throw_if (\<not> run_exists (rp_runId r) d \<or> \<not> attempt_exists (rp_attemptId r) d)
            (ConstraintViolation ''run_route_plans'')) (\<lambda>_.
          bind_result (insert_row (ConstraintViolation ''run_route_plans'')
            (\<lambda>p. rp_runId p = rp_runId r \<and> rp_attemptId p = rp_attemptId r
               \<or> rp_routePlanId p = rp_routePlanId r) r (run_route_plans d)) (\<lambda>t.
          let d' = d\<lparr>run_route_plans := t\<rparr>
          in Inr (getRunRoutePlan (rp_runId r) (rp_attemptId r) d', d'))))"

definition getRunSnapshot :: "string \<Rightarrow> string \<Rightarrow> db \<Rightarrow> jsval option" where
  "getRunSnapshot i attempt d = map_option sn_snapshot
     (List.find (\<lambda>s. sn_runId s = i \<and> sn_attemptId s = attempt) (run_snapshots d))"

text \<open>The argument is the snapshot's own columns with its JSON value.\<close>

definition persistRunSnapshot :: "snapshot_row \<Rightarrow> jsval option store_op" where
  "persistRunSnapshot r d =
     (case getRunSnapshot (sn_runId r) (sn_attemptId r) d of
        Some existing \<Rightarrow> if existing \<noteq> sn_snapshot r then Inl SnapshotFrozen
                         else Inr (Some existing, d)
      | None \<Rightarrow>
          bind_result (throw_if (\<not> run_exists (sn_runId r) d \<or> \<not> attempt_exists (sn_attemptId r) d)
            (ConstraintViolation ''run_snapshots'')) (\<lambda>_.
          bind_result (insert_row (ConstraintViolation ''run_snapshots'')
            (\<lambda>s. sn_runId s = sn_runId r \<and> sn_attemptId s = sn_attemptId r
               \<or> sn_digest s = sn_digest r) r (run_snapshots d)) (\<lambda>t.
          let d' = d\<lparr>run_snapshots := t\<rparr>
          in Inr (getRunSnapshot (sn_runId r) (sn_attemptId r) d', d'))))"

section \<open>Provider connections\<close>

definition find_connection :: "resource_owner \<Rightarrow> string \<Rightarrow> db \<Rightarrow> connection_row option" where
  "find_connection ow i d = List.find (\<lambda>r. cr_owner r = ow \<and> cr_id r = i) (provider_connections d)"

definition getProviderConnection :: "string \<Rightarrow> resource_owner \<Rightarrow> db \<Rightarrow> provider_connection option" where
  "getProviderConnection i ow d = map_option toProviderConnection (find_connection ow i d)"

definition createProviderConnection ::
  "string \<Rightarrow> provider_connection \<Rightarrow> provider_connection option store_op" where
  "createProviderConnection internal r d =
     bind_result (insert_row (ConstraintViolation ''provider_connections'')
       (\<lambda>x. cr_internal_id x = internal \<or> cr_owner x = pc_owner r \<and> cr_id x = pc_id r
          \<or> cr_owner x = pc_owner r \<and> cr_credential_profile_id x = pc_credentialProfileId r)
       \<lparr>cr_internal_id = internal, cr_id = pc_id r, cr_owner = pc_owner r,
        cr_provider_id = pc_providerId r, cr_display_name = pc_displayName r,
        cr_auth_kind = pc_authKind r, cr_credential_profile_id = pc_credentialProfileId r,
        cr_base_url = pc_baseUrl r, cr_model_ids = pc_modelIds r, cr_status = pc_status r,
        cr_last_error_code = pc_lastErrorCode r, cr_created_at = pc_createdAt r,
        cr_updated_at = pc_updatedAt r\<rparr> (provider_connections d)) (\<lambda>t.
       let d' = d\<lparr>provider_connections := t\<rparr>
       in Inr (getProviderConnection (pc_id r) (pc_owner r) d', d'))"

definition listProviderConnections :: "resource_owner \<Rightarrow> db \<Rightarrow> provider_connection list" where
  "listProviderConnections ow d = map toProviderConnection
     (sort_key (\<lambda>r. (cr_created_at r, cr_id r))
        (filter (\<lambda>r. cr_owner r = ow) (provider_connections d)))"

definition updateProviderConnection ::
  "timestamp \<Rightarrow> string \<Rightarrow> resource_owner \<Rightarrow> provider_connection_status \<Rightarrow> string option
    \<Rightarrow> provider_connection option store_op" where
  "updateProviderConnection now i ow st lastErrorCode d =
     (let hit = (\<lambda>r. cr_owner r = ow \<and> cr_id r = i);
          d' = d\<lparr>provider_connections := update_rows hit
                 (\<lambda>r. r\<lparr>cr_status := st, cr_last_error_code := lastErrorCode, cr_updated_at := now\<rparr>)
                 (provider_connections d)\<rparr>
      in Inr (if count_rows hit (provider_connections d) = 1
              then getProviderConnection i ow d' else None, d'))"

definition deleteProviderConnection :: "string \<Rightarrow> resource_owner \<Rightarrow> bool store_op" where
  "deleteProviderConnection i ow d =
     (let hit = (\<lambda>r. cr_owner r = ow \<and> cr_id r = i)
      in Inr (count_rows hit (provider_connections d) = 1,
              d\<lparr>provider_connections := delete_rows hit (provider_connections d)\<rparr>))"

section \<open>Model usage\<close>

text \<open>\<open>INTEGER PRIMARY KEY\<close>: SQLite numbers a new row one past the largest. The column checks
  refuse negative counts.\<close>

definition route_plan_exists :: "string \<Rightarrow> db \<Rightarrow> bool" where
  "route_plan_exists i d \<longleftrightarrow> list_ex (\<lambda>p. rp_routePlanId p = i) (run_route_plans d)"

definition persistRunModelUsage :: "model_usage_record \<Rightarrow> model_usage_record store_op" where
  "persistRunModelUsage r d =
     (let row = \<lparr>mu_id = max_column mu_id (run_model_usage d) + 1, mu_run_id = mur_runId r,
          mu_attempt_id = mur_attemptId r, mu_route_plan_id = mur_routePlanId r,
          mu_model_id = mur_modelId r, mu_provider_id = mur_providerId r,
          mu_input_tokens = mur_inputTokens r, mu_output_tokens = mur_outputTokens r,
          mu_cached_input_tokens = nullish (mur_cachedInputTokens r) 0,
          mu_cache_write_input_tokens = nullish (mur_cacheWriteInputTokens r) 0,
          mu_image_input_tokens = nullish (mur_imageInputTokens r) 0,
          mu_cost_usd = mur_costUsd r, mu_price_snapshot = mur_priceSnapshot r,
          mu_recorded_at = mur_recordedAt r\<rparr> in
      bind_result (throw_if (\<not> run_exists (mur_runId r) d \<or> \<not> attempt_exists (mur_attemptId r) d
            \<or> \<not> route_plan_exists (mur_routePlanId r) d
            \<or> mu_input_tokens row < 0 \<or> mu_output_tokens row < 0
            \<or> mu_cached_input_tokens row < 0 \<or> mu_cache_write_input_tokens row < 0
            \<or> mu_image_input_tokens row < 0
            \<or> (case mu_cost_usd row of None \<Rightarrow> False | Some c \<Rightarrow> c < 0))
          (ConstraintViolation ''run_model_usage'')) (\<lambda>_.
        Inr (toModelUsage row, d\<lparr>run_model_usage := run_model_usage d @ [row]\<rparr>)))"

definition listRunModelUsage :: "string \<Rightarrow> db \<Rightarrow> model_usage_record list" where
  "listRunModelUsage i d = map toModelUsage
     (sort_key mu_id (filter (\<lambda>r. mu_run_id r = i) (run_model_usage d)))"

section \<open>Runtime containers\<close>

definition recordRuntimeContainer :: "runtime_container \<Rightarrow> unit store_op" where
  "recordRuntimeContainer r d =
     bind_result (throw_if (\<not> run_exists (rc_runId r) d)
       (ConstraintViolation ''runtime_containers'')) (\<lambda>_.
     bind_result (insert_row (ConstraintViolation ''runtime_containers'')
       (\<lambda>x. rc_runtimeContainerId x = rc_runtimeContainerId r
          \<or> rc_containerName x = rc_containerName r) r (runtime_containers d))
       (\<lambda>t. Inr ((), d\<lparr>runtime_containers := t\<rparr>)))"

definition updateRuntimeContainerState ::
  "string \<Rightarrow> runtime_container_state \<Rightarrow> timestamp \<Rightarrow> unit store_op" where
  "updateRuntimeContainerState i st updatedAt d =
     (let hit = (\<lambda>x. rc_runtimeContainerId x = i) in
      bind_result (throw_if (count_rows hit (runtime_containers d) \<noteq> 1) (ContainerNotRecorded i))
        (\<lambda>_. Inr ((), d\<lparr>runtime_containers := update_rows hit
           (\<lambda>x. x\<lparr>rc_state := st, rc_updatedAt := updatedAt\<rparr>) (runtime_containers d)\<rparr>)))"

definition removeRuntimeContainer :: "string \<Rightarrow> unit store_op" where
  "removeRuntimeContainer i d =
     Inr ((), d\<lparr>runtime_containers :=
       delete_rows (\<lambda>x. rc_runtimeContainerId x = i) (runtime_containers d)\<rparr>)"

definition listRuntimeContainers :: "db \<Rightarrow> runtime_container list" where
  "listRuntimeContainers d =
     sort_key (\<lambda>x. (rc_createdAt x, rc_runtimeContainerId x)) (runtime_containers d)"

section \<open>Approvals: what resolving does\<close>

text \<open>An approval leaves PENDING at most once, and only for the digest, run and time it allows.\<close>

lemma resolve_within_frame:
  "resolve_within now i st digest d = (changed, d') \<Longrightarrow> d' = d\<lparr>approvals := approvals d'\<rparr>"
  by (auto simp: resolve_within_def)

lemma resolve_within_map:
  "resolve_within now i st digest d = (changed, d') \<Longrightarrow>
   approvals d' = map (\<lambda>a. if resolvable now i st digest d a
     then a\<lparr>apr_status := st, apr_resolvedAt := Some now\<rparr> else a) (approvals d)"
  by (auto simp: resolve_within_def update_rows_def)

lemma resolveApprovalAndAppendEvent_cases:
  assumes "resolveApprovalAndAppendEvent now i st digest payload d = Inr (res, d')"
  obtains (quiet) changed where "resolve_within now i st digest d = (changed, d')"
  | (logged) d1 e ev where "resolve_within now i st digest d = (True, d1)"
      "appendEvent now e d1 = Inr (ev, d')"
  using assms
  by (auto simp: resolveApprovalAndAppendEvent_def result_simps split: prod.splits option.splits if_splits)

end
