(* ===== verification/StoreMachine.thy ===== *)
theory StoreMachine
  imports StoreLeases StoreRecords
begin

text \<open>
  The run store as a state machine: one step per operation of \<open>RunStore\<close> that can write, with
  arbitrary arguments and clock, and the invariants of every database reachable from the empty
  one. The steps are the interface through which the Manager changes its durable state, so what
  holds here holds whatever the Manager, the schedulers and the tools do in between.
\<close>

section \<open>Steps\<close>

text \<open>Operations that write neither runs, events, sessions, messages nor leases.\<close>

inductive record_step :: "db \<Rightarrow> db \<Rightarrow> bool" where
  create_approval: "createApproval r d = Inr (res, d') \<Longrightarrow> record_step d d'"
| resolve_approval: "resolveApproval now i st digest d = Inr (res, d') \<Longrightarrow> st \<noteq> PENDING \<Longrightarrow> record_step d d'"
| create_agent: "createAgentProfile n p d = Inr (res, d') \<Longrightarrow> record_step d d'"
| delete_agent: "deleteAgentProfile i ow d = Inr (ok, d') \<Longrightarrow> record_step d d'"
| create_workspace: "createWorkspace n w d = Inr (res, d') \<Longrightarrow> record_step d d'"
| workspace_state: "updateWorkspaceState now i ow expected ws d = Inr (res, d') \<Longrightarrow> record_step d d'"
| create_attempt: "createRunAttempt now i a d = Inr (res, d') \<Longrightarrow> record_step d d'"
| complete_attempt: "completeRunAttempt now a ast d = Inr (res, d') \<Longrightarrow> record_step d d'"
| complete_running: "completeRunningAttempts now i ast d = Inr (n, d') \<Longrightarrow> record_step d d'"
| persist_plan: "persistRunRoutePlan p d = Inr (res, d') \<Longrightarrow> record_step d d'"
| persist_snapshot: "persistRunSnapshot sn d = Inr (res, d') \<Longrightarrow> record_step d d'"
| create_connection: "createProviderConnection n c d = Inr (res, d') \<Longrightarrow> record_step d d'"
| update_connection: "updateProviderConnection now i ow cst err d = Inr (res, d') \<Longrightarrow> record_step d d'"
| delete_connection: "deleteProviderConnection i ow d = Inr (ok, d') \<Longrightarrow> record_step d d'"
| persist_usage: "persistRunModelUsage u d = Inr (res, d') \<Longrightarrow> record_step d d'"
| record_container: "recordRuntimeContainer c d = Inr (x, d') \<Longrightarrow> record_step d d'"
| container_state: "updateRuntimeContainerState i cs t d = Inr (x, d') \<Longrightarrow> record_step d d'"
| remove_container: "removeRuntimeContainer i d = Inr (x, d') \<Longrightarrow> record_step d d'"

text \<open>The fingerprint function is fixed: it is a pure function of the request.\<close>

inductive store_step :: "(start_run_request \<Rightarrow> string) \<Rightarrow> db \<Rightarrow> db \<Rightarrow> bool" for fp where
  create: "createOrGetRun fp now ids i rq d = Inr ((rec, created), d') \<Longrightarrow> store_step fp d d'"
| append: "appendEvent now ae d = Inr (e, d') \<Longrightarrow> store_step fp d d'"
| message: "appendSessionMessage now am d = Inr (m, d') \<Longrightarrow> store_step fp d d'"
| usage: "recordUsage now i u d = Inr (rec, d') \<Longrightarrow> store_step fp d d'"
| acquire: "acquireWorkspaceLease now ws i ttl d = Inr (res, d') \<Longrightarrow> store_step fp d d'"
| renew: "renewWorkspaceLease now lease ttl d = Inr (res, d') \<Longrightarrow> store_step fp d d'"
| release: "releaseWorkspaceLease now lease d = Inr (ok, d') \<Longrightarrow> store_step fp d d'"
| resolve: "resolveApprovalAndAppendEvent now i st digest payload d = Inr (res, d') \<Longrightarrow>
    st \<noteq> PENDING \<Longrightarrow> store_step fp d d'"
| other_record: "record_step d d' \<Longrightarrow> store_step fp d d'"

section \<open>Frames\<close>

lemma record_step_frame:
  "record_step d d' \<Longrightarrow> runs d' = runs d \<and> run_events d' = run_events d \<and> sessions d' = sessions d
     \<and> session_messages d' = session_messages d \<and> workspace_leases d' = workspace_leases d"
  by (cases rule: record_step.cases)
     (auto simp: createApproval_def resolveApproval_def resolve_within_def createAgentProfile_def
        insert_agent_def deleteAgentProfile_def createWorkspace_def insert_workspace_def
        updateWorkspaceState_def createRunAttempt_def completeRunAttempt_def
        completeRunningAttempts_def complete_attempts_def persistRunRoutePlan_def
        persistRunSnapshot_def createProviderConnection_def updateProviderConnection_def
        deleteProviderConnection_def persistRunModelUsage_def recordRuntimeContainer_def
        updateRuntimeContainerState_def removeRuntimeContainer_def result_simps Let_def
        split: option.splits if_splits)

lemma acquire_frame:
  "acquireWorkspaceLease now ws i ttl d = Inr (res, d') \<Longrightarrow>
   d' = d\<lparr>workspace_leases := workspace_leases d'\<rparr>"
  by (erule acquire_cases) (simp_all add: upsert_lease_def)

lemma renew_frame:
  "renewWorkspaceLease now lease ttl d = Inr (res, d') \<Longrightarrow>
   d' = d\<lparr>workspace_leases := workspace_leases d'\<rparr>"
  by (auto simp: renewWorkspaceLease_def Let_def)

lemma release_frame:
  "releaseWorkspaceLease now lease d = Inr (ok, d') \<Longrightarrow>
   d' = d\<lparr>workspace_leases := workspace_leases d'\<rparr>"
  by (auto simp: releaseWorkspaceLease_def Let_def)

lemmas lease_frames = acquire_frame renew_frame release_frame

text \<open>A predicate of runs and events that the four writing operations keep is kept by all.\<close>

lemma frame_runs:
  "d' = d\<lparr>workspace_leases := t\<rparr> \<Longrightarrow> runs d' = runs d \<and> run_events d' = run_events d"
  "d' = d\<lparr>session_messages := m\<rparr> \<Longrightarrow> runs d' = runs d \<and> run_events d' = run_events d"
  "d' = d\<lparr>approvals := a\<rparr> \<Longrightarrow> runs d' = runs d \<and> run_events d' = run_events d"
  by simp_all

text \<open>
  Every step is a composition of: creating a run, appending an event, recording usage, and
  steps that leave runs and events alone. Relations that are reflexive on the last kind and
  transitive hold for every step once they hold for the first three.
\<close>

lemma store_step_cases:
  assumes "store_step fp d d'"
  obtains (create) now ids i rq rec created where
      "createOrGetRun fp now ids i rq d = Inr ((rec, created), d')"
  | (append) now ae e where "appendEvent now ae d = Inr (e, d')"
  | (usage) now i u rec where "recordUsage now i u d = Inr (rec, d')"
  | (resolved) now ae e d1 where "runs d1 = runs d" "run_events d1 = run_events d"
      "appendEvent now ae d1 = Inr (e, d')"
  | (quiet) "runs d' = runs d" "run_events d' = run_events d"
  using assms
proof cases
  case (message now am m)
  from appendSessionMessage_frame [OF this] show thesis by (intro quiet) (metis frame_runs(2))+
next
  case (acquire now ws i ttl res)
  from acquire_frame [OF this] show thesis by (intro quiet) (metis frame_runs(1))+
next
  case (renew now lease ttl res)
  from renew_frame [OF this] show thesis by (intro quiet) (metis frame_runs(1))+
next
  case (release now lease ok)
  from release_frame [OF this] show thesis by (intro quiet) (metis frame_runs(1))+
next
  case (resolve now i st digest payload res)
  from resolve(1) show thesis
  proof (cases rule: resolveApprovalAndAppendEvent_cases)
    case (quiet changed)
    from resolve_within_frame [OF this] show thesis
      by (intro \<open>runs d' = runs d \<Longrightarrow> run_events d' = run_events d \<Longrightarrow> thesis\<close>) (metis frame_runs(3))+
  next
    case (logged d1 e ev)
    from resolve_within_frame [OF this(1)] have "runs d1 = runs d" "run_events d1 = run_events d"
      by (metis frame_runs(3))+
    with logged(2) show thesis by (intro resolved)
  qed
next
  case other_record
  from record_step_frame [OF this] show thesis by (intro quiet) simp_all
qed (blast intro: create append usage)+

section \<open>Reachable databases\<close>

inductive reachable :: "(start_run_request \<Rightarrow> string) \<Rightarrow> db \<Rightarrow> bool" for fp where
  start: "reachable fp empty_db"
| step: "reachable fp d \<Longrightarrow> store_step fp d d' \<Longrightarrow> reachable fp d'"

lemma store_step_runs_inv: "store_step fp d d' \<Longrightarrow> runs_inv d \<Longrightarrow> runs_inv d'"
  by (erule store_step_cases)
     (blast intro: createOrGetRun_runs_inv appendEvent_runs_inv recordUsage_runs_inv runs_inv_cong)+

lemma reachable_runs_inv: "reachable fp d \<Longrightarrow> runs_inv d"
  by (induction rule: reachable.induct) (auto simp: runs_inv_empty intro: store_step_runs_inv)

lemma reachable_steps: "(store_step fp)\<^sup>*\<^sup>* d d' \<Longrightarrow> reachable fp d \<Longrightarrow> reachable fp d'"
  by (induction rule: rtranclp_induct) (auto intro: reachable.step)

lemma keeps_terminal_cong: "runs d1 = runs d \<Longrightarrow> keeps_terminal d1 d' \<Longrightarrow> keeps_terminal d d'"
  by (simp add: keeps_terminal_def)

lemma store_step_keeps_terminal:
  assumes step: "store_step fp d d'" and inv: "runs_inv d"
  shows "keeps_terminal d d'"
  using step
proof (cases rule: store_step_cases)
  case (resolved now ae e d1)
  with inv have "runs_inv d1" by (blast intro: runs_inv_cong)
  with resolved show ?thesis by (blast intro: keeps_terminal_cong appendEvent_keeps_terminal)
qed (use inv in \<open>blast intro: createOrGetRun_keeps_terminal appendEvent_keeps_terminal
      recordUsage_keeps_terminal keeps_terminal_refl\<close>)+

lemma keeps_terminal_steps:
  "(store_step fp)\<^sup>*\<^sup>* d d' \<Longrightarrow> reachable fp d \<Longrightarrow> keeps_terminal d d'"
proof (induction rule: rtranclp_induct)
  case base
  show ?case by (simp add: keeps_terminal_refl)
next
  case (step y z)
  then have "runs_inv y" by (blast intro: reachable_runs_inv reachable_steps)
  with step show ?case by (blast intro: keeps_terminal_trans store_step_keeps_terminal)
qed

section \<open>Runs keep their identity\<close>

text \<open>The columns of a run that are written once, when it is created.\<close>

definition identity :: "run_row \<Rightarrow> run_row" where
  "identity r = r\<lparr>rr_status := ACCEPTED, rr_last_sequence := 0, rr_error_code := None,
     rr_error_message := None, rr_updated_at := 0, rr_usage_input_tokens := 0,
     rr_usage_output_tokens := 0, rr_usage_cost_usd := 0, rr_usage_tool_calls := 0,
     rr_usage_input_tokens_reported := 0, rr_usage_output_tokens_reported := 0,
     rr_usage_cost_reported := 0\<rparr>"

lemma identity_columns:
  assumes "identity r' = identity r"
  shows "rr_id r' = rr_id r" "run_key r' = run_key r"
    "rr_request_fingerprint r' = rr_request_fingerprint r" "rr_owner r' = rr_owner r"
    "rr_workspace_id r' = rr_workspace_id r"
    "rr_workspace_internal_id r' = rr_workspace_internal_id r"
    "session_binding r' = session_binding r" "rr_parent_run_id r' = rr_parent_run_id r"
    "rr_budget r' = rr_budget r" "rr_input r' = rr_input r"
  using assms by (cases r; cases r'; simp add: identity_def run_key_def session_binding_def)+

lemma identity_updates [simp]:
  "identity (update_run_for_event now ae n r) = identity r"
  "identity (apply_usage u r) = identity r"
  "identity (r\<lparr>rr_updated_at := now\<rparr>) = identity r"
  by (simp_all add: identity_def update_run_for_event_def apply_usage_def)

definition extends_runs :: "db \<Rightarrow> db \<Rightarrow> bool" where
  "extends_runs d d' \<longleftrightarrow> (\<exists>new. map identity (runs d') = map identity (runs d) @ new)"

lemma extends_runs_refl: "runs d' = runs d \<Longrightarrow> extends_runs d d'"
  by (simp add: extends_runs_def)

lemma extends_runs_trans: "extends_runs d d' \<Longrightarrow> extends_runs d' d'' \<Longrightarrow> extends_runs d d''"
  by (auto simp: extends_runs_def)

lemma extends_runs_cong: "runs d1 = runs d \<Longrightarrow> extends_runs d1 d' \<Longrightarrow> extends_runs d d'"
  by (simp add: extends_runs_def)

lemma appendEvent_extends: "appendEvent now ae d = Inr (e, d') \<Longrightarrow> extends_runs d d'"
  by (erule appendEvent_cases)
     (simp add: extends_runs_def map_update_rows_frame)

lemma store_step_extends: "store_step fp d d' \<Longrightarrow> extends_runs d d'"
proof (erule store_step_cases)
  fix now ids i rq rec created
  assume "createOrGetRun fp now ids i rq d = Inr ((rec, created), d')"
  then show "extends_runs d d'"
    by (rule createOrGetRun_cases) (auto simp: extends_runs_def elim: create_run_cases)
next
  fix now i u rec assume "recordUsage now i u d = Inr (rec, d')"
  then show "extends_runs d d'"
    by (rule recordUsage_cases) (simp add: extends_runs_def map_update_rows_frame)
qed (blast intro: appendEvent_extends extends_runs_refl extends_runs_cong)+

lemma extends_runs_steps: "(store_step fp)\<^sup>*\<^sup>* d d' \<Longrightarrow> extends_runs d d'"
proof (induction rule: rtranclp_induct)
  case base
  show ?case by (simp add: extends_runs_refl)
next
  case (step y z)
  then show ?case by (blast intro: extends_runs_trans store_step_extends)
qed

lemma extends_runs_member:
  assumes "extends_runs d d'" and "r \<in> set (runs d)"
  obtains r' where "r' \<in> set (runs d')" "identity r' = identity r"
proof -
  from assms(1) obtain new where eq: "map identity (runs d') = map identity (runs d) @ new"
    by (auto simp: extends_runs_def)
  have "identity r \<in> set (map identity (runs d'))" unfolding eq using assms(2) by simp
  then show thesis using that by auto
qed

end
