(* ===== verification/StoreTheorems.thy ===== *)
theory StoreTheorems
  imports StoreMachine
begin

text \<open>
  The properties of the run store: what holds of every database the store can reach and of
  every future of it. Each rests on the invariants and frames of \<open>StoreMachine\<close> and, for the
  leases, on the facts of the interpreted interface \<open>fenced_lease\<close>.
\<close>

section \<open>Tables that only grow\<close>

definition grows :: "('r \<Rightarrow> 'r \<Rightarrow> bool) \<Rightarrow> 'r list \<Rightarrow> 'r list \<Rightarrow> bool" where
  "grows R t t' \<longleftrightarrow> (\<exists>kept new. t' = kept @ new \<and> list_all2 R t kept)"

lemma grows_refl: "(\<And>r. R r r) \<Longrightarrow> grows R t t"
  unfolding grows_def by (intro exI [of _ t] exI [of _ "[]"]) (simp add: list_all2_refl)

lemma grows_append: "(\<And>r. R r r) \<Longrightarrow> grows R t (t @ new)"
  unfolding grows_def by (intro exI [of _ t] exI [of _ new]) (simp add: list_all2_refl)

lemma grows_update: "(\<And>r. R r r) \<Longrightarrow> (\<And>r. p r \<Longrightarrow> R r (f r)) \<Longrightarrow> grows R t (update_rows p f t)"
  unfolding grows_def
  by (intro exI [of _ "update_rows p f t"] exI [of _ "[]"])
     (simp add: update_rows_def list_all2_map2 list_all2_refl)

lemma grows_trans:
  assumes "\<And>a b c. R a b \<Longrightarrow> R b c \<Longrightarrow> R a c" and "grows R t u" and "grows R u v"
  shows "grows R t v"
proof -
  from assms(2) obtain k n where u: "u = k @ n" and k: "list_all2 R t k" by (auto simp: grows_def)
  from assms(3) obtain k' n' where v: "v = k' @ n'" and k': "list_all2 R u k'"
    by (auto simp: grows_def)
  from k' u obtain k1 k2 where k12: "k' = k1 @ k2" and k1: "list_all2 R k k1"
    by (auto simp: list_all2_append1)
  have "list_all2 R t k1" using assms(1) k k1 by (rule list_all2_trans)
  then show ?thesis unfolding grows_def by (intro exI [of _ k1] exI [of _ "k2 @ n'"]) (simp add: v k12)
qed

text \<open>A lookup by a key that the rows keep finds the successor of the row it found before.\<close>

lemma find_list_all2:
  assumes "list_all2 R t k" and "\<And>a b. R a b \<Longrightarrow> p b = p a" and "List.find p t = Some r"
  shows "\<exists>r'. List.find p k = Some r' \<and> R r r'"
  using assms(1,3) by (induction rule: list_all2_induct) (auto simp: assms(2) split: if_splits)

lemma grows_find:
  assumes "grows R t t'" and "\<And>a b. R a b \<Longrightarrow> p b = p a" and "List.find p t = Some r"
  obtains r' where "List.find p t' = Some r'" "R r r'"
proof -
  from assms(1) obtain kept new where t': "t' = kept @ new" and k: "list_all2 R t kept"
    by (auto simp: grows_def)
  from find_list_all2 [OF k assms(2,3)] show thesis using that by (auto simp: t' find_append)
qed

definition keeps_approval :: "approval_record \<Rightarrow> approval_record \<Rightarrow> bool" where
  "keeps_approval a b \<longleftrightarrow> apr_id b = apr_id a \<and> apr_runId b = apr_runId a \<and> (apr_status a \<noteq> PENDING \<longrightarrow> b = a)"

definition keeps_attempt :: "run_attempt \<Rightarrow> run_attempt \<Rightarrow> bool" where
  "keeps_attempt a b \<longleftrightarrow> att_id b = att_id a \<and> att_runId b = att_runId a \<and> att_attempt b = att_attempt a"

definition tables_grow :: "db \<Rightarrow> db \<Rightarrow> bool" where
  "tables_grow d d' \<longleftrightarrow> grows keeps_approval (approvals d) (approvals d')
     \<and> grows (=) (run_route_plans d) (run_route_plans d')
     \<and> grows (=) (run_snapshots d) (run_snapshots d')
     \<and> grows keeps_attempt (run_attempts d) (run_attempts d')"

lemma keeps_refl [simp, intro]: "keeps_approval a a" "keeps_attempt b b"
  by (simp_all add: keeps_approval_def keeps_attempt_def)

lemma keeps_trans:
  "keeps_approval a b \<Longrightarrow> keeps_approval b c \<Longrightarrow> keeps_approval a c"
  "keeps_attempt x y \<Longrightarrow> keeps_attempt y z \<Longrightarrow> keeps_attempt x z"
  by (auto simp: keeps_approval_def keeps_attempt_def)

lemmas grows_intros = grows_refl grows_append grows_update

lemma tables_grow_refl:
  "approvals d' = approvals d \<Longrightarrow> run_route_plans d' = run_route_plans d \<Longrightarrow>
   run_snapshots d' = run_snapshots d \<Longrightarrow> run_attempts d' = run_attempts d \<Longrightarrow> tables_grow d d'"
  by (simp add: tables_grow_def grows_refl)

lemma tables_grow_trans:
  assumes "tables_grow d d'" and "tables_grow d' d''"
  shows "tables_grow d d''"
proof -
  have eq: "(a = b \<Longrightarrow> b = c \<Longrightarrow> a = c)" for a b c :: 'x by simp
  show ?thesis
    using assms unfolding tables_grow_def
    by (intro conjI; elim conjE)
       (rule grows_trans, erule (1) keeps_trans, assumption+
       | rule grows_trans, erule (1) trans, assumption+)+
qed

text \<open>Every step lets them grow.\<close>

lemma appendEvent_tables_grow: "appendEvent now ae d = Inr (e, d') \<Longrightarrow> tables_grow d d'"
proof (erule appendEvent_cases)
  assume d': "d' = d\<lparr>runs := runs d', run_events := run_events d', run_attempts := run_attempts d'\<rparr>"
    and attempts: "run_attempts d' = (case ae_status ae of
           Some st \<Rightarrow> if isTerminalRunStatus st
             then run_attempts (complete_attempts now (ae_runId ae) st d) else run_attempts d
         | None \<Rightarrow> run_attempts d)"
  have "grows keeps_attempt (run_attempts d) (run_attempts d')"
    unfolding attempts
    by (auto split: option.split simp: complete_attempts_def keeps_attempt_def intro!: grows_intros)
  moreover have "approvals d' = approvals d" "run_route_plans d' = run_route_plans d"
    "run_snapshots d' = run_snapshots d"
    by (subst d', simp)+
  ultimately show "tables_grow d d'" by (simp add: tables_grow_def grows_refl)
qed

lemma resolve_within_tables_grow:
  "resolve_within now i st digest d = (changed, d') \<Longrightarrow> tables_grow d d'"
  by (auto simp: resolve_within_def tables_grow_def keeps_approval_def resolvable_def
      intro!: grows_intros)

lemma record_step_tables_grow:
  assumes "record_step d d'"
  shows "tables_grow d d'"
  using assms
proof cases
  case (resolve_approval now i st digest res)
  then show ?thesis
    by (auto simp: resolveApproval_def split: prod.splits intro: resolve_within_tables_grow)
qed (auto simp: createApproval_def createAgentProfile_def
        insert_agent_def deleteAgentProfile_def createWorkspace_def insert_workspace_def
        updateWorkspaceState_def createRunAttempt_def completeRunAttempt_def
        completeRunningAttempts_def complete_attempts_def persistRunRoutePlan_def
        persistRunSnapshot_def createProviderConnection_def updateProviderConnection_def
        deleteProviderConnection_def persistRunModelUsage_def recordRuntimeContainer_def
        updateRuntimeContainerState_def removeRuntimeContainer_def result_simps Let_def
        tables_grow_def keeps_attempt_def
        split: option.splits if_splits intro!: grows_intros)

lemma store_step_tables_grow:
  assumes "store_step fp d d'"
  shows "tables_grow d d'"
  using assms
proof cases
  case (create now ids i rq rec created)
  from this(1) show ?thesis
  proof (cases rule: createOrGetRun_cases)
    case (create row)
    from create(2) show ?thesis by (rule create_run_cases) (simp add: tables_grow_refl)
  qed (simp add: tables_grow_refl)
next
  case (append now ae e)
  then show ?thesis by (intro appendEvent_tables_grow)
next
  case (message now am m)
  from appendSessionMessage_frame [OF this(1)]
  show ?thesis by (intro tables_grow_refl) (metis db.select_convs db.update_convs db.surjective)+
next
  case (usage now i u rec)
  from this(1) show ?thesis by (rule recordUsage_cases) (simp add: tables_grow_refl)
next
  case (acquire now ws i ttl res)
  from this(1) show ?thesis by (cases rule: acquire_cases) (simp_all add: tables_grow_refl upsert_lease_def)
next
  case (renew now lease ttl res)
  then show ?thesis by (auto simp: renewWorkspaceLease_def Let_def intro: tables_grow_refl)
next
  case (release now lease ok)
  then show ?thesis by (auto simp: releaseWorkspaceLease_def Let_def intro: tables_grow_refl)
next
  case (resolve now i st digest payload res)
  from resolve(1) show ?thesis
  proof (cases rule: resolveApprovalAndAppendEvent_cases)
    case (quiet changed)
    then show ?thesis by (rule resolve_within_tables_grow)
  next
    case (logged d1 e ev)
    then show ?thesis
      by (blast intro: tables_grow_trans resolve_within_tables_grow appendEvent_tables_grow)
  qed
next
  case other_record
  then show ?thesis by (intro record_step_tables_grow)
qed

lemma tables_grow_steps: "(store_step fp)\<^sup>*\<^sup>* d d' \<Longrightarrow> tables_grow d d'"
  by (induction rule: rtranclp_induct)
     (blast intro: tables_grow_refl tables_grow_trans store_step_tables_grow)+

section \<open>A small database\<close>

text \<open>Inputs on which the witnesses evaluate the operations.\<close>

definition example_fp :: "start_run_request \<Rightarrow> string" where
  "example_fp rq = ''f'' @ rq_input rq"

definition example_owner :: resource_owner where
  "example_owner = \<lparr>appId = ''a'', tenantId = ''t'', userId = ''u''\<rparr>"

definition example_principal :: internal_principal where
  "example_principal = \<lparr>p_owner = example_owner, p_scopes = [], p_tokenId = None, p_tokenType = None,
     p_replayPolicy = None, p_agentId = None, p_workspaceId = None, p_budgetCeiling = None\<rparr>"

definition example_request :: start_run_request where
  "example_request = \<lparr>rq_agent = ''ag'', rq_workspace = ''w'', rq_session = None,
     rq_providerConnectionId = None, rq_input = ''hi'', rq_budget = None,
     rq_idempotencyKey = ''k'', rq_principal = example_principal, rq_parentRunId = None,
     rq_depth = None, rq_deliveryAllowed = None, rq_createIfMissing = None\<rparr>"

definition example_ids :: "string \<Rightarrow> fresh_ids" where
  "example_ids i = \<lparr>fresh_agent = i @ ''a'', fresh_workspace = i @ ''w'', fresh_session = i @ ''s''\<rparr>"

definition ok_state :: "'e + ('a \<times> db) \<Rightarrow> db" where
  "ok_state r = (case r of Inl e \<Rightarrow> empty_db | Inr (a, d) \<Rightarrow> d)"

definition db1 :: db where
  "db1 = ok_state (createOrGetRun example_fp 10 (example_ids ''1'') ''run_1'' example_request empty_db)"

definition started :: append_event where
  "started = (plain_event ''run_1'' RunStarted [])\<lparr>ae_status := Some RUNNING\<rparr>"

definition failed :: append_event where
  "failed = (plain_event ''run_1'' RunFailed [])\<lparr>ae_status := Some FAILED\<rparr>"

definition db2 :: db where "db2 = ok_state (appendEvent 20 started db1)"

definition db3 :: db where "db3 = ok_state (appendEvent 30 failed db2)"

lemma ok_state: "is_ok r \<Longrightarrow> \<exists>a. r = Inr (a, ok_state r)"
  by (cases r) (auto simp: ok_state_def)

lemma db1_ok: "is_ok (createOrGetRun example_fp 10 (example_ids ''1'') ''run_1'' example_request empty_db)"
  by code_simp

lemma db2_ok: "is_ok (appendEvent 20 started db1)" by code_simp

lemma db3_ok: "is_ok (appendEvent 30 failed db2)" by code_simp

lemma db1_step: "store_step example_fp empty_db db1"
  using ok_state [OF db1_ok] by (auto simp: db1_def [symmetric] intro: store_step.create)

lemma db2_step: "store_step example_fp db1 db2"
  using ok_state [OF db2_ok] by (auto simp: db2_def [symmetric] intro: store_step.append)

lemma db3_step: "store_step example_fp db2 db3"
  using ok_state [OF db3_ok] by (auto simp: db3_def [symmetric] intro: store_step.append)

lemma db_reachable: "reachable example_fp db1" "reachable example_fp db2" "reachable example_fp db3"
  by (blast intro: reachable.intros db1_step db2_step db3_step)+

end
