(* ===== verification/StoreFingerprints.thy ===== *)
theory StoreFingerprints
  imports StoreTheorems
begin

text \<open>
  What the idempotency keys and request fingerprints of the store distinguish: the canonical
  content of a request determines it, and scoped keys are readable and injective.
\<close>

section \<open>Fingerprints and keys\<close>

text \<open>An object with distinct keys is determined by any ordering of its canonical properties.\<close>

lemma map_of_sort_key:
  assumes "distinct (map fst ob)"
  shows "map_of (sort_key f ob) = map_of ob"
proof -
  have "distinct (map fst (sort_key f ob))" using assms by (simp add: distinct_map)
  with assms show ?thesis by (simp add: map_of_inject_set)
qed

lemma canonicalize_object:
  assumes "canonicalize collate (JObj ob) = canonicalize collate (JObj ob')"
    and "distinct (map fst ob)" and "distinct (map fst ob')"
  shows "map_option (canonicalize collate) (map_of ob k) = map_option (canonicalize collate) (map_of ob' k)"
proof -
  have *: "map_of (map (\<lambda>(k, v). (k, canonicalize collate v)) (sort_key g ob)) k
      = map_option (canonicalize collate) (map_of ob k)" if "distinct (map fst ob)" for ob and g :: "_ \<Rightarrow> 'a"
    using map_of_sort_key [OF that, of g] by (simp add: map_of_map)
  from assms(1) have "map (\<lambda>(k, v). (k, canonicalize collate v)) (sort_key (\<lambda>(k, v). collate k) ob)
    = map (\<lambda>(k, v). (k, canonicalize collate v)) (sort_key (\<lambda>(k, v). collate k) ob')" by simp
  then show ?thesis using *[OF assms(2)] *[OF assms(3)] by metis
qed

lemma keys_of_mapped: "map fst (map (\<lambda>(k, v). (k, f v)) xs) = map fst xs"
  by (induction xs) auto

lemma budget_object_inj:
  assumes "canonicalize collate (budget_object b) = canonicalize collate (budget_object b')"
  shows "b = b'"
proof -
  have d: "distinct (map fst (map (\<lambda>(k, n). (k, JNum n)) (budget_entries b)))" for b
    unfolding keys_of_mapped by (rule budget_entries_distinct)
  have get: "map_of (map (\<lambda>(k, n). (k, JNum n)) (budget_entries b)) k = map_option JNum (map_of (budget_entries b) k)" for b k
    by (simp add: map_of_map)
  have num: "map_option (canonicalize collate) (map_option JNum x) = map_option JNum x" for x
    by (cases x) simp_all
  have "map_of (budget_entries b) k = map_of (budget_entries b') k" for k
    using canonicalize_object [OF assms [unfolded budget_object_def] d d, of k]
    unfolding get num by (metis jsval.inject(2) option.inj_map_strong)
  note this [of "''maxTurns''"] this [of "''maxToolCalls''"] this [of "''maxInputTokens''"]
    this [of "''maxOutputTokens''"] this [of "''maxCostUsd''"] this [of "''totalTimeoutMs''"]
    this [of "''modelIdleTimeoutMs''"] this [of "''commandTimeoutMs''"]
  then show ?thesis by (simp add: budget_entry)
qed

text \<open>The content of a fingerprint as one property list with optional entries.\<close>

lemma fingerprint_content_get:
  obtains ob where "fingerprint_content rq = JObj ob" "distinct (map fst ob)"
    "map_of ob ''appId'' = Some (JStr (appId (rq_owner rq)))"
    "map_of ob ''tenantId'' = Some (JStr (tenantId (rq_owner rq)))"
    "map_of ob ''userId'' = Some (JStr (userId (rq_owner rq)))"
    "map_of ob ''agent'' = Some (JStr (rq_agent rq))"
    "map_of ob ''workspace'' = Some (JStr (rq_workspace rq))"
    "map_of ob ''session'' = Some (opt_str (rq_session rq))"
    "map_of ob ''providerConnectionId'' = map_option JStr (truthy (rq_providerConnectionId rq))"
    "map_of ob ''input'' = Some (JStr (rq_input rq))"
    "map_of ob ''budget'' = Some (case rq_budget rq of None \<Rightarrow> JNull | Some b \<Rightarrow> budget_object b)"
    "map_of ob ''parentRunId'' = Some (opt_str (rq_parentRunId rq))"
    "map_of ob ''depth'' = Some (JNum (of_int (nullish (rq_depth rq) 0)))"
    "map_of ob ''deliveryAllowed'' = Some (JBool (nullish (rq_deliveryAllowed rq) True))"
  by (rule that [of "case fingerprint_content rq of JObj ob \<Rightarrow> ob | _ \<Rightarrow> []"])
     (simp_all add: fingerprint_content_def Let_def rq_owner_def split: option.splits)

lemma canonicalize_leaf_inj:
  "canonicalize collate (opt_str x) = canonicalize collate (opt_str y) \<longleftrightarrow> x = y"
  "canonicalize collate (case v of None \<Rightarrow> JNull | Some b \<Rightarrow> budget_object b)
     = canonicalize collate (case w of None \<Rightarrow> JNull | Some b \<Rightarrow> budget_object b) \<longleftrightarrow> v = w"
proof -
  show "canonicalize collate (opt_str x) = canonicalize collate (opt_str y) \<longleftrightarrow> x = y"
    by (auto simp: opt_str_def split: option.splits)
  have "canonicalize collate (budget_object b) \<noteq> JNull" for b by (simp add: budget_object_def)
  then show "canonicalize collate (case v of None \<Rightarrow> JNull | Some b \<Rightarrow> budget_object b)
     = canonicalize collate (case w of None \<Rightarrow> JNull | Some b \<Rightarrow> budget_object b) \<longleftrightarrow> v = w"
    by (auto split: option.splits dest: budget_object_inj) metis+
qed

definition same_request :: "start_run_request \<Rightarrow> start_run_request \<Rightarrow> bool" where
  "same_request a b \<longleftrightarrow> rq_owner a = rq_owner b \<and> rq_agent a = rq_agent b
     \<and> rq_workspace a = rq_workspace b \<and> rq_session a = rq_session b
     \<and> truthy (rq_providerConnectionId a) = truthy (rq_providerConnectionId b)
     \<and> rq_input a = rq_input b \<and> rq_budget a = rq_budget b
     \<and> rq_parentRunId a = rq_parentRunId b \<and> nullish (rq_depth a) 0 = nullish (rq_depth b) 0
     \<and> nullish (rq_deliveryAllowed a) True = nullish (rq_deliveryAllowed b) True"

lemma fingerprint_content_inj:
  assumes "canonicalize collate (fingerprint_content a) = canonicalize collate (fingerprint_content b)"
  shows "same_request a b"
proof -
  obtain oa where a: "fingerprint_content a = JObj oa" "distinct (map fst oa)"
    "map_of oa ''appId'' = Some (JStr (appId (rq_owner a)))"
    "map_of oa ''tenantId'' = Some (JStr (tenantId (rq_owner a)))"
    "map_of oa ''userId'' = Some (JStr (userId (rq_owner a)))"
    "map_of oa ''agent'' = Some (JStr (rq_agent a))"
    "map_of oa ''workspace'' = Some (JStr (rq_workspace a))"
    "map_of oa ''session'' = Some (opt_str (rq_session a))"
    "map_of oa ''providerConnectionId'' = map_option JStr (truthy (rq_providerConnectionId a))"
    "map_of oa ''input'' = Some (JStr (rq_input a))"
    "map_of oa ''budget'' = Some (case rq_budget a of None \<Rightarrow> JNull | Some b \<Rightarrow> budget_object b)"
    "map_of oa ''parentRunId'' = Some (opt_str (rq_parentRunId a))"
    "map_of oa ''depth'' = Some (JNum (of_int (nullish (rq_depth a) 0)))"
    "map_of oa ''deliveryAllowed'' = Some (JBool (nullish (rq_deliveryAllowed a) True))"
    by (rule fingerprint_content_get)
  obtain ob where b: "fingerprint_content b = JObj ob" "distinct (map fst ob)"
    "map_of ob ''appId'' = Some (JStr (appId (rq_owner b)))"
    "map_of ob ''tenantId'' = Some (JStr (tenantId (rq_owner b)))"
    "map_of ob ''userId'' = Some (JStr (userId (rq_owner b)))"
    "map_of ob ''agent'' = Some (JStr (rq_agent b))"
    "map_of ob ''workspace'' = Some (JStr (rq_workspace b))"
    "map_of ob ''session'' = Some (opt_str (rq_session b))"
    "map_of ob ''providerConnectionId'' = map_option JStr (truthy (rq_providerConnectionId b))"
    "map_of ob ''input'' = Some (JStr (rq_input b))"
    "map_of ob ''budget'' = Some (case rq_budget b of None \<Rightarrow> JNull | Some b \<Rightarrow> budget_object b)"
    "map_of ob ''parentRunId'' = Some (opt_str (rq_parentRunId b))"
    "map_of ob ''depth'' = Some (JNum (of_int (nullish (rq_depth b) 0)))"
    "map_of ob ''deliveryAllowed'' = Some (JBool (nullish (rq_deliveryAllowed b) True))"
    by (rule fingerprint_content_get)
  note get = canonicalize_object [OF assms [unfolded a(1) b(1)] a(2) b(2)]
  have leaf: "map_option (canonicalize collate) (map_option JStr x) = map_option JStr x" for x
    by (cases x) simp_all
  have owner: "rq_owner a = rq_owner b"
    using get [of "''appId''"] get [of "''tenantId''"] get [of "''userId''"] a(3-5) b(3-5)
    by (simp add: resource_owner.equality)
  have conn: "truthy (rq_providerConnectionId a) = truthy (rq_providerConnectionId b)"
    using get [of "''providerConnectionId''"] unfolding a(9) b(9) leaf
    by (metis jsval.inject(3) option.inj_map_strong)
  show ?thesis
    unfolding same_request_def
    using owner conn get [of "''agent''"] get [of "''workspace''"] get [of "''session''"]
      get [of "''input''"] get [of "''budget''"] get [of "''parentRunId''"] get [of "''depth''"]
      get [of "''deliveryAllowed''"] a b
    by (simp add: canonicalize_leaf_inj)
qed

lemma same_request_content: "same_request a b \<Longrightarrow> fingerprint_content a = fingerprint_content b"
  by (simp add: same_request_def fingerprint_content_def rq_owner_def)

text \<open>C22: The request fingerprint identifies the request: when the digest does not collide on the
  two canonical contents, equal fingerprints mean that owner, agent, workspace, session,
  provider connection, input, every budget limit, parent, depth and delivery permission agree,
  and conversely, whatever collation orders the properties. So a replayed key can only ever
  return the run of the same request, and the same request is never refused as a reuse.\<close>

theorem fingerprint_identifies_request:
  assumes "sha256Json (canonicalize collate (fingerprint_content a))
      = sha256Json (canonicalize collate (fingerprint_content b))
    \<Longrightarrow> canonicalize collate (fingerprint_content a) = canonicalize collate (fingerprint_content b)"
  shows "requestFingerprint sha256Json collate a = requestFingerprint sha256Json collate b
    \<longleftrightarrow> same_request a b"
  using assms fingerprint_content_inj same_request_content
  by (metis requestFingerprint_def)

definition input_digest :: "jsval \<Rightarrow> string" where
  "input_digest v = (case v of JObj ob \<Rightarrow> nullish (as_string (obj_get ob ''input'')) [] | _ \<Rightarrow> [])"

theorem fingerprint_identifies_request_witness:
  "requestFingerprint input_digest (id :: string \<Rightarrow> string) example_request
     = requestFingerprint input_digest id (example_request\<lparr>rq_input := ''ho''\<rparr>)
   \<longleftrightarrow> same_request example_request (example_request\<lparr>rq_input := ''ho''\<rparr>)"
proof (rule fingerprint_identifies_request)
  have "input_digest (canonicalize (id :: string \<Rightarrow> string) (fingerprint_content example_request)) = ''hi''"
    "input_digest (canonicalize (id :: string \<Rightarrow> string)
       (fingerprint_content (example_request\<lparr>rq_input := ''ho''\<rparr>))) = ''ho''"
    by code_simp+
  then show "canonicalize (id :: string \<Rightarrow> string) (fingerprint_content example_request)
      = canonicalize id (fingerprint_content (example_request\<lparr>rq_input := ''ho''\<rparr>))"
    if "input_digest (canonicalize (id :: string \<Rightarrow> string) (fingerprint_content example_request))
      = input_digest (canonicalize id (fingerprint_content (example_request\<lparr>rq_input := ''ho''\<rparr>)))"
    using that by simp
qed

text \<open>Stored idempotency keys keep users apart and are readable: the public key is recovered
  from the scoped key, and two scoped keys are equal only when user and key are equal, even if
  user or key contain the separator.\<close>

theorem scoped_key_roundtrip:
  assumes "int (length user) \<le> MAX_SAFE_INTEGER"
  shows "publicIdempotencyKey (scopedIdempotencyKey user key) = key
    \<and> (scopedIdempotencyKey user key = scopedIdempotencyKey user' key' \<longleftrightarrow> user = user' \<and> key = key')"
  using assms by (simp only: publicIdempotencyKey_scoped scopedIdempotencyKey_inj simp_thms)

theorem scoped_key_roundtrip_witness:
  "publicIdempotencyKey (scopedIdempotencyKey ''a:1'' ''k:2'') = ''k:2''"
  using scoped_key_roundtrip [of "''a:1''" "''k:2''"] by (simp add: MAX_SAFE_INTEGER_def)

end
