(* ===== verification/ControlValues.thy ===== *)
theory ControlValues
  imports StoreRecords
begin

text \<open>
  The pure functions of the coordinator (\<open>packages/control-plane/src/index.ts\<close>): what remains
  of a parent's budget for its children, the bounds of a child's budget, the deadline and the
  queue keys of a run, the canonical JSON of approvals and their digests, the conversion of
  stored messages to model messages, and the byte-bounded event page.
\<close>

section \<open>Budgets of child runs\<close>

definition js_max :: "num \<Rightarrow> num \<Rightarrow> num" where "js_max a b = (if a < b then b else a)"

definition zero_budget :: run_budget where
  "zero_budget = \<lparr>maxTurns = 0, maxToolCalls = 0, maxInputTokens = 0, maxOutputTokens = 0,
     maxCostUsd = 0, totalTimeoutMs = 0, modelIdleTimeoutMs = 0, commandTimeoutMs = 0\<rparr>"

definition allocate :: "run_budget \<Rightarrow> run_record \<Rightarrow> run_budget" where
  "allocate s child = (let b = run_budget child in \<lparr>
     maxTurns = maxTurns s + maxTurns b,
     maxToolCalls = maxToolCalls s + maxToolCalls b,
     maxInputTokens = maxInputTokens s + maxInputTokens b,
     maxOutputTokens = maxOutputTokens s + maxOutputTokens b,
     maxCostUsd = maxCostUsd s + maxCostUsd b,
     totalTimeoutMs = js_max (totalTimeoutMs s) (totalTimeoutMs b),
     modelIdleTimeoutMs = js_max (modelIdleTimeoutMs s) (modelIdleTimeoutMs b),
     commandTimeoutMs = js_max (commandTimeoutMs s) (commandTimeoutMs b)\<rparr>)"

text \<open>Usage that was never reported leaves nothing for the children.\<close>

definition remaining_of :: "num \<Rightarrow> num option \<Rightarrow> num \<Rightarrow> num" where
  "remaining_of limit used allocated =
     (case used of None \<Rightarrow> 0 | Some u \<Rightarrow> js_max 0 (limit - u - allocated))"

definition remainingChildBudget :: "run_record \<Rightarrow> run_record list \<Rightarrow> run_budget" where
  "remainingChildBudget parent children =
     (let allocated = foldl allocate zero_budget children; b = run_budget parent;
          u = run_usage parent in
      \<lparr>maxTurns = js_max 0 (maxTurns b - maxTurns allocated),
       maxToolCalls = js_max 0 (maxToolCalls b - maxToolCalls allocated),
       maxInputTokens = remaining_of (maxInputTokens b) (u_inputTokens u) (maxInputTokens allocated),
       maxOutputTokens = remaining_of (maxOutputTokens b) (u_outputTokens u) (maxOutputTokens allocated),
       maxCostUsd = remaining_of (maxCostUsd b) (u_costUsd u) (maxCostUsd allocated),
       totalTimeoutMs = totalTimeoutMs b,
       modelIdleTimeoutMs = modelIdleTimeoutMs b,
       commandTimeoutMs = commandTimeoutMs b\<rparr>)"

datatype budget_key =
    MaxTurns | MaxToolCalls | MaxInputTokens | MaxOutputTokens | MaxCostUsd
  | TotalTimeoutMs | ModelIdleTimeoutMs | CommandTimeoutMs

fun budget_field :: "budget_key \<Rightarrow> run_budget \<Rightarrow> num" where
  "budget_field MaxTurns b = maxTurns b"
| "budget_field MaxToolCalls b = maxToolCalls b"
| "budget_field MaxInputTokens b = maxInputTokens b"
| "budget_field MaxOutputTokens b = maxOutputTokens b"
| "budget_field MaxCostUsd b = maxCostUsd b"
| "budget_field TotalTimeoutMs b = totalTimeoutMs b"
| "budget_field ModelIdleTimeoutMs b = modelIdleTimeoutMs b"
| "budget_field CommandTimeoutMs b = commandTimeoutMs b"

definition requested_child_budget :: "partial_budget \<Rightarrow> run_record \<Rightarrow> run_budget \<Rightarrow> run_budget" where
  "requested_child_budget rq parent available = \<lparr>
     maxTurns = nullish (pb_maxTurns rq) (min 4 (maxTurns available)),
     maxToolCalls = nullish (pb_maxToolCalls rq) (min 8 (maxToolCalls available)),
     maxInputTokens = nullish (pb_maxInputTokens rq) (min 64000 (maxInputTokens available)),
     maxOutputTokens = nullish (pb_maxOutputTokens rq) (min 16000 (maxOutputTokens available)),
     maxCostUsd = nullish (pb_maxCostUsd rq) (min 5 (maxCostUsd available)),
     totalTimeoutMs = nullish (pb_totalTimeoutMs rq) (min 300000 (totalTimeoutMs (run_budget parent))),
     modelIdleTimeoutMs = nullish (pb_modelIdleTimeoutMs rq) (modelIdleTimeoutMs (run_budget parent)),
     commandTimeoutMs = nullish (pb_commandTimeoutMs rq) (commandTimeoutMs (run_budget parent))\<rparr>"

text \<open>The three loops over keys, in their order; the first key out of bounds is reported.\<close>

definition first_violation :: "run_budget \<Rightarrow> run_record \<Rightarrow> run_budget \<Rightarrow> budget_key option" where
  "first_violation budget parent available =
     (case List.find (\<lambda>k. budget_field k budget \<le> 0 \<or> budget_field k available < budget_field k budget)
        [MaxTurns, MaxInputTokens, MaxOutputTokens] of
        Some k \<Rightarrow> Some k
      | None \<Rightarrow>
          (case List.find (\<lambda>k. budget_field k budget < 0 \<or> budget_field k available < budget_field k budget)
             [MaxToolCalls, MaxCostUsd] of
             Some k \<Rightarrow> Some k
           | None \<Rightarrow>
               List.find (\<lambda>k. budget_field k budget \<le> 0
                   \<or> budget_field k (run_budget parent) < budget_field k budget)
                 [TotalTimeoutMs, ModelIdleTimeoutMs, CommandTimeoutMs]))"

definition boundedChildBudget ::
  "partial_budget \<Rightarrow> run_record \<Rightarrow> run_budget \<Rightarrow> budget_key + run_budget" where
  "boundedChildBudget rq parent available =
     (let budget = requested_child_budget rq parent available in
      case first_violation budget parent available of
        Some k \<Rightarrow> Inl k
      | None \<Rightarrow> Inr budget)"

lemma js_max_ge [simp]: "a \<le> js_max a b" "b \<le> js_max a b"
  by (simp_all add: js_max_def)

lemma allocated_sum:
  "maxTurns (foldl allocate s cs) = maxTurns s + sum_list (map (\<lambda>c. maxTurns (run_budget c)) cs)"
  "maxToolCalls (foldl allocate s cs) = maxToolCalls s + sum_list (map (\<lambda>c. maxToolCalls (run_budget c)) cs)"
  "maxInputTokens (foldl allocate s cs)
     = maxInputTokens s + sum_list (map (\<lambda>c. maxInputTokens (run_budget c)) cs)"
  "maxOutputTokens (foldl allocate s cs)
     = maxOutputTokens s + sum_list (map (\<lambda>c. maxOutputTokens (run_budget c)) cs)"
  "maxCostUsd (foldl allocate s cs) = maxCostUsd s + sum_list (map (\<lambda>c. maxCostUsd (run_budget c)) cs)"
  by (induction cs arbitrary: s) (simp_all add: allocate_def Let_def)

lemma boundedChildBudget_ok:
  assumes "boundedChildBudget rq parent available = Inr b"
  shows "k \<in> {MaxTurns, MaxInputTokens, MaxOutputTokens} \<Longrightarrow>
      0 < budget_field k b \<and> budget_field k b \<le> budget_field k available"
    and "k \<in> {MaxToolCalls, MaxCostUsd} \<Longrightarrow>
      0 \<le> budget_field k b \<and> budget_field k b \<le> budget_field k available"
    and "k \<in> {TotalTimeoutMs, ModelIdleTimeoutMs, CommandTimeoutMs} \<Longrightarrow>
      0 < budget_field k b \<and> budget_field k b \<le> budget_field k (run_budget parent)"
  using assms
  by (auto simp: boundedChildBudget_def Let_def first_violation_def not_le not_less
      split: option.splits if_splits)

section \<open>Deadlines and queue keys\<close>

definition acceptedDeadline :: "run_record \<Rightarrow> num" where
  "acceptedDeadline r = of_int (run_createdAt r) + totalTimeoutMs (run_budget r)"

definition ownerQueuePrefix :: "resource_owner \<Rightarrow> string" where
  "ownerQueuePrefix ow =
     nat_digits (length (appId ow)) @ CHR '':'' # appId ow @ CHR '':''
     # nat_digits (length (tenantId ow)) @ CHR '':'' # tenantId ow @ CHR '':''
     # nat_digits (length (userId ow)) @ CHR '':'' # userId ow"

definition workspace_key :: "resource_owner \<Rightarrow> string \<Rightarrow> string" where
  "workspace_key ow ws = ownerQueuePrefix ow @ '':workspace:'' @ ws"

definition session_key :: "resource_owner \<Rightarrow> string \<Rightarrow> string" where
  "session_key ow ses = ownerQueuePrefix ow @ '':session:'' @ ses"

text \<open>The keys a run queues on, sorted.\<close>

definition queue_keys :: "run_record \<Rightarrow> string list" where
  "queue_keys r = sort (workspace_key (run_owner r) (run_workspaceId r)
     # (case truthy (run_sessionId r) of None \<Rightarrow> [] | Some s \<Rightarrow> [session_key (run_owner r) s]))"

text \<open>A length-prefixed text is read back from in front of any rest.\<close>

lemma length_prefix_inj:
  assumes "nat_digits (length u) @ CHR '':'' # u @ r = nat_digits (length v) @ CHR '':'' # v @ s"
  shows "u = v \<and> r = s"
proof -
  have "takeWhile (\<lambda>c. c \<noteq> CHR '':'') (nat_digits (length u) @ CHR '':'' # u @ r)
    = takeWhile (\<lambda>c. c \<noteq> CHR '':'') (nat_digits (length v) @ CHR '':'' # v @ s)" using assms by simp
  then have digits: "nat_digits (length u) = nat_digits (length v)"
    by (simp add: takeWhile_nat_digits)
  then have len: "length u = length v" by (metis digits_value_nat_digits)
  have "u @ r = v @ s" using assms unfolding digits by (simp only: same_append_eq list.inject)
  with len show ?thesis by simp
qed

lemma ownerQueuePrefix_inj:
  assumes "ownerQueuePrefix a @ r = ownerQueuePrefix b @ s"
  shows "a = b \<and> r = s"
proof -
  from assms have "nat_digits (length (appId a)) @ CHR '':'' # appId a @ CHR '':''
     # nat_digits (length (tenantId a)) @ CHR '':'' # tenantId a @ CHR '':''
     # nat_digits (length (userId a)) @ CHR '':'' # userId a @ r
   = nat_digits (length (appId b)) @ CHR '':'' # appId b @ CHR '':''
     # nat_digits (length (tenantId b)) @ CHR '':'' # tenantId b @ CHR '':''
     # nat_digits (length (userId b)) @ CHR '':'' # userId b @ s"
    by (simp add: ownerQueuePrefix_def)
  from length_prefix_inj [OF this] have app: "appId a = appId b"
    and rest: "nat_digits (length (tenantId a)) @ CHR '':'' # tenantId a @ CHR '':''
     # nat_digits (length (userId a)) @ CHR '':'' # userId a @ r
   = nat_digits (length (tenantId b)) @ CHR '':'' # tenantId b @ CHR '':''
     # nat_digits (length (userId b)) @ CHR '':'' # userId b @ s" by simp_all
  from length_prefix_inj [OF rest] have tenant: "tenantId a = tenantId b"
    and rest: "nat_digits (length (userId a)) @ CHR '':'' # userId a @ r
   = nat_digits (length (userId b)) @ CHR '':'' # userId b @ s" by simp_all
  from length_prefix_inj [OF rest] app tenant show ?thesis by (simp add: resource_owner.equality)
qed

lemma queue_key_inj:
  "workspace_key a w = workspace_key b w' \<longleftrightarrow> a = b \<and> w = w'"
  "session_key a x = session_key b x' \<longleftrightarrow> a = b \<and> x = x'"
  "workspace_key a w \<noteq> session_key b x"
  unfolding workspace_key_def session_key_def
  by (auto dest: ownerQueuePrefix_inj)

section \<open>Numbers of usage events\<close>

definition numberValue :: "jsval \<Rightarrow> num option" where
  "numberValue v = (case v of JNum n \<Rightarrow> if 0 \<le> n then Some n else None | _ \<Rightarrow> None)"

section \<open>Canonical JSON and the digests of approvals\<close>

text \<open>
  \<open>JSON.stringify\<close> of a text: quotes, reverse solidus and control characters are escaped. The
  numeral that \<open>JSON.stringify\<close> prints for a number, the ISO text of a time and SHA-256 are
  parameters.
\<close>

definition hex_digit :: "nat \<Rightarrow> char" where
  "hex_digit n = (if n < 10 then char_of (48 + n) else char_of (87 + n))"

definition json_escape :: "char \<Rightarrow> string" where
  "json_escape c = (let n = of_char c :: nat in
     if n = 34 then [char_of (92::nat), char_of (34::nat)]
     else if n = 92 then [char_of (92::nat), char_of (92::nat)]
     else if n = 8 then char_of (92::nat) # ''b''
     else if n = 12 then char_of (92::nat) # ''f''
     else if n = 10 then char_of (92::nat) # ''n''
     else if n = 13 then char_of (92::nat) # ''r''
     else if n = 9 then char_of (92::nat) # ''t''
     else if n < 32 then char_of (92::nat) # ''u00'' @ [hex_digit (n div 16), hex_digit (n mod 16)]
     else [c])"

definition json_quote :: "string \<Rightarrow> string" where
  "json_quote s = char_of (34::nat) # concat (map json_escape s) @ [char_of (34::nat)]"

datatype approval_json_error = NonFiniteNumber | UndefinedValue | NotJsonValue

fun sequence :: "('e + 'a) list \<Rightarrow> 'e + 'a list" where
  "sequence [] = Inr []"
| "sequence (r # rs) = bind_result r (\<lambda>a. bind_result (sequence rs) (\<lambda>as. Inr (a # as)))"

definition join_with :: "string \<Rightarrow> string list \<Rightarrow> string" where
  "join_with sep xs = (case xs of [] \<Rightarrow> [] | x # ys \<Rightarrow> x @ concat (map ((@) sep) ys))"

fun canonicalApprovalJson :: "(num \<Rightarrow> string) \<Rightarrow> jsval \<Rightarrow> approval_json_error + string" where
  "canonicalApprovalJson numtext JNull = Inr ''null''"
| "canonicalApprovalJson numtext (JStr s) = Inr (json_quote s)"
| "canonicalApprovalJson numtext (JBool b) = Inr (if b then ''true'' else ''false'')"
| "canonicalApprovalJson numtext (JNum n) = Inr (numtext n)"
| "canonicalApprovalJson numtext JNonFinite = Inl NonFiniteNumber"
| "canonicalApprovalJson numtext JUndef = Inl NotJsonValue"
| "canonicalApprovalJson numtext (JArr vs) =
     bind_result (sequence (map (canonicalApprovalJson numtext) vs))
       (\<lambda>ts. Inr (CHR ''['' # join_with '','' ts @ '']''))"
| "canonicalApprovalJson numtext (JObj ob) =
     bind_result
       (sequence (map (\<lambda>(k, r). bind_result r (\<lambda>t. Inr (json_quote k @ CHR '':'' # t)))
          (sort_key fst (map (\<lambda>(k, v). (k, if v = JUndef then Inl UndefinedValue
              else canonicalApprovalJson numtext v)) ob))))
       (\<lambda>ts. Inr (CHR ''{'' # join_with '','' ts @ ''}''))"

definition approvalArgumentsDigest ::
  "(string \<Rightarrow> string) \<Rightarrow> (num \<Rightarrow> string) \<Rightarrow> jsobject \<Rightarrow> approval_json_error + string" where
  "approvalArgumentsDigest sha256 numtext args =
     bind_result (canonicalApprovalJson numtext (JObj args)) (\<lambda>t. Inr (sha256 t))"

record approval_binding =
  bd_runId :: string
  bd_toolCallId :: string
  bd_toolName :: string
  bd_toolArgumentsDigest :: string
  bd_owner :: resource_owner
  bd_workspaceId :: string
  bd_policyGeneration :: int
  bd_routeGeneration :: string
  bd_expiresAt :: string

definition binding_object :: "approval_binding \<Rightarrow> jsobject" where
  "binding_object b = [(''version'', JNum 1), (''runId'', JStr (bd_runId b)),
     (''toolCallId'', JStr (bd_toolCallId b)), (''toolName'', JStr (bd_toolName b)),
     (''toolArgumentsDigest'', JStr (bd_toolArgumentsDigest b)),
     (''appId'', JStr (appId (bd_owner b))), (''tenantId'', JStr (tenantId (bd_owner b))),
     (''userId'', JStr (userId (bd_owner b))), (''workspaceId'', JStr (bd_workspaceId b)),
     (''policyGeneration'', JNum (of_int (bd_policyGeneration b))),
     (''routeGeneration'', JStr (bd_routeGeneration b)), (''expiresAt'', JStr (bd_expiresAt b))]"

definition approvalExecutionDigest ::
  "(string \<Rightarrow> string) \<Rightarrow> (num \<Rightarrow> string) \<Rightarrow> approval_binding \<Rightarrow> approval_json_error + string" where
  "approvalExecutionDigest sha256 numtext b =
     bind_result (canonicalApprovalJson numtext (JObj (binding_object b))) (\<lambda>t. Inr (sha256 t))"

section \<open>Model messages from stored messages\<close>

record model_message =
  mm_role :: message_role
  mm_content :: string
  mm_toolCalls :: "tool_call list option"
  mm_toolCallId :: "string option"

definition persisted_call :: "jsval \<Rightarrow> tool_call option" where
  "persisted_call item = (case item of
     JObj ob \<Rightarrow>
       (case (obj_get ob ''id'', obj_get ob ''name'', obj_get ob ''arguments'') of
          (JStr i, JStr n, JObj args) \<Rightarrow> Some \<lparr>tc_id = i, tc_name = n, tc_arguments = args\<rparr>
        | _ \<Rightarrow> None)
   | _ \<Rightarrow> None)"

definition persistedToolCalls :: "jsval \<Rightarrow> tool_call list option" where
  "persistedToolCalls v = (case v of JArr items \<Rightarrow> those (map persisted_call items) | _ \<Rightarrow> None)"

definition nonempty :: "'a list option \<Rightarrow> 'a list option" where
  "nonempty x = (case x of Some (a # as) \<Rightarrow> Some (a # as) | _ \<Rightarrow> None)"

definition toModelMessage :: "session_message \<Rightarrow> model_message" where
  "toModelMessage m = \<lparr>
     mm_role = (if msg_role m = SystemRole then UserRole else msg_role m),
     mm_content = msg_content m,
     mm_toolCalls = (if msg_role m = AssistantRole
       then nonempty (persistedToolCalls (obj_get (msg_metadata m) ''toolCalls'')) else None),
     mm_toolCallId = (if msg_role m = ToolRole
       then as_string (obj_get (msg_metadata m) ''callId'') else None)\<rparr>"

text \<open>How the coordinator stores the calls of an assistant message, to be read back.\<close>

definition call_object :: "tool_call \<Rightarrow> jsval" where
  "call_object c = JObj [(''id'', JStr (tc_id c)), (''name'', JStr (tc_name c)),
     (''arguments'', JObj (tc_arguments c))]"

section \<open>Event pages\<close>

definition EVENT_PAGE_LIMIT :: nat where "EVENT_PAGE_LIMIT = 256"
definition EVENT_PAGE_MAX_BYTES :: int where "EVENT_PAGE_MAX_BYTES = 8 * 1024 * 1024"

datatype page_error = InvalidByteLimit | EventTooLarge int | EventExceedsEnvelope int

text \<open>\<open>bytes_of\<close> is the UTF-8 length of an event's JSON text; 13 is that of \<open>{"events":[]}\<close>.\<close>

fun page_loop :: "(run_event \<Rightarrow> int) \<Rightarrow> int \<Rightarrow> run_event list \<Rightarrow> int \<Rightarrow> run_event list
    \<Rightarrow> page_error + run_event list" where
  "page_loop bytes_of maxBytes page bytes [] = Inr page"
| "page_loop bytes_of maxBytes page bytes (e # es) =
     (let eventBytes = bytes_of e + (if page = [] then 0 else 1) in
      if maxBytes < eventBytes then Inl (EventTooLarge (ev_sequence e))
      else if maxBytes < bytes + eventBytes
      then (if page = [] then Inl (EventExceedsEnvelope (ev_sequence e)) else Inr page)
      else page_loop bytes_of maxBytes (page @ [e]) (bytes + eventBytes) es)"

definition boundedEventBatch ::
  "(run_event \<Rightarrow> int) \<Rightarrow> run_event list \<Rightarrow> num \<Rightarrow> page_error + run_event list" where
  "boundedEventBatch bytes_of events maxBytes =
     (if \<not> is_safe_integer maxBytes \<or> maxBytes < 1 then Inl InvalidByteLimit
      else page_loop bytes_of \<lfloor>maxBytes\<rfloor> [] 13 (take EVENT_PAGE_LIMIT events))"

text \<open>The bytes of a page as it is sent: the envelope, the events and the commas between them.\<close>

definition page_bytes :: "(run_event \<Rightarrow> int) \<Rightarrow> run_event list \<Rightarrow> int" where
  "page_bytes bytes_of page = 13 + sum_list (map bytes_of page) + int (length page - 1)"

lemma page_bytes_snoc:
  "page_bytes bytes_of (page @ [e]) = page_bytes bytes_of page + bytes_of e + (if page = [] then 0 else 1)"
  by (cases page) (simp_all add: page_bytes_def)

lemma page_loop_ok:
  assumes "page_loop bytes_of m page (page_bytes bytes_of page) es = Inr res" and "page_bytes bytes_of page \<le> m \<or> page = []"
  shows "\<exists>n. res = page @ take n es \<and> (res = [] \<or> page_bytes bytes_of res \<le> m)
    \<and> (n < length es \<longrightarrow> m < page_bytes bytes_of (page @ take (Suc n) es))"
  using assms
proof (induction es arbitrary: page)
  case Nil
  then show ?case by auto
next
  case (Cons e es)
  let ?b = "bytes_of e + (if page = [] then 0 else 1)"
  have next_bytes: "page_bytes bytes_of (page @ [e]) = page_bytes bytes_of page + ?b"
    by (simp add: page_bytes_snoc)
  show ?case
  proof (cases "m < page_bytes bytes_of page + ?b")
    case True
    with Cons.prems have "res = page" "page \<noteq> []"
      by (auto simp: Let_def split: if_splits)
    with True Cons.prems next_bytes show ?thesis by (intro exI [of _ 0]) auto
  next
    case False
    with Cons.prems have "page_loop bytes_of m (page @ [e]) (page_bytes bytes_of (page @ [e])) es = Inr res"
      unfolding next_bytes by (auto simp: Let_def split: if_splits)
    from Cons.IH [OF this] False next_bytes obtain n where
      "res = (page @ [e]) @ take n es" "res = [] \<or> page_bytes bytes_of res \<le> m"
      "n < length es \<longrightarrow> m < page_bytes bytes_of ((page @ [e]) @ take (Suc n) es)" by auto
    then show ?thesis by (intro exI [of _ "Suc n"]) simp
  qed
qed

end
