(* ===== verification/ControlPlane.thy ===== *)
theory ControlPlane
  imports StoreMachine ControlValues
begin

text \<open>
  The coordinator \<open>RunService\<close> of \<open>packages/control-plane/src/index.ts\<close>: its state beside the
  store (abort controllers, steering queues, approval waiters, scheduled runs, the queue of
  executions) and its operations. An operation may throw after it has already written, so an
  action returns the new state with an error as well as with a result. Telemetry and the wake-up
  of waiting readers (\<open>#notify\<close>) are left out: the code isolates them from the state.
\<close>

section \<open>State and actions\<close>

datatype abort_reason =
    RunCancelledError
  | RunTimeoutError num
  | BudgetExceededError string
  | WorkspaceLeaseLostError

datatype control_error =
    StoreError store_error
  | InvalidRunTransitionError run_status run_status
  | RunMissing string
  | ShuttingDown
  | ParentUnavailable
  | NestingLimitReached
  | ChildProfileUnavailable string
  | ToolAuthorityExceeded
  | CapabilityAuthorityExceeded
  | ChildKeyReused
  | ChildBudgetExceeded budget_key
  | RunNotActive
  | ToolNotAllowed string
  | DeliveryDisabled
  | InvalidRouteGeneration
  | ApprovalJsonError approval_json_error
  | ApprovalDenied string
  | ApprovalNotApproved
  | ApprovalExpired
  | ApprovalBindingChanged
  | RouteNotFrozen
  | AgentProfileMissing string
  | LeaseLost
  | PageError page_error
  | Aborted abort_reason
  | OutOfFuel

record manager =
  store :: db
  accepting :: bool
  active :: "(string \<times> abort_reason option) list"
  steering :: "(string \<times> model_message list) list"
  approvalWaiters :: "string list"
  settledWaiters :: "(string \<times> bool) list"
  scheduled :: "string list"
  queueTails :: "(string \<times> string) list"
  executions :: "(string \<times> string list \<times> string list) list"

text \<open>
  Options of the service, and the host functions it uses: SHA-256, the text of numbers, of
  times and of arbitrary values (\<open>String(v)\<close>), the UTF-8 length of an event's JSON text, and
  the store's request fingerprint.
\<close>

record config =
  cf_sha256 :: "string \<Rightarrow> string"
  cf_numtext :: "num \<Rightarrow> string"
  cf_iso :: "timestamp \<Rightarrow> string"
  cf_text :: "jsval \<Rightarrow> string"
  cf_event_bytes :: "run_event \<Rightarrow> int"
  cf_fingerprint :: "start_run_request \<Rightarrow> string"
  cf_maxSubagentDepth :: int
  cf_approvalTimeoutMs :: int
  cf_approvalRouteGeneration :: "run_record \<Rightarrow> string"
  cf_requiresApproval :: "tool_call \<Rightarrow> run_record \<Rightarrow> bool"
  cf_workspaceLeaseTtlMs :: int
  cf_hasLifecycle :: bool

type_synonym 'a act = "manager \<Rightarrow> (control_error + 'a) \<times> manager"

definition return_act :: "'a \<Rightarrow> 'a act" where "return_act a m = (Inr a, m)"

definition throw_act :: "control_error \<Rightarrow> 'a act" where "throw_act e m = (Inl e, m)"

definition bind_act :: "'a act \<Rightarrow> ('a \<Rightarrow> 'b act) \<Rightarrow> 'b act" where
  "bind_act f g m = (case f m of (Inl e, m') \<Rightarrow> (Inl e, m') | (Inr a, m') \<Rightarrow> g a m')"

definition modify_act :: "(manager \<Rightarrow> manager) \<Rightarrow> unit act" where "modify_act f m = (Inr (), f m)"

definition gets_act :: "(manager \<Rightarrow> 'a) \<Rightarrow> 'a act" where "gets_act f m = (Inr (f m), m)"

text \<open>A call of the store: an error leaves the database as it was.\<close>

definition store_act :: "'a store_op \<Rightarrow> 'a act" where
  "store_act f m = (case f (store m) of
     Inl e \<Rightarrow> (Inl (StoreError e), m)
   | Inr (a, d) \<Rightarrow> (Inr a, m\<lparr>store := d\<rparr>))"

fun for_each :: "('a \<Rightarrow> unit act) \<Rightarrow> 'a list \<Rightarrow> unit act" where
  "for_each f [] = return_act ()"
| "for_each f (x # xs) = bind_act (f x) (\<lambda>_. for_each f xs)"

definition lift_result :: "('e \<Rightarrow> control_error) \<Rightarrow> 'e + 'a \<Rightarrow> 'a act" where
  "lift_result wrap r = (case r of Inl e \<Rightarrow> throw_act (wrap e) | Inr a \<Rightarrow> return_act a)"

text \<open>\<open>Set.add\<close> on an insertion-ordered set; \<open>Map.set\<close> is \<open>AList.update\<close>.\<close>

definition set_add :: "'a \<Rightarrow> 'a list \<Rightarrow> 'a list" where
  "set_add x xs = (if x \<in> set xs then xs else xs @ [x])"

section \<open>Transitions\<close>

definition status_event ::
  "string \<Rightarrow> run_status \<Rightarrow> run_event_type \<Rightarrow> jsobject \<Rightarrow> append_event" where
  "status_event i st ty payload = \<lparr>ae_runId = i, ae_type = ty,
     ae_payload = Some (obj_spread [(''status'', JStr (status_name st))] payload),
     ae_status = Some st, ae_errorCode = as_string (obj_get payload ''code''),
     ae_errorMessage = as_string (obj_get payload ''message''), ae_usage = None\<rparr>"

definition optional_entry :: "string \<Rightarrow> string option \<Rightarrow> jsobject" where
  "optional_entry k v = (case v of None \<Rightarrow> [] | Some s \<Rightarrow> [(k, JStr s)])"

definition child_summary :: "run_record \<Rightarrow> run_status \<Rightarrow> jsobject \<Rightarrow> db \<Rightarrow> jsobject" where
  "child_summary run st payload d =
     [(''childRunId'', JStr (run_id run)), (''status'', JStr (status_name st))]
     @ optional_entry ''summary''
         (case getLastEvent (run_id run) (Some AgentMessageCompleted) d of
            None \<Rightarrow> None | Some e \<Rightarrow> as_string (obj_get (ev_payload e) ''content''))
     @ optional_entry ''errorCode'' (as_string (obj_get payload ''code''))"

definition is_terminal_run :: "string \<Rightarrow> db \<Rightarrow> bool" where
  "is_terminal_run i d = (case getRun i d of
     None \<Rightarrow> False | Some r \<Rightarrow> isTerminalRunStatus (run_status r))"

text \<open>The summary for the parent is dropped when the parent has become terminal.\<close>

definition report_to_parent ::
  "timestamp \<Rightarrow> run_record \<Rightarrow> run_status \<Rightarrow> jsobject \<Rightarrow> unit act" where
  "report_to_parent now run st payload m =
     (case truthy (run_parentRunId run) of
        None \<Rightarrow> (Inr (), m)
      | Some p \<Rightarrow>
          (case appendEvent now (plain_event p SubagentCompleted
                  (child_summary run st payload (store m))) (store m) of
             Inr (e, d) \<Rightarrow> (Inr (), m\<lparr>store := d\<rparr>)
           | Inl e \<Rightarrow> if is_terminal_run p (store m) then (Inr (), m) else (Inl (StoreError e), m)))"

definition transition ::
  "timestamp \<Rightarrow> string \<Rightarrow> run_status \<Rightarrow> run_event_type \<Rightarrow> jsobject \<Rightarrow> unit act" where
  "transition now i st ty payload m =
     (case getRun i (store m) of
        None \<Rightarrow> (Inl (RunMissing i), m)
      | Some run \<Rightarrow>
          (case assertRunTransition (run_status run) st of
             Inl (InvalidRunTransition a b) \<Rightarrow> (Inl (InvalidRunTransitionError a b), m)
           | Inr _ \<Rightarrow>
               bind_act (store_act (appendEvent now (status_event i st ty payload)))
                 (\<lambda>_. if isTerminalRunStatus st then report_to_parent now run st payload
                      else return_act ()) m))"

definition transitionIfActive ::
  "timestamp \<Rightarrow> string \<Rightarrow> run_status \<Rightarrow> run_event_type \<Rightarrow> jsobject \<Rightarrow> bool act" where
  "transitionIfActive now i st ty payload m =
     (case getRun i (store m) of
        None \<Rightarrow> (Inr False, m)
      | Some run \<Rightarrow>
          if isTerminalRunStatus (run_status run) then (Inr False, m)
          else bind_act (transition now i st ty payload) (\<lambda>_. return_act True) m)"

section \<open>Creating runs\<close>

definition service_createRun ::
  "config \<Rightarrow> timestamp \<Rightarrow> fresh_ids \<Rightarrow> string \<Rightarrow> start_run_request \<Rightarrow> create_run_response act" where
  "service_createRun cf now ids i rq m =
     (if \<not> accepting m then (Inl ShuttingDown, m)
      else bind_act (store_act (createOrGetRun (cf_fingerprint cf) now ids i rq)) (\<lambda>(run, created).
        bind_act (modify_act (\<lambda>m. if created then m\<lparr>scheduled := set_add (run_id run) (scheduled m)\<rparr> else m))
          (\<lambda>_. return_act \<lparr>rs_runId = run_id run, rs_status = run_status run,
            rs_eventCursor = run_lastSequence run, rs_idempotentReplay = \<not> created\<rparr>)) m)"

record child_request =
  ch_parentRunId :: string
  ch_agent :: string
  ch_input :: string
  ch_idempotencyKey :: string
  ch_budget :: "partial_budget option"

definition child_key :: "child_request \<Rightarrow> string" where
  "child_key rq = ''subagent:'' @ ch_parentRunId rq @ CHR '':'' # ch_idempotencyKey rq"

definition child_authority :: "agent_profile option \<Rightarrow> agent_profile \<Rightarrow> control_error + unit" where
  "child_authority parent child = (case parent of
     None \<Rightarrow> Inr ()
   | Some p \<Rightarrow>
       if \<not> list_all (\<lambda>t. t \<in> set (ap_allowedTools p)) (ap_allowedTools child)
       then Inl ToolAuthorityExceeded
       else throw_if (\<not> list_all (\<lambda>c. c \<in> set (ap_modelCapabilities p)) (ap_modelCapabilities child))
              CapabilityAuthorityExceeded)"

definition budget_differs :: "partial_budget \<Rightarrow> run_budget \<Rightarrow> bool" where
  "budget_differs rq b = list_ex (\<lambda>(k, v). map_of (budget_entries (full_budget b)) k \<noteq> Some v)
     (budget_entries rq)"

definition child_run_request ::
  "config \<Rightarrow> run_record \<Rightarrow> child_request \<Rightarrow> run_budget \<Rightarrow> start_run_request" where
  "child_run_request cf parent rq budget =
     (let suffix = take 24 (cf_sha256 cf (child_key rq)) in
      \<lparr>rq_agent = ch_agent rq, rq_workspace = ''wsp_sub_'' @ suffix,
       rq_session = Some (''ses_sub_'' @ suffix),
       rq_providerConnectionId = truthy (run_providerConnectionId parent),
       rq_input = ch_input rq, rq_budget = Some (full_budget budget),
       rq_idempotencyKey = child_key rq,
       rq_principal = \<lparr>p_owner = run_owner parent,
         p_scopes = [''runs:create'', ''subagents:execute''], p_tokenId = None, p_tokenType = None,
         p_replayPolicy = None, p_agentId = None, p_workspaceId = None, p_budgetCeiling = None\<rparr>,
       rq_parentRunId = Some (run_id parent), rq_depth = Some (run_depth parent + 1),
       rq_deliveryAllowed = Some False, rq_createIfMissing = Some True\<rparr>)"

definition start_child_run ::
  "config \<Rightarrow> timestamp \<Rightarrow> fresh_ids \<Rightarrow> string \<Rightarrow> run_record \<Rightarrow> child_request \<Rightarrow> run_budget
    \<Rightarrow> create_run_response act" where
  "start_child_run cf now ids i parent rq budget =
     (let sr = child_run_request cf parent rq budget in
      bind_act (service_createRun cf now ids i sr) (\<lambda>res.
        if rs_idempotentReplay res then return_act res
        else bind_act (store_act (appendEvent now (plain_event (run_id parent) SubagentStarted
               [(''childRunId'', JStr (rs_runId res)), (''agent'', JStr (ch_agent rq)),
                (''workspaceId'', JStr (rq_workspace sr)),
                (''depth'', JNum (of_int (run_depth parent + 1)))]))) (\<lambda>_. return_act res)))"

definition createChildRun ::
  "config \<Rightarrow> timestamp \<Rightarrow> fresh_ids \<Rightarrow> string \<Rightarrow> child_request \<Rightarrow> create_run_response act" where
  "createChildRun cf now ids i rq m =
     (case getRun (ch_parentRunId rq) (store m) of
        None \<Rightarrow> (Inl ParentUnavailable, m)
      | Some parent \<Rightarrow>
          if isTerminalRunStatus (run_status parent) then (Inl ParentUnavailable, m)
          else if cf_maxSubagentDepth cf \<le> run_depth parent then (Inl NestingLimitReached, m)
          else (case getAgentProfile (ch_agent rq) (run_owner parent) (store m) of
            None \<Rightarrow> (Inl (ChildProfileUnavailable (ch_agent rq)), m)
          | Some child \<Rightarrow>
              (case child_authority (getAgentProfile (run_agentId parent) (run_owner parent) (store m)) child of
                 Inl e \<Rightarrow> (Inl e, m)
               | Inr _ \<Rightarrow>
                   (let existing = listChildRuns (run_id parent) (store m) in
                    case List.find (\<lambda>c. run_idempotencyKey c = child_key rq) existing of
                      Some replay \<Rightarrow>
                        if run_agentId replay \<noteq> ch_agent rq \<or> run_input replay \<noteq> ch_input rq
                          \<or> budget_differs (nullish (ch_budget rq) empty_budget) (run_budget replay)
                        then (Inl ChildKeyReused, m)
                        else (Inr \<lparr>rs_runId = run_id replay, rs_status = run_status replay,
                               rs_eventCursor = run_lastSequence replay, rs_idempotentReplay = True\<rparr>, m)
                    | None \<Rightarrow>
                        (case boundedChildBudget (nullish (ch_budget rq) empty_budget) parent
                                (remainingChildBudget parent existing) of
                           Inl k \<Rightarrow> (Inl (ChildBudgetExceeded k), m)
                         | Inr budget \<Rightarrow> start_child_run cf now ids i parent rq budget m)))))"

section \<open>Steering\<close>

definition steerRun :: "timestamp \<Rightarrow> string \<Rightarrow> string \<Rightarrow> string \<Rightarrow> run_record option act" where
  "steerRun now mid i instruction m =
     (case getRun i (store m) of
        None \<Rightarrow> (Inl RunNotActive, m)
      | Some run \<Rightarrow>
          if isTerminalRunStatus (run_status run) then (Inl RunNotActive, m)
          else
            bind_act (modify_act (\<lambda>m. m\<lparr>steering := AList.update i
                (nullish (map_of (steering m) i) [] @ [\<lparr>mm_role = UserRole, mm_content = instruction,
                   mm_toolCalls = None, mm_toolCallId = None\<rparr>]) (steering m)\<rparr>)) (\<lambda>_.
            bind_act (case truthy (run_sessionId run) of
                None \<Rightarrow> return_act ()
              | Some s \<Rightarrow> bind_act (store_act (appendSessionMessage now
                  \<lparr>am_id = mid, am_sessionId = s, am_runId = i, am_role = UserRole,
                   am_content = instruction, am_metadata = Some [(''steering'', JBool True)]\<rparr>))
                  (\<lambda>_. return_act ())) (\<lambda>_.
            bind_act (store_act (appendEvent now (plain_event i RunSteered [(''instruction'', JStr instruction)])))
              (\<lambda>_. gets_act (\<lambda>m. getRun i (store m))))) m)"

definition takeSteering :: "string \<Rightarrow> model_message list act" where
  "takeSteering i m =
     (Inr (nullish (map_of (steering m) i) []), m\<lparr>steering := AList.update i [] (steering m)\<rparr>)"

section \<open>Aborting and cancelling\<close>

text \<open>\<open>controller.abort(reason)\<close>: the first reason stays.\<close>

definition abort_run :: "string \<Rightarrow> abort_reason \<Rightarrow> manager \<Rightarrow> manager" where
  "abort_run i reason m = (case map_of (active m) i of
     Some None \<Rightarrow> m\<lparr>active := AList.update i (Some reason) (active m)\<rparr>
   | _ \<Rightarrow> m)"

text \<open>The children are cancelled before their parent; \<open>fuel\<close> bounds the depth of the recursion.\<close>

fun cancelRun :: "nat \<Rightarrow> timestamp \<Rightarrow> string \<Rightarrow> run_record option act" where
  "cancelRun 0 now i m = (Inl OutOfFuel, m)"
| "cancelRun (Suc fuel) now i m =
     (case getRun i (store m) of
        None \<Rightarrow> (Inr None, m)
      | Some run \<Rightarrow>
          if isTerminalRunStatus (run_status run) then (Inr (Some run), m)
          else
            bind_act (for_each (\<lambda>c. bind_act (cancelRun fuel now c) (\<lambda>_. return_act ()))
                (map run_id (listChildRuns i (store m)))) (\<lambda>_.
            bind_act (\<lambda>m. case map_of (active m) i of
                Some _ \<Rightarrow> (Inr (), abort_run i RunCancelledError m)
              | None \<Rightarrow> transition now i CANCELLED RunCancelled [(''reason'', JStr ''requested'')] m) (\<lambda>_.
            gets_act (\<lambda>m. getRun i (store m)))) m)"

definition timeoutQueuedRun :: "timestamp \<Rightarrow> string \<Rightarrow> string \<Rightarrow> unit act" where
  "timeoutQueuedRun now i message m =
     (case getRun i (store m) of
        None \<Rightarrow> (Inr (), m)
      | Some run \<Rightarrow>
          if run_status run \<noteq> QUEUED then (Inr (), m)
          else transition now i TIMED_OUT RunTimedOut
            [(''code'', JStr ''run_timeout''), (''message'', JStr message),
             (''retryable'', JBool True), (''phase'', JStr ''queue'')] m)"

section \<open>After a restart\<close>

definition restart_event :: "run_record \<Rightarrow> append_event" where
  "restart_event run = \<lparr>ae_runId = run_id run, ae_type = RunOrphaned,
     ae_payload = Some [(''status'', JStr ''ORPHANED''), (''retryable'', JBool True),
       (''previousStatus'', JStr (status_name (run_status run)))],
     ae_status = Some ORPHANED, ae_errorCode = Some ''manager_restarted'',
     ae_errorMessage = Some ''Manager restarted while the run was nonterminal; retry with a new idempotency key.'',
     ae_usage = None\<rparr>"

definition reconcile_run :: "timestamp \<Rightarrow> run_record \<Rightarrow> unit act" where
  "reconcile_run now run =
     bind_act (store_act (completeRunningAttempts now (run_id run) ORPHANED)) (\<lambda>_.
     bind_act (store_act (appendEvent now (restart_event run))) (\<lambda>_. return_act ()))"

definition reconcileInterruptedRuns :: "timestamp \<Rightarrow> nat act" where
  "reconcileInterruptedRuns now m =
     (let interrupted = listNonTerminalRuns (store m) in
      bind_act (for_each (reconcile_run now) interrupted)
        (\<lambda>_. return_act (length interrupted)) m)"

definition service_listEvents :: "config \<Rightarrow> string \<Rightarrow> int \<Rightarrow> manager \<Rightarrow> page_error + run_event list" where
  "service_listEvents cf i after m =
     boundedEventBatch (cf_event_bytes cf) (listEvents i after (int EVENT_PAGE_LIMIT) (store m))
       (of_int EVENT_PAGE_MAX_BYTES)"

section \<open>Approvals of tool calls\<close>

text \<open>A route generation is one line of at most 256 characters.\<close>

definition approvalRouteGeneration :: "config \<Rightarrow> run_record \<Rightarrow> control_error + string" where
  "approvalRouteGeneration cf run = (let g = cf_approvalRouteGeneration cf run in
     if g = [] \<or> 256 < length g \<or> list_ex (\<lambda>c. (of_char c :: nat) \<in> set [13, 10, 0]) g
     then Inl InvalidRouteGeneration else Inr g)"

definition binding_of ::
  "config \<Rightarrow> run_record \<Rightarrow> string \<Rightarrow> string \<Rightarrow> string \<Rightarrow> int \<Rightarrow> string \<Rightarrow> timestamp \<Rightarrow> approval_binding" where
  "binding_of cf run callId toolName argsDigest generation route expires = \<lparr>
     bd_runId = run_id run, bd_toolCallId = callId, bd_toolName = toolName,
     bd_toolArgumentsDigest = argsDigest, bd_owner = run_owner run,
     bd_workspaceId = run_workspaceId run, bd_policyGeneration = generation,
     bd_routeGeneration = route, bd_expiresAt = cf_iso cf expires\<rparr>"

definition args_digest :: "config \<Rightarrow> tool_call \<Rightarrow> control_error + string" where
  "args_digest cf call = (case approvalArgumentsDigest (cf_sha256 cf) (cf_numtext cf) (tc_arguments call) of
     Inl e \<Rightarrow> Inl (ApprovalJsonError e) | Inr t \<Rightarrow> Inr t)"

definition execution_digest :: "config \<Rightarrow> approval_binding \<Rightarrow> control_error + string" where
  "execution_digest cf b = (case approvalExecutionDigest (cf_sha256 cf) (cf_numtext cf) b of
     Inl e \<Rightarrow> Inl (ApprovalJsonError e) | Inr t \<Rightarrow> Inr t)"

text \<open>Whether the run, its agent's policy and the route are still those the approval was asked
  for; with a call, whether it is that call.\<close>

definition approvalBindingIsCurrent ::
  "config \<Rightarrow> approval_record \<Rightarrow> tool_call option \<Rightarrow> db \<Rightarrow> control_error + bool" where
  "approvalBindingIsCurrent cf r call d =
     (case getRun (apr_runId r) d of
        None \<Rightarrow> Inr False
      | Some run \<Rightarrow>
          (case getAgentProfile (run_agentId run) (run_owner run) d of
             None \<Rightarrow> Inr False
           | Some profile \<Rightarrow>
               bind_result (approvalRouteGeneration cf run) (\<lambda>route.
                 if apr_owner r \<noteq> run_owner run \<or> apr_workspaceId r \<noteq> run_workspaceId run
                   \<or> apr_policyGeneration r \<noteq> ap_version profile \<or> apr_routeGeneration r \<noteq> route
                 then Inr False
                 else
                   bind_result (case call of None \<Rightarrow> Inr (apr_toolArgumentsDigest r)
                     | Some c \<Rightarrow> args_digest cf c) (\<lambda>argsDigest.
                   bind_result (execution_digest cf (binding_of cf run
                       (case call of None \<Rightarrow> apr_toolCallId r | Some c \<Rightarrow> tc_id c)
                       (case call of None \<Rightarrow> apr_toolName r | Some c \<Rightarrow> tc_name c)
                       argsDigest (ap_version profile) route (apr_expiresAt r)))
                     (\<lambda>digest. Inr (digest = apr_executionDigest r))))))"

definition resolution_payload :: "string \<Rightarrow> approval_status \<Rightarrow> string \<Rightarrow> jsobject" where
  "resolution_payload i st digest = [(''approvalId'', JStr i),
     (''status'', JStr (approval_status_name st)), (''executionDigest'', JStr digest)]"

definition resolve_as ::
  "timestamp \<Rightarrow> approval_record \<Rightarrow> approval_status \<Rightarrow> approval_record option act" where
  "resolve_as now r st = store_act (resolveApprovalAndAppendEvent now (apr_id r) st
     (apr_executionDigest r) (resolution_payload (apr_id r) st (apr_executionDigest r)))"

text \<open>\<open>waiter.resolve\<close>: the tool call that waits for the approval goes on.\<close>

definition settle_waiter :: "string \<Rightarrow> bool \<Rightarrow> manager \<Rightarrow> manager" where
  "settle_waiter i approved m =
     (if i \<in> set (approvalWaiters m)
      then m\<lparr>approvalWaiters := removeAll i (approvalWaiters m),
             settledWaiters := settledWaiters m @ [(i, approved)]\<rparr> else m)"

definition is_approved :: "approval_record option \<Rightarrow> bool" where
  "is_approved r \<longleftrightarrow> (case r of None \<Rightarrow> False | Some a \<Rightarrow> apr_status a = APPROVED)"

definition is_pending :: "approval_record option \<Rightarrow> bool" where
  "is_pending r \<longleftrightarrow> (case r of None \<Rightarrow> False | Some a \<Rightarrow> apr_status a = PENDING)"

text \<open>\<open>t1\<close>, \<open>t2\<close> and \<open>t3\<close> are the readings of the clock by the service and by the two store calls.\<close>

definition service_resolveApproval ::
  "config \<Rightarrow> timestamp \<Rightarrow> timestamp \<Rightarrow> timestamp \<Rightarrow> string \<Rightarrow> bool \<Rightarrow> approval_record option act" where
  "service_resolveApproval cf t1 t2 t3 i approved m =
     (case getApproval i (store m) of
        None \<Rightarrow> (Inr None, m)
      | Some existing \<Rightarrow>
          if apr_status existing \<noteq> PENDING then (Inr (Some existing), m)
          else bind_act (lift_result id (approvalBindingIsCurrent cf existing None (store m))) (\<lambda>bindingValid.
            let st = (if apr_expiresAt existing \<le> t1 then EXPIRED
                      else if bindingValid \<and> approved then APPROVED else DENIED) in
            bind_act (resolve_as t2 existing st) (\<lambda>r1.
            bind_act (if st = APPROVED \<and> is_pending r1 then resolve_as t3 existing EXPIRED
                      else return_act r1) (\<lambda>resolved.
            bind_act (modify_act (settle_waiter i (is_approved resolved))) (\<lambda>_.
              return_act resolved)))) m)"

definition approval_draft ::
  "config \<Rightarrow> timestamp \<Rightarrow> string \<Rightarrow> run_record \<Rightarrow> tool_call \<Rightarrow> int \<Rightarrow> control_error + approval_record" where
  "approval_draft cf now i run call generation =
     (let expires = now + cf_approvalTimeoutMs cf in
      bind_result (approvalRouteGeneration cf run) (\<lambda>route.
      bind_result (args_digest cf call) (\<lambda>argsDigest.
      bind_result (execution_digest cf (binding_of cf run (tc_id call) (tc_name call) argsDigest
          generation route expires)) (\<lambda>digest.
        Inr \<lparr>apr_id = i, apr_runId = run_id run, apr_toolCallId = tc_id call,
             apr_toolName = tc_name call, apr_toolArgumentsDigest = argsDigest,
             apr_executionDigest = digest, apr_owner = run_owner run,
             apr_workspaceId = run_workspaceId run, apr_policyGeneration = generation,
             apr_routeGeneration = route, apr_status = PENDING, apr_expiresAt = expires,
             apr_createdAt = now, apr_resolvedAt = None\<rparr>))))"

text \<open>\<open>signal.throwIfAborted()\<close> of the run's controller\<close>

definition throw_if_aborted :: "string \<Rightarrow> unit act" where
  "throw_if_aborted i m = (case map_of (active m) i of
     Some (Some reason) \<Rightarrow> (Inl (Aborted reason), m) | _ \<Rightarrow> (Inr (), m))"

text \<open>The part of \<open>#approveToolIfRequired\<close> before it waits: \<open>None\<close> when no approval is needed.\<close>

definition request_approval ::
  "config \<Rightarrow> timestamp \<Rightarrow> string \<Rightarrow> run_record \<Rightarrow> tool_call \<Rightarrow> int \<Rightarrow> approval_record option act" where
  "request_approval cf now i run call generation =
     (if \<not> cf_requiresApproval cf call run then return_act None
      else bind_act (throw_if_aborted (run_id run)) (\<lambda>_.
        bind_act (lift_result id (approval_draft cf now i run call generation)) (\<lambda>draft.
        bind_act (store_act (createApproval draft)) (\<lambda>r.
        bind_act (store_act (appendEvent now (plain_event (run_id run) ApprovalRequested
            [(''approvalId'', JStr i), (''toolCallId'', JStr (tc_id call)),
             (''toolName'', JStr (tc_name call)),
             (''toolArgumentsDigest'', JStr (apr_toolArgumentsDigest r)),
             (''executionDigest'', JStr (apr_executionDigest r)),
             (''expiresAt'', JStr (cf_iso cf (apr_expiresAt r)))]))) (\<lambda>_.
        bind_act (modify_act (\<lambda>m. m\<lparr>approvalWaiters := set_add i (approvalWaiters m)\<rparr>)) (\<lambda>_.
          return_act (Some r)))))))"

text \<open>What its timer (\<open>EXPIRED\<close>) or an abort of the run (\<open>DENIED\<close>) does to a waiting approval.\<close>

definition give_up_approval :: "timestamp \<Rightarrow> approval_record \<Rightarrow> approval_status \<Rightarrow> unit act" where
  "give_up_approval now r st m =
     (if apr_id r \<in> set (approvalWaiters m)
      then bind_act (resolve_as now r st) (\<lambda>_. modify_act (settle_waiter (apr_id r) False)) m
      else (Inr (), m))"

definition delivery_tools :: "string list" where
  "delivery_tools = [''message_send'', ''integration_reply'', ''connector_send'']"

definition authorizeTool ::
  "config \<Rightarrow> timestamp \<Rightarrow> string \<Rightarrow> run_record \<Rightarrow> tool_call \<Rightarrow> approval_record option act" where
  "authorizeTool cf now i run call m =
     (case getAgentProfile (run_agentId run) (run_owner run) (store m) of
        None \<Rightarrow> (Inl (ToolNotAllowed (tc_name call)), m)
      | Some profile \<Rightarrow>
          if tc_name call \<notin> set (ap_allowedTools profile) then (Inl (ToolNotAllowed (tc_name call)), m)
          else if \<not> run_deliveryAllowed run \<and> tc_name call \<in> set delivery_tools
          then (Inl DeliveryDisabled, m)
          else request_approval cf now i run call (ap_version profile) m)"

definition assertApprovalExecutable ::
  "config \<Rightarrow> timestamp \<Rightarrow> string \<Rightarrow> run_record \<Rightarrow> tool_call \<Rightarrow> db \<Rightarrow> control_error + unit" where
  "assertApprovalExecutable cf now i run call d =
     (case getApproval i d of
        None \<Rightarrow> Inl ApprovalNotApproved
      | Some a \<Rightarrow>
          if apr_status a \<noteq> APPROVED then Inl ApprovalNotApproved
          else if apr_expiresAt a \<le> now then Inl ApprovalExpired
          else if apr_runId a \<noteq> run_id run then Inl ApprovalBindingChanged
          else bind_result (approvalBindingIsCurrent cf a (Some call) d)
                 (\<lambda>current. throw_if (\<not> current) ApprovalBindingChanged))"

section \<open>Events of the agent\<close>

record agent_event =
  ag_type :: run_event_type
  ag_payload :: jsobject

definition event_usage :: "agent_event \<Rightarrow> usage_delta option" where
  "event_usage e =
     (if ag_type e = UsageUpdated then
        Some \<lparr>d_inputTokens = numberValue (obj_get (ag_payload e) ''inputTokens''),
              d_outputTokens = numberValue (obj_get (ag_payload e) ''outputTokens''),
              d_costUsd = numberValue (obj_get (ag_payload e) ''costUsd''), d_toolCalls = None\<rparr>
      else if ag_type e = ToolCallRequested then Some (no_usage\<lparr>d_toolCalls := Some 1\<rparr>)
      else None)"

definition over :: "num option \<Rightarrow> num \<Rightarrow> bool" where
  "over used limit \<longleftrightarrow> (case used of None \<Rightarrow> False | Some u \<Rightarrow> limit < u)"

definition exceeded :: "run_record \<Rightarrow> string option" where
  "exceeded run =
     (if over (u_inputTokens (run_usage run)) (maxInputTokens (run_budget run)) then Some ''input token''
      else if over (u_outputTokens (run_usage run)) (maxOutputTokens (run_budget run)) then Some ''output token''
      else if over (u_costUsd (run_usage run)) (maxCostUsd (run_budget run)) then Some ''cost''
      else if maxToolCalls (run_budget run) < u_toolCalls (run_usage run) then Some ''tool call''
      else None)"

definition enforceBudget :: "run_record \<Rightarrow> manager \<Rightarrow> manager" where
  "enforceBudget run m = (case exceeded run of
     None \<Rightarrow> m | Some kind \<Rightarrow> abort_run (run_id run) (BudgetExceededError kind) m)"

text \<open>\<open>v ?? d\<close> on a property\<close>

definition present :: "jsval \<Rightarrow> jsval \<Rightarrow> jsval" where
  "present v d = (if v = JUndef \<or> v = JNull then d else v)"

definition agent_message :: "config \<Rightarrow> string \<Rightarrow> run_record \<Rightarrow> agent_event \<Rightarrow> append_message option" where
  "agent_message cf mid run e =
     (case truthy (run_sessionId run) of
        None \<Rightarrow> None
      | Some s \<Rightarrow>
          let p = ag_payload e;
              base = \<lparr>am_id = mid, am_sessionId = s, am_runId = run_id run, am_role = AssistantRole,
                     am_content = cf_text cf (present (obj_get p ''content'') (JStr [])),
                     am_metadata = None\<rparr> in
          if ag_type e = AgentMessageCompleted then
            Some (base\<lparr>am_metadata := Some [(''turn'', present (obj_get p ''turn'') (JNum 0)),
              (''toolCalls'', present (obj_get p ''toolCalls'') (JArr []))]\<rparr>)
          else if ag_type e = ToolCallCompleted then
            Some (base\<lparr>am_role := ToolRole, am_metadata :=
              Some [(''callId'', present (obj_get p ''callId'') (JStr ''unknown'')),
                    (''ok'', present (obj_get p ''ok'') (JBool False))]\<rparr>)
          else None)"

definition agent_append_event :: "run_record \<Rightarrow> agent_event \<Rightarrow> append_event" where
  "agent_append_event run e =
     (plain_event (run_id run) (ag_type e) (ag_payload e))\<lparr>ae_usage := event_usage e\<rparr>"

definition is_usage_event :: "agent_event \<Rightarrow> bool" where
  "is_usage_event e \<longleftrightarrow> ag_type e = UsageUpdated \<or> ag_type e = ToolCallRequested"

definition after_agent_event :: "config \<Rightarrow> timestamp \<Rightarrow> string \<Rightarrow> run_record \<Rightarrow> agent_event \<Rightarrow> unit act" where
  "after_agent_event cf now mid run e =
     bind_act (modify_act (\<lambda>m. if is_usage_event e
         then (case getRun (run_id run) (store m) of None \<Rightarrow> m | Some r \<Rightarrow> enforceBudget r m) else m)) (\<lambda>_.
     case agent_message cf mid run e of
       None \<Rightarrow> return_act ()
     | Some am \<Rightarrow> bind_act (store_act (appendSessionMessage now am)) (\<lambda>_. return_act ()))"

definition appendAgentEvent :: "config \<Rightarrow> timestamp \<Rightarrow> string \<Rightarrow> run_record \<Rightarrow> agent_event \<Rightarrow> unit act" where
  "appendAgentEvent cf now mid run e m =
     (case getRun (run_id run) (store m) of
        None \<Rightarrow> (Inr (), m)
      | Some current \<Rightarrow>
          if isTerminalRunStatus (run_status current) then (Inr (), m)
          else (case appendEvent now (agent_append_event run e) (store m) of
            Inl err \<Rightarrow>
              if isTerminalRunStatus (case getRun (run_id run) (store m) of
                  None \<Rightarrow> run_status run | Some r \<Rightarrow> run_status r)
              then (Inr (), m) else (Inl (StoreError err), m)
          | Inr (ev, d) \<Rightarrow> after_agent_event cf now mid run e (m\<lparr>store := d\<rparr>)))"

section \<open>Shutting down\<close>

text \<open>Everything \<open>shutdown\<close> does before it waits for the executions to drain.\<close>

definition shutdown_begin :: "nat \<Rightarrow> timestamp \<Rightarrow> unit act" where
  "shutdown_begin fuel now m =
     (if \<not> accepting m \<and> executions m = [] then (Inr (), m)
      else
        let pending = rev (remdups (rev (scheduled m @ map fst (executions m) @ map fst (active m)))) in
        bind_act (for_each (\<lambda>i. bind_act (cancelRun fuel now i) (\<lambda>_. return_act ())) pending) (\<lambda>_.
          modify_act (\<lambda>m. fold (\<lambda>i. settle_waiter i False) (approvalWaiters m) m))
          (m\<lparr>accepting := False\<rparr>))"

end
