(* ===== verification/ControlExecution.thy ===== *)
theory ControlExecution
  imports ControlPlane
begin

text \<open>
  The execution of a run (\<open>#enqueue\<close>, \<open>#execute\<close>, \<open>#waitForWorkspaceLease\<close>,
  \<open>#freezeRunSnapshot\<close> of \<open>packages/control-plane/src/index.ts\<close>). \<open>#execute\<close> is cut at its
  \<open>await\<close>s into segments: each is atomic in the program, anything may happen between two of
  them, and what an awaited operation answers is an argument of the next segment. The locals
  of an execution are a record handed from segment to segment.
\<close>

section \<open>The queue\<close>

text \<open>
  An execution is chained behind the present tail of each of its keys and becomes their tail.
  \<open>executions\<close> keeps, for each unsettled execution, its keys and the runs it waits for.
\<close>

definition queue_execution :: "run_record \<Rightarrow> manager \<Rightarrow> manager" where
  "queue_execution run m =
     (let keys = queue_keys run;
          preds = List.map_filter (map_of (queueTails m)) keys in
      m\<lparr>executions := executions m @ [(run_id run, keys, preds)],
        queueTails := fold (\<lambda>k. AList.update k (run_id run)) keys (queueTails m)\<rparr>)"

definition timeout_message :: "config \<Rightarrow> run_record \<Rightarrow> string" where
  "timeout_message cf run = ''Run exceeded its total timeout of ''
     @ cf_numtext cf (totalTimeoutMs (run_budget run)) @ ''ms''"

definition enqueue :: "config \<Rightarrow> timestamp \<Rightarrow> run_record \<Rightarrow> unit act" where
  "enqueue cf now run =
     bind_act (transitionIfActive now (run_id run) QUEUED RunQueued []) (\<lambda>queued.
       if \<not> queued then return_act ()
       else if acceptedDeadline run - of_int now \<le> 0
       then timeoutQueuedRun now (run_id run) (timeout_message cf run)
       else modify_act (queue_execution run))"

text \<open>The \<open>setImmediate\<close> callback of \<open>createRun\<close>\<close>

definition dispatch :: "config \<Rightarrow> timestamp \<Rightarrow> run_record \<Rightarrow> unit act" where
  "dispatch cf now run m =
     (let m' = m\<lparr>scheduled := removeAll (run_id run) (scheduled m)\<rparr> in
      if \<not> accepting m' then (Inr (), m') else enqueue cf now run m')"

definition ready :: "string \<Rightarrow> manager \<Rightarrow> bool" where
  "ready i m \<longleftrightarrow> list_ex (\<lambda>(j, keys, preds). j = i
     \<and> list_all (\<lambda>p. p \<notin> fst ` set (executions m)) preds) (executions m)"

text \<open>The \<open>finally\<close> of an execution\<close>

definition settle_execution :: "string \<Rightarrow> manager \<Rightarrow> manager" where
  "settle_execution i m =
     m\<lparr>executions := filter (\<lambda>(j, keys, preds). j \<noteq> i) (executions m),
       queueTails := filter (\<lambda>(k, j). j \<noteq> i) (queueTails m)\<rparr>"

section \<open>An execution\<close>

record terminal =
  tm_status :: run_status
  tm_type :: run_event_type
  tm_payload :: jsobject

record execution =
  ex_run :: run_record
  ex_attempt :: "run_attempt option"
  ex_lease :: "workspace_lease option"
  ex_prepared :: bool
  ex_leaseLost :: bool
  ex_terminal :: "terminal option"

definition new_execution :: "run_record \<Rightarrow> execution" where
  "new_execution run = \<lparr>ex_run = run, ex_attempt = None, ex_lease = None, ex_prepared = False,
     ex_leaseLost = False, ex_terminal = None\<rparr>"

text \<open>Up to the first wait for the workspace lease. \<open>None\<close>: the body has returned.\<close>

definition execute_begin ::
  "config \<Rightarrow> timestamp \<Rightarrow> string \<Rightarrow> string \<Rightarrow> execution option act" where
  "execute_begin cf now attempt i =
     bind_act (modify_act (\<lambda>m. m\<lparr>active := AList.update i None (active m)\<rparr>)) (\<lambda>_.
     bind_act (gets_act (\<lambda>m. getRun i (store m))) (\<lambda>r.
       case r of
         None \<Rightarrow> throw_act (RunMissing i)
       | Some run \<Rightarrow>
           if acceptedDeadline run - of_int now \<le> 0
           then bind_act (timeoutQueuedRun now i (timeout_message cf run)) (\<lambda>_. return_act None)
           else
             bind_act (store_act (createRunAttempt now i attempt)) (\<lambda>a.
             bind_act (transitionIfActive now i PREPARING RunPreparing []) (\<lambda>prepared.
               return_act (if prepared then Some ((new_execution run)\<lparr>ex_attempt := Some a\<rparr>) else None)))))"

text \<open>One round of \<open>#waitForWorkspaceLease\<close>; \<open>None\<close>: the workspace is busy, wait and try again.\<close>

definition lease_round :: "config \<Rightarrow> timestamp \<Rightarrow> execution \<Rightarrow> execution option act" where
  "lease_round cf now x =
     (let run = ex_run x; i = run_id run in
      bind_act (throw_if_aborted i) (\<lambda>_.
      bind_act (store_act (acquireWorkspaceLease now (run_workspaceId run) i (cf_workspaceLeaseTtlMs cf))) (\<lambda>l.
        case l of
          None \<Rightarrow> return_act None
        | Some lease \<Rightarrow>
            bind_act (store_act (appendEvent now (plain_event i WorkspaceLeaseAcquired
              [(''workspaceId'', JStr (run_workspaceId run)),
               (''fencingToken'', JNum (of_int (ls_fencingToken lease)))])))
              (\<lambda>_. return_act (Some (x\<lparr>ex_lease := Some lease\<rparr>))))))"

text \<open>A tick of the renewal interval: a lease that cannot be renewed aborts the run.\<close>

definition renew_tick :: "config \<Rightarrow> timestamp \<Rightarrow> execution \<Rightarrow> manager \<Rightarrow> execution \<times> manager" where
  "renew_tick cf now x m =
     (case ex_lease x of
        None \<Rightarrow> (x, m)
      | Some lease \<Rightarrow>
          if ex_leaseLost x then (x, m)
          else (case renewWorkspaceLease now lease (cf_workspaceLeaseTtlMs cf) (store m) of
            Inr (Some renewed, d) \<Rightarrow> (x\<lparr>ex_lease := Some renewed\<rparr>, m\<lparr>store := d\<rparr>)
          | Inr (None, d) \<Rightarrow> (x\<lparr>ex_leaseLost := True\<rparr>,
              abort_run (run_id (ex_run x)) WorkspaceLeaseLostError (m\<lparr>store := d\<rparr>))
          | Inl e \<Rightarrow> (x\<lparr>ex_leaseLost := True\<rparr>,
              abort_run (run_id (ex_run x)) WorkspaceLeaseLostError m)))"

text \<open>After the lifecycle has prepared the workspace: whether it restored one, and from which
  snapshot. Without a lifecycle nothing happens.\<close>

definition prepared_workspace :: "config \<Rightarrow> timestamp \<Rightarrow> bool \<Rightarrow> bool \<Rightarrow> execution \<Rightarrow> execution act" where
  "prepared_workspace cf now restored recovered x =
     (if \<not> cf_hasLifecycle cf then return_act x
      else if restored then
        bind_act (store_act (appendEvent now (plain_event (run_id (ex_run x)) WorkspaceRestoreCompleted
          [(''workspaceId'', JStr (run_workspaceId (ex_run x))),
           (''recoveredFromPrevious'', JBool recovered)])))
          (\<lambda>_. return_act (x\<lparr>ex_prepared := True\<rparr>))
      else return_act (x\<lparr>ex_prepared := True\<rparr>))"

text \<open>What the agent is started with.\<close>

record agent_start =
  as_profile :: agent_profile
  as_history :: "model_message list"

definition execute_start :: "timestamp \<Rightarrow> execution \<Rightarrow> agent_start option act" where
  "execute_start now x =
     (let run = ex_run x in
      bind_act (transitionIfActive now (run_id run) RUNNING RunStarted []) (\<lambda>started.
        if \<not> started then return_act None
        else
          bind_act (gets_act (\<lambda>m. case truthy (run_sessionId run) of None \<Rightarrow> []
            | Some s \<Rightarrow> map toModelMessage (listSessionMessages s (run_owner run) 1000 (store m)))) (\<lambda>history.
          bind_act (gets_act (\<lambda>m. getAgentProfile (run_agentId run) (run_owner run) (store m))) (\<lambda>profile.
            case profile of
              None \<Rightarrow> throw_act (AgentProfileMissing (run_agentId run))
            | Some p \<Rightarrow> return_act (Some \<lparr>as_profile = p, as_history = history\<rparr>)))))"

text \<open>\<open>beforeToolCall\<close>: the lease is validated before every tool call.\<close>

definition before_tool_call ::
  "config \<Rightarrow> timestamp \<Rightarrow> string \<Rightarrow> execution \<Rightarrow> tool_call \<Rightarrow> approval_record option act" where
  "before_tool_call cf now aid x call m =
     (if (case ex_lease x of None \<Rightarrow> True | Some l \<Rightarrow> \<not> validateWorkspaceLease now l (store m))
      then (Inl LeaseLost, m)
      else authorizeTool cf now aid (ex_run x) call m)"

text \<open>\<open>content\<close> is the snapshot's JSON value, built from the profile, the tools, the plan and the
  service's configuration; its digest is that of its JSON text.\<close>

definition freezeRunSnapshot ::
  "timestamp \<Rightarrow> (jsval \<Rightarrow> string) \<Rightarrow> execution \<Rightarrow> string option \<Rightarrow> (run_route_plan \<Rightarrow> jsval) \<Rightarrow> unit act" where
  "freezeRunSnapshot now digest x preparedPlanId content m =
     (case ex_attempt x of
        None \<Rightarrow> (Inr (), m)
      | Some a \<Rightarrow>
          (case getRunRoutePlan (run_id (ex_run x)) (att_id a) (store m) of
             None \<Rightarrow> (Inl RouteNotFrozen, m)
           | Some plan \<Rightarrow>
               if preparedPlanId \<noteq> Some (rp_routePlanId plan) then (Inl RouteNotFrozen, m)
               else
                 bind_act (store_act (persistRunSnapshot \<lparr>sn_runId = run_id (ex_run x),
                   sn_attemptId = att_id a, sn_digest = digest (content plan),
                   sn_snapshot = content plan, sn_createdAt = now\<rparr>)) (\<lambda>_.
                 bind_act (store_act (appendEvent now (plain_event (run_id (ex_run x)) RunSnapshotFrozen
                   [(''attemptId'', JStr (att_id a)), (''digest'', JStr (digest (content plan)))])))
                   (\<lambda>_. return_act ())) m))"

section \<open>The end of the body\<close>

definition succeeded_terminal :: terminal where
  "succeeded_terminal = \<lparr>tm_status = SUCCEEDED, tm_type = RunSucceeded, tm_payload = []\<rparr>"

definition coded :: "string \<Rightarrow> string \<Rightarrow> jsobject" where
  "coded c msg = [(''code'', JStr c), (''message'', JStr msg)]"

definition coded_retryable :: "string \<Rightarrow> string \<Rightarrow> bool \<Rightarrow> jsobject" where
  "coded_retryable c msg retry = coded c msg @ [(''retryable'', JBool retry)]"

definition orphaned_terminal :: "string \<Rightarrow> string \<Rightarrow> terminal" where
  "orphaned_terminal c msg = \<lparr>tm_status = ORPHANED, tm_type = RunOrphaned,
     tm_payload = coded_retryable c msg True\<rparr>"

text \<open>The \<open>catch\<close>: the abort reason of the run decides before the error that was thrown;
  \<open>isLeaseLost\<close> and \<open>msg\<close> describe that error.\<close>

definition classify_failure :: "config \<Rightarrow> abort_reason option \<Rightarrow> bool \<Rightarrow> string \<Rightarrow> terminal" where
  "classify_failure cf reason isLeaseLost msg =
     (case reason of
        Some RunCancelledError \<Rightarrow> \<lparr>tm_status = CANCELLED, tm_type = RunCancelled,
          tm_payload = [(''reason'', JStr ''requested'')]\<rparr>
      | Some (RunTimeoutError ms) \<Rightarrow> \<lparr>tm_status = TIMED_OUT, tm_type = RunTimedOut,
          tm_payload = coded_retryable ''run_timeout''
            (''Run exceeded its total timeout of '' @ cf_numtext cf ms @ ''ms'') True\<rparr>
      | Some (BudgetExceededError kind) \<Rightarrow> \<lparr>tm_status = FAILED, tm_type = RunFailed,
          tm_payload = coded_retryable ''budget_exceeded''
            (''Run exceeded its '' @ kind @ '' budget'') False\<rparr>
      | Some WorkspaceLeaseLostError \<Rightarrow> orphaned_terminal ''workspace_lease_lost''
          ''Workspace lease renewal or fencing validation failed''
      | None \<Rightarrow>
          if isLeaseLost then orphaned_terminal ''workspace_lease_lost''
            ''Workspace lease renewal or fencing validation failed''
          else \<lparr>tm_status = FAILED, tm_type = RunFailed, tm_payload = coded ''agent_run_failed'' msg\<rparr>)"

definition abort_reason_of :: "string \<Rightarrow> manager \<Rightarrow> abort_reason option" where
  "abort_reason_of i m = (case map_of (active m) i of Some r \<Rightarrow> r | None \<Rightarrow> None)"

definition body_failed :: "config \<Rightarrow> bool \<Rightarrow> string \<Rightarrow> execution \<Rightarrow> manager \<Rightarrow> execution" where
  "body_failed cf isLeaseLost msg x m = x\<lparr>ex_terminal :=
     Some (classify_failure cf (abort_reason_of (run_id (ex_run x)) m) isLeaseLost msg)\<rparr>"

definition is_lease_lost :: "control_error \<Rightarrow> bool" where
  "is_lease_lost e \<longleftrightarrow> e = LeaseLost \<or> e = Aborted WorkspaceLeaseLostError"

text \<open>After the agent has returned; a failing transition to CHECKPOINTING is caught like any
  other error. \<open>errorText\<close> is the message of an error.\<close>

definition body_returned ::
  "config \<Rightarrow> timestamp \<Rightarrow> (control_error \<Rightarrow> string) \<Rightarrow> execution \<Rightarrow> manager \<Rightarrow> execution \<times> manager" where
  "body_returned cf now errorText x m =
     (if \<not> cf_hasLifecycle cf then (x\<lparr>ex_terminal := Some succeeded_terminal\<rparr>, m)
      else (case transition now (run_id (ex_run x)) CHECKPOINTING RunCheckpointing [] m of
        (Inr _, m') \<Rightarrow> (x\<lparr>ex_terminal := Some succeeded_terminal\<rparr>, m')
      | (Inl e, m') \<Rightarrow> (body_failed cf (is_lease_lost e) (errorText e) x m', m')))"

section \<open>Finalization\<close>

definition needs_checkpoint :: "config \<Rightarrow> execution \<Rightarrow> bool" where
  "needs_checkpoint cf x \<longleftrightarrow> ex_prepared x \<and> ex_lease x \<noteq> None \<and> cf_hasLifecycle cf \<and> ex_terminal x \<noteq> None"

text \<open>What the checkpoint of the workspace answers: the state, whether it was skipped, and the
  digest and size of a snapshot; or an error message. \<open>lost\<close> is a \<open>WorkspaceLeaseLostError\<close>.\<close>

datatype checkpoint_outcome =
    Checkpointed string bool "(string \<times> num) option"
  | CheckpointFailed bool string

text \<open>Before the checkpoint is taken the lease is validated: an invalid one never reaches it.\<close>

definition checkpoint_allowed :: "timestamp \<Rightarrow> execution \<Rightarrow> db \<Rightarrow> bool" where
  "checkpoint_allowed now x d \<longleftrightarrow> (case ex_lease x of
     None \<Rightarrow> False | Some l \<Rightarrow> validateWorkspaceLease now l d)"

definition checkpoint_failed ::
  "timestamp \<Rightarrow> bool \<Rightarrow> string \<Rightarrow> execution \<Rightarrow> execution act" where
  "checkpoint_failed now lost msg x =
     (let i = run_id (ex_run x) in
      bind_act (gets_act (\<lambda>m. getRun i (store m))) (\<lambda>run.
      bind_act (store_act (appendEvent now (plain_event i WorkspaceCheckpointFailed
          [(''workspaceId'', case run of None \<Rightarrow> JUndef | Some r \<Rightarrow> JStr (run_workspaceId r)),
           (''message'', JStr msg)]))) (\<lambda>_.
        return_act
          (if lost \<or> ex_leaseLost x
           then x\<lparr>ex_terminal := Some (orphaned_terminal ''workspace_lease_lost'' msg)\<rparr>
           else if map_option tm_status (ex_terminal x) = Some SUCCEEDED
           then x\<lparr>ex_terminal := Some \<lparr>tm_status = FAILED, tm_type = RunFailed,
                  tm_payload = coded ''workspace_checkpoint_failed'' msg\<rparr>\<rparr>
           else x))))"

text \<open>\<open>allowed\<close> is what \<open>checkpoint_allowed\<close> said before the wait, \<open>errorText\<close> as above: an event
  that cannot be written fails the checkpoint.\<close>

definition finish_checkpoint ::
  "config \<Rightarrow> timestamp \<Rightarrow> (control_error \<Rightarrow> string) \<Rightarrow> bool \<Rightarrow> checkpoint_outcome \<Rightarrow> execution
    \<Rightarrow> execution act" where
  "finish_checkpoint cf now errorText allowed outcome x m =
     (if \<not> needs_checkpoint cf x then (Inr x, m)
      else (case getRun (run_id (ex_run x)) (store m) of
        None \<Rightarrow> (Inr x, m)
      | Some run \<Rightarrow>
          if \<not> allowed
          then checkpoint_failed now True ''Workspace lease was lost'' x m
          else (case outcome of
            CheckpointFailed lost msg \<Rightarrow> checkpoint_failed now lost msg x m
          | Checkpointed st skipped snapshot \<Rightarrow>
              (case store_act (appendEvent now (plain_event (run_id run) WorkspaceCheckpointCompleted
                  ([(''workspaceId'', JStr (run_workspaceId run)), (''state'', JStr st),
                    (''skipped'', JBool skipped)]
                   @ (case snapshot of None \<Rightarrow> []
                      | Some (sha, bytes) \<Rightarrow> [(''sha256'', JStr sha), (''plaintextBytes'', JNum bytes)])))) m of
                 (Inr _, m') \<Rightarrow> (Inr x, m')
               | (Inl e, m') \<Rightarrow> checkpoint_failed now False (errorText e) x m'))))"

text \<open>Releasing the lease, and forgetting the execution.\<close>

definition release_lease_end :: "timestamp \<Rightarrow> execution \<Rightarrow> execution act" where
  "release_lease_end now x m =
     (case ex_lease x of
        None \<Rightarrow> (Inr x, m)
      | Some lease \<Rightarrow>
          bind_act (store_act (releaseWorkspaceLease now lease)) (\<lambda>released.
            if released then
              bind_act (gets_act (\<lambda>m. getRun (run_id (ex_run x)) (store m))) (\<lambda>latest.
                case latest of
                  None \<Rightarrow> return_act x
                | Some run \<Rightarrow> bind_act (store_act (appendEvent now (plain_event (run_id run) WorkspaceLeaseReleased
                    [(''workspaceId'', JStr (run_workspaceId run)),
                     (''fencingToken'', JNum (of_int (ls_fencingToken lease)))]))) (\<lambda>_. return_act x))
            else if map_option tm_status (ex_terminal x) = Some SUCCEEDED
            then return_act (x\<lparr>ex_terminal := Some (orphaned_terminal ''workspace_lease_lost''
                   ''Workspace lease could not be released with the active fencing token'')\<rparr>)
            else return_act x) m)"

definition forget_execution :: "string \<Rightarrow> manager \<Rightarrow> manager" where
  "forget_execution i m = m\<lparr>active := AList.delete i (active m), steering := AList.delete i (steering m)\<rparr>"

datatype release_outcome = Released | CleanupDebtRecorded | ReleaseThrew

definition after_release :: "release_outcome \<Rightarrow> execution \<Rightarrow> execution" where
  "after_release outcome x = (case outcome of
     Released \<Rightarrow> x
   | CleanupDebtRecorded \<Rightarrow> x\<lparr>ex_terminal := Some (orphaned_terminal ''run_cleanup_failed''
       ''Required run cleanup exhausted its retry budget; durable cleanup debt was recorded'')\<rparr>
   | ReleaseThrew \<Rightarrow> x\<lparr>ex_terminal := Some (orphaned_terminal ''run_finalization_failed''
       ''Required run finalization failed before cleanup completion or durable recovery state could be confirmed'')\<rparr>)"

definition final_transition :: "timestamp \<Rightarrow> execution \<Rightarrow> unit act" where
  "final_transition now x m =
     (let i = run_id (ex_run x) in
      case getRun i (store m) of
        None \<Rightarrow> (Inr (), m)
      | Some latest \<Rightarrow>
          if isTerminalRunStatus (run_status latest) then (Inr (), m)
          else (case ex_terminal x of
            Some t \<Rightarrow> transition now i (tm_status t) (tm_type t) (tm_payload t) m
          | None \<Rightarrow>
              if ex_attempt x = None then (Inr (), m)
              else transition now i FAILED RunFailed
                (coded ''run_finalization_failed'' ''Run execution ended without a terminal result'') m))"

text \<open>
  The end of an execution has two segments. The first releases the lease and forgets the execution:
  from then on the run is not active, so that a cancellation no longer goes through its abort
  controller. The second comes after the wait for \<open>releaseRun\<close>, during which everything else may
  happen.
\<close>

definition finalize_begin :: "timestamp \<Rightarrow> execution \<Rightarrow> execution act" where
  "finalize_begin now x =
     bind_act (release_lease_end now x) (\<lambda>x'.
     bind_act (modify_act (forget_execution (run_id (ex_run x)))) (\<lambda>_. return_act x'))"

definition finalize_end :: "timestamp \<Rightarrow> release_outcome \<Rightarrow> execution \<Rightarrow> unit act" where
  "finalize_end now outcome x = final_transition now (after_release outcome x)"

end
