(* ===== verification/ControlSteps.thy ===== *)
theory ControlSteps
  imports ControlExecution
begin

text \<open>
  The coordinator as a state machine: one step per operation and per segment of an execution,
  in any order and with any answers of the awaited operations, clock readings and fresh ids.
  The locale \<open>store_client\<close> states what a relation between coordinator states must promise
  about the single store calls; inside it, every operation and so every step respects the
  relation. It is interpreted with two relations: the histories of the store, and the evolution
  of the statuses of runs.
\<close>

inductive control_step :: "config \<Rightarrow> manager \<Rightarrow> manager \<Rightarrow> bool" for cf where
  create: "service_createRun cf now ids i rq m = (r, m') \<Longrightarrow> control_step cf m m'"
| create_child: "createChildRun cf now ids i crq m = (r, m') \<Longrightarrow> control_step cf m m'"
| steer: "steerRun now mid i instr m = (rr, m') \<Longrightarrow> control_step cf m m'"
| take_steering: "takeSteering i m = (ms, m') \<Longrightarrow> control_step cf m m'"
| cancel: "cancelRun fuel now i m = (rr, m') \<Longrightarrow> control_step cf m m'"
| queue_timeout: "timeoutQueuedRun now i msg m = (u, m') \<Longrightarrow> control_step cf m m'"
| reconcile: "reconcileInterruptedRuns now m = (n, m') \<Longrightarrow> control_step cf m m'"
| resolve: "service_resolveApproval cf t1 t2 t3 i ok m = (ra, m') \<Longrightarrow> control_step cf m m'"
| authorize: "before_tool_call cf now aid x call m = (ra, m') \<Longrightarrow> control_step cf m m'"
| give_up: "give_up_approval now a st m = (u, m') \<Longrightarrow> st \<noteq> PENDING \<Longrightarrow> control_step cf m m'"
| agent_event: "appendAgentEvent cf now mid run e m = (u, m') \<Longrightarrow> control_step cf m m'"
| shutdown: "shutdown_begin fuel now m = (u, m') \<Longrightarrow> control_step cf m m'"
| dispatch: "dispatch cf now run m = (u, m') \<Longrightarrow> control_step cf m m'"
| settle: "m' = settle_execution i m \<Longrightarrow> control_step cf m m'"
| "begin": "execute_begin cf now att i m = (x, m') \<Longrightarrow> control_step cf m m'"
| lease: "lease_round cf now x m = (xo, m') \<Longrightarrow> control_step cf m m'"
| renew: "renew_tick cf now x m = (x', m') \<Longrightarrow> control_step cf m m'"
| prepared: "prepared_workspace cf now restored recovered x m = (xr, m') \<Longrightarrow> control_step cf m m'"
| start: "execute_start now x m = (s, m') \<Longrightarrow> control_step cf m m'"
| freeze: "freezeRunSnapshot now digest x pid content m = (u, m') \<Longrightarrow> control_step cf m m'"
| returned: "body_returned cf now errorText x m = (x', m') \<Longrightarrow> control_step cf m m'"
| checkpoint: "finish_checkpoint cf now errorText allowed out x m = (xr, m') \<Longrightarrow> control_step cf m m'"
| release: "release_lease_end now x m = (xr, m') \<Longrightarrow> control_step cf m m'"
| forget: "m' = forget_execution i m \<Longrightarrow> control_step cf m m'"
| final: "final_transition now x m = (u, m') \<Longrightarrow> control_step cf m m'"
| abort: "m' = abort_run i reason m \<Longrightarrow> control_step cf m m'"

section \<open>What an action does to a relation\<close>

definition advances :: "(manager \<Rightarrow> manager \<Rightarrow> bool) \<Rightarrow> 'a act \<Rightarrow> bool" where
  "advances R f \<longleftrightarrow> (\<forall>m. R m (snd (f m)))"

locale store_client =
  fixes cf :: config and R :: "manager \<Rightarrow> manager \<Rightarrow> bool"
  assumes same_store: "store m' = store m \<Longrightarrow> R m m'"
    and trans: "R m m' \<Longrightarrow> R m' m'' \<Longrightarrow> R m m''"
    and event: "appendEvent now ae (store m) = Inr (e, d) \<Longrightarrow> ae_status ae = None \<Longrightarrow> R m (m\<lparr>store := d\<rparr>)"
    and status: "getRun i (store m) = Some run \<Longrightarrow> assertRunTransition (run_status run) st = Inr () \<Longrightarrow>
      appendEvent now (status_event i st ty p) (store m) = Inr (e, d) \<Longrightarrow> R m (m\<lparr>store := d\<rparr>)"
    and restart: "appendEvent now (restart_event run) (store m) = Inr (e, d) \<Longrightarrow> R m (m\<lparr>store := d\<rparr>)"
    and create: "createOrGetRun (cf_fingerprint cf) now ids i rq (store m) = Inr (rec, d) \<Longrightarrow> R m (m\<lparr>store := d\<rparr>)"
    and message: "appendSessionMessage now am (store m) = Inr (sm, d) \<Longrightarrow> R m (m\<lparr>store := d\<rparr>)"
    and attempt: "createRunAttempt now i att (store m) = Inr (a, d) \<Longrightarrow> R m (m\<lparr>store := d\<rparr>)"
    and attempts_end: "completeRunningAttempts now i st (store m) = Inr (n, d) \<Longrightarrow> R m (m\<lparr>store := d\<rparr>)"
    and acquire: "acquireWorkspaceLease now ws i ttl (store m) = Inr (l, d) \<Longrightarrow> R m (m\<lparr>store := d\<rparr>)"
    and renew: "renewWorkspaceLease now lease ttl (store m) = Inr (l, d) \<Longrightarrow> R m (m\<lparr>store := d\<rparr>)"
    and release: "releaseWorkspaceLease now lease (store m) = Inr (ok, d) \<Longrightarrow> R m (m\<lparr>store := d\<rparr>)"
    and approval: "createApproval r (store m) = Inr (res, d) \<Longrightarrow> R m (m\<lparr>store := d\<rparr>)"
    and resolve: "resolveApprovalAndAppendEvent now i ast digest p (store m) = Inr (res2, d) \<Longrightarrow>
      ast \<noteq> PENDING \<Longrightarrow> R m (m\<lparr>store := d\<rparr>)"
    and snapshot: "persistRunSnapshot sn (store m) = Inr (v, d) \<Longrightarrow> R m (m\<lparr>store := d\<rparr>)"
begin

lemma refl: "R m m"
  by (rule same_store) simp

lemma advances_simple [intro!]:
  "advances R (return_act a)" "advances R (throw_act e)" "advances R (gets_act f)"
  "advances R (lift_result w r)" "advances R (throw_if_aborted i)"
  by (auto simp: advances_def return_act_def throw_act_def gets_act_def lift_result_def
      throw_if_aborted_def refl split: sum.splits option.splits)

lemma advances_modify: "(\<And>m. store (f m) = store m) \<Longrightarrow> advances R (modify_act f)"
  by (simp add: advances_def modify_act_def same_store)

lemma advances_bind [intro!]: "advances R f \<Longrightarrow> (\<And>a. advances R (g a)) \<Longrightarrow> advances R (bind_act f g)"
  unfolding advances_def bind_act_def
  by (auto split: prod.splits sum.splits) (metis snd_conv trans)+

lemma advances_store:
  "(\<And>m a d. f (store m) = Inr (a, d) \<Longrightarrow> R m (m\<lparr>store := d\<rparr>)) \<Longrightarrow> advances R (store_act f)"
  by (auto simp: advances_def store_act_def refl split: sum.splits prod.splits)

lemma advances_prod [intro!]: "(\<And>a b. advances R (f a b)) \<Longrightarrow> advances R (case p of (a, b) \<Rightarrow> f a b)"
  by (cases p) simp

lemma advances_if [intro!]: "advances R f \<Longrightarrow> advances R g \<Longrightarrow> advances R (if b then f else g)"
  by simp

lemma advances_option [intro!]:
  "advances R f \<Longrightarrow> (\<And>a. advances R (g a)) \<Longrightarrow> advances R (case x of None \<Rightarrow> f | Some a \<Rightarrow> g a)"
  by (cases x) simp_all

lemma advances_for_each [intro!]: "(\<And>x. advances R (f x)) \<Longrightarrow> advances R (for_each f xs)"
  by (induction xs) auto

lemma advances_event: "ae_status ae = None \<Longrightarrow> advances R (store_act (appendEvent now ae))"
  by (rule advances_store) (rule event)

lemma plain_event_status [simp]: "ae_status (plain_event i ty p) = None"
  by (simp add: plain_event_def)

lemma advances_calls:
  "advances R (store_act (createOrGetRun (cf_fingerprint cf) now ids i rq))"
  "advances R (store_act (appendSessionMessage now am))"
  "advances R (store_act (createRunAttempt now i att))"
  "advances R (store_act (completeRunningAttempts now i st))"
  "advances R (store_act (acquireWorkspaceLease now ws i ttl))"
  "advances R (store_act (releaseWorkspaceLease now lease))"
  "advances R (store_act (createApproval r))"
  "advances R (store_act (persistRunSnapshot sn))"
  "advances R (store_act (appendEvent now (restart_event run)))"
  "advances R (store_act (appendEvent now (plain_event j ty p)))"
  by (rule advances_store, erule create message attempt attempts_end acquire release approval
      snapshot restart)+
     (rule advances_event, simp)

lemma advances_at: "advances R f \<Longrightarrow> R m (snd (f m))"
  by (simp add: advances_def)

text \<open>The operations.\<close>

lemma advances_report: "advances R (report_to_parent now run st p)"
  by (auto simp: advances_def report_to_parent_def refl event split: option.splits sum.splits)

lemma advances_transition: "advances R (transition now i st ty p)"
  unfolding advances_def
proof
  fix m
  show "R m (snd (transition now i st ty p m))"
  proof (cases "getRun i (store m)")
    case None
    then show ?thesis by (simp add: transition_def refl)
  next
    case (Some run)
    show ?thesis
    proof (cases "assertRunTransition (run_status run) st")
      case (Inl e)
      then show ?thesis using Some by (simp add: transition_def refl split: transition_error.splits)
    next
      case (Inr u)
      have *: "R m' (snd ((if isTerminalRunStatus st then report_to_parent now run st p else return_act ()) m'))" for m'
        by (rule advances_at) (use advances_report in auto)
      show ?thesis
      proof (cases "appendEvent now (status_event i st ty p) (store m)")
        case (Inl e)
        with Some Inr show ?thesis
          by (simp add: transition_def bind_act_def store_act_def refl)
      next
        case ok: (Inr r)
        obtain e d where r: "r = (e, d)" by (cases r)
        have "R m (m\<lparr>store := d\<rparr>)" using status [OF Some] Inr ok r by simp
        from trans [OF this * [of "m\<lparr>store := d\<rparr>"]] Some Inr ok r show ?thesis
          by (simp add: transition_def bind_act_def store_act_def split: if_splits)
      qed
    qed
  qed
qed

lemma advances_transitionIfActive: "advances R (transitionIfActive now i st ty p)"
proof -
  have "advances R (bind_act (transition now i st ty p) (\<lambda>_. return_act True))"
    using advances_transition by blast
  then show ?thesis
    by (auto simp: advances_def transitionIfActive_def refl split: option.splits)
qed

lemma advances_createRun: "advances R (service_createRun cf now ids i rq)"
proof -
  have "advances R (bind_act (store_act (createOrGetRun (cf_fingerprint cf) now ids i rq)) (\<lambda>(run, created).
        bind_act (modify_act (\<lambda>m. if created then m\<lparr>scheduled := set_add (run_id run) (scheduled m)\<rparr> else m))
          (\<lambda>_. return_act \<lparr>rs_runId = run_id run, rs_status = run_status run,
            rs_eventCursor = run_lastSequence run, rs_idempotentReplay = \<not> created\<rparr>)))"
    by (auto intro!: advances_calls advances_modify)
  then show ?thesis by (auto simp: advances_def service_createRun_def refl)
qed

lemma advances_start_child: "advances R (start_child_run cf now ids i parent rq b)"
  unfolding start_child_run_def Let_def
  by (auto intro!: advances_createRun advances_calls split: if_split)

lemma advances_createChildRun: "advances R (createChildRun cf now ids i rq)"
  using advances_start_child
  by (auto simp: advances_def createChildRun_def refl Let_def split: option.splits sum.splits)

lemma advances_steer: "advances R (steerRun now mid i instr)"
proof -
  have "advances R (bind_act (modify_act (\<lambda>m. m\<lparr>steering := AList.update i
                (nullish (map_of (steering m) i) [] @ [\<lparr>mm_role = UserRole, mm_content = instr,
                   mm_toolCalls = None, mm_toolCallId = None\<rparr>]) (steering m)\<rparr>)) (\<lambda>_.
            bind_act (case truthy (run_sessionId run) of
                None \<Rightarrow> return_act ()
              | Some s \<Rightarrow> bind_act (store_act (appendSessionMessage now
                  \<lparr>am_id = mid, am_sessionId = s, am_runId = i, am_role = UserRole,
                   am_content = instr, am_metadata = Some [(''steering'', JBool True)]\<rparr>))
                  (\<lambda>_. return_act ())) (\<lambda>_.
            bind_act (store_act (appendEvent now (plain_event i RunSteered [(''instruction'', JStr instr)])))
              (\<lambda>_. gets_act (\<lambda>m. getRun i (store m))))))" for run
    by (auto intro!: advances_modify advances_calls)
  note body = advances_at [OF this]
  have "R m (snd (steerRun now mid i instr m))" for m
    by (cases "getRun i (store m)") (simp_all add: steerRun_def refl body)
  then show ?thesis by (simp add: advances_def)
qed

lemma store_abort_run [simp]: "store (abort_run i reason m) = store m"
  by (simp add: abort_run_def split: option.split)

lemma advances_cancel: "advances R (cancelRun fuel now i)"
proof (induction fuel arbitrary: i)
  case 0
  show ?case by (simp add: advances_def refl)
next
  case (Suc fuel)
  have "advances R (\<lambda>m. case map_of (active m) i of
                Some _ \<Rightarrow> (Inr (), abort_run i RunCancelledError m)
              | None \<Rightarrow> transition now i CANCELLED RunCancelled [(''reason'', JStr ''requested'')] m)"
    using advances_transition by (auto simp: advances_def same_store split: option.splits)
  then have "advances R (bind_act (for_each (\<lambda>c. bind_act (cancelRun fuel now c) (\<lambda>_. return_act ())) cs)
      (\<lambda>_. bind_act (\<lambda>m. case map_of (active m) i of
                Some _ \<Rightarrow> (Inr (), abort_run i RunCancelledError m)
              | None \<Rightarrow> transition now i CANCELLED RunCancelled [(''reason'', JStr ''requested'')] m)
        (\<lambda>_. gets_act (\<lambda>m. getRun i (store m)))))" for cs
    using Suc.IH by (intro advances_bind advances_for_each advances_simple)
  note body = advances_at [OF this]
  have "R m (snd (cancelRun (Suc fuel) now i m))" for m
    by (cases "getRun i (store m)") (simp_all add: refl body)
  then show ?case by (simp add: advances_def)
qed

lemma advances_timeoutQueued: "advances R (timeoutQueuedRun now i msg)"
  using advances_transition by (auto simp: advances_def timeoutQueuedRun_def refl split: option.splits)

lemma advances_reconcile: "advances R (reconcileInterruptedRuns now)"
proof -
  have "advances R (reconcile_run now run)" for run
    unfolding reconcile_run_def by (auto intro!: advances_calls)
  then have "advances R (bind_act (for_each (reconcile_run now) rs) (\<lambda>_. return_act n))" for rs and n :: nat
    by blast
  then show ?thesis by (auto simp: advances_def reconcileInterruptedRuns_def Let_def)
qed

lemma store_settle_waiter [simp]: "store (settle_waiter i b m) = store m"
  by (simp add: settle_waiter_def)

lemma advances_resolve_as: "st \<noteq> PENDING \<Longrightarrow> advances R (resolve_as now r st)"
  unfolding resolve_as_def by (rule advances_store) (rule resolve)

lemma advances_resolveApproval: "advances R (service_resolveApproval cf t1 t2 t3 i ok)"
proof -
  have "advances R (bind_act (lift_result id b) (\<lambda>bindingValid.
            let st = (if apr_expiresAt existing \<le> t1 then EXPIRED
                      else if bindingValid \<and> ok then APPROVED else DENIED) in
            bind_act (resolve_as t2 existing st) (\<lambda>r1.
            bind_act (if st = APPROVED \<and> is_pending r1 then resolve_as t3 existing EXPIRED
                      else return_act r1) (\<lambda>resolved.
            bind_act (modify_act (settle_waiter i (is_approved resolved))) (\<lambda>_.
              return_act resolved)))))" for b existing
    unfolding Let_def by (auto intro!: advances_resolve_as advances_modify split: if_splits)
  note body = advances_at [OF this]
  have "R m (snd (service_resolveApproval cf t1 t2 t3 i ok m))" for m
    by (cases "getApproval i (store m)") (simp_all add: service_resolveApproval_def refl body)
  then show ?thesis by (simp add: advances_def)
qed

lemma advances_request: "advances R (request_approval cf now i run call g)"
  unfolding request_approval_def
  by (auto intro!: advances_calls advances_modify split: if_split)

lemma advances_authorize: "advances R (authorizeTool cf now i run call)"
  using advances_request by (auto simp: advances_def authorizeTool_def refl split: option.splits)

lemma advances_before_tool: "advances R (before_tool_call cf now aid x call)"
  using advances_authorize by (auto simp: advances_def before_tool_call_def refl)

lemma advances_give_up: "st \<noteq> PENDING \<Longrightarrow> advances R (give_up_approval now r st)"
proof -
  assume "st \<noteq> PENDING"
  then have "advances R (bind_act (resolve_as now r st) (\<lambda>_. modify_act (settle_waiter (apr_id r) False)))"
    by (auto intro!: advances_resolve_as advances_modify)
  then show ?thesis by (auto simp: advances_def give_up_approval_def refl)
qed

lemma store_enforceBudget [simp]: "store (enforceBudget run m) = store m"
  by (simp add: enforceBudget_def split: option.split)

lemma advances_after_agent: "advances R (after_agent_event cf now mid run e)"
  unfolding after_agent_event_def
  by (auto intro!: advances_modify advances_calls split: option.split)

lemma advances_agent_event: "advances R (appendAgentEvent cf now mid run e)"
proof -
  have quiet: "ae_status (agent_append_event run e) = None"
    by (simp add: agent_append_event_def)
  have "R m (snd (after_agent_event cf now mid run e (m\<lparr>store := d\<rparr>)))"
    if "appendEvent now (agent_append_event run e) (store m) = Inr (ev, d)" for m ev d
    using event [OF that quiet] advances_at [OF advances_after_agent] by (blast intro: trans)
  then show ?thesis
    by (auto simp: advances_def appendAgentEvent_def refl split: option.splits sum.splits)
qed

lemma store_fold_waiters [simp]: "store (fold (\<lambda>i. settle_waiter i False) is m) = store m"
  by (induction "is" arbitrary: m) simp_all

lemma advances_shutdown: "advances R (shutdown_begin fuel now)"
proof -
  have "advances R (bind_act (for_each (\<lambda>i. bind_act (cancelRun fuel now i) (\<lambda>_. return_act ())) is) (\<lambda>_.
          modify_act (\<lambda>m. fold (\<lambda>i. settle_waiter i False) (approvalWaiters m) m)))" for "is"
    by (auto intro!: advances_cancel advances_modify)
  from advances_at [OF this] have "R m (snd (bind_act (for_each (\<lambda>i. bind_act (cancelRun fuel now i) (\<lambda>_. return_act ())) is) (\<lambda>_.
          modify_act (\<lambda>m. fold (\<lambda>i. settle_waiter i False) (approvalWaiters m) m)) (m\<lparr>accepting := False\<rparr>)))" for "is" m
    using same_store [of "m\<lparr>accepting := False\<rparr>" m] by (auto intro: trans)
  then show ?thesis by (auto simp: advances_def shutdown_begin_def refl Let_def)
qed

lemma advances_enqueue: "advances R (enqueue cf now run)"
  unfolding enqueue_def
  by (auto intro!: advances_transitionIfActive advances_timeoutQueued advances_modify
      simp: queue_execution_def Let_def split: if_split)

lemma advances_dispatch: "advances R (dispatch cf now run)"
proof -
  have "R m (snd (enqueue cf now run (m\<lparr>scheduled := s\<rparr>)))" for m s
    using same_store [of "m\<lparr>scheduled := s\<rparr>" m] advances_at [OF advances_enqueue] by (auto intro: trans)
  then show ?thesis by (auto simp: advances_def dispatch_def Let_def same_store)
qed

lemma advances_begin: "advances R (execute_begin cf now att i)"
  unfolding execute_begin_def
  by (auto intro!: advances_modify advances_timeoutQueued advances_calls advances_transitionIfActive
     )

lemma advances_lease_round: "advances R (lease_round cf now x)"
  unfolding lease_round_def Let_def
  by (auto intro!: advances_calls split: option.split)

lemma advances_renew: "R m (snd (renew_tick cf now x m))"
proof (cases "ex_lease x")
  case None
  then show ?thesis by (simp add: renew_tick_def refl)
next
  case (Some lease)
  have lost: "R m (abort_run i reason (m\<lparr>store := d\<rparr>))" if "R m (m\<lparr>store := d\<rparr>)" for i reason d
    using that by (rule trans) (rule same_store, simp)
  from Some show ?thesis
    by (auto simp: renew_tick_def refl same_store intro: renew lost split: sum.split option.split)
qed

lemma advances_prepared: "advances R (prepared_workspace cf now restored recovered x)"
  unfolding prepared_workspace_def by (auto intro!: advances_calls split: if_split)

lemma advances_start: "advances R (execute_start now x)"
  unfolding execute_start_def Let_def
  by (auto intro!: advances_transitionIfActive)

lemma advances_freeze: "advances R (freezeRunSnapshot now digest x pid content)"
proof -
  have "advances R (bind_act (store_act (persistRunSnapshot sn)) (\<lambda>_.
      bind_act (store_act (appendEvent now (plain_event j ty p))) (\<lambda>_. return_act ())))" for sn j ty p
    by (auto intro!: advances_calls)
  note body = advances_at [OF this]
  have "R m (snd (freezeRunSnapshot now digest x pid content m))" for m
    by (auto simp: freezeRunSnapshot_def refl body split: option.split)
  then show ?thesis by (simp add: advances_def)
qed

lemma advances_returned: "R m (snd (body_returned cf now errorText x m))"
proof -
  have "R m (snd (transition now i CHECKPOINTING RunCheckpointing [] m))" for i
    by (rule advances_at [OF advances_transition])
  then show ?thesis
    by (auto simp: body_returned_def refl split: prod.split sum.split)
       (metis snd_conv)+
qed

lemma advances_checkpoint_failed: "advances R (checkpoint_failed now lost msg x)"
  unfolding checkpoint_failed_def Let_def by (auto intro!: advances_calls)

lemma advances_checkpoint: "advances R (finish_checkpoint cf now errorText allowed out x)"
proof -
  have "R m (snd (case store_act (appendEvent now (plain_event j ty p)) m of
                 (Inr u, m') \<Rightarrow> (Inr x, m')
               | (Inl e, m') \<Rightarrow> checkpoint_failed now False (errorText e) x m'))" for m j ty p
  proof -
    have "R m (snd (store_act (appendEvent now (plain_event j ty p)) m))"
      by (rule advances_at) (rule advances_event, simp)
    then show ?thesis
      using advances_at [OF advances_checkpoint_failed]
      by (auto split: prod.split sum.split intro: trans)
  qed
  then show ?thesis
    using advances_checkpoint_failed
    by (auto simp: advances_def finish_checkpoint_def refl split: option.splits checkpoint_outcome.splits)
qed

lemma advances_release: "advances R (release_lease_end now x)"
proof -
  have "advances R (bind_act (store_act (releaseWorkspaceLease now lease)) (\<lambda>released.
            if released then
              bind_act (gets_act (\<lambda>m. getRun (run_id (ex_run x)) (store m))) (\<lambda>latest.
                case latest of
                  None \<Rightarrow> return_act x
                | Some run \<Rightarrow> bind_act (store_act (appendEvent now (plain_event (run_id run) WorkspaceLeaseReleased
                    [(''workspaceId'', JStr (run_workspaceId run)),
                     (''fencingToken'', JNum (of_int (ls_fencingToken lease)))]))) (\<lambda>_. return_act x))
            else if map_option tm_status (ex_terminal x) = Some SUCCEEDED
            then return_act (x\<lparr>ex_terminal := Some (orphaned_terminal ''workspace_lease_lost''
                   ''Workspace lease could not be released with the active fencing token'')\<rparr>)
            else return_act x))" for lease
    by (auto intro!: advances_calls)
  note body = advances_at [OF this]
  have "R m (snd (release_lease_end now x m))" for m
    by (cases "ex_lease x") (simp_all add: release_lease_end_def refl body)
  then show ?thesis by (simp add: advances_def)
qed

lemma advances_final: "advances R (final_transition now x)"
  using advances_transition
  by (auto simp: advances_def final_transition_def refl Let_def split: option.splits)

lemma step: "control_step cf m m' \<Longrightarrow> R m m'"
proof (induction rule: control_step.induct)
  case (settle m' i m)
  then show ?case by (simp add: same_store settle_execution_def)
next
  case (forget m' i m)
  then show ?case by (simp add: same_store forget_execution_def)
next
  case (abort m' i reason m)
  then show ?case by (simp add: same_store)
next
  case (take_steering i m ms m')
  then show ?case by (auto simp: takeSteering_def intro: same_store)
qed (metis snd_conv advances_at advances_createRun advances_createChildRun advances_steer
    advances_cancel advances_timeoutQueued advances_reconcile advances_resolveApproval
    advances_before_tool advances_give_up advances_agent_event advances_shutdown advances_dispatch
    advances_begin advances_lease_round advances_renew advances_prepared advances_start
    advances_freeze advances_returned advances_checkpoint advances_release advances_final)+

lemma steps: "(control_step cf)\<^sup>*\<^sup>* m m' \<Longrightarrow> R m m'"
  by (induction rule: rtranclp_induct) (blast intro: refl trans step)+

end

end
