(* ===== verification/ControlProperties.thy ===== *)
theory ControlProperties
  imports ControlSteps StoreTheorems
begin

text \<open>
  The two interpretations of \<open>store_client\<close> on the coordinator, and the properties of its
  operations: statuses follow the state machine, finished executions leave finished runs, a
  restart leaves no run open, approvals are decided by current bindings only.
\<close>

section \<open>Histories of the store\<close>

definition store_history :: "config \<Rightarrow> manager \<Rightarrow> manager \<Rightarrow> bool" where
  "store_history cf m m' \<longleftrightarrow> (store_step (cf_fingerprint cf))\<^sup>*\<^sup>* (store m) (store m')"

lemma store_history_step: "store_step (cf_fingerprint cf) (store m) d \<Longrightarrow> store_history cf m (m\<lparr>store := d\<rparr>)"
  by (simp add: store_history_def)

interpretation coordinator_store: store_client cf "store_history cf" for cf
proof unfold_locales
  show "store m' = store m \<Longrightarrow> store_history cf m m'" for m m' by (simp add: store_history_def)
  show "store_history cf m m' \<Longrightarrow> store_history cf m' m'' \<Longrightarrow> store_history cf m m''" for m m' m''
    by (simp add: store_history_def)
  show "createOrGetRun (cf_fingerprint cf) now ids i rq (store m) = Inr (rec, d) \<Longrightarrow>
      store_history cf m (m\<lparr>store := d\<rparr>)" for now ids i rq m rec d
    by (cases rec) (auto intro: store_history_step store_step.create)
qed (auto intro!: store_history_step
    intro: store_step.append store_step.message store_step.other_record record_step.create_attempt
      record_step.complete_running store_step.acquire store_step.renew store_step.release
      record_step.create_approval store_step.resolve record_step.persist_snapshot)

section \<open>Evolution of run statuses\<close>

definition run_state :: "string \<Rightarrow> db \<Rightarrow> run_status option" where
  "run_state i d = map_option run_status (getRun i d)"

text \<open>The transitions of the machine, and the one a restart forces.\<close>

definition status_step :: "run_status \<Rightarrow> run_status \<Rightarrow> bool" where
  "status_step a b \<longleftrightarrow> run_step a b \<or> \<not> isTerminalRunStatus a \<and> b = ORPHANED"

definition statuses_evolve :: "db \<Rightarrow> db \<Rightarrow> bool" where
  "statuses_evolve d d' \<longleftrightarrow> (\<forall>i a. run_state i d = Some a \<longrightarrow>
     (\<exists>b. run_state i d' = Some b \<and> status_step\<^sup>*\<^sup>* a b))"

lemma run_state_row: "run_state i d = map_option rr_status (find_run i d)"
  by (simp add: run_state_def getRun_def option.map_comp comp_def toRunRecord_def)

lemma statuses_evolve_runs: "runs d' = runs d \<Longrightarrow> statuses_evolve d d'"
  unfolding statuses_evolve_def run_state_row by (metis find_run_cong rtranclp.rtrancl_refl)

lemma statuses_evolve_trans: "statuses_evolve a b \<Longrightarrow> statuses_evolve b c \<Longrightarrow> statuses_evolve a c"
  unfolding statuses_evolve_def by (meson rtranclp_trans)

lemma appendEvent_run_state:
  assumes "appendEvent now ae d = Inr (e, d')"
  shows "run_state i d' = (if i = ae_runId ae then map_option (\<lambda>s. nullish (ae_status ae) s) (run_state i d)
      else run_state i d)"
    and "run_state (ae_runId ae) d \<noteq> None"
    and "\<forall>s. run_state (ae_runId ae) d = Some s \<longrightarrow> isTerminalRunStatus s \<longrightarrow> detached_summary ae d"
proof -
  from assms obtain row where row: "find_run (ae_runId ae) d = Some row"
    and guard: "isTerminalRunStatus (rr_status row) \<Longrightarrow> detached_summary ae d"
    and runs: "runs d' = update_rows (\<lambda>r. rr_id r = ae_runId ae)
           (update_run_for_event now ae (rr_last_sequence row + 1)) (runs d)"
    by (rule appendEvent_cases) blast
  have "find_run i d' = map_option (\<lambda>r. if rr_id r = ae_runId ae
      then update_run_for_event now ae (rr_last_sequence row + 1) r else r) (find_run i d)"
    by (simp add: find_run_def runs find_update_rows)
  then show "run_state i d' = (if i = ae_runId ae then map_option (\<lambda>s. nullish (ae_status ae) s) (run_state i d)
      else run_state i d)"
    by (cases "find_run i d") (auto simp: run_state_row dest: find_run_SomeD)
  show "run_state (ae_runId ae) d \<noteq> None" by (simp add: run_state_row row)
  show "\<forall>s. run_state (ae_runId ae) d = Some s \<longrightarrow> isTerminalRunStatus s \<longrightarrow> detached_summary ae d"
    using guard by (simp add: run_state_row row)
qed

lemma appendEvent_evolves:
  assumes "appendEvent now ae d = Inr (e, d')"
    and "\<And>a st. run_state (ae_runId ae) d = Some a \<Longrightarrow> ae_status ae = Some st \<Longrightarrow> status_step a st"
  shows "statuses_evolve d d'"
  unfolding statuses_evolve_def
proof (intro allI impI)
  fix i a assume a: "run_state i d = Some a"
  show "\<exists>b. run_state i d' = Some b \<and> status_step\<^sup>*\<^sup>* a b"
  proof (cases "i = ae_runId ae")
    case True
    with a assms(2) show ?thesis
      by (cases "ae_status ae") (auto simp: appendEvent_run_state(1) [OF assms(1)])
  next
    case False
    with a show ?thesis by (simp add: appendEvent_run_state(1) [OF assms(1)])
  qed
qed

lemma create_run_evolves: "create_run now ids fp i rq d = Inr (row, d') \<Longrightarrow> statuses_evolve d d'"
  by (erule create_run_cases)
     (auto simp: statuses_evolve_def run_state_row find_run_def find_append)

lemma resolveApprovalAndAppendEvent_plain:
  assumes "resolveApprovalAndAppendEvent now i st digest payload d = Inr (res, d')"
  obtains (quiet) changed where "resolve_within now i st digest d = (changed, d')"
  | (logged) d1 j e where "resolve_within now i st digest d = (True, d1)"
      "appendEvent now (plain_event j ApprovalResolved payload) d1 = Inr (e, d')"
  using assms
  by (auto simp: resolveApprovalAndAppendEvent_def result_simps split: prod.splits option.splits if_splits)

lemma record_step_evolves: "record_step d d' \<Longrightarrow> statuses_evolve d d'"
  by (auto dest: record_step_frame intro: statuses_evolve_runs)

interpretation coordinator_statuses: store_client cf "\<lambda>m m'. statuses_evolve (store m) (store m')" for cf
proof unfold_locales
  fix m m' m'' :: manager
  show "store m' = store m \<Longrightarrow> statuses_evolve (store m) (store m')" by (simp add: statuses_evolve_runs)
  show "statuses_evolve (store m) (store m') \<Longrightarrow> statuses_evolve (store m') (store m'') \<Longrightarrow>
      statuses_evolve (store m) (store m'')" by (rule statuses_evolve_trans)
next
  fix now ae m e d
  assume "appendEvent now ae (store m) = Inr (e, d)" "ae_status ae = None"
  then show "statuses_evolve (store m) (store (m\<lparr>store := d\<rparr>))" by (auto intro: appendEvent_evolves)
next
  fix i m run st now ty p e d
  assume *: "getRun i (store m) = Some run" "assertRunTransition (run_status run) st = Inr ()"
    "appendEvent now (status_event i st ty p) (store m) = Inr (e, d)"
  from *(3) show "statuses_evolve (store m) (store (m\<lparr>store := d\<rparr>))"
    by (simp, elim appendEvent_evolves)
       (use *(1,2) in \<open>auto simp: status_event_def run_state_def status_step_def intro: run_stepI\<close>)
next
  fix now run m e d
  assume *: "appendEvent now (restart_event run) (store m) = Inr (e, d)"
  have "\<not> isTerminalRunStatus a" if "run_state (run_id run) (store m) = Some a" for a
    using appendEvent_run_state(3) [OF *] that by (auto simp: restart_event_def detached_summary_def)
  with * show "statuses_evolve (store m) (store (m\<lparr>store := d\<rparr>))"
    by (simp, elim appendEvent_evolves) (auto simp: restart_event_def status_step_def)
next
  fix now ids i rq m rec d
  assume *: "createOrGetRun (cf_fingerprint cf) now ids i rq (store m) = Inr (rec, d)"
  obtain r c where rec: "rec = (r, c)" by (cases rec)
  from *[unfolded rec] show "statuses_evolve (store m) (store (m\<lparr>store := d\<rparr>))"
    by (cases rule: createOrGetRun_cases) (auto intro: create_run_evolves statuses_evolve_runs)
next
  fix now am m sm d
  assume "appendSessionMessage now am (store m) = Inr (sm, d)"
  from appendSessionMessage_frame [OF this] show "statuses_evolve (store m) (store (m\<lparr>store := d\<rparr>))"
    by (metis frame_runs(2) manager.select_convs(1) manager.surjective manager.update_convs(1) statuses_evolve_runs)
next
  fix now ws i ttl m l d
  assume "acquireWorkspaceLease now ws i ttl (store m) = Inr (l, d)"
  from acquire_frame [OF this] show "statuses_evolve (store m) (store (m\<lparr>store := d\<rparr>))"
    by (metis frame_runs(1) manager.select_convs(1) manager.surjective manager.update_convs(1) statuses_evolve_runs)
next
  fix now lease ttl m l d
  assume "renewWorkspaceLease now lease ttl (store m) = Inr (l, d)"
  from renew_frame [OF this] show "statuses_evolve (store m) (store (m\<lparr>store := d\<rparr>))"
    by (metis frame_runs(1) manager.select_convs(1) manager.surjective manager.update_convs(1) statuses_evolve_runs)
next
  fix now lease m ok d
  assume "releaseWorkspaceLease now lease (store m) = Inr (ok, d)"
  from release_frame [OF this] show "statuses_evolve (store m) (store (m\<lparr>store := d\<rparr>))"
    by (metis frame_runs(1) manager.select_convs(1) manager.surjective manager.update_convs(1) statuses_evolve_runs)
next
  fix now i ast digest p m res2 d
  assume "resolveApprovalAndAppendEvent now i ast digest p (store m) = Inr (res2, d)"
  then show "statuses_evolve (store m) (store (m\<lparr>store := d\<rparr>))"
  proof (cases rule: resolveApprovalAndAppendEvent_plain)
    case (quiet changed)
    from resolve_within_frame [OF this] show ?thesis
      by (metis frame_runs(3) manager.select_convs(1) manager.surjective manager.update_convs(1) statuses_evolve_runs)
  next
    case (logged d1 j e)
    from resolve_within_frame [OF logged(1)] have "statuses_evolve (store m) d1"
      by (metis frame_runs(3) statuses_evolve_runs)
    moreover have "statuses_evolve d1 d"
      using logged(2) by (rule appendEvent_evolves) (simp add: plain_event_def)
    ultimately show ?thesis by (simp add: statuses_evolve_trans [of _ d1])
  qed
qed (auto intro!: record_step_evolves intro: record_step.create_attempt record_step.complete_running
    record_step.create_approval record_step.persist_snapshot)

section \<open>Every run follows the state machine\<close>

fun status_path :: "run_status \<Rightarrow> run_status list \<Rightarrow> bool" where
  "status_path a [] = True"
| "status_path a (b # bs) = (status_step a b \<and> status_path b bs)"

lemma status_step_phase: "status_step a b \<Longrightarrow> phase a < phase b"
  by (cases a) (auto simp: status_step_def dest: run_step_phase)

lemma status_path_length: "status_path a bs \<Longrightarrow> length bs + phase a \<le> 5"
proof (induction bs arbitrary: a)
  case Nil
  show ?case by (cases a) auto
next
  case (Cons b bs)
  then have "phase a < phase b" and "length bs + phase b \<le> 5" by (auto dest: status_step_phase)
  then show ?case by simp
qed

lemma status_path_snoc: "status_path a (bs @ [b]) \<longleftrightarrow> status_path a bs \<and> status_step (last (a # bs)) b"
  by (induction bs arbitrary: a) auto

lemma steps_path: "status_step\<^sup>*\<^sup>* a b \<Longrightarrow> \<exists>bs. status_path a bs \<and> last (a # bs) = b"
proof (induction rule: rtranclp_induct)
  case base
  show ?case by (intro exI [of _ "[]"]) simp
next
  case (step y z)
  then obtain bs where "status_path a bs" "last (a # bs) = y" by blast
  with step(2) show ?case by (intro exI [of _ "bs @ [z]"]) (simp add: status_path_snoc)
qed

lemma terminal_status_path: "status_path a bs \<Longrightarrow> isTerminalRunStatus a \<Longrightarrow> bs = []"
  by (cases bs; cases a) (auto simp: status_step_def run_step_allowed)

lemma status_path_running:
  "status_path a bs \<Longrightarrow> SUCCEEDED \<in> set bs \<Longrightarrow> a \<noteq> RUNNING \<Longrightarrow> a \<noteq> CHECKPOINTING \<Longrightarrow> RUNNING \<in> set bs"
proof (induction bs arbitrary: a)
  case (Cons b bs)
  then have ab: "status_step a b" and path: "status_path b bs" by auto
  show ?case
  proof (cases "b = RUNNING")
    case False
    have "b \<noteq> SUCCEEDED" and "b \<noteq> CHECKPOINTING"
      using ab Cons.prems(3,4)
      by (auto simp: status_step_def dest: step_to_succeeded step_to_checkpointing)
    then have "RUNNING \<in> set bs" using Cons.IH [OF path] Cons.prems(2) False by auto
    then show ?thesis by simp
  qed simp
qed simp

text \<open>C3: Whatever the coordinator does, in any order (creating, cancelling, timing out, executing,
  finalizing, shutting down, reconciling after a restart, with any answers of agents, leases,
  checkpoints and clocks), the status of a run only moves along the transition table, but for
  the ORPHANED that a restart forces on an open run: it changes at most five times, never again
  once it is terminal, and becomes SUCCEEDED only by way of RUNNING.\<close>

theorem run_follows_state_machine:
  assumes "(control_step cf)\<^sup>*\<^sup>* m m'" and "run_state i (store m) = Some a"
  shows "\<exists>bs. run_state i (store m') = Some (last (a # bs)) \<and> status_path a bs
    \<and> length bs + phase a \<le> 5 \<and> (isTerminalRunStatus a \<longrightarrow> bs = [])
    \<and> (SUCCEEDED \<in> set bs \<longrightarrow> a \<in> {RUNNING, CHECKPOINTING} \<or> RUNNING \<in> set bs)"
proof -
  have "statuses_evolve (store m) (store m')" using assms(1) by (rule coordinator_statuses.steps)
  with assms(2) obtain b where b: "run_state i (store m') = Some b" "status_step\<^sup>*\<^sup>* a b"
    by (auto simp: statuses_evolve_def)
  from steps_path [OF b(2)] obtain bs where "status_path a bs" "last (a # bs) = b" by blast
  note bs = this
  have "run_state i (store m') = Some (last (a # bs))" using b(1) bs(2) by simp
  moreover have "SUCCEEDED \<in> set bs \<longrightarrow> a \<in> {RUNNING, CHECKPOINTING} \<or> RUNNING \<in> set bs"
    using status_path_running [OF bs(1)] by blast
  ultimately show ?thesis
    using status_path_length [OF bs(1)] terminal_status_path [OF bs(1)] bs(1) by blast
qed

definition example_config :: config where
  "example_config = \<lparr>cf_sha256 = id, cf_numtext = (\<lambda>n. nat_digits (nat \<lfloor>n\<rfloor>)), cf_iso = (\<lambda>t. nat_digits (nat t)),
     cf_text = (\<lambda>v. nullish (as_string v) []), cf_event_bytes = (\<lambda>e. 100), cf_fingerprint = example_fp,
     cf_maxSubagentDepth = 3, cf_approvalTimeoutMs = 1000, cf_approvalRouteGeneration = (\<lambda>r. ''r1''),
     cf_requiresApproval = (\<lambda>c r. tc_name c = ''exec''), cf_workspaceLeaseTtlMs = 60000,
     cf_hasLifecycle = False\<rparr>"

definition manager_of :: "db \<Rightarrow> manager" where
  "manager_of d = \<lparr>store = d, accepting = True, active = [], steering = [], approvalWaiters = [],
     settledWaiters = [], scheduled = [], queueTails = [], executions = []\<rparr>"

definition mgr1 :: manager where
  "mgr1 = snd (service_createRun example_config 10 (example_ids ''1'') ''run_1'' example_request (manager_of empty_db))"

definition mgr2 :: manager where "mgr2 = snd (cancelRun 3 20 ''run_1'' mgr1)"

theorem run_follows_state_machine_witness:
  "\<exists>bs. run_state ''run_1'' (store mgr2) = Some (last (ACCEPTED # bs)) \<and> status_path ACCEPTED bs
     \<and> run_state ''run_1'' (store mgr2) = Some CANCELLED"
proof -
  have "control_step example_config mgr1 mgr2"
    by (rule control_step.cancel [of 3 20 "''run_1''" _ "fst (cancelRun 3 20 ''run_1'' mgr1)"])
       (simp add: mgr2_def)
  moreover have "run_state ''run_1'' (store mgr1) = Some ACCEPTED"
    "run_state ''run_1'' (store mgr2) = Some CANCELLED" by code_simp+
  ultimately show ?thesis
    using run_follows_state_machine [OF r_into_rtranclp, of example_config mgr1 mgr2 "''run_1''" ACCEPTED]
    by blast
qed

section \<open>When an event can be appended\<close>

lemma appendEvent_succeeds:
  assumes "runs_inv d" and "run_state (ae_runId ae) d = Some s" and "\<not> isTerminalRunStatus s"
    and "ae_type ae \<noteq> SubagentCompleted"
  obtains e d' where "appendEvent now ae d = Inr (e, d')"
proof -
  from assms(2) obtain row where row: "find_run (ae_runId ae) d = Some row" "rr_status row = s"
    by (auto simp: run_state_row)
  then have mem: "row \<in> set (runs d)" "rr_id row = ae_runId ae" by (auto dest: find_run_SomeD)
  with assms(1) have log: "map ev_sequence (run_log (ae_runId ae) d) = [1..rr_last_sequence row]"
    by (auto simp: runs_inv_def log_numbered_def)
  have "ev_sequence x \<noteq> rr_last_sequence row + 1" if "x \<in> set (run_events d)" "ev_runId x = ae_runId ae" for x
  proof -
    have "ev_sequence x \<in> set (map ev_sequence (run_log (ae_runId ae) d))"
      using that by (simp add: run_log_def)
    then show ?thesis unfolding log by simp
  qed
  then have "\<exists>d1. insert_event (new_event now ae row) d = Inr d1"
    by (auto simp: insert_event_def new_event_def insert_row_def list_ex_iff)
  then obtain d1 where "insert_event (new_event now ae row) d = Inr d1" by blast
  with row assms(3,4) show thesis
    by (intro that) (auto simp: appendEvent_def Let_def)
qed

lemma act_bind_ok: "f m = (Inr a, m') \<Longrightarrow> bind_act f g m = g a m'"
  by (simp add: bind_act_def)

lemma nullish_None_ident [simp]: "nullish None = (\<lambda>d. d)"
  by (simp add: fun_eq_iff)

lemma report_to_parent_state:
  "run_state i (store (snd (report_to_parent now run st p m))) = run_state i (store m)"
  by (auto simp: report_to_parent_def appendEvent_run_state(1) plain_event_def option.map_ident
      split: option.splits sum.splits)

lemma report_to_parent_active: "active (snd (report_to_parent now run st p m)) = active m"
  by (auto simp: report_to_parent_def split: option.splits sum.splits)

text \<open>A transition that the table allows takes effect, whatever becomes of the parent's summary.\<close>

lemma transition_state:
  assumes "runs_inv (store m)" and "run_state i (store m) = Some s" and "run_step s st"
    and "ty \<noteq> SubagentCompleted"
  shows "run_state i (store (snd (transition now i st ty p m))) = Some st"
    and "active (snd (transition now i st ty p m)) = active m"
proof -
  have open_run: "\<not> isTerminalRunStatus s"
    using assms(3) by (auto simp: run_step_allowed terminal_no_transition)
  from assms(2) obtain run where run: "getRun i (store m) = Some run" "run_status run = s"
    by (auto simp: run_state_def)
  obtain e d where ok: "appendEvent now (status_event i st ty p) (store m) = Inr (e, d)"
    using appendEvent_succeeds [OF assms(1), of "status_event i st ty p" s now] assms(2,4) open_run
    by (auto simp: status_event_def)
  have "run_state i d = Some st"
    using appendEvent_run_state(1) [OF ok, of i] assms(2) by (simp add: status_event_def)
  moreover have "assertRunTransition s st = Inr ()" using assms(3) by (simp add: run_step_iff)
  ultimately show "run_state i (store (snd (transition now i st ty p m))) = Some st"
    and "active (snd (transition now i st ty p m)) = active m"
    using run ok
    by (simp_all add: transition_def bind_act_def store_act_def return_act_def
        report_to_parent_state report_to_parent_active)
qed

lemma final_transition_state:
  assumes "runs_inv (store m)" and "run_state (run_id (ex_run x)) (store m) = Some s"
    and "\<not> isTerminalRunStatus s" and "ex_attempt x \<noteq> None"
    and "\<And>t. ex_terminal x = Some t \<Longrightarrow> run_step s (tm_status t) \<and> tm_type t \<noteq> SubagentCompleted"
  shows "run_state (run_id (ex_run x)) (store (snd (final_transition now x m)))
      = Some (case ex_terminal x of Some t \<Rightarrow> tm_status t | None \<Rightarrow> FAILED)"
    and "active (snd (final_transition now x m)) = active m"
proof -
  from assms(2,3) obtain latest where "getRun (run_id (ex_run x)) (store m) = Some latest"
    "\<not> isTerminalRunStatus (run_status latest)" by (auto simp: run_state_def)
  then show "run_state (run_id (ex_run x)) (store (snd (final_transition now x m)))
      = Some (case ex_terminal x of Some t \<Rightarrow> tm_status t | None \<Rightarrow> FAILED)"
    and "active (snd (final_transition now x m)) = active m"
    using assms(4,5) nonterminal_can_fail [OF assms(3)]
    by (auto simp: final_transition_def Let_def split: option.split
        intro!: transition_state [OF assms(1,2)])
qed

text \<open>What releasing the lease leaves behind.\<close>

lemma release_lease_end_outcome:
  assumes "runs_inv (store m)" and "run_state (run_id (ex_run x)) (store m) = Some s"
    and "\<not> isTerminalRunStatus s"
  obtains x' m' where "release_lease_end now x m = (Inr x', m')" "runs_inv (store m')"
    "run_state (run_id (ex_run x)) (store m') = Some s" "active m' = active m"
    "ex_run x' = ex_run x" "ex_attempt x' = ex_attempt x"
    "ex_terminal x' = ex_terminal x
      \<or> map_option tm_status (ex_terminal x) = Some SUCCEEDED
        \<and> map_option tm_status (ex_terminal x') = Some ORPHANED
        \<and> map_option tm_type (ex_terminal x') = Some RunOrphaned"
    "map_option tm_status (ex_terminal x') = Some SUCCEEDED \<longrightarrow>
      (\<forall>l. ex_lease x = Some l \<longrightarrow> fst (projr (releaseWorkspaceLease now l (store m))))"
proof (cases "ex_lease x")
  case None
  then show thesis using assms by (intro that [of x m]) (auto simp: release_lease_end_def)
next
  case (Some l)
  obtain ok d where r: "releaseWorkspaceLease now l (store m) = Inr (ok, d)"
    by (auto simp: releaseWorkspaceLease_def Let_def)
  have same: "runs d = runs (store m)" "run_events d = run_events (store m)"
    using frame_runs(1) [OF release_frame [OF r]] by auto
  then have inv: "runs_inv d" and st: "run_state (run_id (ex_run x)) d = Some s"
    using assms(1,2) by (auto intro: runs_inv_cong simp: run_state_row find_run_def)
  let ?m = "m\<lparr>store := d\<rparr>"
  show thesis
  proof (cases ok)
    case True
    from st obtain run where run: "getRun (run_id (ex_run x)) d = Some run" by (auto simp: run_state_def)
    then have rid: "run_id run = run_id (ex_run x)"
      by (auto simp: getRun_def toRunRecord_def dest: find_run_SomeD)
    let ?e = "plain_event (run_id run) WorkspaceLeaseReleased [(''workspaceId'', JStr (run_workspaceId run)),
                     (''fencingToken'', JNum (of_int (ls_fencingToken l)))]"
    obtain e d2 where e: "appendEvent now ?e d = Inr (e, d2)"
      by (rule appendEvent_succeeds [OF inv _ assms(3), of ?e now]) (simp_all add: plain_event_def rid st)
    have "run_state (run_id (ex_run x)) d2 = Some s"
      using appendEvent_run_state(1) [OF e] st by (simp add: plain_event_def rid)
    then show thesis
      using Some r True run e appendEvent_runs_inv [OF inv e]
      by (intro that [of x "?m\<lparr>store := d2\<rparr>"])
         (auto simp: release_lease_end_def bind_act_def store_act_def gets_act_def return_act_def)
  next
    case False
    let ?x = "if map_option tm_status (ex_terminal x) = Some SUCCEEDED
      then x\<lparr>ex_terminal := Some (orphaned_terminal ''workspace_lease_lost''
        ''Workspace lease could not be released with the active fencing token'')\<rparr> else x"
    show thesis
      using Some r False inv st
      by (intro that [of ?x ?m])
         (auto simp: release_lease_end_def bind_act_def store_act_def return_act_def orphaned_terminal_def
           split: if_splits)
  qed
qed

section \<open>Executions end in finished runs\<close>

lemma status_steps_open:
  assumes "status_step\<^sup>*\<^sup>* a b" and "a = RUNNING \<or> a = CHECKPOINTING"
  shows "b = a \<or> b = CHECKPOINTING \<or> isTerminalRunStatus b"
  using assms(1)
proof (induction rule: rtranclp_induct)
  case (step y z)
  with assms(2) show ?case by (cases z; cases y) (auto simp: status_step_def run_step_allowed)
qed simp

text \<open>What the terminal of an execution is when its end begins, and what becomes of it.\<close>

lemma final_terminal_step:
  assumes "s = RUNNING \<or> s = CHECKPOINTING \<and> map_option tm_status (ex_terminal x) \<in>
      {None, Some SUCCEEDED, Some FAILED, Some ORPHANED}"
    and "\<forall>t. ex_terminal x = Some t \<longrightarrow> isTerminalRunStatus (tm_status t) \<and> tm_type t \<noteq> SubagentCompleted"
    and "ex_terminal x' = ex_terminal x
      \<or> map_option tm_status (ex_terminal x) = Some SUCCEEDED
        \<and> map_option tm_status (ex_terminal x') = Some ORPHANED
        \<and> map_option tm_type (ex_terminal x') = Some RunOrphaned"
    and "ex_terminal (after_release out x') = Some t"
  shows "run_step s (tm_status t) \<and> tm_type t \<noteq> SubagentCompleted \<and> isTerminalRunStatus (tm_status t)"
proof (cases "out = Released")
  case True
  with assms(4) have t: "ex_terminal x' = Some t" by (simp add: after_release_def)
  have "isTerminalRunStatus (tm_status t) \<and> tm_type t \<noteq> SubagentCompleted
      \<and> (s = CHECKPOINTING \<longrightarrow> tm_status t \<in> {SUCCEEDED, FAILED, ORPHANED})"
    using assms(1,2,3) t by auto
  then show ?thesis
    using assms(1) by (cases "tm_status t") (auto simp: run_step_allowed)
next
  case False
  with assms(4) have "tm_status t = ORPHANED \<and> tm_type t = RunOrphaned"
    by (cases out) (auto simp: after_release_def orphaned_terminal_def)
  then show ?thesis using assms(1) by (auto simp: run_step_allowed)
qed

lemma finalize_end_outcome:
  assumes inv: "runs_inv (store m2)" and between: "run_state (run_id (ex_run x)) (store m2) = Some between"
    and open_state: "isTerminalRunStatus between \<or> between = s \<and> \<not> isTerminalRunStatus s"
    and x: "run_id (ex_run x) = run_id (ex_run x')" "ex_attempt x' \<noteq> None"
    and terminal: "\<And>t. ex_terminal (after_release out x') = Some t \<Longrightarrow>
      run_step s (tm_status t) \<and> tm_type t \<noteq> SubagentCompleted \<and> isTerminalRunStatus (tm_status t)"
  obtains b where "run_state (run_id (ex_run x)) (store (snd (finalize_end later out x' m2))) = Some b"
    "isTerminalRunStatus b" "isTerminalRunStatus between \<Longrightarrow> b = between"
    "\<not> isTerminalRunStatus between \<Longrightarrow> out \<noteq> Released \<Longrightarrow> b = ORPHANED"
    "\<not> isTerminalRunStatus between \<Longrightarrow> b = SUCCEEDED \<Longrightarrow> map_option tm_status (ex_terminal x') = Some SUCCEEDED"
proof (cases "isTerminalRunStatus between")
  case True
  obtain latest where "getRun (run_id (ex_run x)) (store m2) = Some latest" "run_status latest = between"
    using between by (auto simp: run_state_def)
  moreover have "run_id (ex_run (after_release out x')) = run_id (ex_run x)" by (cases out) (simp_all add: x after_release_def)
  ultimately have "finalize_end later out x' m2 = (Inr (), m2)" using True by (simp add: finalize_end_def final_transition_def)
  with between True show thesis by (intro that) auto
next
  case False
  let ?x = "after_release out x'" and ?b = "case ex_terminal (after_release out x') of Some t \<Rightarrow> tm_status t | None \<Rightarrow> FAILED"
  have same: "run_id (ex_run ?x) = run_id (ex_run x)" "ex_attempt ?x \<noteq> None"
    using x by (cases out; simp add: after_release_def)+
  show thesis
  proof (rule that [of ?b])
    show "run_state (run_id (ex_run x)) (store (snd (finalize_end later out x' m2))) = Some ?b"
      unfolding finalize_end_def
      using final_transition_state(1) [of m2 ?x s later] inv between open_state False same terminal by auto
    show "isTerminalRunStatus ?b" using terminal by (auto split: option.split)
    show "?b = ORPHANED" if "out \<noteq> Released"
      using that by (cases out) (simp_all add: after_release_def orphaned_terminal_def)
    show "map_option tm_status (ex_terminal x') = Some SUCCEEDED" if "?b = SUCCEEDED"
      using that by (cases out; cases "ex_terminal x'") (simp_all add: after_release_def orphaned_terminal_def)
  qed (use False in simp)
qed

text \<open>C11: The end of an execution leaves its run finished, whatever happens while it waits for the cleanup. Once a run
  has started (RUNNING, or CHECKPOINTING with one of the outcomes possible there), the first segment
  of the finalization forgets its abort controller. Then let the coordinator do anything, as long as no other
  execution moves this run to CHECKPOINTING. After the second segment the run is in a terminal status. If
  somebody finished it during the wait (a cancellation, say), it keeps the status it got then. Otherwise
  cleanup debt or a failing cleanup makes it ORPHANED, and it is SUCCEEDED only if the execution had
  succeeded and its lease was released with the valid fencing token.\<close>

theorem execution_ends_terminal:
  assumes "reachable (cf_fingerprint cf) (store m)" and "run_state (run_id (ex_run x)) (store m) = Some s"
    and "s = RUNNING \<or> s = CHECKPOINTING \<and> map_option tm_status (ex_terminal x) \<in>
      {None, Some SUCCEEDED, Some FAILED, Some ORPHANED}"
    and "ex_attempt x \<noteq> None"
    and "\<forall>t. ex_terminal x = Some t \<longrightarrow> isTerminalRunStatus (tm_status t) \<and> tm_type t \<noteq> SubagentCompleted"
  shows "\<exists>x' m1. finalize_begin now x m = (Inr x', m1) \<and> map_of (active m1) (run_id (ex_run x)) = None
    \<and> (\<forall>m2 later out. (control_step cf)\<^sup>*\<^sup>* m1 m2 \<longrightarrow>
         (s = RUNNING \<longrightarrow> run_state (run_id (ex_run x)) (store m2) \<noteq> Some CHECKPOINTING) \<longrightarrow>
         (\<exists>between b. run_state (run_id (ex_run x)) (store m2) = Some between
           \<and> run_state (run_id (ex_run x)) (store (snd (finalize_end later out x' m2))) = Some b
           \<and> isTerminalRunStatus b
           \<and> (if isTerminalRunStatus between then b = between
              else (out \<noteq> Released \<longrightarrow> b = ORPHANED)
                \<and> (b = SUCCEEDED \<longrightarrow> map_option tm_status (ex_terminal x) = Some SUCCEEDED
                    \<and> (\<forall>l. ex_lease x = Some l \<longrightarrow> fst (projr (releaseWorkspaceLease now l (store m))))))))"
proof -
  let ?i = "run_id (ex_run x)"
  have open_run: "\<not> isTerminalRunStatus s" using assms(3) by auto
  from release_lease_end_outcome [OF reachable_runs_inv [OF assms(1)] assms(2) open_run, of now]
  obtain x' m' where rel: "release_lease_end now x m = (Inr x', m')"
    and st: "run_state ?i (store m') = Some s"
    and run: "ex_run x' = ex_run x" and att: "ex_attempt x' = ex_attempt x"
    and outc: "ex_terminal x' = ex_terminal x
      \<or> map_option tm_status (ex_terminal x) = Some SUCCEEDED
        \<and> map_option tm_status (ex_terminal x') = Some ORPHANED
        \<and> map_option tm_type (ex_terminal x') = Some RunOrphaned"
    and succ: "map_option tm_status (ex_terminal x') = Some SUCCEEDED \<longrightarrow>
      (\<forall>l. ex_lease x = Some l \<longrightarrow> fst (projr (releaseWorkspaceLease now l (store m))))" .
  let ?m1 = "forget_execution ?i m'"
  have first: "finalize_begin now x m = (Inr x', ?m1)"
    by (simp add: finalize_begin_def bind_act_def rel modify_act_def return_act_def)
  have gone: "map_of (active ?m1) ?i = None" by (simp add: forget_execution_def delete_conv)
  have to_m': "(store_step (cf_fingerprint cf))\<^sup>*\<^sup>* (store m) (store m')"
    using coordinator_store.advances_at [OF coordinator_store.advances_release, of cf m now x] rel
    by (simp add: store_history_def)
  have rest: "\<exists>between b. run_state ?i (store m2) = Some between
      \<and> run_state ?i (store (snd (finalize_end later out x' m2))) = Some b \<and> isTerminalRunStatus b
      \<and> (if isTerminalRunStatus between then b = between
         else (out \<noteq> Released \<longrightarrow> b = ORPHANED)
           \<and> (b = SUCCEEDED \<longrightarrow> map_option tm_status (ex_terminal x) = Some SUCCEEDED
               \<and> (\<forall>l. ex_lease x = Some l \<longrightarrow> fst (projr (releaseWorkspaceLease now l (store m))))))"
    if steps: "(control_step cf)\<^sup>*\<^sup>* ?m1 m2" and alone: "s = RUNNING \<longrightarrow> run_state ?i (store m2) \<noteq> Some CHECKPOINTING"
    for m2 later out
  proof -
    have "store ?m1 = store m'" by (simp add: forget_execution_def)
    with coordinator_statuses.steps [OF steps] st obtain between where
      b: "run_state ?i (store m2) = Some between" "status_step\<^sup>*\<^sup>* s between"
      by (auto simp: statuses_evolve_def)
    have "(store_step (cf_fingerprint cf))\<^sup>*\<^sup>* (store m') (store m2)"
      using coordinator_store.steps [OF steps] \<open>store ?m1 = store m'\<close> by (simp add: store_history_def)
    with to_m' assms(1) have inv: "runs_inv (store m2)"
      by (blast intro: reachable_runs_inv reachable_steps)
    have open_state: "isTerminalRunStatus between \<or> between = s \<and> \<not> isTerminalRunStatus s"
      using status_steps_open [OF b(2)] assms(3) alone b(1) open_run by auto
    have x: "?i = run_id (ex_run x')" "ex_attempt x' \<noteq> None" using run att assms(4) by simp_all
    from finalize_end_outcome [OF inv b(1) open_state x final_terminal_step [OF assms(3,5) outc, where out = out], where later = later]
    obtain b where "run_state ?i (store (snd (finalize_end later out x' m2))) = Some b"
      "isTerminalRunStatus b" "isTerminalRunStatus between \<Longrightarrow> b = between"
      "\<not> isTerminalRunStatus between \<Longrightarrow> out \<noteq> Released \<Longrightarrow> b = ORPHANED"
      "\<not> isTerminalRunStatus between \<Longrightarrow> b = SUCCEEDED \<Longrightarrow> map_option tm_status (ex_terminal x') = Some SUCCEEDED"
      by metis
    with b(1) succ outc show ?thesis by auto
  qed
  show ?thesis using first gone rest by blast
qed

definition example_execution :: execution where
  "example_execution = (new_execution (toRunRecord (hd (runs db2))))\<lparr>
     ex_attempt := Some \<lparr>att_id = ''at'', att_runId = ''run_1'', att_attempt = 1, att_status = RUNNING,
       att_startedAt = 15, att_endedAt = None\<rparr>,
     ex_terminal := Some succeeded_terminal\<rparr>"

theorem execution_ends_terminal_witness:
  "\<exists>x' m1. finalize_begin 40 example_execution (manager_of db2) = (Inr x', m1)
     \<and> run_state ''run_1'' (store (snd (finalize_end 50 CleanupDebtRecorded x' m1))) = Some ORPHANED"
proof -
  have *: "run_id (ex_run example_execution) = ''run_1''" "run_state ''run_1'' (store (manager_of db2)) = Some RUNNING"
    by code_simp+
  have "reachable (cf_fingerprint example_config) (store (manager_of db2))"
    using db_reachable(2) by (simp add: example_config_def manager_of_def)
  from execution_ends_terminal [OF this, of example_execution RUNNING 40] *
  obtain x' m1 where first: "finalize_begin 40 example_execution (manager_of db2) = (Inr x', m1)"
    and rest: "\<forall>m2 later out. (control_step example_config)\<^sup>*\<^sup>* m1 m2 \<longrightarrow>
         run_state ''run_1'' (store m2) \<noteq> Some CHECKPOINTING \<longrightarrow>
         (\<exists>between b. run_state ''run_1'' (store m2) = Some between
           \<and> run_state ''run_1'' (store (snd (finalize_end later out x' m2))) = Some b
           \<and> (if isTerminalRunStatus between then b = between else out \<noteq> Released \<longrightarrow> b = ORPHANED))"
    by (fastforce simp: example_execution_def succeeded_terminal_def)
  have "run_state ''run_1'' (store (snd (finalize_begin 40 example_execution (manager_of db2)))) = Some RUNNING" by code_simp
  with first have "run_state ''run_1'' (store m1) = Some RUNNING" by simp
  with rest [rule_format, of m1 50 CleanupDebtRecorded] first show ?thesis by auto
qed

text \<open>A cancellation during the wait for the cleanup wins over the cleanup debt: the run has left the active
  ones, so it becomes CANCELLED at once, and the ORPHANED that the debt asks for is not recorded.\<close>

definition cancelled_meanwhile :: "manager" where
  "cancelled_meanwhile = snd (cancelRun 5 45 ''run_1'' (snd (finalize_begin 40 example_execution (manager_of db2))))"

lemma cancel_hides_cleanup_debt:
  "run_state ''run_1'' (store (snd (finalize_end 50 CleanupDebtRecorded
     (projr (fst (finalize_begin 40 example_execution (manager_of db2)))) cancelled_meanwhile))) = Some CANCELLED"
  by code_simp

text \<open>A lease that is lost before the run has started cannot be recorded: for a run that is
  still PREPARING (or QUEUED) the finalization picks ORPHANED, which the transition table does
  not allow from there, so the final transition throws and the run stays open, without any
  event, until the manager restarts.\<close>

theorem lease_lost_while_preparing_is_not_recorded:
  assumes "getRun (run_id (ex_run x)) (store m) = Some run" and "run_status run \<in> {QUEUED, PREPARING}"
    and "ex_terminal x = Some (classify_failure cf (Some WorkspaceLeaseLostError) isLost msg)"
  shows "final_transition now x m = (Inl (InvalidRunTransitionError (run_status run) ORPHANED), m)"
  using assms
  by (auto simp: final_transition_def Let_def classify_failure_def orphaned_terminal_def transition_def
      assertRunTransition_def)

definition preparing_db :: db where
  "preparing_db = ok_state (appendEvent 12 (status_event ''run_1'' PREPARING RunPreparing []) db1)"

theorem lease_lost_while_preparing_is_not_recorded_witness:
  "final_transition 40 (example_execution\<lparr>ex_terminal :=
       Some (classify_failure example_config (Some WorkspaceLeaseLostError) False [])\<rparr>) (manager_of preparing_db)
   = (Inl (InvalidRunTransitionError PREPARING ORPHANED), manager_of preparing_db)"
proof -
  have "map_option run_status (getRun ''run_1'' preparing_db) = Some PREPARING" by code_simp
  then obtain run where run: "getRun ''run_1'' preparing_db = Some run" "run_status run = PREPARING" by auto
  have "run_id (ex_run example_execution) = ''run_1''" by code_simp
  with lease_lost_while_preparing_is_not_recorded [of "example_execution\<lparr>ex_terminal :=
       Some (classify_failure example_config (Some WorkspaceLeaseLostError) False [])\<rparr>" "manager_of preparing_db" run
       example_config False "[]" 40] run
  show ?thesis by (simp add: manager_of_def)
qed

end
