(* ===== verification/StoreProperties.thy ===== *)
theory StoreProperties
  imports StoreTheorems
begin

text \<open>The properties of the run store, each with a witness on the small database.\<close>

section \<open>The event log\<close>

lemma sorted_run_log:
  assumes "log_numbered d r"
  shows "sorted (map ev_sequence (run_log (rr_id r) d))"
  using assms by (simp add: log_numbered_def)

lemma filter_log_after:
  assumes "map ev_sequence es = [1..n]" and "0 \<le> a"
  shows "map ev_sequence (filter (\<lambda>e. a < ev_sequence e) es) = [a + 1..n]"
proof -
  have "map ev_sequence (filter (\<lambda>e. a < ev_sequence e) es) = filter ((<) a) (map ev_sequence es)"
    by (simp add: filter_map comp_def)
  also have "\<dots> = filter ((<) a) [1..n]" by (simp add: assms(1))
  also have "\<dots> = [a + 1..n]"
  proof (cases "a \<le> n")
    case True
    then have "[1..n] = [1..a] @ [a + 1..n]"
      using assms(2) by (cases "a = 0") (simp_all add: upto_split2)
    moreover have "filter ((<) a) [1..a] = []" by (simp add: filter_empty_conv)
    moreover have "filter ((<) a) [a + 1..n] = [a + 1..n]" by (simp add: filter_id_conv)
    ultimately show ?thesis by simp
  next
    case False
    then show ?thesis by (simp add: filter_empty_conv)
  qed
  finally show ?thesis .
qed

lemma take_upto: "take n [a..b] = [a..min b (a + int n - 1)]"
proof (induction n arbitrary: a)
  case 0
  then show ?case by simp
next
  case (Suc n)
  show ?case
  proof (cases "a \<le> b")
    case True
    then show ?thesis using Suc.IH [of "a + 1"] by (simp add: upto_rec1 [of a] algebra_simps)
  next
    case False
    then show ?thesis by simp
  qed
qed

text \<open>C2: The event log of a run never has a gap or a duplicate: in every database the store can
  reach, a client that reads a run's events from any cursor gets exactly the next consecutive
  sequence numbers, up to the limit or to the run's last sequence. So polling with the last
  number seen as the cursor delivers every event once and in order.\<close>

theorem events_from_cursor:
  assumes "reachable fp d" and "find_run i d = Some r" and "0 \<le> cursor" and "0 \<le> limit"
  shows "map ev_sequence (listEvents i cursor limit d)
    = [cursor + 1..min (rr_last_sequence r) (cursor + limit)]"
proof -
  have r: "r \<in> set (runs d)" "rr_id r = i" using assms(2) by (auto dest: find_run_SomeD)
  have log: "map ev_sequence (run_log i d) = [1..rr_last_sequence r]"
    using reachable_runs_inv [OF assms(1)] r by (auto simp: runs_inv_def log_numbered_def)
  have after: "map ev_sequence (filter (\<lambda>e. ev_runId e = i \<and> cursor < ev_sequence e) (run_events d))
    = [cursor + 1..rr_last_sequence r]"
    using filter_log_after [OF log assms(3)] by (simp add: run_log_def conj_commute)
  then have "sort_key ev_sequence (filter (\<lambda>e. ev_runId e = i \<and> cursor < ev_sequence e) (run_events d))
    = filter (\<lambda>e. ev_runId e = i \<and> cursor < ev_sequence e) (run_events d)"
    by (intro sort_key_id_if_sorted) simp
  with after assms(4) show ?thesis
    by (simp add: listEvents_def sql_limit_def take_map [symmetric] take_upto)
qed

theorem events_from_cursor_witness:
  "map ev_sequence (listEvents ''run_1'' 1 5 db3) = [2..3]"
proof -
  have "find_run ''run_1'' db3 \<noteq> None" and last: "map_option rr_last_sequence (find_run ''run_1'' db3) = Some 3"
    by code_simp+
  then obtain r where r: "find_run ''run_1'' db3 = Some r" "rr_last_sequence r = 3" by auto
  show ?thesis using events_from_cursor [OF db_reachable(3) r(1), of 1 5] r(2) by simp
qed

section \<open>Terminal runs\<close>

text \<open>C7: A run that reached a terminal status is final: whatever operations the store performs
  afterwards, the run is still there, and its status, usage, error, budget and every other
  column but the last sequence number and the time of the last change are what they were.\<close>

theorem terminal_run_is_final:
  assumes "reachable fp d" and "find_run i d = Some r" and "isTerminalRunStatus (rr_status r)"
    and "(store_step fp)\<^sup>*\<^sup>* d d'"
  shows "\<exists>r'. find_run i d' = Some r' \<and> settled r' = settled r"
proof -
  have r: "r \<in> set (runs d)" "rr_id r = i" using assms(2) by (auto dest: find_run_SomeD)
  from keeps_terminal_steps [OF assms(4,1)] r assms(3)
  obtain r' where r': "r' \<in> set (runs d')" "settled r' = settled r"
    by (auto simp: keeps_terminal_def)
  have "rr_id r' = i" using settled_status [OF r'(2)] r(2) by simp
  then have "find_run i d' = Some r'"
    using reachable_runs_inv [OF reachable_steps [OF assms(4,1)]] r'(1) by (simp add: find_run_unique)
  with r'(2) show ?thesis by blast
qed

theorem terminal_run_is_final_witness:
  "\<exists>r'. find_run ''run_1'' db3 = Some r' \<and> rr_status r' = FAILED"
proof -
  have "map_option rr_status (find_run ''run_1'' db3) = Some FAILED" by code_simp
  then obtain r where r: "find_run ''run_1'' db3 = Some r" "rr_status r = FAILED" by auto
  have "isTerminalRunStatus (rr_status r)" by (simp add: r(2))
  from terminal_run_is_final [OF db_reachable(3) r(1) this rtranclp.rtrancl_refl]
  obtain r' where r': "find_run ''run_1'' db3 = Some r'" "settled r' = settled r" by blast
  from settled_status [OF r'(2)] show ?thesis using r(2) r'(1) by simp
qed

section \<open>Idempotent creation\<close>

lemma identity_find_run:
  assumes "reachable fp d" and "(store_step fp)\<^sup>*\<^sup>* d d'" and "find_run i d = Some r"
  obtains r' where "find_run i d' = Some r'" "identity r' = identity r"
proof -
  from assms(3) have r: "r \<in> set (runs d)" "rr_id r = i" by (auto dest: find_run_SomeD)
  from extends_runs_member [OF extends_runs_steps [OF assms(2)] r(1)]
  obtain r' where r': "r' \<in> set (runs d')" "identity r' = identity r" .
  have "rr_id r' = i" using identity_columns(1) [OF r'(2)] r(2) by simp
  then have "find_run i d' = Some r'"
    using reachable_runs_inv [OF reachable_steps [OF assms(2,1)]] r'(1) by (simp add: find_run_unique)
  with r'(2) show thesis using that by blast
qed

text \<open>C6: Creating a run is idempotent for ever: once a request has created run \<open>i\<close>, any later
  request of the same application, tenant and user with the same idempotency key, at any time
  and after any other operations, creates nothing: it returns run \<open>i\<close> when its fingerprint is
  that of the first request, and is refused with the key-reuse error otherwise.\<close>

theorem create_replays_for_ever:
  assumes "reachable fp d" and "createOrGetRun fp now ids i rq d = Inr ((rec, True), d1)"
    and "(store_step fp)\<^sup>*\<^sup>* d1 d2"
    and "rq_owner rq' = rq_owner rq" and "rq_idempotencyKey rq' = rq_idempotencyKey rq"
  shows "if fp rq' = fp rq
    then \<exists>rec'. createOrGetRun fp now' ids' i' rq' d2 = Inr ((rec', False), d2) \<and> run_id rec' = i
    else createOrGetRun fp now' ids' i' rq' d2 = Inl IdempotencyKeyReused"
proof -
  have reach: "reachable fp d1" using assms(1,2) by (blast intro: reachable.step store_step.create)
  from assms(2) obtain row where created: "create_run now ids (fp rq) i rq d = Inr (row, d1)"
    by (cases rule: createOrGetRun_cases) auto
  from created obtain a w s where row: "row = new_run_row now (fp rq) i rq a w s"
    and "runs d1 = runs d @ [row]" by (rule create_run_cases)
  with reach have "find_run i d1 = Some row" by (simp add: find_run_unique reachable_runs_inv)
  from identity_find_run [OF reach assms(3) this]
  obtain r where r: "find_run i d2 = Some r" "identity r = identity row" .
  have "r \<in> set (runs d2)" "rr_id r = i" using r(1) by (auto dest: find_run_SomeD)
  moreover have "run_key r = run_key row" "rr_request_fingerprint r = fp rq"
    using identity_columns(2,3) [OF r(2)] by (simp_all add: row)
  moreover have "stored_key rq' = stored_key rq" using assms(4,5) by (simp add: stored_key_def)
  ultimately have "find_existing_run rq' d2 = Some r"
    using reachable_runs_inv [OF reachable_steps [OF assms(3) reach]]
    by (simp add: find_existing_run_unique assms(4) run_key_def row)
  then show ?thesis
    using \<open>rr_request_fingerprint r = fp rq\<close> \<open>rr_id r = i\<close>
    by (auto simp: createOrGetRun_def toRunRecord_def)
qed

theorem create_replays_for_ever_witness:
  "\<exists>rec'. createOrGetRun example_fp 99 (example_ids ''2'') ''run_2'' example_request db3
     = Inr ((rec', False), db3) \<and> run_id rec' = ''run_1''"
proof -
  from ok_state [OF db1_ok] obtain rec c where
    c: "createOrGetRun example_fp 10 (example_ids ''1'') ''run_1'' example_request empty_db
      = Inr ((rec, c), db1)" by (auto simp: db1_def [symmetric])
  then have "c" by (cases rule: createOrGetRun_cases) (simp_all add: empty_db_def find_existing_run_def)
  moreover have "(store_step example_fp)\<^sup>*\<^sup>* db1 db3"
    using db2_step db3_step by (blast intro: rtranclp.intros)
  ultimately show ?thesis
    using create_replays_for_ever [OF reachable.start, of example_fp 10 "example_ids ''1''" "''run_1''"
        example_request rec db1 db3 example_request] c by simp
qed

end
