(* ===== verification/StoreGuarantees.thy ===== *)
theory StoreGuarantees
  imports StoreProperties
begin

text \<open>
  Further promises of the store over all its histories: approvals are resolved once, frozen
  records stay frozen, sessions keep their workspace, attempts are numbered and closed,
  listings respect ownership, workspace states change by compare-and-set.
\<close>

section \<open>Approvals\<close>

text \<open>An approval is decided at most once: after it left PENDING, the record (decision, time
  of the decision and everything it is bound to) is the same in every later database.\<close>

theorem approval_decided_once:
  assumes "getApproval i d = Some a" and "apr_status a \<noteq> PENDING" and "(store_step fp)\<^sup>*\<^sup>* d d'"
  shows "getApproval i d' = Some a"
proof -
  have "grows keeps_approval (approvals d) (approvals d')"
    using tables_grow_steps [OF assms(3)] by (simp add: tables_grow_def)
  then obtain a' where "find_approval i d' = Some a'" "keeps_approval a a'"
    using assms(1) by (elim grows_find [where p = "\<lambda>a. apr_id a = i" and r = a])
      (auto simp: getApproval_def find_approval_def keeps_approval_def)
  with assms(2) show ?thesis by (simp add: getApproval_def keeps_approval_def)
qed

definition example_approval :: approval_record where
  "example_approval = \<lparr>apr_id = ''ap'', apr_runId = ''run_1'', apr_toolCallId = ''c'',
     apr_toolName = ''exec'', apr_toolArgumentsDigest = ''d1'', apr_executionDigest = ''d2'',
     apr_owner = example_owner, apr_workspaceId = ''w'', apr_policyGeneration = 1,
     apr_routeGeneration = ''g'', apr_status = PENDING, apr_expiresAt = 100, apr_createdAt = 30,
     apr_resolvedAt = None\<rparr>"

definition dba :: db where "dba = ok_state (createApproval example_approval db2)"

definition dbb :: db where
  "dbb = ok_state (resolveApprovalAndAppendEvent 40 ''ap'' DENIED ''d2'' [] dba)"

definition dbc :: db where
  "dbc = ok_state (resolveApprovalAndAppendEvent 50 ''ap'' APPROVED ''d2'' [] dbb)"

lemma dbc_ok: "is_ok (resolveApprovalAndAppendEvent 50 ''ap'' APPROVED ''d2'' [] dbb)"
  by code_simp

theorem approval_decided_once_witness:
  "getApproval ''ap'' dbc = Some (example_approval\<lparr>apr_status := DENIED, apr_resolvedAt := Some 40\<rparr>)"
proof (rule approval_decided_once)
  show "getApproval ''ap'' dbb = Some (example_approval\<lparr>apr_status := DENIED, apr_resolvedAt := Some 40\<rparr>)"
    by code_simp
  have "store_step example_fp dbb dbc"
    using ok_state [OF dbc_ok] by (auto simp: dbc_def [symmetric] intro: store_step.resolve)
  then show "(store_step example_fp)\<^sup>*\<^sup>* dbb dbc" by blast
qed simp

text \<open>Approval ids are unique: only \<open>createApproval\<close> adds a row.\<close>

lemma record_step_approval_ids:
  assumes "record_step d d'" and "distinct (map apr_id (approvals d))"
  shows "distinct (map apr_id (approvals d'))"
  using assms(1)
proof cases
  case (create_approval r res)
  then show ?thesis using assms(2) by (auto simp: createApproval_def result_simps) force
qed (use assms(2) in \<open>auto simp: resolveApproval_def resolve_within_def createAgentProfile_def
        insert_agent_def deleteAgentProfile_def createWorkspace_def insert_workspace_def
        updateWorkspaceState_def createRunAttempt_def completeRunAttempt_def
        completeRunningAttempts_def complete_attempts_def persistRunRoutePlan_def
        persistRunSnapshot_def createProviderConnection_def updateProviderConnection_def
        deleteProviderConnection_def persistRunModelUsage_def recordRuntimeContainer_def
        updateRuntimeContainerState_def removeRuntimeContainer_def result_simps Let_def
        map_update_rows_frame split: option.splits if_splits\<close>)

lemma appendEvent_approvals: "appendEvent now ae d = Inr (e, d') \<Longrightarrow> approvals d' = approvals d"
proof (erule appendEvent_cases)
  assume d': "d' = d\<lparr>runs := runs d', run_events := run_events d', run_attempts := run_attempts d'\<rparr>"
  show "approvals d' = approvals d" by (subst d') simp
qed

lemma store_step_approval_ids:
  assumes "store_step fp d d'" and "distinct (map apr_id (approvals d))"
  shows "distinct (map apr_id (approvals d'))"
  using assms(1)
proof cases
  case (create now ids i rq rec created)
  from this(1) show ?thesis
  proof (cases rule: createOrGetRun_cases)
    case (create row)
    from create(2) show ?thesis by (rule create_run_cases) (simp add: assms(2))
  qed (simp add: assms(2))
next
  case (append now ae e)
  then show ?thesis using assms(2) by (simp add: appendEvent_approvals)
next
  case (message now am m)
  have "approvals d' = approvals d" by (subst appendSessionMessage_frame [OF message(1)]) simp
  with assms(2) show ?thesis by simp
next
  case (usage now i u rec)
  from this(1) show ?thesis by (rule recordUsage_cases) (simp add: assms(2))
next
  case (acquire now ws i ttl res)
  have "approvals d' = approvals d" by (subst acquire_frame [OF acquire(1)]) simp
  with assms(2) show ?thesis by simp
next
  case (renew now lease ttl res)
  have "approvals d' = approvals d" by (subst renew_frame [OF renew(1)]) simp
  with assms(2) show ?thesis by simp
next
  case (release now lease ok)
  have "approvals d' = approvals d" by (subst release_frame [OF release(1)]) simp
  with assms(2) show ?thesis by simp
next
  case (resolve now i st digest payload res)
  have keep: "distinct (map apr_id (approvals d1))" if "resolve_within now i st digest d = (c, d1)" for c d1
    using that assms(2) by (auto simp: resolve_within_def map_update_rows_frame)
  from resolve(1) show ?thesis
    by (cases rule: resolveApprovalAndAppendEvent_cases) (auto dest: keep simp: appendEvent_approvals)
next
  case other_record
  then show ?thesis using assms(2) by (rule record_step_approval_ids)
qed

lemma reachable_approval_ids: "reachable fp d \<Longrightarrow> distinct (map apr_id (approvals d))"
  by (induction rule: reachable.induct) (simp add: empty_db_def, blast intro: store_step_approval_ids)

lemma resolve_within_outcome:
  assumes "distinct (map apr_id (approvals d))" and "getApproval i d = Some a"
    and "resolve_within now i st digest d = (changed, d')"
  shows "changed = resolvable now i st digest d a"
    and "\<not> changed \<Longrightarrow> d' = d"
    and "changed \<Longrightarrow> getApproval i d' = Some (a\<lparr>apr_status := st, apr_resolvedAt := Some now\<rparr>)"
proof -
  let ?hit = "resolvable now i st digest d"
  have a: "a \<in> set (approvals d)" "apr_id a = i"
    using assms(2) by (auto simp: getApproval_def find_approval_def dest: find_SomeD)
  have only: "x = a" if "x \<in> set (approvals d)" "?hit x" for x
    using that a unique_key_eq [OF assms(1)] by (simp add: resolvable_def)
  have d': "d' = d\<lparr>approvals := update_rows ?hit
      (\<lambda>a. a\<lparr>apr_status := st, apr_resolvedAt := Some now\<rparr>) (approvals d)\<rparr>"
    and changed: "changed \<longleftrightarrow> count_rows ?hit (approvals d) = 1"
    using assms(3) by (auto simp: resolve_within_def)
  have "distinct (filter ?hit (approvals d))" using assms(1) by (simp add: distinct_map)
  then have "count_rows ?hit (approvals d) = card {x \<in> set (approvals d). ?hit x}"
    unfolding count_rows_def by (simp only: distinct_card [symmetric] set_filter)
  also have "{x \<in> set (approvals d). ?hit x} = (if ?hit a then {a} else {})"
  proof (cases "?hit a")
    case True
    then have "{x \<in> set (approvals d). ?hit x} = {a}" using only a(1) by blast
    with True show ?thesis by simp
  next
    case False
    then have "{x \<in> set (approvals d). ?hit x} = {}" using only by blast
    with False show ?thesis by simp
  qed
  finally show c: "changed = ?hit a" by (simp add: changed)
  show "\<not> changed \<Longrightarrow> d' = d"
  proof -
    assume "\<not> changed"
    then have "\<forall>x\<in>set (approvals d). \<not> ?hit x" using only c by blast
    then show "d' = d" by (simp add: d' update_rows_none)
  qed
  show "changed \<Longrightarrow> getApproval i d' = Some (a\<lparr>apr_status := st, apr_resolvedAt := Some now\<rparr>)"
    using assms(2) c by (simp add: d' getApproval_def find_approval_def find_update_rows)
qed

text \<open>What resolving an approval does, on every branch: an approval that is absent gives no
  record; one that may not be resolved (already decided, another digest, an expired approval
  that is to be approved, a finished run) is returned as it is and nothing changes; otherwise
  the decision and its time are stored and one ApprovalResolved event is appended to the run's
  log, in the same transaction.\<close>

theorem resolve_approval_outcome:
  assumes "reachable fp d"
    and "resolveApprovalAndAppendEvent now i st digest payload d = Inr (res, d')"
  shows "case getApproval i d of
      None \<Rightarrow> res = None \<and> d' = d
    | Some a \<Rightarrow>
        if resolvable now i st digest d a
        then (let a' = a\<lparr>apr_status := st, apr_resolvedAt := Some now\<rparr> in
          res = Some a' \<and> getApproval i d' = Some a'
          \<and> (\<exists>e. run_log (apr_runId a) d' = run_log (apr_runId a) d @ [e]
               \<and> ev_type e = ApprovalResolved \<and> ev_payload e = payload))
        else res = Some a \<and> d' = d"
proof (cases "getApproval i d")
  case None
  have "\<not> resolvable now i st digest d x" if "x \<in> set (approvals d)" for x
    using None that by (auto simp: getApproval_def find_approval_def resolvable_def dest: find_NoneD)
  then have "resolve_within now i st digest d = (False, d)"
    by (simp add: resolve_within_def count_rows_def update_rows_none)
  with None assms(2) show ?thesis by (auto simp: resolveApprovalAndAppendEvent_def)
next
  case (Some a)
  obtain changed d1 where w: "resolve_within now i st digest d = (changed, d1)"
    by (cases "resolve_within now i st digest d")
  note out = resolve_within_outcome [OF reachable_approval_ids [OF assms(1)] Some w]
  show ?thesis
  proof (cases changed)
    case False
    with out(2) w Some assms(2) have "res = Some a \<and> d' = d"
      by (auto simp: resolveApprovalAndAppendEvent_def)
    with False out(1) Some show ?thesis by simp
  next
    case True
    let ?a = "a\<lparr>apr_status := st, apr_resolvedAt := Some now\<rparr>"
    from w True out(3) assms(2) obtain e where res: "res = Some ?a"
      and e: "appendEvent now (plain_event (apr_runId a) ApprovalResolved payload) d1 = Inr (e, d')"
      by (auto simp: resolveApprovalAndAppendEvent_def result_simps)
    have "getApproval i d' = Some ?a"
      using out(3) True by (simp add: getApproval_def find_approval_def appendEvent_approvals [OF e])
    moreover have "run_events d1 = run_events d"
      using resolve_within_frame [OF w] by (metis frame_runs(3))
    then have "run_log (apr_runId a) d' = run_log (apr_runId a) d @ [e] \<and> ev_type e = ApprovalResolved
        \<and> ev_payload e = payload"
      using e by (elim appendEvent_cases) (simp add: run_log_def new_event_def plain_event_def)
    ultimately show ?thesis using Some True out(1) res by auto
  qed
qed

theorem resolve_approval_outcome_witness:
  "getApproval ''ap'' dbb = Some (example_approval\<lparr>apr_status := DENIED, apr_resolvedAt := Some 40\<rparr>)"
proof -
  have ok: "is_ok (createApproval example_approval db2)"
    "is_ok (resolveApprovalAndAppendEvent 40 ''ap'' DENIED ''d2'' [] dba)" by code_simp+
  have "reachable example_fp dba"
    using ok_state [OF ok(1)]
    by (auto simp: dba_def [symmetric]
        intro: reachable.step [OF db_reachable(2)] store_step.other_record record_step.create_approval)
  moreover from ok_state [OF ok(2)] obtain res where
    "resolveApprovalAndAppendEvent 40 ''ap'' DENIED ''d2'' [] dba = Inr (res, dbb)"
    by (auto simp: dbb_def [symmetric])
  moreover have "getApproval ''ap'' dba = Some example_approval"
    "resolvable 40 ''ap'' DENIED ''d2'' dba example_approval" by code_simp+
  ultimately show ?thesis
    using resolve_approval_outcome [of example_fp dba 40 "''ap''" DENIED "''d2''" "[]" res dbb]
    by (simp add: Let_def)
qed

section \<open>Frozen records\<close>

text \<open>Route plans and run snapshots are immutable: once an attempt's plan (or snapshot) is
  stored, every later read of the attempt returns it unchanged, and storing another one for the
  same attempt is refused.\<close>

theorem frozen_records:
  assumes "(store_step fp)\<^sup>*\<^sup>* d d'"
  shows "(getRunRoutePlan i att d = Some p \<longrightarrow> getRunRoutePlan i att d' = Some p
      \<and> (\<forall>q. rp_runId q = i \<longrightarrow> rp_attemptId q = att \<longrightarrow> q \<noteq> p \<longrightarrow>
           persistRunRoutePlan q d' = Inl RoutePlanFrozen))
    \<and> (getRunSnapshot i att d = Some v \<longrightarrow> getRunSnapshot i att d' = Some v
      \<and> (\<forall>r. sn_runId r = i \<longrightarrow> sn_attemptId r = att \<longrightarrow> sn_snapshot r \<noteq> v \<longrightarrow>
           persistRunSnapshot r d' = Inl SnapshotFrozen))"
proof -
  have grow: "grows (=) (run_route_plans d) (run_route_plans d')"
    "grows (=) (run_snapshots d) (run_snapshots d')"
    using tables_grow_steps [OF assms] by (simp_all add: tables_grow_def)
  have plan: "getRunRoutePlan i att d' = Some p" if "getRunRoutePlan i att d = Some p"
    using that unfolding getRunRoutePlan_def by (rule grows_find [OF grow(1), rotated]) auto
  have snap: "getRunSnapshot i att d' = Some v" if v: "getRunSnapshot i att d = Some v"
  proof -
    from v obtain r where r: "sn_snapshot r = v"
      "List.find (\<lambda>s. sn_runId s = i \<and> sn_attemptId s = att) (run_snapshots d) = Some r"
      by (auto simp: getRunSnapshot_def)
    from r(2) have "List.find (\<lambda>s. sn_runId s = i \<and> sn_attemptId s = att) (run_snapshots d') = Some r"
      by (rule grows_find [OF grow(2), rotated]) auto
    with r(1) show ?thesis by (simp add: getRunSnapshot_def)
  qed
  show ?thesis using plan snap by (auto simp: persistRunRoutePlan_def persistRunSnapshot_def)
qed

definition example_plan :: run_route_plan where
  "example_plan = \<lparr>rp_runId = ''run_1'', rp_attemptId = ''at'', rp_routePlanId = ''p'',
     rp_registryGeneration = 1, rp_requiredCapabilities = [Text], rp_selectedModelId = ''m'',
     rp_selectedProviderId = ''pr'', rp_selectedCredentialProfileId = ''c'',
     rp_fallbackModelIds = [], rp_createdAt = 5\<rparr>"

definition dbp :: db where
  "dbp = ok_state (persistRunRoutePlan example_plan (ok_state (createRunAttempt 5 ''run_1'' ''at'' db1)))"

theorem frozen_records_witness:
  "persistRunRoutePlan (example_plan\<lparr>rp_selectedModelId := ''n''\<rparr>) dbp = Inl RoutePlanFrozen"
proof -
  have "getRunRoutePlan ''run_1'' ''at'' dbp = Some example_plan" by code_simp
  with frozen_records [OF rtranclp.rtrancl_refl, of "''run_1''" "''at''" dbp example_plan]
  show ?thesis by (simp add: example_plan_def)
qed

section \<open>Sessions\<close>

lemma appendEvent_bindings:
  "appendEvent now ae d = Inr (e, d') \<Longrightarrow> map session_binding (runs d') = map session_binding (runs d)"
proof (erule appendEvent_cases)
  fix row assume runs: "runs d' = update_rows (\<lambda>r. rr_id r = ae_runId ae)
           (update_run_for_event now ae (rr_last_sequence row + 1)) (runs d)"
  show "map session_binding (runs d') = map session_binding (runs d)"
    unfolding runs by (simp add: map_update_rows_frame)
qed

lemma store_step_session_workspace:
  assumes "store_step fp d d'" and "session_workspace_inv d"
  shows "session_workspace_inv d'"
proof -
  have cong: "session_workspace_inv d'" if "runs d' = runs d"
    using assms(2) session_workspace_inv_cong [of d' d] that by simp
  from assms(1) show ?thesis
  proof (cases rule: store_step_cases)
    case (create now ids i rq rec created)
    from this show ?thesis
    proof (cases rule: createOrGetRun_cases)
      case (create row)
      show ?thesis by (rule create_run_session_workspace [OF assms(2) create(2)])
    qed (simp add: assms(2))
  next
    case (append now ae e)
    from appendEvent_bindings [OF this] show ?thesis
      using assms(2) by (rule session_workspace_inv_cong [THEN iffD2])
  next
    case (usage now i u rec)
    have "map session_binding (runs d') = map session_binding (runs d)"
      using usage by (rule recordUsage_cases) (simp add: map_update_rows_frame session_binding_def)
    then show ?thesis
      using assms(2) by (rule session_workspace_inv_cong [THEN iffD2])
  next
    case (resolved now ae e d1)
    have "map session_binding (runs d') = map session_binding (runs d)"
      using appendEvent_bindings [OF resolved(3)] by (simp add: resolved(1))
    then show ?thesis
      using assms(2) by (rule session_workspace_inv_cong [THEN iffD2])
  qed (rule cong)
qed

text \<open>A conversation stays in its workspace: in every reachable database, two runs of one
  session run in the same workspace.\<close>

theorem session_has_one_workspace:
  assumes "reachable fp d" and "r \<in> set (runs d)" and "s \<in> set (runs d)"
    and "rr_session_internal_id r = rr_session_internal_id s"
  shows "rr_workspace_internal_id r = rr_workspace_internal_id s \<and> rr_workspace_internal_id r \<noteq> None"
proof -
  have "session_workspace_inv d"
    using assms(1)
    by (induction rule: reachable.induct)
       (simp add: session_workspace_inv_def session_bindings_def empty_db_def,
        blast intro: store_step_session_workspace)
  moreover have "session_binding r \<in> session_bindings d" "session_binding s \<in> session_bindings d"
    using assms(2,3) by (simp_all add: session_bindings_def)
  ultimately show ?thesis
    using assms(4) unfolding session_workspace_inv_def session_binding_def single_valued_def
    by (metis imageI snd_conv)
qed

definition third_request :: start_run_request where
  "third_request = example_request\<lparr>rq_idempotencyKey := ''k3'', rq_session := Some ''ses_1''\<rparr>"

definition dbs :: db where
  "dbs = ok_state (createOrGetRun example_fp 12 (example_ids ''3'') ''run_3'' third_request db1)"

lemma dbs_ok: "is_ok (createOrGetRun example_fp 12 (example_ids ''3'') ''run_3'' third_request db1)"
  by code_simp

theorem session_has_one_workspace_witness:
  "map rr_id (runs dbs) = [''run_1'', ''run_3'']
   \<and> rr_workspace_internal_id (runs dbs ! 0) = rr_workspace_internal_id (runs dbs ! 1)"
proof
  have "store_step example_fp db1 dbs"
    using ok_state [OF dbs_ok] by (auto simp: dbs_def [symmetric] intro: store_step.create)
  then have reach: "reachable example_fp dbs" by (rule reachable.step [OF db_reachable(1)])
  show ids: "map rr_id (runs dbs) = [''run_1'', ''run_3'']" by code_simp
  then have "length (runs dbs) = 2" by (metis length_map length_Cons list.size(3) numeral_2_eq_2)
  moreover have "rr_session_internal_id (runs dbs ! 0) = rr_session_internal_id (runs dbs ! 1)"
    by code_simp
  ultimately show "rr_workspace_internal_id (runs dbs ! 0) = rr_workspace_internal_id (runs dbs ! 1)"
    using session_has_one_workspace [OF reach] by simp
qed

section \<open>Attempts\<close>

text \<open>A run that ends leaves no attempt open: the event that gives a run a terminal status also
  ends each of its RUNNING attempts with that status and time, in the same transaction; the
  attempts of other runs and those already ended are not touched.\<close>

theorem terminal_event_closes_attempts:
  assumes "appendEvent now ae d = Inr (e, d')" and "ae_status ae = Some st" and "isTerminalRunStatus st"
  shows "map_option rr_status (find_run (ae_runId ae) d') = Some st
    \<and> list_all2 (\<lambda>a b. if att_runId a = ae_runId ae \<and> att_status a = RUNNING
          then b = a\<lparr>att_status := st, att_endedAt := Some now\<rparr> else b = a)
        (run_attempts d) (run_attempts d')
    \<and> (\<forall>a\<in>set (run_attempts d'). att_runId a = ae_runId ae \<longrightarrow> att_status a \<noteq> RUNNING)"
proof -
  from assms(1) obtain row where row: "find_run (ae_runId ae) d = Some row"
    and runs: "runs d' = update_rows (\<lambda>r. rr_id r = ae_runId ae)
           (update_run_for_event now ae (rr_last_sequence row + 1)) (runs d)"
    and att: "run_attempts d' = (case ae_status ae of
           Some st \<Rightarrow> if isTerminalRunStatus st
             then run_attempts (complete_attempts now (ae_runId ae) st d) else run_attempts d
         | None \<Rightarrow> run_attempts d)"
    by (rule appendEvent_cases)
  have att: "run_attempts d' = update_rows (\<lambda>a. att_runId a = ae_runId ae \<and> att_status a = RUNNING)
      (\<lambda>a. a\<lparr>att_status := st, att_endedAt := Some now\<rparr>) (run_attempts d)"
    unfolding att by (simp add: assms complete_attempts_def)
  have "map_option rr_status (find_run (ae_runId ae) d') = Some st"
    unfolding find_run_def runs using row assms(2) find_run_SomeD [OF row]
    by (simp add: find_update_rows find_run_def)
  moreover have "st \<noteq> RUNNING" using assms(3) by auto
  ultimately show ?thesis
    by (auto simp: att update_rows_def list_all2_map2 list_all2_refl)
qed

theorem terminal_event_closes_attempts_witness:
  "list_all (\<lambda>a. att_status a = FAILED \<and> att_endedAt a = Some 30)
     (run_attempts (ok_state (appendEvent 30 failed dbp))) \<and> att_status (run_attempts dbp ! 0) = RUNNING"
proof -
  have "is_ok (appendEvent 30 failed dbp)" by code_simp
  from ok_state [OF this] obtain e where "appendEvent 30 failed dbp = Inr (e, ok_state (appendEvent 30 failed dbp))"
    by blast
  then have "list_all2 (\<lambda>a b. if att_runId a = ae_runId failed \<and> att_status a = RUNNING
          then b = a\<lparr>att_status := FAILED, att_endedAt := Some 30\<rparr> else b = a)
        (run_attempts dbp) (run_attempts (ok_state (appendEvent 30 failed dbp)))"
    by (rule terminal_event_closes_attempts [THEN conjunct2, THEN conjunct1]) (simp_all add: failed_def)
  moreover have "map att_runId (run_attempts dbp) = [ae_runId failed]"
    "map att_status (run_attempts dbp) = [RUNNING]" by code_simp+
  ultimately show ?thesis
    by (cases "run_attempts dbp") (auto simp: list_all2_Cons1)
qed

section \<open>Listings\<close>

lemma rev_sort_key_sorted: "sorted_wrt (\<ge>) (map f (rev (sort_key f t)))"
  by (simp add: rev_map [symmetric] sorted_wrt_rev)

lemma sorted_wrt_map_take: "sorted_wrt R (map f t) \<Longrightarrow> sorted_wrt R (map f (take n t))"
  by (simp add: take_map [symmetric] sorted_wrt_take)

lemma bounded_limit_range: "1 \<le> bounded_limit n \<and> bounded_limit n \<le> 1000"
  by (simp add: bounded_limit_def)

text \<open>Listing runs respects ownership and its limit: only runs of the asking owner are listed,
  at most the clamped limit (1 to 1000, 100 when the caller's number is no safe integer), newest
  first, and all of them when they fit.\<close>

theorem listRuns_owned:
  "list_all (\<lambda>r. run_owner r = ow) (listRuns ow limit d)
   \<and> length (listRuns ow limit d) = min (nat (bounded_limit limit)) (count_rows (\<lambda>r. rr_owner r = ow) (runs d))
   \<and> bounded_limit limit \<in> {1..1000}
   \<and> sorted_wrt (\<ge>) (map (\<lambda>r. (run_createdAt r, run_id r)) (listRuns ow limit d))
   \<and> (int (count_rows (\<lambda>r. rr_owner r = ow) (runs d)) \<le> bounded_limit limit \<longrightarrow>
        set (listRuns ow limit d) = toRunRecord ` {r \<in> set (runs d). rr_owner r = ow})"
proof (intro conjI impI)
  let ?key = "\<lambda>r. (rr_created_at r, rr_id r)"
  let ?rows = "rev (sort_key ?key (filter (\<lambda>r. rr_owner r = ow) (runs d)))"
  have eq: "listRuns ow limit d = map toRunRecord (take (nat (bounded_limit limit)) ?rows)"
    using bounded_limit_range [of limit] by (simp add: listRuns_def sql_limit_def)
  show "list_all (\<lambda>r. run_owner r = ow) (listRuns ow limit d)"
    by (auto simp: eq list_all_iff toRunRecord_def dest!: in_set_takeD)
  show "length (listRuns ow limit d) = min (nat (bounded_limit limit)) (count_rows (\<lambda>r. rr_owner r = ow) (runs d))"
    by (simp add: eq count_rows_def)
  show "bounded_limit limit \<in> {1..1000}" using bounded_limit_range by simp
  have "map (\<lambda>r. (run_createdAt r, run_id r)) (listRuns ow limit d)
    = map ?key (take (nat (bounded_limit limit)) ?rows)"
    by (simp add: eq toRunRecord_def comp_def)
  then show "sorted_wrt (\<ge>) (map (\<lambda>r. (run_createdAt r, run_id r)) (listRuns ow limit d))"
    using sorted_wrt_map_take [OF rev_sort_key_sorted [of ?key]] by simp
  assume "int (count_rows (\<lambda>r. rr_owner r = ow) (runs d)) \<le> bounded_limit limit"
  then have "length ?rows \<le> nat (bounded_limit limit)" by (simp add: count_rows_def)
  then have "take (nat (bounded_limit limit)) ?rows = ?rows" by (rule take_all)
  then show "set (listRuns ow limit d) = toRunRecord ` {r \<in> set (runs d). rr_owner r = ow}"
    by (simp add: eq)
qed

theorem listRuns_owned_witness:
  "set (listRuns example_owner 5 dbs) = toRunRecord ` {r \<in> set (runs dbs). rr_owner r = example_owner}"
proof -
  have "int (count_rows (\<lambda>r. rr_owner r = example_owner) (runs dbs)) \<le> bounded_limit 5"
    by code_simp
  then show ?thesis using listRuns_owned [of example_owner 5 dbs] by blast
qed

section \<open>Workspace states\<close>

text \<open>A workspace changes state by compare-and-set: the update takes effect, and is reported
  with the new record, exactly when the owner's workspace is in the expected state; otherwise
  nothing changes and no record is returned. Of two competing updates with the same expected
  state that would leave it, only one can succeed.\<close>

lemma workspace_compare_and_set:
  assumes "distinct (map (\<lambda>w. (wr_owner w, wr_id w)) (workspaces d))"
    and "updateWorkspaceState now i ow expected st d = Inr (res, d')"
  shows "(case find_workspace ow i d of
      None \<Rightarrow> res = None \<and> d' = d
    | Some w \<Rightarrow> if wr_state w = expected
        then res = Some (toWorkspace (w\<lparr>wr_state := st, wr_updated_at := now\<rparr>))
          \<and> (st \<noteq> expected \<longrightarrow>
               (\<forall>now' st'. updateWorkspaceState now' i ow expected st' d' = Inr (None, d')))
        else res = None \<and> d' = d)"
proof -
  let ?hit = "\<lambda>w. wr_owner w = ow \<and> wr_id w = i \<and> wr_state w = expected"
  let ?f = "\<lambda>w. w\<lparr>wr_state := st, wr_updated_at := now\<rparr>"
  have d': "d' = d\<lparr>workspaces := update_rows ?hit ?f (workspaces d)\<rparr>"
    and res: "res = (if count_rows ?hit (workspaces d) = 1 then getWorkspace i ow d' else None)"
    using assms(2) by (auto simp: updateWorkspaceState_def Let_def)
  have uniq: "find_workspace ow i d = Some w \<longleftrightarrow> w \<in> set (workspaces d) \<and> wr_owner w = ow \<and> wr_id w = i" for w
    using find_unique_key [OF assms(1), of "(ow, i)"] by (simp add: find_workspace_def)
  have none: "res = None \<and> d' = d" if "\<forall>w\<in>set (workspaces d). \<not> ?hit w"
  proof -
    have "filter ?hit (workspaces d) = []" using that by (simp add: filter_empty_conv)
    then show ?thesis using that by (simp add: res count_rows_def) (simp add: d' update_rows_none)
  qed
  show ?thesis
  proof (cases "find_workspace ow i d")
    case None
    have "\<not> ?hit w" if "w \<in> set (workspaces d)" for w using None uniq [of w] that by auto
    with None none show ?thesis by simp
  next
    case (Some w)
    then have w: "w \<in> set (workspaces d)" "wr_owner w = ow" "wr_id w = i" by (simp_all add: uniq)
    have only: "v = w" if "v \<in> set (workspaces d)" "?hit v" for v
      using uniq [of v] that Some by simp
    show ?thesis
    proof (cases "wr_state w = expected")
      case True
      have "distinct (filter ?hit (workspaces d))" using assms(1) by (simp add: distinct_map)
      then have "count_rows ?hit (workspaces d) = card {v \<in> set (workspaces d). ?hit v}"
        unfolding count_rows_def by (simp only: distinct_card [symmetric] set_filter)
      also have "{v \<in> set (workspaces d). ?hit v} = {w}" using only w True by blast
      finally have one: "count_rows ?hit (workspaces d) = 1" by simp
      have found: "find_workspace ow i d' = Some (?f w)"
        using Some True w by (simp add: d' find_workspace_def find_update_rows)
      have "\<not> ?hit v" if "v \<in> set (workspaces d')" "st \<noteq> expected" for v
      proof -
        from that(1) have "\<not> ?hit v \<or> (\<exists>u. v = ?f u)" unfolding d' by (auto simp: set_update_rows)
        with that(2) show ?thesis by auto
      qed
      then have "updateWorkspaceState now' i ow expected st' d' = Inr (None, d')" if "st \<noteq> expected" for now' st'
        using that by (simp add: updateWorkspaceState_def Let_def update_rows_none count_rows_def
            filter_empty_conv)
      with one found Some True show ?thesis by (simp add: res getWorkspace_def)
    next
      case False
      then have "\<not> ?hit v" if "v \<in> set (workspaces d)" for v using only that by blast
      with none Some False show ?thesis by simp
    qed
  qed
qed

end
