(* ===== verification/ControlGuarantees.thy ===== *)
theory ControlGuarantees
  imports ControlProperties StoreGuarantees
begin

text \<open>
  Further properties of the coordinator's operations: recovery after a restart, approvals,
  cancellation, the order of executions, the budgets and authority of child runs.
\<close>

section \<open>Recovery after a restart\<close>

lemma completeRunningAttempts_run_state:
  assumes "completeRunningAttempts now i st d = Inr (n, d')"
  shows "run_state j d' = run_state j d" and "runs_inv d \<Longrightarrow> runs_inv d'"
  using assms
  by (auto simp: completeRunningAttempts_def complete_attempts_def run_state_row find_run_def
      intro: runs_inv_cong)

lemma reconcile_run_ok:
  assumes "runs_inv (store m)" and "run_state (run_id run) (store m) = Some s" and "\<not> isTerminalRunStatus s"
  obtains m' where "reconcile_run now run m = (Inr (), m')" "runs_inv (store m')"
    "\<And>j. run_state j (store m') = (if j = run_id run then Some ORPHANED else run_state j (store m))"
proof -
  obtain n d1 where d1: "completeRunningAttempts now (run_id run) ORPHANED (store m) = Inr (n, d1)"
    by (auto simp: completeRunningAttempts_def)
  note frame = completeRunningAttempts_run_state [OF d1]
  have inv1: "runs_inv d1" using frame(2) assms(1) by simp
  obtain e d2 where d2: "appendEvent now (restart_event run) d1 = Inr (e, d2)"
    by (rule appendEvent_succeeds [OF inv1 _ assms(3), of "restart_event run" now])
       (simp_all add: restart_event_def frame(1) assms(2))
  have "run_state j d2 = (if j = run_id run then Some ORPHANED else run_state j (store m))" for j
    using appendEvent_run_state(1) [OF d2, of j] assms(2) by (simp add: restart_event_def frame(1))
  with d1 d2 show thesis
    by (intro that [of "m\<lparr>store := d2\<rparr>"])
       (simp_all add: reconcile_run_def bind_act_def store_act_def return_act_def
          appendEvent_runs_inv [OF inv1 d2])
qed

lemma reconcile_loop:
  assumes "runs_inv (store m)" and "distinct (map run_id rs)"
    and "\<forall>r\<in>set rs. \<exists>s. run_state (run_id r) (store m) = Some s \<and> \<not> isTerminalRunStatus s"
  obtains m' where "for_each (reconcile_run now) rs m = (Inr (), m')" "runs_inv (store m')"
    "\<And>j. run_state j (store m') = (if j \<in> run_id ` set rs then Some ORPHANED else run_state j (store m))"
  using assms
proof (induction rs arbitrary: m thesis)
  case Nil
  then show ?case by (simp add: return_act_def)
next
  case (Cons r rs)
  from Cons.prems(4) obtain s where s: "run_state (run_id r) (store m) = Some s" "\<not> isTerminalRunStatus s"
    by auto
  obtain m1 where m1: "reconcile_run now r m = (Inr (), m1)" "runs_inv (store m1)"
    "\<And>j. run_state j (store m1) = (if j = run_id r then Some ORPHANED else run_state j (store m))"
    using reconcile_run_ok [OF Cons.prems(2) s] by blast
  have "run_id r \<notin> run_id ` set rs" using Cons.prems(3) by simp
  then have "run_id q \<noteq> run_id r" if "q \<in> set rs" for q using that by (metis imageI)
  then have "\<forall>q\<in>set rs. \<exists>s. run_state (run_id q) (store m1) = Some s \<and> \<not> isTerminalRunStatus s"
    using Cons.prems(4) m1(3) by simp
  then obtain m2 where m2: "for_each (reconcile_run now) rs m1 = (Inr (), m2)" "runs_inv (store m2)"
    "\<And>j. run_state j (store m2) = (if j \<in> run_id ` set rs then Some ORPHANED else run_state j (store m1))"
    using Cons.IH [OF _ m1(2)] Cons.prems(3) by auto
  show ?case
    by (rule Cons.prems(1) [of m2]) (use m1 m2 in \<open>simp_all add: bind_act_def\<close>)
qed

lemma open_runs:
  assumes "runs_inv d"
  shows "distinct (map run_id (listNonTerminalRuns d))"
    and "j \<in> run_id ` set (listNonTerminalRuns d) \<longleftrightarrow>
      (\<exists>s. run_state j d = Some s \<and> \<not> isTerminalRunStatus s)"
proof -
  have "distinct (map rr_id (filter (\<lambda>r. \<not> isTerminalRunStatus (rr_status r)) (runs d)))"
    using assms by (simp add: runs_inv_def distinct_map_filter)
  then have "distinct (map rr_id (sort_key rr_created_at (filter (\<lambda>r. \<not> isTerminalRunStatus (rr_status r)) (runs d))))"
    by (simp add: distinct_map)
  then show "distinct (map run_id (listNonTerminalRuns d))"
    by (simp add: listNonTerminalRuns_def comp_def toRunRecord_def)
  show "j \<in> run_id ` set (listNonTerminalRuns d) \<longleftrightarrow>
      (\<exists>s. run_state j d = Some s \<and> \<not> isTerminalRunStatus s)"
    using find_run_unique [OF assms, of j]
    by (auto simp: listNonTerminalRuns_def toRunRecord_def run_state_row image_iff)
qed

text \<open>Recovery after a restart is complete: reconciling any reachable store succeeds, leaves no
  run open, makes exactly the runs that were open ORPHANED, changes no other run's status, and
  returns their number; reconciling again finds nothing.\<close>

theorem reconcile_leaves_no_open_run:
  assumes "reachable fp (store m)"
  shows "\<exists>m'. reconcileInterruptedRuns now m = (Inr (length (listNonTerminalRuns (store m))), m')
    \<and> listNonTerminalRuns (store m') = []
    \<and> (\<forall>j. run_state j (store m') = (if \<exists>s. run_state j (store m) = Some s \<and> \<not> isTerminalRunStatus s
          then Some ORPHANED else run_state j (store m)))
    \<and> fst (reconcileInterruptedRuns now' m') = Inr 0"
proof -
  have inv: "runs_inv (store m)" using assms by (rule reachable_runs_inv)
  note here = open_runs [OF inv]
  have "\<forall>r\<in>set (listNonTerminalRuns (store m)). \<exists>s. run_state (run_id r) (store m) = Some s \<and> \<not> isTerminalRunStatus s"
    using here(2) by blast
  from reconcile_loop [OF inv here(1) this, of now] obtain m' where
    loop: "for_each (reconcile_run now) (listNonTerminalRuns (store m)) m = (Inr (), m')"
    and inv': "runs_inv (store m')"
    and state: "\<And>j. run_state j (store m') = (if j \<in> run_id ` set (listNonTerminalRuns (store m))
        then Some ORPHANED else run_state j (store m))" by blast
  have "j \<notin> run_id ` set (listNonTerminalRuns (store m'))" for j
  proof (cases "j \<in> run_id ` set (listNonTerminalRuns (store m))")
    case True
    then have "run_state j (store m') = Some ORPHANED" by (simp only: state if_True)
    then show ?thesis by (simp only: open_runs(2) [OF inv']) simp
  next
    case False
    then have "run_state j (store m') = run_state j (store m)" by (simp only: state if_False)
    with False show ?thesis by (simp only: open_runs(2) [OF inv'] here(2) not_False_eq_True)
  qed
  then have "run_id ` set (listNonTerminalRuns (store m')) = {}" by (rule equals0I [OF notE])
  then have none: "listNonTerminalRuns (store m') = []" by (simp only: image_is_empty set_empty)
  moreover have "reconcileInterruptedRuns now m = (Inr (length (listNonTerminalRuns (store m))), m')"
    by (simp add: reconcileInterruptedRuns_def Let_def bind_act_def loop return_act_def)
  moreover have "fst (reconcileInterruptedRuns now' m') = Inr 0"
    by (simp add: reconcileInterruptedRuns_def Let_def none bind_act_def return_act_def)
  ultimately show ?thesis using state unfolding here(2) by blast
qed

theorem reconcile_leaves_no_open_run_witness:
  "\<exists>m'. reconcileInterruptedRuns 50 (manager_of db2) = (Inr 1, m') \<and> listNonTerminalRuns (store m') = []"
proof -
  have "length (listNonTerminalRuns (store (manager_of db2))) = 1" by code_simp
  then show ?thesis
    using reconcile_leaves_no_open_run [of example_fp "manager_of db2" 50 60] db_reachable(2)
    by (auto simp: manager_of_def)
qed

section \<open>Deciding approvals\<close>

lemma resolvable_own:
  assumes "getApproval i d = Some a" and "apr_status a = PENDING"
  shows "resolvable t i st (apr_executionDigest a) d a \<longleftrightarrow> (st \<noteq> APPROVED \<or> t < apr_expiresAt a)
    \<and> list_ex (\<lambda>r. rr_id r = apr_runId a \<and> \<not> isTerminalRunStatus (rr_status r)) (runs d)"
  using assms by (auto simp: resolvable_def getApproval_def find_approval_def dest: find_SomeD)

lemma resolve_as_cases:
  assumes "reachable fp (store m)" and "getApproval i (store m) = Some a" and "apr_status a = PENDING"
    and "resolve_as t a st m = (Inr res, m')"
  shows "res = Some (if resolvable t i st (apr_executionDigest a) (store m) a
      then a\<lparr>apr_status := st, apr_resolvedAt := Some t\<rparr> else a)"
    and "approvalWaiters m' = approvalWaiters m \<and> settledWaiters m' = settledWaiters m"
    and "\<not> resolvable t i st (apr_executionDigest a) (store m) a \<Longrightarrow> m' = m"
proof -
  have i: "apr_id a = i"
    using assms(2) by (auto simp: getApproval_def find_approval_def dest: find_SomeD)
  obtain changed d1 where w: "resolve_within t i st (apr_executionDigest a) (store m) = (changed, d1)"
    by (cases "resolve_within t i st (apr_executionDigest a) (store m)")
  note out = resolve_within_outcome [OF reachable_approval_ids [OF assms(1)] assms(2) w]
  let ?p = "resolution_payload i st (apr_executionDigest a)"
  obtain d' where r: "resolveApprovalAndAppendEvent t i st (apr_executionDigest a) ?p (store m) = Inr (res, d')"
    and m': "m' = m\<lparr>store := d'\<rparr>"
    using assms(4) by (auto simp: resolve_as_def store_act_def i split: sum.splits prod.splits)
  show "approvalWaiters m' = approvalWaiters m \<and> settledWaiters m' = settledWaiters m" by (simp add: m')
  show "res = Some (if resolvable t i st (apr_executionDigest a) (store m) a
      then a\<lparr>apr_status := st, apr_resolvedAt := Some t\<rparr> else a)"
  proof (cases changed)
    case True
    with out(1,3) r w show ?thesis by (auto simp: resolveApprovalAndAppendEvent_def result_simps)
  next
    case False
    with out(1,2) r w assms(2) show ?thesis by (auto simp: resolveApprovalAndAppendEvent_def)
  qed
  show "m' = m" if "\<not> resolvable t i st (apr_executionDigest a) (store m) a"
    using that out(1,2) r w m' assms(2) by (auto simp: resolveApprovalAndAppendEvent_def)
qed

text \<open>Resolving a pending approval decides it on current facts: an approval that has expired is
  never approved, whatever the answer; otherwise it becomes APPROVED only if the user
  approved and the run, its owner, workspace, agent policy and route are still those of its
  digest. The record the caller gets back is pending only when the run is over, and the
  waiting tool call goes on exactly for an APPROVED record.\<close>

theorem resolve_approval_decides:
  assumes "reachable fp (store m)" and "getApproval i (store m) = Some a" and "apr_status a = PENDING"
    and "service_resolveApproval cf t1 t2 t3 i approved m = (Inr res, m')"
  shows "\<exists>r. res = Some r
    \<and> (apr_status r = PENDING \<longrightarrow>
        \<not> list_ex (\<lambda>x. rr_id x = apr_runId a \<and> \<not> isTerminalRunStatus (rr_status x)) (runs (store m)))
    \<and> (apr_status r = APPROVED \<longrightarrow> approved \<and> t1 < apr_expiresAt a \<and> t2 < apr_expiresAt a
         \<and> approvalBindingIsCurrent cf a None (store m) = Inr True)
    \<and> (i \<in> set (approvalWaiters m) \<longrightarrow> last (settledWaiters m') = (i, apr_status r = APPROVED))"
proof -
  obtain valid where valid: "approvalBindingIsCurrent cf a None (store m) = Inr valid"
    using assms by (auto simp: service_resolveApproval_def bind_act_def lift_result_def throw_act_def
        split: sum.splits)
  define st where "st = (if apr_expiresAt a \<le> t1 then EXPIRED else if valid \<and> approved then APPROVED else DENIED)"
  have st: "st \<noteq> PENDING" by (simp add: st_def)
  have "service_resolveApproval cf t1 t2 t3 i approved m = bind_act (resolve_as t2 a st) (\<lambda>r1.
      bind_act (if st = APPROVED \<and> is_pending r1 then resolve_as t3 a EXPIRED else return_act r1) (\<lambda>resolved.
      bind_act (modify_act (settle_waiter i (is_approved resolved))) (\<lambda>_. return_act resolved))) m"
    unfolding service_resolveApproval_def assms(2) option.case valid lift_result_def sum.case st_def Let_def
    by (simp only: assms(3) not_True_eq_False if_False simp_thms act_bind_ok [OF return_act_def])
  then have body: "bind_act (resolve_as t2 a st) (\<lambda>r1.
      bind_act (if st = APPROVED \<and> is_pending r1 then resolve_as t3 a EXPIRED else return_act r1) (\<lambda>resolved.
      bind_act (modify_act (settle_waiter i (is_approved resolved))) (\<lambda>_. return_act resolved))) m = (Inr res, m')"
    using assms(4) by simp
  then obtain r1 m1 where r1: "resolve_as t2 a st m = (Inr r1, m1)"
    by (auto simp: bind_act_def split: prod.splits sum.splits)
  note first = resolve_as_cases [OF assms(1-3) r1]
  let ?open = "list_ex (\<lambda>x. rr_id x = apr_runId a \<and> \<not> isTerminalRunStatus (rr_status x)) (runs (store m))"
  have res1: "r1 = Some (if (st \<noteq> APPROVED \<or> t2 < apr_expiresAt a) \<and> ?open
      then a\<lparr>apr_status := st, apr_resolvedAt := Some t2\<rparr> else a)"
    using first(1) by (simp add: resolvable_own [OF assms(2,3)])
  have rest: "bind_act (if st = APPROVED \<and> is_pending r1 then resolve_as t3 a EXPIRED else return_act r1) (\<lambda>resolved.
      bind_act (modify_act (settle_waiter i (is_approved resolved))) (\<lambda>_. return_act resolved)) m1 = (Inr res, m')"
    using body by (simp add: bind_act_def [of "resolve_as t2 a st"] r1)
  then obtain r2 m2 where r2: "(if st = APPROVED \<and> is_pending r1 then resolve_as t3 a EXPIRED else return_act r1) m1
      = (Inr r2, m2)" and m': "res = r2" "m' = settle_waiter i (is_approved r2) m2"
    by (auto simp: bind_act_def modify_act_def return_act_def split: prod.splits sum.splits)
  have "\<exists>r. r2 = Some r \<and> (apr_status r = PENDING \<longrightarrow> \<not> ?open)
      \<and> (apr_status r = APPROVED \<longrightarrow> st = APPROVED \<and> t2 < apr_expiresAt a)
      \<and> approvalWaiters m2 = approvalWaiters m"
  proof (cases "st = APPROVED \<and> is_pending r1")
    case True
    then have "\<not> (t2 < apr_expiresAt a \<and> ?open)" using res1 by (auto simp: is_pending_def)
    then have "\<not> resolvable t2 i st (apr_executionDigest a) (store m) a"
      using True by (simp add: resolvable_own [OF assms(2,3)])
    from first(3) [OF this] have "m1 = m" .
    with r2 True have "resolve_as t3 a EXPIRED m = (Inr r2, m2)" by simp
    note second = resolve_as_cases [OF assms(1-3) this]
    show ?thesis using second(1,2) assms(3) by (simp add: resolvable_own [OF assms(2,3)])
  next
    case False
    have "r2 = r1" "m2 = m1" using r2 [unfolded if_not_P [OF False]] by (simp_all add: return_act_def)
    then show ?thesis using res1 first(2) False st assms(3) by (auto simp: is_pending_def split: if_splits)
  qed
  moreover have "approved \<and> t1 < apr_expiresAt a \<and> valid" if "st = APPROVED"
    using that by (auto simp: st_def split: if_splits)
  ultimately show ?thesis
    using m' valid by (auto simp: settle_waiter_def is_approved_def)
qed

definition approval_manager :: manager where
  "approval_manager = (manager_of db2)\<lparr>active := [(''run_1'', None)]\<rparr>"

definition exec_call :: tool_call where
  "exec_call = \<lparr>tc_id = ''c1'', tc_name = ''exec'', tc_arguments = [(''cmd'', JStr ''ls'')]\<rparr>"

definition asked_manager :: manager where
  "asked_manager = snd (request_approval example_config 40 ''ap1'' (toRunRecord (hd (runs db2))) exec_call 1 approval_manager)"

theorem resolve_approval_decides_witness:
  "\<exists>res m'. service_resolveApproval example_config 50 51 52 ''ap1'' True asked_manager = (Inr res, m')
     \<and> last (settledWaiters m') = (''ap1'', True)"
proof -
  have "store_history example_config approval_manager asked_manager"
    unfolding asked_manager_def
    by (rule coordinator_store.advances_at [OF coordinator_store.advances_request])
  then have reach: "reachable example_fp (store asked_manager)"
    using reachable_steps [OF _ db_reachable(2)]
    by (simp add: store_history_def example_config_def approval_manager_def manager_of_def)
  have "map_option apr_status (getApproval ''ap1'' (store asked_manager)) = Some PENDING" by code_simp
  then obtain a where a: "getApproval ''ap1'' (store asked_manager) = Some a" "apr_status a = PENDING"
    by blast
  let ?r = "service_resolveApproval example_config 50 51 52 ''ap1'' True asked_manager"
  have ok: "is_ok (fst ?r)" and approved: "map_option apr_status (projr (fst ?r)) = Some APPROVED"
    and waits: "''ap1'' \<in> set (approvalWaiters asked_manager)" by code_simp+
  from ok obtain res where "fst ?r = Inr res" by (cases "fst ?r") auto
  then have res: "?r = (Inr res, snd ?r)" by (metis prod.collapse)
  from resolve_approval_decides [OF reach a res] obtain r where "res = Some r"
    "''ap1'' \<in> set (approvalWaiters asked_manager) \<longrightarrow> last (settledWaiters (snd ?r)) = (''ap1'', apr_status r = APPROVED)"
    by blast
  moreover from this approved \<open>fst ?r = Inr res\<close> have "apr_status r = APPROVED" by simp
  ultimately have "last (settledWaiters (snd ?r)) = (''ap1'', True)" using waits by simp
  with res show ?thesis by blast
qed

text \<open>A tool call is admitted only under the agent's present policy: authorization fails for a tool
  that the agent profile does not list, fails for every delivery tool of a run that must not
  deliver, and a call that needs approval comes back with a PENDING approval, bound to the
  call's id, name and argument digest and to the run's owner and workspace, and with nobody
  allowed to run it yet.\<close>

theorem authorize_tool_admits:
  assumes "authorizeTool cf now i run call m = (Inr res, m')"
  shows "(\<exists>p. getAgentProfile (run_agentId run) (run_owner run) (store m) = Some p
        \<and> tc_name call \<in> set (ap_allowedTools p))
    \<and> (run_deliveryAllowed run \<or> tc_name call \<notin> set delivery_tools)
    \<and> (case res of
         None \<Rightarrow> \<not> cf_requiresApproval cf call run \<and> m' = m
       | Some a \<Rightarrow> cf_requiresApproval cf call run \<and> apr_status a = PENDING
           \<and> apr_id a = i \<and> apr_runId a = run_id run
           \<and> apr_toolCallId a = tc_id call \<and> apr_toolName a = tc_name call
           \<and> args_digest cf call = Inr (apr_toolArgumentsDigest a)
           \<and> apr_owner a = run_owner run \<and> apr_workspaceId a = run_workspaceId run
           \<and> apr_expiresAt a = now + cf_approvalTimeoutMs cf
           \<and> i \<in> set (approvalWaiters m'))"
proof -
  from assms obtain p where p: "getAgentProfile (run_agentId run) (run_owner run) (store m) = Some p"
    "tc_name call \<in> set (ap_allowedTools p)" "run_deliveryAllowed run \<or> tc_name call \<notin> set delivery_tools"
    and req: "request_approval cf now i run call (ap_version p) m = (Inr res, m')"
    by (auto simp: authorizeTool_def split: option.splits if_splits)
  have "case res of
         None \<Rightarrow> \<not> cf_requiresApproval cf call run \<and> m' = m
       | Some a \<Rightarrow> cf_requiresApproval cf call run \<and> apr_status a = PENDING
           \<and> apr_id a = i \<and> apr_runId a = run_id run
           \<and> apr_toolCallId a = tc_id call \<and> apr_toolName a = tc_name call
           \<and> args_digest cf call = Inr (apr_toolArgumentsDigest a)
           \<and> apr_owner a = run_owner run \<and> apr_workspaceId a = run_workspaceId run
           \<and> apr_expiresAt a = now + cf_approvalTimeoutMs cf
           \<and> i \<in> set (approvalWaiters m')"
    using req
    by (auto simp: request_approval_def return_act_def bind_act_def store_act_def modify_act_def
        lift_result_def throw_act_def throw_if_aborted_def approval_draft_def createApproval_def
        result_simps Let_def set_add_def split: if_splits sum.splits prod.splits option.splits)
  with p show ?thesis by blast
qed

theorem authorize_tool_admits_witness:
  "\<exists>a m'. authorizeTool example_config 40 ''ap1''
       ((toRunRecord (hd (runs db2)))\<lparr>run_agentId := ''ag''\<rparr>) (exec_call\<lparr>tc_name := ''read_file''\<rparr>) approval_manager
     = (Inr a, m') \<and> a = None"
proof -
  let ?r = "authorizeTool example_config 40 ''ap1''
       ((toRunRecord (hd (runs db2)))\<lparr>run_agentId := ''ag''\<rparr>) (exec_call\<lparr>tc_name := ''read_file''\<rparr>) approval_manager"
  have "is_ok (fst ?r)" by code_simp
  then obtain a where a: "?r = (Inr a, snd ?r)" by (cases "fst ?r") (auto simp: prod_eq_iff)
  have "\<not> cf_requiresApproval example_config (exec_call\<lparr>tc_name := ''read_file''\<rparr>)
      ((toRunRecord (hd (runs db2)))\<lparr>run_agentId := ''ag''\<rparr>)"
    by (simp add: example_config_def)
  with authorize_tool_admits [OF a] have "a = None" by (auto split: option.splits)
  with a show ?thesis by blast
qed

end
