(* ===== verification/ControlQueue.thy ===== *)
theory ControlQueue
  imports ControlExecution StoreTheorems
begin

text \<open>
  The order of executions (\<open>#enqueue\<close> and the \<open>finally\<close> of an execution): every run waits for
  the previous run of its workspace and of its session. Executions of one workspace or session of an owner
  never overlap, and the queue never deadlocks.
\<close>

type_synonym entry = "string \<times> string list \<times> string list"

definition on_key :: "string \<Rightarrow> entry list \<Rightarrow> string list" where
  "on_key k E = map fst (filter (\<lambda>(j, keys, preds). k \<in> set keys) E)"

text \<open>A run is queued at most once, when it leaves ACCEPTED: nothing unsettled is or waits for it.
  An execution settles only when everything it waits for has settled. In \<open>queue_reach m rs\<close> the list
  \<open>rs\<close> holds the runs that were queued since the coordinator was idle and have not settled, in their order.\<close>

definition unknown_to :: "string \<Rightarrow> entry list \<Rightarrow> bool" where
  "unknown_to i E \<longleftrightarrow> (\<forall>(j, keys, preds)\<in>set E. j \<noteq> i \<and> i \<notin> set preds)"

inductive queue_reach :: "manager \<Rightarrow> run_record list \<Rightarrow> bool" where
  idle: "executions m = [] \<Longrightarrow> queueTails m = [] \<Longrightarrow> queue_reach m []"
| queue: "queue_reach m rs \<Longrightarrow> unknown_to (run_id run) (executions m) \<Longrightarrow>
    queue_reach (queue_execution run m) (rs @ [run])"
| settle: "queue_reach m rs \<Longrightarrow> ready i m \<Longrightarrow>
    queue_reach (settle_execution i m) (filter (\<lambda>r. run_id r \<noteq> i) rs)"
| other: "queue_reach m rs \<Longrightarrow> executions m' = executions m \<Longrightarrow> queueTails m' = queueTails m \<Longrightarrow> queue_reach m' rs"

definition waits_for_previous :: "string \<Rightarrow> entry list \<Rightarrow> bool" where
  "waits_for_previous k E \<longleftrightarrow> (\<forall>A e B. E = A @ e # B \<longrightarrow> k \<in> set (fst (snd e)) \<longrightarrow> on_key k A \<noteq> [] \<longrightarrow>
     last (on_key k A) \<in> set (snd (snd e)))"

definition waits_for_earlier :: "entry list \<Rightarrow> bool" where
  "waits_for_earlier E \<longleftrightarrow> (\<forall>A e B. E = A @ e # B \<longrightarrow> set (snd (snd e)) \<inter> fst ` set (e # B) = {})"

definition queue_inv :: "manager \<Rightarrow> bool" where
  "queue_inv m \<longleftrightarrow> distinct (map fst (executions m)) \<and> distinct (map fst (queueTails m))
     \<and> (\<forall>k. map_of (queueTails m) k =
          (if on_key k (executions m) = [] then None else Some (last (on_key k (executions m)))))
     \<and> (\<forall>k. waits_for_previous k (executions m)) \<and> waits_for_earlier (executions m)"

lemma on_key_simps [simp]:
  "on_key k [] = []" "on_key k (A @ B) = on_key k A @ on_key k B"
  "on_key k ((j, keys, preds) # B) = (if k \<in> set keys then j # on_key k B else on_key k B)"
  by (simp_all add: on_key_def)

lemma on_key_subset: "set (on_key k E) \<subseteq> fst ` set E"
  by (auto simp: on_key_def)

lemma map_of_fold_update:
  "map_of (fold (\<lambda>k. AList.update k v) ks t) k = (if k \<in> set ks then Some v else map_of t k)"
  by (induction ks arbitrary: t) (auto simp: update_conv')

lemma distinct_fold_update:
  "distinct (map fst t) \<Longrightarrow> distinct (map fst (fold (\<lambda>k. AList.update k v) ks t))"
  by (induction ks arbitrary: t) (auto simp: distinct_update)

lemma append_snoc_cases:
  assumes "E @ [x] = A @ e # B"
  obtains "A = E" "e = x" "B = []" | B' where "E = A @ e # B'" "B = B' @ [x]"
  using assms by (cases B rule: rev_cases) auto

lemma queue_inv_queue:
  assumes inv: "queue_inv m" and unknown: "unknown_to (run_id run) (executions m)"
  shows "queue_inv (queue_execution run m)"
proof -
  let ?E = "executions m" and ?T = "queueTails m" and ?i = "run_id run" and ?keys = "queue_keys run"
  let ?preds = "List.map_filter (map_of ?T) ?keys" and ?x = "(run_id run, queue_keys run, List.map_filter (map_of (queueTails m)) (queue_keys run))"
  have fresh: "?i \<notin> fst ` set ?E" using unknown by (auto simp: unknown_to_def)
  have tails: "map_of ?T k = (if on_key k ?E = [] then None else Some (last (on_key k ?E)))" for k
    using inv by (simp add: queue_inv_def)
  have preds: "set ?preds \<subseteq> fst ` set ?E"
  proof
    fix p assume "p \<in> set ?preds"
    then obtain k where "map_of ?T k = Some p" by (auto simp: List.map_filter_def)
    then have "on_key k ?E \<noteq> []" "p = last (on_key k ?E)" by (auto simp: tails split: if_splits)
    then show "p \<in> fst ` set ?E" using on_key_subset [of k ?E] last_in_set by blast
  qed
  have prev: "waits_for_previous k (?E @ [?x])" for k
    unfolding waits_for_previous_def
  proof (intro allI impI)
    fix A e B
    assume split: "?E @ [?x] = A @ e # B" and k: "k \<in> set (fst (snd e))" and ne: "on_key k A \<noteq> []"
    from split show "last (on_key k A) \<in> set (snd (snd e))"
    proof (cases rule: append_snoc_cases)
      case 1
      with k ne have "map_of ?T k = Some (last (on_key k A))" "k \<in> set ?keys" by (simp_all add: tails)
      then have "last (on_key k A) \<in> set ?preds"
        by (auto simp: List.map_filter_def intro!: rev_image_eqI [of k])
      with 1 show ?thesis by simp
    next
      case 2
      have "waits_for_previous k ?E" using inv by (simp add: queue_inv_def)
      with 2(1) k ne show ?thesis unfolding waits_for_previous_def by blast
    qed
  qed
  have earlier: "waits_for_earlier (?E @ [?x])"
    unfolding waits_for_earlier_def
  proof (intro allI impI)
    fix A e B
    assume "?E @ [?x] = A @ e # B"
    then show "set (snd (snd e)) \<inter> fst ` set (e # B) = {}"
    proof (cases rule: append_snoc_cases)
      case 1
      with preds fresh show ?thesis by auto
    next
      case (2 B')
      have old: "set (snd (snd e)) \<inter> fst ` set (e # B') = {}"
        using inv 2(1) unfolding queue_inv_def waits_for_earlier_def by blast
      moreover have "?i \<notin> set (snd (snd e))" using unknown 2(1) by (auto simp: unknown_to_def)
      ultimately show ?thesis using 2(2) by auto
    qed
  qed
  show ?thesis
    using inv fresh prev earlier
    by (simp add: queue_inv_def queue_execution_def Let_def tails map_of_fold_update distinct_fold_update)
qed

text \<open>What is ready to run is the first of its keys; settling it keeps the order of the rest.\<close>

lemma ready_entry:
  assumes "queue_inv m" and "ready i m"
  obtains A keys preds B where "executions m = A @ (i, keys, preds) # B"
    "set preds \<inter> fst ` set (executions m) = {}" "\<And>k. k \<in> set keys \<Longrightarrow> on_key k A = []"
proof -
  from assms(2) obtain keys preds where e: "(i, keys, preds) \<in> set (executions m)"
    and free: "set preds \<inter> fst ` set (executions m) = {}"
    by (auto simp: ready_def list_ex_iff list_all_iff)
  from e obtain A B where split: "executions m = A @ (i, keys, preds) # B" by (meson split_list)
  have "on_key k A = []" if "k \<in> set keys" for k
  proof (rule ccontr)
    assume ne: "on_key k A \<noteq> []"
    have "waits_for_previous k (executions m)" using assms(1) by (simp add: queue_inv_def)
    with split that ne have "last (on_key k A) \<in> set preds"
      unfolding waits_for_previous_def by (metis fst_conv snd_conv)
    moreover have "last (on_key k A) \<in> fst ` set (executions m)"
      using on_key_subset [of k A] last_in_set [OF ne] split by auto
    ultimately show False using free by blast
  qed
  with split free show thesis by (intro that)
qed

lemma settle_entries:
  assumes "distinct (map fst E)" and "E = A @ (i, keys, preds) # B"
  shows "filter (\<lambda>(j, ks, ps). j \<noteq> i) E = A @ B"
proof -
  have "\<forall>x\<in>set A \<union> set B. case x of (j, ks, ps) \<Rightarrow> j \<noteq> i" using assms by force
  then have "filter (\<lambda>(j, ks, ps). j \<noteq> i) A = A" "filter (\<lambda>(j, ks, ps). j \<noteq> i) B = B"
    by (auto intro!: filter_True)
  then show ?thesis unfolding assms(2) by simp
qed

lemma append_eq_append_Cons_cases:
  assumes "A @ B = C @ e # D"
  obtains B1 where "A = C @ e # B1" "D = B1 @ B" | C1 where "C = A @ C1" "B = C1 @ e # D"
  using assms by (auto simp: append_eq_append_conv2 append_eq_Cons_conv)

lemma map_of_filter_value:
  "distinct (map fst T) \<Longrightarrow> map_of (filter (\<lambda>(k, j). j \<noteq> i) T) k =
     (case map_of T k of None \<Rightarrow> None | Some j \<Rightarrow> if j \<noteq> i then Some j else None)"
proof (induction T)
  case Nil
  then show ?case by simp
next
  case (Cons p T)
  obtain x j where p: "p = (x, j)" by (cases p)
  with Cons.prems have "map_of T x = None" by (simp add: map_of_eq_None_iff)
  with Cons p show ?case by auto
qed

lemma queue_inv_settle:
  assumes inv: "queue_inv m" and rdy: "ready i m"
  shows "queue_inv (settle_execution i m)"
proof -
  let ?T = "queueTails m" and ?E = "executions m"
  obtain A keys preds B where split: "?E = A @ (i, keys, preds) # B"
    and first: "\<And>k. k \<in> set keys \<Longrightarrow> on_key k A = []"
    using ready_entry [OF inv rdy] by metis
  have dist: "distinct (map fst ?E)" "distinct (map fst ?T)"
    and tails: "\<And>k. map_of ?T k = (if on_key k ?E = [] then None else Some (last (on_key k ?E)))"
    using inv by (simp_all add: queue_inv_def)
  have rest: "filter (\<lambda>(j, ks, ps). j \<noteq> i) ?E = A @ B"
    by (rule settle_entries [OF dist(1) split])
  have notin: "i \<notin> fst ` set A" "i \<notin> fst ` set B" using dist(1) split by auto
  then have no_i: "i \<notin> set (on_key k A)" "i \<notin> set (on_key k B)" for k
    using on_key_subset by blast+
  have chain: "on_key k ?E = on_key k A @ (if k \<in> set keys then [i] else []) @ on_key k B" for k
    by (simp add: split)
  have "map_of (filter (\<lambda>(k, j). j \<noteq> i) ?T) k =
      (if on_key k (A @ B) = [] then None else Some (last (on_key k (A @ B))))" for k
  proof (cases "k \<in> set keys")
    case True
    have "last (on_key k B) \<noteq> i" if "on_key k B \<noteq> []" using no_i(2) last_in_set [OF that] by metis
    then show ?thesis
      using True first [OF True] by (simp add: map_of_filter_value [OF dist(2)] tails chain)
  next
    case False
    have "last (on_key k (A @ B)) \<noteq> i" if "on_key k (A @ B) \<noteq> []"
      using no_i last_in_set [OF that] by auto
    then show ?thesis
      using False by (auto simp: map_of_filter_value [OF dist(2)] tails chain)
  qed
  moreover have "waits_for_previous k (A @ B)" for k
    unfolding waits_for_previous_def
  proof (intro allI impI)
    fix C e D
    assume at: "A @ B = C @ e # D" and k: "k \<in> set (fst (snd e))" and ne: "on_key k C \<noteq> []"
    from at show "last (on_key k C) \<in> set (snd (snd e))"
    proof (cases rule: append_eq_append_Cons_cases)
      case (1 B1)
      then have "?E = C @ e # (B1 @ (i, keys, preds) # B)" by (simp add: split)
      with inv k ne show ?thesis unfolding queue_inv_def waits_for_previous_def by blast
    next
      case (2 C1)
      then have "?E = (A @ (i, keys, preds) # C1) @ e # D" by (simp add: split)
      moreover have "on_key k (A @ (i, keys, preds) # C1) \<noteq> []"
        "last (on_key k (A @ (i, keys, preds) # C1)) = last (on_key k C)"
        using ne 2(1) first [of k] by auto
      ultimately show ?thesis using inv k unfolding queue_inv_def waits_for_previous_def by metis
    qed
  qed
  moreover have "waits_for_earlier (A @ B)"
    unfolding waits_for_earlier_def
  proof (intro allI impI)
    fix C e D
    assume "A @ B = C @ e # D"
    then show "set (snd (snd e)) \<inter> fst ` set (e # D) = {}"
    proof (cases rule: append_eq_append_Cons_cases)
      case (1 B1)
      then have "?E = C @ e # (B1 @ (i, keys, preds) # B)" by (simp add: split)
      with inv have "set (snd (snd e)) \<inter> fst ` set (e # (B1 @ (i, keys, preds) # B)) = {}"
        unfolding queue_inv_def waits_for_earlier_def by blast
      with 1(2) show ?thesis by auto
    next
      case (2 C1)
      then have "?E = (A @ (i, keys, preds) # C1) @ e # D" by (simp add: split)
      with inv show ?thesis unfolding queue_inv_def waits_for_earlier_def by blast
    qed
  qed
  moreover have "distinct (map fst (A @ B))" using dist(1) split by auto
  moreover have "distinct (map fst (filter (\<lambda>(k, j). j \<noteq> i) ?T))"
    using dist(2) by (simp add: distinct_map_filter)
  ultimately show ?thesis by (simp add: queue_inv_def settle_execution_def rest)
qed

lemma empty_queue_inv: "executions m = [] \<Longrightarrow> queueTails m = [] \<Longrightarrow> queue_inv m"
  by (simp add: queue_inv_def waits_for_previous_def waits_for_earlier_def)

lemma queue_reach_inv: "queue_reach m rs \<Longrightarrow> queue_inv m"
proof (induction rule: queue_reach.induct)
  case (idle m)
  then show ?case by (rule empty_queue_inv)
next
  case (queue m rs run)
  then show ?case by (intro queue_inv_queue)
next
  case (settle m rs i)
  then show ?case by (intro queue_inv_settle)
next
  case (other m rs m')
  then show ?case by (simp add: queue_inv_def)
qed

text \<open>The recorded executions are those of the queued runs, on the keys of each.\<close>

definition entry_of :: "run_record \<Rightarrow> string list \<Rightarrow> entry" where
  "entry_of r preds = (run_id r, queue_keys r, preds)"

lemma queue_reach_entries: "queue_reach m rs \<Longrightarrow> list_all2 (\<lambda>e r. \<exists>preds. e = entry_of r preds) (executions m) rs"
proof (induction rule: queue_reach.induct)
  case (queue m rs run)
  then show ?case by (simp add: queue_execution_def Let_def list_all2_appendI entry_of_def)
next
  case (settle m rs i)
  have "list_all2 (\<lambda>e r. \<exists>preds. e = entry_of r preds) E rs \<Longrightarrow>
      list_all2 (\<lambda>e r. \<exists>preds. e = entry_of r preds) (filter (\<lambda>(j, keys, preds). j \<noteq> i) E) (filter (\<lambda>r. run_id r \<noteq> i) rs)" for E
    by (induction E rs rule: list_all2_induct) (auto simp: entry_of_def)
  with settle.IH show ?case by (simp add: settle_execution_def)
qed simp_all

lemma queued_run_entry:
  assumes "queue_reach m rs" and "r \<in> set rs"
  obtains preds where "(run_id r, queue_keys r, preds) \<in> set (executions m)"
  using queue_reach_entries [OF assms(1)] assms(2) unfolding list_all2_conv_all_nth in_set_conv_nth entry_of_def
  by metis

text \<open>Two executions that may run have no key in common, for the first execution on a key is the only one.\<close>

lemma ready_first:
  assumes "queue_inv m" and "ready i m" and "(i, keys, preds) \<in> set (executions m)" and "k \<in> set keys"
  shows "hd (on_key k (executions m)) = i"
proof -
  obtain A keys' preds' B where split: "executions m = A @ (i, keys', preds') # B"
    and front: "\<And>k. k \<in> set keys' \<Longrightarrow> on_key k A = []"
    using ready_entry [OF assms(1,2)] by metis
  have "distinct (map fst (executions m))" using assms(1) by (simp add: queue_inv_def)
  moreover have "(i, keys', preds') \<in> set (executions m)" using split by simp
  ultimately have "(keys', preds') = (keys, preds)" using assms(3) by (rule eq_key_imp_eq_value)
  then show ?thesis using split front assms(4) by simp
qed

lemma ready_keys_disjoint:
  assumes "queue_reach m rs" and "r \<in> set rs" "s \<in> set rs" and "ready (run_id r) m" "ready (run_id s) m"
    and "run_id r \<noteq> run_id s"
  shows "set (queue_keys r) \<inter> set (queue_keys s) = {}"
proof -
  note inv = queue_reach_inv [OF assms(1)]
  obtain pr where r: "(run_id r, queue_keys r, pr) \<in> set (executions m)" using queued_run_entry [OF assms(1,2)] .
  obtain ps where s: "(run_id s, queue_keys s, ps) \<in> set (executions m)" using queued_run_entry [OF assms(1,3)] .
  show ?thesis using ready_first [OF inv assms(4) r] ready_first [OF inv assms(5) s] assms(6) by fastforce
qed

text \<open>C17: Executions are serialized per workspace and per session, and never deadlock. From an idle
  coordinator, after any sequence of queueing and settling, take two different unsettled runs of one owner that may
  both run at this moment: they have different workspaces, and not the same (non-empty) session. And if any run is
  unsettled, the one that was queued first among them is free to run.\<close>

theorem executions_serialized:
  assumes "queue_reach m rs"
  shows "(\<forall>r\<in>set rs. \<forall>s\<in>set rs. ready (run_id r) m \<longrightarrow> ready (run_id s) m \<longrightarrow> run_id r \<noteq> run_id s \<longrightarrow>
      run_owner r = run_owner s \<longrightarrow>
        run_workspaceId r \<noteq> run_workspaceId s
        \<and> (\<forall>session. run_sessionId r = Some session \<longrightarrow> session \<noteq> [] \<longrightarrow> run_sessionId s \<noteq> Some session))
    \<and> (rs \<noteq> [] \<longrightarrow> ready (run_id (hd rs)) m)"
proof (intro conjI ballI impI allI)
  fix r s
  assume two: "r \<in> set rs" "s \<in> set rs" "ready (run_id r) m" "ready (run_id s) m" "run_id r \<noteq> run_id s"
    and same: "run_owner r = run_owner s"
  note disjoint = ready_keys_disjoint [OF assms two]
  have "workspace_key (run_owner r) (run_workspaceId r) \<in> set (queue_keys r)"
    "workspace_key (run_owner s) (run_workspaceId s) \<in> set (queue_keys s)" by (simp_all add: queue_keys_def set_insort_key)
  with disjoint same show "run_workspaceId r \<noteq> run_workspaceId s" by auto
  fix session assume "run_sessionId r = Some session" "session \<noteq> []"
  then have key: "session_key (run_owner r) session \<in> set (queue_keys r)" by (simp add: queue_keys_def truthy_def set_insort_key)
  show "run_sessionId s \<noteq> Some session"
  proof
    assume "run_sessionId s = Some session"
    with \<open>session \<noteq> []\<close> have "session_key (run_owner s) session \<in> set (queue_keys s)"
      by (simp add: queue_keys_def truthy_def set_insort_key)
    with key disjoint same show False by auto
  qed
next
  assume "rs \<noteq> []"
  then obtain r rest where rs: "rs = r # rest" by (cases rs) auto
  obtain preds B where split: "executions m = (run_id r, queue_keys r, preds) # B"
    using queue_reach_entries [OF assms] unfolding rs by (auto simp: list_all2_Cons2 entry_of_def)
  have "waits_for_earlier (executions m)" using queue_reach_inv [OF assms] by (simp add: queue_inv_def)
  with split have "set preds \<inter> fst ` set (executions m) = {}"
    unfolding waits_for_earlier_def by (metis append_Nil snd_conv)
  then show "ready (run_id (hd rs)) m"
    unfolding ready_def rs split by (auto simp: list_all_iff)
qed

definition idle_manager :: manager where
  "idle_manager = \<lparr>store = db1, accepting = True, active = [], steering = [], approvalWaiters = [],
     settledWaiters = [], scheduled = [], queueTails = [], executions = []\<rparr>"

definition first_run :: run_record where "first_run = toRunRecord (hd (runs db1))"

definition second_run :: run_record where "second_run = first_run\<lparr>run_id := ''run_2''\<rparr>"

definition busy_manager :: manager where
  "busy_manager = queue_execution second_run (queue_execution first_run idle_manager)"

theorem executions_serialized_witness:
  "ready (run_id first_run) busy_manager \<and> \<not> ready (run_id second_run) busy_manager"
proof -
  have idle: "executions idle_manager = []" "queueTails idle_manager = []" by (simp_all add: idle_manager_def)
  have "queue_reach (queue_execution first_run idle_manager) ([] @ [first_run])"
    by (rule queue_reach.queue [OF queue_reach.idle [OF idle]]) (simp add: idle(1) unknown_to_def)
  moreover have "unknown_to (run_id second_run) (executions (queue_execution first_run idle_manager))" by code_simp
  ultimately have "queue_reach busy_manager (([] @ [first_run]) @ [second_run])"
    unfolding busy_manager_def by (rule queue_reach.queue)
  note serial = executions_serialized [OF this]
  have "run_id first_run \<noteq> run_id second_run" by code_simp
  moreover have "run_owner first_run = run_owner second_run" "run_workspaceId first_run = run_workspaceId second_run"
    by (simp_all add: second_run_def)
  ultimately show ?thesis using serial by auto
qed

end
