(* ===== verification/ControlChildren.thy ===== *)
theory ControlChildren
  imports ControlProperties StoreGuarantees
begin

text \<open>
  Child runs and the values the coordinator exchanges: the budgets and the authority of
  subagents, cancellation of a run with its children, event pages, canonical approval JSON and
  the messages a session replays to the model.
\<close>

section \<open>Budgets of child runs\<close>



definition parent_run :: run_record where
  "parent_run = (toRunRecord (hd (runs db1)))\<lparr>run_usage := \<lparr>u_inputTokens = Some 100, u_outputTokens = Some 50,
     u_costUsd = Some 1, u_toolCalls = 2\<rparr>\<rparr>"


text \<open>The tool calls a parent has made itself are handed out again: one that has used all of its tool calls
  still gives a child eight.\<close>

lemma spent_tool_calls_are_handed_out:
  "maxToolCalls (run_budget parent_run) = 32"
  "map_option maxToolCalls (case boundedChildBudget empty_budget (parent_run\<lparr>run_usage := (run_usage parent_run)\<lparr>u_toolCalls := 32\<rparr>\<rparr>)
     (remainingChildBudget (parent_run\<lparr>run_usage := (run_usage parent_run)\<lparr>u_toolCalls := 32\<rparr>\<rparr>) []) of Inl k \<Rightarrow> None | Inr b \<Rightarrow> Some b) = Some 8"
  by code_simp+

section \<open>Authority of child runs\<close>

lemma spread_full [simp]: "spread_budget a (full_budget b) = full_budget b"
  by (simp add: spread_budget_def full_budget_def)

lemma truthy_idem: "truthy x = Some s \<Longrightarrow> x = Some s"
  by (cases x) (auto simp: truthy_def split: if_splits)

text \<open>The record a newly created run has, and that later events of other runs leave alone.\<close>

lemma createOrGetRun_created:
  assumes "createOrGetRun fp now ids i rq d = Inr ((rec, True), d')"
  obtains row a w s where "find_run i d' = Some row" "row = new_run_row now (fp rq) i rq a w s"
    "rec = toRunRecord row" "find_run i d = None"
    "\<forall>j. j \<noteq> i \<longrightarrow> run_log j d' = run_log j d"
  using assms
proof (cases rule: createOrGetRun_cases)
  case (create row)
  from create(2) obtain a w s where row: "row = new_run_row now (fp rq) i rq a w s"
    and runs: "runs d' = runs d @ [row]" and fresh: "\<forall>r\<in>set (runs d). rr_id r \<noteq> i \<and> run_key r \<noteq> run_key row"
    and events: "run_events d' = run_events d @ [\<lparr>ev_runId = i, ev_sequence = 1, ev_type = RunAccepted,
         ev_payload = [(''status'', JStr ''ACCEPTED'')], ev_createdAt = now\<rparr>]"
    by (rule create_run_cases)
  from fresh have "find_run i d = None" by (auto simp: find_run_def find_None_iff)
  with runs row create(3) events show thesis
    by (intro that [of row a w s]) (simp_all add: find_run_def find_append run_log_def)
qed simp

lemma appendEvent_other_run:
  assumes "appendEvent now ae d = Inr (e, d')" and "i \<noteq> ae_runId ae"
  shows "find_run i d' = find_run i d"
proof -
  from assms(1) obtain row :: run_row where runs: "runs d' = update_rows (\<lambda>r. rr_id r = ae_runId ae)
           (update_run_for_event now ae (rr_last_sequence row + 1)) (runs d)"
    by (rule appendEvent_cases) blast
  have "find_run i d' = map_option (\<lambda>r. if rr_id r = ae_runId ae
      then update_run_for_event now ae (rr_last_sequence row + 1) r else r) (find_run i d)"
    by (simp add: find_run_def runs find_update_rows)
  with assms(2) show ?thesis by (cases "find_run i d") (auto dest: find_run_SomeD)
qed

lemma appendEvent_log:
  assumes "appendEvent now (plain_event i ty p) d = Inr (e, d')"
  shows "run_log i d' = run_log i d @ [e]" and "ev_type e = ty"
proof -
  from assms obtain row where "e = new_event now (plain_event i ty p) row" "run_events d' = run_events d @ [e]"
    by (rule appendEvent_cases) blast
  then show "run_log i d' = run_log i d @ [e]" and "ev_type e = ty"
    by (simp_all add: run_log_def new_event_def plain_event_def)
qed

text \<open>C10: A subagent never has more authority than its parent: when a child run is newly started, its
  parent is open and below the nesting limit, the child's agent lists only tools and model
  capabilities of the parent's agent, and the stored child belongs to the parent's owner, is one
  level deeper, may not deliver, and has exactly the bounded budget; the parent's log records it.\<close>

theorem child_run_authority:
  assumes "createChildRun cf now ids i rq m = (Inr res, m')" and "\<not> rs_idempotentReplay res"
    and "getAgentProfile pa ow (store m) = Some pp"
    and "map_option run_agentId (getRun (ch_parentRunId rq) (store m)) = Some pa"
    and "map_option run_owner (getRun (ch_parentRunId rq) (store m)) = Some ow"
  shows "\<exists>parent cp b c. getRun (ch_parentRunId rq) (store m) = Some parent
    \<and> \<not> isTerminalRunStatus (run_status parent) \<and> run_depth parent < cf_maxSubagentDepth cf
    \<and> getAgentProfile (ch_agent rq) ow (store m) = Some cp
    \<and> set (ap_allowedTools cp) \<subseteq> set (ap_allowedTools pp)
    \<and> set (ap_modelCapabilities cp) \<subseteq> set (ap_modelCapabilities pp)
    \<and> boundedChildBudget (nullish (ch_budget rq) empty_budget) parent
        (remainingChildBudget parent (listChildRuns (run_id parent) (store m))) = Inr b
    \<and> rs_runId res = i \<and> getRun i (store m') = Some c \<and> run_owner c = ow \<and> run_depth c = run_depth parent + 1
    \<and> \<not> run_deliveryAllowed c \<and> run_budget c = b
    \<and> (\<exists>e. run_log (run_id parent) (store m') = run_log (run_id parent) (store m) @ [e] \<and> ev_type e = SubagentStarted)"
proof -
  from assms(4,5) obtain parent where parent: "getRun (ch_parentRunId rq) (store m) = Some parent"
    "run_agentId parent = pa" "run_owner parent = ow" by auto
  then have pid: "run_id parent = ch_parentRunId rq"
    by (auto simp: getRun_def toRunRecord_def dest: find_run_SomeD)
  from assms(1) parent obtain cp where cp: "getAgentProfile (ch_agent rq) ow (store m) = Some cp"
    by (auto simp: createChildRun_def split: option.splits if_splits)
  let ?existing = "listChildRuns (run_id parent) (store m)"
  have guards: "\<not> isTerminalRunStatus (run_status parent)" "run_depth parent < cf_maxSubagentDepth cf"
    and auth: "child_authority (Some pp) cp = Inr ()"
    using assms(1,3) parent cp
    by (auto simp: createChildRun_def split: if_splits sum.splits)
  have none: "List.find (\<lambda>c. run_idempotencyKey c = child_key rq) ?existing = None"
    using assms(1,2,3) parent cp guards auth
    by (auto simp: createChildRun_def Let_def split: option.splits if_splits)
  then obtain b where b: "boundedChildBudget (nullish (ch_budget rq) empty_budget) parent
      (remainingChildBudget parent ?existing) = Inr b"
    and start: "start_child_run cf now ids i parent rq b m = (Inr res, m')"
    using assms(1,3) parent cp guards auth by (auto simp: createChildRun_def Let_def split: sum.splits)
  let ?sr = "child_run_request cf parent rq b"
  obtain m1 where svc: "service_createRun cf now ids i ?sr m = (Inr res, m1)"
    and rest: "bind_act (store_act (appendEvent now (plain_event (run_id parent) SubagentStarted
               [(''childRunId'', JStr (rs_runId res)), (''agent'', JStr (ch_agent rq)),
                (''workspaceId'', JStr (rq_workspace ?sr)),
                (''depth'', JNum (of_int (run_depth parent + 1)))]))) (\<lambda>_. return_act res) m1 = (Inr res, m')"
    using start assms(2)
    by (auto simp: start_child_run_def Let_def bind_act_def [of "service_createRun _ _ _ _ _"] return_act_def
        split: if_splits sum.splits prod.splits)
       (auto simp: bind_act_def return_act_def split: sum.splits prod.splits)
  from svc assms(2) obtain run where
    create: "createOrGetRun (cf_fingerprint cf) now ids i ?sr (store m) = Inr ((run, True), store m1)"
    and res: "rs_runId res = run_id run"
    by (auto simp: service_createRun_def bind_act_def store_act_def modify_act_def return_act_def
        split: if_splits sum.splits prod.splits)
  define d1 where "d1 = store m1"
  note create = create [folded d1_def]
  from rest obtain e d2 where
    e: "appendEvent now (plain_event (run_id parent) SubagentStarted
               [(''childRunId'', JStr (rs_runId res)), (''agent'', JStr (ch_agent rq)),
                (''workspaceId'', JStr (rq_workspace ?sr)),
                (''depth'', JNum (of_int (run_depth parent + 1)))]) d1 = Inr (e, d2)"
    and m': "store m' = d2"
    by (auto simp: bind_act_def store_act_def return_act_def d1_def split: sum.splits prod.splits)
  from create obtain row a w s where row: "find_run i d1 = Some row"
    "row = new_run_row now (cf_fingerprint cf ?sr) i ?sr a w s" "run = toRunRecord row" "find_run i (store m) = None"
    and logs: "\<forall>j. j \<noteq> i \<longrightarrow> run_log j d1 = run_log j (store m)"
    by (rule createOrGetRun_created)
  have other: "run_id parent \<noteq> i" using parent(1) row(4) by (auto simp: pid getRun_def)
  then have "find_run i d2 = Some row"
    using appendEvent_other_run [OF e, of i] row(1) by (simp add: plain_event_def)
  then have c: "getRun i (store m') = Some (toRunRecord row)" by (simp add: m' getRun_def)
  have fields: "run_owner (toRunRecord row) = ow" "run_depth (toRunRecord row) = run_depth parent + 1"
    "\<not> run_deliveryAllowed (toRunRecord row)" "run_budget (toRunRecord row) = b"
    using parent(3)
    by (simp_all add: row(2) toRunRecord_def new_run_row_def child_run_request_def Let_def rq_owner_def)
  have rid: "rs_runId res = i" using res by (simp add: row(2,3) toRunRecord_def)
  have sub: "set (ap_allowedTools cp) \<subseteq> set (ap_allowedTools pp)"
    "set (ap_modelCapabilities cp) \<subseteq> set (ap_modelCapabilities pp)"
    using auth by (auto simp: child_authority_def list_all_iff split: if_splits)
  have log: "run_log (run_id parent) (store m') = run_log (run_id parent) (store m) @ [e]" "ev_type e = SubagentStarted"
    using appendEvent_log [OF e] logs other by (simp_all add: m')
  show ?thesis
    by (rule exI [of _ parent], rule exI [of _ cp], rule exI [of _ b], rule exI [of _ "toRunRecord row"])
       (use parent(1) guards cp sub b rid c fields log in blast)
qed

definition usage_event :: append_event where
  "usage_event = (plain_event ''run_1'' UsageUpdated [])\<lparr>ae_usage := Some
     \<lparr>d_inputTokens = Some 10, d_outputTokens = Some 10, d_costUsd = Some 1, d_toolCalls = None\<rparr>\<rparr>"

definition parent_manager :: manager where
  "parent_manager = manager_of (ok_state (appendEvent 25 usage_event db2))"

definition example_child :: child_request where
  "example_child = \<lparr>ch_parentRunId = ''run_1'', ch_agent = ''ag'', ch_input = ''sub'',
     ch_idempotencyKey = ''c1'', ch_budget = None\<rparr>"

theorem child_run_authority_witness:
  "\<exists>c. getRun ''run_c'' (store (snd (createChildRun example_config 30 (example_ids ''c'') ''run_c'' example_child parent_manager)))
     = Some c \<and> run_depth c = 1 \<and> \<not> run_deliveryAllowed c"
proof -
  let ?r = "createChildRun example_config 30 (example_ids ''c'') ''run_c'' example_child parent_manager"
  have ok: "is_ok (fst ?r)" and fresh: "\<not> rs_idempotentReplay (projr (fst ?r))"
    and agent: "map_option run_agentId (getRun (ch_parentRunId example_child) (store parent_manager)) = Some ''ag''"
    and owner: "map_option run_owner (getRun (ch_parentRunId example_child) (store parent_manager)) = Some example_owner"
    and depth: "map_option run_depth (getRun (ch_parentRunId example_child) (store parent_manager)) = Some 0"
    and profile: "getAgentProfile ''ag'' example_owner (store parent_manager) \<noteq> None"
    by code_simp+
  from profile obtain pp where pp: "getAgentProfile ''ag'' example_owner (store parent_manager) = Some pp" by blast
  from ok obtain res where res: "fst ?r = Inr res" by (cases "fst ?r") auto
  then have r: "?r = (Inr res, snd ?r)" by (metis prod.collapse)
  have "\<not> rs_idempotentReplay res" using fresh res by simp
  from child_run_authority [OF r this pp agent owner] depth show ?thesis by auto
qed

end
