(* ===== verification/AuthTokens.thy ===== *)
theory AuthTokens
  imports StoreTables
begin

text \<open>
  Access tokens at rest: \<open>StoredAccessToken\<close> and the interface \<open>AccessTokenStore\<close> of
  \<open>packages/auth/src/index.ts\<close>, and \<open>SqliteAccessTokenStore\<close> of
  \<open>packages/auth-sqlite/src/index.ts\<close>, which implements it on one table. The table keeps
  scopes and budget ceilings as JSON text; the model keeps the values. The locale
  \<open>token_registry\<close> states what the token service relies on.
\<close>

section \<open>Rows and statements\<close>

record stored_token =
  tk_id :: string
  tk_lookupHash :: string
  tk_secretHash :: string
  tk_salt :: string
  tk_type :: token_type
  tk_owner :: resource_owner
  tk_scopes :: "string list"
  tk_replayPolicy :: replay_policy
  tk_agentId :: "string option"
  tk_workspaceId :: "string option"
  tk_budgetCeiling :: "partial_budget option"
  tk_issuedAt :: timestamp
  tk_expiresAt :: "timestamp option"
  tk_revokedAt :: "timestamp option"
  tk_keyGeneration :: int

type_synonym token_db = "stored_token list"

datatype token_error =
    TokenConstraintViolation
  | ScopeMigrationFailed
  | OnlyAppRotates
  | MalformedToken
  | BootstrapConflict
  | NotAppCredential
  | CredentialInactive
  | ScopesNotSubset
  | AdministrationScope
  | AgentExpansion
  | WorkspaceExpansion
  | BudgetExpansion
  | DerivationFailed

text \<open>Reading a row drops an empty agent or workspace binding.\<close>

definition accessTokenFromRow :: "stored_token \<Rightarrow> stored_token" where
  "accessTokenFromRow r = r\<lparr>tk_agentId := truthy (tk_agentId r),
     tk_workspaceId := truthy (tk_workspaceId r)\<rparr>"

definition getByLookupHash :: "string \<Rightarrow> token_db \<Rightarrow> stored_token option" where
  "getByLookupHash h db = map_option accessTokenFromRow (List.find (\<lambda>r. tk_lookupHash r = h) db)"

definition getById :: "string \<Rightarrow> token_db \<Rightarrow> stored_token option" where
  "getById i db = map_option accessTokenFromRow (List.find (\<lambda>r. tk_id r = i) db)"

definition app_row_of :: "resource_owner \<Rightarrow> stored_token \<Rightarrow> bool" where
  "app_row_of ow r \<longleftrightarrow> tk_type r = AppToken \<and> tk_owner r = ow"

definition latestAppKeyGeneration :: "resource_owner \<Rightarrow> token_db \<Rightarrow> int" where
  "latestAppKeyGeneration ow db = max_column tk_keyGeneration (filter (app_row_of ow) db)"

definition put_token :: "stored_token \<Rightarrow> token_db \<Rightarrow> token_error + token_db" where
  "put_token r db =
     (if tk_keyGeneration r \<le> 0 then Inl TokenConstraintViolation
      else insert_row TokenConstraintViolation
             (\<lambda>x. tk_id x = tk_id r \<or> tk_lookupHash x = tk_lookupHash r) r db)"

text \<open>\<open>[...new Set(xs)]\<close>: the first occurrence of each element, in order.\<close>

definition js_unique :: "'a list \<Rightarrow> 'a list" where
  "js_unique xs = rev (remdups (rev xs))"

definition updateAppScopes :: "string \<Rightarrow> string list \<Rightarrow> token_db \<Rightarrow> token_error + token_db" where
  "updateAppScopes i scopes db =
     (let hit = (\<lambda>r. tk_id r = i \<and> tk_type r = AppToken \<and> tk_revokedAt r = None) in
      if count_rows hit db \<noteq> 1 then Inl ScopeMigrationFailed
      else Inr (update_rows hit (\<lambda>r. r\<lparr>tk_scopes := js_unique scopes\<rparr>) db))"

definition rotateApp :: "stored_token \<Rightarrow> timestamp \<Rightarrow> token_db \<Rightarrow> token_error + token_db" where
  "rotateApp r revokedAt db =
     (if tk_type r \<noteq> AppToken then Inl OnlyAppRotates
      else bind_result (put_token r db) (\<lambda>db1.
        Inr (update_rows
          (\<lambda>x. app_row_of (tk_owner r) x \<and> tk_id x \<noteq> tk_id r \<and> tk_revokedAt x = None)
          (\<lambda>x. x\<lparr>tk_revokedAt := Some revokedAt\<rparr>) db1)))"

definition revoke_token :: "string \<Rightarrow> timestamp \<Rightarrow> token_db \<Rightarrow> bool \<times> token_db" where
  "revoke_token i revokedAt db =
     (let hit = (\<lambda>r. tk_id r = i \<and> tk_revokedAt r = None) in
      (count_rows hit db = 1, update_rows hit (\<lambda>r. r\<lparr>tk_revokedAt := Some revokedAt\<rparr>) db))"

inductive token_step :: "token_db \<Rightarrow> token_db \<Rightarrow> bool" where
  put: "put_token r db = Inr db' \<Longrightarrow> token_step db db'"
| scopes: "updateAppScopes i sc db = Inr db' \<Longrightarrow> token_step db db'"
| rotate: "rotateApp r t db = Inr db' \<Longrightarrow> token_step db db'"
| revoke: "token_step db (snd (revoke_token i t db))"

section \<open>The registry the service relies on\<close>

text \<open>What may become of a stored credential: only its scopes and its revocation can change, and
  a revocation never.\<close>

definition successor :: "stored_token \<Rightarrow> stored_token \<Rightarrow> bool" where
  "successor r r' \<longleftrightarrow>
     r'\<lparr>tk_scopes := tk_scopes r, tk_revokedAt := tk_revokedAt r\<rparr> = r
     \<and> (tk_revokedAt r \<noteq> None \<longrightarrow> tk_revokedAt r' = tk_revokedAt r)"

lemma successor_refl [simp]: "successor r r"
  by (simp add: successor_def)

lemma successor_trans: "successor r s \<Longrightarrow> successor s t \<Longrightarrow> successor r t"
  by (cases r; cases s; cases t) (auto simp: successor_def)

locale token_registry =
  fixes step :: "'s \<Rightarrow> 's \<Rightarrow> bool"
    and inv :: "'s \<Rightarrow> bool"
    and by_id :: "string \<Rightarrow> 's \<Rightarrow> stored_token option"
    and by_hash :: "string \<Rightarrow> 's \<Rightarrow> stored_token option"
  assumes step_inv: "inv s \<Longrightarrow> step s s' \<Longrightarrow> inv s'"
    and step_keeps: "step s s' \<Longrightarrow> by_id i s = Some r \<Longrightarrow> \<exists>r'. by_id i s' = Some r' \<and> successor r r'"
    and hash_id: "inv s \<Longrightarrow> by_hash h s = Some r \<Longrightarrow> by_id (tk_id r) s = Some r"
begin

lemma inv_steps: "step\<^sup>*\<^sup>* s s' \<Longrightarrow> inv s \<Longrightarrow> inv s'"
  by (induction rule: rtranclp_induct) (auto dest: step_inv)

lemma keeps_steps:
  "step\<^sup>*\<^sup>* s s' \<Longrightarrow> by_id i s = Some r \<Longrightarrow> \<exists>r'. by_id i s' = Some r' \<and> successor r r'"
proof (induction rule: rtranclp_induct)
  case base
  then show ?case by auto
next
  case (step y z)
  then obtain r1 where "by_id i y = Some r1" "successor r r1" by auto
  with step_keeps [OF step.hyps(2)] show ?case by (blast intro: successor_trans)
qed

text \<open>A revoked credential is revoked wherever it is found again.\<close>

lemma revoked_for_ever:
  assumes "inv s" and "by_id i s = Some r" and "tk_revokedAt r \<noteq> None" and "step\<^sup>*\<^sup>* s s'"
    and "by_hash h s' = Some q" and "tk_id q = i"
  shows "tk_revokedAt q = tk_revokedAt r"
proof -
  have "by_id i s' = Some q" using hash_id [OF inv_steps [OF assms(4,1)] assms(5)] assms(6) by simp
  with keeps_steps [OF assms(4,2)] assms(3) show ?thesis by (auto simp: successor_def)
qed

end

section \<open>The table is such a registry\<close>

definition tokens_inv :: "token_db \<Rightarrow> bool" where
  "tokens_inv db \<longleftrightarrow> distinct (map tk_id db) \<and> distinct (map tk_lookupHash db)"

lemma accessTokenFromRow_simps [simp]:
  "tk_id (accessTokenFromRow r) = tk_id r"
  "tk_lookupHash (accessTokenFromRow r) = tk_lookupHash r"
  "tk_secretHash (accessTokenFromRow r) = tk_secretHash r"
  "tk_salt (accessTokenFromRow r) = tk_salt r"
  "tk_type (accessTokenFromRow r) = tk_type r"
  "tk_owner (accessTokenFromRow r) = tk_owner r"
  "tk_scopes (accessTokenFromRow r) = tk_scopes r"
  "tk_replayPolicy (accessTokenFromRow r) = tk_replayPolicy r"
  "tk_agentId (accessTokenFromRow r) = truthy (tk_agentId r)"
  "tk_workspaceId (accessTokenFromRow r) = truthy (tk_workspaceId r)"
  "tk_budgetCeiling (accessTokenFromRow r) = tk_budgetCeiling r"
  "tk_issuedAt (accessTokenFromRow r) = tk_issuedAt r"
  "tk_expiresAt (accessTokenFromRow r) = tk_expiresAt r"
  "tk_revokedAt (accessTokenFromRow r) = tk_revokedAt r"
  "tk_keyGeneration (accessTokenFromRow r) = tk_keyGeneration r"
  by (simp_all add: accessTokenFromRow_def)

lemma put_token_Inr [result_simps]:
  "put_token r db = Inr db' \<longleftrightarrow> 0 < tk_keyGeneration r
     \<and> (\<forall>x\<in>set db. tk_id x \<noteq> tk_id r \<and> tk_lookupHash x \<noteq> tk_lookupHash r) \<and> db' = db @ [r]"
  by (auto simp: put_token_def insert_row_Inr)

lemma put_token_inv: "tokens_inv db \<Longrightarrow> put_token r db = Inr db' \<Longrightarrow> tokens_inv db'"
  by (auto simp: tokens_inv_def put_token_Inr)

lemma update_tokens_inv:
  assumes "\<And>r. p r \<Longrightarrow> tk_id (f r) = tk_id r \<and> tk_lookupHash (f r) = tk_lookupHash r"
  shows "tokens_inv (update_rows p f db) = tokens_inv db"
proof -
  have "map tk_id (update_rows p f db) = map tk_id db"
    and "map tk_lookupHash (update_rows p f db) = map tk_lookupHash db"
    using assms by (auto intro!: map_update_rows_frame)
  then show ?thesis by (simp add: tokens_inv_def)
qed

lemma getById_update:
  assumes "\<And>r. p r \<Longrightarrow> tk_id (f r) = tk_id r"
    and "\<And>r. p r \<Longrightarrow> successor (accessTokenFromRow r) (accessTokenFromRow (f r))"
    and "getById i db = Some r"
  shows "\<exists>r'. getById i (update_rows p f db) = Some r' \<and> successor r r'"
proof -
  obtain z where z: "List.find (\<lambda>r. tk_id r = i) db = Some z" "r = accessTokenFromRow z"
    using assms(3) by (auto simp: getById_def)
  have "List.find (\<lambda>r. tk_id r = i) (update_rows p f db) = Some (if p z then f z else z)"
    using z(1) assms(1) by (subst find_update_rows) auto
  then show ?thesis using assms(2) [of z] z(2) by (auto simp: getById_def)
qed

lemma getById_append: "getById i db = Some r \<Longrightarrow> getById i (db @ [x]) = Some r"
  by (auto simp: getById_def find_append split: option.splits)

lemma successor_updates [simp]:
  "successor (accessTokenFromRow r) (accessTokenFromRow (r\<lparr>tk_scopes := sc\<rparr>))"
  "tk_revokedAt r = None \<Longrightarrow> successor (accessTokenFromRow r) (accessTokenFromRow (r\<lparr>tk_revokedAt := t\<rparr>))"
  by (simp_all add: successor_def accessTokenFromRow_def)

lemma token_step_inv: "token_step db db' \<Longrightarrow> tokens_inv db \<Longrightarrow> tokens_inv db'"
proof (induction rule: token_step.induct)
  case (rotate r t db db')
  then have "tokens_inv (db @ [r])" by (auto simp: rotateApp_def result_simps tokens_inv_def split: if_splits)
  with rotate show ?case
    by (auto simp: rotateApp_def result_simps update_tokens_inv simp del: update_rows_simps split: if_splits)
next
  case (scopes i sc db db')
  then show ?case by (auto simp: updateAppScopes_def Let_def update_tokens_inv split: if_splits)
next
  case (revoke db i t)
  then show ?case by (auto simp: revoke_token_def Let_def update_tokens_inv)
qed (auto dest: put_token_inv)

lemma token_step_keeps:
  "token_step db db' \<Longrightarrow> getById i db = Some r \<Longrightarrow> \<exists>r'. getById i db' = Some r' \<and> successor r r'"
proof (induction rule: token_step.induct)
  case (put x db db')
  then show ?case by (auto simp: put_token_Inr dest: getById_append)
next
  case (scopes i sc db db')
  then show ?case
    by (auto simp: updateAppScopes_def Let_def split: if_splits intro!: getById_update)
next
  case (rotate x t db db')
  then have "getById i (db @ [x]) = Some r" by (auto dest: getById_append)
  with rotate show ?case
    by (auto simp: rotateApp_def result_simps simp del: update_rows_simps split: if_splits
        intro!: getById_update)
next
  case (revoke db j t)
  then show ?case by (auto simp: revoke_token_def Let_def intro!: getById_update)
qed

lemma getByLookupHash_id:
  assumes "tokens_inv db" and "getByLookupHash h db = Some r"
  shows "getById (tk_id r) db = Some r \<and> tk_lookupHash r = h"
proof -
  obtain x where x: "List.find (\<lambda>r. tk_lookupHash r = h) db = Some x" "r = accessTokenFromRow x"
    using assms(2) by (auto simp: getByLookupHash_def)
  then have "x \<in> set db" "tk_lookupHash x = h" by (auto dest: find_SomeD)
  moreover have "List.find (\<lambda>r. tk_id r = tk_id x) db = Some x"
    using find_unique_key [of tk_id db "tk_id x" x] assms(1) calculation(1) by (simp add: tokens_inv_def)
  ultimately show ?thesis using x by (simp add: getById_def)
qed

interpretation sqlite_tokens: token_registry token_step tokens_inv getById getByLookupHash
  by unfold_locales (auto dest: token_step_inv token_step_keeps getByLookupHash_id)

end
