(* ===== verification/AuthService.thy ===== *)
theory AuthService
  imports AuthTokens
begin

text \<open>
  \<open>AccessTokenService\<close> of \<open>packages/auth/src/index.ts\<close>: bootstrapping app credentials,
  authenticating tokens, minting run tokens and revoking them. SHA-256, scrypt, base64 and the
  UTF-8 length are the host's (\<open>auth_host\<close>); tokens, salts, identifiers and the clock are
  arguments. Minting and bootstrapping wait for scrypt between their checks and their write,
  so each is also given as the two parts before and after the wait.
\<close>

section \<open>Secrets\<close>

record auth_host =
  au_utf8_length :: "string \<Rightarrow> int"
  au_sha256 :: "string \<Rightarrow> string"
  au_scrypt :: "string \<Rightarrow> string \<Rightarrow> string option"
  au_base64 :: "string \<Rightarrow> string"
  au_unbase64 :: "string \<Rightarrow> string"

definition line_break :: "char \<Rightarrow> bool" where
  "line_break c \<longleftrightarrow> (of_char c :: nat) \<in> {13, 10, 0}"

definition isValidToken :: "auth_host \<Rightarrow> string \<Rightarrow> bool" where
  "isValidToken h t \<longleftrightarrow> 16 \<le> au_utf8_length h t \<and> au_utf8_length h t \<le> 4096 \<and> \<not> list_ex line_break t"

definition isActive :: "timestamp \<Rightarrow> stored_token \<Rightarrow> bool" where
  "isActive now r \<longleftrightarrow> tk_revokedAt r = None
     \<and> (case tk_expiresAt r of None \<Rightarrow> True | Some e \<Rightarrow> now < e)"

definition createRecord :: "auth_host \<Rightarrow> string \<Rightarrow> string \<Rightarrow> stored_token \<Rightarrow> token_error + stored_token" where
  "createRecord h tok salt r = (case au_scrypt h tok salt of
     None \<Rightarrow> Inl DerivationFailed
   | Some key \<Rightarrow> Inr (r\<lparr>tk_salt := au_base64 h salt, tk_secretHash := au_base64 h key\<rparr>))"

definition verifySecret :: "auth_host \<Rightarrow> string \<Rightarrow> stored_token \<Rightarrow> bool" where
  "verifySecret h tok r = (case au_scrypt h tok (au_unbase64 h (tk_salt r)) of
     None \<Rightarrow> False | Some actual \<Rightarrow> au_unbase64 h (tk_secretHash r) = actual)"

definition sameStrings :: "string list \<Rightarrow> string list \<Rightarrow> bool" where
  "sameStrings xs ys \<longleftrightarrow> sort xs = sort ys"

section \<open>Authenticating\<close>

definition principal_of :: "stored_token \<Rightarrow> internal_principal" where
  "principal_of r = \<lparr>p_owner = tk_owner r, p_scopes = tk_scopes r, p_tokenId = Some (tk_id r),
     p_tokenType = Some (tk_type r), p_replayPolicy = Some (tk_replayPolicy r),
     p_agentId = truthy (tk_agentId r), p_workspaceId = truthy (tk_workspaceId r),
     p_budgetCeiling = tk_budgetCeiling r\<rparr>"

definition authenticate :: "auth_host \<Rightarrow> timestamp \<Rightarrow> string \<Rightarrow> token_db \<Rightarrow> internal_principal option" where
  "authenticate h now tok db =
     (if \<not> isValidToken h tok then None
      else case getByLookupHash (au_sha256 h tok) db of
        None \<Rightarrow> None
      | Some r \<Rightarrow>
          if \<not> isActive now r then None
          else if \<not> verifySecret h tok r then None
          else Some (principal_of r))"

section \<open>Minting run tokens\<close>

definition RUN_TOKEN_SCOPES :: "string list" where
  "RUN_TOKEN_SCOPES = [''runs:create'', ''runs:read'', ''runs:cancel'', ''runs:steer'', ''events:read'',
     ''approvals:resolve'', ''artifacts:publish'', ''artifacts:read'']"

definition DEFAULT_APP_SCOPES :: "string list" where
  "DEFAULT_APP_SCOPES = [''tokens:mint'', ''tokens:revoke'', ''runs:create'', ''runs:read'', ''runs:cancel'',
     ''runs:steer'', ''events:read'', ''approvals:resolve'', ''sessions:read'', ''artifacts:publish'',
     ''artifacts:read'', ''agents:write'', ''agents:read'', ''workspaces:write'', ''workspaces:read'',
     ''models:read'', ''providers:read'', ''providers:write'']"

record mint_request =
  mt_scopes :: "string list"
  mt_ttlSeconds :: "int option"
  mt_agentId :: "string option"
  mt_workspaceId :: "string option"
  mt_budgetCeiling :: "partial_budget option"

record mint_response =
  mr_token :: string
  mr_tokenId :: string
  mr_expiresAt :: timestamp
  mr_scopes :: "string list"
  mr_replayPolicy :: replay_policy

text \<open>The caller must be an app credential whose stored record is active and unchanged.\<close>

definition check_app_credential ::
  "timestamp \<Rightarrow> internal_principal \<Rightarrow> token_db \<Rightarrow> token_error + unit" where
  "check_app_credential now parent db =
     (case (p_tokenType parent, truthy (p_tokenId parent)) of
        (Some AppToken, Some i) \<Rightarrow>
          (case getById i db of
             None \<Rightarrow> Inl CredentialInactive
           | Some r \<Rightarrow> throw_if (tk_type r \<noteq> AppToken \<or> \<not> isActive now r
               \<or> tk_owner r \<noteq> p_owner parent \<or> \<not> sameStrings (tk_scopes r) (p_scopes parent))
               CredentialInactive)
      | _ \<Rightarrow> Inl NotAppCredential)"

definition auth_budgetWithin :: "partial_budget \<Rightarrow> partial_budget \<Rightarrow> bool" where
  "auth_budgetWithin requested limits \<longleftrightarrow> list_all (\<lambda>(k, v).
     case map_of (budget_entries limits) k of None \<Rightarrow> True | Some c \<Rightarrow> v \<le> c)
     (budget_entries requested)"

text \<open>\<open>parent && request && request !== parent\<close> on bindings\<close>

definition expands_binding :: "string option \<Rightarrow> string option \<Rightarrow> bool" where
  "expands_binding parent request \<longleftrightarrow>
     truthy parent \<noteq> None \<and> truthy request \<noteq> None \<and> request \<noteq> parent"

definition inherit_ceiling :: "partial_budget option \<Rightarrow> partial_budget option \<Rightarrow> partial_budget option" where
  "inherit_ceiling parent request = (case parent of
     Some p \<Rightarrow> Some (spread_budget p (nullish request empty_budget))
   | None \<Rightarrow> request)"

definition check_mint ::
  "timestamp \<Rightarrow> internal_principal \<Rightarrow> mint_request \<Rightarrow> token_db \<Rightarrow> token_error + string list" where
  "check_mint now parent rq db =
     bind_result (check_app_credential now parent db) (\<lambda>_.
     let scopes = sort (js_unique (mt_scopes rq)) in
     bind_result (throw_if (\<not> list_all (\<lambda>s. s \<in> set (p_scopes parent)) scopes) ScopesNotSubset) (\<lambda>_.
     bind_result (throw_if (\<not> list_all (\<lambda>s. s \<in> set RUN_TOKEN_SCOPES) scopes) AdministrationScope) (\<lambda>_.
     bind_result (throw_if (expands_binding (p_agentId parent) (mt_agentId rq)) AgentExpansion) (\<lambda>_.
     bind_result (throw_if (expands_binding (p_workspaceId parent) (mt_workspaceId rq)) WorkspaceExpansion) (\<lambda>_.
     bind_result (throw_if (case (mt_budgetCeiling rq, p_budgetCeiling parent) of
         (Some b, Some c) \<Rightarrow> \<not> auth_budgetWithin b c | _ \<Rightarrow> False) BudgetExpansion) (\<lambda>_.
       Inr scopes))))))"

definition minted_token ::
  "auth_host \<Rightarrow> timestamp \<Rightarrow> string \<Rightarrow> string \<Rightarrow> internal_principal \<Rightarrow> mint_request \<Rightarrow> string list \<Rightarrow> stored_token" where
  "minted_token h now tok i parent rq scopes = \<lparr>
     tk_id = i, tk_lookupHash = au_sha256 h tok, tk_secretHash = [], tk_salt = [],
     tk_type = RunToken, tk_owner = p_owner parent, tk_scopes = scopes,
     tk_replayPolicy = ResourceBoundMultiUse,
     tk_agentId = truthy (override (p_agentId parent) (mt_agentId rq)),
     tk_workspaceId = truthy (override (p_workspaceId parent) (mt_workspaceId rq)),
     tk_budgetCeiling = inherit_ceiling (p_budgetCeiling parent) (mt_budgetCeiling rq),
     tk_issuedAt = now, tk_expiresAt = Some (now + nullish (mt_ttlSeconds rq) 900 * 1000),
     tk_revokedAt = None, tk_keyGeneration = 1\<rparr>"

text \<open>Before the wait for scrypt: the record to store.\<close>

definition prepare_mint ::
  "auth_host \<Rightarrow> timestamp \<Rightarrow> string \<Rightarrow> string \<Rightarrow> string \<Rightarrow> internal_principal \<Rightarrow> mint_request \<Rightarrow> token_db
    \<Rightarrow> token_error + stored_token" where
  "prepare_mint h now tok salt i parent rq db =
     bind_result (check_mint now parent rq db) (\<lambda>scopes.
       createRecord h tok salt (minted_token h now tok i parent rq scopes))"

definition mint_reply :: "string \<Rightarrow> stored_token \<Rightarrow> mint_response" where
  "mint_reply tok r = \<lparr>mr_token = tok, mr_tokenId = tk_id r,
     mr_expiresAt = nullish (tk_expiresAt r) 0, mr_scopes = tk_scopes r,
     mr_replayPolicy = ResourceBoundMultiUse\<rparr>"

definition mintRunToken ::
  "auth_host \<Rightarrow> timestamp \<Rightarrow> string \<Rightarrow> string \<Rightarrow> string \<Rightarrow> internal_principal \<Rightarrow> mint_request \<Rightarrow> token_db
    \<Rightarrow> token_error + mint_response \<times> token_db" where
  "mintRunToken h now tok salt i parent rq db =
     bind_result (prepare_mint h now tok salt i parent rq db) (\<lambda>r.
     bind_result (put_token r db) (\<lambda>db'. Inr (mint_reply tok r, db')))"

definition service_revoke ::
  "timestamp \<Rightarrow> internal_principal \<Rightarrow> string \<Rightarrow> token_db \<Rightarrow> token_error + bool \<times> token_db" where
  "service_revoke now parent i db =
     bind_result (check_app_credential now parent db) (\<lambda>_.
       case getById i db of
         None \<Rightarrow> Inr (False, db)
       | Some t \<Rightarrow>
           if tk_type t \<noteq> RunToken \<or> tk_owner t \<noteq> p_owner parent then Inr (False, db)
           else Inr (revoke_token i now db))"

section \<open>Bootstrapping\<close>

definition bootstrap_existing ::
  "auth_host \<Rightarrow> timestamp \<Rightarrow> string \<Rightarrow> resource_owner \<Rightarrow> string list \<Rightarrow> bool \<Rightarrow> stored_token \<Rightarrow> token_db
    \<Rightarrow> token_error + stored_token \<times> token_db" where
  "bootstrap_existing h now tok ow scopes allow existing db =
     (if \<not> isActive now existing \<or> \<not> verifySecret h tok existing \<or> tk_type existing \<noteq> AppToken
         \<or> tk_owner existing \<noteq> ow
      then Inl BootstrapConflict
      else if sameStrings (tk_scopes existing) scopes then Inr (existing, db)
      else let requested = js_unique scopes in
        if \<not> allow \<or> \<not> list_all (\<lambda>s. s \<in> set requested) (tk_scopes existing)
        then Inl BootstrapConflict
        else bind_result (updateAppScopes (tk_id existing) requested db) (\<lambda>db'.
          Inr (existing\<lparr>tk_scopes := requested\<rparr>, db')))"

definition bootstrap_token ::
  "auth_host \<Rightarrow> timestamp \<Rightarrow> string \<Rightarrow> string \<Rightarrow> resource_owner \<Rightarrow> string list \<Rightarrow> int \<Rightarrow> stored_token" where
  "bootstrap_token h now tok i ow scopes generation = \<lparr>
     tk_id = i, tk_lookupHash = au_sha256 h tok, tk_secretHash = [], tk_salt = [],
     tk_type = AppToken, tk_owner = ow, tk_scopes = scopes, tk_replayPolicy = MultiUse,
     tk_agentId = None, tk_workspaceId = None, tk_budgetCeiling = None, tk_issuedAt = now,
     tk_expiresAt = None, tk_revokedAt = None, tk_keyGeneration = generation\<rparr>"

definition ensureBootstrapAppToken ::
  "auth_host \<Rightarrow> timestamp \<Rightarrow> string \<Rightarrow> string \<Rightarrow> string \<Rightarrow> resource_owner \<Rightarrow> string list \<Rightarrow> bool \<Rightarrow> token_db
    \<Rightarrow> token_error + stored_token \<times> token_db" where
  "ensureBootstrapAppToken h now tok salt i ow scopes allow db =
     (if \<not> isValidToken h tok then Inl MalformedToken
      else case getByLookupHash (au_sha256 h tok) db of
        Some existing \<Rightarrow> bootstrap_existing h now tok ow scopes allow existing db
      | None \<Rightarrow>
          bind_result (createRecord h tok salt
              (bootstrap_token h now tok i ow scopes (latestAppKeyGeneration ow db + 1))) (\<lambda>r.
          bind_result (rotateApp r (tk_issuedAt r) db) (\<lambda>db'. Inr (r, db'))))"

section \<open>The service as a step relation\<close>

text \<open>Every write of the service, with anything between its checks (made in some earlier table
  \<open>db0\<close>) and the write.\<close>

inductive auth_step :: "auth_host \<Rightarrow> token_db \<Rightarrow> token_db \<Rightarrow> bool" for h where
  mint: "prepare_mint h now tok salt i parent rq db0 = Inr r \<Longrightarrow> put_token r db = Inr db'
    \<Longrightarrow> auth_step h db db'"
| revoke: "service_revoke now parent i db = Inr (b, db') \<Longrightarrow> auth_step h db db'"
| existing: "getByLookupHash (au_sha256 h tok) db0 = Some r
    \<Longrightarrow> bootstrap_existing h now tok ow scopes allow r db = Inr (r', db') \<Longrightarrow> auth_step h db db'"
| rotate: "createRecord h tok salt (bootstrap_token h now tok i ow scopes g) = Inr r
    \<Longrightarrow> rotateApp r (tk_issuedAt r) db = Inr db' \<Longrightarrow> auth_step h db db'"

lemma revoke_token_step: "revoke_token i t db = (b, db') \<Longrightarrow> token_step db db'"
  using token_step.revoke [of db i t] by simp

lemma auth_step_token_step: "auth_step h db db' \<Longrightarrow> token_step\<^sup>*\<^sup>* db db'"
proof (induction rule: auth_step.induct)
  case (mint now tok salt i parent rq db0 r db db')
  then show ?case by (blast intro: token_step.put)
next
  case (revoke now parent i db b db')
  then show ?case
    by (auto simp: service_revoke_def result_simps dest!: revoke_token_step
        split: option.splits if_splits)
next
  case (existing tok db0 r now ow scopes allow db r' db')
  then show ?case
    by (auto simp: bootstrap_existing_def result_simps Let_def dest!: token_step.scopes
        split: if_splits)
next
  case (rotate tok salt now i ow scopes g r db db')
  then show ?case by (blast intro: token_step.rotate)
qed

lemma auth_steps_token_steps: "(auth_step h)\<^sup>*\<^sup>* db db' \<Longrightarrow> token_step\<^sup>*\<^sup>* db db'"
  by (induction rule: rtranclp_induct) (auto dest: auth_step_token_step)

lemma auth_steps_inv: "(auth_step h)\<^sup>*\<^sup>* db db' \<Longrightarrow> tokens_inv db \<Longrightarrow> tokens_inv db'"
  using auth_steps_token_steps sqlite_tokens.inv_steps by blast

end
