(* ===== verification/AuthProperties.thy ===== *)
theory AuthProperties
  imports AuthService
begin

text \<open>
  What the token service guarantees: run tokens are never more powerful than the credential that
  minted them, revocation is final, an owner has one app credential at a time, and
  authentication returns exactly what was stored.
\<close>

lemma set_js_unique [simp]: "set (js_unique xs) = set xs"
  by (simp add: js_unique_def)

lemma truthy_override:
  "\<not> expands_binding p q \<Longrightarrow> q \<noteq> Some [] \<Longrightarrow> truthy p = Some a \<Longrightarrow> truthy (override p q) = Some a"
  by (cases q) (auto simp: expands_binding_def truthy_def split: option.splits if_splits)

lemma budget_entries_empty [simp]: "budget_entries empty_budget = []"
  by (simp add: budget_entries_def empty_budget_def List.map_filter_def)

lemma ceiling_within:
  assumes "case request of None \<Rightarrow> True | Some b \<Rightarrow> auth_budgetWithin b c"
    and "map_of (budget_entries c) k = Some v"
  shows "\<exists>b w. inherit_ceiling (Some c) request = Some b
    \<and> map_of (budget_entries b) k = Some w \<and> w \<le> v"
proof (cases request)
  case None
  have "map_of (budget_entries (spread_budget c empty_budget)) k = map_of (budget_entries c) k"
    by (simp add: budget_entry_spread)
  with None assms(2) show ?thesis by (simp add: inherit_ceiling_def)
next
  case (Some b)
  show ?thesis
  proof (cases "map_of (budget_entries b) k")
    case None
    with Some assms(2) show ?thesis by (simp add: inherit_ceiling_def budget_entry_spread)
  next
    case (Some w)
    then have "(k, w) \<in> set (budget_entries b)" by (rule map_of_SomeD)
    with \<open>request = Some b\<close> assms have "w \<le> v" by (auto simp: auth_budgetWithin_def list_all_iff)
    with Some \<open>request = Some b\<close> show ?thesis by (simp add: inherit_ceiling_def budget_entry_spread)
  qed
qed

text \<open>What \<open>createRecord\<close> and a later check of the secret have to do with each other.\<close>

definition base64_inverse :: "auth_host \<Rightarrow> bool" where
  "base64_inverse h \<longleftrightarrow> (\<forall>x. au_unbase64 h (au_base64 h x) = x)"

lemma createRecord_frame:
  assumes "createRecord h tok salt r = Inr r'"
  shows "r' = r\<lparr>tk_salt := tk_salt r', tk_secretHash := tk_secretHash r'\<rparr>"
    and "base64_inverse h \<Longrightarrow> verifySecret h tok r'"
proof -
  obtain key where "au_scrypt h tok salt = Some key"
    and "r' = r\<lparr>tk_salt := au_base64 h salt, tk_secretHash := au_base64 h key\<rparr>"
    using assms by (auto simp: createRecord_def split: option.splits)
  then show "r' = r\<lparr>tk_salt := tk_salt r', tk_secretHash := tk_secretHash r'\<rparr>"
    and "base64_inverse h \<Longrightarrow> verifySecret h tok r'"
    by (simp_all add: verifySecret_def base64_inverse_def)
qed

lemma put_then_find:
  assumes "tokens_inv db" and "put_token r db = Inr db'"
  shows "getById (tk_id r) db' = Some (accessTokenFromRow r)"
    and "getByLookupHash (tk_lookupHash r) db' = Some (accessTokenFromRow r)"
  using assms by (auto simp: put_token_Inr getById_def getByLookupHash_def find_append
      dest: find_SomeD split: option.splits)

lemma verifySecret_row [simp]: "verifySecret h tok (accessTokenFromRow r) = verifySecret h tok r"
  by (simp add: verifySecret_def split: option.split)

lemma isActive_row [simp]: "isActive now (accessTokenFromRow r) = isActive now r"
  by (simp add: isActive_def)

lemma prepare_mint_cases:
  assumes "prepare_mint h now tok salt i parent rq db = Inr r"
  shows "check_mint now parent rq db = Inr (tk_scopes r)"
    and "r = (minted_token h now tok i parent rq (tk_scopes r))
      \<lparr>tk_salt := tk_salt r, tk_secretHash := tk_secretHash r\<rparr>"
    and "base64_inverse h \<Longrightarrow> verifySecret h tok r"
proof -
  obtain scopes where c: "check_mint now parent rq db = Inr scopes"
    and r: "createRecord h tok salt (minted_token h now tok i parent rq scopes) = Inr r"
    using assms by (auto simp: prepare_mint_def result_simps)
  have f: "r = (minted_token h now tok i parent rq scopes)
      \<lparr>tk_salt := tk_salt r, tk_secretHash := tk_secretHash r\<rparr>"
    and v: "base64_inverse h \<Longrightarrow> verifySecret h tok r"
    using createRecord_frame [OF r] by auto
  have "tk_scopes r = scopes" by (subst f) (simp add: minted_token_def)
  with c f v show "check_mint now parent rq db = Inr (tk_scopes r)"
    and "r = (minted_token h now tok i parent rq (tk_scopes r))
      \<lparr>tk_salt := tk_salt r, tk_secretHash := tk_secretHash r\<rparr>"
    and "base64_inverse h \<Longrightarrow> verifySecret h tok r" by simp_all
qed

lemma check_mint_ok:
  assumes "check_mint now parent rq db = Inr scopes"
  shows "check_app_credential now parent db = Inr ()"
    and "set scopes = set (mt_scopes rq)"
    and "set scopes \<subseteq> set (p_scopes parent)" and "set scopes \<subseteq> set RUN_TOKEN_SCOPES"
    and "\<not> expands_binding (p_agentId parent) (mt_agentId rq)"
    and "\<not> expands_binding (p_workspaceId parent) (mt_workspaceId rq)"
    and "p_budgetCeiling parent = Some c \<Longrightarrow>
      (case mt_budgetCeiling rq of None \<Rightarrow> True | Some b \<Rightarrow> auth_budgetWithin b c)"
  using assms by (auto simp: check_mint_def result_simps Let_def list_all_iff split: option.splits)

section \<open>Run tokens are bounded by their parent\<close>

lemma mintRunToken_cases:
  assumes "mintRunToken h now tok salt i parent rq db = Inr (res, db')"
  obtains r where "prepare_mint h now tok salt i parent rq db = Inr r" "put_token r db = Inr db'"
    "res = mint_reply tok r"
  using assms by (auto simp: mintRunToken_def result_simps)

text \<open>C12: A run token acts for no more than the credential that minted it. Authenticating with
  it succeeds exactly until its expiry (the time of minting plus the requested or the default life time; nothing
  compares it with the parent's), with the parent's owner, with the requested scopes,
  which are all scopes of the parent and none of them administrative, with the parent's agent
  and workspace bindings where the parent has any, and with a budget ceiling at most the
  parent's for every limit the parent is bound to. The request names no empty agent or workspace, which
  \<open>MintRunTokenRequestSchema\<close> refuses (an empty text would replace the binding of the parent), the new token
  has the form of a token, and the base64 decoder reads back what the encoder wrote.\<close>

theorem run_token_within_parent:
  assumes "tokens_inv db" and "mintRunToken h now tok salt i parent rq db = Inr (res, db')"
    and "isValidToken h tok" and "base64_inverse h"
    and "mt_agentId rq \<noteq> Some []" and "mt_workspaceId rq \<noteq> Some []"
  shows "\<exists>p. (\<forall>t. authenticate h t tok db' = (if t < mr_expiresAt res then Some p else None))
    \<and> mr_expiresAt res = now + nullish (mt_ttlSeconds rq) 900 * 1000
    \<and> p_owner p = p_owner parent \<and> p_tokenId p = Some (mr_tokenId res) \<and> p_tokenType p = Some RunToken
    \<and> set (p_scopes p) = set (mt_scopes rq)
    \<and> set (p_scopes p) \<subseteq> set (p_scopes parent) \<and> set (p_scopes p) \<subseteq> set RUN_TOKEN_SCOPES
    \<and> (\<forall>a. truthy (p_agentId parent) = Some a \<longrightarrow> p_agentId p = Some a)
    \<and> (\<forall>w. truthy (p_workspaceId parent) = Some w \<longrightarrow> p_workspaceId p = Some w)
    \<and> (\<forall>c k v. p_budgetCeiling parent = Some c \<and> map_of (budget_entries c) k = Some v \<longrightarrow>
         (\<exists>b w. p_budgetCeiling p = Some b \<and> map_of (budget_entries b) k = Some w \<and> w \<le> v))"
proof -
  obtain r where r: "prepare_mint h now tok salt i parent rq db = Inr r" "put_token r db = Inr db'"
    and res: "res = mint_reply tok r"
    using assms(2) by (rule mintRunToken_cases)
  note frame = prepare_mint_cases(2) [OF r(1)] and secret = prepare_mint_cases(3) [OF r(1) assms(4)]
  note ok = check_mint_ok [OF prepare_mint_cases(1) [OF r(1)]]
  have f: "tk_id r = i" "tk_lookupHash r = au_sha256 h tok" "tk_type r = RunToken" "tk_owner r = p_owner parent"
    "tk_agentId r = truthy (override (p_agentId parent) (mt_agentId rq))"
    "tk_workspaceId r = truthy (override (p_workspaceId parent) (mt_workspaceId rq))"
    "tk_budgetCeiling r = inherit_ceiling (p_budgetCeiling parent) (mt_budgetCeiling rq)"
    "tk_expiresAt r = Some (now + nullish (mt_ttlSeconds rq) 900 * 1000)" "tk_revokedAt r = None"
    by (subst frame, simp add: minted_token_def)+
  let ?p = "principal_of (accessTokenFromRow r)"
  have "authenticate h t tok db' = (if t < mr_expiresAt res then Some ?p else None)" for t
    using put_then_find(2) [OF assms(1) r(2)] assms(3) secret f res
    by (simp add: authenticate_def isActive_def mint_reply_def)
  moreover have "truthy (p_agentId parent) = Some a \<Longrightarrow> p_agentId ?p = Some a" for a
    using truthy_override [OF ok(5) assms(5)] f(5) by (auto simp: principal_of_def truthy_def split: option.splits if_splits)
  moreover have "truthy (p_workspaceId parent) = Some w \<Longrightarrow> p_workspaceId ?p = Some w" for w
    using truthy_override [OF ok(6) assms(6)] f(6) by (auto simp: principal_of_def truthy_def split: option.splits if_splits)
  moreover have "p_budgetCeiling parent = Some c \<and> map_of (budget_entries c) k = Some v \<longrightarrow>
      (\<exists>b w. p_budgetCeiling ?p = Some b \<and> map_of (budget_entries b) k = Some w \<and> w \<le> v)" for c k v
    using ceiling_within [OF ok(7)] f(7) by (auto simp: principal_of_def)
  ultimately show ?thesis
    using ok(2-4) f res by (intro exI [of _ ?p]) (auto simp: principal_of_def mint_reply_def)
qed

section \<open>Revocation is final\<close>

lemma authenticate_Some:
  "authenticate h t tok db = Some p \<longleftrightarrow> isValidToken h tok
     \<and> (\<exists>r. getByLookupHash (au_sha256 h tok) db = Some r \<and> isActive t r \<and> verifySecret h tok r
            \<and> p = principal_of r)"
  by (auto simp: authenticate_def split: option.splits)

lemma revoked_never_authenticates:
  assumes "tokens_inv db" and "getById i db = Some r" and "tk_revokedAt r \<noteq> None"
    and "(auth_step h)\<^sup>*\<^sup>* db db'" and "authenticate h' t tok db' = Some p"
  shows "p_tokenId p \<noteq> Some i"
proof
  assume i: "p_tokenId p = Some i"
  obtain q where q: "getByLookupHash (au_sha256 h' tok) db' = Some q" "isActive t q" "p = principal_of q"
    using assms(5) by (auto simp: authenticate_Some)
  with i have "tk_id q = i" by (simp add: principal_of_def)
  from sqlite_tokens.revoked_for_ever [OF assms(1-3) auth_steps_token_steps [OF assms(4)] q(1) this]
  show False using q(2) assms(3) by (simp add: isActive_def)
qed

lemma revoked_row:
  assumes "revoke_token i t db = (True, db')" and "getById i db = Some r"
  shows "\<exists>r'. getById i db' = Some r' \<and> tk_revokedAt r' \<noteq> None"
proof -
  obtain z where z: "List.find (\<lambda>r. tk_id r = i) db = Some z" using assms(2) by (auto simp: getById_def)
  have "List.find (\<lambda>r. tk_id r = i) db' = Some (if tk_id z = i \<and> tk_revokedAt z = None
      then z\<lparr>tk_revokedAt := Some t\<rparr> else z)"
    using assms(1) z by (auto simp: revoke_token_def Let_def find_update_rows)
  then show ?thesis using find_SomeD [OF z] by (auto simp: getById_def)
qed

text \<open>C13: Revocation is final: once a run token has been revoked, no token text ever authenticates as
  it again, whatever the service does afterwards and whatever the clock says.\<close>

theorem revoked_token_is_dead:
  assumes "tokens_inv db" and "service_revoke now parent i db = Inr (True, db')"
    and "(auth_step h)\<^sup>*\<^sup>* db' db''" and "authenticate h' t tok db'' = Some p"
  shows "p_tokenId p \<noteq> Some i"
proof -
  obtain r where r: "getById i db = Some r" "revoke_token i now db = (True, db')"
    using assms(2) by (auto simp: service_revoke_def result_simps split: option.splits if_splits)
  have inv: "tokens_inv db'"
    using token_step_inv [OF revoke_token_step [OF r(2)]] assms(1) by simp
  obtain r' where "getById i db' = Some r'" "tk_revokedAt r' \<noteq> None"
    using revoked_row [OF r(2,1)] by blast
  from revoked_never_authenticates [OF inv this assms(3,4)] show ?thesis .
qed

section \<open>What the table looks like\<close>

definition live_app :: "resource_owner \<Rightarrow> stored_token \<Rightarrow> bool" where
  "live_app ow r \<longleftrightarrow> app_row_of ow r \<and> tk_revokedAt r = None"

definition small_run_token :: "stored_token \<Rightarrow> bool" where
  "small_run_token r \<longleftrightarrow> (tk_type r = RunToken \<longrightarrow>
     set (tk_scopes r) \<subseteq> set RUN_TOKEN_SCOPES \<and> tk_expiresAt r \<noteq> None)"

definition credentials_inv :: "token_db \<Rightarrow> bool" where
  "credentials_inv db \<longleftrightarrow> (\<forall>ow. count_rows (live_app ow) db \<le> 1) \<and> (\<forall>r\<in>set db. small_run_token r)"

lemma count_rows_update_le:
  "(\<And>r. q r \<Longrightarrow> p (f r) \<Longrightarrow> p r) \<Longrightarrow> count_rows p (update_rows q f t) \<le> count_rows p t"
  by (induction t) (auto simp: count_rows_def)

lemma count_rows_append [simp]: "count_rows p (t @ u) = count_rows p t + count_rows p u"
  by (simp add: count_rows_def)

lemma credentials_inv_update:
  assumes "credentials_inv db"
    and "\<And>r ow. q r \<Longrightarrow> live_app ow (f r) \<Longrightarrow> live_app ow r"
    and "\<And>r. r \<in> set db \<Longrightarrow> q r \<Longrightarrow> small_run_token r \<Longrightarrow> small_run_token (f r)"
  shows "credentials_inv (update_rows q f db)"
proof -
  have "count_rows (live_app ow) (update_rows q f db) \<le> 1" for ow
    using count_rows_update_le [of q "live_app ow" f db] assms(1,2) by (metis credentials_inv_def le_trans)
  then show ?thesis using assms by (auto simp: credentials_inv_def set_update_rows)
qed

lemma rotate_live_app:
  assumes "rotateApp r t db = Inr db'" and "tk_revokedAt r = None"
  shows "count_rows (live_app (tk_owner r)) db' = 1"
proof -
  let ?hit = "\<lambda>x. app_row_of (tk_owner r) x \<and> tk_id x \<noteq> tk_id r \<and> tk_revokedAt x = None"
  have db': "db' = update_rows ?hit (\<lambda>x. x\<lparr>tk_revokedAt := Some t\<rparr>) db @ [r]"
    and new: "\<forall>x\<in>set db. tk_id x \<noteq> tk_id r" and app: "tk_type r = AppToken"
    using assms(1) by (auto simp: rotateApp_def result_simps split: if_splits)
  have "count_rows (live_app (tk_owner r)) (update_rows ?hit (\<lambda>x. x\<lparr>tk_revokedAt := Some t\<rparr>) db) = 0"
    using new by (auto simp: count_rows_def filter_empty_conv set_update_rows live_app_def)
  then show ?thesis using db' app assms(2) by (simp add: count_rows_def live_app_def app_row_of_def)
qed

lemma auth_step_credentials_inv:
  "auth_step h db db' \<Longrightarrow> credentials_inv db \<Longrightarrow> credentials_inv db'"
proof (induction rule: auth_step.induct)
  case (mint now tok salt i parent rq db0 r db db')
  have "small_run_token r" and "\<not> live_app ow r" for ow
    using check_mint_ok(4) [OF prepare_mint_cases(1) [OF mint(1)]]
    by (simp_all add: small_run_token_def live_app_def app_row_of_def)
       (subst prepare_mint_cases(2) [OF mint(1)], simp add: minted_token_def)+
  with mint show ?case by (auto simp: put_token_Inr credentials_inv_def count_rows_def)
next
  case (revoke now parent i db b db')
  then show ?case
    by (auto simp: service_revoke_def result_simps revoke_token_def Let_def live_app_def app_row_of_def
        small_run_token_def intro!: credentials_inv_update split: option.splits if_splits)
next
  case (existing tok db0 r now ow scopes allow db r' db')
  then show ?case
    by (auto simp: bootstrap_existing_def result_simps updateAppScopes_def Let_def live_app_def app_row_of_def
        small_run_token_def intro!: credentials_inv_update split: if_splits)
next
  case (rotate tok salt now i ow scopes g r db db')
  have r: "tk_type r = AppToken" "tk_owner r = ow" "tk_revokedAt r = None"
    by (subst createRecord_frame(1) [OF rotate(1)], simp add: bootstrap_token_def)+
  let ?hit = "\<lambda>x. app_row_of (tk_owner r) x \<and> tk_id x \<noteq> tk_id r \<and> tk_revokedAt x = None"
  have db': "db' = update_rows ?hit (\<lambda>x. x\<lparr>tk_revokedAt := Some (tk_issuedAt r)\<rparr>) db @ [r]"
    using rotate(2) by (auto simp: rotateApp_def result_simps split: if_splits)
  have old: "credentials_inv (update_rows ?hit (\<lambda>x. x\<lparr>tk_revokedAt := Some (tk_issuedAt r)\<rparr>) db)"
    using rotate(3) by (rule credentials_inv_update) (auto simp: live_app_def app_row_of_def small_run_token_def)
  have "count_rows (live_app ow') db' \<le> 1" for ow'
  proof (cases "ow' = ow")
    case True
    then show ?thesis using rotate_live_app [OF rotate(2) r(3)] r(2) by simp
  next
    case False
    then have "\<not> live_app ow' r" using r by (simp add: live_app_def app_row_of_def)
    then show ?thesis using old db' by (simp add: credentials_inv_def count_rows_def)
  qed
  then show ?case using old db' r(1) by (auto simp: credentials_inv_def small_run_token_def)
qed

text \<open>Whatever the token service has done (bootstrapping, expanding scopes, minting, revoking, with
  any interleaving of its waits), every owner has at most one app credential that is not
  revoked, no two tokens share an identifier or a lookup hash, and every run token carries an
  expiry and only scopes that a run token may have.\<close>

theorem one_live_app_token:
  assumes "(auth_step h)\<^sup>*\<^sup>* [] db"
  shows "(\<forall>ow. count_rows (live_app ow) db \<le> 1)
    \<and> distinct (map tk_id db) \<and> distinct (map tk_lookupHash db)
    \<and> list_all (\<lambda>r. tk_type r = RunToken \<longrightarrow>
        set (tk_scopes r) \<subseteq> set RUN_TOKEN_SCOPES \<and> tk_expiresAt r \<noteq> None) db"
proof -
  have "credentials_inv db"
    using assms
  proof (induction rule: rtranclp_induct)
    case base
    then show ?case by (simp add: credentials_inv_def count_rows_def)
  next
    case (step y z)
    then show ?case by (blast intro: auth_step_credentials_inv)
  qed
  moreover have "tokens_inv db" using auth_steps_inv [OF assms] by (simp add: tokens_inv_def)
  ultimately show ?thesis
    by (simp add: credentials_inv_def tokens_inv_def small_run_token_def list_all_iff)
qed

section \<open>Examples\<close>

definition example_host :: auth_host where
  "example_host = \<lparr>au_utf8_length = (\<lambda>t. int (length t)), au_sha256 = (\<lambda>t. CHR ''#'' # t),
     au_scrypt = (\<lambda>t s. Some (t @ s)), au_base64 = id, au_unbase64 = id\<rparr>"

definition app_secret :: string where "app_secret = ''app_0123456789abcdef''"

definition run_secret :: string where "run_secret = ''lhr_0123456789abcdef''"

definition app_owner :: resource_owner where
  "app_owner = \<lparr>appId = ''app'', tenantId = ''acme'', userId = ''ann''\<rparr>"

definition tokens1 :: token_db where
  "tokens1 = (case ensureBootstrapAppToken example_host 0 app_secret ''salt'' ''tok_1'' app_owner
     DEFAULT_APP_SCOPES False [] of Inr (r, db) \<Rightarrow> db | Inl e \<Rightarrow> [])"

definition app_principal :: internal_principal where
  "app_principal = \<lparr>p_owner = app_owner, p_scopes = DEFAULT_APP_SCOPES, p_tokenId = Some ''tok_1'',
     p_tokenType = Some AppToken, p_replayPolicy = Some MultiUse, p_agentId = None,
     p_workspaceId = None, p_budgetCeiling = None\<rparr>"

definition example_mint :: mint_request where
  "example_mint = \<lparr>mt_scopes = [''runs:read'', ''runs:create''], mt_ttlSeconds = Some 60,
     mt_agentId = Some ''coder'', mt_workspaceId = None, mt_budgetCeiling = None\<rparr>"

definition tokens2 :: token_db where
  "tokens2 = (case mintRunToken example_host 1000 run_secret ''pepper'' ''tok_2'' app_principal
     example_mint tokens1 of Inr (r, db) \<Rightarrow> db | Inl e \<Rightarrow> [])"

definition tokens3 :: token_db where
  "tokens3 = (case service_revoke 2000 app_principal ''tok_2'' tokens2 of
     Inr (b, db) \<Rightarrow> db | Inl e \<Rightarrow> [])"

lemma tokens1_inv: "tokens_inv tokens1"
  unfolding tokens_inv_def by code_simp

lemma example_mint_ok:
  "\<exists>res. mintRunToken example_host 1000 run_secret ''pepper'' ''tok_2'' app_principal example_mint tokens1
     = Inr (res, tokens2) \<and> mr_expiresAt res = 61000"
proof -
  have "(case mintRunToken example_host 1000 run_secret ''pepper'' ''tok_2'' app_principal
     example_mint tokens1 of Inr (r, db) \<Rightarrow> db = tokens2 \<and> mr_expiresAt r = 61000 | Inl e \<Rightarrow> False)"
    by code_simp
  then show ?thesis by (auto split: sum.splits)
qed

lemma example_host_ok: "isValidToken example_host run_secret" "base64_inverse example_host"
  by code_simp (simp add: base64_inverse_def example_host_def)

theorem run_token_within_parent_witness:
  "\<exists>p. authenticate example_host 60999 run_secret tokens2 = Some p
    \<and> authenticate example_host 61000 run_secret tokens2 = None
    \<and> p_owner p = app_owner \<and> set (p_scopes p) \<subseteq> set DEFAULT_APP_SCOPES"
proof -
  obtain res where res: "mintRunToken example_host 1000 run_secret ''pepper'' ''tok_2'' app_principal
      example_mint tokens1 = Inr (res, tokens2)" "mr_expiresAt res = 61000"
    using example_mint_ok by blast
  have "mt_agentId example_mint \<noteq> Some []" "mt_workspaceId example_mint \<noteq> Some []"
    by (simp_all add: example_mint_def)
  from run_token_within_parent [OF tokens1_inv res(1) example_host_ok this] show ?thesis
    using res(2) by (auto simp: app_principal_def)
qed

lemma example_revoke_ok: "service_revoke 2000 app_principal ''tok_2'' tokens2 = Inr (True, tokens3)"
  by code_simp

lemma tokens2_inv: "tokens_inv tokens2"
  unfolding tokens_inv_def by code_simp

lemma app_still_live: "authenticate example_host 3000 app_secret tokens3 = Some app_principal"
  by code_simp

theorem revoked_token_is_dead_witness:
  "authenticate example_host 1500 run_secret tokens2 \<noteq> None
   \<and> authenticate example_host 3000 run_secret tokens3 = None
   \<and> authenticate example_host 3000 app_secret tokens3 = Some app_principal
   \<and> p_tokenId app_principal \<noteq> Some ''tok_2''"
proof -
  have "authenticate example_host 1500 run_secret tokens2 \<noteq> None"
    and "authenticate example_host 3000 run_secret tokens3 = None" by code_simp+
  with revoked_token_is_dead [OF tokens2_inv example_revoke_ok rtranclp.rtrancl_refl app_still_live]
    app_still_live show ?thesis by blast
qed

lemma tokens2_reachable: "(auth_step example_host)\<^sup>*\<^sup>* [] tokens2"
proof -
  have "createRecord example_host app_secret ''salt'' (bootstrap_token example_host 0 app_secret ''tok_1''
      app_owner DEFAULT_APP_SCOPES 1) = Inr (hd tokens1)"
    and "rotateApp (hd tokens1) (tk_issuedAt (hd tokens1)) [] = Inr tokens1"
    by code_simp+
  then have "auth_step example_host [] tokens1" by (rule auth_step.rotate)
  moreover have "prepare_mint example_host 1000 run_secret ''pepper'' ''tok_2'' app_principal example_mint tokens1
      = Inr (last tokens2)" and "put_token (last tokens2) tokens1 = Inr tokens2"
    by code_simp+
  then have "auth_step example_host tokens1 tokens2" by (rule auth_step.mint)
  ultimately show ?thesis by auto
qed

theorem one_live_app_token_witness:
  "length tokens2 = 2 \<and> count_rows (live_app app_owner) tokens2 \<le> 1
   \<and> distinct (map tk_lookupHash tokens2)"
proof -
  have "length tokens2 = 2" by code_simp
  with one_live_app_token [OF tokens2_reachable] show ?thesis by simp
qed

end
