(* ===== verification/ManagerApi.thy ===== *)
theory ManagerApi
  imports ControlPlane
begin

text \<open>
  The internal API of the Manager, \<open>apps/manager/src/server.ts\<close>: the checks of the Unix-socket
  protocol, and one handler per route on runs, approvals, sessions, artifacts, agents, workspaces
  and provider connections. A handler maps the Manager state to a response and a new state. A
  body that the route's schema rejects is \<open>None\<close>; an error nobody catches is answered by the
  error handler with status 500. Of an error envelope the code is modelled, not the message.
\<close>

section \<open>Responses\<close>

datatype api_body =
    RunBody "run_record option"
  | CreatedBody create_run_response
  | RunsBody "run_record list"
  | RunPageBody "run_record list" int
  | EventsBody "run_event list"
  | AttemptsBody "run_attempt list"
  | ApprovalBody approval_record
  | SessionBody session_record
  | MessagesBody "session_message list"
  | AgentBody "agent_profile option"
  | AgentsBody "agent_profile list"
  | WorkspaceBody "workspace_record option"
  | WorkspacesBody "workspace_record list"
  | ConnectionBody "provider_connection option"
  | ConnectionsBody "provider_connection list"
  | DeletedBody string
  | ErrorBody string

type_synonym api_response = "nat \<times> api_body"
type_synonym handler = "manager \<Rightarrow> api_response \<times> manager"

definition internal_error :: api_response where
  "internal_error = (500, ErrorBody ''internal_error'')"

definition not_found :: api_response where
  "not_found = (404, ErrorBody ''not_found'')"

definition invalid_request :: api_response where
  "invalid_request = (400, ErrorBody ''invalid_request'')"

definition answer :: "api_response \<Rightarrow> handler" where
  "answer r m = (r, m)"

text \<open>The answer to an action of the service; what it throws reaches the error handler.\<close>

definition serve :: "'a act \<Rightarrow> ('a \<Rightarrow> api_response) \<Rightarrow> handler" where
  "serve f reply m = (case f m of
     (Inl e, m') \<Rightarrow> (internal_error, m') | (Inr a, m') \<Rightarrow> (reply a, m'))"

text \<open>The same with a \<open>catch\<close> around the call.\<close>

definition serve_catching :: "'a act \<Rightarrow> api_response \<Rightarrow> ('a \<Rightarrow> api_response) \<Rightarrow> handler" where
  "serve_catching f caught reply m = (case f m of
     (Inl e, m') \<Rightarrow> (caught, m') | (Inr a, m') \<Rightarrow> (reply a, m'))"

definition found :: "('a \<Rightarrow> api_body) \<Rightarrow> 'a option \<Rightarrow> api_response" where
  "found body x = (case x of None \<Rightarrow> not_found | Some a \<Rightarrow> (200, body a))"

section \<open>The protocol\<close>

definition LITE_IPC_PROTOCOL_VERSION :: string where "LITE_IPC_PROTOCOL_VERSION = ''1''"

record ipc_headers =
  hd_version :: "string option"
  hd_token :: "string option"
  hd_owner :: resource_owner

text \<open>The hook before every route; \<open>None\<close> lets the request through.\<close>

definition ipc_gate :: "string \<Rightarrow> bool \<Rightarrow> ipc_headers \<Rightarrow> api_response option" where
  "ipc_gate internalToken isHealth hs =
     (if isHealth then None
      else if hd_version hs \<noteq> Some LITE_IPC_PROTOCOL_VERSION
      then Some (426, ErrorBody ''ipc_version_mismatch'')
      else if hd_token hs \<noteq> Some internalToken then Some (401, ErrorBody ''unauthorized'')
      else None)"

definition principalFromInternalHeaders :: "ipc_headers \<Rightarrow> internal_principal" where
  "principalFromInternalHeaders hs = \<lparr>p_owner = hd_owner hs, p_scopes = [], p_tokenId = None,
     p_tokenType = None, p_replayPolicy = None, p_agentId = None, p_workspaceId = None,
     p_budgetCeiling = None\<rparr>"

text \<open>An absent header is the empty text.\<close>

definition requireInternalPrincipal :: "ipc_headers \<Rightarrow> internal_principal option" where
  "requireInternalPrincipal hs =
     (let p = principalFromInternalHeaders hs in
      if appId (p_owner p) = [] \<or> tenantId (p_owner p) = [] \<or> userId (p_owner p) = [] then None
      else Some p)"

definition with_principal :: "ipc_headers \<Rightarrow> (internal_principal \<Rightarrow> handler) \<Rightarrow> handler" where
  "with_principal hs f = (case requireInternalPrincipal hs of
     None \<Rightarrow> answer internal_error | Some p \<Rightarrow> f p)"

definition samePrincipal :: "resource_owner \<Rightarrow> internal_principal \<Rightarrow> bool" where
  "samePrincipal r p \<longleftrightarrow> appId r = appId (p_owner p) \<and> tenantId r = tenantId (p_owner p)
     \<and> userId r = userId (p_owner p)"

lemma samePrincipal_eq [simp]: "samePrincipal r p \<longleftrightarrow> r = p_owner p"
  by (auto simp: samePrincipal_def)

definition boundedInteger :: "string option \<Rightarrow> int \<Rightarrow> int \<Rightarrow> int \<Rightarrow> int" where
  "boundedInteger value minimum maximum fallback = (case value of
     None \<Rightarrow> fallback
   | Some s \<Rightarrow> (case parse_int s of
       None \<Rightarrow> fallback
     | Some n \<Rightarrow> if \<bar>n\<bar> \<le> MAX_SAFE_INTEGER \<and> minimum \<le> n \<and> n \<le> maximum then n else fallback))"

section \<open>What a handler draws from its environment\<close>

record parsed_url =
  url_protocol :: string
  url_hostname :: string
  url_username :: string
  url_password :: string

text \<open>
  The clock (and its later readings while an approval is resolved), fresh identifiers, the fuel
  for cancelling a tree of runs, the URL parser, and the callbacks of the credential broker,
  which are absent or answer with the error they throw.
\<close>

record api_env =
  en_config :: config
  en_now :: timestamp
  en_later :: "timestamp \<times> timestamp"
  en_ids :: fresh_ids
  en_id :: string
  en_internal :: string
  en_credential :: string
  en_fuel :: nat
  en_parse_url :: "string \<Rightarrow> parsed_url option"
  en_login :: "(provider_connection \<Rightarrow> string \<Rightarrow> string option) option"
  en_logout :: "(provider_connection \<Rightarrow> string option) option"

section \<open>Runs\<close>

definition owned_run :: "string \<Rightarrow> internal_principal \<Rightarrow> db \<Rightarrow> run_record option" where
  "owned_run i p d = (case getRun i d of
     Some run \<Rightarrow> if samePrincipal (run_owner run) p then Some run else None
   | None \<Rightarrow> None)"

text \<open>Where a route looks up the run first and answers 404 unless the principal owns it.\<close>

definition with_run :: "string \<Rightarrow> internal_principal \<Rightarrow> (run_record \<Rightarrow> handler) \<Rightarrow> handler" where
  "with_run i p f m = (case owned_run i p (store m) of
     None \<Rightarrow> (not_found, m) | Some run \<Rightarrow> f run m)"

definition post_run :: "api_env \<Rightarrow> ipc_headers \<Rightarrow> start_run_request option \<Rightarrow> handler" where
  "post_run en hs body = (case body of
     None \<Rightarrow> answer invalid_request
   | Some rq \<Rightarrow> with_principal hs (\<lambda>p.
       if \<not> samePrincipal (p_owner (rq_principal rq)) p then answer (403, ErrorBody ''owner_mismatch'')
       else serve (service_createRun (en_config en) (en_now en) (en_ids en) (en_id en)
                     (rq\<lparr>rq_principal := p\<rparr>)) (\<lambda>res. (202, CreatedBody res))))"

definition get_runs :: "ipc_headers \<Rightarrow> string option \<Rightarrow> handler" where
  "get_runs hs limit = with_principal hs (\<lambda>p m.
     let n = boundedInteger limit 1 1000 100 in
     ((200, RunPageBody (listRuns (p_owner p) (of_int n) (store m)) n), m))"

definition get_run :: "ipc_headers \<Rightarrow> string \<Rightarrow> handler" where
  "get_run hs i = with_principal hs (\<lambda>p m.
     (found (\<lambda>r. RunBody (Some r)) (owned_run i p (store m)), m))"

text \<open>\<open>waitForEvents\<close> may wait, but answers with a page read when it returns.\<close>

definition get_events :: "api_env \<Rightarrow> ipc_headers \<Rightarrow> string \<Rightarrow> string option \<Rightarrow> handler" where
  "get_events en hs i after = with_principal hs (\<lambda>p. with_run i p (\<lambda>run m.
     case service_listEvents (en_config en) i (boundedInteger after 0 MAX_SAFE_INTEGER 0) m of
       Inl e \<Rightarrow> (internal_error, m) | Inr page \<Rightarrow> ((200, EventsBody page), m)))"

definition get_attempts :: "ipc_headers \<Rightarrow> string \<Rightarrow> handler" where
  "get_attempts hs i = with_principal hs (\<lambda>p. with_run i p (\<lambda>run m.
     ((200, AttemptsBody (listRunAttempts i (store m))), m)))"

definition get_children :: "ipc_headers \<Rightarrow> string \<Rightarrow> handler" where
  "get_children hs i = with_principal hs (\<lambda>p. with_run i p (\<lambda>run m.
     ((200, RunsBody (listChildRuns i (store m))), m)))"

definition post_cancel :: "api_env \<Rightarrow> ipc_headers \<Rightarrow> string \<Rightarrow> handler" where
  "post_cancel en hs i = with_principal hs (\<lambda>p. with_run i p (\<lambda>existing.
     serve (cancelRun (en_fuel en) (en_now en) i) (found (\<lambda>r. RunBody (Some r)))))"

definition blank :: "string \<Rightarrow> bool" where
  "blank s \<longleftrightarrow> list_all is_blank s"

definition post_steer :: "api_env \<Rightarrow> ipc_headers \<Rightarrow> string \<Rightarrow> string option \<Rightarrow> handler" where
  "post_steer en hs i instruction = with_principal hs (\<lambda>p. with_run i p (\<lambda>existing.
     case instruction of
       None \<Rightarrow> answer invalid_request
     | Some s \<Rightarrow>
         if blank s then answer invalid_request
         else serve_catching (steerRun (en_now en) (en_id en) i s)
                (409, ErrorBody ''run_not_active'') (\<lambda>r. (200, RunBody r))))"

section \<open>Approvals\<close>

definition owned_approval :: "string \<Rightarrow> internal_principal \<Rightarrow> db \<Rightarrow> approval_record option" where
  "owned_approval i p d = (case getApproval i d of
     None \<Rightarrow> None
   | Some a \<Rightarrow> (case owned_run (apr_runId a) p d of None \<Rightarrow> None | Some run \<Rightarrow> Some a))"

definition get_approval :: "ipc_headers \<Rightarrow> string \<Rightarrow> handler" where
  "get_approval hs i = with_principal hs (\<lambda>p m. (found ApprovalBody (owned_approval i p (store m)), m))"

definition post_resolve :: "api_env \<Rightarrow> ipc_headers \<Rightarrow> string \<Rightarrow> bool option \<Rightarrow> handler" where
  "post_resolve en hs i approved = (case approved of
     None \<Rightarrow> answer invalid_request
   | Some ok \<Rightarrow> with_principal hs (\<lambda>p m.
       case owned_approval i p (store m) of
         None \<Rightarrow> (not_found, m)
       | Some existing \<Rightarrow>
           serve (service_resolveApproval (en_config en) (en_now en) (fst (en_later en))
                    (snd (en_later en)) i ok) (found ApprovalBody) m))"

section \<open>Sessions\<close>

definition get_session :: "ipc_headers \<Rightarrow> string \<Rightarrow> handler" where
  "get_session hs i = with_principal hs (\<lambda>p m.
     (found SessionBody (getSession i (p_owner p) (store m)), m))"

definition get_messages :: "ipc_headers \<Rightarrow> string \<Rightarrow> handler" where
  "get_messages hs i = with_principal hs (\<lambda>p m.
     (case getSession i (p_owner p) (store m) of
        None \<Rightarrow> not_found
      | Some s \<Rightarrow> (200, MessagesBody (listSessionMessages i (p_owner p) 1000 (store m))), m))"

section \<open>Publishing artifacts\<close>

text \<open>
  The route reads the artifact from the workspace between two checks that the run still holds
  the lease, in the attempt, with which it started: \<open>publish_begin\<close> is what happens before the
  read and \<open>publish_end\<close> what happens after it. The artifact store itself is a parameter.
\<close>

record publish_request =
  pub_path :: string
  pub_mediaType :: string
  pub_principal :: internal_principal

record fence =
  fe_run :: run_record
  fe_attempt :: run_attempt
  fe_lease :: workspace_lease

definition running_attempt :: "string \<Rightarrow> db \<Rightarrow> run_attempt option" where
  "running_attempt i d = List.find (\<lambda>a. att_status a = RUNNING) (rev (listRunAttempts i d))"

definition hasActiveFence ::
  "timestamp \<Rightarrow> internal_principal \<Rightarrow> string \<Rightarrow> run_attempt \<Rightarrow> workspace_lease \<Rightarrow> db \<Rightarrow> bool" where
  "hasActiveFence now p i attempt lease d = (case getRun i d of
     None \<Rightarrow> False
   | Some run \<Rightarrow>
       samePrincipal (run_owner run) p
       \<and> map_option att_id (running_attempt (run_id run) d) = Some (att_id attempt)
       \<and> (case getWorkspaceLease (run_workspaceId run) (run_id run) d of
            None \<Rightarrow> False
          | Some l \<Rightarrow> ls_fencingToken l = ls_fencingToken lease \<and> validateWorkspaceLease now l d))"

definition fence_lost :: api_response where
  "fence_lost = (409, ErrorBody ''artifact_publish_requires_active_lease'')"

definition publish_begin ::
  "timestamp \<Rightarrow> bool \<Rightarrow> ipc_headers \<Rightarrow> string \<Rightarrow> publish_request option \<Rightarrow> db \<Rightarrow> api_response + fence" where
  "publish_begin now configured hs i body d = (case body of
     None \<Rightarrow> Inl invalid_request
   | Some rq \<Rightarrow>
       if \<not> configured then Inl invalid_request
       else (case requireInternalPrincipal hs of
         None \<Rightarrow> Inl internal_error
       | Some p \<Rightarrow>
           if \<not> samePrincipal (p_owner (pub_principal rq)) p then Inl (403, ErrorBody ''owner_mismatch'')
           else (case owned_run i p d of
             None \<Rightarrow> Inl not_found
           | Some run \<Rightarrow>
               (case (running_attempt (run_id run) d, getWorkspaceLease (run_workspaceId run) (run_id run) d) of
                  (Some attempt, Some lease) \<Rightarrow>
                    if hasActiveFence now p (run_id run) attempt lease d
                    then Inr \<lparr>fe_run = run, fe_attempt = attempt, fe_lease = lease\<rparr>
                    else Inl fence_lost
                | _ \<Rightarrow> Inl fence_lost))))"

text \<open>\<open>Inr\<close> stands for the call of \<open>artifactStore.publish\<close> with the run of the fence.\<close>

definition publish_end ::
  "timestamp \<Rightarrow> internal_principal \<Rightarrow> fence \<Rightarrow> db \<Rightarrow> api_response + run_record" where
  "publish_end now p f d =
     (if hasActiveFence now p (run_id (fe_run f)) (fe_attempt f) (fe_lease f) d
      then Inr (fe_run f) else Inl fence_lost)"

section \<open>Agents and workspaces\<close>

record agent_request =
  ag_id :: "string option"
  ag_name :: string
  ag_instructions :: "string option"
  ag_modelCapabilities :: "model_capability list option"
  ag_allowedTools :: "string list option"
  ag_defaultBudget :: "partial_budget option"
  ag_principal :: internal_principal

definition new_agent :: "api_env \<Rightarrow> internal_principal \<Rightarrow> agent_request \<Rightarrow> agent_profile" where
  "new_agent en p body = \<lparr>ap_id = nullish (ag_id body) (''agt_'' @ en_id en), ap_version = 1,
     ap_owner = p_owner p, ap_name = ag_name body, ap_instructions = nullish (ag_instructions body) [],
     ap_modelCapabilities = nullish (ag_modelCapabilities body) [Text, Tools],
     ap_allowedTools = nullish (ag_allowedTools body) [''read_file'', ''write_file''],
     ap_defaultBudget = normalizeBudget (spread_budget (full_budget DEFAULT_RUN_BUDGET)
        (nullish (ag_defaultBudget body) empty_budget)), ap_createdAt = en_now en\<rparr>"

definition post_agent :: "api_env \<Rightarrow> ipc_headers \<Rightarrow> agent_request option \<Rightarrow> handler" where
  "post_agent en hs body = (case body of
     None \<Rightarrow> answer invalid_request
   | Some rq \<Rightarrow> with_principal hs (\<lambda>p.
       if \<not> samePrincipal (p_owner (ag_principal rq)) p then answer (403, ErrorBody ''owner_mismatch'')
       else serve (store_act (createAgentProfile (en_internal en) (new_agent en p rq)))
              (\<lambda>a. (201, AgentBody a))))"

definition get_agents :: "ipc_headers \<Rightarrow> handler" where
  "get_agents hs = with_principal hs (\<lambda>p m.
     ((200, AgentsBody (listAgentProfiles (p_owner p) (store m))), m))"

definition get_agent :: "ipc_headers \<Rightarrow> string \<Rightarrow> handler" where
  "get_agent hs i = with_principal hs (\<lambda>p m.
     (found (\<lambda>a. AgentBody (Some a)) (getAgentProfile i (p_owner p) (store m)), m))"

definition delete_agent_route :: "ipc_headers \<Rightarrow> string \<Rightarrow> handler" where
  "delete_agent_route hs i = with_principal hs (\<lambda>p.
     serve (store_act (deleteAgentProfile i (p_owner p))) (\<lambda>deleted.
       if deleted then (200, DeletedBody i) else (409, ErrorBody ''resource_in_use_or_missing'')))"

record workspace_request =
  wq_id :: "string option"
  wq_principal :: internal_principal

definition new_workspace :: "api_env \<Rightarrow> internal_principal \<Rightarrow> workspace_request \<Rightarrow> workspace_record" where
  "new_workspace en p body = \<lparr>ws_id = nullish (wq_id body) (''wsp_'' @ en_id en),
     ws_owner = p_owner p, ws_mode = Managed, ws_state = WARM, ws_registeredPath = None,
     ws_createdAt = en_now en, ws_updatedAt = en_now en\<rparr>"

definition post_workspace :: "api_env \<Rightarrow> ipc_headers \<Rightarrow> workspace_request option \<Rightarrow> handler" where
  "post_workspace en hs body = (case body of
     None \<Rightarrow> answer invalid_request
   | Some rq \<Rightarrow> with_principal hs (\<lambda>p.
       if \<not> samePrincipal (p_owner (wq_principal rq)) p then answer (403, ErrorBody ''owner_mismatch'')
       else serve (store_act (createWorkspace (en_internal en) (new_workspace en p rq)))
              (\<lambda>w. (201, WorkspaceBody w))))"

definition get_workspaces :: "ipc_headers \<Rightarrow> handler" where
  "get_workspaces hs = with_principal hs (\<lambda>p m.
     ((200, WorkspacesBody (listWorkspaces (p_owner p) (store m))), m))"

definition get_workspace :: "ipc_headers \<Rightarrow> string \<Rightarrow> handler" where
  "get_workspace hs i = with_principal hs (\<lambda>p m.
     (found (\<lambda>w. WorkspaceBody (Some w)) (getWorkspace i (p_owner p) (store m)), m))"

section \<open>Provider connections\<close>

record connection_request =
  cn_id :: "string option"
  cn_providerId :: string
  cn_displayName :: string
  cn_authKind :: "auth_kind option"
  cn_baseUrl :: "string option"
  cn_modelIds :: "string list option"
  cn_principal :: internal_principal

text \<open>An absent or empty endpoint is valid; one the URL parser rejects throws.\<close>

definition validateProviderConnectionEndpoint ::
  "(string \<Rightarrow> parsed_url option) \<Rightarrow> string option \<Rightarrow> bool" where
  "validateProviderConnectionEndpoint parse baseUrl = (case truthy baseUrl of
     None \<Rightarrow> True
   | Some s \<Rightarrow> (case parse s of
       None \<Rightarrow> False
     | Some u \<Rightarrow>
         url_username u = [] \<and> url_password u = []
         \<and> (url_protocol u = ''https:''
            \<or> url_hostname u \<in> {''127.0.0.1'', ''[::1]'', ''localhost''})))"

definition new_connection :: "api_env \<Rightarrow> internal_principal \<Rightarrow> connection_request \<Rightarrow> provider_connection" where
  "new_connection en p body = \<lparr>pc_id = nullish (cn_id body) (''pc_'' @ en_id en),
     pc_owner = p_owner p, pc_providerId = cn_providerId body, pc_displayName = cn_displayName body,
     pc_authKind = nullish (cn_authKind body) ApiKey,
     pc_credentialProfileId = ''cred_'' @ en_credential en, pc_baseUrl = truthy (cn_baseUrl body),
     pc_modelIds = nullish (cn_modelIds body) [], pc_status = NeedsLogin, pc_lastErrorCode = None,
     pc_createdAt = en_now en, pc_updatedAt = en_now en\<rparr>"

definition get_connections :: "ipc_headers \<Rightarrow> handler" where
  "get_connections hs = with_principal hs (\<lambda>p m.
     ((200, ConnectionsBody (listProviderConnections (p_owner p) (store m))), m))"

definition post_connection :: "api_env \<Rightarrow> ipc_headers \<Rightarrow> connection_request option \<Rightarrow> handler" where
  "post_connection en hs body = (case body of
     None \<Rightarrow> answer invalid_request
   | Some rq \<Rightarrow> with_principal hs (\<lambda>p.
       if \<not> samePrincipal (p_owner (cn_principal rq)) p then answer (403, ErrorBody ''owner_mismatch'')
       else if \<not> validateProviderConnectionEndpoint (en_parse_url en) (cn_baseUrl rq)
       then answer (400, ErrorBody ''invalid_provider_endpoint'')
       else serve_catching (store_act (createProviderConnection (en_internal en) (new_connection en p rq)))
              (409, ErrorBody ''provider_connection_conflict'') (\<lambda>c. (201, ConnectionBody c))))"

text \<open>\<open>/^[A-Za-z0-9_.-]{1,128}$/u\<close>\<close>

definition is_code_char :: "char \<Rightarrow> bool" where
  "is_code_char c = (let n = (of_char c :: nat) in
     (65 \<le> n \<and> n \<le> 90) \<or> (97 \<le> n \<and> n \<le> 122) \<or> (48 \<le> n \<and> n \<le> 57) \<or> n \<in> {95, 46, 45})"

definition login_error_code :: "string \<Rightarrow> string" where
  "login_error_code message =
     (if 1 \<le> length message \<and> length message \<le> 128 \<and> list_all is_code_char message then message
      else ''provider_login_failed'')"

record login_request =
  lg_secret :: string
  lg_principal :: internal_principal

text \<open>After the credential broker has answered (\<open>Some\<close> is the message of the error it threw).\<close>

definition login_end ::
  "timestamp \<Rightarrow> string \<Rightarrow> resource_owner \<Rightarrow> string option \<Rightarrow> handler" where
  "login_end now i ow outcome = (case outcome of
     None \<Rightarrow> serve (store_act (updateProviderConnection now i ow Ready None)) (\<lambda>c. (200, ConnectionBody c))
   | Some message \<Rightarrow>
       serve (store_act (updateProviderConnection now i ow ConnectionError (Some (login_error_code message))))
         (\<lambda>c. (502, ErrorBody ''provider_login_failed'')))"

definition post_login :: "api_env \<Rightarrow> ipc_headers \<Rightarrow> string \<Rightarrow> login_request option \<Rightarrow> handler" where
  "post_login en hs i body = (case body of
     None \<Rightarrow> answer invalid_request
   | Some rq \<Rightarrow> with_principal hs (\<lambda>p m.
       if \<not> samePrincipal (p_owner (lg_principal rq)) p then ((403, ErrorBody ''owner_mismatch''), m)
       else (case getProviderConnection i (p_owner p) (store m) of
         None \<Rightarrow> (not_found, m)
       | Some connection \<Rightarrow> (case en_login en of
           None \<Rightarrow> ((503, ErrorBody ''provider_login_unavailable''), m)
         | Some login \<Rightarrow>
             login_end (en_now en) (pc_id connection) (p_owner p) (login connection (lg_secret rq)) m))))"

definition delete_connection_route :: "api_env \<Rightarrow> ipc_headers \<Rightarrow> string \<Rightarrow> handler" where
  "delete_connection_route en hs i = with_principal hs (\<lambda>p m.
     case getProviderConnection i (p_owner p) (store m) of
       None \<Rightarrow> (not_found, m)
     | Some connection \<Rightarrow>
         (case (case en_logout en of None \<Rightarrow> None | Some logout \<Rightarrow> logout connection) of
            Some message \<Rightarrow> ((409, ErrorBody ''provider_connection_delete_failed''), m)
          | None \<Rightarrow>
              serve_catching (store_act (deleteProviderConnection (pc_id connection) (p_owner p)))
                (409, ErrorBody ''provider_connection_delete_failed'')
                (\<lambda>deleted. if deleted then (200, DeletedBody (pc_id connection)) else not_found) m))"

section \<open>The routes\<close>

text \<open>Artifacts are left out here: their two halves above have a read of the workspace between them.\<close>

datatype ipc_request =
    PostRun "start_run_request option"
  | GetRuns "string option"
  | GetRun string
  | GetEvents string "string option"
  | GetAttempts string
  | GetChildren string
  | PostCancel string
  | PostSteer string "string option"
  | GetApproval string
  | PostResolve string "bool option"
  | GetSession string
  | GetMessages string
  | PostAgent "agent_request option"
  | GetAgents
  | GetAgent string
  | DeleteAgent string
  | PostWorkspace "workspace_request option"
  | GetWorkspaces
  | GetWorkspace string
  | GetConnections
  | PostConnection "connection_request option"
  | PostLogin string "login_request option"
  | DeleteConnection string

fun manager_route :: "api_env \<Rightarrow> ipc_headers \<Rightarrow> ipc_request \<Rightarrow> handler" where
  "manager_route en hs (PostRun body) = post_run en hs body"
| "manager_route en hs (GetRuns limit) = get_runs hs limit"
| "manager_route en hs (GetRun i) = get_run hs i"
| "manager_route en hs (GetEvents i after) = get_events en hs i after"
| "manager_route en hs (GetAttempts i) = get_attempts hs i"
| "manager_route en hs (GetChildren i) = get_children hs i"
| "manager_route en hs (PostCancel i) = post_cancel en hs i"
| "manager_route en hs (PostSteer i instruction) = post_steer en hs i instruction"
| "manager_route en hs (GetApproval i) = get_approval hs i"
| "manager_route en hs (PostResolve i approved) = post_resolve en hs i approved"
| "manager_route en hs (GetSession i) = get_session hs i"
| "manager_route en hs (GetMessages i) = get_messages hs i"
| "manager_route en hs (PostAgent body) = post_agent en hs body"
| "manager_route en hs GetAgents = get_agents hs"
| "manager_route en hs (GetAgent i) = get_agent hs i"
| "manager_route en hs (DeleteAgent i) = delete_agent_route hs i"
| "manager_route en hs (PostWorkspace body) = post_workspace en hs body"
| "manager_route en hs GetWorkspaces = get_workspaces hs"
| "manager_route en hs (GetWorkspace i) = get_workspace hs i"
| "manager_route en hs GetConnections = get_connections hs"
| "manager_route en hs (PostConnection body) = post_connection en hs body"
| "manager_route en hs (PostLogin i body) = post_login en hs i body"
| "manager_route en hs (DeleteConnection i) = delete_connection_route en hs i"

definition manager_serve :: "api_env \<Rightarrow> string \<Rightarrow> ipc_headers \<Rightarrow> ipc_request \<Rightarrow> handler" where
  "manager_serve en internalToken hs rq m = (case ipc_gate internalToken False hs of
     Some refusal \<Rightarrow> (refusal, m) | None \<Rightarrow> manager_route en hs rq m)"

end
