(* ===== verification/StoreFencing.thy ===== *)
theory StoreFencing
  imports StoreProperties
begin

text \<open>
  The promises of the workspace leases over all histories of the store: one owner at a time,
  fenced takeovers, final releases. They rest on the interpretation of \<open>fenced_lease\<close>.
\<close>

section \<open>Leases\<close>

lemma store_step_lease_step:
  assumes "store_step fp d d'"
  shows "lease_step d d'"
  using assms
proof cases
  case (create now ids i rq rec created)
  from this(1) show ?thesis
  proof (cases rule: createOrGetRun_cases)
    case (create row)
    from create(2) show ?thesis by (rule create_run_cases) (simp add: lease_step.other)
  qed (simp add: lease_step.other)
next
  case (append now ae e)
  from this(1) show ?thesis
  proof (rule appendEvent_cases)
    assume "d' = d\<lparr>runs := runs d', run_events := run_events d', run_attempts := run_attempts d'\<rparr>"
    then have "workspace_leases d' = workspace_leases d"
      by (metis (no_types) db.select_convs(5) db.surjective db.update_convs(1,2,9))
    then show ?thesis by (rule lease_step.other)
  qed
next
  case (message now am m)
  from appendSessionMessage_frame [OF this(1)] have "workspace_leases d' = workspace_leases d"
    by (metis (no_types) db.select_convs(5) db.surjective db.update_convs(4))
  then show ?thesis by (rule lease_step.other)
next
  case (usage now i u rec)
  from this(1) show ?thesis by (rule recordUsage_cases) (simp add: lease_step.other)
next
  case (resolve now i st digest payload res)
  have r: "workspace_leases d1 = workspace_leases d"
    if "resolve_within now i st digest d = (c, d1)" for c d1
    using that by (auto simp: resolve_within_def)
  have e: "workspace_leases d' = workspace_leases d1" if "appendEvent now e d1 = Inr (ev, d')" for d1 e ev
    using that
  proof (rule appendEvent_cases)
    assume "d' = d1\<lparr>runs := runs d', run_events := run_events d', run_attempts := run_attempts d'\<rparr>"
    then show "workspace_leases d' = workspace_leases d1"
      by (metis (no_types) db.select_convs(5) db.surjective db.update_convs(1,2,9))
  qed
  from resolve(1) have "workspace_leases d' = workspace_leases d"
    by (cases rule: resolveApprovalAndAppendEvent_cases) (simp_all add: r e)
  then show ?thesis by (rule lease_step.other)
next
  case other_record
  then show ?thesis by (blast intro: lease_step.other dest: record_step_frame)
qed (blast intro: lease_step.intros)+

lemma lease_steps: "(store_step fp)\<^sup>*\<^sup>* d d' \<Longrightarrow> lease_step\<^sup>*\<^sup>* d d'"
  by (erule rtranclp_mono [THEN predicate2D, rotated]) (blast intro: store_step_lease_step)

lemma run_workspace_Some:
  assumes "reachable fp d"
  shows "run_workspace i ws d = Some w \<longleftrightarrow> (\<exists>r. find_run i d = Some r \<and> rr_workspace_id r = ws
    \<and> rr_workspace_internal_id r = Some w)"
proof -
  note unique = find_run_unique [OF reachable_runs_inv [OF assms], of i]
  have found: "List.find (\<lambda>r. rr_id r = i \<and> rr_workspace_id r = ws) (runs d) = Some r
    \<longleftrightarrow> find_run i d = Some r \<and> rr_workspace_id r = ws" for r
  proof
    assume "List.find (\<lambda>r. rr_id r = i \<and> rr_workspace_id r = ws) (runs d) = Some r"
    then show "find_run i d = Some r \<and> rr_workspace_id r = ws"
      unfolding unique by (blast dest: find_SomeD)
  next
    assume r: "find_run i d = Some r \<and> rr_workspace_id r = ws"
    then have "r \<in> set (runs d)" "rr_id r = i" by (simp_all add: unique)
    then obtain r' where r': "List.find (\<lambda>r. rr_id r = i \<and> rr_workspace_id r = ws) (runs d) = Some r'"
      using r by (cases "List.find (\<lambda>r. rr_id r = i \<and> rr_workspace_id r = ws) (runs d)")
        (auto dest: find_NoneD)
    then have "find_run i d = Some r'" unfolding unique by (blast dest: find_SomeD)
    with r r' show "List.find (\<lambda>r. rr_id r = i \<and> rr_workspace_id r = ws) (runs d) = Some r" by simp
  qed
  have "run_workspace i ws d = Some w \<longleftrightarrow>
    (\<exists>r. List.find (\<lambda>r. rr_id r = i \<and> rr_workspace_id r = ws) (runs d) = Some r
      \<and> rr_workspace_internal_id r = Some w)"
    by (auto simp: run_workspace_def split: option.splits)
  then show ?thesis unfolding found by blast
qed

lemma run_workspace_steps:
  assumes "reachable fp d" and "(store_step fp)\<^sup>*\<^sup>* d d'" and "run_workspace i ws d = Some w"
    and "run_workspace i ws d' = Some w'"
  shows "w' = w"
proof -
  from assms(3) obtain r where r: "find_run i d = Some r" "rr_workspace_internal_id r = Some w"
    unfolding run_workspace_Some [OF assms(1)] by blast
  from assms(4) obtain r' where r': "find_run i d' = Some r'" "rr_workspace_internal_id r' = Some w'"
    unfolding run_workspace_Some [OF reachable_steps [OF assms(2,1)]] by blast
  from identity_find_run [OF assms(1,2) r(1)] r' identity_columns(6) r(2) show ?thesis
    by (metis option.inject)
qed

text \<open>A workspace has at most one lease row.\<close>

lemma lease_step_distinct:
  assumes "lease_step d d'" and "distinct (map lr_workspace_internal_id (workspace_leases d))"
  shows "distinct (map lr_workspace_internal_id (workspace_leases d'))"
  using assms
proof cases
  case (acquire now ws i ttl res)
  have same: "map lr_workspace_internal_id (update_rows
      (\<lambda>x. lr_workspace_internal_id x = lr_workspace_internal_id l) (\<lambda>_. l) t)
    = map lr_workspace_internal_id t" for l t by (induction t) auto
  from acquire show ?thesis
    by (cases rule: acquire_cases) (use assms(2) in \<open>auto simp: upsert_lease_def same list_ex_iff\<close>)
next
  case (renew now lease ttl res)
  with assms(2) show ?thesis
    by (auto simp: renewWorkspaceLease_def Let_def map_update_rows_frame)
next
  case (release now lease ok)
  with assms(2) show ?thesis
    by (auto simp: releaseWorkspaceLease_def Let_def map_update_rows_frame)
qed simp

lemma reachable_lease_distinct:
  "reachable fp d \<Longrightarrow> distinct (map lr_workspace_internal_id (workspace_leases d))"
  by (induction rule: reachable.induct)
     (simp add: empty_db_def, blast intro: lease_step_distinct store_step_lease_step)

definition second_request :: start_run_request where
  "second_request = example_request\<lparr>rq_idempotencyKey := ''k2''\<rparr>"

definition db4 :: db where
  "db4 = ok_state (createOrGetRun example_fp 11 (example_ids ''2'') ''run_2'' second_request db1)"

definition db5 :: db where "db5 = ok_state (acquireWorkspaceLease 100 ''w'' ''run_1'' 50 db4)"

definition db6 :: db where "db6 = ok_state (acquireWorkspaceLease 200 ''w'' ''run_2'' 50 db5)"

definition lease_a :: workspace_lease where
  "lease_a = \<lparr>ls_workspaceId = ''w'', ls_ownerRunId = ''run_1'', ls_fencingToken = 1, ls_expiresAt = 150\<rparr>"

definition lease_b :: workspace_lease where
  "lease_b = \<lparr>ls_workspaceId = ''w'', ls_ownerRunId = ''run_2'', ls_fencingToken = 2, ls_expiresAt = 250\<rparr>"

lemma db4_ok: "is_ok (createOrGetRun example_fp 11 (example_ids ''2'') ''run_2'' second_request db1)"
  by code_simp

lemma db4_step: "store_step example_fp db1 db4"
  using ok_state [OF db4_ok] by (auto simp: db4_def [symmetric] intro: store_step.create)

lemma db5_eq: "acquireWorkspaceLease 100 ''w'' ''run_1'' 50 db4 = Inr (Some lease_a, db5)"
  by code_simp

lemma db6_eq: "acquireWorkspaceLease 200 ''w'' ''run_2'' 50 db5 = Inr (Some lease_b, db6)"
  by code_simp

lemma db4_reachable: "reachable example_fp db4" "reachable example_fp db5" "reachable example_fp db6"
  by (blast intro: reachable.step db_reachable(1) db4_step store_step.acquire db5_eq db6_eq)+

text \<open>C4: Two runs never hold a valid lease on one workspace: of the leases the store validates at
  any moment (even read at different clock values) for the same workspace, all have the same
  owner run and the same fencing token.\<close>

theorem lease_mutual_exclusion:
  assumes "validateWorkspaceLease now l1 d" and "validateWorkspaceLease now' l2 d"
    and "run_workspace (ls_ownerRunId l1) (ls_workspaceId l1) d
       = run_workspace (ls_ownerRunId l2) (ls_workspaceId l2) d"
  shows "ls_ownerRunId l2 = ls_ownerRunId l1 \<and> ls_fencingToken l2 = ls_fencingToken l1"
proof -
  from assms(1) obtain w where w: "run_workspace (ls_ownerRunId l1) (ls_workspaceId l1) d = Some w"
    by (auto simp: validate_cases)
  have "lease_valid w now (ls_ownerRunId l1) (ls_fencingToken l1) d"
    "lease_valid w now' (ls_ownerRunId l2) (ls_fencingToken l2) d"
    using assms w by (auto simp: lease_valid_def)
  then show ?thesis by (rule store_lease.exclusive)
qed

theorem lease_mutual_exclusion_witness:
  "validateWorkspaceLease 220 lease_b db6 \<and> ls_ownerRunId lease_b = ls_ownerRunId lease_b
   \<and> \<not> validateWorkspaceLease 120 lease_a db6"
proof -
  have v: "validateWorkspaceLease 220 lease_b db6"
    and same: "run_workspace (ls_ownerRunId lease_a) (ls_workspaceId lease_a) db6
      = run_workspace (ls_ownerRunId lease_b) (ls_workspaceId lease_b) db6"
    by code_simp+
  have "ls_ownerRunId lease_b \<noteq> ls_ownerRunId lease_a" by code_simp
  with lease_mutual_exclusion [of 120 lease_a db6 220 lease_b] v same show ?thesis by auto
qed

text \<open>C5: Fencing: when another run has taken over the lease of a workspace, no lease the former
  owner was ever given before (its token at most the workspace's token at the take-over) is
  validated again, whatever the store does afterwards, whatever the clock says.\<close>

theorem lease_fencing:
  assumes "reachable fp d" and "acquireWorkspaceLease now ws i ttl d = Inr (Some lease, d')"
    and "run_workspace i ws d = Some w" and "run_workspace (ls_ownerRunId old) (ls_workspaceId old) d = Some w"
    and "ls_ownerRunId old \<noteq> i" and "ls_fencingToken old \<le> lease_token w d"
    and "(store_step fp)\<^sup>*\<^sup>* d' d''"
  shows "\<not> validateWorkspaceLease now'' old d''"
proof
  assume valid: "validateWorkspaceLease now'' old d''"
  have step: "store_step fp d d'" using assms(2) by (rule store_step.acquire)
  then have steps: "(store_step fp)\<^sup>*\<^sup>* d d''" using assms(7) by (rule converse_rtranclp_into_rtranclp)
  from valid obtain w' where w': "run_workspace (ls_ownerRunId old) (ls_workspaceId old) d'' = Some w'"
    by (auto simp: validate_cases)
  have "w' = w" using run_workspace_steps [OF assms(1) steps assms(4) w'] .
  with valid w' have held: "lease_valid w now'' (ls_ownerRunId old) (ls_fencingToken old) d''"
    by (auto simp: lease_valid_def)
  have "lease_owner w d' = Some i"
    using assms(2)
  proof (cases rule: acquire_cases)
    case (granted v lease' row)
    then have "v = w" using assms(3) unfolding run_workspace_Some [OF assms(1)] by auto
    with granted show ?thesis by (simp add: lease_upsert_state)
  qed simp
  then have "lease_owner w d' \<noteq> Some (ls_ownerRunId old)" using assms(5) by simp
  moreover have "ls_fencingToken old \<le> lease_token w d'"
    using acquire_token [OF assms(2), of w] assms(6) by simp
  ultimately show False using store_lease.no_comeback [OF _ _ lease_steps [OF assms(7)]] held by blast
qed

theorem lease_fencing_witness: "\<not> validateWorkspaceLease 120 lease_a db6"
proof -
  have "run_workspace ''run_2'' ''w'' db5 = Some ''1w''"
    "run_workspace (ls_ownerRunId lease_a) (ls_workspaceId lease_a) db5 = Some ''1w''"
    "ls_ownerRunId lease_a \<noteq> ''run_2''" "ls_fencingToken lease_a \<le> lease_token ''1w'' db5"
    by code_simp+
  from lease_fencing [OF db4_reachable(2) db6_eq this rtranclp.rtrancl_refl] show ?thesis .
qed

text \<open>A granted lease is usable at once and until it expires: the store validates it at every
  time before its expiry, its expiry is the clock plus the time to live, another run asking
  before the expiry is refused without any change, and the token grew unless the same run
  renewed its own live lease.\<close>

theorem lease_grant:
  assumes "acquireWorkspaceLease now ws i ttl d = Inr (Some lease, d')"
    and "run_workspace i ws d = Some w" and "run_workspace j ws' d = Some w" and "j \<noteq> i"
    and "now \<le> t" and "t < now + ttl" and "i \<noteq> []"  and "w \<noteq> []" and "reachable fp d"
  shows "validateWorkspaceLease t lease d' \<and> ls_expiresAt lease = now + ttl
    \<and> acquireWorkspaceLease t ws' j ttl' d' = Inr (None, d')
    \<and> (ls_fencingToken lease = lease_token w d + 1
       \<or> ls_fencingToken lease = lease_token w d \<and> lease_owner w d = Some i)"
proof -
  have uniq: "find_run k d = Some r \<and> rr_workspace_id r = wsk \<and> rr_workspace_internal_id r = Some w"
    if k: "run_workspace k wsk d = Some w" and r: "find_run k d = Some r" for k wsk r
    using k r unfolding run_workspace_Some [OF assms(9)] by auto
  from assms(1) show ?thesis
  proof (cases rule: acquire_cases)
    case (granted v lease' row)
    obtain r where r: "find_run i d = Some r" using granted(3) by auto
    from uniq [OF assms(2) this] granted(5) r have v: "v = w" by simp
    obtain rj where rj: "find_run j d = Some rj"
      using assms(3) unfolding run_workspace_Some [OF assms(9)] by blast
    from uniq [OF assms(3) this] have j: "rr_workspace_id rj = ws'" "rr_workspace_internal_id rj = Some w"
      by auto
    have frame: "runs d' = runs d" using granted(2) by (simp add: upsert_lease_def)
    then have same: "run_workspace k x d' = run_workspace k x d" "find_run k d' = find_run k d" for k x
      by (simp_all add: run_workspace_def find_run_def)
    have found: "find_lease w d' = Some row"
      using granted(2,6) v by (simp add: find_lease_upsert)
    have live: "live_until t row" using granted(8) assms(6) by (simp add: live_until_def)
    have tw: "truthy (Some w) = Some w" "truthy (Some i) = Some i"
      using assms(7,8) by (simp_all add: truthy_def)
    have "held_by_other t j row"
      using live granted(7) assms(4) tw by (simp add: held_by_other_def)
    then have "acquireWorkspaceLease t ws' j ttl' d' = Inr (None, d')"
      using found rj j by (simp add: acquireWorkspaceLease_def same tw)
    moreover have "run_workspace (ls_ownerRunId lease) (ls_workspaceId lease) d' = Some w"
      using granted(1,12,13) assms(2) same(1) by simp
    then have "validateWorkspaceLease t lease d'"
      using granted(1,7,9,12) live found by (simp add: validate_cases)
    moreover have "ls_fencingToken lease = lease_token w d + 1
       \<or> ls_fencingToken lease = lease_token w d \<and> lease_owner w d = Some i"
      using granted(1,11) v by (auto simp: lease_owner_def held_by_self_def split: if_splits)
    ultimately show ?thesis using granted by simp
  qed simp
qed

theorem lease_grant_witness:
  "validateWorkspaceLease 149 lease_a db5 \<and> acquireWorkspaceLease 149 ''w'' ''run_2'' 10 db5 = Inr (None, db5)"
proof -
  have "run_workspace ''run_1'' ''w'' db4 = Some ''1w''" "run_workspace ''run_2'' ''w'' db4 = Some ''1w''"
    by code_simp+
  from lease_grant [OF db5_eq this, of 149 example_fp 10] db4_reachable(1) show ?thesis by simp
qed

text \<open>Giving a lease up is final: after a successful release, the released lease is never
  validated again, even when the same run acquires the workspace anew.\<close>

theorem released_lease_stays_released:
  assumes "reachable fp d" and "releaseWorkspaceLease now lease d = Inr (True, d')"
    and "(store_step fp)\<^sup>*\<^sup>* d' d''"
  shows "\<not> validateWorkspaceLease now'' lease d''"
proof
  assume valid: "validateWorkspaceLease now'' lease d''"
  have step: "store_step fp d d'" using assms(2) by (rule store_step.release)
  then have steps: "(store_step fp)\<^sup>*\<^sup>* d d''" using assms(3) by (rule converse_rtranclp_into_rtranclp)
  from assms(2) have cnt: "count_rows (lease_row_of lease d) (workspace_leases d) = 1"
    and d': "d' = d\<lparr>workspace_leases := update_rows (lease_row_of lease d)
         (\<lambda>l. l\<lparr>lr_owner_run_id := None, lr_expires_at := None, lr_updated_at := now\<rparr>)
         (workspace_leases d)\<rparr>"
    by (auto simp: releaseWorkspaceLease_def Let_def)
  from cnt obtain l where l: "l \<in> set (workspace_leases d)" "lease_row_of lease d l"
    by (metis count_rows_def empty_filter_conv list.size(3) zero_neq_one)
  define w where "w = lr_workspace_internal_id l"
  have w: "run_workspace (ls_ownerRunId lease) (ls_workspaceId lease) d = Some w"
    using l(2) by (simp add: lease_row_of_def w_def)
  from valid obtain w' where w': "run_workspace (ls_ownerRunId lease) (ls_workspaceId lease) d'' = Some w'"
    by (auto simp: validate_cases)
  have "w' = w" using run_workspace_steps [OF assms(1) steps w w'] .
  with valid w' have held: "lease_valid w now'' (ls_ownerRunId lease) (ls_fencingToken lease) d''"
    by (auto simp: lease_valid_def)
  have found: "find_lease w d = Some l"
    using reachable_lease_distinct [OF assms(1)] l(1) by (simp add: find_lease_def find_unique_key w_def)
  then have "lease_owner w d' \<noteq> Some (ls_ownerRunId lease)"
    using l(2) by (simp add: d' lease_owner_def find_lease_update)
  moreover have "ls_fencingToken lease \<le> lease_token w d'"
    using l(2) found by (simp add: d' lease_token_def find_lease_update lease_row_of_def)
  ultimately show False using store_lease.no_comeback [OF _ _ lease_steps [OF assms(3)]] held by blast
qed

definition db7 :: db where "db7 = ok_state (releaseWorkspaceLease 120 lease_a db5)"

lemma db7_eq: "releaseWorkspaceLease 120 lease_a db5 = Inr (True, db7)"
  by code_simp

definition db8 :: db where "db8 = ok_state (acquireWorkspaceLease 130 ''w'' ''run_1'' 50 db7)"

lemma db8_ok: "is_ok (acquireWorkspaceLease 130 ''w'' ''run_1'' 50 db7)"
  by code_simp

theorem released_lease_stays_released_witness:
  "\<not> validateWorkspaceLease 140 lease_a db8 \<and> lease_owner ''1w'' db8 = Some ''run_1''"
proof -
  have "store_step example_fp db7 db8"
    using ok_state [OF db8_ok] by (auto simp: db8_def [symmetric] intro: store_step.acquire)
  then have "\<not> validateWorkspaceLease 140 lease_a db8"
    using released_lease_stays_released [OF db4_reachable(2) db7_eq] by blast
  moreover have "lease_owner ''1w'' db8 = Some ''run_1''" by code_simp
  ultimately show ?thesis by blast
qed

end
