(* ===== verification/ManagerPublish.thy ===== *)
theory ManagerPublish
  imports ManagerApi StoreFencing
begin

text \<open>
  Publishing an artifact of a run, the route \<open>/internal/runs/:runId/artifacts\<close> of
  \<open>apps/manager/src/server.ts\<close>: the file is read from the workspace between two checks of the
  fence, and the run held the workspace without interruption.
\<close>

lemma running_attempt_Some:
  "running_attempt i d = Some a \<Longrightarrow> a \<in> set (run_attempts d) \<and> att_runId a = i \<and> att_status a = RUNNING"
  by (auto simp: running_attempt_def listRunAttempts_def dest: find_SomeD)

lemma fence_valid:
  assumes "hasActiveFence now p i attempt lease d"
  obtains run w where "getRun i d = Some run" "run_owner run = p_owner p"
    "run_workspace i (run_workspaceId run) d = Some w" "lease_valid w now i (ls_fencingToken lease) d"
    "\<exists>a\<in>set (run_attempts d). att_id a = att_id attempt \<and> att_runId a = i \<and> att_status a = RUNNING"
proof -
  obtain run l a where run: "getRun i d = Some run" "run_owner run = p_owner p"
    and a: "running_attempt (run_id run) d = Some a" "att_id a = att_id attempt"
    and l: "getWorkspaceLease (run_workspaceId run) (run_id run) d = Some l"
      "ls_fencingToken l = ls_fencingToken lease" "validateWorkspaceLease now l d"
    using assms by (auto simp: hasActiveFence_def split: option.splits)
  have i: "run_id run = i" using run(1) by (auto simp: getRun_def toRunRecord_def dest: find_run_SomeD)
  have ls: "ls_ownerRunId l = i" "ls_workspaceId l = run_workspaceId run"
    using l(1) i by (auto simp: getWorkspaceLease_def split: option.splits if_splits)
  from l(3) obtain w where w: "run_workspace i (run_workspaceId run) d = Some w"
    by (auto simp: validate_cases ls)
  with l have "lease_valid w now i (ls_fencingToken lease) d" 
    unfolding lease_valid_def by (intro exI [of _ l]) (simp add: ls)
  with that [OF run w] running_attempt_Some [OF a(1)] a(2) i show thesis by blast
qed

text \<open>An artifact is only published from a workspace that its run held all the time: when both
  checks of the fence succeed, then at every moment between them, so also when the file was read,
  the run was the owner of the workspace's lease, with the same fencing token, whatever else the
  store did; and the run belongs to the caller.\<close>

theorem published_under_one_lease:
  assumes "reachable fp d" and "publish_begin now configured hs i body d = Inr f"
    and "(store_step fp)\<^sup>*\<^sup>* d u" and "(store_step fp)\<^sup>*\<^sup>* u d'"
    and "publish_end now' p f d' = Inr run"
  shows "run_owner run = p_owner p \<and> (\<exists>w. run_workspace i (run_workspaceId run) d = Some w
    \<and> lease_owner w u = Some i \<and> lease_token w u = ls_fencingToken (fe_lease f))"
proof -
  from assms(2) obtain q run' where run': "owned_run i q d = Some run'" "fe_run f = run'"
    and fence: "hasActiveFence now q (run_id run') (fe_attempt f) (fe_lease f) d"
    by (auto simp: publish_begin_def split: option.splits if_splits)
  have run: "run = run'" and fence': "hasActiveFence now' p (run_id run') (fe_attempt f) (fe_lease f) d'"
    using assms(5) run'(2) by (auto simp: publish_end_def split: if_splits)
  have own: "getRun i d = Some run'" using run'(1) by (auto simp: owned_run_def split: option.splits if_splits)
  then have i: "run_id run' = i" by (auto simp: getRun_def toRunRecord_def dest: find_run_SomeD)
  from fence obtain w where w: "run_workspace i (run_workspaceId run') d = Some w"
    and v: "lease_valid w now i (ls_fencingToken (fe_lease f)) d"
    using own by (auto simp: i elim!: fence_valid)
  from fence' obtain run'' w' where run'': "getRun i d' = Some run''" "run_owner run'' = p_owner p"
    and w': "run_workspace i (run_workspaceId run'') d' = Some w'"
    and v': "lease_valid w' now' i (ls_fencingToken (fe_lease f)) d'"
    by (auto simp: i elim!: fence_valid)
  have steps: "(store_step fp)\<^sup>*\<^sup>* d d'" using assms(3,4) by (rule rtranclp_trans)
  obtain r where r: "find_run i d = Some r" "run' = toRunRecord r" using own by (auto simp: getRun_def)
  obtain r'' where r'': "find_run i d' = Some r''" "run'' = toRunRecord r''" using run''(1) by (auto simp: getRun_def)
  have same: "identity r'' = identity r"
    using identity_find_run [OF assms(1) steps r(1)] r''(1) by auto
  then have "run_owner run'' = run_owner run'" "run_workspaceId run'' = run_workspaceId run'"
    using identity_columns [OF same] by (simp_all add: r r'' toRunRecord_def)
  with w' run_workspace_steps [OF assms(1) steps w] have "w' = w" by simp
  with store_lease.uninterrupted [OF v lease_steps [OF assms(3)] lease_steps [OF assms(4)]] v'
  have "lease_owner w u = Some i \<and> lease_token w u = ls_fencingToken (fe_lease f)" by simp
  with w run''(2) \<open>run_owner run'' = run_owner run'\<close> run show ?thesis by auto
qed

definition dbf :: db where
  "dbf = ok_state (appendEvent 105 started (ok_state (createRunAttempt 104 ''run_1'' ''att_1'' db5)))"

definition publish_body :: publish_request where
  "publish_body = \<lparr>pub_path = ''out/report.md'', pub_mediaType = ''text/markdown'', pub_principal = example_principal\<rparr>"

definition owner_headers :: ipc_headers where
  "owner_headers = \<lparr>hd_version = Some ''1'', hd_token = Some ''secret'', hd_owner = example_owner\<rparr>"

lemma dbf_reachable: "reachable example_fp dbf"
proof -
  have "is_ok (createRunAttempt 104 ''run_1'' ''att_1'' db5)"
    "is_ok (appendEvent 105 started (ok_state (createRunAttempt 104 ''run_1'' ''att_1'' db5)))"
    by code_simp+
  from this [THEN ok_state] have
    "store_step example_fp db5 (ok_state (createRunAttempt 104 ''run_1'' ''att_1'' db5))"
    "store_step example_fp (ok_state (createRunAttempt 104 ''run_1'' ''att_1'' db5)) dbf"
    by (auto simp: dbf_def intro: store_step.intros record_step.intros)
  then show ?thesis using db4_reachable(2) by (blast intro: reachable.step)
qed

theorem published_under_one_lease_witness:
  "\<exists>f run. publish_begin 110 True owner_headers ''run_1'' (Some publish_body) dbf = Inr f
     \<and> publish_end 120 example_principal f dbf = Inr run
     \<and> run_owner run = example_owner \<and> lease_token ''1w'' dbf = ls_fencingToken (fe_lease f)"
proof -
  have "case publish_begin 110 True owner_headers ''run_1'' (Some publish_body) dbf of
      Inr f \<Rightarrow> (case publish_end 120 example_principal f dbf of
        Inr run \<Rightarrow> run_workspace ''run_1'' (run_workspaceId run) dbf = Some ''1w'' | _ \<Rightarrow> False)
    | _ \<Rightarrow> False" by code_simp
  then obtain f run where f: "publish_begin 110 True owner_headers ''run_1'' (Some publish_body) dbf = Inr f"
    and run: "publish_end 120 example_principal f dbf = Inr run"
    and w: "run_workspace ''run_1'' (run_workspaceId run) dbf = Some ''1w''"
    by (auto split: sum.splits)
  from published_under_one_lease [OF dbf_reachable f rtranclp.rtrancl_refl rtranclp.rtrancl_refl run] w f run
  show ?thesis by (auto simp: example_principal_def)
qed

end
