(* ===== verification/Gateway.thy ===== *)
theory Gateway
  imports ManagerApi AuthService
begin

text \<open>
  The public API of the Gateway, \<open>apps/gateway/src/server.ts\<close>: authentication with its limit on
  failures, scopes, and one program per route. A route talks to the Manager through
  \<open>ManagerClient\<close> (\<open>apps/gateway/src/manager-client.ts\<close>), so it is modelled as the tree of its
  calls: \<open>Ipc q k\<close> sends the request \<open>q\<close> with the headers of the principal and goes on with
  the answer. Between two calls the Manager may do anything else. The loop of an event stream is
  part of its route; \<open>GatewayStream\<close> adds what else is written to the client. Artifacts, webhooks, health and the model catalogue are not
  modelled.
\<close>

section \<open>Programs over the Manager\<close>

datatype ipc_program = Reply api_response | Ipc ipc_request "api_response \<Rightarrow> ipc_program"

definition principalHeaders :: "string \<Rightarrow> internal_principal \<Rightarrow> ipc_headers" where
  "principalHeaders internalToken p = \<lparr>hd_version = Some LITE_IPC_PROTOCOL_VERSION,
     hd_token = Some internalToken, hd_owner = p_owner p\<rparr>"

text \<open>\<open>#request\<close>: a status of 400 or more is thrown as a \<open>ManagerIpcError\<close>.\<close>

definition ipc_call :: "ipc_request \<Rightarrow> api_response \<Rightarrow> (api_body \<Rightarrow> ipc_program) \<Rightarrow> ipc_program" where
  "ipc_call q caught k = Ipc q (\<lambda>(status, body). if 400 \<le> status then Reply caught else k body)"

text \<open>The Manager answers a run route with a run.\<close>

definition getRun_call :: "string \<Rightarrow> api_response \<Rightarrow> (run_record \<Rightarrow> ipc_program) \<Rightarrow> ipc_program" where
  "getRun_call i caught k = ipc_call (GetRun i) caught (\<lambda>b. case b of
     RunBody (Some run) \<Rightarrow> k run | _ \<Rightarrow> Reply internal_error)"

text \<open>An error that a route does not catch has no \<open>statusCode\<close>: the error handler answers 500.\<close>

definition forward :: "ipc_request \<Rightarrow> nat \<Rightarrow> ipc_program" where
  "forward q status = ipc_call q internal_error (\<lambda>b. Reply (status, b))"

definition forward_or :: "ipc_request \<Rightarrow> api_response \<Rightarrow> ipc_program" where
  "forward_or q caught = ipc_call q caught (\<lambda>b. Reply (200, b))"

section \<open>Small functions\<close>

text \<open>An absent header is \<open>None\<close>.\<close>

definition stringHeader :: "string option \<Rightarrow> string option" where
  "stringHeader value = (case value of
     None \<Rightarrow> None | Some s \<Rightarrow> if trim s = [] then None else Some (trim s))"

definition has_line_break :: "string \<Rightarrow> bool" where
  "has_line_break s \<longleftrightarrow> list_ex (\<lambda>c. (of_char c :: nat) \<in> {0, 10, 13}) s"

definition parseCursor :: "string option \<Rightarrow> int option" where
  "parseCursor value = (case value of
     None \<Rightarrow> Some 0
   | Some s \<Rightarrow>
       if s = [] \<or> \<not> list_all is_digit s then None
       else if int (digits_value s) \<le> MAX_SAFE_INTEGER then Some (int (digits_value s)) else None)"

definition bearerToken :: "string option \<Rightarrow> string option" where
  "bearerToken header = (case header of
     None \<Rightarrow> None
   | Some s \<Rightarrow>
       if take 7 s \<noteq> ''Bearer '' then None
       else let token = drop 7 s in
         if 16 \<le> length token \<and> length token \<le> 4096 \<and> \<not> has_line_break token
         then Some token else None)"

definition budgetWithin :: "partial_budget \<Rightarrow> partial_budget \<Rightarrow> bool" where
  "budgetWithin requested limits \<longleftrightarrow> list_all (\<lambda>(k, v).
     case map_of (budget_entries limits) k of None \<Rightarrow> True | Some c \<Rightarrow> v \<le> c)
     (budget_entries requested)"

definition ownsRun :: "run_record \<Rightarrow> internal_principal \<Rightarrow> bool" where
  "ownsRun run p \<longleftrightarrow>
     appId (run_owner run) = appId (p_owner p)
     \<and> tenantId (run_owner run) = tenantId (p_owner p)
     \<and> userId (run_owner run) = userId (p_owner p)
     \<and> (truthy (p_agentId p) = None \<or> Some (run_agentId run) = p_agentId p)
     \<and> (truthy (p_workspaceId p) = None \<or> Some (run_workspaceId run) = p_workspaceId p)"

section \<open>Authentication\<close>

record auth_failure =
  af_count :: int
  af_startedAt :: timestamp

type_synonym auth_failures = "(string \<times> auth_failure) list"

definition isAuthRateLimited ::
  "timestamp \<Rightarrow> string \<Rightarrow> int \<Rightarrow> int \<Rightarrow> auth_failures \<Rightarrow> bool \<times> auth_failures" where
  "isAuthRateLimited now key limit windowMs failures = (case map_of failures key of
     None \<Rightarrow> (False, failures)
   | Some current \<Rightarrow>
       if windowMs \<le> now - af_startedAt current then (False, AList.delete key failures)
       else (limit \<le> af_count current, failures))"

definition recordAuthFailure ::
  "timestamp \<Rightarrow> string \<Rightarrow> int \<Rightarrow> int \<Rightarrow> auth_failures \<Rightarrow> bool \<times> auth_failures" where
  "recordAuthFailure now key limit windowMs failures =
     (let fresh = \<lparr>af_count = 1, af_startedAt = now\<rparr>;
          next = (case map_of failures key of
            None \<Rightarrow> fresh
          | Some current \<Rightarrow>
              if windowMs \<le> now - af_startedAt current then fresh
              else \<lparr>af_count = af_count current + 1, af_startedAt = af_startedAt current\<rparr>)
      in (limit \<le> af_count next, AList.update key next failures))"

definition rate_limited :: api_response where
  "rate_limited = (429, ErrorBody ''rate_limited'')"

definition refuse_credential ::
  "timestamp \<Rightarrow> string \<Rightarrow> int \<Rightarrow> int \<Rightarrow> auth_failures \<Rightarrow> api_response \<times> auth_failures" where
  "refuse_credential now key limit windowMs failures =
     (case recordAuthFailure now key limit windowMs failures of
        (limited, failures') \<Rightarrow>
          (if limited then rate_limited else (401, ErrorBody ''unauthorized''), failures'))"

text \<open>
  The hook on a protected route waits for the token service: \<open>auth_begin\<close> is what happens before,
  and yields the token to check, \<open>auth_end\<close> what happens when the service has answered (\<open>None\<close>
  when it finds no principal or throws). \<open>auth_hook\<close> is a request that nobody overtakes.
\<close>

definition auth_begin ::
  "int \<Rightarrow> int \<Rightarrow> timestamp \<Rightarrow> string \<Rightarrow> string option \<Rightarrow> auth_failures
    \<Rightarrow> (api_response + string) \<times> auth_failures" where
  "auth_begin limit windowMs now key header failures =
     (case isAuthRateLimited now key limit windowMs failures of
        (True, failures') \<Rightarrow> (Inl rate_limited, failures')
      | (False, failures') \<Rightarrow>
          (case bearerToken header of
             None \<Rightarrow> (case refuse_credential now key limit windowMs failures' of
               (r, failures'') \<Rightarrow> (Inl r, failures''))
           | Some token \<Rightarrow> (Inr token, failures')))"

definition auth_end ::
  "int \<Rightarrow> int \<Rightarrow> timestamp \<Rightarrow> string \<Rightarrow> internal_principal option \<Rightarrow> auth_failures
    \<Rightarrow> (api_response + internal_principal) \<times> auth_failures" where
  "auth_end limit windowMs now key checked failures = (case checked of
     None \<Rightarrow> (case refuse_credential now key limit windowMs failures of
       (r, failures') \<Rightarrow> (Inl r, failures'))
   | Some p \<Rightarrow> (Inr p, AList.delete key failures))"

definition auth_hook ::
  "int \<Rightarrow> int \<Rightarrow> timestamp \<Rightarrow> string \<Rightarrow> string option \<Rightarrow> (string \<Rightarrow> internal_principal option)
    \<Rightarrow> auth_failures \<Rightarrow> (api_response + internal_principal) \<times> auth_failures" where
  "auth_hook limit windowMs now key header check failures =
     (case auth_begin limit windowMs now key header failures of
        (Inl r, failures') \<Rightarrow> (Inl r, failures')
      | (Inr token, failures') \<Rightarrow> auth_end limit windowMs now key (check token) failures')"

section \<open>Scopes\<close>

text \<open>\<open>key\<close> is \<open>`${method.toUpperCase()} ${route}`\<close>; HTTP methods arrive in upper case.\<close>

definition route_scopes :: "(string \<times> string) list" where
  "route_scopes = [
     (''POST /v1/tokens'', ''tokens:mint''),
     (''DELETE /v1/tokens/:tokenId'', ''tokens:revoke''),
     (''POST /v1/runs'', ''runs:create''),
     (''GET /v1/runs/:runId'', ''runs:read''),
     (''POST /v1/runs/:runId/cancel'', ''runs:cancel''),
     (''POST /v1/runs/:runId/steer'', ''runs:steer''),
     (''GET /v1/runs/:runId/events'', ''events:read''),
     (''GET /v1/runs/:runId/attempts'', ''runs:read''),
     (''GET /v1/runs/:runId/children'', ''runs:read''),
     (''POST /v1/approvals/:approvalId'', ''approvals:resolve''),
     (''GET /v1/sessions/:sessionId'', ''sessions:read''),
     (''GET /v1/sessions/:sessionId/messages'', ''sessions:read''),
     (''POST /v1/runs/:runId/artifacts'', ''artifacts:publish''),
     (''GET /v1/artifacts/:artifactId'', ''artifacts:read''),
     (''POST /v1/agents'', ''agents:write''),
     (''GET /v1/agents'', ''agents:read''),
     (''GET /v1/agents/:agentId'', ''agents:read''),
     (''POST /v1/workspaces'', ''workspaces:write''),
     (''GET /v1/workspaces'', ''workspaces:read''),
     (''GET /v1/workspaces/:workspaceId'', ''workspaces:read''),
     (''GET /v1/models'', ''models:read''),
     (''GET /v1/provider-connections'', ''providers:read''),
     (''POST /v1/provider-connections'', ''providers:write''),
     (''POST /v1/provider-connections/:connectionId/login'', ''providers:write''),
     (''DELETE /v1/provider-connections/:connectionId'', ''providers:write'')]"

definition requiredScope :: "string \<Rightarrow> string option \<Rightarrow> string option" where
  "requiredScope method route = (case route of
     None \<Rightarrow> None
   | Some r \<Rightarrow>
       if take 4 r \<noteq> ''/v1/'' then None
       else Some (case map_of route_scopes (method @ CHR '' '' # r) of
         None \<Rightarrow> ''route:unconfigured'' | Some s \<Rightarrow> s))"

section \<open>Starting a run\<close>

record run_body =
  rb_agent :: string
  rb_workspace :: string
  rb_session :: "string option"
  rb_providerConnectionId :: "string option"
  rb_input :: string
  rb_budget :: "partial_budget option"

definition idempotency_key :: "string \<Rightarrow> string option \<Rightarrow> string" where
  "idempotency_key uuid header = nullish (stringHeader header) uuid"

definition valid_idempotency_key :: "string \<Rightarrow> bool" where
  "valid_idempotency_key k \<longleftrightarrow> k \<noteq> [] \<and> length k \<le> 200 \<and> \<not> has_line_break k"

definition effective_budget :: "run_body \<Rightarrow> partial_budget" where
  "effective_budget body =
     spread_budget (full_budget DEFAULT_RUN_BUDGET) (nullish (rb_budget body) empty_budget)"

definition exceeds_binding :: "internal_principal \<Rightarrow> run_body \<Rightarrow> bool" where
  "exceeds_binding p body \<longleftrightarrow>
     (truthy (p_agentId p) \<noteq> None \<and> p_agentId p \<noteq> Some (rb_agent body))
     \<or> (truthy (p_workspaceId p) \<noteq> None \<and> p_workspaceId p \<noteq> Some (rb_workspace body))
     \<or> (case p_budgetCeiling p of None \<Rightarrow> False
        | Some limits \<Rightarrow> \<not> budgetWithin (effective_budget body) limits)"

definition start_request :: "internal_principal \<Rightarrow> run_body \<Rightarrow> string \<Rightarrow> start_run_request" where
  "start_request p body key = \<lparr>rq_agent = rb_agent body, rq_workspace = rb_workspace body,
     rq_session = rb_session body, rq_providerConnectionId = rb_providerConnectionId body,
     rq_input = rb_input body, rq_budget = rb_budget body, rq_idempotencyKey = key,
     rq_principal = p, rq_parentRunId = None, rq_depth = None, rq_deliveryAllowed = None,
     rq_createIfMissing = Some False\<rparr>"

definition http_post_run ::
  "string \<Rightarrow> internal_principal \<Rightarrow> run_body option \<Rightarrow> string option \<Rightarrow> ipc_program" where
  "http_post_run uuid p body header = (case body of
     None \<Rightarrow> Reply invalid_request
   | Some b \<Rightarrow>
       let key = idempotency_key uuid header in
       if \<not> valid_idempotency_key key then Reply (400, ErrorBody ''invalid_idempotency_key'')
       else if exceeds_binding p b then Reply (403, ErrorBody ''token_binding_violation'')
       else forward (PostRun (Some (start_request p b key))) 202)"

section \<open>Run tokens\<close>

datatype token_response =
    Minted mint_response
  | RevokedToken string
  | TokenError nat string

definition http_post_token ::
  "auth_host \<Rightarrow> timestamp \<Rightarrow> string \<Rightarrow> string \<Rightarrow> string \<Rightarrow> internal_principal \<Rightarrow> mint_request option
    \<Rightarrow> token_db \<Rightarrow> token_response \<times> token_db" where
  "http_post_token h now tok salt i p body db = (case body of
     None \<Rightarrow> (TokenError 400 ''invalid_request'', db)
   | Some rq \<Rightarrow> (case mintRunToken h now tok salt i p rq db of
       Inl e \<Rightarrow> (TokenError 403 ''token_scope_expansion'', db)
     | Inr (res, db') \<Rightarrow> (Minted res, db')))"

definition http_delete_token ::
  "timestamp \<Rightarrow> internal_principal \<Rightarrow> string \<Rightarrow> token_db \<Rightarrow> token_response \<times> token_db" where
  "http_delete_token now p i db = (case service_revoke now p i db of
     Inl e \<Rightarrow> (TokenError 403 ''token_revoke_denied'', db)
   | Inr (revoked, db') \<Rightarrow>
       (if revoked then RevokedToken i else TokenError 404 ''not_found'', db'))"

section \<open>Runs\<close>

definition http_get_run :: "internal_principal \<Rightarrow> string \<Rightarrow> ipc_program" where
  "http_get_run p i = getRun_call i not_found (\<lambda>run.
     Reply (if ownsRun run p then (200, RunBody (Some run)) else not_found))"

definition http_cancel :: "internal_principal \<Rightarrow> string \<Rightarrow> ipc_program" where
  "http_cancel p i = getRun_call i not_found (\<lambda>existing.
     if \<not> ownsRun existing p then Reply not_found else forward_or (PostCancel i) not_found)"

definition not_active :: api_response where
  "not_active = (409, ErrorBody ''run_not_active'')"

definition http_steer :: "internal_principal \<Rightarrow> string \<Rightarrow> string option \<Rightarrow> ipc_program" where
  "http_steer p i instruction = getRun_call i not_active (\<lambda>run.
     if \<not> ownsRun run p then Reply not_found
     else case instruction of
       None \<Rightarrow> Reply invalid_request
     | Some s \<Rightarrow>
         if blank s then Reply invalid_request
         else forward_or (PostSteer (run_id run) (Some s)) not_active)"

text \<open>\<open>ManagerClient.getEvents\<close> writes the cursor into the query in decimal.\<close>

definition events_call :: "string \<Rightarrow> int \<Rightarrow> ipc_request" where
  "events_call i cursor = GetEvents i (Some (nat_digits (nat cursor)))"

definition next_cursor :: "int \<Rightarrow> run_event list \<Rightarrow> int" where
  "next_cursor cursor page = (if page = [] then cursor else ev_sequence (last page))"

definition stream_done :: "run_record \<Rightarrow> int \<Rightarrow> bool" where
  "stream_done run cursor \<longleftrightarrow> isTerminalRunStatus (run_status run) \<and> run_lastSequence run \<le> cursor"

text \<open>
  The loop of an event stream, for a client that stays for \<open>n\<close> rounds. A round asks for the events after
  the cursor, writes them, and reads the run. The answer collects the events that are written; a
  failed call ends the stream after those that are written already. (The frames between the
  events, and a client that leaves in the middle of a page, are in the theory \<open>GatewayStream\<close>.)
\<close>

primrec stream_rounds :: "nat \<Rightarrow> string \<Rightarrow> int \<Rightarrow> run_event list \<Rightarrow> ipc_program" where
  "stream_rounds 0 i cursor written = Reply (200, EventsBody written)"
| "stream_rounds (Suc n) i cursor written =
     ipc_call (events_call i cursor) (200, EventsBody written) (\<lambda>b. case b of
       EventsBody page \<Rightarrow> getRun_call i (200, EventsBody (written @ page)) (\<lambda>run.
         if stream_done run (next_cursor cursor page) then Reply (200, EventsBody (written @ page))
         else stream_rounds n i (next_cursor cursor page) (written @ page))
     | _ \<Rightarrow> Reply internal_error)"

definition http_events :: "internal_principal \<Rightarrow> string \<Rightarrow> string option \<Rightarrow> nat \<Rightarrow> ipc_program" where
  "http_events p i after rounds = (case parseCursor after of
     None \<Rightarrow> Reply (400, ErrorBody ''invalid_event_cursor'')
   | Some cursor \<Rightarrow> getRun_call i not_found (\<lambda>run.
       if \<not> ownsRun run p then Reply not_found else stream_rounds rounds i cursor []))"

definition http_attempts :: "internal_principal \<Rightarrow> string \<Rightarrow> ipc_program" where
  "http_attempts p i = getRun_call i not_found (\<lambda>run.
     if \<not> ownsRun run p then Reply not_found else forward_or (GetAttempts (run_id run)) not_found)"

definition http_children :: "internal_principal \<Rightarrow> string \<Rightarrow> ipc_program" where
  "http_children p i = getRun_call i not_found (\<lambda>run.
     if \<not> ownsRun run p then Reply not_found
     else ipc_call (GetChildren (run_id run)) not_found (\<lambda>b. case b of
       RunsBody children \<Rightarrow> Reply (200, RunsBody (filter (\<lambda>child. ownsRun child p) children))
     | _ \<Rightarrow> Reply internal_error))"

definition http_approval :: "internal_principal \<Rightarrow> string \<Rightarrow> bool option \<Rightarrow> ipc_program" where
  "http_approval p i approved = (case approved of
     None \<Rightarrow> Reply invalid_request
   | Some ok \<Rightarrow> ipc_call (GetApproval i) not_found (\<lambda>b. case b of
       ApprovalBody approval \<Rightarrow> getRun_call (apr_runId approval) not_found (\<lambda>run.
         if \<not> ownsRun run p then Reply not_found
         else forward_or (PostResolve (apr_id approval) (Some ok)) not_found)
     | _ \<Rightarrow> Reply internal_error))"

section \<open>Sessions, agents, workspaces, connections\<close>

definition http_messages :: "string \<Rightarrow> ipc_program" where
  "http_messages i = ipc_call (GetSession i) not_found (\<lambda>_. forward_or (GetMessages i) not_found)"

text \<open>A body is sent on with the principal; one the schema rejects is \<open>None\<close>.\<close>

definition http_post :: "('a \<Rightarrow> ipc_request) \<Rightarrow> nat \<Rightarrow> 'a option \<Rightarrow> ipc_program" where
  "http_post to_ipc status body = (case body of
     None \<Rightarrow> Reply invalid_request | Some b \<Rightarrow> forward (to_ipc b) status)"

text \<open>The requests; the number of \<open>HttpEvents\<close> says for how many rounds the client stays.\<close>

datatype http_request =
    HttpPostRun "run_body option" "string option"
  | HttpGetRun string
  | HttpCancel string
  | HttpSteer string "string option"
  | HttpEvents string "string option" nat
  | HttpAttempts string
  | HttpChildren string
  | HttpApproval string "bool option"
  | HttpSession string
  | HttpMessages string
  | HttpPostAgent "agent_request option"
  | HttpAgents
  | HttpAgent string
  | HttpPostWorkspace "workspace_request option"
  | HttpWorkspaces
  | HttpWorkspace string
  | HttpConnections
  | HttpPostConnection "connection_request option"
  | HttpLogin string "login_request option"
  | HttpDeleteConnection string

fun http_route :: "http_request \<Rightarrow> string \<times> string" where
  "http_route (HttpPostRun body header) = (''POST'', ''/v1/runs'')"
| "http_route (HttpGetRun i) = (''GET'', ''/v1/runs/:runId'')"
| "http_route (HttpCancel i) = (''POST'', ''/v1/runs/:runId/cancel'')"
| "http_route (HttpSteer i s) = (''POST'', ''/v1/runs/:runId/steer'')"
| "http_route (HttpEvents i after rounds) = (''GET'', ''/v1/runs/:runId/events'')"
| "http_route (HttpAttempts i) = (''GET'', ''/v1/runs/:runId/attempts'')"
| "http_route (HttpChildren i) = (''GET'', ''/v1/runs/:runId/children'')"
| "http_route (HttpApproval i ok) = (''POST'', ''/v1/approvals/:approvalId'')"
| "http_route (HttpSession i) = (''GET'', ''/v1/sessions/:sessionId'')"
| "http_route (HttpMessages i) = (''GET'', ''/v1/sessions/:sessionId/messages'')"
| "http_route (HttpPostAgent body) = (''POST'', ''/v1/agents'')"
| "http_route HttpAgents = (''GET'', ''/v1/agents'')"
| "http_route (HttpAgent i) = (''GET'', ''/v1/agents/:agentId'')"
| "http_route (HttpPostWorkspace body) = (''POST'', ''/v1/workspaces'')"
| "http_route HttpWorkspaces = (''GET'', ''/v1/workspaces'')"
| "http_route (HttpWorkspace i) = (''GET'', ''/v1/workspaces/:workspaceId'')"
| "http_route HttpConnections = (''GET'', ''/v1/provider-connections'')"
| "http_route (HttpPostConnection body) = (''POST'', ''/v1/provider-connections'')"
| "http_route (HttpLogin i body) = (''POST'', ''/v1/provider-connections/:connectionId/login'')"
| "http_route (HttpDeleteConnection i) = (''DELETE'', ''/v1/provider-connections/:connectionId'')"

fun http_handler :: "string \<Rightarrow> internal_principal \<Rightarrow> http_request \<Rightarrow> ipc_program" where
  "http_handler uuid p (HttpPostRun body header) = http_post_run uuid p body header"
| "http_handler uuid p (HttpGetRun i) = http_get_run p i"
| "http_handler uuid p (HttpCancel i) = http_cancel p i"
| "http_handler uuid p (HttpSteer i s) = http_steer p i s"
| "http_handler uuid p (HttpEvents i after rounds) = http_events p i after rounds"
| "http_handler uuid p (HttpAttempts i) = http_attempts p i"
| "http_handler uuid p (HttpChildren i) = http_children p i"
| "http_handler uuid p (HttpApproval i ok) = http_approval p i ok"
| "http_handler uuid p (HttpSession i) = forward_or (GetSession i) not_found"
| "http_handler uuid p (HttpMessages i) = http_messages i"
| "http_handler uuid p (HttpPostAgent body) =
     http_post (\<lambda>b. PostAgent (Some (b\<lparr>ag_principal := p\<rparr>))) 201 body"
| "http_handler uuid p HttpAgents = forward GetAgents 200"
| "http_handler uuid p (HttpAgent i) = forward_or (GetAgent i) not_found"
| "http_handler uuid p (HttpPostWorkspace body) =
     http_post (\<lambda>b. PostWorkspace (Some (b\<lparr>wq_principal := p\<rparr>))) 201 body"
| "http_handler uuid p HttpWorkspaces = forward GetWorkspaces 200"
| "http_handler uuid p (HttpWorkspace i) = forward_or (GetWorkspace i) not_found"
| "http_handler uuid p HttpConnections = forward GetConnections 200"
| "http_handler uuid p (HttpPostConnection body) =
     http_post (\<lambda>b. PostConnection (Some (b\<lparr>cn_principal := p\<rparr>))) 201 body"
| "http_handler uuid p (HttpLogin i body) =
     http_post (\<lambda>b. PostLogin i (Some (b\<lparr>lg_principal := p\<rparr>))) 200 body"
| "http_handler uuid p (HttpDeleteConnection i) = forward (DeleteConnection i) 200"

definition gateway_handle :: "string \<Rightarrow> internal_principal \<Rightarrow> http_request \<Rightarrow> ipc_program" where
  "gateway_handle uuid p rq = (case http_route rq of (method, route) \<Rightarrow>
     (case requiredScope method (Some route) of
        None \<Rightarrow> http_handler uuid p rq
      | Some scope \<Rightarrow>
          if scope \<in> set (p_scopes p) then http_handler uuid p rq
          else Reply (403, ErrorBody ''insufficient_scope'')))"

end
