(* ===== verification/Tenants.thy ===== *)
theory Tenants
  imports StoreGuarantees
begin

text \<open>
  Whose rows are whose. \<open>foreign ow d\<close> is the part of the database that does not belong to the
  owner \<open>ow\<close>: the runs, sessions, agents, workspaces and connections of other owners, and the
  events, attempts, messages and approvals of their runs, with the tables that record no owner.
  A store call on behalf of \<open>ow\<close> leaves it as it is.
\<close>

definition foreign_run :: "resource_owner \<Rightarrow> db \<Rightarrow> string \<Rightarrow> bool" where
  "foreign_run ow d i \<longleftrightarrow> (\<exists>r\<in>set (runs d). rr_id r = i \<and> rr_owner r \<noteq> ow)"

definition foreign :: "resource_owner \<Rightarrow> db \<Rightarrow> db" where
  "foreign ow d = d\<lparr>
     runs := filter (\<lambda>r. rr_owner r \<noteq> ow) (runs d),
     run_events := filter (\<lambda>e. foreign_run ow d (ev_runId e)) (run_events d),
     sessions := filter (\<lambda>s. sr_owner s \<noteq> ow) (sessions d),
     session_messages := filter (\<lambda>m. case mr_run_id m of
       None \<Rightarrow> True | Some i \<Rightarrow> foreign_run ow d i) (session_messages d),
     approvals := filter (\<lambda>a. foreign_run ow d (apr_runId a)) (approvals d),
     agent_profiles := filter (\<lambda>a. ar_owner a \<noteq> ow) (agent_profiles d),
     workspaces := filter (\<lambda>w. wr_owner w \<noteq> ow) (workspaces d),
     run_attempts := filter (\<lambda>a. foreign_run ow d (att_runId a)) (run_attempts d),
     provider_connections := filter (\<lambda>c. cr_owner c \<noteq> ow) (provider_connections d)\<rparr>"

definition own_run :: "resource_owner \<Rightarrow> db \<Rightarrow> string \<Rightarrow> bool" where
  "own_run ow d i \<longleftrightarrow> (\<exists>r. find_run i d = Some r \<and> rr_owner r = ow)"

text \<open>The parent of a run exists and has its owner. Run identifiers are not empty (\<open>createId\<close>).\<close>

definition lineage :: "db \<Rightarrow> bool" where
  "lineage d \<longleftrightarrow> (\<forall>c\<in>set (runs d). \<forall>i. rr_parent_run_id c = Some i \<longrightarrow>
     (\<exists>p\<in>set (runs d). rr_id p = i \<and> rr_owner p = rr_owner c))"

definition world :: "db \<Rightarrow> bool" where
  "world d \<longleftrightarrow> runs_inv d \<and> lineage d \<and> [] \<notin> rr_id ` set (runs d) \<and> distinct (map apr_id (approvals d))"

definition confined :: "resource_owner \<Rightarrow> db \<Rightarrow> db \<Rightarrow> bool" where
  "confined ow d d' \<longleftrightarrow> (world d \<longrightarrow> world d' \<and> foreign ow d' = foreign ow d
     \<and> (\<forall>i. own_run ow d i \<longrightarrow> own_run ow d' i))"

lemma confined_refl [simp]: "confined ow d d"
  by (simp add: confined_def)

lemma confined_trans: "confined ow d d' \<Longrightarrow> confined ow d' d'' \<Longrightarrow> confined ow d d''"
  by (auto simp: confined_def)

section \<open>Tables\<close>

lemma foreign_eqI:
  assumes fr: "foreign_run ow d' = foreign_run ow d"
    and "filter (\<lambda>r. rr_owner r \<noteq> ow) (runs d') = filter (\<lambda>r. rr_owner r \<noteq> ow) (runs d)"
    and "filter (\<lambda>e. foreign_run ow d (ev_runId e)) (run_events d')
      = filter (\<lambda>e. foreign_run ow d (ev_runId e)) (run_events d)"
    and "filter (\<lambda>s. sr_owner s \<noteq> ow) (sessions d') = filter (\<lambda>s. sr_owner s \<noteq> ow) (sessions d)"
    and "filter (\<lambda>m. case mr_run_id m of None \<Rightarrow> True | Some i \<Rightarrow> foreign_run ow d i) (session_messages d')
      = filter (\<lambda>m. case mr_run_id m of None \<Rightarrow> True | Some i \<Rightarrow> foreign_run ow d i) (session_messages d)"
    and "filter (\<lambda>a. foreign_run ow d (apr_runId a)) (approvals d')
      = filter (\<lambda>a. foreign_run ow d (apr_runId a)) (approvals d)"
    and "filter (\<lambda>a. ar_owner a \<noteq> ow) (agent_profiles d') = filter (\<lambda>a. ar_owner a \<noteq> ow) (agent_profiles d)"
    and "filter (\<lambda>w. wr_owner w \<noteq> ow) (workspaces d') = filter (\<lambda>w. wr_owner w \<noteq> ow) (workspaces d)"
    and "filter (\<lambda>a. foreign_run ow d (att_runId a)) (run_attempts d')
      = filter (\<lambda>a. foreign_run ow d (att_runId a)) (run_attempts d)"
    and "filter (\<lambda>c. cr_owner c \<noteq> ow) (provider_connections d')
      = filter (\<lambda>c. cr_owner c \<noteq> ow) (provider_connections d)"
    and "workspace_leases d' = workspace_leases d" "run_route_plans d' = run_route_plans d"
    and "run_model_usage d' = run_model_usage d" "run_snapshots d' = run_snapshots d"
    and "runtime_containers d' = runtime_containers d"
  shows "foreign ow d' = foreign ow d"
  using assms(2-) by (intro db.equality) (simp_all add: foreign_def fr cong: option.case_cong)

lemma filter_update_rows:
  "(\<And>x. x \<in> set t \<Longrightarrow> p x \<Longrightarrow> \<not> q x \<and> \<not> q (f x)) \<Longrightarrow> filter q (update_rows p f t) = filter q t"
  by (induction t) auto

lemma filter_delete_rows:
  "(\<And>x. x \<in> set t \<Longrightarrow> p x \<Longrightarrow> \<not> q x) \<Longrightarrow> filter q (delete_rows p t) = filter q t"
  by (induction t) (auto simp: delete_rows_def)

text \<open>Replacing one table.\<close>

lemma foreign_table:
  "filter (\<lambda>m. case mr_run_id m of None \<Rightarrow> True | Some i \<Rightarrow> foreign_run ow d i) ms
    = filter (\<lambda>m. case mr_run_id m of None \<Rightarrow> True | Some i \<Rightarrow> foreign_run ow d i) (session_messages d) \<Longrightarrow>
   foreign ow (d\<lparr>session_messages := ms\<rparr>) = foreign ow d"
  "filter (\<lambda>a. foreign_run ow d (apr_runId a)) as = filter (\<lambda>a. foreign_run ow d (apr_runId a)) (approvals d) \<Longrightarrow>
   foreign ow (d\<lparr>approvals := as\<rparr>) = foreign ow d"
  "filter (\<lambda>s. sr_owner s \<noteq> ow) ss = filter (\<lambda>s. sr_owner s \<noteq> ow) (sessions d) \<Longrightarrow>
   foreign ow (d\<lparr>sessions := ss\<rparr>) = foreign ow d"
  "filter (\<lambda>a. ar_owner a \<noteq> ow) ps = filter (\<lambda>a. ar_owner a \<noteq> ow) (agent_profiles d) \<Longrightarrow>
   foreign ow (d\<lparr>agent_profiles := ps\<rparr>) = foreign ow d"
  "filter (\<lambda>w. wr_owner w \<noteq> ow) ws = filter (\<lambda>w. wr_owner w \<noteq> ow) (workspaces d) \<Longrightarrow>
   foreign ow (d\<lparr>workspaces := ws\<rparr>) = foreign ow d"
  "filter (\<lambda>c. cr_owner c \<noteq> ow) cs = filter (\<lambda>c. cr_owner c \<noteq> ow) (provider_connections d) \<Longrightarrow>
   foreign ow (d\<lparr>provider_connections := cs\<rparr>) = foreign ow d"
  by (intro foreign_eqI; simp add: foreign_run_def [abs_def])+

lemma identity_foreign_run:
  "foreign_run ow d i \<longleftrightarrow> (\<exists>r\<in>set (map identity (runs d)). rr_id r = i \<and> rr_owner r \<noteq> ow)"
  by (auto simp: foreign_run_def identity_def)

lemma foreign_run_cong:
  "map identity (runs d') = map identity (runs d) \<Longrightarrow> foreign_run ow d' = foreign_run ow d"
  by (rule ext) (simp add: identity_foreign_run)

lemma foreign_run_append:
  "runs d' = runs d @ new \<Longrightarrow> \<forall>r\<in>set new. rr_owner r = ow \<Longrightarrow> foreign_run ow d' = foreign_run ow d"
  by (rule ext) (auto simp: foreign_run_def)

lemma not_foreign:
  "world d \<Longrightarrow> own_run ow d i \<Longrightarrow> \<not> foreign_run ow d i"
proof -
  assume w: "world d" and own: "own_run ow d i"
  then obtain r where r: "r \<in> set (runs d)" "rr_id r = i" "rr_owner r = ow"
    by (auto simp: own_run_def dest: find_run_SomeD)
  have "distinct (map rr_id (runs d))" using w by (simp add: world_def runs_inv_def)
  then have "q = r" if "q \<in> set (runs d)" "rr_id q = i" for q
    using unique_key_eq that r(1,2) by metis
  then show ?thesis using r(3) by (auto simp: foreign_run_def)
qed

lemma identity_lineage:
  assumes "map identity (runs d') = map identity (runs d)"
  shows "lineage d' \<longleftrightarrow> lineage d" "[] \<in> rr_id ` set (runs d') \<longleftrightarrow> [] \<in> rr_id ` set (runs d)"
proof -
  have lin: "lineage d \<longleftrightarrow> (\<forall>c\<in>set (map identity (runs d)). \<forall>i. rr_parent_run_id c = Some i \<longrightarrow>
     (\<exists>p\<in>set (map identity (runs d)). rr_id p = i \<and> rr_owner p = rr_owner c))" for d
    by (auto simp: lineage_def identity_def)
  have ids: "rr_id ` set (runs d) = rr_id ` set (map identity (runs d))" for d
    by (simp add: image_image identity_def)
  show "lineage d' \<longleftrightarrow> lineage d" "[] \<in> rr_id ` set (runs d') \<longleftrightarrow> [] \<in> rr_id ` set (runs d)"
    using assms by (simp_all add: lin [of d] lin [of d'] ids [of d] ids [of d'] del: set_map)
qed

lemma identity_own_run:
  assumes "map identity (runs d') = map identity (runs d)" and "own_run ow d i"
  shows "own_run ow d' i"
proof -
  have find: "map_option identity (List.find (\<lambda>r. rr_id r = i) rs) = List.find (\<lambda>r. rr_id r = i) (map identity rs)"
    for rs :: "run_row list"
    by (induction rs) (auto simp: identity_def)
  have "map_option identity (find_run i d') = map_option identity (find_run i d)"
    unfolding find_run_def find assms(1) ..
  moreover obtain r where r: "find_run i d = Some r" "rr_owner r = ow" using assms(2) by (auto simp: own_run_def)
  ultimately obtain r' where "find_run i d' = Some r'" "identity r' = identity r" by auto
  with r(2) identity_columns(4) [of r' r] show ?thesis by (simp add: own_run_def)
qed


section \<open>Store calls for an owned run\<close>

lemma confinedI:
  assumes "world d \<Longrightarrow> world d'" and "world d \<Longrightarrow> foreign ow d' = foreign ow d"
    and "\<And>i. world d \<Longrightarrow> own_run ow d i \<Longrightarrow> own_run ow d' i"
  shows "confined ow d d'"
  using assms by (simp add: confined_def)

text \<open>A call that changes neither the runs' identity nor the approvals' identifiers.\<close>

lemma same_runs_confined:
  assumes ids: "map identity (runs d') = map identity (runs d)"
    and "map apr_id (approvals d') = map apr_id (approvals d)"
    and "runs_inv d \<Longrightarrow> runs_inv d'" and "world d \<Longrightarrow> foreign ow d' = foreign ow d"
  shows "confined ow d d'"
  using assms(2-) identity_lineage [OF ids] identity_own_run [OF ids]
  by (intro confinedI) (auto simp: world_def)

lemma append_event_identity:
  "appendEvent now ae d = Inr (e, d') \<Longrightarrow> map identity (runs d') = map identity (runs d)"
  by (erule appendEvent_cases) (simp add: map_update_rows_frame)

lemma append_event_confined:
  assumes own: "own_run ow d (ae_runId ae)" and step: "appendEvent now ae d = Inr (e, d')"
  shows "confined ow d d'"
  using step
proof (cases rule: appendEvent_cases)
  case (1 row)
  have ids: "map identity (runs d') = map identity (runs d)"
    by (rule append_event_identity [OF step])
  have attempts: "filter (\<lambda>a. foreign_run ow d (att_runId a)) (run_attempts d')
      = filter (\<lambda>a. foreign_run ow d (att_runId a)) (run_attempts d)" if "world d"
    using not_foreign [OF that own] unfolding 1(7)
    by (auto simp: complete_attempts_def intro!: filter_update_rows split: option.split)
  have runs: "filter (\<lambda>r. rr_owner r \<noteq> ow) (runs d') = filter (\<lambda>r. rr_owner r \<noteq> ow) (runs d)" if w: "world d"
    unfolding 1(6)
  proof (rule filter_update_rows)
    fix r assume "r \<in> set (runs d)" "rr_id r = ae_runId ae"
    moreover have "\<not> foreign_run ow d (ae_runId ae)" using not_foreign [OF w own] .
    ultimately have "rr_owner r = ow" by (auto simp: foreign_run_def)
    moreover have "identity (update_run_for_event now ae (rr_last_sequence row + 1) r) = identity r" by simp
    ultimately show "\<not> rr_owner r \<noteq> ow
        \<and> \<not> rr_owner (update_run_for_event now ae (rr_last_sequence row + 1) r) \<noteq> ow"
      using identity_columns(4) by metis
  qed
  have frame: "d' = d\<lparr>runs := runs d', run_events := run_events d', run_attempts := run_attempts d'\<rparr>"
    by (rule 1(8))
  have app: "approvals d' = approvals d" by (subst frame) simp
  have inv: "runs_inv d \<Longrightarrow> runs_inv d'" using appendEvent_runs_inv [OF _ step] .
  have frames: "sessions d' = sessions d" "session_messages d' = session_messages d"
    "agent_profiles d' = agent_profiles d" "workspaces d' = workspaces d"
    "provider_connections d' = provider_connections d" "workspace_leases d' = workspace_leases d"
    "run_route_plans d' = run_route_plans d" "run_model_usage d' = run_model_usage d"
    "run_snapshots d' = run_snapshots d" "runtime_containers d' = runtime_containers d"
    by (subst frame, simp)+
  have e: "ev_runId e = ae_runId ae" using 1(2) by (simp add: new_event_def)
  have foreign: "foreign ow d' = foreign ow d" if w: "world d"
    by (rule foreign_eqI)
      (simp_all add: foreign_run_cong [OF ids] runs [OF w] attempts [OF w] 1(5) e not_foreign [OF w own]
        frames app)
  show ?thesis using ids app inv foreign by (intro same_runs_confined) simp_all
qed

lemma message_confined:
  assumes own: "own_run ow d (am_runId am)" and step: "appendSessionMessage now am d = Inr (m, d')"
  shows "confined ow d d'"
proof (rule same_runs_confined)
  from step obtain row where new: "session_messages d' = session_messages d @ [row]"
    "mr_run_id row = Some (am_runId am)"
    by (auto simp: appendSessionMessage_def insert_message_def result_simps Let_def
        split: option.splits if_splits)
  have frame: "d' = d\<lparr>session_messages := session_messages d'\<rparr>" by (rule appendSessionMessage_frame [OF step])
  have runs: "runs d' = runs d" "run_events d' = run_events d" "approvals d' = approvals d"
    by (subst frame, simp)+
  show "map identity (runs d') = map identity (runs d)" "map apr_id (approvals d') = map apr_id (approvals d)"
    by (simp_all add: runs)
  show "runs_inv d \<Longrightarrow> runs_inv d'" by (erule runs_inv_cong) (simp_all add: runs)
  show "foreign ow d' = foreign ow d" if w: "world d"
    by (subst frame, rule foreign_table) (simp add: new not_foreign [OF w own])
qed

lemma resolve_within_confined:
  assumes own: "getApproval i d = Some a" "own_run ow d (apr_runId a)"
    and step: "resolve_within now i st digest d = (changed, d')"
  shows "confined ow d d'"
proof (rule same_runs_confined)
  have frame: "d' = d\<lparr>approvals := approvals d'\<rparr>" by (rule resolve_within_frame [OF step])
  have runs: "runs d' = runs d" "run_events d' = run_events d" by (subst frame, simp)+
  have new: "approvals d' = update_rows (resolvable now i st digest d)
      (\<lambda>a. a\<lparr>apr_status := st, apr_resolvedAt := Some now\<rparr>) (approvals d)"
    using step by (auto simp: resolve_within_def)
  show "map identity (runs d') = map identity (runs d)" by (simp add: runs)
  show "map apr_id (approvals d') = map apr_id (approvals d)"
    unfolding new by (rule map_update_rows_frame) simp
  show "runs_inv d \<Longrightarrow> runs_inv d'" by (erule runs_inv_cong) (simp_all add: runs)
  show "foreign ow d' = foreign ow d" if w: "world d"
  proof -
    have mine: "x = a" if "x \<in> set (approvals d)" "apr_id x = i" for x
    proof (rule unique_key_eq)
      show "distinct (map apr_id (approvals d))" using w by (simp add: world_def)
      show "x \<in> set (approvals d)" by (rule that)
      show "a \<in> set (approvals d)" "apr_id x = apr_id a"
        using own(1) that(2) by (auto simp: getApproval_def find_approval_def dest: find_SomeD)
    qed
    have "filter (\<lambda>a. foreign_run ow d (apr_runId a)) (approvals d')
        = filter (\<lambda>a. foreign_run ow d (apr_runId a)) (approvals d)"
      unfolding new using not_foreign [OF w own(2)]
      by (intro filter_update_rows) (auto simp: resolvable_def dest!: mine)
    then show ?thesis by (subst frame, intro foreign_table)
  qed
qed

lemma resolve_confined:
  assumes own: "getApproval i d = Some a" "own_run ow d (apr_runId a)" "world d"
    and step: "resolveApprovalAndAppendEvent now i st digest payload d = Inr (res, d')"
  shows "confined ow d d'"
proof -
  obtain changed d1 where w: "resolve_within now i st digest d = (changed, d1)" by fastforce
  note first = resolve_within_confined [OF own(1,2) w]
  then have w1: "world d1" and own1: "own_run ow d1 (apr_runId a)"
    using own(2,3) by (auto simp: confined_def)
  have frame: "approvals d1 = map (\<lambda>a. if resolvable now i st digest d a
     then a\<lparr>apr_status := st, apr_resolvedAt := Some now\<rparr> else a) (approvals d)"
    by (rule resolve_within_map [OF w])
  have "apr_runId r = apr_runId a" if "getApproval i d1 = Some r" for r
  proof -
    from that obtain x where x: "x \<in> set (approvals d)" "apr_id x = i" "apr_runId r = apr_runId x"
      unfolding getApproval_def find_approval_def frame
      by (auto dest!: find_SomeD split: if_splits)
    have "x = a"
    proof (rule unique_key_eq)
      show "distinct (map apr_id (approvals d))" using own(3) by (simp add: world_def)
      show "x \<in> set (approvals d)" by (rule x(1))
      show "a \<in> set (approvals d)" "apr_id x = apr_id a"
        using own(1) x(2) by (auto simp: getApproval_def find_approval_def dest: find_SomeD)
    qed
    with x(3) show ?thesis by simp
  qed
  then have "confined ow d1 d'"
    using step w own1
    by (auto simp: resolveApprovalAndAppendEvent_def result_simps plain_event_def
        split: option.splits if_splits intro!: append_event_confined)
  with first show ?thesis by (rule confined_trans)
qed

section \<open>Creating a run\<close>

lemma ensure_agent_rows:
  "ensure_agent now ids rq d = Inr (a, d') \<Longrightarrow>
   \<exists>new. d' = d\<lparr>agent_profiles := agent_profiles d @ new\<rparr> \<and> (\<forall>x\<in>set new. ar_owner x = rq_owner rq)"
  by (auto simp: ensure_agent_def insert_agent_def default_agent_row_def result_simps
      split: option.splits if_splits intro: exI [of _ "[]"])

lemma ensure_workspace_rows:
  "ensure_workspace now ids rq d = Inr (w, d') \<Longrightarrow>
   \<exists>new. d' = d\<lparr>workspaces := workspaces d @ new\<rparr> \<and> (\<forall>x\<in>set new. wr_owner x = rq_owner rq)"
  by (auto simp: ensure_workspace_def insert_workspace_def default_workspace_row_def result_simps
      split: option.splits if_splits intro: exI [of _ "[]"])

lemma ensure_session_rows:
  "ensure_session now ids i rq a d = Inr (s, d') \<Longrightarrow>
   \<exists>new. d' = d\<lparr>sessions := sessions d @ new\<rparr> \<and> (\<forall>x\<in>set new. sr_owner x = rq_owner rq)"
  by (auto simp: ensure_session_def result_simps Let_def
      split: option.splits if_splits intro: exI [of _ "[]"])

lemma create_run_rows:
  assumes "create_run now ids fp i rq d = Inr (row, d')"
  obtains ags wss sss e m where "rr_id row = i" "rr_owner row = rq_owner rq"
    and "rr_parent_run_id row = rq_parentRunId rq" "check_parent rq d = Inr ()"
    and "d' = d\<lparr>agent_profiles := agent_profiles d @ ags, workspaces := workspaces d @ wss,
         sessions := sessions d @ sss, runs := runs d @ [row], run_events := run_events d @ [e],
         session_messages := session_messages d @ [m]\<rparr>"
    and "\<forall>x\<in>set ags. ar_owner x = rq_owner rq" "\<forall>x\<in>set wss. wr_owner x = rq_owner rq"
    and "\<forall>x\<in>set sss. sr_owner x = rq_owner rq" "ev_runId e = i" "mr_run_id m = Some i"
    and "\<forall>r\<in>set (runs d). rr_id r \<noteq> i"
    and "\<forall>p. rq_parentRunId rq = Some p \<longrightarrow> p \<in> rr_id ` set (runs d)"
proof -
  from assms obtain a d1 w d2 s d3 where
    p: "check_parent rq d = Inr ()" and
    a: "ensure_agent now ids rq d = Inr (a, d1)" and
    w: "ensure_workspace now ids rq d1 = Inr (w, d2)" and
    s: "ensure_session now ids i rq a d2 = Inr (s, d3)" and
    row: "row = new_run_row now fp i rq a w s" and
    ins: "insert_accepted_run now row s d3 = Inr d'"
    by (auto simp: create_run_def result_simps Let_def)
  obtain ags where ags: "d1 = d\<lparr>agent_profiles := agent_profiles d @ ags\<rparr>" "\<forall>x\<in>set ags. ar_owner x = rq_owner rq"
    using ensure_agent_rows [OF a] by blast
  obtain wss where wss: "d2 = d1\<lparr>workspaces := workspaces d1 @ wss\<rparr>" "\<forall>x\<in>set wss. wr_owner x = rq_owner rq"
    using ensure_workspace_rows [OF w] by blast
  obtain sss where sss: "d3 = d2\<lparr>sessions := sessions d2 @ sss\<rparr>" "\<forall>x\<in>set sss. sr_owner x = rq_owner rq"
    using ensure_session_rows [OF s] by blast
  from ins obtain e m where
    "d' = d3\<lparr>runs := runs d3 @ [row], run_events := run_events d3 @ [e],
       session_messages := session_messages d3 @ [m]\<rparr>" "ev_runId e = i" "mr_run_id m = Some i"
    "\<forall>r\<in>set (runs d3). rr_id r \<noteq> i" "\<forall>p. rq_parentRunId rq = Some p \<longrightarrow> p \<in> rr_id ` set (runs d3)"
    by (force simp: insert_accepted_run_def run_exists_def list_ex_iff new_run_row_def insert_run_def insert_event_def insert_message_def result_simps row)
  then show thesis using p ags wss sss
    by (intro that [where ags = ags and wss = wss and sss = sss and e = e and m = m]) (simp_all add: row new_run_row_def ags(1) wss(1) sss(1))
qed

lemma create_confined:
  assumes step: "createOrGetRun fp now ids i rq d = Inr ((rec, created), d')" and i: "i \<noteq> []"
  shows "confined (rq_owner rq) d d'"
  using step
proof (cases rule: createOrGetRun_cases)
  case (replay row)
  then show ?thesis by simp
next
  case (create row)
  let ?ow = "rq_owner rq"
  from create(2) obtain ags wss sss e m where
    row: "rr_id row = i" "rr_owner row = ?ow" "rr_parent_run_id row = rq_parentRunId rq"
      "check_parent rq d = Inr ()" and
    d': "d' = d\<lparr>agent_profiles := agent_profiles d @ ags, workspaces := workspaces d @ wss,
         sessions := sessions d @ sss, runs := runs d @ [row], run_events := run_events d @ [e],
         session_messages := session_messages d @ [m]\<rparr>" and
    own: "\<forall>x\<in>set ags. ar_owner x = ?ow" "\<forall>x\<in>set wss. wr_owner x = ?ow" "\<forall>x\<in>set sss. sr_owner x = ?ow"
      "ev_runId e = i" "mr_run_id m = Some i" and
    fresh: "\<forall>r\<in>set (runs d). rr_id r \<noteq> i" and
    exists: "\<forall>p. rq_parentRunId rq = Some p \<longrightarrow> p \<in> rr_id ` set (runs d)"
    by (rule create_run_rows)
  have runs: "runs d' = runs d @ [row]" by (simp add: d')
  show ?thesis
  proof (rule confinedI)
    assume w: "world d"
    show "foreign ?ow d' = foreign ?ow d"
    proof (rule foreign_eqI)
      show fr: "foreign_run ?ow d' = foreign_run ?ow d"
        by (rule foreign_run_append [OF runs]) (simp add: row)
      have "\<not> foreign_run ?ow d i" using fresh by (auto simp: foreign_run_def)
      then show "filter (\<lambda>e. foreign_run ?ow d (ev_runId e)) (run_events d')
          = filter (\<lambda>e. foreign_run ?ow d (ev_runId e)) (run_events d)"
        and "filter (\<lambda>m. case mr_run_id m of None \<Rightarrow> True | Some i \<Rightarrow> foreign_run ?ow d i) (session_messages d')
          = filter (\<lambda>m. case mr_run_id m of None \<Rightarrow> True | Some i \<Rightarrow> foreign_run ?ow d i) (session_messages d)"
        by (simp_all add: d' own)
    qed (simp_all add: d' own row filter_empty_conv)
    have lin: "lineage d'"
    proof -
      have "\<exists>p\<in>set (runs d). rr_id p = j \<and> rr_owner p = ?ow" if j: "rq_parentRunId rq = Some j" for j
      proof -
        from exists j obtain p where p: "p \<in> set (runs d)" "rr_id p = j" by auto
        with w have "j \<noteq> []" by (force simp: world_def)
        then have "find_run j d = Some p" "truthy (rq_parentRunId rq) = Some j"
          using w p j by (auto simp: world_def find_run_unique truthy_def)
        with row(4) p show ?thesis by (auto simp: check_parent_def split: if_splits)
      qed
      then show ?thesis using w by (fastforce simp: lineage_def runs row world_def)
    qed
    show "world d'"
      using w lin createOrGetRun_runs_inv [OF _ step] i
      by (auto simp: world_def runs row d')
  next
    fix j assume "own_run ?ow d j"
    then show "own_run ?ow d' j"
      by (auto simp: own_run_def find_run_def runs find_append)
  qed
qed

section \<open>Agents, workspaces and connections\<close>

lemma table_confined:
  assumes "runs d' = runs d" "run_events d' = run_events d" "approvals d' = approvals d"
    and "foreign ow d' = foreign ow d"
  shows "confined ow d d'"
  using assms by (intro same_runs_confined) (auto elim: runs_inv_cong)

lemma agent_confined:
  "createAgentProfile n r d = Inr (res, d') \<Longrightarrow> confined (ap_owner r) d d'"
  "deleteAgentProfile i ow d = Inr (ok, d') \<Longrightarrow> confined ow d d'"
  by (rule table_confined;
      auto simp: createAgentProfile_def insert_agent_def deleteAgentProfile_def result_simps Let_def
        intro!: foreign_table filter_delete_rows)+

lemma workspace_confined:
  "createWorkspace n r d = Inr (res, d') \<Longrightarrow> confined (ws_owner r) d d'"
  by (rule table_confined;
      auto simp: createWorkspace_def insert_workspace_def result_simps intro!: foreign_table)

lemma connection_confined:
  "createProviderConnection n r d = Inr (res, d') \<Longrightarrow> confined (pc_owner r) d d'"
  "updateProviderConnection now i ow st err d = Inr (res, d') \<Longrightarrow> confined ow d d'"
  "deleteProviderConnection i ow d = Inr (ok, d') \<Longrightarrow> confined ow d d'"
  by (rule table_confined;
      auto simp: createProviderConnection_def updateProviderConnection_def deleteProviderConnection_def
        result_simps Let_def intro!: foreign_table filter_delete_rows filter_update_rows)+

lemmas record_confined = agent_confined workspace_confined connection_confined

section \<open>Every reachable database is such a world\<close>

lemma store_step_lineage:
  assumes step: "store_step fp d d'" and ids: "[] \<notin> rr_id ` set (runs d')" and w: "world d"
  shows "lineage d'"
  using step
proof (cases rule: store_step_cases)
  case (create now ids i rq rec created)
  show ?thesis
    using create
  proof (cases rule: createOrGetRun_cases)
    case (replay row)
    then show ?thesis using w by (simp add: world_def)
  next
    case c: (create row)
    from c(2) have "row \<in> set (runs d')" "rr_id row = i" by (rule create_run_cases, simp_all)+
    with ids have "i \<noteq> []" by force
    from create_confined [OF create this] w show ?thesis by (simp add: confined_def world_def)
  qed
next
  case (append now ae e)
  from identity_lineage(1) [OF append_event_identity [OF append]] show ?thesis using w by (simp add: world_def)
next
  case (usage now i u rec)
  then have "map identity (runs d') = map identity (runs d)"
    by (rule recordUsage_cases) (simp add: map_update_rows_frame)
  from identity_lineage(1) [OF this] show ?thesis using w by (simp add: world_def)
next
  case (resolved now ae e d1)
  from append_event_identity [OF resolved(3)] have "map identity (runs d') = map identity (runs d)"
    by (simp only: resolved(1))
  from identity_lineage(1) [OF this] show ?thesis using w by (simp add: world_def)
next
  case quiet
  then show ?thesis using w by (simp add: lineage_def world_def)
qed

lemma reachable_world: "reachable fp d \<Longrightarrow> [] \<notin> rr_id ` set (runs d) \<Longrightarrow> world d"
proof (induction rule: reachable.induct)
  case start
  show ?case by (simp add: world_def lineage_def runs_inv_empty) (simp add: empty_db_def)
next
  case (step d d')
  have "[] \<notin> rr_id ` set (runs d)"
  proof
    assume "[] \<in> rr_id ` set (runs d)"
    then obtain r where r: "r \<in> set (runs d)" "rr_id r = []" by auto
    obtain r' where "r' \<in> set (runs d')" "identity r' = identity r"
      using extends_runs_member [OF store_step_extends [OF step.hyps(2)] r(1)] .
    with r(2) identity_columns(1) [of r' r] step.prems show False by force
  qed
  with step.IH have w: "world d" by simp
  have r: "reachable fp d'" using step.hyps by (rule reachable.step)
  show ?case
    using reachable_runs_inv [OF r] reachable_approval_ids [OF r] step.prems
      store_step_lineage [OF step.hyps(2) step.prems w] by (simp add: world_def)
qed

end
