(* ===== verification/ManagerIsolation.thy ===== *)
theory ManagerIsolation
  imports ManagerApi Tenants ControlProperties
begin

text \<open>
  Requests stay within their tenant. The locale \<open>owned_runs\<close> states what a client of the
  coordinator that acts on runs it owns relies on: store calls on an owned run respect a relation,
  and the family of an owned run is owned. Inside it, steering, cancelling and resolving respect
  the relation. It is interpreted with \<open>confined\<close>, from which every route of \<open>ipc_request\<close> leaves
  the rows of other owners as they are.
\<close>

section \<open>Operations on owned runs\<close>

locale owned_runs =
  fixes R :: "manager \<Rightarrow> manager \<Rightarrow> bool" and own :: "manager \<Rightarrow> string \<Rightarrow> bool"
  assumes same_store: "store m' = store m \<Longrightarrow> R m m'"
    and trans: "R m m' \<Longrightarrow> R m' m'' \<Longrightarrow> R m m''"
    and keeps: "R m m' \<Longrightarrow> own m i \<Longrightarrow> own m' i"
    and family: "own m p \<Longrightarrow> c \<in> set (listChildRuns p (store m)) \<Longrightarrow> own m (run_id c)"
    and parent: "own m i \<Longrightarrow> getRun i (store m) = Some run \<Longrightarrow> truthy (run_parentRunId run) = Some p \<Longrightarrow> own m p"
    and event: "own m (ae_runId ae) \<Longrightarrow> appendEvent now ae (store m) = Inr (e, d) \<Longrightarrow> R m (m\<lparr>store := d\<rparr>)"
    and message: "own m (am_runId am) \<Longrightarrow> appendSessionMessage now am (store m) = Inr (sm, d) \<Longrightarrow> R m (m\<lparr>store := d\<rparr>)"
    and resolve: "getApproval i (store m) = Some a \<Longrightarrow> own m (apr_runId a) \<Longrightarrow>
      resolveApprovalAndAppendEvent now i st digest payload (store m) = Inr (res, d) \<Longrightarrow> R m (m\<lparr>store := d\<rparr>)"
    and same_approval: "R m m' \<Longrightarrow> own m (apr_runId a) \<Longrightarrow> getApproval i (store m) = Some a \<Longrightarrow>
      \<exists>a'. getApproval i (store m') = Some a' \<and> apr_runId a' = apr_runId a"
begin

lemma refl: "R m m"
  by (rule same_store) simp

lemma bind_act_respects:
  assumes "R m (snd (f m))" and "\<And>a m'. f m = (Inr a, m') \<Longrightarrow> R m m' \<Longrightarrow> R m' (snd (g a m'))"
  shows "R m (snd (bind_act f g m))"
  using assms by (cases "f m") (auto simp: bind_act_def split: sum.split intro: trans)

lemma store_act_respects:
  "(\<And>a d. f (store m) = Inr (a, d) \<Longrightarrow> R m (m\<lparr>store := d\<rparr>)) \<Longrightarrow> R m (snd (store_act f m))"
  by (auto simp: store_act_def refl split: sum.split)

lemma pure_respects:
  "R m (snd (return_act a m))" "R m (snd (throw_act e m))" "R m (snd (gets_act h m))"
  "R m (snd (lift_result w r m))"
  by (auto simp: return_act_def throw_act_def gets_act_def lift_result_def refl split: sum.split)

lemma modify_respects: "(\<And>m. store (f m) = store m) \<Longrightarrow> R m (snd (modify_act f m))"
  by (simp add: modify_act_def same_store)

lemma event_respects: "own m (ae_runId ae) \<Longrightarrow> R m (snd (store_act (appendEvent now ae) m))"
  by (rule store_act_respects) (auto intro: event)

lemma plain_run [simp]: "ae_runId (plain_event i ty p) = i" "ae_runId (status_event i st ty q) = i"
  by (simp_all add: plain_event_def status_event_def)

lemma report_respects:
  "truthy (run_parentRunId run) = None \<or> (\<exists>p. truthy (run_parentRunId run) = Some p \<and> own m p) \<Longrightarrow>
   R m (snd (report_to_parent now run st payload m))"
  by (auto simp: report_to_parent_def refl split: option.splits sum.splits
      intro: event [where ae = "plain_event p SubagentCompleted x" for p x, unfolded plain_run])

lemma transition_respects:
  assumes "own m i"
  shows "R m (snd (transition now i st ty payload m))"
proof (cases "getRun i (store m)")
  case None
  then show ?thesis by (simp add: transition_def refl)
next
  case (Some run)
  show ?thesis
  proof (cases "assertRunTransition (run_status run) st")
    case (Inl e)
    then show ?thesis by (cases e) (simp add: transition_def Some refl)
  next
    case (Inr u)
    have "R m (snd (bind_act (store_act (appendEvent now (status_event i st ty payload)))
        (\<lambda>_. if isTerminalRunStatus st then report_to_parent now run st payload else return_act ()) m))"
    proof (rule bind_act_respects)
      show "R m (snd (store_act (appendEvent now (status_event i st ty payload)) m))"
        by (rule event_respects) (simp add: assms)
      show "R m' (snd ((if isTerminalRunStatus st then report_to_parent now run st payload else return_act ()) m'))"
        if "R m m'" for m'
        using parent [OF assms Some] keeps [OF that] pure_respects(1)
        by (cases "truthy (run_parentRunId run)") (auto intro: report_respects)
    qed
    then show ?thesis by (simp add: transition_def Some Inr)
  qed
qed

lemma for_each_respects:
  assumes "\<And>x m. x \<in> set xs \<Longrightarrow> own m (key x) \<Longrightarrow> R m (snd (f x m))" and "\<And>x. x \<in> set xs \<Longrightarrow> own m (key x)"
  shows "R m (snd (for_each f xs m))"
  using assms
proof (induction xs arbitrary: m)
  case Nil
  then show ?case by (simp add: pure_respects)
next
  case (Cons x xs)
  show ?case
    unfolding for_each.simps
  proof (rule bind_act_respects)
    show "R m (snd (f x m))" using Cons.prems by simp
    show "R m' (snd (for_each f xs m'))" if "R m m'" for m'
      using Cons.prems keeps [OF that] by (intro Cons.IH) auto
  qed
qed

lemma cancel_respects: "own m i \<Longrightarrow> R m (snd (cancelRun fuel now i m))"
proof (induction fuel arbitrary: i m)
  case 0
  then show ?case by (simp add: refl)
next
  case (Suc fuel)
  show ?case
  proof (cases "getRun i (store m)")
    case None
    then show ?thesis by (simp add: refl)
  next
    case (Some run)
    let ?children = "for_each (\<lambda>c. bind_act (cancelRun fuel now c) (\<lambda>_. return_act ()))
        (map run_id (listChildRuns i (store m)))"
    let ?self = "\<lambda>m. case map_of (active m) i of
        Some _ \<Rightarrow> (Inr (), abort_run i RunCancelledError m)
      | None \<Rightarrow> transition now i CANCELLED RunCancelled [(''reason'', JStr ''requested'')] m"
    have "R m (snd (?children m))"
      by (rule for_each_respects [where key = id])
        (auto intro!: bind_act_respects Suc.IH pure_respects family [OF Suc.prems])
    moreover have "R m' (snd (?self m'))" if "R m m'" for m'
      using transition_respects [OF keeps [OF that Suc.prems]]
      by (auto simp: abort_run_def intro: same_store split: option.split)
    ultimately have "R m (snd (bind_act ?children (\<lambda>_. bind_act ?self
        (\<lambda>_. gets_act (\<lambda>m. getRun i (store m)))) m))"
      by (intro bind_act_respects pure_respects)
    then show ?thesis by (simp add: Some refl)
  qed
qed

lemma message_respects:
  "am_runId am = i \<Longrightarrow> own m i \<Longrightarrow> R m (snd (store_act (appendSessionMessage now am) m))"
  by (rule store_act_respects) (auto intro: message)

lemma steer_respects:
  assumes "own m i"
  shows "R m (snd (steerRun now mid i instruction m))"
proof (cases "getRun i (store m)")
  case None
  then show ?thesis by (simp add: steerRun_def refl)
next
  case (Some run)
  let ?queue = "modify_act (\<lambda>m. m\<lparr>steering := AList.update i
      (nullish (map_of (steering m) i) [] @ [\<lparr>mm_role = UserRole, mm_content = instruction,
         mm_toolCalls = None, mm_toolCallId = None\<rparr>]) (steering m)\<rparr>)"
  let ?message = "case truthy (run_sessionId run) of
      None \<Rightarrow> return_act ()
    | Some s \<Rightarrow> bind_act (store_act (appendSessionMessage now
        \<lparr>am_id = mid, am_sessionId = s, am_runId = i, am_role = UserRole,
         am_content = instruction, am_metadata = Some [(''steering'', JBool True)]\<rparr>)) (\<lambda>_. return_act ())"
  let ?event = "store_act (appendEvent now (plain_event i RunSteered [(''instruction'', JStr instruction)]))"
  have "R m (snd (?queue m))" by (rule modify_respects) simp
  moreover have "R m' (snd (?message m'))" if "R m m'" for m'
    using keeps [OF that assms]
    by (auto split: option.split intro!: pure_respects bind_act_respects message_respects)
  moreover have "R m' (snd (?event m'))" if "R m m'" for m'
    using keeps [OF that assms] by (intro event_respects) simp
  ultimately have "R m (snd (bind_act ?queue (\<lambda>_. bind_act ?message (\<lambda>_. bind_act ?event
      (\<lambda>_. gets_act (\<lambda>m. getRun i (store m))))) m))"
    by (intro bind_act_respects pure_respects) (auto intro: trans)
  then show ?thesis by (simp add: steerRun_def Some refl)
qed

lemma resolve_as_respects:
  assumes "getApproval (apr_id r) (store m) = Some a" and "own m (apr_runId a)"
  shows "R m (snd (resolve_as now r st m))"
  unfolding resolve_as_def by (rule store_act_respects) (rule resolve [OF assms])

lemma resolve_respects:
  assumes a: "getApproval i (store m) = Some a" and own: "own m (apr_runId a)"
  shows "R m (snd (service_resolveApproval cf t1 t2 t3 i approved m))"
proof -
  have id: "apr_id a = i" using a by (auto simp: getApproval_def find_approval_def dest: find_SomeD)
  have again: "R m' (snd (resolve_as t a st m'))" if R: "R m m'" for m' t st
  proof -
    obtain a' where "getApproval (apr_id a) (store m') = Some a'" "apr_runId a' = apr_runId a"
      using same_approval [OF R own] a id by auto
    then show ?thesis using keeps [OF R own] by (intro resolve_as_respects [where a = a']) simp_all
  qed
  let ?body = "\<lambda>st. bind_act (resolve_as t2 a st) (\<lambda>r1.
      bind_act (if st = APPROVED \<and> is_pending r1 then resolve_as t3 a EXPIRED else return_act r1) (\<lambda>resolved.
      bind_act (modify_act (settle_waiter i (is_approved resolved))) (\<lambda>_. return_act resolved)))"
  have body: "R m' (snd (?body st m'))" if "R m m'" for m' st
    using that
    by (intro bind_act_respects pure_respects modify_respects)
      (auto intro!: again intro: trans pure_respects simp: settle_waiter_def)
  have "R m (snd (bind_act (lift_result id (approvalBindingIsCurrent cf a None (store m)))
      (\<lambda>bindingValid. ?body (if apr_expiresAt a \<le> t1 then EXPIRED
         else if bindingValid \<and> approved then APPROVED else DENIED)) m))"
    by (rule bind_act_respects) (rule pure_respects body, assumption?)+
  then show ?thesis using a by (simp add: service_resolveApproval_def Let_def refl)
qed

end

section \<open>Confinement to the owner\<close>

definition approval_keys :: "db \<Rightarrow> (string \<times> string) list" where
  "approval_keys d = map (\<lambda>a. (apr_id a, apr_runId a)) (approvals d)"

definition stays_within :: "resource_owner \<Rightarrow> manager \<Rightarrow> manager \<Rightarrow> bool" where
  "stays_within ow m m' \<longleftrightarrow> confined ow (store m) (store m')
     \<and> approval_keys (store m') = approval_keys (store m)"

definition owns :: "resource_owner \<Rightarrow> manager \<Rightarrow> string \<Rightarrow> bool" where
  "owns ow m i \<longleftrightarrow> world (store m) \<and> own_run ow (store m) i"

lemma own_run_row:
  "world d \<Longrightarrow> own_run ow d i \<longleftrightarrow> (\<exists>r\<in>set (runs d). rr_id r = i \<and> rr_owner r = ow)"
  by (auto simp: own_run_def world_def find_run_unique)

lemma unique_run:
  "world d \<Longrightarrow> r \<in> set (runs d) \<Longrightarrow> q \<in> set (runs d) \<Longrightarrow> rr_id r = rr_id q \<Longrightarrow> r = q"
  by (rule unique_key_eq [of rr_id]) (simp_all add: world_def runs_inv_def)

lemma own_family:
  assumes w: "world d" and own: "own_run ow d p" and "c \<in> set (listChildRuns p d)"
  shows "own_run ow d (run_id c)"
proof -
  obtain r where r: "r \<in> set (runs d)" "rr_parent_run_id r = Some p" "c = toRunRecord r"
    using assms(3) by (auto simp: listChildRuns_def)
  obtain q where q: "q \<in> set (runs d)" "rr_id q = p" "rr_owner q = rr_owner r"
    using w r by (auto simp: world_def lineage_def)
  obtain s where "s \<in> set (runs d)" "rr_id s = p" "rr_owner s = ow"
    using own own_run_row [OF w] by auto
  with q unique_run [OF w] have "rr_owner r = ow" by metis
  with r own_run_row [OF w] show ?thesis by (auto simp: toRunRecord_def)
qed

lemma own_parent:
  assumes w: "world d" and own: "own_run ow d i" and "getRun i d = Some run"
    and "truthy (run_parentRunId run) = Some p"
  shows "own_run ow d p"
proof -
  obtain r where r: "find_run i d = Some r" "rr_owner r = ow" using own by (auto simp: own_run_def)
  then have "truthy (run_parentRunId (toRunRecord r)) = Some p" using assms(3,4) by (simp add: getRun_def)
  then have "rr_parent_run_id r = Some p"
    by (cases "rr_parent_run_id r") (simp_all add: toRunRecord_def truthy_def split: if_splits)
  moreover have "r \<in> set (runs d)" using r(1) by (auto dest: find_run_SomeD)
  ultimately obtain q where "q \<in> set (runs d)" "rr_id q = p" "rr_owner q = ow"
    using w r(2) by (auto simp: world_def lineage_def)
  with own_run_row [OF w] show ?thesis by auto
qed

lemma approval_keys_find:
  "approval_keys d' = approval_keys d \<Longrightarrow> getApproval i d = Some a \<Longrightarrow>
   \<exists>a'. getApproval i d' = Some a' \<and> apr_runId a' = apr_runId a"
proof -
  have find: "map_option (\<lambda>a. (apr_id a, apr_runId a)) (getApproval i d)
      = List.find (\<lambda>k. fst k = i) (approval_keys d)" for d
  proof -
    have "map_option (\<lambda>a. (apr_id a, apr_runId a)) (List.find (\<lambda>a. apr_id a = i) t)
        = List.find (\<lambda>k. fst k = i) (map (\<lambda>a. (apr_id a, apr_runId a)) t)" for t
      by (induction t) auto
    then show ?thesis by (simp add: getApproval_def find_approval_def approval_keys_def)
  qed
  assume "approval_keys d' = approval_keys d" "getApproval i d = Some a"
  with find [of d] find [of d'] have
    "map_option (\<lambda>a. (apr_id a, apr_runId a)) (getApproval i d') = Some (apr_id a, apr_runId a)" by simp
  then show ?thesis by auto
qed

lemma approval_keys_frame:
  "appendEvent now ae d = Inr (e, d') \<Longrightarrow> approval_keys d' = approval_keys d"
  "appendSessionMessage now am d = Inr (sm, d') \<Longrightarrow> approval_keys d' = approval_keys d"
  "resolve_within now i st digest d = (ok, d') \<Longrightarrow> approval_keys d' = approval_keys d"
proof -
  show "approval_keys d' = approval_keys d" if "appendEvent now ae d = Inr (e, d')"
    using that
  proof (cases rule: appendEvent_cases)
    case (1 row)
    show ?thesis by (subst 1(8)) (simp add: approval_keys_def)
  qed
  show "approval_keys d' = approval_keys d" if "appendSessionMessage now am d = Inr (sm, d')"
    by (subst appendSessionMessage_frame [OF that]) (simp add: approval_keys_def)
  show "approval_keys d' = approval_keys d" if "resolve_within now i st digest d = (ok, d')"
    using that by (auto simp: resolve_within_def approval_keys_def map_update_rows_frame)
qed

lemma resolve_keys:
  "resolveApprovalAndAppendEvent now i st digest payload d = Inr (res, d') \<Longrightarrow> approval_keys d' = approval_keys d"
  by (erule resolveApprovalAndAppendEvent_cases) (simp_all add: approval_keys_frame)

interpretation tenant: owned_runs "stays_within ow" "owns ow" for ow
proof unfold_locales
  fix m m' m'' :: manager and i p now e d ae am sm run c a st digest payload res
  show "store m' = store m \<Longrightarrow> stays_within ow m m'" by (simp add: stays_within_def)
  show "stays_within ow m m' \<Longrightarrow> stays_within ow m' m'' \<Longrightarrow> stays_within ow m m''"
    by (auto simp: stays_within_def intro: confined_trans)
  show "stays_within ow m m' \<Longrightarrow> owns ow m i \<Longrightarrow> owns ow m' i"
    by (simp add: stays_within_def owns_def confined_def)
  show "owns ow m p \<Longrightarrow> c \<in> set (listChildRuns p (store m)) \<Longrightarrow> owns ow m (run_id c)"
    by (auto simp: owns_def intro: own_family)
  show "owns ow m i \<Longrightarrow> getRun i (store m) = Some run \<Longrightarrow> truthy (run_parentRunId run) = Some p \<Longrightarrow> owns ow m p"
    by (auto simp: owns_def intro: own_parent)
  show "owns ow m (ae_runId ae) \<Longrightarrow> appendEvent now ae (store m) = Inr (e, d) \<Longrightarrow> stays_within ow m (m\<lparr>store := d\<rparr>)"
    by (auto simp: stays_within_def owns_def approval_keys_frame intro: append_event_confined)
  show "owns ow m (am_runId am) \<Longrightarrow> appendSessionMessage now am (store m) = Inr (sm, d) \<Longrightarrow>
      stays_within ow m (m\<lparr>store := d\<rparr>)"
    by (auto simp: stays_within_def owns_def approval_keys_frame intro: message_confined)
  show "getApproval i (store m) = Some a \<Longrightarrow> owns ow m (apr_runId a) \<Longrightarrow>
      resolveApprovalAndAppendEvent now i st digest payload (store m) = Inr (res, d) \<Longrightarrow>
      stays_within ow m (m\<lparr>store := d\<rparr>)"
    by (auto simp: stays_within_def owns_def resolve_keys intro: resolve_confined)
  show "stays_within ow m m' \<Longrightarrow> owns ow m (apr_runId a) \<Longrightarrow> getApproval i (store m) = Some a \<Longrightarrow>
      \<exists>a'. getApproval i (store m') = Some a' \<and> apr_runId a' = apr_runId a"
    by (auto simp: stays_within_def intro: approval_keys_find)
qed

section \<open>The routes\<close>

lemma serve_state [simp]:
  "snd (serve f reply m) = snd (f m)" "snd (serve_catching f caught reply m) = snd (f m)"
  by (simp_all add: serve_def serve_catching_def split: prod.split sum.split)

lemma answer_state [simp]: "snd (answer r m) = m"
  by (simp add: answer_def)

lemma principal_owner: "requireInternalPrincipal hs = Some p \<Longrightarrow> p_owner p = hd_owner hs"
  by (auto simp: requireInternalPrincipal_def principalFromInternalHeaders_def Let_def split: if_splits)

lemma owned_run_Some:
  "owned_run i p d = Some run \<longleftrightarrow> getRun i d = Some run \<and> run_owner run = p_owner p"
  by (auto simp: owned_run_def split: option.splits if_splits)

lemma owned_run_own: "owned_run i p d = Some run \<Longrightarrow> own_run (p_owner p) d i"
  by (auto simp: owned_run_Some getRun_def own_run_def toRunRecord_def)

lemma owned_approval_Some:
  "owned_approval i p d = Some a \<longleftrightarrow> getApproval i d = Some a \<and> owned_run (apr_runId a) p d \<noteq> None"
  by (auto simp: owned_approval_def split: option.splits)

lemma with_principal_cases:
  assumes "m' = snd (with_principal hs f m)"
  obtains (refused) "m' = m" | (principal) p where "p_owner p = hd_owner hs" "m' = snd (f p m)"
  using assms principal_owner by (fastforce simp: with_principal_def split: option.splits)

lemma store_act_confined:
  "(\<And>a d. f (store m) = Inr (a, d) \<Longrightarrow> confined ow (store m) d) \<Longrightarrow>
   confined ow (store m) (store (snd (store_act f m)))"
  by (auto simp: store_act_def split: sum.split)

lemma create_run_confined:
  assumes "i \<noteq> []"
  shows "confined (rq_owner rq) (store m) (store (snd (service_createRun cf now ids i rq m)))"
proof -
  have "confined (rq_owner rq) (store m) (store (snd (store_act (createOrGetRun (cf_fingerprint cf) now ids i rq) m)))"
    by (rule store_act_confined) (auto intro: create_confined [OF _ assms])
  then show ?thesis
    by (auto simp: service_createRun_def bind_act_def store_act_def modify_act_def return_act_def
        split: sum.splits prod.splits)
qed

lemma runs_confined:
  assumes w: "world (store m)" and own: "own_run ow (store m) i"
  shows "confined ow (store m) (store (snd (cancelRun fuel now i m)))"
    and "confined ow (store m) (store (snd (steerRun now mid i s m)))"
  using tenant.cancel_respects [of ow m i] tenant.steer_respects [of ow m i] assms
  by (simp_all add: stays_within_def owns_def)

lemma approval_confined:
  assumes "world (store m)" and "getApproval i (store m) = Some a" and "own_run ow (store m) (apr_runId a)"
  shows "confined ow (store m) (store (snd (service_resolveApproval cf t1 t2 t3 i ok m)))"
  using tenant.resolve_respects [of i m a ow] assms by (simp add: stays_within_def owns_def)

lemma route_confined:
  assumes w: "world (store m)" and fresh: "en_id en \<noteq> []"
  shows "confined (hd_owner hs) (store m) (store (snd (manager_route en hs rq m)))"
proof (cases rq)
  case (PostRun body)
  have "confined (hd_owner hs) (store m) (store (snd (service_createRun cf now ids (en_id en) (b\<lparr>rq_principal := p\<rparr>) m)))"
    if "p_owner p = hd_owner hs" for p b cf now ids
    using create_run_confined [OF fresh, where rq = "b\<lparr>rq_principal := p\<rparr>"] that by (simp add: rq_owner_def)
  then show ?thesis
    using PostRun by (cases body) (auto simp: post_run_def with_principal_def
        dest!: principal_owner split: option.split)
next
  case (PostCancel i)
  then show ?thesis
    by (auto simp: post_cancel_def with_principal_def with_run_def split: option.split
        dest!: principal_owner owned_run_own intro!: runs_confined w)
next
  case (PostSteer i s)
  then show ?thesis
    by (auto simp: post_steer_def with_principal_def with_run_def split: option.split
        dest!: principal_owner owned_run_own intro!: runs_confined w)
next
  case (PostResolve i ok)
  then show ?thesis
    by (auto simp: post_resolve_def with_principal_def owned_approval_Some split: option.split
        dest!: principal_owner owned_run_own intro!: approval_confined w)
next
  case (PostAgent body)
  then show ?thesis
    by (auto simp: post_agent_def with_principal_def new_agent_def split: option.split
        dest!: principal_owner intro!: store_act_confined dest: agent_confined(1))
next
  case (DeleteAgent i)
  then show ?thesis
    by (auto simp: delete_agent_route_def with_principal_def split: option.split
        dest!: principal_owner intro!: store_act_confined dest: agent_confined(2))
next
  case (PostWorkspace body)
  then show ?thesis
    by (auto simp: post_workspace_def with_principal_def new_workspace_def split: option.split
        dest!: principal_owner intro!: store_act_confined dest: workspace_confined)
next
  case (PostConnection body)
  then show ?thesis
    by (auto simp: post_connection_def with_principal_def new_connection_def split: option.split
        dest!: principal_owner intro!: store_act_confined dest: connection_confined(1))
next
  case (PostLogin i body)
  then show ?thesis
    by (auto simp: post_login_def login_end_def with_principal_def split: option.split
        dest!: principal_owner intro!: store_act_confined dest: connection_confined(2))
next
  case (DeleteConnection i)
  then show ?thesis
    by (auto simp: delete_connection_route_def with_principal_def split: option.split
        dest!: principal_owner intro!: store_act_confined dest: connection_confined(3))
qed (auto simp: get_runs_def get_run_def get_events_def get_attempts_def get_children_def
    get_approval_def get_session_def get_messages_def get_agents_def get_agent_def
    get_workspaces_def get_workspace_def get_connections_def with_principal_def with_run_def Let_def
    split: option.split sum.split)

section \<open>Tenants are isolated\<close>

text \<open>C1: Tenants are isolated on the routes of \<open>ipc_request\<close>: those on runs (but the publishing of artifacts), approvals, sessions, agents,
  workspaces (creating, listing, reading) and provider connections. Whatever such a request asks for,
  and whatever the route answers, the runs, sessions, agents, workspaces and connections of every owner but the one
  its headers name, and the events, attempts, messages and approvals of their runs, are after the request what
  they were before it. The store is one that the operations can reach, and no run identifier is empty
  (\<open>createId\<close> makes none). The other routes of the Manager are no requests here: the inbound webhook, which
  starts a run for the owner of a binding whatever the headers say, artifacts, plugins, and the files of workspaces.\<close>

theorem manager_isolates_tenants:
  assumes "reachable fp (store m)" and "[] \<notin> rr_id ` set (runs (store m))" and "en_id en \<noteq> []"
  shows "foreign (hd_owner hs) (store (snd (manager_serve en token hs rq m)))
    = foreign (hd_owner hs) (store m)"
  using route_confined [OF reachable_world [OF assms(1,2)] assms(3), of hs rq]
    reachable_world [OF assms(1,2)]
  by (simp add: manager_serve_def confined_def split: option.split)

definition other_owner :: resource_owner where
  "other_owner = \<lparr>appId = ''a'', tenantId = ''t'', userId = ''v''\<rparr>"

definition headers_of :: "resource_owner \<Rightarrow> ipc_headers" where
  "headers_of ow = \<lparr>hd_version = Some ''1'', hd_token = Some ''secret'', hd_owner = ow\<rparr>"

definition example_env :: api_env where
  "example_env = \<lparr>en_config = example_config, en_now = 40, en_later = (41, 42),
     en_ids = example_ids ''2'', en_id = ''run_2'', en_internal = ''row'', en_credential = ''c'',
     en_fuel = 3, en_parse_url = (\<lambda>s. None), en_login = None, en_logout = None\<rparr>"

definition example_workspace :: workspace_request where
  "example_workspace = \<lparr>wq_id = None,
     wq_principal = example_principal\<lparr>p_owner := other_owner\<rparr>\<rparr>"

lemma manager_isolates_tenants_witness:
  "fst (fst (manager_serve example_env ''secret'' (headers_of other_owner)
      (PostWorkspace (Some example_workspace)) (manager_of db1))) = 201
   \<and> foreign other_owner (store (snd (manager_serve example_env ''secret'' (headers_of other_owner)
       (PostWorkspace (Some example_workspace)) (manager_of db1)))) = foreign other_owner db1
   \<and> map rr_id (runs (foreign other_owner db1)) = [''run_1'']"
proof -
  have "fst (fst (manager_serve example_env ''secret'' (headers_of other_owner)
      (PostWorkspace (Some example_workspace)) (manager_of db1))) = 201"
    and ids: "[] \<notin> rr_id ` set (runs (store (manager_of db1)))"
    and "map rr_id (runs (foreign other_owner db1)) = [''run_1'']" and env: "en_id example_env \<noteq> []"
    and hs: "hd_owner (headers_of other_owner) = other_owner"
    by code_simp+
  moreover have "reachable example_fp (store (manager_of db1))" using db_reachable(1) by (simp add: manager_of_def)
  from manager_isolates_tenants [OF this ids env, of "headers_of other_owner"] have
    "foreign other_owner (store (snd (manager_serve example_env ''secret'' (headers_of other_owner)
       (PostWorkspace (Some example_workspace)) (manager_of db1)))) = foreign other_owner db1"
    by (simp add: hs) (simp add: manager_of_def)
  ultimately show ?thesis by blast
qed

end
