(* ===== verification/GatewayRuns.thy ===== *)
theory GatewayRuns
  imports Gateway ManagerIsolation
begin

text \<open>
  The programs of the Gateway running against the Manager, and what they may ask for and answer.
  Between two calls of a program the Manager's store moves on by any of its operations.
\<close>

section \<open>Running a program\<close>

definition others :: "(start_run_request \<Rightarrow> string) \<Rightarrow> manager \<Rightarrow> manager \<Rightarrow> bool" where
  "others fp m m' \<longleftrightarrow> (store_step fp)\<^sup>*\<^sup>* (store m) (store m')
     \<and> ([] \<notin> rr_id ` set (runs (store m)) \<longrightarrow> [] \<notin> rr_id ` set (runs (store m')))"

text \<open>The trace lists the calls with the state of the Manager that received them.\<close>

inductive gateway_run ::
  "(start_run_request \<Rightarrow> string) \<Rightarrow> string \<Rightarrow> internal_principal \<Rightarrow> ipc_program \<Rightarrow> manager
    \<Rightarrow> (ipc_request \<times> manager) list \<Rightarrow> api_response \<Rightarrow> manager \<Rightarrow> bool" for fp token p where
  reply: "gateway_run fp token p (Reply r) m [] r m"
| call: "others fp m m1 \<Longrightarrow> cf_fingerprint (en_config en) = fp \<Longrightarrow> en_id en \<noteq> [] \<Longrightarrow>
    manager_serve en token (principalHeaders token p) q m1 = (resp, m2) \<Longrightarrow>
    gateway_run fp token p (k resp) m2 tr r m' \<Longrightarrow>
    gateway_run fp token p (Ipc q k) m ((q, m1) # tr) r m'"

inductive_cases gateway_replyE: "gateway_run fp token p (Reply r') m tr r m'"
inductive_cases gateway_callE: "gateway_run fp token p (Ipc q k) m tr r m'"

text \<open>A program that nobody interferes with, for evaluation.\<close>

primrec run_alone ::
  "ipc_program \<Rightarrow> api_env \<Rightarrow> string \<Rightarrow> internal_principal \<Rightarrow> manager
    \<Rightarrow> (ipc_request \<times> manager) list \<times> api_response \<times> manager" where
  "run_alone (Reply r) en token p m = ([], r, m)"
| "run_alone (Ipc q k) en token p m =
     (case manager_serve en token (principalHeaders token p) q m of (resp, m2) \<Rightarrow>
        (case run_alone (k resp) en token p m2 of (tr, r, m') \<Rightarrow> ((q, m) # tr, r, m')))"

lemma gateway_run_alone:
  assumes "cf_fingerprint (en_config en) = fp" and "en_id en \<noteq> []"
  shows "run_alone prog en token p m = (tr, r, m') \<Longrightarrow> gateway_run fp token p prog m tr r m'"
proof (induction prog arbitrary: m tr r m')
  case (Reply x)
  then show ?case by (auto intro: gateway_run.reply)
next
  case (Ipc q k)
  obtain resp m2 where serve: "manager_serve en token (principalHeaders token p) q m = (resp, m2)" by fastforce
  obtain tr' r2 m3 where rest: "run_alone (k resp) en token p m2 = (tr', r2, m3)" by (cases "run_alone (k resp) en token p m2")
  have "others fp m m" by (simp add: others_def)
  moreover have "gateway_run fp token p (k resp) m2 tr' r2 m3" by (rule Ipc.IH [OF _ rest]) simp
  ultimately have "gateway_run fp token p (Ipc q k) m ((q, m) # tr') r2 m3"
    using gateway_run.call [where k = k, OF _ assms serve] by blast
  then show ?case using Ipc.prems serve rest by auto
qed

definition healthy :: "(start_run_request \<Rightarrow> string) \<Rightarrow> manager \<Rightarrow> bool" where
  "healthy fp m \<longleftrightarrow> reachable fp (store m) \<and> [] \<notin> rr_id ` set (runs (store m))"

lemma healthy_world: "healthy fp m \<Longrightarrow> world (store m)"
  unfolding healthy_def by (blast intro: reachable_world)

lemma healthy_others: "healthy fp m \<Longrightarrow> others fp m m' \<Longrightarrow> healthy fp m'"
  by (auto simp: healthy_def others_def intro: reachable_steps)

section \<open>Routes are steps of the store\<close>

lemma store_act_steps:
  "(\<And>a d. f (store m) = Inr (a, d) \<Longrightarrow> record_step (store m) d) \<Longrightarrow>
   (store_step fp)\<^sup>*\<^sup>* (store m) (store (snd (store_act f m)))"
  by (auto simp: store_act_def split: sum.split intro: store_step.other_record)

lemma service_steps:
  "(store_step (cf_fingerprint cf))\<^sup>*\<^sup>* (store m) (store (snd (service_createRun cf now ids i rq m)))"
  "(store_step (cf_fingerprint cf))\<^sup>*\<^sup>* (store m) (store (snd (cancelRun fuel now i m)))"
  "(store_step (cf_fingerprint cf))\<^sup>*\<^sup>* (store m) (store (snd (steerRun now i j s m)))"
  "(store_step (cf_fingerprint cf))\<^sup>*\<^sup>* (store m) (store (snd (service_resolveApproval cf t1 t2 t3 i ok m)))"
  using coordinator_store.advances_at [OF coordinator_store.advances_createRun]
    coordinator_store.advances_at [OF coordinator_store.advances_cancel]
    coordinator_store.advances_at [OF coordinator_store.advances_steer]
    coordinator_store.advances_at [OF coordinator_store.advances_resolveApproval]
  by (simp_all add: store_history_def)

lemma route_steps:
  "(store_step (cf_fingerprint (en_config en)))\<^sup>*\<^sup>* (store m) (store (snd (manager_serve en token hs rq m)))"
proof -
  have "(store_step (cf_fingerprint (en_config en)))\<^sup>*\<^sup>* (store m) (store (snd (manager_route en hs rq m)))"
    by (cases rq)
      (auto simp: post_run_def post_cancel_def post_steer_def post_resolve_def post_agent_def
        delete_agent_route_def post_workspace_def post_connection_def post_login_def login_end_def
        delete_connection_route_def get_runs_def get_run_def get_events_def get_attempts_def
        get_children_def get_approval_def get_session_def get_messages_def get_agents_def
        get_agent_def get_workspaces_def get_workspace_def get_connections_def with_principal_def
        with_run_def Let_def service_steps split: option.split sum.split
        intro!: store_act_steps intro: record_step.intros)
  then show ?thesis by (simp add: manager_serve_def split: option.split)
qed

lemma healthy_serve:
  assumes "healthy fp m" and "cf_fingerprint (en_config en) = fp" and "en_id en \<noteq> []"
    and "manager_serve en token hs q m = (resp, m')"
  shows "healthy fp m'"
proof -
  have m': "m' = snd (manager_serve en token hs q m)" using assms(4) by simp
  have "world (store m')"
    unfolding m' using route_confined [OF healthy_world [OF assms(1)] assms(3), of hs q]
      healthy_world [OF assms(1)]
    by (simp add: manager_serve_def confined_def split: option.split)
  moreover have "reachable fp (store m')"
    unfolding m' using assms(1) route_steps [of en m token hs q] assms(2)
    by (auto simp: healthy_def intro: reachable_steps)
  ultimately show ?thesis by (simp add: healthy_def world_def)
qed

section \<open>Runs a principal has access to\<close>

text \<open>What access means, independent of \<open>ownsRun\<close>: the run belongs to the owner of the credential and, when the
  credential names an agent or a workspace, to those.\<close>

definition bound_to :: "internal_principal \<Rightarrow> run_record \<Rightarrow> bool" where
  "bound_to p run \<longleftrightarrow> run_owner run = p_owner p
     \<and> (\<forall>a. p_agentId p = Some a \<longrightarrow> a \<noteq> [] \<longrightarrow> run_agentId run = a)
     \<and> (\<forall>w. p_workspaceId p = Some w \<longrightarrow> w \<noteq> [] \<longrightarrow> run_workspaceId run = w)"

lemma ownsRun_bound [simp]: "ownsRun run p \<longleftrightarrow> bound_to p run"
  by (cases "run_owner run"; cases "p_owner p"; cases "p_agentId p"; cases "p_workspaceId p")
     (auto simp: ownsRun_def bound_to_def truthy_def)

definition accessible :: "internal_principal \<Rightarrow> db \<Rightarrow> string \<Rightarrow> bool" where
  "accessible p d i \<longleftrightarrow> (\<exists>run. getRun i d = Some run \<and> bound_to p run)"

lemma bound_to_owner: "bound_to p run \<Longrightarrow> run_owner run = p_owner p"
  by (simp add: bound_to_def)

lemma bound_to_identity:
  assumes "identity r' = identity r"
  shows "bound_to p (toRunRecord r') = bound_to p (toRunRecord r)"
proof -
  have "bound_to p (toRunRecord r) = bound_to p (toRunRecord (identity r))" for r
    by (simp add: bound_to_def toRunRecord_def identity_def)
  then show ?thesis using assms by metis
qed

lemma accessible_row:
  "world d \<Longrightarrow> accessible p d i \<longleftrightarrow> (\<exists>r\<in>set (runs d). rr_id r = i \<and> bound_to p (toRunRecord r))"
  by (auto simp: accessible_def getRun_def world_def find_run_unique)

lemma accessible_mono:
  assumes ext: "extends_runs d d'" and "world d" "world d'" and acc: "accessible p d i"
  shows "accessible p d' i"
proof -
  from acc obtain r where r: "r \<in> set (runs d)" "rr_id r = i" "bound_to p (toRunRecord r)"
    using accessible_row [OF assms(2)] by auto
  obtain r' where "r' \<in> set (runs d')" "identity r' = identity r"
    using extends_runs_member [OF ext r(1)] .
  with r show ?thesis
    using accessible_row [OF assms(3)] bound_to_identity identity_columns(1) by metis
qed

lemma accessible_others:
  "healthy fp m \<Longrightarrow> others fp m m' \<Longrightarrow> accessible p (store m) i \<Longrightarrow> accessible p (store m') i"
  by (rule accessible_mono [OF extends_runs_steps])
    (auto simp: others_def intro: healthy_world healthy_others [unfolded others_def])

text \<open>Reading a run through the Manager.\<close>

definition targets :: "internal_principal \<Rightarrow> db \<Rightarrow> ipc_request \<Rightarrow> bool" where
  "targets p d q = (case q of
     PostCancel i \<Rightarrow> accessible p d i
   | PostSteer i s \<Rightarrow> accessible p d i
   | GetAttempts i \<Rightarrow> accessible p d i
   | GetChildren i \<Rightarrow> accessible p d i
   | GetEvents i after \<Rightarrow> accessible p d i
   | PostResolve i ok \<Rightarrow> \<exists>a. getApproval i d = Some a \<and> accessible p d (apr_runId a)
   | PostRun (Some rq) \<Rightarrow> rq_principal rq = p \<and> rq_parentRunId rq = None
       \<and> rq_createIfMissing rq = Some False
       \<and> (truthy (p_agentId p) = None \<or> p_agentId p = Some (rq_agent rq))
       \<and> (truthy (p_workspaceId p) = None \<or> p_workspaceId p = Some (rq_workspace rq))
   | PostAgent (Some rq) \<Rightarrow> ag_principal rq = p
   | PostWorkspace (Some rq) \<Rightarrow> wq_principal rq = p
   | PostConnection (Some rq) \<Rightarrow> cn_principal rq = p
   | PostLogin i (Some rq) \<Rightarrow> lg_principal rq = p
   | _ \<Rightarrow> True)"

lemma serve_headers:
  "manager_serve en token (principalHeaders token p) q m = manager_route en (principalHeaders token p) q m"
  by (simp add: manager_serve_def ipc_gate_def principalHeaders_def)

lemma header_principal:
  "requireInternalPrincipal (principalHeaders token p) = Some q \<Longrightarrow> p_owner q = p_owner p"
  by (drule principal_owner) (simp add: principalHeaders_def)

lemma get_run_answer:
  assumes "manager_serve en token (principalHeaders token p) (GetRun i) m = ((status, body), m')"
  shows "m' = m"
    and "status < 400 \<Longrightarrow> \<exists>run. body = RunBody (Some run) \<and> getRun i (store m) = Some run \<and> run_owner run = p_owner p"
  using assms
  by (auto simp: serve_headers get_run_def with_principal_def answer_def internal_error_def found_def
      not_found_def owned_run_Some split: option.splits dest: header_principal)

lemma get_approval_answer:
  assumes "manager_serve en token (principalHeaders token p) (GetApproval i) m = ((status, body), m')"
  shows "m' = m"
    and "status < 400 \<Longrightarrow> \<exists>a. body = ApprovalBody a \<and> getApproval i (store m) = Some a"
  using assms
  by (auto simp: serve_headers get_approval_def with_principal_def answer_def internal_error_def found_def
      not_found_def owned_approval_Some split: option.splits)

section \<open>Calls of a program\<close>

lemma run_ipc_call:
  assumes "gateway_run fp token p (ipc_call q caught k) m tr r m'"
  obtains m1 en status body m2 tr' where "others fp m m1" "cf_fingerprint (en_config en) = fp" "en_id en \<noteq> []"
    "manager_serve en token (principalHeaders token p) q m1 = ((status, body), m2)" "tr = (q, m1) # tr'"
    "400 \<le> status \<and> tr' = [] \<and> r = caught \<and> m' = m2
     \<or> status < 400 \<and> gateway_run fp token p (k body) m2 tr' r m'"
  using assms unfolding ipc_call_def
  by (elim gateway_callE) (fastforce split: if_splits elim: gateway_replyE)

lemma run_getRun_call:
  assumes "gateway_run fp token p (getRun_call i caught k) m tr r m'"
  obtains m1 tr' where "others fp m m1" "tr = (GetRun i, m1) # tr'"
    "tr' = [] \<and> r = caught \<and> m' = m1
     \<or> (\<exists>run. getRun i (store m1) = Some run \<and> run_owner run = p_owner p
        \<and> gateway_run fp token p (k run) m1 tr' r m')"
  using assms unfolding getRun_call_def
proof (rule run_ipc_call)
  fix m1 en status body m2 tr'
  assume o: "others fp m m1" "tr = (GetRun i, m1) # tr'"
    and serve: "manager_serve en token (principalHeaders token p) (GetRun i) m1 = ((status, body), m2)"
    and rest: "400 \<le> status \<and> tr' = [] \<and> r = caught \<and> m' = m2
     \<or> status < 400 \<and> gateway_run fp token p
         (case body of RunBody (Some run) \<Rightarrow> k run | _ \<Rightarrow> Reply internal_error) m2 tr' r m'"
  show thesis
    using get_run_answer [OF serve] rest by (intro that [OF o]) auto
qed

lemma run_forward_or:
  assumes "gateway_run fp token p (forward_or q caught) m tr r m'"
  obtains m1 en status body where "others fp m m1" "cf_fingerprint (en_config en) = fp" "en_id en \<noteq> []"
    "manager_serve en token (principalHeaders token p) q m1 = ((status, body), m')" "tr = [(q, m1)]"
    "r = caught \<or> status < 400 \<and> r = (200, body)"
  using assms unfolding forward_or_def
  by (elim run_ipc_call) (fastforce elim: gateway_replyE)

lemma run_forward:
  assumes "gateway_run fp token p (forward q st) m tr r m'"
  obtains m1 en status body where "others fp m m1" "cf_fingerprint (en_config en) = fp" "en_id en \<noteq> []"
    "manager_serve en token (principalHeaders token p) q m1 = ((status, body), m')" "tr = [(q, m1)]"
    "r = internal_error \<or> status < 400 \<and> r = (st, body)"
  using assms unfolding forward_def
  by (elim run_ipc_call) (fastforce elim: gateway_replyE)

end
