(* ===== verification/GatewayAnswers.thy ===== *)
theory GatewayAnswers
  imports GatewayRuns
begin

text \<open>
  What the Gateway shows: every answer to a principal holds data of its owner only, and, for runs,
  of the agent and workspace its token is bound to.
\<close>

fun visible :: "internal_principal \<Rightarrow> db \<Rightarrow> api_body \<Rightarrow> bool" where
  "visible p d (RunBody x) = (case x of None \<Rightarrow> True | Some r \<Rightarrow> bound_to p r)"
| "visible p d (CreatedBody c) = own_run (p_owner p) d (rs_runId c)"
| "visible p d (RunsBody rs) = list_all (bound_to p) rs"
| "visible p d (RunPageBody rs n) = list_all (bound_to p) rs"
| "visible p d (EventsBody es) = list_all (\<lambda>e. accessible p d (ev_runId e)) es"
| "visible p d (AttemptsBody as) = list_all (\<lambda>a. accessible p d (att_runId a)) as"
| "visible p d (ApprovalBody a) = accessible p d (apr_runId a)"
| "visible p d (SessionBody s) = (ses_owner s = p_owner p)"
| "visible p d (MessagesBody ms) = list_all (\<lambda>m. getSession (msg_sessionId m) (p_owner p) d \<noteq> None) ms"
| "visible p d (AgentBody x) = (case x of None \<Rightarrow> True | Some a \<Rightarrow> ap_owner a = p_owner p)"
| "visible p d (AgentsBody as) = list_all (\<lambda>a. ap_owner a = p_owner p) as"
| "visible p d (WorkspaceBody x) = (case x of None \<Rightarrow> True | Some w \<Rightarrow> ws_owner w = p_owner p)"
| "visible p d (WorkspacesBody ws) = list_all (\<lambda>w. ws_owner w = p_owner p) ws"
| "visible p d (ConnectionBody x) = (case x of None \<Rightarrow> True | Some c \<Rightarrow> pc_owner c = p_owner p)"
| "visible p d (ConnectionsBody cs) = list_all (\<lambda>c. pc_owner c = p_owner p) cs"
| "visible p d (DeletedBody i) = True"
| "visible p d (ErrorBody code) = True"

section \<open>Results of the operations\<close>

lemma bind_act_Inr:
  "bind_act f g m = (Inr b, m') \<longleftrightarrow> (\<exists>a m1. f m = (Inr a, m1) \<and> g a m1 = (Inr b, m'))"
  by (auto simp: bind_act_def split: prod.splits sum.splits)

lemma cancel_result:
  "cancelRun fuel now i m = (Inr (Some r), m') \<Longrightarrow> getRun i (store m') = Some r"
  by (cases fuel) (auto simp: bind_act_Inr gets_act_def split: option.splits if_splits)

lemma steer_result:
  "steerRun now mid i s m = (Inr (Some r), m') \<Longrightarrow> getRun i (store m') = Some r"
  by (auto simp: steerRun_def bind_act_Inr gets_act_def split: option.splits if_splits)

lemma resolve_as_result:
  assumes "resolve_as now a st m = (Inr (Some r), m')" and a: "getApproval (apr_id a) (store m) = Some a'"
  shows "apr_runId r = apr_runId a'" "approval_keys (store m') = approval_keys (store m)"
proof -
  obtain d where step: "resolveApprovalAndAppendEvent now (apr_id a) st (apr_executionDigest a)
      (resolution_payload (apr_id a) st (apr_executionDigest a)) (store m) = Inr (Some r, d)" and m': "m' = m\<lparr>store := d\<rparr>"
    using assms(1) by (auto simp: resolve_as_def store_act_def split: sum.splits prod.splits)
  obtain changed d1 where w: "resolve_within now (apr_id a) st (apr_executionDigest a) (store m) = (changed, d1)"
    by fastforce
  have "getApproval (apr_id a) d1 = Some r"
    using step w by (auto simp: resolveApprovalAndAppendEvent_def result_simps split: option.splits if_splits)
  with approval_keys_find [OF approval_keys_frame(3) [OF w] a] show "apr_runId r = apr_runId a'" by auto
  show "approval_keys (store m') = approval_keys (store m)" using resolve_keys [OF step] m' by simp
qed

lemma resolve_result:
  assumes a: "getApproval i (store m) = Some a"
    and step: "service_resolveApproval cf t1 t2 t3 i approved m = (Inr (Some r), m')"
  shows "apr_runId r = apr_runId a"
proof (cases "apr_status a = PENDING")
  case False
  with assms show ?thesis by (simp add: service_resolveApproval_def)
next
  case True
  have id: "apr_id a = i" using a by (auto simp: getApproval_def find_approval_def dest: find_SomeD)
  from step a True obtain valid st r1 m1 m2 where
    first: "resolve_as t2 a st m = (Inr r1, m1)"
    and second: "(if st = APPROVED \<and> is_pending r1 then resolve_as t3 a EXPIRED else return_act r1) m1 = (Inr (Some r), m2)"
    and valid: "lift_result id (approvalBindingIsCurrent cf a None (store m)) m = (Inr valid, m)"
    by (auto simp: service_resolveApproval_def bind_act_Inr Let_def lift_result_def throw_act_def return_act_def
        modify_act_def split: sum.splits)
  show ?thesis
  proof (cases "st = APPROVED \<and> is_pending r1")
    case True
    then obtain r' where r1: "r1 = Some r'" by (auto simp: is_pending_def split: option.splits)
    have "approval_keys (store m1) = approval_keys (store m)"
      using resolve_as_result(2) [OF first [unfolded r1]] a id by simp
    from approval_keys_find [OF this a] obtain a1 where a1: "getApproval i (store m1) = Some a1" "apr_runId a1 = apr_runId a"
      by auto
    from second True have "resolve_as t3 a EXPIRED m1 = (Inr (Some r), m2)" by simp
    from resolve_as_result(1) [OF this] a1 id show ?thesis by simp
  next
    case False
    with second have "r1 = Some r" by (auto simp: return_act_def)
    with resolve_as_result(1) [OF first [unfolded this]] a id show ?thesis by simp
  qed
qed

lemma keys_scoped:
  "reachable fp d \<Longrightarrow> \<forall>r\<in>set (runs d). \<exists>k. rr_idempotency_key r = scopedIdempotencyKey (userId (rr_owner r)) k"
proof (induction rule: reachable.induct)
  case start
  show ?case by (simp add: empty_db_def)
next
  case (step d d')
  let ?ok = "\<lambda>r. \<exists>k. rr_idempotency_key r = scopedIdempotencyKey (userId (rr_owner r)) k"
  have same: "\<forall>r\<in>set (runs d'). ?ok r" if "map identity (runs d') = map identity (runs d1)"
      "\<forall>r\<in>set (runs d1). ?ok r" for d1
  proof
    fix r assume "r \<in> set (runs d')"
    then have "identity r \<in> set (map identity (runs d1))" by (simp flip: that(1))
    then obtain q where "q \<in> set (runs d1)" "identity q = identity r" by auto
    moreover from this that(2) have "?ok q" by blast
    ultimately show "?ok r" using identity_columns(2,4) [of q r] by (simp add: run_key_def)
  qed
  from step.hyps(2) show ?case
  proof (cases rule: store_step_cases)
    case (create now ids i rq rec created)
    then show ?thesis
    proof (cases rule: createOrGetRun_cases)
      case (replay row)
      then show ?thesis using step.IH by simp
    next
      case c: (create row)
      from c(2) have "runs d' = runs d @ [row]" "rr_idempotency_key row = stored_key rq" "rr_owner row = rq_owner rq"
        by (rule create_run_cases, simp)+
      moreover from this have "?ok row" by (auto simp: stored_key_def)
      ultimately show ?thesis using step.IH by simp
    qed
  next
    case (append now ae e)
    from same [OF append_event_identity [OF append] step.IH] show ?thesis .
  next
    case (usage now i u rec)
    then have "map identity (runs d') = map identity (runs d)"
      by (rule recordUsage_cases) (simp add: map_update_rows_frame)
    from same [OF this step.IH] show ?thesis .
  next
    case (resolved now ae e d1)
    from same [OF append_event_identity [OF resolved(3)]] step.IH resolved(1) show ?thesis by simp
  next
    case quiet
    then show ?thesis using step.IH by simp
  qed
qed

lemma created_own:
  assumes r: "reachable fp d" and step: "createOrGetRun fp now ids i rq d = Inr ((rec, created), d')"
  shows "own_run (rq_owner rq) d' (run_id rec)"
  using step
proof (cases rule: createOrGetRun_cases)
  case (replay row)
  then have row: "row \<in> set (runs d)" "appId (rr_owner row) = appId (rq_owner rq)"
    "tenantId (rr_owner row) = tenantId (rq_owner rq)" "rr_idempotency_key row = stored_key rq"
    by (auto simp: find_existing_run_def dest: find_SomeD)
  with keys_scoped [OF r] have "userId (rr_owner row) = userId (rq_owner rq)"
    by (auto simp: stored_key_def scopedIdempotencyKey_inj)
  with row have "rr_owner row = rq_owner rq" by (cases "rr_owner row"; cases "rq_owner rq") simp
  moreover have "find_run (rr_id row) d = Some row"
    using row(1) find_run_unique [OF reachable_runs_inv [OF r]] by simp
  ultimately show ?thesis using replay by (auto simp: own_run_def toRunRecord_def)
next
  case (create row)
  from create(2) have "runs d' = runs d @ [row]" "\<forall>r\<in>set (runs d). rr_id r \<noteq> i" "rr_id row = i"
      "rr_owner row = rq_owner rq"
    by (rule create_run_cases, simp)+
  then show ?thesis
    using create(3) by (auto simp: own_run_def find_run_def find_append toRunRecord_def find_None_iff split: option.split dest: find_SomeD)
qed

section \<open>Answers of the Manager\<close>

lemma serve_steps:
  "(store_step (cf_fingerprint (en_config en)))\<^sup>*\<^sup>* (store m) (store m')"
  if "manager_serve en token hs q m = (resp, m')"
  using route_steps [of en m token hs q] that by simp

lemma accessible_serve:
  assumes "healthy fp m" and "cf_fingerprint (en_config en) = fp" and "en_id en \<noteq> []"
    and serve: "manager_serve en token hs q m = (resp, m')" and "accessible p (store m) i"
  shows "accessible p (store m') i"
  by (rule accessible_mono [OF extends_runs_steps [OF serve_steps [OF serve]]
      healthy_world [OF assms(1)] healthy_world [OF healthy_serve [OF assms(1-4)]] assms(5)])

lemma run_visible:
  "accessible p d i \<Longrightarrow> getRun i d = Some r \<Longrightarrow> bound_to p r"
  by (auto simp: accessible_def)

text \<open>A page is a prefix of what the log holds after the cursor, empty only when there is nothing.\<close>

lemma page_prefix:
  assumes "service_listEvents cf i after m = Inr page"
  shows "\<exists>n. page = take n (listEvents i after 256 (store m))"
    and "listEvents i after 256 (store m) \<noteq> [] \<Longrightarrow> page \<noteq> []"
proof -
  let ?es = "take 256 (listEvents i after 256 (store m))"
  have loop: "page_loop (cf_event_bytes cf) EVENT_PAGE_MAX_BYTES [] 13 ?es = Inr page"
    using assms by (simp add: service_listEvents_def boundedEventBatch_def EVENT_PAGE_LIMIT_def split: if_splits)
  have es: "?es = listEvents i after 256 (store m)"
    by (simp add: listEvents_def sql_limit_def)
  have "page_bytes (cf_event_bytes cf) [] = 13" by (simp add: page_bytes_def)
  with page_loop_ok [of "cf_event_bytes cf" EVENT_PAGE_MAX_BYTES "[]" ?es page] loop
  show "\<exists>n. page = take n (listEvents i after 256 (store m))" by (auto simp: es)
  have grow: "pg0 \<noteq> [] \<Longrightarrow> page_loop b mx pg0 n es = Inr pg \<Longrightarrow> pg \<noteq> []" for b mx pg0 n es pg
    by (induction es arbitrary: pg0 n) (auto simp: Let_def split: if_splits)
  with loop show "listEvents i after 256 (store m) \<noteq> [] \<Longrightarrow> page \<noteq> []"
    by (cases "listEvents i after 256 (store m)") (auto simp: Let_def es split: if_splits dest: grow [rotated])
qed

lemma page_of_run:
  assumes "service_listEvents cf i after m = Inr page"
  shows "list_all (\<lambda>e. ev_runId e = i) page"
proof -
  have "set (listEvents i after n d) \<subseteq> {e. ev_runId e = i}" for n d
    using set_sql_limit by (fastforce simp: listEvents_def)
  with page_prefix(1) [OF assms] show ?thesis by (force simp: list_all_iff dest!: in_set_takeD)
qed

text \<open>The answer to the loop of an event stream.\<close>

lemma get_events_answer:
  assumes "manager_serve en token (principalHeaders token p) (GetEvents i after) m = ((status, body), m')" and "status < 400"
  shows "m' = m \<and> (\<exists>page. body = EventsBody page \<and> list_all (\<lambda>e. ev_runId e = i) page)"
  using assms page_of_run
  by (auto simp: serve_headers get_events_def with_principal_def with_run_def answer_def internal_error_def not_found_def
      split: option.splits sum.splits)

text \<open>Lookups and lists by owner.\<close>

lemma owner_lookups:
  "getAgentProfile i ow d = Some a \<Longrightarrow> ap_owner a = ow" "a' \<in> set (listAgentProfiles ow d) \<Longrightarrow> ap_owner a' = ow"
  "getWorkspace i ow d = Some w \<Longrightarrow> ws_owner w = ow" "w' \<in> set (listWorkspaces ow d) \<Longrightarrow> ws_owner w' = ow"
  "getProviderConnection i ow d = Some c \<Longrightarrow> pc_owner c = ow"
  "c' \<in> set (listProviderConnections ow d) \<Longrightarrow> pc_owner c' = ow"
  "getSession i ow d = Some s \<Longrightarrow> ses_owner s = ow"
  "m \<in> set (listSessionMessages i ow n d) \<Longrightarrow> msg_sessionId m = i"
  by (auto simp: getAgentProfile_def find_agent_def toAgentProfile_def listAgentProfiles_def
      getWorkspace_def find_workspace_def toWorkspace_def listWorkspaces_def
      getProviderConnection_def find_connection_def toProviderConnection_def listProviderConnections_def
      getSession_def find_session_def toSession_def listSessionMessages_def toMessage_def
      dest!: find_SomeD)

lemma record_results:
  "createAgentProfile n r d = Inr (Some a, d') \<Longrightarrow> ap_owner a = ap_owner r"
  "createWorkspace n w d = Inr (Some x, d') \<Longrightarrow> ws_owner x = ws_owner w"
  "createProviderConnection n c d = Inr (Some y, d') \<Longrightarrow> pc_owner y = pc_owner c"
  "updateProviderConnection now i ow st err d = Inr (Some z, d') \<Longrightarrow> pc_owner z = ow"
  by (auto simp: createAgentProfile_def createWorkspace_def createProviderConnection_def
      updateProviderConnection_def result_simps Let_def split: if_splits dest: owner_lookups)

text \<open>What a route answers, for a request whose target the principal has access to.\<close>

lemma route_visible:
  assumes h: "healthy fp m" and cf: "cf_fingerprint (en_config en) = fp" "en_id en \<noteq> []"
    and serve: "manager_serve en token (principalHeaders token p) q m = ((status, body), m')"
    and ok: "status < 400" and target: "targets p (store m) q"
    and kind: "q \<notin> range GetRun \<union> range GetChildren \<union> range GetApproval \<union> range GetRuns"
  shows "visible p (store m') body"
proof -
  have route: "manager_route en (principalHeaders token p) q m = ((status, body), m')"
    using serve by (simp add: serve_headers)
  have owner: "p_owner pr = p_owner p" if "requireInternalPrincipal (principalHeaders token p) = Some pr" for pr
    using that by (rule header_principal)
  note acc = accessible_serve [OF h cf serve]
  note plain = with_principal_def with_run_def answer_def internal_error_def not_found_def found_def
    invalid_request_def
  show ?thesis
  proof (cases q)
    case (PostRun b)
    then obtain rq pr where b: "b = Some rq" and pr: "requireInternalPrincipal (principalHeaders token p) = Some pr"
      and create: "serve (service_createRun (en_config en) (en_now en) (en_ids en) (en_id en) (rq\<lparr>rq_principal := pr\<rparr>))
        (\<lambda>res. (202, CreatedBody res)) m = ((status, body), m')"
      using route ok by (auto simp: post_run_def plain split: option.splits if_splits)
    from create ok obtain rec created d where
      "createOrGetRun (cf_fingerprint (en_config en)) (en_now en) (en_ids en) (en_id en)
         (rq\<lparr>rq_principal := pr\<rparr>) (store m) = Inr ((rec, created), d)"
      "store m' = d" "\<exists>c. body = CreatedBody c \<and> rs_runId c = run_id rec"
      by (auto simp: serve_def service_createRun_def bind_act_def store_act_def modify_act_def return_act_def
          internal_error_def split: if_splits sum.splits prod.splits)
    with created_own [of fp "store m"] h cf(1) owner [OF pr] show ?thesis
      by (fastforce simp: healthy_def rq_owner_def)
  next
    case (GetEvents i after)
    with route ok have "\<exists>page. body = EventsBody page \<and> m' = m
        \<and> service_listEvents (en_config en) i (boundedInteger after 0 MAX_SAFE_INTEGER 0) m = Inr page"
      by (auto simp: get_events_def plain split: option.splits sum.splits)
    with GetEvents target page_of_run show ?thesis by (fastforce simp: targets_def list_all_iff)
  next
    case (GetAttempts i)
    with route ok have "body = AttemptsBody (listRunAttempts i (store m)) \<and> m' = m"
      by (auto simp: get_attempts_def plain split: option.splits)
    with GetAttempts target show ?thesis by (auto simp: targets_def list_all_iff listRunAttempts_def)
  next
    case (PostCancel i)
    with route ok have "\<exists>r. body = RunBody (Some r) \<and> getRun i (store m') = Some r"
      by (auto simp: post_cancel_def plain serve_def split: option.splits sum.splits prod.splits dest: cancel_result)
    with acc [of p i] PostCancel target run_visible show ?thesis by (auto simp: targets_def)
  next
    case (PostSteer i s)
    with route ok have "\<exists>x. body = RunBody x \<and> (\<forall>r. x = Some r \<longrightarrow> getRun i (store m') = Some r)"
      by (auto simp: post_steer_def plain serve_catching_def split: option.splits sum.splits prod.splits if_splits
          dest: steer_result)
    with acc [of p i] PostSteer target run_visible show ?thesis by (auto simp: targets_def split: option.split)
  next
    case (PostResolve i approved)
    from PostResolve target obtain a where a: "getApproval i (store m) = Some a" "accessible p (store m) (apr_runId a)"
      by (auto simp: targets_def)
    with PostResolve route ok have "\<exists>r. body = ApprovalBody r \<and> apr_runId r = apr_runId a"
      by (auto simp: post_resolve_def plain serve_def owned_approval_Some
          split: option.splits sum.splits prod.splits if_splits dest: resolve_result)
    with acc [OF a(2)] show ?thesis by auto
  next
    case (GetSession i)
    with route ok owner show ?thesis
      by (auto simp: get_session_def plain split: option.splits dest: owner_lookups)
  next
    case (GetMessages i)
    with route ok owner show ?thesis
      by (auto simp: get_messages_def plain list_all_iff split: option.splits dest!: owner_lookups(8))
  next
    case (PostAgent b)
    with route ok owner show ?thesis
      by (auto simp: post_agent_def plain serve_def store_act_def new_agent_def
          split: option.splits sum.splits prod.splits if_splits dest!: record_results)
  next
    case GetAgents
    with route ok owner show ?thesis
      by (auto simp: get_agents_def plain list_all_iff split: option.splits dest: owner_lookups)
  next
    case (GetAgent i)
    with route ok owner show ?thesis
      by (auto simp: get_agent_def plain split: option.splits dest: owner_lookups)
  next
    case (DeleteAgent i)
    with route ok show ?thesis
      by (auto simp: delete_agent_route_def plain serve_def split: option.splits sum.splits prod.splits if_splits)
  next
    case (PostWorkspace b)
    with route ok owner show ?thesis
      by (auto simp: post_workspace_def plain serve_def store_act_def new_workspace_def
          split: option.splits sum.splits prod.splits if_splits dest!: record_results)
  next
    case GetWorkspaces
    with route ok owner show ?thesis
      by (auto simp: get_workspaces_def plain list_all_iff split: option.splits dest: owner_lookups)
  next
    case (GetWorkspace i)
    with route ok owner show ?thesis
      by (auto simp: get_workspace_def plain split: option.splits dest: owner_lookups)
  next
    case GetConnections
    with route ok owner show ?thesis
      by (auto simp: get_connections_def plain list_all_iff split: option.splits dest: owner_lookups)
  next
    case (PostConnection b)
    with route ok owner show ?thesis
      by (auto simp: post_connection_def plain serve_catching_def store_act_def new_connection_def
          split: option.splits sum.splits prod.splits if_splits dest!: record_results)
  next
    case (PostLogin i b)
    with route ok owner show ?thesis
      by (auto simp: post_login_def login_end_def plain serve_def store_act_def
          split: option.splits sum.splits prod.splits if_splits dest!: record_results)
  next
    case (DeleteConnection i)
    with route ok show ?thesis
      by (auto simp: delete_connection_route_def plain serve_catching_def
          split: option.splits sum.splits prod.splits if_splits)
  qed (use kind in auto)
qed

end
