(* ===== verification/GatewayProperties.thy ===== *)
theory GatewayProperties
  imports GatewayAnswers
begin

text \<open>
  What the Gateway promises its clients: a credential acts only on runs it owns and, when it is
  bound to an agent or a workspace, only on runs of those; every answer shows data of its owner;
  failed authentication is limited; the event stream delivers the log once and in order.
\<close>

section \<open>Acting on runs\<close>

text \<open>A route that reads the run first and refuses runs the principal has no access to.\<close>

lemma run_owned:
  assumes h: "healthy fp m"
    and run: "gateway_run fp token p (getRun_call i caught
      (\<lambda>run. if \<not> ownsRun run p then Reply refused else k run)) m tr r m'"
  obtains (stopped) m1 where "others fp m m1" "healthy fp m1" "tr = [(GetRun i, m1)]" "r = caught \<or> r = refused"
  | (owned) m1 run tr' where "others fp m m1" "healthy fp m1" "tr = (GetRun i, m1) # tr'" "run_id run = i"
      "accessible p (store m1) i" "gateway_run fp token p (k run) m1 tr' r m'"
  using run
proof (rule run_getRun_call)
  fix m1 tr' assume o: "others fp m m1" "tr = (GetRun i, m1) # tr'"
    and rest: "tr' = [] \<and> r = caught \<and> m' = m1
     \<or> (\<exists>run. getRun i (store m1) = Some run \<and> run_owner run = p_owner p
        \<and> gateway_run fp token p (if \<not> ownsRun run p then Reply refused else k run) m1 tr' r m')"
  have h1: "healthy fp m1" by (rule healthy_others [OF h o(1)])
  from rest show thesis
  proof (elim disjE exE conjE)
    fix run assume run: "getRun i (store m1) = Some run"
      and cont: "gateway_run fp token p (if \<not> ownsRun run p then Reply refused else k run) m1 tr' r m'"
    have "run_id run = i" using run by (auto simp: getRun_def toRunRecord_def dest: find_run_SomeD)
    with h1 o run cont show thesis
      by (cases "bound_to p run") (auto simp: accessible_def elim: gateway_replyE intro: stopped owned)
  qed (use h1 o stopped in simp)
qed

lemma targets_reads [simp]:
  "targets p d (GetRun i)" "targets p d (GetApproval i)" "targets p d (GetSession i)"
  "targets p d (GetMessages i)" "targets p d GetAgents" "targets p d (GetAgent i)"
  "targets p d GetWorkspaces" "targets p d (GetWorkspace i)" "targets p d GetConnections"
  "targets p d (DeleteConnection i)" "targets p d (PostAgent (Some (a\<lparr>ag_principal := p\<rparr>)))"
  "targets p d (PostWorkspace (Some (w\<lparr>wq_principal := p\<rparr>)))"
  "targets p d (PostConnection (Some (c\<lparr>cn_principal := p\<rparr>)))"
  "targets p d (PostLogin i (Some (l\<lparr>lg_principal := p\<rparr>)))"
  by (simp_all add: targets_def)

lemma targets_access:
  "accessible p d i \<Longrightarrow> targets p d (PostCancel i)" "accessible p d i \<Longrightarrow> targets p d (PostSteer i s)"
  "accessible p d i \<Longrightarrow> targets p d (GetAttempts i)" "accessible p d i \<Longrightarrow> targets p d (GetChildren i)"
  by (simp_all add: targets_def)

text \<open>The rounds of an event stream ask for the events of the one run and write nothing else.\<close>

lemma stream_rounds_within:
  assumes "gateway_run fp token p (stream_rounds n i c written) m tr r m'" and "healthy fp m" and "accessible p (store m) i"
    and "list_all (\<lambda>e. ev_runId e = i) written"
  shows "(\<forall>(q, m1) \<in> set tr. targets p (store m1) q) \<and> accessible p (store m') i
    \<and> (\<exists>es. r = (200, EventsBody es) \<and> list_all (\<lambda>e. ev_runId e = i) es)"
  using assms
proof (induction n arbitrary: c written m tr)
  case 0
  then show ?case by (auto elim: gateway_replyE)
next
  case (Suc n)
  note h = Suc.prems(2) and acc = Suc.prems(3) and written = Suc.prems(4)
  from Suc.prems(1) obtain m1 en status body m2 tr' where o1: "others fp m m1" and en: "cf_fingerprint (en_config en) = fp" "en_id en \<noteq> []"
    and serve: "manager_serve en token (principalHeaders token p) (events_call i c) m1 = ((status, body), m2)"
    and tr: "tr = (events_call i c, m1) # tr'"
    and rest: "400 \<le> status \<and> tr' = [] \<and> r = (200, EventsBody written) \<and> m' = m2
     \<or> status < 400 \<and> gateway_run fp token p (case body of
         EventsBody page \<Rightarrow> getRun_call i (200, EventsBody (written @ page)) (\<lambda>run.
           if stream_done run (next_cursor c page) then Reply (200, EventsBody (written @ page))
           else stream_rounds n i (next_cursor c page) (written @ page))
       | _ \<Rightarrow> Reply internal_error) m2 tr' r m'"
    unfolding stream_rounds.simps by (rule run_ipc_call)
  have h1: "healthy fp m1" by (rule healthy_others [OF h o1])
  have acc1: "accessible p (store m1) i" by (rule accessible_others [OF h o1 acc])
  note h2 = healthy_serve [OF h1 en serve] and acc2 = accessible_serve [OF h1 en serve acc1]
  have target: "targets p (store m1) (events_call i c)" using acc1 by (simp add: targets_def events_call_def)
  show ?case
  proof (cases "400 \<le> status")
    case True
    with rest tr target acc2 written show ?thesis by auto
  next
    case False
    from False get_events_answer [OF serve [unfolded events_call_def]] obtain page where
      page: "body = EventsBody page" "list_all (\<lambda>e. ev_runId e = i) page" by auto
    from False rest page(1) have "gateway_run fp token p (getRun_call i (200, EventsBody (written @ page)) (\<lambda>run.
        if stream_done run (next_cursor c page) then Reply (200, EventsBody (written @ page))
        else stream_rounds n i (next_cursor c page) (written @ page))) m2 tr' r m'" by auto
    then obtain m3 tr2 where o3: "others fp m2 m3" and tr': "tr' = (GetRun i, m3) # tr2"
      and next_round: "tr2 = [] \<and> r = (200, EventsBody (written @ page)) \<and> m' = m3
       \<or> (\<exists>run. gateway_run fp token p (if stream_done run (next_cursor c page) then Reply (200, EventsBody (written @ page))
          else stream_rounds n i (next_cursor c page) (written @ page)) m3 tr2 r m')"
      by (rule run_getRun_call) blast
    have h3: "healthy fp m3" by (rule healthy_others [OF h2 o3])
    have acc3: "accessible p (store m3) i" by (rule accessible_others [OF h2 o3 acc2])
    have written': "list_all (\<lambda>e. ev_runId e = i) (written @ page)" using written page(2) by simp
    from next_round have "tr2 = [] \<and> r = (200, EventsBody (written @ page)) \<and> m' = m3
       \<or> gateway_run fp token p (stream_rounds n i (next_cursor c page) (written @ page)) m3 tr2 r m'"
      by (auto split: if_splits elim: gateway_replyE)
    then have "(\<forall>(q, m1) \<in> set tr2. targets p (store m1) q) \<and> accessible p (store m') i
        \<and> (\<exists>es. r = (200, EventsBody es) \<and> list_all (\<lambda>e. ev_runId e = i) es)"
      using Suc.IH [OF _ h3 acc3 written'] acc3 written' by fastforce
    with tr tr' target show ?thesis by (auto simp: targets_reads)
  qed
qed

lemma events_within:
  assumes h: "healthy fp m" and run: "gateway_run fp token p (http_events p i after rounds) m tr r m'"
  shows "(\<forall>(q, m1) \<in> set tr. targets p (store m1) q) \<and> visible p (store m') (snd r)"
proof (cases "parseCursor after")
  case None
  with run show ?thesis by (auto simp: http_events_def elim: gateway_replyE)
next
  case (Some cursor)
  from h run [unfolded http_events_def Some option.case] show ?thesis
  proof (cases rule: run_owned)
    case (owned m1 run tr')
    from stream_rounds_within [OF owned(6,2,5)] owned(3) show ?thesis by (auto simp: list_all_iff)
  qed (auto simp: not_found_def)
qed

lemma run_then_forward:
  assumes h: "healthy fp m" and run: "gateway_run fp token p (getRun_call i caught (\<lambda>run. if \<not> ownsRun run p
      then Reply refused else forward_or (q run) caught')) m tr r m'"
    and q: "\<And>run d. run_id run = i \<Longrightarrow> accessible p d i \<Longrightarrow> targets p d (q run)"
  shows "\<forall>(q, m1) \<in> set tr. targets p (store m1) q"
  using h run
proof (cases rule: run_owned)
  case (owned m1 run tr')
  from owned(6) obtain m2 where m2: "others fp m1 m2" "tr' = [(q run, m2)]" by (rule run_forward_or)
  show ?thesis using q [OF owned(4) accessible_others [OF owned(2) m2(1) owned(5)]] owned(3) m2(2) by simp
qed simp

lemma children_targets:
  assumes h: "healthy fp m" and run: "gateway_run fp token p (http_children p i) m tr r m'"
  shows "\<forall>(q, m1) \<in> set tr. targets p (store m1) q"
  using h run unfolding http_children_def
proof (cases rule: run_owned)
  case (owned m1 run tr')
  from owned(6) obtain m2 tr'' where m2: "others fp m1 m2" "tr' = (GetChildren (run_id run), m2) # tr''" "tr'' = []"
    by (elim run_ipc_call) (fastforce elim: gateway_replyE split: api_body.splits)
  show ?thesis
    using accessible_others [OF owned(2) m2(1) owned(5)] owned(3,4) m2(2,3) by (simp add: targets_def)
qed simp

lemma forward_targets:
  assumes "gateway_run fp token p (forward q st) m tr r m'" and "\<And>d. targets p d q"
  shows "\<forall>(q, m1) \<in> set tr. targets p (store m1) q"
  using assms(1) by (rule run_forward) (simp add: assms(2))

lemma forward_or_targets:
  assumes "gateway_run fp token p (forward_or q caught) m tr r m'" and "\<And>d. targets p d q"
  shows "\<forall>(q, m1) \<in> set tr. targets p (store m1) q"
  using assms(1) by (rule run_forward_or) (simp add: assms(2))

lemma reply_targets:
  "gateway_run fp token p (Reply r') m tr r m' \<Longrightarrow> \<forall>(q, m1) \<in> set tr. targets p (store m1) q"
  by (auto elim: gateway_replyE)

lemmas simple_targets = forward_targets forward_or_targets reply_targets

lemma steer_targets:
  assumes h: "healthy fp m" and run: "gateway_run fp token p (http_steer p i s) m tr r m'"
  shows "\<forall>(q, m1) \<in> set tr. targets p (store m1) q"
  using h run unfolding http_steer_def
proof (cases rule: run_owned)
  case (owned m1 run tr')
  from owned(6) consider "tr' = []"
    | x m2 where "others fp m1 m2" "tr' = [(PostSteer (run_id run) (Some x), m2)]"
    by (cases s) (auto elim: gateway_replyE run_forward_or split: if_splits)
  then show ?thesis
  proof cases
    case (2 x m2)
    then show ?thesis
      using accessible_others [OF owned(2) 2(1) owned(5)] owned(3,4) by (simp add: targets_def)
  qed (use owned(3) in simp)
qed simp

text \<open>An approval is decided only for an accessible run: the approval keeps its run.\<close>

lemma approval_others:
  assumes "others fp m m'" and "getApproval i (store m) = Some a"
  shows "\<exists>a'. getApproval i (store m') = Some a' \<and> apr_runId a' = apr_runId a"
proof -
  have "grows keeps_approval (approvals (store m)) (approvals (store m'))"
    using assms(1) tables_grow_steps by (auto simp: others_def tables_grow_def)
  from grows_find [OF this, of "\<lambda>a. apr_id a = i" a] assms(2) show ?thesis
    by (auto simp: getApproval_def find_approval_def keeps_approval_def)
qed

lemma run_approval:
  assumes h: "healthy fp m" and run: "gateway_run fp token p (http_approval p i (Some ok)) m tr r m'"
  obtains (stopped) "\<forall>(q, m1) \<in> set tr. targets p (store m1) q" "r = not_found"
  | (owned) a :: approval_record and m3 tr1 tr2 where "healthy fp m3" "tr = tr1 @ tr2" "\<forall>(q, m1) \<in> set tr1. targets p (store m1) q"
      "gateway_run fp token p (forward_or (PostResolve (apr_id a) (Some ok)) not_found) m3 tr2 r m'"
      "\<And>m4. others fp m3 m4 \<Longrightarrow> targets p (store m4) (PostResolve (apr_id a) (Some ok))"
proof -
  let ?rest = "\<lambda>a. getRun_call (apr_runId a) not_found (\<lambda>run. if \<not> ownsRun run p then Reply not_found
      else forward_or (PostResolve (apr_id a) (Some ok)) not_found)"
  from run obtain m1 en status body m2 tr' where o: "others fp m m1" and tr: "tr = (GetApproval i, m1) # tr'"
    and serve: "manager_serve en token (principalHeaders token p) (GetApproval i) m1 = ((status, body), m2)"
    and rest: "400 \<le> status \<and> tr' = [] \<and> r = not_found \<or> status < 400 \<and> gateway_run fp token p
      (case body of ApprovalBody a \<Rightarrow> ?rest a | _ \<Rightarrow> Reply internal_error) m2 tr' r m'"
    by (auto simp: http_approval_def simp del: ownsRun_bound elim!: run_ipc_call)
  note ans = get_approval_answer [OF serve]
  have h1: "healthy fp m1" by (rule healthy_others [OF h o])
  show thesis
  proof (cases "400 \<le> status")
    case True
    with rest tr show thesis by (intro stopped) auto
  next
    case False
    with ans(2) obtain a where a: "body = ApprovalBody a" "getApproval i (store m1) = Some a" by auto
    then have id: "apr_id a = i" by (auto simp: getApproval_def find_approval_def dest: find_SomeD)
    from rest False a(1) ans(1) have "gateway_run fp token p (?rest a) m1 tr' r m'" by simp
    with h1 show thesis
    proof (cases rule: run_owned)
      case (stopped m3)
      with tr show thesis by (intro that(1)) auto
    next
      case (owned m3 run tr'')
      obtain a3 where a3: "getApproval i (store m3) = Some a3" "apr_runId a3 = apr_runId a"
        using approval_others [OF owned(1) a(2)] by auto
      have "targets p (store m4) (PostResolve (apr_id a) (Some ok))" if m4: "others fp m3 m4" for m4
        using approval_others [OF m4 a3(1)] a3(2) accessible_others [OF owned(2) m4 owned(5)] id
        by (auto simp: targets_def)
      with owned(2,6) tr owned(3) show thesis
        by (intro that(2) [of m3 "[(GetApproval i, m1), (GetRun (apr_runId a), m3)]" tr'' a]) auto
    qed
  qed
qed

lemma approval_targets:
  assumes h: "healthy fp m" and run: "gateway_run fp token p (http_approval p i approved) m tr r m'"
  shows "\<forall>(q, m1) \<in> set tr. targets p (store m1) q"
proof (cases approved)
  case None
  with run show ?thesis by (auto simp: http_approval_def elim: gateway_replyE)
next
  case (Some ok)
  from h run [unfolded Some] show ?thesis
  proof (cases rule: run_approval)
    case (owned a m3 tr1 tr2)
    from owned(4) obtain m4 where "others fp m3 m4" "tr2 = [(PostResolve (apr_id a) (Some ok), m4)]"
      by (rule run_forward_or)
    with owned(2,3,5) show ?thesis by auto
  qed
qed

lemma post_run_targets:
  assumes "gateway_run fp token p (http_post_run uuid p body header) m tr r m'"
  shows "\<forall>(q, m1) \<in> set tr. targets p (store m1) q"
proof -
  have "targets p d (PostRun (Some (start_request p b key)))" if "\<not> exceeds_binding p b" for d b key
    using that by (auto simp: targets_def start_request_def exceeds_binding_def)
  then show ?thesis
    using assms simple_targets [where p = p]
    by (auto simp: http_post_run_def Let_def split: option.splits if_splits)
qed

text \<open>C14: A credential acts only within its binding. Whatever a client asks the Gateway for (also for a stream of events,
  however long it stays), the run that is cancelled or steered, whose approval is decided, or whose events, attempts or
  children are read, is at the moment of the call a run of the owner of the credential, and of the agent and the
  workspace it is bound to; a run that is started is for that agent and workspace, a root run, of agents and workspaces that
  exist; and what is started or created is for its own principal. Of the reads, \<open>GetRun\<close> and
  \<open>GetApproval\<close> are exempt, since they come before the check, and so are the reads and the
  deletion that the Manager itself restricts to the owner (sessions, messages, agents, workspaces, connections); what they may
  answer is the next property. All this holds whatever the Manager and the other clients do between the calls of the
  request.\<close>

theorem gateway_acts_within_binding:
  assumes "reachable fp (store m)" and "[] \<notin> rr_id ` set (runs (store m))"
    and "gateway_run fp token p (gateway_handle uuid p rq) m trace r m'"
  shows "\<forall>(q, m1) \<in> set trace. targets p (store m1) q"
proof -
  have h: "healthy fp m" using assms(1,2) by (simp add: healthy_def)
  have "\<forall>(q, m1) \<in> set trace. targets p (store m1) q" if "gateway_run fp token p (http_handler uuid p rq) m trace r m'"
  proof (cases rq)
    case (HttpPostRun body header)
    with that show ?thesis by (simp add: post_run_targets)
  next
    case (HttpGetRun i)
    with that show ?thesis by (auto simp: http_get_run_def elim!: run_getRun_call gateway_replyE)
  next
    case (HttpEvents i after rounds)
    with that events_within [OF h] show ?thesis by simp
  next
    case (HttpCancel i)
    with that run_then_forward [OF h, where q = "\<lambda>run. PostCancel i" and i = i] show ?thesis
      by (simp add: http_cancel_def targets_access)
  next
    case (HttpAttempts i)
    with that run_then_forward [OF h, where q = "\<lambda>run. GetAttempts (run_id run)" and i = i] show ?thesis
      by (simp add: http_attempts_def targets_access)
  next
    case (HttpSteer i s)
    with that steer_targets [OF h] show ?thesis by simp
  next
    case (HttpChildren i)
    with that children_targets [OF h] show ?thesis by simp
  next
    case (HttpApproval i ok)
    with that approval_targets [OF h] show ?thesis by simp
  qed (use that in \<open>auto simp: http_messages_def http_post_def split: option.splits
      elim!: run_ipc_call run_forward run_forward_or gateway_replyE\<close>)
  then show ?thesis
    using assms(3)
    by (auto simp: gateway_handle_def elim: gateway_replyE split: prod.splits option.splits if_splits)
qed

definition bound_principal :: internal_principal where
  "bound_principal = example_principal\<lparr>p_scopes := [''runs:cancel'', ''runs:read'', ''runs:create''],
     p_agentId := Some ''ag''\<rparr>"

lemma gateway_acts_within_binding_witness:
  "\<exists>trace r m'. gateway_run example_fp ''secret'' bound_principal
      (gateway_handle ''uuid'' bound_principal (HttpCancel ''run_1'')) (manager_of db1) trace r m'
    \<and> length trace = 2 \<and> fst r = 200
    \<and> (\<forall>(q, m1) \<in> set trace. targets bound_principal (store m1) q)"
proof -
  let ?run = "run_alone (gateway_handle ''uuid'' bound_principal (HttpCancel ''run_1'')) example_env ''secret''
      bound_principal (manager_of db1)"
  obtain trace r m' where run: "?run = (trace, r, m')" by (cases ?run)
  have "length (fst ?run) = 2" "fst (fst (snd ?run)) = 200"
    and ids: "[] \<notin> rr_id ` set (runs (store (manager_of db1)))" by code_simp+
  with run have "length trace = 2" "fst r = 200" by simp_all
  moreover have step: "gateway_run example_fp ''secret'' bound_principal
      (gateway_handle ''uuid'' bound_principal (HttpCancel ''run_1'')) (manager_of db1) trace r m'"
    by (rule gateway_run_alone [OF _ _ run]) (simp_all add: example_env_def example_config_def)
  moreover have "reachable example_fp (store (manager_of db1))" using db_reachable(1) by (simp add: manager_of_def)
  from gateway_acts_within_binding [OF this ids step] have "\<forall>(q, m1) \<in> set trace. targets bound_principal (store m1) q" .
  ultimately show ?thesis by blast
qed

section \<open>Answers\<close>

lemma refusals_visible [simp]:
  "visible p d (snd internal_error)" "visible p d (snd not_found)" "visible p d (snd not_active)"
  "visible p d (snd invalid_request)"
  by (simp_all add: internal_error_def not_found_def not_active_def invalid_request_def)

lemma forward_visible:
  assumes h: "healthy fp m" and run: "gateway_run fp token p (forward q st) m tr r m'
      \<or> gateway_run fp token p (forward_or q caught) m tr r m'"
    and caught: "\<And>d. visible p d (snd caught)"
    and target: "\<And>m1. others fp m m1 \<Longrightarrow> targets p (store m1) q"
    and kind: "q \<notin> range GetRun \<union> range GetChildren \<union> range GetApproval \<union> range GetRuns"
  shows "visible p (store m') (snd r)"
proof -
  obtain m1 en status body where o: "others fp m m1" and en: "cf_fingerprint (en_config en) = fp" "en_id en \<noteq> []"
    and serve: "manager_serve en token (principalHeaders token p) q m1 = ((status, body), m')"
    and r: "r = caught \<or> r = internal_error \<or> status < 400 \<and> snd r = body"
    using run by (elim disjE run_forward run_forward_or) fastforce+
  from r route_visible [OF healthy_others [OF h o] en serve _ target [OF o] kind] caught show ?thesis by auto
qed

lemma owned_forward_visible:
  assumes h: "healthy fp m" and run: "gateway_run fp token p (getRun_call i caught (\<lambda>run. if \<not> ownsRun run p
      then Reply refused else forward_or (q run) caught')) m tr r m'"
    and q: "\<And>run d. run_id run = i \<Longrightarrow> accessible p d i \<Longrightarrow> targets p d (q run)"
    and refused: "\<And>d. visible p d (snd caught)" "\<And>d. visible p d (snd refused)" "\<And>d. visible p d (snd caught')"
    and kind: "\<And>run. q run \<notin> range GetRun \<union> range GetChildren \<union> range GetApproval \<union> range GetRuns"
  shows "visible p (store m') (snd r)"
  using h run
proof (cases rule: run_owned)
  case (stopped m1)
  with refused show ?thesis by auto
next
  case (owned m1 run tr')
  have "targets p (store m2) (q run)" if "others fp m1 m2" for m2
    by (rule q [OF owned(4) accessible_others [OF owned(2) that owned(5)]])
  with forward_visible [OF owned(2) disjI2 [OF owned(6)] refused(3) _ kind] show ?thesis by blast
qed

lemma reply_visible:
  "gateway_run fp token p (Reply r') m tr r m' \<Longrightarrow> visible p (store m') (snd r') \<Longrightarrow> visible p (store m') (snd r)"
  by (auto elim: gateway_replyE)

text \<open>A request that needs no access to a run.\<close>

lemma simple_visible:
  assumes "healthy fp m"
  shows "gateway_run fp token p (forward q st) m tr r m' \<Longrightarrow> (\<And>d. targets p d q) \<Longrightarrow>
      q \<notin> range GetRun \<union> range GetChildren \<union> range GetApproval \<union> range GetRuns \<Longrightarrow> visible p (store m') (snd r)"
    and "gateway_run fp token p (forward_or q not_found) m tr r m' \<Longrightarrow> (\<And>d. targets p d q) \<Longrightarrow>
      q \<notin> range GetRun \<union> range GetChildren \<union> range GetApproval \<union> range GetRuns \<Longrightarrow> visible p (store m') (snd r)"
  using forward_visible [OF assms disjI1, of token p q st tr r m' not_found]
    forward_visible [OF assms disjI2, of token p q not_found tr r m'] by auto

lemma messages_visible:
  assumes h: "healthy fp m" and run: "gateway_run fp token p (http_messages i) m tr r m'"
  shows "visible p (store m') (snd r)"
  using run unfolding http_messages_def
proof (rule run_ipc_call)
  fix m1 en status body m2 tr'
  assume o: "others fp m m1" and en: "cf_fingerprint (en_config en) = fp" "en_id en \<noteq> []"
    and serve: "manager_serve en token (principalHeaders token p) (GetSession i) m1 = ((status, body), m2)"
    and rest: "400 \<le> status \<and> tr' = [] \<and> r = not_found \<and> m' = m2
     \<or> status < 400 \<and> gateway_run fp token p (forward_or (GetMessages i) not_found) m2 tr' r m'"
  have h2: "healthy fp m2" by (rule healthy_serve [OF healthy_others [OF h o] en serve])
  from rest show ?thesis by (auto elim!: simple_visible [OF h2])
qed

lemma steer_visible:
  assumes h: "healthy fp m" and run: "gateway_run fp token p (http_steer p i s) m tr r m'"
  shows "visible p (store m') (snd r)"
  using h run unfolding http_steer_def
proof (cases rule: run_owned)
  case (owned m1 run tr')
  have t: "targets p (store m2) (PostSteer (run_id run) x)" if "others fp m1 m2" for m2 x
    using accessible_others [OF owned(2) that owned(5)] owned(4) by (simp add: targets_access)
  from owned(6) consider "gateway_run fp token p (Reply invalid_request) m1 tr' r m'"
    | x where "gateway_run fp token p (forward_or (PostSteer (run_id run) (Some x)) not_active) m1 tr' r m'"
    by (cases s) (auto split: if_splits)
  then show ?thesis
  proof cases
    case (2 x)
    from forward_visible [OF owned(2) disjI2 [OF 2] _ t] show ?thesis by auto
  qed (auto elim: gateway_replyE)
qed auto

lemma children_visible:
  assumes h: "healthy fp m" and run: "gateway_run fp token p (http_children p i) m tr r m'"
  shows "visible p (store m') (snd r)"
  using h run unfolding http_children_def
proof (cases rule: run_owned)
  case (owned m1 run tr')
  from owned(6) show ?thesis
    by (elim run_ipc_call)
      (fastforce elim: gateway_replyE split: api_body.splits simp: list_all_iff not_found_def internal_error_def)
qed auto

lemma approval_visible:
  assumes h: "healthy fp m" and run: "gateway_run fp token p (http_approval p i (Some ok)) m tr r m'"
  shows "visible p (store m') (snd r)"
  using h run
proof (cases rule: run_approval)
  case (owned a m3 tr1 tr2)
  from forward_visible [OF owned(1) disjI2 [OF owned(4)] _ owned(5)] show ?thesis by auto
qed auto

text \<open>C15: An answer of the Gateway shows a client nothing that is not its own: the runs it shows or
  creates, the events it streams, the attempts and approvals of runs, the session, its messages, the agents,
  workspaces and provider connections all belong to the owner of the credential; and the runs it shows, and the runs of the
  events, attempts and approvals, belong also to the agent and the workspace the credential is bound to.\<close>

theorem gateway_answers_own_data:
  assumes "reachable fp (store m)" and "[] \<notin> rr_id ` set (runs (store m))"
    and "gateway_run fp token p (gateway_handle uuid p rq) m trace r m'"
  shows "visible p (store m') (snd r)"
proof -
  have h: "healthy fp m" using assms(1,2) by (simp add: healthy_def)
  note fwd = forward_visible [OF h]
  have "visible p (store m') (snd r)" if run: "gateway_run fp token p (http_handler uuid p rq) m trace r m'"
  proof (cases rq)
    case (HttpPostRun body header)
    have t: "targets p d (PostRun (Some (start_request p b key)))" if "\<not> exceeds_binding p b" for d b key
      using that by (auto simp: targets_def start_request_def exceeds_binding_def)
    from run HttpPostRun consider x where "gateway_run fp token p (Reply x) m trace r m'" "\<forall>d. visible p d (snd x)"
      | b key where "gateway_run fp token p (forward (PostRun (Some (start_request p b key))) 202) m trace r m'"
          "\<not> exceeds_binding p b"
      by (auto simp: http_post_run_def Let_def split: option.splits if_splits)
    then show ?thesis
    proof cases
      case (2 b key)
      from fwd [OF disjI1 [OF 2(1)] _ t [OF 2(2)], of not_found] show ?thesis by auto
    qed (auto elim: gateway_replyE)
  next
    case (HttpGetRun i)
    with run show ?thesis
      by (auto simp: http_get_run_def elim!: run_getRun_call gateway_replyE)
  next
    case (HttpCancel i)
    with run have "gateway_run fp token p (http_cancel p i) m trace r m'" by simp
    then show ?thesis
      unfolding http_cancel_def
      by (rule owned_forward_visible [OF h, where q = "\<lambda>run. PostCancel i"]) (auto simp: targets_access)
  next
    case (HttpEvents i after rounds)
    with run events_within [OF h] show ?thesis by simp
  next
    case (HttpAttempts i)
    with run have "gateway_run fp token p (http_attempts p i) m trace r m'" by simp
    then show ?thesis
      unfolding http_attempts_def
      by (rule owned_forward_visible [OF h, where q = "\<lambda>run. GetAttempts (run_id run)"]) (auto simp: targets_access)
  next
    case (HttpSteer i s)
    with run steer_visible [OF h] show ?thesis by simp
  next
    case (HttpChildren i)
    with run children_visible [OF h] show ?thesis by simp
  next
    case (HttpApproval i ok)
    with run approval_visible [OF h] show ?thesis
      by (cases ok) (auto simp: http_approval_def elim: gateway_replyE)
  next
    case (HttpMessages i)
    with run messages_visible [OF h] show ?thesis by simp
  qed (use run in \<open>auto simp: http_post_def split: option.splits
      elim!: gateway_replyE simple_visible [OF h]\<close>)
  then show ?thesis
    using assms(3)
    by (auto simp: gateway_handle_def elim: gateway_replyE split: prod.splits option.splits if_splits)
qed

lemma gateway_answers_own_data_witness:
  "\<exists>trace status run m'. gateway_run example_fp ''secret'' bound_principal
      (gateway_handle ''uuid'' bound_principal (HttpGetRun ''run_1'')) (manager_of db1) trace
      (status, RunBody (Some run)) m'
    \<and> status = 200 \<and> bound_to bound_principal run"
proof -
  let ?run = "run_alone (gateway_handle ''uuid'' bound_principal (HttpGetRun ''run_1'')) example_env ''secret''
      bound_principal (manager_of db1)"
  obtain trace status body m' where run: "?run = (trace, (status, body), m')" by (cases ?run) auto
  have "fst (fst (snd ?run)) = 200" "case snd (fst (snd ?run)) of RunBody x \<Rightarrow> x \<noteq> None | _ \<Rightarrow> False"
    and ids: "[] \<notin> rr_id ` set (runs (store (manager_of db1)))" by code_simp+
  with run obtain r where r: "status = 200" "body = RunBody (Some r)" by (auto split: api_body.splits)
  have step: "gateway_run example_fp ''secret'' bound_principal
      (gateway_handle ''uuid'' bound_principal (HttpGetRun ''run_1'')) (manager_of db1) trace (status, body) m'"
    by (rule gateway_run_alone [OF _ _ run]) (simp_all add: example_env_def example_config_def)
  have "reachable example_fp (store (manager_of db1))" using db_reachable(1) by (simp add: manager_of_def)
  from gateway_answers_own_data [OF this ids step] r step show ?thesis by auto
qed

end
