(* ===== verification/GatewayLimits.thy ===== *)
theory GatewayLimits
  imports GatewayAnswers
begin

text \<open>
  The limits of the Gateway: on failed authentication, on the budget of runs, and on publishing
  artifacts while the workspace changes hands.
\<close>

section \<open>Failed authentication\<close>

text \<open>Requests overtake each other while the token service checks their credentials, so the segments of
  the hook come in any order: a request arrives, or the check of one that has arrived ends. The answers are listed
  with the address; 200 stands for a request that goes on to its route.\<close>

datatype auth_event =
    Arrives string timestamp "string option"
  | Checked string timestamp "internal_principal option"

fun event_key :: "auth_event \<Rightarrow> string" where
  "event_key (Arrives key t header) = key"
| "event_key (Checked key t checked) = key"

fun event_time :: "auth_event \<Rightarrow> timestamp" where
  "event_time (Arrives key t header) = t"
| "event_time (Checked key t checked) = t"

fun auth_event_step :: "int \<Rightarrow> int \<Rightarrow> auth_event \<Rightarrow> (string \<times> nat) list \<times> auth_failures \<Rightarrow> (string \<times> nat) list \<times> auth_failures" where
  "auth_event_step limit window (Arrives key t header) (answers, failures) =
     (case auth_begin limit window t key header failures of
        (Inl (status, body), failures') \<Rightarrow> (answers @ [(key, status)], failures')
      | (Inr token, failures') \<Rightarrow> (answers, failures'))"
| "auth_event_step limit window (Checked key t checked) (answers, failures) =
     (case auth_end limit window t key checked failures of
        (Inl (status, body), failures') \<Rightarrow> (answers @ [(key, status)], failures')
      | (Inr p, failures') \<Rightarrow> (answers @ [(key, 200)], failures'))"

definition auth_run :: "int \<Rightarrow> int \<Rightarrow> auth_event list \<Rightarrow> auth_failures \<Rightarrow> (string \<times> nat) list \<times> auth_failures" where
  "auth_run limit window es failures = fold (auth_event_step limit window) es ([], failures)"

definition answers_to :: "string \<Rightarrow> (string \<times> nat) list \<Rightarrow> nat list" where
  "answers_to key answers = map snd (filter (\<lambda>(k, status). k = key) answers)"

lemma answers_to_append [simp]:
  "answers_to key [] = []"
  "answers_to key (answers @ [(k, status)]) = answers_to key answers @ (if k = key then [status] else [])"
  by (simp_all add: answers_to_def)

text \<open>\<open>n\<close> failing requests in a row: the answers, and the counter after them.\<close>

definition refusals :: "nat \<Rightarrow> nat \<Rightarrow> nat list" where
  "refusals limit n = replicate (min n (limit - 1)) 401 @ replicate (n - (limit - 1)) 429"

lemma refusals_Suc: "refusals limit (Suc n) = refusals limit n @ [if Suc n < limit then 401 else 429]"
proof (cases "Suc n < limit")
  case True
  then have "min (Suc n) (limit - 1) = Suc (min n (limit - 1))" "n - (limit - 1) = 0" "Suc n - (limit - 1) = 0" by auto
  with True show ?thesis by (simp add: refusals_def replicate_append_same)
next
  case False
  then have "min (Suc n) (limit - 1) = min n (limit - 1)" "Suc n - (limit - 1) = Suc (n - (limit - 1))" by auto
  with False show ?thesis by (simp add: refusals_def replicate_append_same)
qed

lemma refusals_count: "count_list (refusals limit n) 401 \<le> limit - 1" "count_list (refusals limit n) 200 = 0"
  "200 \<notin> set (refusals limit n)" "length (refusals limit n) = n"
proof -
  have "count_list (replicate k (a :: nat)) b = (if a = b then k else 0)" for k a b by (induction k) auto
  then show "count_list (refusals limit n) 401 \<le> limit - 1" "count_list (refusals limit n) 200 = 0"
    by (simp_all add: refusals_def)
qed (auto simp: refusals_def)

definition counts :: "nat \<Rightarrow> timestamp \<Rightarrow> int \<Rightarrow> nat \<Rightarrow> auth_failure option \<Rightarrow> bool" where
  "counts limit t0 window n entry \<longleftrightarrow> (case entry of
     None \<Rightarrow> n = 0
   | Some e \<Rightarrow> t0 \<le> af_startedAt e \<and> 0 < n \<and> (if n < limit then af_count e = int n else int limit \<le> af_count e))"

text \<open>The answers to an address are those to earlier rows of failures, each ended by a success, and to the last row.\<close>

definition limited_inv :: "nat \<Rightarrow> timestamp \<Rightarrow> int \<Rightarrow> string \<Rightarrow> (string \<times> nat) list \<times> auth_failures \<Rightarrow> bool" where
  "limited_inv limit t0 window key st \<longleftrightarrow> (case st of (answers, failures) \<Rightarrow> \<exists>old n.
     answers_to key answers = old @ refusals limit n \<and> counts limit t0 window n (map_of failures key)
     \<and> count_list old 401 \<le> (limit - 1) * count_list old 200 \<and> (200 \<notin> set old \<longrightarrow> old = []))"

lemma limited_invI:
  "answers_to key answers = old @ refusals limit n \<Longrightarrow> counts limit t0 window n (map_of failures key) \<Longrightarrow>
   count_list old 401 \<le> (limit - 1) * count_list old 200 \<Longrightarrow> 200 \<notin> set old \<longrightarrow> old = [] \<Longrightarrow>
   limited_inv limit t0 window key (answers, failures)"
  unfolding limited_inv_def by auto

lemma limited_inv_cong:
  "limited_inv limit t0 window key (answers, failures) \<Longrightarrow> answers_to key answers' = answers_to key answers \<Longrightarrow>
   map_of failures' key = map_of failures key \<Longrightarrow> limited_inv limit t0 window key (answers', failures')"
  by (simp add: limited_inv_def)

text \<open>A failure that is recorded within the window.\<close>

lemma refuse_counts:
  assumes "counts limit t0 window n (map_of failures key)" and "0 < limit" and "t0 \<le> t" "t < t0 + window"
    and "refuse_credential t key (int limit) window failures = ((status, body), failures')"
  shows "status = (if Suc n < limit then 401 else 429)" and "counts limit t0 window (Suc n) (map_of failures' key)"
  using assms
  by (auto simp: refuse_credential_def recordAuthFailure_def Let_def counts_def rate_limited_def update_conv'
      split: option.splits if_splits)

lemma refuse_other: "key' \<noteq> key \<Longrightarrow> refuse_credential t key' limit window failures = (r, failures') \<Longrightarrow>
    map_of failures' key = map_of failures key"
  by (auto simp: refuse_credential_def recordAuthFailure_def Let_def update_conv' split: if_splits)

lemma limited_counts:
  assumes "counts limit t0 window n (map_of failures key)" and "t0 \<le> t" "t < t0 + window"
  shows "isAuthRateLimited t key (int limit) window failures = (limit \<le> n \<and> 0 < n, failures)"
  using assms by (auto simp: isAuthRateLimited_def counts_def split: option.splits if_splits)

lemma limited_other: "key' \<noteq> key \<Longrightarrow> map_of (snd (isAuthRateLimited t key' limit window failures)) key = map_of failures key"
  by (auto simp: isAuthRateLimited_def delete_conv split: option.splits)

lemma begin_other:
  assumes "key' \<noteq> key"
  shows "map_of (snd (auth_begin limit window t key' header failures)) key = map_of failures key"
proof -
  obtain limited f where l: "isAuthRateLimited t key' limit window failures = (limited, f)" by fastforce
  from limited_other [OF assms, of t limit window failures] l have f: "map_of f key = map_of failures key" by simp
  obtain r f' where r: "refuse_credential t key' limit window f = (r, f')" by fastforce
  from refuse_other [OF assms r] f l r show ?thesis
    by (cases limited) (auto simp: auth_begin_def split: option.split)
qed

lemma end_other:
  assumes "key' \<noteq> key"
  shows "map_of (snd (auth_end limit window t key' checked failures)) key = map_of failures key"
proof -
  obtain r f' where r: "refuse_credential t key' limit window failures = (r, f')" by fastforce
  from refuse_other [OF assms r] r assms show ?thesis by (auto simp: auth_end_def delete_conv split: option.split)
qed

lemma event_other:
  assumes "event_key e \<noteq> key" and "limited_inv limit t0 window key st"
  shows "limited_inv limit t0 window key (auth_event_step l window e st)"
proof -
  obtain answers failures where st: "st = (answers, failures)" by (cases st)
  show ?thesis
  proof (cases e)
    case (Arrives k t header)
    with assms begin_other [of k key l window t header failures] st show ?thesis
      by (auto split: prod.splits sum.splits elim!: limited_inv_cong)
  next
    case (Checked k t checked)
    with assms end_other [of k key l window t checked failures] st show ?thesis
      by (auto split: prod.splits sum.splits elim!: limited_inv_cong)
  qed
qed

lemma event_same:
  assumes key: "event_key e = key" and t: "t0 \<le> event_time e" "event_time e < t0 + window" and limit: "0 < limit"
    and inv: "limited_inv limit t0 window key (answers, failures)"
  shows "limited_inv limit t0 window key (auth_event_step (int limit) window e (answers, failures))"
proof -
  from inv obtain old n where as: "answers_to key answers = old @ refusals limit n"
    and c: "counts limit t0 window n (map_of failures key)"
    and old: "count_list old 401 \<le> (limit - 1) * count_list old 200" "200 \<notin> set old \<longrightarrow> old = []"
    by (auto simp: limited_inv_def)
  have failing: "limited_inv limit t0 window key (answers @ [(key, status)], failures')"
    if "refuse_credential (event_time e) key (int limit) window failures = ((status, body), failures')" for status body failures'
    by (rule limited_invI [where old = old and n = "Suc n"])
       (use refuse_counts [OF c limit t that] as old in \<open>simp_all add: refusals_Suc\<close>)
  show ?thesis
  proof (cases e)
    case (Arrives k time header)
    with key t have lim: "isAuthRateLimited time key (int limit) window failures = (limit \<le> n \<and> 0 < n, failures)"
      by (intro limited_counts [OF c]) auto
    show ?thesis
    proof (cases "limit \<le> n \<and> 0 < n")
      case True
      with c have "counts limit t0 window (Suc n) (map_of failures key)" by (auto simp: counts_def split: option.splits)
      with True as old have "limited_inv limit t0 window key (answers @ [(key, 429)], failures)"
        by (intro limited_invI [where old = old and n = "Suc n"]) (simp_all add: refusals_Suc)
      with True lim Arrives key show ?thesis by (auto simp: auth_begin_def rate_limited_def)
    next
      case False
      then have lim: "isAuthRateLimited time key (int limit) window failures = (False, failures)" using lim by simp
      obtain status body failures' where r: "refuse_credential time key (int limit) window failures = ((status, body), failures')"
        by (metis surj_pair)
      from lim Arrives key inv failing [of status body failures'] r show ?thesis
        by (cases "bearerToken header") (simp_all add: auth_begin_def)
    qed
  next
    case (Checked k time checked)
    show ?thesis
    proof (cases checked)
      case None
      obtain status body failures' where r: "refuse_credential time key (int limit) window failures = ((status, body), failures')"
        by (metis surj_pair)
      with Checked None key failing [of status body failures'] show ?thesis by (simp add: auth_end_def)
    next
      case (Some p)
      have "count_list (old @ refusals limit n @ [200]) 401 \<le> (limit - 1) * count_list (old @ refusals limit n @ [200]) 200"
        using old(1) refusals_count(1,2) [of limit n] by (simp add: distrib_left)
      then have "limited_inv limit t0 window key (answers @ [(key, 200)], AList.delete key failures)"
        by (intro limited_invI [where old = "old @ refusals limit n @ [200]" and n = 0])
          (simp_all add: as refusals_def counts_def delete_conv)
      with Checked Some key show ?thesis by (simp add: auth_end_def)
    qed
  qed
qed

lemma auth_run_limited:
  assumes "0 < limit" and "\<forall>e\<in>set es. event_key e = key \<longrightarrow> t0 \<le> event_time e \<and> event_time e < t0 + window"
    and "limited_inv limit t0 window key st"
  shows "limited_inv limit t0 window key (fold (auth_event_step (int limit) window) es st)"
  using assms
proof (induction es arbitrary: st)
  case (Cons e es)
  obtain answers failures where st: "st = (answers, failures)" by (cases st)
  have "limited_inv limit t0 window key (auth_event_step (int limit) window e st)"
    using Cons.prems event_same [of e key t0 window limit answers failures] event_other [of e key limit t0 window st "int limit"]
    unfolding st by (cases "event_key e = key") auto
  with Cons.IH Cons.prems show ?case by simp
qed simp

text \<open>C23: Guessing credentials is limited, however the requests overtake each other. Take everything that happens at
  the hook within one window, from a state in which an address has no counter. Of the answers to this
  address at most \<open>limit - 1\<close> are 401 before the first success, and again at most so many after each success (which
  deletes the counter). As long as there is no success, the first \<open>limit - 1\<close> answers are 401 and all
  others 429; and after \<open>limit\<close> answers every further request of that address in the window is refused
  before its credential is looked at, even a valid one.\<close>

theorem auth_failures_limited:
  assumes "map_of failures key = None" and "0 < limit"
    and "\<forall>e\<in>set es. event_key e = key \<longrightarrow> t0 \<le> event_time e \<and> event_time e < t0 + window"
    and "auth_run (int limit) window es failures = (answers, failures')"
  shows "count_list (answers_to key answers) 401 \<le> (limit - 1) * (1 + count_list (answers_to key answers) 200)
    \<and> (200 \<notin> set (answers_to key answers) \<longrightarrow>
        (let n = length (answers_to key answers) in
         answers_to key answers = replicate (min n (limit - 1)) 401 @ replicate (n - (limit - 1)) 429
         \<and> (limit \<le> n \<longrightarrow> (\<forall>t header. t0 \<le> t \<longrightarrow> t < t0 + window \<longrightarrow>
              auth_begin (int limit) window t key header failures' = (Inl rate_limited, failures')))))"
proof -
  have "limited_inv limit t0 window key ([], failures)"
    by (rule limited_invI [where old = "[]" and n = 0]) (simp_all add: assms(1) refusals_def counts_def)
  from auth_run_limited [OF assms(2,3) this] assms(4) have "limited_inv limit t0 window key (answers, failures')"
    by (simp add: auth_run_def)
  then obtain old n where as: "answers_to key answers = old @ refusals limit n"
    and c: "counts limit t0 window n (map_of failures' key)"
    and old: "count_list old 401 \<le> (limit - 1) * count_list old 200" "200 \<notin> set old \<longrightarrow> old = []"
    by (auto simp: limited_inv_def)
  have "count_list (answers_to key answers) 401 \<le> (limit - 1) * (1 + count_list (answers_to key answers) 200)"
    using old(1) refusals_count(1,2) [of limit n] by (simp add: as distrib_left)
  moreover have "auth_begin (int limit) window t key header failures' = (Inl rate_limited, failures')"
    if "limit \<le> n" "t0 \<le> t" "t < t0 + window" for t header
    using limited_counts [OF c that(2,3)] that(1) assms(2) by (simp add: auth_begin_def)
  ultimately show ?thesis using as old(2) refusals_count(4) [of limit n] by (auto simp: Let_def refusals_def)
qed

text \<open>Two requests whose credentials are checked at the same time, one without a credential, and a valid one.\<close>

theorem auth_failures_limited_witness:
  "\<exists>answers failures'. auth_run 3 60000 [Arrives ''ip'' 0 (Some ''Bearer 0123456789abcdef''), Arrives ''ip'' 1 (Some ''Bearer 0123456789abcdef''),
       Checked ''ip'' 5 None, Checked ''ip'' 6 None, Arrives ''ip'' 7 None] [] = (answers, failures')
     \<and> answers_to ''ip'' answers = [401, 401, 429]
     \<and> auth_begin 3 60000 40 ''ip'' (Some ''Bearer valid-valid-valid'') failures' = (Inl rate_limited, failures')"
proof -
  let ?es = "[Arrives ''ip'' 0 (Some ''Bearer 0123456789abcdef''), Arrives ''ip'' 1 (Some ''Bearer 0123456789abcdef''),
       Checked ''ip'' 5 None, Checked ''ip'' 6 None, Arrives ''ip'' 7 None]"
  obtain answers failures' where run: "auth_run (int 3) 60000 ?es [] = (answers, failures')" by fastforce
  have "answers_to ''ip'' (fst (auth_run (int 3) 60000 ?es [])) = [401, 401, 429]" by code_simp
  with run have answers: "answers_to ''ip'' answers = [401, 401, 429]" by simp
  from auth_failures_limited [OF _ _ _ run, of "''ip''" 0] answers
  have "auth_begin (int 3) 60000 40 ''ip'' (Some ''Bearer valid-valid-valid'') failures' = (Inl rate_limited, failures')"
    by (auto simp: Let_def)
  with run answers show ?thesis by (intro exI conjI) simp_all
qed

section \<open>The budget ceiling of a run token\<close>

lemma normalize_entry:
  "map_of (budget_entries b) k = Some x \<Longrightarrow> map_of (budget_entries (full_budget (normalizeBudget b))) k = Some x"
  unfolding budget_entries_def
  by (subst (asm) map_of_present(1), simp, subst map_of_present(1), simp)
    (auto simp: normalizeBudget_def full_budget_def split: if_splits)

lemma forwarded_run:
  "http_post_run uuid p (Some b) header = forward (PostRun (Some rq)) 202 \<Longrightarrow> \<exists>key. rq = start_request p b key"
  by (auto simp: http_post_run_def forward_def ipc_call_def Let_def split: if_splits)

text \<open>The ceiling of a run token does not bound the run: the Gateway compares the request,
  completed with the global defaults, with the ceiling, but the store completes the request with the
  defaults of the agent. So a request that leaves a limit out passes the Gateway's check, and the run
  it creates has the limit of the agent's profile, however far above the ceiling that is.\<close>

theorem budget_ceiling_bypassed:
  assumes "p_budgetCeiling p = Some limits" and "map_of (budget_entries limits) k = Some c"
    and "http_post_run uuid p (Some b) header = forward (PostRun (Some rq)) 202"
    and "map_of (budget_entries (nullish (rb_budget b) empty_budget)) k = None"
    and "find_agent (p_owner p) (rb_agent b) d = Some agent"
    and "map_of (budget_entries (ar_default_budget agent)) k = Some x" and "c < x"
    and "createOrGetRun fp now ids i rq d = Inr ((run, True), d')"
  shows "\<not> budgetWithin (full_budget (run_budget run)) limits"
proof -
  from forwarded_run [OF assms(3)] obtain key where rq: "rq = start_request p b key" ..
  obtain row where create: "create_run now ids (fp rq) i rq d = Inr (row, d')" and run: "run = toRunRecord row"
    using assms(8) by (auto elim: createOrGetRun_cases)
  have "ensure_agent now ids rq d = Inr (agent, d)"
    using assms(5) by (simp add: ensure_agent_def rq start_request_def rq_owner_def)
  with create obtain w s where "row = new_run_row now (fp rq) i rq agent w s"
    by (auto simp: create_run_def result_simps Let_def)
  then have "full_budget (run_budget run) = full_budget (normalizeBudget
      (spread_budget (ar_default_budget agent) (nullish (rb_budget b) empty_budget)))"
    by (simp add: run rq toRunRecord_def normalizeBudget_full new_run_row_def start_request_def)
  moreover have "map_of (budget_entries (spread_budget (ar_default_budget agent)
      (nullish (rb_budget b) empty_budget))) k = Some x"
    using assms(4,6) by (simp add: budget_entry_spread)
  ultimately have "map_of (budget_entries (full_budget (run_budget run))) k = Some x"
    using normalize_entry by simp
  then have "(k, x) \<in> set (budget_entries (full_budget (run_budget run)))" by (rule map_of_SomeD)
  with assms(2,7) show ?thesis by (force simp: budgetWithin_def list_all_iff)
qed

text \<open>A token for ten turns, and an agent whose runs have a hundred.\<close>

definition capped_budget :: partial_budget where
  "capped_budget = (full_budget DEFAULT_RUN_BUDGET)\<lparr>pb_maxTurns := Some 10\<rparr>"

definition capped_principal :: internal_principal where
  "capped_principal = example_principal\<lparr>p_budgetCeiling := Some capped_budget\<rparr>"

definition capped_body :: run_body where
  "capped_body = \<lparr>rb_agent = ''big'', rb_workspace = ''w'', rb_session = None,
     rb_providerConnectionId = None, rb_input = ''hi'', rb_budget = None\<rparr>"

definition big_agent :: agent_request where
  "big_agent = \<lparr>ag_id = Some ''big'', ag_name = ''big'', ag_instructions = None,
     ag_modelCapabilities = None, ag_allowedTools = None,
     ag_defaultBudget = Some (empty_budget\<lparr>pb_maxTurns := Some 100\<rparr>), ag_principal = example_principal\<rparr>"

definition big_db :: db where
  "big_db = ok_state (createAgentProfile ''int'' (new_agent example_env example_principal big_agent) db1)"

definition big_run :: "run_record \<times> bool" where
  "big_run = (case createOrGetRun example_fp 50 (example_ids ''2'') ''run_2''
     (start_request capped_principal capped_body ''uuid'') big_db of Inr (r, d) \<Rightarrow> r)"

theorem budget_ceiling_bypassed_witness:
  "http_post_run ''uuid'' capped_principal (Some capped_body) None
      = forward (PostRun (Some (start_request capped_principal capped_body ''uuid''))) 202
   \<and> snd big_run \<and> \<not> budgetWithin (full_budget (run_budget (fst big_run))) capped_budget"
proof -
  let ?rq = "start_request capped_principal capped_body ''uuid''"
  have "valid_idempotency_key (idempotency_key ''uuid'' None)" "\<not> exceeds_binding capped_principal capped_body"
    "idempotency_key ''uuid'' None = ''uuid''" by code_simp+
  then have sent: "http_post_run ''uuid'' capped_principal (Some capped_body) None = forward (PostRun (Some ?rq)) 202"
    by (simp add: http_post_run_def)
  have "case createOrGetRun example_fp 50 (example_ids ''2'') ''run_2'' ?rq big_db of
      Inr (r, d') \<Rightarrow> snd r | Inl e \<Rightarrow> False" by code_simp
  then obtain run d' where created: "createOrGetRun example_fp 50 (example_ids ''2'') ''run_2'' ?rq big_db = Inr ((run, True), d')"
    by (auto split: sum.splits prod.splits)
  have ceiling: "p_budgetCeiling capped_principal = Some capped_budget"
    "map_of (budget_entries capped_budget) ''maxTurns'' = Some 10"
    "map_of (budget_entries (nullish (rb_budget capped_body) empty_budget)) ''maxTurns'' = None"
    by code_simp+
  have "case find_agent (p_owner capped_principal) (rb_agent capped_body) big_db of None \<Rightarrow> False
    | Some a \<Rightarrow> map_of (budget_entries (ar_default_budget a)) ''maxTurns'' = Some 100" by code_simp
  then obtain agent where agent: "find_agent (p_owner capped_principal) (rb_agent capped_body) big_db = Some agent"
    "map_of (budget_entries (ar_default_budget agent)) ''maxTurns'' = Some 100"
    by (auto split: option.splits)
  from budget_ceiling_bypassed [OF ceiling(1,2) sent ceiling(3) agent _ created] sent created
  show ?thesis by (simp add: big_run_def)
qed

end
