(* ===== verification/GatewayStream.thy ===== *)
theory GatewayStream
  imports GatewayAnswers
begin

text \<open>
  The event stream of the Gateway, the loop of the route \<open>/v1/runs/:runId/events\<close> of
  \<open>apps/gateway/src/server.ts\<close> with all that is written to the client
  while the run goes on, and that it is the log of the run. The calls of the loop are those of \<open>stream_rounds\<close>.
\<close>

section \<open>The loop\<close>

datatype sse_frame = EventFrame run_event | KeepAlive | StreamError

text \<open>How the stream ends: the run is over, the client left, or a call of the Manager failed.\<close>

datatype sse_end = Finished | Disconnected | Broken

text \<open>A call of the loop, and its answer. Before it, and while the Manager waits for events,
  everything else may go on.\<close>

definition served :: "(start_run_request \<Rightarrow> string) \<Rightarrow> string \<Rightarrow> internal_principal \<Rightarrow> ipc_request
    \<Rightarrow> manager \<Rightarrow> api_response \<Rightarrow> manager \<Rightarrow> bool" where
  "served fp token p q m resp m' \<longleftrightarrow> (\<exists>m1 en. others fp m m1 \<and> cf_fingerprint (en_config en) = fp
     \<and> en_id en \<noteq> [] \<and> manager_serve en token (principalHeaders token p) q m1 = (resp, m'))"

text \<open>The client may leave at any moment: within a page, \<open>n\<close> of its events are written.\<close>

inductive event_stream ::
  "(start_run_request \<Rightarrow> string) \<Rightarrow> string \<Rightarrow> internal_principal \<Rightarrow> string \<Rightarrow> int \<Rightarrow> manager
    \<Rightarrow> sse_frame list \<Rightarrow> sse_end \<Rightarrow> manager \<Rightarrow> bool" for fp token p i where
  left: "event_stream fp token p i cursor m [] Disconnected m"
| no_events: "served fp token p (events_call i cursor) m (status, body) m' \<Longrightarrow> 400 \<le> status \<Longrightarrow>
    event_stream fp token p i cursor m [StreamError] Broken m'"
| left_within: "served fp token p (events_call i cursor) m (status, EventsBody page) m' \<Longrightarrow> status < 400 \<Longrightarrow>
    event_stream fp token p i cursor m (map EventFrame (take n page)) Disconnected m'"
| no_run: "served fp token p (events_call i cursor) m (status, EventsBody page) m1 \<Longrightarrow> status < 400 \<Longrightarrow>
    served fp token p (GetRun i) m1 (status', body) m' \<Longrightarrow> 400 \<le> status' \<Longrightarrow>
    event_stream fp token p i cursor m (map EventFrame page @ [StreamError]) Broken m'"
| finish: "served fp token p (events_call i cursor) m (status, EventsBody page) m1 \<Longrightarrow> status < 400 \<Longrightarrow>
    served fp token p (GetRun i) m1 (status', RunBody (Some run)) m' \<Longrightarrow> status' < 400 \<Longrightarrow>
    stream_done run (next_cursor cursor page) \<Longrightarrow>
    event_stream fp token p i cursor m (map EventFrame page) Finished m'"
| again: "served fp token p (events_call i cursor) m (status, EventsBody page) m1 \<Longrightarrow> status < 400 \<Longrightarrow>
    served fp token p (GetRun i) m1 (status', RunBody (Some run)) m2 \<Longrightarrow> status' < 400 \<Longrightarrow>
    \<not> stream_done run (next_cursor cursor page) \<Longrightarrow>
    event_stream fp token p i (next_cursor cursor page) m2 frames fin m' \<Longrightarrow>
    event_stream fp token p i cursor m
      (map EventFrame page @ (if page = [] then [KeepAlive] else []) @ frames) fin m'"

fun delivered :: "sse_frame list \<Rightarrow> run_event list" where
  "delivered [] = []"
| "delivered (EventFrame e # frames) = e # delivered frames"
| "delivered (frame # frames) = delivered frames"

lemma delivered_append [simp]: "delivered (a @ b) = delivered a @ delivered b"
  by (induction a rule: delivered.induct) auto

lemma delivered_events [simp]: "delivered (map EventFrame es) = es"
  by (induction es) auto

text \<open>What the route \<open>http_events\<close> answers is what such a stream delivers.\<close>

lemma stream_rounds_streams:
  assumes "gateway_run fp token p (stream_rounds n i c written) m tr r m'"
  shows "\<exists>frames fin. event_stream fp token p i c m frames fin m' \<and> r = (200, EventsBody (written @ delivered frames))"
  using assms
proof (induction n arbitrary: c written m tr)
  case 0
  then have "r = (200, EventsBody written)" "m' = m" by (auto elim: gateway_replyE)
  then show ?case using event_stream.left [of fp token p i c m] by (intro exI [of _ "[]"] exI [of _ Disconnected]) simp
next
  case (Suc n)
  from Suc.prems obtain m1 en status body m2 tr' where o1: "others fp m m1" and en: "cf_fingerprint (en_config en) = fp" "en_id en \<noteq> []"
    and serve: "manager_serve en token (principalHeaders token p) (events_call i c) m1 = ((status, body), m2)"
    and rest: "400 \<le> status \<and> tr' = [] \<and> r = (200, EventsBody written) \<and> m' = m2
     \<or> status < 400 \<and> gateway_run fp token p (case body of
         EventsBody page \<Rightarrow> getRun_call i (200, EventsBody (written @ page)) (\<lambda>run.
           if stream_done run (next_cursor c page) then Reply (200, EventsBody (written @ page))
           else stream_rounds n i (next_cursor c page) (written @ page))
       | _ \<Rightarrow> Reply internal_error) m2 tr' r m'"
    unfolding stream_rounds.simps by (rule run_ipc_call)
  have served1: "served fp token p (events_call i c) m (status, body) m2" using o1 en serve by (auto simp: served_def)
  show ?case
  proof (cases "400 \<le> status")
    case True
    with rest have r: "r = (200, EventsBody written)" "m' = m2" by auto
    from event_stream.no_events [OF served1 True] r show ?thesis
      by (intro exI [of _ "[StreamError]"] exI [of _ Broken]) simp
  next
    case False
    then have ok: "status < 400" by simp
    with get_events_answer [OF serve [unfolded events_call_def]] obtain page where page: "body = EventsBody page" by auto
    note served1 = served1 [unfolded page]
    let ?c = "next_cursor c page"
    from False rest page have "gateway_run fp token p (getRun_call i (200, EventsBody (written @ page)) (\<lambda>run.
        if stream_done run ?c then Reply (200, EventsBody (written @ page))
        else stream_rounds n i ?c (written @ page))) m2 tr' r m'" by auto
    then obtain m3 en' status' body' m4 tr2 where o3: "others fp m2 m3" and en': "cf_fingerprint (en_config en') = fp" "en_id en' \<noteq> []"
      and serve': "manager_serve en' token (principalHeaders token p) (GetRun i) m3 = ((status', body'), m4)"
      and rest': "400 \<le> status' \<and> tr2 = [] \<and> r = (200, EventsBody (written @ page)) \<and> m' = m4
       \<or> status' < 400 \<and> gateway_run fp token p (case body' of
           RunBody (Some run) \<Rightarrow> if stream_done run ?c then Reply (200, EventsBody (written @ page))
             else stream_rounds n i ?c (written @ page)
         | _ \<Rightarrow> Reply internal_error) m4 tr2 r m'"
      unfolding getRun_call_def by (rule run_ipc_call)
    have served2: "served fp token p (GetRun i) m2 (status', body') m4" using o3 en' serve' by (auto simp: served_def)
    show ?thesis
    proof (cases "400 \<le> status'")
      case True
      with rest' have r: "r = (200, EventsBody (written @ page))" "m' = m4" by auto
      from event_stream.no_run [OF served1 ok served2 True] r show ?thesis
        by (intro exI [of _ "map EventFrame page @ [StreamError]"] exI [of _ Broken]) simp
    next
      case False
      then have ok': "status' < 400" by simp
      with get_run_answer(2) [OF serve'] obtain run where run: "body' = RunBody (Some run)" by auto
      note served2 = served2 [unfolded run]
      show ?thesis
      proof (cases "stream_done run ?c")
        case True
        with rest' ok' run have r: "r = (200, EventsBody (written @ page))" "m' = m4" by (auto elim: gateway_replyE)
        from event_stream.finish [OF served1 ok served2 ok' True] r show ?thesis
          by (intro exI [of _ "map EventFrame page"] exI [of _ Finished]) simp
      next
        case False
        with rest' ok' run have "gateway_run fp token p (stream_rounds n i ?c (written @ page)) m4 tr2 r m'" by simp
        from Suc.IH [OF this] obtain frames fin where stream: "event_stream fp token p i ?c m4 frames fin m'"
          and r: "r = (200, EventsBody ((written @ page) @ delivered frames))" by blast
        from event_stream.again [OF served1 ok served2 ok' False stream] r show ?thesis
          by (intro exI [of _ "map EventFrame page @ (if page = [] then [KeepAlive] else []) @ frames"] exI [of _ fin]) simp
      qed
    qed
  qed
qed

section \<open>The log only grows\<close>

definition log_after :: "string \<Rightarrow> int \<Rightarrow> db \<Rightarrow> run_event list" where
  "log_after i c d = filter (\<lambda>e. ev_runId e = i \<and> c < ev_sequence e) (run_events d)"

lemma events_grow_step:
  assumes "store_step fp d d'"
  shows "\<exists>es. run_events d' = run_events d @ es"
  using assms
proof (cases rule: store_step_cases)
  case (create now ids i rq rec created)
  then show ?thesis
    by (cases rule: createOrGetRun_cases) (auto elim!: create_run_cases)
next
  case (append now ae e)
  then show ?thesis by (auto elim: appendEvent_cases)
next
  case (usage now i u rec)
  then show ?thesis by (rule recordUsage_cases) auto
next
  case (resolved now ae e d1)
  from resolved(3) have "\<exists>es. run_events d' = run_events d1 @ es" by (auto elim: appendEvent_cases)
  with resolved show ?thesis by simp
qed auto

lemma log_grows: "(store_step fp)\<^sup>*\<^sup>* d d' \<Longrightarrow> \<exists>es. run_events d' = run_events d @ es"
proof (induction rule: rtranclp_induct)
  case (step d1 d2)
  then show ?case using events_grow_step [OF step.hyps(2)] by auto
qed auto

lemma log_numbers:
  assumes "reachable fp d" and "find_run i d = Some r" and "0 \<le> c"
  shows "map ev_sequence (log_after i c d) = [c + 1..rr_last_sequence r]"
proof -
  have r: "r \<in> set (runs d)" "rr_id r = i" using assms(2) by (auto dest: find_run_SomeD)
  have "map ev_sequence (run_log i d) = [1..rr_last_sequence r]"
    using reachable_runs_inv [OF assms(1)] r by (auto simp: runs_inv_def log_numbered_def)
  from filter_log_after [OF this assms(3)] show ?thesis
    by (simp add: run_log_def log_after_def conj_commute)
qed

lemma list_is_log:
  assumes "reachable fp d" and "find_run i d = Some r" and "0 \<le> c"
  shows "listEvents i c n d = sql_limit n (log_after i c d)"
proof -
  have "sorted (map ev_sequence (log_after i c d))" using log_numbers [OF assms] by simp
  then show ?thesis by (simp add: listEvents_def log_after_def sort_key_id_if_sorted)
qed

text \<open>What follows a page is the log after the last number of the page.\<close>

lemma after_page:
  assumes log: "log_after i c d = page @ rest" and numbers: "map ev_sequence (log_after i c d) = [c + 1..n]"
  shows "rest = log_after i (next_cursor c page) d" and "c \<le> next_cursor c page"
proof -
  have sorted: "sorted_wrt (<) (map ev_sequence page @ map ev_sequence rest)"
    using numbers unfolding log by (metis map_append sorted_wrt_upto)
  have above: "c < ev_sequence e" if "e \<in> set (page @ rest)" for e
    using that unfolding log [symmetric] by (simp add: log_after_def)
  then show cursor: "c \<le> next_cursor c page" by (auto simp: next_cursor_def intro: less_imp_le)
  have low: "ev_sequence e \<le> next_cursor c page" if "e \<in> set page" for e
    using that sorted by (cases page rule: rev_cases) (auto simp: next_cursor_def sorted_wrt_append)
  have high: "next_cursor c page < ev_sequence e" if "e \<in> set rest" for e
  proof (cases "page = []")
    case True
    with that above show ?thesis by (simp add: next_cursor_def)
  next
    case False
    with that sorted show ?thesis by (auto simp: next_cursor_def sorted_wrt_append)
  qed
  have "log_after i (next_cursor c page) d = filter (\<lambda>e. next_cursor c page < ev_sequence e) (log_after i c d)"
    using cursor by (auto simp: log_after_def intro!: filter_cong)
  also have "\<dots> = rest"
    unfolding log using low high by (fastforce simp: filter_empty_conv filter_id_conv not_less)
  finally show "rest = log_after i (next_cursor c page) d" ..
qed

section \<open>The calls of the loop\<close>

lemma served_steps:
  assumes "healthy fp m" and "served fp token p q m resp m'"
  shows "healthy fp m'" and "(store_step fp)\<^sup>*\<^sup>* (store m) (store m')"
proof -
  obtain m1 en where o: "others fp m m1" and en: "cf_fingerprint (en_config en) = fp" "en_id en \<noteq> []"
    and serve: "manager_serve en token (principalHeaders token p) q m1 = (resp, m')"
    using assms(2) by (auto simp: served_def)
  show "healthy fp m'" by (rule healthy_serve [OF healthy_others [OF assms(1) o] en serve])
  have "(store_step fp)\<^sup>*\<^sup>* (store m) (store m1)" using o by (simp add: others_def)
  with serve_steps [OF serve] show "(store_step fp)\<^sup>*\<^sup>* (store m) (store m')"
    unfolding en(1) by (rule rtranclp_trans [rotated])
qed

lemma served_page:
  assumes h: "healthy fp m" and call: "served fp token p (events_call i c) m (status, EventsBody page) m'"
    and c: "0 \<le> c" "c \<le> MAX_SAFE_INTEGER" and ok: "status < 400"
  obtains r n where "find_run i (store m') = Some r" "page = take n (log_after i c (store m'))"
proof -
  obtain m1 en where o: "others fp m m1"
    and serve: "manager_serve en token (principalHeaders token p) (events_call i c) m1 = ((status, EventsBody page), m')"
    using call by (auto simp: served_def)
  have "boundedInteger (Some (nat_digits (nat c))) 0 MAX_SAFE_INTEGER 0 = c"
    using c by (simp add: boundedInteger_def parse_int_nat_digits)
  with serve ok obtain run where run: "getRun i (store m1) = Some run" and m': "m' = m1"
    and page: "service_listEvents (en_config en) i c m1 = Inr page"
    by (auto simp: serve_headers events_call_def get_events_def with_principal_def with_run_def answer_def
        internal_error_def not_found_def owned_run_Some split: option.splits sum.splits)
  from run obtain r where r: "find_run i (store m1) = Some r" by (auto simp: getRun_def)
  obtain n where "page = take n (listEvents i c 256 (store m1))" using page_prefix(1) [OF page] by blast
  moreover have "reachable fp (store m1)" using healthy_others [OF h o] by (simp add: healthy_def)
  ultimately have "page = take n (take 256 (log_after i c (store m1)))"
    using list_is_log [OF _ r c(1)] by (simp add: sql_limit_def)
  with r m' that [of r "min n 256"] show thesis by simp
qed

lemma served_run:
  assumes "served fp token p (GetRun i) m (status, RunBody (Some run)) m'" and "status < 400"
  shows "getRun i (store m') = Some run"
  using assms get_run_answer by (fastforce simp: served_def)

lemma page_of_log:
  assumes h: "healthy fp m" and call: "served fp token p (events_call i c) m (status, EventsBody page) m1"
    and c: "0 \<le> c" "c \<le> MAX_SAFE_INTEGER" and ok: "status < 400"
    and later: "(store_step fp)\<^sup>*\<^sup>* (store m1) (store m')"
  shows "log_after i c (store m') = page @ log_after i (next_cursor c page) (store m')"
    and "c \<le> next_cursor c page"
proof -
  obtain r n where r: "find_run i (store m1) = Some r" and page: "page = take n (log_after i c (store m1))"
    by (rule served_page [OF h call c ok])
  obtain es where "run_events (store m') = run_events (store m1) @ es" using log_grows [OF later] by blast
  then obtain xs where "log_after i c (store m') = log_after i c (store m1) @ xs" by (simp add: log_after_def)
  then have log: "log_after i c (store m') = page @ drop n (log_after i c (store m1)) @ xs"
    by (simp add: page)
  have reach: "reachable fp (store m1)" using served_steps(1) [OF h call] by (simp add: healthy_def)
  have "r \<in> set (runs (store m1))" "rr_id r = i" using r by (auto dest: find_run_SomeD)
  from extends_runs_member [OF extends_runs_steps [OF later] this(1)] this(2) obtain r'
    where r': "r' \<in> set (runs (store m'))" "rr_id r' = i" by (metis identity_columns(1))
  note reach' = reachable_steps [OF later reach]
  have "find_run i (store m') = Some r'"
    using find_run_unique [OF reachable_runs_inv [OF reach']] r' by simp
  note numbers = log_numbers [OF reach' this c(1)]
  from after_page [OF log numbers] log
  show "log_after i c (store m') = page @ log_after i (next_cursor c page) (store m')" and "c \<le> next_cursor c page"
    by simp_all
qed

lemma next_cursor_bound:
  assumes "log_after i c d = page @ rest" and "\<forall>e\<in>set (run_events d). ev_sequence e \<le> b" and "c \<le> b"
  shows "next_cursor c page \<le> b"
proof (cases "page = []")
  case False
  then have "last page \<in> set (log_after i c d)" by (simp add: assms(1))
  with assms(2) False show ?thesis by (auto simp: next_cursor_def log_after_def)
qed (use assms in \<open>simp add: next_cursor_def\<close>)

lemma served_both:
  assumes "healthy fp m" and "served fp token p q m resp m1" and "served fp token p q' m1 resp' m'"
  shows "healthy fp m' \<and> (store_step fp)\<^sup>*\<^sup>* (store m) (store m')"
  using served_steps [OF assms(1,2)] served_steps [OF _ assms(3)] by (auto intro: rtranclp_trans)

lemma stream_steps:
  "event_stream fp token p i c m frames fin m' \<Longrightarrow> healthy fp m \<Longrightarrow>
   healthy fp m' \<and> (store_step fp)\<^sup>*\<^sup>* (store m) (store m')"
proof (induction rule: event_stream.induct)
  case (again cursor m status page m1 status' run m2 frames fin m')
  note h1 = served_steps [OF again.prems again.hyps(1)]
  note h2 = served_steps [OF h1(1) again.hyps(3)]
  from again.IH [OF h2(1)] h1(2) h2(2) show ?case by (auto intro: rtranclp_trans)
qed (simp, (blast dest: served_steps served_both)+)

text \<open>C16: An event stream is the log of its run. Whatever the Manager does meanwhile, the events the
  Gateway writes to a client that subscribed with the cursor \<open>c\<close> are, each once and in order, the
  first events of the run after \<open>c\<close>; and a stream the Gateway closes itself has delivered all of
  them up to the last one of the run, which is then over.\<close>

theorem event_stream_is_the_log:
  assumes "event_stream fp token p i c m frames fin m'"
    and "reachable fp (store m)" and "[] \<notin> rr_id ` set (runs (store m))"
    and "0 \<le> c" and "c \<le> MAX_SAFE_INTEGER" and "\<forall>e\<in>set (run_events (store m')). ev_sequence e \<le> MAX_SAFE_INTEGER"
  shows "(\<exists>n. delivered frames = take n (log_after i c (store m')))
    \<and> (fin = Finished \<longrightarrow> delivered frames = log_after i c (store m')
        \<and> (\<exists>run. getRun i (store m') = Some run \<and> isTerminalRunStatus (run_status run)))"
proof -
  have "healthy fp m" using assms(2,3) by (simp add: healthy_def)
  with assms(1,4-6) show ?thesis
  proof (induction rule: event_stream.induct)
    case (left cursor m)
    show ?case by (auto intro: exI [of _ 0])
  next
    case (no_events cursor m status body m')
    show ?case by (auto intro: exI [of _ 0])
  next
    case (left_within cursor m status page m' n)
    from page_of_log(1) [OF left_within.prems(4) left_within.hyps(1) left_within.prems(1,2) left_within.hyps(2)]
    have "log_after i cursor (store m') = page @ log_after i (next_cursor cursor page) (store m')" by blast
    then have "take n page = take (min n (length page)) (log_after i cursor (store m'))" by (simp add: min_def)
    then show ?case by (auto intro: exI [of _ "min n (length page)"])
  next
    case (no_run cursor m status page m1 status' body m')
    note h1 = served_steps [OF no_run.prems(4) no_run.hyps(1)]
    from page_of_log(1) [OF no_run.prems(4) no_run.hyps(1) no_run.prems(1,2) no_run.hyps(2)
      served_steps(2) [OF h1(1) no_run.hyps(3)]]
    show ?case by (auto intro: exI [of _ "length page"])
  next
    case (finish cursor m status page m1 status' run m')
    note h1 = served_steps [OF finish.prems(4) finish.hyps(1)]
    note h2 = served_steps [OF h1(1) finish.hyps(3)]
    note log = page_of_log [OF finish.prems(4) finish.hyps(1) finish.prems(1,2) finish.hyps(2) h2(2)]
    have run: "getRun i (store m') = Some run" by (rule served_run [OF finish.hyps(3,4)])
    then obtain r where r: "find_run i (store m') = Some r" "run = toRunRecord r" by (auto simp: getRun_def)
    have "reachable fp (store m')" using h2(1) by (simp add: healthy_def)
    from log_numbers [OF this r(1), of "next_cursor cursor page"] finish.prems(1) log(2) finish.hyps(5) r(2)
    have "log_after i (next_cursor cursor page) (store m') = []"
      by (simp add: stream_done_def toRunRecord_def)
    with log(1) run finish.hyps(5) show ?case by (auto simp: stream_done_def intro: exI [of _ "length page"])
  next
    case (again cursor m status page m1 status' run m2 frames fin m')
    note h1 = served_steps [OF again.prems(4) again.hyps(1)]
    note h2 = served_steps [OF h1(1) again.hyps(3)]
    have "(store_step fp)\<^sup>*\<^sup>* (store m1) (store m')"
      using h2(2) stream_steps [OF again.hyps(6) h2(1)] by (auto intro: rtranclp_trans)
    note log = page_of_log [OF again.prems(4) again.hyps(1) again.prems(1,2) again.hyps(2) this]
    have "next_cursor cursor page \<le> MAX_SAFE_INTEGER"
      by (rule next_cursor_bound [OF log(1) again.prems(3,2)])
    with again.IH [OF order_trans [OF again.prems(1) log(2)] _ again.prems(3) h2(1)]
    have "(\<exists>n. delivered frames = take n (log_after i (next_cursor cursor page) (store m')))
      \<and> (fin = Finished \<longrightarrow> delivered frames = log_after i (next_cursor cursor page) (store m')
        \<and> (\<exists>run. getRun i (store m') = Some run \<and> isTerminalRunStatus (run_status run)))" by blast
    then obtain n where n: "delivered frames = take n (log_after i (next_cursor cursor page) (store m'))"
      and fin: "fin = Finished \<longrightarrow> delivered frames = log_after i (next_cursor cursor page) (store m')
        \<and> (\<exists>run. getRun i (store m') = Some run \<and> isTerminalRunStatus (run_status run))" by blast
    have "page @ delivered frames = take (length page + n) (log_after i cursor (store m'))"
      by (simp add: log(1) n)
    with fin log(1) show ?case by (intro conjI exI [of _ "length page + n"]) auto
  qed
qed

lemma served_alone:
  "manager_serve example_env token (principalHeaders token p) q m = (resp, m') \<Longrightarrow>
   served example_fp token p q m resp m'"
  by (auto simp: served_def others_def example_env_def example_config_def
      intro!: exI [of _ m] exI [of _ example_env])

theorem event_stream_is_the_log_witness:
  "\<exists>frames m'. event_stream example_fp ''secret'' example_principal ''run_1'' 1 (manager_of db3) frames Finished m'
     \<and> map ev_sequence (delivered frames) = [2, 3]"
proof -
  let ?serve = "\<lambda>q. manager_serve example_env ''secret'' (principalHeaders ''secret'' example_principal) q (manager_of db3)"
  have "case ?serve (events_call ''run_1'' 1) of ((status, EventsBody page), m) \<Rightarrow>
      status = 200 \<and> map ev_sequence page = [2, 3] | _ \<Rightarrow> False"
    "case ?serve (GetRun ''run_1'') of ((status, RunBody (Some run)), m) \<Rightarrow>
      status = 200 \<and> stream_done run 3 | _ \<Rightarrow> False" by code_simp+
  then obtain page run m m' where calls: "?serve (events_call ''run_1'' 1) = ((200, EventsBody page), m)"
      "?serve (GetRun ''run_1'') = ((200, RunBody (Some run)), m')"
    and page: "map ev_sequence page = [2, 3]" "stream_done run 3"
    by (auto split: prod.splits api_body.splits option.splits)
  have "m = manager_of db3" "m' = manager_of db3"
    using calls get_run_answer(1) [OF calls(2)]
    by (auto simp: serve_headers events_call_def get_events_def with_principal_def with_run_def answer_def
        internal_error_def not_found_def split: option.splits sum.splits)
  note served = served_alone [OF calls(1)] served_alone [OF calls(2)]
  have "next_cursor 1 page = 3" using page(1) by (auto simp: next_cursor_def Cons_eq_map_conv map_eq_Cons_conv)
  with served page(2) \<open>m = _\<close> have stream: "event_stream example_fp ''secret'' example_principal ''run_1'' 1
      (manager_of db3) (map EventFrame page) Finished m'"
    by (auto intro: event_stream.finish)
  have bound: "\<forall>e\<in>set (run_events (store m')). ev_sequence e \<le> MAX_SAFE_INTEGER" "[] \<notin> rr_id ` set (runs (store (manager_of db3)))"
    unfolding \<open>m' = _\<close> by code_simp+
  have start: "reachable example_fp (store (manager_of db3))" using db_reachable(3) by (simp add: manager_of_def)
  have log: "map ev_sequence (log_after ''run_1'' 1 (store m')) = [2, 3]" unfolding \<open>m' = _\<close> by code_simp
  from event_stream_is_the_log [OF stream start bound(2) _ _ bound(1)] log
  have "map ev_sequence (delivered (map EventFrame page)) = [2, 3]" by (simp add: MAX_SAFE_INTEGER_def)
  with stream show ?thesis by (intro exI conjI)
qed

end
