(* ===== verification/RuntimeTools.thy ===== *)
theory RuntimeTools
  imports ControlValues
begin

text \<open>
  The tool runtimes of \<open>packages/runtime/src/index.ts\<close>: the check of workspace paths, the
  in-memory runtime, the broker that routes tools to handlers of the Manager, and the runtime
  that publishes artifacts.
\<close>

section \<open>Workspace paths\<close>

definition is_separator :: "char \<Rightarrow> bool" where
  "is_separator c \<longleftrightarrow> c = CHR ''/'' \<or> c = CHR 0x5C"

text \<open>\<open>path.split(/[\\/]/)\<close>\<close>

fun split_at :: "(char \<Rightarrow> bool) \<Rightarrow> string \<Rightarrow> string list" where
  "split_at sep [] = [[]]"
| "split_at sep (c # s) =
     (if sep c then [] # split_at sep s
      else (case split_at sep s of part # parts \<Rightarrow> (c # part) # parts | [] \<Rightarrow> [[c]]))"

definition is_letter :: "char \<Rightarrow> bool" where
  "is_letter c \<longleftrightarrow> (let n = (of_char c :: nat) in 65 \<le> n \<and> n \<le> 90 \<or> 97 \<le> n \<and> n \<le> 122)"

definition drive_prefix :: "string \<Rightarrow> bool" where
  "drive_prefix path = (case path of c # d # rest \<Rightarrow> is_letter c \<and> d = CHR '':'' | _ \<Rightarrow> False)"

definition validateWorkspacePath :: "string \<Rightarrow> bool" where
  "validateWorkspacePath path \<longleftrightarrow>
     path \<noteq> [] \<and> take 1 path \<noteq> ''/'' \<and> take 1 path \<noteq> [CHR 0x5C] \<and> \<not> drive_prefix path
     \<and> \<not> list_ex (\<lambda>part. part = ''..'' \<or> part = []) (split_at is_separator path)"

section \<open>Tools\<close>

datatype tool_error =
    ToolAborted
  | ArgumentNotString string
  | UnsafePath string
  | InvalidToolName string
  | AlreadyRegistered string
  | CollidesWithRuntime string
  | PublicationNeedsOwner
  | BytesNotAccepted
  | CannotPublish
  | FenceNotActive
  | FenceChanged
  | SourceNotFound string
  | ArtifactTooLarge int

text \<open>\<open>tq_aborted\<close> says whether the signal of the request has been aborted when it is looked at.\<close>

record tool_request =
  tq_workspaceId :: string
  tq_runId :: "string option"
  tq_principal :: "resource_owner option"
  tq_call :: tool_call
  tq_aborted :: bool

definition requireString :: "jsval \<Rightarrow> string \<Rightarrow> tool_error + string" where
  "requireString v field = from_option (ArgumentNotString field) (as_string v)"

definition authorizedWorkspaceArtifactPath :: "string \<Rightarrow> tool_error + string" where
  "authorizedWorkspaceArtifactPath path =
     (if validateWorkspacePath path then Inr path else Inl (UnsafePath path))"

definition tool_schema :: "string list \<Rightarrow> jsobject" where
  "tool_schema names = [(''type'', JStr ''object''),
     (''properties'', JObj (map (\<lambda>f. (f, JObj [(''type'', JStr ''string'')])) names)),
     (''required'', JArr (map JStr names)), (''additionalProperties'', JBool False)]"

definition WORKSPACE_TOOL_DEFINITIONS :: "tool_definition list" where
  "WORKSPACE_TOOL_DEFINITIONS =
     [\<lparr>td_name = ''read_file'', td_description = ''Read a UTF-8 file from the current workspace.'',
       td_inputSchema = tool_schema [''path'']\<rparr>,
      \<lparr>td_name = ''write_file'', td_description = ''Write UTF-8 content to a file in the current workspace.'',
       td_inputSchema = tool_schema [''path'', ''content'']\<rparr>]"

definition ARTIFACT_TOOL_DEFINITION :: tool_definition where
  "ARTIFACT_TOOL_DEFINITION = \<lparr>td_name = ''artifact_publish'',
     td_description = ''Publish a file from the current owned workspace as a downloadable run artifact.'',
     td_inputSchema = tool_schema [''path'', ''mediaType'']\<rparr>"

section \<open>The in-memory runtime\<close>

definition workspaceIdentity :: "string \<Rightarrow> resource_owner option \<Rightarrow> string" where
  "workspaceIdentity ws who = (case who of
     None \<Rightarrow> ws
   | Some ow \<Rightarrow>
       nat_digits (length (appId ow)) @ CHR '':'' # appId ow @ CHR '':''
       # nat_digits (length (tenantId ow)) @ CHR '':'' # tenantId ow @ CHR '':''
       # nat_digits (length (userId ow)) @ CHR '':'' # userId ow @ CHR '':'' # ws)"

type_synonym memory_files = "(string \<times> (string \<times> string) list) list"

definition files_of :: "string \<Rightarrow> memory_files \<Rightarrow> (string \<times> string) list" where
  "files_of identity ws = nullish (map_of ws identity) []"

definition readFile :: "string \<Rightarrow> string \<Rightarrow> resource_owner option \<Rightarrow> memory_files \<Rightarrow> string option" where
  "readFile ws path who files = map_of (files_of (workspaceIdentity ws who) files) path"

text \<open>A tool that is refused still leaves the (empty) map of its workspace behind.\<close>

definition memory_execute :: "tool_request \<Rightarrow> memory_files \<Rightarrow> (tool_error + tool_result) \<times> memory_files" where
  "memory_execute rq ws =
     (if tq_aborted rq then (Inl ToolAborted, ws) else
      let identity = workspaceIdentity (tq_workspaceId rq) (tq_principal rq);
          files = files_of identity ws;
          ws' = AList.update identity files ws;
          call = tq_call rq;
          args = tc_arguments call in
      if tc_name call = ''write_file'' then
        (case bind_result (requireString (obj_get args ''path'') ''path'') (\<lambda>path.
              bind_result (requireString (obj_get args ''content'') ''content'') (\<lambda>content.
              bind_result (authorizedWorkspaceArtifactPath path) (\<lambda>_. Inr (path, content)))) of
           Inl e \<Rightarrow> (Inl e, ws')
         | Inr (path, content) \<Rightarrow>
             (Inr \<lparr>tr_callId = tc_id call, tr_ok = True,
                   tr_content = ''Wrote '' @ nat_digits (length content) @ '' bytes to '' @ path,
                   tr_metadata = Some [(''path'', JStr path), (''bytes'', JNum (of_nat (length content)))]\<rparr>,
              AList.update identity (AList.update path content files) ws'))
      else if tc_name call = ''read_file'' then
        (case bind_result (requireString (obj_get args ''path'') ''path'') authorizedWorkspaceArtifactPath of
           Inl e \<Rightarrow> (Inl e, ws')
         | Inr path \<Rightarrow> (case map_of files path of
             None \<Rightarrow> (Inr \<lparr>tr_callId = tc_id call, tr_ok = False,
                 tr_content = ''File not found: '' @ path, tr_metadata = None\<rparr>, ws')
           | Some content \<Rightarrow> (Inr \<lparr>tr_callId = tc_id call, tr_ok = True, tr_content = content,
                 tr_metadata = Some [(''path'', JStr path)]\<rparr>, ws')))
      else (Inr \<lparr>tr_callId = tc_id call, tr_ok = False,
              tr_content = ''Unsupported tool: '' @ tc_name call, tr_metadata = None\<rparr>, ws'))"

text \<open>\<open>byte_length\<close> is the UTF-8 length of a text.\<close>

definition memory_readWorkspaceArtifact ::
  "(string \<Rightarrow> int) \<Rightarrow> tool_request \<Rightarrow> string \<Rightarrow> int \<Rightarrow> memory_files \<Rightarrow> tool_error + string" where
  "memory_readWorkspaceArtifact byte_length rq path maxBytes ws =
     (if tq_aborted rq then Inl ToolAborted
      else if \<not> validateWorkspacePath path then Inl (UnsafePath path)
      else (case readFile (tq_workspaceId rq) path (tq_principal rq) ws of
        None \<Rightarrow> Inl (SourceNotFound path)
      | Some content \<Rightarrow>
          if maxBytes < byte_length content then Inl (ArtifactTooLarge maxBytes) else Inr content))"

section \<open>The broker\<close>

text \<open>
  Handlers are compared by identity when one is unregistered: \<open>'h\<close> are their identities. A
  definition may depend on the context of a run and may be absent there.
\<close>

record ('c, 'h) tool_broker =
  tb_handlers :: "(string \<times> 'h) list"
  tb_definitions :: "(string \<times> ('c option \<Rightarrow> tool_definition option)) list"

definition is_tool_char :: "char \<Rightarrow> bool" where
  "is_tool_char c \<longleftrightarrow> (let n = (of_char c :: nat) in 97 \<le> n \<and> n \<le> 122 \<or> 48 \<le> n \<and> n \<le> 57 \<or> n = 95)"

text \<open>\<open>/^[a-z][a-z0-9_]{0,127}$/\<close>\<close>

definition valid_tool_name :: "string \<Rightarrow> bool" where
  "valid_tool_name name = (case name of [] \<Rightarrow> False
   | c # rest \<Rightarrow> is_letter c \<and> is_tool_char c \<and> length rest \<le> 127 \<and> list_all is_tool_char rest)"

definition canRegister :: "tool_definition list \<Rightarrow> string \<Rightarrow> ('c, 'h) tool_broker \<Rightarrow> bool" where
  "canRegister inner name b \<longleftrightarrow> map_of (tb_handlers b) name = None \<and> name \<notin> td_name ` set inner"

definition registerDynamic ::
  "tool_definition list \<Rightarrow> string \<Rightarrow> 'h \<Rightarrow> ('c option \<Rightarrow> tool_definition option)
    \<Rightarrow> ('c, 'h) tool_broker \<Rightarrow> tool_error + ('c, 'h) tool_broker" where
  "registerDynamic inner name handler definition b =
     (if \<not> valid_tool_name name then Inl (InvalidToolName name)
      else if map_of (tb_handlers b) name \<noteq> None then Inl (AlreadyRegistered name)
      else if list_ex (\<lambda>t. td_name t = name) inner then Inl (CollidesWithRuntime name)
      else Inr (b\<lparr>tb_handlers := AList.update name handler (tb_handlers b),
                  tb_definitions := AList.update name definition (tb_definitions b)\<rparr>))"

definition unregister :: "string \<Rightarrow> 'h option \<Rightarrow> ('c, 'h) tool_broker \<Rightarrow> bool \<times> ('c, 'h) tool_broker" where
  "unregister name expected b = (case map_of (tb_handlers b) name of
     None \<Rightarrow> (False, b)
   | Some current \<Rightarrow>
       if (case expected of None \<Rightarrow> False | Some h \<Rightarrow> current \<noteq> h) then (False, b)
       else (True, b\<lparr>tb_handlers := AList.delete name (tb_handlers b),
                     tb_definitions := AList.delete name (tb_definitions b)\<rparr>))"

text \<open>The map of the names in the order of their first insertion, the last definition winning.\<close>

definition broker_listTools ::
  "('c option \<Rightarrow> tool_definition list) \<Rightarrow> 'c option \<Rightarrow> ('c, 'h) tool_broker \<Rightarrow> tool_definition list" where
  "broker_listTools inner context b = map snd (fold (\<lambda>(name, resolve) combined.
       case resolve context of None \<Rightarrow> combined | Some d \<Rightarrow> AList.update name d combined)
     (tb_definitions b)
     (fold (\<lambda>d combined. AList.update (td_name d) d combined) (inner context) []))"

text \<open>Which handler executes a tool; \<open>None\<close> is the inner runtime.\<close>

definition broker_route :: "('c, 'h) tool_broker \<Rightarrow> tool_call \<Rightarrow> 'h option" where
  "broker_route b call = map_of (tb_handlers b) (tc_name call)"

section \<open>Publishing artifacts\<close>

text \<open>
  \<open>artifact_publish\<close> waits for the file to be read: \<open>artifact_begin\<close> is what happens before and
  yields the path to read and the media type, \<open>artifact_end\<close> what happens after. The fence is a
  check of the moment, absent when none is configured.
\<close>

definition artifact_begin ::
  "bool \<Rightarrow> bool option \<Rightarrow> tool_request \<Rightarrow> tool_error + (string \<times> string)" where
  "artifact_begin readable fence rq =
     (let args = tc_arguments (tq_call rq) in
      if tq_aborted rq then Inl ToolAborted
      else if truthy (tq_runId rq) = None \<or> tq_principal rq = None then Inl PublicationNeedsOwner
      else
        bind_result (requireString (obj_get args ''path'') ''path'') (\<lambda>raw.
        bind_result (authorizedWorkspaceArtifactPath raw) (\<lambda>path.
        bind_result (requireString (obj_get args ''mediaType'') ''mediaType'') (\<lambda>mediaType.
          if ''content'' \<in> fst ` set args \<or> ''dataBase64'' \<in> fst ` set args then Inl BytesNotAccepted
          else if \<not> readable then Inl CannotPublish
          else if fence = Some False then Inl FenceNotActive
          else Inr (path, mediaType)))))"

definition artifact_end :: "bool option \<Rightarrow> tool_error + unit" where
  "artifact_end fence = throw_if (fence = Some False) FenceChanged"

definition artifact_result :: "tool_call \<Rightarrow> string \<Rightarrow> string \<Rightarrow> string \<Rightarrow> num \<Rightarrow> tool_result" where
  "artifact_result call i path sha256 sizeBytes = \<lparr>tr_callId = tc_id call, tr_ok = True,
     tr_content = ''Published artifact '' @ i,
     tr_metadata = Some [(''artifactId'', JStr i), (''path'', JStr path), (''sha256'', JStr sha256),
       (''sizeBytes'', JNum sizeBytes)]\<rparr>"

section \<open>A checked path stays in the workspace\<close>

text \<open>How a file system walks along a path below a directory: \<open>None\<close> when it leaves the top.\<close>

fun walk :: "string list \<Rightarrow> string list \<Rightarrow> string list option" where
  "walk dir [] = Some dir"
| "walk dir (part # parts) =
     (if part = [] \<or> part = ''.'' then walk dir parts
      else if part = ''..'' then (if dir = [] then None else walk (butlast dir) parts)
      else walk (dir @ [part]) parts)"

lemma split_nonempty: "split_at sep s \<noteq> []"
  by (induction s) (auto split: list.split)

lemma walk_down:
  "''..'' \<notin> set parts \<Longrightarrow> walk dir parts = Some (dir @ filter (\<lambda>p. p \<noteq> [] \<and> p \<noteq> ''.'') parts)"
  by (induction parts arbitrary: dir) auto

end
