(* ===== verification/AgentLoop.thy ===== *)
theory AgentLoop
  imports ControlPlane RuntimeTools
begin

text \<open>
  The loop of an agent, \<open>AgentRunner.run\<close> of \<open>packages/agent-runtime/src/index.ts\<close>: it asks the
  model for a turn, executes the tools the model calls, hands the results back, and goes on
  until the model stops. The model, the tools, the context compiler and the callbacks of the
  coordinator are operations on a world \<open>'w\<close>, which is whatever they share; \<open>'e\<close> are their errors.
\<close>

section \<open>The model's side\<close>

record provider_error =
  pe_code :: string
  pe_retryable :: bool

datatype finish_reason = FinishStop | FinishToolCalls

record model_usage =
  mu_inputTokens :: num
  mu_outputTokens :: num
  mu_cachedInputTokens :: "num option"
  mu_cacheWriteInputTokens :: "num option"
  mu_imageInputTokens :: "num option"
  mu_costUsd :: "num option"

datatype model_event =
    TextDelta string
  | ModelToolCall tool_call
  | ModelUsage model_usage
  | ModelCompleted finish_reason

record prepared_route =
  pr_routePlanId :: string
  pr_modelId :: string
  pr_providerId :: string
  pr_capabilities :: "model_capability list"
  pr_contextWindow :: num

text \<open>\<open>json_length\<close> is the length of the JSON text of the messages and the tools.\<close>

definition estimateModelContextTokens ::
  "(model_message list \<Rightarrow> tool_definition list \<Rightarrow> nat) \<Rightarrow> model_message list \<Rightarrow> tool_definition list \<Rightarrow> int" where
  "estimateModelContextTokens json_length messages tools = \<lceil>of_nat (json_length messages tools) / (4 :: num)\<rceil>"

definition assertModelContextFits ::
  "(model_message list \<Rightarrow> tool_definition list \<Rightarrow> nat) \<Rightarrow> model_message list \<Rightarrow> num
    \<Rightarrow> tool_definition list \<Rightarrow> provider_error + unit" where
  "assertModelContextFits json_length messages contextWindow tools =
     throw_if (contextWindow < of_int (estimateModelContextTokens json_length messages tools))
       \<lparr>pe_code = ''context_limit_exceeded'', pe_retryable = False\<rparr>"

section \<open>Errors, parameters, the world\<close>

datatype 'e agent_error =
    ProviderFailure provider_error
  | ToolNotAdvertised string
  | InvalidToolArguments string
  | InvalidToolSchema string
  | InvalidCommandTimeout
  | InvalidArtifactMetadata
  | TurnWithoutStop
  | TurnLimitExceeded num
  | OutOfFuel
  | Raised 'e

record agent_params =
  gp_input :: string
  gp_instructions :: "string option"
  gp_allowedTools :: "string list option"
  gp_maxCostUsd :: "num option"
  gp_requireAuthoritativeUsage :: "bool option"
  gp_allowUnmeteredUsage :: "bool option"
  gp_history :: "model_message list option"
  gp_maxTurns :: "num option"
  gp_commandTimeoutMs :: "num option"

text \<open>
  What the runner calls. \<open>aw_next\<close> is the next item of the model's stream, with its idle timeout
  and the abort signal; \<open>None\<close> is its end. \<open>aw_before\<close> is \<open>beforeToolCall\<close>: it may hand back a
  check for the moment of the execution. \<open>aw_validator\<close> compiles a schema (a third-party
  validator; \<open>None\<close> when it refuses the schema).
\<close>

record ('w, 'e) agent_world =
  aw_prepareRoute :: "'w \<Rightarrow> ('e + prepared_route option) \<times> 'w"
  aw_prepareTools :: "'w \<Rightarrow> ('e + unit) \<times> 'w"
  aw_compile :: "prepared_route option \<Rightarrow> 'w \<Rightarrow> ('e + model_message list) \<times> 'w"
  aw_listTools :: "'w \<Rightarrow> tool_definition list"
  aw_onPrepared :: "prepared_route option \<Rightarrow> tool_definition list \<Rightarrow> 'w \<Rightarrow> ('e + unit) \<times> 'w"
  aw_aborted :: "'w \<Rightarrow> 'e option"
  aw_takeSteering :: "'w \<Rightarrow> model_message list \<times> 'w"
  aw_streamTurn :: "model_message list \<Rightarrow> tool_definition list \<Rightarrow> 'w \<Rightarrow> 'w"
  aw_next :: "'w \<Rightarrow> ('e agent_error + model_event option) \<times> 'w"
  aw_onEvent :: "agent_event \<Rightarrow> 'w \<Rightarrow> ('e + unit) \<times> 'w"
  aw_before :: "tool_call \<Rightarrow> 'w \<Rightarrow> ('e + ('w \<Rightarrow> 'e + unit) option) \<times> 'w"
  aw_execute :: "tool_call \<Rightarrow> 'w \<Rightarrow> ('e + tool_result) \<times> 'w"
  aw_validator :: "jsobject \<Rightarrow> (jsobject \<Rightarrow> bool) option"
  aw_json_length :: "model_message list \<Rightarrow> tool_definition list \<Rightarrow> nat"

text \<open>
  The state of a run: the conversation, the world, and the trace of what the runner did. A call is
  in the trace with the world it was executed in.
\<close>

datatype 'w agent_action =
    ModelAsked "model_message list"
  | Emitted agent_event
  | Authorized tool_call
  | Executed tool_call 'w

record 'w agent_state =
  gs_messages :: "model_message list"
  gs_trace :: "'w agent_action list"
  gs_world :: 'w

type_synonym ('w, 'e, 'a) step = "'w agent_state \<Rightarrow> ('e agent_error + 'a) \<times> 'w agent_state"

definition bind_step :: "('w, 'e, 'a) step \<Rightarrow> ('a \<Rightarrow> ('w, 'e, 'b) step) \<Rightarrow> ('w, 'e, 'b) step" where
  "bind_step f g s = (case f s of (Inl e, s') \<Rightarrow> (Inl e, s') | (Inr a, s') \<Rightarrow> g a s')"

definition return_step :: "'a \<Rightarrow> ('w, 'e, 'a) step" where "return_step a s = (Inr a, s)"

definition check_step :: "'e agent_error + 'a \<Rightarrow> ('w, 'e, 'a) step" where "check_step r s = (r, s)"

definition modify_step :: "('w agent_state \<Rightarrow> 'w agent_state) \<Rightarrow> ('w, 'e, unit) step" where
  "modify_step f s = (Inr (), f s)"

definition act :: "'w agent_action \<Rightarrow> ('w, 'e, unit) step" where
  "act a = modify_step (\<lambda>s. s\<lparr>gs_trace := gs_trace s @ [a]\<rparr>)"

definition push_message :: "model_message \<Rightarrow> ('w, 'e, unit) step" where
  "push_message m = modify_step (\<lambda>s. s\<lparr>gs_messages := gs_messages s @ [m]\<rparr>)"

text \<open>An operation of the world, and what it throws.\<close>

definition on_world :: "('w \<Rightarrow> ('e agent_error + 'a) \<times> 'w) \<Rightarrow> ('w, 'e, 'a) step" where
  "on_world f s = (case f (gs_world s) of (r, w) \<Rightarrow> (r, s\<lparr>gs_world := w\<rparr>))"

fun raise :: "'e + 'a \<Rightarrow> 'e agent_error + 'a" where
  "raise (Inl e) = Inl (Raised e)"
| "raise (Inr a) = Inr a"

definition raising :: "('w \<Rightarrow> ('e + 'a) \<times> 'w) \<Rightarrow> 'w \<Rightarrow> ('e agent_error + 'a) \<times> 'w" where
  "raising f w = (case f w of (r, w') \<Rightarrow> (raise r, w'))"

definition emit :: "('w, 'e) agent_world \<Rightarrow> run_event_type \<Rightarrow> jsobject \<Rightarrow> ('w, 'e, unit) step" where
  "emit aw ty payload =
     (let e = \<lparr>ag_type = ty, ag_payload = payload\<rparr> in
      bind_step (act (Emitted e)) (\<lambda>_. on_world (raising (aw_onEvent aw e))))"

section \<open>A turn of the model\<close>

record turn_state =
  ts_text :: string
  ts_calls :: "tool_call list"
  ts_finish :: "finish_reason option"
  ts_usage :: bool

definition provider_failure :: "string \<Rightarrow> 'e agent_error" where
  "provider_failure code = ProviderFailure \<lparr>pe_code = code, pe_retryable = False\<rparr>"

definition optional_num :: "string \<Rightarrow> num option \<Rightarrow> jsobject" where
  "optional_num k x = (case x of None \<Rightarrow> [] | Some n \<Rightarrow> [(k, JNum n)])"

definition usage_payload :: "model_usage \<Rightarrow> jsobject" where
  "usage_payload u = [(''type'', JStr ''usage''), (''inputTokens'', JNum (mu_inputTokens u)),
     (''outputTokens'', JNum (mu_outputTokens u))]
     @ optional_num ''cachedInputTokens'' (mu_cachedInputTokens u)
     @ optional_num ''cacheWriteInputTokens'' (mu_cacheWriteInputTokens u)
     @ optional_num ''imageInputTokens'' (mu_imageInputTokens u)
     @ optional_num ''costUsd'' (mu_costUsd u)"

fun handle_event ::
  "('w, 'e) agent_world \<Rightarrow> agent_params \<Rightarrow> nat \<Rightarrow> model_event \<Rightarrow> turn_state \<Rightarrow> ('w, 'e, turn_state) step" where
  "handle_event aw p turn (TextDelta delta) ts =
     bind_step (emit aw AgentMessageDelta [(''delta'', JStr delta), (''turn'', JNum (of_nat turn))])
       (\<lambda>_. return_step (ts\<lparr>ts_text := ts_text ts @ delta\<rparr>))"
| "handle_event aw p turn (ModelToolCall call) ts = return_step (ts\<lparr>ts_calls := ts_calls ts @ [call]\<rparr>)"
| "handle_event aw p turn (ModelUsage u) ts =
     (if gp_maxCostUsd p \<noteq> None \<and> mu_costUsd u = None
      then check_step (Inl (provider_failure ''unknown_model_price''))
      else bind_step (emit aw UsageUpdated (usage_payload u)) (\<lambda>_. return_step (ts\<lparr>ts_usage := True\<rparr>)))"
| "handle_event aw p turn (ModelCompleted reason) ts = return_step (ts\<lparr>ts_finish := Some reason\<rparr>)"

text \<open>A stream of the model may be endless: \<open>fuel\<close> bounds its items.\<close>

primrec read_stream ::
  "('w, 'e) agent_world \<Rightarrow> agent_params \<Rightarrow> nat \<Rightarrow> nat \<Rightarrow> turn_state \<Rightarrow> ('w, 'e, turn_state) step" where
  "read_stream aw p turn 0 ts = check_step (Inl OutOfFuel)"
| "read_stream aw p turn (Suc fuel) ts = bind_step (on_world (aw_next aw)) (\<lambda>next. case next of
     None \<Rightarrow> return_step ts
   | Some event \<Rightarrow> bind_step (handle_event aw p turn event ts) (read_stream aw p turn fuel))"

section \<open>Tools\<close>

type_synonym validators = "(string \<times> (jsobject \<Rightarrow> bool)) list"

text \<open>The cache of compiled schemas only saves recompiling and is left out.\<close>

fun compileAdvertisedToolValidators ::
  "(jsobject \<Rightarrow> (jsobject \<Rightarrow> bool) option) \<Rightarrow> tool_definition list \<Rightarrow> validators
    \<Rightarrow> 'e agent_error + validators" where
  "compileAdvertisedToolValidators compile [] vs = Inr vs"
| "compileAdvertisedToolValidators compile (t # tools) vs =
     (if map_of vs (td_name t) \<noteq> None then Inl (InvalidToolSchema (td_name t))
      else (case compile (td_inputSchema t) of
        None \<Rightarrow> Inl (InvalidToolSchema (td_name t))
      | Some validate \<Rightarrow> compileAdvertisedToolValidators compile tools (vs @ [(td_name t, validate)])))"

definition validateAdvertisedToolArguments :: "tool_call \<Rightarrow> validators \<Rightarrow> 'e agent_error + unit" where
  "validateAdvertisedToolArguments call vs = (case map_of vs (tc_name call) of
     None \<Rightarrow> Inl (ToolNotAdvertised (tc_name call))
   | Some validate \<Rightarrow> throw_if (\<not> validate (tc_arguments call)) (InvalidToolArguments (tc_name call)))"

definition is_hex :: "char \<Rightarrow> bool" where
  "is_hex c \<longleftrightarrow> (let n = (of_char c :: nat) in 97 \<le> n \<and> n \<le> 102 \<or> 48 \<le> n \<and> n \<le> 57)"

definition artifact_id_ok :: "jsval \<Rightarrow> bool" where
  "artifact_id_ok v = (case v of JStr s \<Rightarrow>
     take 4 s = ''art_'' \<and> length (drop 4 s) = 32 \<and> list_all is_hex (drop 4 s) | _ \<Rightarrow> False)"

definition sha256_ok :: "jsval \<Rightarrow> bool" where
  "sha256_ok v = (case v of JStr s \<Rightarrow> length s = 64 \<and> list_all is_hex s | _ \<Rightarrow> False)"

definition size_ok :: "jsval \<Rightarrow> bool" where
  "size_ok v = (case v of JNum n \<Rightarrow> of_int \<lfloor>n\<rfloor> = n \<and> n \<le> of_int MAX_SAFE_INTEGER \<and> 0 \<le> n | _ \<Rightarrow> False)"

definition path_ok :: "jsval \<Rightarrow> bool" where
  "path_ok v = (case v of JStr s \<Rightarrow> authorizedWorkspaceArtifactPath s = Inr s | _ \<Rightarrow> False)"

definition artifactCreatedPayload :: "tool_call \<Rightarrow> tool_result \<Rightarrow> 'e agent_error + jsobject option" where
  "artifactCreatedPayload call r =
     (if tc_name call \<noteq> ''artifact_publish'' \<or> \<not> tr_ok r then Inr None
      else
        let m = nullish (tr_metadata r) [];
            artifactId = obj_get m ''artifactId''; path = obj_get m ''path'';
            sha256 = obj_get m ''sha256''; sizeBytes = obj_get m ''sizeBytes'' in
        if artifact_id_ok artifactId \<and> path_ok path \<and> sha256_ok sha256 \<and> size_ok sizeBytes
        then Inr (Some [(''artifactId'', artifactId), (''path'', path), (''sha256'', sha256),
               (''sizeBytes'', sizeBytes)])
        else Inl InvalidArtifactMetadata)"

definition timeout_ok :: "agent_params \<Rightarrow> bool" where
  "timeout_ok p = (let t = nullish (gp_commandTimeoutMs p) 300000 in
     of_int \<lfloor>t\<rfloor> = t \<and> 100 \<le> t \<and> t \<le> 3600000)"

text \<open>\<open>beforeToolCall\<close>, then the check it handed back.\<close>

definition authorize :: "('w, 'e) agent_world \<Rightarrow> tool_call \<Rightarrow> ('w, 'e, unit) step" where
  "authorize aw call = bind_step (on_world (raising (aw_before aw call))) (\<lambda>assertAuthorized.
     bind_step (on_world (\<lambda>w. (case assertAuthorized of
         None \<Rightarrow> Inr () | Some check \<Rightarrow> raise (check w), w)))
       (\<lambda>_. act (Authorized call)))"

definition execute_tool :: "('w, 'e) agent_world \<Rightarrow> tool_call \<Rightarrow> ('w, 'e, tool_result) step" where
  "execute_tool aw call =
     bind_step (modify_step (\<lambda>s. s\<lparr>gs_trace := gs_trace s @ [Executed call (gs_world s)]\<rparr>))
       (\<lambda>_. on_world (raising (aw_execute aw call)))"

definition completed_payload :: "tool_result \<Rightarrow> jsobject" where
  "completed_payload r = [(''callId'', JStr (tr_callId r)), (''ok'', JBool (tr_ok r)),
     (''content'', JStr (tr_content r))]
     @ (case tr_metadata r of None \<Rightarrow> [] | Some m \<Rightarrow> [(''metadata'', JObj m)])"

definition tool_message :: "tool_result \<Rightarrow> model_message" where
  "tool_message r = \<lparr>mm_role = ToolRole, mm_content = tr_content r, mm_toolCalls = None,
     mm_toolCallId = Some (tr_callId r)\<rparr>"

definition requested_event :: "tool_call \<Rightarrow> agent_event" where
  "requested_event call = \<lparr>ag_type = ToolCallRequested, ag_payload = [(''callId'', JStr (tc_id call)),
     (''name'', JStr (tc_name call)), (''arguments'', JObj (tc_arguments call))]\<rparr>"

definition tool_step ::
  "('w, 'e) agent_world \<Rightarrow> agent_params \<Rightarrow> validators \<Rightarrow> tool_call \<Rightarrow> ('w, 'e, unit) step" where
  "tool_step aw p vs call =
     bind_step (check_step (validateAdvertisedToolArguments call vs)) (\<lambda>_.
     bind_step (emit aw ToolCallRequested (ag_payload (requested_event call))) (\<lambda>_.
     bind_step (authorize aw call) (\<lambda>_.
     bind_step (check_step (throw_if (\<not> timeout_ok p) InvalidCommandTimeout)) (\<lambda>_.
     bind_step (execute_tool aw call) (\<lambda>r.
     bind_step (check_step (artifactCreatedPayload call r)) (\<lambda>artifact.
     bind_step (emit aw ToolCallCompleted (completed_payload r)) (\<lambda>_.
     bind_step (case artifact of None \<Rightarrow> return_step () | Some payload \<Rightarrow> emit aw ArtifactCreated payload) (\<lambda>_.
       push_message (tool_message r)))))))))"

primrec tool_steps ::
  "('w, 'e) agent_world \<Rightarrow> agent_params \<Rightarrow> validators \<Rightarrow> tool_call list \<Rightarrow> ('w, 'e, unit) step" where
  "tool_steps aw p vs [] = return_step ()"
| "tool_steps aw p vs (call # calls) = bind_step (tool_step aw p vs call) (\<lambda>_. tool_steps aw p vs calls)"

section \<open>The loop\<close>

definition assistant_message :: "turn_state \<Rightarrow> model_message" where
  "assistant_message ts = \<lparr>mm_role = AssistantRole, mm_content = ts_text ts,
     mm_toolCalls = Some (ts_calls ts), mm_toolCallId = None\<rparr>"

definition start_turn ::
  "('w, 'e) agent_world \<Rightarrow> prepared_route option \<Rightarrow> tool_definition list \<Rightarrow> ('w, 'e, unit) step" where
  "start_turn aw route tools =
     bind_step (on_world (\<lambda>w. (case aw_aborted aw w of None \<Rightarrow> Inr () | Some e \<Rightarrow> Inl (Raised e), w))) (\<lambda>_.
     bind_step (on_world (\<lambda>w. case aw_takeSteering aw w of (ms, w') \<Rightarrow> (Inr ms, w'))) (\<lambda>steering.
     bind_step (modify_step (\<lambda>s. s\<lparr>gs_messages := gs_messages s @ steering\<rparr>)) (\<lambda>_ s.
       case route of
         None \<Rightarrow> (Inr (), s)
       | Some r \<Rightarrow>
           (case assertModelContextFits (aw_json_length aw) (gs_messages s) (pr_contextWindow r) tools of
              Inl e \<Rightarrow> (Inl (ProviderFailure e), s) | Inr u \<Rightarrow> (Inr (), s)))))"

definition ask_model ::
  "('w, 'e) agent_world \<Rightarrow> agent_params \<Rightarrow> tool_definition list \<Rightarrow> nat \<Rightarrow> nat \<Rightarrow> ('w, 'e, turn_state) step" where
  "ask_model aw p tools fuel turn =
     bind_step (modify_step (\<lambda>s. s\<lparr>gs_trace := gs_trace s @ [ModelAsked (gs_messages s)],
         gs_world := aw_streamTurn aw (gs_messages s) tools (gs_world s)\<rparr>)) (\<lambda>_.
       read_stream aw p turn fuel \<lparr>ts_text = [], ts_calls = [], ts_finish = None, ts_usage = False\<rparr>)"

definition check_turn :: "agent_params \<Rightarrow> turn_state \<Rightarrow> 'e agent_error + unit" where
  "check_turn p ts =
     (if ts_finish ts = None then Inl (provider_failure ''provider_stream_truncated'')
      else if gp_requireAuthoritativeUsage p = Some True \<and> \<not> ts_usage ts
        \<and> gp_allowUnmeteredUsage p \<noteq> Some True
      then Inl (provider_failure ''provider_usage_missing'')
      else Inr ())"

text \<open>A turn answers whether the agent is done.\<close>

definition agent_turn ::
  "('w, 'e) agent_world \<Rightarrow> agent_params \<Rightarrow> prepared_route option \<Rightarrow> tool_definition list \<Rightarrow> validators
    \<Rightarrow> nat \<Rightarrow> nat \<Rightarrow> ('w, 'e, bool) step" where
  "agent_turn aw p route tools vs fuel turn =
     bind_step (start_turn aw route tools) (\<lambda>_.
     bind_step (ask_model aw p tools fuel turn) (\<lambda>ts.
     bind_step (check_step (check_turn p ts)) (\<lambda>_.
     bind_step (push_message (assistant_message ts)) (\<lambda>_.
     bind_step (emit aw AgentMessageCompleted [(''role'', JStr ''assistant''), (''content'', JStr (ts_text ts)),
         (''toolCalls'', JArr (map call_object (ts_calls ts))), (''turn'', JNum (of_nat turn))]) (\<lambda>_.
     bind_step (tool_steps aw p vs (ts_calls ts)) (\<lambda>_.
       if ts_finish ts = Some FinishStop \<and> ts_calls ts = [] then return_step True
       else if ts_finish ts \<noteq> Some FinishToolCalls \<and> ts_calls ts = [] then check_step (Inl TurnWithoutStop)
       else return_step False))))))"

primrec agent_turns ::
  "('w, 'e) agent_world \<Rightarrow> agent_params \<Rightarrow> prepared_route option \<Rightarrow> tool_definition list \<Rightarrow> validators
    \<Rightarrow> num \<Rightarrow> nat \<Rightarrow> nat \<Rightarrow> nat \<Rightarrow> ('w, 'e, unit) step" where
  "agent_turns aw p route tools vs limit fuel turn 0 = check_step (Inl (TurnLimitExceeded limit))"
| "agent_turns aw p route tools vs limit fuel turn (Suc n) =
     bind_step (agent_turn aw p route tools vs fuel turn) (\<lambda>finished.
       if finished then return_step () else agent_turns aw p route tools vs limit fuel (Suc turn) n)"

section \<open>A run\<close>

definition system_message :: "string option \<Rightarrow> model_message list" where
  "system_message instructions = (case instructions of
     None \<Rightarrow> []
   | Some s \<Rightarrow> if trim s = [] then []
       else [\<lparr>mm_role = SystemRole, mm_content = trim s, mm_toolCalls = None, mm_toolCallId = None\<rparr>])"

definition initial_messages :: "agent_params \<Rightarrow> model_message list \<Rightarrow> model_message list" where
  "initial_messages p compiled = system_message (gp_instructions p) @ compiled
     @ (case nonempty (gp_history p) of
          Some history \<Rightarrow> history
        | None \<Rightarrow> [\<lparr>mm_role = UserRole, mm_content = gp_input p, mm_toolCalls = None, mm_toolCallId = None\<rparr>])"

definition advertised_tools :: "agent_params \<Rightarrow> tool_definition list \<Rightarrow> tool_definition list" where
  "advertised_tools p tools = filter (\<lambda>t. td_name t \<in> set (nullish (gp_allowedTools p) [])) tools"

definition turn_limit :: "num \<Rightarrow> agent_params \<Rightarrow> num" where
  "turn_limit default_turns p = nullish (gp_maxTurns p) default_turns"

text \<open>
  What comes before the first turn: the route, the tools and the context are prepared, the
  schemas of the allowed tools are compiled, and the coordinator freezes its snapshot (with the
  snapshot of the context, which is part of \<open>aw_onPrepared\<close>).
\<close>

definition prepare_run ::
  "('w, 'e) agent_world \<Rightarrow> agent_params
    \<Rightarrow> ('w, 'e, prepared_route option \<times> tool_definition list \<times> validators) step" where
  "prepare_run aw p =
     bind_step (on_world (raising (aw_prepareRoute aw))) (\<lambda>route.
     bind_step (on_world (raising (aw_prepareTools aw))) (\<lambda>_.
     bind_step (on_world (raising (aw_compile aw route))) (\<lambda>compiled.
     bind_step (modify_step (\<lambda>s. s\<lparr>gs_messages := initial_messages p compiled\<rparr>)) (\<lambda>_.
     bind_step (on_world (\<lambda>w. (Inr (advertised_tools p (aw_listTools aw w)), w))) (\<lambda>tools.
     bind_step (check_step (compileAdvertisedToolValidators (aw_validator aw) tools [])) (\<lambda>vs.
     bind_step (on_world (raising (aw_onPrepared aw route tools))) (\<lambda>_.
       return_step (route, tools, vs))))))))"

text \<open>
  \<open>default_turns\<close> is the \<open>maxTurns\<close> of the runner. The loop rounds a limit that is no integer up.
\<close>

definition agent_run ::
  "('w, 'e) agent_world \<Rightarrow> num \<Rightarrow> agent_params \<Rightarrow> nat \<Rightarrow> 'w \<Rightarrow> ('e agent_error + unit) \<times> 'w agent_state" where
  "agent_run aw default_turns p fuel w =
     bind_step (prepare_run aw p) (\<lambda>(route, tools, vs).
       agent_turns aw p route tools vs (turn_limit default_turns p) fuel 0
         (nat \<lceil>turn_limit default_turns p\<rceil>))
     \<lparr>gs_messages = [], gs_trace = [], gs_world = w\<rparr>"

end
