(* ===== verification/AgentTraces.thy ===== *)
theory AgentTraces
  imports AgentLoop
begin

text \<open>
  What the agent's loop appends to its trace: a small calculus of steps, and the traces of the
  parts of the loop.
\<close>

named_theorems step_defs \<open>the definitions of the sequencing of steps\<close>

declare bind_step_def [step_defs] return_step_def [step_defs] check_step_def [step_defs]
  modify_step_def [step_defs] on_world_def [step_defs] raising_def [step_defs]

section \<open>Sequencing\<close>

lemma bind_step_Inr:
  "bind_step f g s = (Inr b, s') \<longleftrightarrow> (\<exists>a s1. f s = (Inr a, s1) \<and> g a s1 = (Inr b, s'))"
  by (auto simp: bind_step_def split: prod.splits sum.splits)

lemma bind_step_Inl:
  "bind_step f g s = (Inl e, s') \<longleftrightarrow> f s = (Inl e, s') \<or> (\<exists>a s1. f s = (Inr a, s1) \<and> g a s1 = (Inl e, s'))"
  by (auto simp: bind_step_def split: prod.splits sum.splits)

definition appends :: "('w, 'e, 'a) step \<Rightarrow> ('w agent_action list \<Rightarrow> bool) \<Rightarrow> bool" where
  "appends f Q \<longleftrightarrow> (\<forall>s r s'. f s = (r, s') \<longrightarrow> (\<exists>xs. gs_trace s' = gs_trace s @ xs \<and> Q xs))"

lemma appends_bind:
  assumes "appends f Q1" and "\<And>a. appends (g a) Q2"
    and "\<And>xs. Q1 xs \<Longrightarrow> Q xs" and "\<And>xs ys. Q1 xs \<Longrightarrow> Q2 ys \<Longrightarrow> Q (xs @ ys)"
  shows "appends (bind_step f g) Q"
  unfolding appends_def
proof (intro allI impI)
  fix s r s' assume step: "bind_step f g s = (r, s')"
  obtain r1 s1 where f: "f s = (r1, s1)" by fastforce
  with assms(1) obtain xs where xs: "gs_trace s1 = gs_trace s @ xs" "Q1 xs"
    unfolding appends_def by blast
  show "\<exists>xs. gs_trace s' = gs_trace s @ xs \<and> Q xs"
  proof (cases r1)
    case (Inl e)
    with step f xs assms(3) show ?thesis by (auto simp: bind_step_def)
  next
    case (Inr a)
    with step f have "g a s1 = (r, s')" by (simp add: bind_step_def)
    with assms(2) obtain ys where "gs_trace s' = gs_trace s1 @ ys" "Q2 ys" unfolding appends_def by blast
    with xs assms(4) show ?thesis by (intro exI [of _ "xs @ ys"]) simp
  qed
qed

lemma appends_mono: "appends f Q1 \<Longrightarrow> (\<And>xs. Q1 xs \<Longrightarrow> Q xs) \<Longrightarrow> appends f Q"
  by (force simp: appends_def)

text \<open>A property of traces that holds of the empty trace and is kept by appending.\<close>

definition composable :: "('w agent_action list \<Rightarrow> bool) \<Rightarrow> bool" where
  "composable Q \<longleftrightarrow> Q [] \<and> (\<forall>xs ys. Q xs \<longrightarrow> Q ys \<longrightarrow> Q (xs @ ys))"

lemma appends_silent:
  assumes "composable Q"
  shows "appends (return_step a) Q" "appends (check_step r) Q" "appends (push_message m) Q" "appends (on_world h) Q"
    "(\<And>s. gs_trace (f s) = gs_trace s) \<Longrightarrow> appends (modify_step f) Q"
  using assms by (auto simp: appends_def composable_def step_defs push_message_def split: prod.splits)

lemma appends_then:
  assumes "composable Q" and "appends f Q" and "\<And>a. appends (g a) Q"
  shows "appends (bind_step f g) Q"
  by (rule appends_bind [OF assms(2,3)]) (use assms(1) in \<open>auto simp: composable_def\<close>)

lemma appends_act: "Q [a] \<Longrightarrow> appends (act a) Q"
  by (auto simp: appends_def act_def step_defs)

lemma appends_emit:
  assumes "composable Q" and "\<And>e. Q [Emitted e]"
  shows "appends (emit aw ty payload) Q"
  unfolding emit_def Let_def
  by (intro appends_then appends_act appends_silent assms)

section \<open>The parts of the loop\<close>

lemma appends_handle:
  assumes "composable Q" and "\<And>e. Q [Emitted e]"
  shows "appends (handle_event aw p turn ev ts) Q"
  using assms by (cases ev) (auto intro!: appends_then appends_emit appends_silent)

lemma appends_stream:
  assumes "composable Q" and "\<And>e. Q [Emitted e]"
  shows "appends (read_stream aw p turn fuel ts) Q"
proof (induction fuel arbitrary: ts)
  case 0
  show ?case by (simp add: appends_silent assms)
next
  case (Suc fuel)
  have "appends (case next of None \<Rightarrow> return_step ts
      | Some event \<Rightarrow> bind_step (handle_event aw p turn event ts) (read_stream aw p turn fuel)) Q" for "next"
    using Suc by (cases "next") (auto intro: appends_silent appends_then appends_handle assms)
  then show ?case by (simp add: appends_then appends_silent assms)
qed

lemma appends_tools:
  assumes "composable Q" and "\<And>call. appends (tool_step aw p vs call) Q"
  shows "appends (tool_steps aw p vs calls) Q"
  by (induction calls) (auto intro: appends_then appends_silent assms)

lemma appends_start: "composable Q \<Longrightarrow> appends (start_turn aw route tools) Q"
  unfolding start_turn_def
  by (intro appends_then appends_silent)
     (auto simp: appends_def composable_def split: option.splits sum.splits)

lemma appends_ask:
  assumes "composable Q" and "\<And>e. Q [Emitted e]" and "\<And>ms. Q [ModelAsked ms]"
  shows "appends (ask_model aw p tools fuel turn) Q"
  unfolding ask_model_def
  by (rule appends_then [OF assms(1) _ appends_stream [OF assms(1,2)]])
     (auto simp: appends_def step_defs intro: assms(3))

lemma appends_turn:
  assumes "composable Q" and "\<And>e. Q [Emitted e]" and "\<And>ms. Q [ModelAsked ms]"
    and "\<And>call. appends (tool_step aw p vs call) Q"
  shows "appends (agent_turn aw p route tools vs fuel turn) Q"
  unfolding agent_turn_def
  by (intro appends_then appends_start appends_ask appends_emit appends_tools appends_silent assms)
     (auto intro!: appends_silent assms)

lemma appends_turns:
  assumes "composable Q" and "\<And>e. Q [Emitted e]" and "\<And>ms. Q [ModelAsked ms]"
    and "\<And>call. appends (tool_step aw p vs call) Q"
  shows "appends (agent_turns aw p route tools vs limit fuel turn n) Q"
proof (induction n arbitrary: turn)
  case 0
  show ?case by (simp add: appends_silent assms)
next
  case (Suc n)
  have "appends (if b then return_step () else agent_turns aw p route tools vs limit fuel (Suc turn) n) Q" for b
    using Suc by (auto intro: appends_silent assms)
  then show ?case by (auto intro!: appends_then appends_turn assms)
qed

lemma appends_authorize:
  assumes "composable Q" and "Q [Authorized call]"
  shows "appends (authorize aw call) Q"
  unfolding authorize_def by (intro appends_then appends_act appends_silent assms)

lemma appends_execute:
  assumes "composable Q" and "\<And>w. Q [Executed call w]"
  shows "appends (execute_tool aw call) Q"
  unfolding execute_tool_def
  by (rule appends_then [OF assms(1) _ appends_silent(4) [OF assms(1)]])
     (auto simp: appends_def step_defs intro: assms(2))

lemma appends_tool_step:
  assumes "composable Q" and "\<And>e. Q [Emitted e]" and "Q [Authorized call]" and "\<And>w. Q [Executed call w]"
  shows "appends (tool_step aw p vs call) Q"
proof -
  have "appends (case artifact of None \<Rightarrow> return_step () | Some payload \<Rightarrow> emit aw ArtifactCreated payload) Q" for artifact
    using assms by (auto intro: appends_silent appends_emit split: option.split)
  then show ?thesis
    unfolding tool_step_def
    by (intro appends_then appends_emit appends_authorize appends_execute appends_silent assms)
qed

section \<open>The prologue of a run\<close>

lemma prepare_silent: "appends (prepare_run aw p) (\<lambda>tr. tr = [])"
  unfolding prepare_run_def
  by (intro appends_then appends_silent) (simp_all add: composable_def)

lemma prepare_result:
  fixes aw :: "('w, 'e) agent_world"
  assumes "prepare_run aw p s = (Inr (route, tools, vs), s')"
  shows "compileAdvertisedToolValidators (aw_validator aw) tools [] = (Inr vs :: 'e agent_error + validators)"
    and "\<exists>w. tools = advertised_tools p (aw_listTools aw w)"
  using assms unfolding prepare_run_def
  by (auto simp: bind_step_Inr return_step_def check_step_def on_world_def)

lemma agent_run_cases:
  assumes "agent_run aw default_turns p fuel w = (r, s)"
  obtains (prologue) e where "prepare_run aw p \<lparr>gs_messages = [], gs_trace = [], gs_world = w\<rparr> = (Inl e, s)"
      "r = Inl e" "gs_trace s = []"
  | (turns) route tools vs s0 where
      "prepare_run aw p \<lparr>gs_messages = [], gs_trace = [], gs_world = w\<rparr> = (Inr (route, tools, vs), s0)"
      "gs_trace s0 = []"
      "agent_turns aw p route tools vs (turn_limit default_turns p) fuel 0
         (nat \<lceil>turn_limit default_turns p\<rceil>) s0 = (r, s)"
proof -
  obtain r0 s0 where prep: "prepare_run aw p \<lparr>gs_messages = [], gs_trace = [], gs_world = w\<rparr> = (r0, s0)" by fastforce
  then have "gs_trace s0 = []" using prepare_silent [of aw p] by (auto simp: appends_def)
  with prep assms show thesis
    by (cases r0) (auto simp: agent_run_def bind_step_def intro: prologue turns)
qed

text \<open>A compiled schema is that of an advertised tool.\<close>

lemma compile_member:
  assumes "compileAdvertisedToolValidators compile tools vs0 = (Inr vs :: 'e agent_error + validators)" and "map_of vs name = Some validate"
  shows "map_of vs0 name = Some validate
    \<or> (\<exists>tool\<in>set tools. td_name tool = name \<and> compile (td_inputSchema tool) = Some validate)"
  using assms
proof (induction tools arbitrary: vs0)
  case (Cons t tools)
  then obtain v where v: "map_of vs0 (td_name t) = None" "compile (td_inputSchema t) = Some v"
    "compileAdvertisedToolValidators compile tools (vs0 @ [(td_name t, v)]) = (Inr vs :: 'e agent_error + validators)"
    by (auto split: if_splits option.splits)
  from Cons.IH [OF v(3) Cons.prems(2)] v(1,2) show ?case
    by (auto simp: map_add_Some_iff split: if_splits)
qed simp

end
