(* ===== verification/AgentProperties.thy ===== *)
theory AgentProperties
  imports AgentTraces
begin

text \<open>
  What the agent's loop guarantees: no tool is executed without the checks, the number of turns is
  bounded, and a run that succeeds ends with an answer of the model that calls no tool.
\<close>

section \<open>Executed tools were checked\<close>

text \<open>\<open>beforeToolCall\<close> let the call pass, and so did the check it handed back, in the world
  \<open>w\<close>.\<close>

definition cleared :: "('w, 'e) agent_world \<Rightarrow> tool_call \<Rightarrow> 'w \<Rightarrow> bool" where
  "cleared aw call w \<longleftrightarrow> (\<exists>w0 ticket. aw_before aw call w0 = (Inr ticket, w)
     \<and> (case ticket of None \<Rightarrow> True | Some check \<Rightarrow> check w = Inr ()))"

definition accepts :: "validators \<Rightarrow> tool_call \<Rightarrow> bool" where
  "accepts vs call \<longleftrightarrow> (\<exists>validate. map_of vs (tc_name call) = Some validate \<and> validate (tc_arguments call))"

definition guarded :: "('w, 'e) agent_world \<Rightarrow> validators \<Rightarrow> 'w agent_action list \<Rightarrow> bool" where
  "guarded aw vs tr \<longleftrightarrow> (\<forall>pre call w post. tr = pre @ Executed call w # post \<longrightarrow>
     (\<exists>pre'. pre = pre' @ [Emitted (requested_event call), Authorized call])
     \<and> accepts vs call \<and> cleared aw call w)"

fun is_emission :: "'w agent_action \<Rightarrow> bool" where
  "is_emission (Emitted e) = True"
| "is_emission a = False"

lemma guarded_unexecuted: "\<forall>a\<in>set tr. \<forall>call w. a \<noteq> Executed call w \<Longrightarrow> guarded aw vs tr"
  by (auto simp: guarded_def)

lemma composable_guarded: "composable (guarded aw vs)"
  unfolding composable_def
proof (intro conjI allI impI)
  show "guarded aw vs []" by (simp add: guarded_def)
  fix xs ys assume g: "guarded aw vs xs" "guarded aw vs ys"
  show "guarded aw vs (xs @ ys)"
    unfolding guarded_def
  proof (intro allI impI)
    fix pre call w post assume split: "xs @ ys = pre @ Executed call w # post"
    let ?G = "\<lambda>pre. (\<exists>pre'. pre = pre' @ [Emitted (requested_event call), Authorized call])
      \<and> accepts vs call \<and> cleared aw call w"
    from split consider us where "xs = pre @ us" "us @ ys = Executed call w # post"
      | us where "pre = xs @ us" "ys = us @ Executed call w # post"
      by (auto simp: append_eq_append_conv2)
    then show "?G pre"
    proof cases
      case (1 us)
      show ?thesis
      proof (cases us)
        case Nil
        with 1 have "ys = [] @ Executed call w # post" by simp
        with g(2) show ?thesis unfolding guarded_def by blast
      next
        case (Cons a us')
        with 1 have "xs = pre @ Executed call w # us'" by simp
        with g(1) show ?thesis unfolding guarded_def by blast
      qed
    next
      case (2 us)
      with g(2) have "?G us" unfolding guarded_def by blast
      with 2(1) show ?thesis by auto
    qed
  qed
qed

lemma composable_emissions: "composable (list_all is_emission)"
  by (simp add: composable_def)

lemma guarded_emissions: "list_all is_emission tr \<Longrightarrow> guarded aw vs tr"
  by (rule guarded_unexecuted) (force simp: list_all_iff)

lemma guarded_call:
  assumes "accepts vs call" and "cleared aw call w" and "list_all is_emission ys"
  shows "guarded aw vs (Emitted (requested_event call) # Authorized call # Executed call w # ys)"
proof -
  have "guarded aw vs [Emitted (requested_event call), Authorized call, Executed call w]"
    using assms(1,2) by (auto simp: guarded_def Cons_eq_append_conv)
  with guarded_emissions [OF assms(3)] composable_guarded show ?thesis
    unfolding composable_def by force
qed

lemma emit_trace: "emit aw ty payload s = (r, s') \<Longrightarrow> gs_trace s' = gs_trace s @ [Emitted \<lparr>ag_type = ty, ag_payload = payload\<rparr>]"
  by (auto simp: emit_def act_def step_defs Let_def split: prod.splits)

lemma authorize_trace:
  assumes "authorize aw call s = (r, s')"
  shows "case r of Inl e \<Rightarrow> gs_trace s' = gs_trace s
    | Inr u \<Rightarrow> gs_trace s' = gs_trace s @ [Authorized call] \<and> cleared aw call (gs_world s')"
proof -
  obtain ticket w where before: "aw_before aw call (gs_world s) = (ticket, w)" by fastforce
  show ?thesis
  proof (cases ticket)
    case (Inl e)
    with assms before show ?thesis by (auto simp: authorize_def step_defs)
  next
    case (Inr t)
    let ?passed = "case t of None \<Rightarrow> Inr () | Some check \<Rightarrow> check w"
    have raised: "(case t of None \<Rightarrow> Inr () | Some check \<Rightarrow> raise (check w)) = raise ?passed"
      by (cases t) auto
    have auth: "(r, s') = (case raise ?passed of Inl e \<Rightarrow> (Inl e, s\<lparr>gs_world := w\<rparr>)
        | Inr u \<Rightarrow> act (Authorized call) (s\<lparr>gs_world := w\<rparr>))"
      using assms before Inr by (simp add: authorize_def step_defs raised [symmetric] cong: option.case_cong)
    show ?thesis
    proof (cases ?passed)
      case (Inl e)
      with auth show ?thesis by simp
    next
      case (Inr u)
      have "cleared aw call w"
        using before \<open>ticket = Inr t\<close> Inr unfolding cleared_def
        by (intro exI [of _ "gs_world s"] exI [of _ t]) (simp split: option.splits)
      with auth Inr show ?thesis by (simp add: act_def step_defs)
    qed
  qed
qed

lemma tool_step_guarded: "appends (tool_step aw p vs call) (guarded aw vs)"
  unfolding appends_def
proof (intro allI impI)
  fix s r s' assume step: "tool_step aw p vs call s = (r, s')"
  note quiet = composable_emissions
  define tail where "tail = (\<lambda>r. bind_step (check_step (artifactCreatedPayload call r)) (\<lambda>artifact.
     bind_step (emit aw ToolCallCompleted (completed_payload r)) (\<lambda>_.
     bind_step (case artifact of None \<Rightarrow> return_step () | Some payload \<Rightarrow> emit aw ArtifactCreated payload) (\<lambda>_.
       push_message (tool_message r)))))"
  have "appends (case artifact of None \<Rightarrow> return_step () | Some payload \<Rightarrow> emit aw ArtifactCreated payload)
      (list_all is_emission)" for artifact
    using quiet by (auto intro: appends_silent appends_emit split: option.split)
  then have tail: "appends (tail r) (list_all is_emission)" for r
    unfolding tail_def using quiet by (intro appends_then appends_emit appends_silent) auto
  let ?E = "Emitted (requested_event call)"
  show "\<exists>xs. gs_trace s' = gs_trace s @ xs \<and> guarded aw vs xs"
  proof (cases "validateAdvertisedToolArguments call vs :: 'b agent_error + unit")
    case (Inl e)
    with step have "s' = s" by (simp add: tool_step_def step_defs)
    with composable_guarded show ?thesis by (auto simp: composable_def)
  next
    case (Inr u)
    then have accepts: "accepts vs call"
      by (auto simp: validateAdvertisedToolArguments_def accepts_def split: option.splits)
    obtain r1 s1 where emitted: "emit aw ToolCallRequested (ag_payload (requested_event call)) s = (r1, s1)" by fastforce
    have t1: "gs_trace s1 = gs_trace s @ [?E]"
      using emit_trace [OF emitted] by (simp add: requested_event_def)
    show ?thesis
    proof (cases r1)
      case (Inl e)
      with step Inr emitted have "s' = s1" by (simp add: tool_step_def step_defs \<open>validateAdvertisedToolArguments call vs = Inr u\<close>)
      with t1 show ?thesis by (intro exI [of _ "[?E]"]) (simp add: guarded_unexecuted)
    next
      case ok1: (Inr u1)
      obtain r2 s2 where auth: "authorize aw call s1 = (r2, s2)" by fastforce
      note t2 = authorize_trace [OF auth]
      show ?thesis
      proof (cases r2)
        case (Inl e)
        with step Inr emitted ok1 auth have "s' = s2"
          by (simp add: tool_step_def step_defs \<open>validateAdvertisedToolArguments call vs = Inr u\<close>)
        with t1 t2 Inl show ?thesis by (intro exI [of _ "[?E]"]) (simp add: guarded_unexecuted)
      next
        case ok2: (Inr u2)
        have t2: "gs_trace s2 = gs_trace s @ [?E, Authorized call]" "cleared aw call (gs_world s2)"
          using t1 t2 ok2 by simp_all
        have rest: "bind_step (check_step (throw_if (\<not> timeout_ok p) InvalidCommandTimeout)) (\<lambda>_.
            bind_step (execute_tool aw call) tail) s2 = (r, s')"
          using step emitted ok1 auth ok2 unfolding tail_def
          by (simp add: tool_step_def step_defs \<open>validateAdvertisedToolArguments call vs = Inr u\<close>)
        show ?thesis
        proof (cases "timeout_ok p")
          case False
          with rest have "s' = s2" by (simp add: step_defs)
          with t2 show ?thesis by (intro exI [of _ "[?E, Authorized call]"]) (simp add: guarded_unexecuted)
        next
          case True
          obtain r3 s3 where exec: "execute_tool aw call s2 = (r3, s3)" by fastforce
          then have t3: "gs_trace s3 = gs_trace s @ [?E, Authorized call, Executed call (gs_world s2)]"
            using t2(1) by (auto simp: execute_tool_def step_defs split: prod.splits)
          from True rest exec have "case r3 of Inl e \<Rightarrow> s' = s3 | Inr x \<Rightarrow> tail x s3 = (r, s')"
            by (auto simp: step_defs split: sum.splits)
          then obtain ys where "gs_trace s' = gs_trace s3 @ ys" "list_all is_emission ys"
            using tail unfolding appends_def by (cases r3) (auto, blast)
          with t3 guarded_call [OF accepts t2(2)] show ?thesis by auto
        qed
      qed
    qed
  qed
qed

lemma turns_guarded: "appends (agent_turns aw p route tools vs limit fuel turn n) (guarded aw vs)"
  by (rule appends_turns [OF composable_guarded _ _ tool_step_guarded]) (simp_all add: guarded_unexecuted)

lemma run_guarded:
  assumes "agent_run aw default_turns p fuel w = (r, s)" and "gs_trace s = pre @ Executed call w' # post"
  obtains route tools vs s0 where
    "prepare_run aw p \<lparr>gs_messages = [], gs_trace = [], gs_world = w\<rparr> = (Inr (route, tools, vs), s0)"
    "\<exists>pre'. pre = pre' @ [Emitted (requested_event call), Authorized call]" "accepts vs call" "cleared aw call w'"
  using assms(1)
proof (cases rule: agent_run_cases)
  case (prologue e)
  with assms(2) show ?thesis by simp
next
  case (turns route tools vs s0)
  from turns_guarded turns(2,3) have "guarded aw vs (gs_trace s)" unfolding appends_def by (metis append_Nil)
  with assms(2) turns(1) show ?thesis unfolding guarded_def by (intro that) blast+
qed

text \<open>C18: No tool runs unchecked. Whatever the model asks for, a tool that is executed was allowed for
  the run and advertised by the runtime, its arguments fit the schema that was advertised, and
  right before, its request was reported and the coordinator let it pass: \<open>beforeToolCall\<close>
  returned, and the check it handed back succeeded in the very state the tool was executed in.\<close>

theorem executed_tools_checked:
  assumes "agent_run aw default_turns p fuel w = (r, s)" and "gs_trace s = pre @ Executed call w' # post"
  shows "(\<exists>pre'. pre = pre' @ [Emitted (requested_event call), Authorized call]) \<and> cleared aw call w'
    \<and> tc_name call \<in> set (nullish (gp_allowedTools p) [])
    \<and> (\<exists>w0 tool validate. tool \<in> set (aw_listTools aw w0) \<and> td_name tool = tc_name call
        \<and> aw_validator aw (td_inputSchema tool) = Some validate \<and> validate (tc_arguments call))"
proof -
  obtain route tools vs s0 where
    prep: "prepare_run aw p \<lparr>gs_messages = [], gs_trace = [], gs_world = w\<rparr> = (Inr (route, tools, vs), s0)"
    and g: "\<exists>pre'. pre = pre' @ [Emitted (requested_event call), Authorized call]"
      "accepts vs call" "cleared aw call w'"
    by (rule run_guarded [OF assms])
  from g(2) obtain validate where v: "map_of vs (tc_name call) = Some validate" "validate (tc_arguments call)"
    by (auto simp: accepts_def)
  from compile_member [OF prepare_result(1) [OF prep] v(1)] obtain tool where
    tool: "tool \<in> set tools" "td_name tool = tc_name call" "aw_validator aw (td_inputSchema tool) = Some validate"
    by auto
  obtain w0 where "tools = advertised_tools p (aw_listTools aw w0)" using prepare_result(2) [OF prep] by blast
  with tool have "tool \<in> set (aw_listTools aw w0)" "tc_name call \<in> set (nullish (gp_allowedTools p) [])"
    by (auto simp: advertised_tools_def)
  with g v tool show ?thesis by blast
qed

section \<open>A run ends\<close>

definition asked :: "'w agent_action list \<Rightarrow> nat" where
  "asked tr = length (filter (\<lambda>a. case a of ModelAsked ms \<Rightarrow> True | _ \<Rightarrow> False) tr)"

lemma asked_simps [simp]:
  "asked [] = 0" "asked (xs @ ys) = asked xs + asked ys"
  "asked [Emitted e] = 0" "asked [Authorized call] = 0" "asked [Executed call w] = 0" "asked [ModelAsked ms] = 1"
  by (simp_all add: asked_def)

lemma composable_unasked: "composable (\<lambda>tr. asked tr = 0)"
  by (simp add: composable_def)

lemma ask_once: "appends (ask_model aw p tools fuel turn) (\<lambda>tr. asked tr \<le> 1)"
  unfolding ask_model_def
  by (rule appends_bind [where ?Q1.0 = "\<lambda>tr. asked tr = 1" and ?Q2.0 = "\<lambda>tr. asked tr = 0"])
     (auto simp: appends_def step_defs intro!: appends_stream [unfolded appends_def, rule_format] composable_unasked)

lemma turn_asks_once: "appends (agent_turn aw p route tools vs fuel turn) (\<lambda>tr. asked tr \<le> 1)"
proof -
  note silent = composable_unasked
  have "appends (tool_step aw p vs call) (\<lambda>tr. asked tr = 0)" for call
    by (intro appends_tool_step silent) simp_all
  then have tail: "appends (bind_step (check_step (check_turn p ts)) (\<lambda>_.
     bind_step (push_message (assistant_message ts)) (\<lambda>_.
     bind_step (emit aw AgentMessageCompleted payload) (\<lambda>_.
     bind_step (tool_steps aw p vs (ts_calls ts)) (\<lambda>_.
       if ts_finish ts = Some FinishStop \<and> ts_calls ts = [] then return_step True
       else if ts_finish ts \<noteq> Some FinishToolCalls \<and> ts_calls ts = [] then check_step (Inl TurnWithoutStop)
       else return_step False))))) (\<lambda>tr. asked tr = 0)" for ts payload
    by (intro appends_then appends_silent appends_emit appends_tools silent) (auto intro: appends_silent silent)
  show ?thesis
    unfolding agent_turn_def
    by (rule appends_bind [OF appends_start [OF silent] appends_bind [OF ask_once tail]]) auto
qed

lemma turns_ask: "appends (agent_turns aw p route tools vs limit fuel turn n) (\<lambda>tr. asked tr \<le> n)"
proof (induction n arbitrary: turn)
  case 0
  show ?case by (simp add: appends_def check_step_def)
next
  case (Suc n)
  have "appends (if b then return_step () else agent_turns aw p route tools vs limit fuel (Suc turn) n)
      (\<lambda>tr. asked tr \<le> n)" for b
    using Suc by (auto simp: appends_def return_step_def)
  then show ?case
    unfolding agent_turns.simps by (rule appends_bind [OF turn_asks_once]) simp_all
qed

text \<open>A stream is finite when a rank of the world below the fuel decreases with every item.\<close>

definition finite_streams :: "('w, 'e) agent_world \<Rightarrow> nat \<Rightarrow> ('w \<Rightarrow> nat) \<Rightarrow> bool" where
  "finite_streams aw fuel rank \<longleftrightarrow>
     (\<forall>ms tools w. rank (aw_streamTurn aw ms tools w) < fuel)
     \<and> (\<forall>w e w'. aw_next aw w = (Inr (Some e), w') \<longrightarrow> rank w' < rank w)
     \<and> (\<forall>w e w'. aw_next aw w = (Inl e, w') \<longrightarrow> e \<noteq> OutOfFuel)
     \<and> (\<forall>e w r w'. aw_onEvent aw e w = (r, w') \<longrightarrow> rank w' \<le> rank w)"

definition never_stuck :: "('w, 'e, 'a) step \<Rightarrow> bool" where
  "never_stuck f \<longleftrightarrow> (\<forall>s. fst (f s) \<noteq> Inl OutOfFuel)"

lemma raise_fuel [simp]: "raise x \<noteq> Inl OutOfFuel"
  by (cases x) auto

lemma never_stuck_bind: "never_stuck f \<Longrightarrow> (\<And>a. never_stuck (g a)) \<Longrightarrow> never_stuck (bind_step f g)"
  by (auto simp: never_stuck_def bind_step_def split: prod.splits sum.splits) (metis fst_conv)+

lemma never_stuck_simple:
  "never_stuck (return_step a)" "never_stuck (push_message m)" "never_stuck (modify_step h)" "never_stuck (act x)"
  "never_stuck (on_world (raising k))" "(\<And>w. fst (q w) \<noteq> Inl OutOfFuel) \<Longrightarrow> never_stuck (on_world q)"
  "r \<noteq> Inl OutOfFuel \<Longrightarrow> never_stuck (check_step r)"
  by (auto simp: never_stuck_def step_defs push_message_def act_def split: prod.splits) (metis fst_conv)

lemma checks_fuel [simp]:
  "check_turn p ts \<noteq> Inl OutOfFuel" "throw_if b InvalidCommandTimeout \<noteq> Inl OutOfFuel"
  "validateAdvertisedToolArguments call vs \<noteq> Inl OutOfFuel" "artifactCreatedPayload call r \<noteq> Inl OutOfFuel"
  by (auto simp: check_turn_def provider_failure_def throw_if_def validateAdvertisedToolArguments_def
      artifactCreatedPayload_def Let_def split: option.splits)

lemma compile_fuel [simp]: "compileAdvertisedToolValidators compile tools vs \<noteq> Inl OutOfFuel"
  by (induction tools arbitrary: vs) (auto split: option.split)

lemma never_stuck_emit: "never_stuck (emit aw ty payload)"
  unfolding emit_def Let_def by (intro never_stuck_bind never_stuck_simple)

lemma never_stuck_tool: "never_stuck (tool_step aw p vs call)"
proof -
  have "never_stuck (case artifact of None \<Rightarrow> return_step () | Some payload \<Rightarrow> emit aw ArtifactCreated payload)" for artifact
    by (auto intro: never_stuck_simple never_stuck_emit split: option.split)
  then show ?thesis
    unfolding tool_step_def authorize_def execute_tool_def
    by (intro never_stuck_bind never_stuck_emit never_stuck_simple) (auto split: option.split)
qed

lemma never_stuck_tools: "never_stuck (tool_steps aw p vs calls)"
  by (induction calls) (auto intro: never_stuck_bind never_stuck_tool never_stuck_simple)

lemma never_stuck_start: "never_stuck (start_turn aw route tools)"
  unfolding start_turn_def
  by (intro never_stuck_bind never_stuck_simple)
     (auto simp: never_stuck_def split: option.split sum.split prod.split)

lemma stream_ends:
  assumes fin: "finite_streams aw fuel rank"
  shows "rank (gs_world s) < n \<Longrightarrow> fst (read_stream aw p turn n ts s) \<noteq> Inl OutOfFuel"
proof (induction n arbitrary: s ts)
  case (Suc n)
  obtain r w where "next": "aw_next aw (gs_world s) = (r, w)" by fastforce
  let ?s = "s\<lparr>gs_world := w\<rparr>"
  show ?case
  proof (cases r)
    case (Inl e)
    with "next" fin have "e \<noteq> OutOfFuel" unfolding finite_streams_def by blast
    with "next" Inl show ?thesis by (simp add: step_defs)
  next
    case (Inr item)
    show ?thesis
    proof (cases item)
      case None
      with "next" Inr show ?thesis by (simp add: step_defs)
    next
      case (Some ev)
      with "next" Inr fin Suc.prems have w: "rank w < n" unfolding finite_streams_def by (metis Suc_lessE less_SucE less_trans)
      obtain r1 s1 where h: "handle_event aw p turn ev ts ?s = (r1, s1)" by fastforce
      have mono: "rank w' \<le> rank w0" if "aw_onEvent aw e w0 = (r, w')" for e w0 r w'
        using fin that unfolding finite_streams_def by blast
      have "rank (gs_world s1) \<le> rank w \<and> r1 \<noteq> Inl OutOfFuel"
        using h by (cases ev) (auto simp: emit_def act_def step_defs Let_def provider_failure_def
            split: prod.splits sum.splits if_splits dest: mono)
      with Suc.IH [of s1] w have "fst (case r1 of Inl e \<Rightarrow> (Inl e, s1) | Inr ts' \<Rightarrow> read_stream aw p turn n ts' s1) \<noteq> Inl OutOfFuel"
        by (cases r1) auto
      with "next" Inr Some h show ?thesis by (simp add: step_defs split: sum.splits)
    qed
  qed
qed simp

lemma turn_ends:
  assumes fin: "finite_streams aw fuel rank"
  shows "never_stuck (agent_turn aw p route tools vs fuel turn)"
proof -
  have "never_stuck (ask_model aw p tools fuel turn)"
    using fin stream_ends [OF fin]
    by (auto simp: never_stuck_def ask_model_def step_defs finite_streams_def)
  then show ?thesis
    unfolding agent_turn_def
    by (intro never_stuck_bind never_stuck_start never_stuck_emit never_stuck_tools never_stuck_simple checks_fuel)
       (auto intro: never_stuck_simple)
qed

lemma turns_end:
  assumes "finite_streams aw fuel rank"
  shows "never_stuck (agent_turns aw p route tools vs limit fuel turn n)"
proof (induction n arbitrary: turn)
  case 0
  show ?case by (simp add: never_stuck_simple)
next
  case (Suc n)
  have "never_stuck (if b then return_step () else agent_turns aw p route tools vs limit fuel (Suc turn) n)" for b
    using Suc by (auto intro: never_stuck_simple)
  then show ?case by (auto intro: never_stuck_bind turn_ends assms)
qed

lemma prepare_ends: "never_stuck (prepare_run aw p)"
  unfolding prepare_run_def
  by (intro never_stuck_bind never_stuck_simple) auto

text \<open>The last message of a turn that ends the run.\<close>

definition final_answer :: "model_message list \<Rightarrow> bool" where
  "final_answer ms \<longleftrightarrow> ms \<noteq> [] \<and> mm_role (last ms) = AssistantRole \<and> mm_toolCalls (last ms) = Some []"

lemma messages_kept:
  "emit aw ty payload s = (r, s') \<Longrightarrow> gs_messages s' = gs_messages s"
  by (auto simp: emit_def act_def step_defs Let_def split: prod.splits)

lemma turn_finishes:
  assumes "agent_turn aw p route tools vs fuel turn s = (Inr True, s')"
  shows "final_answer (gs_messages s')"
proof -
  from assms obtain ts s1 s2 where calls: "ts_calls ts = []"
    and emitted: "emit aw AgentMessageCompleted [(''role'', JStr ''assistant''), (''content'', JStr (ts_text ts)),
      (''toolCalls'', JArr (map call_object (ts_calls ts))), (''turn'', JNum (of_nat turn))]
      (s1\<lparr>gs_messages := gs_messages s1 @ [assistant_message ts]\<rparr>) = (Inr (), s2)"
    and tools: "tool_steps aw p vs (ts_calls ts) s2 = (Inr (), s')"
    unfolding agent_turn_def bind_step_Inr
    by (auto simp: push_message_def modify_step_def return_step_def check_step_def split: if_splits)
  have "gs_messages s' = gs_messages s1 @ [assistant_message ts]"
    using messages_kept [OF emitted] tools calls by (simp add: return_step_def)
  with calls show ?thesis by (simp add: final_answer_def assistant_message_def)
qed

lemma turns_finish:
  "agent_turns aw p route tools vs limit fuel turn n s = (Inr (), s') \<Longrightarrow> final_answer (gs_messages s')"
proof (induction n arbitrary: turn s)
  case (Suc n)
  then obtain finished s1 where turn: "agent_turn aw p route tools vs fuel turn s = (Inr finished, s1)"
    and rest: "(if finished then return_step () else agent_turns aw p route tools vs limit fuel (Suc turn) n) s1 = (Inr (), s')"
    by (auto simp: bind_step_Inr)
  show ?case
  proof (cases finished)
    case True
    with turn rest turn_finishes show ?thesis by (auto simp: return_step_def)
  next
    case False
    with rest Suc.IH show ?thesis by auto
  qed
qed (simp add: check_step_def)

text \<open>C19: A run of the agent ends: when every stream of the model is finite, the run returns or
  throws; it asks the model for at most as many turns as its limit allows, and it returns normally
  only when the last message of the conversation is an answer of the model that calls no tool.\<close>

theorem agent_run_terminates:
  assumes "finite_streams aw fuel rank" and "agent_run aw default_turns p fuel w = (r, s)"
  shows "r \<noteq> Inl OutOfFuel \<and> asked (gs_trace s) \<le> nat \<lceil>turn_limit default_turns p\<rceil>
    \<and> (r = Inr () \<longrightarrow> final_answer (gs_messages s))"
  using assms(2)
proof (cases rule: agent_run_cases)
  case (prologue e)
  with prepare_ends [of aw p] have "e \<noteq> OutOfFuel" unfolding never_stuck_def by (metis fst_conv)
  with prologue show ?thesis by simp
next
  case (turns route tools vs s0)
  have "r \<noteq> Inl OutOfFuel"
    using turns_end [OF assms(1)] turns(3) unfolding never_stuck_def by (metis fst_conv)
  moreover have "asked (gs_trace s) \<le> nat \<lceil>turn_limit default_turns p\<rceil>"
    using turns_ask turns(2,3) unfolding appends_def by (metis append_Nil)
  ultimately show ?thesis using turns_finish turns(3) by blast
qed

end
