(* ===== verification/AgentGate.thy ===== *)
theory AgentGate
  imports AgentProperties ControlExecution
begin

text \<open>
  The agent's loop under the coordinator: \<open>beforeToolCall\<close> of \<open>#execute\<close> in
  \<open>packages/control-plane/src/index.ts\<close> as the gate of the agent's tools. What the loop relies on
  is the interface \<open>tool_gate\<close>; the coordinator's gate provides it.
\<close>

section \<open>The interface\<close>

text \<open>
  A gate lets a call pass in a world where the call is permitted, at once or after the check it
  hands back has succeeded there.
\<close>

locale tool_gate =
  fixes before :: "tool_call \<Rightarrow> 'w \<Rightarrow> ('e + ('w \<Rightarrow> 'e + unit) option) \<times> 'w"
    and permitted :: "tool_call \<Rightarrow> 'w \<Rightarrow> bool"
  assumes passes: "before call w0 = (Inr None, w) \<Longrightarrow> permitted call w"
    and checked: "before call w0 = (Inr (Some check), w) \<Longrightarrow> check w = Inr () \<Longrightarrow> permitted call w"
begin

lemma cleared_permitted:
  assumes "aw_before aw = before" and "cleared aw call w"
  shows "permitted call w"
proof -
  from assms obtain w0 ticket where "before call w0 = (Inr ticket, w)"
    "case ticket of None \<Rightarrow> True | Some check \<Rightarrow> check w = Inr ()" by (auto simp: cleared_def)
  then show ?thesis by (cases ticket) (auto intro: passes checked)
qed

lemma executed_permitted:
  assumes "aw_before aw = before" and "agent_run aw default_turns p fuel w = (r, s)"
    and "Executed call w' \<in> set (gs_trace s)"
  shows "permitted call w'"
proof -
  from assms(3) obtain pre post where "gs_trace s = pre @ Executed call w' # post" by (meson split_list)
  from run_guarded [OF assms(2) this] cleared_permitted [OF assms(1)] show ?thesis by metis
qed

end

section \<open>The coordinator's gate\<close>

text \<open>What the run shares with the coordinator: its state and the clock.\<close>

record run_world =
  rw_manager :: manager
  rw_now :: timestamp

text \<open>
  \<open>fresh\<close> draws the identifier of an approval. \<open>await\<close> is the wait for its resolution: whether the
  waiter was settled with approval, and the world then, in which anything may have happened.
\<close>

definition coordinator_before ::
  "config \<Rightarrow> ('z run_world_scheme \<Rightarrow> string)
    \<Rightarrow> (approval_record \<Rightarrow> 'z run_world_scheme \<Rightarrow> bool \<times> 'z run_world_scheme) \<Rightarrow> execution \<Rightarrow> tool_call
    \<Rightarrow> 'z run_world_scheme
    \<Rightarrow> (control_error + ('z run_world_scheme \<Rightarrow> control_error + unit) option) \<times> 'z run_world_scheme" where
  "coordinator_before cf fresh await x call rw =
     (case before_tool_call cf (rw_now rw) (fresh rw) x call (rw_manager rw) of
        (Inl e, m) \<Rightarrow> (Inl e, rw\<lparr>rw_manager := m\<rparr>)
      | (Inr None, m) \<Rightarrow> (Inr None, rw\<lparr>rw_manager := m\<rparr>)
      | (Inr (Some a), m) \<Rightarrow>
          (case await a (rw\<lparr>rw_manager := m\<rparr>) of
             (False, rw') \<Rightarrow> (Inl (ApprovalDenied (tc_name call)), rw')
           | (True, rw') \<Rightarrow> (Inr (Some (\<lambda>rw''. assertApprovalExecutable cf (rw_now rw'') (apr_id a)
                 (ex_run x) call (store (rw_manager rw'')))), rw')))"

definition lease_held :: "execution \<Rightarrow> 'z run_world_scheme \<Rightarrow> bool" where
  "lease_held x rw = (case ex_lease x of None \<Rightarrow> False
     | Some l \<Rightarrow> validateWorkspaceLease (rw_now rw) l (store (rw_manager rw)))"

definition policy_allows :: "execution \<Rightarrow> tool_call \<Rightarrow> 'z run_world_scheme \<Rightarrow> bool" where
  "policy_allows x call rw =
     (case getAgentProfile (run_agentId (ex_run x)) (run_owner (ex_run x)) (store (rw_manager rw)) of
        None \<Rightarrow> False | Some profile \<Rightarrow> tc_name call \<in> set (ap_allowedTools profile))"

definition approved_for :: "config \<Rightarrow> execution \<Rightarrow> tool_call \<Rightarrow> 'z run_world_scheme \<Rightarrow> bool" where
  "approved_for cf x call rw \<longleftrightarrow> (\<exists>i a. getApproval i (store (rw_manager rw)) = Some a
     \<and> apr_status a = APPROVED \<and> rw_now rw < apr_expiresAt a \<and> apr_runId a = run_id (ex_run x)
     \<and> approvalBindingIsCurrent cf a (Some call) (store (rw_manager rw)) = Inr True)"

definition tool_permitted :: "config \<Rightarrow> execution \<Rightarrow> tool_call \<Rightarrow> 'z run_world_scheme \<Rightarrow> bool" where
  "tool_permitted cf x call rw \<longleftrightarrow>
     (run_deliveryAllowed (ex_run x) \<or> tc_name call \<notin> set delivery_tools)
     \<and> (if cf_requiresApproval cf call (ex_run x) then approved_for cf x call rw
        else lease_held x rw \<and> policy_allows x call rw)"

lemma before_cases:
  assumes "before_tool_call cf (rw_now rw) i x call (rw_manager rw) = (Inr res, m')"
  shows "run_deliveryAllowed (ex_run x) \<or> tc_name call \<notin> set delivery_tools"
    and "res = None \<Longrightarrow> \<not> cf_requiresApproval cf call (ex_run x) \<and> m' = rw_manager rw
      \<and> lease_held x rw \<and> policy_allows x call rw"
    and "res = Some a \<Longrightarrow> cf_requiresApproval cf call (ex_run x)"
  using assms
  by (auto simp: before_tool_call_def authorizeTool_def request_approval_def return_act_def bind_act_def
      lease_held_def policy_allows_def split: option.splits if_splits prod.splits sum.splits)

lemma executable_approved:
  assumes "assertApprovalExecutable cf (rw_now rw) i (ex_run x) call (store (rw_manager rw)) = Inr ()"
  shows "approved_for cf x call rw"
proof -
  from assms obtain a where a: "getApproval i (store (rw_manager rw)) = Some a"
    by (auto simp: assertApprovalExecutable_def split: option.splits)
  with assms have "apr_status a = APPROVED" "rw_now rw < apr_expiresAt a" "apr_runId a = run_id (ex_run x)"
    "approvalBindingIsCurrent cf a (Some call) (store (rw_manager rw)) = Inr True"
    by (auto simp: assertApprovalExecutable_def result_simps split: if_splits)
  with a show ?thesis unfolding approved_for_def by blast
qed

interpretation coordinator: tool_gate "coordinator_before cf fresh await x" "tool_permitted cf x"
  for cf fresh await x
proof
  fix call w0 w
  assume "coordinator_before cf fresh await x call w0 = (Inr None, w)"
  then have b: "before_tool_call cf (rw_now w0) (fresh w0) x call (rw_manager w0) = (Inr None, rw_manager w)"
    and w: "w = w0\<lparr>rw_manager := rw_manager w\<rparr>"
    by (auto simp: coordinator_before_def split: prod.splits sum.splits option.splits bool.splits)
  have "rw_manager w = rw_manager w0" using before_cases(2) [OF b] by simp
  with w have "w = w0" by simp
  with before_cases(1,2) [OF b] show "tool_permitted cf x call w"
    by (simp add: tool_permitted_def)
next
  fix call w0 w check
  assume pass: "coordinator_before cf fresh await x call w0 = (Inr (Some check), w)" and ok: "check w = Inr ()"
  then obtain a m where b: "before_tool_call cf (rw_now w0) (fresh w0) x call (rw_manager w0) = (Inr (Some a), m)"
    and check: "check = (\<lambda>rw. assertApprovalExecutable cf (rw_now rw) (apr_id a) (ex_run x) call (store (rw_manager rw)))"
    by (auto simp: coordinator_before_def split: prod.splits sum.splits option.splits bool.splits)
  have "approved_for cf x call w" using ok unfolding check by (rule executable_approved)
  with before_cases(1,3) [OF b] show "tool_permitted cf x call w" by (simp add: tool_permitted_def)
qed

text \<open>C8: The coordinator's policy holds at the moment a tool runs. Whatever the model asks for and
  whatever happens while an approval is awaited: in the state in which a tool is executed, the run
  may deliver or the tool does not, and either the call needs no approval, the run holds its
  workspace lease and the agent's profile lists the tool, or there is an approval of this run that
  is approved, not expired, and bound to exactly this call under the present policy and route.\<close>

theorem executed_tools_permitted:
  assumes "aw_before aw = coordinator_before cf fresh await x"
    and "agent_run aw default_turns p fuel w = (r, s)" and "Executed call w' \<in> set (gs_trace s)"
  shows "tool_permitted cf x call w'"
  by (rule coordinator.executed_permitted [OF assms])

end
