(* ===== verification/AgentDevelopment.thy ===== *)
theory AgentDevelopment
  imports AgentGate ControlProperties StoreFencing
begin

text \<open>
  A run of the development setup: the scripted model of \<open>packages/agent-runtime/src/index.ts\<close>
  (\<open>FakeModelGateway\<close>), the in-memory tools of \<open>packages/runtime\<close>, and the coordinator's callbacks.
  It shows the agent's loop at work, from the database to the file that is written.
\<close>

section \<open>The scripted model\<close>

definition script_turn :: "string \<Rightarrow> tool_call \<Rightarrow> num \<Rightarrow> num \<Rightarrow> model_event list" where
  "script_turn text call inputTokens outputTokens = [TextDelta text, ModelToolCall call,
     ModelUsage \<lparr>mu_inputTokens = inputTokens, mu_outputTokens = outputTokens, mu_cachedInputTokens = None,
       mu_cacheWriteInputTokens = None, mu_imageInputTokens = None, mu_costUsd = Some 0\<rparr>,
     ModelCompleted FinishToolCalls]"

text \<open>The arguments for the only tool there is: the JSON object in the last user message, if it
  is one. \<open>parse\<close> is \<open>JSON.parse\<close>, \<open>None\<close> when it throws.\<close>

definition fake_arguments :: "(string \<Rightarrow> jsval option) \<Rightarrow> model_message list \<Rightarrow> jsobject" where
  "fake_arguments parse messages =
     (let input = (case find (\<lambda>m. mm_role m = UserRole) (rev messages) of
        None \<Rightarrow> ''{}'' | Some m \<Rightarrow> mm_content m) in
      case parse input of
        None \<Rightarrow> [(''value'', JStr input)]
      | Some (JObj kvs) \<Rightarrow> kvs
      | Some v \<Rightarrow> [(''value'', v)])"

definition called_tools :: "model_message list \<Rightarrow> string set" where
  "called_tools messages = set (concat (map (\<lambda>m. if mm_role m = AssistantRole
     then map tc_name (nullish (mm_toolCalls m) []) else []) messages))"

text \<open>The items of a turn; \<open>i\<close> is the fresh identifier of the call.\<close>

definition fake_turn ::
  "(string \<Rightarrow> jsval option) \<Rightarrow> string \<Rightarrow> model_message list \<Rightarrow> tool_definition list \<Rightarrow> model_event list" where
  "fake_turn parse i messages tools =
     (let names = map td_name tools; called = called_tools messages in
      if \<not> list_ex (\<lambda>m. mm_role m = ToolRole) messages then
        (if ''write_file'' \<notin> set names \<and> length names = 1 then
           script_turn (''I will invoke '' @ hd names @ ''. '')
             \<lparr>tc_id = i, tc_name = hd names, tc_arguments = fake_arguments parse messages\<rparr> 12 8
         else
           script_turn ''I will create the requested file. ''
             \<lparr>tc_id = i, tc_name = ''write_file'', tc_arguments = [(''path'', JStr ''hello.txt''),
               (''content'', JStr (''Lite-Harness completed: ''
                 @ (case messages of [] \<Rightarrow> ''task'' | m # ms \<Rightarrow> mm_content m) @ [CHR 0x0A]))]\<rparr> 12 8)
      else if ''artifact_publish'' \<in> set names \<and> ''write_file'' \<in> called \<and> ''artifact_publish'' \<notin> called then
        script_turn ''I will publish the completed file. ''
          \<lparr>tc_id = i, tc_name = ''artifact_publish'',
            tc_arguments = [(''path'', JStr ''hello.txt''), (''mediaType'', JStr ''text/plain'')]\<rparr> 18 8
      else
        [TextDelta ''Created hello.txt successfully.'',
         ModelUsage \<lparr>mu_inputTokens = 24, mu_outputTokens = 6, mu_cachedInputTokens = None,
           mu_cacheWriteInputTokens = None, mu_imageInputTokens = None, mu_costUsd = Some 0\<rparr>,
         ModelCompleted FinishStop])"

lemma fake_turn_length: "length (fake_turn parse i messages tools) \<le> 4"
  by (simp add: fake_turn_def script_turn_def Let_def)

section \<open>The world of a run\<close>

record dev_world = run_world +
  dw_script :: "model_event list"
  dw_calls :: nat
  dw_events :: "run_event_type list"
  dw_files :: memory_files

definition dev_next :: "dev_world \<Rightarrow> (control_error agent_error + model_event option) \<times> dev_world" where
  "dev_next w = (case dw_script w of [] \<Rightarrow> (Inr None, w) | e # es \<Rightarrow> (Inr (Some e), w\<lparr>dw_script := es\<rparr>))"

text \<open>A failing tool ends the run; the coordinator only sees that the run was aborted by it.\<close>

definition dev_execute :: "run_record \<Rightarrow> tool_call \<Rightarrow> dev_world \<Rightarrow> (control_error + tool_result) \<times> dev_world" where
  "dev_execute run call w =
     (case memory_execute \<lparr>tq_workspaceId = run_workspaceId run, tq_runId = Some (run_id run),
         tq_principal = Some (run_owner run), tq_call = call,
         tq_aborted = abort_reason_of (run_id run) (rw_manager w) \<noteq> None\<rparr> (dw_files w) of
        (Inl e, files) \<Rightarrow> (Inl RunNotActive, w\<lparr>dw_files := files\<rparr>)
      | (Inr r, files) \<Rightarrow> (Inr r, w\<lparr>dw_files := files\<rparr>))"

definition dev_event :: "agent_event \<Rightarrow> dev_world \<Rightarrow> (control_error + unit) \<times> dev_world" where
  "dev_event e w = (Inr (), w\<lparr>dw_events := dw_events w @ [ag_type e]\<rparr>)"

definition dev_steering :: "run_record \<Rightarrow> dev_world \<Rightarrow> model_message list \<times> dev_world" where
  "dev_steering run w = (case takeSteering (run_id run) (rw_manager w) of
     (Inl e, m) \<Rightarrow> ([], w\<lparr>rw_manager := m\<rparr>) | (Inr ms, m) \<Rightarrow> (ms, w\<lparr>rw_manager := m\<rparr>))"

text \<open>No approval is answered in this setup. The validator demands the required properties.\<close>

definition required_present :: "jsobject \<Rightarrow> jsobject \<Rightarrow> bool" where
  "required_present schema args = (case obj_get schema ''required'' of
     JArr names \<Rightarrow> list_all (\<lambda>n. case n of JStr s \<Rightarrow> s \<in> fst ` set args | _ \<Rightarrow> True) names | _ \<Rightarrow> True)"

definition dev_agent :: "config \<Rightarrow> execution \<Rightarrow> (dev_world, control_error) agent_world" where
  "dev_agent cf x =
     \<lparr>aw_prepareRoute = (\<lambda>w. (Inr None, w)),
      aw_prepareTools = (\<lambda>w. (Inr (), w)),
      aw_compile = (\<lambda>route w. (Inr [], w)),
      aw_listTools = (\<lambda>w. WORKSPACE_TOOL_DEFINITIONS),
      aw_onPrepared = (\<lambda>route tools w. (Inr (), w)),
      aw_aborted = (\<lambda>w. map_option Aborted (abort_reason_of (run_id (ex_run x)) (rw_manager w))),
      aw_takeSteering = dev_steering (ex_run x),
      aw_streamTurn = (\<lambda>messages tools w. w\<lparr>dw_script :=
        fake_turn (\<lambda>s. None) (''tool_'' @ nat_digits (dw_calls w)) messages tools, dw_calls := dw_calls w + 1\<rparr>),
      aw_next = dev_next,
      aw_onEvent = dev_event,
      aw_before = coordinator_before cf (\<lambda>w. ''apr'') (\<lambda>a w. (False, w)) x,
      aw_execute = dev_execute (ex_run x),
      aw_validator = (\<lambda>schema. Some (required_present schema)),
      aw_json_length = (\<lambda>messages tools. 0)\<rparr>"

definition dev_params :: agent_params where
  "dev_params = \<lparr>gp_input = ''hi'', gp_instructions = None, gp_allowedTools = Some [''read_file'', ''write_file''],
     gp_maxCostUsd = Some 1, gp_requireAuthoritativeUsage = None, gp_allowUnmeteredUsage = None,
     gp_history = None, gp_maxTurns = None, gp_commandTimeoutMs = None\<rparr>"

definition dev_db :: db where "dev_db = ok_state (appendEvent 105 started db5)"

definition dev_execution :: execution where
  "dev_execution = (new_execution (toRunRecord (hd (filter (\<lambda>r. rr_id r = ''run_1'') (runs dev_db)))))\<lparr>ex_lease := Some lease_a\<rparr>"

definition dev_manager :: manager where
  "dev_manager = (manager_of dev_db)\<lparr>active := [(''run_1'', None)], steering := [(''run_1'', [])]\<rparr>"

definition dev_at :: "model_event list \<Rightarrow> nat \<Rightarrow> run_event_type list \<Rightarrow> memory_files \<Rightarrow> dev_world" where
  "dev_at script calls events files = \<lparr>rw_manager = dev_manager, rw_now = 106, dw_script = script,
     dw_calls = calls, dw_events = events, dw_files = files\<rparr>"

definition dev_run :: "(control_error agent_error + unit) \<times> dev_world agent_state" where
  "dev_run = agent_run (dev_agent example_config dev_execution) 24 dev_params 5 (dev_at [] 1 [] [])"

text \<open>What the run needs from the store.\<close>

lemma dev_execution_facts:
  "run_id (ex_run dev_execution) = ''run_1''" "run_owner (ex_run dev_execution) = example_owner"
  "run_workspaceId (ex_run dev_execution) = ''w''" "run_deliveryAllowed (ex_run dev_execution)"
  "ex_lease dev_execution = Some lease_a" "run_agentId (ex_run dev_execution) = ''ag''"
  by code_simp+

lemma dev_manager_facts:
  "active dev_manager = [(''run_1'', None)]" "steering dev_manager = [(''run_1'', [])]"
  "dev_manager\<lparr>steering := [(''run_1'', [])]\<rparr> = dev_manager" "store dev_manager = dev_db"
  by (simp_all add: dev_manager_def manager_of_def)

lemma dev_db_facts:
  "validateWorkspaceLease 106 lease_a dev_db"
  "map_option ap_allowedTools (getAgentProfile ''ag'' example_owner dev_db) = Some [''read_file'', ''write_file'']"
  by code_simp+

lemma dev_before:
  assumes "tc_name call = ''write_file''"
  shows "before_tool_call example_config 106 i dev_execution call dev_manager = (Inr None, dev_manager)"
proof -
  from dev_db_facts(2) obtain profile where "getAgentProfile ''ag'' example_owner dev_db = Some profile"
    "ap_allowedTools profile = [''read_file'', ''write_file'']" by auto
  with assms dev_db_facts(1) show ?thesis
    by (simp add: before_tool_call_def authorizeTool_def request_approval_def dev_execution_facts dev_manager_facts
        example_config_def return_act_def)
qed

lemma dev_identity: "workspaceIdentity ''w'' (Some example_owner) = ''1:a:1:t:1:u:w''"
  by code_simp

definition dev_call :: tool_call where
  "dev_call = \<lparr>tc_id = ''tool_1'', tc_name = ''write_file'', tc_arguments =
     [(''path'', JStr ''hello.txt''), (''content'', JStr (''Lite-Harness completed: hi'' @ [CHR 0x0A]))]\<rparr>"

definition user_hi :: model_message where
  "user_hi = \<lparr>mm_role = UserRole, mm_content = ''hi'', mm_toolCalls = None, mm_toolCallId = None\<rparr>"

abbreviation dev :: "(dev_world, control_error) agent_world" where
  "dev \<equiv> dev_agent example_config dev_execution"

lemma dev_digits: "nat_digits (Suc 0) = ''1''" "nat_digits (Suc (Suc 0)) = ''2''" "nat_digits 27 = ''27''"
  by code_simp+

lemma dev_script:
  "fake_turn parse ''tool_1'' [user_hi] WORKSPACE_TOOL_DEFINITIONS =
     script_turn ''I will create the requested file. '' dev_call 12 8"
  "mm_role (last ms) = ToolRole \<Longrightarrow> ms \<noteq> [] \<Longrightarrow> fake_turn parse i ms WORKSPACE_TOOL_DEFINITIONS =
     [TextDelta ''Created hello.txt successfully.'',
      ModelUsage \<lparr>mu_inputTokens = 24, mu_outputTokens = 6, mu_cachedInputTokens = None,
        mu_cacheWriteInputTokens = None, mu_imageInputTokens = None, mu_costUsd = Some 0\<rparr>,
      ModelCompleted FinishStop]"
proof -
  show "fake_turn parse ''tool_1'' [user_hi] WORKSPACE_TOOL_DEFINITIONS =
      script_turn ''I will create the requested file. '' dev_call 12 8"
    by (simp add: fake_turn_def Let_def WORKSPACE_TOOL_DEFINITIONS_def user_hi_def dev_call_def)
next
  assume "mm_role (last ms) = ToolRole" "ms \<noteq> []"
  then have "list_ex (\<lambda>m. mm_role m = ToolRole) ms" by (auto simp: list_ex_iff intro: last_in_set)
  then show "fake_turn parse i ms WORKSPACE_TOOL_DEFINITIONS =
     [TextDelta ''Created hello.txt successfully.'',
      ModelUsage \<lparr>mu_inputTokens = 24, mu_outputTokens = 6, mu_cachedInputTokens = None,
        mu_cacheWriteInputTokens = None, mu_imageInputTokens = None, mu_costUsd = Some 0\<rparr>,
      ModelCompleted FinishStop]"
    by (simp add: fake_turn_def Let_def WORKSPACE_TOOL_DEFINITIONS_def)
qed

lemma dev_world_steps:
  "aw_aborted dev (dev_at es n ev fs) = None"
  "aw_takeSteering dev (dev_at es n ev fs) = ([], dev_at es n ev fs)"
  "aw_streamTurn dev ms ts (dev_at es n ev fs)
     = dev_at (fake_turn (\<lambda>s. None) (''tool_'' @ nat_digits n) ms ts) (Suc n) ev fs"
  "aw_next dev (dev_at [] n ev fs) = (Inr None, dev_at [] n ev fs)"
  "aw_next dev (dev_at (e # es) n ev fs) = (Inr (Some e), dev_at es n ev fs)"
  "aw_onEvent dev x (dev_at es n ev fs) = (Inr (), dev_at es n (ev @ [ag_type x]) fs)"
  "aw_before dev dev_call (dev_at es n ev fs) = (Inr None, dev_at es n ev fs)"
  by (simp_all add: dev_agent_def dev_at_def dev_execution_facts dev_manager_facts dev_steering_def
      takeSteering_def abort_reason_of_def dev_next_def dev_event_def coordinator_before_def dev_before dev_call_def)

definition dev_files :: memory_files where
  "dev_files = [(''1:a:1:t:1:u:w'', [(''hello.txt'', ''Lite-Harness completed: hi'' @ [CHR 0x0A])])]"

definition dev_result :: tool_result where
  "dev_result = \<lparr>tr_callId = ''tool_1'', tr_ok = True, tr_content = ''Wrote 27 bytes to hello.txt'',
     tr_metadata = Some [(''path'', JStr ''hello.txt''), (''bytes'', JNum 27)]\<rparr>"

lemma dev_tool: "aw_execute dev dev_call (dev_at es n ev []) = (Inr dev_result, dev_at es n ev dev_files)"
proof -
  have "authorizedWorkspaceArtifactPath ''hello.txt'' = Inr ''hello.txt''" by code_simp
  with dev_digits(3) show ?thesis
    by (simp add: eval_nat_numeral dev_agent_def dev_at_def dev_execute_def memory_execute_def dev_execution_facts
        dev_call_def dev_identity abort_reason_of_def dev_manager_facts files_of_def Let_def requireString_def obj_get_def from_option_def dev_files_def
        dev_result_def)
qed

definition dev_validators :: validators where
  "dev_validators = [(''read_file'', required_present (tool_schema [''path''])),
     (''write_file'', required_present (tool_schema [''path'', ''content'']))]"

lemma dev_checks:
  "validateAdvertisedToolArguments dev_call dev_validators = Inr ()" "timeout_ok dev_params"
  "artifactCreatedPayload dev_call r = Inr None" "gp_requireAuthoritativeUsage dev_params = None"
  by (simp_all add: validateAdvertisedToolArguments_def dev_validators_def dev_call_def required_present_def
      tool_schema_def obj_get_def timeout_ok_def dev_params_def artifactCreatedPayload_def throw_if_def)

lemmas dev_loop = step_defs dev_world_steps dev_script dev_digits dev_checks emit_def act_def push_message_def
  start_turn_def ask_model_def script_turn_def usage_payload_def optional_num_def check_turn_def Let_def

lemma dev_prepare: "prepare_run dev dev_params \<lparr>gs_messages = [], gs_trace = [], gs_world = w\<rparr>
    = (Inr (None, WORKSPACE_TOOL_DEFINITIONS, dev_validators),
       \<lparr>gs_messages = [user_hi], gs_trace = [], gs_world = w\<rparr>)"
  by (simp add: prepare_run_def step_defs dev_agent_def dev_params_def initial_messages_def system_message_def
      advertised_tools_def nonempty_def WORKSPACE_TOOL_DEFINITIONS_def nullish_def dev_validators_def user_hi_def)

lemma dev_tool_step: "tool_step dev dev_params dev_validators dev_call
      \<lparr>gs_messages = ms, gs_trace = tr, gs_world = dev_at es n ev []\<rparr>
    = (Inr (), \<lparr>gs_messages = ms @ [tool_message dev_result],
        gs_trace = tr @ [Emitted \<lparr>ag_type = ToolCallRequested, ag_payload = ag_payload (requested_event dev_call)\<rparr>,
          Authorized dev_call, Executed dev_call (dev_at es n (ev @ [ToolCallRequested]) []),
          Emitted \<lparr>ag_type = ToolCallCompleted, ag_payload = completed_payload dev_result\<rparr>],
        gs_world = dev_at es n (ev @ [ToolCallRequested, ToolCallCompleted]) dev_files\<rparr>)"
  by (simp add: tool_step_def dev_loop dev_tool authorize_def execute_tool_def throw_if_def)

definition turn_events :: "run_event_type list" where
  "turn_events = [AgentMessageDelta, UsageUpdated, AgentMessageCompleted]"

lemma dev_call_turn: "\<exists>ms tr. agent_turn dev dev_params None WORKSPACE_TOOL_DEFINITIONS dev_validators 5 0
      \<lparr>gs_messages = [user_hi], gs_trace = [], gs_world = dev_at [] 1 [] []\<rparr>
    = (Inr False, \<lparr>gs_messages = ms, gs_trace = tr,
        gs_world = dev_at [] 2 (turn_events @ [ToolCallRequested, ToolCallCompleted]) dev_files\<rparr>)
    \<and> ms \<noteq> [] \<and> mm_role (last ms) = ToolRole \<and> asked tr = 1
    \<and> Executed dev_call (dev_at [] 2 (turn_events @ [ToolCallRequested]) []) \<in> set tr"
  by (simp add: agent_turn_def dev_loop eval_nat_numeral dev_tool_step tool_message_def turn_events_def asked_def)

lemma dev_answer_turn:
  assumes "ms \<noteq> []" and "mm_role (last ms) = ToolRole"
  shows "\<exists>ms' tr'. agent_turn dev dev_params None WORKSPACE_TOOL_DEFINITIONS vs 5 t
      \<lparr>gs_messages = ms, gs_trace = tr, gs_world = dev_at es 2 ev fs\<rparr>
    = (Inr True, \<lparr>gs_messages = ms', gs_trace = tr @ tr', gs_world = dev_at [] 3 (ev @ turn_events) fs\<rparr>)
    \<and> asked tr' = 1"
  using assms by (simp add: agent_turn_def dev_loop eval_nat_numeral turn_events_def asked_def)

lemma dev_run_result: "\<exists>s. dev_run = (Inr (), s) \<and> asked (gs_trace s) = 2
    \<and> Executed dev_call (dev_at [] 2 (turn_events @ [ToolCallRequested]) []) \<in> set (gs_trace s)
    \<and> dw_files (gs_world s) = dev_files"
proof -
  from dev_call_turn obtain ms tr where first: "agent_turn dev dev_params None WORKSPACE_TOOL_DEFINITIONS dev_validators 5 0
      \<lparr>gs_messages = [user_hi], gs_trace = [], gs_world = dev_at [] 1 [] []\<rparr>
    = (Inr False, \<lparr>gs_messages = ms, gs_trace = tr,
        gs_world = dev_at [] 2 (turn_events @ [ToolCallRequested, ToolCallCompleted]) dev_files\<rparr>)"
    and ms: "ms \<noteq> []" "mm_role (last ms) = ToolRole" and tr: "asked tr = 1"
      "Executed dev_call (dev_at [] 2 (turn_events @ [ToolCallRequested]) []) \<in> set tr" by blast
  from dev_answer_turn [OF ms] obtain ms' tr' where
    second: "agent_turn dev dev_params None WORKSPACE_TOOL_DEFINITIONS dev_validators 5 (Suc 0)
        \<lparr>gs_messages = ms, gs_trace = tr,
          gs_world = dev_at [] 2 (turn_events @ [ToolCallRequested, ToolCallCompleted]) dev_files\<rparr>
      = (Inr True, \<lparr>gs_messages = ms', gs_trace = tr @ tr',
          gs_world = dev_at [] 3 ((turn_events @ [ToolCallRequested, ToolCallCompleted]) @ turn_events) dev_files\<rparr>)"
    and tr': "asked tr' = 1" by blast
  have turns: "nat \<lceil>turn_limit 24 dev_params\<rceil> = Suc (Suc 22)" by (simp add: turn_limit_def dev_params_def nullish_def)
  have "dev_run = (Inr (), \<lparr>gs_messages = ms', gs_trace = tr @ tr',
      gs_world = dev_at [] 3 ((turn_events @ [ToolCallRequested, ToolCallCompleted]) @ turn_events) dev_files\<rparr>)"
    by (simp only: dev_run_def agent_run_def turns bind_step_def dev_prepare agent_turns.simps first second
        return_step_def prod.case sum.case if_True if_False)
  moreover have "dw_files (dev_at es n ev fs) = fs" for es n ev fs by (simp add: dev_at_def)
  ultimately show ?thesis using tr tr' by (intro exI conjI) auto
qed

section \<open>The claims on this run\<close>

lemma dev_trace:
  obtains s pre post where "dev_run = (Inr (), s)" "asked (gs_trace s) = 2"
    "gs_trace s = pre @ Executed dev_call (dev_at [] 2 (turn_events @ [ToolCallRequested]) []) # post"
  using dev_run_result by (metis split_list)

theorem executed_tools_checked_witness:
  "cleared dev dev_call (dev_at [] 2 (turn_events @ [ToolCallRequested]) [])
     \<and> tc_name dev_call \<in> set (nullish (gp_allowedTools dev_params) [])"
proof -
  obtain s pre post where "dev_run = (Inr (), s)"
    "gs_trace s = pre @ Executed dev_call (dev_at [] 2 (turn_events @ [ToolCallRequested]) []) # post"
    by (rule dev_trace)
  from executed_tools_checked [OF this [unfolded dev_run_def]] show ?thesis by blast
qed

theorem executed_tools_permitted_witness:
  "tool_permitted example_config dev_execution dev_call (dev_at [] 2 (turn_events @ [ToolCallRequested]) [])"
proof -
  obtain s pre post where run: "dev_run = (Inr (), s)"
    "gs_trace s = pre @ Executed dev_call (dev_at [] 2 (turn_events @ [ToolCallRequested]) []) # post"
    by (rule dev_trace)
  have "aw_before dev = coordinator_before example_config (\<lambda>w. ''apr'') (\<lambda>a w. (False, w)) dev_execution"
    by (simp add: dev_agent_def)
  from executed_tools_permitted [OF this run(1) [unfolded dev_run_def]] run(2) show ?thesis by simp
qed

lemma dev_finite: "finite_streams dev 5 (\<lambda>w. length (dw_script w))"
  unfolding finite_streams_def
  using fake_turn_length
  by (auto simp: dev_agent_def dev_next_def dev_event_def less_Suc_eq_le eval_nat_numeral split: list.splits)

theorem agent_run_terminates_witness:
  "\<exists>s. dev_run = (Inr (), s) \<and> asked (gs_trace s) \<le> 24 \<and> final_answer (gs_messages s)"
proof -
  obtain s where run: "dev_run = (Inr (), s)" using dev_run_result by blast
  have "turn_limit 24 dev_params = 24" by (simp add: turn_limit_def dev_params_def nullish_def)
  with agent_run_terminates [OF dev_finite run [unfolded dev_run_def]]
  have "asked (gs_trace s) \<le> 24 \<and> final_answer (gs_messages s)" by simp
  with run show ?thesis by blast
qed

end
