(* ===== verification/RuntimeProperties.thy ===== *)
theory RuntimeProperties
  imports RuntimeTools
begin

text \<open>
  What the tool runtimes guarantee: a path that passes the check stays below the workspace for
  every reader of separators, and the in-memory runtime is a map from owner, workspace and path
  to content.
\<close>

section \<open>A checked path stays in the workspace\<close>

text \<open>A part of a coarser split that holds no separator of the finer one is a part of that too.\<close>

lemma split_finer:
  assumes finer: "\<And>c. coarse c \<Longrightarrow> fine c" and part: "\<forall>c\<in>set part. \<not> fine c"
  shows "part \<in> set (split_at coarse s) \<Longrightarrow> part \<in> set (split_at fine s)"
proof -
  have head: "\<forall>c\<in>set (hd (split_at coarse s)). \<not> fine c \<Longrightarrow> hd (split_at fine s) = hd (split_at coarse s)" for s
  proof (induction s)
    case (Cons a s)
    obtain p ps q qs where "split_at coarse s = p # ps" "split_at fine s = q # qs"
      by (meson split_nonempty neq_Nil_conv)
    with Cons finer [of a] show ?case by auto
  qed simp
  have tail: "part \<in> set (tl (split_at coarse s)) \<Longrightarrow> part \<in> set (tl (split_at fine s))" for s
  proof (induction s)
    case (Cons a s)
    obtain p ps q qs where split: "split_at coarse s = p # ps" "split_at fine s = q # qs"
      by (meson split_nonempty neq_Nil_conv)
    show ?case
    proof (cases "coarse a")
      case True
      with Cons.prems split consider "part = p" | "part \<in> set ps" by auto
      then have "part \<in> set (q # qs)" using head [of s] part split Cons.IH by cases auto
      with True finer split show ?thesis by simp
    next
      case False
      with Cons split show ?thesis by auto
    qed
  qed simp
  assume "part \<in> set (split_at coarse s)"
  then show "part \<in> set (split_at fine s)"
    using head [of s] tail [of s] part split_nonempty [of coarse s] split_nonempty [of fine s]
    by (cases "split_at coarse s"; cases "split_at fine s") auto
qed

text \<open>C21: A checked path stays in the workspace. However a file system splits a path that
  \<open>validateWorkspacePath\<close> accepts, at both kinds of slashes or only at one of them, walking along
  its parts from any directory never leads above that directory: the walk ends below it, at the
  non-trivial parts of the path.\<close>

theorem validated_path_inside:
  assumes "validateWorkspacePath path" and "\<And>c. sep c \<Longrightarrow> is_separator c"
  shows "walk dir (split_at sep path) = Some (dir @ filter (\<lambda>p. p \<noteq> [] \<and> p \<noteq> ''.'') (split_at sep path))"
proof (rule walk_down)
  have "''..'' \<notin> set (split_at is_separator path)"
    using assms(1) by (auto simp: validateWorkspacePath_def list_ex_iff)
  moreover have "\<forall>c\<in>set ''..''. \<not> is_separator c" by (simp add: is_separator_def)
  note split_finer [where coarse = sep and s = path, OF assms(2) this]
  ultimately show "''..'' \<notin> set (split_at sep path)" by (rule contrapos_nn)
qed

theorem validated_path_inside_witness:
  "walk [''ws''] (split_at (\<lambda>c. c = CHR ''/'') ''a/./b..txt'') = Some [''ws'', ''a'', ''b..txt'']"
proof -
  have "validateWorkspacePath ''a/./b..txt''" by code_simp
  note inside = validated_path_inside [OF this, of "\<lambda>c. c = CHR ''/''" "[''ws'']"]
  have "[''ws''] @ filter (\<lambda>p. p \<noteq> [] \<and> p \<noteq> ''.'') (split_at (\<lambda>c. c = CHR ''/'') ''a/./b..txt'')
      = [''ws'', ''a'', ''b..txt'']" by code_simp
  with inside show ?thesis by (simp only: is_separator_def simp_thms)
qed

section \<open>The in-memory runtime refines a map\<close>

text \<open>What a runtime with files promises: a partial map from owner, workspace and path.\<close>

type_synonym file_map = "resource_owner \<times> string \<times> string \<Rightarrow> string option"

definition reply :: "tool_call \<Rightarrow> bool \<Rightarrow> string \<Rightarrow> jsobject option \<Rightarrow> tool_result" where
  "reply call good content metadata =
     \<lparr>tr_callId = tc_id call, tr_ok = good, tr_content = content, tr_metadata = metadata\<rparr>"

definition path_argument :: "tool_call \<Rightarrow> tool_error + string" where
  "path_argument call = requireString (obj_get (tc_arguments call) ''path'') ''path''"

definition content_argument :: "tool_call \<Rightarrow> tool_error + string" where
  "content_argument call = requireString (obj_get (tc_arguments call) ''content'') ''content''"

definition map_write :: "(string \<Rightarrow> string option \<Rightarrow> 'm \<Rightarrow> 'm) \<Rightarrow> tool_call \<Rightarrow> 'm \<Rightarrow> (tool_error + tool_result) \<times> 'm" where
  "map_write put call m =
     (case path_argument call of Inl e \<Rightarrow> (Inl e, m) | Inr path \<Rightarrow>
      case content_argument call of Inl e \<Rightarrow> (Inl e, m) | Inr content \<Rightarrow>
        if \<not> validateWorkspacePath path then (Inl (UnsafePath path), m)
        else (Inr (reply call True (''Wrote '' @ nat_digits (length content) @ '' bytes to '' @ path)
                (Some [(''path'', JStr path), (''bytes'', JNum (of_nat (length content)))])),
              put path (Some content) m))"

definition map_read :: "(string \<Rightarrow> string option) \<Rightarrow> tool_call \<Rightarrow> tool_error + tool_result" where
  "map_read get call =
     (case path_argument call of Inl e \<Rightarrow> Inl e | Inr path \<Rightarrow>
        if \<not> validateWorkspacePath path then Inl (UnsafePath path)
        else Inr (case get path of
            None \<Rightarrow> reply call False (''File not found: '' @ path) None
          | Some content \<Rightarrow> reply call True content (Some [(''path'', JStr path)])))"

definition map_execute :: "resource_owner \<Rightarrow> string \<Rightarrow> tool_call \<Rightarrow> file_map \<Rightarrow> (tool_error + tool_result) \<times> file_map" where
  "map_execute ow ws call m =
     (if tc_name call = ''write_file'' then map_write (\<lambda>path c m. m((ow, ws, path) := c)) call m
      else if tc_name call = ''read_file'' then (map_read (\<lambda>path. m (ow, ws, path)) call, m)
      else (Inr (reply call False (''Unsupported tool: '' @ tc_name call) None), m))"

definition files_abs :: "memory_files \<Rightarrow> file_map" where
  "files_abs files = (\<lambda>(ow, ws, path). readFile ws path (Some ow) files)"

lemma workspaceIdentity_inj:
  "workspaceIdentity ws (Some ow) = workspaceIdentity ws' (Some ow') \<longleftrightarrow> ws = ws' \<and> ow = ow'"
  using ownerQueuePrefix_inj [of ow "CHR '':'' # ws" ow' "CHR '':'' # ws'"]
  by (auto simp: workspaceIdentity_def ownerQueuePrefix_def)

lemma files_of_update: "files_of i (AList.update j fs files) = (if i = j then fs else files_of i files)"
  by (simp add: files_of_def nullish_def update_conv')

lemma files_abs_touch:
  "files_abs (AList.update (workspaceIdentity ws (Some ow)) (files_of (workspaceIdentity ws (Some ow)) files) files)
     = files_abs files"
  by (auto simp: files_abs_def readFile_def files_of_update fun_eq_iff)

lemma files_abs_write:
  "files_abs (AList.update (workspaceIdentity ws (Some ow))
       (AList.update path c (files_of (workspaceIdentity ws (Some ow)) files)) files)
     = (files_abs files)((ow, ws, path) := Some c)"
  by (auto simp: files_abs_def readFile_def files_of_update fun_eq_iff workspaceIdentity_inj update_conv')

text \<open>C20: The in-memory runtime is a map. For every request of an owner, \<open>InMemoryToolRuntime.execute\<close>
  answers as a map from owner, workspace and path to contents does, and changes it in the same way:
  a write that passes its checks sets exactly the file of this owner, workspace and path; a read,
  a refusal and an unknown tool change no file. A request whose signal is aborted is refused and changes nothing. Two owners never see each other's files, whatever
  their identifiers look like.\<close>

theorem memory_runtime_refines:
  assumes "tq_principal rq = Some ow"
  shows "map_prod id files_abs (memory_execute rq files) =
    (if tq_aborted rq then (Inl ToolAborted, files_abs files)
     else map_execute ow (tq_workspaceId rq) (tq_call rq) (files_abs files))"
proof -
  let ?i = "workspaceIdentity (tq_workspaceId rq) (Some ow)" and ?args = "tc_arguments (tq_call rq)"
  have lookup: "map_of (files_of ?i files) path = files_abs files (ow, tq_workspaceId rq, path)" for path
    by (simp add: files_abs_def readFile_def)
  consider "tc_name (tq_call rq) = ''write_file''" | "tc_name (tq_call rq) = ''read_file''"
    | "tc_name (tq_call rq) \<noteq> ''write_file''" "tc_name (tq_call rq) \<noteq> ''read_file''" by blast
  then show ?thesis
    by cases
      (auto simp: memory_execute_def map_execute_def map_write_def map_read_def path_argument_def content_argument_def
        reply_def Let_def assms files_abs_touch files_abs_write update_Some_unfold lookup authorizedWorkspaceArtifactPath_def
        result_simps split: sum.split option.split)
qed

definition write_request :: tool_request where
  "write_request = \<lparr>tq_workspaceId = ''w'', tq_runId = None,
     tq_principal = Some \<lparr>appId = ''a'', tenantId = ''t'', userId = ''u''\<rparr>,
     tq_call = \<lparr>tc_id = ''c'', tc_name = ''write_file'',
       tc_arguments = [(''path'', JStr ''n''), (''content'', JStr ''x'')]\<rparr>, tq_aborted = False\<rparr>"

theorem memory_runtime_refines_witness:
  "files_abs (snd (memory_execute write_request [])) (\<lparr>appId = ''a'', tenantId = ''t'', userId = ''u''\<rparr>, ''w'', ''n'')
     = Some ''x''"
proof -
  have "snd (map_execute \<lparr>appId = ''a'', tenantId = ''t'', userId = ''u''\<rparr> ''w'' (tq_call write_request) m)
      (\<lparr>appId = ''a'', tenantId = ''t'', userId = ''u''\<rparr>, ''w'', ''n'') = Some ''x''" for m by code_simp
  with memory_runtime_refines [of write_request "\<lparr>appId = ''a'', tenantId = ''t'', userId = ''u''\<rparr>" "[]"]
  show ?thesis by (simp add: write_request_def prod_eq_iff)
qed

end
