(* ===== verification/ProviderRoutes.thy ===== *)
theory ProviderRoutes
  imports AgentLoop
begin

text \<open>
  The routing of model requests, \<open>packages/provider-core/src/index.ts\<close>: the registry of models
  and its route plans, the plan that is frozen for a run attempt, the cost of a turn, and the
  gateway that tries the routes of a plan one after the other.
\<close>

section \<open>Models\<close>

datatype transport = Direct | Delegated

record model_descriptor =
  md_id :: string
  md_providerId :: string
  md_transport :: transport
  md_credentialProfileId :: string
  md_capabilities :: "model_capability list"
  md_contextWindow :: num
  md_inputUsdPerMillion :: "num option"
  md_outputUsdPerMillion :: "num option"
  md_cachedInputUsdPerMillion :: "num option"
  md_cacheWriteInputUsdPerMillion :: "num option"
  md_imageInputUsdPerMillion :: "num option"
  md_longContextThresholdTokens :: "num option"
  md_longContextInputMultiplier :: "num option"
  md_longContextOutputMultiplier :: "num option"
  md_enabled :: bool

datatype model_error =
    IdentityRequired
  | ContextWindowInvalid
  | TextRequired
  | PricingIncomplete
  | RateInvalid string
  | MultiplierInvalid string
  | ThresholdInvalid

text \<open>The checks of a list of named optional numbers; the first that fails decides.\<close>

fun check_numbers :: "(num \<Rightarrow> bool) \<Rightarrow> (string \<Rightarrow> model_error) \<Rightarrow> (string \<times> num option) list \<Rightarrow> model_error + unit" where
  "check_numbers bad err [] = Inr ()"
| "check_numbers bad err ((name, value) # rest) =
     (case value of Some v \<Rightarrow> if bad v then Inl (err name) else check_numbers bad err rest
      | None \<Rightarrow> check_numbers bad err rest)"

text \<open>Numbers are finite here: the checks for NaN and the infinities have no counterpart.\<close>

definition validateModel :: "model_descriptor \<Rightarrow> model_error + unit" where
  "validateModel m =
     bind_result (throw_if (md_id m = [] \<or> md_providerId m = [] \<or> md_credentialProfileId m = []) IdentityRequired) (\<lambda>_.
     bind_result (throw_if (\<not> is_safe_integer (md_contextWindow m) \<or> md_contextWindow m \<le> 0) ContextWindowInvalid) (\<lambda>_.
     bind_result (throw_if (Text \<notin> set (md_capabilities m)) TextRequired) (\<lambda>_.
     bind_result (throw_if ((md_inputUsdPerMillion m = None) \<noteq> (md_outputUsdPerMillion m = None)) PricingIncomplete) (\<lambda>_.
     bind_result (check_numbers (\<lambda>v. v < 0) RateInvalid
       [(''inputUsdPerMillion'', md_inputUsdPerMillion m), (''outputUsdPerMillion'', md_outputUsdPerMillion m),
        (''cachedInputUsdPerMillion'', md_cachedInputUsdPerMillion m),
        (''cacheWriteInputUsdPerMillion'', md_cacheWriteInputUsdPerMillion m),
        (''imageInputUsdPerMillion'', md_imageInputUsdPerMillion m)]) (\<lambda>_.
     bind_result (check_numbers (\<lambda>v. v < 1) MultiplierInvalid
       [(''longContextInputMultiplier'', md_longContextInputMultiplier m),
        (''longContextOutputMultiplier'', md_longContextOutputMultiplier m)]) (\<lambda>_.
     throw_if (case md_longContextThresholdTokens m of None \<Rightarrow> False
       | Some t \<Rightarrow> \<not> is_safe_integer t \<or> t < 1) ThresholdInvalid))))))"

definition hasKnownModelPricing :: "model_descriptor \<Rightarrow> bool" where
  "hasKnownModelPricing m \<longleftrightarrow> md_inputUsdPerMillion m \<noteq> None \<and> md_outputUsdPerMillion m \<noteq> None"

section \<open>The registry\<close>

record model_registry =
  mr_models :: "(string \<times> model_descriptor) list"
  mr_generation :: nat

definition empty_registry :: model_registry where
  "empty_registry = \<lparr>mr_models = [], mr_generation = 1\<rparr>"

definition register_model :: "model_descriptor \<Rightarrow> model_registry \<Rightarrow> (model_error + unit) \<times> model_registry" where
  "register_model m r = (case validateModel m of
     Inl e \<Rightarrow> (Inl e, r)
   | Inr u \<Rightarrow> (Inr (), r\<lparr>mr_models := AList.update (md_id m) m (mr_models r),
       mr_generation := mr_generation r + 1\<rparr>))"

definition list_models :: "model_registry \<Rightarrow> model_descriptor list" where
  "list_models r = map snd (mr_models r)"

record route_request =
  rt_requiredCapabilities :: "model_capability list"
  rt_allowedProviders :: "string list option"
  rt_allowedModels :: "string list option"
  rt_preferredModel :: "string option"
  rt_maxInputUsdPerMillion :: "num option"

record route_plan =
  pl_id :: string
  pl_registryGeneration :: nat
  pl_selected :: model_descriptor
  pl_fallbacks :: "model_descriptor list"

definition score :: "route_request \<Rightarrow> model_descriptor \<Rightarrow> num" where
  "score rq m = (if rt_preferredModel rq = Some (md_id m) then - 1000000 else 0)
     + (if md_transport m = Delegated then 10000 else 0)
     + nullish (md_inputUsdPerMillion m) 1000 + nullish (md_outputUsdPerMillion m) 1000"

text \<open>The conditions of the filter but the last, and the last: a price above the ceiling or unknown.\<close>

definition compatible :: "route_request \<Rightarrow> model_descriptor \<Rightarrow> bool" where
  "compatible rq m \<longleftrightarrow> md_enabled m
     \<and> list_all (\<lambda>c. c \<in> set (md_capabilities m)) (rt_requiredCapabilities rq)
     \<and> (case rt_allowedProviders rq of None \<Rightarrow> True | Some ps \<Rightarrow> md_providerId m \<in> set ps)
     \<and> (case rt_allowedModels rq of None \<Rightarrow> True | Some ms \<Rightarrow> md_id m \<in> set ms)"

definition price_unknown :: "route_request \<Rightarrow> model_descriptor \<Rightarrow> bool" where
  "price_unknown rq m \<longleftrightarrow> rt_maxInputUsdPerMillion rq \<noteq> None \<and> md_inputUsdPerMillion m = None"

definition affordable :: "route_request \<Rightarrow> model_descriptor \<Rightarrow> bool" where
  "affordable rq m \<longleftrightarrow> (case rt_maxInputUsdPerMillion rq of None \<Rightarrow> True
     | Some limit \<Rightarrow> (case md_inputUsdPerMillion m of None \<Rightarrow> False | Some price \<Rightarrow> price \<le> limit))"

definition not_retryable :: "string \<Rightarrow> provider_error" where
  "not_retryable code = \<lparr>pe_code = code, pe_retryable = False\<rparr>"

text \<open>\<open>i\<close> is the fresh identifier of the plan. The sort of the candidates is stable.\<close>

definition plan_route :: "string \<Rightarrow> route_request \<Rightarrow> model_registry \<Rightarrow> provider_error + route_plan" where
  "plan_route i rq r =
     (let admitted = filter (compatible rq) (list_models r) in
      case sort_key (score rq) (filter (affordable rq) admitted) of
        [] \<Rightarrow> Inl (not_retryable (if list_ex (price_unknown rq) admitted
            then ''unknown_model_price'' else ''no_compatible_model''))
      | selected # fallbacks \<Rightarrow> Inr \<lparr>pl_id = i, pl_registryGeneration = mr_generation r,
            pl_selected = selected, pl_fallbacks = fallbacks\<rparr>)"

section \<open>The plan of a run attempt\<close>

text \<open>The capabilities of a request, each once and in order, with \<open>text\<close> in front when it is missing.\<close>

definition normalizedRequiredCapabilities :: "model_capability list option \<Rightarrow> model_capability list" where
  "normalizedRequiredCapabilities v =
     (let cs = rev (remdups (rev (case nonempty v of None \<Rightarrow> [Text] | Some l \<Rightarrow> l))) in
      if Text \<in> set cs then cs else Text # cs)"

definition preparedRoute :: "route_plan \<Rightarrow> prepared_route" where
  "preparedRoute p = \<lparr>pr_routePlanId = pl_id p, pr_modelId = md_id (pl_selected p),
     pr_providerId = md_providerId (pl_selected p), pr_capabilities = md_capabilities (pl_selected p),
     pr_contextWindow = md_contextWindow (pl_selected p)\<rparr>"

text \<open>A map that keeps the order of insertion and drops its oldest entries beyond 1,024.\<close>

definition remember :: "'k \<Rightarrow> 'v \<Rightarrow> ('k \<times> 'v) list \<Rightarrow> ('k \<times> 'v) list" where
  "remember k v cache = (let c = AList.update k v cache in drop (length c - 1024) c)"

type_synonym plan_key = "string \<times> string"

text \<open>
  \<open>#plan\<close> over a registry. A key is a run with its attempt (joined by a NUL in the code). \<open>persist\<close>
  is the hook \<open>onRoutePlan\<close>, which may fail; a plan that was not persisted is not remembered.
\<close>

definition attempt_plan ::
  "(route_plan \<Rightarrow> 'e option) \<Rightarrow> string \<Rightarrow> plan_key option \<Rightarrow> model_capability list \<Rightarrow> model_registry
    \<Rightarrow> (plan_key \<times> route_plan) list \<Rightarrow> (('e + provider_error) + route_plan) \<times> (plan_key \<times> route_plan) list" where
  "attempt_plan persist i key caps r plans =
     (case (case key of None \<Rightarrow> None | Some k \<Rightarrow> map_of plans k) of
        Some plan \<Rightarrow> (Inr plan, plans)
      | None \<Rightarrow>
          (case plan_route i \<lparr>rt_requiredCapabilities = caps, rt_allowedProviders = None,
               rt_allowedModels = None, rt_preferredModel = None, rt_maxInputUsdPerMillion = None\<rparr> r of
             Inl e \<Rightarrow> (Inl (Inr e), plans)
           | Inr plan \<Rightarrow>
               (case key of
                  None \<Rightarrow> (Inr plan, plans)
                | Some k \<Rightarrow> (case persist plan of
                    Some e \<Rightarrow> (Inl (Inl e), plans)
                  | None \<Rightarrow> (Inr plan, remember k plan plans)))))"

text \<open>\<open>#plan\<close> over a plan that was frozen before.\<close>

definition frozen_plan :: "route_plan \<Rightarrow> model_capability list \<Rightarrow> provider_error + route_plan" where
  "frozen_plan plan caps =
     (if list_all (\<lambda>c. c \<in> set (md_capabilities (pl_selected plan))) caps then Inr plan
      else Inl (not_retryable ''no_compatible_model''))"

section \<open>The cost of a turn\<close>

definition category_ok :: "num \<Rightarrow> bool" where
  "category_ok n \<longleftrightarrow> is_safe_integer n \<and> 0 \<le> n"

definition withAuthoritativeCost :: "model_usage \<Rightarrow> model_descriptor \<Rightarrow> provider_error + model_usage" where
  "withAuthoritativeCost u m =
     (if mu_inputTokens u < 0 \<or> mu_outputTokens u < 0 then Inl (not_retryable ''invalid_usage'')
      else if (case mu_costUsd u of None \<Rightarrow> False | Some c \<Rightarrow> c < 0) then Inl (not_retryable ''invalid_usage'')
      else
        case (md_inputUsdPerMillion m, md_outputUsdPerMillion m) of
          (Some input, Some output) \<Rightarrow>
            (let cached = nullish (mu_cachedInputTokens u) 0; cacheWrite = nullish (mu_cacheWriteInputTokens u) 0;
                 image = nullish (mu_imageInputTokens u) 0 in
             if \<not> list_all category_ok [cached, cacheWrite, image] \<or> mu_inputTokens u < cached + cacheWrite + image
             then Inl (not_retryable ''invalid_usage'')
             else
               let ordinary = mu_inputTokens u - cached - cacheWrite - image;
                   long = (case md_longContextThresholdTokens m of None \<Rightarrow> False | Some t \<Rightarrow> t < mu_inputTokens u);
                   inputMultiplier = (if long then nullish (md_longContextInputMultiplier m) 1 else 1);
                   outputMultiplier = (if long then nullish (md_longContextOutputMultiplier m) 1 else 1);
                   calculated = (inputMultiplier * (ordinary * input
                       + cached * nullish (md_cachedInputUsdPerMillion m) input
                       + cacheWrite * nullish (md_cacheWriteInputUsdPerMillion m) input
                       + image * nullish (md_imageInputUsdPerMillion m) input)
                     + outputMultiplier * mu_outputTokens u * output) / 1000000 in
               Inr (u\<lparr>mu_costUsd := Some (js_max (nullish (mu_costUsd u) 0) calculated)\<rparr>))
        | _ \<Rightarrow> Inr u)"

section \<open>Trying the routes\<close>

datatype adapter_event = RequestAccepted | Event model_event

fun providerRequestBecameVisible :: "adapter_event \<Rightarrow> bool" where
  "providerRequestBecameVisible RequestAccepted = True"
| "providerRequestBecameVisible (Event (ModelUsage u)) = True"
| "providerRequestBecameVisible (Event (ModelToolCall c)) = True"
| "providerRequestBecameVisible (Event (TextDelta s)) = True"
| "providerRequestBecameVisible (Event (ModelCompleted r)) = False"

datatype 'e route_error = RouteFailure provider_error | Unexpected 'e

text \<open>
  The outside of a turn: which providers have an adapter, what the resolution of the credential of
  the \<open>n\<close>-th route throws (if anything), what the adapter streams on the \<open>n\<close>-th route and how the
  stream ends, and what the hook \<open>onUsage\<close> throws.
\<close>

record 'e route_env =
  re_adapter :: "string \<Rightarrow> bool"
  re_resolve :: "nat \<Rightarrow> model_descriptor \<Rightarrow> 'e route_error option"
  re_stream :: "nat \<Rightarrow> model_descriptor \<Rightarrow> adapter_event list \<times> 'e route_error option"
  re_onUsage :: "route_plan \<Rightarrow> model_descriptor \<Rightarrow> model_usage \<Rightarrow> 'e route_error option"

record turn_request =
  tn_messages :: "model_message list"
  tn_tools :: "tool_definition list"
  tn_maxCostUsd :: "num option"
  tn_hasContext :: bool
  tn_hasImages :: bool

datatype route_action = Asked nat model_descriptor | Received adapter_event | Yielded model_event

text \<open>The stream of one route: what it lets happen, and the error it ends with.\<close>

fun forward_stream ::
  "'e route_env \<Rightarrow> bool \<Rightarrow> route_plan \<Rightarrow> model_descriptor \<Rightarrow> 'e route_error option \<Rightarrow> adapter_event list
    \<Rightarrow> route_action list \<times> 'e route_error option" where
  "forward_stream env ctx plan m fin [] = ([], fin)"
| "forward_stream env ctx plan m fin (RequestAccepted # es) =
     (case forward_stream env ctx plan m fin es of (tr, r) \<Rightarrow> (Received RequestAccepted # tr, r))"
| "forward_stream env ctx plan m fin (Event (ModelUsage u) # es) =
     (case withAuthoritativeCost u m of
        Inl e \<Rightarrow> ([Received (Event (ModelUsage u))], Some (RouteFailure e))
      | Inr usage \<Rightarrow>
          (case (if ctx then re_onUsage env plan m usage else None) of
             Some e \<Rightarrow> ([Received (Event (ModelUsage u))], Some e)
           | None \<Rightarrow> (case forward_stream env ctx plan m fin es of
               (tr, r) \<Rightarrow> (Received (Event (ModelUsage u)) # Yielded (ModelUsage usage) # tr, r))))"
| "forward_stream env ctx plan m fin (Event e # es) =
     (case forward_stream env ctx plan m fin es of (tr, r) \<Rightarrow> (Received (Event e) # Yielded e # tr, r))"

fun retryable :: "'e route_error \<Rightarrow> bool" where
  "retryable (RouteFailure e) = pe_retryable e"
| "retryable (Unexpected e) = False"

definition became_visible :: "route_action list \<Rightarrow> bool" where
  "became_visible tr = list_ex (\<lambda>a. case a of Received e \<Rightarrow> providerRequestBecameVisible e | _ \<Rightarrow> False) tr"

text \<open>One attempt: from the credential to the end of the stream.\<close>

definition attempt_route ::
  "'e route_env \<Rightarrow> bool \<Rightarrow> route_plan \<Rightarrow> nat \<Rightarrow> model_descriptor \<Rightarrow> route_action list \<times> 'e route_error option" where
  "attempt_route env ctx plan n m = (case re_resolve env n m of
     Some e \<Rightarrow> ([], Some e)
   | None \<Rightarrow> (case re_stream env n m of (es, fin) \<Rightarrow>
       (case forward_stream env ctx plan m fin es of (tr, r) \<Rightarrow> (Asked n m # tr, r))))"

fun try_routes ::
  "'e route_env \<Rightarrow> (model_message list \<Rightarrow> tool_definition list \<Rightarrow> nat) \<Rightarrow> turn_request \<Rightarrow> route_plan \<Rightarrow> nat
    \<Rightarrow> bool \<Rightarrow> 'e route_error option \<Rightarrow> model_descriptor list \<Rightarrow> route_action list \<times> 'e route_error option" where
  "try_routes env json_length rq plan n visible lastError [] =
     ([], Some (nullish lastError (RouteFailure \<lparr>pe_code = ''route_exhausted'', pe_retryable = True\<rparr>)))"
| "try_routes env json_length rq plan n visible lastError (m # routes) =
     (case assertModelContextFits json_length (tn_messages rq) (md_contextWindow m) (tn_tools rq) of
        Inl e \<Rightarrow> ([], Some (RouteFailure e))
      | Inr u \<Rightarrow>
          if 0 < n \<and> tn_hasImages rq
          then ([], Some (RouteFailure \<lparr>pe_code = ''context_recompile_required'', pe_retryable = True\<rparr>))
          else if tn_maxCostUsd rq \<noteq> None \<and> \<not> hasKnownModelPricing m
          then try_routes env json_length rq plan (n + 1) visible
                 (Some (RouteFailure (not_retryable ''unknown_model_price''))) routes
          else if \<not> re_adapter env (md_providerId m)
          then try_routes env json_length rq plan (n + 1) visible
                 (Some (RouteFailure (not_retryable ''adapter_missing''))) routes
          else
            (case attempt_route env (tn_hasContext rq) plan n m of
               (tr, None) \<Rightarrow> (tr, None)
             | (tr, Some e) \<Rightarrow>
                 if \<not> retryable e \<or> visible \<or> became_visible tr then (tr, Some e)
                 else (case try_routes env json_length rq plan (n + 1) visible (Some e) routes of
                   (tr', r) \<Rightarrow> (tr @ tr', r))))"

definition routed_turn ::
  "'e route_env \<Rightarrow> (model_message list \<Rightarrow> tool_definition list \<Rightarrow> nat) \<Rightarrow> turn_request \<Rightarrow> route_plan
    \<Rightarrow> route_action list \<times> 'e route_error option" where
  "routed_turn env json_length rq plan =
     try_routes env json_length rq plan 0 False None (pl_selected plan # pl_fallbacks plan)"

end
