(* ===== verification/ProviderProperties.thy ===== *)
theory ProviderProperties
  imports ProviderRoutes
begin

text \<open>
  What the routing guarantees: which models a plan takes and in which order, that the plan of a run
  attempt is frozen, that a request the provider may have seen is never sent to another route, and
  that usage under a cost ceiling has a price.
\<close>

section \<open>Route plans\<close>

text \<open>A registry as its constructor and later registrations build it; refused models are left out.\<close>

definition build_registry :: "model_descriptor list \<Rightarrow> model_registry" where
  "build_registry ms = fold (\<lambda>m r. snd (register_model m r)) ms empty_registry"

definition registry_ok :: "model_registry \<Rightarrow> bool" where
  "registry_ok r \<longleftrightarrow> distinct (map fst (mr_models r)) \<and> (\<forall>(k, m)\<in>set (mr_models r). k = md_id m \<and> validateModel m = Inr ())"

lemma register_ok:
  assumes "registry_ok r"
  shows "registry_ok (snd (register_model m r))"
proof (cases "validateModel m")
  case (Inr u)
  have "\<forall>(k, x)\<in>set (AList.update (md_id m) m ms). k = md_id x \<and> validateModel x = Inr ()"
    if "\<forall>(k, x)\<in>set ms. k = md_id x \<and> validateModel x = Inr ()" for ms
    using that Inr by (induction ms) auto
  from this [of "mr_models r"] assms Inr show ?thesis
    unfolding register_model_def registry_ok_def by (simp add: distinct_update)
qed (use assms in \<open>simp add: register_model_def\<close>)

lemma build_registry_ok: "registry_ok (build_registry ms)"
proof -
  have "registry_ok r \<Longrightarrow> registry_ok (fold (\<lambda>m r. snd (register_model m r)) ms r)" for r
    by (induction ms arbitrary: r) (simp_all add: register_ok)
  moreover have "registry_ok empty_registry" by (simp add: empty_registry_def registry_ok_def)
  ultimately show ?thesis unfolding build_registry_def by blast
qed

definition admissible :: "route_request \<Rightarrow> model_registry \<Rightarrow> model_descriptor set" where
  "admissible rq r = {m \<in> set (list_models r). compatible rq m \<and> affordable rq m}"

text \<open>A route plan takes exactly the admissible models, the cheapest first. Over any registry that
  registrations can build, \<open>plan\<close> succeeds exactly when some enabled model has the required
  capabilities and passes the policy; the routes of the plan are these models, each once, valid, in the order of
  their scores, so that no route has a better score than the selected one.\<close>

theorem plan_takes_admissible:
  "case plan_route i rq (build_registry ms) of
     Inl e \<Rightarrow> admissible rq (build_registry ms) = {} \<and> \<not> pe_retryable e
   | Inr p \<Rightarrow> (let routes = pl_selected p # pl_fallbacks p in
       set routes = admissible rq (build_registry ms) \<and> distinct (map md_id routes) \<and> sorted (map (score rq) routes)
       \<and> (\<forall>m\<in>set routes. validateModel m = Inr () \<and> score rq (pl_selected p) \<le> score rq m))"
proof -
  let ?r = "build_registry ms"
  let ?found = "filter (affordable rq) (filter (compatible rq) (list_models ?r))"
  let ?routes = "sort_key (score rq) ?found"
  note ok = build_registry_ok [of ms, unfolded registry_ok_def]
  have ids: "map md_id (list_models ?r) = map fst (mr_models ?r)"
    using ok by (auto simp: list_models_def)
  have set: "set ?routes = admissible rq ?r" by (auto simp: admissible_def)
  have "distinct (map md_id ?found)" using ok ids by (simp add: distinct_map_filter)
  then have ids: "distinct (map md_id ?routes)" by (metis distinct_map distinct_sort set_sort)
  have valid: "\<forall>m\<in>set ?routes. validateModel m = Inr ()" using ok by (auto simp: list_models_def)
  have sorted: "sorted (map (score rq) ?routes)" by simp
  show ?thesis
  proof (cases ?routes)
    case Nil
    then have "plan_route i rq ?r = Inl (not_retryable (if list_ex (price_unknown rq) (filter (compatible rq) (list_models ?r))
        then ''unknown_model_price'' else ''no_compatible_model''))" by (simp add: plan_route_def Let_def)
    moreover have "admissible rq ?r = {}" using set unfolding Nil by simp
    ultimately show ?thesis by (simp add: not_retryable_def)
  next
    case (Cons m fallbacks)
    then have "plan_route i rq ?r = Inr \<lparr>pl_id = i, pl_registryGeneration = mr_generation ?r,
        pl_selected = m, pl_fallbacks = fallbacks\<rparr>" by (simp add: plan_route_def Let_def)
    moreover have "\<forall>x\<in>set (m # fallbacks). score rq m \<le> score rq x" using sorted unfolding Cons by auto
    then have "\<forall>x\<in>admissible rq ?r. score rq m \<le> score rq x" using set unfolding Cons by (simp only:)
    ultimately show ?thesis using set ids valid sorted unfolding Cons by (simp add: Let_def)
  qed
qed

section \<open>The plan of an attempt is frozen\<close>

text \<open>Later calls for other attempts or the same, over registries that may have changed.\<close>

record plan_call =
  pc_id :: string
  pc_key :: "plan_key option"
  pc_capabilities :: "model_capability list"
  pc_registry :: model_registry

definition later_plans ::
  "(route_plan \<Rightarrow> 'e option) \<Rightarrow> plan_call list \<Rightarrow> (plan_key \<times> route_plan) list \<Rightarrow> (plan_key \<times> route_plan) list" where
  "later_plans persist calls plans = fold (\<lambda>c plans.
     snd (attempt_plan persist (pc_id c) (pc_key c) (pc_capabilities c) (pc_registry c) plans)) calls plans"

lemma update_new: "map_of plans k = None \<Longrightarrow> AList.update k p plans = plans @ [(k, p)]"
  by (induction plans) (auto split: if_splits)

text \<open>A call changes the memory only by adding a plan that was not there.\<close>

lemma attempt_plan_cases:
  obtains "snd (attempt_plan persist i key caps r plans) = plans"
  | k p where "key = Some k" "map_of plans k = None"
      "snd (attempt_plan persist i key caps r plans) = drop (length plans - 1023) (plans @ [(k, p)])"
proof (cases key)
  case None
  then show ?thesis by (intro that(1)) (simp add: attempt_plan_def split: sum.split)
next
  case (Some k)
  show ?thesis
  proof (cases "map_of plans k")
    case None
    let ?planned = "plan_route i \<lparr>rt_requiredCapabilities = caps, rt_allowedProviders = None, rt_allowedModels = None,
      rt_preferredModel = None, rt_maxInputUsdPerMillion = None\<rparr> r"
    show ?thesis
    proof (cases ?planned)
      case (Inl e)
      with Some None show ?thesis by (intro that(1)) (simp add: attempt_plan_def)
    next
      case (Inr p)
      show ?thesis
      proof (cases "persist p")
        case None
        with \<open>key = Some k\<close> \<open>map_of plans k = None\<close> Inr
        have "snd (attempt_plan persist i key caps r plans) = drop (length plans - 1023) (plans @ [(k, p)])"
          by (simp add: attempt_plan_def remember_def Let_def update_new)
        with \<open>key = Some k\<close> \<open>map_of plans k = None\<close> show ?thesis by (rule that(2))
      next
        case (Some e)
        with \<open>key = Some k\<close> \<open>map_of plans k = None\<close> Inr show ?thesis by (intro that(1)) (simp add: attempt_plan_def)
      qed
    qed
  next
    case (Some p)
    with \<open>key = Some k\<close> show ?thesis by (intro that(1)) (simp add: attempt_plan_def)
  qed
qed

text \<open>The plan of \<open>k\<close> with at most \<open>n\<close> plans that came after it, and none before.\<close>

definition planned :: "plan_key \<Rightarrow> route_plan \<Rightarrow> nat \<Rightarrow> (plan_key \<times> route_plan) list \<Rightarrow> bool" where
  "planned k p n plans \<longleftrightarrow> (\<exists>older newer. plans = older @ (k, p) # newer \<and> map_of older k = None \<and> length newer \<le> n)"

lemma plannedI: "map_of older k = None \<Longrightarrow> length newer \<le> n \<Longrightarrow> planned k p n (older @ (k, p) # newer)"
  unfolding planned_def by blast

lemma planned_lookup: "planned k p n plans \<Longrightarrow> map_of plans k = Some p"
  by (auto simp: planned_def map_add_def)

lemma map_of_drop_None: "map_of xs k = None \<Longrightarrow> map_of (drop n xs) k = None"
  by (auto simp: map_of_eq_None_iff dest: in_set_dropD)

lemma planned_mono: "planned k p n plans \<Longrightarrow> planned k p (n + 1) plans"
  by (auto simp: planned_def intro: le_SucI)

lemma planned_step:
  assumes "planned k p n plans" and "n < 1023"
  shows "planned k p (n + 1) (snd (attempt_plan persist i key caps r plans))"
proof (cases persist i key caps r plans rule: attempt_plan_cases)
  case 1
  with planned_mono [OF assms(1)] show ?thesis by (simp only:)
next
  case (2 k' p')
  from assms(1) obtain older newer where plans: "plans = older @ (k, p) # newer" "map_of older k = None" "length newer \<le> n"
    unfolding planned_def by blast
  have "snd (attempt_plan persist i key caps r plans) = drop (length plans - 1023) older @ (k, p) # newer @ [(k', p')]"
    using 2(3) plans(1,3) assms(2) by simp
  with plans(2,3) show ?thesis by (simp add: plannedI map_of_drop_None)
qed

lemma planned_later:
  "planned k p n plans \<Longrightarrow> n + length calls < 1024 \<Longrightarrow> planned k p (n + length calls) (later_plans persist calls plans)"
proof (induction calls arbitrary: n plans)
  case (Cons c calls)
  with planned_step [of k p n plans] have
    "planned k p (n + 1) (snd (attempt_plan persist (pc_id c) (pc_key c) (pc_capabilities c) (pc_registry c) plans))" by simp
  with Cons.IH [of "n + 1"] Cons.prems(2) show ?case by (simp add: later_plans_def)
qed (simp add: later_plans_def)

text \<open>The route plan of a run attempt is frozen. Once \<open>#plan\<close> has made the plan of an attempt, every
  later call for this attempt returns this very plan, as long as at most 1,023 calls came between,
  even when models were registered meanwhile or other capabilities are asked for.\<close>

theorem attempt_plan_frozen:
  assumes "attempt_plan persist i (Some k) caps r plans = (Inr p, plans')" and "map_of plans k = None"
    and "length calls \<le> 1023"
  shows "attempt_plan persist i' (Some k) caps' r' (later_plans persist calls plans') = (Inr p, later_plans persist calls plans')"
proof -
  have "plans' = drop (length plans - 1023) plans @ [(k, p)]"
    using assms(1,2) by (auto simp: attempt_plan_def remember_def Let_def update_new split: sum.splits option.splits)
  then have "planned k p 0 plans'" using assms(2) by (simp add: plannedI map_of_drop_None)
  from planned_lookup [OF planned_later [OF this, of calls persist]] assms(3)
  have "map_of (later_plans persist calls plans') k = Some p" by simp
  then show ?thesis by (simp add: attempt_plan_def)
qed

section \<open>Trying the routes\<close>

definition asks :: "route_action \<Rightarrow> bool" where
  "asks a \<longleftrightarrow> (case a of Asked n m \<Rightarrow> True | _ \<Rightarrow> False)"

definition visible_action :: "route_action \<Rightarrow> bool" where
  "visible_action a \<longleftrightarrow> (case a of Received e \<Rightarrow> providerRequestBecameVisible e | _ \<Rightarrow> False)"

lemma action_simps [simp]:
  "asks (Asked n m)" "\<not> asks (Received e)" "\<not> asks (Yielded v)" "\<not> visible_action (Asked n m)"
  "visible_action (Received e) = providerRequestBecameVisible e" "\<not> visible_action (Yielded v)"
  by (simp_all add: asks_def visible_action_def)

lemma became_visible_eq: "became_visible = list_ex visible_action"
  by (simp add: fun_eq_iff became_visible_def visible_action_def [abs_def])

lemma became_visible_simps [simp]:
  "\<not> became_visible []" "became_visible (xs @ ys) \<longleftrightarrow> became_visible xs \<or> became_visible ys"
  "became_visible (a # xs) \<longleftrightarrow> visible_action a \<or> became_visible xs"
  by (simp_all add: became_visible_eq)

text \<open>After a visible action nothing is asked.\<close>

fun one_visible_request :: "route_action list \<Rightarrow> bool" where
  "one_visible_request [] = True"
| "one_visible_request (a # tr) \<longleftrightarrow> (visible_action a \<longrightarrow> list_all (\<lambda>x. \<not> asks x) tr) \<and> one_visible_request tr"

lemma one_visible_append:
  "one_visible_request (xs @ ys) \<longleftrightarrow> one_visible_request xs \<and> one_visible_request ys
     \<and> (became_visible xs \<longrightarrow> list_all (\<lambda>x. \<not> asks x) ys)"
  by (induction xs) auto

lemma silent_visible: "list_all (\<lambda>x. \<not> asks x) tr \<Longrightarrow> one_visible_request tr"
  by (induction tr) auto

lemma stream_silent: "forward_stream env ctx plan m fin es = (tr, r) \<Longrightarrow> list_all (\<lambda>x. \<not> asks x) tr"
  by (induction env ctx plan m fin es arbitrary: tr r rule: forward_stream.induct)
     (auto split: prod.splits sum.splits option.splits)

lemma attempt_one_request: "attempt_route env ctx plan n m = (tr, r) \<Longrightarrow> one_visible_request tr"
  by (auto simp: attempt_route_def silent_visible split: option.splits prod.splits dest: stream_silent)

lemma routes_one_request:
  "try_routes env jl rq plan n visible le routes = (tr, r) \<Longrightarrow> one_visible_request tr"
proof (induction routes arbitrary: n visible le tr r)
  case (Cons m routes)
  note IH = Cons.IH
  from Cons.prems show ?case
    by (auto split: sum.splits if_splits prod.splits option.splits
        dest: IH attempt_one_request simp: one_visible_append)
qed simp

lemma one_visible_later: "one_visible_request (pre @ a # post) \<Longrightarrow> visible_action a \<Longrightarrow> x \<in> set post \<Longrightarrow> \<not> asks x"
  by (auto simp: one_visible_append list_all_iff)

text \<open>C27: No request is sent twice once a provider may have seen it. When the turn of the routed gateway
  has received anything from a route that shows that the request was accepted (an acceptance,
  text, a tool call or usage), no further route is asked, whatever error follows.\<close>

theorem no_route_after_visible:
  assumes "routed_turn env jl rq plan = (pre @ Received e # post, r)"
    and "e = RequestAccepted \<or> (\<exists>t. e = Event (TextDelta t)) \<or> (\<exists>c. e = Event (ModelToolCall c))
      \<or> (\<exists>u. e = Event (ModelUsage u))"
  shows "Asked n m \<notin> set post"
  using one_visible_later [OF routes_one_request [OF assms(1) [unfolded routed_turn_def]], of "Asked n m"] assms(2)
  by auto

lemma stream_usage:
  assumes "forward_stream env ctx plan m fin es = (tr, r)" and "Yielded (ModelUsage u) \<in> set tr"
  shows "\<exists>u0. Received (Event (ModelUsage u0)) \<in> set tr \<and> withAuthoritativeCost u0 m = Inr u"
  using assms
  by (induction env ctx plan m fin es arbitrary: tr r rule: forward_stream.induct)
     (auto split: prod.splits sum.splits option.splits, blast+)

lemma routes_usage:
  assumes "try_routes env jl rq plan n visible le routes = (tr, r)" and "Yielded (ModelUsage u) \<in> set tr"
    and "tn_maxCostUsd rq \<noteq> None"
  shows "\<exists>n m u0. Asked n m \<in> set tr \<and> m \<in> set routes \<and> hasKnownModelPricing m
    \<and> Received (Event (ModelUsage u0)) \<in> set tr \<and> withAuthoritativeCost u0 m = Inr u"
  using assms(1,2)
proof (induction routes arbitrary: n visible le tr r)
  case (Cons m routes)
  have here: ?case if "attempt_route env (tn_hasContext rq) plan n m = (tr1, r1)" "set tr1 \<subseteq> set tr"
    "Yielded (ModelUsage u) \<in> set tr1" "hasKnownModelPricing m" for tr1 r1
  proof -
    from that(1,3) obtain es fin tr2 where tr1: "tr1 = Asked n m # tr2"
      and stream: "forward_stream env (tn_hasContext rq) plan m fin es = (tr2, r1)" "Yielded (ModelUsage u) \<in> set tr2"
      by (auto simp: attempt_route_def split: option.splits prod.splits)
    from stream_usage [OF stream] that(2,4) tr1 show ?thesis by fastforce
  qed
  have later: ?case if "try_routes env jl rq plan n' visible' le' routes = (tr2, r2)" "set tr2 \<subseteq> set tr"
    "Yielded (ModelUsage u) \<in> set tr2" for n' visible' le' tr2 r2
    using Cons.IH [OF that(1,3)] that(2) by fastforce
  obtain tr1 r1 where attempt: "attempt_route env (tn_hasContext rq) plan n m = (tr1, r1)" by fastforce
  show ?case
  proof (cases "hasKnownModelPricing m \<and> re_adapter env (md_providerId m)")
    case False
    with Cons.prems assms(3) have "\<exists>le'. try_routes env jl rq plan (n + 1) visible le' routes = (tr, r)"
      by (auto split: sum.splits if_splits)
    with later [OF _ subset_refl Cons.prems(2)] show ?thesis by blast
  next
    case True
    with Cons.prems attempt consider "tr = tr1"
      | e tr2 r2 where "try_routes env jl rq plan (n + 1) False (Some e) routes = (tr2, r2)" "tr = tr1 @ tr2"
      by (auto split: sum.splits if_splits option.splits prod.splits)
    then show ?thesis
    proof cases
      case 1
      with here [OF attempt] Cons.prems(2) True show ?thesis by simp
    next
      case (2 e tr2 r2)
      with here [OF attempt] later [OF 2(1)] Cons.prems(2) True show ?thesis by auto
    qed
  qed
qed simp

text \<open>Usage under a cost ceiling always has a price. When the run has a cost ceiling, every usage
  event that the routed gateway hands out comes from a route with known prices that was asked,
  keeps the token counts the provider reported, and carries a cost that is not negative and not
  below what the provider reported.\<close>

theorem routed_usage_priced:
  assumes "routed_turn env jl rq plan = (tr, r)" and "tn_maxCostUsd rq \<noteq> None"
    and "Yielded (ModelUsage u) \<in> set tr"
  shows "\<exists>n m u0 c. Asked n m \<in> set tr \<and> m \<in> set (pl_selected plan # pl_fallbacks plan) \<and> hasKnownModelPricing m
    \<and> Received (Event (ModelUsage u0)) \<in> set tr
    \<and> mu_inputTokens u = mu_inputTokens u0 \<and> mu_outputTokens u = mu_outputTokens u0
    \<and> mu_costUsd u = Some c \<and> 0 \<le> c \<and> nullish (mu_costUsd u0) 0 \<le> c"
proof -
  from routes_usage [OF assms(1) [unfolded routed_turn_def] assms(3,2)] obtain n m u0 where
    m: "Asked n m \<in> set tr" "m \<in> set (pl_selected plan # pl_fallbacks plan)" "hasKnownModelPricing m"
      "Received (Event (ModelUsage u0)) \<in> set tr" and cost: "withAuthoritativeCost u0 m = Inr u" by blast
  from m(3) obtain inp outp where "md_inputUsdPerMillion m = Some inp" "md_outputUsdPerMillion m = Some outp"
    by (auto simp: hasKnownModelPricing_def)
  with cost obtain calculated where u: "u = u0\<lparr>mu_costUsd := Some (js_max (nullish (mu_costUsd u0) 0) calculated)\<rparr>"
    and "\<not> (case mu_costUsd u0 of None \<Rightarrow> False | Some c \<Rightarrow> c < 0)"
    by (auto simp: withAuthoritativeCost_def Let_def split: if_splits)
  then have "0 \<le> nullish (mu_costUsd u0) 0" by (auto split: option.splits)
  moreover have "nullish (mu_costUsd u0) 0 \<le> js_max (nullish (mu_costUsd u0) 0) calculated" by simp
  ultimately have "0 \<le> js_max (nullish (mu_costUsd u0) 0) calculated" by (rule order_trans)
  moreover have "mu_inputTokens u = mu_inputTokens u0" "mu_outputTokens u = mu_outputTokens u0"
    "mu_costUsd u = Some (js_max (nullish (mu_costUsd u0) 0) calculated)" by (simp_all add: u)
  ultimately show ?thesis using m js_max_ge(1) by blast
qed

section \<open>Examples\<close>

definition cheap_model :: model_descriptor where
  "cheap_model = \<lparr>md_id = ''cheap'', md_providerId = ''p'', md_transport = Direct, md_credentialProfileId = ''c'',
     md_capabilities = [Text], md_contextWindow = 1000, md_inputUsdPerMillion = Some 1,
     md_outputUsdPerMillion = Some 2, md_cachedInputUsdPerMillion = None, md_cacheWriteInputUsdPerMillion = None,
     md_imageInputUsdPerMillion = None, md_longContextThresholdTokens = None,
     md_longContextInputMultiplier = None, md_longContextOutputMultiplier = None, md_enabled = True\<rparr>"

definition dear_model :: model_descriptor where
  "dear_model = cheap_model\<lparr>md_id := ''dear'', md_inputUsdPerMillion := Some 5, md_outputUsdPerMillion := Some 30\<rparr>"

definition text_request :: route_request where
  "text_request = \<lparr>rt_requiredCapabilities = [Text], rt_allowedProviders = None, rt_allowedModels = None,
     rt_preferredModel = None, rt_maxInputUsdPerMillion = None\<rparr>"

definition cheap_plan :: route_plan where
  "cheap_plan = \<lparr>pl_id = ''r'', pl_registryGeneration = 3, pl_selected = cheap_model, pl_fallbacks = [dear_model]\<rparr>"

lemma example_plan_eq: "plan_route ''r'' text_request (build_registry [dear_model, cheap_model]) = Inr cheap_plan"
  by code_simp

theorem plan_takes_admissible_witness:
  "admissible text_request (build_registry [dear_model, cheap_model]) = {cheap_model, dear_model}
     \<and> score text_request cheap_model \<le> score text_request dear_model"
  using plan_takes_admissible [where i = "''r''" and rq = text_request and ms = "[dear_model, cheap_model]"]
  unfolding example_plan_eq by (simp add: cheap_plan_def Let_def)

theorem attempt_plan_frozen_witness:
  "\<exists>plans. fst (attempt_plan (\<lambda>p. None :: string option) ''r2'' (Some (''run'', ''at'')) [Text] empty_registry plans)
     = Inr cheap_plan"
proof -
  have "attempt_plan (\<lambda>p. None :: string option) ''r'' (Some (''run'', ''at'')) [Text]
      (build_registry [dear_model, cheap_model]) [] = (Inr cheap_plan, [((''run'', ''at''), cheap_plan)])" by code_simp
  note frozen = attempt_plan_frozen [OF this, of "[\<lparr>pc_id = ''r1'', pc_key = Some (''run2'', ''at2''),
      pc_capabilities = [Text], pc_registry = empty_registry\<rparr>]" "''r2''" "[Text]" empty_registry]
  have "map_of [] (''run'', ''at'') = (None :: route_plan option)" "length [c :: plan_call] \<le> 1023" for c by simp_all
  from frozen [OF this] show ?thesis by (metis fst_conv)
qed

definition usage_of :: "num \<Rightarrow> model_usage" where
  "usage_of n = \<lparr>mu_inputTokens = n, mu_outputTokens = n, mu_cachedInputTokens = None,
     mu_cacheWriteInputTokens = None, mu_imageInputTokens = None, mu_costUsd = None\<rparr>"

text \<open>The first route accepts the request, reports usage and breaks off with an error that may be
  retried; the second would work.\<close>

definition broken_env :: "string route_env" where
  "broken_env = \<lparr>re_adapter = (\<lambda>p. True), re_resolve = (\<lambda>n m. None),
     re_stream = (\<lambda>n m. if n = 0 then ([RequestAccepted, Event (ModelUsage (usage_of 10))],
         Some (RouteFailure \<lparr>pe_code = ''overloaded'', pe_retryable = True\<rparr>))
       else ([Event (ModelCompleted FinishStop)], None)),
     re_onUsage = (\<lambda>p m u. None)\<rparr>"

definition plain_turn :: turn_request where
  "plain_turn = \<lparr>tn_messages = [], tn_tools = [], tn_maxCostUsd = Some 1, tn_hasContext = True, tn_hasImages = False\<rparr>"

lemma broken_turn: "routed_turn broken_env (\<lambda>ms ts. 0) plain_turn cheap_plan =
    ([Asked 0 cheap_model, Received RequestAccepted, Received (Event (ModelUsage (usage_of 10))),
      Yielded (ModelUsage ((usage_of 10)\<lparr>mu_costUsd := Some (30 / 1000000)\<rparr>))],
     Some (RouteFailure \<lparr>pe_code = ''overloaded'', pe_retryable = True\<rparr>))"
  by code_simp

text \<open>The usage alone stops the fallback, also when the adapter never says that the request was accepted.\<close>

definition silent_env :: "string route_env" where
  "silent_env = broken_env\<lparr>re_stream := (\<lambda>n m. if n = 0 then ([Event (ModelUsage (usage_of 10))],
         Some (RouteFailure \<lparr>pe_code = ''overloaded'', pe_retryable = True\<rparr>))
       else ([Event (ModelCompleted FinishStop)], None))\<rparr>"

theorem no_route_after_visible_witness:
  "\<exists>pre post r. routed_turn silent_env (\<lambda>ms ts. 0) plain_turn cheap_plan
       = (pre @ Received (Event (ModelUsage (usage_of 10))) # post, r)
     \<and> Asked 1 dear_model \<notin> set post"
proof -
  have "routed_turn silent_env (\<lambda>ms ts. 0) plain_turn cheap_plan = ([Asked 0 cheap_model] @ Received (Event (ModelUsage (usage_of 10))) #
      [Yielded (ModelUsage ((usage_of 10)\<lparr>mu_costUsd := Some (30 / 1000000)\<rparr>))],
     Some (RouteFailure \<lparr>pe_code = ''overloaded'', pe_retryable = True\<rparr>))" by code_simp
  from this no_route_after_visible [OF this, of 1 dear_model] show ?thesis by blast
qed

theorem routed_usage_priced_witness:
  "\<exists>m (u0 :: model_usage) c. m \<in> {cheap_model, dear_model} \<and> hasKnownModelPricing m \<and> mu_inputTokens u0 = 10 \<and> c = 30 / 1000000
     \<and> nullish (mu_costUsd u0) 0 \<le> c"
proof -
  obtain tr r where turn: "routed_turn broken_env (\<lambda>ms ts. 0) plain_turn cheap_plan = (tr, r)"
    and yielded: "Yielded (ModelUsage ((usage_of 10)\<lparr>mu_costUsd := Some (30 / 1000000)\<rparr>)) \<in> set tr"
    by (simp add: broken_turn)
  have "tn_maxCostUsd plain_turn \<noteq> None" by (simp add: plain_turn_def)
  from routed_usage_priced [OF turn this yielded] obtain m c and u0 :: model_usage where
    "m \<in> set (pl_selected cheap_plan # pl_fallbacks cheap_plan)" "hasKnownModelPricing m"
    "mu_inputTokens ((usage_of 10)\<lparr>mu_costUsd := Some (30 / 1000000)\<rparr>) = mu_inputTokens u0"
    "mu_costUsd ((usage_of 10)\<lparr>mu_costUsd := Some (30 / 1000000)\<rparr>) = Some c" "nullish (mu_costUsd u0) 0 \<le> c"
    by blast
  then have "m \<in> {cheap_model, dear_model} \<and> hasKnownModelPricing m \<and> mu_inputTokens u0 = 10 \<and> c = 30 / 1000000
     \<and> nullish (mu_costUsd u0) 0 \<le> c" by (auto simp: cheap_plan_def usage_of_def)
  then show ?thesis by blast
qed

end
