(* ===== verification/ProviderStream.thy ===== *)
theory ProviderStream
  imports ProviderRoutes "HOL-Library.Sublist"
begin

text \<open>
  Reading the events of a provider, \<open>readSseData\<close> of \<open>packages/provider-core/src/index.ts\<close>. The
  body arrives in chunks that a streaming text decoder has turned into texts; the last text is what
  the decoder flushes at the end of the body. The abort signal is left out.
\<close>

abbreviation NL :: char where "NL \<equiv> CHR 0x0A"
abbreviation CR :: char where "CR \<equiv> CHR 0x0D"

text \<open>\<open>replaceAll("\r\n", "\n")\<close>\<close>

fun crlf :: "string \<Rightarrow> string" where
  "crlf (c # d # s) = (if c = CR \<and> d = NL then NL # crlf s else c # crlf (d # s))"
| "crlf s = s"

text \<open>The text before the first empty line, and the text after it.\<close>

fun cut_frame :: "string \<Rightarrow> (string \<times> string) option" where
  "cut_frame (c # d # s) =
     (if c = NL \<and> d = NL then Some ([], s)
      else map_option (\<lambda>(frame, rest). (c # frame, rest)) (cut_frame (d # s)))"
| "cut_frame s = None"

fun join_lines :: "string list \<Rightarrow> string" where
  "join_lines [] = []"
| "join_lines [l] = l"
| "join_lines (l # ls) = l @ NL # join_lines ls"

definition frame_data :: "string \<Rightarrow> string list" where
  "frame_data frame =
     (let text = join_lines (map (\<lambda>l. dropWhile is_blank (drop 5 l))
        (filter (\<lambda>l. take 5 l = ''data:'') (split_at (\<lambda>c. c = NL) frame))) in
      if text = [] then [] else [text])"

lemma cut_frame_shorter: "cut_frame s = Some (frame, rest) \<Longrightarrow> length rest < length s"
  by (induction s arbitrary: frame rule: cut_frame.induct) (auto split: if_splits)

text \<open>The loop over the complete frames of the buffer: what is yielded, and the buffer it leaves.\<close>

function drain :: "string \<Rightarrow> string list \<times> string" where
  "drain buffer = (case cut_frame buffer of
     None \<Rightarrow> ([], buffer)
   | Some (frame, rest) \<Rightarrow> (case drain rest of (ds, left) \<Rightarrow> (frame_data frame @ ds, left)))"
  by pat_completeness auto
termination by (relation "measure length") (auto dest: cut_frame_shorter)

declare drain.simps [simp del]

definition rest_data :: "string \<Rightarrow> string list" where
  "rest_data buffer = (if trim buffer = [] then [] else frame_data buffer)"

fun sse_loop :: "nat \<Rightarrow> (string \<Rightarrow> nat) \<Rightarrow> string \<Rightarrow> string list \<Rightarrow> string list \<times> provider_error option" where
  "sse_loop maxBufferBytes byteLength buffer [] = (rest_data buffer, None)"
| "sse_loop maxBufferBytes byteLength buffer (chunk # chunks) =
     (let b = buffer @ crlf chunk in
      if maxBufferBytes < byteLength b then ([], Some (not_retryable ''response_too_large''))
      else (case drain b of (ds, left) \<Rightarrow>
        (case sse_loop maxBufferBytes byteLength left chunks of (ds', r) \<Rightarrow> (ds @ ds', r))))"

text \<open>\<open>None\<close> is a response without a body.\<close>

definition readSseData :: "nat \<Rightarrow> (string \<Rightarrow> nat) \<Rightarrow> string list option \<Rightarrow> string list \<times> provider_error option" where
  "readSseData maxBufferBytes byteLength body = (case body of
     None \<Rightarrow> ([], Some (not_retryable ''invalid_response''))
   | Some chunks \<Rightarrow> sse_loop maxBufferBytes byteLength [] chunks)"

section \<open>Chunks do not matter\<close>

text \<open>The reference: the events of a whole text.\<close>

definition sse_events :: "string \<Rightarrow> string list" where
  "sse_events text = (case drain text of (ds, left) \<Rightarrow> ds @ rest_data left)"

lemma cut_frame_append: "cut_frame s = Some (frame, rest) \<Longrightarrow> cut_frame (s @ t) = Some (frame, rest @ t)"
  by (induction s arbitrary: frame rule: cut_frame.induct) (auto split: if_splits)

lemma drain_append:
  "drain s = (ds, left) \<Longrightarrow> drain (s @ t) = (case drain (left @ t) of (ds', left') \<Rightarrow> (ds @ ds', left'))"
proof (induction s arbitrary: ds left rule: drain.induct)
  case (1 s)
  show ?case
  proof (cases "cut_frame s")
    case None
    with 1(2) show ?thesis by (simp add: drain.simps [of s])
  next
    case (Some fr)
    obtain frame rest where fr: "fr = (frame, rest)" by (cases fr)
    obtain ds1 left1 where rest: "drain rest = (ds1, left1)" by fastforce
    from 1(2) Some fr rest have ds: "ds = frame_data frame @ ds1" "left = left1" by (simp_all add: drain.simps [of s])
    from 1(1) [OF Some fr [symmetric] rest] have "drain (rest @ t) = (case drain (left1 @ t) of (ds', left') \<Rightarrow> (ds1 @ ds', left'))" by simp
    with cut_frame_append [of s frame rest t] Some fr ds show ?thesis
      by (simp add: drain.simps [of "s @ t"] split: prod.splits)
  qed
qed

lemma sse_events_append: "drain s = (ds, left) \<Longrightarrow> sse_events (s @ t) = ds @ sse_events (left @ t)"
  by (simp add: sse_events_def drain_append split: prod.splits)

lemma drained: "drain s = (ds, left) \<Longrightarrow> drain left = ([], left)"
proof (induction s arbitrary: ds left rule: drain.induct)
  case (1 s)
  show ?case
  proof (cases "cut_frame s")
    case None
    with 1(2) show ?thesis by (auto simp: drain.simps [of s] drain.simps [of left])
  next
    case (Some fr)
    obtain frame rest where fr: "fr = (frame, rest)" by (cases fr)
    with 1(2) Some 1(1) [OF Some fr [symmetric]] show ?thesis by (auto simp: drain.simps [of s] split: prod.splits)
  qed
qed

lemma sse_loop_events:
  assumes "drain buffer = ([], buffer)"
  shows "case sse_loop limit byteLength buffer chunks of
      (ds, None) \<Rightarrow> ds = sse_events (buffer @ concat (map crlf chunks))
    | (ds, Some e) \<Rightarrow> prefix ds (sse_events (buffer @ concat (map crlf chunks)))"
  using assms
proof (induction chunks arbitrary: buffer)
  case Nil
  then show ?case by (simp add: sse_events_def)
next
  case (Cons chunk chunks)
  obtain ds left where drain: "drain (buffer @ crlf chunk) = (ds, left)" by fastforce
  from Cons.IH [OF drained [OF drain]] sse_events_append [OF drain, of "concat (map crlf chunks)"] drain
  show ?case by (auto simp: Let_def split: prod.splits option.splits)
qed

text \<open>C28: The events of a provider do not depend on how its answer is cut into chunks. When no chunk
  boundary separates the two characters of a line end CR LF (none does when the provider ends its
  lines with LF), the events that \<open>readSseData\<close> yields are those of the whole text, and when the
  buffer outgrows its limit the events yielded before the error are a prefix of them.\<close>

theorem sse_independent_of_chunks:
  assumes "concat (map crlf chunks) = crlf (concat chunks)"
  shows "case readSseData limit byteLength (Some chunks) of
      (ds, None) \<Rightarrow> ds = sse_events (crlf (concat chunks))
    | (ds, Some e) \<Rightarrow> prefix ds (sse_events (crlf (concat chunks)))"
  using sse_loop_events [where buffer = "[]" and limit = limit and byteLength = byteLength and chunks = chunks] assms
  by (simp add: readSseData_def drain.simps [of "[]"])

theorem sse_independent_of_chunks_witness:
  "fst (readSseData 100 length (Some [''data: a'' @ [NL], [NL] @ ''data: b'', [NL, NL]]))
     = sse_events (''data: a'' @ [NL, NL] @ ''data: b'' @ [NL, NL])"
proof -
  let ?chunks = "[''data: a'' @ [NL], [NL] @ ''data: b'', [NL, NL]]"
  have "concat (map crlf ?chunks) = crlf (concat ?chunks)" by code_simp
  note sse = sse_independent_of_chunks [OF this, where limit = 100 and byteLength = length]
  have "snd (readSseData 100 length (Some ?chunks)) = None" by code_simp
  moreover have "crlf (concat ?chunks) = ''data: a'' @ [NL, NL] @ ''data: b'' @ [NL, NL]" by code_simp
  ultimately show ?thesis using sse by (simp split: prod.splits option.splits)
qed

text \<open>A boundary between CR and LF loses the end of a frame: the two events become one.\<close>

lemma crlf_cut_merges_events:
  "sse_events (crlf (''data: a'' @ [CR, NL, CR, NL] @ ''data: b'' @ [CR, NL, CR, NL])) = [''a'', ''b'']
   \<and> readSseData 100 length (Some [''data: a'' @ [CR, NL, CR], [NL] @ ''data: b'' @ [CR, NL, CR, NL]])
       = ([''a'' @ [NL] @ ''b''], None)"
  by code_simp

end
