(* ===== verification/Automation.thy ===== *)
theory Automation
  imports StoreTables
begin

text \<open>
  Timed triggers, \<open>packages/automation/src/index.ts\<close>: when a trigger fires next, the two stores
  (in memory and in SQLite) behind the interface \<open>TriggerStore\<close>, and the scheduler that claims the
  due triggers and starts their runs. Times are numbers of milliseconds.
\<close>

section \<open>Triggers\<close>

datatype missed_run_policy = Skip | CatchUp

record interval_trigger =
  tg_id :: string
  tg_intervalMs :: num
  tg_nextFireAt :: num
  tg_payload :: jsobject
  tg_leaseOwner :: "string option"
  tg_leaseExpiresAt :: "num option"
  tg_oneShot :: bool
  tg_jitterMs :: "num option"
  tg_missedRunPolicy :: "missed_run_policy option"
  tg_timeZone :: "string option"
  tg_localTime :: "string option"

datatype trigger_error =
    IntervalTooShort
  | IntervalNegative
  | NextFireAtInvalid
  | JitterInvalid
  | ZoneAndTimeTogether
  | LocalTimeInvalid
  | TimeZoneInvalid
  | NoNextOccurrence

text \<open>\<open>/^([01]\d|2[0-3]):[0-5]\d$/\<close>\<close>

definition local_time_ok :: "string \<Rightarrow> bool" where
  "local_time_ok s = (case s of [a, b, c, d, e] \<Rightarrow>
       (a \<in> set ''01'' \<and> is_digit b \<or> a = CHR ''2'' \<and> b \<in> set ''0123'')
       \<and> c = CHR '':'' \<and> d \<in> set ''012345'' \<and> is_digit e
     | _ \<Rightarrow> False)"

definition safe_integer :: "num \<Rightarrow> bool" where
  "safe_integer n \<longleftrightarrow> of_int \<lfloor>n\<rfloor> = n \<and> \<bar>n\<bar> \<le> of_int MAX_SAFE_INTEGER"

text \<open>\<open>zone_ok\<close>: the platform knows the time zone. The type of the policy excludes other policies.\<close>

definition validateTrigger :: "(string \<Rightarrow> bool) \<Rightarrow> interval_trigger \<Rightarrow> trigger_error + unit" where
  "validateTrigger zone_ok t =
     bind_result (throw_if (\<not> tg_oneShot t \<and> tg_intervalMs t < 1000) IntervalTooShort) (\<lambda>_.
     bind_result (throw_if (tg_oneShot t \<and> tg_intervalMs t < 0) IntervalNegative) (\<lambda>_.
     bind_result (throw_if (\<not> safe_integer (tg_nextFireAt t) \<or> tg_nextFireAt t < 0) NextFireAtInvalid) (\<lambda>_.
     bind_result (throw_if (nullish (tg_jitterMs t) 0 < 0
       \<or> max (tg_intervalMs t) 86400000 < nullish (tg_jitterMs t) 0) JitterInvalid) (\<lambda>_.
     bind_result (throw_if ((tg_timeZone t = None) \<noteq> (tg_localTime t = None)) ZoneAndTimeTogether) (\<lambda>_.
     case (truthy (tg_timeZone t), truthy (tg_localTime t)) of
       (Some zone, Some time) \<Rightarrow>
         if \<not> local_time_ok time then Inl LocalTimeInvalid else throw_if (\<not> zone_ok zone) TimeZoneInvalid
     | _ \<Rightarrow> Inr ())))))"

section \<open>The next occurrence\<close>

text \<open>
  Civil times are represented by \<open>Date.UTC\<close> of their fields, which determines them: \<open>wall t\<close> is what the
  clock on the wall shows in the zone at the moment \<open>t\<close>, to the minute (\<open>zonedParts\<close>).
\<close>

definition DAY :: num where "DAY = 86400000"

text \<open>The iteration of \<open>zonedLocalToUtc\<close>; \<open>Inl\<close> is the candidate when the rounds are used up.\<close>

primrec approach :: "nat \<Rightarrow> (num \<Rightarrow> num) \<Rightarrow> num \<Rightarrow> num \<Rightarrow> num + num" where
  "approach 0 wall target candidate = Inl candidate"
| "approach (Suc n) wall target candidate =
     (let correction = target - wall candidate in
      if correction = 0 then Inr candidate else approach n wall target (candidate + correction))"

text \<open>\<open>None\<close> is \<open>NonexistentLocalTimeError\<close>.\<close>

definition zonedLocalToUtc :: "(num \<Rightarrow> num) \<Rightarrow> num \<Rightarrow> num option" where
  "zonedLocalToUtc wall target = (case approach 6 wall target target of
     Inr candidate \<Rightarrow> Some candidate
   | Inl candidate \<Rightarrow> if wall candidate = target then Some candidate else None)"

definition time_of_day :: "string \<Rightarrow> num" where
  "time_of_day s = of_nat (60 * digits_value (take 2 s) + digits_value (drop 3 s)) * 60000"

text \<open>Midnight of the civil day of a wall clock time.\<close>

definition midnight :: "num \<Rightarrow> num" where
  "midnight t = of_int \<lfloor>t / DAY\<rfloor> * DAY"

fun first_after :: "(num \<Rightarrow> num) \<Rightarrow> num \<Rightarrow> num list \<Rightarrow> num option" where
  "first_after wall after [] = None"
| "first_after wall after (target # targets) = (case zonedLocalToUtc wall target of
     None \<Rightarrow> first_after wall after targets
   | Some candidate \<Rightarrow> if after < candidate then Some candidate else first_after wall after targets)"

definition nextDailyOccurrence :: "(num \<Rightarrow> num) \<Rightarrow> string \<Rightarrow> num \<Rightarrow> trigger_error + num" where
  "nextDailyOccurrence wall time after =
     (if \<not> local_time_ok time then Inl LocalTimeInvalid
      else from_option NoNextOccurrence (first_after wall after
        (map (\<lambda>d. midnight (wall after) + of_nat d * DAY + time_of_day time) [0..<4])))"

text \<open>\<open>x % y\<close> of JavaScript for positive operands\<close>

definition js_mod :: "num \<Rightarrow> num \<Rightarrow> num" where
  "js_mod x y = x - of_int \<lfloor>x / y\<rfloor> * y"

text \<open>
  The outside of the stores: the wall clocks of the zones, which zones there are, and the first four
  bytes of the digest of a trigger's identifier and time as a number.
\<close>

record trigger_env =
  tv_wall :: "string \<Rightarrow> num \<Rightarrow> num"
  tv_zone_ok :: "string \<Rightarrow> bool"
  tv_digest :: "string \<Rightarrow> num \<Rightarrow> nat"

definition nextOccurrence :: "trigger_env \<Rightarrow> interval_trigger \<Rightarrow> num \<Rightarrow> trigger_error + num" where
  "nextOccurrence env t firedAt =
     (case (truthy (tg_timeZone t), truthy (tg_localTime t)) of
        (Some zone, Some time) \<Rightarrow>
          nextDailyOccurrence (tv_wall env zone) time
            (if tg_missedRunPolicy t = Some CatchUp then tg_nextFireAt t else firedAt)
      | _ \<Rightarrow>
          if tg_missedRunPolicy t = Some CatchUp then Inr (tg_nextFireAt t + tg_intervalMs t)
          else
            let missed = max 1 (of_int (\<lfloor>(firedAt - tg_nextFireAt t) / tg_intervalMs t\<rfloor> + 1));
                base = tg_nextFireAt t + missed * tg_intervalMs t;
                jitter = nullish (tg_jitterMs t) 0 in
            if jitter = 0 then Inr base
            else Inr (base + js_mod (of_nat (tv_digest env (tg_id t) base)) (jitter + 1)))"

section \<open>The interface\<close>

text \<open>
  A store over a state \<open>'s\<close>. \<open>ts_claimDue now owner leaseMs\<close> hands the due triggers to an owner,
  \<open>ts_complete id owner firedAt\<close> and \<open>ts_fail id owner retryAt errorCode clock\<close> report the firing and
  answer whether the owner still held the trigger.
\<close>

record 's trigger_store =
  ts_put :: "interval_trigger \<Rightarrow> 's \<Rightarrow> (trigger_error + unit) \<times> 's"
  ts_claimDue :: "num \<Rightarrow> string \<Rightarrow> num \<Rightarrow> 's \<Rightarrow> interval_trigger list \<times> 's"
  ts_complete :: "string \<Rightarrow> string \<Rightarrow> num \<Rightarrow> 's \<Rightarrow> (trigger_error + bool) \<times> 's"
  ts_fail :: "string \<Rightarrow> string \<Rightarrow> num \<Rightarrow> string \<Rightarrow> num \<Rightarrow> 's \<Rightarrow> bool \<times> 's"

section \<open>The store in memory\<close>

type_synonym memory_triggers = "(string \<times> interval_trigger) list"

definition memory_put :: "trigger_env \<Rightarrow> interval_trigger \<Rightarrow> memory_triggers \<Rightarrow> (trigger_error + unit) \<times> memory_triggers" where
  "memory_put env t s = (case validateTrigger (tv_zone_ok env) t of
     Inl e \<Rightarrow> (Inl e, s) | Inr u \<Rightarrow> (Inr (), AList.update (tg_id t) t s))"

definition memory_claimable :: "num \<Rightarrow> string \<Rightarrow> interval_trigger \<Rightarrow> bool" where
  "memory_claimable now own t \<longleftrightarrow> tg_nextFireAt t \<le> now
     \<and> \<not> (truthy (tg_leaseOwner t) \<noteq> None \<and> now < nullish (tg_leaseExpiresAt t) 0 \<and> tg_leaseOwner t \<noteq> Some own)"

definition leased :: "string \<Rightarrow> num \<Rightarrow> interval_trigger \<Rightarrow> interval_trigger" where
  "leased own until t = t\<lparr>tg_leaseOwner := Some own, tg_leaseExpiresAt := Some until\<rparr>"

definition memory_claimDue :: "num \<Rightarrow> string \<Rightarrow> num \<Rightarrow> memory_triggers \<Rightarrow> interval_trigger list \<times> memory_triggers" where
  "memory_claimDue now own leaseMs s =
     (map (\<lambda>(k, t). leased own (now + leaseMs) t) (filter (\<lambda>(k, t). memory_claimable now own t) s),
      map (\<lambda>(k, t). (k, if memory_claimable now own t then leased own (now + leaseMs) t else t)) s)"

definition memory_complete ::
  "trigger_env \<Rightarrow> string \<Rightarrow> string \<Rightarrow> num \<Rightarrow> memory_triggers \<Rightarrow> (trigger_error + bool) \<times> memory_triggers" where
  "memory_complete env i own firedAt s = (case map_of s i of
     None \<Rightarrow> (Inr False, s)
   | Some t \<Rightarrow>
       if tg_leaseOwner t \<noteq> Some own then (Inr False, s)
       else (case (if tg_oneShot t then Inr (of_int MAX_SAFE_INTEGER) else nextOccurrence env t firedAt) of
         Inl e \<Rightarrow> (Inl e, s)
       | Inr n \<Rightarrow> (Inr True, AList.update i
           (t\<lparr>tg_nextFireAt := n, tg_leaseOwner := None, tg_leaseExpiresAt := None\<rparr>) s)))"

definition memory_fail :: "string \<Rightarrow> string \<Rightarrow> num \<Rightarrow> memory_triggers \<Rightarrow> bool \<times> memory_triggers" where
  "memory_fail i own retryAt s = (case map_of s i of
     None \<Rightarrow> (False, s)
   | Some t \<Rightarrow>
       if tg_leaseOwner t \<noteq> Some own then (False, s)
       else (True, AList.update i
         (t\<lparr>tg_nextFireAt := retryAt, tg_leaseOwner := None, tg_leaseExpiresAt := None\<rparr>) s))"

definition InMemoryTriggerStore :: "trigger_env \<Rightarrow> memory_triggers trigger_store" where
  "InMemoryTriggerStore env = \<lparr>ts_put = memory_put env, ts_claimDue = memory_claimDue,
     ts_complete = memory_complete env, ts_fail = (\<lambda>i own retryAt errorCode clock. memory_fail i own retryAt)\<rparr>"

section \<open>The store in SQLite\<close>

record trigger_row =
  tr_id :: string
  tr_interval_ms :: num
  tr_next_fire_at :: num
  tr_payload :: jsobject
  tr_one_shot :: bool
  tr_jitter_ms :: num
  tr_missed_run_policy :: missed_run_policy
  tr_time_zone :: "string option"
  tr_local_time :: "string option"
  tr_enabled :: bool
  tr_lease_owner :: "string option"
  tr_lease_expires_at :: "num option"
  tr_last_fired_at :: "num option"
  tr_last_error_code :: "string option"

datatype firing_status = CLAIMED | COMPLETED | FIRING_FAILED

record firing_row =
  fr_trigger_id :: string
  fr_scheduled_at :: num
  fr_owner :: string
  fr_status :: firing_status
  fr_completed_at :: "num option"
  fr_error_code :: "string option"

record trigger_db =
  triggers :: "trigger_row list"
  trigger_firings :: "firing_row list"

definition new_trigger_row :: "interval_trigger \<Rightarrow> trigger_row" where
  "new_trigger_row t = \<lparr>tr_id = tg_id t, tr_interval_ms = tg_intervalMs t, tr_next_fire_at = tg_nextFireAt t,
     tr_payload = tg_payload t, tr_one_shot = tg_oneShot t, tr_jitter_ms = nullish (tg_jitterMs t) 0,
     tr_missed_run_policy = nullish (tg_missedRunPolicy t) Skip, tr_time_zone = tg_timeZone t,
     tr_local_time = tg_localTime t, tr_enabled = True, tr_lease_owner = None, tr_lease_expires_at = None,
     tr_last_fired_at = None, tr_last_error_code = None\<rparr>"

definition toTrigger :: "trigger_row \<Rightarrow> interval_trigger" where
  "toTrigger r = \<lparr>tg_id = tr_id r, tg_intervalMs = tr_interval_ms r, tg_nextFireAt = tr_next_fire_at r,
     tg_payload = tr_payload r, tg_leaseOwner = truthy (tr_lease_owner r),
     tg_leaseExpiresAt = (if tr_lease_expires_at r = Some 0 then None else tr_lease_expires_at r),
     tg_oneShot = tr_one_shot r, tg_jitterMs = (if tr_jitter_ms r = 0 then None else Some (tr_jitter_ms r)),
     tg_missedRunPolicy = (if tr_missed_run_policy r = CatchUp then Some CatchUp else None),
     tg_timeZone = truthy (tr_time_zone r), tg_localTime = truthy (tr_local_time r)\<rparr>"

definition sqlite_put :: "trigger_env \<Rightarrow> interval_trigger \<Rightarrow> trigger_db \<Rightarrow> (trigger_error + unit) \<times> trigger_db" where
  "sqlite_put env t d = (case validateTrigger (tv_zone_ok env) t of
     Inl e \<Rightarrow> (Inl e, d)
   | Inr u \<Rightarrow>
       (Inr (), d\<lparr>triggers :=
         (if list_ex (\<lambda>r. tr_id r = tg_id t) (triggers d)
          then update_rows (\<lambda>r. tr_id r = tg_id t) (\<lambda>r. (new_trigger_row t)\<lparr>tr_lease_owner := tr_lease_owner r,
             tr_lease_expires_at := tr_lease_expires_at r, tr_last_fired_at := tr_last_fired_at r,
             tr_last_error_code := tr_last_error_code r\<rparr>) (triggers d)
          else triggers d @ [new_trigger_row t])\<rparr>))"

definition sqlite_ensure :: "trigger_env \<Rightarrow> interval_trigger \<Rightarrow> trigger_db \<Rightarrow> (trigger_error + unit) \<times> trigger_db" where
  "sqlite_ensure env t d = (case validateTrigger (tv_zone_ok env) t of
     Inl e \<Rightarrow> (Inl e, d)
   | Inr u \<Rightarrow> (Inr (), d\<lparr>triggers := (if list_ex (\<lambda>r. tr_id r = tg_id t) (triggers d) then triggers d
         else triggers d @ [new_trigger_row t])\<rparr>))"

definition free_at :: "num \<Rightarrow> trigger_row \<Rightarrow> bool" where
  "free_at now r \<longleftrightarrow> tr_lease_owner r = None
     \<or> (case tr_lease_expires_at r of None \<Rightarrow> False | Some e \<Rightarrow> e \<le> now)"

definition sqlite_claimable :: "num \<Rightarrow> trigger_row \<Rightarrow> bool" where
  "sqlite_claimable now r \<longleftrightarrow> tr_enabled r \<and> tr_next_fire_at r \<le> now \<and> free_at now r"

text \<open>\<open>INSERT OR IGNORE\<close> under the primary key of a trigger and its scheduled time\<close>

definition record_firing :: "string \<Rightarrow> num \<Rightarrow> string \<Rightarrow> firing_row list \<Rightarrow> firing_row list" where
  "record_firing i due own fs =
     (if list_ex (\<lambda>f. fr_trigger_id f = i \<and> fr_scheduled_at f = due) fs then fs
      else fs @ [\<lparr>fr_trigger_id = i, fr_scheduled_at = due, fr_owner = own, fr_status = CLAIMED,
        fr_completed_at = None, fr_error_code = None\<rparr>])"

text \<open>One row of the claim: \<open>changes\<close> is 1 exactly when the row was still free.\<close>

definition claim_row :: "num \<Rightarrow> string \<Rightarrow> num \<Rightarrow> trigger_row \<Rightarrow> interval_trigger list \<times> trigger_db \<Rightarrow> interval_trigger list \<times> trigger_db" where
  "claim_row now own leaseMs row acc = (case acc of (claimed, d) \<Rightarrow>
     let free = (\<lambda>r. tr_id r = tr_id row \<and> free_at now r);
         lease = (\<lambda>r. r\<lparr>tr_lease_owner := Some own, tr_lease_expires_at := Some (now + leaseMs)\<rparr>) in
     if count_rows free (triggers d) \<noteq> 1 then (claimed, d)
     else (claimed @ [toTrigger (lease row)],
       d\<lparr>triggers := update_rows free lease (triggers d),
         trigger_firings := record_firing (tr_id row) (tr_next_fire_at row) own (trigger_firings d)\<rparr>))"

definition sqlite_claimDue :: "num \<Rightarrow> string \<Rightarrow> num \<Rightarrow> trigger_db \<Rightarrow> interval_trigger list \<times> trigger_db" where
  "sqlite_claimDue now own leaseMs d =
     fold (claim_row now own leaseMs) (sort_key tr_next_fire_at (filter (sqlite_claimable now) (triggers d))) ([], d)"

definition held_row :: "string \<Rightarrow> string \<Rightarrow> trigger_row \<Rightarrow> bool" where
  "held_row i own r \<longleftrightarrow> tr_id r = i \<and> tr_lease_owner r = Some own"

text \<open>The firing of the time the trigger was due, if it is recorded for this owner\<close>

definition own_firing :: "string \<Rightarrow> num \<Rightarrow> string \<Rightarrow> firing_row \<Rightarrow> bool" where
  "own_firing i due own f \<longleftrightarrow> fr_trigger_id f = i \<and> fr_scheduled_at f = due \<and> fr_owner f = own"

definition sqlite_complete ::
  "trigger_env \<Rightarrow> string \<Rightarrow> string \<Rightarrow> num \<Rightarrow> trigger_db \<Rightarrow> (trigger_error + bool) \<times> trigger_db" where
  "sqlite_complete env i own firedAt d = (case List.find (held_row i own) (triggers d) of
     None \<Rightarrow> (Inr False, d)
   | Some row \<Rightarrow>
       (case (if tr_one_shot row then Inr (of_int MAX_SAFE_INTEGER)
              else nextOccurrence env (toTrigger row) firedAt) of
          Inl e \<Rightarrow> (Inl e, d)
        | Inr n \<Rightarrow> (Inr True,
            d\<lparr>triggers := update_rows (held_row i own) (\<lambda>r. r\<lparr>tr_next_fire_at := n, tr_enabled := \<not> tr_one_shot row,
                tr_lease_owner := None, tr_lease_expires_at := None, tr_last_fired_at := Some firedAt,
                tr_last_error_code := None\<rparr>) (triggers d),
              trigger_firings := update_rows (own_firing i (tr_next_fire_at row) own)
                (\<lambda>f. f\<lparr>fr_status := COMPLETED, fr_completed_at := Some firedAt\<rparr>) (trigger_firings d)\<rparr>)))"

definition sqlite_fail :: "string \<Rightarrow> string \<Rightarrow> num \<Rightarrow> string \<Rightarrow> num \<Rightarrow> trigger_db \<Rightarrow> bool \<times> trigger_db" where
  "sqlite_fail i own retryAt errorCode clock d = (case List.find (held_row i own) (triggers d) of
     None \<Rightarrow> (False, d)
   | Some row \<Rightarrow>
       (True, d\<lparr>triggers := update_rows (held_row i own) (\<lambda>r. r\<lparr>tr_next_fire_at := retryAt,
            tr_lease_owner := None, tr_lease_expires_at := None, tr_last_error_code := Some errorCode\<rparr>) (triggers d),
          trigger_firings := update_rows (own_firing i (tr_next_fire_at row) own)
            (\<lambda>f. f\<lparr>fr_status := FIRING_FAILED, fr_completed_at := Some clock, fr_error_code := Some errorCode\<rparr>)
            (trigger_firings d)\<rparr>))"

definition listFirings :: "string \<Rightarrow> trigger_db \<Rightarrow> firing_row list" where
  "listFirings i d = sort_key fr_scheduled_at (filter (\<lambda>f. fr_trigger_id f = i) (trigger_firings d))"

definition SqliteTriggerStore :: "trigger_env \<Rightarrow> trigger_db trigger_store" where
  "SqliteTriggerStore env = \<lparr>ts_put = sqlite_put env, ts_claimDue = sqlite_claimDue,
     ts_complete = sqlite_complete env, ts_fail = sqlite_fail\<rparr>"

section \<open>The scheduler\<close>

text \<open>
  \<open>createRun\<close> starts the run of a trigger; while it is awaited anything may happen to the store. It
  answers the name of the error it throws. An error of \<open>complete\<close> is an \<open>Error\<close>.
\<close>

primrec tick_due ::
  "'s trigger_store \<Rightarrow> string \<Rightarrow> (interval_trigger \<Rightarrow> 's \<Rightarrow> string option \<times> 's) \<Rightarrow> num \<Rightarrow> num \<Rightarrow> interval_trigger list
    \<Rightarrow> nat \<Rightarrow> 's \<Rightarrow> nat \<times> 's" where
  "tick_due store own createRun now clock [] completed s = (completed, s)"
| "tick_due store own createRun now clock (t # due) completed s =
     (let failed = (\<lambda>name s. tick_due store own createRun now clock due completed
            (snd (ts_fail store (tg_id t) own (now + 30000) name clock s))) in
      case createRun t s of
        (Some name, s) \<Rightarrow> failed name s
      | (None, s) \<Rightarrow>
          (case ts_complete store (tg_id t) own now s of
             (Inl e, s) \<Rightarrow> failed ''Error'' s
           | (Inr held, s) \<Rightarrow> tick_due store own createRun now clock due (if held then completed + 1 else completed) s))"

definition tick ::
  "'s trigger_store \<Rightarrow> string \<Rightarrow> (interval_trigger \<Rightarrow> 's \<Rightarrow> string option \<times> 's) \<Rightarrow> num \<Rightarrow> num \<Rightarrow> 's \<Rightarrow> nat \<times> 's" where
  "tick store own createRun now clock s =
     (case ts_claimDue store now own 30000 s of (due, s) \<Rightarrow> tick_due store own createRun now clock due 0 s)"

end
