(* ===== verification/AutomationProperties.thy ===== *)
theory AutomationProperties
  imports Automation
begin

text \<open>
  What the trigger stores guarantee: a trigger that was handed to an owner is handed to nobody else
  while the lease lasts (once for the interface, then for both stores), and when it fires next.
\<close>

section \<open>The interface\<close>

datatype trigger_op =
    ClaimOp num string num
  | CompleteOp string string num
  | FailOp string string num string num

fun op_owner :: "trigger_op \<Rightarrow> string" where
  "op_owner (ClaimOp now own leaseMs) = own"
| "op_owner (CompleteOp i own firedAt) = own"
| "op_owner (FailOp i own retryAt errorCode clock) = own"

fun claims_before :: "num \<Rightarrow> trigger_op \<Rightarrow> bool" where
  "claims_before t (ClaimOp now own leaseMs) \<longleftrightarrow> now < t"
| "claims_before t _ \<longleftrightarrow> True"

text \<open>An operation: the triggers it hands out, and the state it leaves.\<close>

fun perform :: "'s trigger_store \<Rightarrow> trigger_op \<Rightarrow> 's \<Rightarrow> interval_trigger list \<times> 's" where
  "perform store (ClaimOp now own leaseMs) s = ts_claimDue store now own leaseMs s"
| "perform store (CompleteOp i own firedAt) s = ([], snd (ts_complete store i own firedAt s))"
| "perform store (FailOp i own retryAt errorCode clock) s = ([], snd (ts_fail store i own retryAt errorCode clock s))"

primrec perform_all :: "'s trigger_store \<Rightarrow> trigger_op list \<Rightarrow> 's \<Rightarrow> interval_trigger list \<times> 's" where
  "perform_all store [] s = ([], s)"
| "perform_all store (x # xs) s =
     (let r = perform store x s; rs = perform_all store xs (snd r) in (fst r @ fst rs, snd rs))"

text \<open>
  What a client of \<open>TriggerStore\<close> relies on. \<open>holder s i\<close> is the owner of the lease on the trigger
  \<open>i\<close> with its expiry, \<open>ok\<close> what every operation keeps.
\<close>

locale trigger_leases =
  fixes store :: "'s trigger_store"
    and holder :: "'s \<Rightarrow> string \<Rightarrow> (string \<times> num) option"
    and ok :: "'s \<Rightarrow> bool"
  assumes claim_ok: "ok s \<Longrightarrow> ok (snd (ts_claimDue store now own leaseMs s))"
    and complete_ok: "ok s \<Longrightarrow> ok (snd (ts_complete store i own firedAt s))"
    and fail_ok: "ok s \<Longrightarrow> ok (snd (ts_fail store i own retryAt errorCode clock s))"
    and claim_gives: "ok s \<Longrightarrow> t \<in> set (fst (ts_claimDue store now own leaseMs s))
      \<Longrightarrow> holder (snd (ts_claimDue store now own leaseMs s)) (tg_id t) = Some (own, now + leaseMs)"
    and claim_respects: "ok s \<Longrightarrow> holder s i = Some (h, e) \<Longrightarrow> h \<noteq> [] \<Longrightarrow> h \<noteq> own \<Longrightarrow> now < e
      \<Longrightarrow> holder (snd (ts_claimDue store now own leaseMs s)) i = Some (h, e)
        \<and> i \<notin> tg_id ` set (fst (ts_claimDue store now own leaseMs s))"
    and complete_respects: "ok s \<Longrightarrow> holder s i = Some (h, e) \<Longrightarrow> h \<noteq> own
      \<Longrightarrow> holder (snd (ts_complete store j own firedAt s)) i = Some (h, e)"
    and fail_respects: "ok s \<Longrightarrow> holder s i = Some (h, e) \<Longrightarrow> h \<noteq> own
      \<Longrightarrow> holder (snd (ts_fail store j own retryAt errorCode clock s)) i = Some (h, e)"
    and holder_completes: "ok s \<Longrightarrow> holder s i = Some (h, e) \<Longrightarrow> fst (ts_complete store i h firedAt s) \<noteq> Inr False"
begin

lemma perform_ok: "ok s \<Longrightarrow> ok (snd (perform store x s))"
  by (cases x) (simp_all add: claim_ok complete_ok fail_ok)

lemma perform_respects:
  assumes "ok s" and "holder s i = Some (h, e)" and "h \<noteq> []" and "op_owner x \<noteq> h" and "claims_before e x"
  shows "holder (snd (perform store x s)) i = Some (h, e) \<and> i \<notin> tg_id ` set (fst (perform store x s))"
  using assms by (cases x) (auto simp: claim_respects complete_respects fail_respects)

lemma others_respect:
  assumes "ok s" and "holder s i = Some (h, e)" and "h \<noteq> []"
    and "\<forall>x\<in>set xs. op_owner x \<noteq> h \<and> claims_before e x"
  shows "ok (snd (perform_all store xs s)) \<and> holder (snd (perform_all store xs s)) i = Some (h, e)
    \<and> i \<notin> tg_id ` set (fst (perform_all store xs s))"
  using assms
proof (induction xs arbitrary: s)
  case (Cons x xs)
  from Cons.prems perform_respects [of s i h e x] perform_ok [of s x]
    Cons.IH [of "snd (perform store x s)"] show ?case
    by (auto simp: Let_def)
qed simp

lemma exclusive:
  assumes "ok s" and "t \<in> set (fst (ts_claimDue store now own leaseMs s))" and "own \<noteq> []"
    and "\<forall>x\<in>set xs. op_owner x \<noteq> own \<and> claims_before (now + leaseMs) x"
    and "perform_all store xs (snd (ts_claimDue store now own leaseMs s)) = (handed, s')"
  shows "tg_id t \<notin> tg_id ` set handed \<and> fst (ts_complete store (tg_id t) own firedAt s') \<noteq> Inr False"
  using others_respect [OF claim_ok [OF assms(1)] claim_gives [OF assms(1,2)] assms(3,4)] assms(5) holder_completes
  by auto

end

section \<open>The store in memory\<close>

definition memory_ok :: "memory_triggers \<Rightarrow> bool" where
  "memory_ok s \<longleftrightarrow> distinct (map fst s) \<and> (\<forall>(k, t)\<in>set s. k = tg_id t)"

definition lease_of :: "interval_trigger \<Rightarrow> (string \<times> num) option" where
  "lease_of t = (case (tg_leaseOwner t, tg_leaseExpiresAt t) of (Some h, Some e) \<Rightarrow> Some (h, e) | _ \<Rightarrow> None)"

definition memory_holder :: "memory_triggers \<Rightarrow> string \<Rightarrow> (string \<times> num) option" where
  "memory_holder s i = Option.bind (map_of s i) lease_of"

lemma lease_of_leased [simp]: "lease_of (leased own e t) = Some (own, e)" "tg_id (leased own e t) = tg_id t"
  by (simp_all add: lease_of_def leased_def)

lemma lease_of_Some: "lease_of t = Some (h, e) \<longleftrightarrow> tg_leaseOwner t = Some h \<and> tg_leaseExpiresAt t = Some e"
  by (auto simp: lease_of_def split: option.splits)

lemma memory_ok_update: "memory_ok s \<Longrightarrow> i = tg_id t \<Longrightarrow> memory_ok (AList.update i t s)"
proof -
  have "\<forall>(k, x)\<in>set (AList.update (tg_id t) t s). k = tg_id x" if "\<forall>(k, x)\<in>set s. k = tg_id x" for s
    using that by (induction s) auto
  from this [of s] show "memory_ok s \<Longrightarrow> i = tg_id t \<Longrightarrow> memory_ok (AList.update i t s)"
    by (simp add: memory_ok_def distinct_update)
qed

lemma memory_key: "memory_ok s \<Longrightarrow> map_of s i = Some t \<Longrightarrow> tg_id t = i"
  by (auto simp: memory_ok_def dest: map_of_SomeD)

lemma map_of_claimed:
  "map_of (snd (memory_claimDue now own leaseMs s)) i
     = map_option (\<lambda>t. if memory_claimable now own t then leased own (now + leaseMs) t else t) (map_of s i)"
  by (induction s) (auto simp: memory_claimDue_def)

lemma memory_claimed:
  assumes "memory_ok s"
  shows "t \<in> set (fst (memory_claimDue now own leaseMs s)) \<longleftrightarrow>
    (\<exists>t0. map_of s (tg_id t) = Some t0 \<and> memory_claimable now own t0 \<and> t = leased own (now + leaseMs) t0)"
  using assms by (auto simp: memory_claimDue_def memory_ok_def image_iff) fastforce

interpretation memory: trigger_leases "InMemoryTriggerStore env" memory_holder memory_ok for env
proof
  fix s :: memory_triggers and i j own h e now leaseMs firedAt retryAt errorCode clock t
  assume ok: "memory_ok s"
  show "memory_ok (snd (ts_claimDue (InMemoryTriggerStore env) now own leaseMs s))"
  proof -
    have "distinct (map fst (snd (memory_claimDue now own leaseMs s))) = distinct (map fst s)"
      by (simp add: memory_claimDue_def case_prod_beta comp_def)
    with ok show ?thesis
      by (auto simp: InMemoryTriggerStore_def memory_ok_def) (auto simp: memory_claimDue_def)
  qed
  show "memory_ok (snd (ts_complete (InMemoryTriggerStore env) i own firedAt s))"
    using ok memory_key [OF ok]
    by (auto simp: InMemoryTriggerStore_def memory_complete_def intro!: memory_ok_update split: option.split sum.split)
  show "memory_ok (snd (ts_fail (InMemoryTriggerStore env) i own retryAt errorCode clock s))"
    using ok memory_key [OF ok]
    by (auto simp: InMemoryTriggerStore_def memory_fail_def intro!: memory_ok_update split: option.split)
  show "memory_holder (snd (ts_claimDue (InMemoryTriggerStore env) now own leaseMs s)) (tg_id t) = Some (own, now + leaseMs)"
    if "t \<in> set (fst (ts_claimDue (InMemoryTriggerStore env) now own leaseMs s))"
    using that by (auto simp: InMemoryTriggerStore_def memory_claimed [OF ok] memory_holder_def map_of_claimed)
  assume held: "memory_holder s i = Some (h, e)"
  then obtain t0 where t0: "map_of s i = Some t0" "tg_leaseOwner t0 = Some h" "tg_leaseExpiresAt t0 = Some e"
    by (auto simp: memory_holder_def lease_of_Some bind_eq_Some_conv)
  show "fst (ts_complete (InMemoryTriggerStore env) i h firedAt s) \<noteq> Inr False"
    using t0 by (auto simp: InMemoryTriggerStore_def memory_complete_def split: sum.split)
  assume other: "h \<noteq> own"
  show "memory_holder (snd (ts_complete (InMemoryTriggerStore env) j own firedAt s)) i = Some (h, e)"
    using held t0 other
    by (auto simp: InMemoryTriggerStore_def memory_complete_def memory_holder_def update_conv' split: option.split sum.split)
  show "memory_holder (snd (ts_fail (InMemoryTriggerStore env) j own retryAt errorCode clock s)) i = Some (h, e)"
    using held t0 other
    by (auto simp: InMemoryTriggerStore_def memory_fail_def memory_holder_def update_conv' split: option.split)
  assume "h \<noteq> []" "now < e"
  with t0 other have "\<not> memory_claimable now own t0"
    by (cases h) (auto simp: memory_claimable_def)
  with held t0 show "memory_holder (snd (ts_claimDue (InMemoryTriggerStore env) now own leaseMs s)) i = Some (h, e)
      \<and> i \<notin> tg_id ` set (fst (ts_claimDue (InMemoryTriggerStore env) now own leaseMs s))"
    by (auto simp: InMemoryTriggerStore_def memory_claimed [OF ok] memory_holder_def map_of_claimed)
qed

section \<open>The store in SQLite\<close>

inductive trigger_step :: "trigger_env \<Rightarrow> trigger_db \<Rightarrow> trigger_db \<Rightarrow> bool" for env where
  put: "trigger_step env d (snd (sqlite_put env t d))"
| ensure: "trigger_step env d (snd (sqlite_ensure env t d))"
| operation: "trigger_step env d (snd (perform (SqliteTriggerStore env) x d))"

definition trigger_reachable :: "trigger_env \<Rightarrow> trigger_db \<Rightarrow> bool" where
  "trigger_reachable env d \<longleftrightarrow> (trigger_step env)\<^sup>*\<^sup>* \<lparr>triggers = [], trigger_firings = []\<rparr> d"

definition ids_distinct :: "trigger_db \<Rightarrow> bool" where
  "ids_distinct d \<longleftrightarrow> distinct (map tr_id (triggers d))"

definition row_lease :: "trigger_row \<Rightarrow> (string \<times> num) option" where
  "row_lease r = (case (tr_lease_owner r, tr_lease_expires_at r) of (Some h, Some e) \<Rightarrow> Some (h, e) | _ \<Rightarrow> None)"

definition sqlite_holder :: "trigger_db \<Rightarrow> string \<Rightarrow> (string \<times> num) option" where
  "sqlite_holder d i = Option.bind (List.find (\<lambda>r. tr_id r = i) (triggers d)) row_lease"

lemma sqlite_holder_Some:
  "ids_distinct d \<Longrightarrow> sqlite_holder d i = Some (h, e) \<longleftrightarrow>
     (\<exists>r\<in>set (triggers d). tr_id r = i \<and> tr_lease_owner r = Some h \<and> tr_lease_expires_at r = Some e)"
  by (auto simp: sqlite_holder_def ids_distinct_def find_unique_key bind_eq_Some_conv row_lease_def
      split: option.splits)

definition lease_row :: "num \<Rightarrow> string \<Rightarrow> num \<Rightarrow> trigger_row \<Rightarrow> trigger_row" where
  "lease_row now own leaseMs r = r\<lparr>tr_lease_owner := Some own, tr_lease_expires_at := Some (now + leaseMs)\<rparr>"

lemma lease_row_simps [simp]:
  "tr_id (lease_row now own leaseMs r) = tr_id r" "tr_lease_owner (lease_row now own leaseMs r) = Some own"
  "tr_lease_expires_at (lease_row now own leaseMs r) = Some (now + leaseMs)"
  by (simp_all add: lease_row_def)

lemma count_one: "distinct (map k t) \<Longrightarrow> r \<in> set t \<Longrightarrow> p r \<Longrightarrow> count_rows (\<lambda>x. k x = k r \<and> p x) t = 1"
proof -
  assume "distinct (map k t)" "r \<in> set t" "p r"
  then have "filter (\<lambda>x. k x = k r \<and> p x) t = [r]"
    by (induction t) (auto simp: filter_empty_conv image_iff)
  then show ?thesis by (simp add: count_rows_def)
qed

text \<open>The claim in one step: exactly the claimable rows are leased and handed out.\<close>

lemma claim_rows:
  assumes "ids_distinct d" and "distinct (map tr_id rs)" and "\<forall>r\<in>set rs. r \<in> set (triggers d) \<and> free_at now r"
  shows "fst (fold (claim_row now own leaseMs) rs (c, d)) = c @ map (\<lambda>r. toTrigger (lease_row now own leaseMs r)) rs
    \<and> triggers (snd (fold (claim_row now own leaseMs) rs (c, d)))
      = update_rows (\<lambda>r. r \<in> set rs) (lease_row now own leaseMs) (triggers d)"
  using assms
proof (induction rs arbitrary: c d)
  case Nil
  show ?case by (simp add: update_rows_def)
next
  case (Cons r rs)
  let ?free = "\<lambda>x. tr_id x = tr_id r \<and> free_at now x"
  let ?ts = "update_rows (\<lambda>x. x = r) (lease_row now own leaseMs) (triggers d)"
  let ?d = "d\<lparr>triggers := ?ts, trigger_firings := record_firing (tr_id r) (tr_next_fire_at r) own (trigger_firings d)\<rparr>"
  note dist = Cons.prems(1) [unfolded ids_distinct_def]
  have same: "?free x \<longleftrightarrow> x = r" if "x \<in> set (triggers d)" for x
    using unique_key_eq [OF dist that] Cons.prems(3) by auto
  have "update_rows ?free (lease_row now own leaseMs) (triggers d) = ?ts"
    using same by (auto simp: update_rows_def)
  moreover have "count_rows ?free (triggers d) = 1" using count_one [OF dist] Cons.prems(3) by simp
  ultimately have step: "claim_row now own leaseMs r (c, d) = (c @ [toTrigger (lease_row now own leaseMs r)], ?d)"
    by (simp add: claim_row_def Let_def lease_row_def [abs_def])
  have ids: "map tr_id ?ts = map tr_id (triggers d)" by (simp add: map_update_rows_frame)
  have rest: "\<forall>x\<in>set rs. x \<in> set ?ts \<and> free_at now x"
    using Cons.prems(2,3) by (auto simp: set_update_rows)
  have "update_rows (\<lambda>x. x \<in> set rs) (lease_row now own leaseMs) ?ts
      = update_rows (\<lambda>x. x \<in> set (r # rs)) (lease_row now own leaseMs) (triggers d)"
  proof -
    have "lease_row now own leaseMs r \<notin> set rs"
      using Cons.prems(2) by (metis distinct.simps(2) image_eqI lease_row_simps(1) list.set_map list.simps(9))
    then show ?thesis by (auto simp: update_rows_def)
  qed
  with Cons.IH [of ?d "c @ [toTrigger (lease_row now own leaseMs r)]"] ids rest Cons.prems(1,2) step show ?case
    by (simp add: ids_distinct_def)
qed

lemma sqlite_claim:
  assumes "ids_distinct d"
  shows "triggers (snd (sqlite_claimDue now own leaseMs d))
      = update_rows (sqlite_claimable now) (lease_row now own leaseMs) (triggers d)"
    and "t \<in> set (fst (sqlite_claimDue now own leaseMs d)) \<longleftrightarrow>
      (\<exists>r\<in>set (triggers d). sqlite_claimable now r \<and> t = toTrigger (lease_row now own leaseMs r))"
proof -
  let ?rs = "sort_key tr_next_fire_at (filter (sqlite_claimable now) (triggers d))"
  have "distinct (map tr_id (filter (sqlite_claimable now) (triggers d)))"
    using assms by (simp add: ids_distinct_def distinct_map_filter)
  then have "distinct (map tr_id ?rs)" by (metis distinct_map distinct_sort set_sort)
  from claim_rows [OF assms this, of now own leaseMs "[]"]
  have rows: "fst (sqlite_claimDue now own leaseMs d) = map (\<lambda>r. toTrigger (lease_row now own leaseMs r)) ?rs"
      "triggers (snd (sqlite_claimDue now own leaseMs d)) = update_rows (\<lambda>r. r \<in> set ?rs) (lease_row now own leaseMs) (triggers d)"
    by (auto simp: sqlite_claimDue_def sqlite_claimable_def)
  from rows(2) show "triggers (snd (sqlite_claimDue now own leaseMs d))
      = update_rows (sqlite_claimable now) (lease_row now own leaseMs) (triggers d)"
    by (auto simp: update_rows_def)
  from rows(1) show "t \<in> set (fst (sqlite_claimDue now own leaseMs d)) \<longleftrightarrow>
      (\<exists>r\<in>set (triggers d). sqlite_claimable now r \<and> t = toTrigger (lease_row now own leaseMs r))" by auto
qed

lemma toTrigger_id [simp]: "tg_id (toTrigger r) = tr_id r"
  by (simp add: toTrigger_def)

lemma held_rows:
  assumes "ids_distinct d" and "List.find (held_row i own) (triggers d) = Some row"
  shows "row \<in> set (triggers d)" "tr_id row = i" "tr_lease_owner row = Some own"
    "\<forall>r\<in>set (triggers d). held_row i own r \<longleftrightarrow> r = row"
  using find_SomeD [OF assms(2)] assms(1) unique_key_eq [of tr_id "triggers d"]
  by (auto simp: held_row_def ids_distinct_def)

lemma ids_update: "(\<And>r. tr_id (f r) = tr_id r) \<Longrightarrow> map tr_id (update_rows p f ts) = map tr_id ts"
  by (simp add: map_update_rows_frame)

lemma holder_update_other:
  assumes "ids_distinct d" and "sqlite_holder d i = Some (h, e)" and "h \<noteq> own"
    and "triggers d' = update_rows (held_row j own) f (triggers d)" and "\<And>r. tr_id (f r) = tr_id r"
  shows "sqlite_holder d' i = Some (h, e)"
proof -
  have "ids_distinct d'" using assms(1,4) ids_update [OF assms(5)] by (simp add: ids_distinct_def)
  moreover from assms(1,2) obtain r where
    "r \<in> set (triggers d)" "tr_id r = i" "tr_lease_owner r = Some h" "tr_lease_expires_at r = Some e"
    by (auto simp: sqlite_holder_Some)
  with assms(3,4) have "r \<in> set (triggers d') \<and> tr_id r = i \<and> tr_lease_owner r = Some h \<and> tr_lease_expires_at r = Some e"
    by (auto simp: set_update_rows held_row_def)
  ultimately show ?thesis by (auto simp: sqlite_holder_Some)
qed

interpretation sqlite: trigger_leases "SqliteTriggerStore env" sqlite_holder ids_distinct for env
proof
  fix s :: trigger_db and i j own h e now leaseMs firedAt retryAt errorCode clock t
  assume ok: "ids_distinct s"
  have ok': "ids_distinct (snd (sqlite_claimDue now own leaseMs s))"
    using ok sqlite_claim(1) [OF ok] by (simp add: ids_distinct_def ids_update)
  then show "ids_distinct (snd (ts_claimDue (SqliteTriggerStore env) now own leaseMs s))"
    by (simp add: SqliteTriggerStore_def)
  show "ids_distinct (snd (ts_complete (SqliteTriggerStore env) i own firedAt s))"
    using ok by (auto simp: SqliteTriggerStore_def sqlite_complete_def ids_distinct_def ids_update split: option.split sum.split)
  show "ids_distinct (snd (ts_fail (SqliteTriggerStore env) i own retryAt errorCode clock s))"
    using ok by (auto simp: SqliteTriggerStore_def sqlite_fail_def ids_distinct_def ids_update split: option.split)
  show "sqlite_holder (snd (ts_claimDue (SqliteTriggerStore env) now own leaseMs s)) (tg_id t) = Some (own, now + leaseMs)"
    if "t \<in> set (fst (ts_claimDue (SqliteTriggerStore env) now own leaseMs s))"
  proof -
    from that obtain r where r: "r \<in> set (triggers s)" "sqlite_claimable now r" "tg_id t = tr_id r"
      by (auto simp: SqliteTriggerStore_def sqlite_claim(2) [OF ok])
    then have "lease_row now own leaseMs r \<in> set (triggers (snd (sqlite_claimDue now own leaseMs s)))"
      by (auto simp: sqlite_claim(1) [OF ok] set_update_rows)
    then have "sqlite_holder (snd (sqlite_claimDue now own leaseMs s)) (tr_id r) = Some (own, now + leaseMs)"
      unfolding sqlite_holder_Some [OF ok'] by (rule bexI [rotated]) simp
    with r(3) show ?thesis by (simp add: SqliteTriggerStore_def)
  qed
  assume held: "sqlite_holder s i = Some (h, e)"
  then obtain r where r: "r \<in> set (triggers s)" "tr_id r = i" "tr_lease_owner r = Some h" "tr_lease_expires_at r = Some e"
    using ok by (auto simp: sqlite_holder_Some)
  have "List.find (held_row i h) (triggers s) \<noteq> None" using r by (auto simp: find_None_iff held_row_def)
  then obtain row where row: "List.find (held_row i h) (triggers s) = Some row" by blast
  show "fst (ts_complete (SqliteTriggerStore env) i h firedAt s) \<noteq> Inr False"
    by (cases "if tr_one_shot row then Inr (of_int MAX_SAFE_INTEGER) else nextOccurrence env (toTrigger row) firedAt")
      (simp_all only: SqliteTriggerStore_def sqlite_complete_def row option.case sum.case fst_conv trigger_store.select_convs
        sum.distinct sum.inject simp_thms)
  assume other: "h \<noteq> own"
  show "sqlite_holder (snd (ts_complete (SqliteTriggerStore env) j own firedAt s)) i = Some (h, e)"
    using held holder_update_other [OF ok held other]
    by (auto simp: SqliteTriggerStore_def sqlite_complete_def split: option.split sum.split)
  show "sqlite_holder (snd (ts_fail (SqliteTriggerStore env) j own retryAt errorCode clock s)) i = Some (h, e)"
    using held holder_update_other [OF ok held other]
    by (auto simp: SqliteTriggerStore_def sqlite_fail_def split: option.split)
  assume "h \<noteq> []" "now < e"
  with r have free: "\<not> sqlite_claimable now r" by (simp add: sqlite_claimable_def free_at_def)
  with r have "r \<in> set (triggers (snd (sqlite_claimDue now own leaseMs s)))"
    by (auto simp: sqlite_claim(1) [OF ok] set_update_rows)
  with r ok' have "sqlite_holder (snd (sqlite_claimDue now own leaseMs s)) i = Some (h, e)" by (auto simp: sqlite_holder_Some)
  moreover have "i \<notin> tg_id ` set (fst (sqlite_claimDue now own leaseMs s))"
  proof
    assume "i \<in> tg_id ` set (fst (sqlite_claimDue now own leaseMs s))"
    then obtain r' where r': "r' \<in> set (triggers s)" "sqlite_claimable now r'" "tr_id r' = i"
      by (auto simp: sqlite_claim(2) [OF ok])
    with r unique_key_eq [OF ok [unfolded ids_distinct_def], of r r'] have "r' = r" by simp
    with r' free show False by simp
  qed
  ultimately show "sqlite_holder (snd (ts_claimDue (SqliteTriggerStore env) now own leaseMs s)) i = Some (h, e)
      \<and> i \<notin> tg_id ` set (fst (ts_claimDue (SqliteTriggerStore env) now own leaseMs s))"
    by (simp add: SqliteTriggerStore_def)
qed

lemma trigger_step_ok: "trigger_step env d d' \<Longrightarrow> ids_distinct d \<Longrightarrow> ids_distinct d'"
proof (induction rule: trigger_step.induct)
  case (put d t)
  then show ?case
    by (auto simp: sqlite_put_def ids_distinct_def list_ex_iff new_trigger_row_def split: sum.split)
      (subst map_update_rows_frame; auto)+
next
  case (ensure d t)
  then show ?case by (auto simp: sqlite_ensure_def ids_distinct_def list_ex_iff new_trigger_row_def split: sum.split)
next
  case (operation d x)
  then show ?case by (rule sqlite.perform_ok)
qed

lemma trigger_reachable_ok: "trigger_reachable env d \<Longrightarrow> ids_distinct d"
  unfolding trigger_reachable_def
  by (induction rule: rtranclp_induct) (auto simp: ids_distinct_def dest: trigger_step_ok)

text \<open>C29: A claimed trigger is exclusive while its lease lasts. After a scheduler has claimed a trigger
  from the SQLite store, whatever other schedulers claim (before the lease ends), complete and fail,
  none of them is handed the trigger, and the scheduler still holds it when it completes the firing.\<close>

theorem claimed_trigger_exclusive:
  assumes "trigger_reachable env d" and "t \<in> set (fst (sqlite_claimDue now own leaseMs d))" and "own \<noteq> []"
    and "\<forall>x\<in>set xs. op_owner x \<noteq> own \<and> claims_before (now + leaseMs) x"
    and "perform_all (SqliteTriggerStore env) xs (snd (sqlite_claimDue now own leaseMs d)) = (handed, d')"
  shows "tg_id t \<notin> tg_id ` set handed \<and> fst (sqlite_complete env (tg_id t) own firedAt d') \<noteq> Inr False"
proof -
  have claim: "ts_claimDue (SqliteTriggerStore env) = sqlite_claimDue"
    and complete: "ts_complete (SqliteTriggerStore env) = sqlite_complete env" by (simp_all add: SqliteTriggerStore_def)
  from sqlite.exclusive [of d t env, unfolded claim complete, OF trigger_reachable_ok [OF assms(1)] assms(2-5)]
  show ?thesis .
qed

section \<open>One-shot triggers\<close>

definition retired :: "string \<Rightarrow> trigger_db \<Rightarrow> bool" where
  "retired i d \<longleftrightarrow> (\<forall>r\<in>set (triggers d). tr_id r = i \<longrightarrow> \<not> tr_enabled r \<and> tr_lease_owner r = None)"

lemma retired_update:
  assumes "retired i d" and "triggers d' = update_rows p f (triggers d)" and "\<And>r. tr_id (f r) = tr_id r"
    and "\<And>r. r \<in> set (triggers d) \<Longrightarrow> p r \<Longrightarrow> tr_enabled r \<or> tr_lease_owner r \<noteq> None"
  shows "retired i d'"
  using assms unfolding retired_def by (auto simp: set_update_rows) (metis option.simps(3))+

text \<open>Completing and failing change only held rows, and no identifier.\<close>

definition touches_held :: "string \<Rightarrow> string \<Rightarrow> trigger_db \<Rightarrow> trigger_db \<Rightarrow> bool" where
  "touches_held i own d d' \<longleftrightarrow> (\<exists>f. (\<forall>r. tr_id (f r) = tr_id r) \<and> triggers d' = update_rows (held_row i own) f (triggers d))"

lemma touches_heldI: "triggers d' = update_rows (held_row i own) f (triggers d) \<Longrightarrow> (\<And>r. tr_id (f r) = tr_id r)
    \<Longrightarrow> touches_held i own d d'"
  unfolding touches_held_def by blast

lemma touches_held_refl: "touches_held i own d d"
  by (rule touches_heldI [where f = "\<lambda>r. r"]) (simp_all add: update_rows_def)

lemma reports_touch_held:
  "touches_held i own d (snd (sqlite_complete env i own firedAt d))"
  "touches_held i own d (snd (sqlite_fail i own retryAt errorCode clock d))"
  by (auto simp: sqlite_complete_def sqlite_fail_def split: option.split sum.split
      intro: touches_held_refl touches_heldI)

lemma retired_touch: "retired i d \<Longrightarrow> touches_held j own d d' \<Longrightarrow> retired i d'"
proof -
  assume "retired i d" and "touches_held j own d d'"
  then obtain f where f: "\<forall>r. tr_id (f r) = tr_id r" "triggers d' = update_rows (held_row j own) f (triggers d)"
    unfolding touches_held_def by blast
  show "retired i d'" by (rule retired_update [OF \<open>retired i d\<close> f(2)]) (use f(1) in \<open>auto simp: held_row_def\<close>)
qed

lemma retired_perform:
  assumes "ids_distinct d" and "retired i d"
  shows "retired i (snd (perform (SqliteTriggerStore env) x d)) \<and> i \<notin> tg_id ` set (fst (perform (SqliteTriggerStore env) x d))"
proof (cases x)
  case (ClaimOp now own leaseMs)
  have "retired i (snd (sqlite_claimDue now own leaseMs d))"
    by (rule retired_update [OF assms(2) sqlite_claim(1) [OF assms(1)]]) (simp_all add: sqlite_claimable_def)
  moreover have "i \<notin> tg_id ` set (fst (sqlite_claimDue now own leaseMs d))"
    using assms(2) by (auto simp: sqlite_claim(2) [OF assms(1)] retired_def sqlite_claimable_def)
  ultimately show ?thesis using ClaimOp by (simp add: SqliteTriggerStore_def)
next
  case (CompleteOp j own firedAt)
  with retired_touch [OF assms(2) reports_touch_held(1)] show ?thesis by (simp add: SqliteTriggerStore_def)
next
  case (FailOp j own retryAt errorCode clock)
  with retired_touch [OF assms(2) reports_touch_held(2)] show ?thesis by (simp add: SqliteTriggerStore_def)
qed

lemma retired_for_ever:
  "ids_distinct d \<Longrightarrow> retired i d \<Longrightarrow> i \<notin> tg_id ` set (fst (perform_all (SqliteTriggerStore env) xs d))"
proof (induction xs arbitrary: d)
  case (Cons x xs)
  from retired_perform [OF Cons.prems] Cons.IH [of "snd (perform (SqliteTriggerStore env) x d)"]
    sqlite.perform_ok [OF Cons.prems(1)] show ?case by (auto simp: Let_def)
qed simp

text \<open>A one-shot trigger fires once. After a one-shot trigger was completed, no later operation of
  any scheduler is handed it again, unless it is put into the store anew.\<close>

theorem one_shot_fires_once:
  assumes "trigger_reachable env d" and "sqlite_complete env i own firedAt d = (Inr True, d')"
    and "\<exists>r\<in>set (triggers d). tr_id r = i \<and> tr_one_shot r"
    and "perform_all (SqliteTriggerStore env) xs d' = (handed, d'')"
  shows "i \<notin> tg_id ` set handed"
proof -
  note ok = trigger_reachable_ok [OF assms(1)]
  from assms(2) obtain row where row: "List.find (held_row i own) (triggers d) = Some row"
    by (auto simp: sqlite_complete_def split: option.splits)
  from held_rows [OF ok row] assms(3) ok have shot: "tr_one_shot row"
    using unique_key_eq [of tr_id "triggers d"] by (auto simp: ids_distinct_def)
  with assms(2) row have d': "triggers d' = update_rows (held_row i own)
      (\<lambda>r. r\<lparr>tr_next_fire_at := of_int MAX_SAFE_INTEGER, tr_enabled := False, tr_lease_owner := None,
        tr_lease_expires_at := None, tr_last_fired_at := Some firedAt, tr_last_error_code := None\<rparr>) (triggers d)"
    by (auto simp: sqlite_complete_def)
  have "ids_distinct d'" using ok d' by (simp add: ids_distinct_def ids_update)
  moreover have "retired i d'"
    using held_rows [OF ok row] ok unique_key_eq [of tr_id "triggers d"]
    by (auto simp: retired_def d' set_update_rows ids_distinct_def held_row_def)
  ultimately show ?thesis using retired_for_ever [of d' i env xs] assms(4) by simp
qed

section \<open>When a trigger fires next\<close>

lemma js_mod_bounds: "0 < y \<Longrightarrow> 0 \<le> js_mod x y \<and> js_mod x y < y"
proof -
  assume "0 < y"
  moreover have "of_int \<lfloor>x / y\<rfloor> \<le> x / y" "x / y < of_int \<lfloor>x / y\<rfloor> + 1" by linarith+
  ultimately have "of_int \<lfloor>x / y\<rfloor> * y \<le> x" "x < (of_int \<lfloor>x / y\<rfloor> + 1) * y"
    by (simp_all only: pos_le_divide_eq pos_divide_less_eq)
  then show ?thesis by (simp add: js_mod_def algebra_simps)
qed

text \<open>An interval trigger fires next after now, on its grid, and not later than one interval. For a
  valid trigger of an interval that was due at \<open>firedAt\<close>: with the policy to catch up the next time
  is exactly one interval later; otherwise it is the first time of the grid of its interval after
  \<open>firedAt\<close>, plus less than its jitter and a millisecond.\<close>

theorem next_occurrence_on_grid:
  assumes "validateTrigger zone_ok t = Inr ()" and "\<not> tg_oneShot t" and "tg_timeZone t = None"
    and "tg_nextFireAt t \<le> firedAt" and "nextOccurrence env t firedAt = Inr n"
  shows "if tg_missedRunPolicy t = Some CatchUp then n = tg_nextFireAt t + tg_intervalMs t
    else \<exists>k base. base = tg_nextFireAt t + of_nat (Suc k) * tg_intervalMs t
      \<and> firedAt < base \<and> base \<le> firedAt + tg_intervalMs t
      \<and> base \<le> n \<and> n < base + nullish (tg_jitterMs t) 0 + 1"
proof (cases "tg_missedRunPolicy t = Some CatchUp")
  case True
  with assms(3,5) show ?thesis by (simp add: nextOccurrence_def)
next
  case False
  let ?i = "tg_intervalMs t" and ?late = "firedAt - tg_nextFireAt t"
  from assms(1,2) have i: "0 < ?i" and jitter: "0 \<le> nullish (tg_jitterMs t) 0"
    by (auto simp: validateTrigger_def result_simps)
  define k where "k = nat \<lfloor>?late / ?i\<rfloor>"
  have floor: "0 \<le> \<lfloor>?late / ?i\<rfloor>" using i assms(4) by simp
  then have k: "(of_nat (Suc k) :: num) = of_int (\<lfloor>?late / ?i\<rfloor> + 1)" by (simp add: k_def)
  have missed: "max 1 (of_int (\<lfloor>?late / ?i\<rfloor> + 1)) = (of_nat (Suc k) :: num)" using floor unfolding k by simp
  define base where "base = tg_nextFireAt t + of_nat (Suc k) * ?i"
  have "0 \<le> js_mod ?late ?i \<and> js_mod ?late ?i < ?i" by (rule js_mod_bounds [OF i])
  moreover have "base = firedAt + ?i - js_mod ?late ?i" by (simp only: base_def k js_mod_def) (simp add: algebra_simps)
  ultimately have "firedAt < base" "base \<le> firedAt + ?i" by simp_all
  moreover have "nextOccurrence env t firedAt = (if nullish (tg_jitterMs t) 0 = 0 then Inr base
      else Inr (base + js_mod (of_nat (tv_digest env (tg_id t) base)) (nullish (tg_jitterMs t) 0 + 1)))"
    using assms(3) False unfolding nextOccurrence_def Let_def missed base_def [symmetric] by simp
  then have "base \<le> n \<and> n < base + nullish (tg_jitterMs t) 0 + 1"
    using assms(5) js_mod_bounds [of "nullish (tg_jitterMs t) 0 + 1" "of_nat (tv_digest env (tg_id t) base)"] jitter
    by (auto split: if_splits)
  ultimately show ?thesis using False base_def by auto
qed

lemma approach_found: "approach n wall target c = Inr r \<Longrightarrow> wall r = target"
  by (induction n arbitrary: c) (auto simp: Let_def split: if_splits)

lemma zoned_shows: "zonedLocalToUtc wall target = Some c \<Longrightarrow> wall c = target"
  by (auto simp: zonedLocalToUtc_def dest: approach_found split: sum.splits if_splits)

lemma first_after_shows: "first_after wall after targets = Some c \<Longrightarrow> after < c \<and> wall c \<in> set targets"
  by (induction targets) (auto dest: zoned_shows split: option.splits if_splits)

lemma time_in_day:
  assumes "local_time_ok s"
  shows "0 \<le> time_of_day s \<and> time_of_day s < DAY"
proof -
  from assms obtain a b c d e where s: "s = [a, b, c, d, e]"
    by (auto simp: local_time_ok_def split: list.splits)
  have digit: "digits_value [x, y] = 10 * (of_char x - 48) + (of_char y - 48)" for x y
    by (simp add: digits_value_def)
  from assms s have bounds: "digits_value [a, b] \<le> 23" "digits_value [d, e] \<le> 59"
    by (auto simp: local_time_ok_def is_digit_def digit)
  then have "60 * digits_value [a, b] + digits_value [d, e] < 1440" by linarith
  then have "(of_nat (60 * digits_value [a, b] + digits_value [d, e]) :: num) < 1440" by simp
  then show ?thesis by (simp add: time_of_day_def s DAY_def)
qed

text \<open>A daily trigger fires later, and at its local time. When \<open>nextDailyOccurrence\<close> finds a time, it
  lies after the given moment and the clock on the wall of the zone then shows exactly the
  configured hour and minute, whatever the offsets of the zone are and however they change.\<close>

theorem daily_occurrence_shows_local_time:
  assumes "nextDailyOccurrence wall time after = Inr n"
  shows "after < n \<and> wall n - midnight (wall n) = time_of_day time"
proof -
  from assms have time: "local_time_ok time" and "first_after wall after
      (map (\<lambda>d. midnight (wall after) + of_nat d * DAY + time_of_day time) [0..<4]) = Some n"
    by (auto simp: nextDailyOccurrence_def split: if_splits)
  from first_after_shows [OF this(2)] obtain d :: nat where after: "after < n"
    and wall: "wall n = midnight (wall after) + of_nat d * DAY + time_of_day time" by auto
  let ?day = "\<lfloor>wall after / DAY\<rfloor> + int d"
  have "wall n = of_int ?day * DAY + time_of_day time" by (simp add: wall midnight_def algebra_simps)
  moreover from this have "\<lfloor>wall n / DAY\<rfloor> = ?day"
    using time_in_day [OF time] by (intro floor_unique) (simp_all add: DAY_def field_simps)
  ultimately show ?thesis using after by (simp add: midnight_def)
qed

section \<open>Examples\<close>

definition example_trigger :: interval_trigger where
  "example_trigger = \<lparr>tg_id = ''t'', tg_intervalMs = 1000, tg_nextFireAt = 5000, tg_payload = [],
     tg_leaseOwner = None, tg_leaseExpiresAt = None, tg_oneShot = False, tg_jitterMs = None,
     tg_missedRunPolicy = None, tg_timeZone = None, tg_localTime = None\<rparr>"

definition example_tenv :: trigger_env where
  "example_tenv = \<lparr>tv_wall = (\<lambda>zone t. of_int \<lfloor>t / 60000\<rfloor> * 60000), tv_zone_ok = (\<lambda>z. True), tv_digest = (\<lambda>i n. 0)\<rparr>"

definition trigger_db1 :: trigger_db where
  "trigger_db1 = snd (sqlite_put example_tenv example_trigger \<lparr>triggers = [], trigger_firings = []\<rparr>)"

lemma reachable_step: "trigger_reachable env d \<Longrightarrow> trigger_step env d d' \<Longrightarrow> trigger_reachable env d'"
  unfolding trigger_reachable_def by (rule rtranclp.rtrancl_into_rtrancl)

lemma put_reachable: "trigger_reachable env (snd (sqlite_put env t \<lparr>triggers = [], trigger_firings = []\<rparr>))"
  unfolding trigger_reachable_def by (rule r_into_rtranclp) (rule trigger_step.put)

lemma trigger_db1_reachable: "trigger_reachable example_tenv trigger_db1"
  unfolding trigger_db1_def by (rule put_reachable)

text \<open>While the scheduler \<open>a\<close> holds the trigger until 36,000, \<open>b\<close> claims at 35,999 in vain.\<close>

theorem claimed_trigger_exclusive_witness:
  "\<exists>t handed d'. fst (sqlite_claimDue 6000 ''a'' 30000 trigger_db1) = [t]
     \<and> perform_all (SqliteTriggerStore example_tenv) [ClaimOp 35999 ''b'' 30000]
         (snd (sqlite_claimDue 6000 ''a'' 30000 trigger_db1)) = (handed, d')
     \<and> tg_id t \<notin> tg_id ` set handed \<and> fst (sqlite_complete example_tenv (tg_id t) ''a'' 36500 d') \<noteq> Inr False"
proof -
  have "\<exists>t. fst (sqlite_claimDue 6000 ''a'' 30000 trigger_db1) = [t]"
  proof -
    have "length (fst (sqlite_claimDue 6000 ''a'' 30000 trigger_db1)) = 1" by code_simp
    then show ?thesis by (metis length_0_conv length_Suc_conv One_nat_def)
  qed
  then obtain t where t: "fst (sqlite_claimDue 6000 ''a'' 30000 trigger_db1) = [t]" by blast
  obtain handed d' where run: "perform_all (SqliteTriggerStore example_tenv) [ClaimOp 35999 ''b'' 30000]
      (snd (sqlite_claimDue 6000 ''a'' 30000 trigger_db1)) = (handed, d')" by fastforce
  have "t \<in> set (fst (sqlite_claimDue 6000 ''a'' 30000 trigger_db1))" by (simp add: t)
  from claimed_trigger_exclusive [OF trigger_db1_reachable this _ _ run, of 36500] t run show ?thesis by auto
qed

text \<open>When the claim is taken over after the lease has ended, the firing stays \<open>CLAIMED\<close> by the first
  owner for ever: \<open>INSERT OR IGNORE\<close> keeps its row, and the second owner's completion does not match it.\<close>

lemma taken_over_firing_stays_claimed:
  "let d1 = snd (sqlite_claimDue 6000 ''a'' 30000 trigger_db1);
       d2 = snd (sqlite_claimDue 36000 ''b'' 30000 d1);
       r = sqlite_complete example_tenv ''t'' ''b'' 36000 d2 in
   fst r = Inr True \<and> map (\<lambda>f. (fr_owner f, fr_status f)) (listFirings ''t'' (snd r)) = [(''a'', CLAIMED)]"
  by code_simp

theorem one_shot_fires_once_witness:
  "\<exists>handed d''. perform_all (SqliteTriggerStore example_tenv) [ClaimOp (10 ^ 17) ''b'' 30000]
     (snd (sqlite_complete example_tenv ''t'' ''a'' 6000 (snd (sqlite_claimDue 6000 ''a'' 30000
       (snd (sqlite_put example_tenv (example_trigger\<lparr>tg_oneShot := True\<rparr>) \<lparr>triggers = [], trigger_firings = []\<rparr>))))))
     = (handed, d'') \<and> ''t'' \<notin> tg_id ` set handed"
proof -
  let ?d0 = "snd (sqlite_put example_tenv (example_trigger\<lparr>tg_oneShot := True\<rparr>) \<lparr>triggers = [], trigger_firings = []\<rparr>)"
  let ?d = "snd (sqlite_claimDue 6000 ''a'' 30000 ?d0)"
  have reach: "trigger_reachable example_tenv ?d"
    using reachable_step [OF put_reachable trigger_step.operation [of _ _ "ClaimOp 6000 ''a'' 30000"]]
    by (simp add: SqliteTriggerStore_def)
  have "fst (sqlite_complete example_tenv ''t'' ''a'' 6000 ?d) = Inr True" by code_simp
  then have fired: "sqlite_complete example_tenv ''t'' ''a'' 6000 ?d
      = (Inr True, snd (sqlite_complete example_tenv ''t'' ''a'' 6000 ?d))" by (metis prod.collapse)
  have "list_ex (\<lambda>r. tr_id r = ''t'' \<and> tr_one_shot r) (triggers ?d)" by code_simp
  then have shot: "\<exists>r\<in>set (triggers ?d). tr_id r = ''t'' \<and> tr_one_shot r" by (simp add: list_ex_iff)
  obtain handed d'' where run: "perform_all (SqliteTriggerStore example_tenv) [ClaimOp (10 ^ 17) ''b'' 30000]
      (snd (sqlite_complete example_tenv ''t'' ''a'' 6000 ?d)) = (handed, d'')" by fastforce
  from one_shot_fires_once [OF reach fired shot run] run show ?thesis by blast
qed

theorem next_occurrence_on_grid_witness:
  "\<exists>n. nextOccurrence example_tenv example_trigger 8500 = Inr n \<and> 8500 < n \<and> n \<le> 9500"
proof -
  have valid: "validateTrigger (\<lambda>z. True) example_trigger = Inr ()" by code_simp
  have n: "nextOccurrence example_tenv example_trigger 8500 = Inr 9000" by code_simp
  have t: "\<not> tg_oneShot example_trigger" "tg_timeZone example_trigger = None" "tg_nextFireAt example_trigger \<le> 8500"
    "tg_missedRunPolicy example_trigger \<noteq> Some CatchUp"
    by (simp_all add: example_trigger_def)
  from next_occurrence_on_grid [OF valid t(1-3) n] t(4) obtain base :: num where "8500 < base" "base \<le> 9000" by auto
  with n show ?thesis by simp
qed

theorem daily_occurrence_shows_local_time_witness:
  "\<exists>n. nextDailyOccurrence (tv_wall example_tenv ''UTC'') ''09:30'' 1000 = Inr n
     \<and> tv_wall example_tenv ''UTC'' n - midnight (tv_wall example_tenv ''UTC'' n) = time_of_day ''09:30''"
proof -
  have n: "nextDailyOccurrence (tv_wall example_tenv ''UTC'') ''09:30'' 1000 = Inr 34200000" by code_simp
  from n daily_occurrence_shows_local_time [OF n] show ?thesis by blast
qed

end
