(* ===== verification/WorkspaceSnapshots.thy ===== *)
theory WorkspaceSnapshots
  imports StoreTables
begin

text \<open>
  The snapshots of a workspace, \<open>LocalWorkspaceSnapshotStore\<close> of \<open>packages/workspace/src/index.ts\<close>: three
  generations of one file and the staged file of a new one, changed by renames so that a crash
  at any moment leaves something to restore. A call of the file system is atomic, except for the
  writing of the staged file, which may be cut off anywhere.
\<close>

section \<open>Files and faults\<close>

record 'f snapshot_files =
  sf_current :: "'f option"
  sf_previous :: "'f option"
  sf_backup :: "'f option"
  sf_staging :: "'f option"

datatype snapshot_stage = AfterStagedWrite | AfterStagedVerify | AfterRotation | AfterPromotion

text \<open>The calls that change files; each may fail with an error of its own, and so may a stage of the
  fault injector.\<close>

datatype fs_call =
    WriteStaging
  | RemoveCurrent
  | RemoveBackup
  | MovePrevious
  | MoveCurrent
  | MoveBack
  | Promote
  | DropBackup
  | DropStaging
  | MakeDirectory
  | ReadStaging
  | ReadCurrent
  | Inject snapshot_stage

datatype snapshot_error =
    ArchiveTooLarge
  | NoEntry
  | HeaderMalformed
  | HeaderInvalid
  | IdentityInvalid
  | KeyUnavailable
  | ArchiveUnreadable
  | LengthMismatch
  | ContentMismatch
  | VerificationFailed
  | NoValidSnapshot
  | IoError fs_call

text \<open>The header of a file, and the record of a snapshot.\<close>

record snapshot_header =
  sh_schemaVersion :: int
  sh_workspaceId :: string
  sh_createdAt :: "timestamp option"
  sh_plaintextBytes :: int
  sh_sha256 :: string
  sh_nonce :: string
  sh_algorithm :: string
  sh_keyVersion :: "int option"
  sh_keyScope :: "string option"

record snapshot_record =
  sr_workspaceId :: string
  sr_sha256 :: string
  sr_plaintextBytes :: int
  sr_createdAt :: timestamp

text \<open>
  The outside. \<open>sx_key\<close> is the key provider (\<open>None\<close>: it throws), \<open>sx_legacyKey\<close> the optional older one, and
  \<open>sx_metadata\<close> the key scope it reports. \<open>sx_encode\<close> is the file that the pipeline of gzip and AES-GCM
  writes, \<open>sx_header\<close> parses the header of a file, and \<open>sx_decode\<close> deciphers, authenticates and unpacks
  the rest. \<open>sx_digest\<close> is SHA-256 and \<open>sx_size\<close> the length of an archive. \<open>sx_fails\<close> says which calls fail, and
  \<open>sx_torn\<close> is what is in the staged file while it is written.
\<close>

record ('f, 'a, 'k) snapshot_env =
  sx_key :: "string \<Rightarrow> 'k option"
  sx_legacyKey :: "(string \<Rightarrow> 'k option) option"
  sx_metadata :: "string option"
  sx_encode :: "'k \<Rightarrow> snapshot_header \<Rightarrow> 'a \<Rightarrow> 'f"
  sx_header :: "'f \<Rightarrow> snapshot_header option"
  sx_decode :: "'k \<Rightarrow> snapshot_header \<Rightarrow> 'f \<Rightarrow> 'a option"
  sx_digest :: "'a \<Rightarrow> string"
  sx_size :: "'a \<Rightarrow> nat"
  sx_maxArchiveBytes :: nat
  sx_fails :: "fs_call \<Rightarrow> bool"
  sx_torn :: 'f

section \<open>Keys and headers\<close>

definition STATIC :: string where "STATIC = ''static''"
definition WORKSPACE_DERIVED :: string where "WORKSPACE_DERIVED = ''workspace-derived''"

text \<open>\<open>DerivedSnapshotKeyProvider.getKey\<close>; \<open>hkdf\<close> derives the key from the root key and the label.\<close>

definition derived_key :: "(string \<Rightarrow> 'k) \<Rightarrow> string \<Rightarrow> 'k option" where
  "derived_key hkdf ws =
     (if trim ws = [] \<or> 512 < length ws \<or> (\<exists>c\<in>set ws. c \<in> set [CHR 0x00, CHR 0x0D, CHR 0x0A]) then None
      else Some (hkdf (''workspace:'' @ ws)))"

definition keyForHeader :: "('f, 'a, 'k) snapshot_env \<Rightarrow> string \<Rightarrow> snapshot_header \<Rightarrow> 'k option" where
  "keyForHeader x ws h =
     (if sh_keyScope h = Some WORKSPACE_DERIVED then sx_key x ws
      else case sx_legacyKey x of Some legacy \<Rightarrow> legacy ws | None \<Rightarrow> sx_key x ws)"

definition is_sha256 :: "string \<Rightarrow> bool" where
  "is_sha256 d \<longleftrightarrow> length d = 64 \<and> list_all (\<lambda>c. c \<in> set ''abcdef0123456789'') d"

definition validateSnapshotHeader :: "nat \<Rightarrow> snapshot_header \<Rightarrow> snapshot_error + snapshot_header" where
  "validateSnapshotHeader maxArchiveBytes h =
     (if sh_schemaVersion h \<noteq> 2 \<or> sh_workspaceId h = [] \<or> sh_createdAt h = None
        \<or> sh_plaintextBytes h < 0 \<or> int maxArchiveBytes < sh_plaintextBytes h \<or> \<not> is_sha256 (sh_sha256 h)
        \<or> length (sh_nonce h) \<noteq> 12 \<or> sh_algorithm h \<noteq> ''aes-256-gcm+gzip''
        \<or> sh_keyVersion h \<notin> {None, Some 1}
        \<or> sh_keyScope h \<notin> {None, Some STATIC, Some WORKSPACE_DERIVED}
      then Inl HeaderInvalid else Inr h)"

text \<open>The header of a new snapshot.\<close>

definition new_header :: "('f, 'a, 'k) snapshot_env \<Rightarrow> timestamp \<Rightarrow> string \<Rightarrow> string \<Rightarrow> 'a \<Rightarrow> snapshot_header" where
  "new_header x now nonce ws archive =
     \<lparr>sh_schemaVersion = 2, sh_workspaceId = ws, sh_createdAt = Some now,
       sh_plaintextBytes = int (sx_size x archive), sh_sha256 = sx_digest x archive, sh_nonce = nonce,
       sh_algorithm = ''aes-256-gcm+gzip'',
       sh_keyVersion = map_option (\<lambda>_. 1) (sx_metadata x), sh_keyScope = sx_metadata x\<rparr>"

section \<open>Programs over the files\<close>

text \<open>A program over the files: the states it went through, its result, and the files it leaves.\<close>

type_synonym ('f, 'b) file_program = "'f snapshot_files \<Rightarrow> 'f snapshot_files list \<times> (snapshot_error + 'b) \<times> 'f snapshot_files"

definition return_file :: "'b \<Rightarrow> ('f, 'b) file_program" where "return_file b s = ([], Inr b, s)"

definition throw_file :: "snapshot_error \<Rightarrow> ('f, 'b) file_program" where "throw_file e s = ([], Inl e, s)"

definition bind_file :: "('f, 'b) file_program \<Rightarrow> ('b \<Rightarrow> ('f, 'c) file_program) \<Rightarrow> ('f, 'c) file_program" where
  "bind_file f g s = (case f s of
     (seen, Inl e, s') \<Rightarrow> (seen, Inl e, s')
   | (seen, Inr b, s') \<Rightarrow> (case g b s' of (seen', r, s'') \<Rightarrow> (seen @ seen', r, s'')))"

text \<open>\<open>try { f } catch (e) { h(e) }\<close>\<close>

definition catch_file :: "('f, 'b) file_program \<Rightarrow> (snapshot_error \<Rightarrow> ('f, 'b) file_program) \<Rightarrow> ('f, 'b) file_program" where
  "catch_file f h s = (case f s of
     (seen, Inr b, s') \<Rightarrow> (seen, Inr b, s')
   | (seen, Inl e, s') \<Rightarrow> (case h e s' of (seen', r, s'') \<Rightarrow> (seen @ seen', r, s'')))"

text \<open>\<open>try { f } finally { g }\<close>: an error of \<open>g\<close> takes the place of the result.\<close>

definition finally_file :: "('f, 'b) file_program \<Rightarrow> ('f, unit) file_program \<Rightarrow> ('f, 'b) file_program" where
  "finally_file f g s = (case f s of (seen, r, s') \<Rightarrow> (case g s' of
     (seen', Inl e, s'') \<Rightarrow> (seen @ seen', Inl e, s'')
   | (seen', Inr u, s'') \<Rightarrow> (seen @ seen', r, s'')))"

definition call :: "('f, 'a, 'k) snapshot_env \<Rightarrow> fs_call \<Rightarrow> ('f snapshot_files \<Rightarrow> 'f snapshot_files) \<Rightarrow> ('f, unit) file_program" where
  "call x c change s = (if sx_fails x c then ([], Inl (IoError c), s) else ([change s], Inr (), change s))"

text \<open>A rename of a file that is not there fails with \<open>ENOENT\<close>.\<close>

definition rename_call ::
  "('f, 'a, 'k) snapshot_env \<Rightarrow> fs_call \<Rightarrow> ('f snapshot_files \<Rightarrow> 'f option) \<Rightarrow> ('f snapshot_files \<Rightarrow> 'f snapshot_files)
    \<Rightarrow> ('f, unit) file_program" where
  "rename_call x c source change s =
     (if source s = None \<and> \<not> sx_fails x c then ([], Inl NoEntry, s) else call x c change s)"

section \<open>Reading\<close>

text \<open>\<open>collectSnapshotArchive\<close>: what the pipeline unpacks must have the declared length.\<close>

definition collectSnapshotArchive :: "('f, 'a, 'k) snapshot_env \<Rightarrow> 'k \<Rightarrow> snapshot_header \<Rightarrow> 'f \<Rightarrow> snapshot_error + 'a" where
  "collectSnapshotArchive x k h f =
     bind_result (from_option ArchiveUnreadable (sx_decode x k h f)) (\<lambda>a.
       if int (sx_size x a) \<noteq> sh_plaintextBytes h \<or> sx_maxArchiveBytes x < sx_size x a then Inl LengthMismatch
       else Inr a)"

text \<open>\<open>#read\<close>; a file that is missing gives \<open>ENOENT\<close>.\<close>

definition read_snapshot :: "('f, 'a, 'k) snapshot_env \<Rightarrow> string \<Rightarrow> 'f option \<Rightarrow> snapshot_error + 'a" where
  "read_snapshot x ws file =
     bind_result (from_option NoEntry file) (\<lambda>f.
     bind_result (from_option HeaderMalformed (sx_header x f)) (\<lambda>raw.
     bind_result (validateSnapshotHeader (sx_maxArchiveBytes x) raw) (\<lambda>h.
     bind_result (throw_if (sh_workspaceId h \<noteq> ws) IdentityInvalid) (\<lambda>_.
     bind_result (from_option KeyUnavailable (keyForHeader x ws h)) (\<lambda>k.
     bind_result (collectSnapshotArchive x k h f) (\<lambda>a.
     bind_result (throw_if (sx_digest x a \<noteq> sh_sha256 h \<or> int (sx_size x a) \<noteq> sh_plaintextBytes h) ContentMismatch)
       (\<lambda>_. Inr a)))))))"

text \<open>\<open>restore\<close>: the archive, and whether it came from an older generation.\<close>

definition restore :: "('f, 'a, 'k) snapshot_env \<Rightarrow> string \<Rightarrow> 'f snapshot_files \<Rightarrow> snapshot_error + ('a \<times> bool)" where
  "restore x ws s =
     (case read_snapshot x ws (sf_current s) of
        Inr a \<Rightarrow> Inr (a, False)
      | Inl e \<Rightarrow> (case read_snapshot x ws (sf_previous s) of
          Inr a \<Rightarrow> Inr (a, True)
        | Inl e' \<Rightarrow> (case read_snapshot x ws (sf_backup s) of
            Inr a \<Rightarrow> Inr (a, True)
          | Inl e'' \<Rightarrow> Inl NoValidSnapshot)))"

definition hasCandidates :: "'f snapshot_files \<Rightarrow> bool" where
  "hasCandidates s \<longleftrightarrow> sf_current s \<noteq> None \<or> sf_previous s \<noteq> None \<or> sf_backup s \<noteq> None"

section \<open>Creating a snapshot\<close>

definition rm_current :: "'f snapshot_files \<Rightarrow> 'f snapshot_files" where "rm_current s = s\<lparr>sf_current := None\<rparr>"
definition rm_backup :: "'f snapshot_files \<Rightarrow> 'f snapshot_files" where "rm_backup s = s\<lparr>sf_backup := None\<rparr>"
definition rm_staging :: "'f snapshot_files \<Rightarrow> 'f snapshot_files" where "rm_staging s = s\<lparr>sf_staging := None\<rparr>"

definition previous_to_backup :: "'f snapshot_files \<Rightarrow> 'f snapshot_files" where
  "previous_to_backup s = s\<lparr>sf_backup := sf_previous s, sf_previous := None\<rparr>"

definition backup_to_previous :: "'f snapshot_files \<Rightarrow> 'f snapshot_files" where
  "backup_to_previous s = s\<lparr>sf_previous := sf_backup s, sf_backup := None\<rparr>"

definition current_to_previous :: "'f snapshot_files \<Rightarrow> 'f snapshot_files" where
  "current_to_previous s = s\<lparr>sf_previous := sf_current s, sf_current := None\<rparr>"

definition staging_to_current :: "'f snapshot_files \<Rightarrow> 'f snapshot_files" where
  "staging_to_current s = s\<lparr>sf_current := sf_staging s, sf_staging := None\<rparr>"

text \<open>\<open>createStreamingSnapshotPipeline\<close>: a write that fails removes the staged file again.\<close>

definition write_staging :: "('f, 'a, 'k) snapshot_env \<Rightarrow> 'k \<Rightarrow> snapshot_header \<Rightarrow> 'a \<Rightarrow> ('f, unit) file_program" where
  "write_staging x k h archive s =
     (let torn = s\<lparr>sf_staging := Some (sx_torn x)\<rparr>;
          written = s\<lparr>sf_staging := Some (sx_encode x k h archive)\<rparr> in
      if sx_fails x WriteStaging then ([torn, rm_staging s], Inl (IoError WriteStaging), rm_staging s)
      else ([torn, written], Inr (), written))"

text \<open>\<open>#verifySnapshotBeforeRotation\<close>\<close>

definition verify_staging :: "('f, 'a, 'k) snapshot_env \<Rightarrow> string \<Rightarrow> string \<Rightarrow> ('f, unit) file_program" where
  "verify_staging x ws expectedSha256 s =
     (case (if sx_fails x ReadStaging then Inl (IoError ReadStaging) else read_snapshot x ws (sf_staging s)) of
        Inl e \<Rightarrow> throw_file e s
      | Inr a \<Rightarrow> if sx_digest x a \<noteq> expectedSha256 then throw_file VerificationFailed s else return_file () s)"

text \<open>\<open>#rotateVerifiedSnapshots\<close>\<close>

definition rotate :: "('f, 'a, 'k) snapshot_env \<Rightarrow> string \<Rightarrow> ('f, unit) file_program" where
  "rotate x ws s =
     (case (if sx_fails x ReadCurrent then Inl (IoError ReadCurrent) else read_snapshot x ws (sf_current s)) of
        Inl e \<Rightarrow> if e = NoEntry then return_file () s else call x RemoveCurrent rm_current s
      | Inr a \<Rightarrow>
          bind_file (call x RemoveBackup rm_backup) (\<lambda>_.
          bind_file (catch_file
              (bind_file (rename_call x MovePrevious sf_previous previous_to_backup) (\<lambda>_. return_file True))
              (\<lambda>e. if e = NoEntry then return_file False else throw_file e)) (\<lambda>previousMoved.
          catch_file (rename_call x MoveCurrent sf_current current_to_previous) (\<lambda>e.
            bind_file (if previousMoved
                then catch_file (rename_call x MoveBack sf_backup backup_to_previous) (\<lambda>_. return_file ())
                else return_file ())
              (\<lambda>_. throw_file e)))) s)"

definition inject :: "('f, 'a, 'k) snapshot_env \<Rightarrow> snapshot_stage \<Rightarrow> ('f, unit) file_program" where
  "inject x stage s = (if sx_fails x (Inject stage) then ([], Inl (IoError (Inject stage)), s) else ([], Inr (), s))"

text \<open>The part of \<open>create\<close> that touches files, for the key and header it starts with.\<close>

definition commit :: "('f, 'a, 'k) snapshot_env \<Rightarrow> 'k \<Rightarrow> snapshot_header \<Rightarrow> string \<Rightarrow> 'a \<Rightarrow> ('f, unit) file_program" where
  "commit x k h ws archive =
     finally_file
       (bind_file (write_staging x k h archive) (\<lambda>_.
        bind_file (inject x AfterStagedWrite) (\<lambda>_.
        bind_file (verify_staging x ws (sh_sha256 h)) (\<lambda>_.
        bind_file (inject x AfterStagedVerify) (\<lambda>_.
        bind_file (rotate x ws) (\<lambda>_.
        bind_file (inject x AfterRotation) (\<lambda>_.
        bind_file (rename_call x Promote sf_staging staging_to_current) (\<lambda>_.
        bind_file (inject x AfterPromotion) (\<lambda>_.
          call x DropBackup rm_backup)))))))))
       (call x DropStaging rm_staging)"

definition create ::
  "('f, 'a, 'k) snapshot_env \<Rightarrow> timestamp \<Rightarrow> string \<Rightarrow> string \<Rightarrow> 'a \<Rightarrow> ('f, snapshot_record) file_program" where
  "create x now nonce ws archive =
     (if sx_maxArchiveBytes x < sx_size x archive then throw_file ArchiveTooLarge
      else case sx_key x ws of
        None \<Rightarrow> throw_file KeyUnavailable
      | Some k \<Rightarrow>
          let h = new_header x now nonce ws archive in
          bind_file (call x MakeDirectory id) (\<lambda>_.
          bind_file (commit x k h ws archive) (\<lambda>_.
            return_file \<lparr>sr_workspaceId = ws, sr_sha256 = sh_sha256 h,
              sr_plaintextBytes = int (sx_size x archive), sr_createdAt = now\<rparr>)))"

section \<open>A crash loses nothing\<close>

named_theorems file_defs \<open>the calls on the files\<close>

declare return_file_def [file_defs] throw_file_def [file_defs] bind_file_def [file_defs] catch_file_def [file_defs]
  finally_file_def [file_defs] call_def [file_defs] rename_call_def [file_defs] rm_current_def [file_defs]
  rm_backup_def [file_defs] rm_staging_def [file_defs] previous_to_backup_def [file_defs]
  backup_to_previous_def [file_defs] current_to_previous_def [file_defs] staging_to_current_def [file_defs]

text \<open>A triple: from a state with \<open>pre\<close>, every state on the way and at the end is \<open>good\<close>, and a normal end
  has \<open>post\<close>.\<close>

definition triple ::
  "('f snapshot_files \<Rightarrow> bool) \<Rightarrow> ('f snapshot_files \<Rightarrow> bool) \<Rightarrow> ('f, 'b) file_program \<Rightarrow> ('f snapshot_files \<Rightarrow> bool) \<Rightarrow> bool" where
  "triple good pre f post \<longleftrightarrow> (\<forall>s seen r s'. pre s \<longrightarrow> f s = (seen, r, s') \<longrightarrow>
     (\<forall>t\<in>set seen. good t) \<and> good s' \<and> (is_ok r \<longrightarrow> post s'))"

lemma triple_bind:
  "triple good pre f mid \<Longrightarrow> (\<And>b. triple good mid (g b) post) \<Longrightarrow> triple good pre (bind_file f g) post"
  unfolding triple_def bind_file_def
  by (clarsimp split: prod.splits sum.splits) (metis UnE is_ok.simps(2))+

lemma triple_unit_bind:
  "triple good pre f mid \<Longrightarrow> triple good mid g post \<Longrightarrow> triple good pre (bind_file f (\<lambda>_. g)) post"
  by (rule triple_bind)

lemma triple_finally:
  assumes "triple good pre f post" and "\<And>s. good s \<Longrightarrow> good (change s)" and "\<And>s. post s \<Longrightarrow> post (change s)"
  shows "triple good pre (finally_file f (call x c change)) post"
  using assms unfolding triple_def finally_file_def call_def
  by (clarsimp split: prod.splits sum.splits if_splits)

lemma triple_call:
  "(\<And>s. pre s \<Longrightarrow> good s \<and> good (change s) \<and> post (change s)) \<Longrightarrow> triple good pre (call x c change) post"
  by (auto simp: triple_def call_def)

lemma triple_rename:
  "(\<And>s. pre s \<Longrightarrow> good s \<and> good (change s) \<and> post (change s)) \<Longrightarrow> triple good pre (rename_call x c source change) post"
  by (auto simp: triple_def rename_call_def call_def split: if_splits)

lemma triple_inject: "(\<And>s. pre s \<Longrightarrow> good s \<and> post s) \<Longrightarrow> triple good pre (inject x stage) post"
  by (auto simp: triple_def inject_def split: if_splits)

text \<open>The archive that can be restored.\<close>

definition restorable :: "('f, 'a, 'k) snapshot_env \<Rightarrow> string \<Rightarrow> 'f snapshot_files \<Rightarrow> 'a option" where
  "restorable x ws s = (case restore x ws s of Inl e \<Rightarrow> None | Inr (a, recovered) \<Rightarrow> Some a)"

lemma restorable_staging [simp]: "restorable x ws (s\<lparr>sf_staging := f\<rparr>) = restorable x ws s"
  by (auto simp: restorable_def restore_def split: sum.split)

lemma restorable_current: "read_snapshot x ws (sf_current s) = Inr a \<Longrightarrow> restorable x ws s = Some a"
  by (simp add: restorable_def restore_def)

lemma no_file_no_entry [simp]: "read_snapshot x ws None = Inl NoEntry"
  by (simp add: read_snapshot_def)

lemma read_NoEntry [simp]: "read_snapshot x ws f = Inl NoEntry \<longleftrightarrow> f = None"
  by (cases f) (auto simp: read_snapshot_def collectSnapshotArchive_def validateSnapshotHeader_def result_simps
      split: sum.splits if_splits option.splits)

lemma rotate_valid:
  assumes "rotate x ws s = (seen, r, s')" and "\<not> sx_fails x ReadCurrent"
    and "read_snapshot x ws (sf_current s) = Inr a" and "t \<in> set seen \<union> {s'}"
  shows "sf_staging t = sf_staging s \<and> (sf_current t = sf_current s \<or> sf_current t = None \<and> sf_previous t = sf_current s)"
proof -
  have "sf_current s \<noteq> None" using assms(3) by (cases "sf_current s") auto
  with assms show ?thesis
    by (cases "sx_fails x RemoveBackup"; cases "sx_fails x MovePrevious"; cases "sx_fails x MoveCurrent")
      (auto simp: rotate_def file_defs split: if_splits)
qed

lemma rotate_invalid:
  assumes "rotate x ws s = (seen, r, s')" and "\<not> sx_fails x ReadCurrent"
    and "read_snapshot x ws (sf_current s) = Inl e" and "t \<in> set seen \<union> {s'}"
  shows "t = s \<or> t = rm_current s"
  using assms by (auto simp: rotate_def call_def return_file_def split: if_splits)

lemma rotate_restorable:
  assumes "rotate x ws s = (seen, r, s')" and "\<not> sx_fails x ReadCurrent" and "t \<in> set seen \<union> {s'}"
  shows "restorable x ws t = restorable x ws s \<and> sf_staging t = sf_staging s"
proof (cases "read_snapshot x ws (sf_current s)")
  case (Inl e)
  with rotate_invalid [OF assms(1,2) Inl assms(3)] show ?thesis
    by (elim disjE) (simp_all add: restorable_def restore_def rm_current_def split: sum.split)
next
  case (Inr a)
  with rotate_valid [OF assms(1,2) Inr assms(3)] show ?thesis
    by (elim conjE disjE) (simp_all add: restorable_def restore_def)
qed

lemma rotate_staging:
  assumes "rotate x ws s = (seen, r, s')"
  shows "sf_staging s' = sf_staging s"
  using assms
  by (cases "sx_fails x RemoveBackup"; cases "sx_fails x MovePrevious"; cases "sx_fails x MoveCurrent"; cases "sf_previous s")
    (auto simp: rotate_def file_defs split: if_splits sum.splits)

lemma rotate_triple:
  assumes "\<And>s. good s \<longleftrightarrow> restorable x ws s \<in> {Some archive, Some old}" and "\<not> sx_fails x ReadCurrent"
  shows "triple good (\<lambda>s. restorable x ws s = Some old \<and> sf_staging s = f) (rotate x ws)
    (\<lambda>s. restorable x ws s = Some old \<and> sf_staging s = f)"
  unfolding triple_def assms(1)
proof (intro allI impI)
  fix s seen r s'
  assume s: "restorable x ws s = Some old \<and> sf_staging s = f" and run: "rotate x ws s = (seen, r, s')"
  have "restorable x ws t = Some old \<and> sf_staging t = f" if "t \<in> set seen \<union> {s'}" for t
    using rotate_restorable [OF run assms(2) that] s by simp
  then show "(\<forall>t\<in>set seen. restorable x ws t \<in> {Some archive, Some old}) \<and> restorable x ws s' \<in> {Some archive, Some old}
      \<and> (is_ok r \<longrightarrow> restorable x ws s' = Some old \<and> sf_staging s' = f)" by simp
qed

lemma rotate_keeps_current:
  assumes "rotate x ws s = (seen, Inr u, s')" and "read_snapshot x ws (sf_current s) = Inr a" and "\<not> sx_fails x ReadCurrent"
  shows "read_snapshot x ws (sf_previous s') = Inr a"
proof -
  have "sf_current s \<noteq> None" using assms(2) by (cases "sf_current s") auto
  with assms show ?thesis
    by (cases "sx_fails x RemoveBackup"; cases "sx_fails x MovePrevious"; cases "sx_fails x MoveCurrent")
      (auto simp: rotate_def file_defs split: if_splits)
qed

lemma verified:
  assumes "verify_staging x ws digest s = (seen, r, s')"
  shows "seen = [] \<and> s' = s"
    and "is_ok r \<Longrightarrow> \<exists>a. read_snapshot x ws (sf_staging s) = Inr a \<and> sx_digest x a = digest"
  using assms by (auto simp: verify_staging_def file_defs split: sum.splits if_splits)

text \<open>The commit, for any property \<open>staged\<close> that the file to be promoted keeps until then.\<close>

lemma commit_rule:
  assumes same: "\<And>a. sx_digest x a = sx_digest x archive \<Longrightarrow> a = archive" and h: "sh_sha256 h = sx_digest x archive"
    and writes: "triple good pre (write_staging x k h archive) (staged (Some (sx_encode x k h archive)))"
    and rotated: "\<And>f. triple good (staged f) (rotate x ws) (staged f)"
    and staged: "\<And>f s. staged f s \<Longrightarrow> sf_staging s = f \<and> good s"
    and new: "\<And>s. read_snapshot x ws (sf_current s) = Inr archive \<Longrightarrow> good s"
    and unstaged: "\<And>s. good s \<Longrightarrow> good (rm_staging s)"
  shows "triple good pre (commit x k h ws archive) (\<lambda>s. read_snapshot x ws (sf_current s) = Inr archive)"
    (is "triple _ _ _ ?new")
proof -
  have pass: "triple good (staged f) (inject x stage) (staged f)" for stage f by (rule triple_inject) (simp add: staged)
  have rest: "triple good (\<lambda>s. staged f s \<and> read_snapshot x ws f = Inr archive)
      (bind_file (inject x AfterStagedVerify) (\<lambda>_. bind_file (rotate x ws) (\<lambda>_. bind_file (inject x AfterRotation) (\<lambda>_.
       bind_file (rename_call x Promote sf_staging staging_to_current) (\<lambda>_. bind_file (inject x AfterPromotion) (\<lambda>_.
         call x DropBackup rm_backup)))))) ?new" for f
  proof (cases "read_snapshot x ws f = Inr archive")
    case True
    have promote: "triple good (staged f) (rename_call x Promote sf_staging staging_to_current) ?new"
      by (rule triple_rename) (use staged new True in \<open>fastforce simp: staging_to_current_def\<close>)
    have promoted: "triple good ?new (inject x AfterPromotion) ?new"
      by (rule triple_inject) (simp add: new)
    have drop: "triple good ?new (call x DropBackup rm_backup) ?new"
      by (rule triple_call) (simp add: rm_backup_def new)
    have "triple good (staged f) (bind_file (inject x AfterStagedVerify) (\<lambda>_. bind_file (rotate x ws) (\<lambda>_.
       bind_file (inject x AfterRotation) (\<lambda>_. bind_file (rename_call x Promote sf_staging staging_to_current) (\<lambda>_.
       bind_file (inject x AfterPromotion) (\<lambda>_. call x DropBackup rm_backup)))))) ?new"
      by (rule triple_unit_bind [OF pass], rule triple_unit_bind [OF rotated], rule triple_unit_bind [OF pass],
          rule triple_unit_bind [OF promote], rule triple_unit_bind [OF promoted], rule drop)
    with True show ?thesis by simp
  qed (simp add: triple_def)
  have verify: "triple good (staged f) (verify_staging x ws (sh_sha256 h)) (\<lambda>s. staged f s \<and> read_snapshot x ws f = Inr archive)" for f
    unfolding triple_def using h by (auto dest: verified staged dest!: same)
  have files: "triple good pre
      (bind_file (write_staging x k h archive) (\<lambda>_. bind_file (inject x AfterStagedWrite) (\<lambda>_.
       bind_file (verify_staging x ws (sh_sha256 h)) (\<lambda>_. bind_file (inject x AfterStagedVerify) (\<lambda>_.
       bind_file (rotate x ws) (\<lambda>_. bind_file (inject x AfterRotation) (\<lambda>_.
       bind_file (rename_call x Promote sf_staging staging_to_current) (\<lambda>_. bind_file (inject x AfterPromotion) (\<lambda>_.
         call x DropBackup rm_backup))))))))) ?new"
    by (rule triple_unit_bind [OF writes], rule triple_unit_bind [OF pass], rule triple_unit_bind [OF verify], rule rest)
  show ?thesis unfolding commit_def
    by (rule triple_finally [OF files]) (simp_all add: unstaged, simp add: rm_staging_def)
qed

lemma commit_triple:
  assumes "\<And>a. sx_digest x a = sx_digest x archive \<Longrightarrow> a = archive" and "\<not> sx_fails x ReadCurrent"
    and "sh_sha256 h = sx_digest x archive"
  shows "triple (\<lambda>s. restorable x ws s \<in> {Some archive, Some old}) (\<lambda>s. restorable x ws s = Some old)
    (commit x k h ws archive) (\<lambda>s. read_snapshot x ws (sf_current s) = Inr archive)"
proof (rule commit_rule [OF assms(1,3)])
  show "triple (\<lambda>s. restorable x ws s \<in> {Some archive, Some old}) (\<lambda>s. restorable x ws s = Some old)
      (write_staging x k h archive) (\<lambda>s. restorable x ws s = Some old \<and> sf_staging s = Some (sx_encode x k h archive))"
    by (auto simp: triple_def write_staging_def Let_def rm_staging_def split: if_splits)
  show "triple (\<lambda>s. restorable x ws s \<in> {Some archive, Some old}) (\<lambda>s. restorable x ws s = Some old \<and> sf_staging s = f)
      (rotate x ws) (\<lambda>s. restorable x ws s = Some old \<and> sf_staging s = f)" for f
    by (rule rotate_triple) (use assms(2) in auto)
qed (auto simp: rm_staging_def dest: restorable_current)

text \<open>A snapshot that is reported as made can be read again, whatever was there before.\<close>

lemma create_commits:
  assumes "\<And>a. sx_digest x a = sx_digest x archive \<Longrightarrow> a = archive"
    and "create x now nonce ws archive s = (seen, Inr r, s')"
  shows "read_snapshot x ws (sf_current s') = Inr archive"
proof -
  obtain k where k: "sx_key x ws = Some k" using assms(2) by (auto simp: create_def throw_file_def split: if_splits option.splits)
  let ?h = "new_header x now nonce ws archive"
  have "triple (\<lambda>_. True) (\<lambda>_. True) (commit x k ?h ws archive) (\<lambda>s. read_snapshot x ws (sf_current s) = Inr archive)"
  proof (rule commit_rule [OF assms(1)])
    show "triple (\<lambda>_. True) (\<lambda>_. True) (write_staging x k ?h archive) (\<lambda>s. sf_staging s = Some (sx_encode x k ?h archive))"
      by (auto simp: triple_def write_staging_def Let_def)
    show "triple (\<lambda>_. True) (\<lambda>s. sf_staging s = f) (rotate x ws) (\<lambda>s. sf_staging s = f)" for f
      by (auto simp: triple_def dest: rotate_staging)
  qed (simp_all add: new_header_def)
  with assms(2) k show ?thesis
    by (auto simp: create_def Let_def triple_def bind_file_def return_file_def throw_file_def split: if_splits prod.splits sum.splits)
qed

text \<open>C25: A crash while a snapshot is written loses nothing. Let \<open>old\<close> be what could be restored before.
  Whichever calls of the file system fail, except for the read of an existing current file, and wherever
  \<open>create\<close> is cut off, even in the middle of the write of the staged file: what can be restored is \<open>old\<close>
  or the new archive. Nothing is assumed of the cipher, only that no other archive has the digest of
  the new one.\<close>

theorem snapshot_crash_safe:
  assumes "\<And>a. sx_digest x a = sx_digest x archive \<Longrightarrow> a = archive" and "\<not> sx_fails x ReadCurrent"
    and "restorable x ws s = Some old" and "create x now nonce ws archive s = (seen, r, s')" and "t \<in> set seen \<union> {s'}"
  shows "restorable x ws t \<in> {Some archive, Some old}"
proof (cases "sx_maxArchiveBytes x < sx_size x archive \<or> sx_key x ws = None")
  case True
  with assms show ?thesis by (auto simp: create_def file_defs split: option.splits if_splits)
next
  case False
  then obtain k where k: "sx_key x ws = Some k" by auto
  let ?h = "new_header x now nonce ws archive"
  let ?good = "\<lambda>s. restorable x ws s \<in> {Some archive, Some old}"
  have files: "triple ?good (\<lambda>s. restorable x ws s = Some old) (commit x k ?h ws archive)
      (\<lambda>s. read_snapshot x ws (sf_current s) = Inr archive)"
    by (rule commit_triple) (use assms in \<open>auto simp: new_header_def\<close>)
  have directory: "triple ?good (\<lambda>s. restorable x ws s = Some old) (call x MakeDirectory id) (\<lambda>s. restorable x ws s = Some old)"
    by (rule triple_call) simp
  have answer: "triple ?good (\<lambda>s. read_snapshot x ws (sf_current s) = Inr archive) (return_file b) (\<lambda>_. True)"
    for b :: snapshot_record
    by (auto simp: triple_def return_file_def dest: restorable_current)
  have "triple ?good (\<lambda>s. restorable x ws s = Some old) (create x now nonce ws archive) (\<lambda>_. True)"
    using False unfolding create_def k
    by (simp add: Let_def del: insert_iff)
      (rule triple_unit_bind [OF directory], rule triple_unit_bind [OF files], rule answer)
  with assms(3-5) show ?thesis unfolding triple_def by blast
qed

text \<open>The key the reader takes for a header of this configuration is the key it was written with.\<close>

definition can_reopen :: "('f, 'a, 'k) snapshot_env \<Rightarrow> string \<Rightarrow> 'k \<Rightarrow> bool" where
  "can_reopen x ws k \<longleftrightarrow> ws \<noteq> [] \<and> sx_key x ws = Some k
     \<and> (sx_metadata x = Some WORKSPACE_DERIVED \<or> sx_metadata x \<in> {None, Some STATIC} \<and> sx_legacyKey x = None)"

lemma written_reads:
  assumes "can_reopen x ws k" and "sx_size x a \<le> sx_maxArchiveBytes x" and "is_sha256 (sx_digest x a)" and "length nonce = 12"
    and "sx_header x f = Some (new_header x now nonce ws a)" and "sx_decode x k (new_header x now nonce ws a) f = Some a"
  shows "read_snapshot x ws (Some f) = Inr a"
  using assms
  by (auto simp: read_snapshot_def validateSnapshotHeader_def new_header_def keyForHeader_def can_reopen_def
      collectSnapshotArchive_def WORKSPACE_DERIVED_def STATIC_def)

text \<open>When no call fails, \<open>create\<close> of an archive within the limit succeeds. Then \<open>restore\<close> returns that
  archive from the current file; what was the current archive, if it was intact, is now the previous one,
  an older intact generation is not thrown away for a broken one, and neither a backup
  nor a staged file stays behind.\<close>

theorem snapshot_created:
  assumes "\<And>k h a. sx_header x (sx_encode x k h a) = Some h" and "\<And>k h a. sx_decode x k h (sx_encode x k h a) = Some a"
    and "\<And>c. \<not> sx_fails x c" and "can_reopen x ws k" and "sx_size x archive \<le> sx_maxArchiveBytes x"
    and "is_sha256 (sx_digest x archive)" and "length nonce = 12"
  shows "\<exists>seen r s'. create x now nonce ws archive s = (seen, Inr r, s') \<and> restore x ws s' = Inr (archive, False)
    \<and> sr_sha256 r = sx_digest x archive \<and> sf_staging s' = None \<and> sf_backup s' = None
    \<and> (case read_snapshot x ws (sf_current s) of
         Inr a \<Rightarrow> read_snapshot x ws (sf_previous s') = Inr a
       | Inl e \<Rightarrow> sf_previous s' = sf_previous s)"
proof -
  let ?h = "new_header x now nonce ws archive"
  have new [simp]: "read_snapshot x ws (Some (sx_encode x k ?h archive)) = Inr archive"
    by (rule written_reads [OF assms(4-7)]) (rule assms(1,2))+
  have h [simp]: "sh_sha256 ?h = sx_digest x archive" by (simp add: new_header_def)
  have key: "sx_key x ws = Some k" using assms(4) by (simp add: can_reopen_def)
  show ?thesis
    using assms(3,5) key
    by (cases "read_snapshot x ws (sf_current s)"; cases "sf_current s"; cases "sf_previous s")
      (auto simp: create_def commit_def write_staging_def inject_def verify_staging_def rotate_def file_defs restore_def Let_def)
qed

text \<open>A store of three archives whose files are a header and an archive, or rubbish, on which some calls fail.\<close>

datatype small_archive = Oldest | Old | New

definition plain_store :: "fs_call set \<Rightarrow> ((snapshot_header \<times> small_archive) option, small_archive, unit) snapshot_env" where
  "plain_store failing = \<lparr>sx_key = (\<lambda>ws. Some ()), sx_legacyKey = None, sx_metadata = Some WORKSPACE_DERIVED,
     sx_encode = (\<lambda>k h a. Some (h, a)), sx_header = map_option fst, sx_decode = (\<lambda>k h. map_option snd),
     sx_digest = (\<lambda>a. replicate 64 (case a of Oldest \<Rightarrow> CHR ''a'' | Old \<Rightarrow> CHR ''b'' | New \<Rightarrow> CHR ''c'')),
     sx_size = (\<lambda>a. 1), sx_maxArchiveBytes = 100, sx_fails = (\<lambda>c. c \<in> failing), sx_torn = None\<rparr>"

definition nonce0 :: string where "nonce0 = ''0123456789ab''"

definition snapshot_file :: "small_archive \<Rightarrow> (snapshot_header \<times> small_archive) option" where
  "snapshot_file a = Some (new_header (plain_store {}) 0 nonce0 ''ws'' a, a)"

definition three_generations :: "(snapshot_header \<times> small_archive) option snapshot_files" where
  "three_generations = \<lparr>sf_current = Some (snapshot_file Old), sf_previous = Some (snapshot_file Oldest),
     sf_backup = None, sf_staging = None\<rparr>"

lemma plain_sha256: "is_sha256 (sx_digest (plain_store F) a)"
  by (cases a) (simp_all add: is_sha256_def plain_store_def list_all_iff)

lemma plain_can_reopen: "can_reopen (plain_store F) ''ws'' ()"
  by (simp add: can_reopen_def plain_store_def)

lemma plain_header: "new_header (plain_store F) now nonce ws a = new_header (plain_store {}) now nonce ws a"
  by (simp add: new_header_def plain_store_def)

lemma plain_reads:
  "read_snapshot (plain_store F) ''ws'' (Some (Some (new_header (plain_store {}) now nonce0 ''ws'' a, a))) = Inr a"
  by (rule written_reads [OF plain_can_reopen _ plain_sha256, where nonce = nonce0 and now = now])
    (simp_all add: plain_store_def nonce0_def new_header_def)

lemma plain_read: "read_snapshot (plain_store F) ''ws'' (Some (snapshot_file a)) = Inr a"
  unfolding snapshot_file_def by (rule plain_reads)

lemma plain_restorable: "restorable (plain_store F) ''ws'' three_generations = Some Old" for F
  by (rule restorable_current) (simp add: three_generations_def plain_read)

lemma plain_digest: "sx_digest (plain_store F) a = sx_digest (plain_store F) b \<Longrightarrow> a = b"
  by (auto simp: plain_store_def split: small_archive.splits)

lemma snapshot_crash_safe_witness:
  "restorable (plain_store {Promote, MoveBack}) ''ws''
     (snd (snd (create (plain_store {Promote, MoveBack}) 5 nonce0 ''ws'' New three_generations))) \<in> {Some New, Some Old}"
proof -
  let ?x = "plain_store {Promote, MoveBack}"
  obtain seen r s' where run: "create ?x 5 nonce0 ''ws'' New three_generations = (seen, r, s')" by (metis prod_cases3)
  have "restorable ?x ''ws'' s' \<in> {Some New, Some Old}"
    by (rule snapshot_crash_safe [OF plain_digest _ plain_restorable run]) (simp_all add: plain_store_def)
  with run show ?thesis by simp
qed

text \<open>The read of the current file is an exception on purpose: any error but \<open>ENOENT\<close> makes the rotation delete
  that file, also a passing one (no file handle, no key). When the promotion fails then, the newest
  snapshot is lost, and an older one is restored.\<close>

lemma unreadable_current_is_deleted:
  "restorable (plain_store {ReadCurrent, Promote}) ''ws''
     (snd (snd (create (plain_store {ReadCurrent, Promote}) 5 nonce0 ''ws'' New three_generations))) = Some Oldest"
proof -
  let ?x = "plain_store {ReadCurrent, Promote}"
  have "sx_encode ?x () (new_header ?x 5 nonce0 ''ws'' New) New = Some (new_header (plain_store {}) 5 nonce0 ''ws'' New, New)"
    by (simp add: plain_store_def new_header_def)
  moreover have "sx_key ?x ''ws'' = Some ()" "sx_fails ?x c \<longleftrightarrow> c \<in> {ReadCurrent, Promote}" "sx_size ?x New \<le> sx_maxArchiveBytes ?x"
    "sh_sha256 (new_header ?x 5 nonce0 ''ws'' New) = sx_digest ?x New" for c
    by (simp_all add: plain_store_def new_header_def)
  ultimately show ?thesis
    by (simp add: create_def commit_def write_staging_def verify_staging_def rotate_def inject_def file_defs Let_def
        three_generations_def restorable_def restore_def plain_read plain_reads)
qed

lemma snapshot_created_witness:
  "restore (plain_store {}) ''ws'' (snd (snd (create (plain_store {}) 5 nonce0 ''ws'' New three_generations))) = Inr (New, False)"
proof -
  have "\<exists>seen r s'. create (plain_store {}) 5 nonce0 ''ws'' New three_generations = (seen, Inr r, s')
      \<and> restore (plain_store {}) ''ws'' s' = Inr (New, False)"
    using snapshot_created [OF _ _ _ plain_can_reopen _ plain_sha256, of "{}" New nonce0 5 three_generations]
    by (auto simp: plain_store_def nonce0_def)
  then show ?thesis by auto
qed

end
