(* ===== verification/WorkspaceLifecycle.thy ===== *)
theory WorkspaceLifecycle
  imports WorkspaceSnapshots StoreRecords
begin

text \<open>
  \<open>ManagedWorkspaceLifecycle\<close> of \<open>packages/workspace/src/index.ts\<close>: before a run the files of its workspace
  are brought back into a volume of the runtime, after it they are exported and a snapshot is made. The
  progress is the state of the workspace in the database, moved by compare and set, so that a crash
  can be told from the state that is left.
\<close>

section \<open>State and surroundings\<close>

text \<open>The database, the snapshot files of the workspace, and the volumes of the runtime.\<close>

record ('f, 'w) lifecycle =
  ly_db :: db
  ly_files :: "'f snapshot_files"
  ly_world :: 'w

datatype lifecycle_error =
    Aborted
  | WorkspaceUnavailable string
  | WorkspaceCorrupt string
  | RequiresRecovery string
  | StateChanged workspace_state workspace_state
  | RuntimeFailed string
  | SnapshotFailed snapshot_error
  | SnapshotDeferred string
  | LifecycleStoreFailed store_error

text \<open>
  The runtime of the workspaces works on its volumes; while it is awaited, others may change the
  database (\<open>lx_others\<close>) and the run may be aborted. \<open>lx_deferred\<close> is the refusal of the compaction queue,
  \<open>lx_sha256\<close> the digest of the JSON text of a list of strings.
\<close>

record ('f, 'a, 'k, 'w) lifecycle_env =
  lx_snapshots :: "('f, 'a, 'k) snapshot_env"
  lx_sha256 :: "string list \<Rightarrow> string"
  lx_exists :: "string \<Rightarrow> resource_owner \<Rightarrow> 'w \<Rightarrow> (string + bool) \<times> 'w"
  lx_export :: "string \<Rightarrow> resource_owner \<Rightarrow> 'w \<Rightarrow> (string + 'a) \<times> 'w"
  lx_import :: "string \<Rightarrow> 'a \<Rightarrow> resource_owner \<Rightarrow> 'w \<Rightarrow> (string + unit) \<times> 'w"
  lx_remove :: "string \<Rightarrow> resource_owner \<Rightarrow> 'w \<Rightarrow> (string + bool) \<times> 'w"
  lx_others :: "'w \<Rightarrow> db \<Rightarrow> db"
  lx_aborted :: "'w \<Rightarrow> bool"
  lx_deferred :: "'w \<Rightarrow> string option"
  lx_now :: timestamp
  lx_nonce :: string

record lifecycle_owner =
  lo_workspaceId :: string
  lo_owner :: resource_owner

definition workspaceSnapshotIdentity :: "('f, 'a, 'k, 'w) lifecycle_env \<Rightarrow> lifecycle_owner \<Rightarrow> string" where
  "workspaceSnapshotIdentity env run =
     ''owned-'' @ lx_sha256 env [appId (lo_owner run), tenantId (lo_owner run), userId (lo_owner run), lo_workspaceId run]"

section \<open>Steps\<close>

type_synonym ('f, 'w, 'b) lifecycle_step = "('f, 'w) lifecycle \<Rightarrow> (lifecycle_error + 'b) \<times> ('f, 'w) lifecycle"

definition ly_return :: "'b \<Rightarrow> ('f, 'w, 'b) lifecycle_step" where "ly_return b s = (Inr b, s)"

definition ly_throw :: "lifecycle_error \<Rightarrow> ('f, 'w, 'b) lifecycle_step" where "ly_throw e s = (Inl e, s)"

definition ly_bind :: "('f, 'w, 'b) lifecycle_step \<Rightarrow> ('b \<Rightarrow> ('f, 'w, 'c) lifecycle_step) \<Rightarrow> ('f, 'w, 'c) lifecycle_step" where
  "ly_bind m g s = (case m s of (Inl e, s') \<Rightarrow> (Inl e, s') | (Inr b, s') \<Rightarrow> g b s')"

definition ly_catch :: "('f, 'w, 'b) lifecycle_step \<Rightarrow> (lifecycle_error \<Rightarrow> ('f, 'w, 'b) lifecycle_step) \<Rightarrow> ('f, 'w, 'b) lifecycle_step" where
  "ly_catch m h s = (case m s of (Inl e, s') \<Rightarrow> h e s' | (Inr b, s') \<Rightarrow> (Inr b, s'))"

text \<open>An awaited operation of the runtime.\<close>

definition on_runtime ::
  "('f, 'a, 'k, 'w) lifecycle_env \<Rightarrow> ('w \<Rightarrow> (string + 'b) \<times> 'w) \<Rightarrow> ('f, 'w, 'b) lifecycle_step" where
  "on_runtime env f s = (case f (ly_world s) of (r, w) \<Rightarrow>
     ((case r of Inl e \<Rightarrow> Inl (RuntimeFailed e) | Inr b \<Rightarrow> Inr b),
      s\<lparr>ly_world := w, ly_db := lx_others env w (ly_db s)\<rparr>))"

definition throwIfAborted :: "('f, 'a, 'k, 'w) lifecycle_env \<Rightarrow> ('f, 'w, unit) lifecycle_step" where
  "throwIfAborted env s = (if lx_aborted env (ly_world s) then (Inl Aborted, s) else (Inr (), s))"

text \<open>\<open>#workspace\<close> and \<open>#transition\<close>\<close>

definition the_workspace :: "lifecycle_owner \<Rightarrow> ('f, 'w, workspace_record) lifecycle_step" where
  "the_workspace run s = (case getWorkspace (lo_workspaceId run) (lo_owner run) (ly_db s) of
     None \<Rightarrow> (Inl (WorkspaceUnavailable (lo_workspaceId run)), s)
   | Some w \<Rightarrow> (Inr w, s))"

definition move ::
  "('f, 'a, 'k, 'w) lifecycle_env \<Rightarrow> lifecycle_owner \<Rightarrow> workspace_state \<Rightarrow> workspace_state
    \<Rightarrow> ('f, 'w, workspace_record) lifecycle_step" where
  "move env run expected state s =
     (case updateWorkspaceState (lx_now env) (lo_workspaceId run) (lo_owner run) expected state (ly_db s) of
        Inl e \<Rightarrow> (Inl (LifecycleStoreFailed e), s)
      | Inr (updated, d) \<Rightarrow> (case updated of
          None \<Rightarrow> (Inl (StateChanged expected state), s\<lparr>ly_db := d\<rparr>)
        | Some w \<Rightarrow> (Inr w, s\<lparr>ly_db := d\<rparr>)))"

definition has_candidates :: "('f, 'w, bool) lifecycle_step" where
  "has_candidates s = (Inr (hasCandidates (ly_files s)), s)"

definition exists_volume :: "('f, 'a, 'k, 'w) lifecycle_env \<Rightarrow> lifecycle_owner \<Rightarrow> ('f, 'w, bool) lifecycle_step" where
  "exists_volume env run = on_runtime env (lx_exists env (lo_workspaceId run) (lo_owner run))"

section \<open>Before a run\<close>

text \<open>The snapshot is read, and put into the volume; the answer tells whether an older one was taken.\<close>

definition restore_files :: "('f, 'a, 'k, 'w) lifecycle_env \<Rightarrow> lifecycle_owner \<Rightarrow> ('f, 'w, 'a \<times> bool) lifecycle_step" where
  "restore_files env run s =
     ((case restore (lx_snapshots env) (workspaceSnapshotIdentity env run) (ly_files s) of
         Inl e \<Rightarrow> Inl (SnapshotFailed e) | Inr r \<Rightarrow> Inr r), s)"

definition restoring ::
  "('f, 'a, 'k, 'w) lifecycle_env \<Rightarrow> lifecycle_owner \<Rightarrow> workspace_state \<Rightarrow> ('f, 'w, workspace_state \<times> bool \<times> bool) lifecycle_step" where
  "restoring env run st =
     (let fallback = (if st = COLD then COLD else WARM) in
      ly_bind (if st \<noteq> RESTORING then ly_bind (move env run st RESTORING) (\<lambda>_. ly_return ()) else ly_return ()) (\<lambda>_.
      ly_catch
        (ly_bind (restore_files env run) (\<lambda>(archive, fromPrevious).
         ly_bind (throwIfAborted env) (\<lambda>_.
         ly_bind (on_runtime env (lx_import env (lo_workspaceId run) archive (lo_owner run))) (\<lambda>_.
         ly_bind (move env run RESTORING WARM) (\<lambda>w.
           ly_return (ws_state w, True, fromPrevious))))))
        (\<lambda>e s. if lx_aborted env (ly_world s)
           then ly_bind (move env run RESTORING fallback) (\<lambda>_. ly_throw e) s
           else ly_bind has_candidates (\<lambda>c.
                ly_bind (move env run RESTORING (if c then CORRUPT else ERROR)) (\<lambda>_. ly_throw e)) s)))"

text \<open>A workspace left in \<open>ERROR\<close>, or by a crash in \<open>IN_USE\<close> or \<open>SNAPSHOTTING\<close>.\<close>

definition recover_error :: "('f, 'a, 'k, 'w) lifecycle_env \<Rightarrow> lifecycle_owner \<Rightarrow> ('f, 'w, workspace_state) lifecycle_step" where
  "recover_error env run =
     ly_bind (exists_volume env run) (\<lambda>there.
     if there then ly_bind (move env run ERROR WARM) (\<lambda>w. ly_return (ws_state w))
     else ly_bind has_candidates (\<lambda>c.
       if c then ly_bind (move env run ERROR RESTORING) (\<lambda>w. ly_return (ws_state w))
       else ly_throw (RequiresRecovery (lo_workspaceId run))))"

definition prepare :: "('f, 'a, 'k, 'w) lifecycle_env \<Rightarrow> lifecycle_owner \<Rightarrow> ('f, 'w, bool \<times> bool) lifecycle_step" where
  "prepare env run =
     ly_bind (throwIfAborted env) (\<lambda>_.
     ly_bind (the_workspace run) (\<lambda>w.
     if ws_mode w = RegisteredBind then ly_return (False, False)
     else if ws_state w = CORRUPT then ly_throw (WorkspaceCorrupt (lo_workspaceId run))
     else
       ly_bind (if ws_state w = ERROR then recover_error env run else ly_return (ws_state w)) (\<lambda>st.
       ly_bind (if st = IN_USE \<or> st = SNAPSHOTTING
           then ly_bind (move env run st WARM) (\<lambda>w. ly_return (ws_state w)) else ly_return st) (\<lambda>st.
       ly_bind (if st = WARM then ly_bind (exists_volume env run) (\<lambda>there. ly_return (\<not> there)) else ly_return False)
         (\<lambda>missing.
       ly_bind has_candidates (\<lambda>c.
       ly_bind (if st = COLD \<or> st = RESTORING \<or> missing \<and> c then restoring env run st else ly_return (st, False, False))
         (\<lambda>(st, restored, fromPrevious).
       ly_bind (move env run st IN_USE) (\<lambda>_.
         ly_return (restored, fromPrevious)))))))))"

section \<open>After a run\<close>

record checkpoint_result =
  cp_state :: workspace_state
  cp_snapshot :: "snapshot_record option"
  cp_skipped :: bool

definition create_snapshot :: "('f, 'a, 'k, 'w) lifecycle_env \<Rightarrow> lifecycle_owner \<Rightarrow> 'a \<Rightarrow> ('f, 'w, snapshot_record) lifecycle_step" where
  "create_snapshot env run archive s =
     (case create (lx_snapshots env) (lx_now env) (lx_nonce env) (workspaceSnapshotIdentity env run) archive (ly_files s) of
        (seen, r, f) \<Rightarrow> ((case r of Inl e \<Rightarrow> Inl (SnapshotFailed e) | Inr b \<Rightarrow> Inr b), s\<lparr>ly_files := f\<rparr>))"

text \<open>The job, which the compaction queue may refuse to start. The queue lets a caller join an active or waiting job of the same
  workspace and hands it the snapshot of that job (\<open>WorkspaceQueue\<close>). Here every checkpoint has a job of its own: the
  transition to \<open>SNAPSHOTTING\<close> keeps a second checkpoint of a workspace out while the first waits for its job, unless
  \<open>prepare\<close> has taken the workspace over meanwhile.\<close>

definition snapshot_job :: "('f, 'a, 'k, 'w) lifecycle_env \<Rightarrow> lifecycle_owner \<Rightarrow> ('f, 'w, snapshot_record) lifecycle_step" where
  "snapshot_job env run s =
     (case lx_deferred env (ly_world s) of
        Some why \<Rightarrow> ly_throw (SnapshotDeferred why) s
      | None \<Rightarrow> ly_bind (on_runtime env (lx_export env (lo_workspaceId run) (lo_owner run))) (create_snapshot env run) s)"

definition checkpoint ::
  "('f, 'a, 'k, 'w) lifecycle_env \<Rightarrow> lifecycle_owner \<Rightarrow> bool \<Rightarrow> ('f, 'w, checkpoint_result) lifecycle_step" where
  "checkpoint env run makeCold =
     ly_bind (throwIfAborted env) (\<lambda>_.
     ly_bind (the_workspace run) (\<lambda>w.
     if ws_mode w = RegisteredBind then ly_return \<lparr>cp_state = WARM, cp_snapshot = None, cp_skipped = True\<rparr>
     else
       ly_bind (move env run IN_USE SNAPSHOTTING) (\<lambda>_.
       ly_catch
         (ly_bind (snapshot_job env run) (\<lambda>snapshot.
          if makeCold then
            ly_bind (on_runtime env (lx_remove env (lo_workspaceId run) (lo_owner run))) (\<lambda>_.
            ly_bind (move env run SNAPSHOTTING COLD) (\<lambda>_.
              ly_return \<lparr>cp_state = COLD, cp_snapshot = Some snapshot, cp_skipped = False\<rparr>))
          else
            ly_bind (move env run SNAPSHOTTING WARM) (\<lambda>_.
              ly_return \<lparr>cp_state = WARM, cp_snapshot = Some snapshot, cp_skipped = False\<rparr>)))
         (\<lambda>e. ly_bind (move env run SNAPSHOTTING ERROR) (\<lambda>_. ly_throw e)))))"

named_theorems ly_defs \<open>the steps of the lifecycle\<close>

declare ly_return_def [ly_defs] ly_throw_def [ly_defs] ly_bind_def [ly_defs] ly_catch_def [ly_defs]
  on_runtime_def [ly_defs] throwIfAborted_def [ly_defs] the_workspace_def [ly_defs]
  has_candidates_def [ly_defs] exists_volume_def [ly_defs] restore_files_def [ly_defs] create_snapshot_def [ly_defs]
  snapshot_job_def [ly_defs]

end
