(* ===== verification/WorkspaceProperties.thy ===== *)
theory WorkspaceProperties
  imports WorkspaceLifecycle StoreGuarantees
begin

text \<open>
  What the lifecycle of a workspace guarantees: the states it leaves behind, that a snapshot is
  complete before the volume is removed, and that a workspace put away is brought back as it was.
\<close>

section \<open>Moving between states\<close>

definition workspace_keys_distinct :: "db \<Rightarrow> bool" where
  "workspace_keys_distinct d \<longleftrightarrow> distinct (map (\<lambda>w. (wr_owner w, wr_id w)) (workspaces d))"

text \<open>The workspace of a run in a database: its mode and its state.\<close>

definition workspace_of :: "lifecycle_owner \<Rightarrow> db \<Rightarrow> (workspace_mode \<times> workspace_state) option" where
  "workspace_of run d = map_option (\<lambda>w. (ws_mode w, ws_state w)) (getWorkspace (lo_workspaceId run) (lo_owner run) d)"

lemma workspace_of_Some:
  "workspace_of run d = Some (m, st) \<longleftrightarrow>
     (\<exists>w. getWorkspace (lo_workspaceId run) (lo_owner run) d = Some w \<and> ws_mode w = m \<and> ws_state w = st)"
  by (auto simp: workspace_of_def)

lemma update_keeps_keys:
  assumes "workspace_keys_distinct d" and "updateWorkspaceState now i ow expected st d = Inr (res, d')"
  shows "workspace_keys_distinct d'"
  using assms by (auto simp: workspace_keys_distinct_def updateWorkspaceState_def Let_def map_update_rows_frame)

text \<open>What a transition does, with an answer for every case.\<close>

lemma move_spec:
  assumes "workspace_keys_distinct (ly_db s)" and "move env run expected st s = (r, s')"
  shows "ly_files s' = ly_files s \<and> ly_world s' = ly_world s \<and> workspace_keys_distinct (ly_db s')
    \<and> (case workspace_of run (ly_db s) of
         Some (m, st0) \<Rightarrow> if st0 = expected
           then workspace_of run (ly_db s') = Some (m, st) \<and> (\<exists>w. r = Inr w \<and> ws_state w = st)
           else s' = s \<and> r = Inl (StateChanged expected st)
       | None \<Rightarrow> s' = s \<and> r = Inl (StateChanged expected st))"
proof -
  obtain res d' where u: "updateWorkspaceState (lx_now env) (lo_workspaceId run) (lo_owner run) expected st (ly_db s) = Inr (res, d')"
    by (auto simp: updateWorkspaceState_def Let_def)
  have s': "s' = s\<lparr>ly_db := d'\<rparr>" and r: "r = (case res of None \<Rightarrow> Inl (StateChanged expected st) | Some w \<Rightarrow> Inr w)"
    using assms(2) by (auto simp: move_def u split: option.splits)
  have reread: "res = Some w \<Longrightarrow> getWorkspace (lo_workspaceId run) (lo_owner run) d' = Some w" for w
    using u by (auto simp: updateWorkspaceState_def Let_def split: if_splits)
  have keys: "workspace_keys_distinct d'" by (rule update_keeps_keys [OF assms(1) u])
  note outcome = workspace_compare_and_set [OF assms(1) [unfolded workspace_keys_distinct_def] u]
  show ?thesis
  proof (cases "find_workspace (lo_owner run) (lo_workspaceId run) (ly_db s)")
    case None
    with outcome keys show ?thesis by (simp add: s' r workspace_of_def getWorkspace_def)
  next
    case (Some w)
    with outcome keys reread show ?thesis
      by (auto simp: s' r workspace_of_def getWorkspace_def toWorkspace_def)
  qed
qed

lemma move_state:
  assumes "move env run expected st s = (Inr w, s')" and "workspace_keys_distinct (ly_db s)"
  shows "\<exists>m. workspace_of run (ly_db s') = Some (m, st)" and "ws_state w = st"
  using move_spec [OF assms(2,1)] by (auto split: option.splits if_splits)

section \<open>Triples with a condition for errors\<close>

definition ly_triple ::
  "(('f, 'w) lifecycle \<Rightarrow> bool) \<Rightarrow> ('f, 'w, 'b) lifecycle_step \<Rightarrow> ('b \<Rightarrow> ('f, 'w) lifecycle \<Rightarrow> bool)
    \<Rightarrow> (lifecycle_error \<Rightarrow> ('f, 'w) lifecycle \<Rightarrow> bool) \<Rightarrow> bool" where
  "ly_triple P m Q E \<longleftrightarrow> (\<forall>s. P s \<longrightarrow> (case m s of (Inl e, s') \<Rightarrow> E e s' | (Inr b, s') \<Rightarrow> Q b s'))"

lemma ly_bind_rule:
  "ly_triple P m Q E \<Longrightarrow> (\<And>b. ly_triple (Q b) (g b) R E) \<Longrightarrow> ly_triple P (ly_bind m g) R E"
  unfolding ly_triple_def ly_bind_def by (fastforce split: prod.splits sum.splits)

lemma ly_catch_rule:
  "ly_triple P m Q F \<Longrightarrow> (\<And>e. ly_triple (F e) (h e) Q E) \<Longrightarrow> ly_triple P (ly_catch m h) Q E"
  unfolding ly_triple_def ly_catch_def by (fastforce split: prod.splits sum.splits)

lemma ly_return_rule: "(\<And>s. P s \<Longrightarrow> Q b s) \<Longrightarrow> ly_triple P (ly_return b) Q E"
  by (simp add: ly_triple_def ly_return_def)

lemma ly_throw_rule: "(\<And>s. P s \<Longrightarrow> E e s) \<Longrightarrow> ly_triple P (ly_throw e) Q E"
  by (simp add: ly_triple_def ly_throw_def)

lemma ly_if_rule:
  "(c \<Longrightarrow> ly_triple P m Q E) \<Longrightarrow> (\<not> c \<Longrightarrow> ly_triple P n Q E) \<Longrightarrow> ly_triple P (if c then m else n) Q E"
  by simp

lemma ly_choice_rule:
  "ly_triple P m Q E \<Longrightarrow> ly_triple P n Q E \<Longrightarrow> ly_triple P (\<lambda>s. if c s then m s else n s) Q E"
  by (simp add: ly_triple_def)

lemma ly_conseq:
  "ly_triple P m Q E \<Longrightarrow> (\<And>s. P' s \<Longrightarrow> P s) \<Longrightarrow> (\<And>b s. Q b s \<Longrightarrow> Q' b s) \<Longrightarrow> (\<And>e s. E e s \<Longrightarrow> E' e s)
    \<Longrightarrow> ly_triple P' m Q' E'"
  unfolding ly_triple_def by (fastforce split: prod.splits sum.splits)

lemma ly_tripleD:
  "ly_triple P m Q E \<Longrightarrow> P s \<Longrightarrow> m s = (r, s') \<Longrightarrow> (case r of Inl e \<Rightarrow> E e s' | Inr b \<Rightarrow> Q b s')"
  unfolding ly_triple_def by (fastforce split: prod.splits sum.splits)

section \<open>A prepared workspace is in use\<close>

text \<open>The others that change the database while an operation is awaited keep the key of the table.\<close>

definition keeps_keys :: "('f, 'a, 'k, 'w) lifecycle_env \<Rightarrow> bool" where
  "keeps_keys env \<longleftrightarrow> (\<forall>w d. workspace_keys_distinct d \<longrightarrow> workspace_keys_distinct (lx_others env w d))"

abbreviation keys :: "('f, 'w) lifecycle \<Rightarrow> bool" where
  "keys s \<equiv> workspace_keys_distinct (ly_db s)"

lemma keys_move:
  "ly_triple keys (move env run expected st) (\<lambda>w s. keys s \<and> (\<exists>m. workspace_of run (ly_db s) = Some (m, st))) (\<lambda>e s. keys s)"
  unfolding ly_triple_def
  by (auto split: prod.splits sum.splits dest: move_spec move_state)

lemma keys_moved: "keys s \<Longrightarrow> move env run expected st s = (r, s') \<Longrightarrow> keys s'"
  by (simp add: move_spec)

lemma keys_steps:
  assumes "keeps_keys env"
  shows "ly_triple keys (on_runtime env f) (\<lambda>b. keys) (\<lambda>e. keys)"
    and "ly_triple keys (exists_volume env run) (\<lambda>b. keys) (\<lambda>e. keys)"
    and "ly_triple keys (throwIfAborted env) (\<lambda>b. keys) (\<lambda>e. keys)"
    and "ly_triple keys (the_workspace run) (\<lambda>b. keys) (\<lambda>e. keys)"
    and "ly_triple keys has_candidates (\<lambda>b. keys) (\<lambda>e. keys)"
    and "ly_triple keys (restore_files env run) (\<lambda>b. keys) (\<lambda>e. keys)"
    and "ly_triple keys (move env run expected st) (\<lambda>b. keys) (\<lambda>e. keys)"
  using assms
  by (auto simp: ly_triple_def ly_defs keeps_keys_def split: prod.splits sum.splits option.splits dest: keys_moved)

lemma keys_if_move:
  "keeps_keys env \<Longrightarrow> ly_triple keys (ly_bind (move env run expected st) (\<lambda>w. ly_return (f w))) (\<lambda>b. keys) (\<lambda>e. keys)"
  by (rule ly_bind_rule, rule keys_steps, assumption, rule ly_return_rule)

lemma keys_restoring:
  assumes "keeps_keys env"
  shows "ly_triple keys (restoring env run st) (\<lambda>b. keys) (\<lambda>e. keys)"
proof -
  note steps = keys_steps [OF assms]
  have failed: "ly_triple keys (ly_bind (move env run RESTORING st') (\<lambda>_. ly_throw e)) (\<lambda>b. keys) (\<lambda>e. keys)" for st' e
    by (rule ly_bind_rule, rule steps) (simp add: ly_throw_rule)
  have settled: "ly_triple keys (ly_bind has_candidates (\<lambda>c. ly_bind (move env run RESTORING (if c then CORRUPT else ERROR)) (\<lambda>_. ly_throw e)))
      (\<lambda>b. keys) (\<lambda>e. keys)" for e
    by (rule ly_bind_rule, rule steps, rule failed)
  have handler: "ly_triple keys (\<lambda>s. if lx_aborted env (ly_world s)
           then ly_bind (move env run RESTORING fallback) (\<lambda>_. ly_throw e) s
           else ly_bind has_candidates (\<lambda>c. ly_bind (move env run RESTORING (if c then CORRUPT else ERROR)) (\<lambda>_. ly_throw e)) s)
       (\<lambda>b. keys) (\<lambda>e. keys)" for fallback e
    by (rule ly_choice_rule [OF failed settled])
  show ?thesis unfolding restoring_def Let_def
    by (rule ly_bind_rule, rule ly_if_rule, rule keys_if_move [OF assms], simp add: ly_return_rule,
        rule ly_catch_rule, rule ly_bind_rule, rule steps, clarsimp, rule ly_bind_rule, rule steps, rule ly_bind_rule,
        rule steps, rule keys_if_move [OF assms], rule handler)
qed

text \<open>When \<open>prepare\<close> returns, the workspace of the run is \<open>IN_USE\<close> (or it is a registered directory, which
  has no lifecycle), whatever the runtime, the file system and others that share the database did meanwhile.\<close>

theorem prepared_workspace_in_use:
  assumes "keeps_keys env" and "workspace_keys_distinct (ly_db s)" and "prepare env run s = (Inr r, s')"
  shows "workspace_of run (ly_db s') \<in> {Some (RegisteredBind, st) | st. True} \<union> {Some (m, IN_USE) | m. True}"
proof -
  note steps = keys_steps [OF assms(1)]
  let ?used = "\<lambda>b s. workspace_of run (ly_db s) \<in> {Some (RegisteredBind, st) | st. True} \<union> {Some (m, IN_USE) | m. True}"
  have registered: "ly_triple keys (the_workspace run)
      (\<lambda>w s. keys s \<and> workspace_of run (ly_db s) = Some (ws_mode w, ws_state w)) (\<lambda>e. keys)"
    by (auto simp: ly_triple_def the_workspace_def workspace_of_def split: option.splits)
  have last_move: "ly_triple keys (ly_bind (move env run st IN_USE) (\<lambda>_. ly_return b)) ?used (\<lambda>e. keys)" for st b
    by (rule ly_bind_rule, rule keys_move) (auto intro: ly_return_rule)
  have recover: "ly_triple keys (recover_error env run) (\<lambda>b. keys) (\<lambda>e. keys)"
    unfolding recover_error_def
    by (rule ly_bind_rule, rule steps, rule ly_if_rule, rule keys_if_move [OF assms(1)], rule ly_bind_rule, rule steps,
        rule ly_if_rule, rule keys_if_move [OF assms(1)]) (simp add: ly_throw_rule)
  have managed: "ly_triple keys
       (ly_bind (if ws_state w = ERROR then recover_error env run else ly_return (ws_state w)) (\<lambda>st.
       ly_bind (if st = IN_USE \<or> st = SNAPSHOTTING
           then ly_bind (move env run st WARM) (\<lambda>w. ly_return (ws_state w)) else ly_return st) (\<lambda>st.
       ly_bind (if st = WARM then ly_bind (exists_volume env run) (\<lambda>there. ly_return (\<not> there)) else ly_return False)
         (\<lambda>missing.
       ly_bind has_candidates (\<lambda>c.
       ly_bind (if st = COLD \<or> st = RESTORING \<or> missing \<and> c then restoring env run st else ly_return (st, False, False))
         (\<lambda>(st, restored, fromPrevious).
       ly_bind (move env run st IN_USE) (\<lambda>_.
         ly_return (restored, fromPrevious)))))))) ?used (\<lambda>e. keys)" for w
  proof (rule ly_bind_rule [where Q = "\<lambda>b. keys"], rule ly_if_rule [OF recover], simp add: ly_return_rule,
      rule ly_bind_rule [where Q = "\<lambda>b. keys"], rule ly_if_rule [OF keys_if_move [OF assms(1)]], simp add: ly_return_rule,
      rule ly_bind_rule [where Q = "\<lambda>b. keys"])
    fix st
    show "ly_triple keys (if st = WARM then ly_bind (exists_volume env run) (\<lambda>there. ly_return (\<not> there)) else ly_return False)
        (\<lambda>b. keys) (\<lambda>e. keys)"
      by (rule ly_if_rule, rule ly_bind_rule, rule steps) (simp_all add: ly_return_rule)
  next
    fix st missing
    have end_move: "ly_triple keys (case r of (st, restored, fromPrevious) \<Rightarrow>
        ly_bind (move env run st IN_USE) (\<lambda>_. ly_return (restored, fromPrevious))) ?used (\<lambda>e. keys)" for r
      by (cases r) (use last_move in simp)
    show "ly_triple keys (ly_bind has_candidates (\<lambda>c.
       ly_bind (if st = COLD \<or> st = RESTORING \<or> missing \<and> c then restoring env run st else ly_return (st, False, False))
         (\<lambda>(st, restored, fromPrevious).
       ly_bind (move env run st IN_USE) (\<lambda>_. ly_return (restored, fromPrevious))))) ?used (\<lambda>e. keys)"
      by (rule ly_bind_rule, rule steps, rule ly_bind_rule [OF _ end_move],
          rule ly_if_rule [OF keys_restoring [OF assms(1)]]) (simp add: ly_return_rule)
  qed
  have "ly_triple keys (prepare env run) ?used (\<lambda>e. keys)"
    unfolding prepare_def
    by (rule ly_bind_rule, rule steps, rule ly_bind_rule, rule registered, rule ly_if_rule, rule ly_return_rule, simp,
        rule ly_if_rule, rule ly_throw_rule, simp, rule ly_conseq [OF managed]) simp_all
  from ly_tripleD [OF this assms(2,3)] show ?thesis by simp
qed

section \<open>No files are lost\<close>

text \<open>The files of the workspace in the runtime are a volume: an export answers with them and leaves
  them, an import replaces them.\<close>

definition exports_volume :: "('f, 'a, 'k, 'w) lifecycle_env \<Rightarrow> lifecycle_owner \<Rightarrow> ('w \<Rightarrow> 'a option) \<Rightarrow> bool" where
  "exports_volume env run volume \<longleftrightarrow> (\<forall>w r w'. lx_export env (lo_workspaceId run) (lo_owner run) w = (r, w') \<longrightarrow>
     volume w' = volume w \<and> (\<forall>a. r = Inr a \<longrightarrow> volume w = Some a))"

definition imports_volume :: "('f, 'a, 'k, 'w) lifecycle_env \<Rightarrow> lifecycle_owner \<Rightarrow> ('w \<Rightarrow> 'a option) \<Rightarrow> bool" where
  "imports_volume env run volume \<longleftrightarrow>
     (\<forall>w a. \<exists>w'. lx_import env (lo_workspaceId run) a (lo_owner run) w = (Inr (), w') \<and> volume w' = Some a)"

definition snapshot_holds :: "('f, 'a, 'k, 'w) lifecycle_env \<Rightarrow> lifecycle_owner \<Rightarrow> 'a \<Rightarrow> 'f snapshot_files \<Rightarrow> bool" where
  "snapshot_holds env run a files \<longleftrightarrow>
     read_snapshot (lx_snapshots env) (workspaceSnapshotIdentity env run) (sf_current files) = Inr a"

lemma move_frame: "move env run expected st s = (r, s') \<Longrightarrow> ly_world s' = ly_world s \<and> ly_files s' = ly_files s"
  by (auto simp: move_def split: sum.splits option.splits)

lemma move_keeps:
  "(\<And>s d. P (s\<lparr>ly_db := d\<rparr>) = P s) \<Longrightarrow> ly_triple P (move env run expected st) (\<lambda>w. P) (\<lambda>e. P)"
  by (auto simp: ly_triple_def move_def split: prod.splits sum.splits option.splits)

lemma snapshot_job_rule:
  assumes "exports_volume env run volume" and "\<And>b. sx_digest (lx_snapshots env) b = sx_digest (lx_snapshots env) a \<Longrightarrow> b = a"
  shows "ly_triple (\<lambda>s. volume (ly_world s) = Some a) (snapshot_job env run)
    (\<lambda>r s. volume (ly_world s) = Some a \<and> snapshot_holds env run a (ly_files s)) (\<lambda>e s. volume (ly_world s) = Some a)"
proof -
  have export: "ly_triple (\<lambda>s. volume (ly_world s) = Some a) (on_runtime env (lx_export env (lo_workspaceId run) (lo_owner run)))
      (\<lambda>b s. volume (ly_world s) = Some a \<and> b = a) (\<lambda>e s. volume (ly_world s) = Some a)"
    using assms(1) by (fastforce simp: ly_triple_def on_runtime_def exports_volume_def split: prod.splits sum.splits)
  have make: "ly_triple (\<lambda>s. volume (ly_world s) = Some a \<and> b = a) (create_snapshot env run b)
      (\<lambda>r s. volume (ly_world s) = Some a \<and> snapshot_holds env run a (ly_files s)) (\<lambda>e s. volume (ly_world s) = Some a)" for b
    by (clarsimp simp: ly_triple_def create_snapshot_def snapshot_holds_def split: prod.splits sum.splits)
      (rule create_commits [OF assms(2)], simp_all)
  show ?thesis
    using ly_bind_rule [OF export make] by (simp add: ly_triple_def snapshot_job_def ly_throw_def split: option.splits)
qed

text \<open>C24: A checkpoint loses no files. When the volume of the workspace holds \<open>a\<close> and \<open>checkpoint\<close> has ended, with a result
  or an error, the volume still holds \<open>a\<close> or the current snapshot does; after a result that was not
  skipped the snapshot does, so the volume is removed only when a readable snapshot exists.\<close>

theorem checkpoint_keeps_files:
  assumes "exports_volume env run volume"
    and "\<And>b. sx_digest (lx_snapshots env) b = sx_digest (lx_snapshots env) a \<Longrightarrow> b = a"
    and "volume (ly_world s) = Some a" and "checkpoint env run makeCold s = (r, s')"
  shows "(volume (ly_world s') = Some a \<or> snapshot_holds env run a (ly_files s'))
    \<and> (\<forall>c. r = Inr c \<longrightarrow> cp_skipped c \<or> snapshot_holds env run a (ly_files s'))"
proof -
  let ?vol = "\<lambda>s. volume (ly_world s) = Some a" and ?snap = "\<lambda>s. snapshot_holds env run a (ly_files s)"
  note job = snapshot_job_rule [OF assms(1,2)]
  have removed: "ly_triple ?snap (on_runtime env f) (\<lambda>b. ?snap) (\<lambda>e. ?snap)" for f
    by (auto simp: ly_triple_def on_runtime_def split: prod.splits)
  have moves: "ly_triple ?snap (ly_bind (move env run st st') (\<lambda>_. ly_return b)) (\<lambda>b. ?snap) (\<lambda>e. ?snap)" for st st' b
    by (rule ly_bind_rule, rule move_keeps) (simp_all add: ly_return_rule)
  have failed: "ly_triple (\<lambda>s. ?vol s \<or> ?snap s) (ly_bind (move env run st st') (\<lambda>_. ly_throw e)) Q (\<lambda>e s. ?vol s \<or> ?snap s)"
    for st st' e Q
    by (rule ly_bind_rule, rule move_keeps) (simp_all add: ly_throw_rule)
  have work: "ly_triple ?vol (ly_bind (snapshot_job env run) (\<lambda>snapshot.
          if makeCold then
            ly_bind (on_runtime env (lx_remove env (lo_workspaceId run) (lo_owner run))) (\<lambda>_.
            ly_bind (move env run SNAPSHOTTING COLD) (\<lambda>_.
              ly_return \<lparr>cp_state = COLD, cp_snapshot = Some snapshot, cp_skipped = False\<rparr>))
          else
            ly_bind (move env run SNAPSHOTTING WARM) (\<lambda>_.
              ly_return \<lparr>cp_state = WARM, cp_snapshot = Some snapshot, cp_skipped = False\<rparr>)))
      (\<lambda>c. ?snap) (\<lambda>e s. ?vol s \<or> ?snap s)"
    by (rule ly_bind_rule [where Q = "\<lambda>r. ?snap"], rule ly_conseq [OF job], simp_all)
      (auto intro: ly_conseq [OF ly_bind_rule [OF removed moves]] ly_conseq [OF moves])
  have "ly_triple ?vol (checkpoint env run makeCold) (\<lambda>c s. ?vol s \<and> cp_skipped c \<or> ?snap s) (\<lambda>e s. ?vol s \<or> ?snap s)"
    unfolding checkpoint_def
    by (rule ly_bind_rule [where Q = "\<lambda>r. ?vol"], simp add: ly_triple_def throwIfAborted_def,
        rule ly_bind_rule [where Q = "\<lambda>r. ?vol"], simp add: ly_triple_def the_workspace_def split: option.splits,
        rule ly_if_rule, simp add: ly_return_rule,
        rule ly_bind_rule [where Q = "\<lambda>r. ?vol"], rule ly_conseq [OF move_keeps [where P = ?vol]], simp_all,
        rule ly_conseq [OF ly_catch_rule [OF work failed]], simp_all)
  from ly_tripleD [OF this assms(3,4)] show ?thesis by (auto split: sum.splits)
qed

lemma ly_bind_Inr: "ly_bind m g s = (Inr c, s'') \<longleftrightarrow> (\<exists>b s'. m s = (Inr b, s') \<and> g b s' = (Inr c, s''))"
  by (auto simp: ly_bind_def split: prod.splits sum.splits)

lemma ly_bind_Inl:
  "ly_bind m g s = (Inl e, s'') \<longleftrightarrow> m s = (Inl e, s'') \<or> (\<exists>b s'. m s = (Inr b, s') \<and> g b s' = (Inl e, s''))"
  by (auto simp: ly_bind_def split: prod.splits sum.splits)

lemma on_runtime_alone:
  "(\<And>w d. lx_others env w d = d) \<Longrightarrow> on_runtime env f s = (r, s') \<Longrightarrow> ly_db s' = ly_db s \<and> ly_files s' = ly_files s"
  by (auto simp: on_runtime_def split: prod.splits)

lemma snapshot_job_alone:
  assumes "\<And>w d. lx_others env w d = d" and "snapshot_job env run s = (r, s')"
  shows "ly_db s' = ly_db s"
  using assms(2) on_runtime_alone [OF assms(1)]
  by (fastforce simp: snapshot_job_def ly_bind_def create_snapshot_def ly_throw_def split: option.splits prod.splits sum.splits)

text \<open>Alone with the database, a transition from the state the workspace is in succeeds.\<close>

lemma move_forward:
  assumes "keys s" and "workspace_of run (ly_db s) = Some (m, expected)"
  obtains w d where "move env run expected st s = (Inr w, s\<lparr>ly_db := d\<rparr>)" and "ws_state w = st"
    and "workspace_keys_distinct d" and "workspace_of run d = Some (m, st)"
proof -
  obtain r s' where run: "move env run expected st s = (r, s')" by fastforce
  from move_spec [OF assms(1) run] assms(2)
  obtain w where w: "r = Inr w" "ws_state w = st" "workspace_of run (ly_db s') = Some (m, st)"
    and frame: "ly_files s' = ly_files s" "ly_world s' = ly_world s" "keys s'" by auto
  have "s' = s\<lparr>ly_db := ly_db s'\<rparr>" using frame by (cases s, cases s') simp
  with w frame run show ?thesis by (intro that [of w "ly_db s'"]) simp_all
qed

text \<open>C26: A workspace that was put away comes back as it was. When a cold checkpoint of a workspace whose volume holds
  \<open>a\<close> has succeeded, the next \<open>prepare\<close>, whatever became of the volume meanwhile, restores exactly \<open>a\<close>
  from the current snapshot and puts the workspace \<open>IN_USE\<close>, as long as nobody else changes the database, the
  import works and the run is not aborted.\<close>

theorem cold_checkpoint_roundtrip:
  assumes "exports_volume env run volume" and "imports_volume env run volume"
    and "\<And>b. sx_digest (lx_snapshots env) b = sx_digest (lx_snapshots env) a \<Longrightarrow> b = a"
    and "\<And>w d. lx_others env w d = d" and "\<And>w. \<not> lx_aborted env w"
    and "workspace_keys_distinct (ly_db s)" and "workspace_of run (ly_db s) = Some (Managed, IN_USE)"
    and "volume (ly_world s) = Some a" and "checkpoint env run True s = (Inr c, s')"
  shows "cp_state c = COLD \<and> (\<exists>s''. prepare env run (s'\<lparr>ly_world := w\<rparr>) = (Inr (True, False), s'')
    \<and> volume (ly_world s'') = Some a \<and> workspace_of run (ly_db s'') = Some (Managed, IN_USE))"
proof -
  obtain w1 d1 where m1: "move env run IN_USE SNAPSHOTTING s = (Inr w1, s\<lparr>ly_db := d1\<rparr>)"
    and d1: "workspace_keys_distinct d1" "workspace_of run d1 = Some (Managed, SNAPSHOTTING)"
    by (rule move_forward [OF assms(6,7)])
  obtain row where row: "getWorkspace (lo_workspaceId run) (lo_owner run) (ly_db s) = Some row" "ws_mode row = Managed"
    using assms(7) by (auto simp: workspace_of_Some)
  obtain snapshot s2 s3 b where job: "snapshot_job env run (s\<lparr>ly_db := d1\<rparr>) = (Inr snapshot, s2)"
    and remove: "on_runtime env (lx_remove env (lo_workspaceId run) (lo_owner run)) s2 = (Inr b, s3)"
    and last_move: "\<exists>w. move env run SNAPSHOTTING COLD s3 = (Inr w, s')"
    and c: "c = \<lparr>cp_state = COLD, cp_snapshot = Some snapshot, cp_skipped = False\<rparr>"
    using assms(9) row m1 assms(5)
    by (auto simp: checkpoint_def ly_bind_Inr throwIfAborted_def the_workspace_def ly_catch_def ly_return_def
        split: prod.splits sum.splits) (auto simp: ly_bind_Inr ly_bind_Inl ly_throw_def)
  have db: "ly_db s2 = d1" "ly_db s3 = d1" and files: "ly_files s3 = ly_files s2"
    using snapshot_job_alone [OF assms(4) job] on_runtime_alone [OF assms(4) remove] by simp_all
  have "snapshot_holds env run a (ly_files s2)"
    using ly_tripleD [OF snapshot_job_rule [OF assms(1,3)] _ job] assms(8) by simp
  then have holds: "snapshot_holds env run a (ly_files s')"
    using files last_move by (auto dest: move_frame)
  have s': "workspace_keys_distinct (ly_db s')" "workspace_of run (ly_db s') = Some (Managed, COLD)"
    using last_move move_spec [of s3 env run SNAPSHOTTING COLD] d1 db by auto
  let ?s1 = "s'\<lparr>ly_world := w\<rparr>"
  have keys1: "keys ?s1" and cold: "workspace_of run (ly_db ?s1) = Some (Managed, COLD)" using s' by simp_all
  obtain v1 e1 where n1: "move env run COLD RESTORING ?s1 = (Inr v1, ?s1\<lparr>ly_db := e1\<rparr>)"
    and e1: "workspace_keys_distinct e1" "workspace_of run e1 = Some (Managed, RESTORING)"
    by (rule move_forward [OF keys1 cold])
  have read: "restore_files env run (?s1\<lparr>ly_db := e1\<rparr>) = (Inr (a, False), ?s1\<lparr>ly_db := e1\<rparr>)"
    using holds by (simp add: restore_files_def restore_def snapshot_holds_def)
  obtain w' where w': "lx_import env (lo_workspaceId run) a (lo_owner run) w = (Inr (), w')" "volume w' = Some a"
    using assms(2) by (auto simp: imports_volume_def)
  let ?s2 = "?s1\<lparr>ly_db := e1, ly_world := w'\<rparr>"
  have imported: "on_runtime env (lx_import env (lo_workspaceId run) a (lo_owner run)) (?s1\<lparr>ly_db := e1\<rparr>) = (Inr (), ?s2)"
    using w'(1) assms(4) by (simp add: on_runtime_def)
  obtain v2 e2 where n2: "move env run RESTORING WARM ?s2 = (Inr v2, ?s2\<lparr>ly_db := e2\<rparr>)" and v2: "ws_state v2 = WARM"
    and e2: "workspace_keys_distinct e2" "workspace_of run e2 = Some (Managed, WARM)"
    by (rule move_forward [of ?s2]) (use e1 in simp_all)
  obtain v3 e3 where n3: "move env run WARM IN_USE (?s2\<lparr>ly_db := e2\<rparr>) = (Inr v3, ?s2\<lparr>ly_db := e2, ly_db := e3\<rparr>)"
    and e3: "workspace_of run e3 = Some (Managed, IN_USE)"
    by (rule move_forward [of "?s2\<lparr>ly_db := e2\<rparr>"]) (use e2 in simp_all)
  have restored: "restoring env run COLD ?s1 = (Inr (WARM, True, False), ?s2\<lparr>ly_db := e2\<rparr>)"
    using assms(5) v2 n1 read imported n2
    by (simp add: restoring_def ly_catch_def ly_bind_def throwIfAborted_def ly_return_def)
  have "prepare env run ?s1 = (Inr (True, False), ?s2\<lparr>ly_db := e3\<rparr>)"
    using cold assms(5) restored n3
    by (auto simp: prepare_def ly_bind_def throwIfAborted_def the_workspace_def has_candidates_def ly_return_def workspace_of_Some)
  with w'(2) e3 c show ?thesis by simp
qed

section \<open>An example\<close>

text \<open>A runtime with one volume.\<close>

definition one_volume :: "((snapshot_header \<times> small_archive) option, small_archive, unit, small_archive option) lifecycle_env" where
  "one_volume = \<lparr>lx_snapshots = plain_store {}, lx_sha256 = (\<lambda>l. ''ws''),
     lx_exists = (\<lambda>i ow w. (Inr (w \<noteq> None), w)), lx_export = (\<lambda>i ow w. (from_option ''no volume'' w, w)),
     lx_import = (\<lambda>i a ow w. (Inr (), Some a)), lx_remove = (\<lambda>i ow w. (Inr True, None)), lx_others = (\<lambda>w d. d),
     lx_aborted = (\<lambda>w. False), lx_deferred = (\<lambda>w. None), lx_now = 9, lx_nonce = nonce0\<rparr>"

definition example_lo :: lifecycle_owner where "example_lo = \<lparr>lo_workspaceId = ''w'', lo_owner = example_owner\<rparr>"

definition one_workspace :: "workspace_state \<Rightarrow> db" where
  "one_workspace st = empty_db\<lparr>workspaces := [\<lparr>wr_internal_id = ''i'', wr_id = ''w'', wr_owner = example_owner, wr_mode = Managed,
     wr_state = st, wr_registered_path = None, wr_created_at = 1, wr_updated_at = 1\<rparr>]\<rparr>"

definition example_ly :: "((snapshot_header \<times> small_archive) option, small_archive option) lifecycle" where
  "example_ly = \<lparr>ly_db = one_workspace IN_USE,
     ly_files = \<lparr>sf_current = None, sf_previous = None, sf_backup = None, sf_staging = None\<rparr>, ly_world = Some New\<rparr>"

lemma one_volume_laws:
  "exports_volume one_volume run id" "imports_volume one_volume run id" "keeps_keys one_volume"
  "lx_others one_volume w d = d" "\<not> lx_aborted one_volume w" "lx_snapshots one_volume = plain_store {}"
  by (auto simp: one_volume_def exports_volume_def imports_volume_def keeps_keys_def)

lemma example_workspace:
  "workspace_keys_distinct (one_workspace st)" "workspace_of example_lo (one_workspace st) = Some (Managed, st)"
  by (simp_all add: workspace_keys_distinct_def one_workspace_def workspace_of_def getWorkspace_def find_workspace_def
      toWorkspace_def example_lo_def)

lemma example_checkpoint:
  "case fst (checkpoint one_volume example_lo True example_ly) of Inl e \<Rightarrow> False | Inr c \<Rightarrow> \<not> cp_skipped c"
  by code_simp

lemma example_checkpoint_run:
  obtains c s' where "checkpoint one_volume example_lo True example_ly = (Inr c, s')" and "\<not> cp_skipped c"
  using example_checkpoint
  by (cases "checkpoint one_volume example_lo True example_ly"; cases "fst (checkpoint one_volume example_lo True example_ly)") auto

lemma prepared_workspace_in_use_witness:
  "workspace_of example_lo (ly_db (snd (prepare one_volume example_lo example_ly))) \<in>
     {Some (RegisteredBind, st) | st. True} \<union> {Some (m, IN_USE) | m. True}"
proof -
  have "is_ok (fst (prepare one_volume example_lo example_ly))" by code_simp
  then obtain r s' where run: "prepare one_volume example_lo example_ly = (Inr r, s')"
    by (cases "prepare one_volume example_lo example_ly"; cases "fst (prepare one_volume example_lo example_ly)") auto
  have "workspace_keys_distinct (ly_db example_ly)" by (simp add: example_ly_def example_workspace)
  from prepared_workspace_in_use [OF one_volume_laws(3) this run] run show ?thesis by simp
qed

lemma checkpoint_keeps_files_witness:
  "snapshot_holds one_volume example_lo New (ly_files (snd (checkpoint one_volume example_lo True example_ly)))"
proof -
  obtain c s' where run: "checkpoint one_volume example_lo True example_ly = (Inr c, s')" and c: "\<not> cp_skipped c"
    by (rule example_checkpoint_run)
  have "snapshot_holds one_volume example_lo New (ly_files s')"
    using checkpoint_keeps_files [OF one_volume_laws(1) _ _ run, of New] c
    by (auto simp: one_volume_laws example_ly_def dest: plain_digest)
  with run show ?thesis by simp
qed

lemma cold_checkpoint_roundtrip_witness:
  "\<exists>s''. prepare one_volume example_lo ((snd (checkpoint one_volume example_lo True example_ly))\<lparr>ly_world := None\<rparr>)
      = (Inr (True, False), s'') \<and> ly_world s'' = Some New"
proof -
  obtain c s' where run: "checkpoint one_volume example_lo True example_ly = (Inr c, s')"
    by (rule example_checkpoint_run)
  with cold_checkpoint_roundtrip [OF one_volume_laws(1,2) _ one_volume_laws(4,5) _ _ _ run, of New None] show ?thesis
    by (auto simp: one_volume_laws example_ly_def example_workspace dest: plain_digest)
qed

end
