(* ===== verification/WorkspaceQueue.thy ===== *)
theory WorkspaceQueue
  imports Prelude "HOL-Library.Multiset"
begin

text \<open>
  \<open>SnapshotCompactorQueue\<close> of \<open>packages/workspace/src/index.ts\<close>: jobs that make snapshots, at most a few at a time and one
  per workspace; who asks for a workspace that is queued or being worked on shares that job. The end of a job comes
  in two parts, because the promise settles the waiters first and removes the job in a later turn.
\<close>

section \<open>The queue\<close>

text \<open>\<open>sq_settled\<close> lists the waiters that were answered, and whether with a snapshot; \<open>sq_answered\<close> the jobs whose
  waiters were answered and that are not removed yet.\<close>

record snapshot_queue =
  sq_pending :: "(string \<times> nat list) list"
  sq_active :: "(string \<times> nat list) list"
  sq_running :: nat
  sq_closed :: bool
  sq_answered :: "string list"
  sq_settled :: "(nat \<times> bool) list"

definition new_queue :: snapshot_queue where
  "new_queue = \<lparr>sq_pending = [], sq_active = [], sq_running = 0, sq_closed = False, sq_answered = [], sq_settled = []\<rparr>"

text \<open>The loop of \<open>#drain\<close>: the oldest entries become active while there is room.\<close>

primrec drain_loop :: "nat \<Rightarrow> (string \<times> nat list) list \<Rightarrow> snapshot_queue \<Rightarrow> snapshot_queue" where
  "drain_loop maxConcurrent [] q = q\<lparr>sq_pending := []\<rparr>"
| "drain_loop maxConcurrent (e # es) q =
     (if sq_running q < maxConcurrent
      then drain_loop maxConcurrent es (q\<lparr>sq_running := sq_running q + 1, sq_active := sq_active q @ [e]\<rparr>)
      else q\<lparr>sq_pending := e # es\<rparr>)"

definition drain :: "nat \<Rightarrow> snapshot_queue \<Rightarrow> snapshot_queue" where
  "drain maxConcurrent q = (if sq_closed q then q else drain_loop maxConcurrent (sq_pending q) q)"

definition add_waiter :: "string \<Rightarrow> nat \<Rightarrow> (string \<times> nat list) list \<Rightarrow> (string \<times> nat list) list" where
  "add_waiter i w es = map (\<lambda>(j, ws). if j = i then (j, ws @ [w]) else (j, ws)) es"

definition enqueue_snapshot :: "nat \<Rightarrow> string \<Rightarrow> nat \<Rightarrow> snapshot_queue \<Rightarrow> snapshot_queue" where
  "enqueue_snapshot maxConcurrent i w q =
     (if sq_closed q then q\<lparr>sq_settled := sq_settled q @ [(w, False)]\<rparr>
      else drain maxConcurrent
        (if i \<in> fst ` set (sq_active q) then q\<lparr>sq_active := add_waiter i w (sq_active q)\<rparr>
         else if i \<in> fst ` set (sq_pending q) then q\<lparr>sq_pending := add_waiter i w (sq_pending q)\<rparr>
         else q\<lparr>sq_pending := sq_pending q @ [(i, [w])]\<rparr>))"

definition pendingCount :: "snapshot_queue \<Rightarrow> nat" where "pendingCount q = length (sq_pending q)"

definition close_queue :: "snapshot_queue \<Rightarrow> snapshot_queue" where
  "close_queue q = (if sq_closed q then q
     else q\<lparr>sq_closed := True, sq_pending := [],
            sq_settled := sq_settled q @ map (\<lambda>w. (w, False)) (concat (map snd (sq_pending q)))\<rparr>)"

text \<open>The two parts of the end of a job; \<open>ok\<close> tells whether there is a snapshot.\<close>

definition answer_waiters :: "string \<Rightarrow> bool \<Rightarrow> snapshot_queue \<Rightarrow> snapshot_queue" where
  "answer_waiters i ok q = (case map_of (sq_active q) i of
     None \<Rightarrow> q
   | Some ws \<Rightarrow> if i \<in> set (sq_answered q) then q
       else q\<lparr>sq_answered := sq_answered q @ [i], sq_settled := sq_settled q @ map (\<lambda>w. (w, ok)) ws\<rparr>)"

definition remove_job :: "nat \<Rightarrow> string \<Rightarrow> snapshot_queue \<Rightarrow> snapshot_queue" where
  "remove_job maxConcurrent i q =
     (if i \<notin> set (sq_answered q) then q
      else drain maxConcurrent (q\<lparr>sq_active := filter (\<lambda>(j, ws). j \<noteq> i) (sq_active q), sq_running := sq_running q - 1,
             sq_answered := removeAll i (sq_answered q)\<rparr>))"

section \<open>Invariants\<close>

abbreviation ids :: "(string \<times> nat list) list \<Rightarrow> string list" where "ids es \<equiv> map fst es"

text \<open>The waiters that still have to be answered.\<close>

definition waiting :: "snapshot_queue \<Rightarrow> nat list" where
  "waiting q = concat (map snd (sq_pending q)) @ concat (map snd (filter (\<lambda>(i, ws). i \<notin> set (sq_answered q)) (sq_active q)))"

definition queue_ok :: "nat \<Rightarrow> snapshot_queue \<Rightarrow> bool" where
  "queue_ok maxConcurrent q \<longleftrightarrow> distinct (ids (sq_pending q) @ ids (sq_active q))
     \<and> sq_running q = length (sq_active q) \<and> sq_running q \<le> maxConcurrent
     \<and> set (sq_answered q) \<subseteq> set (ids (sq_active q)) \<and> distinct (sq_answered q)
     \<and> (\<not> sq_closed q \<and> sq_pending q \<noteq> [] \<longrightarrow> sq_running q = maxConcurrent)
     \<and> (sq_closed q \<longrightarrow> sq_pending q = [])"

text \<open>Everything but the last two conditions on room, which \<open>drain\<close> establishes.\<close>

definition queue_sane :: "nat \<Rightarrow> snapshot_queue \<Rightarrow> bool" where
  "queue_sane maxConcurrent q \<longleftrightarrow> distinct (ids (sq_pending q) @ ids (sq_active q))
     \<and> sq_running q = length (sq_active q) \<and> sq_running q \<le> maxConcurrent
     \<and> set (sq_answered q) \<subseteq> set (ids (sq_active q)) \<and> distinct (sq_answered q)
     \<and> (sq_closed q \<longrightarrow> sq_pending q = [])"

lemma drain_loop_ok:
  "queue_sane n (q\<lparr>sq_pending := es\<rparr>) \<Longrightarrow> \<not> sq_closed q \<Longrightarrow> queue_ok n (drain_loop n es q)"
proof (induction es arbitrary: q)
  case (Cons e es)
  show ?case
  proof (cases "sq_running q < n")
    case True
    have "queue_sane n (q\<lparr>sq_running := sq_running q + 1, sq_active := sq_active q @ [e], sq_pending := es\<rparr>)"
      using Cons.prems True by (auto simp: queue_sane_def)
    with Cons.IH [of "q\<lparr>sq_running := sq_running q + 1, sq_active := sq_active q @ [e]\<rparr>"] Cons.prems(2) True
    show ?thesis by simp
  next
    case False
    with Cons.prems show ?thesis by (auto simp: queue_sane_def queue_ok_def)
  qed
qed (auto simp: queue_sane_def queue_ok_def)

lemma drain_ok: "queue_sane n q \<Longrightarrow> queue_ok n (drain n q)"
  using drain_loop_ok [where n = n and q = q and es = "sq_pending q"] by (auto simp: drain_def queue_sane_def queue_ok_def)

lemma queue_ok_sane: "queue_ok n q \<Longrightarrow> queue_sane n q"
  by (simp add: queue_ok_def queue_sane_def)

lemma add_waiter_ids [simp]: "ids (add_waiter i w es) = ids es" "length (add_waiter i w es) = length es"
  by (auto simp: add_waiter_def)

lemma add_waiter_keys [simp]: "fst ` set (add_waiter i w es) = fst ` set es"
  using add_waiter_ids(1) [of i w es] by (metis list.set_map)

lemma enqueue_ok: "queue_ok n q \<Longrightarrow> queue_ok n (enqueue_snapshot n i w q)"
proof (cases "sq_closed q")
  case False
  assume "queue_ok n q"
  with False show ?thesis unfolding enqueue_snapshot_def if_not_P [OF False]
    by (intro drain_ok) (auto simp: queue_ok_def queue_sane_def)
qed (simp add: enqueue_snapshot_def queue_ok_def)

lemma answer_ok: "queue_ok n q \<Longrightarrow> queue_ok n (answer_waiters i b q)"
  by (auto simp: answer_waiters_def queue_ok_def split: option.splits dest: map_of_SomeD intro: rev_image_eqI)

lemma removed_length:
  "distinct (ids es) \<Longrightarrow> i \<in> set (ids es) \<Longrightarrow> length (filter (\<lambda>(j, ws). j \<noteq> i) es) = length es - 1"
proof (induction es)
  case (Cons e es)
  have "filter (\<lambda>(j, ws). j \<noteq> i) es = es" if "i \<notin> set (ids es)" using that by (induction es) auto
  moreover have "0 < length es" if "i \<in> set (ids es)" using that by (cases es) auto
  moreover obtain j ws where "e = (j, ws)" by fastforce
  ultimately show ?case using Cons by (cases "j = i") (simp_all del: set_map)
qed simp

lemma remove_ok: "queue_ok n q \<Longrightarrow> queue_ok n (remove_job n i q)"
proof (cases "i \<in> set (sq_answered q)")
  case True
  assume ok: "queue_ok n q"
  with True have "i \<in> set (ids (sq_active q))" by (auto simp: queue_ok_def)
  with ok removed_length [of "sq_active q" i] have "length (filter (\<lambda>(j, ws). j \<noteq> i) (sq_active q)) = sq_running q - 1"
    by (simp add: queue_ok_def)
  moreover have "distinct (ids (filter (\<lambda>(j, ws). j \<noteq> i) (sq_active q)))" using ok by (simp add: queue_ok_def distinct_map_filter)
  moreover have "set (sq_answered q) \<subseteq> set (ids (sq_active q))" using ok by (simp add: queue_ok_def)
  then have "set (removeAll i (sq_answered q)) \<subseteq> set (ids (filter (\<lambda>(j, ws). j \<noteq> i) (sq_active q)))" by force
  ultimately have "queue_sane n (q\<lparr>sq_active := filter (\<lambda>(j, ws). j \<noteq> i) (sq_active q), sq_running := sq_running q - 1,
      sq_answered := removeAll i (sq_answered q)\<rparr>)"
    using ok by (auto simp: queue_ok_def queue_sane_def distinct_removeAll)
  with True show ?thesis by (simp add: remove_job_def drain_ok)
qed (simp add: remove_job_def)

lemma close_ok: "queue_ok n q \<Longrightarrow> queue_ok n (close_queue q)"
  by (auto simp: close_queue_def queue_ok_def)

section \<open>Every waiter is answered\<close>

definition accounted :: "snapshot_queue \<Rightarrow> nat multiset" where
  "accounted q = mset (waiting q) + mset (map fst (sq_settled q))"

lemma drain_loop_accounted:
  "set (ids es) \<inter> set (sq_answered q) = {} \<Longrightarrow> accounted (drain_loop n es q) = accounted (q\<lparr>sq_pending := es\<rparr>)"
proof (induction es arbitrary: q)
  case (Cons e es)
  show ?case
  proof (cases "sq_running q < n")
    case True
    with Cons.IH [of "q\<lparr>sq_running := sq_running q + 1, sq_active := sq_active q @ [e]\<rparr>"] Cons.prems
    show ?thesis by (cases e) (simp add: accounted_def waiting_def)
  qed simp
qed simp

lemma drain_accounted: "queue_sane n q \<Longrightarrow> accounted (drain n q) = accounted q"
  using drain_loop_accounted [where es = "sq_pending q" and q = q]
  by (fastforce simp: drain_def queue_sane_def)

lemma add_waiter_concat:
  "distinct (ids es) \<Longrightarrow> i \<in> set (ids es) \<Longrightarrow> P i \<Longrightarrow>
     mset (concat (map snd (filter (\<lambda>(j, ws). P j) (add_waiter i w es)))) = add_mset w (mset (concat (map snd (filter (\<lambda>(j, ws). P j) es))))"
proof (induction es)
  case (Cons e es)
  have "add_waiter i w es = es" if "i \<notin> set (ids es)" using that by (induction es) (auto simp: add_waiter_def)
  with Cons show ?case by (cases e) (auto simp: add_waiter_def)
qed simp

lemma enqueue_accounted:
  assumes ok: "queue_ok n q" and "i \<notin> set (sq_answered q)"
  shows "accounted (enqueue_snapshot n i w q) = add_mset w (accounted q)"
proof (cases "sq_closed q")
  case True
  then show ?thesis by (simp add: enqueue_snapshot_def accounted_def waiting_def)
next
  case False
  let ?q = "if i \<in> fst ` set (sq_active q) then q\<lparr>sq_active := add_waiter i w (sq_active q)\<rparr>
         else if i \<in> fst ` set (sq_pending q) then q\<lparr>sq_pending := add_waiter i w (sq_pending q)\<rparr>
         else q\<lparr>sq_pending := sq_pending q @ [(i, [w])]\<rparr>"
  have "queue_sane n ?q" using ok False by (auto simp: queue_ok_def queue_sane_def)
  then have "accounted (enqueue_snapshot n i w q) = accounted ?q" using False by (simp add: enqueue_snapshot_def drain_accounted)
  also have "\<dots> = add_mset w (accounted q)"
    using ok assms(2) add_waiter_concat [of "sq_active q" i "\<lambda>j. j \<notin> set (sq_answered q)" w]
      add_waiter_concat [of "sq_pending q" i "\<lambda>j. True" w]
    by (auto simp: queue_ok_def accounted_def waiting_def)
  finally show ?thesis .
qed

lemma enqueue_late:
  assumes ok: "queue_ok n q" and "i \<in> set (sq_answered q)" and "\<not> sq_closed q"
  shows "accounted (enqueue_snapshot n i w q) = accounted q"
proof -
  let ?q = "q\<lparr>sq_active := add_waiter i w (sq_active q)\<rparr>"
  have active: "i \<in> fst ` set (sq_active q)" using ok assms(2) by (auto simp: queue_ok_def)
  have "queue_sane n ?q" using ok by (auto simp: queue_ok_def queue_sane_def)
  then have "accounted (enqueue_snapshot n i w q) = accounted ?q"
    using active assms(3) by (simp add: enqueue_snapshot_def drain_accounted)
  moreover have "filter (\<lambda>(j, ws). j \<notin> set (sq_answered q)) (add_waiter i w es) = filter (\<lambda>(j, ws). j \<notin> set (sq_answered q)) es" for es
    using assms(2) by (induction es) (auto simp: add_waiter_def split: if_splits)
  ultimately show ?thesis by (simp add: accounted_def waiting_def)
qed

lemma answer_accounted:
  assumes "queue_ok n q"
  shows "accounted (answer_waiters i b q) = accounted q"
proof (cases "map_of (sq_active q) i = None \<or> i \<in> set (sq_answered q)")
  case False
  then obtain ws where ws: "map_of (sq_active q) i = Some ws" and new: "i \<notin> set (sq_answered q)" by auto
  have split: "distinct (ids es) \<Longrightarrow> map_of es i = Some ws \<Longrightarrow>
      mset (concat (map snd (filter (\<lambda>(j, us). j \<notin> set (sq_answered q)) es)))
      = mset ws + mset (concat (map snd (filter (\<lambda>(j, us). j \<notin> set (sq_answered q @ [i])) es)))" for es
  proof (induction es)
    case (Cons e es)
    have "filter (\<lambda>(j, us). j \<notin> set (sq_answered q @ [i])) es = filter (\<lambda>(j, us). j \<notin> set (sq_answered q)) es" if "i \<notin> set (ids es)"
    proof (rule filter_cong [OF refl])
      fix x assume "x \<in> set es"
      with that have "fst x \<noteq> i" by auto
      then show "(case x of (j, us) \<Rightarrow> j \<notin> set (sq_answered q @ [i])) = (case x of (j, us) \<Rightarrow> j \<notin> set (sq_answered q))"
        by (cases x) auto
    qed
    note rest = this
    obtain j us where e: "e = (j, us)" by fastforce
    have j: "j \<notin> set (ids es)" and es: "distinct (ids es)" using Cons.prems(1) e by simp_all
    show ?case
    proof (cases "j = i")
      case True
      then have "us = ws" using Cons.prems(2) e by simp
      with True e new rest [OF j [unfolded True]] show ?thesis by simp
    next
      case False
      then have "map_of es i = Some ws" using Cons.prems(2) e by simp
      from Cons.IH [OF es this] False e show ?thesis by (simp add: ac_simps)
    qed
  qed simp
  have keys: "map fst (map (\<lambda>w. (w, b)) ws) = ws" for ws by (induction ws) auto
  from split [of "sq_active q"] ws new assms show ?thesis
    by (simp add: answer_waiters_def accounted_def waiting_def queue_ok_def keys del: map_map)
qed (auto simp: answer_waiters_def split: option.splits)

lemma remove_accounted:
  assumes "queue_ok n q"
  shows "accounted (remove_job n i q) = accounted q"
proof (cases "i \<in> set (sq_answered q)")
  case True
  let ?q = "q\<lparr>sq_active := filter (\<lambda>(j, ws). j \<noteq> i) (sq_active q), sq_running := sq_running q - 1,
      sq_answered := removeAll i (sq_answered q)\<rparr>"
  have "set (ids (sq_pending q)) \<inter> set (removeAll i (sq_answered q)) = {}" using assms by (auto simp: queue_ok_def)
  then have "accounted (remove_job n i q) = accounted ?q"
    using True drain_loop_accounted [where es = "sq_pending q" and q = ?q and n = n] by (simp add: remove_job_def drain_def)
  moreover have "filter (\<lambda>(j, ws). j \<notin> set (removeAll i (sq_answered q))) (filter (\<lambda>(j, ws). j \<noteq> i) (sq_active q))
      = filter (\<lambda>(j, ws). j \<notin> set (sq_answered q)) (sq_active q)"
    using True by (auto simp: filter_filter intro!: filter_cong)
  ultimately show ?thesis by (simp add: accounted_def waiting_def)
qed (simp add: remove_job_def)

lemma close_accounted: "accounted (close_queue q) = accounted q"
  by (simp add: close_queue_def accounted_def waiting_def multiset.map_comp comp_def)

text \<open>The runs of a queue: the waiters that were given to it, each once, those of them that came late, between the two
  parts of the end of the job of their workspace, and the state.\<close>

inductive queue_run :: "nat \<Rightarrow> nat list \<Rightarrow> nat list \<Rightarrow> snapshot_queue \<Rightarrow> bool" for n where
  new: "queue_run n [] [] new_queue"
| enqueue: "queue_run n W L q \<Longrightarrow> w \<notin> set W \<Longrightarrow>
    queue_run n (w # W) (if i \<in> set (sq_answered q) \<and> \<not> sq_closed q then w # L else L) (enqueue_snapshot n i w q)"
| answer: "queue_run n W L q \<Longrightarrow> queue_run n W L (answer_waiters i b q)"
| remove: "queue_run n W L q \<Longrightarrow> queue_run n W L (remove_job n i q)"
| close: "queue_run n W L q \<Longrightarrow> queue_run n W L (close_queue q)"

lemma enqueue_closed: "sq_closed q \<Longrightarrow> accounted (enqueue_snapshot n i w q) = add_mset w (accounted q)"
  by (simp add: enqueue_snapshot_def accounted_def waiting_def)

lemma queue_run_ok: "queue_run n W L q \<Longrightarrow> queue_ok n q \<and> accounted q + mset L = mset W \<and> distinct W"
proof (induction rule: queue_run.induct)
  case new
  show ?case by (simp add: queue_ok_def new_queue_def accounted_def waiting_def)
next
  case (enqueue W L q w i)
  then show ?case
    using enqueue_accounted [of n q i w] enqueue_late [of n q i w] enqueue_closed [of q n i w] enqueue_ok [of n q i w]
    by (cases "i \<in> set (sq_answered q)"; cases "sq_closed q") auto
next
  case (answer W L q i b)
  then show ?case using answer_accounted [of n q] by (simp add: answer_ok)
next
  case (remove W L q i)
  then show ?case using remove_accounted [of n q] by (simp add: remove_ok)
qed (simp_all add: close_ok close_accounted)

text \<open>C33: The snapshot queue works within its bound, on one job per workspace, and answers once everybody who does not
  come too late. At any time of any history at most \<open>n\<close> jobs run, no workspace is both queued and worked on or twice in
  either, and while there is room nothing is queued. Late are those who ask for a workspace after the
  waiters of its job were answered and before the job is removed: they are never answered (and no longer wait for
  anything). Everybody else who asked is either waiting or was answered, once; and when no job is left they were all
  answered. So everybody is answered if nobody asks for a workspace while its job ends.\<close>

theorem snapshot_queue_sound:
  assumes "queue_run n W L q" and "0 < n"
  shows "length (sq_active q) \<le> n \<and> distinct (ids (sq_pending q) @ ids (sq_active q))
    \<and> (length (sq_active q) < n \<longrightarrow> sq_pending q = [])
    \<and> distinct (waiting q @ map fst (sq_settled q) @ L) \<and> set (waiting q) \<union> fst ` set (sq_settled q) \<union> set L = set W
    \<and> (sq_active q = [] \<longrightarrow> fst ` set (sq_settled q) = set W - set L)"
proof -
  from queue_run_ok [OF assms(1)] have ok: "queue_ok n q" and "distinct W"
    and acc: "mset (waiting q @ map fst (sq_settled q) @ L) = mset W"
    by (simp_all add: accounted_def ac_simps)
  have all: "distinct (waiting q @ map fst (sq_settled q) @ L)" using mset_eq_imp_distinct_iff [OF acc] \<open>distinct W\<close> by simp
  have sets: "set (waiting q) \<union> fst ` set (sq_settled q) \<union> set L = set W" using mset_eq_setD [OF acc] by auto
  have "waiting q = []" if "sq_active q = []" using ok that assms(2) by (auto simp: queue_ok_def waiting_def)
  with ok all sets show ?thesis by (auto simp: queue_ok_def)
qed

text \<open>Two snapshots of a workspace, the second asked for as soon as the first is there: the second comes late, and its
  promise is never settled.\<close>

definition asked_twice :: snapshot_queue where
  "asked_twice = remove_job 1 ''w'' (enqueue_snapshot 1 ''w'' 2 (answer_waiters ''w'' True (enqueue_snapshot 1 ''w'' 1 new_queue)))"

lemma second_request_is_lost: "sq_settled asked_twice = [(1, True)] \<and> sq_pending asked_twice = [] \<and> sq_active asked_twice = []"
  by code_simp

lemma snapshot_queue_sound_witness:
  "fst ` set (sq_settled (remove_job 1 ''w'' (answer_waiters ''w'' True (enqueue_snapshot 1 ''w'' 1 new_queue)))) = {1}
   \<and> fst ` set (sq_settled asked_twice) = {1}"
proof -
  let ?q = "answer_waiters ''w'' True (enqueue_snapshot 1 ''w'' 1 new_queue)"
  have first: "queue_run 1 [1] [] ?q"
    using queue_run.answer [OF queue_run.enqueue [OF queue_run.new, of 1 1 "''w''"], of "''w''" True] by (simp add: new_queue_def)
  have late: "''w'' \<in> set (sq_answered ?q) \<and> \<not> sq_closed ?q" by code_simp
  have "queue_run 1 [2, 1] [2] asked_twice"
    using queue_run.remove [OF queue_run.enqueue [OF first, of 2 "''w''"], of "''w''"] late
    by (simp add: asked_twice_def)
  moreover have "sq_active asked_twice = []" "sq_active (remove_job 1 ''w'' ?q) = []" by code_simp+
  ultimately show ?thesis
    using snapshot_queue_sound [of 1 "[2, 1]" "[2]" asked_twice] snapshot_queue_sound [OF queue_run.remove [OF first, of "''w''"]] by auto
qed

end
