(* ===== verification/Subagents.thy ===== *)
theory Subagents
  imports Prelude
begin

text \<open>
  \<open>SubagentGraph\<close> of \<open>packages/subagents/src/index.ts\<close>: the runs that started one another, with their budgets and
  statuses. Parents bound their children, and cancelling a run cancels everything below it.
\<close>

section \<open>The graph\<close>

record node_budget =
  nb_maxTokens :: num
  nb_maxCostUsd :: num

datatype node_status = NodeRunning | NodeSucceeded | NodeFailed | NodeCancelled

record subagent_node =
  sn_runId :: string
  sn_parentRunId :: "string option"
  sn_depth :: nat
  sn_budget :: node_budget
  sn_status :: node_status
  sn_children :: "string list"

type_synonym subagent_graph = "string \<rightharpoonup> subagent_node"

text \<open>\<open>CallStackExceeded\<close> is the end of a recursion that JavaScript has no room for.\<close>

datatype graph_error =
    RunAlreadyInGraph string
  | RunNotInGraph string
  | ParentTerminal
  | NestingLimitReached
  | ChildBudgetExceeded
  | CallStackExceeded

definition require_node :: "subagent_graph \<Rightarrow> string \<Rightarrow> graph_error + subagent_node" where
  "require_node g i = from_option (RunNotInGraph i) (g i)"

definition addRoot :: "string \<Rightarrow> node_budget \<Rightarrow> subagent_graph \<Rightarrow> graph_error + subagent_node \<times> subagent_graph" where
  "addRoot i budget g =
     (if g i \<noteq> None then Inl (RunAlreadyInGraph i)
      else let node = \<lparr>sn_runId = i, sn_parentRunId = None, sn_depth = 0, sn_budget = budget,
                       sn_status = NodeRunning, sn_children = []\<rparr>
           in Inr (node, g(i \<mapsto> node)))"

text \<open>\<open>fresh\<close> is the random identifier of the new run.\<close>

definition createChild ::
  "nat \<Rightarrow> string \<Rightarrow> string \<Rightarrow> node_budget \<Rightarrow> subagent_graph \<Rightarrow> graph_error + subagent_node \<times> subagent_graph" where
  "createChild maxDepth fresh parentRunId budget g =
     bind_result (require_node g parentRunId) (\<lambda>parent.
     bind_result (throw_if (sn_status parent \<noteq> NodeRunning) ParentTerminal) (\<lambda>_.
     bind_result (throw_if (maxDepth \<le> sn_depth parent) NestingLimitReached) (\<lambda>_.
     bind_result (throw_if (nb_maxTokens (sn_budget parent) < nb_maxTokens budget
         \<or> nb_maxCostUsd (sn_budget parent) < nb_maxCostUsd budget) ChildBudgetExceeded) (\<lambda>_.
       let child = \<lparr>sn_runId = fresh, sn_parentRunId = Some parentRunId, sn_depth = sn_depth parent + 1, sn_budget = budget,
                    sn_status = NodeRunning, sn_children = []\<rparr>
       in Inr (child, g(fresh \<mapsto> child, parentRunId \<mapsto> parent\<lparr>sn_children := sn_children parent @ [fresh]\<rparr>))))))"

definition complete_node :: "string \<Rightarrow> bool \<Rightarrow> subagent_graph \<Rightarrow> graph_error + subagent_graph" where
  "complete_node i succeeded g =
     bind_result (require_node g i) (\<lambda>node.
       Inr (g(i \<mapsto> node\<lparr>sn_status := if succeeded then NodeSucceeded else NodeFailed\<rparr>)))"

text \<open>\<open>visit\<close>: the children first, then the run itself, as the node was before the children. The number
  bounds the depth of the recursion.\<close>

primrec visit_all :: "('s \<Rightarrow> graph_error + 's) list \<Rightarrow> 's \<Rightarrow> graph_error + 's" where
  "visit_all [] s = Inr s"
| "visit_all (f # fs) s = bind_result (f s) (visit_all fs)"

primrec visit :: "nat \<Rightarrow> string \<Rightarrow> subagent_graph \<times> string list \<Rightarrow> graph_error + subagent_graph \<times> string list" where
  "visit 0 i s = Inl CallStackExceeded"
| "visit (Suc n) i s =
     bind_result (require_node (fst s) i) (\<lambda>node.
     bind_result (visit_all (map (visit n) (sn_children node)) s) (\<lambda>(g, cancelled).
       if sn_status node = NodeRunning
       then Inr (g(i \<mapsto> node\<lparr>sn_status := NodeCancelled\<rparr>), cancelled @ [i])
       else Inr (g, cancelled)))"

definition cancel :: "nat \<Rightarrow> string \<Rightarrow> subagent_graph \<Rightarrow> graph_error + subagent_graph \<times> string list" where
  "cancel stack i g = visit stack i (g, [])"

section \<open>The shape of the graph\<close>

definition budget_within :: "node_budget \<Rightarrow> node_budget \<Rightarrow> bool" where
  "budget_within b c \<longleftrightarrow> nb_maxTokens b \<le> nb_maxTokens c \<and> nb_maxCostUsd b \<le> nb_maxCostUsd c"

definition child_ok :: "subagent_graph \<Rightarrow> string \<Rightarrow> subagent_node \<Rightarrow> string \<Rightarrow> bool" where
  "child_ok g i n c \<longleftrightarrow> (\<exists>m. g c = Some m \<and> sn_parentRunId m = Some i \<and> sn_depth m = sn_depth n + 1
     \<and> budget_within (sn_budget m) (sn_budget n))"

definition graph_ok :: "nat \<Rightarrow> subagent_graph \<Rightarrow> bool" where
  "graph_ok maxDepth g \<longleftrightarrow> (\<forall>i n. g i = Some n \<longrightarrow> sn_runId n = i \<and> sn_depth n \<le> maxDepth
     \<and> (\<forall>c\<in>set (sn_children n). child_ok g i n c))"

text \<open>Every operation, with a fresh identifier for a new child, on a stack that is deeper than runs nest.\<close>

inductive graph_step :: "nat \<Rightarrow> subagent_graph \<Rightarrow> subagent_graph \<Rightarrow> bool" for maxDepth where
  add_root: "addRoot i budget g = Inr (n, g') \<Longrightarrow> graph_step maxDepth g g'"
| create_child: "createChild maxDepth fresh p budget g = Inr (n, g') \<Longrightarrow> fresh \<notin> dom g \<Longrightarrow> graph_step maxDepth g g'"
| complete_run: "complete_node i succeeded g = Inr g' \<Longrightarrow> graph_step maxDepth g g'"
| cancel_run: "cancel stack i g = Inr (g', cancelled) \<Longrightarrow> maxDepth < stack \<Longrightarrow> graph_step maxDepth g g'"

definition graph_reachable :: "nat \<Rightarrow> subagent_graph \<Rightarrow> bool" where
  "graph_reachable maxDepth g \<longleftrightarrow> (graph_step maxDepth)\<^sup>*\<^sup>* Map.empty g"

text \<open>The runs at and below a run.\<close>

inductive below :: "subagent_graph \<Rightarrow> string \<Rightarrow> string \<Rightarrow> bool" for g where
  self: "below g i i"
| child: "g i = Some n \<Longrightarrow> c \<in> set (sn_children n) \<Longrightarrow> below g c x \<Longrightarrow> below g i x"

lemma below_unfold:
  "g i = Some n \<Longrightarrow> below g i x \<longleftrightarrow> x = i \<or> (\<exists>c\<in>set (sn_children n). below g c x)"
  by (subst below.simps) auto

text \<open>Changes of the status alone.\<close>

definition cancel_in :: "string set \<Rightarrow> subagent_graph \<Rightarrow> subagent_graph" where
  "cancel_in S g x = map_option (\<lambda>n. if x \<in> S \<and> sn_status n = NodeRunning then n\<lparr>sn_status := NodeCancelled\<rparr> else n) (g x)"

definition running :: "subagent_graph \<Rightarrow> string \<Rightarrow> bool" where
  "running g i \<longleftrightarrow> (\<exists>n. g i = Some n \<and> sn_status n = NodeRunning)"

lemma cancel_in_empty [simp]: "cancel_in {} g = g"
  by (rule ext) (simp add: cancel_in_def map_option.id [unfolded id_def])

lemma status_change_ok:
  assumes "graph_ok maxDepth g" and "\<And>x. g' x = g x \<or> (\<exists>n st. g x = Some n \<and> g' x = Some (n\<lparr>sn_status := st\<rparr>))"
  shows "graph_ok maxDepth g'"
proof -
  have self: "n = n\<lparr>sn_status := sn_status n\<rparr>" for n :: subagent_node by simp
  have same: "\<exists>m st. g x = Some m \<and> n = m\<lparr>sn_status := st\<rparr>" if "g' x = Some n" for x n
    using assms(2) [of x] that self [of n] by (metis option.inject)
  have there: "\<exists>m st. g' x = Some (m\<lparr>sn_status := st\<rparr>) \<and> g x = Some m" if "g x = Some m'" for x m'
    using assms(2) [of x] that self [of m'] by (metis option.inject)
  show ?thesis unfolding graph_ok_def
  proof (intro allI impI conjI ballI)
    fix i n assume "g' i = Some n"
    then obtain m st where m: "g i = Some m" "n = m\<lparr>sn_status := st\<rparr>" using same by blast
    with assms(1) show "sn_runId n = i" "sn_depth n \<le> maxDepth" by (auto simp: graph_ok_def)
    fix c assume "c \<in> set (sn_children n)"
    with m have "c \<in> set (sn_children m)" by simp
    with m(1) assms(1) have "child_ok g i m c" by (simp add: graph_ok_def)
    then obtain m' where m': "g c = Some m'" "sn_parentRunId m' = Some i" "sn_depth m' = sn_depth m + 1"
      "budget_within (sn_budget m') (sn_budget m)" by (auto simp: child_ok_def)
    from there [OF m'(1)] obtain st' where "g' c = Some (m'\<lparr>sn_status := st'\<rparr>)" using m'(1) by auto
    with m' m(2) show "child_ok g' i n c" by (simp add: child_ok_def)
  qed
qed

lemma addRoot_ok:
  assumes "graph_ok maxDepth g" and "addRoot i budget g = Inr (n, g')"
  shows "graph_ok maxDepth g'"
  using assms by (fastforce simp: addRoot_def graph_ok_def child_ok_def Let_def split: if_splits)

lemma createChild_ok:
  assumes ok: "graph_ok maxDepth g" and create: "createChild maxDepth fresh p budget g = Inr (n, g')" and "fresh \<notin> dom g"
  shows "graph_ok maxDepth g'"
proof -
  obtain q where q: "g p = Some q" "sn_depth q < maxDepth" and within: "budget_within budget (sn_budget q)"
    and g': "g' = g(fresh \<mapsto> \<lparr>sn_runId = fresh, sn_parentRunId = Some p, sn_depth = sn_depth q + 1, sn_budget = budget,
        sn_status = NodeRunning, sn_children = []\<rparr>, p \<mapsto> q\<lparr>sn_children := sn_children q @ [fresh]\<rparr>)"
    using create by (auto simp: createChild_def require_node_def result_simps Let_def budget_within_def)
  have new: "fresh \<noteq> p" "g fresh = None" using q assms(3) by auto
  have old: "child_ok g' i m' c" if "child_ok g i m c" "sn_depth m' = sn_depth m" "sn_budget m' = sn_budget m" for i m m' c
    using that new q by (auto simp: g' child_ok_def)
  have fresh: "child_ok g' p (q\<lparr>sn_children := cs\<rparr>) fresh" for cs
    using new within by (auto simp: g' child_ok_def)
  show ?thesis unfolding graph_ok_def
  proof (intro allI impI)
    fix i m assume m: "g' i = Some m"
    consider "i = p" | "i = fresh" | "i \<noteq> p" "i \<noteq> fresh" by blast
    then show "sn_runId m = i \<and> sn_depth m \<le> maxDepth \<and> (\<forall>c\<in>set (sn_children m). child_ok g' i m c)"
    proof cases
      case 1
      then have "m = q\<lparr>sn_children := sn_children q @ [fresh]\<rparr>" using m by (simp add: g')
      moreover have "child_ok g p q c" if "c \<in> set (sn_children q)" for c using ok q that by (simp add: graph_ok_def)
      then have "child_ok g' p (q\<lparr>sn_children := sn_children q @ [fresh]\<rparr>) c" if "c \<in> set (sn_children q)" for c
        by (rule old) (use that in simp_all)
      moreover have "sn_runId q = p" using ok q by (simp add: graph_ok_def)
      ultimately show ?thesis using 1 fresh q(2) by auto
    next
      case 2
      then have "m = \<lparr>sn_runId = fresh, sn_parentRunId = Some p, sn_depth = sn_depth q + 1, sn_budget = budget,
        sn_status = NodeRunning, sn_children = []\<rparr>" using m new by (simp add: g')
      with 2 q(2) show ?thesis by simp
    next
      case 3
      with m have "g i = Some m" by (simp add: g')
      with ok show ?thesis by (auto simp: graph_ok_def intro: old)
    qed
  qed
qed

lemma complete_ok:
  assumes "graph_ok maxDepth g" and "complete_node i succeeded g = Inr g'"
  shows "graph_ok maxDepth g'"
proof (rule status_change_ok [OF assms(1)])
  obtain n where "g i = Some n" and "g' = g(i \<mapsto> n\<lparr>sn_status := if succeeded then NodeSucceeded else NodeFailed\<rparr>)"
    using assms(2) by (auto simp: complete_node_def require_node_def result_simps)
  then show "g' x = g x \<or> (\<exists>n st. g x = Some n \<and> g' x = Some (n\<lparr>sn_status := st\<rparr>))" for x by (cases "x = i") fastforce+
qed

lemma cancel_in_ok: "graph_ok maxDepth g \<Longrightarrow> graph_ok maxDepth (cancel_in S g)"
  by (erule status_change_ok) (auto simp: cancel_in_def map_option_case split: option.split)

section \<open>Below a run\<close>

lemma below_bounds:
  assumes "graph_ok maxDepth g" and "below g i x" and "g i = Some n"
  shows "\<exists>m. g x = Some m \<and> sn_depth n \<le> sn_depth m \<and> (x \<noteq> i \<longrightarrow> sn_depth n < sn_depth m) \<and> budget_within (sn_budget m) (sn_budget n)"
  using assms(2,3)
proof (induction arbitrary: n rule: below.induct)
  case (self i)
  then show ?case by (simp add: budget_within_def)
next
  case (child i k c x)
  then have k: "k = n" by simp
  with child assms(1) have "child_ok g i n c" by (simp add: graph_ok_def)
  then obtain m where m: "g c = Some m" "sn_depth m = sn_depth n + 1" "budget_within (sn_budget m) (sn_budget n)"
    by (auto simp: child_ok_def)
  from child.IH [OF m(1)] m show ?case by (auto simp: budget_within_def)
qed

lemma cancel_in_node: "cancel_in S g i = Some m \<Longrightarrow> \<exists>n. g i = Some n \<and> sn_children m = sn_children n
    \<and> (sn_status m = NodeRunning \<longleftrightarrow> running g i \<and> i \<notin> S) \<and> (sn_status m = NodeRunning \<longrightarrow> m = n)"
  by (auto simp: cancel_in_def running_def)

lemma visit_all_spec:
  assumes "\<And>c S out. c \<in> set cs \<Longrightarrow> \<exists>new. visit k c (cancel_in S g, out) = Inr (cancel_in (S \<union> Collect (below g c)) g, out @ new)
      \<and> set new = {x. below g c x \<and> running g x \<and> x \<notin> S} \<and> distinct new"
  shows "\<exists>new. visit_all (map (visit k) cs) (cancel_in S g, out)
        = Inr (cancel_in (S \<union> {x. \<exists>c\<in>set cs. below g c x}) g, out @ new)
      \<and> set new = {x. (\<exists>c\<in>set cs. below g c x) \<and> running g x \<and> x \<notin> S} \<and> distinct new"
  using assms
proof (induction cs arbitrary: S out)
  case (Cons c cs)
  have "\<exists>new. visit k c (cancel_in S g, out) = Inr (cancel_in (S \<union> Collect (below g c)) g, out @ new)
      \<and> set new = {x. below g c x \<and> running g x \<and> x \<notin> S} \<and> distinct new"
    by (rule Cons.prems) simp
  then obtain new where new: "visit k c (cancel_in S g, out) = Inr (cancel_in (S \<union> Collect (below g c)) g, out @ new)"
    "set new = {x. below g c x \<and> running g x \<and> x \<notin> S}" "distinct new" by blast
  have "\<exists>more. visit_all (map (visit k) cs) (cancel_in (S \<union> Collect (below g c)) g, out @ new)
        = Inr (cancel_in (S \<union> Collect (below g c) \<union> {x. \<exists>c\<in>set cs. below g c x}) g, (out @ new) @ more)
      \<and> set more = {x. (\<exists>c\<in>set cs. below g c x) \<and> running g x \<and> x \<notin> S \<union> Collect (below g c)} \<and> distinct more"
    by (rule Cons.IH) (rule Cons.prems, simp)
  then obtain more where more: "visit_all (map (visit k) cs) (cancel_in (S \<union> Collect (below g c)) g, out @ new)
        = Inr (cancel_in (S \<union> Collect (below g c) \<union> {x. \<exists>c\<in>set cs. below g c x}) g, (out @ new) @ more)"
    "set more = {x. (\<exists>c\<in>set cs. below g c x) \<and> running g x \<and> x \<notin> S \<union> Collect (below g c)}" "distinct more"
    by blast
  have all: "S \<union> Collect (below g c) \<union> {x. \<exists>c\<in>set cs. below g c x} = S \<union> {x. \<exists>c'\<in>set (c # cs). below g c' x}" by auto
  have "visit_all (map (visit k) (c # cs)) (cancel_in S g, out)
      = Inr (cancel_in (S \<union> {x. \<exists>c'\<in>set (c # cs). below g c' x}) g, out @ (new @ more))"
    by (simp only: list.map visit_all.simps new(1) bind_result.simps more(1) all append_assoc)
  moreover have "set (new @ more) = {x. (\<exists>c'\<in>set (c # cs). below g c' x) \<and> running g x \<and> x \<notin> S}"
    using new(2) more(2) by auto
  moreover have "distinct (new @ more)" using new(2,3) more(2,3) by auto
  ultimately show ?case by blast
qed simp

lemma visit_spec:
  assumes ok: "graph_ok maxDepth g"
  shows "g i = Some n \<Longrightarrow> maxDepth < sn_depth n + k \<Longrightarrow>
    \<exists>new. visit k i (cancel_in S g, out) = Inr (cancel_in (S \<union> Collect (below g i)) g, out @ new)
      \<and> set new = {x. below g i x \<and> running g x \<and> x \<notin> S} \<and> distinct new"
proof (induction k arbitrary: i n S out)
  case 0
  with ok have "sn_depth n \<le> maxDepth" by (simp add: graph_ok_def)
  with 0 show ?case by simp
next
  case (Suc k)
  let ?T = "{x. \<exists>c\<in>set (sn_children n). below g c x}"
  have member: "below g i x \<longleftrightarrow> x = i \<or> (\<exists>c\<in>set (sn_children n). below g c x)" for x
    by (rule below_unfold, rule Suc.prems(1))
  then have below: "Collect (below g i) = insert i ?T" by blast
  have "child_ok g i n c" if "c \<in> set (sn_children n)" for c using ok Suc.prems(1) that by (simp add: graph_ok_def)
  then have kids: "\<exists>m. g c = Some m \<and> sn_depth m = sn_depth n + 1" if "c \<in> set (sn_children n)" for c
    using that by (auto simp: child_ok_def)
  have "\<exists>new. visit_all (map (visit k) (sn_children n)) (cancel_in S g, out) = Inr (cancel_in (S \<union> ?T) g, out @ new)
      \<and> set new = {x. (\<exists>c\<in>set (sn_children n). below g c x) \<and> running g x \<and> x \<notin> S} \<and> distinct new"
  proof (rule visit_all_spec)
    fix c S out assume "c \<in> set (sn_children n)"
    then obtain m where "g c = Some m" "sn_depth m = sn_depth n + 1" using kids by blast
    with Suc.IH [of c m S out] Suc.prems(2)
    show "\<exists>new. visit k c (cancel_in S g, out) = Inr (cancel_in (S \<union> Collect (below g c)) g, out @ new)
      \<and> set new = {x. below g c x \<and> running g x \<and> x \<notin> S} \<and> distinct new" by simp
  qed
  then obtain new where new: "visit_all (map (visit k) (sn_children n)) (cancel_in S g, out) = Inr (cancel_in (S \<union> ?T) g, out @ new)"
    "set new = {x. (\<exists>c\<in>set (sn_children n). below g c x) \<and> running g x \<and> x \<notin> S}" "distinct new" by blast
  obtain m where m: "cancel_in S g i = Some m" using Suc.prems(1) by (auto simp: cancel_in_def)
  from cancel_in_node [OF m] Suc.prems(1) have kids_m: "sn_children m = sn_children n"
    and run: "sn_status m = NodeRunning \<longleftrightarrow> running g i \<and> i \<notin> S" and "sn_status m = NodeRunning \<longrightarrow> m = n" by auto
  have "i \<notin> ?T"
  proof
    assume "i \<in> ?T"
    then obtain c where c: "c \<in> set (sn_children n)" "below g c i" by blast
    obtain k where "g c = Some k" "sn_depth k = sn_depth n + 1" using kids c by blast
    with below_bounds [OF ok c(2)] Suc.prems(1) show False by fastforce
  qed
  show ?case
  proof (cases "sn_status m = NodeRunning")
    case True
    then have "(cancel_in (S \<union> ?T) g)(i \<mapsto> m\<lparr>sn_status := NodeCancelled\<rparr>) = cancel_in (S \<union> insert i ?T) g"
      using Suc.prems(1) run \<open>sn_status m = NodeRunning \<longrightarrow> m = n\<close> by (auto simp: cancel_in_def fun_eq_iff)
    with True m new(1) kids_m have "visit (Suc k) i (cancel_in S g, out) = Inr (cancel_in (S \<union> Collect (below g i)) g, out @ new @ [i])"
      by (simp add: require_node_def below)
    moreover have "set (new @ [i]) = {x. below g i x \<and> running g x \<and> x \<notin> S}" using new(2) member True run by auto
    moreover have "distinct (new @ [i])" using new(2,3) \<open>i \<notin> ?T\<close> by auto
    ultimately show ?thesis by blast
  next
    case False
    have "cancel_in (S \<union> ?T) g x = cancel_in (S \<union> insert i ?T) g x" for x
      using Suc.prems(1) run False by (cases "x = i") (auto simp: cancel_in_def running_def)
    then have "cancel_in (S \<union> ?T) g = cancel_in (S \<union> insert i ?T) g" by (rule ext)
    with False m new(1) kids_m have "visit (Suc k) i (cancel_in S g, out) = Inr (cancel_in (S \<union> Collect (below g i)) g, out @ new)"
      by (simp add: require_node_def below)
    moreover have "set new = {x. below g i x \<and> running g x \<and> x \<notin> S}" using new(2) member False run by auto
    ultimately show ?thesis using new(3) by blast
  qed
qed

lemma cancel_spec:
  assumes "graph_ok maxDepth g" and "g i = Some n" and "maxDepth < stack"
  obtains cancelled where "cancel stack i g = Inr (cancel_in (Collect (below g i)) g, cancelled)"
    and "set cancelled = {x. below g i x \<and> running g x}" and "distinct cancelled"
proof -
  obtain new where "visit stack i (cancel_in {} g, []) = Inr (cancel_in ({} \<union> Collect (below g i)) g, [] @ new)
      \<and> set new = {x. below g i x \<and> running g x \<and> x \<notin> {}} \<and> distinct new"
    using visit_spec [OF assms(1,2), of stack "{}" "[]"] assms(3) by fastforce
  then show ?thesis by (intro that [of new]) (simp_all add: cancel_def)
qed

lemma cancel_known: "cancel stack i g = Inr r \<Longrightarrow> g i \<noteq> None"
  by (cases stack) (auto simp: cancel_def require_node_def result_simps)

lemma graph_step_ok: "graph_step maxDepth g g' \<Longrightarrow> graph_ok maxDepth g \<Longrightarrow> graph_ok maxDepth g'"
proof (induction rule: graph_step.induct)
  case (cancel_run stack i g g' cancelled)
  from cancel_known [OF cancel_run(1)] obtain n where n: "g i = Some n" by auto
  from cancel_spec [OF cancel_run(3) n cancel_run(2)] cancel_run(1) have "g' = cancel_in (Collect (below g i)) g"
    by fastforce
  with cancel_in_ok [OF cancel_run(3)] show ?case by simp
qed (blast intro: addRoot_ok createChild_ok complete_ok)+

lemma reachable_ok: "graph_reachable maxDepth g \<Longrightarrow> graph_ok maxDepth g"
  unfolding graph_reachable_def
  by (induction rule: rtranclp_induct) (simp add: graph_ok_def, blast intro: graph_step_ok)

section \<open>Guarantees\<close>

text \<open>Subagents stay within what started them. In every graph that the operations can build, a run below
  another has at most its token and cost budget, lies deeper, and never deeper than the nesting limit.\<close>

theorem subagents_within_ancestors:
  assumes "graph_reachable maxDepth g" and "below g i x" and "g i = Some n"
  shows "\<exists>m. g x = Some m \<and> nb_maxTokens (sn_budget m) \<le> nb_maxTokens (sn_budget n)
    \<and> nb_maxCostUsd (sn_budget m) \<le> nb_maxCostUsd (sn_budget n)
    \<and> (x \<noteq> i \<longrightarrow> sn_depth n < sn_depth m) \<and> sn_depth m \<le> maxDepth"
proof -
  note ok = reachable_ok [OF assms(1)]
  obtain m where m: "g x = Some m" "x \<noteq> i \<longrightarrow> sn_depth n < sn_depth m" "budget_within (sn_budget m) (sn_budget n)"
    using below_bounds [OF ok assms(2,3)] by auto
  from ok m(1) have "sn_depth m \<le> maxDepth" by (simp add: graph_ok_def)
  with m show ?thesis by (simp add: budget_within_def)
qed

text \<open>C30: Cancelling a run reaches everything below it and nothing else. In a graph that the operations can build, \<open>cancel\<close>
  returns, lists exactly the runs at and below the given one that were running, each once, and changes only
  these, to \<open>cancelled\<close>; so nothing below keeps running.\<close>

theorem cancel_reaches_subtree:
  assumes "graph_reachable maxDepth g" and "g i = Some n" and "maxDepth < stack"
  shows "\<exists>g' cancelled. cancel stack i g = Inr (g', cancelled) \<and> distinct cancelled
    \<and> set cancelled = {x. below g i x \<and> running g x}
    \<and> (\<forall>x. g' x = (if x \<in> set cancelled then map_option (\<lambda>m. m\<lparr>sn_status := NodeCancelled\<rparr>) (g x) else g x))
    \<and> (\<forall>x. below g i x \<longrightarrow> \<not> running g' x)"
proof -
  obtain cancelled where c: "cancel stack i g = Inr (cancel_in (Collect (below g i)) g, cancelled)"
    "set cancelled = {x. below g i x \<and> running g x}" "distinct cancelled"
    by (rule cancel_spec [OF reachable_ok [OF assms(1)] assms(2,3)])
  have "cancel_in (Collect (below g i)) g x =
      (if x \<in> set cancelled then map_option (\<lambda>m. m\<lparr>sn_status := NodeCancelled\<rparr>) (g x) else g x)" for x
    unfolding c(2) by (cases "g x") (auto simp: cancel_in_def running_def)
  moreover have "\<not> running (cancel_in (Collect (below g i)) g) x" if "below g i x" for x
    using that by (auto simp: cancel_in_def running_def split: if_splits)
  ultimately show ?thesis using c by blast
qed

text \<open>A run that was cancelled can still be completed afterwards: \<open>complete\<close> does not look at the status.\<close>

lemma completion_overwrites_cancellation:
  assumes "g i = Some n"
  shows "\<exists>g'. complete_node i True g = Inr g' \<and> (\<exists>m. g' i = Some m \<and> sn_status m = NodeSucceeded)"
  using assms by (simp add: complete_node_def require_node_def)

section \<open>An example\<close>

definition small_budget :: node_budget where "small_budget = \<lparr>nb_maxTokens = 100, nb_maxCostUsd = 1\<rparr>"

definition example_graph :: subagent_graph where
  "example_graph = (case addRoot ''r'' small_budget Map.empty of
     Inl e \<Rightarrow> Map.empty
   | Inr (n, g) \<Rightarrow> (case createChild 3 ''c'' ''r'' small_budget g of Inl e \<Rightarrow> Map.empty | Inr (m, g') \<Rightarrow> g'))"

lemmas example_graph_simps = example_graph_def addRoot_def createChild_def require_node_def small_budget_def

lemma example_graph_reachable: "graph_reachable 3 example_graph"
proof -
  obtain n g where root: "addRoot ''r'' small_budget Map.empty = Inr (n, g)" and g: "dom g = {''r''}"
    by (auto simp: addRoot_def Let_def)
  have "\<exists>m g'. createChild 3 ''c'' ''r'' small_budget g = Inr (m, g')"
    using root by (auto simp: addRoot_def createChild_def require_node_def Let_def)
  then obtain m g' where child: "createChild 3 ''c'' ''r'' small_budget g = Inr (m, g')" by blast
  have "graph_step 3 Map.empty g" by (rule add_root [OF root])
  moreover have "graph_step 3 g g'" by (rule create_child [OF child]) (simp add: g)
  ultimately show ?thesis using root child by (simp add: graph_reachable_def example_graph_def)
qed

lemma example_below: "below example_graph ''r'' ''c''"
  by (rule below.child [where c = "''c''"]) (auto simp: example_graph_simps Let_def intro: below.self)

lemma subagents_within_ancestors_witness:
  "\<exists>m. example_graph ''c'' = Some m \<and> sn_depth m \<le> 3 \<and> nb_maxTokens (sn_budget m) \<le> 100"
proof -
  obtain n where n: "example_graph ''r'' = Some n" "nb_maxTokens (sn_budget n) = 100"
    by (simp add: example_graph_simps Let_def)
  from subagents_within_ancestors [OF example_graph_reachable example_below n(1)] n(2) show ?thesis by auto
qed

lemma cancel_reaches_subtree_witness:
  "\<exists>g' cancelled. cancel 10 ''r'' example_graph = Inr (g', cancelled) \<and> set cancelled = {''r'', ''c''} \<and> \<not> running g' ''c''"
proof -
  obtain n where n: "example_graph ''r'' = Some n" by (simp add: example_graph_simps Let_def)
  have run: "cancel 10 ''r'' example_graph = Inr r \<Longrightarrow> set (snd r) = {''r'', ''c''}" for r
    by (auto simp: cancel_def eval_nat_numeral require_node_def example_graph_simps Let_def)
  have "(3 :: nat) < 10" by simp
  from cancel_reaches_subtree [OF example_graph_reachable n this] obtain g' cancelled
    where r: "cancel 10 ''r'' example_graph = Inr (g', cancelled)" and "\<forall>x. below example_graph ''r'' x \<longrightarrow> \<not> running g' x"
    by blast
  with run [OF r] example_below show ?thesis by auto
qed

end
