(* ===== verification/ContextAssembly.thy ===== *)
theory ContextAssembly
  imports StoreTables
begin

text \<open>
  \<open>packages/context/src/index.ts\<close>: the blocks of text an agent is given, and the compiler that may hand some of them to the
  model as images. The exact text of every block is kept; only long blocks of logs or memory that are not
  sensitive are ever rendered, and only for applications, models and scopes that allow it.
\<close>

section \<open>Blocks and their store\<close>

datatype block_kind = Instructions | Conversation | ToolState | Source | Logs | Memory

record context_block =
  cb_id :: string
  cb_kind :: block_kind
  cb_exactText :: string
  cb_lossyEligible :: bool
  cb_sensitive :: bool
  cb_provenance :: "string option"
  cb_timeRange :: "(string option \<times> string option) option"

datatype context_error = BlockIncomplete | BlockImmutable string | BlockNotFound string

record block_row =
  br_id :: string
  br_kind :: block_kind
  br_exact_text :: string
  br_exact_sha256 :: string
  br_lossy_eligible :: bool
  br_sensitive :: bool
  br_provenance :: "string option"
  br_time_start :: "string option"
  br_time_end :: "string option"
  br_created_at :: timestamp

type_synonym context_db = "block_row list"

definition find_block :: "string \<Rightarrow> context_db \<Rightarrow> block_row option" where
  "find_block i d = List.find (\<lambda>r. br_id r = i) d"

definition put_block :: "(string \<Rightarrow> string) \<Rightarrow> timestamp \<Rightarrow> context_block \<Rightarrow> context_db \<Rightarrow> context_error + context_db" where
  "put_block sha256 now b d =
     (if cb_id b = [] \<or> cb_exactText b = [] then Inl BlockIncomplete
      else case find_block (cb_id b) d of
        Some r \<Rightarrow> if br_exact_sha256 r \<noteq> sha256 (cb_exactText b) then Inl (BlockImmutable (cb_id b)) else Inr d
      | None \<Rightarrow> Inr (d @ [\<lparr>br_id = cb_id b, br_kind = cb_kind b, br_exact_text = cb_exactText b,
          br_exact_sha256 = sha256 (cb_exactText b), br_lossy_eligible = cb_lossyEligible b, br_sensitive = cb_sensitive b,
          br_provenance = cb_provenance b, br_time_start = Option.bind (cb_timeRange b) fst,
          br_time_end = Option.bind (cb_timeRange b) snd, br_created_at = now\<rparr>]))"

definition fetchExact :: "string \<Rightarrow> context_db \<Rightarrow> context_error + string" where
  "fetchExact i d = from_option (BlockNotFound i) (map_option br_exact_text (find_block i d))"

definition to_block :: "block_row \<Rightarrow> context_block" where
  "to_block r = \<lparr>cb_id = br_id r, cb_kind = br_kind r, cb_exactText = br_exact_text r, cb_lossyEligible = br_lossy_eligible r,
     cb_sensitive = br_sensitive r, cb_provenance = truthy (br_provenance r),
     cb_timeRange = (if truthy (br_time_start r) = None \<and> truthy (br_time_end r) = None then None
       else Some (truthy (br_time_start r), truthy (br_time_end r)))\<rparr>"

definition list_blocks :: "context_db \<Rightarrow> context_block list" where
  "list_blocks d = map to_block (sort_key (\<lambda>r. (br_created_at r, br_id r)) d)"

section \<open>The cache of rendered blocks\<close>

definition contextCacheKey :: "(string \<Rightarrow> string) \<Rightarrow> string \<Rightarrow> string \<Rightarrow> context_block \<Rightarrow> string" where
  "contextCacheKey sha256 tenant model b =
     tenant @ CHR 0x00 # model @ CHR 0x00 # cb_id b @ CHR 0x00 # sha256 (cb_exactText b)"

type_synonym render_cache = "(string \<times> string list) list"

text \<open>A hit moves the entry to the end; a full cache drops entries from the front.\<close>

definition cache_get :: "string \<Rightarrow> render_cache \<Rightarrow> string list option \<times> render_cache" where
  "cache_get k c = (case map_of c k of
     None \<Rightarrow> (None, c)
   | Some v \<Rightarrow> (Some v, AList.delete k c @ [(k, v)]))"

definition cache_put :: "nat \<Rightarrow> string \<Rightarrow> string list \<Rightarrow> render_cache \<Rightarrow> render_cache" where
  "cache_put maxEntries k images c = (let c' = AList.update k images c in drop (length c' - maxEntries) c')"

section \<open>Compiling\<close>

record optimization_policy =
  op_enabled :: bool
  op_allowedApps :: "string set"
  op_allowedModels :: "string set"
  op_killedApps :: "string set"
  op_killedModels :: "string set"

definition gate_allows :: "optimization_policy \<Rightarrow> string \<Rightarrow> string \<Rightarrow> bool" where
  "gate_allows p app model \<longleftrightarrow> op_enabled p \<and> app \<in> op_allowedApps p \<and> model \<in> op_allowedModels p
     \<and> app \<notin> op_killedApps p \<and> model \<notin> op_killedModels p"

record compile_scope =
  cs_appId :: string
  cs_tenantId :: string
  cs_modelCapabilities :: "string list option"

datatype representation = AsText string | AsImages "string list"

record rendered_block =
  rb_id :: string
  rb_kind :: block_kind
  rb_content :: representation
  rb_nativeLabel :: string

definition kind_name :: "block_kind \<Rightarrow> string" where
  "kind_name k = (case k of Instructions \<Rightarrow> ''instructions'' | Conversation \<Rightarrow> ''conversation'' | ToolState \<Rightarrow> ''tool-state''
     | Source \<Rightarrow> ''source'' | Logs \<Rightarrow> ''logs'' | Memory \<Rightarrow> ''memory'')"

definition asText :: "context_block \<Rightarrow> rendered_block" where
  "asText b = \<lparr>rb_id = cb_id b, rb_kind = cb_kind b, rb_content = AsText (cb_exactText b), rb_nativeLabel = cb_exactText b\<rparr>"

definition opticalLabel :: "context_block \<Rightarrow> string" where
  "opticalLabel b = ''Optical context '' @ cb_id b @ '' ('' @ kind_name (cb_kind b) @ '')''
     @ (case truthy (cb_provenance b) of None \<Rightarrow> [] | Some p \<Rightarrow> '' from '' @ p)
     @ ''. Exact canonical text is retained for recovery.''"

definition as_images :: "context_block \<Rightarrow> string list \<Rightarrow> rendered_block" where
  "as_images b images = \<lparr>rb_id = cb_id b, rb_kind = cb_kind b, rb_content = AsImages images, rb_nativeLabel = opticalLabel b\<rparr>"

text \<open>
  The compiler. \<open>cc_render\<close> is the renderer, \<open>None\<close> when it throws; a single string counts as a list of
  one. \<open>cc_policy\<close> is the gate with the number of cache entries, when there is a cache.
\<close>

record compiler =
  cc_sha256 :: "string \<Rightarrow> string"
  cc_render :: "context_block \<Rightarrow> string \<Rightarrow> string list option"
  cc_enabledModels :: "string set"
  cc_policy :: "(optimization_policy \<times> nat option) option"

definition may_render :: "compiler \<Rightarrow> string \<Rightarrow> bool \<Rightarrow> compile_scope option \<Rightarrow> bool" where
  "may_render cc model conservative scope \<longleftrightarrow> conservative \<and> model \<in> cc_enabledModels cc
     \<and> (case scope of None \<Rightarrow> False | Some s \<Rightarrow> ''vision'' \<in> set (nullish (cs_modelCapabilities s) []))
     \<and> (case cc_policy cc of None \<Rightarrow> True | Some (gate, entries) \<Rightarrow>
          (case scope of None \<Rightarrow> False | Some s \<Rightarrow> gate_allows gate (cs_appId s) model))"

definition renderable :: "context_block \<Rightarrow> bool" where
  "renderable b \<longleftrightarrow> cb_lossyEligible b \<and> \<not> cb_sensitive b \<and> 1024 \<le> length (cb_exactText b)
     \<and> (cb_kind b = Logs \<or> cb_kind b = Memory)"

definition data_url :: "string \<Rightarrow> bool" where "data_url s \<longleftrightarrow> take 11 s = ''data:image/''"

definition images_ok :: "string list \<Rightarrow> bool" where
  "images_ok images \<longleftrightarrow> images \<noteq> [] \<and> list_all data_url images"

text \<open>The cache of a compiler with the scope of the call, and the key of a block.\<close>

definition cache_of :: "compiler \<Rightarrow> nat option" where
  "cache_of cc = Option.bind (cc_policy cc) snd"

definition cached :: "compiler \<Rightarrow> string \<Rightarrow> compile_scope option \<Rightarrow> context_block \<Rightarrow> render_cache \<Rightarrow> string list option \<times> render_cache" where
  "cached cc model scope b c = (case (scope, cache_of cc) of
     (Some s, Some entries) \<Rightarrow> cache_get (contextCacheKey (cc_sha256 cc) (cs_tenantId s) model b) c
   | _ \<Rightarrow> (None, c))"

text \<open>
  A block up to the first await: either its result is there, or the renderer has been asked. Then, in the
  order in which the renderer answers, the rest: a valid answer enters the cache.
\<close>

datatype block_task = Finished rendered_block | Asked context_block

definition start_block :: "compiler \<Rightarrow> string \<Rightarrow> bool \<Rightarrow> compile_scope option \<Rightarrow> context_block \<Rightarrow> render_cache \<Rightarrow> block_task \<times> render_cache" where
  "start_block cc model conservative scope b c =
     (if \<not> may_render cc model conservative scope \<or> \<not> renderable b then (Finished (asText b), c)
      else case cached cc model scope b c of
        (Some images, c') \<Rightarrow> (Finished (if images_ok images then as_images b images else asText b), c')
      | (None, c') \<Rightarrow> (Asked b, c'))"

primrec start_blocks ::
  "compiler \<Rightarrow> string \<Rightarrow> bool \<Rightarrow> compile_scope option \<Rightarrow> context_block list \<Rightarrow> render_cache \<Rightarrow> block_task list \<times> render_cache" where
  "start_blocks cc model conservative scope [] c = ([], c)"
| "start_blocks cc model conservative scope (b # bs) c =
     (case start_block cc model conservative scope b c of (t, c') \<Rightarrow>
      (case start_blocks cc model conservative scope bs c' of (ts, c'') \<Rightarrow> (t # ts, c'')))"

definition finish_result :: "compiler \<Rightarrow> string \<Rightarrow> block_task \<Rightarrow> rendered_block" where
  "finish_result cc model t = (case t of
     Finished r \<Rightarrow> r
   | Asked b \<Rightarrow> (case cc_render cc b model of
       None \<Rightarrow> asText b
     | Some images \<Rightarrow> if images_ok images then as_images b images else asText b))"

definition finish_cache :: "compiler \<Rightarrow> string \<Rightarrow> compile_scope option \<Rightarrow> block_task \<Rightarrow> render_cache \<Rightarrow> render_cache" where
  "finish_cache cc model scope t c = (case (t, scope, cache_of cc) of
     (Asked b, Some s, Some entries) \<Rightarrow> (case cc_render cc b model of
         Some images \<Rightarrow> if images_ok images
           then cache_put entries (contextCacheKey (cc_sha256 cc) (cs_tenantId s) model b) images c else c
       | None \<Rightarrow> c)
   | _ \<Rightarrow> c)"

text \<open>\<open>compile\<close>; \<open>order\<close> lists the tasks in the order in which they are resumed.\<close>

definition compile_context ::
  "compiler \<Rightarrow> (block_task list \<Rightarrow> block_task list) \<Rightarrow> string \<Rightarrow> bool \<Rightarrow> compile_scope option \<Rightarrow> context_db
    \<Rightarrow> render_cache \<Rightarrow> rendered_block list \<times> render_cache" where
  "compile_context cc order model conservative scope d c =
     (case start_blocks cc model conservative scope (list_blocks d) c of (ts, c') \<Rightarrow>
        (map (finish_result cc model) ts, fold (finish_cache cc model scope) (order ts) c'))"

section \<open>Exact text\<close>

text \<open>The stores that puts can build.\<close>

inductive context_reachable :: "(string \<Rightarrow> string) \<Rightarrow> context_db \<Rightarrow> bool" for sha256 where
  empty: "context_reachable sha256 []"
| put: "context_reachable sha256 d \<Longrightarrow> put_block sha256 now b d = Inr d' \<Longrightarrow> context_reachable sha256 d'"

lemma put_block_cases:
  assumes "put_block sha256 now b d = Inr d'"
  obtains "d' = d" "find_block (cb_id b) d \<noteq> None"
  | r where "d' = d @ [r]" "find_block (br_id r) d = None" "br_id r = cb_id b" "br_exact_text r = cb_exactText b"
      "br_exact_text r \<noteq> []"
  using assms by (auto simp: put_block_def split: if_splits option.splits)

lemma context_ids_distinct: "context_reachable sha256 d \<Longrightarrow> distinct (map br_id d)"
proof (induction rule: context_reachable.induct)
  case (put d now b d')
  from put(2) show ?case
  proof (cases rule: put_block_cases)
    case (2 r)
    then have "br_id r \<notin> set (map br_id d)" by (auto simp: find_block_def find_None_iff)
    with put.IH 2(1) show ?thesis by simp
  qed (use put.IH in simp)
qed simp

text \<open>The exact text of a context block never changes: once a block is stored under an identifier, its text is
  what \<open>fetchExact\<close> returns for ever, whatever else is put, and a put of another text under it fails, as
  long as the digest tells the two texts apart.\<close>

theorem exact_text_immutable:
  assumes "fetchExact i d = Inr t" and "context_reachable sha256 d"
    and "put_block sha256 now b d = Inr d'"
  shows "fetchExact i d' = Inr t \<and> (cb_id b = i \<longrightarrow> (\<exists>r. find_block i d = Some r \<and> br_exact_sha256 r = sha256 (cb_exactText b)))"
  using assms(1,3)
  by (auto simp: fetchExact_def find_block_def put_block_def find_append split: if_splits option.splits)

lemma find_unique: "distinct (map br_id d) \<Longrightarrow> r \<in> set d \<Longrightarrow> find_block (br_id r) d = Some r"
  by (induction d) (auto simp: find_block_def)

lemma listed_recoverable:
  assumes "context_reachable sha256 d" and "b \<in> set (list_blocks d)"
  shows "fetchExact (cb_id b) d = Inr (cb_exactText b)"
proof -
  obtain r where "r \<in> set d" "b = to_block r" using assms(2) by (auto simp: list_blocks_def)
  with find_unique [OF context_ids_distinct [OF assms(1)]] show ?thesis by (simp add: fetchExact_def to_block_def)
qed

section \<open>What the compiler hands out\<close>

text \<open>The task of a block: text, images from the cache, or a question to the renderer.\<close>

lemma start_blocks_shape:
  "start_blocks cc model conservative scope bs c = (ts, c') \<Longrightarrow> length ts = length bs"
  by (induction bs arbitrary: c ts c') (auto split: prod.splits)

definition block_shown :: "compiler \<Rightarrow> string \<Rightarrow> bool \<Rightarrow> compile_scope option \<Rightarrow> context_block \<Rightarrow> rendered_block \<Rightarrow> bool" where
  "block_shown cc model conservative scope b r \<longleftrightarrow> r = asText b
     \<or> (\<exists>images. r = as_images b images \<and> images_ok images \<and> may_render cc model conservative scope \<and> renderable b)"

lemma start_block_shown:
  assumes "start_block cc model conservative scope b c = (t, c')"
  shows "block_shown cc model conservative scope b (finish_result cc model t)"
proof (cases "may_render cc model conservative scope \<and> renderable b")
  case False
  then have "t = Finished (asText b)" using assms by (auto simp: start_block_def)
  then show ?thesis by (simp add: finish_result_def block_shown_def)
next
  case True
  obtain hit c1 where hit: "cached cc model scope b c = (hit, c1)" by fastforce
  have "t = (case hit of Some images \<Rightarrow> Finished (if images_ok images then as_images b images else asText b) | None \<Rightarrow> Asked b)"
    using assms True hit by (cases hit) (auto simp: start_block_def)
  then show ?thesis using True
    by (cases hit; cases "cc_render cc b model") (auto simp: finish_result_def block_shown_def)
qed

lemma start_blocks_shown:
  "start_blocks cc model conservative scope bs c = (ts, c') \<Longrightarrow>
     list_all2 (block_shown cc model conservative scope) bs (map (finish_result cc model) ts)"
proof (induction bs arbitrary: c ts c')
  case (Cons b bs)
  obtain t c1 where t: "start_block cc model conservative scope b c = (t, c1)" by fastforce
  obtain ts' c2 where ts': "start_blocks cc model conservative scope bs c1 = (ts', c2)" by fastforce
  from Cons.prems t ts' have "ts = t # ts'" by simp
  with start_block_shown [OF t] Cons.IH [OF ts'] show ?case by simp
qed simp

text \<open>When a block may be shown as images, spelled out.\<close>

lemma may_render_cases:
  assumes "may_render cc model conservative scope"
  obtains s where "conservative" "model \<in> cc_enabledModels cc" "scope = Some s"
    "''vision'' \<in> set (nullish (cs_modelCapabilities s) [])"
    "\<forall>gate entries. cc_policy cc = Some (gate, entries) \<longrightarrow>
       op_enabled gate \<and> cs_appId s \<in> op_allowedApps gate \<and> model \<in> op_allowedModels gate
       \<and> cs_appId s \<notin> op_killedApps gate \<and> model \<notin> op_killedModels gate"
  using assms by (cases scope; cases "cc_policy cc") (auto simp: may_render_def gate_allows_def)

text \<open>C31: Compiling a context keeps every block, in order, and loses no text. Each block is shown as its exact text, or as a
  non-empty list of data URLs of images; the latter only when the call is in the conservative mode, the model is
  enabled and its capabilities contain vision, the gate (if there is one) is on, allows the app and the model and has
  neither switched off, and the block is lossy eligible, not sensitive, at least 1,024 characters long, and a log or a
  memory. In every case its exact text can be fetched from the store under its identifier.\<close>

theorem compile_keeps_blocks:
  assumes "context_reachable sha256 d" and "compile_context cc order model conservative scope d c = (rs, c')"
  shows "list_all2 (\<lambda>b r. rb_id r = cb_id b \<and> rb_kind r = cb_kind b \<and> fetchExact (rb_id r) d = Inr (cb_exactText b)
    \<and> (rb_content r = AsText (cb_exactText b)
      \<or> (\<exists>images s. rb_content r = AsImages images
          \<and> images \<noteq> [] \<and> list_all (\<lambda>i. take 11 i = ''data:image/'') images
          \<and> conservative \<and> model \<in> cc_enabledModels cc
          \<and> scope = Some s \<and> ''vision'' \<in> set (nullish (cs_modelCapabilities s) [])
          \<and> (\<forall>gate entries. cc_policy cc = Some (gate, entries) \<longrightarrow>
                op_enabled gate \<and> cs_appId s \<in> op_allowedApps gate \<and> model \<in> op_allowedModels gate
                \<and> cs_appId s \<notin> op_killedApps gate \<and> model \<notin> op_killedModels gate)
          \<and> cb_lossyEligible b \<and> \<not> cb_sensitive b \<and> 1024 \<le> length (cb_exactText b) \<and> cb_kind b \<in> {Logs, Memory})))
    (list_blocks d) rs"
proof -
  obtain ts c1 where start: "start_blocks cc model conservative scope (list_blocks d) c = (ts, c1)"
    and rs: "rs = map (finish_result cc model) ts"
    using assms(2) by (auto simp: compile_context_def split: prod.splits)
  show ?thesis unfolding rs
  proof (rule list.rel_mono_strong [OF start_blocks_shown [OF start]])
    fix b r assume "b \<in> set (list_blocks d)" and "block_shown cc model conservative scope b r"
    with listed_recoverable [OF assms(1)]
    show "rb_id r = cb_id b \<and> rb_kind r = cb_kind b \<and> fetchExact (rb_id r) d = Inr (cb_exactText b)
      \<and> (rb_content r = AsText (cb_exactText b)
        \<or> (\<exists>images s. rb_content r = AsImages images
            \<and> images \<noteq> [] \<and> list_all (\<lambda>i. take 11 i = ''data:image/'') images
            \<and> conservative \<and> model \<in> cc_enabledModels cc
            \<and> scope = Some s \<and> ''vision'' \<in> set (nullish (cs_modelCapabilities s) [])
            \<and> (\<forall>gate entries. cc_policy cc = Some (gate, entries) \<longrightarrow>
                  op_enabled gate \<and> cs_appId s \<in> op_allowedApps gate \<and> model \<in> op_allowedModels gate
                  \<and> cs_appId s \<notin> op_killedApps gate \<and> model \<notin> op_killedModels gate)
            \<and> cb_lossyEligible b \<and> \<not> cb_sensitive b \<and> 1024 \<le> length (cb_exactText b) \<and> cb_kind b \<in> {Logs, Memory}))"
      by (auto simp: block_shown_def asText_def as_images_def renderable_def images_ok_def data_url_def [abs_def]
          elim!: may_render_cases)
  qed
qed

section \<open>The cache keeps tenants apart\<close>

text \<open>Every entry comes from a block that was compiled before: \<open>H\<close> holds the tenants, models and blocks.\<close>

definition cache_sound :: "compiler \<Rightarrow> (string \<times> string \<times> context_block) set \<Rightarrow> render_cache \<Rightarrow> bool" where
  "cache_sound cc H c \<longleftrightarrow> (\<forall>(k, images)\<in>set c. \<exists>(tenant, model, b)\<in>H.
     k = contextCacheKey (cc_sha256 cc) tenant model b \<and> cc_render cc b model = Some images)"

inductive cache_history :: "compiler \<Rightarrow> (string \<times> string \<times> context_block) set \<Rightarrow> render_cache \<Rightarrow> bool" for cc where
  fresh: "cache_history cc {} []"
| compile: "cache_history cc H c \<Longrightarrow> compile_context cc order model conservative (Some s) d c = (rs, c') \<Longrightarrow>
    (\<And>ts. set (order ts) \<subseteq> set ts) \<Longrightarrow>
    cache_history cc (H \<union> {(cs_tenantId s, model, b) | b. b \<in> set (list_blocks d)}) c'"

lemma delete_subset: "set (AList.delete k c) \<subseteq> set c"
  by (auto simp: AList.delete_eq)

lemma cache_get_entries: "cache_get k c = (hit, c') \<Longrightarrow> set c' \<subseteq> set c \<and> (\<forall>v. hit = Some v \<longrightarrow> (k, v) \<in> set c)"
  using delete_subset [of k c] map_of_SomeD [of c k] by (cases "map_of c k") (auto simp: cache_get_def)

lemma update_entries: "set (AList.update k v c) \<subseteq> insert (k, v) (set c)"
  by (induction c) auto

lemma cache_put_entries: "set (cache_put n k v c) \<subseteq> insert (k, v) (set c)"
  using update_entries [of k v c] by (auto simp: cache_put_def Let_def dest: in_set_dropD)

lemma sound_mono: "cache_sound cc H c \<Longrightarrow> set c' \<subseteq> set c \<Longrightarrow> H \<subseteq> H' \<Longrightarrow> cache_sound cc H' c'"
  unfolding cache_sound_def by fast

definition scope_key :: "compiler \<Rightarrow> compile_scope \<Rightarrow> string \<Rightarrow> context_block \<Rightarrow> string" where
  "scope_key cc s model b = contextCacheKey (cc_sha256 cc) (cs_tenantId s) model b"

text \<open>A task knows the block it is for; images that are there at once were in the cache under its key.\<close>

definition task_of :: "compiler \<Rightarrow> compile_scope \<Rightarrow> string \<Rightarrow> render_cache \<Rightarrow> context_block \<Rightarrow> block_task \<Rightarrow> bool" where
  "task_of cc s model c b t \<longleftrightarrow> t = Asked b \<or> t = Finished (asText b)
     \<or> (\<exists>images. t = Finished (as_images b images) \<and> (scope_key cc s model b, images) \<in> set c)"

lemma start_block_task:
  assumes "start_block cc model conservative (Some s) b c = (t, c')"
  shows "set c' \<subseteq> set c \<and> task_of cc s model c b t"
proof (cases "may_render cc model conservative (Some s) \<and> renderable b")
  case False
  then show ?thesis using assms by (auto simp: start_block_def task_of_def)
next
  case True
  obtain hit c1 where hit: "cached cc model (Some s) b c = (hit, c1)" by fastforce
  have "set c1 \<subseteq> set c \<and> (\<forall>v. hit = Some v \<longrightarrow> (scope_key cc s model b, v) \<in> set c)"
    using hit by (auto simp: cached_def scope_key_def split: option.splits dest: cache_get_entries)
  moreover have "c' = c1" "t = (case hit of Some images \<Rightarrow> Finished (if images_ok images then as_images b images else asText b) | None \<Rightarrow> Asked b)"
    using assms True hit by (cases hit; auto simp: start_block_def)+
  ultimately show ?thesis by (cases hit) (auto simp: task_of_def)
qed

lemma task_of_mono: "task_of cc s model c' b t \<Longrightarrow> set c' \<subseteq> set c \<Longrightarrow> task_of cc s model c b t"
  by (auto simp: task_of_def)

lemma start_blocks_tasks:
  "start_blocks cc model conservative (Some s) bs c = (ts, c') \<Longrightarrow>
     set c' \<subseteq> set c \<and> list_all2 (task_of cc s model c) bs ts"
proof (induction bs arbitrary: c ts c')
  case (Cons b bs)
  obtain t c1 where t: "start_block cc model conservative (Some s) b c = (t, c1)" by fastforce
  obtain ts' c2 where ts': "start_blocks cc model conservative (Some s) bs c1 = (ts', c2)" by fastforce
  from Cons.prems t ts' have eq: "ts = t # ts'" "c' = c2" by simp_all
  from start_block_task [OF t] Cons.IH [OF ts'] show ?case
    unfolding eq by (auto elim!: list.rel_mono_strong task_of_mono)
qed simp

lemma finish_cache_entries:
  "set (finish_cache cc model (Some s) t c) \<subseteq> set c \<union> {(scope_key cc s model b, im) | b im. t = Asked b \<and> cc_render cc b model = Some im}"
  using cache_put_entries by (fastforce simp: finish_cache_def scope_key_def split: block_task.splits option.splits if_splits)

lemma finish_all_entries:
  "set (fold (finish_cache cc model (Some s)) ts c)
     \<subseteq> set c \<union> {(scope_key cc s model b, im) | b im. Asked b \<in> set ts \<and> cc_render cc b model = Some im}"
proof (induction ts arbitrary: c)
  case (Cons t ts)
  from Cons.IH [of "finish_cache cc model (Some s) t c"] finish_cache_entries [of cc model s t c] show ?case by fastforce
qed simp

lemma asked_listed: "list_all2 (task_of cc s model c) bs ts \<Longrightarrow> Asked b \<in> set ts \<Longrightarrow> b \<in> set bs"
  by (induction rule: list_all2_induct) (auto simp: task_of_def)

lemma history_sound: "cache_history cc H c \<Longrightarrow> cache_sound cc H c"
proof (induction rule: cache_history.induct)
  case (compile H c order model conservative s d rs c')
  obtain ts c1 where start: "start_blocks cc model conservative (Some s) (list_blocks d) c = (ts, c1)"
    and c': "c' = fold (finish_cache cc model (Some s)) (order ts) c1"
    using compile.hyps(2) by (auto simp: compile_context_def split: prod.splits)
  note tasks = start_blocks_tasks [OF start]
  have "set c' \<subseteq> set c \<union> {(scope_key cc s model b, im) | b im. b \<in> set (list_blocks d) \<and> cc_render cc b model = Some im}"
  proof
    fix e assume "e \<in> set c'"
    with finish_all_entries [of cc model s "order ts" c1]
    have "e \<in> set c1 \<or> (\<exists>b im. e = (scope_key cc s model b, im) \<and> Asked b \<in> set (order ts) \<and> cc_render cc b model = Some im)"
      unfolding c' by blast
    with tasks compile.hyps(3) [of ts] asked_listed [OF conjunct2 [OF tasks]]
    show "e \<in> set c \<union> {(scope_key cc s model b, im) | b im. b \<in> set (list_blocks d) \<and> cc_render cc b model = Some im}" by blast
  qed
  with compile.IH show ?case unfolding cache_sound_def scope_key_def by fastforce
qed (simp add: cache_sound_def)

definition no_nul :: "string \<Rightarrow> bool" where "no_nul s \<longleftrightarrow> CHR 0x00 \<notin> set s"

lemma split_at_nul:
  assumes "no_nul a" and "no_nul a'" and "a @ CHR 0x00 # b = a' @ CHR 0x00 # b'"
  shows "a = a' \<and> b = b'"
proof -
  have front: "takeWhile (\<lambda>c. c \<noteq> CHR 0x00) (u @ CHR 0x00 # v) = u" if "no_nul u" for u v
    using that by (induction u) (auto simp: no_nul_def)
  from front [OF assms(1), of b] front [OF assms(2), of b'] assms(3) show ?thesis by simp
qed

lemma cache_key_inj:
  assumes "no_nul t" "no_nul m" "no_nul (cb_id b)" "no_nul t'" "no_nul m'" "no_nul (cb_id b')"
    and "contextCacheKey sha t m b = contextCacheKey sha t' m' b'"
  shows "t = t' \<and> m = m' \<and> cb_id b = cb_id b' \<and> sha (cb_exactText b) = sha (cb_exactText b')"
proof -
  have "t = t' \<and> m @ CHR 0x00 # cb_id b @ CHR 0x00 # sha (cb_exactText b) = m' @ CHR 0x00 # cb_id b' @ CHR 0x00 # sha (cb_exactText b')"
    by (rule split_at_nul) (use assms in \<open>simp_all add: contextCacheKey_def\<close>)
  moreover from this have "m = m' \<and> cb_id b @ CHR 0x00 # sha (cb_exactText b) = cb_id b' @ CHR 0x00 # sha (cb_exactText b')"
    by (intro split_at_nul) (use assms in simp_all)
  moreover from this have "cb_id b = cb_id b' \<and> sha (cb_exactText b) = sha (cb_exactText b')"
    by (intro split_at_nul) (use assms in simp_all)
  ultimately show ?thesis by blast
qed

text \<open>The cache of rendered blocks keeps tenants apart. When compilations of any tenants share one cache, images that a
  tenant is shown for a block were rendered by the same model from a block with the same identifier and
  the same digest of the text, and that block was compiled for the same tenant, as long as the names
  hold no NUL character.\<close>

theorem cache_keeps_tenants_apart:
  assumes "cache_history cc H c" and "compile_context cc order model conservative (Some s) d c = (rs, c')"
    and "\<And>t m b. (t, m, b) \<in> H \<union> {(cs_tenantId s, model, b) | b. b \<in> set (list_blocks d)} \<Longrightarrow> no_nul t \<and> no_nul m \<and> no_nul (cb_id b)"
    and "(b, r) \<in> set (zip (list_blocks d) rs)" and "rb_content r = AsImages images"
  shows "\<exists>b'. ((cs_tenantId s, model, b') \<in> H \<or> b' = b) \<and> cb_id b' = cb_id b
    \<and> cc_sha256 cc (cb_exactText b') = cc_sha256 cc (cb_exactText b) \<and> cc_render cc b' model = Some images"
proof -
  obtain ts c1 where start: "start_blocks cc model conservative (Some s) (list_blocks d) c = (ts, c1)"
    and rs: "rs = map (finish_result cc model) ts"
    using assms(2) by (auto simp: compile_context_def split: prod.splits)
  have b: "b \<in> set (list_blocks d)" using assms(4) by (rule set_zip_leftD)
  from assms(4) obtain t where "(b, t) \<in> set (zip (list_blocks d) ts)" and r: "r = finish_result cc model t"
    by (auto simp: rs zip_map2)
  then have "task_of cc s model c b t" using start_blocks_tasks [OF start] by (auto simp: list_all2_iff)
  then consider "t = Asked b" | "(scope_key cc s model b, images) \<in> set c"
    using r assms(5) by (auto simp: task_of_def finish_result_def asText_def as_images_def)
  then show ?thesis
  proof cases
    case 1
    with r assms(5) show ?thesis
      by (intro exI [of _ b]) (auto simp: finish_result_def asText_def as_images_def split: option.splits if_splits)
  next
    case 2
    with history_sound [OF assms(1)] obtain t m b' where o: "(t, m, b') \<in> H"
      "scope_key cc s model b = contextCacheKey (cc_sha256 cc) t m b'" "cc_render cc b' m = Some images"
      unfolding cache_sound_def by fastforce
    have "no_nul (cs_tenantId s) \<and> no_nul model \<and> no_nul (cb_id b)" "no_nul t \<and> no_nul m \<and> no_nul (cb_id b')"
      using assms(3) b o(1) by blast+
    with cache_key_inj [of "cs_tenantId s" model b t m b' "cc_sha256 cc"] o show ?thesis by (auto simp: scope_key_def)
  qed
qed

section \<open>An example\<close>

definition log_block :: context_block where
  "log_block = \<lparr>cb_id = ''l'', cb_kind = Logs, cb_exactText = replicate 1024 CHR ''x'', cb_lossyEligible = True,
     cb_sensitive = False, cb_provenance = None, cb_timeRange = None\<rparr>"

definition log_db :: context_db where
  "log_db = (case put_block id 1 log_block [] of Inl e \<Rightarrow> [] | Inr d \<Rightarrow> d)"

definition example_compiler :: compiler where
  "example_compiler = \<lparr>cc_sha256 = id, cc_render = (\<lambda>b m. Some [''data:image/png'']), cc_enabledModels = {''m''},
     cc_policy = Some (\<lparr>op_enabled = True, op_allowedApps = {''a''}, op_allowedModels = {''m''}, op_killedApps = {},
       op_killedModels = {}\<rparr>, Some 8)\<rparr>"

definition example_scope :: compile_scope where
  "example_scope = \<lparr>cs_appId = ''a'', cs_tenantId = ''t'', cs_modelCapabilities = Some [''vision'']\<rparr>"

lemma log_put: "put_block id 1 log_block [] = Inr log_db"
  by (simp add: log_db_def put_block_def log_block_def find_block_def)

lemma log_list: "list_blocks log_db = [log_block]"
  by (simp add: log_db_def put_block_def list_blocks_def find_block_def to_block_def) (simp add: log_block_def truthy_def)

lemma log_reachable: "context_reachable id log_db"
  by (rule context_reachable.put [OF context_reachable.empty log_put])

definition first_compile :: "rendered_block list \<times> render_cache" where
  "first_compile = compile_context example_compiler id ''m'' True (Some example_scope) log_db []"

lemma first_compile: "first_compile = ([as_images log_block [''data:image/png'']],
    [(scope_key example_compiler example_scope ''m'' log_block, [''data:image/png''])])"
  unfolding first_compile_def compile_context_def log_list
  by (simp add: start_block_def may_render_def renderable_def example_compiler_def example_scope_def gate_allows_def cached_def
      cache_of_def cache_get_def finish_result_def finish_cache_def cache_put_def images_ok_def data_url_def scope_key_def
      log_block_def)

lemma exact_text_immutable_witness: "fetchExact ''l'' (log_db @ []) = Inr (replicate 1024 CHR ''x'')"
proof -
  have exact: "fetchExact ''l'' log_db = Inr (replicate 1024 CHR ''x'')"
    using listed_recoverable [OF log_reachable, of log_block] by (simp add: log_list) (simp add: log_block_def)
  have "put_block id 2 log_block log_db = Inr log_db"
    by (simp add: log_db_def put_block_def find_block_def) (simp add: log_block_def)
  from exact_text_immutable [OF exact log_reachable this] show ?thesis by simp
qed

lemma compile_keeps_blocks_witness: "list_all2 (\<lambda>b r. rb_id r = cb_id b) [log_block] (fst first_compile)"
proof -
  obtain rs c' where run: "compile_context example_compiler id ''m'' True (Some example_scope) log_db [] = (rs, c')" by fastforce
  from compile_keeps_blocks [OF log_reachable run] run show ?thesis
    by (auto simp: log_list first_compile_def elim!: list.rel_mono_strong)
qed

lemma cache_keeps_tenants_apart_witness:
  "\<exists>b'. cb_id b' = ''l'' \<and> cc_render example_compiler b' ''m'' = Some [''data:image/png'']"
proof -
  have hist: "cache_history example_compiler ({} \<union> {(cs_tenantId example_scope, ''m'', b) | b. b \<in> set (list_blocks log_db)})
      (snd first_compile)"
    by (rule cache_history.compile [OF fresh, where order = id and conservative = True and d = log_db and rs = "fst first_compile"])
      (simp_all add: first_compile_def)
  obtain rs c' where run: "compile_context example_compiler id ''m'' True (Some example_scope) log_db (snd first_compile) = (rs, c')"
    by fastforce
  have rs: "rs = [as_images log_block [''data:image/png'']]"
    using run unfolding compile_context_def log_list first_compile
    by (auto simp: start_block_def may_render_def renderable_def example_compiler_def example_scope_def gate_allows_def cached_def
        cache_of_def cache_get_def finish_result_def images_ok_def data_url_def scope_key_def log_block_def)
  have "\<exists>b'. ((cs_tenantId example_scope, ''m'', b') \<in> {} \<union> {(cs_tenantId example_scope, ''m'', b) | b. b \<in> set (list_blocks log_db)} \<or> b' = log_block)
      \<and> cb_id b' = cb_id log_block \<and> cc_sha256 example_compiler (cb_exactText b') = cc_sha256 example_compiler (cb_exactText log_block)
      \<and> cc_render example_compiler b' ''m'' = Some [''data:image/png'']"
    by (rule cache_keeps_tenants_apart [OF hist run, of log_block "as_images log_block [''data:image/png'']"])
      (auto simp: log_list rs no_nul_def example_scope_def as_images_def, simp add: log_block_def)
  then show ?thesis by (auto simp: log_block_def)
qed

end
