(* ===== verification/MemoryStore.thy ===== *)
theory MemoryStore
  imports StoreTables
begin

text \<open>
  The memories of the workspaces, \<open>packages/memory-sqlite/src/index.ts\<close>: a table with a full-text index beside it, and the
  search that adds the matches of an optional vector index. Everything is scoped by tenant and workspace.
\<close>

section \<open>The tables\<close>

record memory_entry =
  me_id :: string
  me_tenantId :: string
  me_workspaceId :: string
  me_markdown :: string
  me_createdAt :: timestamp

record fts_row =
  ft_id :: string
  ft_tenant_id :: string
  ft_workspace_id :: string
  ft_markdown :: string

record memory_db =
  memories :: "memory_entry list"
  memories_fts :: "fts_row list"

datatype memory_error = ScopeInvalid | MarkdownInvalid | LimitInvalid | DuplicateMemory

definition validateScope :: "string \<Rightarrow> string \<Rightarrow> memory_error + unit" where
  "validateScope tenant workspace =
     throw_if (trim tenant = [] \<or> trim workspace = [] \<or> 256 < length tenant \<or> 256 < length workspace) ScopeInvalid"

text \<open>\<open>add\<close>; \<open>bytes\<close> is \<open>Buffer.byteLength\<close>, \<open>fresh\<close> the random identifier, which is the primary key.\<close>

definition add_memory ::
  "(string \<Rightarrow> nat) \<Rightarrow> timestamp \<Rightarrow> string \<Rightarrow> string \<Rightarrow> string \<Rightarrow> string \<Rightarrow> memory_db \<Rightarrow> memory_error + memory_entry \<times> memory_db" where
  "add_memory bytes now fresh tenant workspace markdown d =
     bind_result (validateScope tenant workspace) (\<lambda>_.
     bind_result (throw_if (trim markdown = [] \<or> 256 * 1024 < bytes markdown) MarkdownInvalid) (\<lambda>_.
     let entry = \<lparr>me_id = ''mem_'' @ fresh, me_tenantId = tenant, me_workspaceId = workspace, me_markdown = markdown,
                  me_createdAt = now\<rparr> in
     if list_ex (\<lambda>m. me_id m = me_id entry) (memories d) then Inl DuplicateMemory
     else Inr (entry, d\<lparr>memories := memories d @ [entry],
            memories_fts := memories_fts d @ [\<lparr>ft_id = me_id entry, ft_tenant_id = tenant, ft_workspace_id = workspace,
              ft_markdown = markdown\<rparr>]\<rparr>)))"

section \<open>The expression of a search\<close>

fun words_of :: "string \<Rightarrow> string \<Rightarrow> string list" where
  "words_of w [] = (if w = [] then [] else [w])"
| "words_of w (c # s) = (if is_blank c then (if w = [] then words_of [] s else w # words_of [] s) else words_of (w @ [c]) s)"

text \<open>A token becomes a string of the query language: between double quotes, with its own quotes doubled.\<close>

fun double_quotes :: "string \<Rightarrow> string" where
  "double_quotes [] = []"
| "double_quotes (c # s) = (if c = CHR 0x22 then CHR 0x22 # CHR 0x22 # double_quotes s else c # double_quotes s)"

definition quoted :: "string \<Rightarrow> string" where
  "quoted t = CHR 0x22 # double_quotes t @ [CHR 0x22]"

fun conjunction :: "string list \<Rightarrow> string" where
  "conjunction [] = []"
| "conjunction [t] = quoted t"
| "conjunction (t # ts) = quoted t @ '' AND '' @ conjunction ts"

definition match_expression :: "string \<Rightarrow> string" where
  "match_expression query = conjunction (words_of [] query)"

section \<open>Searching\<close>

text \<open>The full-text index: whether an expression matches a text, and the rank of the match.\<close>

record fts_engine =
  fe_match :: "string \<Rightarrow> string \<Rightarrow> bool"
  fe_rank :: "string \<Rightarrow> string \<Rightarrow> num"

definition find_memory :: "string \<Rightarrow> memory_db \<Rightarrow> memory_entry option" where
  "find_memory i d = List.find (\<lambda>m. me_id m = i) (memories d)"

definition search_memories ::
  "fts_engine \<Rightarrow> string \<Rightarrow> string \<Rightarrow> string \<Rightarrow> int \<Rightarrow> memory_db \<Rightarrow> memory_error + memory_entry list" where
  "search_memories fts tenant workspace query limit d =
     bind_result (validateScope tenant workspace) (\<lambda>_.
     bind_result (throw_if (limit < 1 \<or> 100 < limit) LimitInvalid) (\<lambda>_.
     let expr = match_expression query in
     if expr = [] then Inr []
     else Inr (take (nat limit) (List.map_filter (\<lambda>f. find_memory (ft_id f) d)
       (sort_key (\<lambda>f. fe_rank fts expr (ft_markdown f))
         (filter (\<lambda>f. fe_match fts expr (ft_markdown f) \<and> ft_tenant_id f = tenant \<and> ft_workspace_id f = workspace)
           (memories_fts d)))))))"

definition get_memory :: "string \<Rightarrow> string \<Rightarrow> string \<Rightarrow> memory_db \<Rightarrow> memory_error + memory_entry option" where
  "get_memory tenant workspace i d =
     bind_result (validateScope tenant workspace) (\<lambda>_.
       Inr (List.find (\<lambda>m. me_id m = i \<and> me_tenantId m = tenant \<and> me_workspaceId m = workspace) (memories d)))"

definition remove_memory :: "string \<Rightarrow> string \<Rightarrow> string \<Rightarrow> memory_db \<Rightarrow> memory_error + bool \<times> memory_db" where
  "remove_memory tenant workspace i d =
     bind_result (validateScope tenant workspace) (\<lambda>_.
       let hit = (\<lambda>m. me_id m = i \<and> me_tenantId m = tenant \<and> me_workspaceId m = workspace);
           changes = count_rows hit (memories d) in
       Inr (changes = 1, d\<lparr>memories := delete_rows hit (memories d),
         memories_fts := if changes = 1 then delete_rows (\<lambda>f. ft_id f = i) (memories_fts d) else memories_fts d\<rparr>))"

text \<open>\<open>HybridMemorySearch.search\<close>: \<open>vectors\<close> is what the vector index finds, with scores; the best first.\<close>

fun add_semantic ::
  "string \<Rightarrow> string \<Rightarrow> int \<Rightarrow> memory_db \<Rightarrow> (string \<times> num) list \<Rightarrow> memory_entry list \<Rightarrow> memory_error + memory_entry list" where
  "add_semantic tenant workspace limit d [] found = Inr found"
| "add_semantic tenant workspace limit d ((i, sc) # rest) found =
     (if i \<in> me_id ` set found then add_semantic tenant workspace limit d rest found
      else bind_result (get_memory tenant workspace i d) (\<lambda>e.
        let found' = (case e of None \<Rightarrow> found | Some e \<Rightarrow> found @ [e]) in
        if limit \<le> int (length found') then Inr found' else add_semantic tenant workspace limit d rest found'))"

definition hybrid_search ::
  "fts_engine \<Rightarrow> (string \<Rightarrow> string \<Rightarrow> string \<Rightarrow> int \<Rightarrow> (string \<times> num) list) option \<Rightarrow> string \<Rightarrow> string \<Rightarrow> string \<Rightarrow> int \<Rightarrow> memory_db
    \<Rightarrow> memory_error + memory_entry list" where
  "hybrid_search fts vectors tenant workspace query limit d =
     bind_result (search_memories fts tenant workspace query limit d) (\<lambda>found.
       case vectors of
         None \<Rightarrow> Inr found
       | Some vs \<Rightarrow>
           if limit \<le> int (length found) then Inr found
           else add_semantic tenant workspace limit d (sort_key (\<lambda>(i, sc). - sc) (vs tenant workspace query limit)) found)"

section \<open>The index follows the table\<close>

definition index_row :: "memory_entry \<Rightarrow> fts_row" where
  "index_row m = \<lparr>ft_id = me_id m, ft_tenant_id = me_tenantId m, ft_workspace_id = me_workspaceId m, ft_markdown = me_markdown m\<rparr>"

definition memory_ok :: "memory_db \<Rightarrow> bool" where
  "memory_ok d \<longleftrightarrow> memories_fts d = map index_row (memories d) \<and> distinct (map me_id (memories d))"

inductive memory_reachable :: "memory_db \<Rightarrow> bool" where
  empty: "memory_reachable \<lparr>memories = [], memories_fts = []\<rparr>"
| add: "memory_reachable d \<Longrightarrow> add_memory bytes now fresh tenant workspace markdown d = Inr (e, d') \<Longrightarrow> memory_reachable d'"
| remove: "memory_reachable d \<Longrightarrow> remove_memory tenant workspace i d = Inr (b, d') \<Longrightarrow> memory_reachable d'"

lemma index_row_simps [simp]:
  "ft_id (index_row m) = me_id m" "ft_tenant_id (index_row m) = me_tenantId m" "ft_workspace_id (index_row m) = me_workspaceId m"
  "ft_markdown (index_row m) = me_markdown m"
  by (simp_all add: index_row_def)

lemma add_memory_ok:
  assumes "memory_ok d" and "add_memory bytes now fresh tenant workspace markdown d = Inr (e, d')"
  shows "memory_ok d'"
proof -
  have e: "e = \<lparr>me_id = ''mem_'' @ fresh, me_tenantId = tenant, me_workspaceId = workspace, me_markdown = markdown, me_createdAt = now\<rparr>"
    and new: "\<not> list_ex (\<lambda>m. me_id m = me_id e) (memories d)"
    and d': "d' = d\<lparr>memories := memories d @ [e], memories_fts := memories_fts d @ [index_row e]\<rparr>"
    using assms(2) by (auto simp: add_memory_def result_simps Let_def index_row_def split: if_splits)
  have "me_id e \<notin> me_id ` set (memories d)" using new by (auto simp: list_ex_iff)
  with assms(1) show ?thesis by (simp add: memory_ok_def d')
qed

lemma delete_index:
  "distinct (map me_id ms) \<Longrightarrow> m \<in> set ms \<Longrightarrow> me_id m = i \<Longrightarrow> P m \<Longrightarrow>
     delete_rows (\<lambda>f. ft_id f = i) (map index_row ms) = map index_row (delete_rows (\<lambda>m. me_id m = i \<and> P m) ms)"
proof (induction ms)
  case (Cons a ms)
  have others: "delete_rows (\<lambda>f. ft_id f = i) (map index_row ms) = map index_row ms
      \<and> delete_rows (\<lambda>m. me_id m = i \<and> P m) ms = ms" if "i \<notin> me_id ` set ms"
    using that by (induction ms) (auto simp: delete_rows_def)
  show ?case
  proof (cases "me_id a = i")
    case True
    with Cons.prems have "a = m" by auto
    with True others Cons.prems show ?thesis by (auto simp: delete_rows_def)
  next
    case False
    with Cons show ?thesis by (auto simp: delete_rows_def)
  qed
qed simp

lemma remove_memory_ok: "memory_ok d \<Longrightarrow> remove_memory tenant workspace i d = Inr (b, d') \<Longrightarrow> memory_ok d'"
proof -
  assume ok: "memory_ok d" and run: "remove_memory tenant workspace i d = Inr (b, d')"
  let ?hit = "\<lambda>m. me_id m = i \<and> me_tenantId m = tenant \<and> me_workspaceId m = workspace"
  have d': "d' = d\<lparr>memories := delete_rows ?hit (memories d),
      memories_fts := if count_rows ?hit (memories d) = 1 then delete_rows (\<lambda>f. ft_id f = i) (memories_fts d) else memories_fts d\<rparr>"
    using run by (auto simp: remove_memory_def result_simps Let_def)
  have dist: "distinct (map me_id (delete_rows ?hit (memories d)))"
    using ok by (simp add: memory_ok_def delete_rows_def distinct_map_filter)
  show "memory_ok d'"
  proof (cases "\<exists>m\<in>set (memories d). ?hit m")
    case True
    then obtain m where m: "m \<in> set (memories d)" "?hit m" by blast
    have unique: "x = m" if "x \<in> set (memories d)" "?hit x" for x
      using that m ok by (auto simp: memory_ok_def distinct_map dest: inj_onD)
    have "distinct (filter ?hit (memories d))" using ok by (simp add: memory_ok_def distinct_map)
    then have "length (filter ?hit (memories d)) = card (set (filter ?hit (memories d)))" by (rule distinct_card [symmetric])
    also have "set (filter ?hit (memories d)) = {m}" unfolding set_filter using unique m by blast
    finally have one: "count_rows ?hit (memories d) = 1" by (simp add: count_rows_def)
    with ok dist delete_index [of "memories d" m i "\<lambda>m. me_tenantId m = tenant \<and> me_workspaceId m = workspace"] m
    show ?thesis by (simp add: memory_ok_def d')
  next
    case False
    then have "filter ?hit (memories d) = []" "delete_rows ?hit (memories d) = memories d"
      by (auto simp: filter_empty_conv delete_rows_def filter_id_conv)
    with ok show ?thesis by (simp add: memory_ok_def d' count_rows_def)
  qed
qed

lemma reachable_memory_ok: "memory_reachable d \<Longrightarrow> memory_ok d"
  by (induction rule: memory_reachable.induct) (simp add: memory_ok_def, blast intro: add_memory_ok, blast intro: remove_memory_ok)

section \<open>Searches stay in their scope\<close>

lemma indexed: "memory_ok d \<Longrightarrow> f \<in> set (memories_fts d) \<Longrightarrow>
    \<exists>m\<in>set (memories d). find_memory (ft_id f) d = Some m \<and> f = index_row m"
proof -
  assume ok: "memory_ok d" and "f \<in> set (memories_fts d)"
  then obtain m where m: "m \<in> set (memories d)" "f = index_row m" by (auto simp: memory_ok_def)
  have "distinct (map me_id ms) \<Longrightarrow> m \<in> set ms \<Longrightarrow> List.find (\<lambda>x. me_id x = me_id m) ms = Some m" for ms
    by (induction ms) auto
  with ok m show ?thesis by (auto simp: memory_ok_def find_memory_def)
qed

text \<open>The rows that match, in order, are entries of the table.\<close>

lemma looked_up:
  assumes ok: "memory_ok d" and "set fs \<subseteq> set (memories_fts d)"
  shows "map me_id (List.map_filter (\<lambda>f. find_memory (ft_id f) d) fs) = map ft_id fs"
    and "set (List.map_filter (\<lambda>f. find_memory (ft_id f) d) fs) \<subseteq> {m \<in> set (memories d). index_row m \<in> set fs}"
  using assms(2) by (induction fs) (auto simp: map_filter_simps dest: indexed [OF ok] split: option.splits)

lemma search_result:
  assumes ok: "memory_ok d" and "search_memories fts tenant workspace query limit d = Inr ms"
  shows "distinct (map me_id ms) \<and> int (length ms) \<le> limit
    \<and> (\<forall>m\<in>set ms. m \<in> set (memories d) \<and> me_tenantId m = tenant \<and> me_workspaceId m = workspace
         \<and> fe_match fts (match_expression query) (me_markdown m))"
proof -
  let ?fs = "sort_key (\<lambda>f. fe_rank fts (match_expression query) (ft_markdown f))
         (filter (\<lambda>f. fe_match fts (match_expression query) (ft_markdown f) \<and> ft_tenant_id f = tenant \<and> ft_workspace_id f = workspace)
           (memories_fts d))"
  let ?all = "List.map_filter (\<lambda>f. find_memory (ft_id f) d) ?fs"
  have ms: "ms = [] \<or> ms = take (nat limit) ?all" and limit: "1 \<le> limit"
    using assms(2) by (auto simp: search_memories_def result_simps Let_def split: if_splits)
  have sub: "set ?fs \<subseteq> set (memories_fts d)" by auto
  have "distinct (map ft_id (memories_fts d))" using ok by (simp add: memory_ok_def comp_def)
  then have "distinct (map ft_id ?fs)"
    by (simp add: distinct_map) (auto intro: inj_on_subset)
  then have "distinct (map me_id ?all)" by (simp add: looked_up(1) [OF ok sub])
  then have dist: "distinct (map me_id ms)" using ms by (auto simp: take_map [symmetric])
  have len: "int (length ms) \<le> limit" using ms limit by auto
  have "set ms \<subseteq> set ?all" using ms by (auto dest: in_set_takeD)
  with looked_up(2) [OF ok sub] have "\<forall>m\<in>set ms. m \<in> set (memories d) \<and> index_row m \<in> set ?fs" by blast
  then have "\<forall>m\<in>set ms. m \<in> set (memories d) \<and> me_tenantId m = tenant \<and> me_workspaceId m = workspace
      \<and> fe_match fts (match_expression query) (me_markdown m)" by auto
  with dist len show ?thesis by blast
qed

lemma get_memory_scope:
  "get_memory tenant workspace i d = Inr (Some m) \<Longrightarrow>
     m \<in> set (memories d) \<and> me_id m = i \<and> me_tenantId m = tenant \<and> me_workspaceId m = workspace"
  by (auto simp: get_memory_def result_simps dest: find_SomeD)

definition in_scope :: "string \<Rightarrow> string \<Rightarrow> memory_db \<Rightarrow> memory_entry list \<Rightarrow> bool" where
  "in_scope tenant workspace d ms \<longleftrightarrow> distinct (map me_id ms)
     \<and> (\<forall>m\<in>set ms. m \<in> set (memories d) \<and> me_tenantId m = tenant \<and> me_workspaceId m = workspace)"

lemma add_semantic_scope:
  "add_semantic tenant workspace limit d found0 found = Inr ms \<Longrightarrow> in_scope tenant workspace d found \<Longrightarrow>
     int (length found) < limit \<Longrightarrow>
     in_scope tenant workspace d ms \<and> int (length ms) \<le> limit \<and> (\<exists>rest. ms = found @ rest)"
proof (induction tenant workspace limit d found0 found rule: add_semantic.induct)
  case (2 tenant workspace limit d i sc rest found)
  show ?case
  proof (cases "i \<in> me_id ` set found")
    case True
    with "2.IH"(1) "2.prems" show ?thesis by simp
  next
    case False
    obtain e where e: "get_memory tenant workspace i d = Inr e"
      using "2.prems"(1) False by (auto simp: result_simps)
    let ?found = "case e of None \<Rightarrow> found | Some e \<Rightarrow> found @ [e]"
    have scope: "in_scope tenant workspace d ?found" and len: "int (length ?found) \<le> limit" and front: "\<exists>us. ?found = found @ us"
      using "2.prems"(2,3) False e by (auto simp: in_scope_def dest: get_memory_scope split: option.splits)
    show ?thesis
    proof (cases "limit \<le> int (length ?found)")
      case True
      with "2.prems"(1) False e have "ms = ?found" by (simp add: Let_def)
      with scope len front show ?thesis by simp
    next
      case more: False
      with "2.prems"(1) False e have "add_semantic tenant workspace limit d rest ?found = Inr ms" by (simp add: Let_def)
      with "2.IH"(2) [OF False refl] more scope have "in_scope tenant workspace d ms \<and> int (length ms) \<le> limit \<and> (\<exists>us. ms = ?found @ us)"
        by simp
      with front show ?thesis by (metis append.assoc)
    qed
  qed
qed simp

text \<open>A search never leaves its tenant and workspace, whatever the vector index says. The results are stored memories of
  the scope, none twice and at most the limit, and they start with those of the exact search, which match
  the query.\<close>

theorem memory_search_scoped:
  assumes "memory_reachable d" and "hybrid_search fts vectors tenant workspace query limit d = Inr ms"
  shows "(\<forall>m\<in>set ms. m \<in> set (memories d) \<and> me_tenantId m = tenant \<and> me_workspaceId m = workspace)
    \<and> distinct (map me_id ms) \<and> int (length ms) \<le> limit
    \<and> (\<exists>exact rest. search_memories fts tenant workspace query limit d = Inr exact \<and> ms = exact @ rest
        \<and> (\<forall>m\<in>set exact. fe_match fts (match_expression query) (me_markdown m)))"
proof -
  note ok = reachable_memory_ok [OF assms(1)]
  obtain exact where exact: "search_memories fts tenant workspace query limit d = Inr exact"
    using assms(2) by (auto simp: hybrid_search_def result_simps)
  note found = search_result [OF ok exact]
  then have scope: "in_scope tenant workspace d exact" by (auto simp: in_scope_def)
  consider "ms = exact" | vs where "int (length exact) < limit" "add_semantic tenant workspace limit d vs exact = Inr ms"
    using assms(2) exact by (auto simp: hybrid_search_def split: option.splits if_splits)
  then show ?thesis
  proof cases
    case 1
    with found exact show ?thesis by auto
  next
    case 2
    with add_semantic_scope [OF 2(2) scope 2(1)] found exact show ?thesis by (auto simp: in_scope_def)
  qed
qed

text \<open>Removing a memory touches only the scope it is removed from.\<close>

lemma remove_memory_scoped:
  assumes "remove_memory tenant workspace i d = Inr (b, d')" and "me_tenantId m \<noteq> tenant \<or> me_workspaceId m \<noteq> workspace"
  shows "m \<in> set (memories d') \<longleftrightarrow> m \<in> set (memories d)"
  using assms by (auto simp: remove_memory_def result_simps Let_def)

section \<open>The query language cannot be reached\<close>

text \<open>The strings of the full-text query language: up to a quote that is not doubled.\<close>

fun read_string :: "string \<Rightarrow> (string \<times> string) option" where
  "read_string [] = None"
| "read_string (c # s) =
     (if c \<noteq> CHR 0x22 then map_option (\<lambda>(t, r). (c # t, r)) (read_string s)
      else case s of
        [] \<Rightarrow> Some ([], [])
      | d # s' \<Rightarrow> if d = CHR 0x22 then map_option (\<lambda>(t, r). (CHR 0x22 # t, r)) (read_string s') else Some ([], s))"

text \<open>A conjunction of strings, as the list of their contents.\<close>

inductive parses :: "string \<Rightarrow> string list \<Rightarrow> bool" where
  one: "read_string s = Some (t, []) \<Longrightarrow> parses (CHR 0x22 # s) [t]"
| conj: "read_string s = Some (t, '' AND '' @ r) \<Longrightarrow> parses r ts \<Longrightarrow> parses (CHR 0x22 # s) (t # ts)"

lemma read_doubled:
  "r = [] \<or> hd r \<noteq> CHR 0x22 \<Longrightarrow> read_string (double_quotes t @ CHR 0x22 # r) = Some (t, r)"
  by (induction t) (auto split: list.split)

lemma parses_conjunction: "ts \<noteq> [] \<Longrightarrow> parses (conjunction ts) ts"
proof (induction ts rule: conjunction.induct)
  case (2 t)
  show ?case by (auto simp: quoted_def intro!: parses.one read_doubled)
next
  case (3 t u ts)
  have "read_string (double_quotes t @ CHR 0x22 # '' AND '' @ conjunction (u # ts)) = Some (t, '' AND '' @ conjunction (u # ts))"
    by (rule read_doubled) simp
  with parses.conj [OF this] 3 show ?case by (simp add: quoted_def)
qed simp

text \<open>A query cannot inject syntax into the full-text search. Whatever characters it holds, the expression that is built
  reads back as the conjunction of its words, each a string taken literally; it is empty only when
  the query has no word.\<close>

theorem query_is_quoted:
  "if words_of [] query = [] then match_expression query = [] else parses (match_expression query) (words_of [] query)"
  by (simp add: match_expression_def parses_conjunction)

lemma parses_unique: "parses s ts \<Longrightarrow> parses s us \<Longrightarrow> ts = us"
proof (induction arbitrary: us rule: parses.induct)
  case (one s t)
  from one.prems one.hyps show ?case by (cases rule: parses.cases) auto
next
  case (conj s t r ts)
  from conj.prems show ?case
  proof (cases rule: parses.cases)
    case (conj t' r' ts')
    with \<open>read_string s = Some (t, '' AND '' @ r)\<close> \<open>\<And>us. parses r us \<Longrightarrow> ts = us\<close> show ?thesis by auto
  qed (use conj.hyps(1) in auto)
qed

section \<open>An example\<close>

definition every_text :: fts_engine where "every_text = \<lparr>fe_match = (\<lambda>e t. True), fe_rank = (\<lambda>e t. 0)\<rparr>"

definition entry1 :: memory_entry where
  "entry1 = \<lparr>me_id = ''mem_1'', me_tenantId = ''t'', me_workspaceId = ''w'', me_markdown = ''hello'', me_createdAt = 1\<rparr>"

definition entry2 :: memory_entry where
  "entry2 = \<lparr>me_id = ''mem_2'', me_tenantId = ''other'', me_workspaceId = ''w'', me_markdown = ''secret'', me_createdAt = 2\<rparr>"

definition two_tenants :: memory_db where
  "two_tenants = \<lparr>memories = [entry1, entry2], memories_fts = [index_row entry1, index_row entry2]\<rparr>"

lemma two_tenants_reachable: "memory_reachable two_tenants"
proof -
  have 1: "add_memory length 1 ''1'' ''t'' ''w'' ''hello'' \<lparr>memories = [], memories_fts = []\<rparr>
      = Inr (entry1, \<lparr>memories = [entry1], memories_fts = [index_row entry1]\<rparr>)"
    by (simp add: add_memory_def validateScope_def trim_def is_blank_def entry1_def index_row_def Let_def)
  have 2: "add_memory length 2 ''2'' ''other'' ''w'' ''secret'' \<lparr>memories = [entry1], memories_fts = [index_row entry1]\<rparr>
      = Inr (entry2, two_tenants)"
    by (simp add: add_memory_def validateScope_def trim_def is_blank_def entry1_def entry2_def index_row_def two_tenants_def Let_def)
  show ?thesis by (rule memory_reachable.add [OF memory_reachable.add [OF memory_reachable.empty 1] 2])
qed

lemma memory_search_scoped_witness:
  "\<exists>ms. hybrid_search every_text (Some (\<lambda>t w q l. [(''mem_2'', 9), (''mem_1'', 1)])) ''t'' ''w'' ''hello'' 5 two_tenants = Inr ms
     \<and> (\<forall>m\<in>set ms. me_tenantId m = ''t'')"
proof -
  have "is_ok (hybrid_search every_text (Some (\<lambda>t w q l. [(''mem_2'', 9), (''mem_1'', 1)])) ''t'' ''w'' ''hello'' 5 two_tenants)"
    by code_simp
  then obtain ms where "hybrid_search every_text (Some (\<lambda>t w q l. [(''mem_2'', 9), (''mem_1'', 1)])) ''t'' ''w'' ''hello'' 5 two_tenants = Inr ms"
    by (metis is_ok.elims(2))
  with memory_search_scoped [OF two_tenants_reachable this] show ?thesis by auto
qed

end
