(* ===== verification/ProcessRpc.thy ===== *)
theory ProcessRpc
  imports StoreTables
begin

text \<open>
  \<open>JsonLineRpcClient\<close> of \<open>packages/process-rpc/src/index.ts\<close>: a child process that is asked by lines of JSON. Requests are
  numbered and wait in a table until a line with their number arrives, or a timeout, an abort,
  the end of the process or a broken line settles them.
\<close>

section \<open>State\<close>

datatype rpc_failure =
    ServerError jsval
  | ProcessExited
  | ProcessStopped
  | LineTooLarge
  | InvalidJson
  | RequestTimeout
  | RequestAborted
  | ProcessUnavailable
  | ReapFailed
  | ProcessError

datatype rpc_outcome = Resolved jsval | Rejected rpc_failure

text \<open>What is written to the child: a request, an answer to one of its requests, or a refusal.\<close>

datatype rpc_message =
    SentRequest nat string
  | SentNotification string
  | SentResult jsval jsval
  | SentError jsval

text \<open>
  The client. A child has a number and its \<open>stdin\<close> may be closed; \<open>rc_stop\<close> is the stop in progress,
  \<open>rc_cancelling\<close> the requests that wait for it. \<open>rc_settled\<close>, \<open>rc_sent\<close> and \<open>rc_notifications\<close> record what
  happened, \<open>rc_asked\<close> the requests of the child, and \<open>rc_crashed\<close> that an exception left a handler of Node.
\<close>

record rpc_client =
  rc_pending :: "nat list"
  rc_cancelling :: "(nat \<times> rpc_failure) list"
  rc_settled :: "(nat \<times> rpc_outcome) list"
  rc_child :: "(nat \<times> bool) option"
  rc_generation :: nat
  rc_stop :: "nat option"
  rc_stopping :: bool
  rc_stdout :: string
  rc_nextId :: nat
  rc_sent :: "(nat \<times> rpc_message) list"
  rc_notifications :: "string list"
  rc_asked :: "jsval list"
  rc_crashed :: bool

definition new_client :: rpc_client where
  "new_client = \<lparr>rc_pending = [], rc_cancelling = [], rc_settled = [], rc_child = None, rc_generation = 0, rc_stop = None,
     rc_stopping = False, rc_stdout = [], rc_nextId = 1, rc_sent = [], rc_notifications = [], rc_asked = [], rc_crashed = False\<rparr>"

text \<open>\<open>JSON.parse\<close>, \<open>Buffer.byteLength\<close>, the limit of a line, and whether the child may ask.\<close>

record rpc_env =
  re_parse :: "string \<Rightarrow> jsval option"
  re_bytes :: "string \<Rightarrow> nat"
  re_maxLine :: nat
  re_answers :: bool

section \<open>Settling\<close>

definition settle :: "nat \<Rightarrow> rpc_outcome \<Rightarrow> rpc_client \<Rightarrow> rpc_client" where
  "settle i r c = (if i \<in> set (rc_pending c)
     then c\<lparr>rc_pending := removeAll i (rc_pending c), rc_settled := rc_settled c @ [(i, r)]\<rparr> else c)"

definition fail_all :: "rpc_failure \<Rightarrow> rpc_client \<Rightarrow> rpc_client" where
  "fail_all e c = fold (\<lambda>i. settle i (Rejected e)) (rc_pending c) c"

section \<open>The process\<close>

text \<open>\<open>start\<close>: what is left in the buffers of the last process stays there.\<close>

definition start :: "rpc_client \<Rightarrow> rpc_client" where
  "start c = (if rc_child c \<noteq> None then c
     else c\<lparr>rc_stopping := False, rc_child := Some (rc_generation c + 1, True), rc_generation := rc_generation c + 1\<rparr>)"

text \<open>\<open>#send\<close>; \<open>None\<close> is \<open>process_unavailable\<close>.\<close>

definition send :: "rpc_message \<Rightarrow> rpc_client \<Rightarrow> rpc_client option" where
  "send m c = (case rc_child c of
     Some (g, True) \<Rightarrow> Some (c\<lparr>rc_sent := rc_sent c @ [(g, m)]\<rparr>)
   | _ \<Rightarrow> None)"

definition request :: "string \<Rightarrow> rpc_client \<Rightarrow> rpc_client" where
  "request name c =
     (let c = start c; i = rc_nextId c;
          c = c\<lparr>rc_nextId := i + 1, rc_pending := rc_pending c @ [i]\<rparr>
      in case send (SentRequest i name) c of Some c' \<Rightarrow> c' | None \<Rightarrow> settle i (Rejected ProcessUnavailable) c)"

definition notify :: "string \<Rightarrow> rpc_client \<Rightarrow> (rpc_failure + unit) \<times> rpc_client" where
  "notify name c = (let c = start c in case send (SentNotification name) c of
     Some c' \<Rightarrow> (Inr (), c') | None \<Rightarrow> (Inl ProcessUnavailable, c))"

text \<open>\<open>stop\<close> up to its first await, and the rest, when the process was reaped or has outlived
  the kill. A stop that is in progress is joined.\<close>

definition stop_begin :: "rpc_client \<Rightarrow> rpc_client" where
  "stop_begin c = (case (rc_stop c, rc_child c) of
     (None, Some (g, writable)) \<Rightarrow> c\<lparr>rc_stopping := True, rc_stop := Some g, rc_child := Some (g, False)\<rparr>
   | _ \<Rightarrow> c)"

definition reject_cancelling :: "bool \<Rightarrow> rpc_client \<Rightarrow> rpc_client" where
  "reject_cancelling reaped c = c\<lparr>rc_cancelling := [],
     rc_settled := rc_settled c @ map (\<lambda>(i, e). (i, Rejected (if reaped then e else ReapFailed))) (rc_cancelling c)\<rparr>"

definition stop_end :: "bool \<Rightarrow> rpc_client \<Rightarrow> rpc_client" where
  "stop_end reaped c = (case rc_stop c of
     None \<Rightarrow> c
   | Some g \<Rightarrow>
       let c = c\<lparr>rc_stop := None\<rparr> in
       if reaped
       then reject_cancelling True (fail_all ProcessStopped
              (if map_option fst (rc_child c) = Some g then c\<lparr>rc_child := None\<rparr> else c))
       else reject_cancelling False c)"

text \<open>\<open>#cancelAndStop\<close>, by the timer of a request or its abort signal. Without a process there is nothing to wait
  for.\<close>

definition cancel_request :: "nat \<Rightarrow> rpc_failure \<Rightarrow> rpc_client \<Rightarrow> rpc_client" where
  "cancel_request i e c =
     (if i \<notin> set (rc_pending c) then c
      else let c = stop_begin (c\<lparr>rc_pending := removeAll i (rc_pending c), rc_cancelling := rc_cancelling c @ [(i, e)]\<rparr>)
           in if rc_stop c = None then reject_cancelling True c else c)"

text \<open>The event \<open>exit\<close> of the child.\<close>

definition on_exit :: "rpc_client \<Rightarrow> rpc_client" where
  "on_exit c = (if rc_child c = None then c
     else let c' = c\<lparr>rc_child := None\<rparr> in if rc_stopping c then c' else fail_all ProcessExited c')"

text \<open>The event \<open>error\<close>: the process could not be spawned (then there is no process, and no \<open>exit\<close> follows), or a
  signal could not be sent to the one that runs.\<close>

definition on_error :: "bool \<Rightarrow> rpc_client \<Rightarrow> rpc_client" where
  "on_error spawned c = (let c' = fail_all ProcessError c in if spawned then c' else c'\<lparr>rc_child := None\<rparr>)"

section \<open>Lines\<close>

fun js_truthy :: "jsval \<Rightarrow> bool" where
  "js_truthy JUndef = False"
| "js_truthy JNull = False"
| "js_truthy (JBool b) = b"
| "js_truthy (JNum n) = (n \<noteq> 0)"
| "js_truthy JNonFinite = True"
| "js_truthy (JStr s) = (s \<noteq> [])"
| "js_truthy _ = True"

definition has_property :: "string \<Rightarrow> jsval \<Rightarrow> bool" where
  "has_property k v = (case v of JObj ob \<Rightarrow> k \<in> set (map fst ob) | _ \<Rightarrow> False)"

definition property :: "string \<Rightarrow> jsval \<Rightarrow> jsval" where
  "property k v = (case v of JObj ob \<Rightarrow> obj_get ob k | _ \<Rightarrow> JUndef)"

text \<open>The number of one of our requests. A string never equals a number as a key of a \<open>Map\<close>.\<close>

definition own_id :: "jsval \<Rightarrow> rpc_client \<Rightarrow> nat option" where
  "own_id v c = (case v of JNum n \<Rightarrow> List.find (\<lambda>i. of_nat i = n) (rc_pending c) | _ \<Rightarrow> None)"

definition settle_by :: "jsval \<Rightarrow> rpc_outcome \<Rightarrow> rpc_client \<Rightarrow> rpc_client" where
  "settle_by v r c = (case own_id v c of None \<Rightarrow> c | Some i \<Rightarrow> settle i r c)"

text \<open>\<open>String(body.code ?? "rpc_error")\<close>, as the value before the conversion to a string\<close>

definition error_code :: "jsval \<Rightarrow> rpc_failure" where
  "error_code e = (let v = property ''code'' e in
     ServerError (if v = JUndef \<or> v = JNull then JStr ''rpc_error'' else v))"

text \<open>\<open>#answerServerRequest\<close>: the answer is sent later, \<open>answered\<close>; a request that is not allowed is refused at
  once. When the refusal cannot be sent either, the promise is rejected with nobody to catch it.\<close>

definition send_error :: "jsval \<Rightarrow> rpc_client \<Rightarrow> rpc_client" where
  "send_error i c = (case send (SentError i) c of Some c' \<Rightarrow> c' | None \<Rightarrow> c\<lparr>rc_crashed := True\<rparr>)"

definition server_request :: "rpc_env \<Rightarrow> jsval \<Rightarrow> rpc_client \<Rightarrow> rpc_client" where
  "server_request env i c = (if re_answers env then c\<lparr>rc_asked := rc_asked c @ [i]\<rparr> else send_error i c)"

definition answered :: "jsval \<Rightarrow> (unit + jsval) \<Rightarrow> rpc_client \<Rightarrow> rpc_client" where
  "answered i result c =
     (if i \<notin> set (rc_asked c) then c
      else let c = c\<lparr>rc_asked := remove1 i (rc_asked c)\<rparr> in
        case result of
          Inl e \<Rightarrow> send_error i c
        | Inr v \<Rightarrow> (case send (SentResult i v) c of Some c' \<Rightarrow> c' | None \<Rightarrow> send_error i c))"

definition is_id :: "jsval \<Rightarrow> bool" where
  "is_id v = (case v of JStr s \<Rightarrow> True | JNum n \<Rightarrow> True | _ \<Rightarrow> False)"

text \<open>\<open>#acceptMessage\<close>; reading a property of \<open>null\<close> throws.\<close>

definition acceptMessage :: "rpc_env \<Rightarrow> string \<Rightarrow> rpc_client \<Rightarrow> rpc_client" where
  "acceptMessage env line c =
     (case re_parse env line of
        None \<Rightarrow> stop_begin (fail_all InvalidJson c)
      | Some m \<Rightarrow>
          if m = JNull then c\<lparr>rc_crashed := True\<rparr>
          else
            let i = property ''id'' m; name = property ''method'' m in
            if is_id i \<and> (has_property ''result'' m \<or> has_property ''error'' m)
            then (if js_truthy (property ''error'' m) then settle_by i (Rejected (error_code (property ''error'' m))) c
                  else settle_by i (Resolved (property ''result'' m)) c)
            else (case name of
                JStr n \<Rightarrow> if is_id i then server_request env i c
                  else c\<lparr>rc_notifications := rc_notifications c @ [n]\<rparr>
              | _ \<Rightarrow> c))"

fun cut_line :: "string \<Rightarrow> (string \<times> string) option" where
  "cut_line [] = None"
| "cut_line (ch # s) = (if ch = CHR 0x0A then Some ([], s) else map_option (\<lambda>(l, r). (ch # l, r)) (cut_line s))"

definition strip_cr :: "string \<Rightarrow> string" where
  "strip_cr l = (if l \<noteq> [] \<and> last l = CHR 0x0D then butlast l else l)"

lemma cut_line_length: "cut_line s = Some (l, r) \<Longrightarrow> length r < length s"
  by (induction s arbitrary: l) (auto split: if_splits)

text \<open>The loop over the lines of the buffer. A handler that threw leaves the rest of the buffer alone.\<close>

function accept_lines :: "rpc_env \<Rightarrow> string \<Rightarrow> rpc_client \<Rightarrow> rpc_client" where
  "accept_lines env buf c =
     (case cut_line buf of
        None \<Rightarrow>
          let c = c\<lparr>rc_stdout := buf\<rparr> in
          if re_maxLine env < re_bytes env buf then stop_begin (fail_all LineTooLarge c) else c
      | Some (l, rest) \<Rightarrow>
          let line = strip_cr l in
          if re_maxLine env < re_bytes env line then stop_begin (fail_all LineTooLarge (c\<lparr>rc_stdout := rest\<rparr>))
          else
            let c' = (if trim line = [] then c else acceptMessage env line c) in
            if rc_crashed c' then c'\<lparr>rc_stdout := rest\<rparr> else accept_lines env rest c')"
  by pat_completeness auto
termination
  by (relation "measure (\<lambda>(env, buf, c). length buf)") (auto dest: cut_line_length)

declare accept_lines.simps [simp del]

definition acceptStdout :: "rpc_env \<Rightarrow> string \<Rightarrow> rpc_client \<Rightarrow> rpc_client" where
  "acceptStdout env chunk c =
     (let buf = rc_stdout c @ chunk in
      if re_maxLine env < re_bytes env buf \<and> CHR 0x0A \<notin> set buf
      then stop_begin (fail_all LineTooLarge (c\<lparr>rc_stdout := buf\<rparr>))
      else accept_lines env buf c)"

end
