(* ===== verification/ProcessRpcProperties.thy ===== *)
theory ProcessRpcProperties
  imports ProcessRpc
begin

text \<open>
  What the client of a child process guarantees: every request is settled once, none waits for a process
  that is gone, an answer goes to the request with its number, and the way the output is cut
  into chunks does not matter. Three ways in which the code fails are shown at the end.
\<close>

section \<open>Every request is settled once\<close>

text \<open>One step: an operation of a user, an event of the process, or the rest of a stop.\<close>

inductive rpc_step :: "rpc_env \<Rightarrow> rpc_client \<Rightarrow> rpc_client \<Rightarrow> bool" for env where
  request: "rpc_step env c (request name c)"
| notify: "rpc_step env c (snd (notify name c))"
| stdout: "rpc_step env c (acceptStdout env chunk c)"
| cancel: "rpc_step env c (cancel_request i e c)"
| stop: "rpc_step env c (stop_begin c)"
| stopped: "rpc_step env c (stop_end reaped c)"
| exit: "rpc_step env c (on_exit c)"
| error: "rpc_step env c (on_error spawned c)"
| answer: "rpc_step env c (answered i r c)"

definition rpc_reachable :: "rpc_env \<Rightarrow> rpc_client \<Rightarrow> bool" where
  "rpc_reachable env c \<longleftrightarrow> (rpc_step env)\<^sup>*\<^sup>* new_client c"

text \<open>The numbers that were given out, wherever they are.\<close>

definition issued :: "rpc_client \<Rightarrow> nat list" where
  "issued c = rc_pending c @ map fst (rc_cancelling c) @ map fst (rc_settled c)"

definition numbered :: "rpc_client \<Rightarrow> bool" where
  "numbered c \<longleftrightarrow> distinct (issued c) \<and> set (issued c) = {1..<rc_nextId c} \<and> 1 \<le> rc_nextId c"

text \<open>No request waits for a process that ended by itself, and who cancels waits for a stop.\<close>

definition attended :: "rpc_client \<Rightarrow> bool" where
  "attended c \<longleftrightarrow> (rc_child c = None \<and> \<not> rc_stopping c \<longrightarrow> rc_pending c = [])
     \<and> (rc_cancelling c \<noteq> [] \<longrightarrow> rc_stop c \<noteq> None)"

lemma settle_numbered: "numbered c \<Longrightarrow> numbered (settle i r c)"
  by (auto simp: numbered_def issued_def settle_def distinct_removeAll)

text \<open>The parts of the state that settling leaves alone.\<close>

lemma settle_frame [simp]:
  "rc_child (settle i r c) = rc_child c" "rc_stop (settle i r c) = rc_stop c" "rc_stopping (settle i r c) = rc_stopping c"
  "rc_nextId (settle i r c) = rc_nextId c" "rc_cancelling (settle i r c) = rc_cancelling c" "rc_stdout (settle i r c) = rc_stdout c"
  "rc_sent (settle i r c) = rc_sent c" "rc_crashed (settle i r c) = rc_crashed c" "rc_asked (settle i r c) = rc_asked c"
  "rc_pending (settle i r c) = removeAll i (rc_pending c)"
  by (auto simp: settle_def)

lemma fold_settle_frame:
  "rc_child (fold (\<lambda>i. settle i r) l c) = rc_child c \<and> rc_stop (fold (\<lambda>i. settle i r) l c) = rc_stop c
   \<and> rc_stopping (fold (\<lambda>i. settle i r) l c) = rc_stopping c \<and> rc_nextId (fold (\<lambda>i. settle i r) l c) = rc_nextId c
   \<and> rc_cancelling (fold (\<lambda>i. settle i r) l c) = rc_cancelling c \<and> rc_crashed (fold (\<lambda>i. settle i r) l c) = rc_crashed c
   \<and> rc_pending (fold (\<lambda>i. settle i r) l c) = filter (\<lambda>i. i \<notin> set l) (rc_pending c)"
  by (induction l arbitrary: c) (auto simp: removeAll_filter_not_eq intro: filter_cong)

lemma fail_all_frame [simp]:
  "rc_child (fail_all e c) = rc_child c" "rc_stop (fail_all e c) = rc_stop c" "rc_stopping (fail_all e c) = rc_stopping c"
  "rc_nextId (fail_all e c) = rc_nextId c" "rc_cancelling (fail_all e c) = rc_cancelling c" "rc_crashed (fail_all e c) = rc_crashed c"
  "rc_pending (fail_all e c) = []"
  using fold_settle_frame by (auto simp: fail_all_def)

lemma fail_all_numbered: "numbered c \<Longrightarrow> numbered (fail_all e c)"
proof -
  have "numbered c \<Longrightarrow> numbered (fold (\<lambda>i. settle i (Rejected e)) l c)" for l
    by (induction l arbitrary: c) (simp_all add: settle_numbered)
  then show "numbered c \<Longrightarrow> numbered (fail_all e c)" by (simp add: fail_all_def)
qed

lemma stop_begin_numbered: "numbered c \<Longrightarrow> numbered (stop_begin c)"
  by (auto simp: stop_begin_def numbered_def issued_def split: option.splits)

lemma stop_begin_frame [simp]:
  "rc_pending (stop_begin c) = rc_pending c" "rc_cancelling (stop_begin c) = rc_cancelling c" "rc_crashed (stop_begin c) = rc_crashed c"
  by (auto simp: stop_begin_def split: option.splits)

lemma stop_begin_attended: "attended c \<Longrightarrow> attended (stop_begin c)"
  by (auto simp: stop_begin_def attended_def split: option.splits)

lemma failed_attended: "attended c \<Longrightarrow> attended (fail_all e c)"
  by (simp add: attended_def)

lemma settle_attended: "attended c \<Longrightarrow> attended (settle i r c)"
  by (auto simp: attended_def)

definition rpc_ok :: "rpc_client \<Rightarrow> bool" where
  "rpc_ok c \<longleftrightarrow> numbered c \<and> attended c"

lemma rpc_ok_parts:
  "rpc_ok c \<Longrightarrow> rpc_ok (settle i r c)" "rpc_ok c \<Longrightarrow> rpc_ok (fail_all e c)" "rpc_ok c \<Longrightarrow> rpc_ok (stop_begin c)"
  by (simp_all add: rpc_ok_def settle_numbered settle_attended fail_all_numbered failed_attended stop_begin_numbered stop_begin_attended)

lemma rpc_ok_other:
  assumes "rpc_ok c"
  shows "rpc_ok (c\<lparr>rc_crashed := b\<rparr>)" "rpc_ok (c\<lparr>rc_stdout := u\<rparr>)" "rpc_ok (c\<lparr>rc_notifications := n\<rparr>)" "rpc_ok (c\<lparr>rc_asked := a\<rparr>)"
    "rpc_ok (c\<lparr>rc_sent := m\<rparr>)"
  using assms by (simp_all add: rpc_ok_def numbered_def issued_def attended_def)

lemma send_ok: "rpc_ok c \<Longrightarrow> send m c = Some c' \<Longrightarrow> rpc_ok c'"
  by (auto simp: send_def rpc_ok_other split: option.splits if_splits bool.splits)

lemma send_error_ok: "rpc_ok c \<Longrightarrow> rpc_ok (send_error i c)"
  by (auto simp: send_error_def rpc_ok_other dest: send_ok split: option.splits)

lemma settle_by_ok: "rpc_ok c \<Longrightarrow> rpc_ok (settle_by v r c)"
  by (auto simp: settle_by_def rpc_ok_parts split: option.splits)

lemma acceptMessage_ok: "rpc_ok c \<Longrightarrow> rpc_ok (acceptMessage env line c)"
  by (auto simp: acceptMessage_def server_request_def Let_def rpc_ok_parts rpc_ok_other settle_by_ok send_error_ok
      split: option.splits jsval.splits)

lemma accept_lines_ok: "rpc_ok c \<Longrightarrow> rpc_ok (accept_lines env buf c)"
proof (induction env buf c rule: accept_lines.induct)
  case (1 env buf c)
  show ?case
  proof (cases "cut_line buf")
    case None
    with "1.prems" show ?thesis by (subst accept_lines.simps) (simp add: Let_def rpc_ok_parts rpc_ok_other)
  next
    case (Some lr)
    obtain l rest where lr: "lr = (l, rest)" by fastforce
    let ?c = "if trim (strip_cr l) = [] then c else acceptMessage env (strip_cr l) c"
    have ok: "rpc_ok ?c" using "1.prems" by (simp add: acceptMessage_ok)
    have "rpc_ok (accept_lines env rest ?c)" if "\<not> re_maxLine env < re_bytes env (strip_cr l)" "\<not> rc_crashed ?c"
      using "1.IH" [OF Some lr [symmetric] refl _ refl] that ok by simp
    with ok "1.prems" show ?thesis
      by (subst accept_lines.simps) (simp add: Some lr Let_def rpc_ok_parts rpc_ok_other)
  qed
qed

lemma start_ok: "rpc_ok c \<Longrightarrow> rpc_ok (start c) \<and> rc_child (start c) \<noteq> None"
  by (auto simp: start_def rpc_ok_def numbered_def issued_def attended_def)

lemma new_number:
  assumes "rpc_ok c" and "rc_child c \<noteq> None"
  shows "rpc_ok (c\<lparr>rc_nextId := rc_nextId c + 1, rc_pending := rc_pending c @ [rc_nextId c]\<rparr>)"
  using assms by (auto simp: rpc_ok_def numbered_def issued_def attended_def)

lemma request_ok: "rpc_ok c \<Longrightarrow> rpc_ok (request name c)"
  using new_number [of "start c"] start_ok [of c]
  by (auto simp: request_def Let_def rpc_ok_parts dest: send_ok split: option.splits)

lemma notify_ok: "rpc_ok c \<Longrightarrow> rpc_ok (snd (notify name c))"
  using start_ok [of c] by (auto simp: notify_def Let_def dest: send_ok split: option.splits)

lemma reject_cancelling_issued: "set (issued (reject_cancelling b c)) = set (issued c)"
    "distinct (issued (reject_cancelling b c)) \<longleftrightarrow> distinct (issued c)"
proof -
  have keys: "map fst (map (\<lambda>(i, e). (i, f e)) l) = map fst l" for l :: "(nat \<times> rpc_failure) list" and f :: "rpc_failure \<Rightarrow> rpc_outcome"
    by (induction l) auto
  have "issued (reject_cancelling b c) = rc_pending c @ map fst (rc_settled c) @ map fst (rc_cancelling c)"
    by (simp add: issued_def reject_cancelling_def keys del: map_map)
  then show "set (issued (reject_cancelling b c)) = set (issued c)"
    "distinct (issued (reject_cancelling b c)) \<longleftrightarrow> distinct (issued c)"
    by (auto simp: issued_def)
qed

lemma reject_cancelling_numbered: "numbered c \<Longrightarrow> numbered (reject_cancelling b c)"
  by (simp add: numbered_def reject_cancelling_issued) (simp add: reject_cancelling_def)

lemma reject_cancelling_ok: "numbered c \<Longrightarrow> (rc_child c = None \<and> \<not> rc_stopping c \<longrightarrow> rc_pending c = []) \<Longrightarrow> rpc_ok (reject_cancelling b c)"
  by (simp add: rpc_ok_def reject_cancelling_numbered) (simp add: attended_def reject_cancelling_def)

lemma stop_end_ok: "rpc_ok c \<Longrightarrow> rpc_ok (stop_end reaped c)"
proof (cases "rc_stop c")
  case (Some g)
  assume ok: "rpc_ok c"
  show ?thesis
  proof (cases reaped)
    case True
    let ?c = "if map_option fst (rc_child c) = Some g then c\<lparr>rc_stop := None, rc_child := None\<rparr> else c\<lparr>rc_stop := None\<rparr>"
    have "numbered ?c" using ok by (simp add: rpc_ok_def numbered_def issued_def)
    then have "rpc_ok (reject_cancelling True (fail_all ProcessStopped ?c))"
      by (intro reject_cancelling_ok fail_all_numbered) simp_all
    then show ?thesis using Some True by (simp add: stop_end_def Let_def split: if_splits)
  next
    case False
    have "numbered (c\<lparr>rc_stop := None\<rparr>)" "rc_child c = None \<and> \<not> rc_stopping c \<longrightarrow> rc_pending c = []"
      using ok by (simp_all add: rpc_ok_def numbered_def issued_def attended_def)
    with Some False show ?thesis by (simp add: stop_end_def Let_def reject_cancelling_ok)
  qed
qed (simp add: stop_end_def)

lemma cancel_request_ok: "rpc_ok c \<Longrightarrow> rpc_ok (cancel_request i e c)"
proof (cases "i \<in> set (rc_pending c)")
  case True
  assume ok: "rpc_ok c"
  let ?c = "c\<lparr>rc_pending := removeAll i (rc_pending c), rc_cancelling := rc_cancelling c @ [(i, e)]\<rparr>"
  have num: "numbered (stop_begin ?c)"
    by (rule stop_begin_numbered) (use ok True in \<open>auto simp: rpc_ok_def numbered_def issued_def distinct_removeAll\<close>)
  have idle: "rc_child (stop_begin ?c) = None \<and> \<not> rc_stopping (stop_begin ?c) \<longrightarrow> rc_pending (stop_begin ?c) = []"
    using ok by (auto simp: rpc_ok_def attended_def stop_begin_def split: option.splits)
  show ?thesis
  proof (cases "rc_stop (stop_begin ?c) = None")
    case True
    with num idle \<open>i \<in> set (rc_pending c)\<close> show ?thesis by (simp add: cancel_request_def Let_def reject_cancelling_ok)
  next
    case False
    then have "cancel_request i e c = stop_begin ?c" using \<open>i \<in> set (rc_pending c)\<close> by (auto simp: cancel_request_def Let_def)
    with num idle False show ?thesis by (simp add: rpc_ok_def attended_def)
  qed
qed (simp add: cancel_request_def)

lemma on_exit_ok: "rpc_ok c \<Longrightarrow> rpc_ok (on_exit c)"
proof -
  assume ok: "rpc_ok c"
  have num: "numbered (c\<lparr>rc_child := None\<rparr>)" using ok by (simp add: rpc_ok_def numbered_def issued_def)
  with ok fail_all_numbered [OF num] show ?thesis by (auto simp: on_exit_def Let_def rpc_ok_def attended_def)
qed

lemma on_error_ok: "rpc_ok c \<Longrightarrow> rpc_ok (on_error spawned c)"
proof -
  assume ok: "rpc_ok c"
  then have num: "numbered c" by (simp add: rpc_ok_def)
  have "rpc_ok c' \<Longrightarrow> rc_pending c' = [] \<Longrightarrow> rpc_ok (c'\<lparr>rc_child := None\<rparr>)" for c'
    by (simp add: rpc_ok_def numbered_def issued_def attended_def)
  with ok fail_all_numbered [OF num] show ?thesis by (auto simp: on_error_def Let_def rpc_ok_parts)
qed

lemma answered_ok: "rpc_ok c \<Longrightarrow> rpc_ok (answered i r c)"
  by (auto simp: answered_def Let_def send_error_ok rpc_ok_other dest: send_ok [OF rpc_ok_other(4)] split: sum.splits option.splits)

lemma rpc_step_ok: "rpc_step env c c' \<Longrightarrow> rpc_ok c \<Longrightarrow> rpc_ok c'"
  by (induction rule: rpc_step.induct)
    (auto simp: request_ok notify_ok cancel_request_ok rpc_ok_parts stop_end_ok on_exit_ok on_error_ok answered_ok acceptStdout_def Let_def
      accept_lines_ok rpc_ok_other)

lemma rpc_reachable_ok: "rpc_reachable env c \<Longrightarrow> rpc_ok c"
  unfolding rpc_reachable_def
  by (induction rule: rtranclp_induct)
    (simp add: rpc_ok_def numbered_def issued_def attended_def new_client_def, blast intro: rpc_step_ok)

text \<open>C32: Every request of a child process is settled at most once and none is forgotten. At any time the numbers that were
  given out are, each in one place, those of the requests that wait, of those that are being cancelled,
  and of those that were settled; when the process has ended by itself no request waits; and when a stop has
  reaped the process every request is settled.\<close>

theorem rpc_settles_once:
  assumes "rpc_reachable env c"
  shows "distinct (rc_pending c @ map fst (rc_cancelling c) @ map fst (rc_settled c))
    \<and> set (rc_pending c) \<union> fst ` set (rc_cancelling c) \<union> fst ` set (rc_settled c) = {1..<rc_nextId c}
    \<and> (rc_child c = None \<and> \<not> rc_stopping c \<longrightarrow> rc_pending c = [])
    \<and> (rc_stop c \<noteq> None \<longrightarrow> fst ` set (rc_settled (stop_end True c)) = {1..<rc_nextId c})"
proof -
  note ok = rpc_reachable_ok [OF assms]
  have "fst ` set (rc_settled (stop_end True c)) = {1..<rc_nextId c}" if "rc_stop c \<noteq> None"
  proof -
    have "rc_pending (stop_end True c) = []" "rc_cancelling (stop_end True c) = []" "rc_nextId (stop_end True c) = rc_nextId c"
      using that by (auto simp: stop_end_def reject_cancelling_def Let_def)
    with stop_end_ok [OF ok, of True] show ?thesis by (simp add: rpc_ok_def numbered_def issued_def)
  qed
  with ok show ?thesis by (auto simp: rpc_ok_def numbered_def issued_def attended_def)
qed

section \<open>Lines and chunks\<close>

text \<open>The rest of the client does not see the buffer.\<close>

abbreviation buffered :: "string \<Rightarrow> rpc_client \<Rightarrow> rpc_client" where
  "buffered u c \<equiv> c\<lparr>rc_stdout := u\<rparr>"

lemma settle_buffer: "settle i r (buffered u c) = buffered u (settle i r c)"
  by (simp add: settle_def)

lemma fold_settle_buffer: "fold (\<lambda>i. settle i r) l (buffered u c) = buffered u (fold (\<lambda>i. settle i r) l c)"
  by (induction l arbitrary: c) (simp_all add: settle_buffer)

lemma fail_all_buffer: "fail_all e (buffered u c) = buffered u (fail_all e c)"
  by (simp add: fail_all_def fold_settle_buffer)

lemma stop_begin_buffer: "stop_begin (buffered u c) = buffered u (stop_begin c)"
  by (simp add: stop_begin_def split: option.split)

lemma send_buffer: "send m (buffered u c) = map_option (buffered u) (send m c)"
  by (simp add: send_def split: option.split bool.split)

lemma send_error_buffer: "send_error i (buffered u c) = buffered u (send_error i c)"
  by (simp add: send_error_def send_buffer split: option.split)

lemma settle_by_buffer: "settle_by v r (buffered u c) = buffered u (settle_by v r c)"
  by (simp add: settle_by_def own_id_def settle_buffer split: option.split jsval.split)

lemma server_request_buffer: "server_request env i (buffered u c) = buffered u (server_request env i c)"
  by (simp add: server_request_def send_error_buffer)

lemma acceptMessage_buffer: "acceptMessage env line (buffered u c) = buffered u (acceptMessage env line c)"
proof (cases "re_parse env line")
  case (Some m)
  then show ?thesis
    by (cases "m = JNull"; cases "is_id (property ''id'' m)"; cases "has_property ''result'' m"; cases "has_property ''error'' m";
        cases "property ''method'' m")
      (simp_all add: acceptMessage_def Let_def settle_by_buffer server_request_buffer)
qed (simp add: acceptMessage_def fail_all_buffer stop_begin_buffer)

lemma accept_lines_buffer: "accept_lines env buf (buffered u c) = accept_lines env buf c"
proof (induction env buf c arbitrary: u rule: accept_lines.induct)
  case (1 env buf c)
  show ?case
  proof (cases "cut_line buf")
    case None
    then show ?thesis by (simp add: accept_lines.simps [of env buf])
  next
    case (Some lr)
    obtain l rest where lr: "lr = (l, rest)" by fastforce
    let ?line = "strip_cr l"
    let ?c = "if trim ?line = [] then c else acceptMessage env ?line c"
    have c: "(if trim ?line = [] then buffered u c else acceptMessage env ?line (buffered u c)) = buffered u ?c"
      by (simp add: acceptMessage_buffer)
    have "accept_lines env rest (buffered u ?c) = accept_lines env rest ?c"
      if "\<not> re_maxLine env < re_bytes env ?line" "\<not> rc_crashed ?c"
      using "1.IH" [OF Some lr [symmetric] refl _ refl, of u] that by simp
    then show ?thesis unfolding accept_lines.simps [of env buf] Some lr option.case prod.case Let_def c by simp
  qed
qed

lemma cut_line_append: "cut_line a = Some (l, rest) \<Longrightarrow> cut_line (a @ b) = Some (l, rest @ b)"
  by (induction a arbitrary: l) (auto split: if_splits)

lemma cut_line_None: "cut_line a = None \<longleftrightarrow> CHR 0x0A \<notin> set a"
  by (induction a) auto

lemma cut_line_parts: "cut_line a = Some (l, rest) \<Longrightarrow> a = l @ CHR 0x0A # rest \<and> CHR 0x0A \<notin> set l"
  by (induction a arbitrary: l) (auto split: if_splits)

text \<open>No line is too long, not even its beginning.\<close>

definition lines_fit :: "rpc_env \<Rightarrow> string \<Rightarrow> bool" where
  "lines_fit env s \<longleftrightarrow> (\<forall>u v w. s = u @ v @ w \<longrightarrow> CHR 0x0A \<notin> set v \<longrightarrow> re_bytes env v \<le> re_maxLine env)"

lemma lines_fitD: "lines_fit env (u @ v @ w) \<Longrightarrow> CHR 0x0A \<notin> set v \<Longrightarrow> re_bytes env v \<le> re_maxLine env"
  by (auto simp: lines_fit_def)

lemma lines_fit_part: "lines_fit env (u @ v @ w) \<Longrightarrow> lines_fit env v"
  unfolding lines_fit_def
proof (intro allI impI)
  fix a b c assume fit: "\<forall>x y z. u @ v @ w = x @ y @ z \<longrightarrow> CHR 0x0A \<notin> set y \<longrightarrow> re_bytes env y \<le> re_maxLine env"
    and v: "v = a @ b @ c" and "CHR 0x0A \<notin> set b"
  from v have "u @ v @ w = (u @ a) @ b @ (c @ w)" by simp
  with fit \<open>CHR 0x0A \<notin> set b\<close> show "re_bytes env b \<le> re_maxLine env" by blast
qed

lemma strip_cr_part: "\<exists>w. l = strip_cr l @ w"
  by (cases "l = []") (auto simp: strip_cr_def intro: append_butlast_last_id [symmetric])

text \<open>The part that is not yet a whole line waits in the buffer for the next chunk.\<close>

lemma accept_lines_append:
  assumes "lines_fit env (a @ b)" and "\<not> rc_crashed (accept_lines env a c)"
  shows "accept_lines env (a @ b) c = accept_lines env (rc_stdout (accept_lines env a c) @ b) (accept_lines env a c)
    \<and> CHR 0x0A \<notin> set (rc_stdout (accept_lines env a c)) \<and> lines_fit env (rc_stdout (accept_lines env a c) @ b)"
  using assms
proof (induction env a c rule: accept_lines.induct)
  case (1 env a c)
  show ?case
  proof (cases "cut_line a")
    case None
    then have "CHR 0x0A \<notin> set a" by (simp add: cut_line_None)
    with lines_fitD [of env "[]" a b] "1.prems"(1) have "\<not> re_maxLine env < re_bytes env a" by simp
    with None have "accept_lines env a c = buffered a c" by (simp add: accept_lines.simps [of env a] Let_def)
    with "1.prems"(1) \<open>CHR 0x0A \<notin> set a\<close> show ?thesis by (simp add: accept_lines_buffer)
  next
    case (Some lr)
    obtain l rest where lr: "lr = (l, rest)" by fastforce
    with Some have cut: "cut_line a = Some (l, rest)" by simp
    from cut_line_parts [OF cut] have a: "a = l @ CHR 0x0A # rest" and nl: "CHR 0x0A \<notin> set l" by simp_all
    let ?line = "strip_cr l"
    let ?c = "if trim ?line = [] then c else acceptMessage env ?line c"
    obtain w where w: "l = ?line @ w" using strip_cr_part by blast
    have "re_bytes env ?line \<le> re_maxLine env"
    proof (rule lines_fitD [of env "[]" ?line "w @ CHR 0x0A # rest @ b"])
      show "lines_fit env ([] @ ?line @ w @ CHR 0x0A # rest @ b)" using "1.prems"(1) a w by (metis append.assoc append_Cons append_Nil)
      show "CHR 0x0A \<notin> set ?line" using nl w by (metis Un_iff set_append)
    qed
    then have fits: "\<not> re_maxLine env < re_bytes env ?line" by simp
    have step: "accept_lines env (a @ d) c = (if rc_crashed ?c then buffered (rest @ d) ?c else accept_lines env (rest @ d) ?c)" for d
      unfolding accept_lines.simps [of env "a @ d"] cut_line_append [OF cut] option.case prod.case Let_def if_not_P [OF fits] ..
    have here: "accept_lines env a c = (if rc_crashed ?c then buffered rest ?c else accept_lines env rest ?c)"
      using step [of "[]"] by simp
    have run: "\<not> rc_crashed ?c" using "1.prems"(2) here by (cases "rc_crashed ?c") simp_all
    have fit_rest: "lines_fit env (rest @ b)"
      by (rule lines_fit_part [of env "l @ [CHR 0x0A]" _ "[]"]) (use "1.prems"(1) a in simp)
    have "\<not> rc_crashed (accept_lines env rest ?c)" using "1.prems"(2) here run by simp
    with "1.IH" [OF Some lr [symmetric] refl _ refl] fits run fit_rest
    show ?thesis by (simp add: step here)
  qed
qed

lemma acceptStdout_fits:
  "lines_fit env (rc_stdout c @ chunk) \<Longrightarrow> acceptStdout env chunk c = accept_lines env (rc_stdout c @ chunk) c"
  using lines_fitD [of env "[]" "rc_stdout c @ chunk" "[]"] by (auto simp: acceptStdout_def Let_def)

text \<open>It does not matter how the output of a child process is cut into chunks. When no line is over the limit and
  no handler throws on the way, the client is after all chunks in the same state as after their text at
  once.\<close>

theorem rpc_chunks_do_not_matter:
  assumes "lines_fit env (rc_stdout c @ first @ concat chunks)" and "CHR 0x0A \<notin> set (rc_stdout c)"
    and "\<And>k. k \<le> length chunks \<Longrightarrow> \<not> rc_crashed (fold (acceptStdout env) (first # take k chunks) c)"
  shows "fold (acceptStdout env) (first # chunks) c = acceptStdout env (first @ concat chunks) c"
  using assms
proof (induction chunks rule: rev_induct)
  case (snoc d chunks)
  let ?whole = "first @ concat chunks" and ?c = "fold (acceptStdout env) (first # chunks) c"
  have fit: "lines_fit env (rc_stdout c @ ?whole)"
    by (rule lines_fit_part [of env "[]" _ d]) (use snoc.prems(1) in simp)
  have "\<not> rc_crashed (fold (acceptStdout env) (first # take k chunks) c)" if "k \<le> length chunks" for k
    using snoc.prems(3) [of k] that by simp
  with snoc.IH fit snoc.prems(2) have c: "?c = acceptStdout env ?whole c" by simp
  also have "\<dots> = accept_lines env (rc_stdout c @ ?whole) c" by (rule acceptStdout_fits [OF fit])
  finally have lines: "?c = accept_lines env (rc_stdout c @ ?whole) c" .
  have "\<not> rc_crashed ?c" using snoc.prems(3) [of "length chunks"] by simp
  with accept_lines_append [of env "rc_stdout c @ ?whole" d c] snoc.prems(1) lines
  have all: "accept_lines env ((rc_stdout c @ ?whole) @ d) c = accept_lines env (rc_stdout ?c @ d) ?c"
    and rest: "lines_fit env (rc_stdout ?c @ d)" by simp_all
  have "fold (acceptStdout env) (first # chunks @ [d]) c = acceptStdout env d ?c" by simp
  also have "\<dots> = accept_lines env (rc_stdout ?c @ d) ?c" by (rule acceptStdout_fits [OF rest])
  also have "\<dots> = accept_lines env (rc_stdout c @ first @ concat (chunks @ [d])) c" using all by simp
  also have "\<dots> = acceptStdout env (first @ concat (chunks @ [d])) c"
    by (rule acceptStdout_fits [symmetric, OF snoc.prems(1)])
  finally show ?case .
qed simp

section \<open>Answers\<close>

lemma fail_all_rejects: "(i, Resolved v) \<in> set (rc_settled (fail_all e c)) \<longleftrightarrow> (i, Resolved v) \<in> set (rc_settled c)"
proof -
  have "(i, Resolved v) \<in> set (rc_settled (fold (\<lambda>i. settle i (Rejected e)) l c)) \<longleftrightarrow> (i, Resolved v) \<in> set (rc_settled c)" for l
    by (induction l arbitrary: c) (auto simp: settle_def)
  then show ?thesis by (simp add: fail_all_def)
qed

lemma own_id_Some: "own_id v c = Some i \<Longrightarrow> v = JNum (of_nat i)"
  by (auto simp: own_id_def dest: find_SomeD split: jsval.splits)

text \<open>A request is resolved only by a message with its number, and with the result of that message.\<close>

lemma answers_by_number:
  assumes "(i, Resolved v) \<in> set (rc_settled (acceptMessage env line c))" and "(i, Resolved v) \<notin> set (rc_settled c)"
  shows "\<exists>m. re_parse env line = Some m \<and> property ''id'' m = JNum (of_nat i) \<and> property ''result'' m = v"
proof (cases "re_parse env line")
  case None
  then have "rc_settled (acceptMessage env line c) = rc_settled (fail_all InvalidJson c)"
    by (simp add: acceptMessage_def stop_begin_def split: option.split)
  with assms fail_all_rejects show ?thesis by simp
next
  case (Some m)
  have by_id: "property ''id'' m = JNum (of_nat i) \<and> r = Resolved v"
    if "(i, Resolved v) \<in> set (rc_settled (settle_by (property ''id'' m) r c))" for r
    using that assms(2) by (auto simp: settle_by_def settle_def split: option.splits if_splits dest: own_id_Some)
  have sent: "rc_settled (server_request env j c) = rc_settled c" for j
    by (simp add: server_request_def send_error_def send_def split: option.split bool.split)
  from assms Some show ?thesis
    by (cases "m = JNull"; cases "is_id (property ''id'' m)"; cases "has_property ''result'' m"; cases "has_property ''error'' m";
        cases "js_truthy (property ''error'' m)"; cases "property ''method'' m")
      (auto simp: acceptMessage_def Let_def sent dest: by_id)
qed

section \<open>An example, and three faults\<close>

text \<open>A child whose only valid lines are \<open>n\<close> for \<open>null\<close>, \<open>r\<close> for the answer to request 2 and \<open>q\<close> for a question.\<close>

definition tiny_env :: rpc_env where
  "tiny_env = \<lparr>re_parse = (\<lambda>l. if l = ''n'' then Some JNull
       else if l = ''r'' then Some (JObj [(''id'', JNum 2), (''result'', JBool True)])
       else if l = ''q'' then Some (JObj [(''id'', JStr ''a''), (''method'', JStr ''ask'')]) else None),
     re_bytes = length, re_maxLine = 100, re_answers = True\<rparr>"

lemma tiny_fit: "length s \<le> 100 \<Longrightarrow> lines_fit tiny_env s"
  by (auto simp: lines_fit_def tiny_env_def)

lemma rpc_settles_once_witness:
  "set (rc_pending (request ''m'' new_client)) \<union> fst ` set (rc_cancelling (request ''m'' new_client))
     \<union> fst ` set (rc_settled (request ''m'' new_client)) = {1..<rc_nextId (request ''m'' new_client)}"
proof -
  have "rpc_reachable tiny_env (request ''m'' new_client)"
    unfolding rpc_reachable_def by (rule r_into_rtranclp, rule rpc_step.request)
  from rpc_settles_once [OF this] show ?thesis by blast
qed

lemma rpc_chunks_do_not_matter_witness:
  "fold (acceptStdout tiny_env) [''r'', [CHR 0x0A]] (request ''m'' (request ''m'' new_client))
     = acceptStdout tiny_env [CHR ''r'', CHR 0x0A] (request ''m'' (request ''m'' new_client))"
proof -
  let ?c = "request ''m'' (request ''m'' new_client)"
  have calm: "\<not> rc_crashed (fold (acceptStdout tiny_env) (''r'' # take k [[CHR 0x0A]]) ?c)" if "k \<le> 1" for k
  proof -
    have "\<not> rc_crashed (acceptStdout tiny_env ''r'' ?c)" "\<not> rc_crashed (acceptStdout tiny_env [CHR 0x0A] (acceptStdout tiny_env ''r'' ?c))"
      by code_simp+
    with that show ?thesis by (cases k) auto
  qed
  have "rc_stdout ?c = []" by code_simp
  with rpc_chunks_do_not_matter [of tiny_env ?c "''r''" "[[CHR 0x0A]]"] calm show ?thesis by (simp add: tiny_fit)
qed

text \<open>What a process left in the buffer is put before the first line of the next one. Here the first process ends
  in the middle of a line; the second answers its request with a valid line, which is
  refused as broken JSON.\<close>

lemma stale_buffer_breaks_the_next_process:
  "rc_settled (acceptStdout tiny_env [CHR ''r'', CHR 0x0A] (request ''m'' (on_exit (acceptStdout tiny_env ''x'' (request ''m'' new_client)))))
     = [(1, Rejected ProcessExited), (2, Rejected InvalidJson)]"
  "rc_settled (acceptStdout tiny_env [CHR ''r'', CHR 0x0A] (request ''m'' (on_exit (request ''m'' new_client))))
     = [(1, Rejected ProcessExited), (2, Resolved (JBool True))]"
  by code_simp+

text \<open>A line that says \<open>null\<close> throws in the handler of the data event, where nobody catches it.\<close>

lemma null_line_crashes: "rc_crashed (acceptStdout tiny_env [CHR ''n'', CHR 0x0A] (request ''m'' new_client))"
  by code_simp

text \<open>The answer to a question of the child that comes when the child is gone is a rejection nobody handles.\<close>

lemma late_answer_crashes:
  "rc_crashed (answered (JStr ''a'') (Inr JNull) (on_exit (acceptStdout tiny_env [CHR ''q'', CHR 0x0A] (request ''m'' new_client))))"
  by code_simp

end
