(* ===== verification/TextPatterns.thy ===== *)
theory TextPatterns
  imports StoreTables
begin

text \<open>
  Character classes and splitting, for the regular expressions with which the packages check names, versions
  and digests. Every pattern of the source that is used is a predicate built from these.
\<close>

section \<open>Classes\<close>

definition in_range :: "nat \<Rightarrow> nat \<Rightarrow> char \<Rightarrow> bool" where
  "in_range a b c \<longleftrightarrow> a \<le> of_char c \<and> of_char c \<le> b"

definition is_lower :: "char \<Rightarrow> bool" where "is_lower c \<longleftrightarrow> in_range 97 122 c"

definition is_upper :: "char \<Rightarrow> bool" where "is_upper c \<longleftrightarrow> in_range 65 90 c"

definition is_letter :: "char \<Rightarrow> bool" where "is_letter c \<longleftrightarrow> is_lower c \<or> is_upper c"

definition is_alnum :: "char \<Rightarrow> bool" where "is_alnum c \<longleftrightarrow> is_letter c \<or> is_digit c"

definition is_hex_lower :: "char \<Rightarrow> bool" where "is_hex_lower c \<longleftrightarrow> is_digit c \<or> in_range 97 102 c"

text \<open>\<open>/^[a-f0-9]{64}$/\<close>\<close>

definition is_hex_digest :: "string \<Rightarrow> bool" where
  "is_hex_digest s \<longleftrightarrow> length s = 64 \<and> list_all is_hex_lower s"

text \<open>A name: a first character of one class and \<open>low\<close> to \<open>high\<close> more of another.\<close>

definition is_name :: "(char \<Rightarrow> bool) \<Rightarrow> (char \<Rightarrow> bool) \<Rightarrow> nat \<Rightarrow> nat \<Rightarrow> string \<Rightarrow> bool" where
  "is_name first others low high s = (case s of [] \<Rightarrow> False
     | c # cs \<Rightarrow> first c \<and> list_all others cs \<and> low \<le> length cs \<and> length cs \<le> high)"

definition to_lower :: "char \<Rightarrow> char" where
  "to_lower c = (if is_upper c then char_of (of_char c + 32 :: nat) else c)"

section \<open>Splitting\<close>

text \<open>\<open>s.split(separator)\<close> for one character of a class: never the empty list.\<close>

fun split_on :: "(char \<Rightarrow> bool) \<Rightarrow> string \<Rightarrow> string list" where
  "split_on p [] = [[]]"
| "split_on p (c # s) = (if p c then [] # split_on p s
     else (case split_on p s of [] \<Rightarrow> [[c]] | w # ws \<Rightarrow> (c # w) # ws))"

lemma split_on_nonempty [simp]: "split_on p s \<noteq> []"
  by (induction s) (auto split: list.split)

text \<open>The part before the first character of a class, and the part after it.\<close>

fun cut_at :: "char \<Rightarrow> string \<Rightarrow> string \<times> string option" where
  "cut_at c [] = ([], None)"
| "cut_at c (x # s) = (if x = c then ([], Some s) else (case cut_at c s of (u, w) \<Rightarrow> (x # u, w)))"

text \<open>\<open>s.includes(part)\<close>\<close>

fun includes_text :: "string \<Rightarrow> string \<Rightarrow> bool" where
  "includes_text part [] = (part = [])"
| "includes_text part (c # s) = (take (length part) (c # s) = part \<or> includes_text part s)"

definition starts_with :: "string \<Rightarrow> string \<Rightarrow> bool" where
  "starts_with part s \<longleftrightarrow> take (length part) s = part"

text \<open>A check of a value that may be absent.\<close>

fun opt_all :: "('a \<Rightarrow> bool) \<Rightarrow> 'a option \<Rightarrow> bool" where
  "opt_all p None = True"
| "opt_all p (Some x) = p x"

end
