(* ===== verification/PluginLock.thy ===== *)
theory PluginLock
  imports TextPatterns
begin

text \<open>
  The lock file of the plugins, \<open>PluginInstallLock\<close> of \<open>packages/plugin-core/src/index.ts\<close>: which packages are installed, with
  what permissions, which generation of each plugin is active, which one it can go back to, and what is
  left to clean up. Every operation reads the file, changes it and writes it back whole, after a check.
\<close>

section \<open>Manifests and permissions\<close>

datatype plugin_trust = DataOnly | Official | Isolated | OpenclawCompat

record plugin_permissions =
  pp_tools :: "string list"
  pp_secrets :: "string list"
  pp_events :: "string list"
  pp_files :: "string list"
  pp_networkOrigins :: "string list"

record plugin_manifest =
  pf_id :: string
  pf_version :: string
  pf_entry :: string
  pf_trust :: plugin_trust
  pf_permissions :: plugin_permissions

text \<open>The permissions an operator grants; a missing list grants nothing.\<close>

record permission_grant =
  pg_tools :: "string list option"
  pg_secrets :: "string list option"
  pg_events :: "string list option"
  pg_files :: "string list option"
  pg_networkOrigins :: "string list option"

text \<open>\<open>[...new Set(xs)]\<close>: the first of equal elements stays.\<close>

definition js_set :: "string list \<Rightarrow> string list" where
  "js_set xs = rev (remdups (rev xs))"

definition intersect :: "string list \<Rightarrow> string list option \<Rightarrow> string list" where
  "intersect declared granted = (case granted of
     None \<Rightarrow> []
   | Some xs \<Rightarrow> filter (\<lambda>x. x \<in> set declared) (js_set xs))"

definition grantPluginPermissions :: "plugin_permissions \<Rightarrow> permission_grant \<Rightarrow> plugin_permissions" where
  "grantPluginPermissions declared g =
     \<lparr>pp_tools = intersect (pp_tools declared) (pg_tools g), pp_secrets = intersect (pp_secrets declared) (pg_secrets g),
      pp_events = intersect (pp_events declared) (pg_events g), pp_files = intersect (pp_files declared) (pg_files g),
      pp_networkOrigins = intersect (pp_networkOrigins declared) (pg_networkOrigins g)\<rparr>"

text \<open>\<open>/^[a-z0-9][a-z0-9._-]{1,127}$/\<close>\<close>

definition is_plugin_id :: "string \<Rightarrow> bool" where
  "is_plugin_id s \<longleftrightarrow> is_name (\<lambda>c. is_lower c \<or> is_digit c)
     (\<lambda>c. is_lower c \<or> is_digit c \<or> c = CHR ''.'' \<or> c = CHR ''_'' \<or> c = CHR ''-'') 1 127 s"

text \<open>Three numbers without leading zeros, then tags after \<open>-\<close> and after \<open>+\<close>.\<close>

definition is_version_number :: "string \<Rightarrow> bool" where
  "is_version_number s \<longleftrightarrow> s \<noteq> [] \<and> list_all is_digit s \<and> (s = ''0'' \<or> hd s \<noteq> CHR ''0'')"

definition is_version_tag :: "string \<Rightarrow> bool" where
  "is_version_tag s \<longleftrightarrow> list_all (\<lambda>w. w \<noteq> [] \<and> list_all is_alnum w) (split_on (\<lambda>c. c = CHR ''.'' \<or> c = CHR ''-'') s)"

definition isSafePluginVersion :: "string \<Rightarrow> bool" where
  "isSafePluginVersion s =
     (case cut_at (CHR ''+'') s of (s, build) \<Rightarrow>
      case cut_at (CHR ''-'') s of (core, pre) \<Rightarrow>
        (let numbers = split_on (\<lambda>c. c = CHR ''.'') core in
         length numbers = 3 \<and> list_all is_version_number numbers \<and> opt_all is_version_tag pre \<and> opt_all is_version_tag build))"

section \<open>The file\<close>

datatype install_state = Staging | ActivationPending | Verified

record plugin_entry =
  pe_id :: string
  pe_version :: string
  pe_source :: string
  pe_digest :: string
  pe_installedAt :: timestamp
  pe_trust :: plugin_trust
  pe_grantedPermissions :: plugin_permissions
  pe_enabled :: bool
  pe_installState :: "install_state option"
  pe_verifiedAt :: "timestamp option"
  pe_stateDigest :: "string option"
  pe_rollbackPossible :: "bool option"

record plugin_activation =
  pa_activeVersion :: "string option"
  pa_previousVersion :: "string option"
  pa_resumeVersion :: "string option"
  pa_generation :: "int option"

record plugin_debt =
  pd_id :: string
  pd_version :: string
  pd_attempts :: int
  pd_createdAt :: timestamp
  pd_updatedAt :: timestamp
  pd_lastError :: string

text \<open>A file of an older release has no activations and no debts. \<open>None\<close> is no file.\<close>

record plugin_lock =
  pl_plugins :: "(string \<times> plugin_entry) list"
  pl_activations :: "(string \<times> plugin_activation) list option"
  pl_cleanupDebts :: "(string \<times> plugin_debt) list option"

type_synonym lock_file = "plugin_lock option"

datatype lock_error =
    PluginIdInvalid
  | PluginVersionInvalid
  | AlreadyInstalled string
  | NotInstalled string
  | VerificationIncomplete string
  | CleanupPending string
  | NotEnabled string
  | NoRollbackGeneration string
  | UninstallActive string
  | UninstallIndebted string
  | AttemptsInvalid
  | DebtMissingPackage string
  | MultipleEnabled string
  | KeyMismatch string
  | DigestInvalid string
  | StateDigestInvalid string
  | GenerationInvalid string
  | ActiveMissing string
  | ActiveIncomplete string
  | PreviousMissing string
  | ResumeMissing string
  | ResumeIncomplete string
  | ActiveAndResumable string
  | EnablementDisagrees string
  | DebtInvalid string

definition pluginKey :: "string \<Rightarrow> string \<Rightarrow> string" where
  "pluginKey i v = i @ CHR ''@'' # v"

definition validatePackageCoordinates :: "string \<Rightarrow> string \<Rightarrow> lock_error + unit" where
  "validatePackageCoordinates i v =
     bind_result (throw_if (\<not> is_plugin_id i) PluginIdInvalid) (\<lambda>_. throw_if (\<not> isSafePluginVersion v) PluginVersionInvalid)"

text \<open>A property that an object of activations does not have itself is looked up in \<open>Object.prototype\<close>: the only name
  there that is a plugin identifier is \<open>constructor\<close>, a function without any of the fields.\<close>

definition activation_of :: "(string \<times> plugin_activation) list \<Rightarrow> string \<Rightarrow> plugin_activation option" where
  "activation_of acts i = (case map_of acts i of
     Some a \<Rightarrow> Some a
   | None \<Rightarrow> if i = ''constructor''
       then Some \<lparr>pa_activeVersion = None, pa_previousVersion = None, pa_resumeVersion = None, pa_generation = None\<rparr> else None)"

definition active_version :: "(string \<times> plugin_activation) list \<Rightarrow> string \<Rightarrow> string option" where
  "active_version acts i = Option.bind (activation_of acts i) pa_activeVersion"

section \<open>The check\<close>

primrec check_all :: "('a \<Rightarrow> 'e + unit) \<Rightarrow> 'a list \<Rightarrow> 'e + unit" where
  "check_all f [] = Inr ()"
| "check_all f (x # xs) = bind_result (f x) (\<lambda>_. check_all f xs)"

definition check_entry :: "string \<times> plugin_entry \<Rightarrow> lock_error + unit" where
  "check_entry p = (case p of (k, e) \<Rightarrow>
     bind_result (validatePackageCoordinates (pe_id e) (pe_version e)) (\<lambda>_.
     bind_result (throw_if (k \<noteq> pluginKey (pe_id e) (pe_version e)) (KeyMismatch k)) (\<lambda>_.
     bind_result (throw_if (\<not> is_hex_digest (pe_digest e)) (DigestInvalid k)) (\<lambda>_.
       throw_if (\<not> opt_all is_hex_digest (pe_stateDigest e)) (StateDigestInvalid k)))))"

definition incomplete :: "plugin_entry \<Rightarrow> bool" where
  "incomplete e \<longleftrightarrow> pe_installState e = Some Staging \<or> pe_installState e = Some ActivationPending"

definition missing :: "(string \<times> plugin_entry) list \<Rightarrow> string \<Rightarrow> string option \<Rightarrow> bool" where
  "missing ps i v = (case v of None \<Rightarrow> False | Some v \<Rightarrow> map_of ps (pluginKey i v) = None)"

definition points_to_incomplete :: "(string \<times> plugin_entry) list \<Rightarrow> string \<Rightarrow> string option \<Rightarrow> bool" where
  "points_to_incomplete ps i v = (case v of None \<Rightarrow> False
     | Some v \<Rightarrow> (case map_of ps (pluginKey i v) of None \<Rightarrow> False | Some e \<Rightarrow> incomplete e))"

definition generation_ok :: "int option \<Rightarrow> bool" where
  "generation_ok g = (case g of None \<Rightarrow> False | Some g \<Rightarrow> 0 \<le> g \<and> g \<le> MAX_SAFE_INTEGER)"

definition check_activation :: "(string \<times> plugin_entry) list \<Rightarrow> string \<times> plugin_activation \<Rightarrow> lock_error + unit" where
  "check_activation ps p = (case p of (i, a) \<Rightarrow>
     bind_result (throw_if (\<not> generation_ok (pa_generation a)) (GenerationInvalid i)) (\<lambda>_.
     bind_result (throw_if (missing ps i (pa_activeVersion a)) (ActiveMissing i)) (\<lambda>_.
     bind_result (throw_if (points_to_incomplete ps i (pa_activeVersion a)) (ActiveIncomplete i)) (\<lambda>_.
     bind_result (throw_if (missing ps i (pa_previousVersion a)) (PreviousMissing i)) (\<lambda>_.
     bind_result (throw_if (missing ps i (pa_resumeVersion a)) (ResumeMissing i)) (\<lambda>_.
     bind_result (throw_if (points_to_incomplete ps i (pa_resumeVersion a)) (ResumeIncomplete i)) (\<lambda>_.
       throw_if (pa_activeVersion a \<noteq> None \<and> pa_resumeVersion a \<noteq> None) (ActiveAndResumable i))))))))"

definition check_enabled :: "(string \<times> plugin_activation) list \<Rightarrow> string \<times> plugin_entry \<Rightarrow> lock_error + unit" where
  "check_enabled acts p = (case p of (k, e) \<Rightarrow>
     throw_if (pe_enabled e \<noteq> (active_version acts (pe_id e) = Some (pe_version e))) (EnablementDisagrees k))"

definition check_debt :: "(string \<times> plugin_entry) list \<Rightarrow> string \<times> plugin_debt \<Rightarrow> lock_error + unit" where
  "check_debt ps p = (case p of (k, b) \<Rightarrow>
     bind_result (validatePackageCoordinates (pd_id b) (pd_version b)) (\<lambda>_.
       throw_if (k \<noteq> pluginKey (pd_id b) (pd_version b) \<or> map_of ps k = None \<or> pd_attempts b < 1
         \<or> pd_attempts b > MAX_SAFE_INTEGER \<or> 512 < length (pd_lastError b)) (DebtInvalid k)))"

definition validatePluginLock ::
  "(string \<times> plugin_entry) list \<Rightarrow> (string \<times> plugin_activation) list \<Rightarrow> (string \<times> plugin_debt) list \<Rightarrow> lock_error + unit" where
  "validatePluginLock ps acts debts =
     bind_result (check_all check_entry ps) (\<lambda>_.
     bind_result (check_all (check_activation ps) acts) (\<lambda>_.
     bind_result (check_all (check_enabled acts) ps) (\<lambda>_. check_all (check_debt ps) debts)))"

section \<open>Reading and writing\<close>

record open_lock =
  ol_plugins :: "(string \<times> plugin_entry) list"
  ol_activations :: "(string \<times> plugin_activation) list"
  ol_debts :: "(string \<times> plugin_debt) list"

text \<open>Before there were activations, the enabled package of a plugin was its active one.\<close>

fun enabled_versions :: "plugin_entry list \<Rightarrow> (string \<times> string) list \<Rightarrow> lock_error + (string \<times> string) list" where
  "enabled_versions [] found = Inr found"
| "enabled_versions (e # es) found =
     (if \<not> pe_enabled e then enabled_versions es found
      else if map_of found (pe_id e) \<noteq> None then Inl (MultipleEnabled (pe_id e))
      else enabled_versions es (found @ [(pe_id e, pe_version e)]))"

definition deriveLegacyActivations :: "(string \<times> plugin_entry) list \<Rightarrow> lock_error + (string \<times> plugin_activation) list" where
  "deriveLegacyActivations ps = bind_result (enabled_versions (map snd ps) []) (\<lambda>found.
     Inr (map (\<lambda>(i, v). (i, \<lparr>pa_activeVersion = Some v, pa_previousVersion = None, pa_resumeVersion = None,
       pa_generation = Some 1\<rparr>)) found))"

definition read_lock :: "lock_file \<Rightarrow> lock_error + open_lock" where
  "read_lock f = (case f of
     None \<Rightarrow> Inr \<lparr>ol_plugins = [], ol_activations = [], ol_debts = []\<rparr>
   | Some l \<Rightarrow>
       bind_result (case pl_activations l of Some acts \<Rightarrow> Inr acts | None \<Rightarrow> deriveLegacyActivations (pl_plugins l)) (\<lambda>acts.
         let debts = nullish (pl_cleanupDebts l) [] in
         bind_result (validatePluginLock (pl_plugins l) acts debts) (\<lambda>_.
           Inr \<lparr>ol_plugins = pl_plugins l, ol_activations = acts, ol_debts = debts\<rparr>)))"

definition write_lock :: "open_lock \<Rightarrow> lock_error + lock_file" where
  "write_lock l = bind_result (validatePluginLock (ol_plugins l) (ol_activations l) (ol_debts l)) (\<lambda>_.
     Inr (Some \<lparr>pl_plugins = ol_plugins l, pl_activations = Some (ol_activations l), pl_cleanupDebts = Some (ol_debts l)\<rparr>))"

type_synonym 'a lock_op = "lock_file \<Rightarrow> lock_error + 'a \<times> lock_file"

definition write_and_return :: "open_lock \<Rightarrow> 'a \<Rightarrow> lock_error + 'a \<times> lock_file" where
  "write_and_return l a = bind_result (write_lock l) (\<lambda>f. Inr (a, f))"

definition put_plugin :: "string \<Rightarrow> plugin_entry \<Rightarrow> open_lock \<Rightarrow> open_lock" where
  "put_plugin k e l = l\<lparr>ol_plugins := AList.update k e (ol_plugins l)\<rparr>"

definition put_activation :: "string \<Rightarrow> plugin_activation \<Rightarrow> open_lock \<Rightarrow> open_lock" where
  "put_activation i a l = l\<lparr>ol_activations := AList.update i a (ol_activations l)\<rparr>"

text \<open>Exactly the given version of a plugin is enabled, or none.\<close>

definition enable_only :: "string \<Rightarrow> string option \<Rightarrow> open_lock \<Rightarrow> open_lock" where
  "enable_only i v l = l\<lparr>ol_plugins := map (\<lambda>(k, e). (k, if pe_id e = i then e\<lparr>pe_enabled := Some (pe_version e) = v\<rparr> else e))
     (ol_plugins l)\<rparr>"

section \<open>The operations\<close>

text \<open>\<open>source\<close> and \<open>digest\<close> are the directory of the package and the digest of its files.\<close>

definition lock_install :: "timestamp \<Rightarrow> string \<Rightarrow> string \<Rightarrow> plugin_manifest \<Rightarrow> permission_grant \<Rightarrow> plugin_entry lock_op" where
  "lock_install now source digest m g f =
     bind_result (read_lock f) (\<lambda>l.
     let k = pluginKey (pf_id m) (pf_version m);
         e = \<lparr>pe_id = pf_id m, pe_version = pf_version m, pe_source = source, pe_digest = digest, pe_installedAt = now,
              pe_trust = pf_trust m, pe_grantedPermissions = grantPluginPermissions (pf_permissions m) g, pe_enabled = False,
              pe_installState = Some Staging, pe_verifiedAt = None, pe_stateDigest = None, pe_rollbackPossible = None\<rparr> in
     bind_result (throw_if (map_of (ol_plugins l) k \<noteq> None) (AlreadyInstalled k)) (\<lambda>_.
       write_and_return (put_plugin k e l) e))"

definition lock_activate :: "string \<Rightarrow> string \<Rightarrow> (plugin_entry \<times> plugin_activation) lock_op" where
  "lock_activate i v f =
     bind_result (validatePackageCoordinates i v) (\<lambda>_.
     bind_result (read_lock f) (\<lambda>l.
     let k = pluginKey i v in
     bind_result (from_option (NotInstalled k) (map_of (ol_plugins l) k)) (\<lambda>e.
     bind_result (throw_if (pe_installState e = Some Staging) (VerificationIncomplete k)) (\<lambda>_.
     bind_result (throw_if (map_of (ol_debts l) k \<noteq> None) (CleanupPending k)) (\<lambda>_.
     let current = activation_of (ol_activations l) i;
         was = Option.bind current pa_activeVersion;
         earlier = Option.bind current pa_previousVersion;
         e' = e\<lparr>pe_enabled := True, pe_installState := Some Verified\<rparr>;
         a = \<lparr>pa_activeVersion = Some v,
              pa_previousVersion = (if was \<noteq> None \<and> was \<noteq> Some v then was else if earlier \<noteq> Some v then earlier else None),
              pa_resumeVersion = None,
              pa_generation = Some (nullish (Option.bind current pa_generation) 0 + 1)\<rparr> in
       write_and_return (put_activation i a (put_plugin k e' (enable_only i (Some v) l))) (e', a))))))"

definition lock_disable :: "string \<Rightarrow> (plugin_entry \<times> plugin_activation) lock_op" where
  "lock_disable i f =
     bind_result (read_lock f) (\<lambda>l.
     let current = activation_of (ol_activations l) i in
     bind_result (from_option (NotEnabled i) (Option.bind current pa_activeVersion)) (\<lambda>v.
     let k = pluginKey i v in
     bind_result (from_option (ActiveMissing k) (map_of (ol_plugins l) k)) (\<lambda>e.
     let earlier = Option.bind current pa_previousVersion;
         a = \<lparr>pa_activeVersion = None, pa_previousVersion = (if earlier \<noteq> Some v then earlier else None),
              pa_resumeVersion = Some v, pa_generation = map_option (\<lambda>n. n + 1) (Option.bind current pa_generation)\<rparr> in
       write_and_return (put_activation i a (enable_only i None l)) (e\<lparr>pe_enabled := False\<rparr>, a))))"

definition lock_rollback :: "string \<Rightarrow> (plugin_entry \<times> plugin_activation) lock_op" where
  "lock_rollback i f =
     bind_result (read_lock f) (\<lambda>l.
     let current = activation_of (ol_activations l) i in
     bind_result (from_option (NoRollbackGeneration i) (Option.bind current pa_previousVersion)) (\<lambda>v.
     let k = pluginKey i v in
     bind_result (from_option (PreviousMissing k) (map_of (ol_plugins l) k)) (\<lambda>e.
     bind_result (throw_if (pe_installState e = Some Staging) (VerificationIncomplete k)) (\<lambda>_.
     bind_result (throw_if (map_of (ol_debts l) k \<noteq> None) (CleanupPending k)) (\<lambda>_.
     let was = (case Option.bind current pa_activeVersion of Some w \<Rightarrow> Some w | None \<Rightarrow> Option.bind current pa_resumeVersion);
         a = \<lparr>pa_activeVersion = Some (pe_version e), pa_previousVersion = was, pa_resumeVersion = None,
              pa_generation = map_option (\<lambda>n. n + 1) (Option.bind current pa_generation)\<rparr> in
       write_and_return (put_activation i a (enable_only i (Some (pe_version e)) l)) (e\<lparr>pe_enabled := True\<rparr>, a))))))"

definition lock_setEnabled :: "string \<Rightarrow> string \<Rightarrow> bool \<Rightarrow> plugin_entry lock_op" where
  "lock_setEnabled i v enabled f =
     bind_result (validatePackageCoordinates i v) (\<lambda>_.
     bind_result (read_lock f) (\<lambda>l.
     let k = pluginKey i v in
     bind_result (from_option (NotInstalled k) (map_of (ol_plugins l) k)) (\<lambda>e.
     bind_result (throw_if (incomplete e) (VerificationIncomplete k)) (\<lambda>_.
       if enabled then bind_result (lock_activate i v f) (\<lambda>((e', a), f'). Inr (e', f'))
       else if active_version (ol_activations l) i = Some v then bind_result (lock_disable i f) (\<lambda>((e', a), f'). Inr (e', f'))
       else write_and_return (put_plugin k (e\<lparr>pe_enabled := False\<rparr>) l) (e\<lparr>pe_enabled := False\<rparr>)))))"

definition lock_recordVerification ::
  "string \<Rightarrow> string \<Rightarrow> timestamp \<Rightarrow> string option \<Rightarrow> bool option \<Rightarrow> bool \<Rightarrow> plugin_entry lock_op" where
  "lock_recordVerification i v at_time stateDigest rollbackPossible activationPending f =
     bind_result (validatePackageCoordinates i v) (\<lambda>_.
     bind_result (read_lock f) (\<lambda>l.
     let k = pluginKey i v in
     bind_result (from_option (NotInstalled k) (map_of (ol_plugins l) k)) (\<lambda>e.
     let e' = e\<lparr>pe_verifiedAt := Some at_time,
            pe_stateDigest := (case stateDigest of Some d \<Rightarrow> Some d | None \<Rightarrow> pe_stateDigest e),
            pe_rollbackPossible := (case rollbackPossible of Some b \<Rightarrow> Some b | None \<Rightarrow> pe_rollbackPossible e),
            pe_installState := Some (if activationPending then ActivationPending else Verified)\<rparr> in
       write_and_return (put_plugin k e' l) e')))"

text \<open>\<open>lastError.replace(/[\r\n\0]/g, " ").slice(0, 512) || "plugin cleanup failed"\<close>\<close>

definition clean_error :: "string \<Rightarrow> string" where
  "clean_error s = nullish (truthy (Some (take 512 (map (\<lambda>c. if c \<in> {CHR 0x0D, CHR 0x0A, CHR 0x00} then CHR '' '' else c) s))))
     ''plugin cleanup failed''"

definition lock_recordCleanupDebt :: "timestamp \<Rightarrow> string \<Rightarrow> string \<Rightarrow> int \<Rightarrow> string \<Rightarrow> plugin_debt lock_op" where
  "lock_recordCleanupDebt now i v attempts lastError f =
     bind_result (validatePackageCoordinates i v) (\<lambda>_.
     bind_result (throw_if (attempts < 1 \<or> attempts > MAX_SAFE_INTEGER) AttemptsInvalid) (\<lambda>_.
     bind_result (read_lock f) (\<lambda>l.
     let k = pluginKey i v in
     bind_result (throw_if (map_of (ol_plugins l) k = None) (DebtMissingPackage k)) (\<lambda>_.
     let previous = map_of (ol_debts l) k;
         debt = \<lparr>pd_id = i, pd_version = v, pd_attempts = nullish (map_option pd_attempts previous) 0 + attempts,
                 pd_createdAt = nullish (map_option pd_createdAt previous) now, pd_updatedAt = now,
                 pd_lastError = clean_error lastError\<rparr> in
       write_and_return (l\<lparr>ol_debts := AList.update k debt (ol_debts l)\<rparr>) debt))))"

definition lock_clearCleanupDebt :: "string \<Rightarrow> string \<Rightarrow> bool lock_op" where
  "lock_clearCleanupDebt i v f =
     bind_result (validatePackageCoordinates i v) (\<lambda>_.
     bind_result (read_lock f) (\<lambda>l.
     let k = pluginKey i v in
       if map_of (ol_debts l) k = None then Inr (False, f)
       else write_and_return (l\<lparr>ol_debts := AList.delete k (ol_debts l)\<rparr>) True))"

definition lock_clearAllCleanupDebts :: "nat lock_op" where
  "lock_clearAllCleanupDebts f =
     bind_result (read_lock f) (\<lambda>l.
       if ol_debts l = [] then Inr (0, f) else write_and_return (l\<lparr>ol_debts := []\<rparr>) (length (ol_debts l)))"

definition lock_uninstall :: "string \<Rightarrow> string \<Rightarrow> bool lock_op" where
  "lock_uninstall i v f =
     bind_result (validatePackageCoordinates i v) (\<lambda>_.
     bind_result (read_lock f) (\<lambda>l.
     let k = pluginKey i v; current = activation_of (ol_activations l) i in
     if map_of (ol_plugins l) k = None then Inr (False, f)
     else
       bind_result (throw_if (Option.bind current pa_activeVersion = Some v) (UninstallActive k)) (\<lambda>_.
       bind_result (throw_if (map_of (ol_debts l) k \<noteq> None) (UninstallIndebted k)) (\<lambda>_.
       let l' = l\<lparr>ol_plugins := AList.delete k (ol_plugins l)\<rparr> in
       write_and_return (case current of
           None \<Rightarrow> l'
         | Some a \<Rightarrow> put_activation i \<lparr>pa_activeVersion = pa_activeVersion a,
             pa_previousVersion = (if pa_previousVersion a = Some v then None else pa_previousVersion a),
             pa_resumeVersion = (if pa_resumeVersion a = Some v then None else pa_resumeVersion a),
             pa_generation = pa_generation a\<rparr> l') True))))"

end
