(* ===== verification/Effects.thy ===== *)
theory Effects
  imports Prelude
begin

text \<open>
  Operations that change a state and may throw: what a state transformer returns is an error or a value, and
  the changes made before a throw stay. The rules for \<open>effect_triple\<close>, a condition before, one for the value and one for
  the error after, carry the invariants of the components that are written with these combinators.
\<close>

type_synonym ('s, 'e, 'a) effect = "'s \<Rightarrow> ('e + 'a) \<times> 's"

named_theorems effect_rules \<open>triples of the combinators\<close>

definition return_eff :: "'a \<Rightarrow> ('s, 'e, 'a) effect" where "return_eff a s = (Inr a, s)"

definition throw_eff :: "'e \<Rightarrow> ('s, 'e, 'a) effect" where "throw_eff e s = (Inl e, s)"

definition bind_eff :: "('s, 'e, 'a) effect \<Rightarrow> ('a \<Rightarrow> ('s, 'e, 'b) effect) \<Rightarrow> ('s, 'e, 'b) effect" where
  "bind_eff m f s = (case m s of (Inl e, s') \<Rightarrow> (Inl e, s') | (Inr a, s') \<Rightarrow> f a s')"

definition gets_eff :: "('s \<Rightarrow> 'a) \<Rightarrow> ('s, 'e, 'a) effect" where "gets_eff f s = (Inr (f s), s)"

definition modify_eff :: "('s \<Rightarrow> 's) \<Rightarrow> ('s, 'e, unit) effect" where "modify_eff f s = (Inr (), f s)"

definition lift_eff :: "'e + 'a \<Rightarrow> ('s, 'e, 'a) effect" where "lift_eff r s = (r, s)"

definition throw_if_eff :: "bool \<Rightarrow> 'e \<Rightarrow> ('s, 'e, unit) effect" where "throw_if_eff b e = lift_eff (throw_if b e)"

text \<open>\<open>try m catch\<close>, and a cleanup that runs when \<open>m\<close> throws and whose own errors replace the first one.\<close>

definition catch_eff :: "('s, 'e, 'a) effect \<Rightarrow> ('e \<Rightarrow> ('s, 'e, 'a) effect) \<Rightarrow> ('s, 'e, 'a) effect" where
  "catch_eff m h s = (case m s of (Inl e, s') \<Rightarrow> h e s' | (Inr a, s') \<Rightarrow> (Inr a, s'))"

definition on_error :: "('s, 'e, 'a) effect \<Rightarrow> ('s, 'e, unit) effect \<Rightarrow> ('s, 'e, 'a) effect" where
  "on_error m cleanup = catch_eff m (\<lambda>e. bind_eff cleanup (\<lambda>_. throw_eff e))"

primrec each_eff :: "('a \<Rightarrow> ('s, 'e, unit) effect) \<Rightarrow> 'a list \<Rightarrow> ('s, 'e, unit) effect" where
  "each_eff f [] = return_eff ()"
| "each_eff f (x # xs) = bind_eff (f x) (\<lambda>_. each_eff f xs)"

section \<open>Triples\<close>

definition effect_triple ::
  "('s \<Rightarrow> bool) \<Rightarrow> ('s, 'e, 'a) effect \<Rightarrow> ('a \<Rightarrow> 's \<Rightarrow> bool) \<Rightarrow> ('e \<Rightarrow> 's \<Rightarrow> bool) \<Rightarrow> bool" where
  "effect_triple P m Q E \<longleftrightarrow> (\<forall>s. P s \<longrightarrow> (case m s of (Inl e, s') \<Rightarrow> E e s' | (Inr a, s') \<Rightarrow> Q a s'))"

lemma effect_tripleI:
  "(\<And>s e s'. P s \<Longrightarrow> m s = (Inl e, s') \<Longrightarrow> E e s') \<Longrightarrow> (\<And>s a s'. P s \<Longrightarrow> m s = (Inr a, s') \<Longrightarrow> Q a s')
    \<Longrightarrow> effect_triple P m Q E"
  unfolding effect_triple_def by (auto split: prod.splits sum.splits)

lemma effect_tripleD:
  "effect_triple P m Q E \<Longrightarrow> P s \<Longrightarrow> m s = (r, s') \<Longrightarrow> (case r of Inl e \<Rightarrow> E e s' | Inr a \<Rightarrow> Q a s')"
  unfolding effect_triple_def by (fastforce split: prod.splits sum.splits)

lemma bind_eff_rule:
  "effect_triple P m Q E \<Longrightarrow> (\<And>a. effect_triple (Q a) (f a) R E) \<Longrightarrow> effect_triple P (bind_eff m f) R E"
  unfolding effect_triple_def bind_eff_def by (fastforce split: prod.splits sum.splits)

lemma return_eff_rule: "(\<And>s. P s \<Longrightarrow> Q a s) \<Longrightarrow> effect_triple P (return_eff a) Q E"
  by (simp add: effect_triple_def return_eff_def)

lemma throw_eff_rule: "(\<And>s. P s \<Longrightarrow> E e s) \<Longrightarrow> effect_triple P (throw_eff e) Q E"
  by (simp add: effect_triple_def throw_eff_def)

lemma gets_eff_rule: "(\<And>s. P s \<Longrightarrow> Q (f s) s) \<Longrightarrow> effect_triple P (gets_eff f) Q E"
  by (simp add: effect_triple_def gets_eff_def)

lemma modify_eff_rule: "(\<And>s. P s \<Longrightarrow> Q () (f s)) \<Longrightarrow> effect_triple P (modify_eff f) Q E"
  by (simp add: effect_triple_def modify_eff_def)

lemma lift_eff_rule:
  "(\<And>s e. P s \<Longrightarrow> r = Inl e \<Longrightarrow> E e s) \<Longrightarrow> (\<And>s a. P s \<Longrightarrow> r = Inr a \<Longrightarrow> Q a s) \<Longrightarrow> effect_triple P (lift_eff r) Q E"
  by (auto simp: effect_triple_def lift_eff_def split: sum.splits)

lemma throw_if_eff_rule:
  "(\<And>s. P s \<Longrightarrow> b \<Longrightarrow> E e s) \<Longrightarrow> (\<And>s. P s \<Longrightarrow> \<not> b \<Longrightarrow> Q () s) \<Longrightarrow> effect_triple P (throw_if_eff b e) Q E"
  by (auto simp: throw_if_eff_def intro!: lift_eff_rule)

lemma catch_eff_rule:
  "effect_triple P m Q F \<Longrightarrow> (\<And>e. effect_triple (F e) (h e) Q E) \<Longrightarrow> effect_triple P (catch_eff m h) Q E"
  unfolding effect_triple_def catch_eff_def by (fastforce split: prod.splits sum.splits)

lemma on_error_rule:
  "effect_triple P m Q F \<Longrightarrow> (\<And>e. effect_triple (F e) cleanup (\<lambda>_. E e) E) \<Longrightarrow> effect_triple P (on_error m cleanup) Q E"
  unfolding on_error_def by (auto intro!: catch_eff_rule bind_eff_rule throw_eff_rule)

lemma if_eff_rule:
  "(c \<Longrightarrow> effect_triple P m Q E) \<Longrightarrow> (\<not> c \<Longrightarrow> effect_triple P n Q E) \<Longrightarrow> effect_triple P (if c then m else n) Q E"
  by simp

lemma effect_conseq:
  "effect_triple P m Q E \<Longrightarrow> (\<And>s. P' s \<Longrightarrow> P s) \<Longrightarrow> (\<And>a s. Q a s \<Longrightarrow> Q' a s) \<Longrightarrow> (\<And>e s. E e s \<Longrightarrow> E' e s)
    \<Longrightarrow> effect_triple P' m Q' E'"
  unfolding effect_triple_def by (fastforce split: prod.splits sum.splits)

section \<open>Invariants\<close>

text \<open>Kept whether the operation throws or not.\<close>

definition keeps :: "('s \<Rightarrow> bool) \<Rightarrow> ('s, 'e, 'a) effect \<Rightarrow> bool" where
  "keeps I m \<longleftrightarrow> (\<forall>s. I s \<longrightarrow> I (snd (m s)))"

lemma keeps_triple: "keeps I m \<longleftrightarrow> effect_triple I m (\<lambda>_. I) (\<lambda>_. I)"
proof -
  have "(case m s of (Inl e, s') \<Rightarrow> I s' | (Inr a, s') \<Rightarrow> I s') = I (snd (m s))" for s
    by (cases "m s", cases "fst (m s)") auto
  then show ?thesis by (simp add: keeps_def effect_triple_def)
qed

lemma keepsD: "keeps I m \<Longrightarrow> I s \<Longrightarrow> m s = (r, s') \<Longrightarrow> I s'"
  by (auto simp: keeps_def)

lemma keeps_bind [effect_rules]: "keeps I m \<Longrightarrow> (\<And>a. keeps I (f a)) \<Longrightarrow> keeps I (bind_eff m f)"
  unfolding keeps_triple by (rule bind_eff_rule)

lemma keeps_return [effect_rules]: "keeps I (return_eff a)"
  by (simp add: keeps_def return_eff_def)

lemma keeps_throw [effect_rules]: "keeps I (throw_eff e)"
  by (simp add: keeps_def throw_eff_def)

lemma keeps_gets [effect_rules]: "keeps I (gets_eff f)"
  by (simp add: keeps_def gets_eff_def)

lemma keeps_lift [effect_rules]: "keeps I (lift_eff r)"
  by (simp add: keeps_def lift_eff_def)

lemma keeps_throw_if [effect_rules]: "keeps I (throw_if_eff b e)"
  by (simp add: throw_if_eff_def keeps_lift)

lemma keeps_catch [effect_rules]: "keeps I m \<Longrightarrow> (\<And>e. keeps I (h e)) \<Longrightarrow> keeps I (catch_eff m h)"
  unfolding keeps_triple by (rule catch_eff_rule)

lemma keeps_on_error [effect_rules]: "keeps I m \<Longrightarrow> keeps I c \<Longrightarrow> keeps I (on_error m c)"
  by (auto simp: on_error_def intro!: keeps_catch keeps_bind keeps_throw)

lemma keeps_each [effect_rules]: "(\<And>x. keeps I (f x)) \<Longrightarrow> keeps I (each_eff f xs)"
  by (induction xs) (auto intro!: keeps_bind keeps_return)

lemma keeps_modify: "(\<And>s. I s \<Longrightarrow> I (f s)) \<Longrightarrow> keeps I (modify_eff f)"
  by (simp add: keeps_def modify_eff_def)

lemma keeps_if [effect_rules]: "(c \<Longrightarrow> keeps I m) \<Longrightarrow> (\<not> c \<Longrightarrow> keeps I n) \<Longrightarrow> keeps I (if c then m else n)"
  by simp

end
