(* ===== verification/PluginLifecycle.thy ===== *)
theory PluginLifecycle
  imports PluginLock Effects
begin

text \<open>
  \<open>ManagerPluginLifecycle\<close> of \<open>apps/manager/src/plugin-lifecycle.ts\<close>, with the part of \<open>PluginPackageInstaller\<close> it uses: installing,
  enabling, upgrading, rolling back, disabling and removing plugins while runs use them. A run is pinned to the
  generations that were active when it started. The operations exclude one another, but what a run does, and the end
  of the process, may come in at every await.
\<close>

section \<open>State and surroundings\<close>

text \<open>
  The lock file, the package directories (named by their digests), the snapshots of plugin states, and in
  memory: the active, previous and resumable versions, the generations with whether they can execute, the registered
  tools with their plugins, the pins of the runs, and the generations a stop in progress waits for.
\<close>

record plugin_manager =
  pm_file :: lock_file
  pm_objects :: "string list"
  pm_states :: "((string \<times> string \<times> string) \<times> jsval) list"
  pm_active :: "(string \<times> string) list"
  pm_previous :: "(string \<times> string) list"
  pm_resume :: "(string \<times> string) list"
  pm_generations :: "(string \<times> (string \<times> string \<times> bool)) list"
  pm_tools :: "(string \<times> string) list"
  pm_pins :: "(string \<times> (string \<times> string) list) list"
  pm_stopped :: bool
  pm_stopping :: "(string \<times> string) list"

datatype plugin_error =
    LockFailed lock_error
  | LifecycleStopped
  | StageFailed
  | PackageExists string
  | InspectFailed string
  | VerifyFailed string
  | MigrationFailed string
  | MigrationUnsupported string
  | StateNotSerializable
  | StateMissing string
  | PluginNotInstalled string
  | UpgradeRequired string
  | OnlyDisabledGeneration string
  | CleanupStillPending string
  | VerificationPending string
  | PluginNotEnabled string
  | IdentityMismatch string
  | NewVersionRequired
  | NothingToRollBack string
  | RollbackImpossible string
  | ActiveGenerationChanged string
  | UninstallOfActive string
  | PinnedByRun string
  | StopFailed string
  | DisabledWithDebt string
  | DataOnlyTools string
  | ToolNameInvalid string
  | ToolReserved string
  | ToolCollision string
  | PluginDisabled string
  | ToolNotInGeneration string
  | PinnedDisappeared string

text \<open>What others do while an operation is awaited.\<close>

datatype meanwhile =
    PinRun string
  | CallTool string string
  | StopBegin
  | StopEnd "string list"

text \<open>
  The answers of the surroundings during one operation: whether an installed package is still as it was
  locked, whether its worker starts, what it migrates a state to, which attempt to stop a worker succeeds,
  the digest of the JSON text of a state (none when it has none or is over the limit), and which tool names
  the runtime still has free.
\<close>

record plugin_env =
  pv_now :: timestamp
  pv_inspect :: "plugin_entry \<Rightarrow> bool"
  pv_verify :: "plugin_entry \<Rightarrow> jsval \<Rightarrow> bool"
  pv_migrate :: "plugin_entry \<Rightarrow> plugin_entry \<Rightarrow> jsval \<Rightarrow> jsval option"
  pv_stop :: "string \<Rightarrow> nat \<Rightarrow> bool"
  pv_digest :: "jsval \<Rightarrow> string option"
  pv_canRegister :: "string \<Rightarrow> bool"
  pv_reserved :: "string list"
  pv_attempts :: nat
  pv_error :: string
  pv_meanwhile :: "string \<Rightarrow> nat \<Rightarrow> meanwhile list"

type_synonym 'a plugin_op = "(plugin_manager, plugin_error, 'a) effect"

section \<open>The lock file and the directories\<close>

definition with_lock :: "'a lock_op \<Rightarrow> 'a plugin_op" where
  "with_lock f s = (case f (pm_file s) of
     Inl e \<Rightarrow> (Inl (LockFailed e), s)
   | Inr (a, file) \<Rightarrow> (Inr a, s\<lparr>pm_file := file\<rparr>))"

definition the_lock :: "open_lock plugin_op" where
  "the_lock s = (case read_lock (pm_file s) of Inl e \<Rightarrow> (Inl (LockFailed e), s) | Inr l \<Rightarrow> (Inr l, s))"

definition requiredEntry :: "string \<Rightarrow> string \<Rightarrow> plugin_entry plugin_op" where
  "requiredEntry i v = bind_eff the_lock (\<lambda>l.
     lift_eff (from_option (PluginNotInstalled (pluginKey i v)) (map_of (ol_plugins l) (pluginKey i v))))"

definition referenced :: "open_lock \<Rightarrow> string list" where
  "referenced l = map (\<lambda>(k, e). pe_source e) (ol_plugins l)"

definition reconcileOrphans :: "unit plugin_op" where
  "reconcileOrphans = bind_eff the_lock (\<lambda>l.
     modify_eff (\<lambda>s. s\<lparr>pm_objects := filter (\<lambda>r. r \<in> set (referenced l)) (pm_objects s)\<rparr>))"

text \<open>\<open>stage\<close>: a checked copy of the package under its digest; \<open>None\<close> when copying or inspecting fails.\<close>

definition stage :: "(plugin_manifest \<times> string) option \<Rightarrow> (plugin_manifest \<times> string) plugin_op" where
  "stage package = bind_eff reconcileOrphans (\<lambda>_.
     bind_eff (lift_eff (from_option StageFailed package)) (\<lambda>(m, digest).
     bind_eff (gets_eff pm_objects) (\<lambda>objects.
     bind_eff (throw_if_eff (digest \<in> set objects) (PackageExists digest)) (\<lambda>_.
     bind_eff (modify_eff (\<lambda>s. s\<lparr>pm_objects := pm_objects s @ [digest]\<rparr>)) (\<lambda>_. return_eff (m, digest))))))"

definition remove_object :: "string \<Rightarrow> unit plugin_op" where
  "remove_object source = modify_eff (\<lambda>s. s\<lparr>pm_objects := removeAll source (pm_objects s)\<rparr>)"

definition remove_states :: "string \<Rightarrow> string \<Rightarrow> unit plugin_op" where
  "remove_states i v = modify_eff (\<lambda>s. s\<lparr>pm_states := filter (\<lambda>((j, w, d), x). \<not> (j = i \<and> w = v)) (pm_states s)\<rparr>)"

definition installer_uninstall :: "string \<Rightarrow> string \<Rightarrow> bool plugin_op" where
  "installer_uninstall i v =
     bind_eff (lift_eff (case validatePackageCoordinates i v of Inl e \<Rightarrow> Inl (LockFailed e) | Inr u \<Rightarrow> Inr u)) (\<lambda>_.
     bind_eff the_lock (\<lambda>l.
       case map_of (ol_plugins l) (pluginKey i v) of
         None \<Rightarrow> return_eff False
       | Some e \<Rightarrow> bind_eff (with_lock (lock_uninstall i v)) (\<lambda>removed.
           bind_eff (if removed then remove_object (pe_source e) else return_eff ()) (\<lambda>_. return_eff removed))))"

definition writeState :: "plugin_env \<Rightarrow> string \<Rightarrow> string \<Rightarrow> jsval \<Rightarrow> string plugin_op" where
  "writeState env i v x = bind_eff (lift_eff (from_option StateNotSerializable (pv_digest env x))) (\<lambda>d.
     bind_eff (modify_eff (\<lambda>s. if map_of (pm_states s) (i, v, d) \<noteq> None then s
       else s\<lparr>pm_states := pm_states s @ [((i, v, d), x)]\<rparr>)) (\<lambda>_. return_eff d))"

definition readState :: "plugin_entry \<Rightarrow> jsval plugin_op" where
  "readState e = (case pe_stateDigest e of
     None \<Rightarrow> return_eff (JObj [])
   | Some d \<Rightarrow> bind_eff (gets_eff pm_states) (\<lambda>files.
       lift_eff (from_option (StateMissing (pluginKey (pe_id e) (pe_version e))) (map_of files (pe_id e, pe_version e, d)))))"

section \<open>Pins and tools\<close>

definition pinRun :: "string \<Rightarrow> (string \<times> string) list plugin_op" where
  "pinRun run s = (case map_of (pm_pins s) run of
     Some pins \<Rightarrow> (Inr pins, s)
   | None \<Rightarrow> (Inr (pm_active s), s\<lparr>pm_pins := pm_pins s @ [(run, pm_active s)]\<rparr>))"

definition pinned :: "string \<Rightarrow> string \<Rightarrow> plugin_manager \<Rightarrow> bool" where
  "pinned i v s \<longleftrightarrow> list_ex (\<lambda>(run, pins). map_of pins i = Some v) (pm_pins s)"

definition generation_of :: "plugin_entry \<Rightarrow> (string \<times> string \<times> bool) plugin_op" where
  "generation_of e s = (let k = pluginKey (pe_id e) (pe_version e) in
     case map_of (pm_generations s) k of
       Some g \<Rightarrow> (Inr g, s)
     | None \<Rightarrow> (let g = (pe_id e, pe_version e, pe_trust e \<noteq> DataOnly) in
         (Inr g, s\<lparr>pm_generations := pm_generations s @ [(k, g)]\<rparr>)))"

text \<open>The handler of a registered tool, up to the invocation of the worker: the generation that executes.\<close>

definition call_tool :: "string \<Rightarrow> string \<Rightarrow> plugin_entry plugin_op" where
  "call_tool run tool = bind_eff (gets_eff pm_tools) (\<lambda>tools.
     bind_eff (lift_eff (from_option (PluginDisabled tool) (map_of tools tool))) (\<lambda>i.
     bind_eff (pinRun run) (\<lambda>pins.
     bind_eff (lift_eff (from_option (PluginDisabled i) (map_of pins i))) (\<lambda>v.
     bind_eff (requiredEntry i v) (\<lambda>e.
     bind_eff (throw_if_eff (tool \<notin> set (pp_tools (pe_grantedPermissions e))) (ToolNotInGeneration tool)) (\<lambda>_.
     bind_eff (generation_of e) (\<lambda>(j, w, executable).
     bind_eff (throw_if_eff (\<not> executable) (DataOnlyTools tool)) (\<lambda>_. return_eff e))))))))"

text \<open>Whether a tool is listed for a run: its definition comes from the pinned generation.\<close>

definition listed_tool :: "string \<Rightarrow> string \<Rightarrow> plugin_entry option plugin_op" where
  "listed_tool run tool = bind_eff (gets_eff pm_tools) (\<lambda>tools.
     case map_of tools tool of None \<Rightarrow> return_eff None
     | Some i \<Rightarrow> bind_eff (pinRun run) (\<lambda>pins.
       case map_of pins i of None \<Rightarrow> return_eff None
       | Some v \<Rightarrow> bind_eff the_lock (\<lambda>l.
         return_eff (case map_of (ol_plugins l) (pluginKey i v) of
             None \<Rightarrow> None
           | Some e \<Rightarrow> if tool \<in> set (pp_tools (pe_grantedPermissions e)) then Some e else None))))"

text \<open>\<open>/^[a-z][a-z0-9_]{0,127}$/\<close>\<close>

definition is_tool_name :: "string \<Rightarrow> bool" where
  "is_tool_name s \<longleftrightarrow> is_name is_lower (\<lambda>c. is_lower c \<or> is_digit c \<or> c = CHR ''_'') 0 127 s"

fun validate_tools :: "plugin_env \<Rightarrow> (string \<times> string) list \<Rightarrow> (string \<times> string) list \<Rightarrow> (string \<times> string) list \<Rightarrow> plugin_error + unit" where
  "validate_tools env registered proposed [] = Inr ()"
| "validate_tools env registered proposed ((i, tool) # rest) =
     (if \<not> is_tool_name tool then Inl (ToolNameInvalid tool)
      else if tool \<in> set (pv_reserved env) then Inl (ToolReserved tool)
      else if map_of proposed tool \<noteq> None \<and> map_of proposed tool \<noteq> Some i then Inl (ToolCollision tool)
      else if map_of registered tool \<noteq> None \<and> map_of registered tool \<noteq> Some i then Inl (ToolCollision tool)
      else if map_of registered tool = None \<and> \<not> pv_canRegister env tool then Inl (ToolCollision tool)
      else validate_tools env registered (AList.update tool i proposed) rest)"

definition tools_of :: "plugin_entry \<Rightarrow> (string \<times> string) list" where
  "tools_of e = map (\<lambda>tool. (pe_id e, tool)) (pp_tools (pe_grantedPermissions e))"

definition validateToolRegistrations :: "plugin_env \<Rightarrow> plugin_entry list \<Rightarrow> unit plugin_op" where
  "validateToolRegistrations env es = bind_eff (gets_eff pm_tools) (\<lambda>registered.
     lift_eff (validate_tools env registered [] (concat (map tools_of es))))"

definition ensureToolRegistrations :: "plugin_env \<Rightarrow> plugin_entry \<Rightarrow> string list plugin_op" where
  "ensureToolRegistrations env e =
     bind_eff (throw_if_eff (pe_trust e = DataOnly \<and> pp_tools (pe_grantedPermissions e) \<noteq> []) (DataOnlyTools (pe_id e))) (\<lambda>_.
     bind_eff (validateToolRegistrations env [e]) (\<lambda>_.
     bind_eff (gets_eff pm_tools) (\<lambda>registered.
     let created = filter (\<lambda>tool. map_of registered tool = None) (pp_tools (pe_grantedPermissions e)) in
     bind_eff (modify_eff (\<lambda>s. s\<lparr>pm_tools := pm_tools s @ map (\<lambda>tool. (tool, pe_id e)) created\<rparr>)) (\<lambda>_. return_eff created))))"

definition disposeToolRegistrations :: "string list \<Rightarrow> unit plugin_op" where
  "disposeToolRegistrations tools = modify_eff (\<lambda>s. s\<lparr>pm_tools := filter (\<lambda>(t, i). t \<notin> set tools) (pm_tools s)\<rparr>)"

definition pruneToolRegistrations :: "string \<Rightarrow> unit plugin_op" where
  "pruneToolRegistrations i = bind_eff the_lock (\<lambda>l.
     let remaining = concat (map (\<lambda>(k, e). if pe_id e = i then pp_tools (pe_grantedPermissions e) else []) (ol_plugins l)) in
     modify_eff (\<lambda>s. s\<lparr>pm_tools := filter (\<lambda>(t, j). j \<noteq> i \<or> t \<in> set remaining) (pm_tools s)\<rparr>))"

section \<open>Awaiting\<close>

text \<open>\<open>stop\<close> does not wait for its turn: first it refuses further operations and forgets the pins, and later, when the
  workers have stopped or not, it records debts and takes the tools away.\<close>

definition stop_begin :: "unit plugin_op" where
  "stop_begin = modify_eff (\<lambda>s. if pm_stopped s then s
     else s\<lparr>pm_stopped := True, pm_pins := [],
            pm_stopping := map (\<lambda>(k, i, v, x). (i, v)) (filter (\<lambda>(k, i, v, x). x) (pm_generations s))\<rparr>)"

definition stop_end :: "plugin_env \<Rightarrow> string list \<Rightarrow> unit plugin_op" where
  "stop_end env failing = bind_eff (gets_eff pm_stopping) (\<lambda>generations.
     bind_eff (each_eff (\<lambda>(i, v). if pluginKey i v \<in> set failing
         then bind_eff (with_lock (lock_recordCleanupDebt (pv_now env) i v 1 (pv_error env))) (\<lambda>_. return_eff ())
         else return_eff ()) generations) (\<lambda>_.
       modify_eff (\<lambda>s. s\<lparr>pm_tools := [], pm_stopping := []\<rparr>)))"

text \<open>An event whose own operation throws leaves what it changed.\<close>

definition attempt :: "'a plugin_op \<Rightarrow> unit plugin_op" where
  "attempt m = catch_eff (bind_eff m (\<lambda>_. return_eff ())) (\<lambda>e. return_eff ())"

definition happen :: "plugin_env \<Rightarrow> meanwhile \<Rightarrow> unit plugin_op" where
  "happen env x = (case x of
     PinRun run \<Rightarrow> bind_eff (gets_eff pm_stopped) (\<lambda>stopped. if stopped then return_eff () else attempt (pinRun run))
   | CallTool run tool \<Rightarrow> attempt (call_tool run tool)
   | StopBegin \<Rightarrow> stop_begin
   | StopEnd failing \<Rightarrow> attempt (stop_end env failing))"

definition await :: "plugin_env \<Rightarrow> string \<Rightarrow> nat \<Rightarrow> unit plugin_op" where
  "await env label n = each_eff (happen env) (pv_meanwhile env label n)"

text \<open>An operation that excludes the others.\<close>

definition exclusive :: "'a plugin_op \<Rightarrow> 'a plugin_op" where
  "exclusive m = bind_eff (gets_eff pm_stopped) (\<lambda>stopped. if stopped then throw_eff LifecycleStopped else m)"

definition verify :: "plugin_env \<Rightarrow> plugin_entry \<Rightarrow> jsval \<Rightarrow> unit plugin_op" where
  "verify env e x = (let k = pluginKey (pe_id e) (pe_version e) in
     bind_eff (throw_if_eff (\<not> pv_inspect env e) (InspectFailed k)) (\<lambda>_.
     bind_eff (await env ''verify'' 0) (\<lambda>_.
       throw_if_eff (pe_trust e \<noteq> DataOnly \<and> \<not> pv_verify env e x) (VerifyFailed k))))"

definition js_field :: "string \<Rightarrow> jsval \<Rightarrow> jsval" where
  "js_field k v = (case v of JObj ob \<Rightarrow> obj_get ob k | _ \<Rightarrow> JUndef)"

text \<open>The new state, and whether the migration can be undone.\<close>

definition migrate :: "plugin_env \<Rightarrow> plugin_entry \<Rightarrow> plugin_entry \<Rightarrow> jsval \<Rightarrow> (jsval \<times> bool) plugin_op" where
  "migrate env candidate previous state =
     (if pe_trust candidate = DataOnly then bind_eff (await env ''migrate'' 0) (\<lambda>_. return_eff (state, True))
      else
        bind_eff (throw_if_eff (\<not> pv_inspect env candidate) (InspectFailed (pluginKey (pe_id candidate) (pe_version candidate)))) (\<lambda>_.
        bind_eff (await env ''migrate'' 0) (\<lambda>_.
        bind_eff (lift_eff (from_option (MigrationFailed (pe_id candidate)) (pv_migrate env candidate previous state))) (\<lambda>r.
        bind_eff (throw_if_eff (js_field ''migrated'' r = JBool False) (MigrationUnsupported (pe_id candidate))) (\<lambda>_.
          return_eff (case r of
              JObj ob \<Rightarrow> (if ''state'' \<in> set (map fst ob) then obj_get ob ''state'' else r,
                            obj_get ob ''rollbackPossible'' \<noteq> JBool False)
            | _ \<Rightarrow> (r, True)))))))"

definition stopGeneration :: "plugin_env \<Rightarrow> string \<Rightarrow> string \<Rightarrow> nat \<Rightarrow> unit plugin_op" where
  "stopGeneration env i v n = (let k = pluginKey i v in
     bind_eff (gets_eff pm_generations) (\<lambda>gs.
     bind_eff (await env k n) (\<lambda>_.
       throw_if_eff (\<not> pv_stop env k n \<and> (case map_of gs k of None \<Rightarrow> False | Some (j, w, executable) \<Rightarrow> executable)) (StopFailed k))))"

text \<open>\<open>#stopGenerationWithBudget\<close>: some attempts; whether all have failed.\<close>

primrec stop_attempts :: "plugin_env \<Rightarrow> string \<Rightarrow> string \<Rightarrow> nat \<Rightarrow> bool plugin_op" where
  "stop_attempts env i v 0 = return_eff True"
| "stop_attempts env i v (Suc n) =
     catch_eff (bind_eff (stopGeneration env i v (Suc n)) (\<lambda>_. bind_eff (with_lock (lock_clearCleanupDebt i v)) (\<lambda>_. return_eff False)))
       (\<lambda>e. stop_attempts env i v n)"

definition stopGenerationWithBudget :: "plugin_env \<Rightarrow> string \<Rightarrow> string \<Rightarrow> bool plugin_op" where
  "stopGenerationWithBudget env i v = stop_attempts env i v (max 1 (pv_attempts env))"

text \<open>The versions of the list that could not be stopped; \<open>skip\<close> is looked at when it is the turn of a version.\<close>

primrec stop_each :: "plugin_env \<Rightarrow> (string \<times> string \<Rightarrow> plugin_manager \<Rightarrow> bool) \<Rightarrow> (string \<times> string) list \<Rightarrow> (string \<times> string) list plugin_op" where
  "stop_each env skip [] = return_eff []"
| "stop_each env skip (p # ps) =
     bind_eff (gets_eff (skip p)) (\<lambda>skipped.
     bind_eff (if skipped then return_eff False else stopGenerationWithBudget env (fst p) (snd p)) (\<lambda>failed.
     bind_eff (stop_each env skip ps) (\<lambda>rest. return_eff (if failed then p # rest else rest))))"

definition recordCleanupDebt :: "plugin_env \<Rightarrow> string \<times> string \<Rightarrow> unit plugin_op" where
  "recordCleanupDebt env p = bind_eff (with_lock (lock_recordCleanupDebt (pv_now env) (fst p) (snd p)
     (int (max 1 (pv_attempts env))) (pv_error env))) (\<lambda>_. return_eff ())"

section \<open>The operations\<close>

definition set_version :: "string \<Rightarrow> string option \<Rightarrow> (string \<times> string) list \<Rightarrow> (string \<times> string) list" where
  "set_version i v m = (case v of None \<Rightarrow> AList.delete i m | Some v \<Rightarrow> AList.update i v m)"

definition applyActivation :: "string \<Rightarrow> plugin_activation \<Rightarrow> unit plugin_op" where
  "applyActivation i a = modify_eff (\<lambda>s. s\<lparr>pm_active := set_version i (pa_activeVersion a) (pm_active s),
     pm_previous := set_version i (pa_previousVersion a) (pm_previous s),
     pm_resume := set_version i (pa_resumeVersion a) (pm_resume s)\<rparr>)"

text \<open>Switching to another activation: the lock file, then the memory.\<close>

definition switch :: "string \<Rightarrow> (plugin_entry \<times> plugin_activation) lock_op \<Rightarrow> plugin_entry plugin_op" where
  "switch i f = bind_eff (with_lock f) (\<lambda>(e, a). bind_eff (applyActivation i a) (\<lambda>_. return_eff e))"

definition plugin_install :: "plugin_env \<Rightarrow> (plugin_manifest \<times> string) option \<Rightarrow> permission_grant \<Rightarrow> plugin_entry plugin_op" where
  "plugin_install env package grant = exclusive (
     bind_eff (stage package) (\<lambda>(m, digest).
     let clean = bind_eff (remove_object digest) (\<lambda>_. remove_states (pf_id m) (pf_version m)) in
     bind_eff (on_error (with_lock (lock_install (pv_now env) digest digest m grant)) clean) (\<lambda>e.
     on_error
       (bind_eff (writeState env (pe_id e) (pe_version e) (JObj [])) (\<lambda>d.
        bind_eff (verify env e (JObj [])) (\<lambda>_.
          with_lock (lock_recordVerification (pe_id e) (pe_version e) (pv_now env) (Some d) (Some True) False))))
       (bind_eff (with_lock (lock_uninstall (pe_id e) (pe_version e))) (\<lambda>_. clean)))))"

definition check_enable :: "open_lock \<Rightarrow> string \<Rightarrow> string \<Rightarrow> plugin_error + unit" where
  "check_enable l i v =
     (let a = activation_of (ol_activations l) i; active = Option.bind a pa_activeVersion; resume = Option.bind a pa_resumeVersion in
      bind_result (throw_if (active \<noteq> None \<and> active \<noteq> Some v) (UpgradeRequired i)) (\<lambda>_.
        throw_if (active = None \<and> resume \<noteq> None \<and> resume \<noteq> Some v) (OnlyDisabledGeneration i)))"

text \<open>A package may become active: it has no debt and its installation is complete.\<close>

definition check_ready :: "open_lock \<Rightarrow> plugin_entry \<Rightarrow> plugin_error + unit" where
  "check_ready l e = (let k = pluginKey (pe_id e) (pe_version e) in
     bind_result (throw_if (map_of (ol_debts l) k \<noteq> None) (CleanupStillPending k)) (\<lambda>_.
       throw_if (incomplete e) (VerificationPending k)))"

definition plugin_enable :: "plugin_env \<Rightarrow> string \<Rightarrow> string \<Rightarrow> plugin_entry plugin_op" where
  "plugin_enable env i v = exclusive (
     bind_eff the_lock (\<lambda>l.
     bind_eff (lift_eff (check_enable l i v)) (\<lambda>_.
     bind_eff (requiredEntry i v) (\<lambda>e.
     bind_eff (lift_eff (check_ready l e)) (\<lambda>_.
     bind_eff (readState e) (\<lambda>state.
     bind_eff (if pe_verifiedAt e = None
         then bind_eff (verify env e state) (\<lambda>_. with_lock (lock_recordVerification i v (pv_now env) (pe_stateDigest e)
                (Some (nullish (pe_rollbackPossible e) True)) False))
         else bind_eff (throw_if_eff (\<not> pv_inspect env e) (InspectFailed (pluginKey i v))) (\<lambda>_. return_eff e)) (\<lambda>e.
     bind_eff (ensureToolRegistrations env e) (\<lambda>created.
       if active_version (ol_activations l) i = Some v then return_eff e
       else on_error (switch i (lock_activate i v)) (disposeToolRegistrations created)))))))))"

text \<open>The failure of an upgrade after the candidate is in the lock file.\<close>

definition discard_candidate :: "plugin_env \<Rightarrow> plugin_entry \<Rightarrow> string list \<Rightarrow> unit plugin_op" where
  "discard_candidate env c created =
     bind_eff (disposeToolRegistrations created) (\<lambda>_.
     bind_eff (gets_eff pm_active) (\<lambda>active.
       if map_of active (pe_id c) = Some (pe_version c) then return_eff ()
       else
         bind_eff (attempt (stopGeneration env (pe_id c) (pe_version c) 0)) (\<lambda>_.
         bind_eff (installer_uninstall (pe_id c) (pe_version c)) (\<lambda>_.
         bind_eff (modify_eff (\<lambda>s. s\<lparr>pm_generations := AList.delete (pluginKey (pe_id c) (pe_version c)) (pm_generations s)\<rparr>)) (\<lambda>_.
         bind_eff (remove_states (pe_id c) (pe_version c)) (\<lambda>_. pruneToolRegistrations (pe_id c)))))))"

definition plugin_upgrade ::
  "plugin_env \<Rightarrow> string \<Rightarrow> (plugin_manifest \<times> string) option \<Rightarrow> permission_grant \<Rightarrow> (plugin_entry \<times> string) plugin_op" where
  "plugin_upgrade env i package grant = exclusive (
     bind_eff (gets_eff pm_active) (\<lambda>active.
     bind_eff (lift_eff (from_option (PluginNotEnabled i) (map_of active i))) (\<lambda>previousVersion.
     bind_eff (requiredEntry i previousVersion) (\<lambda>previous.
     bind_eff (stage package) (\<lambda>(m, digest).
     bind_eff (on_error
         (bind_eff (throw_if_eff (pf_id m \<noteq> i) (IdentityMismatch i)) (\<lambda>_.
          bind_eff (throw_if_eff (pf_version m = previousVersion) NewVersionRequired) (\<lambda>_.
            with_lock (lock_install (pv_now env) digest digest m grant))))
         (remove_object digest)) (\<lambda>c.
     bind_eff (on_error
         (bind_eff (readState previous) (\<lambda>state.
          bind_eff (migrate env c previous state) (\<lambda>(migrated, undoable).
          bind_eff (writeState env (pe_id c) (pe_version c) migrated) (\<lambda>d.
          bind_eff (verify env c migrated) (\<lambda>_.
          bind_eff (with_lock (lock_recordVerification (pe_id c) (pe_version c) (pv_now env) (Some d) (Some undoable) True)) (\<lambda>c'.
            ensureToolRegistrations env c'))))))
         (discard_candidate env c [])) (\<lambda>created.
     bind_eff (on_error (switch (pe_id c) (lock_activate (pe_id c) (pe_version c))) (discard_candidate env c created)) (\<lambda>e.
       return_eff (e, previousVersion)))))))))"

definition plugin_rollback :: "plugin_env \<Rightarrow> string \<Rightarrow> plugin_entry plugin_op" where
  "plugin_rollback env i = exclusive (
     bind_eff the_lock (\<lambda>l.
     let a = activation_of (ol_activations l) i;
         current = (case Option.bind a pa_activeVersion of Some v \<Rightarrow> Some v | None \<Rightarrow> Option.bind a pa_resumeVersion) in
     bind_eff (lift_eff (from_option (NothingToRollBack i) (Option.bind a pa_previousVersion))) (\<lambda>previousVersion.
     bind_eff (case current of
         None \<Rightarrow> return_eff ()
       | Some v \<Rightarrow> bind_eff (requiredEntry i v) (\<lambda>e.
           throw_if_eff (pe_rollbackPossible e = Some False) (RollbackImpossible i))) (\<lambda>_.
     bind_eff (requiredEntry i previousVersion) (\<lambda>e.
     bind_eff (lift_eff (check_ready l e)) (\<lambda>_.
     bind_eff (readState e) (\<lambda>state.
     bind_eff (verify env e state) (\<lambda>_.
     bind_eff (ensureToolRegistrations env e) (\<lambda>created.
       on_error (switch i (lock_rollback i)) (disposeToolRegistrations created))))))))))"

definition plugin_disable :: "plugin_env \<Rightarrow> string \<Rightarrow> string option \<Rightarrow> plugin_entry plugin_op" where
  "plugin_disable env i expected = exclusive (
     bind_eff (gets_eff pm_active) (\<lambda>active.
     bind_eff (throw_if_eff (truthy expected \<noteq> None \<and> map_of active i \<noteq> expected) (ActiveGenerationChanged i)) (\<lambda>_.
     bind_eff (switch i (lock_disable i)) (\<lambda>e.
     bind_eff (gets_eff (\<lambda>s. map (\<lambda>(k, j, v, x). (j, v)) (filter (\<lambda>(k, j, v, x). j = i \<and> x \<and> \<not> pinned i v s) (pm_generations s)))) (\<lambda>unpinned.
     bind_eff (stop_each env (\<lambda>_ _. False) unpinned) (\<lambda>failures.
     bind_eff (each_eff (recordCleanupDebt env) failures) (\<lambda>_.
     bind_eff (throw_if_eff (failures \<noteq> []) (DisabledWithDebt i)) (\<lambda>_. return_eff e))))))))"

definition plugin_uninstall :: "plugin_env \<Rightarrow> string \<Rightarrow> string \<Rightarrow> bool plugin_op" where
  "plugin_uninstall env i v = exclusive (
     bind_eff (gets_eff pm_active) (\<lambda>active.
     bind_eff (throw_if_eff (map_of active i = Some v) (UninstallOfActive (pluginKey i v))) (\<lambda>_.
     bind_eff (gets_eff (pinned i v)) (\<lambda>p.
     bind_eff (throw_if_eff p (PinnedByRun (pluginKey i v))) (\<lambda>_.
     bind_eff (stopGeneration env i v 0) (\<lambda>_.
     bind_eff (with_lock (lock_clearCleanupDebt i v)) (\<lambda>_.
     bind_eff (installer_uninstall i v) (\<lambda>removed.
       if \<not> removed then return_eff False
       else
         bind_eff (modify_eff (\<lambda>s. s\<lparr>pm_generations := AList.delete (pluginKey i v) (pm_generations s)\<rparr>)) (\<lambda>_.
         bind_eff (remove_states i v) (\<lambda>_.
         bind_eff (modify_eff (\<lambda>s. s\<lparr>pm_previous := (if map_of (pm_previous s) i = Some v then AList.delete i (pm_previous s) else pm_previous s),
             pm_resume := (if map_of (pm_resume s) i = Some v then AList.delete i (pm_resume s) else pm_resume s)\<rparr>)) (\<lambda>_.
         bind_eff (pruneToolRegistrations i) (\<lambda>_. return_eff True))))))))))))"

definition snapshotsForRun :: "(string \<Rightarrow> nat) \<Rightarrow> string \<Rightarrow> plugin_entry list plugin_op" where
  "snapshotsForRun collate run = bind_eff (gets_eff pm_stopped) (\<lambda>stopped.
     bind_eff (throw_if_eff stopped LifecycleStopped) (\<lambda>_.
     bind_eff (pinRun run) (\<lambda>pins.
     bind_eff the_lock (\<lambda>l.
       lift_eff (if list_ex (\<lambda>(i, v). map_of (ol_plugins l) (pluginKey i v) = None) pins
         then Inl (PinnedDisappeared run)
         else Inr (sort_key (\<lambda>e. collate (pluginKey (pe_id e) (pe_version e)))
           (List.map_filter (\<lambda>(i, v). map_of (ol_plugins l) (pluginKey i v)) pins)))))))"

definition plugin_releaseRun :: "plugin_env \<Rightarrow> string \<Rightarrow> (string \<times> string) list plugin_op" where
  "plugin_releaseRun env run = exclusive (
     bind_eff (gets_eff (\<lambda>s. map_of (pm_pins s) run)) (\<lambda>pins. case pins of
       None \<Rightarrow> return_eff []
     | Some pins \<Rightarrow>
         bind_eff (stop_each env (\<lambda>(i, v) s. map_of (pm_active s) i = Some v
           \<or> list_ex (\<lambda>(other, ps). other \<noteq> run \<and> map_of ps i = Some v) (pm_pins s)) pins) (\<lambda>failures.
         bind_eff (each_eff (recordCleanupDebt env) failures) (\<lambda>_.
         bind_eff (modify_eff (\<lambda>s. s\<lparr>pm_pins := AList.delete run (pm_pins s)\<rparr>)) (\<lambda>_. return_eff failures)))))"

text \<open>The timer that tries again to clean up.\<close>

definition retryCleanup :: "plugin_env \<Rightarrow> string \<Rightarrow> string \<Rightarrow> unit plugin_op" where
  "retryCleanup env i v = exclusive (
     bind_eff the_lock (\<lambda>l.
       if map_of (ol_debts l) (pluginKey i v) = None then return_eff ()
       else bind_eff (stopGenerationWithBudget env i v) (\<lambda>failed. if failed then recordCleanupDebt env (i, v) else return_eff ())))"

section \<open>Starting\<close>

definition reconcileInterruptedInstalls :: "unit plugin_op" where
  "reconcileInterruptedInstalls = bind_eff the_lock (\<lambda>l.
     each_eff (\<lambda>e. bind_eff (installer_uninstall (pe_id e) (pe_version e)) (\<lambda>_. remove_states (pe_id e) (pe_version e)))
       (filter incomplete (map snd (ol_plugins l))))"

definition reconcileStateSnapshots :: "unit plugin_op" where
  "reconcileStateSnapshots = bind_eff the_lock (\<lambda>l.
     modify_eff (\<lambda>s. s\<lparr>pm_states := filter (\<lambda>((i, v, d), x).
       Option.bind (map_of (ol_plugins l) (pluginKey i v)) pe_stateDigest = Some d) (pm_states s)\<rparr>))"

definition versions_of :: "(plugin_activation \<Rightarrow> string option) \<Rightarrow> open_lock \<Rightarrow> (string \<times> string) list" where
  "versions_of f l = List.map_filter (\<lambda>(i, a). map_option (Pair i) (f a)) (ol_activations l)"

primrec entries_for :: "(string \<times> plugin_entry) list \<Rightarrow> (string \<times> string) list \<Rightarrow> plugin_error + plugin_entry list" where
  "entries_for ps [] = Inr []"
| "entries_for ps (p # rest) = bind_result (from_option (PluginNotInstalled (pluginKey (fst p) (snd p))) (map_of ps (pluginKey (fst p) (snd p)))) (\<lambda>e.
     bind_result (entries_for ps rest) (\<lambda>es. Inr (e # es)))"

definition loadActiveGenerations :: "plugin_env \<Rightarrow> unit plugin_op" where
  "loadActiveGenerations env = bind_eff the_lock (\<lambda>l.
     bind_eff (modify_eff (\<lambda>s. s\<lparr>pm_active := versions_of pa_activeVersion l, pm_previous := versions_of pa_previousVersion l,
       pm_resume := versions_of pa_resumeVersion l\<rparr>)) (\<lambda>_.
     bind_eff (lift_eff (entries_for (ol_plugins l) (versions_of pa_activeVersion l))) (\<lambda>entries.
     bind_eff (each_eff (\<lambda>e. throw_if_eff (\<not> pv_inspect env e) (InspectFailed (pluginKey (pe_id e) (pe_version e)))) entries) (\<lambda>_.
     bind_eff (validateToolRegistrations env entries) (\<lambda>_.
       each_eff (\<lambda>e. bind_eff (ensureToolRegistrations env e) (\<lambda>_. return_eff ())) entries)))))"

text \<open>\<open>create\<close>, on the directory another process left: its memory is gone.\<close>

definition plugin_create :: "plugin_env \<Rightarrow> unit plugin_op" where
  "plugin_create env =
     bind_eff (modify_eff (\<lambda>s. s\<lparr>pm_active := [], pm_previous := [], pm_resume := [], pm_generations := [], pm_tools := [],
       pm_pins := [], pm_stopped := False, pm_stopping := []\<rparr>)) (\<lambda>_.
     bind_eff (with_lock lock_clearAllCleanupDebts) (\<lambda>_.
     bind_eff reconcileInterruptedInstalls (\<lambda>_.
     bind_eff reconcileOrphans (\<lambda>_.
     bind_eff reconcileStateSnapshots (\<lambda>_. loadActiveGenerations env)))))"

end
