(* ===== verification/PluginLockProperties.thy ===== *)
theory PluginLockProperties
  imports PluginLock
begin

text \<open>
  What the operations on the lock file of the plugins do to the versions and packages it records, and that whatever
  they write can be read again.
\<close>

section \<open>Checked files\<close>

lemma check_all_Inr [simp]: "check_all f xs = Inr u \<longleftrightarrow> (\<forall>x\<in>set xs. f x = Inr ())"
  by (induction xs) (auto simp: result_simps)

text \<open>The check, as what it says.\<close>

definition entry_ok :: "string \<Rightarrow> plugin_entry \<Rightarrow> bool" where
  "entry_ok k e \<longleftrightarrow> is_plugin_id (pe_id e) \<and> isSafePluginVersion (pe_version e) \<and> k = pluginKey (pe_id e) (pe_version e)
     \<and> is_hex_digest (pe_digest e) \<and> opt_all is_hex_digest (pe_stateDigest e)"

definition version_ok :: "(plugin_entry \<Rightarrow> bool) \<Rightarrow> (string \<times> plugin_entry) list \<Rightarrow> string \<Rightarrow> string option \<Rightarrow> bool" where
  "version_ok p ps i v \<longleftrightarrow> (case v of None \<Rightarrow> True | Some v \<Rightarrow> (\<exists>e. map_of ps (pluginKey i v) = Some e \<and> p e))"

definition activation_ok :: "(string \<times> plugin_entry) list \<Rightarrow> string \<Rightarrow> plugin_activation \<Rightarrow> bool" where
  "activation_ok ps i a \<longleftrightarrow> generation_ok (pa_generation a) \<and> version_ok (\<lambda>e. \<not> incomplete e) ps i (pa_activeVersion a)
     \<and> version_ok (\<lambda>e. True) ps i (pa_previousVersion a) \<and> version_ok (\<lambda>e. \<not> incomplete e) ps i (pa_resumeVersion a)
     \<and> (pa_activeVersion a = None \<or> pa_resumeVersion a = None)"

definition debt_ok :: "(string \<times> plugin_entry) list \<Rightarrow> string \<Rightarrow> plugin_debt \<Rightarrow> bool" where
  "debt_ok ps k b \<longleftrightarrow> check_debt ps (k, b) = Inr ()"

lemma check_entry_Inr: "check_entry (k, e) = Inr u \<longleftrightarrow> entry_ok k e"
  by (auto simp: check_entry_def entry_ok_def validatePackageCoordinates_def result_simps)

lemma check_activation_Inr: "check_activation ps (i, a) = Inr u \<longleftrightarrow> activation_ok ps i a"
  by (auto simp: check_activation_def activation_ok_def version_ok_def missing_def points_to_incomplete_def result_simps
      split: option.splits)

definition lock_valid :: "open_lock \<Rightarrow> bool" where
  "lock_valid l \<longleftrightarrow> (\<forall>(k, e)\<in>set (ol_plugins l). entry_ok k e)
     \<and> (\<forall>(i, a)\<in>set (ol_activations l). activation_ok (ol_plugins l) i a)
     \<and> (\<forall>(k, e)\<in>set (ol_plugins l). pe_enabled e \<longleftrightarrow> active_version (ol_activations l) (pe_id e) = Some (pe_version e))
     \<and> (\<forall>(k, b)\<in>set (ol_debts l). debt_ok (ol_plugins l) k b)"

lemma validate_Inr: "validatePluginLock (ol_plugins l) (ol_activations l) (ol_debts l) = Inr u \<longleftrightarrow> lock_valid l"
  by (auto simp: validatePluginLock_def lock_valid_def result_simps check_entry_Inr check_activation_Inr check_enabled_def
      debt_ok_def)

text \<open>A file that the operations wrote: it can be read, and the objects in it have each key once.\<close>

definition keys_once :: "open_lock \<Rightarrow> bool" where
  "keys_once l \<longleftrightarrow> distinct (map fst (ol_plugins l)) \<and> distinct (map fst (ol_activations l))"

definition file_holds :: "lock_file \<Rightarrow> open_lock \<Rightarrow> bool" where
  "file_holds f l \<longleftrightarrow> read_lock f = Inr l \<and> lock_valid l \<and> keys_once l"

lemma write_holds: "write_lock l = Inr f \<longleftrightarrow> lock_valid l
    \<and> f = Some \<lparr>pl_plugins = ol_plugins l, pl_activations = Some (ol_activations l), pl_cleanupDebts = Some (ol_debts l)\<rparr>"
  by (auto simp: write_lock_def result_simps validate_Inr)

lemma written_holds: "write_lock l = Inr f \<Longrightarrow> keys_once l \<Longrightarrow> file_holds f l"
  by (auto simp: write_holds file_holds_def read_lock_def validate_Inr result_simps Let_def)

lemma write_and_return_Inr [result_simps]: "write_and_return l a = Inr (b, f) \<longleftrightarrow> b = a \<and> write_lock l = Inr f"
  by (auto simp: write_and_return_def result_simps)

lemma holds_keys: "file_holds f l \<Longrightarrow> keys_once l"
  by (simp add: file_holds_def)

lemma empty_holds: "file_holds None \<lparr>ol_plugins = [], ol_activations = [], ol_debts = []\<rparr>"
  by (simp add: file_holds_def read_lock_def lock_valid_def keys_once_def)

lemma file_holds_unique: "file_holds f l \<Longrightarrow> file_holds f l' \<Longrightarrow> l' = l"
  by (simp add: file_holds_def)

section \<open>Keys\<close>

lemma at_class: "\<not> is_alnum CHR ''@''" "\<not> is_digit CHR ''@''"
  by (simp_all add: is_alnum_def is_letter_def is_lower_def is_upper_def is_digit_def in_range_def)

lemma id_no_at: "is_plugin_id i \<Longrightarrow> CHR ''@'' \<notin> set i"
  using at_class by (cases i) (auto simp: is_plugin_id_def is_name_def is_alnum_def is_letter_def list_all_iff)

lemma in_split: "c \<in> set s \<Longrightarrow> \<not> p c \<Longrightarrow> \<exists>w\<in>set (split_on p s). c \<in> set w"
proof (induction s)
  case (Cons x s)
  then show ?case by (cases "split_on p s") auto
qed simp

lemma in_cut: "cut_at c s = (u, w) \<Longrightarrow> x \<in> set s \<Longrightarrow> x \<noteq> c \<Longrightarrow> x \<in> set u \<or> (\<exists>r. w = Some r \<and> x \<in> set r)"
  by (induction c s arbitrary: u w rule: cut_at.induct) (auto split: if_splits prod.splits)

lemma tag_no_at: "is_version_tag t \<Longrightarrow> CHR ''@'' \<notin> set t"
  using in_split [of "CHR ''@''" t "\<lambda>c. c = CHR ''.'' \<or> c = CHR ''-''"] at_class
  by (auto simp: is_version_tag_def list_all_iff)

lemma version_no_at: "isSafePluginVersion v \<Longrightarrow> CHR ''@'' \<notin> set v"
proof
  assume v: "isSafePluginVersion v" and at: "CHR ''@'' \<in> set v"
  obtain m build where m: "cut_at (CHR ''+'') v = (m, build)" by fastforce
  obtain core pre where core: "cut_at (CHR ''-'') m = (core, pre)" by fastforce
  have numbers: "list_all is_version_number (split_on (\<lambda>c. c = CHR ''.'') core)" and "opt_all is_version_tag pre"
    "opt_all is_version_tag build"
    using v by (auto simp: isSafePluginVersion_def m core Let_def)
  with at in_cut [OF m, of "CHR ''@''"] in_cut [OF core, of "CHR ''@''"] tag_no_at have "CHR ''@'' \<in> set core"
    by auto
  then obtain w where "w \<in> set (split_on (\<lambda>c. c = CHR ''.'') core)" "CHR ''@'' \<in> set w"
    using in_split [of "CHR ''@''" core "\<lambda>c. c = CHR ''.''"] by auto
  with numbers at_class show False by (auto simp: list_all_iff is_version_number_def)
qed

lemma key_inj:
  assumes "pluginKey i v = pluginKey j w" and "CHR ''@'' \<notin> set j" and "CHR ''@'' \<notin> set w"
  shows "i = j \<and> v = w"
proof -
  have "i @ CHR ''@'' # v = j @ CHR ''@'' # w" using assms(1) by (simp add: pluginKey_def)
  then obtain u where u: "i = j @ u \<and> u @ CHR ''@'' # v = CHR ''@'' # w \<or> i @ u = j \<and> CHR ''@'' # v = u @ CHR ''@'' # w"
    by (auto simp: append_eq_append_conv2)
  then show ?thesis
  proof
    assume a: "i = j @ u \<and> u @ CHR ''@'' # v = CHR ''@'' # w"
    with assms(3) show ?thesis by (cases u) auto
  next
    assume "i @ u = j \<and> CHR ''@'' # v = u @ CHR ''@'' # w"
    with assms(2) show ?thesis by (cases u) auto
  qed
qed

text \<open>The entry under the key of a plugin and a version is the entry of that plugin and version.\<close>

lemma entry_key:
  assumes "lock_valid l" and "map_of (ol_plugins l) (pluginKey i v) = Some e"
  shows "pe_id e = i \<and> pe_version e = v \<and> is_plugin_id i \<and> isSafePluginVersion v"
proof -
  have "entry_ok (pluginKey i v) e" using assms map_of_SomeD [OF assms(2)] by (auto simp: lock_valid_def)
  then have "pluginKey i v = pluginKey (pe_id e) (pe_version e)" "is_plugin_id (pe_id e)" "isSafePluginVersion (pe_version e)"
    by (simp_all add: entry_ok_def)
  with key_inj [OF this(1)] id_no_at version_no_at show ?thesis by auto
qed

section \<open>What a file says of the versions\<close>

definition entry_at :: "open_lock \<Rightarrow> string \<Rightarrow> string \<Rightarrow> plugin_entry option" where
  "entry_at l i v = map_of (ol_plugins l) (pluginKey i v)"

definition active_at :: "open_lock \<Rightarrow> string \<Rightarrow> string option" where
  "active_at l i = Option.bind (activation_of (ol_activations l) i) pa_activeVersion"

definition previous_at :: "open_lock \<Rightarrow> string \<Rightarrow> string option" where
  "previous_at l i = Option.bind (activation_of (ol_activations l) i) pa_previousVersion"

definition resume_at :: "open_lock \<Rightarrow> string \<Rightarrow> string option" where
  "resume_at l i = Option.bind (activation_of (ol_activations l) i) pa_resumeVersion"

lemmas version_views = active_at_def previous_at_def resume_at_def

text \<open>What a package is, apart from its progress and whether it is enabled.\<close>

definition package_of :: "plugin_entry \<Rightarrow> string \<times> string \<times> plugin_trust \<times> plugin_permissions" where
  "package_of e = (pe_source e, pe_digest e, pe_trust e, pe_grantedPermissions e)"

definition same_versions :: "open_lock \<Rightarrow> open_lock \<Rightarrow> bool" where
  "same_versions l l' \<longleftrightarrow> active_at l' = active_at l \<and> previous_at l' = previous_at l \<and> resume_at l' = resume_at l"

definition same_packages :: "open_lock \<Rightarrow> open_lock \<Rightarrow> bool" where
  "same_packages l l' \<longleftrightarrow> (\<forall>j w. map_option (\<lambda>e. (package_of e, pe_stateDigest e)) (entry_at l' j w)
     = map_option (\<lambda>e. (package_of e, pe_stateDigest e)) (entry_at l j w))"

lemma same_refl [simp]: "same_versions l l" "same_packages l l"
  by (simp_all add: same_versions_def same_packages_def)

lemma entry_unique:
  "lock_valid l \<Longrightarrow> entry_at l i v = Some e \<Longrightarrow> pluginKey j w = pluginKey i v \<longleftrightarrow> j = i \<and> w = v"
  using entry_key [of l i v e] key_inj [of j w i v] id_no_at version_no_at by (auto simp: entry_at_def)

lemma activation_of_update [simp]:
  "activation_of (AList.update i a acts) j = (if j = i then Some a else activation_of acts j)"
  by (simp add: activation_of_def update_conv')

lemma put_plugin_views [simp]:
  "ol_activations (put_plugin k e l) = ol_activations l" "ol_debts (put_plugin k e l) = ol_debts l"
  "map_of (ol_plugins (put_plugin k e l)) = (map_of (ol_plugins l))(k \<mapsto> e)"
  "ol_activations (put_activation i a l) = AList.update i a (ol_activations l)" "ol_debts (put_activation i a l) = ol_debts l"
  "ol_plugins (put_activation i a l) = ol_plugins l"
  "ol_activations (enable_only i v l) = ol_activations l" "ol_debts (enable_only i v l) = ol_debts l"
  "map_of (ol_plugins (enable_only i v l)) =
     map_option (\<lambda>e. if pe_id e = i then e\<lparr>pe_enabled := Some (pe_version e) = v\<rparr> else e) \<circ> map_of (ol_plugins l)"
  by (simp_all add: put_plugin_def put_activation_def enable_only_def update_conv' map_of_map)

lemma put_keys_once:
  "keys_once l \<Longrightarrow> keys_once (put_plugin k e l)" "keys_once l \<Longrightarrow> keys_once (put_activation i a l)"
  "keys_once l \<Longrightarrow> keys_once (enable_only i v l)"
  by (simp_all add: keys_once_def put_plugin_def put_activation_def enable_only_def distinct_update comp_def case_prod_beta)

text \<open>A version of one plugin is switched; packages stay.\<close>

definition switched :: "string \<Rightarrow> plugin_activation \<Rightarrow> open_lock \<Rightarrow> open_lock \<Rightarrow> bool" where
  "switched i a l l' \<longleftrightarrow> same_packages l l' \<and> active_at l' = (active_at l)(i := pa_activeVersion a)
     \<and> previous_at l' = (previous_at l)(i := pa_previousVersion a) \<and> resume_at l' = (resume_at l)(i := pa_resumeVersion a)"

lemma switch_views:
  "active_at (put_activation i a l) = (active_at l)(i := pa_activeVersion a)"
  "previous_at (put_activation i a l) = (previous_at l)(i := pa_previousVersion a)"
  "resume_at (put_activation i a l) = (resume_at l)(i := pa_resumeVersion a)"
  by (auto simp: version_views)

lemma enabled_same: "same_packages l (enable_only i v l)" "same_packages l (put_activation i a (enable_only i v l))"
  by (auto simp: same_packages_def entry_at_def package_of_def option.map_comp comp_def intro!: option.map_cong)

lemma views_plugins [simp]:
  "active_at (put_plugin k e l) = active_at l" "previous_at (put_plugin k e l) = previous_at l"
  "resume_at (put_plugin k e l) = resume_at l" "active_at (enable_only i v l) = active_at l"
  "previous_at (enable_only i v l) = previous_at l" "resume_at (enable_only i v l) = resume_at l"
  by (auto simp: version_views)

lemma written_switch:
  assumes "write_lock (put_activation i a m) = Inr f'" and "keys_once m" and "same_packages l (put_activation i a m)"
    and "same_versions l m"
  shows "\<exists>l'. file_holds f' l' \<and> switched i a l l'"
proof (intro exI conjI)
  show "file_holds f' (put_activation i a m)" by (rule written_holds [OF assms(1) put_keys_once(2) [OF assms(2)]])
  show "switched i a l (put_activation i a m)"
    using assms(3,4) by (simp add: switched_def same_versions_def switch_views)
qed

lemma lock_disable_switch:
  assumes "file_holds f l" and "lock_disable i f = Inr ((e, a), f')"
  shows "\<exists>l'. file_holds f' l' \<and> switched i a l l'"
proof (rule written_switch)
  show "write_lock (put_activation i a (enable_only i None l)) = Inr f'"
    using assms by (auto simp: lock_disable_def file_holds_def result_simps Let_def)
qed (use assms(1) in \<open>simp_all add: file_holds_def put_keys_once enabled_same same_versions_def\<close>)

lemma lock_rollback_switch:
  assumes "file_holds f l" and "lock_rollback i f = Inr ((e, a), f')"
  shows "\<exists>l'. file_holds f' l' \<and> switched i a l l'"
proof (rule written_switch)
  show "write_lock (put_activation i a (enable_only i (pa_activeVersion a) l)) = Inr f'"
    using assms by (auto simp: lock_rollback_def file_holds_def result_simps Let_def)
qed (use assms(1) in \<open>simp_all add: file_holds_def put_keys_once enabled_same same_versions_def\<close>)

lemma lock_activate_switch:
  assumes "file_holds f l" and "lock_activate i v f = Inr ((e, a), f')"
  shows "\<exists>l'. file_holds f' l' \<and> switched i a l l'"
proof -
  obtain e0 where e0: "map_of (ol_plugins l) (pluginKey i v) = Some e0" "e = e0\<lparr>pe_enabled := True, pe_installState := Some Verified\<rparr>"
    and w: "write_lock (put_activation i a (put_plugin (pluginKey i v) e (enable_only i (Some v) l))) = Inr f'"
    using assms by (auto simp: lock_activate_def file_holds_def result_simps Let_def)
  have "same_packages l (put_activation i a (put_plugin (pluginKey i v) e (enable_only i (Some v) l)))"
    using e0 by (auto simp: same_packages_def entry_at_def package_of_def option.map_comp comp_def intro!: option.map_cong)
  from written_switch [OF w _ this] holds_keys [OF assms(1)] show ?thesis
    by (simp add: put_keys_once same_versions_def)
qed

text \<open>The version that becomes active.\<close>

lemma activated_version: "lock_activate i v f = Inr ((e, a), f') \<Longrightarrow> pa_activeVersion a = Some v"
  by (auto simp: lock_activate_def result_simps Let_def)

section \<open>Packages that come and go\<close>

lemma lock_install_effect:
  assumes "file_holds f l" and "lock_install now source digest m g f = Inr (e, f')"
  shows "\<exists>l'. file_holds f' l' \<and> same_versions l l' \<and> entry_at l (pe_id e) (pe_version e) = None
    \<and> pe_id e = pf_id m \<and> pe_version e = pf_version m \<and> pe_source e = source \<and> pe_stateDigest e = None
    \<and> (\<forall>j w. entry_at l' j w = (if j = pe_id e \<and> w = pe_version e then Some e else entry_at l j w))"
proof -
  let ?l = "put_plugin (pluginKey (pe_id e) (pe_version e)) e l"
  have e: "pe_id e = pf_id m" "pe_version e = pf_version m" "pe_source e = source" "pe_stateDigest e = None"
    and new: "entry_at l (pe_id e) (pe_version e) = None" and w: "write_lock ?l = Inr f'"
    using assms by (auto simp: lock_install_def file_holds_def result_simps Let_def entry_at_def)
  have holds: "file_holds f' ?l" by (rule written_holds [OF w put_keys_once(1) [OF holds_keys [OF assms(1)]]])
  then have "entry_at ?l (pe_id e) (pe_version e) = Some e" and valid: "lock_valid ?l" by (simp_all add: entry_at_def file_holds_def)
  from entry_unique [OF valid this(1)]
  have "entry_at ?l j w = (if j = pe_id e \<and> w = pe_version e then Some e else entry_at l j w)" for j w
    by (auto simp: entry_at_def)
  with holds new e show ?thesis by (intro exI [of _ ?l]) (simp add: same_versions_def)
qed

lemma lock_recordVerification_effect:
  assumes "file_holds f l" and "lock_recordVerification i v t d r pending f = Inr (e', f')"
  shows "\<exists>l' e. file_holds f' l' \<and> same_versions l l' \<and> entry_at l i v = Some e \<and> package_of e' = package_of e
    \<and> pe_stateDigest e' = (case d of Some d \<Rightarrow> Some d | None \<Rightarrow> pe_stateDigest e) \<and> pe_id e' = i \<and> pe_version e' = v
    \<and> (\<forall>j w. entry_at l' j w = (if j = i \<and> w = v then Some e' else entry_at l j w))"
proof -
  let ?l = "put_plugin (pluginKey i v) e' l"
  obtain e where e: "entry_at l i v = Some e" "package_of e' = package_of e" "pe_id e' = pe_id e" "pe_version e' = pe_version e"
      "pe_stateDigest e' = (case d of Some d \<Rightarrow> Some d | None \<Rightarrow> pe_stateDigest e)"
    and w: "write_lock ?l = Inr f'"
    using assms by (auto simp: lock_recordVerification_def file_holds_def result_simps Let_def entry_at_def package_of_def)
  have holds: "file_holds f' ?l" by (rule written_holds [OF w put_keys_once(1) [OF holds_keys [OF assms(1)]]])
  have "lock_valid l" using assms(1) by (simp add: file_holds_def)
  with entry_unique [OF this e(1)] have "entry_at ?l j w = (if j = i \<and> w = v then Some e' else entry_at l j w)" for j w
    by (auto simp: entry_at_def)
  with holds e entry_key [OF \<open>lock_valid l\<close>, of i v e] show ?thesis
    by (intro exI [of _ ?l] exI [of _ e]) (simp add: same_versions_def entry_at_def)
qed

lemma lock_uninstall_effect:
  assumes "file_holds f l" and "lock_uninstall i v f = Inr (removed, f')"
  shows "if removed then \<exists>l'. file_holds f' l' \<and> active_at l' = active_at l \<and> active_at l i \<noteq> Some v
      \<and> previous_at l' = (previous_at l)(i := if previous_at l i = Some v then None else previous_at l i)
      \<and> resume_at l' = (resume_at l)(i := if resume_at l i = Some v then None else resume_at l i)
      \<and> (\<forall>j w. entry_at l' j w = (if j = i \<and> w = v then None else entry_at l j w))
    else f' = f \<and> entry_at l i v = None"
proof (cases removed)
  case False
  with assms show ?thesis by (auto simp: lock_uninstall_def file_holds_def result_simps Let_def entry_at_def split: if_splits)
next
  case True
  let ?k = "pluginKey i v"
  define m where "m = l\<lparr>ol_plugins := AList.delete ?k (ol_plugins l)\<rparr>"
  define l' where "l' = (case activation_of (ol_activations l) i of
           None \<Rightarrow> m
         | Some a \<Rightarrow> put_activation i \<lparr>pa_activeVersion = pa_activeVersion a,
             pa_previousVersion = (if pa_previousVersion a = Some v then None else pa_previousVersion a),
             pa_resumeVersion = (if pa_resumeVersion a = Some v then None else pa_resumeVersion a),
             pa_generation = pa_generation a\<rparr> m)"
  obtain e where e: "map_of (ol_plugins l) ?k = Some e" and na: "active_at l i \<noteq> Some v" and w: "write_lock l' = Inr f'"
    using assms True
    by (auto simp: lock_uninstall_def file_holds_def result_simps Let_def entry_at_def active_at_def m_def [symmetric]
        l'_def [symmetric] split: if_splits)
  have "keys_once m" using assms(1) by (simp add: keys_once_def m_def file_holds_def distinct_delete)
  then have "keys_once l'" by (simp add: l'_def put_keys_once split: option.split)
  with w have holds: "file_holds f' l'" by (rule written_holds)
  have "ol_activations m = ol_activations l" by (simp add: m_def)
  then have views: "active_at l' = active_at l"
      "previous_at l' = (previous_at l)(i := if previous_at l i = Some v then None else previous_at l i)"
      "resume_at l' = (resume_at l)(i := if resume_at l i = Some v then None else resume_at l i)"
    by (auto simp: l'_def version_views fun_eq_iff split: option.splits)
  have "ol_plugins l' = AList.delete ?k (ol_plugins l)" by (simp add: l'_def m_def split: option.split)
  moreover have "pluginKey j w = ?k \<longleftrightarrow> j = i \<and> w = v" for j w
    using entry_unique [of l i v e j w] e assms(1) by (simp add: entry_at_def file_holds_def)
  ultimately have "entry_at l' j w = (if j = i \<and> w = v then None else entry_at l j w)" for j w
    by (auto simp: entry_at_def delete_conv')
  with True holds views na show ?thesis by auto
qed

section \<open>Debts\<close>

lemma debt_op_effect:
  assumes "file_holds f l" and "write_lock (l\<lparr>ol_debts := ds\<rparr>) = Inr f'"
  shows "\<exists>l'. file_holds f' l' \<and> same_versions l l' \<and> entry_at l' = entry_at l"
proof (intro exI conjI)
  show "file_holds f' (l\<lparr>ol_debts := ds\<rparr>)"
    using written_holds [OF assms(2)] holds_keys [OF assms(1)] by (simp add: keys_once_def)
qed (simp_all add: same_versions_def version_views entry_at_def fun_eq_iff)

lemma unchanged_effect: "file_holds f l \<Longrightarrow> \<exists>l'. file_holds f l' \<and> same_versions l l' \<and> entry_at l' = entry_at l"
  by (intro exI [of _ l]) simp

lemma lock_recordCleanupDebt_effect:
  "file_holds f l \<Longrightarrow> lock_recordCleanupDebt now i v n msg f = Inr (b, f')
    \<Longrightarrow> \<exists>l'. file_holds f' l' \<and> same_versions l l' \<and> entry_at l' = entry_at l"
  by (auto simp: lock_recordCleanupDebt_def file_holds_def [of f] result_simps Let_def intro!: debt_op_effect [of f])

lemma same_or_debts:
  assumes "file_holds f l" and "f' = f \<or> (\<exists>ds. write_lock (l\<lparr>ol_debts := ds\<rparr>) = Inr f')"
  shows "\<exists>l'. file_holds f' l' \<and> same_versions l l' \<and> entry_at l' = entry_at l"
  using assms debt_op_effect [OF assms(1)] unchanged_effect [OF assms(1)] by auto

lemma lock_clearCleanupDebt_effect:
  assumes "file_holds f l" and "lock_clearCleanupDebt i v f = Inr (b, f')"
  shows "\<exists>l'. file_holds f' l' \<and> same_versions l l' \<and> entry_at l' = entry_at l"
  by (rule same_or_debts [OF assms(1)])
    (use assms in \<open>auto simp: lock_clearCleanupDebt_def file_holds_def result_simps Let_def split: if_splits\<close>)

lemma lock_clearAllCleanupDebts_effect:
  assumes "file_holds f l" and "lock_clearAllCleanupDebts f = Inr (b, f')"
  shows "\<exists>l'. file_holds f' l' \<and> same_versions l l' \<and> entry_at l' = entry_at l"
  by (rule same_or_debts [OF assms(1)])
    (use assms in \<open>auto simp: lock_clearAllCleanupDebts_def file_holds_def result_simps Let_def split: if_splits\<close>)

lemmas debt_effects = lock_recordCleanupDebt_effect lock_clearCleanupDebt_effect lock_clearAllCleanupDebts_effect

end
