(* ===== verification/PluginInvariant.thy ===== *)
theory PluginInvariant
  imports PluginLifecycle PluginLockProperties
begin

text \<open>
  The invariant of the plugin lifecycle: memory and lock file agree on the versions, the packages of the file are in
  the directory, each in its own place, and what the runs are pinned to is installed. It holds at every await, together
  with what an operation relies on while it waits.
\<close>

section \<open>The invariant\<close>

definition stored :: "open_lock \<Rightarrow> string list \<Rightarrow> bool" where
  "stored l objects \<longleftrightarrow> (\<forall>i v e. entry_at l i v = Some e \<longrightarrow> pe_source e \<in> set objects)
     \<and> (\<forall>i v e j w e'. entry_at l i v = Some e \<longrightarrow> entry_at l j w = Some e' \<longrightarrow> pe_source e = pe_source e' \<longrightarrow> i = j \<and> v = w)"

definition pins_installed :: "open_lock \<Rightarrow> (string \<times> (string \<times> string) list) list \<Rightarrow> bool" where
  "pins_installed l held \<longleftrightarrow> (\<forall>(run, pins)\<in>set held. distinct (map fst pins) \<and> (\<forall>(i, v)\<in>set pins. entry_at l i v \<noteq> None))"

definition sound_with :: "plugin_manager \<Rightarrow> open_lock \<Rightarrow> bool" where
  "sound_with s l \<longleftrightarrow> file_holds (pm_file s) l \<and> map_of (pm_active s) = active_at l \<and> map_of (pm_previous s) = previous_at l
     \<and> map_of (pm_resume s) = resume_at l \<and> distinct (map fst (pm_active s)) \<and> pins_installed l (pm_pins s)
     \<and> stored l (pm_objects s)"

definition plugin_sound :: "plugin_manager \<Rightarrow> bool" where
  "plugin_sound s \<longleftrightarrow> (\<exists>l. sound_with s l)"

text \<open>What one looks at, if anything: a run is pinned to versions of certain packages, or everything has been stopped.\<close>

type_synonym pin = "(string \<times> (string \<times> string) list \<times> (string \<Rightarrow> string \<Rightarrow> string \<times> string \<times> plugin_trust \<times> plugin_permissions)) option"

definition holds_pin :: "pin \<Rightarrow> plugin_manager \<Rightarrow> open_lock \<Rightarrow> bool" where
  "holds_pin q s l \<longleftrightarrow> (case q of None \<Rightarrow> True | Some (run, pins, package) \<Rightarrow> pm_stopped s
     \<or> map_of (pm_pins s) run = Some pins \<and> (\<forall>(i, v)\<in>set pins. map_option package_of (entry_at l i v) = Some (package i v)))"

definition inv :: "pin \<Rightarrow> (plugin_manager \<Rightarrow> open_lock \<Rightarrow> bool) \<Rightarrow> plugin_manager \<Rightarrow> bool" where
  "inv q X s \<longleftrightarrow> (\<exists>l. sound_with s l \<and> holds_pin q s l \<and> X s l)"

abbreviation "nothing_more \<equiv> (\<lambda>s l. True)"

text \<open>A version that is neither active nor pinned, and whose directory is nobody else's.\<close>

definition unused :: "string \<Rightarrow> string \<Rightarrow> plugin_manager \<Rightarrow> open_lock \<Rightarrow> bool" where
  "unused j w s l \<longleftrightarrow> (j, w) \<notin> set (pm_active s) \<and> (\<forall>(run, pins)\<in>set (pm_pins s). (j, w) \<notin> set pins)"

definition candidate :: "string \<Rightarrow> string \<Rightarrow> string \<Rightarrow> plugin_manager \<Rightarrow> open_lock \<Rightarrow> bool" where
  "candidate j w d s l \<longleftrightarrow> unused j w s l \<and> (\<forall>i v e. entry_at l i v = Some e \<longrightarrow> pe_source e = d \<longrightarrow> i = j \<and> v = w)"

definition newcomer :: "string \<Rightarrow> string \<Rightarrow> string \<Rightarrow> plugin_manager \<Rightarrow> open_lock \<Rightarrow> bool" where
  "newcomer j w d s l \<longleftrightarrow> candidate j w d s l \<and> map_of (pm_previous s) j \<noteq> Some w \<and> map_of (pm_resume s) j \<noteq> Some w"

definition packages_kept :: "open_lock \<Rightarrow> open_lock \<Rightarrow> bool" where
  "packages_kept l l' \<longleftrightarrow> (\<forall>j w. map_option package_of (entry_at l' j w) = map_option package_of (entry_at l j w))"

definition stable :: "(plugin_manager \<Rightarrow> open_lock \<Rightarrow> bool) \<Rightarrow> bool" where
  "stable X \<longleftrightarrow> (\<forall>s l s' l'. X s l \<longrightarrow> pm_active s' = pm_active s
     \<longrightarrow> pm_previous s' = pm_previous s \<longrightarrow> pm_resume s' = pm_resume s
     \<longrightarrow> set (pm_pins s') \<subseteq> set (pm_pins s) \<union> UNIV \<times> {pm_active s} \<longrightarrow> packages_kept l l' \<longrightarrow> X s' l')"

lemma stableD: "stable X \<Longrightarrow> X s l \<Longrightarrow> pm_active s' = pm_active s \<Longrightarrow> pm_previous s' = pm_previous s \<Longrightarrow> pm_resume s' = pm_resume s
    \<Longrightarrow> set (pm_pins s') \<subseteq> set (pm_pins s) \<union> UNIV \<times> {pm_active s} \<Longrightarrow> packages_kept l l' \<Longrightarrow> X s' l'"
  unfolding stable_def by blast

lemma stable_nothing [intro!]: "stable nothing_more"
  by (simp add: stable_def)

section \<open>Packages that stay\<close>

lemma packages_kept_refl [simp]: "packages_kept l l"
  by (simp add: packages_kept_def)

lemma kept_entry: "packages_kept l l' \<Longrightarrow> entry_at l' j w = Some e' \<Longrightarrow> \<exists>e. entry_at l j w = Some e \<and> package_of e = package_of e'"
  unfolding packages_kept_def by (metis (no_types, lifting) map_option_eq_Some option.simps(9))

lemma kept_entry': "packages_kept l l' \<Longrightarrow> entry_at l j w = Some e \<Longrightarrow> \<exists>e'. entry_at l' j w = Some e' \<and> package_of e' = package_of e"
  unfolding packages_kept_def by (metis (no_types, lifting) map_option_eq_Some option.simps(9))

lemma package_source: "package_of e = package_of e' \<Longrightarrow> pe_source e = pe_source e'"
  by (simp add: package_of_def)

lemma same_packages_kept: "same_packages l l' \<Longrightarrow> packages_kept l l'"
  unfolding same_packages_def packages_kept_def
proof (intro allI)
  fix j w
  assume "\<forall>j w. map_option (\<lambda>e. (package_of e, pe_stateDigest e)) (entry_at l' j w)
    = map_option (\<lambda>e. (package_of e, pe_stateDigest e)) (entry_at l j w)"
  then have "map_option (\<lambda>e. (package_of e, pe_stateDigest e)) (entry_at l' j w)
    = map_option (\<lambda>e. (package_of e, pe_stateDigest e)) (entry_at l j w)" by blast
  from arg_cong [OF this, of "map_option fst"] show "map_option package_of (entry_at l' j w) = map_option package_of (entry_at l j w)"
    by (simp add: option.map_comp comp_def)
qed

lemma stored_kept: "stored l objects \<Longrightarrow> packages_kept l l' \<Longrightarrow> stored l' objects"
  unfolding stored_def
proof (elim conjE, intro conjI allI impI)
  assume in_dir: "\<forall>i v e. entry_at l i v = Some e \<longrightarrow> pe_source e \<in> set objects"
    and own: "\<forall>i v e j w e'. entry_at l i v = Some e \<longrightarrow> entry_at l j w = Some e' \<longrightarrow> pe_source e = pe_source e' \<longrightarrow> i = j \<and> v = w"
    and k: "packages_kept l l'"
  show "pe_source e \<in> set objects" if "entry_at l' i v = Some e" for i v e
    using kept_entry [OF k that] in_dir package_source by metis
  show "i = j" "v = w" if "entry_at l' i v = Some e" "entry_at l' j w = Some e'" "pe_source e = pe_source e'" for i v e j w e'
    using kept_entry [OF k that(1)] kept_entry [OF k that(2)] that(3) own package_source by metis+
qed

lemma pins_installed_kept: "pins_installed l held \<Longrightarrow> packages_kept l l' \<Longrightarrow> pins_installed l' held"
  unfolding pins_installed_def by (fastforce dest: kept_entry')

lemma holds_pin_kept:
  "holds_pin q s l \<Longrightarrow> packages_kept l l' \<Longrightarrow> (pm_stopped s \<Longrightarrow> pm_stopped s') \<Longrightarrow> (\<not> pm_stopped s' \<Longrightarrow> pm_pins s' = pm_pins s)
    \<Longrightarrow> holds_pin q s' l'"
  unfolding holds_pin_def packages_kept_def by (cases "pm_stopped s'") (auto simp del: map_option_eq_Some split: option.splits prod.splits)

lemma stable_unused [intro!]: "stable (unused j w)"
  by (fastforce simp: stable_def unused_def)

lemma stable_newcomer [intro!]: "stable (newcomer j w d)"
  unfolding stable_def
proof (intro allI impI)
  fix s s' :: plugin_manager and l l'
  assume c: "newcomer j w d s l" and a: "pm_active s' = pm_active s" "pm_previous s' = pm_previous s" "pm_resume s' = pm_resume s"
    and k: "packages_kept l l'" and p: "set (pm_pins s') \<subseteq> set (pm_pins s) \<union> UNIV \<times> {pm_active s}"
  have "unused j w s' l'" by (rule stableD [OF stable_unused _ a p k]) (use c in \<open>simp add: newcomer_def candidate_def\<close>)
  moreover have "i = j \<and> v = w" if "entry_at l' i v = Some e" "pe_source e = d" for i v e
    using kept_entry [OF k that(1)] that(2) package_source c unfolding newcomer_def candidate_def by metis
  ultimately show "newcomer j w d s' l'" using c a by (auto simp: newcomer_def candidate_def)
qed

section \<open>Steps that keep it\<close>

lemma keeps_state: "(\<And>s. m s = (fst (m s), s)) \<Longrightarrow> keeps I m"
  unfolding keeps_def by (metis snd_conv)

lemma keeps_the_lock [effect_rules]: "keeps I the_lock"
  by (rule keeps_state) (simp add: the_lock_def split: sum.split)

lemma keeps_requiredEntry [effect_rules]: "keeps I (requiredEntry i v)"
  unfolding requiredEntry_def by (intro effect_rules)

lemma keeps_readState [effect_rules]: "keeps I (readState e)"
  unfolding readState_def by (cases "pe_stateDigest e") (simp_all add: effect_rules)

text \<open>Tools, generations and states are not part of it.\<close>

definition elsewhere :: "(plugin_manager \<Rightarrow> plugin_manager) \<Rightarrow> bool" where
  "elsewhere f \<longleftrightarrow> (\<forall>s. pm_file (f s) = pm_file s \<and> pm_objects (f s) = pm_objects s \<and> pm_active (f s) = pm_active s
     \<and> pm_previous (f s) = pm_previous s \<and> pm_resume (f s) = pm_resume s \<and> pm_pins (f s) = pm_pins s
     \<and> pm_stopped (f s) = pm_stopped s)"

lemma keeps_elsewhere:
  assumes "stable X" and "elsewhere f" shows "keeps (inv q X) (modify_eff f)"
proof (rule keeps_modify)
  fix s
  assume "inv q X s"
  then obtain l where l: "sound_with s l" "holds_pin q s l" "X s l" by (auto simp: inv_def)
  have same: "pm_file (f s) = pm_file s" "pm_objects (f s) = pm_objects s" "pm_active (f s) = pm_active s"
      "pm_previous (f s) = pm_previous s" "pm_resume (f s) = pm_resume s" "pm_pins (f s) = pm_pins s" "pm_stopped (f s) = pm_stopped s"
    using assms(2) by (auto simp: elsewhere_def)
  have "sound_with (f s) l" using l(1) by (simp add: sound_with_def same)
  moreover have "holds_pin q (f s) l" using l(2) by (rule holds_pin_kept) (simp_all add: same)
  moreover have "X (f s) l" by (rule stableD [OF assms(1) l(3)]) (simp_all add: same)
  ultimately show "inv q X (f s)" by (auto simp: inv_def)
qed

text \<open>Changes of the lock file that leave the versions and packages alone.\<close>

definition harmless :: "'a lock_op \<Rightarrow> bool" where
  "harmless f \<longleftrightarrow> (\<forall>file l a file'. file_holds file l \<longrightarrow> f file = Inr (a, file')
     \<longrightarrow> (\<exists>l'. file_holds file' l' \<and> same_versions l l' \<and> packages_kept l l'))"

lemma sound_file:
  "sound_with s l \<Longrightarrow> file_holds file' l' \<Longrightarrow> same_versions l l' \<Longrightarrow> packages_kept l l' \<Longrightarrow> sound_with (s\<lparr>pm_file := file'\<rparr>) l'"
  using pins_installed_kept [of l "pm_pins s" l'] stored_kept [of l "pm_objects s" l']
  by (simp add: sound_with_def same_versions_def)

lemma keeps_with_lock:
  assumes "harmless f" and "stable X" shows "keeps (inv q X) (with_lock f)"
  unfolding keeps_def
proof (intro allI impI)
  fix s
  assume "inv q X s"
  then obtain l where l: "sound_with s l" "holds_pin q s l" "X s l" by (auto simp: inv_def)
  show "inv q X (snd (with_lock f s))"
  proof (cases "f (pm_file s)")
    case (Inl e)
    with \<open>inv q X s\<close> show ?thesis by (simp add: with_lock_def)
  next
    case (Inr r)
    obtain a file' where f: "f (pm_file s) = Inr (a, file')" using Inr by (cases r) simp
    with assms(1) l(1) obtain l' where l': "file_holds file' l'" "same_versions l l'" "packages_kept l l'"
      unfolding harmless_def sound_with_def by blast
    have "sound_with (s\<lparr>pm_file := file'\<rparr>) l'" by (rule sound_file [OF l(1) l'])
    moreover have "holds_pin q (s\<lparr>pm_file := file'\<rparr>) l'" by (rule holds_pin_kept [OF l(2) l'(3)]) simp_all
    moreover have "X (s\<lparr>pm_file := file'\<rparr>) l'" by (rule stableD [OF assms(2) l(3) _ _ _ _ l'(3)]) simp_all
    ultimately show ?thesis using f by (auto simp: with_lock_def inv_def)
  qed
qed

lemma entries_kept: "entry_at l' = entry_at l \<Longrightarrow> packages_kept l l'"
  by (simp add: packages_kept_def)

lemma harmless_ops [intro!]:
  "harmless (lock_recordCleanupDebt now i v n msg)" "harmless (lock_clearCleanupDebt i v)" "harmless lock_clearAllCleanupDebts"
  "harmless (lock_recordVerification i v t d r pending)"
proof -
  show "harmless (lock_recordCleanupDebt now i v n msg)" "harmless (lock_clearCleanupDebt i v)" "harmless lock_clearAllCleanupDebts"
    unfolding harmless_def by (metis debt_effects(1) entries_kept, metis debt_effects(2) entries_kept, metis debt_effects(3) entries_kept)
  show "harmless (lock_recordVerification i v t d r pending)"
    unfolding harmless_def
  proof (intro allI impI)
    fix F l a F'
    assume "file_holds F l" "lock_recordVerification i v t d r pending F = Inr (a, F')"
    from lock_recordVerification_effect [OF this] obtain l' e where l': "file_holds F' l'" "same_versions l l'"
        "entry_at l i v = Some e" "package_of a = package_of e" "\<forall>j w. entry_at l' j w = (if j = i \<and> w = v then Some a else entry_at l j w)"
      by blast
    then have "packages_kept l l'" by (simp add: packages_kept_def)
    with l' show "\<exists>l'. file_holds F' l' \<and> same_versions l l' \<and> packages_kept l l'" by blast
  qed
qed

lemma keeps_writeState: "stable X \<Longrightarrow> keeps (inv q X) (writeState env i v x)"
  unfolding writeState_def
  by (intro effect_rules keeps_elsewhere) (auto simp: elsewhere_def)

section \<open>Runs, and the end of the process\<close>

lemma active_entry: "lock_valid l \<Longrightarrow> active_at l i = Some v \<Longrightarrow> \<exists>e. entry_at l i v = Some e \<and> \<not> incomplete e"
  by (fastforce simp: active_at_def activation_of_def lock_valid_def activation_ok_def version_ok_def entry_at_def bind_eq_Some_conv
      dest: map_of_SomeD split: option.splits if_splits)

lemma sound_active: "sound_with s l \<Longrightarrow> (i, v) \<in> set (pm_active s) \<longleftrightarrow> active_at l i = Some v"
  unfolding sound_with_def by (metis map_of_eq_Some_iff)

lemma keeps_pinRun: assumes "stable X" shows "keeps (inv q X) (pinRun run)"
  unfolding keeps_def
proof (intro allI impI)
  fix s
  assume i: "inv q X s"
  then obtain l where l: "sound_with s l" "holds_pin q s l" "X s l" by (auto simp: inv_def)
  show "inv q X (snd (pinRun run s))"
  proof (cases "map_of (pm_pins s) run")
    case None
    let ?s = "s\<lparr>pm_pins := pm_pins s @ [(run, pm_active s)]\<rparr>"
    have "entry_at l i v \<noteq> None" if "(i, v) \<in> set (pm_active s)" for i v
      using that active_entry [of l i v] l(1) sound_active [OF l(1)] by (auto simp: sound_with_def file_holds_def)
    then have "sound_with ?s l" using l(1) by (auto simp: sound_with_def pins_installed_def)
    moreover have "holds_pin q ?s l" using l(2) by (auto simp: holds_pin_def map_add_def split: option.splits)
    moreover have "X ?s l" by (rule stableD [OF assms l(3)]) auto
    ultimately show ?thesis using None by (auto simp: pinRun_def inv_def)
  qed (use i in \<open>simp add: pinRun_def\<close>)
qed

lemma keeps_stop_begin: assumes "stable X" shows "keeps (inv q X) stop_begin"
  unfolding stop_begin_def
proof (rule keeps_modify)
  fix s
  assume i: "inv q X s"
  then obtain l where l: "sound_with s l" "holds_pin q s l" "X s l" by (auto simp: inv_def)
  let ?s = "s\<lparr>pm_stopped := True, pm_pins := [],
    pm_stopping := map (\<lambda>(k, i, v, x). (i, v)) (filter (\<lambda>(k, i, v, x). x) (pm_generations s))\<rparr>"
  have "sound_with ?s l" using l(1) by (simp add: sound_with_def pins_installed_def)
  moreover have "holds_pin q ?s l" by (simp add: holds_pin_def split: option.split prod.split)
  moreover have "X ?s l" by (rule stableD [OF assms l(3)]) simp_all
  ultimately show "inv q X (if pm_stopped s then s else ?s)" using i by (auto simp: inv_def)
qed

lemma keeps_stop_end: "stable X \<Longrightarrow> keeps (inv q X) (stop_end env failing)"
  unfolding stop_end_def case_prod_beta
  by (intro effect_rules keeps_elsewhere keeps_with_lock harmless_ops) (auto simp: elsewhere_def)

lemma keeps_generation_of: assumes "stable X" shows "keeps (inv q X) (generation_of e)"
proof -
  have "elsewhere (\<lambda>s. snd (generation_of e s))"
    by (auto simp: elsewhere_def generation_of_def Let_def split: option.split)
  from keeps_elsewhere [OF assms this] show ?thesis by (simp add: keeps_def modify_eff_def)
qed

lemma keeps_call_tool: "stable X \<Longrightarrow> keeps (inv q X) (call_tool run tool)"
  unfolding call_tool_def case_prod_beta by (intro effect_rules keeps_pinRun keeps_generation_of)

lemma keeps_attempt: "keeps I m \<Longrightarrow> keeps I (attempt m)"
  unfolding attempt_def by (intro effect_rules)

lemma keeps_await: "stable X \<Longrightarrow> keeps (inv q X) (await env label n)"
  unfolding await_def
proof (intro effect_rules)
  fix x
  assume "stable X"
  then show "keeps (inv q X) (happen env x)"
    by (cases x) (auto simp: happen_def intro!: effect_rules keeps_attempt keeps_pinRun keeps_call_tool keeps_stop_begin keeps_stop_end)
qed

lemmas plugin_keeps = keeps_with_lock keeps_writeState keeps_pinRun keeps_await keeps_attempt

lemma keeps_verify: "stable X \<Longrightarrow> keeps (inv q X) (verify env e x)"
  unfolding verify_def Let_def by (intro effect_rules plugin_keeps)

lemma keeps_migrate: "stable X \<Longrightarrow> keeps (inv q X) (migrate env c p state)"
  unfolding migrate_def by (intro effect_rules plugin_keeps)

lemma keeps_stopGeneration: "stable X \<Longrightarrow> keeps (inv q X) (stopGeneration env i v n)"
  unfolding stopGeneration_def Let_def by (intro effect_rules plugin_keeps)

lemma keeps_stop_attempts: "stable X \<Longrightarrow> keeps (inv q X) (stop_attempts env i v n)"
  by (induction n) (auto intro!: effect_rules plugin_keeps keeps_stopGeneration)

lemma keeps_stop_each: "stable X \<Longrightarrow> keeps (inv q X) (stop_each env skip ps)"
  by (induction ps) (auto simp: stopGenerationWithBudget_def intro!: effect_rules keeps_stop_attempts)

end
