(* ===== verification/PluginProperties.thy ===== *)
theory PluginProperties
  imports PluginInvariant
begin

text \<open>
  What the plugin lifecycle guarantees: every operation keeps the invariant, whatever happens while it waits, and so a
  run keeps the generations it was pinned to until it is released.
\<close>

section \<open>Packages that come and go\<close>

definition unowned :: "string \<Rightarrow> plugin_manager \<Rightarrow> open_lock \<Rightarrow> bool" where
  "unowned d s l \<longleftrightarrow> (\<forall>i v e. entry_at l i v = Some e \<longrightarrow> pe_source e \<noteq> d)"

definition fresh_dir :: "string \<Rightarrow> plugin_manager \<Rightarrow> open_lock \<Rightarrow> bool" where
  "fresh_dir d s l \<longleftrightarrow> d \<in> set (pm_objects s) \<and> unowned d s l"

lemma invE: "inv q X s \<Longrightarrow> (\<And>l. sound_with s l \<Longrightarrow> holds_pin q s l \<Longrightarrow> X s l \<Longrightarrow> thesis) \<Longrightarrow> thesis"
  by (auto simp: inv_def)

lemma invI: "sound_with s l \<Longrightarrow> holds_pin q s l \<Longrightarrow> X s l \<Longrightarrow> inv q X s"
  by (auto simp: inv_def)

lemma inv_weaken: "inv q X s \<Longrightarrow> inv q nothing_more s"
  by (auto simp: inv_def)

lemma inv_mono: "inv q X s \<Longrightarrow> (\<And>l. sound_with s l \<Longrightarrow> X s l \<Longrightarrow> Y s l) \<Longrightarrow> inv q Y s"
  by (auto simp: inv_def)

lemma entry_in_list: "keys_once l \<Longrightarrow> entry_at l i v = Some e \<Longrightarrow> (pluginKey i v, e) \<in> set (ol_plugins l)"
  by (simp add: entry_at_def map_of_SomeD)

lemma inv_objects:
  assumes "inv q X s" and "\<And>l. sound_with s l \<Longrightarrow> X s l \<Longrightarrow> stored l objects \<and> Y (s\<lparr>pm_objects := objects\<rparr>) l"
  shows "inv q Y (s\<lparr>pm_objects := objects\<rparr>)"
  using assms(1)
proof (rule invE)
  fix l
  assume l: "sound_with s l" "holds_pin q s l" "X s l"
  note st = assms(2) [OF l(1,3)]
  show ?thesis
  proof (rule invI [where l = l])
    show "sound_with (s\<lparr>pm_objects := objects\<rparr>) l" using l(1) st by (simp add: sound_with_def)
    show "holds_pin q (s\<lparr>pm_objects := objects\<rparr>) l" using l(2) by (rule holds_pin_kept) simp_all
  qed (use st in blast)
qed

lemma keeps_reconcileOrphans: "keeps (inv q nothing_more) reconcileOrphans"
  unfolding keeps_def
proof (intro allI impI)
  fix s
  assume i: "inv q nothing_more s"
  then obtain l where l: "read_lock (pm_file s) = Inr l" "sound_with s l" by (auto elim!: invE simp: sound_with_def file_holds_def)
  have "inv q nothing_more (s\<lparr>pm_objects := filter (\<lambda>r. r \<in> set (referenced l)) (pm_objects s)\<rparr>)"
    using i
  proof (rule inv_objects)
    fix l'
    assume l': "sound_with s l'"
    then have "l' = l" "keys_once l" using l by (auto simp: sound_with_def file_holds_def)
    then have "pe_source e \<in> set (referenced l')" if "entry_at l' i v = Some e" for i v e
      using entry_in_list that by (force simp: referenced_def)
    with l' show "stored l' (filter (\<lambda>r. r \<in> set (referenced l)) (pm_objects s)) \<and> True"
      using \<open>l' = l\<close> by (auto simp: sound_with_def stored_def)
  qed
  with l show "inv q nothing_more (snd (reconcileOrphans s))"
    by (simp add: reconcileOrphans_def the_lock_def bind_eff_def modify_eff_def)
qed

lemma keeps_bind_rule: "keeps I m \<Longrightarrow> (\<And>a. effect_triple I (f a) Q (\<lambda>_. I)) \<Longrightarrow> effect_triple I (bind_eff m f) Q (\<lambda>_. I)"
  unfolding keeps_triple by (rule bind_eff_rule)

lemma gets_bind_rule: "(\<And>a. effect_triple (\<lambda>s. P s \<and> g s = a) (f a) Q E) \<Longrightarrow> effect_triple P (bind_eff (gets_eff g) f) Q E"
  unfolding effect_triple_def bind_eff_def gets_eff_def by auto

lemma throw_if_bind_rule:
  "(\<And>s. P s \<Longrightarrow> b \<Longrightarrow> E e s) \<Longrightarrow> (\<not> b \<Longrightarrow> effect_triple P m Q E) \<Longrightarrow> effect_triple P (bind_eff (throw_if_eff b e) (\<lambda>_. m)) Q E"
  unfolding effect_triple_def bind_eff_def throw_if_eff_def lift_eff_def throw_if_def by auto

lemma modify_bind_rule: "effect_triple P' m Q E \<Longrightarrow> (\<And>s. P s \<Longrightarrow> P' (f s)) \<Longrightarrow> effect_triple P (bind_eff (modify_eff f) (\<lambda>_. m)) Q E"
  unfolding effect_triple_def bind_eff_def modify_eff_def by auto

lemma fresh_object:
  assumes "inv q nothing_more s" and "d \<notin> set (pm_objects s)"
  shows "inv q (fresh_dir d) (s\<lparr>pm_objects := pm_objects s @ [d]\<rparr>)"
  using assms(1)
proof (rule inv_objects)
  fix l
  assume "sound_with s l"
  with assms(2) show "stored l (pm_objects s @ [d]) \<and> fresh_dir d (s\<lparr>pm_objects := pm_objects s @ [d]\<rparr>) l"
    by (auto simp: sound_with_def stored_def fresh_dir_def unowned_def)
qed

lemma stage_triple:
  "effect_triple (inv q nothing_more) (stage package) (\<lambda>r. inv q (fresh_dir (snd r))) (\<lambda>_. inv q nothing_more)"
proof -
  have "effect_triple (inv q nothing_more) (case a of (m, d) \<Rightarrow> bind_eff (gets_eff pm_objects) (\<lambda>objects.
        bind_eff (throw_if_eff (d \<in> set objects) (PackageExists d)) (\<lambda>_.
        bind_eff (modify_eff (\<lambda>s. s\<lparr>pm_objects := pm_objects s @ [d]\<rparr>)) (\<lambda>_. return_eff (m, d)))))
      (\<lambda>r. inv q (fresh_dir (snd r))) (\<lambda>_. inv q nothing_more)" for a :: "plugin_manifest \<times> string"
    by (cases a) (auto intro!: gets_bind_rule throw_if_bind_rule modify_bind_rule
        [where P' = "inv q (fresh_dir (snd a))"] return_eff_rule fresh_object)
  then show ?thesis
    unfolding stage_def by (intro keeps_bind_rule keeps_reconcileOrphans keeps_lift)
qed

lemma remove_object_triple:
  "effect_triple (inv q (unowned d)) (remove_object d) (\<lambda>_. inv q nothing_more) (\<lambda>_. inv q nothing_more)"
  unfolding remove_object_def
proof (rule modify_eff_rule)
  fix s
  assume "inv q (unowned d) s"
  then show "inv q nothing_more (s\<lparr>pm_objects := removeAll d (pm_objects s)\<rparr>)"
    by (rule inv_objects) (auto simp: stored_def unowned_def sound_with_def)
qed

lemma with_lock_rule:
  "(\<And>s e. P s \<Longrightarrow> E e s) \<Longrightarrow> (\<And>s a file. P s \<Longrightarrow> f (pm_file s) = Inr (a, file) \<Longrightarrow> Q a (s\<lparr>pm_file := file\<rparr>))
    \<Longrightarrow> effect_triple P (with_lock f) Q E"
  unfolding effect_triple_def with_lock_def by (auto split: sum.split prod.splits)

lemma previous_entry: "lock_valid l \<Longrightarrow> previous_at l i = Some v \<Longrightarrow> entry_at l i v \<noteq> None"
  by (fastforce simp: previous_at_def activation_of_def lock_valid_def activation_ok_def version_ok_def entry_at_def bind_eq_Some_conv
      dest: map_of_SomeD split: option.splits if_splits)

lemma resume_entry: "lock_valid l \<Longrightarrow> resume_at l i = Some v \<Longrightarrow> \<exists>e. entry_at l i v = Some e \<and> \<not> incomplete e"
  by (fastforce simp: resume_at_def activation_of_def lock_valid_def activation_ok_def version_ok_def entry_at_def bind_eq_Some_conv
      dest: map_of_SomeD split: option.splits if_splits)

text \<open>A version that is not installed is nowhere.\<close>

lemma absent_unused:
  assumes "sound_with s l" and "entry_at l j w = None"
  shows "unused j w s l" "map_of (pm_previous s) j \<noteq> Some w" "map_of (pm_resume s) j \<noteq> Some w"
proof -
  have v: "lock_valid l" "pins_installed l (pm_pins s)" "map_of (pm_previous s) = previous_at l" "map_of (pm_resume s) = resume_at l"
    using assms(1) by (auto simp: sound_with_def file_holds_def)
  show "unused j w s l"
    using assms active_entry [OF v(1), of j w] sound_active [OF assms(1), of j w] v(2) by (fastforce simp: unused_def pins_installed_def)
  show "map_of (pm_previous s) j \<noteq> Some w" using assms(2) previous_entry [OF v(1), of j w] v(3) by auto
  show "map_of (pm_resume s) j \<noteq> Some w" using assms(2) resume_entry [OF v(1), of j w] v(4) by auto
qed

lemma install_triple:
  "effect_triple (inv q (fresh_dir d)) (with_lock (lock_install now d digest m g))
     (\<lambda>e. inv q (newcomer (pe_id e) (pe_version e) d)) (\<lambda>_. inv q (fresh_dir d))"
proof (rule with_lock_rule)
  fix s e F
  assume i: "inv q (fresh_dir d) s" and op: "lock_install now d digest m g (pm_file s) = Inr (e, F)"
  from i obtain l where l: "sound_with s l" "holds_pin q s l" "fresh_dir d s l" by (rule invE)
  then have "file_holds (pm_file s) l" by (simp add: sound_with_def)
  from lock_install_effect [OF this op] obtain l' where l': "file_holds F l'" "same_versions l l'"
      "entry_at l (pe_id e) (pe_version e) = None" "pe_source e = d"
      "\<forall>j w. entry_at l' j w = (if j = pe_id e \<and> w = pe_version e then Some e else entry_at l j w)" by blast
  let ?s = "s\<lparr>pm_file := F\<rparr>"
  have st: "stored l (pm_objects s)" and un: "\<And>i v x. entry_at l i v = Some x \<Longrightarrow> pe_source x \<noteq> d" and dir: "d \<in> set (pm_objects s)"
    using l(1,3) by (auto simp: sound_with_def fresh_dir_def unowned_def)
  have "pe_source x \<in> set (pm_objects s)" if "entry_at l' i v = Some x" for i v x
    using that st dir l'(4,5) by (auto simp: stored_def split: if_splits)
  moreover have "i = j \<and> v = w" if "entry_at l' i v = Some x" "entry_at l' j w = Some y" "pe_source x = pe_source y" for i v x j w y
    using that un [of i v x] un [of j w y] st l'(4,5) unfolding stored_def by (simp split: if_splits)
  ultimately have "stored l' (pm_objects s)" unfolding stored_def by blast
  moreover have "pins_installed l' (pm_pins s)"
    using l(1) l'(5) by (auto simp: sound_with_def pins_installed_def split: prod.splits)
  ultimately have sound: "sound_with ?s l'" using l(1) l'(1,2) by (simp add: sound_with_def same_versions_def)
  show "inv q (newcomer (pe_id e) (pe_version e) d) ?s"
  proof (rule invI [OF sound])
    show "holds_pin q ?s l'" using l(2) l'(3,5) by (auto simp: holds_pin_def split: option.splits)
    have "unused (pe_id e) (pe_version e) ?s l'" using absent_unused(1) [OF l(1) l'(3)] by (simp add: unused_def)
    then show "newcomer (pe_id e) (pe_version e) d ?s l'"
      using absent_unused(2,3) [OF l(1) l'(3)] l(3) l'(5) by (auto simp: newcomer_def candidate_def fresh_dir_def unowned_def)
  qed
qed simp

text \<open>What \<open>uninstall\<close> does to the memory after the file.\<close>

definition forget :: "string \<Rightarrow> string \<Rightarrow> plugin_manager \<Rightarrow> plugin_manager" where
  "forget j w s = s\<lparr>pm_previous := (if map_of (pm_previous s) j = Some w then AList.delete j (pm_previous s) else pm_previous s),
     pm_resume := (if map_of (pm_resume s) j = Some w then AList.delete j (pm_resume s) else pm_resume s)\<rparr>"

lemma forget_same [simp]:
  "pm_file (forget j w s) = pm_file s" "pm_objects (forget j w s) = pm_objects s" "pm_active (forget j w s) = pm_active s"
  "pm_pins (forget j w s) = pm_pins s" "pm_stopped (forget j w s) = pm_stopped s"
  by (simp_all add: forget_def)

lemma uninstall_triple:
  "effect_triple (inv q (candidate j w d)) (with_lock (lock_uninstall j w))
     (\<lambda>r s. inv q (unowned d) (forget j w s) \<and> (r \<or> forget j w s = s)) (\<lambda>_. inv q (candidate j w d))"
proof (rule with_lock_rule)
  fix s r F
  assume i: "inv q (candidate j w d) s" and op: "lock_uninstall j w (pm_file s) = Inr (r, F)"
  from i obtain l where l: "sound_with s l" "holds_pin q s l" "candidate j w d s l" by (rule invE)
  then have holds: "file_holds (pm_file s) l" by (simp add: sound_with_def)
  note effect = lock_uninstall_effect [OF holds op]
  have same: "forget j w (s\<lparr>pm_file := F\<rparr>) = s\<lparr>pm_file := F\<rparr>" if "\<not> r"
  proof -
    have "entry_at l j w = None" using that effect by simp
    from absent_unused(2,3) [OF l(1) this] show ?thesis by (simp add: forget_def)
  qed
  have "\<exists>l'. file_holds F l' \<and> active_at l' = active_at l
      \<and> previous_at l' = (previous_at l)(j := if previous_at l j = Some w then None else previous_at l j)
      \<and> resume_at l' = (resume_at l)(j := if resume_at l j = Some w then None else resume_at l j)
      \<and> (\<forall>i v. entry_at l' i v = (if i = j \<and> v = w then None else entry_at l i v))"
  proof (cases r)
    case False
    then have "F = pm_file s" "entry_at l j w = None" using effect by simp_all
    moreover from absent_unused(2,3) [OF l(1) this(2)] l(1) have "previous_at l j \<noteq> Some w" "resume_at l j \<noteq> Some w"
      by (simp_all add: sound_with_def)
    ultimately show ?thesis using holds by (intro exI [of _ l]) auto
  qed (use effect in auto)
  then obtain l' where l': "file_holds F l'" "active_at l' = active_at l"
      "previous_at l' = (previous_at l)(j := if previous_at l j = Some w then None else previous_at l j)"
      "resume_at l' = (resume_at l)(j := if resume_at l j = Some w then None else resume_at l j)"
      "\<forall>i v. entry_at l' i v = (if i = j \<and> v = w then None else entry_at l i v)" by blast
  let ?s = "forget j w (s\<lparr>pm_file := F\<rparr>)"
  have other: "(i, v) \<noteq> (j, w)" if "(run, pins) \<in> set (pm_pins s)" "(i, v) \<in> set pins" for run pins i v
    using l(3) that by (auto simp: candidate_def unused_def)
  have "stored l' (pm_objects s)" using l(1) l'(5) by (auto simp: sound_with_def stored_def split: if_splits)
  moreover have "pins_installed l' (pm_pins s)"
    using l(1) l'(5) other by (fastforce simp: sound_with_def pins_installed_def)
  moreover have "map_of (pm_previous ?s) = previous_at l'" "map_of (pm_resume ?s) = resume_at l'"
    using l(1) l'(3,4) by (auto simp: sound_with_def forget_def delete_conv')
  ultimately have sound: "sound_with ?s l'" using l(1) l'(1,2) by (simp add: sound_with_def)
  have "inv q (unowned d) ?s"
  proof (rule invI [OF sound])
    show "holds_pin q ?s l'"
      using l(2) l'(5) other by (fastforce simp: holds_pin_def split: option.splits dest: map_of_SomeD)
    show "unowned d ?s l'" using l(3) l'(5) by (auto simp: unowned_def candidate_def)
  qed
  with same show "inv q (unowned d) ?s \<and> (r \<or> ?s = s\<lparr>pm_file := F\<rparr>)" by blast
qed simp

lemma inv_fields:
  assumes "inv q nothing_more s" and "pm_file s' = pm_file s" "pm_objects s' = pm_objects s" "pm_active s' = pm_active s"
    "pm_previous s' = pm_previous s" "pm_resume s' = pm_resume s" "pm_pins s' = pm_pins s" "pm_stopped s' = pm_stopped s"
  shows "inv q nothing_more s'"
proof (rule invE [OF assms(1)])
  fix l
  assume l: "sound_with s l" "holds_pin q s l"
  have "sound_with s' l" using l(1) by (simp add: sound_with_def assms(2-8))
  moreover have "holds_pin q s' l" using l(2) by (rule holds_pin_kept) (simp_all add: assms(2-8))
  ultimately show ?thesis by (simp add: inv_def) blast
qed

lemma stable_absent_forget:
  "inv q (newcomer j w d) s \<Longrightarrow> inv q (candidate j w d) s \<and> forget j w s = s"
  by (auto simp: inv_def newcomer_def forget_def)

text \<open>\<open>uninstall\<close> of the installer, for a version that is not in use.\<close>

lemma removed_triple:
  "effect_triple (inv q (unowned d) \<circ> forget j w) (remove_object d) (\<lambda>_. inv q nothing_more \<circ> forget j w) (\<lambda>_. inv q nothing_more)"
  unfolding remove_object_def
proof (rule modify_eff_rule)
  fix s
  assume "(inv q (unowned d) \<circ> forget j w) s"
  then have "inv q (unowned d) (forget j w s)" by simp
  then have "inv q nothing_more ((forget j w s)\<lparr>pm_objects := removeAll d (pm_objects (forget j w s))\<rparr>)"
    by (rule inv_objects) (auto simp: stored_def unowned_def sound_with_def)
  then show "(inv q nothing_more \<circ> forget j w) (s\<lparr>pm_objects := removeAll d (pm_objects s)\<rparr>)"
    unfolding comp_def by (rule inv_fields) (simp_all add: forget_def)
qed

lemma forget_absent:
  assumes "inv q (unused j w) s" and "read_lock (pm_file s) = Inr l" and "map_of (ol_plugins l) (pluginKey j w) = None"
  shows "forget j w s = s"
proof -
  from assms(1) obtain l' where l': "sound_with s l'" by (rule invE)
  then have "l' = l" using assms(2) by (simp add: sound_with_def file_holds_def)
  with absent_unused(2,3) [OF l', of j w] assms(3) show ?thesis by (simp add: forget_def entry_at_def)
qed

lemma bind_lift: "bind_eff (lift_eff (Inl e)) f s = (Inl e, s)" "bind_eff (lift_eff (Inr a)) f s = f a s"
  by (simp_all add: bind_eff_def lift_eff_def)

lemma bind_the_lock: "read_lock (pm_file s) = Inr l \<Longrightarrow> bind_eff the_lock f s = f l s"
  by (simp add: bind_eff_def the_lock_def)

lemma installer_uninstall_triple:
  "effect_triple (inv q (unused j w)) (installer_uninstall j w)
     (\<lambda>r s. inv q nothing_more (forget j w s) \<and> (r \<or> forget j w s = s)) (\<lambda>_. inv q nothing_more)"
proof -
  have "case installer_uninstall j w s of (Inl e, s') \<Rightarrow> inv q nothing_more s'
      | (Inr r, s') \<Rightarrow> inv q nothing_more (forget j w s') \<and> (r \<or> forget j w s' = s')"
    if i: "inv q (unused j w) s" for s
  proof -
    note i' = inv_weaken [OF i]
    from i obtain l where l: "sound_with s l" "unused j w s l" by (rule invE)
    then have r: "read_lock (pm_file s) = Inr l" by (simp add: sound_with_def file_holds_def)
    show ?thesis
    proof (cases "map_of (ol_plugins l) (pluginKey j w)")
      case None
      with i' r forget_absent [OF i r None] show ?thesis
        by (cases "validatePackageCoordinates j w") (simp_all add: installer_uninstall_def bind_lift bind_the_lock return_eff_def)
    next
      case (Some e)
      let ?d = "pe_source e"
      have c: "inv q (candidate j w ?d) s"
        using i
      proof (rule inv_mono)
        fix l'
        assume l': "sound_with s l'" "unused j w s l'"
        then have "l' = l" using r by (simp add: sound_with_def file_holds_def)
        moreover have "stored l' (pm_objects s)" "entry_at l' j w = Some e" using l' Some \<open>l' = l\<close> by (simp_all add: sound_with_def entry_at_def)
        ultimately show "candidate j w ?d s l'" using l'(2) unfolding candidate_def stored_def by blast
      qed
      define m :: "bool plugin_op" where "m = bind_eff (with_lock (lock_uninstall j w))
          (\<lambda>removed. bind_eff (if removed then remove_object ?d else return_eff ()) (\<lambda>_. return_eff removed))"
      have t: "effect_triple (inv q (candidate j w ?d)) m (\<lambda>r s. inv q nothing_more (forget j w s) \<and> (r \<or> forget j w s = s))
          (\<lambda>_. inv q nothing_more)"
        unfolding m_def
      proof (rule bind_eff_rule)
        show "effect_triple (inv q (candidate j w ?d)) (with_lock (lock_uninstall j w))
            (\<lambda>r s. inv q (unowned ?d) (forget j w s) \<and> (r \<or> forget j w s = s)) (\<lambda>_. inv q nothing_more)"
          by (rule effect_conseq [OF uninstall_triple]) (auto intro: inv_weaken)
        show "effect_triple (\<lambda>s. inv q (unowned ?d) (forget j w s) \<and> (r \<or> forget j w s = s))
            (bind_eff (if r then remove_object ?d else return_eff ()) (\<lambda>_. return_eff r))
            (\<lambda>r s. inv q nothing_more (forget j w s) \<and> (r \<or> forget j w s = s)) (\<lambda>_. inv q nothing_more)" for r
        proof (cases r)
          case True
          have "effect_triple (inv q (unowned ?d) \<circ> forget j w) (bind_eff (remove_object ?d) (\<lambda>_. return_eff True))
              (\<lambda>r s. inv q nothing_more (forget j w s)) (\<lambda>_. inv q nothing_more)"
            by (rule bind_eff_rule [OF removed_triple], rule return_eff_rule) simp
          with True show ?thesis by (simp add: effect_triple_def bind_eff_def remove_object_def modify_eff_def return_eff_def)
        next
          case False
          then show ?thesis
            by (auto simp: effect_triple_def bind_eff_def return_eff_def intro: inv_weaken)
        qed
      qed
      have "case m s of (Inl e, s') \<Rightarrow> inv q nothing_more s'
          | (Inr r, s') \<Rightarrow> inv q nothing_more (forget j w s') \<and> (r \<or> forget j w s' = s')"
        by (rule t [unfolded effect_triple_def, rule_format, OF c])
      moreover have "installer_uninstall j w s = (case validatePackageCoordinates j w of Inl e \<Rightarrow> (Inl (LockFailed e), s) | Inr u \<Rightarrow> m s)"
        using r Some by (simp add: installer_uninstall_def bind_lift bind_the_lock m_def split: sum.split)
      ultimately show ?thesis using i' by (cases "validatePackageCoordinates j w") simp_all
    qed
  qed
  then show ?thesis unfolding effect_triple_def by (intro allI impI)
qed

text \<open>For a newcomer there is nothing to forget.\<close>

lemma newcomer_forget: "inv q (newcomer j w d) s \<Longrightarrow> inv q (candidate j w d) s \<and> inv q (unused j w) s \<and> forget j w s = s"
  by (auto simp: inv_def newcomer_def candidate_def forget_def)

lemma newcomer_triple:
  assumes "effect_triple P m (\<lambda>r s. Q (forget j w s)) (\<lambda>_. E)" and "\<And>s. inv q (newcomer j w d) s \<Longrightarrow> P s"
    and "\<And>a b. keeps (\<lambda>s. pm_previous s = a \<and> pm_resume s = b) m"
  shows "effect_triple (inv q (newcomer j w d)) m (\<lambda>_. Q) (\<lambda>_. E)"
proof (rule effect_tripleI)
  fix s r s'
  assume i: "inv q (newcomer j w d) s" and m: "m s = (Inr r, s')"
  have "Q (forget j w s')" using effect_tripleD [OF assms(1) assms(2) [OF i] m] by simp
  moreover have "pm_previous s' = pm_previous s" "pm_resume s' = pm_resume s"
    using assms(3) [of "pm_previous s" "pm_resume s", THEN keepsD, OF _ m] by simp_all
  moreover have "map_of (pm_previous s) j \<noteq> Some w" "map_of (pm_resume s) j \<noteq> Some w" using i by (auto simp: inv_def newcomer_def)
  ultimately have "Q (forget j w s')" "forget j w s' = s'" by (simp_all add: forget_def)
  then show "Q s'" by simp
next
  fix s e s'
  assume i: "inv q (newcomer j w d) s" and m: "m s = (Inl e, s')"
  show "E s'" using effect_tripleD [OF assms(1) assms(2) [OF i] m] by simp
qed

section \<open>Switching\<close>

definition switches :: "string \<Rightarrow> (plugin_entry \<times> plugin_activation) lock_op \<Rightarrow> bool" where
  "switches i f \<longleftrightarrow> (\<forall>F l e a F'. file_holds F l \<longrightarrow> f F = Inr ((e, a), F') \<longrightarrow> (\<exists>l'. file_holds F' l' \<and> switched i a l l'))"

lemma switches_ops [intro!]: "switches i (lock_activate i v)" "switches i (lock_rollback i)" "switches i (lock_disable i)"
  unfolding switches_def by (blast intro: lock_activate_switch, blast intro: lock_rollback_switch, blast intro: lock_disable_switch)

lemma map_of_set_version [simp]: "map_of (set_version i v m) = (map_of m)(i := v)"
  by (auto simp: set_version_def delete_conv' update_conv' split: option.split)

lemma distinct_set_version: "distinct (map fst m) \<Longrightarrow> distinct (map fst (set_version i v m))"
  by (simp add: set_version_def distinct_update distinct_delete split: option.split)

lemma switch_triple:
  assumes "switches i f"
  shows "effect_triple (inv q X) (switch i f) (\<lambda>_. inv q nothing_more) (\<lambda>_. inv q X)"
  unfolding effect_triple_def
proof (intro allI impI)
  fix s
  assume x: "inv q X s"
  then obtain l where l: "sound_with s l" "holds_pin q s l" by (rule invE)
  then have holds: "file_holds (pm_file s) l" by (simp add: sound_with_def)
  show "case switch i f s of (Inl e, s') \<Rightarrow> inv q X s' | (Inr r, s') \<Rightarrow> inv q nothing_more s'"
  proof (cases "f (pm_file s)")
    case (Inl e)
    with x show ?thesis by (simp add: switch_def bind_eff_def with_lock_def)
  next
    case (Inr r)
    obtain e a F where r: "r = ((e, a), F)" by (metis surj_pair)
    with assms holds Inr obtain l' where l': "file_holds F l'" "switched i a l l'" unfolding switches_def by blast
    then have k: "packages_kept l l'" by (simp add: switched_def same_packages_kept)
    let ?s = "s\<lparr>pm_file := F, pm_active := set_version i (pa_activeVersion a) (pm_active s),
      pm_previous := set_version i (pa_previousVersion a) (pm_previous s), pm_resume := set_version i (pa_resumeVersion a) (pm_resume s)\<rparr>"
    have "sound_with ?s l'"
      using l(1) l' pins_installed_kept [OF _ k, of "pm_pins s"] stored_kept [OF _ k, of "pm_objects s"]
      by (simp add: sound_with_def switched_def distinct_set_version)
    moreover have "holds_pin q ?s l'" using l(2) k by (rule holds_pin_kept) simp_all
    ultimately have "inv q nothing_more ?s" by (simp add: inv_def) blast
    then show ?thesis
      using Inr r by (simp add: switch_def bind_eff_def with_lock_def applyActivation_def modify_eff_def return_eff_def)
  qed
qed

lemma keeps_switch: "switches i f \<Longrightarrow> keeps (inv q nothing_more) (switch i f)"
  unfolding keeps_triple by (rule switch_triple)

section \<open>The operations\<close>

lemma keeps_tools:
  "stable X \<Longrightarrow> keeps (inv q X) (ensureToolRegistrations env e)" "stable X \<Longrightarrow> keeps (inv q X) (disposeToolRegistrations tools)"
  "stable X \<Longrightarrow> keeps (inv q X) (remove_states i v)" "stable X \<Longrightarrow> keeps (inv q X) (pruneToolRegistrations i)"
  unfolding ensureToolRegistrations_def disposeToolRegistrations_def remove_states_def pruneToolRegistrations_def
    validateToolRegistrations_def Let_def
  by (intro effect_rules keeps_elsewhere; simp add: elsewhere_def)+

lemma keeps_enable: "keeps (inv q nothing_more) (plugin_enable env i v)"
  unfolding plugin_enable_def exclusive_def
  by (intro effect_rules plugin_keeps keeps_verify keeps_tools keeps_switch keeps_readState keeps_requiredEntry
      stable_nothing harmless_ops switches_ops)

lemma keeps_rollback: "keeps (inv q nothing_more) (plugin_rollback env i)"
  unfolding plugin_rollback_def exclusive_def Let_def
  by (intro effect_rules plugin_keeps keeps_verify keeps_tools keeps_switch stable_nothing harmless_ops switches_ops)
    (auto split: option.split intro!: effect_rules)

lemma keeps_recordCleanupDebt: "stable X \<Longrightarrow> keeps (inv q X) (recordCleanupDebt env p)"
  unfolding recordCleanupDebt_def by (intro effect_rules plugin_keeps harmless_ops)

lemma keeps_disable: "keeps (inv q nothing_more) (plugin_disable env i expected)"
  unfolding plugin_disable_def exclusive_def
  by (intro effect_rules keeps_switch keeps_stop_each keeps_recordCleanupDebt stable_nothing switches_ops)

lemma keeps_retryCleanup: "keeps (inv q nothing_more) (retryCleanup env i v)"
  unfolding retryCleanup_def exclusive_def stopGenerationWithBudget_def
  by (intro effect_rules keeps_stop_attempts keeps_recordCleanupDebt stable_nothing)

lemma keeps_snapshots: "keeps (inv q nothing_more) (snapshotsForRun collate run)"
  unfolding snapshotsForRun_def by (intro effect_rules keeps_pinRun stable_nothing)

lemma keeps_listed: "keeps (inv q nothing_more) (listed_tool run tool)"
  unfolding listed_tool_def
  by (intro effect_rules; (split option.split)?; intro conjI impI allI effect_rules keeps_pinRun stable_nothing;
      (split option.split)?; intro conjI impI allI effect_rules)

text \<open>Releasing another run.\<close>

definition other_run :: "pin \<Rightarrow> string \<Rightarrow> bool" where
  "other_run q run \<longleftrightarrow> (case q of None \<Rightarrow> True | Some (run', rest) \<Rightarrow> run' \<noteq> run)"

lemma keeps_unpin: "other_run q run \<Longrightarrow> keeps (inv q nothing_more) (modify_eff (\<lambda>s. s\<lparr>pm_pins := AList.delete run (pm_pins s)\<rparr>))"
proof (rule keeps_modify)
  fix s
  assume q: "other_run q run" and "inv q nothing_more s"
  then obtain l where l: "sound_with s l" "holds_pin q s l" by (auto elim: invE)
  let ?s = "s\<lparr>pm_pins := AList.delete run (pm_pins s)\<rparr>"
  have "pins_installed l (AList.delete run (pm_pins s))"
    using l(1) by (auto simp: sound_with_def pins_installed_def AList.delete_eq)
  then have "sound_with ?s l" using l(1) by (simp add: sound_with_def)
  moreover have "holds_pin q ?s l"
    using l(2) q by (auto simp: holds_pin_def other_run_def delete_conv' split: option.splits)
  ultimately show "inv q nothing_more ?s" by (simp add: inv_def) blast
qed

lemma keeps_releaseRun: "other_run q run \<Longrightarrow> keeps (inv q nothing_more) (plugin_releaseRun env run)"
  unfolding plugin_releaseRun_def exclusive_def
  by (intro effect_rules; (split option.split)?; intro conjI impI allI effect_rules keeps_stop_each keeps_recordCleanupDebt
      keeps_unpin stable_nothing)

lemma keeps_then:
  "keeps (inv q X) m \<Longrightarrow> (\<And>a. effect_triple (inv q X) (f a) Q (\<lambda>_. inv q nothing_more))
    \<Longrightarrow> effect_triple (inv q X) (bind_eff m f) Q (\<lambda>_. inv q nothing_more)"
  by (rule bind_eff_rule [where Q = "\<lambda>_. inv q X"]) (auto simp: keeps_triple elim!: effect_conseq intro: inv_weaken)

lemma idle_unused:
  assumes "inv q nothing_more s" and "map_of (pm_active s) i \<noteq> Some v" and "\<not> pinned i v s"
  shows "inv q (unused i v) s"
  using assms(1)
proof (rule inv_mono)
  fix l
  assume "sound_with s l"
  then have "distinct (map fst (pm_active s))" "\<forall>(run, pins)\<in>set (pm_pins s). distinct (map fst pins)"
    by (auto simp: sound_with_def pins_installed_def)
  with assms(2,3) show "unused i v s l" by (fastforce simp: unused_def pinned_def list_ex_iff)
qed

lemma removed_rest:
  "effect_triple (\<lambda>s. inv q nothing_more (forget i v s))
     (bind_eff (modify_eff (\<lambda>s. s\<lparr>pm_generations := g s\<rparr>)) (\<lambda>_. bind_eff (remove_states i v) (\<lambda>_.
       bind_eff (modify_eff (forget i v)) (\<lambda>_. bind_eff (pruneToolRegistrations i) (\<lambda>_. return_eff True)))))
     (\<lambda>_. inv q nothing_more) (\<lambda>_. inv q nothing_more)"
proof -
  have "effect_triple (inv q nothing_more) (bind_eff (pruneToolRegistrations i) (\<lambda>_. return_eff True))
      (\<lambda>_. inv q nothing_more) (\<lambda>_. inv q nothing_more)"
    unfolding keeps_triple [symmetric] by (intro effect_rules keeps_tools stable_nothing)
  then have "effect_triple (\<lambda>s. inv q nothing_more (forget i v s))
      (bind_eff (modify_eff (forget i v)) (\<lambda>_. bind_eff (pruneToolRegistrations i) (\<lambda>_. return_eff True)))
      (\<lambda>_. inv q nothing_more) (\<lambda>_. inv q nothing_more)"
    by (rule modify_bind_rule)
  then have "effect_triple (\<lambda>s. inv q nothing_more (forget i v s)) (bind_eff (remove_states i v) (\<lambda>_.
       bind_eff (modify_eff (forget i v)) (\<lambda>_. bind_eff (pruneToolRegistrations i) (\<lambda>_. return_eff True))))
      (\<lambda>_. inv q nothing_more) (\<lambda>_. inv q nothing_more)"
    unfolding remove_states_def by (rule modify_bind_rule) (erule inv_fields; simp add: forget_def)
  then show ?thesis by (rule modify_bind_rule) (erule inv_fields; simp add: forget_def)
qed

lemma keeps_uninstall: "keeps (inv q nothing_more) (plugin_uninstall env i v)"
proof -
  let ?rest = "bind_eff (modify_eff (\<lambda>s. s\<lparr>pm_generations := AList.delete (pluginKey i v) (pm_generations s)\<rparr>)) (\<lambda>_.
    bind_eff (remove_states i v) (\<lambda>_. bind_eff (modify_eff (forget i v)) (\<lambda>_.
    bind_eff (pruneToolRegistrations i) (\<lambda>_. return_eff True))))"
  have "effect_triple (\<lambda>s. inv q nothing_more (forget i v s) \<and> (removed \<or> forget i v s = s))
      (if \<not> removed then return_eff False else ?rest) (\<lambda>_. inv q nothing_more) (\<lambda>_. inv q nothing_more)" for removed
    by (cases removed) (auto intro!: return_eff_rule intro: effect_conseq [OF removed_rest])
  from bind_eff_rule [OF installer_uninstall_triple this]
  have rest: "effect_triple (inv q (unused i v)) (bind_eff (stopGeneration env i v 0) (\<lambda>_.
      bind_eff (with_lock (lock_clearCleanupDebt i v)) (\<lambda>_.
      bind_eff (installer_uninstall i v) (\<lambda>removed. if \<not> removed then return_eff False else ?rest))))
      (\<lambda>_. inv q nothing_more) (\<lambda>_. inv q nothing_more)"
    by (rule keeps_then [OF keeps_stopGeneration [OF stable_unused]
          keeps_then [OF keeps_with_lock [OF harmless_ops(2) stable_unused]]])
  have f: "(\<lambda>s. s\<lparr>pm_previous := (if map_of (pm_previous s) i = Some v then AList.delete i (pm_previous s) else pm_previous s),
     pm_resume := (if map_of (pm_resume s) i = Some v then AList.delete i (pm_resume s) else pm_resume s)\<rparr>) = forget i v"
    by (simp add: forget_def fun_eq_iff)
  show ?thesis
    unfolding plugin_uninstall_def exclusive_def f keeps_triple
    by (intro gets_bind_rule if_eff_rule throw_eff_rule throw_if_bind_rule effect_conseq [OF rest]) (auto intro: idle_unused)
qed

text \<open>Installing, and discarding what has failed.\<close>

lemma newcomer_lock_uninstall:
  "effect_triple (inv q (newcomer j w d)) (with_lock (lock_uninstall j w)) (\<lambda>_. inv q (unowned d)) (\<lambda>_. inv q nothing_more)"
proof (rule newcomer_triple)
  show "effect_triple (inv q (candidate j w d)) (with_lock (lock_uninstall j w)) (\<lambda>r s. inv q (unowned d) (forget j w s))
      (\<lambda>_. inv q nothing_more)"
    by (rule effect_conseq [OF uninstall_triple]) (auto intro: inv_weaken)
  show "keeps (\<lambda>s. pm_previous s = a \<and> pm_resume s = b) (with_lock (lock_uninstall j w))" for a b
    by (simp add: keeps_def with_lock_def split: sum.split prod.split)
qed (simp add: newcomer_forget)

lemma newcomer_installer_uninstall:
  "effect_triple (inv q (newcomer j w d)) (installer_uninstall j w) (\<lambda>_. inv q nothing_more) (\<lambda>_. inv q nothing_more)"
proof (rule newcomer_triple)
  show "effect_triple (inv q (unused j w)) (installer_uninstall j w) (\<lambda>r s. inv q nothing_more (forget j w s))
      (\<lambda>_. inv q nothing_more)"
    by (rule effect_conseq [OF installer_uninstall_triple]) auto
  have "keeps (\<lambda>s. pm_previous s = a \<and> pm_resume s = b) (with_lock (lock_uninstall j w))" for a b
    by (simp add: keeps_def with_lock_def split: sum.split prod.split)
  moreover have "keeps (\<lambda>s. pm_previous s = a \<and> pm_resume s = b) (remove_object d)" for a b d
    by (simp add: keeps_def remove_object_def modify_eff_def)
  ultimately show "keeps (\<lambda>s. pm_previous s = a \<and> pm_resume s = b) (installer_uninstall j w)" for a b
    unfolding installer_uninstall_def by (intro effect_rules; (split option.split)?; intro conjI impI allI effect_rules)
qed (simp add: newcomer_forget)

lemma clean_triple:
  "effect_triple (inv q (unowned d)) (bind_eff (remove_object d) (\<lambda>_. remove_states i v)) (\<lambda>_. inv q nothing_more) (\<lambda>_. inv q nothing_more)"
  by (rule bind_eff_rule [OF remove_object_triple]) (simp add: keeps_triple [symmetric] keeps_tools stable_nothing)

text \<open>An operation under an invariant, with a cleanup that needs it.\<close>

lemma keeps_or_clean:
  assumes "keeps (inv q X) m" and "effect_triple (inv q X) cleanup (\<lambda>_. inv q nothing_more) (\<lambda>_. inv q nothing_more)"
  shows "effect_triple (inv q X) (on_error m cleanup) (\<lambda>_. inv q X) (\<lambda>_. inv q nothing_more)"
  using assms unfolding keeps_triple by (rule on_error_rule)

lemma keeps_exclusive: "keeps I m \<Longrightarrow> keeps I (exclusive m)"
  unfolding exclusive_def by (intro effect_rules)

lemma fresh_unowned: "inv q (fresh_dir d) s \<Longrightarrow> inv q (unowned d) s"
  by (erule inv_mono) (simp add: fresh_dir_def)

lemma keeps_install: "keeps (inv q nothing_more) (plugin_install env package grant)"
proof -
  have verified: "effect_triple (inv q (newcomer (pe_id e) (pe_version e) d)) (on_error
       (bind_eff (writeState env (pe_id e) (pe_version e) (JObj [])) (\<lambda>sd.
        bind_eff (verify env e (JObj [])) (\<lambda>_.
          with_lock (lock_recordVerification (pe_id e) (pe_version e) (pv_now env) (Some sd) (Some True) False))))
       (bind_eff (with_lock (lock_uninstall (pe_id e) (pe_version e))) (\<lambda>_. bind_eff (remove_object d) (\<lambda>_. remove_states i v))))
     (\<lambda>_. inv q nothing_more) (\<lambda>_. inv q nothing_more)" for e d i v
    by (rule effect_conseq [OF keeps_or_clean [OF _ bind_eff_rule [OF newcomer_lock_uninstall clean_triple]]])
      (intro effect_rules plugin_keeps keeps_verify stable_newcomer harmless_ops, auto intro: inv_weaken)
  have locked: "effect_triple (inv q (fresh_dir d)) (on_error (with_lock (lock_install now d d m grant))
      (bind_eff (remove_object d) (\<lambda>_. remove_states i v)))
      (\<lambda>e. inv q (newcomer (pe_id e) (pe_version e) d)) (\<lambda>_. inv q nothing_more)" for now d m i v
    by (rule on_error_rule [OF install_triple effect_conseq [OF clean_triple]]) (auto intro: fresh_unowned)
  have "effect_triple (inv q (fresh_dir (snd r))) (case r of (m, d) \<Rightarrow>
      let clean = bind_eff (remove_object d) (\<lambda>_. remove_states (pf_id m) (pf_version m)) in
      bind_eff (on_error (with_lock (lock_install (pv_now env) d d m grant)) clean) (\<lambda>e.
       on_error
       (bind_eff (writeState env (pe_id e) (pe_version e) (JObj [])) (\<lambda>sd.
        bind_eff (verify env e (JObj [])) (\<lambda>_.
          with_lock (lock_recordVerification (pe_id e) (pe_version e) (pv_now env) (Some sd) (Some True) False))))
       (bind_eff (with_lock (lock_uninstall (pe_id e) (pe_version e))) (\<lambda>_. clean))))
     (\<lambda>_. inv q nothing_more) (\<lambda>_. inv q nothing_more)" for r
    by (cases r) (simp add: Let_def bind_eff_rule [OF locked verified])
  from bind_eff_rule [OF stage_triple this] show ?thesis
    unfolding plugin_install_def by (intro keeps_exclusive) (simp only: keeps_triple)
qed

lemma discard_triple:
  "effect_triple (inv q (newcomer (pe_id c) (pe_version c) d)) (discard_candidate env c created)
     (\<lambda>_. inv q nothing_more) (\<lambda>_. inv q nothing_more)"
proof -
  have rest: "keeps (inv q nothing_more) (bind_eff (modify_eff (\<lambda>s. s\<lparr>pm_generations := AList.delete k (pm_generations s)\<rparr>)) (\<lambda>_.
      bind_eff (remove_states (pe_id c) (pe_version c)) (\<lambda>_. pruneToolRegistrations (pe_id c))))" for k
    by (intro effect_rules keeps_tools keeps_elsewhere stable_nothing) (simp add: elsewhere_def)
  show ?thesis
    unfolding discard_candidate_def
    by (intro keeps_then [OF keeps_tools(2) [OF stable_newcomer]] gets_bind_rule if_eff_rule return_eff_rule
        effect_conseq [OF keeps_then [OF keeps_attempt [OF keeps_stopGeneration [OF stable_newcomer]]
          bind_eff_rule [OF newcomer_installer_uninstall rest [unfolded keeps_triple]]]])
      (auto intro: inv_weaken)
qed

lemma keeps_upgrade: "keeps (inv q nothing_more) (plugin_upgrade env i package grant)"
proof -
  have activated: "effect_triple (inv q (newcomer (pe_id c) (pe_version c) d))
      (bind_eff (on_error (switch (pe_id c) (lock_activate (pe_id c) (pe_version c))) (discard_candidate env c created)) (\<lambda>e. return_eff (e, w)))
      (\<lambda>_. inv q nothing_more) (\<lambda>_. inv q nothing_more)" for c d created w
    by (rule bind_eff_rule [OF on_error_rule [OF switch_triple [OF switches_ops(1)] discard_triple]]) (rule return_eff_rule)
  have prepared: "effect_triple (inv q (newcomer (pe_id c) (pe_version c) d)) (on_error
         (bind_eff (readState previous) (\<lambda>state.
          bind_eff (migrate env c previous state) (\<lambda>(migrated, undoable).
          bind_eff (writeState env (pe_id c) (pe_version c) migrated) (\<lambda>d.
          bind_eff (verify env c migrated) (\<lambda>_.
          bind_eff (with_lock (lock_recordVerification (pe_id c) (pe_version c) (pv_now env) (Some d) (Some undoable) True)) (\<lambda>c'.
            ensureToolRegistrations env c'))))))
         (discard_candidate env c []))
      (\<lambda>_. inv q (newcomer (pe_id c) (pe_version c) d)) (\<lambda>_. inv q nothing_more)" for c d previous
    unfolding case_prod_beta
    by (rule keeps_or_clean [OF _ discard_triple])
      (intro effect_rules keeps_readState keeps_migrate plugin_keeps keeps_verify keeps_tools stable_newcomer harmless_ops)
  have locked: "effect_triple (inv q (fresh_dir d)) (on_error
         (bind_eff (throw_if_eff (pf_id m \<noteq> i) (IdentityMismatch i)) (\<lambda>_.
          bind_eff (throw_if_eff (pf_version m = w) NewVersionRequired) (\<lambda>_.
            with_lock (lock_install (pv_now env) d d m grant))))
         (remove_object d))
      (\<lambda>e. inv q (newcomer (pe_id e) (pe_version e) d)) (\<lambda>_. inv q nothing_more)" for m d w
    by (rule on_error_rule [OF throw_if_bind_rule [OF _ throw_if_bind_rule [OF _ install_triple]] effect_conseq [OF remove_object_triple]])
      (auto intro: fresh_unowned)
  have "effect_triple (inv q (fresh_dir (snd r))) (case r of (m, d) \<Rightarrow> bind_eff (on_error
         (bind_eff (throw_if_eff (pf_id m \<noteq> i) (IdentityMismatch i)) (\<lambda>_.
          bind_eff (throw_if_eff (pf_version m = w) NewVersionRequired) (\<lambda>_.
            with_lock (lock_install (pv_now env) d d m grant))))
         (remove_object d)) (\<lambda>c.
     bind_eff (on_error
         (bind_eff (readState previous) (\<lambda>state.
          bind_eff (migrate env c previous state) (\<lambda>(migrated, undoable).
          bind_eff (writeState env (pe_id c) (pe_version c) migrated) (\<lambda>d.
          bind_eff (verify env c migrated) (\<lambda>_.
          bind_eff (with_lock (lock_recordVerification (pe_id c) (pe_version c) (pv_now env) (Some d) (Some undoable) True)) (\<lambda>c'.
            ensureToolRegistrations env c'))))))
         (discard_candidate env c [])) (\<lambda>created.
     bind_eff (on_error (switch (pe_id c) (lock_activate (pe_id c) (pe_version c))) (discard_candidate env c created)) (\<lambda>e.
       return_eff (e, w)))))
      (\<lambda>_. inv q nothing_more) (\<lambda>_. inv q nothing_more)" for r previous w
    by (cases r) (simp add: bind_eff_rule [OF locked bind_eff_rule [OF prepared activated]])
  note staged = keeps_triple [THEN iffD2, OF bind_eff_rule [OF stage_triple this]]
  show ?thesis
    unfolding plugin_upgrade_def
    by (rule keeps_exclusive, rule keeps_bind [OF keeps_gets], rule keeps_bind [OF keeps_lift],
        rule keeps_bind [OF keeps_requiredEntry], rule staged)
qed

end
