(* ===== verification/PluginGuarantees.thy ===== *)
theory PluginGuarantees
  imports PluginProperties
begin

text \<open>
  The guarantees of the plugin lifecycle over whole histories: calls in any order, with whatever happens while they
  wait, and restarts.
\<close>

section \<open>Histories\<close>

datatype plugin_call =
    CallInstall plugin_env "(plugin_manifest \<times> string) option" permission_grant
  | CallEnable plugin_env string string
  | CallUpgrade plugin_env string "(plugin_manifest \<times> string) option" permission_grant
  | CallRollback plugin_env string
  | CallDisable plugin_env string "string option"
  | CallUninstall plugin_env string string
  | CallRelease plugin_env string
  | CallRetry plugin_env string string
  | CallSnapshots "string \<Rightarrow> nat" string
  | CallListed string string
  | CallMeanwhile plugin_env meanwhile

fun perform :: "plugin_call \<Rightarrow> plugin_manager \<Rightarrow> plugin_manager" where
  "perform (CallInstall env package grant) s = snd (plugin_install env package grant s)"
| "perform (CallEnable env i v) s = snd (plugin_enable env i v s)"
| "perform (CallUpgrade env i package grant) s = snd (plugin_upgrade env i package grant s)"
| "perform (CallRollback env i) s = snd (plugin_rollback env i s)"
| "perform (CallDisable env i expected) s = snd (plugin_disable env i expected s)"
| "perform (CallUninstall env i v) s = snd (plugin_uninstall env i v s)"
| "perform (CallRelease env run) s = snd (plugin_releaseRun env run s)"
| "perform (CallRetry env i v) s = snd (retryCleanup env i v s)"
| "perform (CallSnapshots collate run) s = snd (snapshotsForRun collate run s)"
| "perform (CallListed run tool) s = snd (listed_tool run tool s)"
| "perform (CallMeanwhile env x) s = snd (happen env x s)"

definition releases :: "string \<Rightarrow> plugin_call \<Rightarrow> bool" where
  "releases run c \<longleftrightarrow> (case c of CallRelease env run' \<Rightarrow> run' = run | _ \<Rightarrow> False)"

definition pin_respected :: "pin \<Rightarrow> plugin_call \<Rightarrow> bool" where
  "pin_respected q c \<longleftrightarrow> (case q of None \<Rightarrow> True | Some (run, rest) \<Rightarrow> \<not> releases run c)"

lemma keeps_happen: "stable X \<Longrightarrow> keeps (inv q X) (happen env x)"
  by (cases x) (auto simp: happen_def intro!: effect_rules keeps_attempt keeps_pinRun keeps_call_tool keeps_stop_begin keeps_stop_end)

lemma perform_keeps:
  assumes "pin_respected q c" and "inv q nothing_more s" shows "inv q nothing_more (perform c s)"
proof -
  have "keeps (inv q nothing_more) m \<Longrightarrow> inv q nothing_more (snd (m s))" for m :: "'a plugin_op"
    using assms(2) by (simp add: keeps_def)
  then show ?thesis
  proof (cases c)
    case (CallRelease env run)
    then have "other_run q run" using assms(1) by (auto simp: pin_respected_def releases_def other_run_def split: option.splits)
    from keeps_releaseRun [OF this] CallRelease assms(2) show ?thesis by (simp add: keeps_def)
  qed (use assms(2) keeps_install [of q] keeps_enable [of q] keeps_upgrade [of q] keeps_rollback [of q] keeps_disable [of q]
      keeps_uninstall [of q] keeps_retryCleanup [of q] keeps_snapshots [of q] keeps_listed [of q]
      keeps_happen [OF stable_nothing, of q] in \<open>simp_all add: keeps_def\<close>)
qed

lemma history_keeps:
  "list_all (pin_respected q) cs \<Longrightarrow> inv q nothing_more s \<Longrightarrow> inv q nothing_more (fold perform cs s)"
  by (induction cs arbitrary: s) (auto intro: perform_keeps)

section \<open>Restarts\<close>

text \<open>What a process leaves on disk.\<close>

definition on_disk :: "(string \<Rightarrow> string option) \<Rightarrow> (string \<Rightarrow> string option) \<Rightarrow> plugin_manager \<Rightarrow> bool" where
  "on_disk active resume s \<longleftrightarrow> (\<exists>l. file_holds (pm_file s) l \<and> stored l (pm_objects s) \<and> active_at l = active \<and> resume_at l = resume
     \<and> pm_pins s = [])"

lemma keeps_disk_lock: "harmless f \<Longrightarrow> keeps (on_disk A R) (with_lock f)"
  unfolding keeps_def
proof (intro allI impI)
  fix s
  assume h: "harmless f" and d: "on_disk A R s"
  then obtain l where l: "file_holds (pm_file s) l" "stored l (pm_objects s)" "active_at l = A" "resume_at l = R" "pm_pins s = []"
    by (auto simp: on_disk_def)
  show "on_disk A R (snd (with_lock f s))"
  proof (cases "f (pm_file s)")
    case (Inr r)
    obtain a F where r: "r = (a, F)" by fastforce
    with h l(1) Inr obtain l' where "file_holds F l'" "same_versions l l'" "packages_kept l l'" unfolding harmless_def by blast
    with l stored_kept [OF l(2) this(3)] have "on_disk A R (s\<lparr>pm_file := F\<rparr>)" by (auto simp: on_disk_def same_versions_def)
    with Inr r show ?thesis by (simp add: with_lock_def)
  qed (use d in \<open>simp add: with_lock_def\<close>)
qed

lemma keeps_disk_elsewhere: "elsewhere f \<Longrightarrow> keeps (on_disk A R) (modify_eff f)"
  by (rule keeps_modify) (simp add: on_disk_def elsewhere_def)

lemma bind_with_lock:
  "f (pm_file s) = Inl e \<Longrightarrow> bind_eff (with_lock f) g s = (Inl (LockFailed e), s)"
  "f (pm_file s) = Inr (a, F) \<Longrightarrow> bind_eff (with_lock f) g s = g a (s\<lparr>pm_file := F\<rparr>)"
  by (simp_all add: bind_eff_def with_lock_def)

lemma bind_modify: "bind_eff (modify_eff h) g s = g () (h s)"
  by (simp add: bind_eff_def modify_eff_def)

lemma keeps_disk_uninstall:
  assumes "R j \<noteq> Some w" shows "keeps (on_disk A R) (installer_uninstall j w)"
  unfolding keeps_def
proof (intro allI impI)
  fix s
  assume d: "on_disk A R s"
  then obtain l where l: "file_holds (pm_file s) l" "stored l (pm_objects s)" "active_at l = A" "resume_at l = R" "pm_pins s = []"
    by (auto simp: on_disk_def)
  then have r: "read_lock (pm_file s) = Inr l" by (simp add: file_holds_def)
  show "on_disk A R (snd (installer_uninstall j w s))"
  proof (cases "validatePackageCoordinates j w")
    case (Inr u)
    show ?thesis
    proof (cases "map_of (ol_plugins l) (pluginKey j w)")
      case (Some e)
      show ?thesis
      proof (cases "lock_uninstall j w (pm_file s)")
        case Inl
        with Some d Inr r show ?thesis by (simp add: installer_uninstall_def bind_lift bind_the_lock bind_with_lock)
      next
        case op: (Inr x)
        obtain removed F where x: "x = (removed, F)" by fastforce
        note effect = lock_uninstall_effect [OF l(1) op [unfolded x]]
        with Some have removed by (cases removed) (auto simp: entry_at_def)
        with effect assms l(3,4) obtain l' where l': "file_holds F l'" "active_at l' = A" "resume_at l' = R"
            "\<forall>i v. entry_at l' i v = (if i = j \<and> v = w then None else entry_at l i v)" by auto
        have e: "entry_at l j w = Some e" using Some by (simp add: entry_at_def)
        have "pe_source y \<noteq> pe_source e" if "entry_at l' i v = Some y" for i v y
          using that e l(2) l'(4) unfolding stored_def by (auto split: if_splits)
        then have "stored l' (removeAll (pe_source e) (pm_objects s))"
          using l(2) l'(4) unfolding stored_def by (auto split: if_splits)
        with l' l(5) have "on_disk A R (s\<lparr>pm_file := F, pm_objects := removeAll (pe_source e) (pm_objects s)\<rparr>)"
          unfolding on_disk_def by auto
        with Some Inr r op x \<open>removed\<close> show ?thesis
          by (simp add: installer_uninstall_def bind_lift bind_the_lock bind_with_lock remove_object_def bind_modify return_eff_def)
      qed
    qed (use d Inr r in \<open>simp add: installer_uninstall_def bind_lift bind_the_lock return_eff_def\<close>)
  qed (use d in \<open>simp add: installer_uninstall_def bind_lift\<close>)
qed

lemma keeps_disk_each:
  "(\<And>x. x \<in> set xs \<Longrightarrow> keeps (on_disk A R) (f x)) \<Longrightarrow> keeps (on_disk A R) (each_eff f xs)"
  by (induction xs) (auto intro: effect_rules)

lemma keeps_disk_interrupted: "keeps (on_disk A R) reconcileInterruptedInstalls"
  unfolding keeps_def
proof (intro allI impI)
  fix s
  assume d: "on_disk A R s"
  then obtain l where l: "file_holds (pm_file s) l" "resume_at l = R" by (auto simp: on_disk_def)
  then have r: "read_lock (pm_file s) = Inr l" and v: "lock_valid l" and k: "keys_once l" by (simp_all add: file_holds_def)
  have idle: "R (pe_id e) \<noteq> Some (pe_version e)" if "e \<in> set (filter incomplete (map snd (ol_plugins l)))" for e
  proof
    assume "R (pe_id e) = Some (pe_version e)"
    then obtain e' where e': "entry_at l (pe_id e) (pe_version e) = Some e'" "\<not> incomplete e'"
      using resume_entry [OF v, of "pe_id e" "pe_version e"] l(2) by auto
    from that obtain key where key: "(key, e) \<in> set (ol_plugins l)" "incomplete e" by auto
    with v have "entry_ok key e" by (auto simp: lock_valid_def)
    with key k have "entry_at l (pe_id e) (pe_version e) = Some e" by (simp add: entry_at_def entry_ok_def keys_once_def)
    with e' key show False by simp
  qed
  have "keeps (on_disk A R) (each_eff (\<lambda>e. bind_eff (installer_uninstall (pe_id e) (pe_version e))
      (\<lambda>_. remove_states (pe_id e) (pe_version e))) (filter incomplete (map snd (ol_plugins l))))"
    by (intro keeps_disk_each keeps_bind keeps_disk_uninstall idle) (auto simp: remove_states_def elsewhere_def intro!: keeps_disk_elsewhere)
  with d r show "on_disk A R (snd (reconcileInterruptedInstalls s))"
    by (simp add: reconcileInterruptedInstalls_def bind_the_lock keeps_def)
qed

lemma keeps_disk_orphans: "keeps (on_disk A R) reconcileOrphans"
  unfolding keeps_def
proof (intro allI impI)
  fix s
  assume d: "on_disk A R s"
  then obtain l where l: "file_holds (pm_file s) l" "stored l (pm_objects s)" "active_at l = A" "resume_at l = R" "pm_pins s = []"
    by (auto simp: on_disk_def)
  then have r: "read_lock (pm_file s) = Inr l" "keys_once l" by (simp_all add: file_holds_def)
  have "pe_source e \<in> set (referenced l)" if "entry_at l i v = Some e" for i v e
    using entry_in_list [OF r(2) that] by (force simp: referenced_def)
  with l(2) have "stored l (filter (\<lambda>x. x \<in> set (referenced l)) (pm_objects s))" by (auto simp: stored_def)
  with l r show "on_disk A R (snd (reconcileOrphans s))"
    by (auto simp: reconcileOrphans_def bind_the_lock modify_eff_def on_disk_def)
qed

lemma versions_of_map:
  assumes "distinct (map fst (ol_activations l))"
  shows "map_of (versions_of f l) i = Option.bind (map_of (ol_activations l) i) f" "distinct (map fst (versions_of f l))"
proof -
  have sub: "set (map fst (List.map_filter (\<lambda>(i, a). map_option (Pair i) (f a)) acts)) \<subseteq> set (map fst acts)" for acts
    by (induction acts) (auto simp: List.map_filter_simps split: option.splits)
  have "distinct (map fst acts) \<Longrightarrow> map_of (List.map_filter (\<lambda>(i, a). map_option (Pair i) (f a)) acts) i = Option.bind (map_of acts i) f
      \<and> distinct (map fst (List.map_filter (\<lambda>(i, a). map_option (Pair i) (f a)) acts))" for acts
  proof (induction acts)
    case (Cons p acts)
    obtain j a where p: "p = (j, a)" by fastforce
    have "j \<notin> set (map fst acts)" using Cons.prems p by simp
    with sub [of acts] have "j \<notin> set (map fst (List.map_filter (\<lambda>(i, a). map_option (Pair i) (f a)) acts))" by blast
    moreover from this have "map_of (List.map_filter (\<lambda>(i, a). map_option (Pair i) (f a)) acts) j = None" by (simp add: map_of_eq_None_iff)
    ultimately show ?case using Cons p by (auto simp: List.map_filter_simps split: option.splits)
  qed (simp add: List.map_filter_simps)
  from this [OF assms] show "map_of (versions_of f l) i = Option.bind (map_of (ol_activations l) i) f" "distinct (map fst (versions_of f l))"
    by (simp_all add: versions_of_def)
qed

definition restored :: "(string \<Rightarrow> string option) \<Rightarrow> (string \<Rightarrow> string option) \<Rightarrow> plugin_manager \<Rightarrow> bool" where
  "restored A R s \<longleftrightarrow> plugin_sound s \<and> map_of (pm_active s) = A \<and> map_of (pm_resume s) = R"

lemma keeps_restored_tools: "keeps (restored A R) (ensureToolRegistrations env e)"
  unfolding ensureToolRegistrations_def validateToolRegistrations_def Let_def
  by (intro effect_rules keeps_modify) (auto simp: restored_def plugin_sound_def sound_with_def)

lemma disk_loaded:
  assumes "on_disk A R s" and "read_lock (pm_file s) = Inr l"
  shows "restored A R (s\<lparr>pm_active := versions_of pa_activeVersion l, pm_previous := versions_of pa_previousVersion l,
    pm_resume := versions_of pa_resumeVersion l\<rparr>)"
proof -
  from assms have l: "file_holds (pm_file s) l" "stored l (pm_objects s)" "active_at l = A" "resume_at l = R" "pm_pins s = []"
    by (auto simp: on_disk_def file_holds_def)
  then have d: "distinct (map fst (ol_activations l))" by (simp add: file_holds_def keys_once_def)
  have "map_of (versions_of pa_activeVersion l) = active_at l" "map_of (versions_of pa_previousVersion l) = previous_at l"
    "map_of (versions_of pa_resumeVersion l) = resume_at l"
    by (auto simp: fun_eq_iff versions_of_map [OF d] version_views activation_of_def split: option.split)
  with l versions_of_map(2) [OF d, of pa_activeVersion] show ?thesis
    by (auto simp: restored_def plugin_sound_def sound_with_def pins_installed_def)
qed

lemma load_triple: "effect_triple (on_disk A R) (loadActiveGenerations env) (\<lambda>_. restored A R) (\<lambda>_ _. True)"
  unfolding effect_triple_def
proof (intro allI impI)
  fix s
  assume d: "on_disk A R s"
  then obtain l where r: "read_lock (pm_file s) = Inr l" by (auto simp: on_disk_def file_holds_def)
  let ?s = "s\<lparr>pm_active := versions_of pa_activeVersion l, pm_previous := versions_of pa_previousVersion l,
    pm_resume := versions_of pa_resumeVersion l\<rparr>"
  let ?m = "bind_eff (lift_eff (entries_for (ol_plugins l) (versions_of pa_activeVersion l))) (\<lambda>entries.
     bind_eff (each_eff (\<lambda>e. throw_if_eff (\<not> pv_inspect env e) (InspectFailed (pluginKey (pe_id e) (pe_version e)))) entries) (\<lambda>_.
     bind_eff (validateToolRegistrations env entries) (\<lambda>_.
       each_eff (\<lambda>e. bind_eff (ensureToolRegistrations env e) (\<lambda>_. return_eff ())) entries)))"
  have "keeps (restored A R) ?m"
    unfolding validateToolRegistrations_def by (intro effect_rules keeps_restored_tools)
  with disk_loaded [OF d r] have "restored A R (snd (?m ?s))" by (simp add: keeps_def)
  moreover have "loadActiveGenerations env s = ?m ?s"
    using r by (simp add: loadActiveGenerations_def bind_the_lock bind_modify)
  ultimately show "case loadActiveGenerations env s of (Inl e, s') \<Rightarrow> True | (Inr a, s') \<Rightarrow> restored A R s'"
    by (cases "?m ?s") (auto split: sum.split)
qed

lemma create_restores:
  assumes "plugin_sound s" and "plugin_create env s = (Inr u, s')"
  shows "restored (map_of (pm_active s)) (map_of (pm_resume s)) s'"
proof -
  let ?A = "map_of (pm_active s)" and ?R = "map_of (pm_resume s)"
  let ?s = "s\<lparr>pm_active := [], pm_previous := [], pm_resume := [], pm_generations := [], pm_tools := [],
       pm_pins := [], pm_stopped := False, pm_stopping := []\<rparr>"
  have d: "on_disk ?A ?R ?s" using assms(1) by (auto simp: on_disk_def plugin_sound_def sound_with_def)
  have before: "keeps (on_disk ?A ?R) (with_lock lock_clearAllCleanupDebts)" "keeps (on_disk ?A ?R) reconcileInterruptedInstalls"
    "keeps (on_disk ?A ?R) reconcileOrphans" "keeps (on_disk ?A ?R) reconcileStateSnapshots"
    by (rule keeps_disk_lock [OF harmless_ops(3)], rule keeps_disk_interrupted, rule keeps_disk_orphans)
      (auto simp: reconcileStateSnapshots_def elsewhere_def intro!: effect_rules keeps_disk_elsewhere)
  have t: "effect_triple (on_disk ?A ?R) m (\<lambda>_. on_disk ?A ?R) (\<lambda>_ _. True)" if "keeps (on_disk ?A ?R) m" for m :: "'a plugin_op"
    by (rule effect_conseq [OF that [unfolded keeps_triple]]) simp_all
  have "effect_triple (on_disk ?A ?R) (bind_eff (with_lock lock_clearAllCleanupDebts) (\<lambda>_. bind_eff reconcileInterruptedInstalls (\<lambda>_.
      bind_eff reconcileOrphans (\<lambda>_. bind_eff reconcileStateSnapshots (\<lambda>_. loadActiveGenerations env)))))
      (\<lambda>_. restored ?A ?R) (\<lambda>_ _. True)"
    by (intro bind_eff_rule [OF t [OF before(1)]] bind_eff_rule [OF t [OF before(2)]] bind_eff_rule [OF t [OF before(3)]]
        bind_eff_rule [OF t [OF before(4)]] load_triple)
  from effect_tripleD [OF this d] assms(2) show ?thesis by (simp add: plugin_create_def bind_modify)
qed

definition fresh_manager :: plugin_manager where
  "fresh_manager = \<lparr>pm_file = None, pm_objects = [], pm_states = [], pm_active = [], pm_previous = [], pm_resume = [],
     pm_generations = [], pm_tools = [], pm_pins = [], pm_stopped = False, pm_stopping = []\<rparr>"

inductive plugin_reachable :: "plugin_manager \<Rightarrow> bool" where
  Fresh: "plugin_reachable fresh_manager"
| Call: "plugin_reachable s \<Longrightarrow> plugin_reachable (perform c s)"
| Restart: "plugin_reachable s \<Longrightarrow> plugin_create env s = (Inr (), s') \<Longrightarrow> plugin_reachable s'"

lemma sound_inv: "plugin_sound s \<longleftrightarrow> inv None nothing_more s"
  by (simp add: plugin_sound_def inv_def holds_pin_def)

lemma reachable_sound: "plugin_reachable s \<Longrightarrow> plugin_sound s"
proof (induction rule: plugin_reachable.induct)
  case Fresh
  have "sound_with fresh_manager \<lparr>ol_plugins = [], ol_activations = [], ol_debts = []\<rparr>"
    using empty_holds by (auto simp: sound_with_def fresh_manager_def version_views activation_of_def stored_def pins_installed_def entry_at_def)
  then show ?case by (auto simp: plugin_sound_def)
next
  case (Call s c)
  then show ?case using perform_keeps [of None c s] by (simp add: sound_inv pin_respected_def)
next
  case (Restart s env s')
  then show ?case using create_restores [of s env "()" s'] by (simp add: restored_def)
qed

section \<open>What a run sees\<close>

definition generation :: "plugin_entry \<Rightarrow> string \<times> string \<times> string \<times> string \<times> plugin_trust \<times> plugin_permissions" where
  "generation e = (pe_id e, pe_version e, package_of e)"

definition pins_key :: "(string \<Rightarrow> nat) \<Rightarrow> string \<times> string \<times> string \<times> string \<times> plugin_trust \<times> plugin_permissions \<Rightarrow> nat" where
  "pins_key collate g = collate (pluginKey (fst g) (fst (snd g)))"

lemma map_insort_key: "map h (insort_key (k \<circ> h) x xs) = insort_key k (h x) (map h xs)"
  by (induction xs) auto

lemma map_sort_key: "map h (sort_key (k \<circ> h) xs) = sort_key k (map h xs)"
  by (induction xs) (simp_all add: map_insort_key [unfolded comp_def] comp_def)

lemma snapshots_of_pins:
  assumes "file_holds (pm_file s) l" and "\<not> pm_stopped s" and "map_of (pm_pins s) run = Some pins"
    and "\<forall>(i, v)\<in>set pins. map_option package_of (entry_at l i v) = Some (package i v)"
  shows "\<exists>es. snapshotsForRun collate run s = (Inr es, s) \<and> set es \<subseteq> {e. \<exists>i v. entry_at l i v = Some e}
    \<and> map generation es = sort_key (pins_key collate) (map (\<lambda>(i, v). (i, v, package i v)) pins)"
proof (intro exI conjI)
  let ?found = "List.map_filter (\<lambda>(i, v). map_of (ol_plugins l) (pluginKey i v)) pins"
  let ?es = "sort_key (\<lambda>e. collate (pluginKey (pe_id e) (pe_version e))) ?found"
  have valid: "lock_valid l" and r: "read_lock (pm_file s) = Inr l" using assms(1) by (simp_all add: file_holds_def)
  have "\<not> list_ex (\<lambda>(i, v). map_of (ol_plugins l) (pluginKey i v) = None) pins"
    using assms(4) by (auto simp: list_ex_iff entry_at_def)
  then show "snapshotsForRun collate run s = (Inr ?es, s)"
    using assms(2,3) r
    by (simp add: snapshotsForRun_def bind_eff_def gets_eff_def throw_if_eff_def lift_eff_def throw_if_def pinRun_def the_lock_def)
  show "set ?es \<subseteq> {e. \<exists>i v. entry_at l i v = Some e}"
    by (auto simp: List.map_filter_def entry_at_def) blast
  have "map generation ?found = map (\<lambda>(i, v). (i, v, package i v)) pins"
    using assms(4)
  proof (induction pins)
    case (Cons p pins)
    obtain i v where p: "p = (i, v)" by fastforce
    obtain e where e: "map_of (ol_plugins l) (pluginKey i v) = Some e" "package_of e = package i v"
      using Cons.prems p by (auto simp: entry_at_def)
    with entry_key [OF valid e(1)] Cons p show ?case by (simp add: List.map_filter_simps generation_def)
  qed (simp add: List.map_filter_simps)
  moreover have "(\<lambda>e. collate (pluginKey (pe_id e) (pe_version e))) = pins_key collate \<circ> generation"
    by (simp add: fun_eq_iff pins_key_def generation_def)
  ultimately show "map generation ?es = sort_key (pins_key collate) (map (\<lambda>(i, v). (i, v, package i v)) pins)"
    by (simp add: map_sort_key)
qed

lemma snapshots_pin:
  assumes "snapshotsForRun collate run s = (Inr es, s')"
  shows "\<exists>pins. map_of (pm_pins s') run = Some pins \<and> \<not> pm_stopped s'
    \<and> (\<exists>l. read_lock (pm_file s') = Inr l \<and> (\<forall>(i, v)\<in>set pins. entry_at l i v \<noteq> None))"
  using assms
  by (auto simp: snapshotsForRun_def bind_eff_def gets_eff_def throw_if_eff_def lift_eff_def throw_if_def pinRun_def the_lock_def
      entry_at_def list_ex_iff map_add_def split: if_splits option.splits sum.splits)

text \<open>C34: Whatever is installed, enabled, upgraded, rolled back, disabled, removed or retried, and whatever happens while these wait:
  until a run is released or everything is stopped, \<open>snapshotsForRun\<close> answers it with the same generations (versions,
  digests, trust and permissions) and the packages of these are in the directory.\<close>

theorem pinned_generations_stay:
  assumes "plugin_reachable s" and "snapshotsForRun collate run s = (Inr es, s1)" and "list_all (\<lambda>c. \<not> releases run c) cs"
    and "s2 = fold perform cs s1" and "\<not> pm_stopped s2"
  shows "\<exists>es'. snapshotsForRun collate run s2 = (Inr es', s2) \<and> map generation es' = map generation es
    \<and> (\<forall>e\<in>set es'. pe_source e \<in> set (pm_objects s2))"
proof -
  obtain pins l1 where run1: "map_of (pm_pins s1) run = Some pins" "\<not> pm_stopped s1" "read_lock (pm_file s1) = Inr l1"
      "\<forall>(i, v)\<in>set pins. entry_at l1 i v \<noteq> None"
    using snapshots_pin [OF assms(2)] by blast
  define package where "package i v = package_of (the (entry_at l1 i v))" for i v
  have "inv None nothing_more s1"
    using keepsD [OF keeps_snapshots _ assms(2)] reachable_sound [OF assms(1)] by (simp add: sound_inv)
  then have sound1: "sound_with s1 l1" using run1(3) by (auto simp: inv_def sound_with_def file_holds_def)
  have pinned1: "\<forall>(i, v)\<in>set pins. map_option package_of (entry_at l1 i v) = Some (package i v)"
    using run1(4) by (auto simp: package_def)
  have "snapshotsForRun collate run s1 = (Inr es, s1)"
    using assms(2) run1
    by (auto simp: snapshotsForRun_def bind_eff_def gets_eff_def throw_if_eff_def lift_eff_def throw_if_def pinRun_def the_lock_def
        map_add_def split: if_splits option.splits sum.splits)
  moreover from snapshots_of_pins [OF _ run1(2,1) pinned1, of collate] sound1 obtain es1 where
      "snapshotsForRun collate run s1 = (Inr es1, s1)"
      "map generation es1 = sort_key (pins_key collate) (map (\<lambda>(i, v). (i, v, package i v)) pins)"
    by (auto simp: sound_with_def)
  ultimately have es: "map generation es = sort_key (pins_key collate) (map (\<lambda>(i, v). (i, v, package i v)) pins)" by simp
  have "inv (Some (run, pins, package)) nothing_more s1"
    using sound1 run1(1) pinned1 by (auto simp: inv_def holds_pin_def)
  moreover have "list_all (pin_respected (Some (run, pins, package))) cs"
    using assms(3) by (simp add: pin_respected_def list_all_iff)
  ultimately have "inv (Some (run, pins, package)) nothing_more s2" by (simp add: history_keeps assms(4))
  then obtain l2 where l2: "sound_with s2 l2" "map_of (pm_pins s2) run = Some pins"
      "\<forall>(i, v)\<in>set pins. map_option package_of (entry_at l2 i v) = Some (package i v)"
    using assms(5) by (auto simp: inv_def holds_pin_def)
  from snapshots_of_pins [OF _ assms(5) l2(2,3), of collate] l2(1) obtain es2 where es2:
      "snapshotsForRun collate run s2 = (Inr es2, s2)" "set es2 \<subseteq> {e. \<exists>i v. entry_at l2 i v = Some e}"
      "map generation es2 = sort_key (pins_key collate) (map (\<lambda>(i, v). (i, v, package i v)) pins)"
    by (auto simp: sound_with_def)
  have "pe_source e \<in> set (pm_objects s2)" if "e \<in> set es2" for e
    using that es2(2) l2(1) by (auto simp: sound_with_def stored_def)
  with es es2 show ?thesis by auto
qed

text \<open>C35: A process that starts on the directory another one left, at any point between two operations, has the same
  versions active, and those to resume, as that one had.\<close>

theorem restart_restores_versions:
  assumes "plugin_reachable s" and "plugin_create env s = (Inr (), s')"
  shows "map_of (pm_active s') = map_of (pm_active s) \<and> map_of (pm_resume s') = map_of (pm_resume s)"
  using create_restores [OF reachable_sound [OF assms(1)] assms(2)] by (simp add: restored_def)

section \<open>Histories of the lock file\<close>

datatype lock_call =
    LockInstall timestamp string string plugin_manifest permission_grant
  | LockSetEnabled string string bool
  | LockActivate string string
  | LockDisable string
  | LockRollback string
  | LockRecordVerification string string timestamp "string option" "bool option" bool
  | LockRecordDebt timestamp string string int string
  | LockClearDebt string string
  | LockClearAll
  | LockUninstall string string

text \<open>An operation that throws has not written.\<close>

definition written_by :: "lock_file \<Rightarrow> lock_error + 'a \<times> lock_file \<Rightarrow> lock_file" where
  "written_by f r = (case r of Inl e \<Rightarrow> f | Inr (a, f') \<Rightarrow> f')"

fun lock_perform :: "lock_call \<Rightarrow> lock_file \<Rightarrow> lock_file" where
  "lock_perform (LockInstall now source d m g) f = written_by f (lock_install now source d m g f)"
| "lock_perform (LockSetEnabled i v b) f = written_by f (lock_setEnabled i v b f)"
| "lock_perform (LockActivate i v) f = written_by f (lock_activate i v f)"
| "lock_perform (LockDisable i) f = written_by f (lock_disable i f)"
| "lock_perform (LockRollback i) f = written_by f (lock_rollback i f)"
| "lock_perform (LockRecordVerification i v t d r b) f = written_by f (lock_recordVerification i v t d r b f)"
| "lock_perform (LockRecordDebt now i v n msg) f = written_by f (lock_recordCleanupDebt now i v n msg f)"
| "lock_perform (LockClearDebt i v) f = written_by f (lock_clearCleanupDebt i v f)"
| "lock_perform LockClearAll f = written_by f (lock_clearAllCleanupDebts f)"
| "lock_perform (LockUninstall i v) f = written_by f (lock_uninstall i v f)"

definition readable :: "lock_file \<Rightarrow> bool" where
  "readable f \<longleftrightarrow> (\<exists>l. file_holds f l)"

lemma written_readable:
  "readable f \<Longrightarrow> (\<And>l a f'. file_holds f l \<Longrightarrow> r = Inr (a, f') \<Longrightarrow> readable f') \<Longrightarrow> readable (written_by f r)"
  by (auto simp: written_by_def readable_def split: sum.split)

lemma setEnabled_readable:
  assumes "file_holds f l" and "lock_setEnabled i v b f = Inr (e, f')" shows "readable f'"
proof -
  from assms consider a where "lock_activate i v f = Inr ((e, a), f')" | a where "lock_disable i f = Inr ((e, a), f')"
    | e where "write_lock (put_plugin (pluginKey i v) e l) = Inr f'"
    by (auto simp: lock_setEnabled_def file_holds_def result_simps Let_def split: if_splits)
  then show ?thesis
  proof cases
    case 3
    from written_holds [OF this put_keys_once(1) [OF holds_keys [OF assms(1)]]] show ?thesis by (auto simp: readable_def)
  qed (use assms(1) in \<open>auto simp: readable_def dest: lock_activate_switch lock_disable_switch\<close>)
qed

lemma uninstall_readable: "file_holds f l \<Longrightarrow> lock_uninstall i v f = Inr (removed, f') \<Longrightarrow> readable f'"
  using lock_uninstall_effect [of f l i v removed f'] by (cases removed) (auto simp: readable_def)

lemma install_readable: "file_holds f l \<Longrightarrow> lock_install now source d m g f = Inr (e, f') \<Longrightarrow> readable f'"
  using lock_install_effect [of f l now source d m g e f'] by (auto simp: readable_def)

lemma verification_readable: "file_holds f l \<Longrightarrow> lock_recordVerification i v t d r b f = Inr (e, f') \<Longrightarrow> readable f'"
  using lock_recordVerification_effect [of f l i v t d r b e f'] by (auto simp: readable_def)

lemma switch_readable: "switches i g \<Longrightarrow> file_holds f l \<Longrightarrow> g f = Inr ((e, a), f') \<Longrightarrow> readable f'"
  unfolding switches_def readable_def by blast

lemma harmless_readable: "harmless g \<Longrightarrow> file_holds f l \<Longrightarrow> g f = Inr (b, f') \<Longrightarrow> readable f'"
  unfolding harmless_def readable_def by blast

lemmas readable_ops = install_readable setEnabled_readable uninstall_readable verification_readable
  switch_readable [OF switches_ops(1)] switch_readable [OF switches_ops(2)] switch_readable [OF switches_ops(3)]
  harmless_readable [OF harmless_ops(1)] harmless_readable [OF harmless_ops(2)] harmless_readable [OF harmless_ops(3)]

lemma lock_perform_readable: "readable f \<Longrightarrow> readable (lock_perform c f)"
  by (cases c) (auto intro!: written_readable elim: readable_ops)

lemma history_readable: "readable f \<Longrightarrow> readable (fold lock_perform cs f)"
  by (induction cs arbitrary: f) (auto intro: lock_perform_readable)

lemma readable_empty: "readable None"
  using empty_holds by (auto simp: readable_def)

lemma active_not_resumed: "active_at l i = Some w \<Longrightarrow> lock_valid l \<Longrightarrow> resume_at l i = None"
  by (fastforce simp: version_views activation_of_def lock_valid_def activation_ok_def bind_eq_Some_conv
      dest: map_of_SomeD split: option.splits if_splits)


text \<open>C36: Whatever the operations of \<open>PluginInstallLock\<close> write, they can read again, and it is well formed: each object has each
  key once, a package is under the key of its valid identifier and version, exactly the active versions are enabled, they
  are completely installed and not also to be resumed, what one can go back to is installed, and so is what has debts.\<close>

theorem lock_file_well_formed:
  "\<exists>l. read_lock (fold lock_perform cs None) = Inr l
     \<and> distinct (map fst (ol_plugins l)) \<and> distinct (map fst (ol_activations l))
     \<and> (\<forall>(k, e)\<in>set (ol_plugins l). k = pluginKey (pe_id e) (pe_version e) \<and> is_plugin_id (pe_id e)
          \<and> isSafePluginVersion (pe_version e) \<and> is_hex_digest (pe_digest e)
          \<and> (pe_enabled e \<longleftrightarrow> active_at l (pe_id e) = Some (pe_version e)))
     \<and> (\<forall>i v. active_at l i = Some v \<longrightarrow> resume_at l i = None \<and> (\<exists>e. entry_at l i v = Some e \<and> \<not> incomplete e))
     \<and> (\<forall>i v. previous_at l i = Some v \<longrightarrow> entry_at l i v \<noteq> None)
     \<and> (\<forall>(k, b)\<in>set (ol_debts l). entry_at l (pd_id b) (pd_version b) \<noteq> None)"
proof -
  from history_readable [OF readable_empty, of cs] obtain l where l: "file_holds (fold lock_perform cs None) l"
    by (auto simp: readable_def)
  then have r: "read_lock (fold lock_perform cs None) = Inr l" and v: "lock_valid l" and k: "keys_once l"
    by (simp_all add: file_holds_def)
  have entries: "\<forall>(k, e)\<in>set (ol_plugins l). k = pluginKey (pe_id e) (pe_version e) \<and> is_plugin_id (pe_id e)
      \<and> isSafePluginVersion (pe_version e) \<and> is_hex_digest (pe_digest e)
      \<and> (pe_enabled e \<longleftrightarrow> active_at l (pe_id e) = Some (pe_version e))"
    using v by (auto simp: lock_valid_def entry_ok_def active_at_def active_version_def)
  have debts: "\<forall>(k, b)\<in>set (ol_debts l). entry_at l (pd_id b) (pd_version b) \<noteq> None"
    using v by (fastforce simp: lock_valid_def debt_ok_def check_debt_def entry_at_def result_simps)
  have "resume_at l i = None" if "active_at l i = Some w" for i w using that v by (rule active_not_resumed)
  with r k entries debts active_entry [OF v] previous_entry [OF v] show ?thesis
    unfolding keys_once_def by blast
qed

text \<open>C37: Going back undoes an activation: after \<open>activate\<close> of another version and \<open>rollback\<close>, the same versions are active as
  before, the packages and their states are what they were, and the other version is the one to go back to.\<close>

theorem rollback_undoes_activation:
  assumes "read_lock (fold lock_perform cs None) = Inr l" and "active_at l i = Some w" and "w \<noteq> v"
    and "lock_activate i v (fold lock_perform cs None) = Inr (r1, f1)" and "lock_rollback i f1 = Inr (r2, f2)"
  shows "\<exists>l2. read_lock f2 = Inr l2 \<and> active_at l2 = active_at l \<and> resume_at l2 = resume_at l
    \<and> previous_at l2 = (previous_at l)(i := Some v) \<and> same_packages l l2"
proof -
  have l: "file_holds (fold lock_perform cs None) l"
    using history_readable [OF readable_empty, of cs] assms(1) by (auto simp: readable_def file_holds_def)
  then have valid: "lock_valid l" by (simp add: file_holds_def)
  obtain e1 a1 e2 a2 where r: "r1 = (e1, a1)" "r2 = (e2, a2)" by (cases r1, cases r2) auto
  from lock_activate_switch [OF l assms(4) [unfolded r]] obtain l1 where l1: "file_holds f1 l1" "switched i a1 l l1" by blast
  from lock_rollback_switch [OF l1(1) assms(5) [unfolded r]] obtain l2 where l2: "file_holds f2 l2" "switched i a2 l1 l2" by blast
  have a1: "pa_activeVersion a1 = Some v" "pa_previousVersion a1 = Some w" "pa_resumeVersion a1 = None"
    using assms(1-4) r by (auto simp: lock_activate_def result_simps Let_def active_at_def)
  have read1: "read_lock f1 = Inr l1" and valid1: "lock_valid l1" using l1(1) by (simp_all add: file_holds_def)
  have views1: "active_at l1 i = Some v" "previous_at l1 i = Some w" using l1(2) a1 by (simp_all add: switched_def)
  have a2: "pa_activeVersion a2 = Some w" "pa_previousVersion a2 = Some v" "pa_resumeVersion a2 = None"
    using assms(5) r read1 views1 entry_key [OF valid1, of i w]
    by (auto simp: lock_rollback_def result_simps Let_def active_at_def previous_at_def)
  have "resume_at l i = None" using assms(2) valid by (rule active_not_resumed)
  then have "active_at l2 = active_at l" "resume_at l2 = resume_at l" "previous_at l2 = (previous_at l)(i := Some v)"
    using l1(2) l2(2) a1 a2 assms(2) by (auto simp: switched_def fun_eq_iff)
  moreover have "same_packages l l2" using l1(2) l2(2) by (simp add: switched_def same_packages_def)
  ultimately show ?thesis using l2(1) by (auto simp: file_holds_def)
qed

section \<open>An example\<close>

text \<open>A plugin of one package, enabled, then upgraded while a run uses it.\<close>

definition digest_a :: string where "digest_a = replicate 64 CHR ''a''"
definition digest_b :: string where "digest_b = replicate 64 CHR ''b''"
definition digest_c :: string where "digest_c = replicate 64 CHR ''c''"

lemma digests [simp]: "is_hex_digest digest_a" "is_hex_digest digest_b" "is_hex_digest digest_c" "digest_a \<noteq> digest_b" "digest_b \<noteq> digest_c"
  "digest_c \<noteq> digest_b" "digest_b \<noteq> digest_a"
  by (simp_all add: digest_a_def digest_b_def digest_c_def is_hex_digest_def list_all_iff is_hex_lower_def in_range_def is_digit_def eval_nat_numeral)

lemma coordinates [simp]: "is_plugin_id ''demo''" "isSafePluginVersion ''1.0.0''" "isSafePluginVersion ''2.0.0''"
  by code_simp+

lemma demo_keys [simp]: "pluginKey ''demo'' ''1.0.0'' = ''demo@1.0.0''" "pluginKey ''demo'' ''2.0.0'' = ''demo@2.0.0''"
  by (simp_all add: pluginKey_def)

definition sample_env :: plugin_env where
  "sample_env = \<lparr>pv_now = 0, pv_inspect = \<lambda>e. True, pv_verify = \<lambda>e x. True, pv_migrate = \<lambda>c p x. Some x, pv_stop = \<lambda>k n. True,
     pv_digest = \<lambda>x. Some digest_a, pv_canRegister = \<lambda>t. True, pv_reserved = [], pv_attempts = 1, pv_error = ''x'',
     pv_meanwhile = \<lambda>label n. []\<rparr>"

definition sample_package :: "string \<Rightarrow> string \<Rightarrow> plugin_manifest \<times> string" where
  "sample_package v d = (\<lparr>pf_id = ''demo'', pf_version = v, pf_entry = ''main.js'', pf_trust = Isolated,
     pf_permissions = \<lparr>pp_tools = [], pp_secrets = [], pp_events = [], pp_files = [], pp_networkOrigins = []\<rparr>\<rparr>, d)"

definition sample_grant :: permission_grant where
  "sample_grant = \<lparr>pg_tools = None, pg_secrets = None, pg_events = None, pg_files = None, pg_networkOrigins = None\<rparr>"

lemmas effect_eval = bind_eff_def gets_eff_def throw_if_eff_def lift_eff_def throw_if_def return_eff_def throw_eff_def modify_eff_def
  on_error_def catch_eff_def

lemmas lock_eval = validatePluginLock_def check_entry_def check_activation_def check_enabled_def check_debt_def validatePackageCoordinates_def
  throw_if_def read_lock_def write_lock_def write_and_return_def put_plugin_def put_activation_def enable_only_def
  incomplete_def missing_def points_to_incomplete_def generation_ok_def active_version_def activation_of_def nullish_def MAX_SAFE_INTEGER_def
  from_option_def


definition sample_entry :: "string \<Rightarrow> string \<Rightarrow> bool \<Rightarrow> plugin_entry" where
  "sample_entry v d on = \<lparr>pe_id = ''demo'', pe_version = v, pe_source = d, pe_digest = d, pe_installedAt = 0, pe_trust = Isolated,
     pe_grantedPermissions = \<lparr>pp_tools = [], pp_secrets = [], pp_events = [], pp_files = [], pp_networkOrigins = []\<rparr>,
     pe_enabled = on, pe_installState = Some Verified, pe_verifiedAt = Some 0, pe_stateDigest = Some digest_a, pe_rollbackPossible = Some True\<rparr>"

definition sample_manager :: "bool \<Rightarrow> plugin_manager" where
  "sample_manager on = \<lparr>pm_file = Some \<lparr>pl_plugins = [(''demo@1.0.0'', sample_entry ''1.0.0'' digest_b on)],
       pl_activations = Some (if on then [(''demo'', \<lparr>pa_activeVersion = Some ''1.0.0'', pa_previousVersion = None, pa_resumeVersion = None,
         pa_generation = Some 1\<rparr>)] else []), pl_cleanupDebts = Some []\<rparr>,
     pm_objects = [digest_b], pm_states = [((''demo'', ''1.0.0'', digest_a), JObj [])],
     pm_active = (if on then [(''demo'', ''1.0.0'')] else []), pm_previous = [], pm_resume = [], pm_generations = [], pm_tools = [], pm_pins = [],
     pm_stopped = False, pm_stopping = []\<rparr>"

lemmas op_eval = exclusive_def effect_eval sample_env_def sample_package_def sample_grant_def sample_manager_def sample_entry_def
   stage_def reconcileOrphans_def the_lock_def lock_eval referenced_def with_lock_def lock_install_def grantPluginPermissions_def intersect_def
   writeState_def verify_def await_def lock_recordVerification_def check_enable_def requiredEntry_def check_ready_def readState_def
   ensureToolRegistrations_def validateToolRegistrations_def switch_def applyActivation_def set_version_def lock_activate_def js_set_def
   tools_of_def Let_def migrate_def js_field_def


definition sample_upgraded :: plugin_manager where
  "sample_upgraded = \<lparr>pm_file = Some \<lparr>pl_plugins = [(''demo@1.0.0'', sample_entry ''1.0.0'' digest_b False),
         (''demo@2.0.0'', sample_entry ''2.0.0'' digest_c True)],
       pl_activations = Some [(''demo'', \<lparr>pa_activeVersion = Some ''2.0.0'', pa_previousVersion = Some ''1.0.0'', pa_resumeVersion = None,
         pa_generation = Some 2\<rparr>)], pl_cleanupDebts = Some []\<rparr>,
     pm_objects = [digest_b, digest_c],
     pm_states = [((''demo'', ''1.0.0'', digest_a), JObj []), ((''demo'', ''2.0.0'', digest_a), JObj [])],
     pm_active = [(''demo'', ''2.0.0'')], pm_previous = [(''demo'', ''1.0.0'')], pm_resume = [], pm_generations = [], pm_tools = [],
     pm_pins = [(''r'', [(''demo'', ''1.0.0'')])], pm_stopped = False, pm_stopping = []\<rparr>"

lemma sample_installed:
  "plugin_install sample_env (Some (sample_package ''1.0.0'' digest_b)) sample_grant fresh_manager
     = (Inr (sample_entry ''1.0.0'' digest_b False), sample_manager False)"
  by (simp add: plugin_install_def op_eval fresh_manager_def)

lemma sample_enabled:
  "plugin_enable sample_env ''demo'' ''1.0.0'' (sample_manager False) = (Inr (sample_entry ''1.0.0'' digest_b True), sample_manager True)"
  by (simp add: plugin_enable_def op_eval)

lemma sample_reachable: "plugin_reachable (sample_manager True)"
  using plugin_reachable.Call [OF plugin_reachable.Call [OF plugin_reachable.Fresh,
    of "CallInstall sample_env (Some (sample_package ''1.0.0'' digest_b)) sample_grant"], of "CallEnable sample_env ''demo'' ''1.0.0''"]
  by (simp add: sample_installed sample_enabled)

lemma sample_upgraded_state: "pm_objects sample_upgraded = [digest_b, digest_c]" "\<not> pm_stopped sample_upgraded"
  by (simp_all add: sample_upgraded_def)

abbreviation "sample_run \<equiv> (sample_manager True)\<lparr>pm_pins := [(''r'', [(''demo'', ''1.0.0'')])]\<rparr>"

lemma sample_snapshot:
  "snapshotsForRun (\<lambda>k. 0) ''r'' (sample_manager True) = (Inr [sample_entry ''1.0.0'' digest_b True], sample_run)"
  by (simp add: snapshotsForRun_def pinRun_def op_eval List.map_filter_simps)

lemma sample_upgrade:
  "plugin_upgrade sample_env ''demo'' (Some (sample_package ''2.0.0'' digest_c)) sample_grant sample_run
     = (Inr (sample_entry ''2.0.0'' digest_c True, ''1.0.0''), sample_upgraded)"
  by (simp add: plugin_upgrade_def op_eval sample_upgraded_def)

lemma sample_refused:
  "plugin_uninstall sample_env ''demo'' ''1.0.0'' sample_upgraded = (Inl (PinnedByRun ''demo@1.0.0''), sample_upgraded)"
  by (simp add: plugin_uninstall_def op_eval sample_upgraded_def pinned_def)

lemma sample_restart: "fst (plugin_create sample_env sample_upgraded) = Inr ()"
  by (simp add: plugin_create_def op_eval sample_upgraded_def lock_clearAllCleanupDebts_def reconcileInterruptedInstalls_def
      reconcileStateSnapshots_def loadActiveGenerations_def versions_of_def List.map_filter_simps)

theorem pinned_generations_stay_witness:
  "\<exists>es. fst (snapshotsForRun (\<lambda>k. 0) ''r'' sample_upgraded) = Inr es
     \<and> map generation es = [(''demo'', ''1.0.0'', package_of (sample_entry ''1.0.0'' digest_b True))]
     \<and> (\<forall>e\<in>set es. pe_source e \<in> {digest_b, digest_c})"
  using pinned_generations_stay [OF sample_reachable sample_snapshot,
      of "[CallUpgrade sample_env ''demo'' (Some (sample_package ''2.0.0'' digest_c)) sample_grant, CallUninstall sample_env ''demo'' ''1.0.0'']"
         sample_upgraded]
  by (simp add: sample_upgrade sample_refused releases_def sample_upgraded_state) (auto simp: generation_def sample_entry_def)

lemma sample_upgraded_reachable: "plugin_reachable sample_upgraded"
  using plugin_reachable.Call [OF plugin_reachable.Call [OF sample_reachable, of "CallSnapshots (\<lambda>k. 0) ''r''"],
    of "CallUpgrade sample_env ''demo'' (Some (sample_package ''2.0.0'' digest_c)) sample_grant"]
  by (simp add: sample_snapshot sample_upgrade)

theorem restart_restores_versions_witness:
  "map_of (pm_active (snd (plugin_create sample_env sample_upgraded))) = [''demo'' \<mapsto> ''2.0.0'']"
proof -
  obtain s' where s': "plugin_create sample_env sample_upgraded = (Inr (), s')"
    using sample_restart by (cases "plugin_create sample_env sample_upgraded") auto
  from restart_restores_versions [OF sample_upgraded_reachable this] s' show ?thesis by (simp add: sample_upgraded_def)
qed

definition sample_calls :: "lock_call list" where
  "sample_calls = [LockInstall 0 digest_b digest_b (fst (sample_package ''1.0.0'' digest_b)) sample_grant,
     LockRecordVerification ''demo'' ''1.0.0'' 0 (Some digest_a) (Some True) False, LockActivate ''demo'' ''1.0.0'',
     LockInstall 0 digest_c digest_c (fst (sample_package ''2.0.0'' digest_c)) sample_grant,
     LockRecordVerification ''demo'' ''2.0.0'' 0 (Some digest_a) (Some True) False]"

definition sample_lock :: "plugin_activation list \<Rightarrow> string \<Rightarrow> open_lock" where
  "sample_lock acts v = \<lparr>ol_plugins = [(''demo@1.0.0'', sample_entry ''1.0.0'' digest_b (v = ''1.0.0'')),
       (''demo@2.0.0'', sample_entry ''2.0.0'' digest_c (v = ''2.0.0''))], ol_activations = map (Pair ''demo'') acts, ol_debts = []\<rparr>"

lemma sample_history:
  "fold lock_perform sample_calls None = Some \<lparr>pl_plugins = [(''demo@1.0.0'', sample_entry ''1.0.0'' digest_b True),
       (''demo@2.0.0'', sample_entry ''2.0.0'' digest_c False)],
     pl_activations = Some [(''demo'', \<lparr>pa_activeVersion = Some ''1.0.0'', pa_previousVersion = None, pa_resumeVersion = None,
       pa_generation = Some 1\<rparr>)], pl_cleanupDebts = Some []\<rparr>"
  by (simp add: sample_calls_def op_eval written_by_def)

theorem lock_file_well_formed_witness:
  "\<exists>l. read_lock (fold lock_perform sample_calls None) = Inr l \<and> distinct (map fst (ol_plugins l)) \<and> active_at l ''demo'' = Some ''1.0.0''
     \<and> resume_at l ''demo'' = None"
proof -
  obtain l where l: "read_lock (fold lock_perform sample_calls None) = Inr l" "distinct (map fst (ol_plugins l))"
      "\<forall>i v. active_at l i = Some v \<longrightarrow> resume_at l i = None"
    using lock_file_well_formed [of sample_calls] by blast
  from l(1) have "active_at l ''demo'' = Some ''1.0.0''" by (auto simp: sample_history op_eval active_at_def)
  with l show ?thesis by auto
qed

theorem rollback_undoes_activation_witness:
  "\<exists>f1 r1 f2 r2 l2. lock_activate ''demo'' ''2.0.0'' (fold lock_perform sample_calls None) = Inr (r1, f1) \<and> lock_rollback ''demo'' f1 = Inr (r2, f2)
     \<and> read_lock f2 = Inr l2 \<and> active_at l2 ''demo'' = Some ''1.0.0'' \<and> previous_at l2 ''demo'' = Some ''2.0.0''"
proof -
  let ?f = "fold lock_perform sample_calls None"
  obtain l where l: "read_lock ?f = Inr l" "active_at l ''demo'' = Some ''1.0.0''"
    by (simp add: sample_history op_eval active_at_def)
  have "\<exists>r1 f1 r2 f2. lock_activate ''demo'' ''2.0.0'' ?f = Inr (r1, f1) \<and> lock_rollback ''demo'' f1 = Inr (r2, f2)"
    by (simp add: sample_history op_eval lock_rollback_def)
  then obtain r1 f1 r2 f2 where o: "lock_activate ''demo'' ''2.0.0'' ?f = Inr (r1, f1)" "lock_rollback ''demo'' f1 = Inr (r2, f2)" by blast
  from rollback_undoes_activation [OF l _ o] l(2) o show ?thesis by fastforce
qed

text \<open>A package with the identifier \<open>constructor\<close> can be installed, but never removed: the activation that \<open>uninstall\<close> finds for it
  is a function, whose copy has no generation, and the file with it is refused.\<close>

lemma constructor_stays:
  "lock_uninstall ''constructor'' ''1.0.0''
     (lock_perform (LockInstall 0 digest_b digest_b ((fst (sample_package ''1.0.0'' digest_b))\<lparr>pf_id := ''constructor''\<rparr>) sample_grant) None)
     = Inl (GenerationInvalid ''constructor'')"
proof -
  have [simp]: "is_plugin_id ''constructor''" by code_simp
  show ?thesis by (simp add: op_eval written_by_def lock_uninstall_def pluginKey_def)
qed

end
