(* ===== verification/Integrations.thy ===== *)
theory Integrations
  imports TextPatterns
begin

text \<open>
  \<open>packages/integrations\<close>: messages from chat services and webhooks start runs, and the answers of the runs are sent back.
  The store of bindings and deliveries, the router of inbound messages, and the coordinator of the
  replies, each cut at its awaits.
\<close>

section \<open>Inbound messages\<close>

record inbound_envelope =
  ie_connectorId :: string
  ie_accountId :: string
  ie_deliveryId :: string
  ie_senderExternalId :: string
  ie_threadExternalId :: "string option"
  ie_conversationExternalId :: "string option"
  ie_text :: string
  ie_attachmentUrls :: "string list"
  ie_receivedAt :: string
  ie_rawDigest :: "string option"

datatype integration_error =
    EnvelopeNotObject
  | InboundRequired string
  | InboundTooLong string
  | AttachmentsInvalid
  | AttachmentTooLong
  | AttachmentMalformed
  | AttachmentForbidden
  | ReceivedAtInvalid
  | InboundFieldInvalid string
  | DeliveryNotClaimed
  | BindingMissing
  | RunStartFailed

text \<open>
  The URL parser (protocol, and whether there is a user name or a password), whether \<open>Date.parse\<close> understands a text,
  the SHA-256 of the JSON text of a value, and that of a text.
\<close>

record inbound_world =
  iw_url :: "string \<Rightarrow> (string \<times> bool) option"
  iw_date :: "string \<Rightarrow> bool"
  iw_valueDigest :: "jsval \<Rightarrow> string"
  iw_textDigest :: "string \<Rightarrow> string"

definition inbound_record :: "jsval \<Rightarrow> integration_error + jsobject" where
  "inbound_record v = (case v of JObj ob \<Rightarrow> Inr ob | JArr vs \<Rightarrow> Inr [] | _ \<Rightarrow> Inl EnvelopeNotObject)"

definition required_field :: "jsobject \<Rightarrow> string \<Rightarrow> integration_error + string" where
  "required_field ob f = (case as_string (obj_get ob f) of
     None \<Rightarrow> Inl (InboundRequired f)
   | Some s \<Rightarrow> if trim s = [] then Inl (InboundRequired f)
       else if (if f = ''text'' then 200000 else 512) < length s then Inl (InboundTooLong f) else Inr s)"

fun string_values :: "jsval list \<Rightarrow> string list option" where
  "string_values [] = Some []"
| "string_values (JStr s # vs) = map_option (Cons s) (string_values vs)"
| "string_values (v # vs) = None"

definition attachment_list :: "jsobject \<Rightarrow> integration_error + string list" where
  "attachment_list ob = (case obj_get ob ''attachmentUrls'' of
     JUndef \<Rightarrow> Inr [] | JNull \<Rightarrow> Inr []
   | JArr vs \<Rightarrow> if 32 < length vs then Inl AttachmentsInvalid else from_option AttachmentsInvalid (string_values vs)
   | _ \<Rightarrow> Inl AttachmentsInvalid)"

primrec check_attachments :: "inbound_world \<Rightarrow> string list \<Rightarrow> integration_error + unit" where
  "check_attachments x [] = Inr ()"
| "check_attachments x (s # ss) =
     bind_result (throw_if (4096 < length s) AttachmentTooLong) (\<lambda>_.
     bind_result (from_option AttachmentMalformed (iw_url x s)) (\<lambda>(protocol, credentials).
     bind_result (throw_if (protocol \<notin> {''http:'', ''https:''} \<or> credentials) AttachmentForbidden) (\<lambda>_. check_attachments x ss)))"

definition received_at :: "inbound_world \<Rightarrow> string \<Rightarrow> jsobject \<Rightarrow> integration_error + string" where
  "received_at x now ob =
     bind_result (case obj_get ob ''receivedAt'' of
         JUndef \<Rightarrow> Inr now
       | JStr s \<Rightarrow> if s = [] \<or> 128 < length s \<or> list_all is_blank s then Inl ReceivedAtInvalid else Inr s
       | _ \<Rightarrow> Inl ReceivedAtInvalid) (\<lambda>s.
     bind_result (throw_if (\<not> iw_date x s) ReceivedAtInvalid) (\<lambda>_. Inr s))"

definition optional_field :: "jsobject \<Rightarrow> string \<Rightarrow> integration_error + string option" where
  "optional_field ob f = (case obj_get ob f of
     JUndef \<Rightarrow> Inr None
   | JStr s \<Rightarrow> if trim s = [] \<or> 512 < length s then Inl (InboundFieldInvalid f) else Inr (Some s)
   | _ \<Rightarrow> Inl (InboundFieldInvalid f))"

definition normalizeInbound :: "inbound_world \<Rightarrow> string \<Rightarrow> jsval \<Rightarrow> integration_error + inbound_envelope" where
  "normalizeInbound x now v =
     bind_result (inbound_record v) (\<lambda>ob.
     bind_result (required_field ob ''connectorId'') (\<lambda>connector.
     bind_result (required_field ob ''accountId'') (\<lambda>account.
     bind_result (required_field ob ''deliveryId'') (\<lambda>delivery.
     bind_result (required_field ob ''senderExternalId'') (\<lambda>sender.
     bind_result (required_field ob ''text'') (\<lambda>body.
     bind_result (attachment_list ob) (\<lambda>urls.
     bind_result (check_attachments x urls) (\<lambda>_.
     bind_result (received_at x now ob) (\<lambda>received.
     bind_result (optional_field ob ''threadExternalId'') (\<lambda>thread.
     bind_result (optional_field ob ''conversationExternalId'') (\<lambda>conversation.
       Inr \<lparr>ie_connectorId = connector, ie_accountId = account, ie_deliveryId = delivery, ie_senderExternalId = sender,
            ie_threadExternalId = thread, ie_conversationExternalId = conversation, ie_text = body, ie_attachmentUrls = urls,
            ie_receivedAt = received, ie_rawDigest = Some (iw_valueDigest x (JObj ob))\<rparr>)))))))))))"

text \<open>An envelope as the value that is stored as JSON.\<close>

definition optional_entry :: "string \<Rightarrow> string option \<Rightarrow> jsobject" where
  "optional_entry f s = (case s of None \<Rightarrow> [] | Some s \<Rightarrow> [(f, JStr s)])"

definition envelope_value :: "inbound_envelope \<Rightarrow> jsval" where
  "envelope_value e = JObj
     ([(''connectorId'', JStr (ie_connectorId e)), (''accountId'', JStr (ie_accountId e)), (''deliveryId'', JStr (ie_deliveryId e)),
       (''senderExternalId'', JStr (ie_senderExternalId e))]
      @ optional_entry ''threadExternalId'' (ie_threadExternalId e)
      @ optional_entry ''conversationExternalId'' (ie_conversationExternalId e)
      @ [(''text'', JStr (ie_text e)), (''attachmentUrls'', JArr (map JStr (ie_attachmentUrls e))),
         (''receivedAt'', JStr (ie_receivedAt e))]
      @ optional_entry ''rawDigest'' (ie_rawDigest e))"

fun join_lines :: "string list \<Rightarrow> string" where
  "join_lines [] = []"
| "join_lines [s] = s"
| "join_lines (s # ss) = s @ CHR 0x0A # join_lines ss"

definition composeInboundPrompt :: "inbound_envelope \<Rightarrow> string" where
  "composeInboundPrompt e = (if ie_attachmentUrls e = [] then ie_text e
     else ie_text e @ [CHR 0x0A, CHR 0x0A] @ ''Attachments (untrusted external references):'' @ [CHR 0x0A]
       @ join_lines (map (\<lambda>url. ''- '' @ url) (ie_attachmentUrls e)))"

section \<open>The store\<close>

record integration_binding =
  ib_connectorId :: string
  ib_accountId :: string
  ib_senderExternalId :: string
  ib_appId :: string
  ib_tenantId :: string
  ib_userId :: string
  ib_agentId :: string
  ib_workspaceId :: string
  ib_sessionPrefix :: string

datatype delivery_status = DeliveryReceived | DeliveryRunStarted | Delivering | DeliveryReplied | DeliveryFailed

type_synonym delivery_key = "string \<times> string \<times> string"

record delivery_row =
  dr_key :: delivery_key
  dr_envelope :: jsval
  dr_status :: delivery_status
  dr_runId :: "string option"
  dr_replyExternalId :: "string option"
  dr_errorCode :: "string option"
  dr_owner :: "string option"
  dr_leaseExpiresAt :: "timestamp option"
  dr_receivedAt :: string
  dr_updatedAt :: timestamp

record integration_db =
  it_bindings :: "integration_binding list"
  it_deliveries :: "delivery_row list"

record delivery_receipt =
  dc_key :: delivery_key
  dc_status :: delivery_status
  dc_runId :: "string option"
  dc_replyExternalId :: "string option"
  dc_errorCode :: "string option"
  dc_receivedAt :: string
  dc_updatedAt :: timestamp

definition delivery_of :: "inbound_envelope \<Rightarrow> delivery_key" where
  "delivery_of e = (ie_connectorId e, ie_accountId e, ie_deliveryId e)"

definition bind_integration :: "integration_binding \<Rightarrow> integration_db \<Rightarrow> integration_db" where
  "bind_integration b db =
     (let same = (\<lambda>r. ib_connectorId r = ib_connectorId b \<and> ib_accountId r = ib_accountId b \<and> ib_senderExternalId r = ib_senderExternalId b) in
      db\<lparr>it_bindings := (if list_ex same (it_bindings db) then update_rows same (\<lambda>r. b) (it_bindings db) else it_bindings db @ [b])\<rparr>)"

text \<open>The binding of the sender, else the one of every sender of the account.\<close>

definition getBinding :: "inbound_envelope \<Rightarrow> integration_db \<Rightarrow> integration_binding option" where
  "getBinding e db =
     (let found = filter (\<lambda>r. ib_connectorId r = ie_connectorId e \<and> ib_accountId r = ie_accountId e
            \<and> ib_senderExternalId r \<in> {ie_senderExternalId e, ''*''}) (it_bindings db) in
      case sort_key (\<lambda>r. if ib_senderExternalId r = ie_senderExternalId e then 0 else (1 :: nat)) found of
        [] \<Rightarrow> None | b # bs \<Rightarrow> Some b)"

definition claim_delivery :: "timestamp \<Rightarrow> inbound_envelope \<Rightarrow> integration_db \<Rightarrow> bool \<times> integration_db" where
  "claim_delivery now e db =
     (if list_ex (\<lambda>r. dr_key r = delivery_of e) (it_deliveries db) then (False, db)
      else (True, db\<lparr>it_deliveries := it_deliveries db @ [\<lparr>dr_key = delivery_of e, dr_envelope = envelope_value e,
        dr_status = DeliveryReceived, dr_runId = None, dr_replyExternalId = None, dr_errorCode = None, dr_owner = None,
        dr_leaseExpiresAt = None, dr_receivedAt = ie_receivedAt e, dr_updatedAt = now\<rparr>]\<rparr>))"

definition toReceipt :: "delivery_row \<Rightarrow> delivery_receipt" where
  "toReceipt r = \<lparr>dc_key = dr_key r, dc_status = dr_status r, dc_runId = truthy (dr_runId r),
     dc_replyExternalId = truthy (dr_replyExternalId r), dc_errorCode = truthy (dr_errorCode r),
     dc_receivedAt = dr_receivedAt r, dc_updatedAt = dr_updatedAt r\<rparr>"

definition getReceipt :: "delivery_key \<Rightarrow> integration_db \<Rightarrow> delivery_receipt option" where
  "getReceipt k db = map_option toReceipt (List.find (\<lambda>r. dr_key r = k) (it_deliveries db))"

definition coalesce :: "'a option \<Rightarrow> 'a option \<Rightarrow> 'a option" where
  "coalesce a b = (case a of None \<Rightarrow> b | Some x \<Rightarrow> Some x)"

definition update_delivery :: "timestamp \<Rightarrow> delivery_status \<Rightarrow> string option \<Rightarrow> string option \<Rightarrow> string option \<Rightarrow> delivery_key
    \<Rightarrow> integration_db \<Rightarrow> (integration_error + delivery_receipt) \<times> integration_db" where
  "update_delivery now st run reply err k db =
     (let db' = db\<lparr>it_deliveries := update_rows (\<lambda>r. dr_key r = k) (\<lambda>r. r\<lparr>dr_status := st, dr_runId := coalesce run (dr_runId r),
            dr_replyExternalId := coalesce reply (dr_replyExternalId r), dr_errorCode := coalesce err (dr_errorCode r),
            dr_updatedAt := now\<rparr>) (it_deliveries db)\<rparr> in
      (from_option DeliveryNotClaimed (getReceipt k db'), db'))"

definition markRun :: "timestamp \<Rightarrow> delivery_key \<Rightarrow> string \<Rightarrow> integration_db \<Rightarrow> (integration_error + delivery_receipt) \<times> integration_db" where
  "markRun now k run db = update_delivery now DeliveryRunStarted (Some run) None None k db"

definition markReply :: "timestamp \<Rightarrow> delivery_key \<Rightarrow> string \<Rightarrow> integration_db \<Rightarrow> (integration_error + delivery_receipt) \<times> integration_db" where
  "markReply now k reply db = (case update_delivery now DeliveryReplied None (Some reply) None k db of
     (Inl e, db') \<Rightarrow> (Inl e, db')
   | (Inr receipt, db') \<Rightarrow> (Inr receipt, db'\<lparr>it_deliveries := update_rows (\<lambda>r. dr_key r = k)
         (\<lambda>r. r\<lparr>dr_owner := None, dr_leaseExpiresAt := None\<rparr>) (it_deliveries db')\<rparr>))"

definition markFailed :: "timestamp \<Rightarrow> delivery_key \<Rightarrow> string \<Rightarrow> integration_db \<Rightarrow> (integration_error + delivery_receipt) \<times> integration_db" where
  "markFailed now k err db = update_delivery now DeliveryFailed None None (Some err) k db"

definition reply_leaseMs :: timestamp where "reply_leaseMs = 30000"

definition claimable_reply :: "timestamp \<Rightarrow> delivery_key \<Rightarrow> delivery_row \<Rightarrow> bool" where
  "claimable_reply now k r \<longleftrightarrow> dr_key r = k \<and> (dr_status r = DeliveryRunStarted
     \<or> dr_status r = Delivering \<and> (case dr_leaseExpiresAt r of None \<Rightarrow> False | Some t \<Rightarrow> t \<le> now))"

definition claimReply :: "delivery_key \<Rightarrow> string \<Rightarrow> timestamp \<Rightarrow> integration_db \<Rightarrow> bool \<times> integration_db" where
  "claimReply k owner now db =
     (count_rows (claimable_reply now k) (it_deliveries db) = 1,
      db\<lparr>it_deliveries := update_rows (claimable_reply now k) (\<lambda>r. r\<lparr>dr_status := Delivering, dr_owner := Some owner,
        dr_leaseExpiresAt := Some (now + reply_leaseMs), dr_updatedAt := now\<rparr>) (it_deliveries db)\<rparr>)"

definition releasable_reply :: "delivery_key \<Rightarrow> string \<Rightarrow> delivery_row \<Rightarrow> bool" where
  "releasable_reply k owner r \<longleftrightarrow> dr_key r = k \<and> dr_status r = Delivering \<and> dr_owner r = Some owner"

definition releaseReply :: "timestamp \<Rightarrow> delivery_key \<Rightarrow> string \<Rightarrow> string \<Rightarrow> integration_db \<Rightarrow> bool \<times> integration_db" where
  "releaseReply now k owner err db =
     (count_rows (releasable_reply k owner) (it_deliveries db) = 1,
      db\<lparr>it_deliveries := update_rows (releasable_reply k owner) (\<lambda>r. r\<lparr>dr_status := DeliveryRunStarted, dr_errorCode := Some err,
        dr_owner := None, dr_leaseExpiresAt := None, dr_updatedAt := now\<rparr>) (it_deliveries db)\<rparr>)"

primrec read_pending :: "inbound_world \<Rightarrow> string \<Rightarrow> delivery_row list \<Rightarrow> integration_error + (inbound_envelope \<times> delivery_receipt) list" where
  "read_pending x now [] = Inr []"
| "read_pending x now (r # rs) = bind_result (normalizeInbound x now (dr_envelope r)) (\<lambda>e.
     bind_result (read_pending x now rs) (\<lambda>items. Inr ((e, toReceipt r) # items)))"

text \<open>\<open>rank\<close> orders texts as the database does.\<close>

definition pending_rows :: "(string \<Rightarrow> nat) \<Rightarrow> int \<Rightarrow> integration_db \<Rightarrow> delivery_row list" where
  "pending_rows rank limit db = sql_limit (max 1 (min limit 1000)) (sort_key (\<lambda>r. rank (dr_receivedAt r))
     (filter (\<lambda>r. dr_runId r \<noteq> None \<and> dr_status r \<in> {DeliveryRunStarted, Delivering}) (it_deliveries db)))"

definition listPendingReplies ::
  "inbound_world \<Rightarrow> string \<Rightarrow> (string \<Rightarrow> nat) \<Rightarrow> int \<Rightarrow> integration_db \<Rightarrow> integration_error + (inbound_envelope \<times> delivery_receipt) list" where
  "listPendingReplies x now rank limit db = read_pending x now (pending_rows rank limit db)"

section \<open>The router\<close>

datatype route_start =
    DuplicateDelivery "string option"
  | StartRun integration_binding inbound_envelope string

text \<open>Up to the call of \<open>startRun\<close>.\<close>

definition session_of :: "inbound_world \<Rightarrow> integration_binding \<Rightarrow> inbound_envelope \<Rightarrow> string" where
  "session_of x b e = (let conversation = nullish (ie_threadExternalId e) (nullish (ie_conversationExternalId e) (ie_senderExternalId e)) in
     ib_sessionPrefix b @ CHR ''_'' # take 24 (iw_textDigest x conversation))"

definition route_begin :: "inbound_world \<Rightarrow> timestamp \<Rightarrow> inbound_envelope \<Rightarrow> integration_db
    \<Rightarrow> (integration_error + route_start) \<times> integration_db" where
  "route_begin x now e db = (case claim_delivery now e db of
     (False, db') \<Rightarrow> (Inr (DuplicateDelivery (Option.bind (getReceipt (delivery_of e) db') dc_runId)), db')
   | (True, db') \<Rightarrow> (case getBinding e db' of
         None \<Rightarrow> (case markFailed now (delivery_of e) ''binding_missing'' db' of
             (Inl err, db'') \<Rightarrow> (Inl err, db'') | (Inr receipt, db'') \<Rightarrow> (Inl BindingMissing, db''))
       | Some b \<Rightarrow> (Inr (StartRun b e (session_of x b e)), db')))"

text \<open>After it: the identifier of the run, or none when it threw.\<close>

definition route_end :: "timestamp \<Rightarrow> inbound_envelope \<Rightarrow> string option \<Rightarrow> integration_db \<Rightarrow> (integration_error + string) \<times> integration_db" where
  "route_end now e started db =
     (let (outcome, db') = (case started of
            None \<Rightarrow> (Inl RunStartFailed, db)
          | Some run \<Rightarrow> (case markRun now (delivery_of e) run db of (Inl err, db') \<Rightarrow> (Inl err, db') | (Inr receipt, db') \<Rightarrow> (Inr run, db'))) in
      case outcome of
        Inr run \<Rightarrow> (Inr run, db')
      | Inl err \<Rightarrow> (case markFailed now (delivery_of e) ''run_start_failed'' db' of
            (Inl err', db'') \<Rightarrow> (Inl err', db'') | (Inr receipt, db'') \<Rightarrow> (Inl err, db'')))"

section \<open>The coordinator of the replies\<close>

record reply_outcome =
  ro_terminal :: bool
  ro_text :: "string option"
  ro_errorCode :: "string option"

record outbound_message =
  om_accountId :: string
  om_conversationExternalId :: string
  om_threadExternalId :: "string option"
  om_text :: string
  om_idempotencyKey :: "string option"

text \<open>A pending reply once its run has been asked for its outcome: what is sent, if anything. \<open>connectors\<close> are the
  connectors there are adapters for, \<open>now\<close> is the time the whole tick began. A message counts as sent from the claim on; its
  adapter awaits the target or the secret first, so the request itself may go out later.\<close>

definition reply_message :: "inbound_envelope \<Rightarrow> string \<Rightarrow> outbound_message" where
  "reply_message e body = \<lparr>om_accountId = ie_accountId e,
     om_conversationExternalId = nullish (ie_conversationExternalId e) (ie_senderExternalId e),
     om_threadExternalId = truthy (ie_threadExternalId e), om_text = body,
     om_idempotencyKey = Some (''reply:'' @ ie_connectorId e @ '':'' @ ie_accountId e @ '':'' @ ie_deliveryId e)\<rparr>"

definition tick_claim :: "string list \<Rightarrow> string \<Rightarrow> timestamp \<Rightarrow> timestamp \<Rightarrow> inbound_envelope \<times> delivery_receipt \<Rightarrow> reply_outcome
    \<Rightarrow> integration_db \<Rightarrow> (integration_error + outbound_message option) \<times> integration_db" where
  "tick_claim connectors owner now clock item outcome db = (case item of (e, receipt) \<Rightarrow>
     if dc_runId receipt = None \<or> \<not> ro_terminal outcome then (Inr None, db)
     else if ie_connectorId e \<notin> set connectors \<or> truthy (ro_text outcome) = None then
       (case markFailed clock (delivery_of e) (nullish (ro_errorCode outcome) ''delivery_unavailable'') db of
          (Inl err, db') \<Rightarrow> (Inl err, db') | (Inr r, db') \<Rightarrow> (Inr None, db'))
     else (case claimReply (delivery_of e) owner now db of
         (False, db') \<Rightarrow> (Inr None, db')
       | (True, db') \<Rightarrow> (Inr (Some (reply_message e (the (ro_text outcome)))), db')))"

datatype send_result =
    Sent string
  | ConnectorError string bool
  | OtherError

definition tick_sent :: "string \<Rightarrow> timestamp \<Rightarrow> inbound_envelope \<Rightarrow> send_result \<Rightarrow> integration_db \<Rightarrow> (integration_error + bool) \<times> integration_db" where
  "tick_sent owner clock e result db =
     (let k = delivery_of e;
          failed = (\<lambda>err db. case markFailed clock k err db of (Inl x, db') \<Rightarrow> (Inl x, db') | (Inr r, db') \<Rightarrow> (Inr False, db')) in
      case result of
        Sent i \<Rightarrow> (case markReply clock k i db of (Inr r, db') \<Rightarrow> (Inr True, db') | (Inl x, db') \<Rightarrow> failed ''delivery_failed'' db')
      | ConnectorError code retryable \<Rightarrow> if retryable then (Inr False, snd (releaseReply clock k owner code db)) else failed code db
      | OtherError \<Rightarrow> failed ''delivery_failed'' db)"

section \<open>Signatures of requests\<close>

text \<open>Bytes are characters; \<open>hmac\<close> is the hexadecimal HMAC-SHA-256 under a key.\<close>

definition verifyHmacSha256 :: "(string \<Rightarrow> string \<Rightarrow> string) \<Rightarrow> string \<Rightarrow> string \<Rightarrow> string \<Rightarrow> bool" where
  "verifyHmacSha256 hmac body signature secret \<longleftrightarrow>
     hmac secret body = map to_lower (if starts_with ''sha256='' signature then drop 7 signature else signature)"

definition verifySlackRequest :: "(string \<Rightarrow> string \<Rightarrow> string) \<Rightarrow> timestamp \<Rightarrow> string \<Rightarrow> string \<Rightarrow> string \<Rightarrow> string \<Rightarrow> bool" where
  "verifySlackRequest hmac now body time signature secret = (case parse_int time of
     None \<Rightarrow> False
   | Some seconds \<Rightarrow> \<bar>seconds\<bar> \<le> MAX_SAFE_INTEGER \<and> \<bar>now - seconds * 1000\<bar> \<le> 5 * 60000
       \<and> ''v0='' @ hmac secret (''v0:'' @ time @ '':'' @ body) = signature)"

definition verifyTelegramSecret :: "string option \<Rightarrow> string \<Rightarrow> bool" where
  "verifyTelegramSecret actual expected \<longleftrightarrow> truthy actual \<noteq> None \<and> actual = Some expected"

section \<open>Duplicates in memory\<close>

definition dedupe_key :: "delivery_key \<Rightarrow> string" where
  "dedupe_key k = (case k of (connector, account, delivery) \<Rightarrow> connector @ CHR 0x00 # account @ CHR 0x00 # delivery)"

definition dedupe_sweep :: "timestamp \<Rightarrow> (string \<times> timestamp) list \<Rightarrow> (string \<times> timestamp) list" where
  "dedupe_sweep now claims = filter (\<lambda>(k, expires). \<not> expires \<le> now) claims"

definition dedupe_claim :: "timestamp \<Rightarrow> timestamp \<Rightarrow> delivery_key \<Rightarrow> (string \<times> timestamp) list \<Rightarrow> bool \<times> (string \<times> timestamp) list" where
  "dedupe_claim now ttl k claims = (let swept = dedupe_sweep now claims in
     if map_of swept (dedupe_key k) \<noteq> None then (False, swept) else (True, swept @ [(dedupe_key k, now + ttl)]))"

section \<open>Connectors\<close>

record connector_error =
  ce_code :: string
  ce_retryable :: bool
  ce_retryAfterMs :: "num option"

definition connector_failed :: "string \<Rightarrow> connector_error" where
  "connector_failed code = \<lparr>ce_code = code, ce_retryable = False, ce_retryAfterMs = None\<rparr>"

record http_request =
  hq_url :: string
  hq_headers :: "(string \<times> string) list"
  hq_body :: jsval

text \<open>An answer: its status, the number in \<open>retry-after\<close>, its body (none when it is too large or no JSON; an empty one is
  an empty object), and the delivery identifier of a webhook.\<close>

record http_answer =
  ha_status :: int
  ha_retryAfter :: "num option"
  ha_body :: "jsval option"
  ha_deliveryId :: "string option"

definition answer_ok :: "http_answer \<Rightarrow> bool" where
  "answer_ok a \<longleftrightarrow> 200 \<le> ha_status a \<and> ha_status a \<le> 299"

definition jsonResponse :: "http_answer \<Rightarrow> connector_error + jsval" where
  "jsonResponse a = (if \<not> answer_ok a then Inl
       \<lparr>ce_code = (if ha_status a = 429 then ''rate_limited'' else ''connector_http_error''),
        ce_retryable = (ha_status a = 408 \<or> ha_status a = 429 \<or> 500 \<le> ha_status a),
        ce_retryAfterMs = map_option (\<lambda>n. n * 1000) (ha_retryAfter a)\<rparr>
     else from_option (connector_failed ''connector_invalid_response'') (ha_body a))"

definition safeFetch :: "http_answer option \<Rightarrow> connector_error + http_answer" where
  "safeFetch answer = from_option \<lparr>ce_code = ''connector_network_error'', ce_retryable = True, ce_retryAfterMs = None\<rparr> answer"

definition validateOutbound :: "outbound_message \<Rightarrow> nat \<Rightarrow> connector_error + unit" where
  "validateOutbound m limit =
     bind_result (throw_if (trim (om_accountId m) = [] \<or> trim (om_conversationExternalId m) = []) (connector_failed ''message_invalid'')) (\<lambda>_.
       throw_if (trim (om_text m) = [] \<or> limit < length (om_text m)) (connector_failed ''message_invalid''))"

primrec recordAt :: "string list \<Rightarrow> jsval \<Rightarrow> jsval" where
  "recordAt [] v = v"
| "recordAt (k # ks) v = (case v of JObj ob \<Rightarrow> recordAt ks (obj_get ob k) | _ \<Rightarrow> JUndef)"

text \<open>\<open>String(value ?? "unknown")\<close>, where \<open>text_of\<close> is \<open>String\<close>.\<close>

definition text_or_unknown :: "(jsval \<Rightarrow> string) \<Rightarrow> jsval \<Rightarrow> string" where
  "text_or_unknown text_of v = (case v of JUndef \<Rightarrow> ''unknown'' | JNull \<Rightarrow> ''unknown'' | _ \<Rightarrow> text_of v)"

definition telegram_request :: "string \<Rightarrow> outbound_message \<Rightarrow> connector_error + http_request" where
  "telegram_request token m =
     bind_result (validateOutbound m 4096) (\<lambda>_.
     bind_result (throw_if (token = [] \<or> \<not> list_all (\<lambda>c. is_alnum c \<or> c \<in> {CHR '':'', CHR ''_'', CHR ''-''}) token)
       (connector_failed ''credential_invalid'')) (\<lambda>_.
       Inr \<lparr>hq_url = ''https://api.telegram.org/bot'' @ token @ ''/sendMessage'', hq_headers = [(''content-type'', ''application/json'')],
         hq_body = JObj ([(''chat_id'', JStr (om_conversationExternalId m)), (''text'', JStr (om_text m))]
           @ optional_entry ''message_thread_id'' (truthy (om_threadExternalId m)))\<rparr>))"

definition telegram_answer :: "(jsval \<Rightarrow> string) \<Rightarrow> http_answer option \<Rightarrow> connector_error + string" where
  "telegram_answer text_of answer = bind_result (safeFetch answer) (\<lambda>a. bind_result (jsonResponse a) (\<lambda>body.
     Inr (text_or_unknown text_of (recordAt [''result'', ''message_id''] body))))"

definition discord_request :: "(string \<Rightarrow> string) \<Rightarrow> string \<Rightarrow> outbound_message \<Rightarrow> connector_error + http_request" where
  "discord_request encode token m =
     bind_result (validateOutbound m 2000) (\<lambda>_.
     bind_result (throw_if (token = []) (connector_failed ''credential_invalid'')) (\<lambda>_.
       Inr \<lparr>hq_url = ''https://discord.com/api/v10/channels/'' @ encode (om_conversationExternalId m) @ ''/messages'',
         hq_headers = [(''authorization'', ''Bot '' @ token), (''content-type'', ''application/json'')],
         hq_body = JObj [(''content'', JStr (om_text m))]\<rparr>))"

definition discord_answer :: "(jsval \<Rightarrow> string) \<Rightarrow> http_answer option \<Rightarrow> connector_error + string" where
  "discord_answer text_of answer = bind_result (safeFetch answer) (\<lambda>a. bind_result (jsonResponse a) (\<lambda>body.
     Inr (text_or_unknown text_of (recordAt [''id''] body))))"

definition slack_request :: "string \<Rightarrow> outbound_message \<Rightarrow> connector_error + http_request" where
  "slack_request token m =
     bind_result (validateOutbound m 40000) (\<lambda>_.
     bind_result (throw_if (token = []) (connector_failed ''credential_invalid'')) (\<lambda>_.
       Inr \<lparr>hq_url = ''https://slack.com/api/chat.postMessage'',
         hq_headers = [(''authorization'', ''Bearer '' @ token), (''content-type'', ''application/json; charset=utf-8'')],
         hq_body = JObj ([(''channel'', JStr (om_conversationExternalId m)), (''text'', JStr (om_text m))]
           @ optional_entry ''thread_ts'' (truthy (om_threadExternalId m)))\<rparr>))"

definition slack_answer :: "(jsval \<Rightarrow> string) \<Rightarrow> http_answer option \<Rightarrow> connector_error + string" where
  "slack_answer text_of answer = bind_result (safeFetch answer) (\<lambda>a. bind_result (jsonResponse a) (\<lambda>body.
     bind_result (throw_if (recordAt [''ok''] body \<noteq> JBool True) (connector_failed ''connector_rejected'')) (\<lambda>_.
       Inr (text_or_unknown text_of (recordAt [''ts''] body)))))"

text \<open>A parsed URL: protocol, host name, whether it has credentials, a query or a fragment, and its text.\<close>

record callback_url =
  cu_protocol :: string
  cu_hostname :: string
  cu_extras :: bool
  cu_text :: string

definition callback_allowed :: "callback_url \<Rightarrow> bool" where
  "callback_allowed u \<longleftrightarrow> (cu_protocol u = ''https:''
     \<or> cu_protocol u = ''http:'' \<and> cu_hostname u \<in> {''127.0.0.1'', ''localhost'', ''::1''}) \<and> \<not> cu_extras u"

definition webhook_body :: "outbound_message \<Rightarrow> jsval" where
  "webhook_body m = JObj ((''conversationExternalId'', JStr (om_conversationExternalId m))
     # optional_entry ''threadExternalId'' (truthy (om_threadExternalId m)) @ (''text'', JStr (om_text m))
     # optional_entry ''idempotencyKey'' (truthy (om_idempotencyKey m)))"

text \<open>\<open>json\<close> is \<open>JSON.stringify\<close>.\<close>

definition webhook_request ::
  "(string \<Rightarrow> string \<Rightarrow> string) \<Rightarrow> (jsval \<Rightarrow> string) \<Rightarrow> callback_url \<Rightarrow> string \<Rightarrow> outbound_message \<Rightarrow> connector_error + http_request" where
  "webhook_request hmac json u secret m =
     bind_result (validateOutbound m 200000) (\<lambda>_.
     bind_result (throw_if (\<not> callback_allowed u) (connector_failed ''callback_target_invalid'')) (\<lambda>_.
       Inr \<lparr>hq_url = cu_text u,
         hq_headers = [(''content-type'', ''application/json''), (''x-lite-signature'', ''sha256='' @ hmac secret (json (webhook_body m)))]
           @ (case truthy (om_idempotencyKey m) of None \<Rightarrow> [] | Some k \<Rightarrow> [(''idempotency-key'', k)]),
         hq_body = webhook_body m\<rparr>))"

definition webhook_answer :: "outbound_message \<Rightarrow> http_answer option \<Rightarrow> connector_error + string" where
  "webhook_answer m answer = bind_result (safeFetch answer) (\<lambda>a.
     bind_result (if answer_ok a then Inr () else bind_result (jsonResponse a) (\<lambda>_. Inr ())) (\<lambda>_.
       Inr (nullish (ha_deliveryId a) (nullish (om_idempotencyKey m) ''accepted''))))"

section \<open>Signed callbacks of applications\<close>

text \<open>Characters are bytes: \<open>json\<close> is the encoded \<open>JSON.stringify\<close>, \<open>parse\<close> is \<open>JSON.parse\<close>.\<close>

datatype callback_error =
    CallbackUrlForbidden
  | CallbackActionInvalid
  | CallbackRequestTooLarge
  | CallbackFailed connector_error

record app_callback =
  ac_appId :: string
  ac_action :: string
  ac_input :: jsval
  ac_idempotencyKey :: string

definition is_callback_action :: "string \<Rightarrow> bool" where
  "is_callback_action s \<longleftrightarrow> (case s of [] \<Rightarrow> False
     | c # cs \<Rightarrow> is_lower c \<and> length cs \<le> 127 \<and> list_all (\<lambda>c. is_lower c \<or> is_digit c \<or> c \<in> {CHR ''.'', CHR ''_'', CHR ''-''}) cs)"

definition app_callback_value :: "app_callback \<Rightarrow> jsval" where
  "app_callback_value q = JObj [(''appId'', JStr (ac_appId q)), (''action'', JStr (ac_action q)), (''input'', ac_input q),
     (''idempotencyKey'', JStr (ac_idempotencyKey q))]"

definition app_callback_request :: "(string \<Rightarrow> string \<Rightarrow> string) \<Rightarrow> (jsval \<Rightarrow> string) \<Rightarrow> nat \<Rightarrow> callback_url \<Rightarrow> string \<Rightarrow> app_callback
    \<Rightarrow> callback_error + http_request" where
  "app_callback_request hmac json seconds u secret q =
     bind_result (throw_if (\<not> callback_allowed u) CallbackUrlForbidden) (\<lambda>_.
     bind_result (throw_if (\<not> is_callback_action (ac_action q)) CallbackActionInvalid) (\<lambda>_.
     let body = json (app_callback_value q); time = nat_digits seconds in
     bind_result (throw_if (1024 * 1024 < length body) CallbackRequestTooLarge) (\<lambda>_.
       Inr \<lparr>hq_url = cu_text u, hq_headers = [(''content-type'', ''application/json''), (''idempotency-key'', ac_idempotencyKey q),
           (''x-lite-timestamp'', time), (''x-lite-signature'', ''v1='' @ hmac secret (''v1:'' @ time @ '':'' @ body))],
         hq_body = app_callback_value q\<rparr>)))"

text \<open>The chunks of an answer, as long as they stay within the limit.\<close>

primrec boundedResponseBytes :: "nat \<Rightarrow> string \<Rightarrow> string list \<Rightarrow> connector_error + string" where
  "boundedResponseBytes maximum got [] = Inr got"
| "boundedResponseBytes maximum got (chunk # chunks) =
     bind_result (throw_if (maximum < length (got @ chunk)) (connector_failed ''callback_response_too_large'')) (\<lambda>_.
       boundedResponseBytes maximum (got @ chunk) chunks)"

definition app_callback_answer :: "(string \<Rightarrow> jsval option) \<Rightarrow> nat \<Rightarrow> string list \<Rightarrow> http_answer option \<Rightarrow> connector_error + jsval" where
  "app_callback_answer parse maximum chunks answer = bind_result (safeFetch answer) (\<lambda>a.
     bind_result (if answer_ok a then Inr () else bind_result (jsonResponse a) (\<lambda>_. Inr ())) (\<lambda>_.
     bind_result (boundedResponseBytes maximum [] chunks) (\<lambda>bytes.
       if bytes = [] then Inr JNull else from_option (connector_failed ''callback_invalid_response'') (parse bytes))))"

end
