(* ===== verification/IntegrationProperties.thy ===== *)
theory IntegrationProperties
  imports Integrations
begin

text \<open>
  What the integrations guarantee, whatever several routers and coordinators do at the same time: a delivery starts at most one run, on
  behalf of a binding of its sender; nobody begins to answer a delivery that is answered or has failed; and what was accepted
  can be read again.
\<close>

section \<open>Envelopes\<close>

lemma string_values_map [simp]: "string_values (map JStr ss) = Some ss"
  by (induction ss) auto

lemma string_values_length: "string_values vs = Some ss \<Longrightarrow> length ss = length vs"
  by (induction vs arbitrary: ss rule: string_values.induct) auto

lemma envelope_fields [simp]:
  "inbound_record (envelope_value e) = Inr (case envelope_value e of JObj ob \<Rightarrow> ob | _ \<Rightarrow> [])"
  by (simp add: inbound_record_def envelope_value_def)

lemma field_names:
  "map_of (optional_entry f s) k = (if k = f then map_option JStr s else None)"
  by (simp add: optional_entry_def split: option.split)

lemma required_Inr [result_simps]:
  "required_field ob f = Inr s \<longleftrightarrow> obj_get ob f = JStr s \<and> trim s \<noteq> [] \<and> length s \<le> (if f = ''text'' then 200000 else 512)"
  by (auto simp: required_field_def split: option.splits)

lemma optional_Inr [result_simps]:
  "optional_field ob f = Inr s \<longleftrightarrow> (case s of None \<Rightarrow> obj_get ob f = JUndef
     | Some t \<Rightarrow> obj_get ob f = JStr t \<and> trim t \<noteq> [] \<and> length t \<le> 512)"
  by (auto simp: optional_field_def split: jsval.splits option.splits if_splits)

lemma received_Inr [result_simps]:
  "received_at x now ob = Inr s \<longleftrightarrow> iw_date x s \<and> (obj_get ob ''receivedAt'' = JUndef \<and> s = now
     \<or> obj_get ob ''receivedAt'' = JStr s \<and> s \<noteq> [] \<and> length s \<le> 128 \<and> \<not> list_all is_blank s)"
  by (auto simp: received_at_def result_simps split: jsval.splits if_splits)

definition envelope_object :: "inbound_envelope \<Rightarrow> jsobject" where
  "envelope_object e = (case envelope_value e of JObj ob \<Rightarrow> ob | _ \<Rightarrow> [])"

lemma envelope_gets:
  "obj_get (envelope_object e) ''connectorId'' = JStr (ie_connectorId e)"
  "obj_get (envelope_object e) ''accountId'' = JStr (ie_accountId e)"
  "obj_get (envelope_object e) ''deliveryId'' = JStr (ie_deliveryId e)"
  "obj_get (envelope_object e) ''senderExternalId'' = JStr (ie_senderExternalId e)"
  "obj_get (envelope_object e) ''text'' = JStr (ie_text e)"
  "obj_get (envelope_object e) ''attachmentUrls'' = JArr (map JStr (ie_attachmentUrls e))"
  "obj_get (envelope_object e) ''receivedAt'' = JStr (ie_receivedAt e)"
  "obj_get (envelope_object e) ''threadExternalId'' = (case ie_threadExternalId e of None \<Rightarrow> JUndef | Some s \<Rightarrow> JStr s)"
  "obj_get (envelope_object e) ''conversationExternalId'' = (case ie_conversationExternalId e of None \<Rightarrow> JUndef | Some s \<Rightarrow> JStr s)"
  by (simp_all add: envelope_object_def envelope_value_def optional_entry_def split: option.splits)

lemma value_object: "envelope_value e = JObj (envelope_object e)"
  by (simp add: envelope_object_def envelope_value_def)

text \<open>Reading a stored envelope gives it back, with another digest, when it is within the limits.\<close>

lemma normalize_stored:
  "normalizeInbound x now (envelope_value e) = Inr e' \<Longrightarrow> e' = e\<lparr>ie_rawDigest := Some (iw_valueDigest x (envelope_value e))\<rparr>"
  unfolding value_object
  by (cases e) (auto simp: normalizeInbound_def inbound_record_def result_simps envelope_gets attachment_list_def split: option.splits if_splits)

text \<open>Whatever was accepted as an inbound envelope can be read again from the store: normalizing its stored form returns
  the same envelope (with the digest of the stored form), whenever that is done. The clock only has to give a text of at most 128
  characters that is not blank, as \<open>toISOString\<close> does.\<close>

theorem stored_envelope_readable:
  assumes "normalizeInbound x now v = Inr e" and "length now \<le> 128" and "\<not> list_all is_blank now"
  shows "normalizeInbound x now' (envelope_value e) = Inr (e\<lparr>ie_rawDigest := Some (iw_valueDigest x (envelope_value e))\<rparr>)"
proof -
  obtain ob where ob: "inbound_record v = Inr ob"
    and f: "required_field ob ''connectorId'' = Inr (ie_connectorId e)" "required_field ob ''accountId'' = Inr (ie_accountId e)"
      "required_field ob ''deliveryId'' = Inr (ie_deliveryId e)" "required_field ob ''senderExternalId'' = Inr (ie_senderExternalId e)"
      "required_field ob ''text'' = Inr (ie_text e)" "attachment_list ob = Inr (ie_attachmentUrls e)"
      "check_attachments x (ie_attachmentUrls e) = Inr ()" "received_at x now ob = Inr (ie_receivedAt e)"
      "optional_field ob ''threadExternalId'' = Inr (ie_threadExternalId e)"
      "optional_field ob ''conversationExternalId'' = Inr (ie_conversationExternalId e)"
    using assms by (auto simp: normalizeInbound_def result_simps)
  have urls: "length (ie_attachmentUrls e) \<le> 32"
    using f(6) by (auto simp: attachment_list_def dest: string_values_length split: jsval.splits if_splits option.splits)
  have received: "received_at x now' (envelope_object e) = Inr (ie_receivedAt e)"
    using f(8) assms(2,3) by (auto simp: received_Inr envelope_gets)
  have "optional_field (envelope_object e) ''threadExternalId'' = Inr (ie_threadExternalId e)"
    "optional_field (envelope_object e) ''conversationExternalId'' = Inr (ie_conversationExternalId e)"
    using f(9,10) by (auto simp: optional_Inr envelope_gets split: option.splits)
  moreover have "attachment_list (envelope_object e) = Inr (ie_attachmentUrls e)"
    using urls by (simp add: attachment_list_def envelope_gets)
  ultimately show ?thesis
    using f received by (cases e) (simp add: normalizeInbound_def value_object inbound_record_def result_simps envelope_gets)
qed

section \<open>The system\<close>

text \<open>Besides the database: the envelopes whose run is being started, the runs that were started, what the coordinators
  have listed, what is being sent, and all that was sent.\<close>

record delivery_world =
  wd_db :: integration_db
  wd_routing :: "inbound_envelope list"
  wd_started :: "(inbound_envelope \<times> integration_binding) list"
  wd_listed :: "(inbound_envelope \<times> delivery_receipt) list"
  wd_sending :: "(string \<times> inbound_envelope) list"
  wd_requests :: "delivery_key list"

definition no_deliveries :: delivery_world where
  "no_deliveries = \<lparr>wd_db = \<lparr>it_bindings = [], it_deliveries = []\<rparr>, wd_routing = [], wd_started = [], wd_listed = [],
     wd_sending = [], wd_requests = []\<rparr>"

text \<open>Each step is what a router or a coordinator does between two awaits.\<close>

inductive delivery_step :: "inbound_world \<Rightarrow> delivery_world \<Rightarrow> delivery_world \<Rightarrow> bool" for x where
  Bind: "delivery_step x w (w\<lparr>wd_db := bind_integration b (wd_db w)\<rparr>)"
| RouteRefused: "route_begin x now e (wd_db w) = (r, db') \<Longrightarrow> \<forall>b e' sess. r \<noteq> Inr (StartRun b e' sess)
    \<Longrightarrow> delivery_step x w (w\<lparr>wd_db := db'\<rparr>)"
| RouteBegin: "route_begin x now e (wd_db w) = (Inr (StartRun b e' sess), db')
    \<Longrightarrow> delivery_step x w (w\<lparr>wd_db := db', wd_routing := e # wd_routing w, wd_started := wd_started w @ [(e, b)]\<rparr>)"
| RouteEnd: "e \<in> set (wd_routing w) \<Longrightarrow> route_end now e started (wd_db w) = (r, db')
    \<Longrightarrow> delivery_step x w (w\<lparr>wd_db := db', wd_routing := remove1 e (wd_routing w)\<rparr>)"
| Listed: "listPendingReplies x now rank limit (wd_db w) = Inr items
    \<Longrightarrow> delivery_step x w (w\<lparr>wd_listed := items @ wd_listed w\<rparr>)"
| TickIdle: "item \<in> set (wd_listed w) \<Longrightarrow> tick_claim connectors owner now clock item outcome (wd_db w) = (r, db')
    \<Longrightarrow> \<forall>m. r \<noteq> Inr (Some m) \<Longrightarrow> delivery_step x w (w\<lparr>wd_db := db'\<rparr>)"
| TickClaim: "(e, receipt) \<in> set (wd_listed w)
    \<Longrightarrow> tick_claim connectors owner now clock (e, receipt) outcome (wd_db w) = (Inr (Some m), db')
    \<Longrightarrow> delivery_step x w (w\<lparr>wd_db := db', wd_sending := (owner, e) # wd_sending w,
          wd_requests := wd_requests w @ [delivery_of e]\<rparr>)"
| TickSent: "(owner, e) \<in> set (wd_sending w) \<Longrightarrow> tick_sent owner clock e result (wd_db w) = (r, db')
    \<Longrightarrow> delivery_step x w (w\<lparr>wd_db := db', wd_sending := remove1 (owner, e) (wd_sending w)\<rparr>)"

inductive_cases delivery_stepE: "delivery_step x w w'"

definition delivery_reachable :: "inbound_world \<Rightarrow> delivery_world \<Rightarrow> bool" where
  "delivery_reachable x w \<longleftrightarrow> (delivery_step x)\<^sup>*\<^sup>* no_deliveries w"

section \<open>What the operations do to a delivery\<close>

definition delivery_row_of :: "integration_db \<Rightarrow> delivery_key \<Rightarrow> delivery_row option" where
  "delivery_row_of db k = List.find (\<lambda>r. dr_key r = k) (it_deliveries db)"

text \<open>Only the row of \<open>k\<close> changes, by \<open>f\<close>.\<close>

definition only_row :: "delivery_key \<Rightarrow> (delivery_row \<Rightarrow> delivery_row) \<Rightarrow> integration_db \<Rightarrow> integration_db \<Rightarrow> bool" where
  "only_row k f db db' \<longleftrightarrow> it_bindings db' = it_bindings db
     \<and> map dr_key (it_deliveries db') = map dr_key (it_deliveries db) \<and> delivery_row_of db' k = map_option f (delivery_row_of db k)
     \<and> (\<forall>k'. k' \<noteq> k \<longrightarrow> delivery_row_of db' k' = delivery_row_of db k')"

lemma find_key_update:
  assumes "\<And>r. dr_key (f r) = dr_key r" and "\<And>r. p r \<Longrightarrow> dr_key r = k"
  shows "List.find (\<lambda>r. dr_key r = k') (update_rows p f t)
    = (if k' = k then map_option (\<lambda>r. if p r then f r else r) (List.find (\<lambda>r. dr_key r = k) t) else List.find (\<lambda>r. dr_key r = k') t)"
  using assms by (induction t) auto

lemma rows_only:
  assumes "\<And>r. dr_key (f r) = dr_key r" and "\<And>r. p r \<Longrightarrow> dr_key r = k"
  shows "only_row k (\<lambda>r. if p r then f r else r) db (db\<lparr>it_deliveries := update_rows p f (it_deliveries db)\<rparr>)"
  using find_key_update [of f p k, OF assms] map_update_rows_frame [of p dr_key f "it_deliveries db"] assms(1)
  by (simp add: only_row_def delivery_row_of_def)

lemma only_row_cong: "only_row k f db db' \<Longrightarrow> (\<And>r. dr_key r = k \<Longrightarrow> f r = g r) \<Longrightarrow> only_row k g db db'"
  by (auto simp: only_row_def delivery_row_of_def intro!: option.map_cong dest: find_SomeD)

text \<open>An operation on a delivery: its row, if there is one, is related to what it was by \<open>R\<close>.\<close>

definition row_related :: "(delivery_row \<Rightarrow> delivery_row \<Rightarrow> bool) \<Rightarrow> delivery_key \<Rightarrow> integration_db \<Rightarrow> integration_db \<Rightarrow> bool" where
  "row_related R k db db' \<longleftrightarrow> it_bindings db' = it_bindings db \<and> map dr_key (it_deliveries db') = map dr_key (it_deliveries db)
     \<and> rel_option R (delivery_row_of db k) (delivery_row_of db' k) \<and> (\<forall>k'. k' \<noteq> k \<longrightarrow> delivery_row_of db' k' = delivery_row_of db k')"

lemma only_row_related:
  "only_row k f db db' \<Longrightarrow> (\<And>r. delivery_row_of db k = Some r \<Longrightarrow> R r (f r)) \<Longrightarrow> row_related R k db db'"
  by (cases "delivery_row_of db k") (auto simp: only_row_def row_related_def)

lemma row_related_same: "(\<And>r. R r r) \<Longrightarrow> row_related R k db db"
  by (simp add: row_related_def option.rel_refl)

text \<open>The envelope and the key stay; the run stays once it is known.\<close>

definition same_delivery :: "delivery_row \<Rightarrow> delivery_row \<Rightarrow> bool" where
  "same_delivery r r' \<longleftrightarrow> dr_key r' = dr_key r \<and> dr_envelope r' = dr_envelope r"

lemma update_related:
  assumes "update_delivery now st run reply err k db = (r, db')"
  shows "row_related (\<lambda>d d'. same_delivery d d' \<and> dr_status d' = st \<and> dr_runId d' = coalesce run (dr_runId d)) k db db'"
proof -
  have "db' = db\<lparr>it_deliveries := update_rows (\<lambda>d. dr_key d = k) (\<lambda>d. d\<lparr>dr_status := st, dr_runId := coalesce run (dr_runId d),
      dr_replyExternalId := coalesce reply (dr_replyExternalId d), dr_errorCode := coalesce err (dr_errorCode d),
      dr_updatedAt := now\<rparr>) (it_deliveries db)\<rparr>"
    using assms by (auto simp: update_delivery_def Let_def)
  then show ?thesis
    by (simp only:) (rule only_row_related [OF rows_only], auto simp: same_delivery_def delivery_row_of_def dest: find_SomeD)
qed

lemma row_related_mono:
  "row_related R k db db' \<Longrightarrow> (\<And>r r'. delivery_row_of db k = Some r \<Longrightarrow> R r r' \<Longrightarrow> S r r') \<Longrightarrow> row_related S k db db'"
  by (cases "delivery_row_of db k") (auto simp: row_related_def rel_option_iff split: option.splits)

lemma row_related_trans: "row_related R k db db' \<Longrightarrow> row_related S k db' db'' \<Longrightarrow> row_related (R OO S) k db db''"
  unfolding row_related_def by (simp add: option.rel_compp) (auto intro: relcomppI)

lemma related_other: "row_related R k db db' \<Longrightarrow> k' \<noteq> k \<Longrightarrow> delivery_row_of db' k' = delivery_row_of db k'"
  unfolding row_related_def by blast

lemma related_row:
  "row_related R k db db' \<Longrightarrow> delivery_row_of db k = Some r \<Longrightarrow> \<exists>r'. delivery_row_of db' k = Some r' \<and> R r r'"
  "row_related R k db db' \<Longrightarrow> delivery_row_of db' k = Some r' \<Longrightarrow> \<exists>r. delivery_row_of db k = Some r \<and> R r r'"
  by (auto simp: row_related_def rel_option_iff split: option.splits)

text \<open>What a coordinator does to a delivery: the run stays, and what is answered or has failed stays so.\<close>

definition settled_reply :: "delivery_row \<Rightarrow> bool" where
  "settled_reply r \<longleftrightarrow> dr_status r = DeliveryReplied \<or> dr_status r = DeliveryFailed"

definition reply_rel :: "delivery_row \<Rightarrow> delivery_row \<Rightarrow> bool" where
  "reply_rel r r' \<longleftrightarrow> same_delivery r r' \<and> dr_runId r' = dr_runId r \<and> (settled_reply r \<longrightarrow> settled_reply r')"

lemma reply_rel_refl [simp]: "reply_rel r r" by (simp add: reply_rel_def same_delivery_def)

lemma reply_rel_trans: "(reply_rel OO reply_rel) r r' \<Longrightarrow> reply_rel r r'"
  by (auto simp: reply_rel_def same_delivery_def)

lemma markFailed_related: "markFailed now k err db = (r, db') \<Longrightarrow> row_related reply_rel k db db'"
  unfolding markFailed_def by (drule update_related, erule row_related_mono) (auto simp: reply_rel_def settled_reply_def coalesce_def)

lemma claimReply_related:
  assumes "claimReply k owner now db = (b, db')"
  shows "row_related reply_rel k db db'" "b \<Longrightarrow> \<exists>r\<in>set (it_deliveries db). dr_key r = k \<and> \<not> settled_reply r"
proof -
  from assms have db': "db' = db\<lparr>it_deliveries := update_rows (claimable_reply now k) (\<lambda>r. r\<lparr>dr_status := Delivering, dr_owner := Some owner,
        dr_leaseExpiresAt := Some (now + reply_leaseMs), dr_updatedAt := now\<rparr>) (it_deliveries db)\<rparr>"
    and b: "b \<longleftrightarrow> count_rows (claimable_reply now k) (it_deliveries db) = 1"
    by (simp_all add: claimReply_def eq_commute)
  show "row_related reply_rel k db db'"
    unfolding db' by (rule only_row_related [OF rows_only])
      (auto simp: claimable_reply_def reply_rel_def same_delivery_def settled_reply_def)
  assume b
  with b have "filter (claimable_reply now k) (it_deliveries db) \<noteq> []" by (auto simp: count_rows_def)
  then obtain r where "r \<in> set (it_deliveries db)" "claimable_reply now k r" by (auto simp: filter_empty_conv)
  then show "\<exists>r\<in>set (it_deliveries db). dr_key r = k \<and> \<not> settled_reply r"
    by (auto simp: claimable_reply_def settled_reply_def)
qed

lemma releaseReply_related: "row_related reply_rel k db (snd (releaseReply now k owner err db))"
  unfolding releaseReply_def snd_conv
  by (rule only_row_related [OF rows_only]) (auto simp: releasable_reply_def reply_rel_def same_delivery_def settled_reply_def)

lemma markReply_related:
  assumes "markReply now k reply db = (r, db')" shows "row_related reply_rel k db db'"
proof -
  obtain r1 db1 where u: "update_delivery now DeliveryReplied None (Some reply) None k db = (r1, db1)" by fastforce
  have 1: "row_related reply_rel k db db1"
    by (rule row_related_mono [OF update_related [OF u]]) (simp add: reply_rel_def settled_reply_def coalesce_def)
  have 2: "row_related reply_rel k db1 (db1\<lparr>it_deliveries := update_rows (\<lambda>r. dr_key r = k)
      (\<lambda>r. r\<lparr>dr_owner := None, dr_leaseExpiresAt := None\<rparr>) (it_deliveries db1)\<rparr>)"
    by (rule only_row_related [OF rows_only]) (auto simp: reply_rel_def same_delivery_def settled_reply_def)
  show ?thesis
  proof (cases r1)
    case (Inl e)
    with assms u 1 show ?thesis by (simp add: markReply_def)
  next
    case (Inr q)
    with assms u have "db' = db1\<lparr>it_deliveries := update_rows (\<lambda>r. dr_key r = k)
      (\<lambda>r. r\<lparr>dr_owner := None, dr_leaseExpiresAt := None\<rparr>) (it_deliveries db1)\<rparr>" by (simp add: markReply_def)
    with row_related_mono [OF row_related_trans [OF 1 2]] reply_rel_trans show ?thesis by blast
  qed
qed

lemma tick_claim_related:
  assumes "tick_claim connectors owner now clock (e, receipt) outcome db = (r, db')"
  shows "row_related reply_rel (delivery_of e) db db'" "dc_runId receipt = None \<Longrightarrow> db' = db"
    "r = Inr (Some m) \<Longrightarrow> dc_runId receipt \<noteq> None \<and> (\<exists>d\<in>set (it_deliveries db). dr_key d = delivery_of e \<and> \<not> settled_reply d)"
proof -
  have same: "row_related reply_rel (delivery_of e) db db" by (rule row_related_same) simp
  show "row_related reply_rel (delivery_of e) db db'"
    using assms same
    by (auto simp: tick_claim_def split: if_splits prod.splits sum.splits bool.splits dest: markFailed_related claimReply_related(1))
  show "dc_runId receipt = None \<Longrightarrow> db' = db" using assms by (simp add: tick_claim_def)
  show "r = Inr (Some m) \<Longrightarrow> dc_runId receipt \<noteq> None \<and> (\<exists>d\<in>set (it_deliveries db). dr_key d = delivery_of e \<and> \<not> settled_reply d)"
    using assms by (auto simp: tick_claim_def split: if_splits prod.splits sum.splits bool.splits dest: claimReply_related(2))
qed

lemma tick_sent_related:
  assumes "tick_sent owner clock e result db = (r, db')" shows "row_related reply_rel (delivery_of e) db db'"
proof -
  have fail: "row_related reply_rel (delivery_of e) db1 db2"
    if "(case markFailed clock (delivery_of e) err db1 of (Inl x, db') \<Rightarrow> (Inl x, db') | (Inr r, db') \<Rightarrow> (Inr False, db')) = (q, db2)"
    for err db1 db2 and q :: "integration_error + bool"
    using that by (auto split: prod.splits sum.splits dest: markFailed_related)
  show ?thesis
  proof (cases result)
    case (Sent i)
    obtain r1 db1 where m: "markReply clock (delivery_of e) i db = (r1, db1)" by fastforce
    note 1 = markReply_related [OF m]
    show ?thesis
    proof (cases r1)
      case Inl
      with assms Sent m have "row_related reply_rel (delivery_of e) db1 db'"
        by (auto simp: tick_sent_def Let_def split: prod.splits sum.splits dest: markFailed_related)
      with row_related_mono [OF row_related_trans [OF 1 this]] reply_rel_trans show ?thesis by blast
    qed (use assms Sent m 1 in \<open>auto simp: tick_sent_def Let_def\<close>)
  next
    case (ConnectorError code retryable)
    with assms show ?thesis
      using releaseReply_related [of "delivery_of e" db clock owner code]
      by (cases retryable) (auto simp: tick_sent_def Let_def split: prod.splits sum.splits dest: markFailed_related)
  next
    case OtherError
    with assms fail show ?thesis by (auto simp: tick_sent_def Let_def)
  qed
qed

definition keeps_run :: "delivery_row \<Rightarrow> delivery_row \<Rightarrow> bool" where
  "keeps_run r r' \<longleftrightarrow> same_delivery r r' \<and> (dr_runId r \<noteq> None \<longrightarrow> dr_runId r' \<noteq> None)"

lemma reply_keeps_run: "reply_rel r r' \<Longrightarrow> keeps_run r r'"
  by (simp add: reply_rel_def keeps_run_def)

lemma markRun_related: "markRun now k run db = (r, db') \<Longrightarrow> row_related keeps_run k db db'"
  unfolding markRun_def by (drule update_related, erule row_related_mono) (auto simp: keeps_run_def coalesce_def)

lemma route_end_related:
  assumes "route_end now e started db = (r, db')" shows "row_related keeps_run (delivery_of e) db db'"
proof -
  have same: "row_related keeps_run (delivery_of e) db db" by (rule row_related_same) (simp add: keeps_run_def same_delivery_def)
  have fail: "row_related keeps_run (delivery_of e) db1 db2" if "markFailed now (delivery_of e) err db1 = (q, db2)" for err db1 db2 q
    using row_related_mono [OF markFailed_related [OF that]] reply_keeps_run by blast
  have trans: "row_related keeps_run (delivery_of e) db db2"
    if "row_related keeps_run (delivery_of e) db db1" "row_related keeps_run (delivery_of e) db1 db2" for db1 db2
    by (rule row_related_mono [OF row_related_trans [OF that]]) (auto simp: keeps_run_def same_delivery_def)
  show ?thesis
  proof (cases started)
    case None
    with assms show ?thesis by (auto simp: route_end_def Let_def split: prod.splits sum.splits dest: fail)
  next
    case (Some run)
    obtain r1 db1 where m: "markRun now (delivery_of e) run db = (r1, db1)" by fastforce
    note 1 = markRun_related [OF m]
    show ?thesis
    proof (cases r1)
      case (Inl err)
      with assms Some m have "row_related keeps_run (delivery_of e) db1 db'"
        by (auto simp: route_end_def Let_def split: prod.splits sum.splits dest: fail)
      with 1 show ?thesis by (rule trans)
    qed (use assms Some m 1 in \<open>auto simp: route_end_def Let_def\<close>)
  qed
qed

section \<open>The invariant\<close>

lemma row_of_in: "delivery_row_of db k = Some r \<Longrightarrow> r \<in> set (it_deliveries db) \<and> dr_key r = k"
  by (auto simp: delivery_row_of_def dest: find_SomeD)

lemma row_of_unique: "distinct (map dr_key (it_deliveries db)) \<Longrightarrow> r \<in> set (it_deliveries db) \<Longrightarrow> delivery_row_of db (dr_key r) = Some r"
  by (simp add: delivery_row_of_def find_unique_key)

definition from_envelope :: "delivery_row \<Rightarrow> bool" where
  "from_envelope r \<longleftrightarrow> (\<exists>e. dr_envelope r = envelope_value e \<and> delivery_of e = dr_key r)"

definition has_run :: "integration_db \<Rightarrow> delivery_key \<Rightarrow> bool" where
  "has_run db k \<longleftrightarrow> (\<exists>r. delivery_row_of db k = Some r \<and> dr_runId r \<noteq> None)"

definition waits_for_run :: "integration_db \<Rightarrow> delivery_key \<Rightarrow> bool" where
  "waits_for_run db k \<longleftrightarrow> (\<exists>r. delivery_row_of db k = Some r \<and> dr_runId r = None \<and> \<not> settled_reply r)"

definition bound_for :: "inbound_envelope \<Rightarrow> integration_binding \<Rightarrow> bool" where
  "bound_for e b \<longleftrightarrow> ib_connectorId b = ie_connectorId e \<and> ib_accountId b = ie_accountId e
     \<and> (ib_senderExternalId b = ie_senderExternalId e \<or> ib_senderExternalId b = ''*'')"

definition delivery_inv :: "delivery_world \<Rightarrow> bool" where
  "delivery_inv w \<longleftrightarrow> distinct (map dr_key (it_deliveries (wd_db w)))
     \<and> (\<forall>r\<in>set (it_deliveries (wd_db w)). from_envelope r)
     \<and> distinct (map delivery_of (wd_routing w)) \<and> (\<forall>e\<in>set (wd_routing w). waits_for_run (wd_db w) (delivery_of e))
     \<and> (\<forall>(e, receipt)\<in>set (wd_listed w). dc_runId receipt \<noteq> None \<longrightarrow> has_run (wd_db w) (delivery_of e))
     \<and> (\<forall>(owner, e)\<in>set (wd_sending w). has_run (wd_db w) (delivery_of e))
     \<and> distinct (map (delivery_of \<circ> fst) (wd_started w))
     \<and> (\<forall>(e, b)\<in>set (wd_started w). delivery_of e \<in> dr_key ` set (it_deliveries (wd_db w)) \<and> bound_for e b)"

text \<open>An operation on one delivery that is not waiting for its run.\<close>

lemma related_from_envelope:
  assumes "row_related R k db db'" and "\<And>r r'. R r r' \<Longrightarrow> same_delivery r r'" and "distinct (map dr_key (it_deliveries db))"
    and "\<forall>r\<in>set (it_deliveries db). from_envelope r"
  shows "\<forall>r\<in>set (it_deliveries db'). from_envelope r"
proof
  fix r
  assume r: "r \<in> set (it_deliveries db')"
  have keys: "map dr_key (it_deliveries db') = map dr_key (it_deliveries db)" using assms(1) by (simp add: row_related_def)
  then have row: "delivery_row_of db' (dr_key r) = Some r" using row_of_unique [OF _ r] assms(3) by simp
  show "from_envelope r"
  proof (cases "dr_key r = k")
    case False
    from related_other [OF assms(1) this] row have "delivery_row_of db (dr_key r) = Some r" by simp
    with row_of_in assms(4) show ?thesis by blast
  next
    case True
    with related_row(2) [OF assms(1)] row obtain r0 where r0: "delivery_row_of db k = Some r0" "R r0 r" by auto
    with assms(2) have "same_delivery r0 r" by blast
    with row_of_in [OF r0(1)] assms(4) show ?thesis by (auto simp: from_envelope_def same_delivery_def)
  qed
qed

lemma related_has_run:
  assumes "row_related R k db db'" and "\<And>r r'. R r r' \<Longrightarrow> keeps_run r r'" and "has_run db k'"
  shows "has_run db' k'"
proof (cases "k' = k")
  case True
  with assms(3) obtain r where r: "delivery_row_of db k = Some r" "dr_runId r \<noteq> None" by (auto simp: has_run_def)
  with related_row(1) [OF assms(1) r(1)] assms(2) True show ?thesis by (auto simp: has_run_def keeps_run_def)
next
  case False
  from related_other [OF assms(1) False] assms(3) show ?thesis by (simp add: has_run_def)
qed

lemma related_waits: "row_related R k db db' \<Longrightarrow> k' \<noteq> k \<Longrightarrow> waits_for_run db k' \<Longrightarrow> waits_for_run db' k'"
  by (simp add: waits_for_run_def related_other)

lemma waits_has: "has_run db k \<Longrightarrow> \<not> waits_for_run db k"
  by (auto simp: has_run_def waits_for_run_def)

lemma inv_related:
  assumes inv: "delivery_inv w" and rel: "row_related R k (wd_db w) db'" and R: "\<And>r r'. R r r' \<Longrightarrow> keeps_run r r'"
    and other: "\<forall>e\<in>set routing. delivery_of e \<noteq> k" and sub: "set routing \<subseteq> set (wd_routing w)" "distinct (map delivery_of routing)"
    and sending: "set sending \<subseteq> set (wd_sending w) \<union> {p. delivery_of (snd p) = k \<and> has_run (wd_db w) k}"
  shows "delivery_inv (w\<lparr>wd_db := db', wd_routing := routing, wd_sending := sending, wd_requests := requests\<rparr>)"
proof -
  have keys: "map dr_key (it_deliveries db') = map dr_key (it_deliveries (wd_db w))" using rel by (simp add: row_related_def)
  have envelopes: "\<forall>r\<in>set (it_deliveries db'). from_envelope r"
    by (rule related_from_envelope [OF rel]) (use inv R in \<open>auto simp: delivery_inv_def keeps_run_def\<close>)
  have run: "has_run db' k'" if "has_run (wd_db w) k'" for k' using related_has_run [OF rel R that] .
  have waits: "waits_for_run db' (delivery_of e)" if e: "e \<in> set routing" for e
  proof (rule related_waits [OF rel])
    show "delivery_of e \<noteq> k" using other e by blast
    show "waits_for_run (wd_db w) (delivery_of e)" using inv sub(1) e unfolding delivery_inv_def by blast
  qed
  have sends: "has_run db' (delivery_of (snd p))" if "p \<in> set sending" for p
  proof (rule run)
    from that sending consider "p \<in> set (wd_sending w)" | "delivery_of (snd p) = k" "has_run (wd_db w) k" by blast
    then show "has_run (wd_db w) (delivery_of (snd p))"
    proof cases
      case 1
      with inv show ?thesis unfolding delivery_inv_def by (auto simp: split_beta)
    qed simp
  qed
  have set_keys: "dr_key ` set (it_deliveries db') = dr_key ` set (it_deliveries (wd_db w))"
    using arg_cong [OF keys, of set] by simp
  show ?thesis
    unfolding delivery_inv_def
    using inv keys envelopes run waits set_keys sub(2) sends
    by (simp add: delivery_inv_def) (auto simp: split_beta)
qed

lemma claim_new:
  assumes "claim_delivery now e db = (True, db')"
  shows "it_bindings db' = it_bindings db" "delivery_of e \<notin> dr_key ` set (it_deliveries db)"
    "\<exists>r. it_deliveries db' = it_deliveries db @ [r] \<and> dr_key r = delivery_of e \<and> from_envelope r \<and> dr_runId r = None \<and> \<not> settled_reply r"
  using assms by (auto simp: claim_delivery_def list_ex_iff from_envelope_def settled_reply_def split: if_splits)

lemma claim_inv:
  assumes inv: "delivery_inv w" and claim: "claim_delivery now e (wd_db w) = (True, db')"
  shows "delivery_inv (w\<lparr>wd_db := db'\<rparr>) \<and> waits_for_run db' (delivery_of e)"
    "\<forall>e'\<in>set (wd_routing w). delivery_of e' \<noteq> delivery_of e"
    "delivery_of e \<notin> set (map (delivery_of \<circ> fst) (wd_started w))"
proof -
  note new = claim_new [OF claim]
  then obtain r where r: "it_deliveries db' = it_deliveries (wd_db w) @ [r]" "dr_key r = delivery_of e" "from_envelope r" "dr_runId r = None"
    "\<not> settled_reply r" by blast
  have old: "delivery_row_of db' k = Some q" if "delivery_row_of (wd_db w) k = Some q" for k q
    using that r(1) by (simp add: delivery_row_of_def find_append)
  have mine: "delivery_row_of (wd_db w) (delivery_of e) = None"
    using new(2) by (force simp: delivery_row_of_def find_None_iff)
  then have "delivery_row_of db' (delivery_of e) = Some r" using r(1,2) by (simp add: delivery_row_of_def find_append)
  then have waits: "waits_for_run db' (delivery_of e)" using r(4,5) by (simp add: waits_for_run_def)
  have run: "has_run db' k" if "has_run (wd_db w) k" for k using that unfolding has_run_def by (blast dest: old)
  have wait: "waits_for_run db' k" if "waits_for_run (wd_db w) k" for k using that unfolding waits_for_run_def by (blast dest: old)
  have "delivery_inv (w\<lparr>wd_db := db'\<rparr>)"
    unfolding delivery_inv_def
    using inv r(1,2,3) new(2) run wait by (simp add: delivery_inv_def) (auto simp: split_beta)
  with waits show "delivery_inv (w\<lparr>wd_db := db'\<rparr>) \<and> waits_for_run db' (delivery_of e)" by blast
  show "\<forall>e'\<in>set (wd_routing w). delivery_of e' \<noteq> delivery_of e"
  proof
    fix e'
    assume "e' \<in> set (wd_routing w)"
    with inv have "waits_for_run (wd_db w) (delivery_of e')" unfolding delivery_inv_def by blast
    with mine show "delivery_of e' \<noteq> delivery_of e" by (auto simp: waits_for_run_def)
  qed
  show "delivery_of e \<notin> set (map (delivery_of \<circ> fst) (wd_started w))"
    using inv new(2) by (fastforce simp: delivery_inv_def)
qed

lemma getBinding_bound: "getBinding e db = Some b \<Longrightarrow> bound_for e b \<and> b \<in> set (it_bindings db)"
proof -
  assume "getBinding e db = Some b"
  then obtain bs where "sort_key (\<lambda>r. if ib_senderExternalId r = ie_senderExternalId e then 0 else (1 :: nat))
      (filter (\<lambda>r. ib_connectorId r = ie_connectorId e \<and> ib_accountId r = ie_accountId e
            \<and> ib_senderExternalId r \<in> {ie_senderExternalId e, ''*''}) (it_bindings db)) = b # bs"
    by (auto simp: getBinding_def Let_def split: list.splits)
  from arg_cong [OF this, of set] have "b \<in> set (filter (\<lambda>r. ib_connectorId r = ie_connectorId e \<and> ib_accountId r = ie_accountId e
            \<and> ib_senderExternalId r \<in> {ie_senderExternalId e, ''*''}) (it_bindings db))" by auto
  then show ?thesis by (auto simp: bound_for_def)
qed

lemma route_begin_cases:
  assumes "route_begin x now e db = (r, db')"
  obtains "db' = db" "\<And>b e' sess. r \<noteq> Inr (StartRun b e' sess)"
  | db1 where "claim_delivery now e db = (True, db1)" "getBinding e db1 = None" "row_related reply_rel (delivery_of e) db1 db'"
      "\<And>b e' sess. r \<noteq> Inr (StartRun b e' sess)"
  | b where "claim_delivery now e db = (True, db')" "getBinding e db' = Some b" "r = Inr (StartRun b e (session_of x b e))"
proof (cases "claim_delivery now e db")
  case (Pair claimed db1)
  show thesis
  proof (cases claimed)
    case False
    then have "db1 = db" using Pair by (auto simp: claim_delivery_def split: if_splits)
    with False Pair assms that(1) show thesis by (auto simp: route_begin_def)
  next
    case True
    show thesis
    proof (cases "getBinding e db1")
      case None
      with True Pair assms that(2) show thesis
        by (auto simp: route_begin_def split: prod.splits sum.splits dest: markFailed_related)
    next
      case (Some b)
      with True Pair assms that(3) show thesis by (simp add: route_begin_def)
    qed
  qed
qed

lemma normalized_delivery: "normalizeInbound x now (envelope_value e) = Inr e' \<Longrightarrow> delivery_of e' = delivery_of e"
  by (drule normalize_stored) (simp add: delivery_of_def)

lemma read_pending_items:
  "read_pending x now rs = Inr items \<Longrightarrow> (e, receipt) \<in> set items
    \<Longrightarrow> \<exists>r\<in>set rs. normalizeInbound x now (dr_envelope r) = Inr e \<and> receipt = toReceipt r"
  by (induction rs arbitrary: items) (auto simp: result_simps)

lemma listed_items:
  assumes "listPendingReplies x now rank limit db = Inr items" and "(e, receipt) \<in> set items"
    and "distinct (map dr_key (it_deliveries db))" and "\<forall>r\<in>set (it_deliveries db). from_envelope r"
  shows "has_run db (delivery_of e)"
proof -
  from read_pending_items [OF assms(1) [unfolded listPendingReplies_def] assms(2)] obtain r
    where r: "r \<in> set (pending_rows rank limit db)" "normalizeInbound x now (dr_envelope r) = Inr e" by blast
  then have "r \<in> set (it_deliveries db)" "dr_runId r \<noteq> None"
    using set_sql_limit by (fastforce simp: pending_rows_def)+
  moreover from this obtain e0 where "dr_envelope r = envelope_value e0" "delivery_of e0 = dr_key r"
    using assms(4) by (auto simp: from_envelope_def)
  then have "delivery_of e = dr_key r" using r(2) normalized_delivery by metis
  ultimately show ?thesis using row_of_unique [OF assms(3)] by (auto simp: has_run_def)
qed

lemma claim_has_run:
  assumes "delivery_inv w" and "(e, receipt) \<in> set (wd_listed w)" and "dc_runId receipt \<noteq> None"
  shows "has_run (wd_db w) (delivery_of e)"
  using assms unfolding delivery_inv_def by blast

lemma routing_not_running:
  "delivery_inv w \<Longrightarrow> has_run (wd_db w) k \<Longrightarrow> \<forall>e\<in>set (wd_routing w). delivery_of e \<noteq> k"
  unfolding delivery_inv_def using waits_has by metis

lemma distinct_remove1_key:
  "distinct (map f xs) \<Longrightarrow> x \<in> set xs \<Longrightarrow> \<forall>y\<in>set (remove1 x xs). f y \<noteq> f x"
  by (auto simp: distinct_map set_remove1_eq inj_on_def)

lemma distinct_map_remove1: "distinct (map f xs) \<Longrightarrow> distinct (map f (remove1 x xs))"
  by (auto simp: distinct_map set_remove1_eq inj_on_def)

lemma delivery_step_inv:
  assumes "delivery_step x w w'" and inv: "delivery_inv w" shows "delivery_inv w'"
  using assms(1)
proof cases
  case (Bind b)
  then show ?thesis using inv by (simp add: delivery_inv_def bind_integration_def Let_def has_run_def waits_for_run_def delivery_row_of_def)
next
  case (RouteRefused now e r db')
  from RouteRefused(2) show ?thesis
  proof (cases rule: route_begin_cases)
    case 1
    with RouteRefused inv show ?thesis by simp
  next
    case (2 db1)
    let ?w = "w\<lparr>wd_db := db1\<rparr>"
    have "delivery_inv (?w\<lparr>wd_db := db', wd_routing := wd_routing w, wd_sending := wd_sending w, wd_requests := wd_requests w\<rparr>)"
    proof (rule inv_related)
      show "delivery_inv ?w" using claim_inv(1) [OF inv 2(1)] by blast
      show "row_related reply_rel (delivery_of e) (wd_db ?w) db'" using 2(3) by simp
      show "\<forall>e'\<in>set (wd_routing w). delivery_of e' \<noteq> delivery_of e" by (rule claim_inv(2) [OF inv 2(1)])
      show "distinct (map delivery_of (wd_routing w))" using inv by (simp add: delivery_inv_def)
    qed (auto intro: reply_keeps_run)
    with RouteRefused show ?thesis by simp
  next
    case (3 b)
    with RouteRefused show ?thesis by blast
  qed
next
  case (RouteBegin now e b e' sess db')
  from RouteBegin(2) show ?thesis
  proof (cases rule: route_begin_cases)
    case (3 b')
    note i = claim_inv [OF inv 3(1)]
    have "bound_for e b" using 3 getBinding_bound by fastforce
    moreover have "delivery_of e \<in> dr_key ` set (it_deliveries db')" using claim_new(3) [OF 3(1)] by auto
    ultimately show ?thesis
      using i RouteBegin(1) unfolding delivery_inv_def by (auto simp: split_beta)
  qed auto
next
  case (RouteEnd e now started r db')
  have "delivery_inv (w\<lparr>wd_db := db', wd_routing := remove1 e (wd_routing w), wd_sending := wd_sending w, wd_requests := wd_requests w\<rparr>)"
  proof (rule inv_related [OF inv route_end_related [OF RouteEnd(3)]])
    show "\<forall>e'\<in>set (remove1 e (wd_routing w)). delivery_of e' \<noteq> delivery_of e"
      using inv RouteEnd(2) by (intro distinct_remove1_key) (simp_all add: delivery_inv_def)
    show "distinct (map delivery_of (remove1 e (wd_routing w)))" using inv by (intro distinct_map_remove1) (simp add: delivery_inv_def)
  qed (simp_all add: set_remove1_subset)
  with RouteEnd(1) show ?thesis by simp
next
  case (Listed now rank limit items)
  have "has_run (wd_db w) (delivery_of e)" if "(e, receipt) \<in> set items" for e receipt
    by (rule listed_items [OF Listed(2) that]) (use inv in \<open>simp_all add: delivery_inv_def\<close>)
  then show ?thesis using inv Listed(1) unfolding delivery_inv_def by (auto simp: split_beta)
next
  case (TickIdle item connectors owner now clock outcome r db')
  obtain e receipt where item: "item = (e, receipt)" by fastforce
  note t = TickIdle(3) [unfolded item]
  show ?thesis
  proof (cases "dc_runId receipt = None")
    case True
    with tick_claim_related(2) [OF t] TickIdle(1) inv show ?thesis by simp
  next
    case False
    have run: "has_run (wd_db w) (delivery_of e)" using claim_has_run [OF inv] TickIdle(2) item False by blast
    have "delivery_inv (w\<lparr>wd_db := db', wd_routing := wd_routing w, wd_sending := wd_sending w, wd_requests := wd_requests w\<rparr>)"
      by (rule inv_related [OF inv tick_claim_related(1) [OF t] reply_keeps_run])
        (use routing_not_running [OF inv run] inv in \<open>auto simp: delivery_inv_def\<close>)
    with TickIdle(1) show ?thesis by simp
  qed
next
  case (TickClaim e receipt connectors owner now clock outcome m db')
  have run: "has_run (wd_db w) (delivery_of e)"
    using claim_has_run [OF inv TickClaim(2)] tick_claim_related(3) [OF TickClaim(3)] by blast
  have "delivery_inv (w\<lparr>wd_db := db', wd_routing := wd_routing w, wd_sending := (owner, e) # wd_sending w,
      wd_requests := wd_requests w @ [delivery_of e]\<rparr>)"
    by (rule inv_related [OF inv tick_claim_related(1) [OF TickClaim(3)] reply_keeps_run])
      (use routing_not_running [OF inv run] inv run in \<open>auto simp: delivery_inv_def\<close>)
  with TickClaim(1) show ?thesis by simp
next
  case (TickSent owner e clock result r db')
  have run: "has_run (wd_db w) (delivery_of e)" using inv TickSent(2) unfolding delivery_inv_def by blast
  have "delivery_inv (w\<lparr>wd_db := db', wd_routing := wd_routing w, wd_sending := remove1 (owner, e) (wd_sending w),
      wd_requests := wd_requests w\<rparr>)"
    by (rule inv_related [OF inv tick_sent_related [OF TickSent(3)] reply_keeps_run])
      (use routing_not_running [OF inv run] inv set_remove1_subset [of "(owner, e)" "wd_sending w"] in \<open>auto simp: delivery_inv_def\<close>)
  with TickSent(1) show ?thesis by simp
qed

lemma delivery_reachable_inv: "delivery_reachable x w \<Longrightarrow> delivery_inv w"
  unfolding delivery_reachable_def
proof (induction rule: rtranclp_induct)
  case base
  show ?case by (simp add: delivery_inv_def no_deliveries_def)
next
  case (step v w)
  then show ?case by (blast intro: delivery_step_inv)
qed

section \<open>One run for a delivery\<close>

text \<open>C38: Whatever routers and coordinators do at the same time on one database, and however often a delivery arrives, at most one
  run is started for it, and only on behalf of a binding of its account for its sender or for every sender.\<close>

theorem delivery_starts_one_run:
  assumes "delivery_reachable x w"
  shows "distinct (map (delivery_of \<circ> fst) (wd_started w)) \<and> (\<forall>(e, b)\<in>set (wd_started w). bound_for e b)"
  using delivery_reachable_inv [OF assms] unfolding delivery_inv_def by blast

section \<open>What is answered is not answered again\<close>

text \<open>What a coordinator does on its own delivery keeps a settled row settled, and leaves all others alone.\<close>

definition row_kept :: "delivery_row \<Rightarrow> delivery_row \<Rightarrow> bool" where
  "row_kept r r' \<longleftrightarrow> settled_reply r' \<and> dr_runId r' = dr_runId r \<and> dr_envelope r' = dr_envelope r"

lemma related_kept:
  assumes "row_related reply_rel k' db db'" and "delivery_row_of db k = Some r" and "settled_reply r"
  shows "\<exists>r'. delivery_row_of db' k = Some r' \<and> row_kept r r' \<and> (k \<noteq> k' \<longrightarrow> r' = r)"
proof (cases "k = k'")
  case True
  from related_row(1) [OF assms(1) assms(2) [unfolded True]] obtain r' where "delivery_row_of db' k' = Some r'" "reply_rel r r'" by blast
  with assms(3) True show ?thesis by (auto simp: reply_rel_def same_delivery_def row_kept_def)
next
  case False
  with related_other [OF assms(1) False] assms(2,3) show ?thesis by (simp add: row_kept_def)
qed

text \<open>Nobody is sending an answer to \<open>k\<close> or has it on a list.\<close>

definition untouched :: "delivery_world \<Rightarrow> delivery_key \<Rightarrow> bool" where
  "untouched w k \<longleftrightarrow> (\<forall>(owner, e)\<in>set (wd_sending w). delivery_of e \<noteq> k) \<and> (\<forall>(e, receipt)\<in>set (wd_listed w). delivery_of e \<noteq> k)"

text \<open>What may have become of the settled row \<open>r\<close> of \<open>k\<close>.\<close>

definition final_from :: "delivery_world \<Rightarrow> delivery_key \<Rightarrow> delivery_row \<Rightarrow> delivery_world \<Rightarrow> bool" where
  "final_from w k r w' \<longleftrightarrow> (\<exists>r'. delivery_row_of (wd_db w') k = Some r' \<and> row_kept r r' \<and> (untouched w k \<longrightarrow> untouched w' k \<and> r' = r))
     \<and> count_list (wd_requests w') k = count_list (wd_requests w) k
     \<and> (\<forall>(owner, e)\<in>set (wd_sending w'). delivery_of e = k \<longrightarrow> (owner, e) \<in> set (wd_sending w))"

lemma final_fromI:
  assumes "delivery_row_of (wd_db w') k = Some r'" and "row_kept r r'" and "untouched w k \<Longrightarrow> r' = r"
    and "wd_requests w' = wd_requests w" and "set (wd_sending w') \<subseteq> set (wd_sending w)" and "wd_listed w' = wd_listed w"
  shows "final_from w k r w'"
  using assms unfolding final_from_def untouched_def by (auto simp: split_beta)

lemma settled_not_listed:
  assumes "listPendingReplies x now rank limit db = Inr items" and "(e, receipt) \<in> set items"
    and "distinct (map dr_key (it_deliveries db))" and "\<forall>r\<in>set (it_deliveries db). from_envelope r"
    and "delivery_row_of db k = Some r" and "settled_reply r"
  shows "delivery_of e \<noteq> k"
proof
  assume e: "delivery_of e = k"
  from read_pending_items [OF assms(1) [unfolded listPendingReplies_def] assms(2)] obtain q
    where q: "q \<in> set (pending_rows rank limit db)" "normalizeInbound x now (dr_envelope q) = Inr e" by blast
  then have "q \<in> set (it_deliveries db)" "\<not> settled_reply q"
    using set_sql_limit by (fastforce simp: pending_rows_def settled_reply_def)+
  moreover from this obtain e0 where "dr_envelope q = envelope_value e0" "delivery_of e0 = dr_key q"
    using assms(4) by (auto simp: from_envelope_def)
  then have "delivery_of e = dr_key q" using q(2) normalized_delivery by metis
  ultimately show False using row_of_unique [OF assms(3)] e assms(5,6) by auto
qed

lemma final_step:
  assumes "delivery_step x w w'" and inv: "delivery_inv w" and k: "delivery_row_of (wd_db w) k = Some r" "settled_reply r"
  shows "final_from w k r w'"
  using assms(1)
proof cases
  case (Bind b)
  with k show ?thesis
    by (auto simp: bind_integration_def Let_def delivery_row_of_def row_kept_def intro!: final_fromI)
next
  case (RouteRefused now e rr db')
  from RouteRefused(2) show ?thesis
  proof (cases rule: route_begin_cases)
    case (2 db1)
    have db1: "delivery_row_of db1 k = Some r"
      using claim_new(3) [OF 2(1)] k(1) by (auto simp: delivery_row_of_def find_append)
    have "k \<noteq> delivery_of e" using claim_new(2) [OF 2(1)] row_of_in [OF k(1)] by force
    with related_kept [OF 2(3) db1 k(2)] RouteRefused(1) show ?thesis by (auto intro!: final_fromI)
  qed (use RouteRefused k in \<open>auto simp: row_kept_def intro!: final_fromI\<close>)
next
  case (RouteBegin now e b e' sess db')
  from RouteBegin(2) show ?thesis
  proof (cases rule: route_begin_cases)
    case (3 b')
    have "delivery_row_of db' k = Some r"
      using claim_new(3) [OF 3(1)] k(1) by (auto simp: delivery_row_of_def find_append)
    with RouteBegin(1) k(2) show ?thesis by (auto simp: row_kept_def intro!: final_fromI)
  qed auto
next
  case (RouteEnd e now started rr db')
  have "waits_for_run (wd_db w) (delivery_of e)" using inv RouteEnd(2) unfolding delivery_inv_def by blast
  with k have "k \<noteq> delivery_of e" by (auto simp: waits_for_run_def)
  from related_other [OF route_end_related [OF RouteEnd(3)] this] k RouteEnd(1) set_remove1_subset show ?thesis
    by (auto simp: row_kept_def intro!: final_fromI)
next
  case (Listed now rank limit items)
  have new: "delivery_of e \<noteq> k" if "(e, receipt) \<in> set items" for e receipt
    by (rule settled_not_listed [OF Listed(2) that _ _ k]) (use inv in \<open>simp_all add: delivery_inv_def\<close>)
  have "\<forall>p\<in>set items. delivery_of (fst p) \<noteq> k"
  proof
    fix p assume "p \<in> set items"
    then show "delivery_of (fst p) \<noteq> k" using new [of "fst p" "snd p"] by simp
  qed
  with Listed(1) k show ?thesis by (auto simp: final_from_def untouched_def row_kept_def split_beta)
next
  case (TickIdle item connectors owner now clock outcome rr db')
  obtain e receipt where item: "item = (e, receipt)" by fastforce
  from related_kept [OF tick_claim_related(1) [OF TickIdle(3) [unfolded item]] k] obtain r'
    where r': "delivery_row_of db' k = Some r'" "row_kept r r'" "k \<noteq> delivery_of e \<longrightarrow> r' = r" by blast
  have "untouched w k \<Longrightarrow> k \<noteq> delivery_of e" using TickIdle(2) item by (auto simp: untouched_def)
  with r' TickIdle(1) show ?thesis by (auto intro!: final_fromI)
next
  case (TickClaim e receipt connectors owner now clock outcome m db')
  obtain d where d: "d \<in> set (it_deliveries (wd_db w))" "dr_key d = delivery_of e" "\<not> settled_reply d"
    using tick_claim_related(3) [OF TickClaim(3)] by blast
  then have "delivery_row_of (wd_db w) (delivery_of e) = Some d"
    using row_of_unique [OF _ d(1)] inv by (simp add: delivery_inv_def)
  with d(3) k have other: "delivery_of e \<noteq> k" by auto
  with related_kept [OF tick_claim_related(1) [OF TickClaim(3)] k] have "delivery_row_of db' k = Some r" by auto
  with TickClaim(1) other k(2) show ?thesis by (auto simp: final_from_def untouched_def row_kept_def)
next
  case (TickSent owner e clock result rr db')
  from related_kept [OF tick_sent_related [OF TickSent(3)] k] obtain r'
    where r': "delivery_row_of db' k = Some r'" "row_kept r r'" "k \<noteq> delivery_of e \<longrightarrow> r' = r" by blast
  have "untouched w k \<Longrightarrow> k \<noteq> delivery_of e" using TickSent(2) by (auto simp: untouched_def)
  with r' TickSent(1) set_remove1_subset [of "(owner, e)" "wd_sending w"] show ?thesis by (auto intro!: final_fromI)
qed

lemma final_trans:
  assumes "final_from w k r v" and "delivery_row_of (wd_db v) k = Some q" and "final_from v k q u"
  shows "final_from w k r u"
  using assms unfolding final_from_def row_kept_def by (auto simp: split_beta)

lemma final_steps:
  assumes "(delivery_step x)\<^sup>*\<^sup>* w w'" and "delivery_reachable x w" and k: "delivery_row_of (wd_db w) k = Some r" "settled_reply r"
  shows "final_from w k r w'"
proof -
  from assms(1,2) have "delivery_reachable x w' \<and> final_from w k r w'"
  proof (induction rule: rtranclp_induct)
    case base
    with k show ?case by (auto simp: row_kept_def intro!: final_fromI)
  next
    case (step u v)
    then have v: "delivery_reachable x v" unfolding delivery_reachable_def by (meson rtranclp.rtrancl_into_rtrancl)
    from step obtain q where q: "delivery_row_of (wd_db u) k = Some q" "settled_reply q"
      by (auto simp: final_from_def row_kept_def)
    from step final_step [OF step(2) delivery_reachable_inv q] have "final_from u k q v" by blast
    with final_trans [OF _ q(1)] step v show ?case by blast
  qed
  then show ?thesis by blast
qed

text \<open>C39: Once a delivery is answered or has failed, nobody begins to answer it any more, whatever coordinators
  have listed before. It never becomes pending again and keeps its run and its envelope; no coordinator claims it for
  sending, and who is still sending an answer to it was already sending then (what is under way can still go out). A
  coordinator that is still sending, or that had listed it before, may record an answer or a failure over what is
  there; if there is none, the whole row stays as it is.\<close>

theorem replied_is_final:
  assumes "delivery_reachable x w" and "(delivery_step x)\<^sup>*\<^sup>* w w'"
    and "delivery_row_of (wd_db w) k = Some r" and "dr_status r = DeliveryReplied \<or> dr_status r = DeliveryFailed"
  shows "\<exists>r'. delivery_row_of (wd_db w') k = Some r' \<and> (dr_status r' = DeliveryReplied \<or> dr_status r' = DeliveryFailed)
    \<and> dr_runId r' = dr_runId r \<and> dr_envelope r' = dr_envelope r
    \<and> count_list (wd_requests w') k = count_list (wd_requests w) k
    \<and> (\<forall>(owner, e)\<in>set (wd_sending w'). delivery_of e = k \<longrightarrow> (owner, e) \<in> set (wd_sending w))
    \<and> ((\<forall>(owner, e)\<in>set (wd_sending w). delivery_of e \<noteq> k) \<and> (\<forall>(e, receipt)\<in>set (wd_listed w). delivery_of e \<noteq> k)
         \<longrightarrow> r' = r)"
proof -
  have "settled_reply r" using assms(4) by (simp add: settled_reply_def)
  from final_steps [OF assms(2,1,3) this] show ?thesis
    unfolding final_from_def row_kept_def settled_reply_def untouched_def by blast
qed

section \<open>Examples\<close>

definition sample_inbound :: inbound_world where
  "sample_inbound = \<lparr>iw_url = (\<lambda>s. None), iw_date = (\<lambda>s. True), iw_valueDigest = (\<lambda>v. ''d''), iw_textDigest = (\<lambda>s. ''c'')\<rparr>"

definition sample_envelope :: inbound_envelope where
  "sample_envelope = \<lparr>ie_connectorId = ''k'', ie_accountId = ''a'', ie_deliveryId = ''1'', ie_senderExternalId = ''u'',
     ie_threadExternalId = None, ie_conversationExternalId = None, ie_text = ''hi'', ie_attachmentUrls = [], ie_receivedAt = ''t'',
     ie_rawDigest = Some ''d''\<rparr>"

definition sample_binding :: integration_binding where
  "sample_binding = \<lparr>ib_connectorId = ''k'', ib_accountId = ''a'', ib_senderExternalId = ''*'', ib_appId = ''p'', ib_tenantId = ''t'',
     ib_userId = ''m'', ib_agentId = ''g'', ib_workspaceId = ''w'', ib_sessionPrefix = ''s''\<rparr>"

definition sample_delivery :: "delivery_status \<Rightarrow> string option \<Rightarrow> string option \<Rightarrow> string option \<Rightarrow> (string \<times> timestamp) option \<Rightarrow> delivery_row" where
  "sample_delivery st run reply err lease = \<lparr>dr_key = (''k'', ''a'', ''1''), dr_envelope = envelope_value sample_envelope, dr_status = st,
     dr_runId = run, dr_replyExternalId = reply, dr_errorCode = err, dr_owner = map_option fst lease,
     dr_leaseExpiresAt = map_option snd lease, dr_receivedAt = ''t'', dr_updatedAt = 0\<rparr>"

definition sample_store :: "delivery_row list \<Rightarrow> integration_db" where
  "sample_store rs = \<lparr>it_bindings = [sample_binding], it_deliveries = rs\<rparr>"

abbreviation "sample_item \<equiv> (sample_envelope, toReceipt (sample_delivery DeliveryRunStarted (Some ''r'') None None None))"

definition sample_deliveries :: "delivery_row list \<Rightarrow> inbound_envelope list \<Rightarrow> (string \<times> inbound_envelope) list
    \<Rightarrow> (inbound_envelope \<times> delivery_receipt) list \<Rightarrow> nat \<Rightarrow> delivery_world" where
  "sample_deliveries rs routing sending listed n = \<lparr>wd_db = sample_store rs, wd_routing = routing,
     wd_started = [(sample_envelope, sample_binding)], wd_listed = listed, wd_sending = sending,
     wd_requests = replicate n (''k'', ''a'', ''1'')\<rparr>"

lemmas delivery_eval = sample_store_def sample_deliveries_def delivery_of_def Let_def nullish_def truthy_def
  claim_delivery_def getBinding_def getReceipt_def update_delivery_def coalesce_def toReceipt_def sample_binding_def sample_envelope_def
  sample_delivery_def

lemma sample_bound: "bind_integration sample_binding \<lparr>it_bindings = [], it_deliveries = []\<rparr> = sample_store []"
  by (simp add: bind_integration_def sample_store_def)

lemma sample_begin:
  "route_begin sample_inbound 0 sample_envelope (sample_store [])
     = (Inr (StartRun sample_binding sample_envelope (session_of sample_inbound sample_binding sample_envelope)),
        sample_store [sample_delivery DeliveryReceived None None None None])"
  by (simp add: route_begin_def delivery_eval)

lemma sample_end:
  "route_end 0 sample_envelope (Some ''r'') (sample_store [sample_delivery DeliveryReceived None None None None])
     = (Inr ''r'', sample_store [sample_delivery DeliveryRunStarted (Some ''r'') None None None])"
  by (simp add: route_end_def markRun_def delivery_eval)

lemma sample_texts:
  "trim ''k'' \<noteq> [] \<and> trim ''a'' \<noteq> [] \<and> trim ''1'' \<noteq> [] \<and> trim ''u'' \<noteq> [] \<and> trim ''hi'' \<noteq> [] \<and> \<not> list_all is_blank ''t''"
  by code_simp

lemma sample_normalized: "normalizeInbound sample_inbound ''t'' (envelope_value sample_envelope) = Inr sample_envelope"
proof -
  have parts: "required_field (envelope_object sample_envelope) ''connectorId'' = Inr ''k''"
    "required_field (envelope_object sample_envelope) ''accountId'' = Inr ''a''"
    "required_field (envelope_object sample_envelope) ''deliveryId'' = Inr ''1''"
    "required_field (envelope_object sample_envelope) ''senderExternalId'' = Inr ''u''"
    "required_field (envelope_object sample_envelope) ''text'' = Inr ''hi''"
    "optional_field (envelope_object sample_envelope) ''threadExternalId'' = Inr None"
    "optional_field (envelope_object sample_envelope) ''conversationExternalId'' = Inr None"
    "received_at sample_inbound ''t'' (envelope_object sample_envelope) = Inr ''t''"
    "attachment_list (envelope_object sample_envelope) = Inr []"
    using sample_texts
    by (simp_all add: required_Inr optional_Inr received_Inr attachment_list_def envelope_gets) (simp_all add: sample_envelope_def sample_inbound_def)
  then show ?thesis
    unfolding value_object
    by (simp add: normalizeInbound_def inbound_record_def result_simps) (simp add: sample_envelope_def sample_inbound_def)
qed

lemma sample_listed:
  "listPendingReplies sample_inbound ''t'' (\<lambda>s. 0) 100 (sample_store [sample_delivery DeliveryRunStarted (Some ''r'') None None None])
     = Inr [sample_item]"
  by (simp add: listPendingReplies_def pending_rows_def sample_store_def sample_delivery_def sql_limit_def sample_normalized)

abbreviation "sample_started \<equiv> sample_deliveries [sample_delivery DeliveryRunStarted (Some ''r'') None None None] [] [] [sample_item] 0"

lemma sample_again:
  "route_begin sample_inbound 0 sample_envelope (sample_store [sample_delivery DeliveryRunStarted (Some ''r'') None None None])
     = (Inr (DuplicateDelivery (Some ''r'')), sample_store [sample_delivery DeliveryRunStarted (Some ''r'') None None None])"
  by (simp add: route_begin_def delivery_eval)

lemma sample_claim:
  "tick_claim [''k''] ''o'' 0 0 sample_item \<lparr>ro_terminal = True, ro_text = Some ''ok'', ro_errorCode = None\<rparr>
      (sample_store [sample_delivery DeliveryRunStarted (Some ''r'') None None None])
     = (Inr (Some (reply_message sample_envelope ''ok'')), sample_store [sample_delivery Delivering (Some ''r'') None None (Some (''o'', 30000))])"
  by (simp add: tick_claim_def claimReply_def claimable_reply_def count_rows_def reply_leaseMs_def delivery_eval)

lemma sample_sent:
  "tick_sent ''o'' 0 sample_envelope (Sent ''m'') (sample_store [sample_delivery Delivering (Some ''r'') None None (Some (''o'', 30000))])
     = (Inr True, sample_store [sample_delivery DeliveryReplied (Some ''r'') (Some ''m'') None None])"
  by (simp add: tick_sent_def markReply_def delivery_eval)

lemma sample_late:
  "tick_claim [''k''] ''p'' 0 0 sample_item \<lparr>ro_terminal = True, ro_text = Some ''ok'', ro_errorCode = None\<rparr>
      (sample_store [sample_delivery DeliveryReplied (Some ''r'') (Some ''m'') None None])
     = (Inr None, sample_store [sample_delivery DeliveryReplied (Some ''r'') (Some ''m'') None None])"
  by (simp add: tick_claim_def claimReply_def claimable_reply_def count_rows_def reply_leaseMs_def delivery_eval)

lemma sample_started_reachable: "delivery_reachable sample_inbound sample_started"
proof -
  let ?s = "delivery_step sample_inbound"
  have "?s no_deliveries (no_deliveries\<lparr>wd_db := sample_store []\<rparr>)"
    using delivery_step.Bind [of sample_inbound no_deliveries sample_binding] sample_bound by (simp add: no_deliveries_def)
  moreover have "?s (no_deliveries\<lparr>wd_db := sample_store []\<rparr>)
      (sample_deliveries [sample_delivery DeliveryReceived None None None None] [sample_envelope] [] [] 0)"
    using delivery_step.RouteBegin [of sample_inbound 0 sample_envelope "no_deliveries\<lparr>wd_db := sample_store []\<rparr>"] sample_begin
    by (simp add: no_deliveries_def sample_deliveries_def)
  moreover have "?s (sample_deliveries [sample_delivery DeliveryReceived None None None None] [sample_envelope] [] [] 0)
      (sample_deliveries [sample_delivery DeliveryRunStarted (Some ''r'') None None None] [] [] [] 0)"
    using delivery_step.RouteEnd [of sample_envelope "sample_deliveries [sample_delivery DeliveryReceived None None None None] [sample_envelope] [] [] 0"
        0 "Some ''r''"] sample_end by (simp add: sample_deliveries_def)
  moreover have "?s (sample_deliveries [sample_delivery DeliveryRunStarted (Some ''r'') None None None] [] [] [] 0) sample_started"
    using delivery_step.Listed [of sample_inbound "''t''" "\<lambda>s. 0" 100
        "sample_deliveries [sample_delivery DeliveryRunStarted (Some ''r'') None None None] [] [] [] 0"] sample_listed
    by (simp add: sample_deliveries_def)
  ultimately show ?thesis unfolding delivery_reachable_def by (meson converse_rtranclp_into_rtranclp rtranclp.rtrancl_refl)
qed

abbreviation "sample_answered \<equiv>
  sample_deliveries [sample_delivery DeliveryReplied (Some ''r'') (Some ''m'') None None] [] [] [sample_item] 1"

lemma sample_answered_reachable: "delivery_reachable sample_inbound sample_answered"
proof -
  let ?s = "delivery_step sample_inbound"
  let ?sending = "sample_deliveries [sample_delivery Delivering (Some ''r'') None None (Some (''o'', 30000))] []
    [(''o'', sample_envelope)] [sample_item] 1"
  have "?s sample_started ?sending"
    using delivery_step.TickClaim [of sample_envelope "toReceipt (sample_delivery DeliveryRunStarted (Some ''r'') None None None)"
        sample_started "[''k'']" "''o''" 0 0 "\<lparr>ro_terminal = True, ro_text = Some ''ok'', ro_errorCode = None\<rparr>"] sample_claim
    by (simp add: sample_deliveries_def) (simp add: delivery_of_def sample_envelope_def)
  moreover have "?s ?sending sample_answered"
    using delivery_step.TickSent [of "''o''" sample_envelope ?sending 0 "Sent ''m''"] sample_sent by (simp add: sample_deliveries_def)
  ultimately show ?thesis using sample_started_reachable unfolding delivery_reachable_def by (meson rtranclp.rtrancl_into_rtrancl)
qed

theorem delivery_starts_one_run_witness:
  "\<exists>w. delivery_reachable sample_inbound w \<and> wd_started w = [(sample_envelope, sample_binding)]
     \<and> route_begin sample_inbound 0 sample_envelope (wd_db w) = (Inr (DuplicateDelivery (Some ''r'')), wd_db w)
     \<and> bound_for sample_envelope sample_binding"
  using delivery_starts_one_run [OF sample_started_reachable] sample_started_reachable sample_again
  by (intro exI [of _ sample_started]) (simp add: sample_deliveries_def)

theorem replied_is_final_witness:
  "\<exists>w r'. (delivery_step sample_inbound)\<^sup>*\<^sup>* sample_answered w \<and> delivery_row_of (wd_db w) (''k'', ''a'', ''1'') = Some r'
     \<and> (dr_status r' = DeliveryReplied \<or> dr_status r' = DeliveryFailed) \<and> dr_runId r' = Some ''r''
     \<and> count_list (wd_requests w) (''k'', ''a'', ''1'') = 1"
proof -
  have "delivery_step sample_inbound sample_answered sample_answered"
    using delivery_step.TickIdle [of "sample_item" sample_answered "[''k'']" "''p''" 0 0
        "\<lparr>ro_terminal = True, ro_text = Some ''ok'', ro_errorCode = None\<rparr>" "Inr None" _ sample_inbound] sample_late
    by (simp add: sample_deliveries_def)
  then have steps: "(delivery_step sample_inbound)\<^sup>*\<^sup>* sample_answered sample_answered" by blast
  have "delivery_row_of (wd_db sample_answered) (''k'', ''a'', ''1'') = Some (sample_delivery DeliveryReplied (Some ''r'') (Some ''m'') None None)"
    by (simp add: sample_deliveries_def sample_store_def delivery_row_of_def sample_delivery_def)
  from replied_is_final [OF sample_answered_reachable steps this] steps show ?thesis
    by (fastforce simp: sample_delivery_def sample_deliveries_def)
qed

text \<open>A tick claims with the time it began. A reply it claims more than 30 seconds later has a lease that is over: another
  coordinator takes it at once, and both send.\<close>

lemma late_claim_is_taken_again:
  "fst (claimReply (''k'', ''a'', ''1'') ''o'' 0 (sample_store [sample_delivery DeliveryRunStarted (Some ''r'') None None None]))
   \<and> fst (claimReply (''k'', ''a'', ''1'') ''p'' 31000
        (snd (claimReply (''k'', ''a'', ''1'') ''o'' 0 (sample_store [sample_delivery DeliveryRunStarted (Some ''r'') None None None]))))"
  by (simp add: claimReply_def claimable_reply_def count_rows_def reply_leaseMs_def sample_store_def sample_delivery_def)

text \<open>A coordinator whose lease was taken over and whose request fails records the failure over the answer of the other one.\<close>

lemma former_owner_overwrites_reply:
  "\<exists>db'. tick_sent ''o'' 0 sample_envelope OtherError (sample_store [sample_delivery DeliveryReplied (Some ''r'') (Some ''m'') None None])
       = (Inr False, db')
     \<and> map dr_status (it_deliveries db') = [DeliveryFailed] \<and> map dr_replyExternalId (it_deliveries db') = [Some ''m'']"
  by (simp add: tick_sent_def markFailed_def delivery_eval)

text \<open>When the run of a delivery cannot be started the sender is told so, but a second delivery of the message is dropped as a
  duplicate: the message is lost.\<close>

lemma failed_start_is_a_duplicate:
  "\<exists>db'. route_end 0 sample_envelope None (sample_store [sample_delivery DeliveryReceived None None None None]) = (Inl RunStartFailed, db')
     \<and> route_begin sample_inbound 1 sample_envelope db' = (Inr (DuplicateDelivery None), db')"
  by (simp add: route_end_def route_begin_def markFailed_def delivery_eval)

end
