(* ===== verification/ProviderEvents.thy ===== *)
theory ProviderEvents
  imports ProviderStream
begin

text \<open>
  \<open>packages/provider-openai-compatible\<close> and \<open>packages/provider-anthropic\<close>: the events the adapters make of the answers of
  the services. A stream yields events and then ends, perhaps with an error. The data of server-sent
  events come from \<open>readSseData\<close>; \<open>JSON.parse\<close> is a parameter that gives a value of the type the code declares.
\<close>

section \<open>Events\<close>

text \<open>The arguments of a tool call are what \<open>JSON.parse\<close> made of their text, an object or not.\<close>

datatype stream_event =
    Accepted
  | StreamText string
  | StreamCall string string jsval
  | StreamUsage model_usage
  | StreamCompleted finish_reason

type_synonym event_stream = "stream_event list \<times> provider_error option"

definition stream_then :: "event_stream \<Rightarrow> event_stream \<Rightarrow> event_stream" where
  "stream_then s t = (case s of (es, Some e) \<Rightarrow> (es, Some e) | (es, None) \<Rightarrow> (case t of (es', r) \<Rightarrow> (es @ es', r)))"

definition yields :: "stream_event list \<Rightarrow> event_stream" where "yields es = (es, None)"

definition throws :: "string \<Rightarrow> event_stream" where "throws code = ([], Some (not_retryable code))"

definition text_event :: "string option \<Rightarrow> stream_event list" where
  "text_event s = (case truthy s of None \<Rightarrow> [] | Some t \<Rightarrow> [StreamText t])"

definition plain_usage :: "num \<Rightarrow> num \<Rightarrow> num option \<Rightarrow> num option \<Rightarrow> model_usage" where
  "plain_usage inp out cached images = \<lparr>mu_inputTokens = inp, mu_outputTokens = out, mu_cachedInputTokens = cached,
     mu_cacheWriteInputTokens = None, mu_imageInputTokens = images, mu_costUsd = None\<rparr>"

text \<open>The entries of a \<open>Map\<close>, sorted by their number.\<close>

definition in_order :: "(num \<times> 'a) list \<Rightarrow> 'a list" where
  "in_order entries = map snd (sort_key fst entries)"

definition or_empty_object :: "string \<Rightarrow> string" where
  "or_empty_object s = (if s = [] then ''{}'' else s)"

section \<open>Chat completions\<close>

record chat_usage =
  cu_promptTokens :: num
  cu_completionTokens :: num
  cu_cachedTokens :: "num option"
  cu_imageTokens :: "num option"

record chat_part =
  cp_index :: num
  cp_id :: "string option"
  cp_name :: "string option"
  cp_arguments :: "string option"

record chat_choice =
  ch_content :: "string option"
  ch_toolCalls :: "chat_part list"
  ch_finishReason :: "string option"

text \<open>\<open>cc_error\<close>: there is an error that is not null, false, 0 or empty.\<close>

record chat_chunk =
  cc_choices :: "chat_choice list"
  cc_usage :: "chat_usage option"
  cc_error :: bool

record pending_call =
  pc_id :: string
  pc_name :: string
  pc_arguments :: string

record chat_state =
  cs_tools :: "(num \<times> pending_call) list"
  cs_finishReason :: "string option"

definition chat_usage_event :: "chat_usage \<Rightarrow> stream_event" where
  "chat_usage_event u = StreamUsage (plain_usage (cu_promptTokens u) (cu_completionTokens u) (cu_cachedTokens u) (cu_imageTokens u))"

definition no_call :: pending_call where "no_call = \<lparr>pc_id = [], pc_name = [], pc_arguments = []\<rparr>"

definition extend_call :: "chat_part \<Rightarrow> pending_call \<Rightarrow> pending_call" where
  "extend_call p c = \<lparr>pc_id = pc_id c @ nullish (cp_id p) [], pc_name = pc_name c @ nullish (cp_name p) [],
     pc_arguments = pc_arguments c @ nullish (cp_arguments p) []\<rparr>"

definition add_part :: "chat_part \<Rightarrow> (num \<times> pending_call) list \<Rightarrow> (num \<times> pending_call) list" where
  "add_part p tools = AList.update (cp_index p) (extend_call p (nullish (map_of tools (cp_index p)) no_call)) tools"

definition take_choice :: "chat_choice \<Rightarrow> chat_state \<Rightarrow> chat_state" where
  "take_choice c s = \<lparr>cs_tools = fold add_part (ch_toolCalls c) (cs_tools s),
     cs_finishReason = (case ch_finishReason c of None \<Rightarrow> cs_finishReason s | Some r \<Rightarrow> Some r)\<rparr>"

definition chunk_events :: "chat_chunk \<Rightarrow> stream_event list" where
  "chunk_events c = (case cc_usage c of None \<Rightarrow> [] | Some u \<Rightarrow> [chat_usage_event u])
     @ concat (map (\<lambda>ch. text_event (ch_content ch)) (cc_choices c))"

text \<open>The events of the data up to \<open>[DONE]\<close>, and the state then, or the error.\<close>

fun chat_loop :: "(string \<Rightarrow> chat_chunk option) \<Rightarrow> chat_state \<Rightarrow> string list \<Rightarrow> provider_error option
    \<Rightarrow> stream_event list \<times> (provider_error + chat_state)" where
  "chat_loop chunk_of s [] fin = ([], Inl (nullish fin (not_retryable ''provider_stream_truncated'')))"
| "chat_loop chunk_of s (data # ds) fin =
     (if data = ''[DONE]'' then ([], Inr s)
      else case chunk_of data of
        None \<Rightarrow> ([], Inl (not_retryable ''invalid_response''))
      | Some c \<Rightarrow> if cc_error c then ([], Inl (not_retryable ''provider_stream_error''))
          else (case chat_loop chunk_of (fold take_choice (cc_choices c) s) ds fin of (es, r) \<Rightarrow> (chunk_events c @ es, r)))"

fun pending_calls :: "(string \<Rightarrow> jsval option) \<Rightarrow> pending_call list \<Rightarrow> event_stream" where
  "pending_calls parse [] = yields []"
| "pending_calls parse (c # cs) =
     (if pc_id c = [] \<or> pc_name c = [] then throws ''invalid_response''
      else case parse (or_empty_object (pc_arguments c)) of
        None \<Rightarrow> throws ''invalid_tool_arguments''
      | Some v \<Rightarrow> stream_then (yields [StreamCall (pc_id c) (pc_name c) v]) (pending_calls parse cs))"

definition reason_of :: "bool \<Rightarrow> finish_reason" where
  "reason_of calls = (if calls then FinishToolCalls else FinishStop)"

definition streamOpenAi :: "(string \<Rightarrow> chat_chunk option) \<Rightarrow> (string \<Rightarrow> jsval option) \<Rightarrow> string list \<times> provider_error option \<Rightarrow> event_stream" where
  "streamOpenAi chunk_of parse sse =
     (case chat_loop chunk_of \<lparr>cs_tools = [], cs_finishReason = None\<rparr> (fst sse) (snd sse) of
        (es, Inl e) \<Rightarrow> (es, Some e)
      | (es, Inr s) \<Rightarrow> stream_then (yields es) (stream_then (pending_calls parse (in_order (cs_tools s)))
          (yields [StreamCompleted (reason_of (cs_tools s \<noteq> [] \<or> cs_finishReason s = Some ''tool_calls''))])))"

text \<open>An answer that is not streamed.\<close>

record chat_message =
  cm_content :: "string option"
  cm_toolCalls :: "(string \<times> string \<times> string) list"

record chat_response =
  cr_choices :: "chat_message list"
  cr_usage :: "chat_usage option"

fun answered_calls :: "(string \<Rightarrow> jsval option) \<Rightarrow> (string \<times> string \<times> string) list \<Rightarrow> event_stream" where
  "answered_calls parse [] = yields []"
| "answered_calls parse ((i, name, args) # cs) = (case parse args of
     None \<Rightarrow> throws ''invalid_tool_arguments''
   | Some v \<Rightarrow> stream_then (yields [StreamCall i name v]) (answered_calls parse cs))"

definition chat_answer :: "(string \<Rightarrow> jsval option) \<Rightarrow> chat_response \<Rightarrow> event_stream" where
  "chat_answer parse r = (case cr_choices r of
     [] \<Rightarrow> throws ''invalid_response''
   | m # ms \<Rightarrow> stream_then (yields (text_event (cm_content m)))
      (stream_then (answered_calls parse (cm_toolCalls m))
      (yields ((case cr_usage r of None \<Rightarrow> [] | Some u \<Rightarrow> [chat_usage_event u]) @ [StreamCompleted (reason_of (cm_toolCalls m \<noteq> []))]))))"

section \<open>Status codes\<close>

definition classifyStatus :: "int \<Rightarrow> string" where
  "classifyStatus status = (if status = 401 \<or> status = 403 then ''authentication_failed'' else if status = 429 then ''rate_limited''
     else if 500 \<le> status then ''provider_unavailable'' else ''provider_request_failed'')"

definition status_retryable :: "int \<Rightarrow> bool" where
  "status_retryable status \<longleftrightarrow> status = 408 \<or> status = 429 \<or> 500 \<le> status"

text \<open>What the service answers: a status, then server-sent events or a JSON body.\<close>

datatype 'r answer_body = SseBody "string list \<times> provider_error option" | JsonBody "provider_error + 'r"

definition openai_compatible_stream :: "(string \<Rightarrow> chat_chunk option) \<Rightarrow> (string \<Rightarrow> jsval option) \<Rightarrow> int \<Rightarrow> chat_response answer_body \<Rightarrow> event_stream" where
  "openai_compatible_stream chunk_of parse status body =
     (if \<not> (200 \<le> status \<and> status \<le> 299) then ([], Some \<lparr>pe_code = classifyStatus status, pe_retryable = status_retryable status\<rparr>)
      else stream_then (yields [Accepted]) (case body of
        SseBody sse \<Rightarrow> streamOpenAi chunk_of parse sse
      | JsonBody (Inl e) \<Rightarrow> ([], Some e)
      | JsonBody (Inr r) \<Rightarrow> chat_answer parse r))"

section \<open>Responses of OpenAI\<close>

record responses_usage =
  ru_inputTokens :: "num option"
  ru_outputTokens :: "num option"
  ru_cachedTokens :: "num option"
  ru_imageTokens :: "num option"

text \<open>The text or the refusal of a part of a message.\<close>

record response_content =
  ro_type :: "string option"
  ro_text :: "string option"
  ro_refusal :: "string option"

record response_item =
  ri_id :: "string option"
  ri_type :: "string option"
  ri_callId :: "string option"
  ri_name :: "string option"
  ri_arguments :: "string option"
  ri_content :: "response_content list"

text \<open>\<open>rb_error\<close>: the error that is not null, with its code.\<close>

record responses_body =
  rb_status :: "string option"
  rb_error :: "string option option"
  rb_output :: "response_item list"
  rb_usage :: "responses_usage option"

record responses_event =
  re_type :: "string option"
  re_sequenceNumber :: "num option"
  re_delta :: "string option"
  re_arguments :: "string option"
  re_callId :: "string option"
  re_itemId :: "string option"
  re_name :: "string option"
  re_outputIndex :: "num option"
  re_item :: "response_item option"
  re_response :: "responses_body option"
  re_code :: "string option"

record response_call =
  rp_itemId :: "string option"
  rp_callId :: "string option"
  rp_name :: "string option"
  rp_arguments :: string

record responses_state =
  rs_calls :: "(num \<times> response_call) list"
  rs_lastSequence :: num
  rs_terminal :: bool

definition orelse :: "'a option \<Rightarrow> 'a option \<Rightarrow> 'a option" where
  "orelse a b = (case a of None \<Rightarrow> b | Some x \<Rightarrow> Some x)"

definition responseCall :: "num option \<Rightarrow> (num \<times> response_call) list \<Rightarrow> response_call" where
  "responseCall index calls = nullish (map_of calls (nullish index 0))
     \<lparr>rp_itemId = None, rp_callId = None, rp_name = None, rp_arguments = []\<rparr>"

definition put_call :: "num option \<Rightarrow> response_call \<Rightarrow> (num \<times> response_call) list \<Rightarrow> (num \<times> response_call) list" where
  "put_call index c calls = AList.update (nullish index 0) c calls"

definition mergeResponseCall :: "num option \<Rightarrow> response_item \<Rightarrow> (num \<times> response_call) list \<Rightarrow> (num \<times> response_call) list" where
  "mergeResponseCall index item calls = (let c = responseCall index calls in
     put_call index \<lparr>rp_itemId = orelse (ri_id item) (rp_itemId c), rp_callId = orelse (ri_callId item) (rp_callId c),
       rp_name = orelse (ri_name item) (rp_name c), rp_arguments = nullish (ri_arguments item) (rp_arguments c)\<rparr> calls)"

definition is_function_call :: "response_item \<Rightarrow> bool" where
  "is_function_call item \<longleftrightarrow> ri_type item = Some ''function_call''"

definition mergeResponseOutput :: "response_item list \<Rightarrow> (num \<times> response_call) list \<Rightarrow> (num \<times> response_call) list" where
  "mergeResponseOutput items calls = fold (\<lambda>(i, item) calls.
     if is_function_call item then mergeResponseCall (Some (of_nat i)) item calls else calls) (zip [0..<length items] items) calls"

fun emitResponseCalls :: "(string \<Rightarrow> jsval option) \<Rightarrow> response_call list \<Rightarrow> event_stream" where
  "emitResponseCalls parse [] = yields []"
| "emitResponseCalls parse (c # cs) = (case (truthy (rp_callId c), truthy (rp_name c)) of
     (Some i, Some name) \<Rightarrow> (case parse (or_empty_object (rp_arguments c)) of
         Some (JObj args) \<Rightarrow> stream_then (yields [StreamCall i name (JObj args)]) (emitResponseCalls parse cs)
       | _ \<Rightarrow> throws ''invalid_tool_arguments'')
   | _ \<Rightarrow> throws ''invalid_response'')"

definition safe_count :: "num option \<Rightarrow> bool" where
  "safe_count n \<longleftrightarrow> (case n of None \<Rightarrow> False | Some x \<Rightarrow> is_safe_integer x)"

definition emitResponsesUsage :: "responses_usage option \<Rightarrow> event_stream" where
  "emitResponsesUsage u = (case u of None \<Rightarrow> yields []
     | Some u \<Rightarrow> if \<not> safe_count (ru_inputTokens u) \<or> \<not> safe_count (ru_outputTokens u) then throws ''invalid_usage''
         else yields [StreamUsage (plain_usage (the (ru_inputTokens u)) (the (ru_outputTokens u)) (ru_cachedTokens u) (ru_imageTokens u))])"

definition responseTerminalError :: "string \<Rightarrow> responses_body option \<Rightarrow> string" where
  "responseTerminalError code body = nullish (Option.bind (Option.bind body rb_error) id) code"

text \<open>The number of an event: larger than all before.\<close>

definition check_sequence :: "responses_event \<Rightarrow> responses_state \<Rightarrow> provider_error + responses_state" where
  "check_sequence e s = (case re_sequenceNumber e of
     None \<Rightarrow> Inr s
   | Some n \<Rightarrow> if \<not> is_safe_integer n \<or> n \<le> rs_lastSequence s then Inl (not_retryable ''invalid_response'')
       else Inr (s\<lparr>rs_lastSequence := n\<rparr>))"

definition completed_events :: "(string \<Rightarrow> jsval option) \<Rightarrow> responses_usage option \<Rightarrow> (num \<times> response_call) list \<Rightarrow> event_stream" where
  "completed_events parse usage calls = stream_then (emitResponseCalls parse (in_order calls))
     (stream_then (emitResponsesUsage usage) (yields [StreamCompleted (reason_of (calls \<noteq> []))]))"

text \<open>One event: what is yielded, the error if it throws, and the state.\<close>

definition responses_step :: "(string \<Rightarrow> jsval option) \<Rightarrow> responses_event \<Rightarrow> string \<Rightarrow> responses_state \<Rightarrow> event_stream \<times> responses_state" where
  "responses_step parse e kind s =
     (let c = responseCall (re_outputIndex e) (rs_calls s);
          usage = emitResponsesUsage (Option.bind (re_response e) rb_usage) in
      if kind \<in> {''response.output_text.delta'', ''response.refusal.delta''} then
        ((case re_delta e of None \<Rightarrow> throws ''invalid_response'' | Some d \<Rightarrow> yields (text_event (Some d))), s)
      else if kind \<in> {''response.output_item.added'', ''response.output_item.done''} then
        (yields [], case re_item e of None \<Rightarrow> s
           | Some item \<Rightarrow> if is_function_call item then s\<lparr>rs_calls := mergeResponseCall (re_outputIndex e) item (rs_calls s)\<rparr> else s)
      else if kind = ''response.function_call_arguments.delta'' then
        (yields [], s\<lparr>rs_calls := put_call (re_outputIndex e)
           (c\<lparr>rp_itemId := orelse (re_itemId e) (rp_itemId c), rp_arguments := rp_arguments c @ nullish (re_delta e) []\<rparr>) (rs_calls s)\<rparr>)
      else if kind = ''response.function_call_arguments.done'' then
        (yields [], s\<lparr>rs_calls := put_call (re_outputIndex e)
           \<lparr>rp_itemId = orelse (re_itemId e) (rp_itemId c), rp_callId = orelse (re_callId e) (rp_callId c),
            rp_name = orelse (re_name e) (rp_name c), rp_arguments = nullish (re_arguments e) (rp_arguments c)\<rparr> (rs_calls s)\<rparr>)
      else if kind = ''response.completed'' then
        (let calls = mergeResponseOutput (case re_response e of None \<Rightarrow> [] | Some b \<Rightarrow> rb_output b) (rs_calls s) in
         (completed_events parse (Option.bind (re_response e) rb_usage) calls, s\<lparr>rs_calls := calls, rs_terminal := True\<rparr>))
      else if kind = ''response.incomplete'' then
        (stream_then usage (throws (responseTerminalError ''response_incomplete'' (re_response e))), s\<lparr>rs_terminal := True\<rparr>)
      else if kind = ''response.failed'' then
        (stream_then usage (throws (responseTerminalError ''provider_response_failed'' (re_response e))), s\<lparr>rs_terminal := True\<rparr>)
      else if kind = ''error'' then (throws (nullish (re_code e) ''provider_stream_error''), s\<lparr>rs_terminal := True\<rparr>)
      else (yields [], s))"

fun responses_loop :: "(string \<Rightarrow> responses_event option) \<Rightarrow> (string \<Rightarrow> jsval option) \<Rightarrow> responses_state \<Rightarrow> string list
    \<Rightarrow> provider_error option \<Rightarrow> event_stream" where
  "responses_loop event_of parse s [] fin = (case fin of
     Some e \<Rightarrow> ([], Some e) | None \<Rightarrow> if rs_terminal s then yields [] else throws ''invalid_response'')"
| "responses_loop event_of parse s (data # ds) fin = (case event_of data of
     None \<Rightarrow> throws ''invalid_response''
   | Some e \<Rightarrow> (case truthy (re_type e) of
       None \<Rightarrow> throws ''invalid_response''
     | Some kind \<Rightarrow> (case check_sequence e s of
         Inl x \<Rightarrow> ([], Some x)
       | Inr s' \<Rightarrow> (case responses_step parse e kind s' of (es, s'') \<Rightarrow>
           stream_then es (responses_loop event_of parse s'' ds fin)))))"

definition streamOpenAiResponses :: "(string \<Rightarrow> responses_event option) \<Rightarrow> (string \<Rightarrow> jsval option)
    \<Rightarrow> string list \<times> provider_error option \<Rightarrow> event_stream" where
  "streamOpenAiResponses event_of parse sse =
     responses_loop event_of parse \<lparr>rs_calls = [], rs_lastSequence = -1, rs_terminal = False\<rparr> (fst sse) (snd sse)"

definition item_texts :: "response_item \<Rightarrow> stream_event list" where
  "item_texts item = (if ri_type item = Some ''message'' then concat (map (\<lambda>c.
     text_event (if ro_type c = Some ''refusal'' then ro_refusal c else ro_text c)) (ri_content item)) else [])"

definition normalizeOpenAiResponse :: "(string \<Rightarrow> jsval option) \<Rightarrow> responses_body \<Rightarrow> event_stream" where
  "normalizeOpenAiResponse parse body =
     (if rb_status body \<in> {Some ''failed'', Some ''incomplete'', Some ''cancelled''} \<or> rb_error body \<noteq> None then
        stream_then (emitResponsesUsage (rb_usage body)) (throws (responseTerminalError
          (if rb_status body = Some ''incomplete'' then ''response_incomplete'' else ''provider_response_failed'') (Some body)))
      else if rb_status body \<noteq> Some ''completed'' then throws ''invalid_response''
      else stream_then (yields (concat (map item_texts (rb_output body))))
        (completed_events parse (rb_usage body) (mergeResponseOutput (rb_output body) [])))"

definition responses_stream :: "(string \<Rightarrow> responses_event option) \<Rightarrow> (string \<Rightarrow> jsval option) \<Rightarrow> int \<Rightarrow> responses_body answer_body \<Rightarrow> event_stream" where
  "responses_stream event_of parse status body =
     (if \<not> (200 \<le> status \<and> status \<le> 299) then ([], Some \<lparr>pe_code = classifyStatus status, pe_retryable = status_retryable status\<rparr>)
      else stream_then (yields [Accepted]) (case body of
        SseBody sse \<Rightarrow> streamOpenAiResponses event_of parse sse
      | JsonBody (Inl e) \<Rightarrow> ([], Some e)
      | JsonBody (Inr r) \<Rightarrow> normalizeOpenAiResponse parse r))"

section \<open>Anthropic\<close>

record anthropic_block =
  ab_type :: "string option"
  ab_id :: "string option"
  ab_name :: "string option"
  ab_input :: "jsobject option"

record anthropic_delta =
  ad_type :: "string option"
  ad_text :: "string option"
  ad_partialJson :: "string option"
  ad_stopReason :: "string option"

record anthropic_event =
  ae_type :: string
  ae_index :: "num option"
  ae_startTokens :: "num option"
  ae_block :: "anthropic_block option"
  ae_delta :: "anthropic_delta option"
  ae_outputTokens :: "num option"

record anthropic_state =
  as_tools :: "(num \<times> pending_call) list"
  as_inputTokens :: num
  as_outputTokens :: num
  as_stopReason :: "string option"
  as_terminal :: bool

definition anthropic_start :: anthropic_state where
  "anthropic_start = \<lparr>as_tools = [], as_inputTokens = 0, as_outputTokens = 0, as_stopReason = None, as_terminal = False\<rparr>"

text \<open>\<open>json\<close> is \<open>JSON.stringify\<close>.\<close>

definition open_tool :: "(jsval \<Rightarrow> string) \<Rightarrow> num option \<Rightarrow> anthropic_block \<Rightarrow> anthropic_state \<Rightarrow> anthropic_state" where
  "open_tool json index b s = s\<lparr>as_tools := AList.update (nullish index (of_nat (length (as_tools s))))
     \<lparr>pc_id = nullish (ab_id b) [], pc_name = nullish (ab_name b) [],
      pc_arguments = (case ab_input b of None \<Rightarrow> [] | Some ob \<Rightarrow> if ob = [] then [] else json (JObj ob))\<rparr> (as_tools s)\<rparr>"

definition extend_tool :: "num option \<Rightarrow> string option \<Rightarrow> anthropic_state \<Rightarrow> anthropic_state" where
  "extend_tool index part s = (case map_of (as_tools s) (nullish index (- 1)) of
     None \<Rightarrow> s
   | Some c \<Rightarrow> s\<lparr>as_tools := AList.update (nullish index (- 1)) (c\<lparr>pc_arguments := pc_arguments c @ nullish part []\<rparr>) (as_tools s)\<rparr>)"

definition delta_type :: "anthropic_event \<Rightarrow> string option" where
  "delta_type e = Option.bind (ae_delta e) ad_type"

definition anthropic_state_step :: "(jsval \<Rightarrow> string) \<Rightarrow> anthropic_event \<Rightarrow> anthropic_state \<Rightarrow> anthropic_state" where
  "anthropic_state_step json e s =
     (if ae_type e = ''message_start'' then s\<lparr>as_inputTokens := nullish (ae_startTokens e) (as_inputTokens s)\<rparr>
      else if ae_type e = ''content_block_start'' then (case ae_block e of
         None \<Rightarrow> s | Some b \<Rightarrow> if ab_type b = Some ''tool_use'' then open_tool json (ae_index e) b s else s)
      else if ae_type e = ''content_block_delta'' \<and> delta_type e = Some ''input_json_delta''
        then extend_tool (ae_index e) (Option.bind (ae_delta e) ad_partialJson) s
      else if ae_type e = ''message_delta'' then s\<lparr>as_stopReason := orelse (Option.bind (ae_delta e) ad_stopReason) (as_stopReason s),
          as_outputTokens := nullish (ae_outputTokens e) (as_outputTokens s)\<rparr>
      else if ae_type e = ''message_stop'' then s\<lparr>as_terminal := True\<rparr>
      else s)"

definition anthropic_text :: "anthropic_event \<Rightarrow> stream_event list" where
  "anthropic_text e = (if ae_type e = ''content_block_delta'' \<and> delta_type e = Some ''text_delta''
     then text_event (Option.bind (ae_delta e) ad_text) else [])"

fun anthropic_loop :: "(string \<Rightarrow> anthropic_event option) \<Rightarrow> (jsval \<Rightarrow> string) \<Rightarrow> anthropic_state \<Rightarrow> string list \<Rightarrow> provider_error option
    \<Rightarrow> stream_event list \<times> (provider_error + anthropic_state)" where
  "anthropic_loop event_of json s [] fin = ([], case fin of
     Some e \<Rightarrow> Inl e | None \<Rightarrow> if as_terminal s then Inr s else Inl (not_retryable ''provider_stream_truncated''))"
| "anthropic_loop event_of json s (data # ds) fin = (case event_of data of
     None \<Rightarrow> ([], Inl (not_retryable ''invalid_response''))
   | Some e \<Rightarrow> if ae_type e = ''error'' then ([], Inl (not_retryable ''provider_stream_error''))
       else (case anthropic_loop event_of json (anthropic_state_step json e s) ds fin of (es, r) \<Rightarrow> (anthropic_text e @ es, r)))"

definition streamAnthropic :: "(string \<Rightarrow> anthropic_event option) \<Rightarrow> (jsval \<Rightarrow> string) \<Rightarrow> (string \<Rightarrow> jsval option)
    \<Rightarrow> string list \<times> provider_error option \<Rightarrow> event_stream" where
  "streamAnthropic event_of json parse sse = (case anthropic_loop event_of json anthropic_start (fst sse) (snd sse) of
     (es, Inl e) \<Rightarrow> (es, Some e)
   | (es, Inr s) \<Rightarrow> stream_then (yields es) (stream_then (pending_calls parse (in_order (as_tools s)))
       (yields [StreamUsage (plain_usage (as_inputTokens s) (as_outputTokens s) None None),
         StreamCompleted (reason_of (as_tools s \<noteq> [] \<or> as_stopReason s = Some ''tool_use''))])))"

record anthropic_content =
  ac_type :: string
  ac_text :: "string option"
  ac_id :: "string option"
  ac_name :: "string option"
  ac_input :: "jsobject option"

record anthropic_response =
  ar_content :: "anthropic_content list"
  ar_stopReason :: "string option"
  ar_usage :: "(num \<times> num) option"

definition content_events :: "anthropic_content \<Rightarrow> stream_event list" where
  "content_events b = (if ac_type b = ''text'' then text_event (ac_text b)
     else if ac_type b = ''tool_use'' then (case (truthy (ac_id b), truthy (ac_name b)) of
         (Some i, Some name) \<Rightarrow> [StreamCall i name (JObj (nullish (ac_input b) []))] | _ \<Rightarrow> [])
     else [])"

definition anthropic_answer :: "anthropic_response \<Rightarrow> event_stream" where
  "anthropic_answer r = yields (concat (map content_events (ar_content r))
     @ (case ar_usage r of None \<Rightarrow> [] | Some (inp, out) \<Rightarrow> [StreamUsage (plain_usage inp out None None)])
     @ [StreamCompleted (reason_of (ar_stopReason r = Some ''tool_use''))])"

definition anthropic_stream :: "(string \<Rightarrow> anthropic_event option) \<Rightarrow> (jsval \<Rightarrow> string) \<Rightarrow> (string \<Rightarrow> jsval option) \<Rightarrow> int
    \<Rightarrow> anthropic_response answer_body \<Rightarrow> event_stream" where
  "anthropic_stream event_of json parse status body =
     (if \<not> (200 \<le> status \<and> status \<le> 299) then ([], Some \<lparr>pe_code = (if status = 429 then ''rate_limited''
          else if 500 \<le> status then ''provider_unavailable'' else ''provider_request_failed''), pe_retryable = status_retryable status\<rparr>)
      else stream_then (yields [Accepted]) (case body of
        SseBody sse \<Rightarrow> streamAnthropic event_of json parse sse
      | JsonBody (Inl e) \<Rightarrow> ([], Some e)
      | JsonBody (Inr r) \<Rightarrow> anthropic_answer r))"

end
