(* ===== verification/ProviderRequests.thy ===== *)
theory ProviderRequests
  imports ProviderRoutes TextPatterns
begin

text \<open>
  \<open>packages/provider-openai-compatible\<close> and \<open>packages/provider-anthropic\<close>: the endpoints the adapters may use and the requests they send.
  \<open>json\<close> is \<open>JSON.stringify\<close>.
\<close>

section \<open>Requests\<close>

text \<open>A message with its images, as data URLs.\<close>

record adapter_message = model_message +
  am_images :: "string list"

definition invalid_request :: provider_error where "invalid_request = not_retryable ''invalid_request''"

definition is_base64_char :: "char \<Rightarrow> bool" where
  "is_base64_char c \<longleftrightarrow> c \<in> set ''ABCDEFGHIJKLMNOPQRSTUVWXYZabcdefghijklmnopqrstuvwxyz0123456789+/=''"

definition data_url :: "string \<Rightarrow> (string \<times> string) option" where
  "data_url s =
     (let kind = (if take 22 s = ''data:image/png;base64,'' then Some (''png'', drop 22 s)
          else if take 23 s = ''data:image/jpeg;base64,'' then Some (''jpeg'', drop 23 s) else None) in
      case kind of
        None \<Rightarrow> None
      | Some (k, data) \<Rightarrow> if data \<noteq> [] \<and> list_all is_base64_char data then Some (k, data) else None)"

text \<open>\<open>decoded\<close> is the number of bytes a base64 text decodes to.\<close>

primrec image_parts :: "(string \<Rightarrow> nat) \<Rightarrow> nat \<Rightarrow> string list \<Rightarrow> provider_error + (string \<times> string) list" where
  "image_parts decoded bytes [] = Inr []"
| "image_parts decoded bytes (i # is) = (case data_url i of
     None \<Rightarrow> Inl invalid_request
   | Some (k, data) \<Rightarrow> if 32 * 1024 * 1024 < bytes + decoded data then Inl invalid_request
       else bind_result (image_parts decoded (bytes + decoded data) is) (\<lambda>ps. Inr ((k, data) # ps)))"

definition validatedImages :: "(string \<Rightarrow> nat) \<Rightarrow> adapter_message \<Rightarrow> provider_error + string list" where
  "validatedImages decoded m = (if am_images m = [] then Inr []
     else bind_result (throw_if (mm_role m \<noteq> UserRole) invalid_request) (\<lambda>_.
       bind_result (image_parts decoded 0 (am_images m)) (\<lambda>ps. Inr (am_images m))))"

definition role_name :: "message_role \<Rightarrow> string" where
  "role_name r = (case r of SystemRole \<Rightarrow> ''system'' | UserRole \<Rightarrow> ''user'' | AssistantRole \<Rightarrow> ''assistant'' | ToolRole \<Rightarrow> ''tool'')"

definition toChatCompletionsContent :: "(string \<Rightarrow> nat) \<Rightarrow> adapter_message \<Rightarrow> provider_error + jsval" where
  "toChatCompletionsContent decoded m = bind_result (validatedImages decoded m) (\<lambda>images.
     Inr (if images = [] then JStr (mm_content m) else JArr
       ((if mm_content m = [] then [] else [JObj [(''type'', JStr ''text''), (''text'', JStr (mm_content m))]])
        @ map (\<lambda>url. JObj [(''type'', JStr ''image_url''), (''image_url'', JObj [(''url'', JStr url), (''detail'', JStr ''auto'')])]) images)))"

definition toResponsesContent :: "(string \<Rightarrow> nat) \<Rightarrow> adapter_message \<Rightarrow> provider_error + jsval" where
  "toResponsesContent decoded m = bind_result (validatedImages decoded m) (\<lambda>images.
     Inr (if images = [] then JStr (mm_content m) else JArr
       ((if mm_content m = [] then [] else [JObj [(''type'', JStr ''input_text''), (''text'', JStr (mm_content m))]])
        @ map (\<lambda>url. JObj [(''type'', JStr ''input_image''), (''image_url'', JStr url), (''detail'', JStr ''auto'')]) images)))"

definition calls_of_message :: "adapter_message \<Rightarrow> tool_call list" where
  "calls_of_message m = (if mm_role m = AssistantRole then nullish (mm_toolCalls m) [] else [])"

definition chat_request_message :: "(jsval \<Rightarrow> string) \<Rightarrow> (string \<Rightarrow> nat) \<Rightarrow> adapter_message \<Rightarrow> provider_error + jsval" where
  "chat_request_message json decoded m = bind_result (toChatCompletionsContent decoded m) (\<lambda>content.
     Inr (JObj ([(''role'', JStr (role_name (mm_role m))), (''content'', content)]
       @ (if calls_of_message m = [] then [] else [(''tool_calls'', JArr (map (\<lambda>c. JObj [(''id'', JStr (tc_id c)), (''type'', JStr ''function''),
            (''function'', JObj [(''name'', JStr (tc_name c)), (''arguments'', JStr (json (JObj (tc_arguments c))))])]) (calls_of_message m)))])
       @ (case (mm_role m, truthy (mm_toolCallId m)) of (ToolRole, Some i) \<Rightarrow> [(''tool_call_id'', JStr i)] | _ \<Rightarrow> []))))"

primrec map_result :: "('a \<Rightarrow> 'e + 'b) \<Rightarrow> 'a list \<Rightarrow> 'e + 'b list" where
  "map_result f [] = Inr []"
| "map_result f (x # xs) = bind_result (f x) (\<lambda>y. bind_result (map_result f xs) (\<lambda>ys. Inr (y # ys)))"

definition chat_request :: "(jsval \<Rightarrow> string) \<Rightarrow> (string \<Rightarrow> nat) \<Rightarrow> string \<Rightarrow> bool \<Rightarrow> tool_definition list \<Rightarrow> adapter_message list
    \<Rightarrow> provider_error + jsval" where
  "chat_request json decoded model streamed tools msgs =
     bind_result (map_result (chat_request_message json decoded) msgs) (\<lambda>ms.
       Inr (JObj ([(''model'', JStr model), (''stream'', JBool streamed)]
         @ (if streamed then [(''stream_options'', JObj [(''include_usage'', JBool True)])] else [])
         @ [(''messages'', JArr ms)]
         @ (if tools = [] then [] else [(''tools'', JArr (map (\<lambda>t. JObj [(''type'', JStr ''function''), (''function'',
              JObj [(''name'', JStr (td_name t)), (''description'', JStr (td_description t)), (''parameters'', JObj (td_inputSchema t))])]) tools)),
            (''tool_choice'', JStr ''auto'')]))))"

text \<open>The items of one message in a request to the Responses endpoint.\<close>

definition responses_items :: "(jsval \<Rightarrow> string) \<Rightarrow> (string \<Rightarrow> nat) \<Rightarrow> adapter_message \<Rightarrow> provider_error + jsval list" where
  "responses_items json decoded m =
     (if mm_role m = SystemRole then Inr []
      else if mm_role m = ToolRole then (case truthy (mm_toolCallId m) of
         None \<Rightarrow> Inl invalid_request
       | Some i \<Rightarrow> Inr [JObj [(''type'', JStr ''function_call_output''), (''call_id'', JStr i), (''output'', JStr (mm_content m))]])
      else bind_result (if mm_content m = [] \<and> am_images m = [] then Inr []
          else bind_result (toResponsesContent decoded m) (\<lambda>content.
            Inr [JObj [(''type'', JStr ''message''), (''role'', JStr (role_name (mm_role m))), (''content'', content)]])) (\<lambda>items.
        Inr (items @ map (\<lambda>c. JObj [(''type'', JStr ''function_call''), (''call_id'', JStr (tc_id c)), (''name'', JStr (tc_name c)),
          (''arguments'', JStr (json (JObj (tc_arguments c))))]) (calls_of_message m))))"

definition toResponsesInput :: "(jsval \<Rightarrow> string) \<Rightarrow> (string \<Rightarrow> nat) \<Rightarrow> adapter_message list \<Rightarrow> provider_error + jsval list" where
  "toResponsesInput json decoded msgs = bind_result (map_result (responses_items json decoded) msgs) (\<lambda>items. Inr (concat items))"

fun join_with :: "string \<Rightarrow> string list \<Rightarrow> string" where
  "join_with sep [] = []"
| "join_with sep [s] = s"
| "join_with sep (s # ss) = s @ sep @ join_with sep ss"

definition blank_line :: string where "blank_line = [CHR 0x0A, CHR 0x0A]"

definition responsesInstructions :: "adapter_message list \<Rightarrow> string" where
  "responsesInstructions msgs =
     join_with blank_line (filter (\<lambda>s. s \<noteq> []) (map (\<lambda>m. trim (mm_content m)) (filter (\<lambda>m. mm_role m = SystemRole) msgs)))"

definition responses_request :: "(jsval \<Rightarrow> string) \<Rightarrow> (string \<Rightarrow> nat) \<Rightarrow> bool \<Rightarrow> string \<Rightarrow> tool_definition list \<Rightarrow> adapter_message list
    \<Rightarrow> provider_error + jsval" where
  "responses_request json decoded native model tools msgs =
     bind_result (toResponsesInput json decoded msgs) (\<lambda>input.
       Inr (JObj ([(''model'', JStr model), (''stream'', JBool True)]
         @ (if native then [(''store'', JBool False), (''truncation'', JStr ''disabled'')] else [])
         @ (if responsesInstructions msgs = [] then [] else [(''instructions'', JStr (responsesInstructions msgs))])
         @ [(''input'', JArr input)]
         @ (if tools = [] then [] else [(''tools'', JArr (map (\<lambda>t. JObj [(''type'', JStr ''function''), (''name'', JStr (td_name t)),
              (''description'', JStr (td_description t)), (''parameters'', JObj (td_inputSchema t)), (''strict'', JBool native)]) tools)),
            (''tool_choice'', JStr ''auto'')]))))"

definition anthropicContent :: "(string \<Rightarrow> nat) \<Rightarrow> adapter_message \<Rightarrow> provider_error + jsval list" where
  "anthropicContent decoded m = bind_result (image_parts decoded 0 (am_images m)) (\<lambda>ps.
     Inr ((if mm_content m = [] then [] else [JObj [(''type'', JStr ''text''), (''text'', JStr (mm_content m))]])
       @ map (\<lambda>(k, data). JObj [(''type'', JStr ''image''), (''source'', JObj [(''type'', JStr ''base64''),
           (''media_type'', JStr (''image/'' @ k)), (''data'', JStr data)])]) ps))"

text \<open>The role and the blocks of one message.\<close>

definition anthropic_blocks :: "(string \<Rightarrow> nat) \<Rightarrow> adapter_message \<Rightarrow> provider_error + (message_role \<times> jsval list)" where
  "anthropic_blocks decoded m =
     (if mm_role m = AssistantRole then
        bind_result (throw_if (am_images m \<noteq> []) invalid_request) (\<lambda>_.
          Inr (AssistantRole, (if mm_content m = [] then [] else [JObj [(''type'', JStr ''text''), (''text'', JStr (mm_content m))]])
            @ map (\<lambda>c. JObj [(''type'', JStr ''tool_use''), (''id'', JStr (tc_id c)), (''name'', JStr (tc_name c)),
                (''input'', JObj (tc_arguments c))]) (nullish (mm_toolCalls m) [])))
      else if mm_role m = ToolRole then
        bind_result (throw_if (am_images m \<noteq> []) invalid_request) (\<lambda>_.
        bind_result (from_option invalid_request (truthy (mm_toolCallId m))) (\<lambda>i.
          Inr (UserRole, [JObj [(''type'', JStr ''tool_result''), (''tool_use_id'', JStr i), (''content'', JStr (mm_content m))]])))
      else bind_result (anthropicContent decoded m) (\<lambda>blocks. Inr (UserRole, blocks)))"

definition append_blocks :: "message_role \<times> jsval list \<Rightarrow> (message_role \<times> jsval list) list \<Rightarrow> (message_role \<times> jsval list) list" where
  "append_blocks m output = (if output \<noteq> [] \<and> fst (last output) = fst m
     then butlast output @ [(fst m, snd (last output) @ snd m)] else output @ [m])"

definition toAnthropicMessages :: "(string \<Rightarrow> nat) \<Rightarrow> adapter_message list \<Rightarrow> provider_error + (message_role \<times> jsval list) list" where
  "toAnthropicMessages decoded msgs =
     bind_result (map_result (anthropic_blocks decoded) (filter (\<lambda>m. mm_role m \<noteq> SystemRole) msgs)) (\<lambda>ms. Inr (fold append_blocks ms []))"

definition anthropicSystem :: "adapter_message list \<Rightarrow> provider_error + string" where
  "anthropicSystem msgs = (let system = filter (\<lambda>m. mm_role m = SystemRole) msgs in
     if list_ex (\<lambda>m. am_images m \<noteq> []) system then Inl invalid_request else Inr (join_with blank_line (map mm_content system)))"

definition anthropic_request :: "(string \<Rightarrow> nat) \<Rightarrow> string \<Rightarrow> tool_definition list \<Rightarrow> adapter_message list \<Rightarrow> provider_error + jsval" where
  "anthropic_request decoded model tools msgs =
     bind_result (anthropicSystem msgs) (\<lambda>system.
     bind_result (toAnthropicMessages decoded msgs) (\<lambda>ms.
       Inr (JObj ([(''model'', JStr model), (''max_tokens'', JNum 4096), (''stream'', JBool True)]
         @ (if system = [] then [] else [(''system'', JStr system)])
         @ [(''messages'', JArr (map (\<lambda>(r, blocks). JObj [(''role'', JStr (role_name r)), (''content'', JArr blocks)]) ms))]
         @ (if tools = [] then [] else [(''tools'', JArr (map (\<lambda>t. JObj [(''name'', JStr (td_name t)),
              (''description'', JStr (td_description t)), (''input_schema'', JObj (td_inputSchema t))]) tools))])))))"

definition stripBearer :: "string \<Rightarrow> string" where
  "stripBearer s = (if map to_lower (take 7 s) = ''bearer '' then drop 7 s else s)"

section \<open>Endpoints\<close>

text \<open>A parsed URL; \<open>resolve\<close> is \<open>new URL(relative, base)\<close>.\<close>

record endpoint_url =
  eu_origin :: string
  eu_protocol :: string
  eu_hostname :: string
  eu_credentials :: bool
  eu_href :: string

datatype endpoint_error = UrlMalformed | OriginNotAllowed | ProtocolForbidden | CredentialsEmbedded | PlainHttpRemote
  | OriginsMissing | BaseUrlMissing

definition ensureTrailingSlash :: "string \<Rightarrow> string" where
  "ensureTrailingSlash href = (if href \<noteq> [] \<and> last href = CHR ''/'' then href else href @ ''/'')"

definition isLoopbackHostname :: "string \<Rightarrow> bool" where
  "isLoopbackHostname hostname =
     (let s = map to_lower hostname;
          s = (case s of [] \<Rightarrow> [] | c # cs \<Rightarrow> if c = CHR ''['' then cs else s);
          s = (if s \<noteq> [] \<and> last s = CHR '']'' then butlast s else s);
          s = (if s \<noteq> [] \<and> last s = CHR ''.'' then butlast s else s) in
      s \<in> {''localhost'', ''127.0.0.1'', ''::1''})"

definition validateCompatibleEndpoint :: "endpoint_url option \<Rightarrow> string list \<Rightarrow> endpoint_error + endpoint_url" where
  "validateCompatibleEndpoint parsed allowed =
     bind_result (from_option UrlMalformed parsed) (\<lambda>u.
     bind_result (throw_if (eu_origin u \<notin> set allowed) OriginNotAllowed) (\<lambda>_.
     bind_result (throw_if (eu_protocol u \<notin> {''https:'', ''http:''}) ProtocolForbidden) (\<lambda>_.
     bind_result (throw_if (eu_protocol u = ''http:'' \<and> \<not> isLoopbackHostname (eu_hostname u)) PlainHttpRemote) (\<lambda>_. Inr u))))"

definition responses_endpoint :: "(string \<Rightarrow> string \<Rightarrow> string) \<Rightarrow> string option \<Rightarrow> endpoint_url option option \<Rightarrow> string list option \<Rightarrow> endpoint_error + string" where
  "responses_endpoint resolve provider baseUrl allowed = (case baseUrl of
     Some parsed \<Rightarrow> bind_result (from_option OriginsMissing allowed) (\<lambda>origins.
       bind_result (validateCompatibleEndpoint parsed origins) (\<lambda>u. Inr (resolve ''responses'' (ensureTrailingSlash (eu_href u)))))
   | None \<Rightarrow> if nullish provider ''openai'' \<noteq> ''openai'' then Inl BaseUrlMissing else Inr ''https://api.openai.com/v1/responses'')"

definition anthropic_endpoint :: "(string \<Rightarrow> string \<Rightarrow> string) \<Rightarrow> endpoint_url option \<Rightarrow> string list option \<Rightarrow> endpoint_error + string" where
  "anthropic_endpoint resolve parsed allowed =
     bind_result (from_option UrlMalformed parsed) (\<lambda>u.
     bind_result (throw_if (eu_origin u \<notin> set (nullish allowed [''https://api.anthropic.com''])) OriginNotAllowed) (\<lambda>_.
     bind_result (throw_if (eu_protocol u \<notin> {''https:'', ''http:''}) ProtocolForbidden) (\<lambda>_.
     bind_result (throw_if (eu_credentials u) CredentialsEmbedded) (\<lambda>_.
     bind_result (throw_if (eu_protocol u = ''http:'' \<and> \<not> isLoopbackHostname (eu_hostname u)) PlainHttpRemote) (\<lambda>_.
       Inr (resolve ''messages'' (ensureTrailingSlash (eu_href u))))))))"

end
