(* ===== verification/AdapterProperties.thy ===== *)
theory AdapterProperties
  imports ProviderEvents ProviderRequests
begin

text \<open>
  What the adapters of the providers guarantee: a stream of events completes exactly once or fails, the tool calls of a chat
  stream are put together from their fragments, and the messages sent to Anthropic alternate.
\<close>

section \<open>Streams\<close>

lemma stream_then_None [result_simps]:
  "stream_then s t = (es, None) \<longleftrightarrow> (\<exists>es1 es2. s = (es1, None) \<and> t = (es2, None) \<and> es = es1 @ es2)"
  by (cases s; cases t) (auto simp: stream_then_def split: option.splits)

lemma yields_None [result_simps]: "yields es = (es', r) \<longleftrightarrow> es' = es \<and> r = None"
  by (auto simp: yields_def)

lemma throws_None [simp]: "throws code \<noteq> (es, None)"
  by (simp add: throws_def)

lemma stream_then_yields: "stream_then (yields es) s = (es @ fst s, snd s)"
  by (cases s) (simp add: stream_then_def yields_def)

text \<open>A stream that does not fail completes exactly once, at its end; one that fails never completes.\<close>

definition is_completed :: "stream_event \<Rightarrow> bool" where
  "is_completed e \<longleftrightarrow> (case e of StreamCompleted r \<Rightarrow> True | _ \<Rightarrow> False)"

definition silent :: "stream_event list \<Rightarrow> bool" where "silent es \<longleftrightarrow> list_all (\<lambda>e. \<not> is_completed e) es"

definition completes_once :: "event_stream \<Rightarrow> bool" where
  "completes_once s \<longleftrightarrow> (case snd s of
     None \<Rightarrow> fst s \<noteq> [] \<and> silent (butlast (fst s)) \<and> is_completed (last (fst s))
   | Some e \<Rightarrow> silent (fst s))"

lemma silent_simps [simp]:
  "silent []" "silent (a @ b) \<longleftrightarrow> silent a \<and> silent b" "silent (e # es) \<longleftrightarrow> \<not> is_completed e \<and> silent es"
  "\<not> is_completed Accepted" "\<not> is_completed (StreamText s)" "\<not> is_completed (StreamCall i n v)" "\<not> is_completed (StreamUsage u)"
  "is_completed (StreamCompleted r)" "silent (text_event t)"
  by (auto simp: silent_def is_completed_def text_event_def split: option.splits)

lemma silent_concat [simp]: "silent (concat ess) \<longleftrightarrow> list_all silent ess"
  by (induction ess) auto

lemma completes_then:
  "silent (fst s) \<Longrightarrow> completes_once t \<Longrightarrow> completes_once (stream_then s t)"
  by (cases s; cases t) (auto simp: completes_once_def stream_then_def butlast_append split: option.splits)

lemma silent_then: "silent (fst s) \<Longrightarrow> silent (fst t) \<Longrightarrow> silent (fst (stream_then s t))"
  by (cases s; cases t) (auto simp: stream_then_def split: option.splits)

lemma silent_yields [simp]: "silent (fst (yields es)) \<longleftrightarrow> silent es" and silent_throws [simp]: "silent (fst (throws code))"
  by (simp_all add: yields_def throws_def)

lemma completes_end: "silent es \<Longrightarrow> completes_once (yields (es @ [StreamCompleted r]))"
  by (simp add: completes_once_def yields_def)

lemma completes_throws [simp]: "completes_once (throws code)"
  by (simp add: completes_once_def throws_def)

lemma completes_error: "silent es \<Longrightarrow> completes_once (es, Some e)"
  by (simp add: completes_once_def)

lemma pending_silent: "silent (fst (pending_calls parse cs))"
  by (induction cs) (auto intro: silent_then split: option.splits)

lemma answered_silent: "silent (fst (answered_calls parse cs))"
  by (induction parse cs rule: answered_calls.induct) (auto intro: silent_then split: option.splits)

lemma emitted_silent: "silent (fst (emitResponseCalls parse cs))"
  by (induction parse cs rule: emitResponseCalls.induct) (auto intro: silent_then split: option.splits jsval.splits)

lemma usage_silent: "silent (fst (emitResponsesUsage u))"
  by (auto simp: emitResponsesUsage_def split: option.splits)

lemma chat_loop_silent: "silent (fst (chat_loop chunk_of s ds fin))"
  by (induction ds arbitrary: s)
    (auto simp: chunk_events_def chat_usage_event_def list_all_iff split_beta split: option.splits)

lemma anthropic_loop_silent: "silent (fst (anthropic_loop event_of json s ds fin))"
  by (induction ds arbitrary: s) (auto simp: anthropic_text_def split_beta split: option.splits)

lemma streamOpenAi_completes: "completes_once (streamOpenAi chunk_of parse sse)"
proof (cases "chat_loop chunk_of \<lparr>cs_tools = [], cs_finishReason = None\<rparr> (fst sse) (snd sse)")
  case (Pair es r)
  then have "silent es" using chat_loop_silent by (metis fst_conv)
  with Pair pending_silent completes_end [of "[]", simplified] show ?thesis
    by (auto simp: streamOpenAi_def intro!: completes_then completes_error split: sum.splits)
qed

lemma streamAnthropic_completes: "completes_once (streamAnthropic event_of json parse sse)"
proof (cases "anthropic_loop event_of json anthropic_start (fst sse) (snd sse)")
  case (Pair es r)
  then have "silent es" using anthropic_loop_silent by (metis fst_conv)
  with Pair pending_silent completes_end [of "[StreamUsage u]" for u] show ?thesis
    by (auto simp: streamAnthropic_def intro!: completes_then completes_error split: sum.splits)
qed

lemma chat_answer_completes: "completes_once (chat_answer parse r)"
  using answered_silent completes_end [of "[]"] completes_end [of "[chat_usage_event u]" for u]
  by (auto simp: chat_answer_def chat_usage_event_def intro!: completes_then split: list.splits option.splits)

lemma anthropic_answer_completes: "completes_once (anthropic_answer r)"
proof -
  have "silent (content_events b)" for b by (auto simp: content_events_def split: option.splits)
  then show ?thesis
    using completes_end [of "concat (map content_events (ar_content r))
        @ (case ar_usage r of None \<Rightarrow> [] | Some (inp, out) \<Rightarrow> [StreamUsage (plain_usage inp out None None)])"]
    by (auto simp: anthropic_answer_def list_all_iff split: option.splits)
qed

lemma completed_completes: "completes_once (completed_events parse u calls)"
  unfolding completed_events_def
  by (intro completes_then emitted_silent usage_silent) (rule completes_end [of "[]", simplified])

lemma normalize_completes: "completes_once (normalizeOpenAiResponse parse body)"
proof -
  have "silent (item_texts i)" for i by (auto simp: item_texts_def list_all_iff)
  then show ?thesis
    by (auto simp: normalizeOpenAiResponse_def list_all_iff intro!: completes_then usage_silent completed_completes)
qed

text \<open>The events of a chat completion, of an Anthropic answer (streamed or not) and of a response of OpenAI that is not streamed complete
  exactly once, at their end, when the stream does not fail, and never when it fails: a truncated or broken answer is never
  reported as complete.\<close>

theorem answers_complete_once:
  "completes_once (openai_compatible_stream chunk_of parse status body)
   \<and> completes_once (anthropic_stream event_of json parse status body')
   \<and> completes_once (responses_stream response_of parse status (JsonBody answer))"
  by (auto simp: openai_compatible_stream_def anthropic_stream_def responses_stream_def completes_error
      intro!: completes_then streamOpenAi_completes streamAnthropic_completes chat_answer_completes anthropic_answer_completes
        normalize_completes split: answer_body.splits sum.splits)

section \<open>The tool calls of a chat stream\<close>

text \<open>The reference: all that the chunks before \<open>[DONE]\<close> say, and for every call, in the order of their numbers, its fragments joined.\<close>

definition sent_data :: "string list \<Rightarrow> string list" where
  "sent_data ds = takeWhile (\<lambda>d. d \<noteq> ''[DONE]'') ds"

definition sent_chunks :: "(string \<Rightarrow> chat_chunk option) \<Rightarrow> string list \<Rightarrow> chat_chunk list" where
  "sent_chunks chunk_of ds = map (the \<circ> chunk_of) (sent_data ds)"

definition sent_choices :: "chat_chunk list \<Rightarrow> chat_choice list" where
  "sent_choices cs = concat (map cc_choices cs)"

definition sent_parts :: "chat_chunk list \<Rightarrow> chat_part list" where
  "sent_parts cs = concat (map ch_toolCalls (sent_choices cs))"

definition joined :: "(chat_part \<Rightarrow> string option) \<Rightarrow> chat_part list \<Rightarrow> string" where
  "joined sel ps = concat (map (\<lambda>p. nullish (sel p) []) ps)"

definition joined_call :: "chat_part list \<Rightarrow> pending_call" where
  "joined_call ps = \<lparr>pc_id = joined cp_id ps, pc_name = joined cp_name ps, pc_arguments = joined cp_arguments ps\<rparr>"

definition parts_at :: "num \<Rightarrow> chat_part list \<Rightarrow> chat_part list" where
  "parts_at i ps = filter (\<lambda>p. cp_index p = i) ps"

definition sent_calls :: "chat_part list \<Rightarrow> pending_call list" where
  "sent_calls ps = map (\<lambda>i. joined_call (parts_at i ps)) (sorted_list_of_set (cp_index ` set ps))"

definition final_reason :: "chat_choice list \<Rightarrow> string option" where
  "final_reason chs = fold (\<lambda>c r. case ch_finishReason c of None \<Rightarrow> r | Some x \<Rightarrow> Some x) chs None"

definition call_event :: "(string \<Rightarrow> jsval option) \<Rightarrow> pending_call \<Rightarrow> stream_event" where
  "call_event parse c = StreamCall (pc_id c) (pc_name c) (the (parse (or_empty_object (pc_arguments c))))"

definition call_complete :: "(string \<Rightarrow> jsval option) \<Rightarrow> pending_call \<Rightarrow> bool" where
  "call_complete parse c \<longleftrightarrow> pc_id c \<noteq> [] \<and> pc_name c \<noteq> [] \<and> parse (or_empty_object (pc_arguments c)) \<noteq> None"

definition chat_reference :: "(string \<Rightarrow> jsval option) \<Rightarrow> chat_chunk list \<Rightarrow> stream_event list" where
  "chat_reference parse cs = concat (map chunk_events cs) @ map (call_event parse) (sent_calls (sent_parts cs))
     @ [StreamCompleted (reason_of (sent_parts cs \<noteq> [] \<or> final_reason (sent_choices cs) = Some ''tool_calls''))]"

definition tools_are :: "chat_part list \<Rightarrow> (num \<times> pending_call) list \<Rightarrow> bool" where
  "tools_are ps tools \<longleftrightarrow> distinct (map fst tools) \<and> fst ` set tools = cp_index ` set ps
     \<and> (\<forall>i c. map_of tools i = Some c \<longrightarrow> c = joined_call (parts_at i ps))"

lemma joined_extend: "joined_call (ps @ [p]) = extend_call p (joined_call ps)"
  by (simp add: joined_call_def extend_call_def joined_def)

lemma joined_none: "joined_call [] = no_call"
  by (simp add: joined_call_def no_call_def joined_def)

lemma parts_at_none: "i \<notin> cp_index ` set ps \<Longrightarrow> parts_at i ps = []"
  by (auto simp: parts_at_def filter_empty_conv)

lemma tools_are_part:
  assumes "tools_are ps tools" shows "tools_are (ps @ [p]) (add_part p tools)"
proof -
  let ?i = "cp_index p"
  have keys: "fst ` set tools = cp_index ` set ps" using assms by (simp add: tools_are_def)
  have "nullish (map_of tools ?i) no_call = joined_call (parts_at ?i ps)"
  proof (cases "map_of tools ?i")
    case None
    then have "?i \<notin> cp_index ` set ps" using keys by (metis map_of_eq_None_iff)
    with None parts_at_none joined_none show ?thesis by simp
  qed (use assms in \<open>simp add: tools_are_def\<close>)
  then have "add_part p tools = AList.update ?i (joined_call (parts_at ?i (ps @ [p]))) tools"
    by (simp add: add_part_def parts_at_def joined_extend)
  then show ?thesis
    using assms by (auto simp: tools_are_def update_conv' distinct_update keys parts_at_def dom_update split: if_splits)
qed

lemma tools_are_parts: "tools_are ps tools \<Longrightarrow> tools_are (ps @ qs) (fold add_part qs tools)"
proof (induction qs arbitrary: ps tools)
  case (Cons q qs)
  from Cons.IH [OF tools_are_part [OF Cons.prems, of q]] show ?case by simp
qed simp

lemma tools_in_order:
  assumes "tools_are ps tools" shows "in_order tools = sent_calls ps"
proof -
  let ?xs = "sort_key fst tools"
  have keys: "map fst ?xs = sorted_list_of_set (cp_index ` set ps)"
  proof (rule sorted_distinct_set_unique)
    show "distinct (map fst ?xs)" using assms by (simp add: tools_are_def distinct_map)
    show "set (map fst ?xs) = set (sorted_list_of_set (cp_index ` set ps))" using assms by (simp add: tools_are_def)
  qed simp_all
  have "snd e = joined_call (parts_at (fst e) ps)" if "e \<in> set tools" for e
    using assms that unfolding tools_are_def by (metis map_of_eq_Some_iff prod.collapse)
  then have "in_order tools = map (\<lambda>i. joined_call (parts_at i ps)) (map fst ?xs)"
    by (simp add: in_order_def)
  then show ?thesis by (simp add: keys sent_calls_def)
qed

lemma take_choices:
  "fold take_choice chs s = \<lparr>cs_tools = fold add_part (concat (map ch_toolCalls chs)) (cs_tools s),
     cs_finishReason = fold (\<lambda>c r. case ch_finishReason c of None \<Rightarrow> r | Some x \<Rightarrow> Some x) chs (cs_finishReason s)\<rparr>"
  by (induction chs arbitrary: s) (simp_all add: take_choice_def)

definition good_data :: "(string \<Rightarrow> chat_chunk option) \<Rightarrow> string \<Rightarrow> bool" where
  "good_data chunk_of d \<longleftrightarrow> (case chunk_of d of None \<Rightarrow> False | Some c \<Rightarrow> \<not> cc_error c)"

lemma sent_simps [simp]:
  "d \<noteq> ''[DONE]'' \<Longrightarrow> sent_data (d # ds) = d # sent_data ds" "sent_data (''[DONE]'' # ds) = []"
  "d \<noteq> ''[DONE]'' \<Longrightarrow> sent_chunks chunk_of (d # ds) = the (chunk_of d) # sent_chunks chunk_of ds"
  "sent_chunks chunk_of (''[DONE]'' # ds) = []" "sent_choices [] = []" "sent_choices (c # cs) = cc_choices c @ sent_choices cs"
  "chunk_of d = None \<Longrightarrow> \<not> good_data chunk_of d" "chunk_of d = Some c \<Longrightarrow> good_data chunk_of d = (\<not> cc_error c)"
  by (simp_all add: sent_data_def sent_chunks_def sent_choices_def good_data_def)

lemma chat_loop_Inr:
  "chat_loop chunk_of s ds fin = (es, Inr s') \<longleftrightarrow> ''[DONE]'' \<in> set ds \<and> list_all (good_data chunk_of) (sent_data ds)
     \<and> es = concat (map chunk_events (sent_chunks chunk_of ds)) \<and> s' = fold take_choice (sent_choices (sent_chunks chunk_of ds)) s"
proof (induction ds arbitrary: s es)
  case (Cons d ds)
  show ?case
  proof (cases "d = ''[DONE]'' \<or> chunk_of d = None")
    case False
    then obtain c where c: "chunk_of d = Some c" "d \<noteq> ''[DONE]''" by blast
    have "chat_loop chunk_of s (d # ds) fin = (es, Inr s') \<longleftrightarrow> (\<exists>es1. \<not> cc_error c \<and> es = chunk_events c @ es1
        \<and> chat_loop chunk_of (fold take_choice (cc_choices c) s) ds fin = (es1, Inr s'))"
      using c by (auto split: prod.splits)
    with c show ?thesis by (auto simp: Cons.IH)
  qed auto
qed simp

lemma pending_None:
  "pending_calls parse cs = (es, None) \<longleftrightarrow> list_all (call_complete parse) cs \<and> es = map (call_event parse) cs"
  by (induction cs arbitrary: es) (auto simp: result_simps call_complete_def call_event_def split: option.splits)

lemma fold_no_parts: "fold add_part qs tools = [] \<longleftrightarrow> qs = [] \<and> tools = []"
proof (induction qs arbitrary: tools)
  case (Cons q qs)
  have "add_part q tools \<noteq> []" by (cases tools) (auto simp: add_part_def)
  with Cons show ?case by simp
qed simp

text \<open>C40: A chat stream succeeds exactly when it reaches \<open>[DONE]\<close>, every chunk before can be read and reports no error, and every tool call
  has an identifier, a name and arguments that parse, once its fragments are joined; its events are then usage and texts in the order of the
  chunks, the calls in the order of their numbers, each joined from its fragments wherever they were, and the end.\<close>

theorem chat_stream_assembled:
  "streamOpenAi chunk_of parse (ds, fin) = (es, None) \<longleftrightarrow> ''[DONE]'' \<in> set ds \<and> list_all (good_data chunk_of) (sent_data ds)
     \<and> list_all (call_complete parse) (sent_calls (sent_parts (sent_chunks chunk_of ds)))
     \<and> es = chat_reference parse (sent_chunks chunk_of ds)"
proof -
  let ?cs = "sent_chunks chunk_of ds"
  let ?s = "fold take_choice (sent_choices ?cs) \<lparr>cs_tools = [], cs_finishReason = None\<rparr>"
  have "tools_are [] []" by (simp add: tools_are_def)
  then have "in_order (cs_tools ?s) = sent_calls (sent_parts ?cs)"
    using tools_are_parts [of "[]" "[]" "sent_parts ?cs"] by (simp add: take_choices sent_parts_def tools_in_order)
  moreover have "cs_tools ?s = [] \<longleftrightarrow> sent_parts ?cs = []" by (simp add: take_choices sent_parts_def fold_no_parts)
  moreover have "cs_finishReason ?s = final_reason (sent_choices ?cs)" by (simp add: take_choices final_reason_def)
  moreover have "streamOpenAi chunk_of parse (ds, fin) = (es, None) \<longleftrightarrow> (\<exists>es1 s. chat_loop chunk_of \<lparr>cs_tools = [], cs_finishReason = None\<rparr> ds fin
      = (es1, Inr s) \<and> (\<exists>es2. pending_calls parse (in_order (cs_tools s)) = (es2, None)
      \<and> es = es1 @ es2 @ [StreamCompleted (reason_of (cs_tools s \<noteq> [] \<or> cs_finishReason s = Some ''tool_calls''))]))"
    by (auto simp: streamOpenAi_def result_simps split: prod.splits sum.splits)
  ultimately show ?thesis by (auto simp: chat_loop_Inr pending_None chat_reference_def)
qed

section \<open>Messages for Anthropic\<close>

fun alternates :: "'a list \<Rightarrow> bool" where
  "alternates (a # b # xs) \<longleftrightarrow> a \<noteq> b \<and> alternates (b # xs)"
| "alternates xs \<longleftrightarrow> True"

text \<open>Every block with the role it has.\<close>

definition blocks_of :: "(message_role \<times> jsval list) list \<Rightarrow> (message_role \<times> jsval) list" where
  "blocks_of ms = concat (map (\<lambda>(r, bs). map (Pair r) bs) ms)"

lemma alternates_snoc: "alternates (xs @ [a]) \<longleftrightarrow> alternates xs \<and> (xs = [] \<or> last xs \<noteq> a)"
  by (induction xs rule: alternates.induct) auto

lemma append_blocks:
  assumes "alternates (map fst sofar)"
  shows "alternates (map fst (append_blocks m sofar))" "blocks_of (append_blocks m sofar) = blocks_of sofar @ blocks_of [m]"
    "fst ` set (append_blocks m sofar) = insert (fst m) (fst ` set sofar)"
proof -
  consider "sofar = []" | pre p where "sofar = pre @ [p]" by (cases sofar rule: rev_exhaust) auto
  note cases = this
  show "alternates (map fst (append_blocks m sofar))"
    by (cases rule: cases) (use assms in \<open>auto simp: append_blocks_def alternates_snoc last_map alternates_snoc [of "map fst pre @ [a]" for pre a, simplified]\<close>)
  show "blocks_of (append_blocks m sofar) = blocks_of sofar @ blocks_of [m]"
    by (cases rule: cases) (auto simp: append_blocks_def blocks_of_def split_beta)
  show "fst ` set (append_blocks m sofar) = insert (fst m) (fst ` set sofar)"
    by (cases rule: cases) (auto simp: append_blocks_def)
qed

lemma fold_append_blocks:
  "alternates (map fst sofar) \<Longrightarrow> alternates (map fst (fold append_blocks ms sofar))
     \<and> blocks_of (fold append_blocks ms sofar) = blocks_of sofar @ blocks_of ms
     \<and> fst ` set (fold append_blocks ms sofar) = fst ` set sofar \<union> fst ` set ms"
proof (induction ms arbitrary: sofar)
  case (Cons m ms)
  note a = append_blocks [OF Cons.prems, of m]
  from Cons.IH [OF a(1)] a show ?case by (simp add: blocks_of_def)
qed (simp add: blocks_of_def)

lemma anthropic_role: "anthropic_blocks decoded m = Inr p \<Longrightarrow> fst p \<in> {UserRole, AssistantRole}"
  by (auto simp: anthropic_blocks_def result_simps split: if_splits)

text \<open>The messages sent to Anthropic alternate between the assistant and the user, and hold exactly the blocks of the messages in their
  order, each under the role of its message; results of tools are the user's.\<close>

theorem anthropic_messages_alternate:
  assumes "toAnthropicMessages decoded msgs = Inr out"
  shows "alternates (map fst out) \<and> fst ` set out \<subseteq> {UserRole, AssistantRole}
    \<and> (\<exists>ms. map_result (anthropic_blocks decoded) (filter (\<lambda>m. mm_role m \<noteq> SystemRole) msgs) = Inr ms \<and> blocks_of out = blocks_of ms)"
proof -
  obtain ms where ms: "map_result (anthropic_blocks decoded) (filter (\<lambda>m. mm_role m \<noteq> SystemRole) msgs) = Inr ms"
    and out: "out = fold append_blocks ms []"
    using assms by (auto simp: toAnthropicMessages_def result_simps)
  have "fst ` set ms' \<subseteq> {UserRole, AssistantRole}" if "map_result (anthropic_blocks decoded) l = Inr ms'" for l ms'
    using that by (induction l arbitrary: ms') (fastforce simp: result_simps dest: anthropic_role)+
  with ms out fold_append_blocks [of "[]" ms] show ?thesis by (simp add: blocks_of_def)
qed

section \<open>Examples\<close>

definition sample_message :: "message_role \<Rightarrow> string \<Rightarrow> tool_call list option \<Rightarrow> string option \<Rightarrow> adapter_message" where
  "sample_message r s calls i = \<lparr>mm_role = r, mm_content = s, mm_toolCalls = calls, mm_toolCallId = i, am_images = []\<rparr>"

definition sample_messages :: "adapter_message list" where
  "sample_messages = [sample_message UserRole ''a'' None None, sample_message UserRole ''b'' None None,
     sample_message AssistantRole ''c'' (Some [\<lparr>tc_id = ''1'', tc_name = ''f'', tc_arguments = []\<rparr>]) None,
     sample_message ToolRole ''d'' None (Some ''1'')]"

lemma sample_alternating:
  "toAnthropicMessages (\<lambda>s. 0) sample_messages = Inr
     [(UserRole, [JObj [(''type'', JStr ''text''), (''text'', JStr ''a'')], JObj [(''type'', JStr ''text''), (''text'', JStr ''b'')]]),
      (AssistantRole, [JObj [(''type'', JStr ''text''), (''text'', JStr ''c'')],
         JObj [(''type'', JStr ''tool_use''), (''id'', JStr ''1''), (''name'', JStr ''f''), (''input'', JObj [])]]),
      (UserRole, [JObj [(''type'', JStr ''tool_result''), (''tool_use_id'', JStr ''1''), (''content'', JStr ''d'')]])]"
  by (simp add: toAnthropicMessages_def sample_messages_def sample_message_def anthropic_blocks_def anthropicContent_def
      append_blocks_def truthy_def)

theorem anthropic_messages_alternate_witness:
  "\<exists>out. toAnthropicMessages (\<lambda>s. 0) sample_messages = Inr out \<and> map fst out = [UserRole, AssistantRole, UserRole] \<and> alternates (map fst out)"
  using anthropic_messages_alternate [OF sample_alternating] sample_alternating by simp

definition sample_completed :: responses_event where
  "sample_completed = \<lparr>re_type = Some ''response.completed'', re_sequenceNumber = None, re_delta = None, re_arguments = None, re_callId = None,
     re_itemId = None, re_name = None, re_outputIndex = None, re_item = None, re_response = None, re_code = None\<rparr>"

text \<open>After \<open>response.completed\<close> the stream of responses is read on: a second one completes the turn a second time, with all its
  tool calls.\<close>

lemma responses_complete_twice:
  "streamOpenAiResponses (\<lambda>d. Some sample_completed) parse ([''x'', ''x''], None) = ([StreamCompleted FinishStop, StreamCompleted FinishStop], None)"
  by (simp add: streamOpenAiResponses_def sample_completed_def truthy_def check_sequence_def responses_step_def Let_def
      completed_events_def mergeResponseOutput_def in_order_def emitResponsesUsage_def stream_then_def yields_def reason_of_def)

text \<open>A chat answer that was cut off at its token limit completes like a whole one.\<close>

lemma cut_answer_completes:
  "streamOpenAi (\<lambda>d. Some \<lparr>cc_choices = [\<lparr>ch_content = Some ''a'', ch_toolCalls = [], ch_finishReason = Some ''length''\<rparr>],
       cc_usage = None, cc_error = False\<rparr>) parse ([''x'', ''[DONE]''], None)
     = ([StreamText ''a'', StreamCompleted FinishStop], None)"
  by (simp add: streamOpenAi_def take_choice_def chunk_events_def text_event_def truthy_def in_order_def stream_then_def yields_def reason_of_def)

end
