(* ===== verification/Spec2Isabelle.thy ===== *)
theory Spec2Isabelle
  imports StoreFingerprints ControlGuarantees ControlQueue ControlChildren AuthProperties ManagerPublish
    GatewayProperties GatewayLimits GatewayStream AgentDevelopment RuntimeProperties
    ProviderProperties ProviderStream AutomationProperties WorkspaceProperties
    WorkspaceQueue Subagents ContextAssembly MemoryStore ProcessRpcProperties PluginGuarantees
    IntegrationProperties AdapterProperties
begin

text \<open>
  A verification development of lite-harness, a server that runs agents for many tenants. A
  client talks to the Gateway (\<open>apps/gateway\<close>), which authenticates it and forwards what it may ask for to
  the Manager (\<open>apps/manager\<close>). The Manager keeps all durable state in a SQLite store and executes runs with the
  run coordinator (\<open>packages/control-plane\<close>), one agent loop (\<open>packages/agent-runtime\<close>) per execution, which asks a
  model through the provider gateway (\<open>packages/provider-core\<close>) and calls tools in a workspace
  (\<open>packages/runtime\<close>, \<open>packages/workspace\<close>). Triggers (\<open>packages/automation\<close>) start runs at given times.

  \<^bold>\<open>Conventions.\<close> A thrown error is \<open>Inl\<close>, a result \<open>Inr\<close>; every error of a component is a constructor of its
  error type. Stateful code takes its state and returns it. The clock, fresh identifiers and the answers
  of awaited calls are arguments; cryptography, time-zone data, the URL parser, JSON text lengths and JSON
  schemas of the outside are function parameters. A property that needs something of a parameter says so in
  a hypothesis. An asynchronous operation is cut at its awaits, and other operations may happen between
  the parts. JavaScript numbers are exact rationals (no rounding), times are milliseconds, strings are lists of
  characters.

  \<^bold>\<open>Shared.\<close> \<open>Prelude\<close>: results, JavaScript values, tables and their lemmas (\<open>result_simps\<close>, \<open>table_simps\<close>).
  \<open>Contracts\<close>: the types of \<open>packages/contracts\<close>. \<open>Domain\<close>: the table of run transitions.

  \<^bold>\<open>The store\<close> (\<open>packages/storage-sqlite\<close>, class \<open>SqliteRunStore\<close>). \<open>StoreTables\<close> has the rows, the converters and the
  fingerprint of a request, \<open>StoreRuns\<close> runs, events, sessions and usage, \<open>StoreLeases\<close> workspace leases, \<open>StoreRecords\<close> the rest; each
  operation is a function \<open>db \<Rightarrow> store_error + 'a \<times> db\<close>, one transaction. \<open>StoreMachine\<close> is the step relation of all writing operations with
  its reachable states and invariants. \<open>StoreTheorems\<close>, \<open>StoreProperties\<close>, \<open>StoreGuarantees\<close>, \<open>StoreFingerprints\<close>: the event
  log has no gaps, terminal runs and decided approvals are final, idempotency, stored plans are frozen. \<open>Fencing\<close> is the interface of a fenced lease,
  interpreted in \<open>StoreFencing\<close> on the lease table: mutual exclusion and fencing tokens.

  \<^bold>\<open>The coordinator\<close> (\<open>packages/control-plane\<close>, class \<open>RunService\<close>). \<open>ControlValues\<close>: budgets, queue keys, digests. \<open>ControlPlane\<close>: creating,
  steering, cancelling, approving, children. \<open>ControlExecution\<close>: the queue and the execution of a run in segments. \<open>ControlSteps\<close>: all of it as a step
  relation, and the locale \<open>store_client\<close>, by which a fact about the store holds of every step of the
  coordinator. \<open>ControlProperties\<close>, \<open>ControlGuarantees\<close>, \<open>ControlQueue\<close>, \<open>ControlChildren\<close>: runs follow the state machine and
  end (the finalization is two segments around the wait for the cleanup), executions of one workspace or session do not
  overlap, children stay within budget and authority.

  \<^bold>\<open>Authentication\<close> (\<open>packages/auth\<close>, \<open>packages/auth-sqlite\<close>). \<open>AuthTokens\<close>, \<open>AuthService\<close>; \<open>AuthProperties\<close> with the locale
  \<open>token_registry\<close>: run tokens stay within their parents, revocation is final, one application token lives.

  \<^bold>\<open>Manager and Gateway.\<close> \<open>ManagerApi\<close> has the routes of \<open>apps/manager/src/server.ts\<close>; \<open>Tenants\<close> and \<open>ManagerIsolation\<close> show by the locale
  \<open>owned_runs\<close> that a request on one of its 23 routes changes nothing of other owners (the inbound webhook, artifact, plugin and
  workspace-file routes are not among them); \<open>ManagerPublish\<close> is the publication of artifacts
  between two checks of the lease. \<open>Gateway\<close> and \<open>GatewayStream\<close> model \<open>apps/gateway/src/server.ts\<close> as
  programs of calls to the Manager, the loop of the event stream included; \<open>GatewayRuns\<close> runs them; \<open>GatewayAnswers\<close>, \<open>GatewayProperties\<close>, \<open>GatewayLimits\<close>: what they ask for and
  show belongs to the credential, an event stream is the log, failed authentications are limited however requests overtake
  each other.

  \<^bold>\<open>Agents and tools.\<close> \<open>AgentLoop\<close> is \<open>AgentRunner.run\<close> over any world; \<open>AgentTraces\<close> logs its actions, \<open>AgentProperties\<close>
  shows (locale \<open>tool_gate\<close>) that a tool is executed only after its checks and that the loop ends; \<open>AgentGate\<close> plugs in the
  policy of the coordinator; \<open>AgentDevelopment\<close> has the scripted model and the examples. \<open>RuntimeTools\<close>
  and \<open>RuntimeProperties\<close>: path validation, the tool runtime in memory as a map, the broker.

  \<^bold>\<open>Providers.\<close> \<open>ProviderRoutes\<close>: the model registry, frozen route plans, the turn with its fallbacks and the authoritative
  cost. \<open>ProviderProperties\<close>: no second request after a visible one, priced usage. \<open>ProviderStream\<close>: the reader of
  server-sent events against the events of the whole text. \<open>ProviderEvents\<close> and \<open>ProviderRequests\<close> are the adapters of
  \<open>packages/provider-openai-compatible\<close> and \<open>packages/provider-anthropic\<close>; \<open>AdapterProperties\<close>: a turn completes once, tool calls are joined from
  their fragments, messages alternate.

  \<^bold>\<open>Automation.\<close> \<open>Automation\<close>: both trigger stores, occurrences and the scheduler. \<open>AutomationProperties\<close>: the locale
  \<open>trigger_leases\<close> for both stores, one-shot triggers, occurrences on the grid and at local time.

  \<^bold>\<open>Workspaces\<close> (\<open>packages/workspace\<close>). \<open>WorkspaceSnapshots\<close>: the snapshot store as programs over four files whose calls may fail,
  with triples over every state on the way: a crash loses nothing. \<open>WorkspaceLifecycle\<close>: restoring before and
  snapshotting after a run, over the store and the snapshots; \<open>WorkspaceProperties\<close>: no files are lost, a cold
  workspace comes back as it was. \<open>WorkspaceQueue\<close>: the queue of snapshot jobs, which answers everybody but those who ask
  while the job of their workspace ends.

  \<^bold>\<open>Around the agent.\<close> \<open>Subagents\<close> (\<open>packages/subagents\<close>): the graph of runs, budgets that shrink downwards,
  cancellation of a subtree. \<open>ContextAssembly\<close> (\<open>packages/context\<close>): the blocks an agent is given and their rendering, with a cache shared by
  tenants. \<open>MemoryStore\<close> (\<open>packages/memory-sqlite\<close>): memories and their search. \<open>ProcessRpc\<close>, \<open>ProcessRpcProperties\<close> (\<open>packages/process-rpc\<close>): requests to
  child processes by lines of JSON, each settled once, independent of the chunks of the output.

  \<^bold>\<open>Plugins.\<close> \<open>PluginLock\<close> is the lock file of \<open>packages/plugin-core\<close> with its check and its operations; \<open>PluginLifecycle\<close> is
  \<open>ManagerPluginLifecycle\<close> (\<open>apps/manager/src/plugin-lifecycle.ts\<close>) with the package installer, written with the combinators and triples of
  \<open>Effects\<close>: at each await, runs may be pinned, tools called and the process stopped. \<open>PluginLockProperties\<close> says what each operation does to the
  file, \<open>PluginInvariant\<close> and \<open>PluginProperties\<close> carry the invariant of memory, file and directory through every
  operation, \<open>PluginGuarantees\<close> has the properties: pinned runs keep their generations, a restart restores the versions, the
  file stays well formed, a rollback undoes an activation. \<open>TextPatterns\<close>: character classes and splitting.

  \<^bold>\<open>Integrations\<close> (\<open>packages/integrations\<close>). \<open>Integrations\<close>: inbound messages, the store of deliveries, the router, the coordinator of the
  replies, the connectors. \<open>IntegrationProperties\<close> is the step relation of any number of routers and coordinators: a delivery starts
  one run, nobody begins to answer a delivery again that is answered or has failed.

  \<^bold>\<open>Fuel.\<close> The agent loop takes its turn limit, the model streams are finite lists. The search for a local time
  uses the six iterations and four days of the code. The rounds and polls of an event stream and the
  chunks of a provider are lists of answers. Everything else is structural recursion or has a measure.

  \<^bold>\<open>Not modelled.\<close> The creation and migration of tables; telemetry and logging; the bytes of JSON, HTTP, gzip and ciphers;
  registered paths, recovery bundles and artifacts of \<open>packages/workspace\<close>; the connection-aware gateway and the
  credential brokers of \<open>packages/provider-core\<close>; the Docker runtime, browser, the execution of plugins, MCP client and the wiring of the processes, which are
  input and output; the pxpipe renderer of \<open>packages/context\<close> and \<open>runJsonLineProcess\<close>; and the packages
  \<open>skills\<close>, \<open>operations\<close>, \<open>config\<close>.
\<close>

end
